(* ===== verification/Prelude.thy ===== *)
theory Prelude
  imports Main "HOL-Library.Word"
begin

unbundle bit_operations_syntax

text \<open>
  Shared vocabulary of the development: the machine integer types of the C sources, the
  conversions the C code performs implicitly, little-endian byte images of integers, byte
  memories, and the maps the BPF programs keep their state in. The named collections gather
  the rewrite rules the component theories use:
  \<^item> \<open>cconv\<close>: unfolding rules for C integer conversions;
  \<^item> \<open>mem_simps\<close>: reading back what was written to a byte memory;
  \<^item> \<open>bpf_simps\<close>: the behaviour of BPF map operations.
\<close>

named_theorems cconv
named_theorems mem_simps
named_theorems bpf_simps

section \<open>Machine integers\<close>

type_synonym u8 = "8 word"
type_synonym u16 = "16 word"
type_synonym u32 = "32 word"
type_synonym u64 = "64 word"

text \<open>
  Signed C types are carried as words of the same width and read with \<open>sint\<close>; \<open>s32\<close> is
  C's \<open>int\<close>, \<open>s64\<close> is \<open>long\<close> and \<open>long long\<close>.
\<close>

type_synonym s32 = "32 word"
type_synonym s64 = "64 word"

text \<open>Truncating a 64-bit register to \<open>int\<close>, and promoting an \<open>int\<close> back to 64 bits.\<close>

abbreviation to_int :: "u64 \<Rightarrow> s32" where
  "to_int x \<equiv> ucast x"

abbreviation of_int32 :: "s32 \<Rightarrow> u64" where
  "of_int32 x \<equiv> scast x"

section \<open>Generic lemmas on words\<close>

lemma ucast_scast_eq:
  assumes "LENGTH('b::len) \<le> LENGTH('a::len)"
  shows "(ucast (scast (w :: 'b word) :: 'a word) :: 'b word) = w"
proof (rule bit_word_eqI)
  fix n
  assume n: "n < LENGTH('b)"
  then have "n = LENGTH('b) - Suc 0 \<or> n < LENGTH('b) - Suc 0"
    by linarith
  with n assms show "bit (ucast (scast w :: 'a word) :: 'b word) n \<longleftrightarrow> bit w n"
    by (auto simp: bit_unsigned_iff bit_signed_iff min_def)
qed

lemma unat_ucast_up:
  assumes "LENGTH('a) \<le> LENGTH('b)"
  shows "unat (ucast (w :: 'a::len word) :: 'b::len word) = unat w"
proof -
  have "unat w < 2 ^ LENGTH('b)"
    using unsigned_less [where ?'a = nat, of w] assms
    by (meson less_le_trans one_le_numeral power_increasing)
  then show ?thesis by (simp add: unsigned_ucast_eq take_bit_nat_eq_self)
qed

lemma unat_high_half: "unat (drop_bit 32 (w :: u64)) < 2 ^ 32"
proof -
  have "unat w < 2 ^ 32 * 2 ^ 32"
    using unsigned_less [where ?'a = nat, of w] by simp
  then have "unat w div 2 ^ 32 < 2 ^ 32"
    by (rule less_mult_imp_div_less)
  then show ?thesis by (simp add: unat_drop_bit_eq drop_bit_eq_div [where ?'a = nat])
qed

section \<open>Generic lemmas on maps\<close>

lemma map_upd_other [simp]: "k \<noteq> k' \<Longrightarrow> (m(k \<mapsto> v)) k' = m k'"
  by simp

section \<open>BPF maps\<close>

text \<open>
  A BPF hash map is a partial function. \<open>bpf_map_update_elem\<close> with \<open>BPF_ANY\<close> replaces the
  value of a present key; for a new key the kernel needs a free element, and the call fails
  without effect when it has none. Whether it has one is an input (\<open>room\<close>) of every call
  site: the sources ignore the result of the call, so both outcomes have to be followed.
\<close>

definition bpf_update :: "bool \<Rightarrow> ('k \<rightharpoonup> 'v) \<Rightarrow> 'k \<Rightarrow> 'v \<Rightarrow> ('k \<rightharpoonup> 'v)" where
  "bpf_update room m k v = (if m k \<noteq> None \<or> room then m(k \<mapsto> v) else m)"

text \<open>\<open>BPF_NOEXIST\<close>: insert only.\<close>

definition bpf_insert :: "bool \<Rightarrow> ('k \<rightharpoonup> 'v) \<Rightarrow> 'k \<Rightarrow> 'v \<Rightarrow> ('k \<rightharpoonup> 'v)" where
  "bpf_insert room m k v = (if m k = None \<and> room then m(k \<mapsto> v) else m)"

definition bpf_delete :: "('k \<rightharpoonup> 'v) \<Rightarrow> 'k \<Rightarrow> ('k \<rightharpoonup> 'v)" where
  "bpf_delete m k = m(k := None)"

lemma bpf_update_same [bpf_simps, simp]:
  "bpf_update room m k v k = (if m k \<noteq> None \<or> room then Some v else None)"
  by (auto simp: bpf_update_def)

lemma bpf_update_other [bpf_simps, simp]: "k' \<noteq> k \<Longrightarrow> bpf_update room m k v k' = m k'"
  by (simp add: bpf_update_def)

lemma bpf_insert_same [bpf_simps, simp]:
  "bpf_insert room m k v k = (case m k of None \<Rightarrow> if room then Some v else None | Some w \<Rightarrow> Some w)"
  by (auto simp: bpf_insert_def split: option.splits)

lemma bpf_insert_other [bpf_simps, simp]: "k' \<noteq> k \<Longrightarrow> bpf_insert room m k v k' = m k'"
  by (simp add: bpf_insert_def)

lemma bpf_delete_apply [bpf_simps, simp]: "bpf_delete m k k' = (if k' = k then None else m k')"
  by (simp add: bpf_delete_def)

section \<open>Append-only logs\<close>

text \<open>
  The interface of a component that batches what it is given: behind its caches the state denotes
  a byte stream (\<open>stream\<close>), and an operation allowed by \<open>ok\<close> appends the image of its argument to
  that stream, however the component splits it between caches and messages.
\<close>

locale append_log =
  fixes inv :: "'s \<Rightarrow> bool" and stream :: "'s \<Rightarrow> 'b list"
    and ok :: "'o \<Rightarrow> bool" and op :: "'o \<Rightarrow> 's \<Rightarrow> 's" and image :: "'o \<Rightarrow> 's \<Rightarrow> 'b list"
  assumes inv_op: "inv s \<Longrightarrow> ok x \<Longrightarrow> inv (op x s)"
    and stream_op: "inv s \<Longrightarrow> ok x \<Longrightarrow> stream (op x s) = stream s @ image x s"
begin

primrec images :: "'o list \<Rightarrow> 's \<Rightarrow> 'b list" where
  "images [] s = []"
| "images (x # xs) s = image x s @ images xs (op x s)"

lemma run_inv: "inv s \<Longrightarrow> list_all ok xs \<Longrightarrow> inv (fold op xs s)"
  by (induction xs arbitrary: s) (simp_all add: inv_op)

lemma run_stream: "inv s \<Longrightarrow> list_all ok xs \<Longrightarrow> stream (fold op xs s) = stream s @ images xs s"
  by (induction xs arbitrary: s) (simp_all add: inv_op stream_op)

end

end
