(* ===== verification/Kdarshan_Types.thy ===== *)
theory Kdarshan_Types
  imports Prelude
begin

text \<open>
  The data shared by the I/O probe and its userspace reader: \<^verbatim>\<open>src/kdarshan.h\<close> and
  \<^verbatim>\<open>src/dlogger.h\<close>. The two enumerations index the counter arrays of a file's statistics; an
  array indexed by an enumeration is a function from that enumeration.
\<close>

section \<open>Counter indices (\<^verbatim>\<open>enum darshan_posix_indices\<close>, \<^verbatim>\<open>enum darshan_posix_f_indices\<close>)\<close>

datatype (plugins only: code) posix_index =
    POSIX_OPENS | POSIX_FILENOS | POSIX_DUPS | POSIX_READS | POSIX_WRITES | POSIX_SEEKS
  | POSIX_STATS | POSIX_MMAPS | POSIX_FSYNCS | POSIX_FDSYNCS | POSIX_RENAME_SOURCES
  | POSIX_RENAME_TARGETS | POSIX_RENAMED_FROM | POSIX_MODE | POSIX_BYTES_READ
  | POSIX_BYTES_WRITTEN | POSIX_MAX_BYTE_READ | POSIX_MAX_BYTE_WRITTEN | POSIX_CONSEC_READS
  | POSIX_CONSEC_WRITES | POSIX_SEQ_READS | POSIX_SEQ_WRITES | POSIX_RW_SWITCHES
  | POSIX_MEM_NOT_ALIGNED | POSIX_MEM_ALIGNMENT | POSIX_FILE_NOT_ALIGNED
  | POSIX_FILE_ALIGNMENT | POSIX_MAX_READ_TIME_SIZE | POSIX_MAX_WRITE_TIME_SIZE
  | POSIX_SIZE_READ_0_100 | POSIX_SIZE_READ_100_1K | POSIX_SIZE_READ_1K_10K
  | POSIX_SIZE_READ_10K_100K | POSIX_SIZE_READ_100K_1M | POSIX_SIZE_READ_1M_4M
  | POSIX_SIZE_READ_4M_10M | POSIX_SIZE_READ_10M_100M | POSIX_SIZE_READ_100M_1G
  | POSIX_SIZE_READ_1G_PLUS | POSIX_SIZE_WRITE_0_100 | POSIX_SIZE_WRITE_100_1K
  | POSIX_SIZE_WRITE_1K_10K | POSIX_SIZE_WRITE_10K_100K | POSIX_SIZE_WRITE_100K_1M
  | POSIX_SIZE_WRITE_1M_4M | POSIX_SIZE_WRITE_4M_10M | POSIX_SIZE_WRITE_10M_100M
  | POSIX_SIZE_WRITE_100M_1G | POSIX_SIZE_WRITE_1G_PLUS | POSIX_STRIDE1_STRIDE
  | POSIX_STRIDE2_STRIDE | POSIX_STRIDE3_STRIDE | POSIX_STRIDE4_STRIDE | POSIX_STRIDE1_COUNT
  | POSIX_STRIDE2_COUNT | POSIX_STRIDE3_COUNT | POSIX_STRIDE4_COUNT | POSIX_ACCESS1_ACCESS
  | POSIX_ACCESS2_ACCESS | POSIX_ACCESS3_ACCESS | POSIX_ACCESS4_ACCESS | POSIX_ACCESS1_COUNT
  | POSIX_ACCESS2_COUNT | POSIX_ACCESS3_COUNT | POSIX_ACCESS4_COUNT | POSIX_FASTEST_RANK
  | POSIX_FASTEST_RANK_BYTES | POSIX_SLOWEST_RANK | POSIX_SLOWEST_RANK_BYTES

datatype (plugins only: code) posix_f_index =
    POSIX_F_OPEN_START_TIMESTAMP | POSIX_F_READ_START_TIMESTAMP
  | POSIX_F_WRITE_START_TIMESTAMP | POSIX_F_CLOSE_START_TIMESTAMP
  | POSIX_F_OPEN_END_TIMESTAMP | POSIX_F_READ_END_TIMESTAMP | POSIX_F_WRITE_END_TIMESTAMP
  | POSIX_F_CLOSE_END_TIMESTAMP | POSIX_F_READ_TIME | POSIX_F_WRITE_TIME | POSIX_F_META_TIME
  | POSIX_F_MAX_READ_TIME | POSIX_F_MAX_WRITE_TIME | POSIX_F_FASTEST_RANK_TIME
  | POSIX_F_SLOWEST_RANK_TIME | POSIX_F_VARIANCE_RANK_TIME | POSIX_F_VARIANCE_RANK_BYTES

section \<open>Structures\<close>

record kdarshan_file_stats =
  st_path_hash :: u64
  counters :: "posix_index \<Rightarrow> s64"
  fcounters :: "posix_f_index \<Rightarrow> u64"

record fd_state =
  fs_path_hash :: u64
  last_byte_read :: s64
  last_byte_written :: s64
  last_io_type :: u32 \<comment> \<open>0: none, 1: read, 2: write\<close>

record open_args =
  oa_filename :: u64 \<comment> \<open>user address\<close>
  oa_dfd :: s32
  oa_flags :: s32
  oa_mode :: s32

record rw_args =
  rw_fd :: s32
  rw_offset :: s64
  rw_length :: s64 \<comment> \<open>holds the buffer address between entry and exit\<close>
  rw_start_ns :: u64

record path_event =
  pe_path_hash :: u64
  pe_pid :: u32
  pe_cgroup_id :: u64
  pe_start_time :: u64
  pe_comm :: string
  pe_path :: string \<comment> \<open>the bytes before the terminating NUL, at most \<open>MAX_PATH_LEN - 1\<close>\<close>

record dxt_event =
  dx_path_hash :: u64
  dx_start_ns :: u64
  dx_end_ns :: u64
  dx_offset :: s64
  dx_length :: s64
  dx_pid :: u32
  dx_cgroup_id :: u64
  dx_start_time :: u64
  dx_write_flag :: u32

definition MAX_PATH_LEN :: nat where
  "MAX_PATH_LEN = 256"

section \<open>Counter updates\<close>

text \<open>\<open>stats->counters[i] = v\<close>, \<open>stats->counters[i] += v\<close>, and the same for \<open>fcounters\<close>.\<close>

definition set_counter :: "posix_index \<Rightarrow> s64 \<Rightarrow> kdarshan_file_stats \<Rightarrow> kdarshan_file_stats" where
  "set_counter i v st = st\<lparr>counters := (counters st)(i := v)\<rparr>"

definition add_counter :: "posix_index \<Rightarrow> s64 \<Rightarrow> kdarshan_file_stats \<Rightarrow> kdarshan_file_stats" where
  "add_counter i v st = set_counter i (counters st i + v) st"

definition set_fcounter :: "posix_f_index \<Rightarrow> u64 \<Rightarrow> kdarshan_file_stats \<Rightarrow> kdarshan_file_stats" where
  "set_fcounter i v st = st\<lparr>fcounters := (fcounters st)(i := v)\<rparr>"

definition add_fcounter :: "posix_f_index \<Rightarrow> u64 \<Rightarrow> kdarshan_file_stats \<Rightarrow> kdarshan_file_stats" where
  "add_fcounter i v st = set_fcounter i (fcounters st i + v) st"

named_theorems stat_simps

lemma counters_set_counter [stat_simps]:
  "counters (set_counter i v st) j = (if j = i then v else counters st j)"
  by (simp add: set_counter_def)

lemma counters_add_counter [stat_simps]:
  "counters (add_counter i v st) j = (if j = i then counters st i + v else counters st j)"
  by (simp add: add_counter_def counters_set_counter)

lemma fcounters_set_fcounter [stat_simps]:
  "fcounters (set_fcounter i v st) j = (if j = i then v else fcounters st j)"
  by (simp add: set_fcounter_def)

lemma fcounters_add_fcounter [stat_simps]:
  "fcounters (add_fcounter i v st) j = (if j = i then fcounters st i + v else fcounters st j)"
  by (simp add: add_fcounter_def fcounters_set_fcounter)

lemma counter_frame [stat_simps, simp]:
  "counters (set_fcounter k w st) = counters st"
  "counters (add_fcounter k w st) = counters st"
  "fcounters (set_counter i v st) = fcounters st"
  "fcounters (add_counter i v st) = fcounters st"
  "st_path_hash (set_counter i v st) = st_path_hash st"
  "st_path_hash (add_counter i v st) = st_path_hash st"
  "st_path_hash (set_fcounter k w st) = st_path_hash st"
  "st_path_hash (add_fcounter k w st) = st_path_hash st"
  by (simp_all add: set_counter_def add_counter_def set_fcounter_def add_fcounter_def)

text \<open>
  The guarded stores the handlers use: \<open>if (c) counters[i] += 1\<close>; \<open>if (counters[i] < v) counters[i] = v\<close>;
  \<open>if (fcounters[i] == 0) fcounters[i] = v\<close>; \<open>if (fcounters[i] == 0 || fcounters[i] > v) fcounters[i] = v\<close>;
  and the pair of stores that remembers the slowest transfer with its size.
\<close>

definition count_if :: "bool \<Rightarrow> posix_index \<Rightarrow> kdarshan_file_stats \<Rightarrow> kdarshan_file_stats" where
  "count_if c i st = (if c then add_counter i 1 st else st)"

definition raise_counter :: "posix_index \<Rightarrow> s64 \<Rightarrow> kdarshan_file_stats \<Rightarrow> kdarshan_file_stats" where
  "raise_counter i v st = (if counters st i <s v then set_counter i v st else st)"

definition init_fcounter :: "posix_f_index \<Rightarrow> u64 \<Rightarrow> kdarshan_file_stats \<Rightarrow> kdarshan_file_stats" where
  "init_fcounter i v st = (if fcounters st i = 0 then set_fcounter i v st else st)"

definition earliest_fcounter :: "posix_f_index \<Rightarrow> u64 \<Rightarrow> kdarshan_file_stats \<Rightarrow> kdarshan_file_stats" where
  "earliest_fcounter i v st =
     (if fcounters st i = 0 \<or> fcounters st i > v then set_fcounter i v st else st)"

definition record_slowest ::
  "posix_f_index \<Rightarrow> posix_index \<Rightarrow> u64 \<Rightarrow> s64 \<Rightarrow> kdarshan_file_stats \<Rightarrow> kdarshan_file_stats" where
  "record_slowest fi i elapsed len st =
     (if fcounters st fi < elapsed then set_counter i len (set_fcounter fi elapsed st) else st)"

lemma counters_guarded [stat_simps]:
  "counters (count_if c i st) j = (if c \<and> j = i then counters st i + 1 else counters st j)"
  "counters (raise_counter i v st) j = (if j = i \<and> counters st i <s v then v else counters st j)"
  "counters (record_slowest fi i elapsed len st) j =
     (if j = i \<and> fcounters st fi < elapsed then len else counters st j)"
  by (simp_all add: count_if_def raise_counter_def record_slowest_def stat_simps)

lemma fcounters_guarded [stat_simps]:
  "fcounters (init_fcounter k v st) j = (if j = k \<and> fcounters st k = 0 then v else fcounters st j)"
  "fcounters (earliest_fcounter k v st) j =
     (if j = k \<and> (fcounters st k = 0 \<or> fcounters st k > v) then v else fcounters st j)"
  "fcounters (record_slowest k i elapsed len st) j =
     (if j = k \<and> fcounters st k < elapsed then elapsed else fcounters st j)"
  by (simp_all add: init_fcounter_def earliest_fcounter_def record_slowest_def stat_simps)

lemma guarded_frame [stat_simps, simp]:
  "fcounters (count_if c i st) = fcounters st"
  "fcounters (raise_counter i v st) = fcounters st"
  "counters (init_fcounter k w st) = counters st"
  "counters (earliest_fcounter k w st) = counters st"
  "st_path_hash (count_if c i st) = st_path_hash st"
  "st_path_hash (raise_counter i v st) = st_path_hash st"
  "st_path_hash (init_fcounter k w st) = st_path_hash st"
  "st_path_hash (earliest_fcounter k w st) = st_path_hash st"
  "st_path_hash (record_slowest k i elapsed len st) = st_path_hash st"
  by (simp_all add: count_if_def raise_counter_def init_fcounter_def earliest_fcounter_def record_slowest_def)

end
