(* ===== verification/Io_Probe.thy ===== *)
theory Io_Probe
  imports Kdarshan_Types
begin

text \<open>
  The I/O probe \<^verbatim>\<open>src/dlogger.bpf.c\<close>: a BPF program attached to the entry and exit of the
  file system calls. Every handler is a function from the environment of one invocation (what
  the BPF helpers and the tracepoint context return) and the state of the maps to the new
  state. Kernel structures are read through pointers; a null pointer is \<open>0\<close>.
\<close>

section \<open>Environment of one invocation\<close>

record task_struct =
  tk_tgid :: u32
  tk_real_parent :: u64
  tk_start_time :: u64
  tk_files :: u64

record kernel_mem =
  km_task :: "u64 \<Rightarrow> task_struct"
  km_fdt :: "u64 \<Rightarrow> u64" \<comment> \<open>\<open>files->fdt\<close>\<close>
  km_fd :: "u64 \<Rightarrow> u64" \<comment> \<open>\<open>fdt->fd\<close>\<close>
  km_file :: "u64 \<Rightarrow> s64 \<Rightarrow> u64" \<comment> \<open>\<open>fd_array[fd]\<close>\<close>
  km_f_inode :: "u64 \<Rightarrow> u64"
  km_f_pos :: "u64 \<Rightarrow> s64"
  km_i_ino :: "u64 \<Rightarrow> u64"
  km_i_sb :: "u64 \<Rightarrow> u64"
  km_s_dev :: "u64 \<Rightarrow> u32"
  km_s_blocksize :: "u64 \<Rightarrow> u64"

datatype map_id =
    M_file_stats | M_fd_states | M_pending_opens | M_pending_rws | M_pending_closes
  | M_pending_seeks | M_pending_stats | M_pending_dups | M_pending_fcnl

record bpf_env =
  env_pid_tgid :: u64 \<comment> \<open>\<open>bpf_get_current_pid_tgid()\<close>\<close>
  env_task :: u64 \<comment> \<open>\<open>bpf_get_current_task()\<close>\<close>
  env_mem :: kernel_mem
  env_ktime :: u64 \<comment> \<open>\<open>bpf_ktime_get_ns()\<close>\<close>
  env_cgroup_id :: u64
  env_comm :: string
  env_user_str :: "u64 \<Rightarrow> string option" \<comment> \<open>NUL-terminated string at a user address, \<open>None\<close>: fault\<close>
  env_room :: "map_id \<Rightarrow> bool" \<comment> \<open>the map has a free element for a new key\<close>
  env_path_rb :: bool \<comment> \<open>\<open>bpf_ringbuf_reserve(&path_events, ..)\<close> succeeds\<close>
  env_dxt_rb :: bool \<comment> \<open>\<open>bpf_ringbuf_reserve(&dxt_events, ..)\<close> succeeds\<close>
  env_args :: "nat \<Rightarrow> u64" \<comment> \<open>\<open>ctx->args[i]\<close>\<close>
  env_ret :: s64 \<comment> \<open>\<open>ctx->ret\<close>\<close>

section \<open>State: the maps and ring buffers\<close>

record fcntl_args =
  fc_fd :: s32
  fc_cmd :: s32

text \<open>\<open>path_events\<close> and \<open>dxt_events\<close> hold every event submitted so far, oldest first.\<close>

record probe_state =
  dlogger_pid :: u32
  file_stats :: "u64 \<rightharpoonup> kdarshan_file_stats"
  fd_states :: "u64 \<rightharpoonup> fd_state"
  pending_opens :: "u32 \<rightharpoonup> open_args"
  pending_rws :: "u32 \<rightharpoonup> rw_args"
  pending_closes :: "u32 \<rightharpoonup> s32"
  pending_seeks :: "u32 \<rightharpoonup> s32"
  pending_stats :: "u32 \<rightharpoonup> s32"
  pending_dups :: "u32 \<rightharpoonup> s32"
  pending_fcnl :: "u32 \<rightharpoonup> fcntl_args"
  path_events :: "path_event list"
  dxt_events :: "dxt_event list"

section \<open>Helpers\<close>

definition cur_tid :: "bpf_env \<Rightarrow> u32" where
  "cur_tid e = ucast (env_pid_tgid e)"

definition cur_pid :: "bpf_env \<Rightarrow> u64" where
  "cur_pid e = drop_bit 32 (env_pid_tgid e)"

text \<open>\<open>(pid << 32) | fd\<close>, with \<open>fd\<close> already converted to 64 bits.\<close>

definition fd_key :: "u64 \<Rightarrow> u64 \<Rightarrow> u64" where
  "fd_key pid fd = push_bit 32 pid OR fd"

text \<open>The unrolled walk over \<open>n\<close> ancestors (the process itself first).\<close>

fun is_descendant :: "kernel_mem \<Rightarrow> u32 \<Rightarrow> nat \<Rightarrow> u64 \<Rightarrow> bool" where
  "is_descendant km p 0 task = False"
| "is_descendant km p (Suc n) task =
     (if task = 0 then False
      else if tk_tgid (km_task km task) = p then True
      else is_descendant km p n (tk_real_parent (km_task km task)))"

definition should_trace :: "bpf_env \<Rightarrow> probe_state \<Rightarrow> bool" where
  "should_trace e s =
     (let pid = (ucast (drop_bit 32 (env_pid_tgid e)) :: u32)
      in if pid = 0 then False
         else if dlogger_pid s \<noteq> 0 \<and> is_descendant (env_mem e) (dlogger_pid s) 5 (env_task e) then False
         else True)"

definition global_zero_stats :: kdarshan_file_stats where
  "global_zero_stats = \<lparr>st_path_hash = 0, counters = (\<lambda>_. 0), fcounters = (\<lambda>_. 0)\<rparr>"

text \<open>
  \<open>get_or_create_stats\<close> returns a pointer into the map, or null; here the value behind the
  pointer, and \<open>put_stats\<close> is a store through it.
\<close>

definition put_stats :: "u64 \<Rightarrow> kdarshan_file_stats \<Rightarrow> probe_state \<Rightarrow> probe_state" where
  "put_stats h st s = s\<lparr>file_stats := (file_stats s)(h \<mapsto> st)\<rparr>"

definition get_or_create_stats ::
  "bpf_env \<Rightarrow> u64 \<Rightarrow> probe_state \<Rightarrow> probe_state \<times> kdarshan_file_stats option" where
  "get_or_create_stats e h s =
     (case file_stats s h of
        Some st \<Rightarrow> (s, Some st)
      | None \<Rightarrow>
          (let s1 = s\<lparr>file_stats := bpf_insert (env_room e M_file_stats) (file_stats s) h global_zero_stats\<rparr>
           in case file_stats s1 h of
                None \<Rightarrow> (s1, None)
              | Some st \<Rightarrow>
                  (let st1 = st\<lparr>st_path_hash := h\<rparr>;
                       st2 = set_counter POSIX_MEM_ALIGNMENT 8 st1;
                       st3 = set_counter POSIX_FILE_ALIGNMENT 4096 st2
                   in (put_stats h st3 s1, Some st3))))"

text \<open>The \<open>struct file *\<close> behind a descriptor of the current task, \<open>0\<close> when a link is null.\<close>

definition file_of_fd :: "bpf_env \<Rightarrow> s64 \<Rightarrow> u64" where
  "file_of_fd e fd =
     (let files = tk_files (km_task (env_mem e) (env_task e))
      in if files = 0 then 0
         else let fdt = km_fdt (env_mem e) files
              in if fdt = 0 then 0
                 else let fd_array = km_fd (env_mem e) fdt
                      in if fd_array = 0 then 0 else km_file (env_mem e) fd_array fd)"

definition get_file_pos :: "bpf_env \<Rightarrow> s32 \<Rightarrow> s64" where
  "get_file_pos e fd =
     (let file = file_of_fd e (scast fd)
      in if file = 0 then 0 else km_f_pos (env_mem e) file)"

section \<open>open, openat, creat\<close>

definition AT_FDCWD :: s32 where "AT_FDCWD = - 100"
definition O_CREAT :: s32 where "O_CREAT = 64"
definition O_WRONLY :: s32 where "O_WRONLY = 1"
definition O_TRUNC :: s32 where "O_TRUNC = 512"
definition F_DUPFD :: s32 where "F_DUPFD = 0"
definition F_DUPFD_CLOEXEC :: s32 where "F_DUPFD_CLOEXEC = 1030"

definition put_pending_open :: "bpf_env \<Rightarrow> open_args \<Rightarrow> probe_state \<Rightarrow> probe_state" where
  "put_pending_open e a s =
     s\<lparr>pending_opens := bpf_update (env_room e M_pending_opens) (pending_opens s) (cur_tid e) a\<rparr>"

definition tp_sys_enter_open :: "bpf_env \<Rightarrow> probe_state \<Rightarrow> probe_state" where
  "tp_sys_enter_open e s =
     (if \<not> should_trace e s then s
      else put_pending_open e
             \<lparr>oa_filename = env_args e 0, oa_dfd = AT_FDCWD,
              oa_flags = to_int (env_args e 1), oa_mode = to_int (env_args e 2)\<rparr> s)"

definition tp_sys_enter_openat :: "bpf_env \<Rightarrow> probe_state \<Rightarrow> probe_state" where
  "tp_sys_enter_openat e s =
     (if \<not> should_trace e s then s
      else put_pending_open e
             \<lparr>oa_filename = env_args e 1, oa_dfd = to_int (env_args e 0),
              oa_flags = to_int (env_args e 2), oa_mode = to_int (env_args e 3)\<rparr> s)"

definition tp_sys_enter_creat :: "bpf_env \<Rightarrow> probe_state \<Rightarrow> probe_state" where
  "tp_sys_enter_creat e s =
     (if \<not> should_trace e s then s
      else put_pending_open e
             \<lparr>oa_filename = env_args e 0, oa_dfd = AT_FDCWD,
              oa_flags = O_CREAT OR O_WRONLY OR O_TRUNC, oa_mode = to_int (env_args e 1)\<rparr> s)"

definition open_path_event :: "bpf_env \<Rightarrow> open_args \<Rightarrow> u64 \<Rightarrow> path_event" where
  "open_path_event e a h =
     \<lparr>pe_path_hash = h, pe_pid = ucast (drop_bit 32 (env_pid_tgid e)),
      pe_cgroup_id = env_cgroup_id e,
      pe_start_time = tk_start_time (km_task (env_mem e) (env_task e)),
      pe_comm = env_comm e,
      pe_path = (case env_user_str e (oa_filename a) of
                   None \<Rightarrow> '''' | Some p \<Rightarrow> take (MAX_PATH_LEN - 1) p)\<rparr>"

definition open_update_stats ::
  "u64 \<Rightarrow> s32 \<Rightarrow> u64 \<Rightarrow> kdarshan_file_stats \<Rightarrow> kdarshan_file_stats" where
  "open_update_stats now mode block_size st =
     (let st = add_counter POSIX_OPENS 1 st;
          st = set_counter POSIX_MODE (scast mode) st;
          st = set_counter POSIX_FILE_ALIGNMENT block_size st;
          st = init_fcounter POSIX_F_OPEN_START_TIMESTAMP now st
      in set_fcounter POSIX_F_OPEN_END_TIMESTAMP now st)"

definition handle_open_exit :: "bpf_env \<Rightarrow> probe_state \<Rightarrow> probe_state" where
  "handle_open_exit e s =
     (let tid = cur_tid e
      in case pending_opens s tid of
           None \<Rightarrow> s
         | Some a \<Rightarrow>
             (let fd = env_ret e;
                  file = file_of_fd e fd;
                  inode = km_f_inode (env_mem e) file;
                  s' = (if 0 \<le>s fd \<and> file \<noteq> 0 \<and> inode \<noteq> 0
                        then let ino = km_i_ino (env_mem e) inode;
                                 sb = km_i_sb (env_mem e) inode;
                                 dev = (if sb \<noteq> 0 then km_s_dev (env_mem e) sb else 0);
                                 block_size = (if sb \<noteq> 0 then km_s_blocksize (env_mem e) sb else 4096);
                                 h = push_bit 32 (ucast dev) OR ino;
                                 s1 = (if env_path_rb e
                                       then s\<lparr>path_events := path_events s @ [open_path_event e a h]\<rparr> else s);
                                 (s2, stp) = get_or_create_stats e h s1;
                                 s3 = (case stp of
                                         None \<Rightarrow> s2
                                       | Some st \<Rightarrow> put_stats h (open_update_stats (env_ktime e) (oa_mode a) block_size st) s2);
                                 fstate = \<lparr>fs_path_hash = h, last_byte_read = 0,
                                           last_byte_written = 0, last_io_type = 0\<rparr>
                             in s3\<lparr>fd_states := bpf_update (env_room e M_fd_states) (fd_states s3)
                                                  (fd_key (cur_pid e) fd) fstate\<rparr>
                        else s)
              in s'\<lparr>pending_opens := bpf_delete (pending_opens s') tid\<rparr>))"

definition tp_sys_exit_open :: "bpf_env \<Rightarrow> probe_state \<Rightarrow> probe_state" where
  "tp_sys_exit_open e s = (if \<not> should_trace e s then s else handle_open_exit e s)"

definition tp_sys_exit_openat :: "bpf_env \<Rightarrow> probe_state \<Rightarrow> probe_state" where
  "tp_sys_exit_openat e s = (if \<not> should_trace e s then s else handle_open_exit e s)"

definition tp_sys_exit_creat :: "bpf_env \<Rightarrow> probe_state \<Rightarrow> probe_state" where
  "tp_sys_exit_creat e s = (if \<not> should_trace e s then s else handle_open_exit e s)"

section \<open>close\<close>

definition tp_sys_enter_close :: "bpf_env \<Rightarrow> probe_state \<Rightarrow> probe_state" where
  "tp_sys_enter_close e s =
     (if \<not> should_trace e s then s
      else s\<lparr>pending_closes := bpf_update (env_room e M_pending_closes) (pending_closes s)
                                (cur_tid e) (to_int (env_args e 0))\<rparr>)"

definition close_update_stats :: "u64 \<Rightarrow> kdarshan_file_stats \<Rightarrow> kdarshan_file_stats" where
  "close_update_stats now st =
     (let st = init_fcounter POSIX_F_CLOSE_START_TIMESTAMP now st
      in set_fcounter POSIX_F_CLOSE_END_TIMESTAMP now st)"

definition tp_sys_exit_close :: "bpf_env \<Rightarrow> probe_state \<Rightarrow> probe_state" where
  "tp_sys_exit_close e s =
     (if \<not> should_trace e s then s
      else case pending_closes s (cur_tid e) of
             None \<Rightarrow> s
           | Some fd \<Rightarrow>
               (let s1 = s\<lparr>pending_closes := bpf_delete (pending_closes s) (cur_tid e)\<rparr>;
                    key = fd_key (cur_pid e) (of_int32 fd)
                in if env_ret e = 0
                   then case fd_states s1 key of
                          None \<Rightarrow> s1
                        | Some fs \<Rightarrow>
                            (let (s2, stp) = get_or_create_stats e (fs_path_hash fs) s1;
                                 s3 = (case stp of
                                         None \<Rightarrow> s2
                                       | Some st \<Rightarrow> put_stats (fs_path_hash fs) (close_update_stats (env_ktime e) st) s2)
                             in s3\<lparr>fd_states := bpf_delete (fd_states s3) key\<rparr>)
                   else s1))"

section \<open>read and write families\<close>

definition handle_rw_enter :: "bpf_env \<Rightarrow> s32 \<Rightarrow> s64 \<Rightarrow> u64 \<Rightarrow> probe_state \<Rightarrow> probe_state" where
  "handle_rw_enter e fd offset buf_addr s =
     s\<lparr>pending_rws := bpf_update (env_room e M_pending_rws) (pending_rws s) (cur_tid e)
        \<lparr>rw_fd = fd, rw_offset = offset, rw_length = buf_addr, rw_start_ns = env_ktime e\<rparr>\<rparr>"

definition tp_sys_enter_read :: "bpf_env \<Rightarrow> probe_state \<Rightarrow> probe_state" where
  "tp_sys_enter_read e s =
     (if \<not> should_trace e s then s
      else let fd = to_int (env_args e 0)
           in handle_rw_enter e fd (get_file_pos e fd) (env_args e 1) s)"

definition tp_sys_enter_pread64 :: "bpf_env \<Rightarrow> probe_state \<Rightarrow> probe_state" where
  "tp_sys_enter_pread64 e s =
     (if \<not> should_trace e s then s
      else handle_rw_enter e (to_int (env_args e 0)) (env_args e 3) (env_args e 1) s)"

definition tp_sys_enter_readv :: "bpf_env \<Rightarrow> probe_state \<Rightarrow> probe_state" where
  "tp_sys_enter_readv e s =
     (if \<not> should_trace e s then s
      else let fd = to_int (env_args e 0)
           in handle_rw_enter e fd (get_file_pos e fd) (env_args e 1) s)"

definition tp_sys_enter_preadv :: "bpf_env \<Rightarrow> probe_state \<Rightarrow> probe_state" where
  "tp_sys_enter_preadv e s =
     (if \<not> should_trace e s then s
      else handle_rw_enter e (to_int (env_args e 0)) (env_args e 3) (env_args e 1) s)"

definition tp_sys_enter_preadv2 :: "bpf_env \<Rightarrow> probe_state \<Rightarrow> probe_state" where
  "tp_sys_enter_preadv2 e s =
     (if \<not> should_trace e s then s
      else handle_rw_enter e (to_int (env_args e 0)) (env_args e 3) (env_args e 1) s)"

definition tp_sys_enter_write :: "bpf_env \<Rightarrow> probe_state \<Rightarrow> probe_state" where
  "tp_sys_enter_write e s =
     (if \<not> should_trace e s then s
      else let fd = to_int (env_args e 0)
           in handle_rw_enter e fd (get_file_pos e fd) (env_args e 1) s)"

definition tp_sys_enter_pwrite64 :: "bpf_env \<Rightarrow> probe_state \<Rightarrow> probe_state" where
  "tp_sys_enter_pwrite64 e s =
     (if \<not> should_trace e s then s
      else handle_rw_enter e (to_int (env_args e 0)) (env_args e 3) (env_args e 1) s)"

definition tp_sys_enter_writev :: "bpf_env \<Rightarrow> probe_state \<Rightarrow> probe_state" where
  "tp_sys_enter_writev e s =
     (if \<not> should_trace e s then s
      else let fd = to_int (env_args e 0)
           in handle_rw_enter e fd (get_file_pos e fd) (env_args e 1) s)"

definition tp_sys_enter_pwritev :: "bpf_env \<Rightarrow> probe_state \<Rightarrow> probe_state" where
  "tp_sys_enter_pwritev e s =
     (if \<not> should_trace e s then s
      else handle_rw_enter e (to_int (env_args e 0)) (env_args e 3) (env_args e 1) s)"

definition tp_sys_enter_pwritev2 :: "bpf_env \<Rightarrow> probe_state \<Rightarrow> probe_state" where
  "tp_sys_enter_pwritev2 e s =
     (if \<not> should_trace e s then s
      else handle_rw_enter e (to_int (env_args e 0)) (env_args e 3) (env_args e 1) s)"

text \<open>The access-size histograms: the counter that a transfer of \<open>len\<close> bytes bumps.\<close>

definition write_bucket :: "s64 \<Rightarrow> posix_index" where
  "write_bucket len =
     (if len \<le>s 100 then POSIX_SIZE_WRITE_0_100
      else if len \<le>s 1024 then POSIX_SIZE_WRITE_100_1K
      else if len \<le>s 10240 then POSIX_SIZE_WRITE_1K_10K
      else if len \<le>s 102400 then POSIX_SIZE_WRITE_10K_100K
      else if len \<le>s 1048576 then POSIX_SIZE_WRITE_100K_1M
      else if len \<le>s 4194304 then POSIX_SIZE_WRITE_1M_4M
      else if len \<le>s 10485760 then POSIX_SIZE_WRITE_4M_10M
      else if len \<le>s 104857600 then POSIX_SIZE_WRITE_10M_100M
      else if len \<le>s 1073741824 then POSIX_SIZE_WRITE_100M_1G
      else POSIX_SIZE_WRITE_1G_PLUS)"

definition read_bucket :: "s64 \<Rightarrow> posix_index" where
  "read_bucket len =
     (if len \<le>s 100 then POSIX_SIZE_READ_0_100
      else if len \<le>s 1024 then POSIX_SIZE_READ_100_1K
      else if len \<le>s 10240 then POSIX_SIZE_READ_1K_10K
      else if len \<le>s 102400 then POSIX_SIZE_READ_10K_100K
      else if len \<le>s 1048576 then POSIX_SIZE_READ_100K_1M
      else if len \<le>s 4194304 then POSIX_SIZE_READ_1M_4M
      else if len \<le>s 10485760 then POSIX_SIZE_READ_4M_10M
      else if len \<le>s 104857600 then POSIX_SIZE_READ_10M_100M
      else if len \<le>s 1073741824 then POSIX_SIZE_READ_100M_1G
      else POSIX_SIZE_READ_1G_PLUS)"

text \<open>The write branch of \<open>handle_rw_exit\<close>: the statistics, then the descriptor state.\<close>

definition rw_write_stats ::
  "u64 \<Rightarrow> rw_args \<Rightarrow> s64 \<Rightarrow> fd_state \<Rightarrow> kdarshan_file_stats \<Rightarrow> kdarshan_file_stats" where
  "rw_write_stats now a len fs st =
     (let elapsed = now - rw_start_ns a;
          end_byte = rw_offset a + len - 1;
          st = add_counter POSIX_WRITES 1 st;
          st = add_counter POSIX_BYTES_WRITTEN len st;
          st = earliest_fcounter POSIX_F_WRITE_START_TIMESTAMP (rw_start_ns a) st;
          st = set_fcounter POSIX_F_WRITE_END_TIMESTAMP now st;
          st = add_fcounter POSIX_F_WRITE_TIME elapsed st;
          st = record_slowest POSIX_F_MAX_WRITE_TIME POSIX_MAX_WRITE_TIME_SIZE elapsed len st;
          st = raise_counter POSIX_MAX_BYTE_WRITTEN end_byte st;
          st = count_if (last_byte_written fs <s rw_offset a) POSIX_SEQ_WRITES st;
          st = count_if (rw_offset a = last_byte_written fs + 1) POSIX_CONSEC_WRITES st;
          st = count_if (last_io_type fs = 1) POSIX_RW_SWITCHES st
      in add_counter (write_bucket len) 1 st)"

definition rw_write_fstate :: "rw_args \<Rightarrow> s64 \<Rightarrow> fd_state \<Rightarrow> fd_state" where
  "rw_write_fstate a len fs =
     fs\<lparr>last_byte_written := rw_offset a + len - 1, last_io_type := 2\<rparr>"

text \<open>The read branch.\<close>

definition rw_read_stats ::
  "u64 \<Rightarrow> rw_args \<Rightarrow> s64 \<Rightarrow> fd_state \<Rightarrow> kdarshan_file_stats \<Rightarrow> kdarshan_file_stats" where
  "rw_read_stats now a len fs st =
     (let elapsed = now - rw_start_ns a;
          end_byte = rw_offset a + len - 1;
          st = add_counter POSIX_READS 1 st;
          st = add_counter POSIX_BYTES_READ len st;
          st = earliest_fcounter POSIX_F_READ_START_TIMESTAMP (rw_start_ns a) st;
          st = set_fcounter POSIX_F_READ_END_TIMESTAMP now st;
          st = add_fcounter POSIX_F_READ_TIME elapsed st;
          st = record_slowest POSIX_F_MAX_READ_TIME POSIX_MAX_READ_TIME_SIZE elapsed len st;
          st = raise_counter POSIX_MAX_BYTE_READ end_byte st;
          st = count_if (last_byte_read fs <s rw_offset a) POSIX_SEQ_READS st;
          st = count_if (rw_offset a = last_byte_read fs + 1) POSIX_CONSEC_READS st;
          st = count_if (last_io_type fs = 2) POSIX_RW_SWITCHES st
      in add_counter (read_bucket len) 1 st)"

definition rw_read_fstate :: "rw_args \<Rightarrow> s64 \<Rightarrow> fd_state \<Rightarrow> fd_state" where
  "rw_read_fstate a len fs =
     fs\<lparr>last_byte_read := rw_offset a + len - 1, last_io_type := 1\<rparr>"

definition rw_alignment_stats :: "rw_args \<Rightarrow> kdarshan_file_stats \<Rightarrow> kdarshan_file_stats" where
  "rw_alignment_stats a st =
     (let file_alignment = counters st POSIX_FILE_ALIGNMENT;
          st = count_if (0 <s file_alignment \<and> rw_offset a mod file_alignment \<noteq> 0)
                 POSIX_FILE_NOT_ALIGNED st
      in count_if (rw_length a mod 8 \<noteq> 0) POSIX_MEM_NOT_ALIGNED st)"

definition rw_dxt_event :: "bpf_env \<Rightarrow> rw_args \<Rightarrow> u64 \<Rightarrow> bool \<Rightarrow> dxt_event" where
  "rw_dxt_event e a h write_flag =
     \<lparr>dx_path_hash = h, dx_start_ns = rw_start_ns a, dx_end_ns = env_ktime e,
      dx_offset = rw_offset a, dx_length = env_ret e, dx_pid = ucast (cur_pid e),
      dx_cgroup_id = env_cgroup_id e,
      dx_start_time = tk_start_time (km_task (env_mem e) (env_task e)),
      dx_write_flag = (if write_flag then 1 else 0)\<rparr>"

text \<open>What a completed transfer does once its descriptor and statistics entries are found.\<close>

definition rw_commit ::
  "bpf_env \<Rightarrow> bool \<Rightarrow> rw_args \<Rightarrow> u64 \<Rightarrow> fd_state \<Rightarrow> kdarshan_file_stats \<Rightarrow> probe_state \<Rightarrow> probe_state" where
  "rw_commit e write_flag a key fs st s =
     (let h = fs_path_hash fs;
          st1 = (if write_flag then rw_write_stats (env_ktime e) a (env_ret e) fs st
                 else rw_read_stats (env_ktime e) a (env_ret e) fs st);
          fs1 = (if write_flag then rw_write_fstate a (env_ret e) fs
                  else rw_read_fstate a (env_ret e) fs);
          s1 = put_stats h (rw_alignment_stats a st1) s;
          s2 = s1\<lparr>fd_states := (fd_states s1)(key \<mapsto> fs1)\<rparr>
      in if env_dxt_rb e
         then s2\<lparr>dxt_events := dxt_events s2 @ [rw_dxt_event e a (fs_path_hash fs1) write_flag]\<rparr>
         else s2)"

definition handle_rw_exit :: "bpf_env \<Rightarrow> bool \<Rightarrow> probe_state \<Rightarrow> probe_state" where
  "handle_rw_exit e write_flag s =
     (case pending_rws s (cur_tid e) of
        None \<Rightarrow> s
      | Some a \<Rightarrow>
          (let key = fd_key (cur_pid e) (of_int32 (rw_fd a));
               s' = (if 0 <s env_ret e
                     then case fd_states s key of
                            None \<Rightarrow> s
                          | Some fs \<Rightarrow>
                              (let (s1, stp) = get_or_create_stats e (fs_path_hash fs) s
                               in case stp of
                                    None \<Rightarrow> s1
                                  | Some st \<Rightarrow> rw_commit e write_flag a key fs st s1)
                     else s)
           in s'\<lparr>pending_rws := bpf_delete (pending_rws s') (cur_tid e)\<rparr>))"

definition tp_sys_exit_read :: "bpf_env \<Rightarrow> probe_state \<Rightarrow> probe_state" where
  "tp_sys_exit_read e s = (if \<not> should_trace e s then s else handle_rw_exit e False s)"

definition tp_sys_exit_pread64 :: "bpf_env \<Rightarrow> probe_state \<Rightarrow> probe_state" where
  "tp_sys_exit_pread64 e s = (if \<not> should_trace e s then s else handle_rw_exit e False s)"

definition tp_sys_exit_readv :: "bpf_env \<Rightarrow> probe_state \<Rightarrow> probe_state" where
  "tp_sys_exit_readv e s = (if \<not> should_trace e s then s else handle_rw_exit e False s)"

definition tp_sys_exit_preadv :: "bpf_env \<Rightarrow> probe_state \<Rightarrow> probe_state" where
  "tp_sys_exit_preadv e s = (if \<not> should_trace e s then s else handle_rw_exit e False s)"

definition tp_sys_exit_preadv2 :: "bpf_env \<Rightarrow> probe_state \<Rightarrow> probe_state" where
  "tp_sys_exit_preadv2 e s = (if \<not> should_trace e s then s else handle_rw_exit e False s)"

definition tp_sys_exit_write :: "bpf_env \<Rightarrow> probe_state \<Rightarrow> probe_state" where
  "tp_sys_exit_write e s = (if \<not> should_trace e s then s else handle_rw_exit e True s)"

definition tp_sys_exit_pwrite64 :: "bpf_env \<Rightarrow> probe_state \<Rightarrow> probe_state" where
  "tp_sys_exit_pwrite64 e s = (if \<not> should_trace e s then s else handle_rw_exit e True s)"

definition tp_sys_exit_writev :: "bpf_env \<Rightarrow> probe_state \<Rightarrow> probe_state" where
  "tp_sys_exit_writev e s = (if \<not> should_trace e s then s else handle_rw_exit e True s)"

definition tp_sys_exit_pwritev :: "bpf_env \<Rightarrow> probe_state \<Rightarrow> probe_state" where
  "tp_sys_exit_pwritev e s = (if \<not> should_trace e s then s else handle_rw_exit e True s)"

definition tp_sys_exit_pwritev2 :: "bpf_env \<Rightarrow> probe_state \<Rightarrow> probe_state" where
  "tp_sys_exit_pwritev2 e s = (if \<not> should_trace e s then s else handle_rw_exit e True s)"

section \<open>lseek, fsync, fdatasync, fstat, fstatat, mmap\<close>

text \<open>
  These system calls remember a descriptor at entry (lseek, fsync, fdatasync and mmap share
  the map \<open>pending_seeks\<close>) and bump one counter of the file at exit.
\<close>

definition put_pending_seek :: "bpf_env \<Rightarrow> s32 \<Rightarrow> probe_state \<Rightarrow> probe_state" where
  "put_pending_seek e fd s =
     s\<lparr>pending_seeks := bpf_update (env_room e M_pending_seeks) (pending_seeks s) (cur_tid e) fd\<rparr>"

definition put_pending_stat :: "bpf_env \<Rightarrow> s32 \<Rightarrow> probe_state \<Rightarrow> probe_state" where
  "put_pending_stat e fd s =
     s\<lparr>pending_stats := bpf_update (env_room e M_pending_stats) (pending_stats s) (cur_tid e) fd\<rparr>"

definition count_on_fd :: "bpf_env \<Rightarrow> s32 \<Rightarrow> posix_index \<Rightarrow> probe_state \<Rightarrow> probe_state" where
  "count_on_fd e fd i s =
     (case fd_states s (fd_key (cur_pid e) (of_int32 fd)) of
        None \<Rightarrow> s
      | Some fs \<Rightarrow>
          (let (s1, stp) = get_or_create_stats e (fs_path_hash fs) s
           in case stp of
                None \<Rightarrow> s1
              | Some st \<Rightarrow> put_stats (fs_path_hash fs) (add_counter i 1 st) s1))"

definition tp_sys_enter_lseek :: "bpf_env \<Rightarrow> probe_state \<Rightarrow> probe_state" where
  "tp_sys_enter_lseek e s =
     (if \<not> should_trace e s then s else put_pending_seek e (to_int (env_args e 0)) s)"

definition tp_sys_exit_lseek :: "bpf_env \<Rightarrow> probe_state \<Rightarrow> probe_state" where
  "tp_sys_exit_lseek e s =
     (if \<not> should_trace e s then s
      else case pending_seeks s (cur_tid e) of
             None \<Rightarrow> s
           | Some fd \<Rightarrow>
               (let s1 = s\<lparr>pending_seeks := bpf_delete (pending_seeks s) (cur_tid e)\<rparr>
                in if 0 \<le>s env_ret e then count_on_fd e fd POSIX_SEEKS s1 else s1))"

definition tp_sys_enter_fsync :: "bpf_env \<Rightarrow> probe_state \<Rightarrow> probe_state" where
  "tp_sys_enter_fsync e s =
     (if \<not> should_trace e s then s else put_pending_seek e (to_int (env_args e 0)) s)"

definition tp_sys_exit_fsync :: "bpf_env \<Rightarrow> probe_state \<Rightarrow> probe_state" where
  "tp_sys_exit_fsync e s =
     (if \<not> should_trace e s then s
      else case pending_seeks s (cur_tid e) of
             None \<Rightarrow> s
           | Some fd \<Rightarrow>
               (let s1 = s\<lparr>pending_seeks := bpf_delete (pending_seeks s) (cur_tid e)\<rparr>
                in if env_ret e = 0 then count_on_fd e fd POSIX_FSYNCS s1 else s1))"

definition tp_sys_enter_fdatasync :: "bpf_env \<Rightarrow> probe_state \<Rightarrow> probe_state" where
  "tp_sys_enter_fdatasync e s =
     (if \<not> should_trace e s then s else put_pending_seek e (to_int (env_args e 0)) s)"

definition tp_sys_exit_fdatasync :: "bpf_env \<Rightarrow> probe_state \<Rightarrow> probe_state" where
  "tp_sys_exit_fdatasync e s =
     (if \<not> should_trace e s then s
      else case pending_seeks s (cur_tid e) of
             None \<Rightarrow> s
           | Some fd \<Rightarrow>
               (let s1 = s\<lparr>pending_seeks := bpf_delete (pending_seeks s) (cur_tid e)\<rparr>
                in if env_ret e = 0 then count_on_fd e fd POSIX_FDSYNCS s1 else s1))"

definition tp_sys_enter_newfstat :: "bpf_env \<Rightarrow> probe_state \<Rightarrow> probe_state" where
  "tp_sys_enter_newfstat e s =
     (if \<not> should_trace e s then s else put_pending_stat e (to_int (env_args e 0)) s)"

definition tp_sys_exit_newfstat :: "bpf_env \<Rightarrow> probe_state \<Rightarrow> probe_state" where
  "tp_sys_exit_newfstat e s =
     (if \<not> should_trace e s then s
      else case pending_stats s (cur_tid e) of
             None \<Rightarrow> s
           | Some fd \<Rightarrow>
               (let s1 = s\<lparr>pending_stats := bpf_delete (pending_stats s) (cur_tid e)\<rparr>
                in if env_ret e = 0 then count_on_fd e fd POSIX_STATS s1 else s1))"

definition tp_sys_enter_newfstatat :: "bpf_env \<Rightarrow> probe_state \<Rightarrow> probe_state" where
  "tp_sys_enter_newfstatat e s =
     (if \<not> should_trace e s then s else put_pending_stat e (to_int (env_args e 0)) s)"

definition tp_sys_exit_newfstatat :: "bpf_env \<Rightarrow> probe_state \<Rightarrow> probe_state" where
  "tp_sys_exit_newfstatat e s =
     (if \<not> should_trace e s then s
      else case pending_stats s (cur_tid e) of
             None \<Rightarrow> s
           | Some fd \<Rightarrow>
               (let s1 = s\<lparr>pending_stats := bpf_delete (pending_stats s) (cur_tid e)\<rparr>
                in if env_ret e = 0 then count_on_fd e fd POSIX_STATS s1 else s1))"

definition tp_sys_enter_mmap :: "bpf_env \<Rightarrow> probe_state \<Rightarrow> probe_state" where
  "tp_sys_enter_mmap e s =
     (if \<not> should_trace e s then s else put_pending_seek e (to_int (env_args e 4)) s)"

definition tp_sys_exit_mmap :: "bpf_env \<Rightarrow> probe_state \<Rightarrow> probe_state" where
  "tp_sys_exit_mmap e s =
     (if \<not> should_trace e s then s
      else case pending_seeks s (cur_tid e) of
             None \<Rightarrow> s
           | Some fd \<Rightarrow>
               (let s1 = s\<lparr>pending_seeks := bpf_delete (pending_seeks s) (cur_tid e)\<rparr>
                in if env_ret e \<noteq> - 1 \<and> 0 \<le>s fd then count_on_fd e fd POSIX_MMAPS s1 else s1))"

section \<open>dup, dup2, dup3, fcntl\<close>

definition handle_dup_enter :: "bpf_env \<Rightarrow> s32 \<Rightarrow> probe_state \<Rightarrow> probe_state" where
  "handle_dup_enter e oldfd s =
     s\<lparr>pending_dups := bpf_update (env_room e M_pending_dups) (pending_dups s) (cur_tid e) oldfd\<rparr>"

definition tp_sys_enter_dup :: "bpf_env \<Rightarrow> probe_state \<Rightarrow> probe_state" where
  "tp_sys_enter_dup e s =
     (if \<not> should_trace e s then s else handle_dup_enter e (to_int (env_args e 0)) s)"

definition tp_sys_enter_dup2 :: "bpf_env \<Rightarrow> probe_state \<Rightarrow> probe_state" where
  "tp_sys_enter_dup2 e s =
     (if \<not> should_trace e s then s else handle_dup_enter e (to_int (env_args e 0)) s)"

definition tp_sys_enter_dup3 :: "bpf_env \<Rightarrow> probe_state \<Rightarrow> probe_state" where
  "tp_sys_enter_dup3 e s =
     (if \<not> should_trace e s then s else handle_dup_enter e (to_int (env_args e 0)) s)"

text \<open>The duplication itself, common to the dup family and \<open>fcntl(F_DUPFD)\<close>.\<close>

definition dup_fd :: "bpf_env \<Rightarrow> s32 \<Rightarrow> probe_state \<Rightarrow> probe_state" where
  "dup_fd e oldfd s =
     (let newfd = env_ret e
      in if 0 \<le>s newfd
         then case fd_states s (fd_key (cur_pid e) (of_int32 oldfd)) of
                None \<Rightarrow> s
              | Some old \<Rightarrow>
                  (let s1 = s\<lparr>fd_states := bpf_update (env_room e M_fd_states) (fd_states s)
                                             (fd_key (cur_pid e) newfd) old\<rparr>;
                       (s2, stp) = get_or_create_stats e (fs_path_hash old) s1
                   in case stp of
                        None \<Rightarrow> s2
                      | Some st \<Rightarrow> put_stats (fs_path_hash old)
                                     (add_counter POSIX_OPENS 1 (add_counter POSIX_DUPS 1 st)) s2)
         else s)"

definition handle_dup_exit :: "bpf_env \<Rightarrow> probe_state \<Rightarrow> probe_state" where
  "handle_dup_exit e s =
     (case pending_dups s (cur_tid e) of
        None \<Rightarrow> s
      | Some oldfd \<Rightarrow> dup_fd e oldfd (s\<lparr>pending_dups := bpf_delete (pending_dups s) (cur_tid e)\<rparr>))"

definition tp_sys_exit_dup :: "bpf_env \<Rightarrow> probe_state \<Rightarrow> probe_state" where
  "tp_sys_exit_dup e s = (if \<not> should_trace e s then s else handle_dup_exit e s)"

definition tp_sys_exit_dup2 :: "bpf_env \<Rightarrow> probe_state \<Rightarrow> probe_state" where
  "tp_sys_exit_dup2 e s = (if \<not> should_trace e s then s else handle_dup_exit e s)"

definition tp_sys_exit_dup3 :: "bpf_env \<Rightarrow> probe_state \<Rightarrow> probe_state" where
  "tp_sys_exit_dup3 e s = (if \<not> should_trace e s then s else handle_dup_exit e s)"

definition tp_sys_enter_fcntl :: "bpf_env \<Rightarrow> probe_state \<Rightarrow> probe_state" where
  "tp_sys_enter_fcntl e s =
     (if \<not> should_trace e s then s
      else let cmd = to_int (env_args e 1)
           in if cmd = F_DUPFD \<or> cmd = F_DUPFD_CLOEXEC
              then s\<lparr>pending_fcnl := bpf_update (env_room e M_pending_fcnl) (pending_fcnl s) (cur_tid e)
                                      \<lparr>fc_fd = to_int (env_args e 0), fc_cmd = cmd\<rparr>\<rparr>
              else s)"

definition tp_sys_exit_fcntl :: "bpf_env \<Rightarrow> probe_state \<Rightarrow> probe_state" where
  "tp_sys_exit_fcntl e s =
     (if \<not> should_trace e s then s
      else case pending_fcnl s (cur_tid e) of
             None \<Rightarrow> s
           | Some fargs \<Rightarrow>
               dup_fd e (fc_fd fargs) (s\<lparr>pending_fcnl := bpf_delete (pending_fcnl s) (cur_tid e)\<rparr>))"

section \<open>The program as a whole\<close>

text \<open>The system calls the program is attached to, and its dispatch.\<close>

datatype traced_syscall =
    SC_open | SC_openat | SC_creat | SC_close | SC_read | SC_pread64 | SC_readv | SC_preadv
  | SC_preadv2 | SC_write | SC_pwrite64 | SC_writev | SC_pwritev | SC_pwritev2 | SC_lseek
  | SC_fsync | SC_fdatasync | SC_newfstat | SC_newfstatat | SC_dup | SC_dup2 | SC_dup3
  | SC_fcntl | SC_mmap

fun on_enter :: "traced_syscall \<Rightarrow> bpf_env \<Rightarrow> probe_state \<Rightarrow> probe_state" where
  "on_enter SC_open = tp_sys_enter_open"
| "on_enter SC_openat = tp_sys_enter_openat"
| "on_enter SC_creat = tp_sys_enter_creat"
| "on_enter SC_close = tp_sys_enter_close"
| "on_enter SC_read = tp_sys_enter_read"
| "on_enter SC_pread64 = tp_sys_enter_pread64"
| "on_enter SC_readv = tp_sys_enter_readv"
| "on_enter SC_preadv = tp_sys_enter_preadv"
| "on_enter SC_preadv2 = tp_sys_enter_preadv2"
| "on_enter SC_write = tp_sys_enter_write"
| "on_enter SC_pwrite64 = tp_sys_enter_pwrite64"
| "on_enter SC_writev = tp_sys_enter_writev"
| "on_enter SC_pwritev = tp_sys_enter_pwritev"
| "on_enter SC_pwritev2 = tp_sys_enter_pwritev2"
| "on_enter SC_lseek = tp_sys_enter_lseek"
| "on_enter SC_fsync = tp_sys_enter_fsync"
| "on_enter SC_fdatasync = tp_sys_enter_fdatasync"
| "on_enter SC_newfstat = tp_sys_enter_newfstat"
| "on_enter SC_newfstatat = tp_sys_enter_newfstatat"
| "on_enter SC_dup = tp_sys_enter_dup"
| "on_enter SC_dup2 = tp_sys_enter_dup2"
| "on_enter SC_dup3 = tp_sys_enter_dup3"
| "on_enter SC_fcntl = tp_sys_enter_fcntl"
| "on_enter SC_mmap = tp_sys_enter_mmap"

fun on_exit :: "traced_syscall \<Rightarrow> bpf_env \<Rightarrow> probe_state \<Rightarrow> probe_state" where
  "on_exit SC_open = tp_sys_exit_open"
| "on_exit SC_openat = tp_sys_exit_openat"
| "on_exit SC_creat = tp_sys_exit_creat"
| "on_exit SC_close = tp_sys_exit_close"
| "on_exit SC_read = tp_sys_exit_read"
| "on_exit SC_pread64 = tp_sys_exit_pread64"
| "on_exit SC_readv = tp_sys_exit_readv"
| "on_exit SC_preadv = tp_sys_exit_preadv"
| "on_exit SC_preadv2 = tp_sys_exit_preadv2"
| "on_exit SC_write = tp_sys_exit_write"
| "on_exit SC_pwrite64 = tp_sys_exit_pwrite64"
| "on_exit SC_writev = tp_sys_exit_writev"
| "on_exit SC_pwritev = tp_sys_exit_pwritev"
| "on_exit SC_pwritev2 = tp_sys_exit_pwritev2"
| "on_exit SC_lseek = tp_sys_exit_lseek"
| "on_exit SC_fsync = tp_sys_exit_fsync"
| "on_exit SC_fdatasync = tp_sys_exit_fdatasync"
| "on_exit SC_newfstat = tp_sys_exit_newfstat"
| "on_exit SC_newfstatat = tp_sys_exit_newfstatat"
| "on_exit SC_dup = tp_sys_exit_dup"
| "on_exit SC_dup2 = tp_sys_exit_dup2"
| "on_exit SC_dup3 = tp_sys_exit_dup3"
| "on_exit SC_fcntl = tp_sys_exit_fcntl"
| "on_exit SC_mmap = tp_sys_exit_mmap"

end
