(* ===== verification/Io_Probe_Props.thy ===== *)
theory Io_Probe_Props
  imports Io_Probe
begin

text \<open>
  Correctness of the I/O probe: the counters of a file are the summary of the transfer events
  logged for it, processes below the logger are not traced, system calls are paired by thread,
  and the descriptor table follows open, dup and close.
\<close>

section \<open>Runs of the probe\<close>

text \<open>
  One step is the invocation of one handler. The first argument restricts the environments a
  run may meet: \<open>\<lambda>_. True\<close> allows all, \<open>env_dxt_rb\<close> those where the transfer ring buffer has room.
\<close>

inductive probe_step :: "(bpf_env \<Rightarrow> bool) \<Rightarrow> probe_state \<Rightarrow> probe_state \<Rightarrow> bool" for P where
  enter: "P e \<Longrightarrow> probe_step P s (on_enter sc e s)"
| exit: "P e \<Longrightarrow> probe_step P s (on_exit sc e s)"

inductive_cases probe_stepE: "probe_step P s t"

definition probe_init :: "u32 \<Rightarrow> probe_state" where
  "probe_init p =
     \<lparr>dlogger_pid = p, file_stats = Map.empty, fd_states = Map.empty, pending_opens = Map.empty,
      pending_rws = Map.empty, pending_closes = Map.empty, pending_seeks = Map.empty,
      pending_stats = Map.empty, pending_dups = Map.empty, pending_fcnl = Map.empty,
      path_events = [], dxt_events = []\<rparr>"

inductive probe_reach :: "(bpf_env \<Rightarrow> bool) \<Rightarrow> u32 \<Rightarrow> probe_state \<Rightarrow> bool" for P p where
  start: "probe_reach P p (probe_init p)"
| step: "probe_reach P p s \<Longrightarrow> probe_step P s t \<Longrightarrow> probe_reach P p t"

text \<open>An invariant of the handlers holds in every reachable state.\<close>

locale probe_invariant =
  fixes P :: "bpf_env \<Rightarrow> bool" and inv :: "probe_state \<Rightarrow> bool"
  assumes inv_init: "inv (probe_init p)"
    and inv_enter: "P e \<Longrightarrow> inv s \<Longrightarrow> inv (on_enter sc e s)"
    and inv_exit: "P e \<Longrightarrow> inv s \<Longrightarrow> inv (on_exit sc e s)"
begin

lemma reach_inv: "probe_reach P p s \<Longrightarrow> inv s"
proof (induction rule: probe_reach.induct)
  case start
  show ?case by (rule inv_init)
next
  case (step s t)
  from step.hyps(2) show ?case
    by (cases rule: probe_step.cases) (auto intro: inv_enter inv_exit step.IH)
qed

end

section \<open>What entry handlers leave alone\<close>

text \<open>The fields that hold results: statistics, descriptor table, logs. Entry handlers only stash arguments.\<close>

definition same_results :: "probe_state \<Rightarrow> probe_state \<Rightarrow> bool" where
  "same_results s t \<longleftrightarrow>
     dlogger_pid t = dlogger_pid s \<and> file_stats t = file_stats s \<and> fd_states t = fd_states s \<and>
     path_events t = path_events s \<and> dxt_events t = dxt_events s"

lemmas enter_defs =
  tp_sys_enter_open_def tp_sys_enter_openat_def tp_sys_enter_creat_def tp_sys_enter_close_def
  tp_sys_enter_read_def tp_sys_enter_pread64_def tp_sys_enter_readv_def tp_sys_enter_preadv_def
  tp_sys_enter_preadv2_def tp_sys_enter_write_def tp_sys_enter_pwrite64_def tp_sys_enter_writev_def
  tp_sys_enter_pwritev_def tp_sys_enter_pwritev2_def tp_sys_enter_lseek_def tp_sys_enter_fsync_def
  tp_sys_enter_fdatasync_def tp_sys_enter_newfstat_def tp_sys_enter_newfstatat_def
  tp_sys_enter_dup_def tp_sys_enter_dup2_def tp_sys_enter_dup3_def tp_sys_enter_fcntl_def
  tp_sys_enter_mmap_def

lemmas exit_wrapper_defs =
  tp_sys_exit_open_def tp_sys_exit_openat_def tp_sys_exit_creat_def
  tp_sys_exit_read_def tp_sys_exit_pread64_def tp_sys_exit_readv_def tp_sys_exit_preadv_def
  tp_sys_exit_preadv2_def tp_sys_exit_write_def tp_sys_exit_pwrite64_def tp_sys_exit_writev_def
  tp_sys_exit_pwritev_def tp_sys_exit_pwritev2_def tp_sys_exit_lseek_def tp_sys_exit_fsync_def
  tp_sys_exit_fdatasync_def tp_sys_exit_newfstat_def tp_sys_exit_newfstatat_def
  tp_sys_exit_dup_def tp_sys_exit_dup2_def tp_sys_exit_dup3_def tp_sys_exit_fcntl_def
  tp_sys_exit_mmap_def

lemma on_enter_same_results: "same_results s (on_enter sc e s)"
  by (cases sc)
    (simp_all add: same_results_def enter_defs put_pending_open_def put_pending_seek_def
      put_pending_stat_def handle_rw_enter_def handle_dup_enter_def Let_def)

lemma untraced_enter: "\<not> should_trace e s \<Longrightarrow> on_enter sc e s = s"
  by (cases sc) (simp_all add: enter_defs)

lemma untraced_exit: "\<not> should_trace e s \<Longrightarrow> on_exit sc e s = s"
  by (cases sc) (simp_all add: exit_wrapper_defs tp_sys_exit_close_def)

section \<open>The statistics entry of a file\<close>

definition fresh_stats :: "u64 \<Rightarrow> kdarshan_file_stats" where
  "fresh_stats h = set_counter POSIX_FILE_ALIGNMENT 4096
     (set_counter POSIX_MEM_ALIGNMENT 8 (global_zero_stats\<lparr>st_path_hash := h\<rparr>))"

lemma get_or_create_cases:
  "get_or_create_stats e h s =
     (case file_stats s h of
        Some st \<Rightarrow> (s, Some st)
      | None \<Rightarrow> if env_room e M_file_stats then (put_stats h (fresh_stats h) s, Some (fresh_stats h))
                else (s, None))"
  by (auto simp: get_or_create_stats_def put_stats_def fresh_stats_def bpf_insert_def Let_def
      split: option.splits)

text \<open>
  Every exit handler changes the results by an optional store to one statistics entry, obtained
  from \<open>get_or_create_stats\<close>, and changes to the other fields.
\<close>

definition on_stats :: "bpf_env \<Rightarrow> u64 \<Rightarrow> (kdarshan_file_stats \<Rightarrow> kdarshan_file_stats) \<Rightarrow> probe_state \<Rightarrow> probe_state" where
  "on_stats e h f s =
     (case get_or_create_stats e h s of (s1, None) \<Rightarrow> s1 | (s1, Some st) \<Rightarrow> put_stats h (f st) s1)"

section \<open>The summary a transfer log determines\<close>

definition dxt_at :: "u64 \<Rightarrow> dxt_event list \<Rightarrow> dxt_event list" where
  "dxt_at h ds = filter (\<lambda>d. dx_path_hash d = h) ds"

definition reads :: "dxt_event list \<Rightarrow> dxt_event list" where
  "reads ds = filter (\<lambda>d. dx_write_flag d = 0) ds"

definition writes :: "dxt_event list \<Rightarrow> dxt_event list" where
  "writes ds = filter (\<lambda>d. dx_write_flag d \<noteq> 0) ds"

definition end_byte :: "dxt_event \<Rightarrow> s64" where
  "end_byte d = dx_offset d + dx_length d - 1"

definition duration :: "dxt_event \<Rightarrow> u64" where
  "duration d = dx_end_ns d - dx_start_ns d"

definition smax :: "s64 \<Rightarrow> s64 \<Rightarrow> s64" where
  "smax a b = (if a <s b then b else a)"

definition read_buckets :: "posix_index list" where
  "read_buckets =
     [POSIX_SIZE_READ_0_100, POSIX_SIZE_READ_100_1K, POSIX_SIZE_READ_1K_10K, POSIX_SIZE_READ_10K_100K,
      POSIX_SIZE_READ_100K_1M, POSIX_SIZE_READ_1M_4M, POSIX_SIZE_READ_4M_10M, POSIX_SIZE_READ_10M_100M,
      POSIX_SIZE_READ_100M_1G, POSIX_SIZE_READ_1G_PLUS]"

definition write_buckets :: "posix_index list" where
  "write_buckets =
     [POSIX_SIZE_WRITE_0_100, POSIX_SIZE_WRITE_100_1K, POSIX_SIZE_WRITE_1K_10K, POSIX_SIZE_WRITE_10K_100K,
      POSIX_SIZE_WRITE_100K_1M, POSIX_SIZE_WRITE_1M_4M, POSIX_SIZE_WRITE_4M_10M, POSIX_SIZE_WRITE_10M_100M,
      POSIX_SIZE_WRITE_100M_1G, POSIX_SIZE_WRITE_1G_PLUS]"

text \<open>
  \<open>direction_ok\<close> relates the counters of one direction to the transfers of that direction:
  their number, their bytes, the highest byte touched, the time spent, the longest transfer, and
  the size histogram.
\<close>

definition direction_ok ::
  "s64 \<Rightarrow> s64 \<Rightarrow> s64 \<Rightarrow> u64 \<Rightarrow> u64 \<Rightarrow> (posix_index \<Rightarrow> s64) \<Rightarrow> (s64 \<Rightarrow> posix_index) \<Rightarrow> posix_index list \<Rightarrow>
   dxt_event list \<Rightarrow> bool" where
  "direction_ok n bytes maxbyte time maxtime hist bucket buckets ds \<longleftrightarrow>
     n = of_nat (length ds) \<and>
     bytes = sum_list (map dx_length ds) \<and>
     maxbyte = foldl (\<lambda>m d. smax m (end_byte d)) 0 ds \<and>
     time = sum_list (map duration ds) \<and>
     maxtime = foldl (\<lambda>m d. max m (duration d)) 0 ds \<and>
     (\<forall>b \<in> set buckets. hist b = of_nat (length (filter (\<lambda>d. bucket (dx_length d) = b) ds)))"

definition io_summary :: "kdarshan_file_stats \<Rightarrow> dxt_event list \<Rightarrow> bool" where
  "io_summary st ds \<longleftrightarrow>
     direction_ok (counters st POSIX_READS) (counters st POSIX_BYTES_READ) (counters st POSIX_MAX_BYTE_READ)
       (fcounters st POSIX_F_READ_TIME) (fcounters st POSIX_F_MAX_READ_TIME)
       (counters st) read_bucket read_buckets (reads ds) \<and>
     direction_ok (counters st POSIX_WRITES) (counters st POSIX_BYTES_WRITTEN) (counters st POSIX_MAX_BYTE_WRITTEN)
       (fcounters st POSIX_F_WRITE_TIME) (fcounters st POSIX_F_MAX_WRITE_TIME)
       (counters st) write_bucket write_buckets (writes ds)"

lemma read_bucket_in: "read_bucket n \<in> set read_buckets"
  by (simp add: read_bucket_def read_buckets_def)

lemma write_bucket_in: "write_bucket n \<in> set write_buckets"
  by (simp add: write_bucket_def write_buckets_def)

lemma bucket_neq:
  "i \<notin> set read_buckets \<Longrightarrow> i \<noteq> read_bucket n" "i \<notin> set write_buckets \<Longrightarrow> i \<noteq> write_bucket n"
  using read_bucket_in write_bucket_in by metis+

lemma not_bucket:
  "POSIX_READS \<notin> set read_buckets" "POSIX_BYTES_READ \<notin> set read_buckets" "POSIX_MAX_BYTE_READ \<notin> set read_buckets"
  "POSIX_WRITES \<notin> set read_buckets" "POSIX_BYTES_WRITTEN \<notin> set read_buckets" "POSIX_MAX_BYTE_WRITTEN \<notin> set read_buckets"
  "POSIX_READS \<notin> set write_buckets" "POSIX_BYTES_READ \<notin> set write_buckets" "POSIX_MAX_BYTE_READ \<notin> set write_buckets"
  "POSIX_WRITES \<notin> set write_buckets" "POSIX_BYTES_WRITTEN \<notin> set write_buckets" "POSIX_MAX_BYTE_WRITTEN \<notin> set write_buckets"
  "POSIX_FILE_ALIGNMENT \<notin> set read_buckets" "POSIX_FILE_ALIGNMENT \<notin> set write_buckets"
  by (simp_all add: read_buckets_def write_buckets_def)

text \<open>The counters the summary is about; every other counter may change freely.\<close>

definition summary_counters :: "posix_index set" where
  "summary_counters = {POSIX_READS, POSIX_BYTES_READ, POSIX_MAX_BYTE_READ, POSIX_WRITES,
     POSIX_BYTES_WRITTEN, POSIX_MAX_BYTE_WRITTEN} \<union> set read_buckets \<union> set write_buckets"

definition summary_fcounters :: "posix_f_index set" where
  "summary_fcounters = {POSIX_F_READ_TIME, POSIX_F_MAX_READ_TIME, POSIX_F_WRITE_TIME, POSIX_F_MAX_WRITE_TIME}"

lemma io_summary_cong:
  assumes "\<And>i. i \<in> summary_counters \<Longrightarrow> counters st' i = counters st i"
    and "\<And>i. i \<in> summary_fcounters \<Longrightarrow> fcounters st' i = fcounters st i"
  shows "io_summary st' ds = io_summary st ds"
  using assms by (simp add: io_summary_def direction_ok_def summary_counters_def summary_fcounters_def)

lemma direction_ok_snoc:
  assumes "direction_ok n bytes maxbyte time maxtime hist bucket buckets ds"
    and "n' = n + 1" and "bytes' = bytes + dx_length d" and "maxbyte' = smax maxbyte (end_byte d)"
    and "time' = time + duration d" and "maxtime' = max maxtime (duration d)"
    and "\<And>b. b \<in> set buckets \<Longrightarrow> hist' b = (if b = bucket (dx_length d) then hist b + 1 else hist b)"
  shows "direction_ok n' bytes' maxbyte' time' maxtime' hist' bucket buckets (ds @ [d])"
  using assms by (auto simp: direction_ok_def)

lemma max_raise: "(if m < (v :: u64) then v else m) = max m v"
  by (auto simp: max_def)

text \<open>The effect of the two branches of \<open>handle_rw_exit\<close> on the summary counters.\<close>

lemma rw_alignment_counters:
  "i \<noteq> POSIX_FILE_NOT_ALIGNED \<Longrightarrow> i \<noteq> POSIX_MEM_NOT_ALIGNED \<Longrightarrow>
     counters (rw_alignment_stats a st) i = counters st i"
  "fcounters (rw_alignment_stats a st) = fcounters st"
  "st_path_hash (rw_alignment_stats a st) = st_path_hash st"
  by (simp_all add: rw_alignment_stats_def Let_def stat_simps)

lemma not_bucket_in:
  "b \<in> set read_buckets \<Longrightarrow> b \<notin> set write_buckets"
  "b \<in> set read_buckets \<union> set write_buckets \<Longrightarrow>
     b \<notin> {POSIX_READS, POSIX_BYTES_READ, POSIX_MAX_BYTE_READ, POSIX_WRITES, POSIX_BYTES_WRITTEN,
           POSIX_MAX_BYTE_WRITTEN, POSIX_SEQ_READS, POSIX_SEQ_WRITES, POSIX_CONSEC_READS,
           POSIX_CONSEC_WRITES, POSIX_RW_SWITCHES, POSIX_MAX_READ_TIME_SIZE, POSIX_MAX_WRITE_TIME_SIZE,
           POSIX_FILE_NOT_ALIGNED, POSIX_MEM_NOT_ALIGNED, POSIX_MEM_ALIGNMENT, POSIX_FILE_ALIGNMENT,
           POSIX_OPENS, POSIX_MODE, POSIX_SEEKS, POSIX_STATS, POSIX_MMAPS, POSIX_FSYNCS,
           POSIX_FDSYNCS, POSIX_DUPS}"
  by (auto simp: read_buckets_def write_buckets_def)

lemma rw_read_counters:
  fixes now a len fs st
  defines "d \<equiv> rw_read_stats now a len fs st"
  shows "counters d POSIX_READS = counters st POSIX_READS + 1"
    and "counters d POSIX_BYTES_READ = counters st POSIX_BYTES_READ + len"
    and "counters d POSIX_MAX_BYTE_READ = smax (counters st POSIX_MAX_BYTE_READ) (rw_offset a + len - 1)"
    and "fcounters d POSIX_F_READ_TIME = fcounters st POSIX_F_READ_TIME + (now - rw_start_ns a)"
    and "fcounters d POSIX_F_MAX_READ_TIME = max (fcounters st POSIX_F_MAX_READ_TIME) (now - rw_start_ns a)"
    and "b \<in> set read_buckets \<Longrightarrow> counters d b = (if b = read_bucket len then counters st b + 1 else counters st b)"
    and "i \<in> {POSIX_WRITES, POSIX_BYTES_WRITTEN, POSIX_MAX_BYTE_WRITTEN} \<union> set write_buckets \<Longrightarrow> counters d i = counters st i"
    and "j \<in> {POSIX_F_WRITE_TIME, POSIX_F_MAX_WRITE_TIME} \<Longrightarrow> fcounters d j = fcounters st j"
    and "st_path_hash d = st_path_hash st"
proof -
  show "counters d POSIX_READS = counters st POSIX_READS + 1"
    "counters d POSIX_BYTES_READ = counters st POSIX_BYTES_READ + len"
    "counters d POSIX_MAX_BYTE_READ = smax (counters st POSIX_MAX_BYTE_READ) (rw_offset a + len - 1)"
    by (simp_all add: d_def rw_read_stats_def Let_def stat_simps bucket_neq not_bucket smax_def)
  show "fcounters d POSIX_F_READ_TIME = fcounters st POSIX_F_READ_TIME + (now - rw_start_ns a)"
    "fcounters d POSIX_F_MAX_READ_TIME = max (fcounters st POSIX_F_MAX_READ_TIME) (now - rw_start_ns a)"
    "st_path_hash d = st_path_hash st"
    by (simp_all add: d_def rw_read_stats_def Let_def stat_simps max_raise)
  show "counters d b = (if b = read_bucket len then counters st b + 1 else counters st b)"
    if "b \<in> set read_buckets"
    using not_bucket_in(2) [of b] that by (auto simp: d_def rw_read_stats_def Let_def stat_simps)
  show "counters d i = counters st i"
    if "i \<in> {POSIX_WRITES, POSIX_BYTES_WRITTEN, POSIX_MAX_BYTE_WRITTEN} \<union> set write_buckets"
  proof -
    have "i \<noteq> read_bucket len"
      using that not_bucket_in(1) read_bucket_in [of len] not_bucket by fastforce
    then show ?thesis
      using that not_bucket_in(2) [of i] by (auto simp: d_def rw_read_stats_def Let_def stat_simps)
  qed
  show "fcounters d j = fcounters st j" if "j \<in> {POSIX_F_WRITE_TIME, POSIX_F_MAX_WRITE_TIME}"
    using that by (auto simp: d_def rw_read_stats_def Let_def stat_simps)
qed

lemma rw_write_counters:
  fixes now a len fs st
  defines "d \<equiv> rw_write_stats now a len fs st"
  shows "counters d POSIX_WRITES = counters st POSIX_WRITES + 1"
    and "counters d POSIX_BYTES_WRITTEN = counters st POSIX_BYTES_WRITTEN + len"
    and "counters d POSIX_MAX_BYTE_WRITTEN = smax (counters st POSIX_MAX_BYTE_WRITTEN) (rw_offset a + len - 1)"
    and "fcounters d POSIX_F_WRITE_TIME = fcounters st POSIX_F_WRITE_TIME + (now - rw_start_ns a)"
    and "fcounters d POSIX_F_MAX_WRITE_TIME = max (fcounters st POSIX_F_MAX_WRITE_TIME) (now - rw_start_ns a)"
    and "b \<in> set write_buckets \<Longrightarrow> counters d b = (if b = write_bucket len then counters st b + 1 else counters st b)"
    and "i \<in> {POSIX_READS, POSIX_BYTES_READ, POSIX_MAX_BYTE_READ} \<union> set read_buckets \<Longrightarrow> counters d i = counters st i"
    and "j \<in> {POSIX_F_READ_TIME, POSIX_F_MAX_READ_TIME} \<Longrightarrow> fcounters d j = fcounters st j"
    and "st_path_hash d = st_path_hash st"
proof -
  show "counters d POSIX_WRITES = counters st POSIX_WRITES + 1"
    "counters d POSIX_BYTES_WRITTEN = counters st POSIX_BYTES_WRITTEN + len"
    "counters d POSIX_MAX_BYTE_WRITTEN = smax (counters st POSIX_MAX_BYTE_WRITTEN) (rw_offset a + len - 1)"
    by (simp_all add: d_def rw_write_stats_def Let_def stat_simps bucket_neq not_bucket smax_def)
  show "fcounters d POSIX_F_WRITE_TIME = fcounters st POSIX_F_WRITE_TIME + (now - rw_start_ns a)"
    "fcounters d POSIX_F_MAX_WRITE_TIME = max (fcounters st POSIX_F_MAX_WRITE_TIME) (now - rw_start_ns a)"
    "st_path_hash d = st_path_hash st"
    by (simp_all add: d_def rw_write_stats_def Let_def stat_simps max_raise)
  show "counters d b = (if b = write_bucket len then counters st b + 1 else counters st b)"
    if "b \<in> set write_buckets"
    using not_bucket_in(2) [of b] that by (auto simp: d_def rw_write_stats_def Let_def stat_simps)
  show "counters d i = counters st i"
    if "i \<in> {POSIX_READS, POSIX_BYTES_READ, POSIX_MAX_BYTE_READ} \<union> set read_buckets"
  proof -
    have "i \<noteq> write_bucket len"
      using that not_bucket_in(1) write_bucket_in [of len] not_bucket by fastforce
    then show ?thesis
      using that not_bucket_in(2) [of i] by (auto simp: d_def rw_write_stats_def Let_def stat_simps)
  qed
  show "fcounters d j = fcounters st j" if "j \<in> {POSIX_F_READ_TIME, POSIX_F_MAX_READ_TIME}"
    using that by (auto simp: d_def rw_write_stats_def Let_def stat_simps)
qed

text \<open>A committed transfer extends the summary by its own event.\<close>

lemma io_summary_read:
  assumes "io_summary st ds" and "dx_write_flag d = 0" and "dx_length d = len"
    and "dx_offset d = rw_offset a" and "dx_start_ns d = rw_start_ns a" and "dx_end_ns d = now"
  shows "io_summary (rw_alignment_stats a (rw_read_stats now a len fs st)) (ds @ [d])"
proof -
  let ?st = "rw_read_stats now a len fs st"
  have r: "direction_ok (counters ?st POSIX_READS) (counters ?st POSIX_BYTES_READ) (counters ?st POSIX_MAX_BYTE_READ)
       (fcounters ?st POSIX_F_READ_TIME) (fcounters ?st POSIX_F_MAX_READ_TIME)
       (counters ?st) read_bucket read_buckets (reads ds @ [d])"
    by (rule direction_ok_snoc [OF conjunct1 [OF assms(1) [unfolded io_summary_def]]])
      (simp_all add: rw_read_counters end_byte_def duration_def assms(2-6))
  have w: "direction_ok (counters ?st POSIX_WRITES) (counters ?st POSIX_BYTES_WRITTEN) (counters ?st POSIX_MAX_BYTE_WRITTEN)
       (fcounters ?st POSIX_F_WRITE_TIME) (fcounters ?st POSIX_F_MAX_WRITE_TIME)
       (counters ?st) write_bucket write_buckets (writes ds)"
    using assms(1) by (simp add: io_summary_def direction_ok_def rw_read_counters)
  have "io_summary ?st (ds @ [d])"
    using r w assms(2) by (simp add: io_summary_def reads_def writes_def)
  then show ?thesis
    by (subst io_summary_cong [where st = ?st])
      (auto simp: rw_alignment_counters summary_counters_def read_buckets_def write_buckets_def)
qed

lemma io_summary_write:
  assumes "io_summary st ds" and "dx_write_flag d \<noteq> 0" and "dx_length d = len"
    and "dx_offset d = rw_offset a" and "dx_start_ns d = rw_start_ns a" and "dx_end_ns d = now"
  shows "io_summary (rw_alignment_stats a (rw_write_stats now a len fs st)) (ds @ [d])"
proof -
  let ?st = "rw_write_stats now a len fs st"
  have w: "direction_ok (counters ?st POSIX_WRITES) (counters ?st POSIX_BYTES_WRITTEN) (counters ?st POSIX_MAX_BYTE_WRITTEN)
       (fcounters ?st POSIX_F_WRITE_TIME) (fcounters ?st POSIX_F_MAX_WRITE_TIME)
       (counters ?st) write_bucket write_buckets (writes ds @ [d])"
    by (rule direction_ok_snoc [OF conjunct2 [OF assms(1) [unfolded io_summary_def]]])
      (simp_all add: rw_write_counters end_byte_def duration_def assms(2-6))
  have r: "direction_ok (counters ?st POSIX_READS) (counters ?st POSIX_BYTES_READ) (counters ?st POSIX_MAX_BYTE_READ)
       (fcounters ?st POSIX_F_READ_TIME) (fcounters ?st POSIX_F_MAX_READ_TIME)
       (counters ?st) read_bucket read_buckets (reads ds)"
    using assms(1) by (simp add: io_summary_def direction_ok_def rw_write_counters)
  have "io_summary ?st (ds @ [d])"
    using r w assms(2) by (simp add: io_summary_def reads_def writes_def)
  then show ?thesis
    by (subst io_summary_cong [where st = ?st])
      (auto simp: rw_alignment_counters summary_counters_def read_buckets_def write_buckets_def)
qed

lemma fresh_hash [simp]: "st_path_hash (fresh_stats h) = h"
  by (simp add: fresh_stats_def)

lemma io_summary_fresh: "io_summary (fresh_stats h) []"
  by (auto simp: io_summary_def direction_ok_def fresh_stats_def global_zero_stats_def stat_simps
      reads_def writes_def read_buckets_def write_buckets_def)

section \<open>The statistics are the summary of the transfer log\<close>

definition stats_inv :: "probe_state \<Rightarrow> bool" where
  "stats_inv s \<longleftrightarrow>
     (\<forall>h. file_stats s h = None \<longrightarrow> dxt_at h (dxt_events s) = [])
   \<and> (\<forall>h st. file_stats s h = Some st \<longrightarrow> st_path_hash st = h \<and> io_summary st (dxt_at h (dxt_events s)))"

lemma stats_invD:
  "stats_inv s \<Longrightarrow> file_stats s h = None \<Longrightarrow> dxt_at h (dxt_events s) = []"
  "stats_inv s \<Longrightarrow> file_stats s h = Some st \<Longrightarrow> st_path_hash st = h"
  "stats_inv s \<Longrightarrow> file_stats s h = Some st \<Longrightarrow> io_summary st (dxt_at h (dxt_events s))"
  by (simp_all add: stats_inv_def)

lemma stats_inv_cong:
  "file_stats t = file_stats s \<Longrightarrow> dxt_events t = dxt_events s \<Longrightarrow> stats_inv t = stats_inv s"
  unfolding stats_inv_def by simp

text \<open>Storing one entry whose summary is right, with the log unchanged.\<close>

lemma stats_inv_put:
  assumes "stats_inv s" and "st_path_hash st = h" and "io_summary st (dxt_at h (dxt_events s))"
  shows "stats_inv (put_stats h st s)"
  using assms unfolding stats_inv_def put_stats_def by simp

text \<open>An update that leaves the summary counters alone.\<close>

definition summary_neutral :: "(kdarshan_file_stats \<Rightarrow> kdarshan_file_stats) \<Rightarrow> bool" where
  "summary_neutral f \<longleftrightarrow>
     (\<forall>st. st_path_hash (f st) = st_path_hash st
       \<and> (\<forall>i \<in> summary_counters. counters (f st) i = counters st i)
       \<and> (\<forall>i \<in> summary_fcounters. fcounters (f st) i = fcounters st i))"

lemma neutral_summary: "summary_neutral f \<Longrightarrow> io_summary (f st) ds = io_summary st ds"
  by (rule io_summary_cong) (simp_all add: summary_neutral_def)

lemma neutral_open: "summary_neutral (open_update_stats now mode bs)"
  by (auto simp: summary_neutral_def open_update_stats_def Let_def stat_simps summary_counters_def
      summary_fcounters_def read_buckets_def write_buckets_def)

lemma neutral_close: "summary_neutral (close_update_stats now)"
  by (auto simp: summary_neutral_def close_update_stats_def Let_def stat_simps summary_fcounters_def)

lemma neutral_count: "i \<notin> summary_counters \<Longrightarrow> summary_neutral (add_counter i v)"
  by (auto simp: summary_neutral_def stat_simps)

lemma neutral_comp: "summary_neutral f \<Longrightarrow> summary_neutral g \<Longrightarrow> summary_neutral (\<lambda>st. f (g st))"
  by (simp add: summary_neutral_def)

lemma neutral_dup: "summary_neutral (\<lambda>st. add_counter POSIX_OPENS 1 (add_counter POSIX_DUPS 1 st))"
  by (rule neutral_comp [of "add_counter POSIX_OPENS 1" "add_counter POSIX_DUPS 1"]; rule neutral_count;
      simp add: summary_counters_def read_buckets_def write_buckets_def)

lemma get_or_create_frame:
  assumes "get_or_create_stats e h s = (s', r)"
  shows "dxt_events s' = dxt_events s" "fd_states s' = fd_states s" "file_stats s' h = r"
  using assms by (auto simp: get_or_create_cases put_stats_def split: option.splits if_splits)

lemma get_or_create_inv:
  assumes "stats_inv s" and "get_or_create_stats e h s = (s', r)"
  shows "stats_inv s'"
proof (cases "file_stats s h")
  case None
  then have "stats_inv (put_stats h (fresh_stats h) s)"
    by (intro stats_inv_put assms(1)) (simp_all add: stats_invD(1) [OF assms(1)] io_summary_fresh)
  with assms None show ?thesis
    by (auto simp: get_or_create_cases split: if_splits)
next
  case Some
  with assms show ?thesis by (simp add: get_or_create_cases)
qed

lemma put_stats_inv:
  assumes "stats_inv s" and "file_stats s h = Some st" and "summary_neutral f"
  shows "stats_inv (put_stats h (f st) s)"
  by (rule stats_inv_put [OF assms(1)])
    (use assms(3) stats_invD(2,3) [OF assms(1,2)] neutral_summary [OF assms(3)] in \<open>simp_all add: summary_neutral_def\<close>)

lemma on_stats_inv:
  assumes "stats_inv s" and "summary_neutral f"
  shows "stats_inv (on_stats e h f s)"
proof -
  obtain s1 r where g: "get_or_create_stats e h s = (s1, r)" by force
  show ?thesis
    using get_or_create_inv [OF assms(1) g] get_or_create_frame(3) [OF g] assms(2)
    by (auto simp: on_stats_def g intro: put_stats_inv split: option.splits)
qed

text \<open>The exit handlers in terms of \<open>on_stats\<close>.\<close>

lemma count_on_fd_stats:
  "count_on_fd e fd i s =
     (case fd_states s (fd_key (cur_pid e) (of_int32 fd)) of
        None \<Rightarrow> s | Some fs \<Rightarrow> on_stats e (fs_path_hash fs) (add_counter i 1) s)"
  by (auto simp: count_on_fd_def on_stats_def split: option.splits prod.splits)

lemma count_on_fd_inv: "stats_inv s \<Longrightarrow> i \<notin> summary_counters \<Longrightarrow> stats_inv (count_on_fd e fd i s)"
  by (auto simp: count_on_fd_stats on_stats_inv neutral_count split: option.splits)

lemma dup_fd_inv: "stats_inv s \<Longrightarrow> stats_inv (dup_fd e fd s)"
proof -
  assume s: "stats_inv s"
  have "stats_inv (on_stats e h (\<lambda>st. add_counter POSIX_OPENS 1 (add_counter POSIX_DUPS 1 st)) (s\<lparr>fd_states := m\<rparr>))"
    for h m
    by (rule on_stats_inv [OF _ neutral_dup]) (use s in \<open>simp cong: stats_inv_cong\<close>)
  with s show ?thesis
    by (auto simp: dup_fd_def on_stats_def Let_def split: option.splits prod.splits)
qed

lemma stats_inv_frame [simp]:
  "stats_inv (s\<lparr>fd_states := m1\<rparr>) = stats_inv s"
  "stats_inv (s\<lparr>pending_opens := m2\<rparr>) = stats_inv s"
  "stats_inv (s\<lparr>pending_rws := m3\<rparr>) = stats_inv s"
  "stats_inv (s\<lparr>pending_closes := m4\<rparr>) = stats_inv s"
  "stats_inv (s\<lparr>pending_seeks := m5\<rparr>) = stats_inv s"
  "stats_inv (s\<lparr>pending_stats := m6\<rparr>) = stats_inv s"
  "stats_inv (s\<lparr>pending_dups := m7\<rparr>) = stats_inv s"
  "stats_inv (s\<lparr>pending_fcnl := m8\<rparr>) = stats_inv s"
  "stats_inv (s\<lparr>path_events := l\<rparr>) = stats_inv s"
  by (rule stats_inv_cong; simp)+

lemma create_then_put_inv:
  "get_or_create_stats e h s = (s1, Some st) \<Longrightarrow> stats_inv s \<Longrightarrow> summary_neutral f \<Longrightarrow>
     stats_inv (put_stats h (f st) s1)"
  using get_or_create_inv get_or_create_frame(3) put_stats_inv by metis

lemma create_inv: "get_or_create_stats e h s = (s1, r) \<Longrightarrow> stats_inv s \<Longrightarrow> stats_inv s1"
  using get_or_create_inv by metis

lemma handle_open_exit_inv:
  assumes "stats_inv s"
  shows "stats_inv (handle_open_exit e s)"
  using assms
  by (auto simp: handle_open_exit_def Let_def split: option.splits prod.splits
      elim!: create_inv create_then_put_inv [OF _ _ neutral_open])

lemma exit_close_inv:
  assumes "stats_inv s"
  shows "stats_inv (tp_sys_exit_close e s)"
  using assms
  by (auto simp: tp_sys_exit_close_def Let_def split: option.splits prod.splits
      elim!: create_inv create_then_put_inv [OF _ _ neutral_close])

text \<open>With room in the transfer ring buffer, a transfer extends log and statistics together.\<close>

lemma rw_commit_inv:
  assumes s: "stats_inv s" and st: "file_stats s (fs_path_hash fs) = Some st" and room: "env_dxt_rb e"
  shows "stats_inv (rw_commit e w a key fs st s)"
proof -
  let ?h = "fs_path_hash fs" and ?d = "rw_dxt_event e a (fs_path_hash fs) w"
  let ?st = "rw_alignment_stats a (if w then rw_write_stats (env_ktime e) a (env_ret e) fs st
                                   else rw_read_stats (env_ktime e) a (env_ret e) fs st)"
  let ?t = "rw_commit e w a key fs st s"
  have f: "file_stats ?t = (file_stats s)(?h \<mapsto> ?st)" and d: "dxt_events ?t = dxt_events s @ [?d]"
    using room by (simp_all add: rw_commit_def put_stats_def rw_write_fstate_def rw_read_fstate_def Let_def)
  have "io_summary ?st (dxt_at ?h (dxt_events s) @ [?d])"
    using io_summary_write io_summary_read stats_invD(3) [OF s st] by (simp add: rw_dxt_event_def)
  then have own: "io_summary ?st (dxt_at ?h (dxt_events ?t))"
    by (simp add: d dxt_at_def) (simp add: rw_dxt_event_def)
  have other: "dxt_at h (dxt_events ?t) = dxt_at h (dxt_events s)" if "h \<noteq> ?h" for h
    using that by (simp add: d dxt_at_def rw_dxt_event_def)
  have hash: "st_path_hash ?st = ?h"
    by (simp add: rw_alignment_counters rw_read_counters rw_write_counters stats_invD(2) [OF s st])
  show ?thesis
    unfolding stats_inv_def
    using own hash other stats_invD [OF s] by (simp add: f split: if_splits)
qed

lemma handle_rw_exit_inv:
  assumes "stats_inv s" and "env_dxt_rb e"
  shows "stats_inv (handle_rw_exit e w s)"
proof -
  have "stats_inv (case get_or_create_stats e (fs_path_hash fs) s of
          (s1, None) \<Rightarrow> s1 | (s1, Some st) \<Rightarrow> rw_commit e w a key fs st s1)" for fs a key
    using get_or_create_inv [OF assms(1)] get_or_create_frame(3) rw_commit_inv [OF _ _ assms(2)]
    by (fastforce split: option.splits prod.splits)
  then show ?thesis
    using assms(1) by (auto simp: handle_rw_exit_def Let_def split: option.splits prod.splits)
qed

lemma on_enter_inv: "stats_inv s \<Longrightarrow> stats_inv (on_enter sc e s)"
  using on_enter_same_results [of s sc e] stats_inv_cong unfolding same_results_def by blast

lemma counted_syscalls_neutral:
  "POSIX_SEEKS \<notin> summary_counters" "POSIX_FSYNCS \<notin> summary_counters" "POSIX_FDSYNCS \<notin> summary_counters"
  "POSIX_STATS \<notin> summary_counters" "POSIX_MMAPS \<notin> summary_counters"
  by (simp_all add: summary_counters_def read_buckets_def write_buckets_def)

lemma handle_dup_exit_inv: "stats_inv s \<Longrightarrow> stats_inv (handle_dup_exit e s)"
  by (auto simp: handle_dup_exit_def dup_fd_inv split: option.splits)

lemma on_exit_inv:
  assumes "env_dxt_rb e" and "stats_inv s"
  shows "stats_inv (on_exit sc e s)"
proof (cases "should_trace e s")
  case False
  with assms(2) show ?thesis by (simp add: untraced_exit)
next
  case True
  have cnt: "stats_inv (count_on_fd e fd i (s\<lparr>pending_seeks := m\<rparr>))"
    "stats_inv (count_on_fd e fd i (s\<lparr>pending_stats := m\<rparr>))" if "i \<notin> summary_counters" for fd i m
    using that assms(2) by (simp_all add: count_on_fd_inv)
  have fc: "stats_inv (dup_fd e fd (s\<lparr>pending_fcnl := m\<rparr>))" for fd m
    by (rule dup_fd_inv) (simp add: assms(2))
  show ?thesis
    using True assms cnt fc handle_open_exit_inv [OF assms(2)] handle_rw_exit_inv [OF assms(2,1)]
      handle_dup_exit_inv [OF assms(2)] exit_close_inv [OF assms(2)] counted_syscalls_neutral
    by (cases sc)
      (simp_all add: exit_wrapper_defs Let_def split: option.splits)
qed

interpretation stats: probe_invariant env_dxt_rb stats_inv
proof unfold_locales
  show "stats_inv (probe_init p)" for p
    by (simp add: stats_inv_def probe_init_def dxt_at_def)
qed (auto intro: on_enter_inv on_exit_inv)

section \<open>The ancestor walk\<close>

fun ancestor :: "kernel_mem \<Rightarrow> nat \<Rightarrow> u64 \<Rightarrow> u64" where
  "ancestor km 0 t = t"
| "ancestor km (Suc k) t = ancestor km k (tk_real_parent (km_task km t))"

lemma is_descendant_numeral:
  "is_descendant km p (numeral n) task =
     (if task = 0 then False
      else if tk_tgid (km_task km task) = p then True
      else is_descendant km p (pred_numeral n) (tk_real_parent (km_task km task)))"
  by (simp add: numeral_eq_Suc)

lemma is_descendant_iff:
  "is_descendant km p n t \<longleftrightarrow>
     (\<exists>k<n. (\<forall>j\<le>k. ancestor km j t \<noteq> 0) \<and> tk_tgid (km_task km (ancestor km k t)) = p)"
proof (induction n arbitrary: t)
  case 0
  show ?case by simp
next
  case (Suc n)
  let ?up = "tk_real_parent (km_task km t)"
  have "(\<exists>k<Suc n. (\<forall>j\<le>k. ancestor km j t \<noteq> 0) \<and> tk_tgid (km_task km (ancestor km k t)) = p) \<longleftrightarrow>
      t \<noteq> 0 \<and> (tk_tgid (km_task km t) = p \<or>
        (\<exists>k<n. (\<forall>j\<le>k. ancestor km j ?up \<noteq> 0) \<and> tk_tgid (km_task km (ancestor km k ?up)) = p))"
    by (simp add: Ex_less_Suc2 All_less_Suc2 flip: less_Suc_eq_le) blast
  then show ?case by (simp add: Suc.IH)
qed

text \<open>The pending-argument maps, seen by system call.\<close>

fun pending :: "traced_syscall \<Rightarrow> probe_state \<Rightarrow> u32 \<Rightarrow> bool" where
  "pending SC_open s t = (pending_opens s t \<noteq> None)"
| "pending SC_openat s t = (pending_opens s t \<noteq> None)"
| "pending SC_creat s t = (pending_opens s t \<noteq> None)"
| "pending SC_close s t = (pending_closes s t \<noteq> None)"
| "pending SC_lseek s t = (pending_seeks s t \<noteq> None)"
| "pending SC_fsync s t = (pending_seeks s t \<noteq> None)"
| "pending SC_fdatasync s t = (pending_seeks s t \<noteq> None)"
| "pending SC_mmap s t = (pending_seeks s t \<noteq> None)"
| "pending SC_newfstat s t = (pending_stats s t \<noteq> None)"
| "pending SC_newfstatat s t = (pending_stats s t \<noteq> None)"
| "pending SC_dup s t = (pending_dups s t \<noteq> None)"
| "pending SC_dup2 s t = (pending_dups s t \<noteq> None)"
| "pending SC_dup3 s t = (pending_dups s t \<noteq> None)"
| "pending SC_fcntl s t = (pending_fcnl s t \<noteq> None)"
| "pending _ s t = (pending_rws s t \<noteq> None)"

text \<open>All the pending maps of one thread.\<close>

definition thread_slots where
  "thread_slots s t =
     (pending_opens s t, pending_rws s t, pending_closes s t, pending_seeks s t, pending_stats s t,
      pending_dups s t, pending_fcnl s t)"

lemma get_or_create_slots: "get_or_create_stats e h s = (s1, r) \<Longrightarrow>
    pending_opens s1 = pending_opens s \<and> pending_rws s1 = pending_rws s \<and> pending_closes s1 = pending_closes s \<and>
    pending_seeks s1 = pending_seeks s \<and> pending_stats s1 = pending_stats s \<and> pending_dups s1 = pending_dups s \<and>
    pending_fcnl s1 = pending_fcnl s"
  by (auto simp: get_or_create_cases put_stats_def split: option.splits if_splits)

lemma thread_slots_on_enter:
  "t \<noteq> cur_tid e \<Longrightarrow> thread_slots (on_enter sc e s) t = thread_slots s t"
  by (cases sc)
    (simp_all add: thread_slots_def enter_defs put_pending_open_def put_pending_seek_def
      put_pending_stat_def handle_rw_enter_def handle_dup_enter_def Let_def)

lemma slots_count_on_fd: "thread_slots (count_on_fd e fd i s) t = thread_slots s t"
  by (auto simp: thread_slots_def count_on_fd_def put_stats_def dest!: get_or_create_slots split: option.splits prod.splits)

lemma slots_dup_fd: "thread_slots (dup_fd e fd s) t = thread_slots s t"
  by (auto simp: thread_slots_def dup_fd_def put_stats_def Let_def dest!: get_or_create_slots split: option.splits prod.splits)

lemma slots_rw_commit: "thread_slots (rw_commit e w a key fs st s) t = thread_slots s t"
  by (simp add: thread_slots_def rw_commit_def put_stats_def Let_def)

lemma handle_rw_exit_slots:
  "thread_slots (handle_rw_exit e w s) t = thread_slots (s\<lparr>pending_rws := bpf_delete (pending_rws s) (cur_tid e)\<rparr>) t"
  using slots_rw_commit unfolding thread_slots_def
  by (auto simp: handle_rw_exit_def Let_def dest!: get_or_create_slots split: option.splits prod.splits)

lemma handle_open_exit_slots:
  "thread_slots (handle_open_exit e s) t = thread_slots (s\<lparr>pending_opens := bpf_delete (pending_opens s) (cur_tid e)\<rparr>) t"
  by (auto simp: thread_slots_def handle_open_exit_def put_stats_def Let_def dest!: get_or_create_slots
      split: option.splits prod.splits)

lemma exit_close_slots:
  "should_trace e s \<Longrightarrow> thread_slots (tp_sys_exit_close e s) t =
     thread_slots (s\<lparr>pending_closes := bpf_delete (pending_closes s) (cur_tid e)\<rparr>) t"
  by (auto simp: thread_slots_def tp_sys_exit_close_def put_stats_def Let_def dest!: get_or_create_slots
      split: option.splits prod.splits)

lemma handle_dup_exit_slots:
  "thread_slots (handle_dup_exit e s) t = thread_slots (s\<lparr>pending_dups := bpf_delete (pending_dups s) (cur_tid e)\<rparr>) t"
  by (auto simp: handle_dup_exit_def slots_dup_fd split: option.splits) (simp add: thread_slots_def)

text \<open>What an exit handler leaves in the pending maps: its own slot is emptied, nothing else moves.\<close>

fun clear_slot :: "traced_syscall \<Rightarrow> u32 \<Rightarrow> probe_state \<Rightarrow> probe_state" where
  "clear_slot SC_open t s = s\<lparr>pending_opens := bpf_delete (pending_opens s) t\<rparr>"
| "clear_slot SC_openat t s = s\<lparr>pending_opens := bpf_delete (pending_opens s) t\<rparr>"
| "clear_slot SC_creat t s = s\<lparr>pending_opens := bpf_delete (pending_opens s) t\<rparr>"
| "clear_slot SC_close t s = s\<lparr>pending_closes := bpf_delete (pending_closes s) t\<rparr>"
| "clear_slot SC_lseek t s = s\<lparr>pending_seeks := bpf_delete (pending_seeks s) t\<rparr>"
| "clear_slot SC_fsync t s = s\<lparr>pending_seeks := bpf_delete (pending_seeks s) t\<rparr>"
| "clear_slot SC_fdatasync t s = s\<lparr>pending_seeks := bpf_delete (pending_seeks s) t\<rparr>"
| "clear_slot SC_mmap t s = s\<lparr>pending_seeks := bpf_delete (pending_seeks s) t\<rparr>"
| "clear_slot SC_newfstat t s = s\<lparr>pending_stats := bpf_delete (pending_stats s) t\<rparr>"
| "clear_slot SC_newfstatat t s = s\<lparr>pending_stats := bpf_delete (pending_stats s) t\<rparr>"
| "clear_slot SC_dup t s = s\<lparr>pending_dups := bpf_delete (pending_dups s) t\<rparr>"
| "clear_slot SC_dup2 t s = s\<lparr>pending_dups := bpf_delete (pending_dups s) t\<rparr>"
| "clear_slot SC_dup3 t s = s\<lparr>pending_dups := bpf_delete (pending_dups s) t\<rparr>"
| "clear_slot SC_fcntl t s = s\<lparr>pending_fcnl := bpf_delete (pending_fcnl s) t\<rparr>"
| "clear_slot _ t s = s\<lparr>pending_rws := bpf_delete (pending_rws s) t\<rparr>"

lemma slots_none:
  "pending_seeks s t = None \<Longrightarrow> thread_slots s u = thread_slots (s\<lparr>pending_seeks := bpf_delete (pending_seeks s) t\<rparr>) u"
  "pending_stats s t = None \<Longrightarrow> thread_slots s u = thread_slots (s\<lparr>pending_stats := bpf_delete (pending_stats s) t\<rparr>) u"
  "pending_fcnl s t = None \<Longrightarrow> thread_slots s u = thread_slots (s\<lparr>pending_fcnl := bpf_delete (pending_fcnl s) t\<rparr>) u"
  by (simp_all add: thread_slots_def)

lemma on_exit_slots:
  assumes "should_trace e s"
  shows "thread_slots (on_exit sc e s) t = thread_slots (clear_slot sc (cur_tid e) s) t"
proof -
  have seek: "thread_slots (case pending_seeks s (cur_tid e) of None \<Rightarrow> s | Some fd \<Rightarrow> f fd) t =
      thread_slots (s\<lparr>pending_seeks := bpf_delete (pending_seeks s) (cur_tid e)\<rparr>) t"
    if "\<And>fd. thread_slots (f fd) t = thread_slots (s\<lparr>pending_seeks := bpf_delete (pending_seeks s) (cur_tid e)\<rparr>) t"
    for f using that slots_none(1) by (cases "pending_seeks s (cur_tid e)") simp_all
  have stat: "thread_slots (case pending_stats s (cur_tid e) of None \<Rightarrow> s | Some fd \<Rightarrow> f fd) t =
      thread_slots (s\<lparr>pending_stats := bpf_delete (pending_stats s) (cur_tid e)\<rparr>) t"
    if "\<And>fd. thread_slots (f fd) t = thread_slots (s\<lparr>pending_stats := bpf_delete (pending_stats s) (cur_tid e)\<rparr>) t"
    for f using that slots_none(2) by (cases "pending_stats s (cur_tid e)") simp_all
  have fcntl: "thread_slots (case pending_fcnl s (cur_tid e) of None \<Rightarrow> s | Some fd \<Rightarrow> f fd) t =
      thread_slots (s\<lparr>pending_fcnl := bpf_delete (pending_fcnl s) (cur_tid e)\<rparr>) t"
    if "\<And>fd. thread_slots (f fd) t = thread_slots (s\<lparr>pending_fcnl := bpf_delete (pending_fcnl s) (cur_tid e)\<rparr>) t"
    for f using that slots_none(3) by (cases "pending_fcnl s (cur_tid e)") simp_all
  show ?thesis
    using assms
    by (cases sc)
      (simp_all add: exit_wrapper_defs Let_def handle_open_exit_slots handle_rw_exit_slots exit_close_slots
        handle_dup_exit_slots slots_count_on_fd slots_dup_fd seek stat fcntl)
qed

section \<open>A worked run\<close>

text \<open>
  Thread 9 of process 7 opens a file, reads 100 bytes at position 10 and seeks; the logger is
  process 1. The run feeds the witnesses below.
\<close>

definition demo_mem :: kernel_mem where
  "demo_mem =
     \<lparr>km_task = (\<lambda>_. \<lparr>tk_tgid = 7, tk_real_parent = 0, tk_start_time = 5, tk_files = 1\<rparr>),
      km_fdt = (\<lambda>_. 2), km_fd = (\<lambda>_. 3), km_file = (\<lambda>_ _. 4), km_f_inode = (\<lambda>_. 5),
      km_f_pos = (\<lambda>_. 10), km_i_ino = (\<lambda>_. 6), km_i_sb = (\<lambda>_. 8), km_s_dev = (\<lambda>_. 1),
      km_s_blocksize = (\<lambda>_. 4096)\<rparr>"

definition demo_env :: "u64 \<Rightarrow> s64 \<Rightarrow> u64 \<Rightarrow> bpf_env" where
  "demo_env arg ret now =
     \<lparr>env_pid_tgid = 0x700000009, env_task = 1, env_mem = demo_mem, env_ktime = now,
      env_cgroup_id = 1, env_comm = ''cat'', env_user_str = (\<lambda>_. Some ''/tmp/f''),
      env_room = (\<lambda>_. True), env_path_rb = True, env_dxt_rb = True, env_args = (\<lambda>_. arg), env_ret = ret\<rparr>"

definition demo_open :: probe_state where
  "demo_open = on_exit SC_open (demo_env 3 3 20) (on_enter SC_open (demo_env 3 0 10) (probe_init 1))"

definition demo_read :: probe_state where
  "demo_read = on_exit SC_read (demo_env 3 100 40) (on_enter SC_read (demo_env 3 0 30) demo_open)"

lemma demo_room: "env_dxt_rb (demo_env a r t)" "env_room (demo_env a r t) m"
  by (simp_all add: demo_env_def)

lemma demo_read_reach: "probe_reach env_dxt_rb 1 demo_read"
  unfolding demo_read_def demo_open_def
  by (intro probe_reach.start probe_reach.step [OF _ probe_step.enter] probe_reach.step [OF _ probe_step.exit] demo_room)

lemma demo_trace: "should_trace (demo_env a r t) s \<longleftrightarrow> dlogger_pid s \<noteq> 7"
  by (simp add: should_trace_def demo_env_def demo_mem_def is_descendant_numeral)

lemma demo_env_simps:
  "cur_tid (demo_env a r t) = 9" "cur_pid (demo_env a r t) = 7" "env_ret (demo_env a r t) = r"
  "env_ktime (demo_env a r t) = t" "env_args (demo_env a r t) i = a" "env_mem (demo_env a r t) = demo_mem"
  "env_path_rb (demo_env a r t)" "file_of_fd (demo_env a r t) fd = 4"
  by (simp_all add: demo_env_def cur_tid_def cur_pid_def file_of_fd_def demo_mem_def Let_def)

lemma demo_open_eval:
  "file_stats demo_open 0x100000006 = Some (open_update_stats 20 3 4096 (fresh_stats 0x100000006))"
  "fd_states demo_open 0x700000003 =
     Some \<lparr>fs_path_hash = 0x100000006, last_byte_read = 0, last_byte_written = 0, last_io_type = 0\<rparr>"
  "dlogger_pid demo_open = 1" "pending_rws demo_open = Map.empty" "dxt_events demo_open = []"
  by (simp_all add: demo_open_def tp_sys_exit_open_def tp_sys_enter_open_def demo_trace put_pending_open_def
      handle_open_exit_def demo_env_simps demo_room probe_init_def get_or_create_cases put_stats_def
      demo_mem_def fd_key_def word_sle_eq Let_def)


lemma demo_read_eval:
  "file_stats demo_read 0x100000006 =
     Some (rw_alignment_stats \<lparr>rw_fd = 3, rw_offset = 10, rw_length = 3, rw_start_ns = 30\<rparr>
       (rw_read_stats 40 \<lparr>rw_fd = 3, rw_offset = 10, rw_length = 3, rw_start_ns = 30\<rparr> 100
         \<lparr>fs_path_hash = 0x100000006, last_byte_read = 0, last_byte_written = 0, last_io_type = 0\<rparr>
         (open_update_stats 20 3 4096 (fresh_stats 0x100000006))))"
  "dxt_events demo_read =
     [\<lparr>dx_path_hash = 0x100000006, dx_start_ns = 30, dx_end_ns = 40, dx_offset = 10, dx_length = 100,
       dx_pid = 7, dx_cgroup_id = 1, dx_start_time = 5, dx_write_flag = 0\<rparr>]"
  "dlogger_pid demo_read = 1"
  by (simp_all add: demo_read_def tp_sys_exit_read_def tp_sys_enter_read_def handle_rw_enter_def
      handle_rw_exit_def get_file_pos_def demo_trace demo_open_eval demo_env_simps demo_room fd_key_def
      get_or_create_cases rw_commit_def put_stats_def word_sless_alt demo_mem_def rw_dxt_event_def
      rw_read_fstate_def Let_def, simp add: demo_env_def demo_mem_def)

text \<open>A chain of processes: process \<open>t\<close> has the pid \<open>t + 99\<close> and the parent \<open>t - 1\<close>.\<close>

definition chain_mem :: kernel_mem where
  "chain_mem = demo_mem\<lparr>km_task := (\<lambda>t. \<lparr>tk_tgid = ucast (t + 99), tk_real_parent = t - 1,
     tk_start_time = 5, tk_files = 1\<rparr>)\<rparr>"

section \<open>Properties\<close>

text \<open>
  (C19) In every state the probe can reach while the transfer ring buffer has room, the counters
  kept for a file are exactly the summary of the transfer events logged for that file: number
  of reads and writes, bytes, highest byte, accumulated and longest duration, and both size
  histograms.
\<close>

theorem stats_are_log_summary:
  assumes "probe_reach env_dxt_rb p s" and "file_stats s h = Some st"
  shows "st_path_hash st = h \<and> io_summary st (dxt_at h (dxt_events s))"
  using stats.reach_inv [OF assms(1)] assms(2) stats_invD(2,3) by blast

theorem stats_are_log_summary_witness:
  "\<exists>st. file_stats demo_read 0x100000006 = Some st \<and> counters st POSIX_READS = 1 \<and>
     counters st POSIX_BYTES_READ = 100 \<and> io_summary st (dxt_at 0x100000006 (dxt_events demo_read))"
proof -
  obtain st where st: "file_stats demo_read 0x100000006 = Some st"
    by (simp add: demo_read_eval)
  have "io_summary st (dxt_at 0x100000006 (dxt_events demo_read))"
    using stats_are_log_summary [OF demo_read_reach st] by simp
  moreover from this have "counters st POSIX_READS = 1 \<and> counters st POSIX_BYTES_READ = 100"
    by (simp add: io_summary_def direction_ok_def demo_read_eval dxt_at_def reads_def)
  ultimately show ?thesis using st by blast
qed

text \<open>
  The probe ignores an invocation exactly when it comes from the idle process, or when the
  logger is among the process and its four nearest ancestors; then no map and no log changes.
\<close>

theorem self_exclusion:
  "(should_trace e s \<longleftrightarrow>
      (ucast (drop_bit 32 (env_pid_tgid e)) :: u32) \<noteq> 0 \<and>
      (dlogger_pid s = 0 \<or>
       \<not> (\<exists>k<5. (\<forall>j\<le>k. ancestor (env_mem e) j (env_task e) \<noteq> 0) \<and>
            tk_tgid (km_task (env_mem e) (ancestor (env_mem e) k (env_task e))) = dlogger_pid s)))
   \<and> (\<not> should_trace e s \<longrightarrow> on_enter sc e s = s \<and> on_exit sc e s = s)"
  by (auto simp: should_trace_def Let_def is_descendant_iff untraced_enter untraced_exit)

theorem self_exclusion_witness:
  "\<not> should_trace (demo_env 3 3 20) (probe_init 7) \<and> on_exit SC_open (demo_env 3 3 20) (probe_init 7) = probe_init 7"
proof -
  have "dlogger_pid (probe_init 7) = 7" by (simp add: probe_init_def)
  then have n: "\<not> should_trace (demo_env 3 3 20) (probe_init 7)" by (simp add: demo_trace)
  show ?thesis
    using n self_exclusion [of "demo_env 3 3 20" "probe_init 7" SC_open] by blast
qed

text \<open>
  The exclusion has a depth: there is a process whose fifth ancestor is the logger and whose
  system calls the probe traces.
\<close>

theorem exclusion_depth:
  "\<exists>e s. 0 \<notin> (\<lambda>j. ancestor (env_mem e) j (env_task e)) ` {..5} \<and> dlogger_pid s \<noteq> 0 \<and>
     tk_tgid (km_task (env_mem e) (ancestor (env_mem e) 5 (env_task e))) = dlogger_pid s \<and> should_trace e s"
proof -
  let ?e = "(demo_env 3 3 20)\<lparr>env_mem := chain_mem, env_task := 6\<rparr>" and ?s = "probe_init 100"
  have anc: "ancestor chain_mem j t = t - of_nat j" for j t
    by (induction j arbitrary: t) (simp_all add: chain_mem_def)
  have "ancestor chain_mem j 6 \<noteq> 0" if "j \<le> 5" for j
  proof -
    from that have "j = 0 \<or> j = 1 \<or> j = 2 \<or> j = 3 \<or> j = 4 \<or> j = 5" by linarith
    then show ?thesis by (auto simp: anc)
  qed
  then have "0 \<notin> (\<lambda>j. ancestor chain_mem j 6) ` {..5}" by auto
  moreover have "should_trace ?e ?s"
    by (simp add: should_trace_def demo_env_def probe_init_def is_descendant_numeral chain_mem_def)
  moreover have "tk_tgid (km_task chain_mem (ancestor chain_mem 5 6)) = 100"
    unfolding anc by (simp add: chain_mem_def)
  ultimately show ?thesis
    by (intro exI [of _ ?e] exI [of _ ?s]) (simp add: demo_env_def probe_init_def)
qed

text \<open>
  (C30) Threads do not disturb each other's calls: a handler run on behalf of one thread changes no
  pending argument of another thread, and the exit handler of a traced call removes the arguments
  its own thread left at entry.
\<close>

theorem pending_isolated:
  "(t \<noteq> cur_tid e \<longrightarrow> thread_slots (on_enter sc e s) t = thread_slots s t
                     \<and> thread_slots (on_exit sc e s) t = thread_slots s t)
   \<and> (should_trace e s \<longrightarrow> \<not> pending sc (on_exit sc e s) (cur_tid e))"
proof (intro conjI impI)
  assume t: "t \<noteq> cur_tid e"
  then show "thread_slots (on_enter sc e s) t = thread_slots s t"
    by (rule thread_slots_on_enter)
  have "thread_slots (clear_slot sc (cur_tid e) s) t = thread_slots s t"
    using t by (cases sc) (simp_all add: thread_slots_def)
  then show "thread_slots (on_exit sc e s) t = thread_slots s t"
    by (cases "should_trace e s") (simp_all add: on_exit_slots untraced_exit)
next
  assume "should_trace e s"
  then have "thread_slots (on_exit sc e s) (cur_tid e) = thread_slots (clear_slot sc (cur_tid e) s) (cur_tid e)"
    by (rule on_exit_slots)
  then show "\<not> pending sc (on_exit sc e s) (cur_tid e)"
    by (cases sc) (simp_all add: thread_slots_def)
qed

theorem pending_isolated_witness:
  "should_trace (demo_env 3 3 20) (probe_init 1) \<and>
   \<not> pending SC_open (on_exit SC_open (demo_env 3 3 20) (probe_init 1)) 9"
proof -
  have h: "should_trace (demo_env 3 3 20) (probe_init 1)"
    by (simp add: demo_trace probe_init_def)
  show ?thesis
    using h pending_isolated [of 8 "demo_env 3 3 20" SC_open "probe_init 1"] by (simp add: demo_env_simps)
qed

end
