(* ===== verification/Fd_Table.thy ===== *)
theory Fd_Table
  imports Io_Probe_Props
begin

text \<open>
  The descriptor table of the I/O probe, \<open>fd_states\<close> of \<^verbatim>\<open>src/dlogger.bpf.c\<close>, keyed by one
  64-bit number per process and descriptor: the key is injective on real descriptors, and the map
  refines a table from (process, descriptor) to files that open, dup, fcntl and close update.
  Also here: the size histograms as a table of thresholds, and what one transfer leaves behind.
\<close>

section \<open>Descriptor keys\<close>







section \<open>The abstract table\<close>

definition abs_fds :: "probe_state \<Rightarrow> u64 \<times> s32 \<Rightarrow> u64 option" where
  "abs_fds s = (\<lambda>(pid, fd). if unat pid < 2 ^ 32 \<and> 0 \<le>s fd
     then map_option fs_path_hash (fd_states s (fd_key pid (of_int32 fd))) else None)"








lemma abs_fds_cong: "fd_states s = fd_states t \<Longrightarrow> abs_fds s = abs_fds t"
  unfolding abs_fds_def by (simp only:)



section \<open>The exit handlers on the table\<close>

lemma put_stats_fds [simp]: "fd_states (put_stats h st s) = fd_states s"
  by (simp add: put_stats_def)

lemma on_stats_fds: "fd_states (on_stats e h f s) = fd_states s"
  by (simp add: on_stats_def get_or_create_cases split: option.splits)

lemma count_on_fd_fds: "fd_states (count_on_fd e fd i s) = fd_states s"
  by (simp add: count_on_fd_stats on_stats_fds split: option.splits)







lemma abs_fds_pending [simp]:
  "abs_fds (s\<lparr>pending_opens := m1\<rparr>) = abs_fds s" "abs_fds (s\<lparr>pending_closes := m2\<rparr>) = abs_fds s"
  "abs_fds (s\<lparr>pending_seeks := m3\<rparr>) = abs_fds s" "abs_fds (s\<lparr>pending_stats := m4\<rparr>) = abs_fds s"
  "abs_fds (s\<lparr>pending_dups := m5\<rparr>) = abs_fds s" "abs_fds (s\<lparr>pending_fcnl := m6\<rparr>) = abs_fds s"
  by (rule abs_fds_cong, simp)+

lemma abs_fds_count [simp]: "abs_fds (count_on_fd e fd i s) = abs_fds s"
  by (rule abs_fds_cong) (rule count_on_fd_fds)








section \<open>Histogram thresholds, and one transfer from entry to exit\<close>

text \<open>The bin of a transfer: the number of thresholds its size exceeds.\<close>

definition size_thresholds :: "int list" where
  "size_thresholds = [100, 1024, 10240, 102400, 1048576, 4194304, 10485760, 104857600, 1073741824]"

definition size_bin :: "s64 \<Rightarrow> nat" where
  "size_bin n = length (filter (\<lambda>t. t < sint n) size_thresholds)"

text \<open>The maps and logs another process can see of one file transfer.\<close>

definition transfer_args :: "traced_syscall \<Rightarrow> bpf_env \<Rightarrow> rw_args" where
  "transfer_args sc e =
     (let fd = to_int (env_args e 0)
      in \<lparr>rw_fd = fd,
          rw_offset = (if sc \<in> {SC_read, SC_readv, SC_write, SC_writev} then get_file_pos e fd else env_args e 3),
          rw_length = env_args e 1, rw_start_ns = env_ktime e\<rparr>)"

definition is_read :: "traced_syscall \<Rightarrow> bool" where
  "is_read sc \<longleftrightarrow> sc \<in> {SC_read, SC_pread64, SC_readv, SC_preadv, SC_preadv2}"

definition is_write :: "traced_syscall \<Rightarrow> bool" where
  "is_write sc \<longleftrightarrow> sc \<in> {SC_write, SC_pwrite64, SC_writev, SC_pwritev, SC_pwritev2}"

lemma rw_enter_pending:
  assumes "is_read sc \<or> is_write sc" "should_trace e s" "env_room e M_pending_rws"
  shows "on_enter sc e s = s\<lparr>pending_rws := (pending_rws s)(cur_tid e \<mapsto> transfer_args sc e)\<rparr>"
  using assms
  by (cases sc) (simp_all add: is_read_def is_write_def enter_defs handle_rw_enter_def transfer_args_def
      bpf_update_def Let_def)

lemma rw_exit_is: "is_read sc \<or> is_write sc \<Longrightarrow> should_trace e s \<Longrightarrow> on_exit sc e s = handle_rw_exit e (is_write sc) s"
  by (cases sc) (simp_all add: is_read_def is_write_def exit_wrapper_defs)

lemma rw_exit_event:
  assumes "pending_rws s (cur_tid e) = Some a" "fd_states s (fd_key (cur_pid e) (of_int32 (rw_fd a))) = Some fs"
    and "0 <s env_ret e" "env_room e M_file_stats" "env_dxt_rb e"
  shows "dxt_events (handle_rw_exit e w s) = dxt_events s @ [rw_dxt_event e a (fs_path_hash fs) w]"
  using assms
  by (auto simp: handle_rw_exit_def get_or_create_cases rw_commit_def put_stats_def rw_write_fstate_def
      rw_read_fstate_def Let_def split: option.splits)

section \<open>Properties\<close>



text \<open>
  The two cascades of comparisons agree with one table of thresholds: the histogram bin
  a transfer is counted in is the number of thresholds its size exceeds.
\<close>

theorem histogram_bins:
  "read_bucket n = read_buckets ! size_bin n \<and> write_bucket n = write_buckets ! size_bin n \<and> size_bin n < 10"
  by (simp add: read_bucket_def read_buckets_def write_bucket_def write_buckets_def size_bin_def
      size_thresholds_def word_sle_eq)

text \<open>
  A read or write that moves data through a known descriptor is logged exactly once,
  with the file of the descriptor, the time of entry and of exit, the offset it started at (the
  file position, or the explicit offset of the positioned variants) and the size it returned.
\<close>

theorem transfer_logged:
  assumes "is_read sc \<or> is_write sc" "should_trace e s" "env_room e M_pending_rws"
    and "should_trace e' s" "env_pid_tgid e' = env_pid_tgid e" "0 <s env_ret e'"
    and "env_room e' M_file_stats" "env_dxt_rb e'"
    and "fd_states s (fd_key (cur_pid e) (of_int32 (to_int (env_args e 0)))) = Some fs"
  shows "\<exists>ev. dxt_events (on_exit sc e' (on_enter sc e s)) = dxt_events s @ [ev] \<and>
     dx_path_hash ev = fs_path_hash fs \<and> dx_start_ns ev = env_ktime e \<and> dx_end_ns ev = env_ktime e' \<and>
     dx_offset ev = rw_offset (transfer_args sc e) \<and> dx_length ev = env_ret e' \<and>
     dx_write_flag ev = (if is_write sc then 1 else 0)"
proof -
  let ?s = "on_enter sc e s" and ?a = "transfer_args sc e"
  have s: "?s = s\<lparr>pending_rws := (pending_rws s)(cur_tid e \<mapsto> ?a)\<rparr>"
    by (rule rw_enter_pending [OF assms(1-3)])
  have same: "cur_tid e' = cur_tid e" "cur_pid e' = cur_pid e"
    using assms(5) by (simp_all add: cur_tid_def cur_pid_def)
  have "should_trace e' ?s"
    using assms(4) by (auto simp: s should_trace_def Let_def split: if_splits)
  then have "on_exit sc e' ?s = handle_rw_exit e' (is_write sc) ?s"
    by (rule rw_exit_is [OF assms(1)])
  moreover have "dxt_events (handle_rw_exit e' (is_write sc) ?s) =
      dxt_events ?s @ [rw_dxt_event e' ?a (fs_path_hash fs) (is_write sc)]"
    by (rule rw_exit_event) (use assms same in \<open>simp_all add: s transfer_args_def Let_def\<close>)
  ultimately show ?thesis
    by (simp add: s rw_dxt_event_def transfer_args_def Let_def)
qed

theorem transfer_logged_witness:
  "\<exists>ev. dxt_events (on_exit SC_write (demo_env 3 200 60) (on_enter SC_write (demo_env 3 0 55) demo_open)) = [ev]
     \<and> dx_offset ev = 10 \<and> dx_length ev = 200 \<and> dx_write_flag ev = 1"
proof -
  have t: "should_trace (demo_env a r x) demo_open" for a r x by (simp add: demo_trace demo_open_eval)
  have pt: "env_pid_tgid (demo_env 3 200 60) = env_pid_tgid (demo_env 3 0 55)" by (simp add: demo_env_def)
  have "\<exists>ev. dxt_events (on_exit SC_write (demo_env 3 200 60) (on_enter SC_write (demo_env 3 0 55) demo_open)) =
        dxt_events demo_open @ [ev] \<and>
      dx_path_hash ev = 0x100000006 \<and> dx_start_ns ev = env_ktime (demo_env 3 0 55) \<and>
      dx_end_ns ev = env_ktime (demo_env 3 200 60) \<and>
      dx_offset ev = rw_offset (transfer_args SC_write (demo_env 3 0 55)) \<and>
      dx_length ev = env_ret (demo_env 3 200 60) \<and> dx_write_flag ev = (if is_write SC_write then 1 else 0)"
    using transfer_logged [of SC_write "demo_env 3 0 55" demo_open "demo_env 3 200 60"
        "\<lparr>fs_path_hash = 0x100000006, last_byte_read = 0, last_byte_written = 0, last_io_type = 0\<rparr>"] t
    pt
    by (simp add: is_write_def demo_room demo_env_simps demo_open_eval word_sless_alt fd_key_def)
  then show ?thesis
    by (auto simp: demo_open_eval demo_env_simps transfer_args_def get_file_pos_def demo_mem_def is_write_def)
qed

text \<open>
  A failed mmap is counted: the exit handler compares the raw return value with \<open>-1\<close>,
  and the kernel returns a negative error number, here \<open>-ENOMEM\<close>.
\<close>

theorem failed_mmap_counted:
  "\<exists>e s st st'. should_trace e s \<and> env_ret e = - 12 \<and> file_stats s 0x100000006 = Some st \<and>
     file_stats (on_exit SC_mmap e s) 0x100000006 = Some st' \<and> counters st' POSIX_MMAPS = counters st POSIX_MMAPS + 1"
proof -
  let ?e = "demo_env 3 (- 12) 70" let ?s = "on_enter SC_mmap ?e demo_open"
  have s: "?s = demo_open\<lparr>pending_seeks := (pending_seeks demo_open)(9 \<mapsto> 3)\<rparr>"
    by (simp add: tp_sys_enter_mmap_def demo_trace demo_open_eval put_pending_seek_def demo_env_simps demo_room bpf_update_def)
  have "should_trace ?e ?s" unfolding s by (simp add: demo_trace demo_open_eval)
  moreover have "file_stats (on_exit SC_mmap ?e ?s) 0x100000006 =
      Some (add_counter POSIX_MMAPS 1 (open_update_stats 20 3 4096 (fresh_stats 0x100000006)))"
    unfolding s by (simp add: tp_sys_exit_mmap_def demo_trace demo_open_eval demo_env_simps count_on_fd_def fd_key_def
        get_or_create_cases put_stats_def word_sle_eq Let_def)
  moreover have "file_stats ?s 0x100000006 = Some (open_update_stats 20 3 4096 (fresh_stats 0x100000006))"
    unfolding s by (simp add: demo_open_eval)
  moreover have "counters (add_counter POSIX_MMAPS 1 st) POSIX_MMAPS = counters st POSIX_MMAPS + 1" for st
    by (simp add: add_counter_def set_counter_def)
  moreover have "env_ret ?e = - 12" by (simp only: demo_env_simps)
  ultimately show ?thesis by blast
qed

end
