(* ===== verification/Kdarshan_Probe.thy ===== *)
theory Kdarshan_Probe
  imports Fd_Table
begin

text \<open>
  The stand-alone probe \<^verbatim>\<open>src/kdarshan.bpf.c\<close>. It has maps of the same types as the probe of dlogger
  (theory \<open>Io_Probe\<close>), so the state, the environment of an invocation, the primitive map and counter
  operations and the constants are those of that theory; its helpers and handlers are translated
  here from its own file. By design it differs in two places: the filter compares with one target
  process, and the events carry neither control group nor start time. \<open>tp\<close> is the global
  \<open>target_pid\<close>, fixed before the program is loaded; \<open>g\<close> is what the reserved event memory holds in
  these two fields, which nothing assigns.
\<close>

section \<open>Helpers\<close>

definition kd_should_trace :: "u32 \<Rightarrow> bpf_env \<Rightarrow> bool" where
  "kd_should_trace tp e =
     (let pid = (ucast (drop_bit 32 (env_pid_tgid e)) :: u32)
      in if tp \<noteq> 0 then pid = tp else pid \<noteq> 0)"
definition kd_get_or_create_stats ::
  "bpf_env \<Rightarrow> u64 \<Rightarrow> probe_state \<Rightarrow> probe_state \<times> kdarshan_file_stats option" where
  "kd_get_or_create_stats e h s =
     (case file_stats s h of
        Some stats \<Rightarrow> (s, Some stats)
      | None \<Rightarrow>
          (let s = s\<lparr>file_stats := bpf_insert (env_room e M_file_stats) (file_stats s) h global_zero_stats\<rparr>
           in case file_stats s h of
                None \<Rightarrow> (s, None)
              | Some stats \<Rightarrow>
                  (let stats = set_counter POSIX_FILE_ALIGNMENT 4096
                         (set_counter POSIX_MEM_ALIGNMENT 8 (stats\<lparr>st_path_hash := h\<rparr>))
                   in (put_stats h stats s, Some stats))))"

definition kd_get_file_pos :: "bpf_env \<Rightarrow> s32 \<Rightarrow> s64" where
  "kd_get_file_pos e fd =
     (let files = tk_files (km_task (env_mem e) (env_task e));
          fdt = km_fdt (env_mem e) files;
          fd_array = km_fd (env_mem e) fdt;
          f = km_file (env_mem e) fd_array (scast fd)
      in if files = 0 then 0 else if fdt = 0 then 0 else if fd_array = 0 then 0 else if f = 0 then 0
         else km_f_pos (env_mem e) f)"

definition kd_put_pending_open :: "bpf_env \<Rightarrow> open_args \<Rightarrow> probe_state \<Rightarrow> probe_state" where
  "kd_put_pending_open e args s =
     s\<lparr>pending_opens := bpf_update (env_room e M_pending_opens) (pending_opens s) (cur_tid e) args\<rparr>"

definition kd_put_pending_seek :: "bpf_env \<Rightarrow> s32 \<Rightarrow> probe_state \<Rightarrow> probe_state" where
  "kd_put_pending_seek e fd s =
     s\<lparr>pending_seeks := bpf_update (env_room e M_pending_seeks) (pending_seeks s) (cur_tid e) fd\<rparr>"

definition kd_put_pending_stat :: "bpf_env \<Rightarrow> s32 \<Rightarrow> probe_state \<Rightarrow> probe_state" where
  "kd_put_pending_stat e fd s =
     s\<lparr>pending_stats := bpf_update (env_room e M_pending_stats) (pending_stats s) (cur_tid e) fd\<rparr>"

definition kd_handle_rw_enter :: "bpf_env \<Rightarrow> s32 \<Rightarrow> s64 \<Rightarrow> u64 \<Rightarrow> probe_state \<Rightarrow> probe_state" where
  "kd_handle_rw_enter e fd offset buf_addr s =
     (let args = \<lparr>rw_fd = fd, rw_offset = offset, rw_length = buf_addr, rw_start_ns = env_ktime e\<rparr>
      in s\<lparr>pending_rws := bpf_update (env_room e M_pending_rws) (pending_rws s) (cur_tid e) args\<rparr>)"

definition kd_handle_dup_enter :: "bpf_env \<Rightarrow> s32 \<Rightarrow> probe_state \<Rightarrow> probe_state" where
  "kd_handle_dup_enter e oldfd s =
     s\<lparr>pending_dups := bpf_update (env_room e M_pending_dups) (pending_dups s) (cur_tid e) oldfd\<rparr>"

definition kd_handle_dup_exit :: "bpf_env \<Rightarrow> probe_state \<Rightarrow> probe_state" where
  "kd_handle_dup_exit e s =
     (case pending_dups s (cur_tid e) of
        None \<Rightarrow> s
      | Some oldfd \<Rightarrow>
          (let s = s\<lparr>pending_dups := bpf_delete (pending_dups s) (cur_tid e)\<rparr>;
               newfd = env_ret e
           in if 0 \<le>s newfd
              then case fd_states s (fd_key (cur_pid e) (of_int32 oldfd)) of
                     None \<Rightarrow> s
                   | Some old_fstate \<Rightarrow>
                       (let s = s\<lparr>fd_states := bpf_update (env_room e M_fd_states) (fd_states s)
                                                 (fd_key (cur_pid e) newfd) old_fstate\<rparr>;
                            (s, stats) = kd_get_or_create_stats e (fs_path_hash old_fstate) s
                        in case stats of
                             None \<Rightarrow> s
                           | Some st \<Rightarrow> put_stats (fs_path_hash old_fstate)
                                          (add_counter POSIX_OPENS 1 (add_counter POSIX_DUPS 1 st)) s)
              else s))"

text \<open>The end of the simple exit handlers: one counter of the file behind a descriptor goes up.\<close>

definition kd_count_on_fd :: "bpf_env \<Rightarrow> s32 \<Rightarrow> posix_index \<Rightarrow> probe_state \<Rightarrow> probe_state" where
  "kd_count_on_fd e fd i s =
     (case fd_states s (fd_key (cur_pid e) (of_int32 fd)) of
        None \<Rightarrow> s
      | Some fstate \<Rightarrow>
          (case kd_get_or_create_stats e (fs_path_hash fstate) s of
             (s, None) \<Rightarrow> s
           | (s, Some st) \<Rightarrow> put_stats (fs_path_hash fstate) (add_counter i 1 st) s))"

section \<open>The handlers\<close>

definition kd_tp_sys_enter_open :: "u32 \<Rightarrow> bpf_env \<Rightarrow> probe_state \<Rightarrow> probe_state" where
  "kd_tp_sys_enter_open tp e s =
     (if \<not> kd_should_trace tp e then s
      else kd_put_pending_open e
             \<lparr>oa_filename = env_args e 0, oa_dfd = AT_FDCWD,
              oa_flags = to_int (env_args e 1), oa_mode = to_int (env_args e 2)\<rparr> s)"

definition kd_tp_sys_enter_openat :: "u32 \<Rightarrow> bpf_env \<Rightarrow> probe_state \<Rightarrow> probe_state" where
  "kd_tp_sys_enter_openat tp e s =
     (if \<not> kd_should_trace tp e then s
      else kd_put_pending_open e
             \<lparr>oa_filename = env_args e 1, oa_dfd = to_int (env_args e 0),
              oa_flags = to_int (env_args e 2), oa_mode = to_int (env_args e 3)\<rparr> s)"

definition kd_tp_sys_enter_creat :: "u32 \<Rightarrow> bpf_env \<Rightarrow> probe_state \<Rightarrow> probe_state" where
  "kd_tp_sys_enter_creat tp e s =
     (if \<not> kd_should_trace tp e then s
      else kd_put_pending_open e
             \<lparr>oa_filename = env_args e 0, oa_dfd = AT_FDCWD,
              oa_flags = O_CREAT OR O_WRONLY OR O_TRUNC, oa_mode = to_int (env_args e 1)\<rparr> s)"

definition kd_open_path_event :: "u64 \<times> u64 \<Rightarrow> bpf_env \<Rightarrow> open_args \<Rightarrow> u64 \<Rightarrow> path_event" where
  "kd_open_path_event g e a h =
     \<lparr>pe_path_hash = h, pe_pid = ucast (drop_bit 32 (env_pid_tgid e)),
      pe_cgroup_id = fst g,
      pe_start_time = snd g,
      pe_comm = env_comm e,
      pe_path = (case env_user_str e (oa_filename a) of
                   None \<Rightarrow> '''' | Some p \<Rightarrow> take (MAX_PATH_LEN - 1) p)\<rparr>"

definition kd_handle_open_exit :: "u64 \<times> u64 \<Rightarrow> bpf_env \<Rightarrow> probe_state \<Rightarrow> probe_state" where
  "kd_handle_open_exit g e s =
     (case pending_opens s (cur_tid e) of
        None \<Rightarrow> s
      | Some args \<Rightarrow>
          (let fd = env_ret e;
               files = tk_files (km_task (env_mem e) (env_task e));
               fdt = km_fdt (env_mem e) files;
               fd_array = km_fd (env_mem e) fdt;
               f = km_file (env_mem e) fd_array fd;
               inode = km_f_inode (env_mem e) f;
               s = (if 0 \<le>s fd \<and> files \<noteq> 0 \<and> fdt \<noteq> 0 \<and> fd_array \<noteq> 0 \<and> f \<noteq> 0 \<and> inode \<noteq> 0
                    then let ino = km_i_ino (env_mem e) inode;
                             sb = km_i_sb (env_mem e) inode;
                             dev = (if sb \<noteq> 0 then km_s_dev (env_mem e) sb else 0);
                             block_size = (if sb \<noteq> 0 then km_s_blocksize (env_mem e) sb else 4096);
                             path_hash = push_bit 32 (ucast dev) OR ino;
                             s = (if env_path_rb e
                                  then s\<lparr>path_events := path_events s @ [kd_open_path_event g e args path_hash]\<rparr> else s);
                             (s, stats) = kd_get_or_create_stats e path_hash s;
                             s = (case stats of
                                    None \<Rightarrow> s
                                  | Some st \<Rightarrow>
                                      (let st = add_counter POSIX_OPENS 1 st;
                                           st = set_counter POSIX_MODE (scast (oa_mode args)) st;
                                           st = set_counter POSIX_FILE_ALIGNMENT block_size st;
                                           now = env_ktime e;
                                           st = (if fcounters st POSIX_F_OPEN_START_TIMESTAMP = 0
                                                 then set_fcounter POSIX_F_OPEN_START_TIMESTAMP now st else st);
                                           st = set_fcounter POSIX_F_OPEN_END_TIMESTAMP now st
                                       in put_stats path_hash st s));
                             fstate = \<lparr>fs_path_hash = path_hash, last_byte_read = 0,
                                       last_byte_written = 0, last_io_type = 0\<rparr>
                         in s\<lparr>fd_states := bpf_update (env_room e M_fd_states) (fd_states s)
                                             (fd_key (cur_pid e) fd) fstate\<rparr>
                    else s)
           in s\<lparr>pending_opens := bpf_delete (pending_opens s) (cur_tid e)\<rparr>))"

definition kd_tp_sys_exit_open :: "u32 \<Rightarrow> u64 \<times> u64 \<Rightarrow> bpf_env \<Rightarrow> probe_state \<Rightarrow> probe_state" where
  "kd_tp_sys_exit_open tp g e s = (if \<not> kd_should_trace tp e then s else kd_handle_open_exit g e s)"

definition kd_tp_sys_exit_openat :: "u32 \<Rightarrow> u64 \<times> u64 \<Rightarrow> bpf_env \<Rightarrow> probe_state \<Rightarrow> probe_state" where
  "kd_tp_sys_exit_openat tp g e s = (if \<not> kd_should_trace tp e then s else kd_handle_open_exit g e s)"

definition kd_tp_sys_exit_creat :: "u32 \<Rightarrow> u64 \<times> u64 \<Rightarrow> bpf_env \<Rightarrow> probe_state \<Rightarrow> probe_state" where
  "kd_tp_sys_exit_creat tp g e s = (if \<not> kd_should_trace tp e then s else kd_handle_open_exit g e s)"

definition kd_tp_sys_enter_close :: "u32 \<Rightarrow> bpf_env \<Rightarrow> probe_state \<Rightarrow> probe_state" where
  "kd_tp_sys_enter_close tp e s =
     (if \<not> kd_should_trace tp e then s
      else s\<lparr>pending_closes := bpf_update (env_room e M_pending_closes) (pending_closes s)
                                (cur_tid e) (to_int (env_args e 0))\<rparr>)"

definition kd_tp_sys_exit_close :: "u32 \<Rightarrow> u64 \<times> u64 \<Rightarrow> bpf_env \<Rightarrow> probe_state \<Rightarrow> probe_state" where
  "kd_tp_sys_exit_close tp g e s =
     (if \<not> kd_should_trace tp e then s
      else case pending_closes s (cur_tid e) of
             None \<Rightarrow> s
           | Some fd \<Rightarrow>
               (let s = s\<lparr>pending_closes := bpf_delete (pending_closes s) (cur_tid e)\<rparr>;
                    key = fd_key (cur_pid e) (of_int32 fd)
                in if env_ret e = 0
                   then case fd_states s key of
                          None \<Rightarrow> s
                        | Some fstate \<Rightarrow>
                            (let (s, stats) = kd_get_or_create_stats e (fs_path_hash fstate) s;
                                 s = (case stats of
                                        None \<Rightarrow> s
                                      | Some st \<Rightarrow>
                                          (let now = env_ktime e;
                                               st = (if fcounters st POSIX_F_CLOSE_START_TIMESTAMP = 0
                                                     then set_fcounter POSIX_F_CLOSE_START_TIMESTAMP now st else st);
                                               st = set_fcounter POSIX_F_CLOSE_END_TIMESTAMP now st
                                           in put_stats (fs_path_hash fstate) st s))
                             in s\<lparr>fd_states := bpf_delete (fd_states s) key\<rparr>)
                   else s))"

definition kd_tp_sys_enter_read :: "u32 \<Rightarrow> bpf_env \<Rightarrow> probe_state \<Rightarrow> probe_state" where
  "kd_tp_sys_enter_read tp e s =
     (if \<not> kd_should_trace tp e then s
      else let fd = to_int (env_args e 0)
           in kd_handle_rw_enter e fd (kd_get_file_pos e fd) (env_args e 1) s)"

definition kd_tp_sys_enter_pread64 :: "u32 \<Rightarrow> bpf_env \<Rightarrow> probe_state \<Rightarrow> probe_state" where
  "kd_tp_sys_enter_pread64 tp e s =
     (if \<not> kd_should_trace tp e then s
      else kd_handle_rw_enter e (to_int (env_args e 0)) (env_args e 3) (env_args e 1) s)"

definition kd_tp_sys_enter_readv :: "u32 \<Rightarrow> bpf_env \<Rightarrow> probe_state \<Rightarrow> probe_state" where
  "kd_tp_sys_enter_readv tp e s =
     (if \<not> kd_should_trace tp e then s
      else let fd = to_int (env_args e 0)
           in kd_handle_rw_enter e fd (kd_get_file_pos e fd) (env_args e 1) s)"

definition kd_tp_sys_enter_preadv :: "u32 \<Rightarrow> bpf_env \<Rightarrow> probe_state \<Rightarrow> probe_state" where
  "kd_tp_sys_enter_preadv tp e s =
     (if \<not> kd_should_trace tp e then s
      else kd_handle_rw_enter e (to_int (env_args e 0)) (env_args e 3) (env_args e 1) s)"

definition kd_tp_sys_enter_preadv2 :: "u32 \<Rightarrow> bpf_env \<Rightarrow> probe_state \<Rightarrow> probe_state" where
  "kd_tp_sys_enter_preadv2 tp e s =
     (if \<not> kd_should_trace tp e then s
      else kd_handle_rw_enter e (to_int (env_args e 0)) (env_args e 3) (env_args e 1) s)"

definition kd_tp_sys_enter_write :: "u32 \<Rightarrow> bpf_env \<Rightarrow> probe_state \<Rightarrow> probe_state" where
  "kd_tp_sys_enter_write tp e s =
     (if \<not> kd_should_trace tp e then s
      else let fd = to_int (env_args e 0)
           in kd_handle_rw_enter e fd (kd_get_file_pos e fd) (env_args e 1) s)"

definition kd_tp_sys_enter_pwrite64 :: "u32 \<Rightarrow> bpf_env \<Rightarrow> probe_state \<Rightarrow> probe_state" where
  "kd_tp_sys_enter_pwrite64 tp e s =
     (if \<not> kd_should_trace tp e then s
      else kd_handle_rw_enter e (to_int (env_args e 0)) (env_args e 3) (env_args e 1) s)"

definition kd_tp_sys_enter_writev :: "u32 \<Rightarrow> bpf_env \<Rightarrow> probe_state \<Rightarrow> probe_state" where
  "kd_tp_sys_enter_writev tp e s =
     (if \<not> kd_should_trace tp e then s
      else let fd = to_int (env_args e 0)
           in kd_handle_rw_enter e fd (kd_get_file_pos e fd) (env_args e 1) s)"

definition kd_tp_sys_enter_pwritev :: "u32 \<Rightarrow> bpf_env \<Rightarrow> probe_state \<Rightarrow> probe_state" where
  "kd_tp_sys_enter_pwritev tp e s =
     (if \<not> kd_should_trace tp e then s
      else kd_handle_rw_enter e (to_int (env_args e 0)) (env_args e 3) (env_args e 1) s)"

definition kd_tp_sys_enter_pwritev2 :: "u32 \<Rightarrow> bpf_env \<Rightarrow> probe_state \<Rightarrow> probe_state" where
  "kd_tp_sys_enter_pwritev2 tp e s =
     (if \<not> kd_should_trace tp e then s
      else kd_handle_rw_enter e (to_int (env_args e 0)) (env_args e 3) (env_args e 1) s)"

definition kd_rw_dxt_event :: "u64 \<times> u64 \<Rightarrow> bpf_env \<Rightarrow> rw_args \<Rightarrow> u64 \<Rightarrow> bool \<Rightarrow> dxt_event" where
  "kd_rw_dxt_event g e a h write_flag =
     \<lparr>dx_path_hash = h, dx_start_ns = rw_start_ns a, dx_end_ns = env_ktime e,
      dx_offset = rw_offset a, dx_length = env_ret e, dx_pid = ucast (cur_pid e),
      dx_cgroup_id = fst g,
      dx_start_time = snd g,
      dx_write_flag = (if write_flag then 1 else 0)\<rparr>"

text \<open>
  The branches of \<open>handle_rw_exit\<close>, statement by statement; \<open>stats\<close> and \<open>fstate\<close> are what the two
  pointers of the code point to.
\<close>

definition kd_rw_write :: "u64 \<Rightarrow> rw_args \<Rightarrow> s64 \<Rightarrow> kdarshan_file_stats \<times> fd_state \<Rightarrow> kdarshan_file_stats \<times> fd_state" where
  "kd_rw_write now args len = (\<lambda>(stats, fstate).
     let elapsed = now - rw_start_ns args;
         this_offset = rw_offset args;
         stats = add_counter POSIX_WRITES 1 stats;
         stats = add_counter POSIX_BYTES_WRITTEN len stats;
         stats = (if fcounters stats POSIX_F_WRITE_START_TIMESTAMP = 0
                     \<or> fcounters stats POSIX_F_WRITE_START_TIMESTAMP > rw_start_ns args
                  then set_fcounter POSIX_F_WRITE_START_TIMESTAMP (rw_start_ns args) stats else stats);
         stats = set_fcounter POSIX_F_WRITE_END_TIMESTAMP now stats;
         stats = add_fcounter POSIX_F_WRITE_TIME elapsed stats;
         stats = (if fcounters stats POSIX_F_MAX_WRITE_TIME < elapsed
                  then set_counter POSIX_MAX_WRITE_TIME_SIZE len (set_fcounter POSIX_F_MAX_WRITE_TIME elapsed stats)
                  else stats);
         end_byte = this_offset + len - 1;
         stats = (if counters stats POSIX_MAX_BYTE_WRITTEN <s end_byte
                  then set_counter POSIX_MAX_BYTE_WRITTEN end_byte stats else stats);
         stats = (if last_byte_written fstate <s this_offset then add_counter POSIX_SEQ_WRITES 1 stats else stats);
         stats = (if this_offset = last_byte_written fstate + 1 then add_counter POSIX_CONSEC_WRITES 1 stats else stats);
         fstate = fstate\<lparr>last_byte_written := end_byte\<rparr>;
         stats = (if last_io_type fstate = 1 then add_counter POSIX_RW_SWITCHES 1 stats else stats);
         fstate = fstate\<lparr>last_io_type := 2\<rparr>;
         stats = (if len \<le>s 100 then add_counter POSIX_SIZE_WRITE_0_100 1 stats
                  else if len \<le>s 1024 then add_counter POSIX_SIZE_WRITE_100_1K 1 stats
                  else if len \<le>s 10240 then add_counter POSIX_SIZE_WRITE_1K_10K 1 stats
                  else if len \<le>s 102400 then add_counter POSIX_SIZE_WRITE_10K_100K 1 stats
                  else if len \<le>s 1048576 then add_counter POSIX_SIZE_WRITE_100K_1M 1 stats
                  else if len \<le>s 4194304 then add_counter POSIX_SIZE_WRITE_1M_4M 1 stats
                  else if len \<le>s 10485760 then add_counter POSIX_SIZE_WRITE_4M_10M 1 stats
                  else if len \<le>s 104857600 then add_counter POSIX_SIZE_WRITE_10M_100M 1 stats
                  else if len \<le>s 1073741824 then add_counter POSIX_SIZE_WRITE_100M_1G 1 stats
                  else add_counter POSIX_SIZE_WRITE_1G_PLUS 1 stats)
     in (stats, fstate))"

definition kd_rw_read :: "u64 \<Rightarrow> rw_args \<Rightarrow> s64 \<Rightarrow> kdarshan_file_stats \<times> fd_state \<Rightarrow> kdarshan_file_stats \<times> fd_state" where
  "kd_rw_read now args len = (\<lambda>(stats, fstate).
     let elapsed = now - rw_start_ns args;
         this_offset = rw_offset args;
         stats = add_counter POSIX_READS 1 stats;
         stats = add_counter POSIX_BYTES_READ len stats;
         stats = (if fcounters stats POSIX_F_READ_START_TIMESTAMP = 0
                     \<or> fcounters stats POSIX_F_READ_START_TIMESTAMP > rw_start_ns args
                  then set_fcounter POSIX_F_READ_START_TIMESTAMP (rw_start_ns args) stats else stats);
         stats = set_fcounter POSIX_F_READ_END_TIMESTAMP now stats;
         stats = add_fcounter POSIX_F_READ_TIME elapsed stats;
         stats = (if fcounters stats POSIX_F_MAX_READ_TIME < elapsed
                  then set_counter POSIX_MAX_READ_TIME_SIZE len (set_fcounter POSIX_F_MAX_READ_TIME elapsed stats)
                  else stats);
         end_byte = this_offset + len - 1;
         stats = (if counters stats POSIX_MAX_BYTE_READ <s end_byte
                  then set_counter POSIX_MAX_BYTE_READ end_byte stats else stats);
         stats = (if last_byte_read fstate <s this_offset then add_counter POSIX_SEQ_READS 1 stats else stats);
         stats = (if this_offset = last_byte_read fstate + 1 then add_counter POSIX_CONSEC_READS 1 stats else stats);
         fstate = fstate\<lparr>last_byte_read := end_byte\<rparr>;
         stats = (if last_io_type fstate = 2 then add_counter POSIX_RW_SWITCHES 1 stats else stats);
         fstate = fstate\<lparr>last_io_type := 1\<rparr>;
         stats = (if len \<le>s 100 then add_counter POSIX_SIZE_READ_0_100 1 stats
                  else if len \<le>s 1024 then add_counter POSIX_SIZE_READ_100_1K 1 stats
                  else if len \<le>s 10240 then add_counter POSIX_SIZE_READ_1K_10K 1 stats
                  else if len \<le>s 102400 then add_counter POSIX_SIZE_READ_10K_100K 1 stats
                  else if len \<le>s 1048576 then add_counter POSIX_SIZE_READ_100K_1M 1 stats
                  else if len \<le>s 4194304 then add_counter POSIX_SIZE_READ_1M_4M 1 stats
                  else if len \<le>s 10485760 then add_counter POSIX_SIZE_READ_4M_10M 1 stats
                  else if len \<le>s 104857600 then add_counter POSIX_SIZE_READ_10M_100M 1 stats
                  else if len \<le>s 1073741824 then add_counter POSIX_SIZE_READ_100M_1G 1 stats
                  else add_counter POSIX_SIZE_READ_1G_PLUS 1 stats)
     in (stats, fstate))"

definition kd_rw_commit ::
  "u64 \<times> u64 \<Rightarrow> bpf_env \<Rightarrow> bool \<Rightarrow> rw_args \<Rightarrow> u64 \<Rightarrow> fd_state \<Rightarrow> kdarshan_file_stats \<Rightarrow> probe_state \<Rightarrow> probe_state" where
  "kd_rw_commit g e write_flag args key fs st s =
     (let path_hash = fs_path_hash fs;
          now = env_ktime e;
          this_offset = rw_offset args;
          len = env_ret e;
          buf_addr = rw_length args;
          (stats, fstate) = (if write_flag then kd_rw_write now args len (st, fs) else kd_rw_read now args len (st, fs));
          file_alignment = counters stats POSIX_FILE_ALIGNMENT;
          stats = (if 0 <s file_alignment \<and> this_offset mod file_alignment \<noteq> 0
                   then add_counter POSIX_FILE_NOT_ALIGNED 1 stats else stats);
          stats = (if buf_addr mod 8 \<noteq> 0 then add_counter POSIX_MEM_NOT_ALIGNED 1 stats else stats);
          s = put_stats path_hash stats s;
          s = s\<lparr>fd_states := (fd_states s)(key \<mapsto> fstate)\<rparr>
      in if env_dxt_rb e
         then s\<lparr>dxt_events := dxt_events s @ [kd_rw_dxt_event g e args (fs_path_hash fstate) write_flag]\<rparr>
         else s)"

definition kd_handle_rw_exit :: "u64 \<times> u64 \<Rightarrow> bpf_env \<Rightarrow> bool \<Rightarrow> probe_state \<Rightarrow> probe_state" where
  "kd_handle_rw_exit g e write_flag s =
     (case pending_rws s (cur_tid e) of
        None \<Rightarrow> s
      | Some a \<Rightarrow>
          (let key = fd_key (cur_pid e) (of_int32 (rw_fd a));
               s' = (if 0 <s env_ret e
                     then case fd_states s key of
                            None \<Rightarrow> s
                          | Some fs \<Rightarrow>
                              (let (s1, stp) = kd_get_or_create_stats e (fs_path_hash fs) s
                               in case stp of
                                    None \<Rightarrow> s1
                                  | Some st \<Rightarrow> kd_rw_commit g e write_flag a key fs st s1)
                     else s)
           in s'\<lparr>pending_rws := bpf_delete (pending_rws s') (cur_tid e)\<rparr>))"

definition kd_tp_sys_exit_read :: "u32 \<Rightarrow> u64 \<times> u64 \<Rightarrow> bpf_env \<Rightarrow> probe_state \<Rightarrow> probe_state" where
  "kd_tp_sys_exit_read tp g e s = (if \<not> kd_should_trace tp e then s else kd_handle_rw_exit g e False s)"

definition kd_tp_sys_exit_pread64 :: "u32 \<Rightarrow> u64 \<times> u64 \<Rightarrow> bpf_env \<Rightarrow> probe_state \<Rightarrow> probe_state" where
  "kd_tp_sys_exit_pread64 tp g e s = (if \<not> kd_should_trace tp e then s else kd_handle_rw_exit g e False s)"

definition kd_tp_sys_exit_readv :: "u32 \<Rightarrow> u64 \<times> u64 \<Rightarrow> bpf_env \<Rightarrow> probe_state \<Rightarrow> probe_state" where
  "kd_tp_sys_exit_readv tp g e s = (if \<not> kd_should_trace tp e then s else kd_handle_rw_exit g e False s)"

definition kd_tp_sys_exit_preadv :: "u32 \<Rightarrow> u64 \<times> u64 \<Rightarrow> bpf_env \<Rightarrow> probe_state \<Rightarrow> probe_state" where
  "kd_tp_sys_exit_preadv tp g e s = (if \<not> kd_should_trace tp e then s else kd_handle_rw_exit g e False s)"

definition kd_tp_sys_exit_preadv2 :: "u32 \<Rightarrow> u64 \<times> u64 \<Rightarrow> bpf_env \<Rightarrow> probe_state \<Rightarrow> probe_state" where
  "kd_tp_sys_exit_preadv2 tp g e s = (if \<not> kd_should_trace tp e then s else kd_handle_rw_exit g e False s)"

definition kd_tp_sys_exit_write :: "u32 \<Rightarrow> u64 \<times> u64 \<Rightarrow> bpf_env \<Rightarrow> probe_state \<Rightarrow> probe_state" where
  "kd_tp_sys_exit_write tp g e s = (if \<not> kd_should_trace tp e then s else kd_handle_rw_exit g e True s)"

definition kd_tp_sys_exit_pwrite64 :: "u32 \<Rightarrow> u64 \<times> u64 \<Rightarrow> bpf_env \<Rightarrow> probe_state \<Rightarrow> probe_state" where
  "kd_tp_sys_exit_pwrite64 tp g e s = (if \<not> kd_should_trace tp e then s else kd_handle_rw_exit g e True s)"

definition kd_tp_sys_exit_writev :: "u32 \<Rightarrow> u64 \<times> u64 \<Rightarrow> bpf_env \<Rightarrow> probe_state \<Rightarrow> probe_state" where
  "kd_tp_sys_exit_writev tp g e s = (if \<not> kd_should_trace tp e then s else kd_handle_rw_exit g e True s)"

definition kd_tp_sys_exit_pwritev :: "u32 \<Rightarrow> u64 \<times> u64 \<Rightarrow> bpf_env \<Rightarrow> probe_state \<Rightarrow> probe_state" where
  "kd_tp_sys_exit_pwritev tp g e s = (if \<not> kd_should_trace tp e then s else kd_handle_rw_exit g e True s)"

definition kd_tp_sys_exit_pwritev2 :: "u32 \<Rightarrow> u64 \<times> u64 \<Rightarrow> bpf_env \<Rightarrow> probe_state \<Rightarrow> probe_state" where
  "kd_tp_sys_exit_pwritev2 tp g e s = (if \<not> kd_should_trace tp e then s else kd_handle_rw_exit g e True s)"

definition kd_tp_sys_enter_lseek :: "u32 \<Rightarrow> bpf_env \<Rightarrow> probe_state \<Rightarrow> probe_state" where
  "kd_tp_sys_enter_lseek tp e s =
     (if \<not> kd_should_trace tp e then s else kd_put_pending_seek e (to_int (env_args e 0)) s)"

definition kd_tp_sys_exit_lseek :: "u32 \<Rightarrow> u64 \<times> u64 \<Rightarrow> bpf_env \<Rightarrow> probe_state \<Rightarrow> probe_state" where
  "kd_tp_sys_exit_lseek tp g e s =
     (if \<not> kd_should_trace tp e then s
      else case pending_seeks s (cur_tid e) of
             None \<Rightarrow> s
           | Some fd \<Rightarrow>
               (let s1 = s\<lparr>pending_seeks := bpf_delete (pending_seeks s) (cur_tid e)\<rparr>
                in if 0 \<le>s env_ret e then kd_count_on_fd e fd POSIX_SEEKS s1 else s1))"

definition kd_tp_sys_enter_fsync :: "u32 \<Rightarrow> bpf_env \<Rightarrow> probe_state \<Rightarrow> probe_state" where
  "kd_tp_sys_enter_fsync tp e s =
     (if \<not> kd_should_trace tp e then s else kd_put_pending_seek e (to_int (env_args e 0)) s)"

definition kd_tp_sys_exit_fsync :: "u32 \<Rightarrow> u64 \<times> u64 \<Rightarrow> bpf_env \<Rightarrow> probe_state \<Rightarrow> probe_state" where
  "kd_tp_sys_exit_fsync tp g e s =
     (if \<not> kd_should_trace tp e then s
      else case pending_seeks s (cur_tid e) of
             None \<Rightarrow> s
           | Some fd \<Rightarrow>
               (let s1 = s\<lparr>pending_seeks := bpf_delete (pending_seeks s) (cur_tid e)\<rparr>
                in if env_ret e = 0 then kd_count_on_fd e fd POSIX_FSYNCS s1 else s1))"

definition kd_tp_sys_enter_fdatasync :: "u32 \<Rightarrow> bpf_env \<Rightarrow> probe_state \<Rightarrow> probe_state" where
  "kd_tp_sys_enter_fdatasync tp e s =
     (if \<not> kd_should_trace tp e then s else kd_put_pending_seek e (to_int (env_args e 0)) s)"

definition kd_tp_sys_exit_fdatasync :: "u32 \<Rightarrow> u64 \<times> u64 \<Rightarrow> bpf_env \<Rightarrow> probe_state \<Rightarrow> probe_state" where
  "kd_tp_sys_exit_fdatasync tp g e s =
     (if \<not> kd_should_trace tp e then s
      else case pending_seeks s (cur_tid e) of
             None \<Rightarrow> s
           | Some fd \<Rightarrow>
               (let s1 = s\<lparr>pending_seeks := bpf_delete (pending_seeks s) (cur_tid e)\<rparr>
                in if env_ret e = 0 then kd_count_on_fd e fd POSIX_FDSYNCS s1 else s1))"

definition kd_tp_sys_enter_newfstat :: "u32 \<Rightarrow> bpf_env \<Rightarrow> probe_state \<Rightarrow> probe_state" where
  "kd_tp_sys_enter_newfstat tp e s =
     (if \<not> kd_should_trace tp e then s else kd_put_pending_stat e (to_int (env_args e 0)) s)"

definition kd_tp_sys_exit_newfstat :: "u32 \<Rightarrow> u64 \<times> u64 \<Rightarrow> bpf_env \<Rightarrow> probe_state \<Rightarrow> probe_state" where
  "kd_tp_sys_exit_newfstat tp g e s =
     (if \<not> kd_should_trace tp e then s
      else case pending_stats s (cur_tid e) of
             None \<Rightarrow> s
           | Some fd \<Rightarrow>
               (let s1 = s\<lparr>pending_stats := bpf_delete (pending_stats s) (cur_tid e)\<rparr>
                in if env_ret e = 0 then kd_count_on_fd e fd POSIX_STATS s1 else s1))"

definition kd_tp_sys_enter_newfstatat :: "u32 \<Rightarrow> bpf_env \<Rightarrow> probe_state \<Rightarrow> probe_state" where
  "kd_tp_sys_enter_newfstatat tp e s =
     (if \<not> kd_should_trace tp e then s else kd_put_pending_stat e (to_int (env_args e 0)) s)"

definition kd_tp_sys_exit_newfstatat :: "u32 \<Rightarrow> u64 \<times> u64 \<Rightarrow> bpf_env \<Rightarrow> probe_state \<Rightarrow> probe_state" where
  "kd_tp_sys_exit_newfstatat tp g e s =
     (if \<not> kd_should_trace tp e then s
      else case pending_stats s (cur_tid e) of
             None \<Rightarrow> s
           | Some fd \<Rightarrow>
               (let s1 = s\<lparr>pending_stats := bpf_delete (pending_stats s) (cur_tid e)\<rparr>
                in if env_ret e = 0 then kd_count_on_fd e fd POSIX_STATS s1 else s1))"

definition kd_tp_sys_enter_mmap :: "u32 \<Rightarrow> bpf_env \<Rightarrow> probe_state \<Rightarrow> probe_state" where
  "kd_tp_sys_enter_mmap tp e s =
     (if \<not> kd_should_trace tp e then s else kd_put_pending_seek e (to_int (env_args e 4)) s)"

definition kd_tp_sys_exit_mmap :: "u32 \<Rightarrow> u64 \<times> u64 \<Rightarrow> bpf_env \<Rightarrow> probe_state \<Rightarrow> probe_state" where
  "kd_tp_sys_exit_mmap tp g e s =
     (if \<not> kd_should_trace tp e then s
      else case pending_seeks s (cur_tid e) of
             None \<Rightarrow> s
           | Some fd \<Rightarrow>
               (let s1 = s\<lparr>pending_seeks := bpf_delete (pending_seeks s) (cur_tid e)\<rparr>
                in if env_ret e \<noteq> - 1 \<and> 0 \<le>s fd then kd_count_on_fd e fd POSIX_MMAPS s1 else s1))"

definition kd_tp_sys_enter_dup :: "u32 \<Rightarrow> bpf_env \<Rightarrow> probe_state \<Rightarrow> probe_state" where
  "kd_tp_sys_enter_dup tp e s =
     (if \<not> kd_should_trace tp e then s else kd_handle_dup_enter e (to_int (env_args e 0)) s)"

definition kd_tp_sys_enter_dup2 :: "u32 \<Rightarrow> bpf_env \<Rightarrow> probe_state \<Rightarrow> probe_state" where
  "kd_tp_sys_enter_dup2 tp e s =
     (if \<not> kd_should_trace tp e then s else kd_handle_dup_enter e (to_int (env_args e 0)) s)"

definition kd_tp_sys_enter_dup3 :: "u32 \<Rightarrow> bpf_env \<Rightarrow> probe_state \<Rightarrow> probe_state" where
  "kd_tp_sys_enter_dup3 tp e s =
     (if \<not> kd_should_trace tp e then s else kd_handle_dup_enter e (to_int (env_args e 0)) s)"

definition kd_tp_sys_exit_dup :: "u32 \<Rightarrow> u64 \<times> u64 \<Rightarrow> bpf_env \<Rightarrow> probe_state \<Rightarrow> probe_state" where
  "kd_tp_sys_exit_dup tp g e s = (if \<not> kd_should_trace tp e then s else kd_handle_dup_exit e s)"

definition kd_tp_sys_exit_dup2 :: "u32 \<Rightarrow> u64 \<times> u64 \<Rightarrow> bpf_env \<Rightarrow> probe_state \<Rightarrow> probe_state" where
  "kd_tp_sys_exit_dup2 tp g e s = (if \<not> kd_should_trace tp e then s else kd_handle_dup_exit e s)"

definition kd_tp_sys_exit_dup3 :: "u32 \<Rightarrow> u64 \<times> u64 \<Rightarrow> bpf_env \<Rightarrow> probe_state \<Rightarrow> probe_state" where
  "kd_tp_sys_exit_dup3 tp g e s = (if \<not> kd_should_trace tp e then s else kd_handle_dup_exit e s)"

definition kd_tp_sys_enter_fcntl :: "u32 \<Rightarrow> bpf_env \<Rightarrow> probe_state \<Rightarrow> probe_state" where
  "kd_tp_sys_enter_fcntl tp e s =
     (if \<not> kd_should_trace tp e then s
      else let cmd = to_int (env_args e 1)
           in if cmd = F_DUPFD \<or> cmd = F_DUPFD_CLOEXEC
              then s\<lparr>pending_fcnl := bpf_update (env_room e M_pending_fcnl) (pending_fcnl s) (cur_tid e)
                                      \<lparr>fc_fd = to_int (env_args e 0), fc_cmd = cmd\<rparr>\<rparr>
              else s)"

definition kd_tp_sys_exit_fcntl :: "u32 \<Rightarrow> u64 \<times> u64 \<Rightarrow> bpf_env \<Rightarrow> probe_state \<Rightarrow> probe_state" where
  "kd_tp_sys_exit_fcntl tp g e s =
     (if \<not> kd_should_trace tp e then s
      else case pending_fcnl s (cur_tid e) of
             None \<Rightarrow> s
           | Some fargs \<Rightarrow>
               (let oldfd = fc_fd fargs;
                    s = s\<lparr>pending_fcnl := bpf_delete (pending_fcnl s) (cur_tid e)\<rparr>;
                    newfd = env_ret e
                in if 0 \<le>s newfd
                   then case fd_states s (fd_key (cur_pid e) (of_int32 oldfd)) of
                          None \<Rightarrow> s
                        | Some old_fstate \<Rightarrow>
                            (let s = s\<lparr>fd_states := bpf_update (env_room e M_fd_states) (fd_states s)
                                                      (fd_key (cur_pid e) newfd) old_fstate\<rparr>;
                                 (s, stats) = kd_get_or_create_stats e (fs_path_hash old_fstate) s
                             in case stats of
                                  None \<Rightarrow> s
                                | Some st \<Rightarrow> put_stats (fs_path_hash old_fstate)
                                               (add_counter POSIX_OPENS 1 (add_counter POSIX_DUPS 1 st)) s)
                   else s))"

fun kd_on_enter :: "traced_syscall \<Rightarrow> u32 \<Rightarrow> bpf_env \<Rightarrow> probe_state \<Rightarrow> probe_state" where
  "kd_on_enter SC_open = kd_tp_sys_enter_open"
| "kd_on_enter SC_openat = kd_tp_sys_enter_openat"
| "kd_on_enter SC_creat = kd_tp_sys_enter_creat"
| "kd_on_enter SC_close = kd_tp_sys_enter_close"
| "kd_on_enter SC_read = kd_tp_sys_enter_read"
| "kd_on_enter SC_pread64 = kd_tp_sys_enter_pread64"
| "kd_on_enter SC_readv = kd_tp_sys_enter_readv"
| "kd_on_enter SC_preadv = kd_tp_sys_enter_preadv"
| "kd_on_enter SC_preadv2 = kd_tp_sys_enter_preadv2"
| "kd_on_enter SC_write = kd_tp_sys_enter_write"
| "kd_on_enter SC_pwrite64 = kd_tp_sys_enter_pwrite64"
| "kd_on_enter SC_writev = kd_tp_sys_enter_writev"
| "kd_on_enter SC_pwritev = kd_tp_sys_enter_pwritev"
| "kd_on_enter SC_pwritev2 = kd_tp_sys_enter_pwritev2"
| "kd_on_enter SC_lseek = kd_tp_sys_enter_lseek"
| "kd_on_enter SC_fsync = kd_tp_sys_enter_fsync"
| "kd_on_enter SC_fdatasync = kd_tp_sys_enter_fdatasync"
| "kd_on_enter SC_newfstat = kd_tp_sys_enter_newfstat"
| "kd_on_enter SC_newfstatat = kd_tp_sys_enter_newfstatat"
| "kd_on_enter SC_dup = kd_tp_sys_enter_dup"
| "kd_on_enter SC_dup2 = kd_tp_sys_enter_dup2"
| "kd_on_enter SC_dup3 = kd_tp_sys_enter_dup3"
| "kd_on_enter SC_fcntl = kd_tp_sys_enter_fcntl"
| "kd_on_enter SC_mmap = kd_tp_sys_enter_mmap"

fun kd_on_exit :: "traced_syscall \<Rightarrow> u32 \<Rightarrow> u64 \<times> u64 \<Rightarrow> bpf_env \<Rightarrow> probe_state \<Rightarrow> probe_state" where
  "kd_on_exit SC_open = kd_tp_sys_exit_open"
| "kd_on_exit SC_openat = kd_tp_sys_exit_openat"
| "kd_on_exit SC_creat = kd_tp_sys_exit_creat"
| "kd_on_exit SC_close = kd_tp_sys_exit_close"
| "kd_on_exit SC_read = kd_tp_sys_exit_read"
| "kd_on_exit SC_pread64 = kd_tp_sys_exit_pread64"
| "kd_on_exit SC_readv = kd_tp_sys_exit_readv"
| "kd_on_exit SC_preadv = kd_tp_sys_exit_preadv"
| "kd_on_exit SC_preadv2 = kd_tp_sys_exit_preadv2"
| "kd_on_exit SC_write = kd_tp_sys_exit_write"
| "kd_on_exit SC_pwrite64 = kd_tp_sys_exit_pwrite64"
| "kd_on_exit SC_writev = kd_tp_sys_exit_writev"
| "kd_on_exit SC_pwritev = kd_tp_sys_exit_pwritev"
| "kd_on_exit SC_pwritev2 = kd_tp_sys_exit_pwritev2"
| "kd_on_exit SC_lseek = kd_tp_sys_exit_lseek"
| "kd_on_exit SC_fsync = kd_tp_sys_exit_fsync"
| "kd_on_exit SC_fdatasync = kd_tp_sys_exit_fdatasync"
| "kd_on_exit SC_newfstat = kd_tp_sys_exit_newfstat"
| "kd_on_exit SC_newfstatat = kd_tp_sys_exit_newfstatat"
| "kd_on_exit SC_dup = kd_tp_sys_exit_dup"
| "kd_on_exit SC_dup2 = kd_tp_sys_exit_dup2"
| "kd_on_exit SC_dup3 = kd_tp_sys_exit_dup3"
| "kd_on_exit SC_fcntl = kd_tp_sys_exit_fcntl"
| "kd_on_exit SC_mmap = kd_tp_sys_exit_mmap"

section \<open>Correspondence with the probe of dlogger\<close>

text \<open>The environment in which dlogger's probe would log the same two fields.\<close>

definition kd_env :: "u64 \<times> u64 \<Rightarrow> bpf_env \<Rightarrow> bpf_env" where
  "kd_env g e = e\<lparr>env_cgroup_id := fst g,
     env_mem := (env_mem e)\<lparr>km_task := (km_task (env_mem e))(env_task e :=
       (km_task (env_mem e) (env_task e))\<lparr>tk_start_time := snd g\<rparr>)\<rparr>\<rparr>"

lemma kd_env_simps [simp]:
  "env_pid_tgid (kd_env g e) = env_pid_tgid e" "env_task (kd_env g e) = env_task e"
  "env_ktime (kd_env g e) = env_ktime e" "env_comm (kd_env g e) = env_comm e"
  "env_cgroup_id (kd_env g e) = fst g" "env_user_str (kd_env g e) = env_user_str e"
  "env_room (kd_env g e) = env_room e" "env_path_rb (kd_env g e) = env_path_rb e"
  "env_dxt_rb (kd_env g e) = env_dxt_rb e" "env_args (kd_env g e) = env_args e" "env_ret (kd_env g e) = env_ret e"
  "tk_start_time (km_task (env_mem (kd_env g e)) (env_task e)) = snd g"
  "tk_files (km_task (env_mem (kd_env g e)) t) = tk_files (km_task (env_mem e) t)"
  "km_fdt (env_mem (kd_env g e)) = km_fdt (env_mem e)" "km_fd (env_mem (kd_env g e)) = km_fd (env_mem e)"
  "km_file (env_mem (kd_env g e)) = km_file (env_mem e)" "km_f_inode (env_mem (kd_env g e)) = km_f_inode (env_mem e)"
  "km_f_pos (env_mem (kd_env g e)) = km_f_pos (env_mem e)" "km_i_ino (env_mem (kd_env g e)) = km_i_ino (env_mem e)"
  "km_i_sb (env_mem (kd_env g e)) = km_i_sb (env_mem e)" "km_s_dev (env_mem (kd_env g e)) = km_s_dev (env_mem e)"
  "km_s_blocksize (env_mem (kd_env g e)) = km_s_blocksize (env_mem e)"
  by (simp_all add: kd_env_def)

lemma kd_env_helpers [simp]:
  "cur_tid (kd_env g e) = cur_tid e" "cur_pid (kd_env g e) = cur_pid e"
  "get_or_create_stats (kd_env g e) = get_or_create_stats e" "file_of_fd (kd_env g e) = file_of_fd e"
  "get_file_pos (kd_env g e) = get_file_pos e" "put_pending_open (kd_env g e) = put_pending_open e"
  "put_pending_seek (kd_env g e) = put_pending_seek e" "put_pending_stat (kd_env g e) = put_pending_stat e"
  "handle_rw_enter (kd_env g e) = handle_rw_enter e" "handle_dup_enter (kd_env g e) = handle_dup_enter e"
  unfolding fun_eq_iff get_file_pos_def put_pending_open_def put_pending_seek_def put_pending_stat_def
    handle_rw_enter_def handle_dup_enter_def get_or_create_stats_def file_of_fd_def cur_tid_def cur_pid_def kd_env_simps
  by simp_all

lemma kd_env_updates [simp]:
  "count_on_fd (kd_env g e) = count_on_fd e" "dup_fd (kd_env g e) = dup_fd e"
  "handle_dup_exit (kd_env g e) = handle_dup_exit e"
  unfolding fun_eq_iff handle_dup_exit_def count_on_fd_def dup_fd_def kd_env_simps kd_env_helpers by simp_all

text \<open>The helpers of the two programs are the same functions.\<close>

lemma kd_get_or_create [simp]: "kd_get_or_create_stats = get_or_create_stats"
  by (simp add: fun_eq_iff kd_get_or_create_stats_def get_or_create_stats_def Let_def split: option.split)

lemma kd_simple_helpers [simp]:
  "kd_put_pending_open = put_pending_open" "kd_put_pending_seek = put_pending_seek"
  "kd_put_pending_stat = put_pending_stat" "kd_handle_rw_enter = handle_rw_enter"
  "kd_handle_dup_enter = handle_dup_enter"
  by (simp_all add: fun_eq_iff kd_put_pending_open_def put_pending_open_def kd_put_pending_seek_def put_pending_seek_def
      kd_put_pending_stat_def put_pending_stat_def kd_handle_rw_enter_def handle_rw_enter_def
      kd_handle_dup_enter_def handle_dup_enter_def)

lemma kd_file_pos [simp]: "kd_get_file_pos = get_file_pos"
  by (simp add: fun_eq_iff kd_get_file_pos_def get_file_pos_def file_of_fd_def Let_def)

lemma kd_count [simp]: "kd_count_on_fd = count_on_fd"
  by (auto simp: fun_eq_iff kd_count_on_fd_def count_on_fd_def split: option.split prod.split)

lemma kd_dup_exit [simp]: "kd_handle_dup_exit = handle_dup_exit"
  unfolding fun_eq_iff kd_handle_dup_exit_def handle_dup_exit_def dup_fd_def Let_def kd_get_or_create by simp

lemma kd_fcntl_exit:
  "kd_tp_sys_exit_fcntl tp g e s =
     (if \<not> kd_should_trace tp e then s
      else case pending_fcnl s (cur_tid e) of
             None \<Rightarrow> s
           | Some fargs \<Rightarrow> dup_fd e (fc_fd fargs) (s\<lparr>pending_fcnl := bpf_delete (pending_fcnl s) (cur_tid e)\<rparr>))"
  unfolding kd_tp_sys_exit_fcntl_def dup_fd_def Let_def kd_get_or_create by simp

lemma kd_buckets:
  "add_counter (write_bucket len) 1 st =
     (if len \<le>s 100 then add_counter POSIX_SIZE_WRITE_0_100 1 st
      else if len \<le>s 1024 then add_counter POSIX_SIZE_WRITE_100_1K 1 st
      else if len \<le>s 10240 then add_counter POSIX_SIZE_WRITE_1K_10K 1 st
      else if len \<le>s 102400 then add_counter POSIX_SIZE_WRITE_10K_100K 1 st
      else if len \<le>s 1048576 then add_counter POSIX_SIZE_WRITE_100K_1M 1 st
      else if len \<le>s 4194304 then add_counter POSIX_SIZE_WRITE_1M_4M 1 st
      else if len \<le>s 10485760 then add_counter POSIX_SIZE_WRITE_4M_10M 1 st
      else if len \<le>s 104857600 then add_counter POSIX_SIZE_WRITE_10M_100M 1 st
      else if len \<le>s 1073741824 then add_counter POSIX_SIZE_WRITE_100M_1G 1 st
      else add_counter POSIX_SIZE_WRITE_1G_PLUS 1 st)"
  "add_counter (read_bucket len) 1 st =
     (if len \<le>s 100 then add_counter POSIX_SIZE_READ_0_100 1 st
      else if len \<le>s 1024 then add_counter POSIX_SIZE_READ_100_1K 1 st
      else if len \<le>s 10240 then add_counter POSIX_SIZE_READ_1K_10K 1 st
      else if len \<le>s 102400 then add_counter POSIX_SIZE_READ_10K_100K 1 st
      else if len \<le>s 1048576 then add_counter POSIX_SIZE_READ_100K_1M 1 st
      else if len \<le>s 4194304 then add_counter POSIX_SIZE_READ_1M_4M 1 st
      else if len \<le>s 10485760 then add_counter POSIX_SIZE_READ_4M_10M 1 st
      else if len \<le>s 104857600 then add_counter POSIX_SIZE_READ_10M_100M 1 st
      else if len \<le>s 1073741824 then add_counter POSIX_SIZE_READ_100M_1G 1 st
      else add_counter POSIX_SIZE_READ_1G_PLUS 1 st)"
  unfolding write_bucket_def read_bucket_def by simp_all

lemma kd_branches:
  "kd_rw_write now a len (st, fs) = (rw_write_stats now a len fs st, rw_write_fstate a len fs)"
  "kd_rw_read now a len (st, fs) = (rw_read_stats now a len fs st, rw_read_fstate a len fs)"
  unfolding kd_rw_write_def kd_rw_read_def kd_buckets [symmetric] count_if_def [symmetric] raise_counter_def [symmetric]
    earliest_fcounter_def [symmetric] record_slowest_def [symmetric]
  by (simp_all add: Let_def rw_write_stats_def rw_read_stats_def rw_write_fstate_def rw_read_fstate_def)

lemma kd_events [simp]:
  "kd_open_path_event g e = open_path_event (kd_env g e)" "kd_rw_dxt_event g e = rw_dxt_event (kd_env g e)"
  by (simp_all add: fun_eq_iff kd_open_path_event_def open_path_event_def kd_rw_dxt_event_def rw_dxt_event_def)

lemma kd_commit [simp]: "kd_rw_commit g e = rw_commit (kd_env g e)"
proof (intro ext)
  fix w a k fs st s
  show "kd_rw_commit g e w a k fs st s = rw_commit (kd_env g e) w a k fs st s"
    by (cases w; simp only: kd_rw_commit_def rw_commit_def kd_env_simps kd_events kd_branches if_True if_False Let_def
        case_prod_conv rw_alignment_stats_def count_if_def)
qed

lemma kd_rw_exit [simp]: "kd_handle_rw_exit g e = handle_rw_exit (kd_env g e)"
  unfolding fun_eq_iff kd_handle_rw_exit_def handle_rw_exit_def kd_get_or_create
    kd_env_simps kd_env_helpers kd_events kd_commit by simp

lemma file_found: "file_of_fd e fd \<noteq> 0 \<longleftrightarrow>
    (let files = tk_files (km_task (env_mem e) (env_task e)); fdt = km_fdt (env_mem e) files; fd_array = km_fd (env_mem e) fdt
     in files \<noteq> 0 \<and> fdt \<noteq> 0 \<and> fd_array \<noteq> 0 \<and> km_file (env_mem e) fd_array fd \<noteq> 0)"
  by (simp add: file_of_fd_def Let_def)

lemma kd_open_exit [simp]: "kd_handle_open_exit g e = handle_open_exit (kd_env g e)"
proof
  fix s
  show "kd_handle_open_exit g e s = handle_open_exit (kd_env g e) s"
  proof (cases "0 \<le>s env_ret e \<and> file_of_fd e (env_ret e) \<noteq> 0")
    case True
    let ?files = "tk_files (km_task (env_mem e) (env_task e))"
    let ?fdt = "km_fdt (env_mem e) ?files"
    let ?fd_array = "km_fd (env_mem e) ?fdt"
    from True have nz: "?files \<noteq> 0" "?fdt \<noteq> 0" "?fd_array \<noteq> 0" by (simp_all add: file_found Let_def)
    then have f: "km_file (env_mem e) ?fd_array (env_ret e) = file_of_fd e (env_ret e)" by (simp add: file_of_fd_def)
    show ?thesis
      by (simp only: kd_handle_open_exit_def handle_open_exit_def open_update_stats_def init_fcounter_def kd_get_or_create
          kd_env_simps kd_env_helpers kd_events Let_def f nz simp_thms)
  next
    case False
    let ?files = "tk_files (km_task (env_mem e) (env_task e))"
    let ?fdt = "km_fdt (env_mem e) ?files"
    let ?fd_array = "km_fd (env_mem e) ?fdt"
    from False have "\<not> (0 \<le>s env_ret e \<and> ?files \<noteq> 0 \<and> ?fdt \<noteq> 0 \<and> ?fd_array \<noteq> 0 \<and>
          km_file (env_mem e) ?fd_array (env_ret e) \<noteq> 0 \<and> P)"
        "\<not> (0 \<le>s env_ret e \<and> file_of_fd e (env_ret e) \<noteq> 0 \<and> P)" for P
      by (auto simp: file_found Let_def)
    then show ?thesis
      by (simp only: kd_handle_open_exit_def handle_open_exit_def kd_env_simps kd_env_helpers Let_def if_False)
  qed
qed

lemma kd_close_exit:
  "kd_tp_sys_exit_close tp g e s =
     (if \<not> kd_should_trace tp e then s
      else case pending_closes s (cur_tid e) of
             None \<Rightarrow> s
           | Some fd \<Rightarrow>
               (let s1 = s\<lparr>pending_closes := bpf_delete (pending_closes s) (cur_tid e)\<rparr>;
                    key = fd_key (cur_pid e) (of_int32 fd)
                in if env_ret e = 0
                   then case fd_states s1 key of
                          None \<Rightarrow> s1
                        | Some fs \<Rightarrow>
                            (let (s2, stp) = get_or_create_stats e (fs_path_hash fs) s1;
                                 s3 = (case stp of
                                         None \<Rightarrow> s2
                                       | Some st \<Rightarrow> put_stats (fs_path_hash fs) (close_update_stats (env_ktime e) st) s2)
                             in s3\<lparr>fd_states := bpf_delete (fd_states s3) key\<rparr>)
                   else s1))"
  unfolding kd_tp_sys_exit_close_def kd_get_or_create close_update_stats_def init_fcounter_def Let_def by (rule refl)

lemma kd_traced: "kd_should_trace tp e \<Longrightarrow> dlogger_pid s = 0 \<Longrightarrow> should_trace (kd_env g e) s"
  by (auto simp: kd_should_trace_def should_trace_def Let_def split: if_splits)

lemmas kd_enter_defs =
  kd_tp_sys_enter_open_def kd_tp_sys_enter_openat_def kd_tp_sys_enter_creat_def
  kd_tp_sys_enter_close_def kd_tp_sys_enter_read_def kd_tp_sys_enter_pread64_def
  kd_tp_sys_enter_readv_def kd_tp_sys_enter_preadv_def kd_tp_sys_enter_preadv2_def
  kd_tp_sys_enter_write_def kd_tp_sys_enter_pwrite64_def kd_tp_sys_enter_writev_def
  kd_tp_sys_enter_pwritev_def kd_tp_sys_enter_pwritev2_def kd_tp_sys_enter_lseek_def
  kd_tp_sys_enter_fsync_def kd_tp_sys_enter_fdatasync_def kd_tp_sys_enter_newfstat_def
  kd_tp_sys_enter_newfstatat_def kd_tp_sys_enter_dup_def kd_tp_sys_enter_dup2_def
  kd_tp_sys_enter_dup3_def kd_tp_sys_enter_fcntl_def kd_tp_sys_enter_mmap_def

lemmas kd_exit_defs =
  kd_tp_sys_exit_open_def kd_tp_sys_exit_openat_def kd_tp_sys_exit_creat_def
  kd_close_exit kd_tp_sys_exit_read_def kd_tp_sys_exit_pread64_def
  kd_tp_sys_exit_readv_def kd_tp_sys_exit_preadv_def kd_tp_sys_exit_preadv2_def
  kd_tp_sys_exit_write_def kd_tp_sys_exit_pwrite64_def kd_tp_sys_exit_writev_def
  kd_tp_sys_exit_pwritev_def kd_tp_sys_exit_pwritev2_def kd_tp_sys_exit_lseek_def
  kd_tp_sys_exit_fsync_def kd_tp_sys_exit_fdatasync_def kd_tp_sys_exit_newfstat_def
  kd_tp_sys_exit_newfstatat_def kd_tp_sys_exit_dup_def kd_tp_sys_exit_dup2_def
  kd_tp_sys_exit_dup3_def kd_fcntl_exit kd_tp_sys_exit_mmap_def

lemma kd_enter_is:
  assumes "dlogger_pid s = 0"
  shows "kd_on_enter sc tp e s = (if kd_should_trace tp e then on_enter sc (kd_env g e) s else s)"
  using kd_traced [OF _ assms, of tp e g]
  by (cases sc) (simp_all add: kd_enter_defs enter_defs Let_def)

lemma kd_exit_is:
  assumes "dlogger_pid s = 0"
  shows "kd_on_exit sc tp g e s = (if kd_should_trace tp e then on_exit sc (kd_env g e) s else s)"
  using kd_traced [OF _ assms, of tp e g]
  by (cases sc; simp only: kd_on_exit.simps on_exit.simps kd_exit_defs exit_wrapper_defs tp_sys_exit_close_def
      kd_env_simps kd_env_helpers kd_env_updates kd_rw_exit kd_open_exit kd_count kd_dup_exit; simp)

section \<open>Reachable states\<close>

inductive kd_reach :: "(bpf_env \<Rightarrow> bool) \<Rightarrow> u32 \<Rightarrow> probe_state \<Rightarrow> bool" for P tp where
  kd_start: "kd_reach P tp (probe_init 0)"
| kd_enter: "kd_reach P tp s \<Longrightarrow> P e \<Longrightarrow> kd_reach P tp (kd_on_enter sc tp e s)"
| kd_exit: "kd_reach P tp s \<Longrightarrow> P e \<Longrightarrow> kd_reach P tp (kd_on_exit sc tp g e s)"

text \<open>What an exit handler does to the process filter and to the two logs.\<close>

definition logs_own :: "bpf_env \<Rightarrow> probe_state \<Rightarrow> probe_state \<Rightarrow> bool" where
  "logs_own e s t \<longleftrightarrow> dlogger_pid t = dlogger_pid s \<and>
     (\<forall>v\<in>set (path_events t). v \<in> set (path_events s) \<or> pe_pid v = ucast (cur_pid e)) \<and>
     (\<forall>v\<in>set (dxt_events t). v \<in> set (dxt_events s) \<or> dx_pid v = ucast (cur_pid e))"

lemma logs_own_same:
  "dlogger_pid t = dlogger_pid s \<Longrightarrow> path_events t = path_events s \<Longrightarrow> dxt_events t = dxt_events s \<Longrightarrow> logs_own e s t"
  by (simp add: logs_own_def)

lemma get_or_create_logs:
  assumes "get_or_create_stats e h s = (s1, r)"
  shows "dlogger_pid s1 = dlogger_pid s" "path_events s1 = path_events s" "dxt_events s1 = dxt_events s"
  using assms by (auto simp: get_or_create_stats_def put_stats_def Let_def split: option.splits)

lemma put_stats_logs [simp]:
  "dlogger_pid (put_stats h st s) = dlogger_pid s" "path_events (put_stats h st s) = path_events s"
  "dxt_events (put_stats h st s) = dxt_events s"
  by (simp_all add: put_stats_def)

lemma count_on_fd_logs:
  "dlogger_pid (count_on_fd e fd i s) = dlogger_pid s" "path_events (count_on_fd e fd i s) = path_events s"
  "dxt_events (count_on_fd e fd i s) = dxt_events s"
  by (auto simp: count_on_fd_def get_or_create_logs split: option.splits prod.splits)

lemma dup_fd_logs:
  "dlogger_pid (dup_fd e fd s) = dlogger_pid s" "path_events (dup_fd e fd s) = path_events s"
  "dxt_events (dup_fd e fd s) = dxt_events s"
  by (auto simp: dup_fd_def Let_def get_or_create_logs split: option.splits prod.splits)

lemma close_logs: "logs_own e s (tp_sys_exit_close e s)"
  by (rule logs_own_same) (auto simp: tp_sys_exit_close_def Let_def get_or_create_logs split: option.splits prod.splits)

lemma rw_exit_logs: "logs_own e s (handle_rw_exit e w s)"
proof -
  have "logs_own e s (rw_commit e w a k fs st s1)" if "get_or_create_stats e h s = (s1, r)" for a k fs st s1 h r
    using get_or_create_logs [OF that] by (auto simp: logs_own_def rw_commit_def Let_def rw_dxt_event_def)
  moreover have "logs_own e s s1" if "get_or_create_stats e h s = (s1, r)" for s1 h r
    using get_or_create_logs [OF that] by (rule logs_own_same)
  moreover have "logs_own e s (t\<lparr>pending_rws := x\<rparr>) = logs_own e s t" for t x by (simp add: logs_own_def)
  moreover have "logs_own e s s" by (simp add: logs_own_def)
  ultimately show ?thesis by (auto simp: handle_rw_exit_def Let_def split: option.splits prod.splits)
qed

lemma open_exit_logs: "logs_own e s (handle_open_exit e s)"
proof -
  have lo: "logs_own e s (f t)" if "logs_own e s t" "dlogger_pid (f t) = dlogger_pid t"
    "path_events (f t) = path_events t" "dxt_events (f t) = dxt_events t" for f t
    using that by (simp add: logs_own_def)
  have s1: "logs_own e s (if env_path_rb e then s\<lparr>path_events := path_events s @ [open_path_event e a h]\<rparr> else s)" for a h
    by (auto simp: logs_own_def open_path_event_def cur_pid_def)
  have s2: "logs_own e s s2" if "get_or_create_stats e h s1 = (s2, r)" "logs_own e s s1" for s1 s2 h r
    using get_or_create_logs [OF that(1)] that(2) by (simp add: logs_own_def)
  have "logs_own e s (t\<lparr>pending_opens := x\<rparr>) = logs_own e s t" "logs_own e s (t\<lparr>fd_states := y\<rparr>) = logs_own e s t"
    "logs_own e s (put_stats h st t) = logs_own e s t" for t x y h st by (simp_all add: logs_own_def)
  then show ?thesis
    using s2 [OF _ s1] by (auto simp: handle_open_exit_def Let_def logs_own_same split: option.splits prod.splits)
qed

lemma on_exit_logs: "logs_own e s (on_exit sc e s)"
  using close_logs [of e s] rw_exit_logs [of e s] open_exit_logs [of e s]
  by (cases sc)
    (auto simp: exit_wrapper_defs handle_dup_exit_def Let_def count_on_fd_logs dup_fd_logs logs_own_same
      split: option.splits)

lemma on_enter_logs: "logs_own e s (on_enter sc e s)"
  using on_enter_same_results [of s sc e] by (simp add: same_results_def logs_own_same)

lemma kd_reach_pid: "kd_reach P tp s \<Longrightarrow> dlogger_pid s = 0"
proof (induction rule: kd_reach.induct)
  case kd_start
  show ?case by (simp add: probe_init_def)
next
  case (kd_enter s e sc)
  show ?case using kd_enter_is [OF kd_enter.IH, of sc tp e "(0, 0)"] on_enter_logs [of "kd_env (0, 0) e" s sc] kd_enter.IH
    by (simp add: logs_own_def)
next
  case (kd_exit s e sc g)
  show ?case using kd_exit_is [OF kd_exit.IH, of sc tp g e] on_exit_logs [of "kd_env g e" s sc] kd_exit.IH
    by (simp add: logs_own_def)
qed

lemma kd_reach_probe:
  assumes "kd_reach P tp s" and env: "\<And>g e. P e \<Longrightarrow> P (kd_env g e)"
  shows "probe_reach P 0 s"
  using assms(1)
proof (induction rule: kd_reach.induct)
  case kd_start
  show ?case by (rule probe_reach.start)
next
  case (kd_enter s e sc)
  have "kd_on_enter sc tp e s = s \<or> probe_step P s (kd_on_enter sc tp e s)"
    using kd_enter_is [OF kd_reach_pid [OF kd_enter.hyps(1)], of sc tp e "(0, 0)"]
      probe_step.enter [of P "kd_env (0, 0) e" s sc] env [OF kd_enter.hyps(2)] by auto
  with kd_enter.IH show ?case by (auto intro: probe_reach.step)
next
  case (kd_exit s e sc g)
  have "kd_on_exit sc tp g e s = s \<or> probe_step P s (kd_on_exit sc tp g e s)"
    using kd_exit_is [OF kd_reach_pid [OF kd_exit.hyps(1)], of sc tp g e]
      probe_step.exit [of P "kd_env g e" s sc] env [OF kd_exit.hyps(2)] by auto
  with kd_exit.IH show ?case by (auto intro: probe_reach.step)
qed

lemma kd_own_logs:
  assumes "kd_reach P tp s" "tp \<noteq> 0"
  shows "(\<forall>v\<in>set (path_events s). pe_pid v = tp) \<and> (\<forall>v\<in>set (dxt_events s). dx_pid v = tp)"
  using assms(1)
proof (induction rule: kd_reach.induct)
  case kd_start
  show ?case by (simp add: probe_init_def)
next
  case (kd_enter s e sc)
  have "kd_should_trace tp e \<Longrightarrow> ucast (cur_pid e) = tp"
    using assms(2) by (simp add: kd_should_trace_def cur_pid_def)
  with kd_enter.IH show ?case
    using kd_enter_is [OF kd_reach_pid [OF kd_enter.hyps(1)], of sc tp e "(0, 0)"] on_enter_logs [of "kd_env (0, 0) e" s sc]
    by (auto simp: logs_own_def)
next
  case (kd_exit s e sc g)
  have "kd_should_trace tp e \<Longrightarrow> ucast (cur_pid e) = tp"
    using assms(2) by (simp add: kd_should_trace_def cur_pid_def)
  with kd_exit.IH show ?case
    using kd_exit_is [OF kd_reach_pid [OF kd_exit.hyps(1)], of sc tp g e] on_exit_logs [of "kd_env g e" s sc]
    by (auto simp: logs_own_def)
qed

definition kd_demo_open :: probe_state where
  "kd_demo_open = kd_on_exit SC_open 7 (0, 0) (demo_env 3 3 20) (kd_on_enter SC_open 7 (demo_env 3 0 10) (probe_init 0))"

section \<open>Properties\<close>

text \<open>
  (C26) The two probes, translated from their two files, agree: on a traced invocation every handler
  of the stand-alone probe does to the maps and ring buffers what the handler of dlogger's probe
  does when \<open>dlogger_pid\<close> is 0, so that it has no process of its own to exclude, and when the control
  group and the start time it reads are what the reserved event memory holds (\<open>kd_env\<close>, which changes
  nothing else of the environment); an invocation that is not traced changes nothing.
\<close>

theorem probes_agree:
  assumes "dlogger_pid s = 0"
  shows "kd_on_enter sc tp e s = (if kd_should_trace tp e then on_enter sc (kd_env g e) s else s) \<and>
    kd_on_exit sc tp g e s = (if kd_should_trace tp e then on_exit sc (kd_env g e) s else s)"
  using kd_enter_is [OF assms] kd_exit_is [OF assms] by blast

theorem probes_agree_witness:
  "kd_on_exit SC_open 7 (1, 2) (demo_env 3 3 20) (probe_init 0) = on_exit SC_open (kd_env (1, 2) (demo_env 3 3 20)) (probe_init 0) \<and>
   kd_on_exit SC_open 8 (1, 2) (demo_env 3 3 20) (probe_init 0) = probe_init 0"
  using probes_agree [of "probe_init 0" SC_open 7 "demo_env 3 3 20" "(1, 2)"]
    probes_agree [of "probe_init 0" SC_open 8 "demo_env 3 3 20" "(1, 2)"]
  by (simp add: probe_init_def kd_should_trace_def demo_env_def)

text \<open>
  (C31) With a target process, every event the stand-alone probe ever logs, of either kind, is of
  that process.
\<close>

theorem target_only:
  assumes "kd_reach (\<lambda>_. True) tp s" "tp \<noteq> 0"
  shows "(\<forall>v\<in>set (path_events s). pe_pid v = tp) \<and> (\<forall>v\<in>set (dxt_events s). dx_pid v = tp)"
  by (rule kd_own_logs [OF assms])

theorem target_only_witness:
  "map pe_pid (path_events kd_demo_open) = [7]"
proof -
  have "kd_reach (\<lambda>_. True) 7 kd_demo_open"
    unfolding kd_demo_open_def by (intro kd_exit kd_enter kd_start TrueI)
  then have "\<forall>v\<in>set (path_events kd_demo_open). pe_pid v = 7" using target_only by simp
  moreover have "length (path_events kd_demo_open) = 1"
    by (simp add: kd_demo_open_def kd_exit_defs kd_enter_defs kd_should_trace_def demo_env_def put_pending_open_def
        probe_init_def handle_open_exit_def get_or_create_cases put_stats_def cur_tid_def demo_mem_def file_of_fd_def
        word_sle_eq Let_def split: prod.splits)
  then obtain v where "path_events kd_demo_open = [v]" by (auto simp: length_Suc_conv)
  ultimately show ?thesis by simp
qed


end
