(* ===== verification/Path_Table.thy ===== *)
theory Path_Table
  imports Kdarshan_Types
begin

text \<open>
  Path resolution in user space, \<^verbatim>\<open>src/kdarshan.c\<close>: the open-addressing table from file identities
  to path names, the mount table, the list of excluded path prefixes and the configuration file.
  C strings are lists of non-NUL characters.
\<close>

section \<open>The table\<close>

definition PATH_MAP_SIZE :: nat where "PATH_MAP_SIZE = 1024"

record path_map_entry =
  pm_hash :: u64
  pm_path :: string
  pm_occupied :: bool

type_synonym path_map = "nat \<Rightarrow> path_map_entry"

definition path_map_init :: path_map where
  "path_map_init = (\<lambda>_. \<lparr>pm_hash = 0, pm_path = '''', pm_occupied = False\<rparr>)"

definition home :: "u64 \<Rightarrow> nat" where
  "home h = unat h mod PATH_MAP_SIZE"

text \<open>The two loops; \<open>n\<close> probes are left, the next one has the number \<open>i\<close>.\<close>

fun put_loop :: "nat \<Rightarrow> nat \<Rightarrow> u64 \<Rightarrow> string \<Rightarrow> path_map \<Rightarrow> path_map" where
  "put_loop 0 i h p t = t"
| "put_loop (Suc n) i h p t =
     (let curr = (home h + i) mod PATH_MAP_SIZE
      in if \<not> pm_occupied (t curr)
         then t(curr := \<lparr>pm_hash = h, pm_path = take MAX_PATH_LEN p, pm_occupied = True\<rparr>)
         else if pm_hash (t curr) = h then t(curr := (t curr)\<lparr>pm_path := take MAX_PATH_LEN p\<rparr>)
         else put_loop n (i + 1) h p t)"

definition put_path :: "u64 \<Rightarrow> string \<Rightarrow> path_map \<Rightarrow> path_map" where
  "put_path h p t = put_loop PATH_MAP_SIZE 0 h p t"

fun get_loop :: "nat \<Rightarrow> nat \<Rightarrow> u64 \<Rightarrow> path_map \<Rightarrow> string option" where
  "get_loop 0 i h t = None"
| "get_loop (Suc n) i h t =
     (let curr = (home h + i) mod PATH_MAP_SIZE
      in if \<not> pm_occupied (t curr) then None
         else if pm_hash (t curr) = h then Some (pm_path (t curr))
         else get_loop n (i + 1) h t)"

definition get_path :: "u64 \<Rightarrow> path_map \<Rightarrow> string option" where
  "get_path h t = get_loop PATH_MAP_SIZE 0 h t"

section \<open>The loops as a search\<close>

definition slot :: "u64 \<Rightarrow> nat \<Rightarrow> nat" where
  "slot h i = (home h + i) mod PATH_MAP_SIZE"

definition stops :: "path_map \<Rightarrow> u64 \<Rightarrow> nat \<Rightarrow> bool" where
  "stops t h i \<longleftrightarrow> \<not> pm_occupied (t (slot h i)) \<or> pm_hash (t (slot h i)) = h"

definition first_stop :: "path_map \<Rightarrow> u64 \<Rightarrow> nat option" where
  "first_stop t h = find (stops t h) [0..<PATH_MAP_SIZE]"

lemma put_loop_find:
  "put_loop n i h p t =
     (case find (stops t h) [i..<i + n] of
        None \<Rightarrow> t
      | Some j \<Rightarrow> t(slot h j := \<lparr>pm_hash = h, pm_path = take MAX_PATH_LEN p, pm_occupied = True\<rparr>))"
proof (induction n arbitrary: i)
  case (Suc n)
  have "[i..<i + Suc n] = i # [i + 1..<i + 1 + n]" by (simp add: upt_rec)
  then show ?case
    using Suc.IH [of "i + 1"] by (auto simp: stops_def slot_def [symmetric] Let_def)
qed simp

lemma get_loop_find:
  "get_loop n i h t =
     (case find (stops t h) [i..<i + n] of
        None \<Rightarrow> None
      | Some j \<Rightarrow> if pm_occupied (t (slot h j)) then Some (pm_path (t (slot h j))) else None)"
proof (induction n arbitrary: i)
  case (Suc n)
  have "[i..<i + Suc n] = i # [i + 1..<i + 1 + n]" by (simp add: upt_rec)
  then show ?case
    using Suc.IH [of "i + 1"] by (auto simp: stops_def slot_def [symmetric] Let_def)
qed simp

lemma first_stop_Some:
  "first_stop t h = Some i \<longleftrightarrow> i < PATH_MAP_SIZE \<and> stops t h i \<and> (\<forall>k<i. \<not> stops t h k)"
  unfolding first_stop_def by (auto simp: find_Some_iff)

lemma first_stop_None: "first_stop t h = None \<longleftrightarrow> (\<forall>i<PATH_MAP_SIZE. \<not> stops t h i)"
  unfolding first_stop_def by (auto simp: find_None_iff)

section \<open>The probing invariant\<close>

text \<open>Every entry is reached by its own probe sequence, over occupied slots of other files.\<close>

definition probing :: "path_map \<Rightarrow> bool" where
  "probing t \<longleftrightarrow> (\<forall>s<PATH_MAP_SIZE. pm_occupied (t s) \<longrightarrow>
     (\<exists>i<PATH_MAP_SIZE. slot (pm_hash (t s)) i = s \<and> (\<forall>k<i. \<not> stops t (pm_hash (t s)) k)))"

definition is_full :: "path_map \<Rightarrow> bool" where
  "is_full t \<longleftrightarrow> (\<forall>s<PATH_MAP_SIZE. pm_occupied (t s))"

lemma slot_less: "slot h i < PATH_MAP_SIZE"
  by (simp add: slot_def PATH_MAP_SIZE_def)

lemma slot_surj: "s < PATH_MAP_SIZE \<Longrightarrow> \<exists>i<PATH_MAP_SIZE. slot h i = s"
proof -
  assume s: "s < PATH_MAP_SIZE"
  have h: "home h < PATH_MAP_SIZE" by (simp add: home_def PATH_MAP_SIZE_def)
  show ?thesis
  proof (cases "home h \<le> s")
    case True
    with s show ?thesis by (intro exI [of _ "s - home h"]) (simp add: slot_def)
  next
    case False
    with s h show ?thesis by (intro exI [of _ "PATH_MAP_SIZE - home h + s"]) (simp add: slot_def)
  qed
qed

lemma get_path_Some:
  assumes "probing t"
  shows "get_path h t = Some p \<longleftrightarrow> (\<exists>s<PATH_MAP_SIZE. pm_occupied (t s) \<and> pm_hash (t s) = h \<and> pm_path (t s) = p)"
    (is "?l \<longleftrightarrow> ?r")
proof
  assume ?l
  then obtain i where "first_stop t h = Some i" "pm_occupied (t (slot h i))" "pm_path (t (slot h i)) = p"
    by (auto simp: get_path_def get_loop_find first_stop_def split: option.splits if_splits)
  then show ?r using slot_less [of h i] by (auto simp: first_stop_Some stops_def)
next
  assume ?r
  then obtain s where s: "s < PATH_MAP_SIZE" "pm_occupied (t s)" "pm_hash (t s) = h" "pm_path (t s) = p" by blast
  with assms obtain i where i: "i < PATH_MAP_SIZE" "slot h i = s" "\<forall>k<i. \<not> stops t h k"
    by (auto simp: probing_def)
  with s have "first_stop t h = Some i" by (simp add: first_stop_Some stops_def)
  with s i show ?l by (simp add: get_path_def get_loop_find first_stop_def)
qed

lemma probing_init: "probing path_map_init"
  by (simp add: probing_def path_map_init_def)

lemma put_path_cases:
  "put_path h p t =
     (case first_stop t h of
        None \<Rightarrow> t
      | Some j \<Rightarrow> t(slot h j := \<lparr>pm_hash = h, pm_path = take MAX_PATH_LEN p, pm_occupied = True\<rparr>))"
  by (simp add: put_path_def put_loop_find first_stop_def)

lemma probing_put: "probing t \<Longrightarrow> probing (put_path h p t)"
proof (cases "first_stop t h")
  case None
  assume "probing t"
  with None show ?thesis by (simp add: put_path_cases)
next
  case (Some j)
  assume t: "probing t"
  let ?s = "slot h j" let ?t = "put_path h p t"
  have j: "j < PATH_MAP_SIZE" "stops t h j" "\<forall>k<j. \<not> stops t h k" using Some by (auto simp: first_stop_Some)
  have new: "?t = t(?s := \<lparr>pm_hash = h, pm_path = take MAX_PATH_LEN p, pm_occupied = True\<rparr>)"
    by (simp add: put_path_cases Some)
  have keep: "\<not> stops ?t g k" if "\<not> stops t g k" "slot g k = ?s \<Longrightarrow> g \<noteq> h" for g k
    using that by (auto simp: stops_def new)
  show ?thesis unfolding probing_def
  proof (intro allI impI)
    fix s assume s: "s < PATH_MAP_SIZE" "pm_occupied (?t s)"
    show "\<exists>i<PATH_MAP_SIZE. slot (pm_hash (?t s)) i = s \<and> (\<forall>k<i. \<not> stops ?t (pm_hash (?t s)) k)"
    proof (cases "s = ?s")
      case True
      have "\<not> stops ?t h k" if "k < j" for k
        using j that by (intro keep) (auto simp: stops_def)
      with True j show ?thesis by (intro exI [of _ j]) (simp add: new)
    next
      case False
      then have e: "?t s = t s" by (simp add: new)
      with t s obtain i where i: "i < PATH_MAP_SIZE" "slot (pm_hash (t s)) i = s" "\<forall>k<i. \<not> stops t (pm_hash (t s)) k"
        by (auto simp: probing_def)
      have "\<not> stops ?t (pm_hash (t s)) k" if "k < i" for k
        using i that j(2) by (intro keep) (auto simp: stops_def)
      with i e show ?thesis by auto
    qed
  qed
qed

lemma entry_unique:
  assumes "probing t" "s < PATH_MAP_SIZE" "s' < PATH_MAP_SIZE" "pm_occupied (t s)" "pm_occupied (t s')"
    and "pm_hash (t s) = pm_hash (t s')"
  shows "s = s'"
proof -
  from assms obtain i where i: "slot (pm_hash (t s)) i = s" "\<forall>k<i. \<not> stops t (pm_hash (t s)) k"
    by (auto simp: probing_def)
  from assms obtain j where j: "slot (pm_hash (t s)) j = s'" "\<forall>k<j. \<not> stops t (pm_hash (t s)) k"
    unfolding probing_def by metis
  have "stops t (pm_hash (t s)) i" "stops t (pm_hash (t s)) j"
    using i(1) j(1) assms(6) by (simp_all add: stops_def)
  with i(2) j(2) have "i = j" by (metis linorder_neqE_nat)
  with i j show ?thesis by simp
qed

definition path_of :: "path_map \<Rightarrow> u64 \<rightharpoonup> string" where
  "path_of t = (\<lambda>h. get_path h t)"

lemma dom_path_of: "probing t \<Longrightarrow> dom (path_of t) = (\<lambda>s. pm_hash (t s)) ` {s. s < PATH_MAP_SIZE \<and> pm_occupied (t s)}"
  by (auto simp: path_of_def dom_def get_path_Some image_iff)

lemma full_card:
  assumes "probing t" "is_full t"
  shows "card (dom (path_of t)) = PATH_MAP_SIZE"
proof -
  have "{s. s < PATH_MAP_SIZE \<and> pm_occupied (t s)} = {..<PATH_MAP_SIZE}"
    using assms(2) by (auto simp: is_full_def)
  moreover have "inj_on (\<lambda>s. pm_hash (t s)) {..<PATH_MAP_SIZE}"
    using entry_unique [OF assms(1)] assms(2) by (auto simp: inj_on_def is_full_def)
  ultimately show ?thesis by (simp add: dom_path_of [OF assms(1)] card_image)
qed

lemma first_stop_exists:
  assumes "probing t" "h \<in> dom (path_of t) \<or> \<not> is_full t"
  shows "first_stop t h \<noteq> None"
  using assms(2)
proof
  assume "h \<in> dom (path_of t)"
  then obtain s where "s < PATH_MAP_SIZE" "pm_hash (t s) = h" using dom_path_of [OF assms(1)] by auto
  then show ?thesis using slot_surj [of s h] by (auto simp: first_stop_None stops_def)
next
  assume "\<not> is_full t"
  then obtain s where "s < PATH_MAP_SIZE" "\<not> pm_occupied (t s)" by (auto simp: is_full_def)
  then show ?thesis using slot_surj [of s h] by (auto simp: first_stop_None stops_def)
qed

lemma path_of_put:
  assumes "probing t" "h \<in> dom (path_of t) \<or> \<not> is_full t"
  shows "path_of (put_path h p t) = (path_of t)(h \<mapsto> take MAX_PATH_LEN p)"
proof (rule ext)
  fix g
  obtain j where j: "first_stop t h = Some j" using first_stop_exists [OF assms] by blast
  let ?t = "put_path h p t" let ?new = "\<lparr>pm_hash = h, pm_path = take MAX_PATH_LEN p, pm_occupied = True\<rparr>"
  have t': "?t = t(slot h j := ?new)" by (simp add: put_path_cases j)
  have st: "stops t h j" using j by (simp add: first_stop_Some)
  have eq: "path_of ?t g = Some q \<longleftrightarrow> ((path_of t)(h \<mapsto> take MAX_PATH_LEN p)) g = Some q" for q
  proof (cases "g = h")
    case True
    have "(\<exists>s<PATH_MAP_SIZE. pm_occupied (?t s) \<and> pm_hash (?t s) = h \<and> pm_path (?t s) = q) \<longleftrightarrow> q = take MAX_PATH_LEN p"
    proof
      assume "\<exists>s<PATH_MAP_SIZE. pm_occupied (?t s) \<and> pm_hash (?t s) = h \<and> pm_path (?t s) = q"
      then obtain s where s: "s < PATH_MAP_SIZE" "pm_occupied (?t s)" "pm_hash (?t s) = h" "pm_path (?t s) = q" by blast
      have "pm_occupied (?t (slot h j))" "pm_hash (?t s) = pm_hash (?t (slot h j))" using s(3) by (simp_all add: t')
      from entry_unique [OF probing_put [OF assms(1)] s(1) slot_less s(2) this] s(4)
      show "q = take MAX_PATH_LEN p" by (simp add: t')
    qed (use slot_less [of h j] in \<open>auto simp: t'\<close>)
    with True show ?thesis
      by (auto simp: path_of_def get_path_Some [OF probing_put [OF assms(1)]])
  next
    case False
    with st have pw: "(pm_occupied (?t s) \<and> pm_hash (?t s) = g \<and> pm_path (?t s) = q) =
        (pm_occupied (t s) \<and> pm_hash (t s) = g \<and> pm_path (t s) = q)" for s
      unfolding t' by (cases "s = slot h j") (auto simp: stops_def)
    have "get_path g ?t = Some q \<longleftrightarrow> get_path g t = Some q"
      unfolding get_path_Some [OF assms(1)] get_path_Some [OF probing_put [OF assms(1)]] pw ..
    with False show ?thesis by (simp add: path_of_def)
  qed
  show "path_of ?t g = ((path_of t)(h \<mapsto> take MAX_PATH_LEN p)) g"
    using eq by (metis not_Some_eq)
qed

section \<open>The interface of a path store\<close>

text \<open>
  What the rest of the program relies on: the store behaves as a map until \<open>cap\<close> different files
  are in it. The client's lemma: a sequence of discoveries of at most \<open>cap\<close> files loses nothing.
\<close>

locale path_store =
  fixes inv :: "'t \<Rightarrow> bool" and empty :: 't and lookup :: "'t \<Rightarrow> u64 \<rightharpoonup> string"
    and put :: "u64 \<Rightarrow> string \<Rightarrow> 't \<Rightarrow> 't" and clip :: "string \<Rightarrow> string" and cap :: nat
  assumes inv_empty: "inv empty" and lookup_empty: "lookup empty = Map.empty"
    and inv_put: "inv t \<Longrightarrow> inv (put h p t)"
    and lookup_put: "inv t \<Longrightarrow> h \<in> dom (lookup t) \<or> card (dom (lookup t)) < cap \<Longrightarrow>
      lookup (put h p t) = (lookup t)(h \<mapsto> clip p)"
begin

lemma run_lookup:
  assumes "inv t" "finite (dom (lookup t))" "card (dom (lookup t) \<union> fst ` set xs) \<le> cap"
  shows "lookup (fold (\<lambda>(h, p). put h p) xs t) = lookup t ++ map_of (rev (map (\<lambda>(h, p). (h, clip p)) xs))"
  using assms
proof (induction xs arbitrary: t)
  case Nil
  then show ?case by simp
next
  case (Cons x xs)
  obtain h p where x: "x = (h, p)" by (cases x)
  have "h \<in> dom (lookup t) \<or> card (dom (lookup t)) < cap"
  proof (rule disjCI)
    assume "\<not> card (dom (lookup t)) < cap"
    then have "dom (lookup t) = dom (lookup t) \<union> fst ` set (x # xs)"
      using Cons.prems(2,3) by (intro card_seteq) auto
    then show "h \<in> dom (lookup t)" using x by auto
  qed
  then have l: "lookup (put h p t) = (lookup t)(h \<mapsto> clip p)" by (rule lookup_put [OF Cons.prems(1)])
  have "dom (lookup (put h p t)) \<union> fst ` set xs = dom (lookup t) \<union> fst ` set (x # xs)"
    using x by (auto simp: l)
  with Cons.prems(3) have c: "card (dom (lookup (put h p t)) \<union> fst ` set xs) \<le> cap" by (simp only:)
  have f: "finite (dom (lookup (put h p t)))" using Cons.prems(2) l by simp
  have "lookup (fold (\<lambda>(h, p). put h p) xs (put h p t)) =
      lookup (put h p t) ++ map_of (rev (map (\<lambda>(h, p). (h, clip p)) xs))"
    by (rule Cons.IH [OF inv_put [OF Cons.prems(1)] f c])
  then show ?case by (simp add: x l map_add_def fun_eq_iff split: option.splits)
qed

lemma discoveries:
  assumes "card (fst ` set xs) \<le> cap"
  shows "lookup (fold (\<lambda>(h, p). put h p) xs empty) = map_of (rev (map (\<lambda>(h, p). (h, clip p)) xs))"
  using run_lookup [OF inv_empty, of xs] assms by (simp add: lookup_empty)

end

interpretation paths: path_store probing path_map_init path_of put_path "take MAX_PATH_LEN" PATH_MAP_SIZE
proof unfold_locales
  show "path_of path_map_init = Map.empty"
    using get_path_Some [OF probing_init] by (auto simp: path_of_def path_map_init_def fun_eq_iff intro: option.exhaust)
  fix t h p
  assume t: "probing t" and r: "h \<in> dom (path_of t) \<or> card (dom (path_of t)) < PATH_MAP_SIZE"
  then have "h \<in> dom (path_of t) \<or> \<not> is_full t" using full_card [OF t] by auto
  with t show "path_of (put_path h p t) = (path_of t)(h \<mapsto> take MAX_PATH_LEN p)" by (rule path_of_put)
qed (simp_all add: probing_init probing_put)

end
