(* ===== verification/Kdarshan_User.thy ===== *)
theory Kdarshan_User
  imports Path_Table
begin

text \<open>
  The user-space half of kdarshan, \<^verbatim>\<open>src/kdarshan.c\<close>: configuration, mounts and excluded paths, the
  handlers of the two ring buffers, and the report. Lines of the report are kept as tuples of the
  values that are printed; text formatting is not modelled. Times stay in nanoseconds.
\<close>

section \<open>Counter names\<close>

definition posix_indices :: "posix_index list" where
  "posix_indices = [
    POSIX_OPENS, POSIX_FILENOS, POSIX_DUPS, POSIX_READS, POSIX_WRITES, POSIX_SEEKS, POSIX_STATS,
    POSIX_MMAPS, POSIX_FSYNCS, POSIX_FDSYNCS, POSIX_RENAME_SOURCES, POSIX_RENAME_TARGETS,
    POSIX_RENAMED_FROM, POSIX_MODE, POSIX_BYTES_READ, POSIX_BYTES_WRITTEN, POSIX_MAX_BYTE_READ,
    POSIX_MAX_BYTE_WRITTEN, POSIX_CONSEC_READS, POSIX_CONSEC_WRITES, POSIX_SEQ_READS,
    POSIX_SEQ_WRITES, POSIX_RW_SWITCHES, POSIX_MEM_NOT_ALIGNED, POSIX_MEM_ALIGNMENT,
    POSIX_FILE_NOT_ALIGNED, POSIX_FILE_ALIGNMENT, POSIX_MAX_READ_TIME_SIZE,
    POSIX_MAX_WRITE_TIME_SIZE, POSIX_SIZE_READ_0_100, POSIX_SIZE_READ_100_1K,
    POSIX_SIZE_READ_1K_10K, POSIX_SIZE_READ_10K_100K, POSIX_SIZE_READ_100K_1M,
    POSIX_SIZE_READ_1M_4M, POSIX_SIZE_READ_4M_10M, POSIX_SIZE_READ_10M_100M,
    POSIX_SIZE_READ_100M_1G, POSIX_SIZE_READ_1G_PLUS, POSIX_SIZE_WRITE_0_100,
    POSIX_SIZE_WRITE_100_1K, POSIX_SIZE_WRITE_1K_10K, POSIX_SIZE_WRITE_10K_100K,
    POSIX_SIZE_WRITE_100K_1M, POSIX_SIZE_WRITE_1M_4M, POSIX_SIZE_WRITE_4M_10M,
    POSIX_SIZE_WRITE_10M_100M, POSIX_SIZE_WRITE_100M_1G, POSIX_SIZE_WRITE_1G_PLUS,
    POSIX_STRIDE1_STRIDE, POSIX_STRIDE2_STRIDE, POSIX_STRIDE3_STRIDE, POSIX_STRIDE4_STRIDE,
    POSIX_STRIDE1_COUNT, POSIX_STRIDE2_COUNT, POSIX_STRIDE3_COUNT, POSIX_STRIDE4_COUNT,
    POSIX_ACCESS1_ACCESS, POSIX_ACCESS2_ACCESS, POSIX_ACCESS3_ACCESS, POSIX_ACCESS4_ACCESS,
    POSIX_ACCESS1_COUNT, POSIX_ACCESS2_COUNT, POSIX_ACCESS3_COUNT, POSIX_ACCESS4_COUNT,
    POSIX_FASTEST_RANK, POSIX_FASTEST_RANK_BYTES, POSIX_SLOWEST_RANK, POSIX_SLOWEST_RANK_BYTES]"

definition posix_f_indices :: "posix_f_index list" where
  "posix_f_indices = [
    POSIX_F_OPEN_START_TIMESTAMP, POSIX_F_READ_START_TIMESTAMP, POSIX_F_WRITE_START_TIMESTAMP,
    POSIX_F_CLOSE_START_TIMESTAMP, POSIX_F_OPEN_END_TIMESTAMP, POSIX_F_READ_END_TIMESTAMP,
    POSIX_F_WRITE_END_TIMESTAMP, POSIX_F_CLOSE_END_TIMESTAMP, POSIX_F_READ_TIME,
    POSIX_F_WRITE_TIME, POSIX_F_META_TIME, POSIX_F_MAX_READ_TIME, POSIX_F_MAX_WRITE_TIME,
    POSIX_F_FASTEST_RANK_TIME, POSIX_F_SLOWEST_RANK_TIME, POSIX_F_VARIANCE_RANK_TIME,
    POSIX_F_VARIANCE_RANK_BYTES]"

definition posix_counter_names :: "string list" where
  "posix_counter_names = [
    ''POSIX_OPENS'', ''POSIX_FILENOS'', ''POSIX_DUPS'', ''POSIX_READS'', ''POSIX_WRITES'',
    ''POSIX_SEEKS'', ''POSIX_STATS'', ''POSIX_MMAPS'', ''POSIX_FSYNCS'', ''POSIX_FDSYNCS'',
    ''POSIX_RENAME_SOURCES'', ''POSIX_RENAME_TARGETS'', ''POSIX_RENAMED_FROM'', ''POSIX_MODE'',
    ''POSIX_BYTES_READ'', ''POSIX_BYTES_WRITTEN'', ''POSIX_MAX_BYTE_READ'',
    ''POSIX_MAX_BYTE_WRITTEN'', ''POSIX_CONSEC_READS'', ''POSIX_CONSEC_WRITES'',
    ''POSIX_SEQ_READS'', ''POSIX_SEQ_WRITES'', ''POSIX_RW_SWITCHES'', ''POSIX_MEM_NOT_ALIGNED'',
    ''POSIX_MEM_ALIGNMENT'', ''POSIX_FILE_NOT_ALIGNED'', ''POSIX_FILE_ALIGNMENT'',
    ''POSIX_MAX_READ_TIME_SIZE'', ''POSIX_MAX_WRITE_TIME_SIZE'', ''POSIX_SIZE_READ_0_100'',
    ''POSIX_SIZE_READ_100_1K'', ''POSIX_SIZE_READ_1K_10K'', ''POSIX_SIZE_READ_10K_100K'',
    ''POSIX_SIZE_READ_100K_1M'', ''POSIX_SIZE_READ_1M_4M'', ''POSIX_SIZE_READ_4M_10M'',
    ''POSIX_SIZE_READ_10M_100M'', ''POSIX_SIZE_READ_100M_1G'', ''POSIX_SIZE_READ_1G_PLUS'',
    ''POSIX_SIZE_WRITE_0_100'', ''POSIX_SIZE_WRITE_100_1K'', ''POSIX_SIZE_WRITE_1K_10K'',
    ''POSIX_SIZE_WRITE_10K_100K'', ''POSIX_SIZE_WRITE_100K_1M'', ''POSIX_SIZE_WRITE_1M_4M'',
    ''POSIX_SIZE_WRITE_4M_10M'', ''POSIX_SIZE_WRITE_10M_100M'', ''POSIX_SIZE_WRITE_100M_1G'',
    ''POSIX_SIZE_WRITE_1G_PLUS'', ''POSIX_STRIDE1_STRIDE'', ''POSIX_STRIDE2_STRIDE'',
    ''POSIX_STRIDE3_STRIDE'', ''POSIX_STRIDE4_STRIDE'', ''POSIX_STRIDE1_COUNT'',
    ''POSIX_STRIDE2_COUNT'', ''POSIX_STRIDE3_COUNT'', ''POSIX_STRIDE4_COUNT'',
    ''POSIX_ACCESS1_ACCESS'', ''POSIX_ACCESS2_ACCESS'', ''POSIX_ACCESS3_ACCESS'',
    ''POSIX_ACCESS4_ACCESS'', ''POSIX_ACCESS1_COUNT'', ''POSIX_ACCESS2_COUNT'',
    ''POSIX_ACCESS3_COUNT'', ''POSIX_ACCESS4_COUNT'', ''POSIX_FASTEST_RANK'',
    ''POSIX_FASTEST_RANK_BYTES'', ''POSIX_SLOWEST_RANK'', ''POSIX_SLOWEST_RANK_BYTES'']"

definition posix_f_counter_names :: "string list" where
  "posix_f_counter_names = [
    ''POSIX_F_OPEN_START_TIMESTAMP'', ''POSIX_F_READ_START_TIMESTAMP'',
    ''POSIX_F_WRITE_START_TIMESTAMP'', ''POSIX_F_CLOSE_START_TIMESTAMP'',
    ''POSIX_F_OPEN_END_TIMESTAMP'', ''POSIX_F_READ_END_TIMESTAMP'',
    ''POSIX_F_WRITE_END_TIMESTAMP'', ''POSIX_F_CLOSE_END_TIMESTAMP'', ''POSIX_F_READ_TIME'',
    ''POSIX_F_WRITE_TIME'', ''POSIX_F_META_TIME'', ''POSIX_F_MAX_READ_TIME'',
    ''POSIX_F_MAX_WRITE_TIME'', ''POSIX_F_FASTEST_RANK_TIME'', ''POSIX_F_SLOWEST_RANK_TIME'',
    ''POSIX_F_VARIANCE_RANK_TIME'', ''POSIX_F_VARIANCE_RANK_BYTES'']"

section \<open>Excluded paths, mounts, configuration\<close>

text \<open>\<open>strncmp(path, e, strlen(e)) == 0\<close>.\<close>

definition starts_with :: "string \<Rightarrow> string \<Rightarrow> bool" where
  "starts_with path e \<longleftrightarrow> take (length e) path = e"

definition default_excludes :: "string list" where
  "default_excludes = [''/etc/'', ''/dev/'', ''/usr/'', ''/bin/'', ''/boot/'', ''/lib/'', ''/opt/'', ''/sbin/'',
     ''/sys/'', ''/proc/'', ''/var/'']"

definition is_path_excluded :: "string list \<Rightarrow> string option \<Rightarrow> bool" where
  "is_path_excluded excludes path =
     (case path of None \<Rightarrow> False | Some p \<Rightarrow> list_ex (starts_with p) excludes)"

record mount_info =
  mnt_dir :: string
  mnt_type :: string

definition MAX_MOUNTS :: nat where "MAX_MOUNTS = 512"

definition load_mounts :: "(string \<times> string) list \<Rightarrow> mount_info list" where
  "load_mounts entries = map (\<lambda>(d, t). \<lparr>mnt_dir = take 255 d, mnt_type = take 63 t\<rparr>) (take MAX_MOUNTS entries)"

definition mount_matches :: "string \<Rightarrow> mount_info \<Rightarrow> bool" where
  "mount_matches path m =
     (let len = length (mnt_dir m)
      in starts_with path (mnt_dir m) \<and> (len = 1 \<or> len = length path \<or> path ! len = CHR ''/''))"

fun find_mount_loop :: "mount_info list \<Rightarrow> string \<Rightarrow> nat \<Rightarrow> mount_info option \<Rightarrow> mount_info option" where
  "find_mount_loop [] path best_len best = best"
| "find_mount_loop (m # ms) path best_len best =
     (if mount_matches path m \<and> length (mnt_dir m) > best_len
      then find_mount_loop ms path (length (mnt_dir m)) (Some m)
      else find_mount_loop ms path best_len best)"

definition find_mount :: "mount_info list \<Rightarrow> string \<Rightarrow> string \<times> string" where
  "find_mount mounts path =
     (case find_mount_loop mounts path 0 None of
        Some m \<Rightarrow> (take 255 (mnt_dir m), take 63 (mnt_type m))
      | None \<Rightarrow> (''/'', ''ext4''))"

record kd_user =
  ku_paths :: path_map
  ku_excludes :: "string list"
  ku_excludes_cleared :: bool
  ku_output_mode :: string
  ku_dxt_enabled :: bool
  ku_dxt :: "dxt_event list"

definition MAX_EXCLUDE_PATHS :: nat where "MAX_EXCLUDE_PATHS = 64"

definition kd_user_init :: kd_user where
  "kd_user_init = \<lparr>ku_paths = path_map_init, ku_excludes = default_excludes, ku_excludes_cleared = False,
     ku_output_mode = ''performance'', ku_dxt_enabled = False, ku_dxt = []\<rparr>"

definition is_blank :: "char \<Rightarrow> bool" where
  "is_blank c \<longleftrightarrow> c \<in> {CHR '' '', CHR 0x09, CHR 0x0D, CHR 0x0A}"

text \<open>\<open>strtok(s, " \\t\\r\\n")\<close>: the next token and the rest of the line behind the separator.\<close>

definition strtok :: "string \<Rightarrow> (string \<times> string) option" where
  "strtok s =
     (let s = dropWhile is_blank s
      in if s = [] then None
         else Some (takeWhile (\<lambda>c. \<not> is_blank c) s, tl (dropWhile (\<lambda>c. \<not> is_blank c) s)))"

fun has_infix :: "string \<Rightarrow> string \<Rightarrow> bool" where
  "has_infix [] w = (w = [])"
| "has_infix (c # cs) w = (starts_with (c # cs) w \<or> has_infix cs w)"

definition config_entry :: "string \<Rightarrow> string \<Rightarrow> kd_user \<Rightarrow> kd_user" where
  "config_entry key val u =
     (if key = ''MOD_ENABLE''
      then if has_infix val ''DXT_POSIX'' \<or> has_infix val ''dxt_posix'' \<or> has_infix val ''DXT'' \<or> has_infix val ''dxt''
           then u\<lparr>ku_dxt_enabled := True\<rparr> else u
      else if key = ''OUTPUT_MODE'' then u\<lparr>ku_output_mode := take 31 val\<rparr>
      else if key = ''EXCLUDE_PATH''
      then let u = (if \<not> ku_excludes_cleared u then u\<lparr>ku_excludes := [], ku_excludes_cleared := True\<rparr> else u)
           in if val = ''none'' then u\<lparr>ku_excludes := []\<rparr>
              else if length (ku_excludes u) < MAX_EXCLUDE_PATHS
                   then u\<lparr>ku_excludes := ku_excludes u @ [take 127 val]\<rparr> else u
      else u)"

definition config_line :: "string \<Rightarrow> kd_user \<Rightarrow> kd_user" where
  "config_line line u =
     (let ptr = dropWhile is_blank line
      in if ptr = [] \<or> hd ptr = CHR ''#'' then u
         else case strtok ptr of
                None \<Rightarrow> u
              | Some (key, rest) \<Rightarrow> (case strtok rest of None \<Rightarrow> u | Some (val, _) \<Rightarrow> config_entry key val u))"

text \<open>The lines of the file named by the environment, and the output mode of the environment.\<close>

definition load_config :: "string list option \<Rightarrow> string option \<Rightarrow> kd_user \<Rightarrow> kd_user" where
  "load_config file env_mode u =
     (let u = (case file of None \<Rightarrow> u | Some lines \<Rightarrow> fold config_line lines u)
      in case env_mode of None \<Rightarrow> u | Some v \<Rightarrow> u\<lparr>ku_output_mode := take 31 v\<rparr>)"

section \<open>Ring buffer handlers\<close>

text \<open>\<open>cwd pid\<close> is what \<open>readlink("/proc/<pid>/cwd")\<close> returns, \<open>None\<close> when it returns nothing.\<close>

definition resolve_path :: "(u32 \<Rightarrow> string option) \<Rightarrow> path_event \<Rightarrow> string" where
  "resolve_path cwd e =
     (if pe_path e \<noteq> [] \<and> hd (pe_path e) = CHR ''/'' then take (MAX_PATH_LEN - 1) (pe_path e)
      else case cwd (pe_pid e) of
             Some d \<Rightarrow> take (MAX_PATH_LEN - 1) (take (MAX_PATH_LEN - 1) d @ ''/'' @ pe_path e)
           | None \<Rightarrow> take (MAX_PATH_LEN - 1) (pe_path e))"

text \<open>
  The lines of the two handlers: file, identity, process and command of a discovery; process,
  direction, file, offset, length and times of a transfer. Each handler returns what it prints on
  standard output (only in the mode \<^verbatim>\<open>security\<close>); the first one also what it prints on standard error.
\<close>

type_synonym discovery_line = "string \<times> u64 \<times> u32 \<times> string"

definition handle_path_event ::
  "(u32 \<Rightarrow> string option) \<Rightarrow> path_event \<Rightarrow> kd_user \<Rightarrow> kd_user \<times> discovery_line list \<times> discovery_line list" where
  "handle_path_event cwd e u =
     (let resolved = resolve_path cwd e;
          u = u\<lparr>ku_paths := put_path (pe_path_hash e) resolved (ku_paths u)\<rparr>;
          line = (resolved, pe_path_hash e, pe_pid e, pe_comm e)
      in if is_path_excluded (ku_excludes u) (Some resolved) then (u, [], [])
         else (u, if ku_output_mode u = ''security'' then [line] else [], [line]))"

text \<open>
  Times since the start: the difference is taken in \<open>unsigned long long\<close> before it becomes a
  \<open>double\<close>, so the test for a negative start never holds; the end is raised to the start when it
  is smaller.
\<close>

definition event_times :: "u64 \<Rightarrow> dxt_event \<Rightarrow> u64 \<times> u64" where
  "event_times start0 e =
     (let start = dx_start_ns e - start0; stop = dx_end_ns e - start0
      in (start, if stop < start then start else stop))"

type_synonym transfer_line = "u32 \<times> bool \<times> string \<times> s64 \<times> s64 \<times> u64 \<times> u64"

definition handle_dxt_event :: "bool \<Rightarrow> u64 \<Rightarrow> dxt_event \<Rightarrow> kd_user \<Rightarrow> kd_user \<times> transfer_line list" where
  "handle_dxt_event malloc_ok start0 e u =
     (let filename = get_path (dx_path_hash e) (ku_paths u)
      in if is_path_excluded (ku_excludes u) filename then (u, [])
         else let (start, stop) = event_times start0 e;
                  name = (case filename of None \<Rightarrow> ''UNKNOWN'' | Some p \<Rightarrow> p);
                  out = (if ku_output_mode u = ''security''
                         then [(dx_pid e, dx_write_flag e \<noteq> 0, name, dx_offset e, dx_length e, start, stop)] else [])
              in (if \<not> malloc_ok then u else u\<lparr>ku_dxt := ku_dxt u @ [e]\<rparr>, out))"

section \<open>The report\<close>

definition report_name :: "kd_user \<Rightarrow> u64 \<Rightarrow> string" where
  "report_name u h = (case get_path h (ku_paths u) of None \<Rightarrow> ''UNKNOWN'' | Some p \<Rightarrow> p)"

text \<open>One line per counter: record, name, value, file name, mount point, file system.\<close>

type_synonym counter_line = "u64 \<times> string \<times> u64 \<times> string \<times> string \<times> string"

definition posix_report_entry :: "kd_user \<Rightarrow> mount_info list \<Rightarrow> kdarshan_file_stats \<Rightarrow> counter_line list" where
  "posix_report_entry u mounts st =
     (let filename = report_name u (st_path_hash st); (mp, fs) = find_mount mounts filename
      in if is_path_excluded (ku_excludes u) (Some filename) then []
         else map (\<lambda>(i, name). (st_path_hash st, name, counters st i, filename, mp, fs))
                (zip posix_indices posix_counter_names) @
              map (\<lambda>(i, name). (st_path_hash st, name, fcounters st i, filename, mp, fs))
                (zip posix_f_indices posix_f_counter_names))"

definition posix_report :: "kd_user \<Rightarrow> mount_info list \<Rightarrow> kdarshan_file_stats list \<Rightarrow> counter_line list" where
  "posix_report u mounts entries = concat (map (posix_report_entry u mounts) entries)"

record dxt_section =
  ds_file_id :: u64
  ds_file_name :: string
  ds_write_count :: nat
  ds_read_count :: nat
  ds_mount :: "string \<times> string"
  ds_ost :: int
  ds_segments :: "(bool \<times> nat \<times> s64 \<times> s64 \<times> u64 \<times> u64) list" \<comment> \<open>write, segment, offset, length, start, end\<close>

text \<open>The two walks over the list of buffered events.\<close>

fun dxt_counts :: "u64 \<Rightarrow> dxt_event list \<Rightarrow> nat \<Rightarrow> nat \<Rightarrow> nat \<times> nat" where
  "dxt_counts h [] w r = (w, r)"
| "dxt_counts h (e # es) w r =
     (if dx_path_hash e = h
      then if dx_write_flag e \<noteq> 0 then dxt_counts h es (w + 1) r else dxt_counts h es w (r + 1)
      else dxt_counts h es w r)"

fun dxt_segments :: "u64 \<Rightarrow> u64 \<Rightarrow> nat \<Rightarrow> dxt_event list \<Rightarrow> (bool \<times> nat \<times> s64 \<times> s64 \<times> u64 \<times> u64) list" where
  "dxt_segments start0 h segment [] = []"
| "dxt_segments start0 h segment (e # es) =
     (if dx_path_hash e = h
      then (case event_times start0 e of (a, b) \<Rightarrow>
              (dx_write_flag e \<noteq> 0, segment, dx_offset e, dx_length e, a, b) # dxt_segments start0 h (segment + 1) es)
      else dxt_segments start0 h segment es)"

definition dxt_report_entry :: "kd_user \<Rightarrow> u64 \<Rightarrow> mount_info list \<Rightarrow> kdarshan_file_stats \<Rightarrow> dxt_section list" where
  "dxt_report_entry u start0 mounts st =
     (let h = st_path_hash st; filename = report_name u h; (w, r) = dxt_counts h (ku_dxt u) 0 0
      in if is_path_excluded (ku_excludes u) (Some filename) then []
         else if w > 0 \<or> r > 0
         then [\<lparr>ds_file_id = h, ds_file_name = filename, ds_write_count = w, ds_read_count = r,
                ds_mount = find_mount mounts filename,
                ds_ost = (if snd (find_mount mounts filename) = ''lustre'' then 247 else - 1),
                ds_segments = dxt_segments start0 h 0 (ku_dxt u)\<rparr>]
         else [])"

definition dxt_report :: "kd_user \<Rightarrow> u64 \<Rightarrow> mount_info list \<Rightarrow> kdarshan_file_stats list \<Rightarrow> dxt_section list" where
  "dxt_report u start0 mounts entries =
     (if ku_dxt_enabled u then concat (map (dxt_report_entry u start0 mounts) entries) else [])"

section \<open>Mounts\<close>

lemma find_mount_loop_None:
  "find_mount_loop ms path n best = None \<longleftrightarrow>
     best = None \<and> (\<forall>m\<in>set ms. mount_matches path m \<longrightarrow> length (mnt_dir m) \<le> n)"
proof (induction ms arbitrary: n best)
  case (Cons m ms)
  then show ?case by (cases "mount_matches path m \<and> n < length (mnt_dir m)") auto
qed simp

lemma find_mount_loop_Some:
  assumes "find_mount_loop ms path n best = Some m"
  shows "(\<forall>m'\<in>set ms. mount_matches path m' \<longrightarrow> length (mnt_dir m') \<le> n) \<and> best = Some m \<or>
    m \<in> set ms \<and> mount_matches path m \<and> n < length (mnt_dir m) \<and>
    (\<forall>m'\<in>set ms. mount_matches path m' \<longrightarrow> length (mnt_dir m') \<le> length (mnt_dir m))"
  using assms
proof (induction ms arbitrary: n best)
  case (Cons x xs)
  show ?case
  proof (cases "mount_matches path x \<and> n < length (mnt_dir x)")
    case True
    with Cons.IH [of "length (mnt_dir x)" "Some x"] Cons.prems show ?thesis by auto
  next
    case False
    with Cons.IH [of n best] Cons.prems show ?thesis by auto
  qed
qed simp

text \<open>The test on the character behind the mount point: the path is the mount point or below it.\<close>

lemma mount_matches_below:
  "mount_matches path m \<longleftrightarrow>
     path = mnt_dir m \<or> (\<exists>rest. path = mnt_dir m @ rest \<and> length (mnt_dir m) = 1) \<or>
     (\<exists>rest. path = mnt_dir m @ ''/'' @ rest)"
  (is "_ \<longleftrightarrow> ?r")
proof
  assume l: "mount_matches path m"
  then have p: "path = mnt_dir m @ drop (length (mnt_dir m)) path"
    by (metis append_take_drop_id mount_matches_def starts_with_def)
  show ?r
  proof (cases "length (mnt_dir m) < length path")
    case True
    then have "drop (length (mnt_dir m)) path = path ! length (mnt_dir m) # drop (Suc (length (mnt_dir m))) path"
      by (rule Cons_nth_drop_Suc [symmetric])
    with l p True show ?thesis unfolding mount_matches_def Let_def
      by (metis append_Cons append_Nil less_not_refl)
  next
    case False
    with p show ?thesis by simp
  qed
qed (auto simp: mount_matches_def starts_with_def Let_def nth_append)

section \<open>The transfer report\<close>

lemma dxt_counts_filter:
  "dxt_counts h es w r =
     (w + length (filter (\<lambda>e. dx_write_flag e \<noteq> 0) (filter (\<lambda>e. dx_path_hash e = h) es)),
      r + length (filter (\<lambda>e. dx_write_flag e = 0) (filter (\<lambda>e. dx_path_hash e = h) es)))"
  by (induction es arbitrary: w r) auto

definition segment_line :: "u64 \<Rightarrow> nat \<times> dxt_event \<Rightarrow> bool \<times> nat \<times> s64 \<times> s64 \<times> u64 \<times> u64" where
  "segment_line start0 ne = (case ne of (i, e) \<Rightarrow> (dx_write_flag e \<noteq> 0, i, dx_offset e, dx_length e, event_times start0 e))"

lemma dxt_segments_enumerate:
  "dxt_segments start0 h i es = map (segment_line start0) (enumerate i (filter (\<lambda>e. dx_path_hash e = h) es))"
proof (induction es arbitrary: i)
  case (Cons e es)
  then show ?case by (cases "event_times start0 e") (simp add: segment_line_def)
qed simp

lemma transfer_section_eq:
  "dxt_report_entry u start0 mounts st =
     (let h = st_path_hash st; name = report_name u h; es = filter (\<lambda>e. dx_path_hash e = h) (ku_dxt u)
      in if is_path_excluded (ku_excludes u) (Some name) \<or> es = [] then []
         else [\<lparr>ds_file_id = h, ds_file_name = name,
                ds_write_count = length (filter (\<lambda>e. dx_write_flag e \<noteq> 0) es),
                ds_read_count = length (filter (\<lambda>e. dx_write_flag e = 0) es),
                ds_mount = find_mount mounts name,
                ds_ost = (if snd (find_mount mounts name) = ''lustre'' then 247 else - 1),
                ds_segments = map (segment_line start0) (enumerate 0 es)\<rparr>])"
proof -
  have "0 < length (filter P es) \<or> 0 < length (filter (\<lambda>x. \<not> P x) es) \<longleftrightarrow> es \<noteq> []" for P :: "dxt_event \<Rightarrow> bool" and es
    by (cases es) auto
  from this [of "\<lambda>e. dx_write_flag e \<noteq> 0" "filter (\<lambda>e. dx_path_hash e = st_path_hash st) (ku_dxt u)"]
  show ?thesis by (auto simp: dxt_report_entry_def dxt_counts_filter dxt_segments_enumerate Let_def)
qed

section \<open>Configuration lines\<close>

lemma is_blank_word [simp]:
  "takeWhile (\<lambda>c. \<not> is_blank c) (v @ c # rest) = v" "dropWhile (\<lambda>c. \<not> is_blank c) (v @ c # rest) = c # rest"
  if "list_all (\<lambda>c. \<not> is_blank c) v" "is_blank c"
  using that by (induction v) auto

lemma blank_chars [simp]: "is_blank CHR '' ''" "is_blank CHR 0x0A" by (simp_all add: is_blank_def)

definition config_word :: "string \<Rightarrow> bool" where
  "config_word v \<longleftrightarrow> v \<noteq> [] \<and> list_all (\<lambda>c. \<not> is_blank c) v"

lemma strtok_word:
  assumes "config_word v" "is_blank c"
  shows "strtok (v @ c # rest) = Some (v, rest)"
proof -
  obtain a w where v: "v = a # w" using assms(1) by (cases v) (auto simp: config_word_def)
  with assms have "dropWhile is_blank (v @ c # rest) = v @ c # rest" by (simp add: config_word_def)
  moreover have "list_all (\<lambda>c. \<not> is_blank c) v" using assms(1) by (simp add: config_word_def)
  ultimately show ?thesis using v assms(2) by (simp add: strtok_def Let_def)
qed

lemma config_line_entry:
  assumes "config_word key" "hd key \<noteq> CHR ''#''" "config_word val"
  shows "config_line (key @ '' '' @ val @ [CHR 0x0A]) u = config_entry key val u"
proof -
  obtain a w where k: "key = a # w" using assms(1) by (cases key) (auto simp: config_word_def)
  with assms(1) have a: "\<not> is_blank a" by (simp add: config_word_def)
  show ?thesis
    using k assms(2) strtok_word [OF assms(1), of "CHR '' ''" "val @ [CHR 0x0A]"]
      strtok_word [OF assms(3), of "CHR 0x0A" "[]"]
    by (simp add: config_line_def a Let_def)
qed

definition last_excludes :: "string list \<Rightarrow> string list" where
  "last_excludes vs = rev (takeWhile (\<lambda>v. v \<noteq> ''none'') (rev vs))"

lemma last_excludes_snoc: "last_excludes (vs @ [v]) = (if v = ''none'' then [] else last_excludes vs @ [v])"
  by (simp add: last_excludes_def)

lemma exclude_entries:
  "fold (config_entry ''EXCLUDE_PATH'') vs (u\<lparr>ku_excludes_cleared := True, ku_excludes := []\<rparr>) =
     u\<lparr>ku_excludes_cleared := True, ku_excludes := map (take 127) (take MAX_EXCLUDE_PATHS (last_excludes vs))\<rparr>"
proof (induction vs rule: rev_induct)
  case (snoc v vs)
  then show ?case by (auto simp: config_entry_def last_excludes_snoc Let_def)
qed (simp add: last_excludes_def)

lemma exclude_first:
  "config_entry ''EXCLUDE_PATH'' v kd_user_init =
     config_entry ''EXCLUDE_PATH'' v (kd_user_init\<lparr>ku_excludes_cleared := True, ku_excludes := []\<rparr>)"
  by (simp add: config_entry_def kd_user_init_def)

lemma exclude_lines:
  assumes "list_all config_word vs"
  shows "fold config_line (map (\<lambda>v. ''EXCLUDE_PATH '' @ v @ [CHR 0x0A]) vs) u = fold (config_entry ''EXCLUDE_PATH'') vs u"
  using assms
proof (induction vs arbitrary: u)
  case (Cons v vs)
  have "config_word ''EXCLUDE_PATH''" by (simp add: config_word_def is_blank_def)
  with Cons show ?case using config_line_entry [of "''EXCLUDE_PATH''" v u] by simp
qed simp

lemma exclude_run:
  "vs \<noteq> [] \<Longrightarrow> ku_excludes (fold (config_entry ''EXCLUDE_PATH'') vs kd_user_init) =
     map (take 127) (take MAX_EXCLUDE_PATHS (last_excludes vs))"
proof (cases vs)
  case (Cons v ws)
  then have "fold (config_entry ''EXCLUDE_PATH'') vs kd_user_init =
      fold (config_entry ''EXCLUDE_PATH'') vs (kd_user_init\<lparr>ku_excludes_cleared := True, ku_excludes := []\<rparr>)"
    by (simp add: exclude_first)
  then show ?thesis by (simp add: exclude_entries)
qed simp

section \<open>Discovered paths\<close>

definition discovered :: "(u32 \<Rightarrow> string option) \<Rightarrow> path_event list \<Rightarrow> kd_user \<Rightarrow> kd_user" where
  "discovered cwd es u = fold (\<lambda>e u. fst (handle_path_event cwd e u)) es u"

lemma handle_path_event_paths:
  "fst (handle_path_event cwd e u) = u\<lparr>ku_paths := put_path (pe_path_hash e) (resolve_path cwd e) (ku_paths u)\<rparr>"
  by (simp add: handle_path_event_def Let_def)

lemma discovered_paths:
  "ku_paths (discovered cwd es u) = fold (\<lambda>(h, p). put_path h p) (map (\<lambda>e. (pe_path_hash e, resolve_path cwd e)) es) (ku_paths u)"
  unfolding discovered_def by (induction es arbitrary: u) (simp_all add: handle_path_event_paths)

lemma resolve_path_short: "length (resolve_path cwd e) < MAX_PATH_LEN"
  by (auto simp: resolve_path_def MAX_PATH_LEN_def split: option.splits)

section \<open>Properties\<close>

text \<open>
  (C21) As long as at most 1024 different files have been discovered, every file of the report has
  the path of its latest discovery, and a file that was never discovered is \<^verbatim>\<open>UNKNOWN\<close>.
\<close>

theorem discovered_names:
  assumes "card (pe_path_hash ` set es) \<le> PATH_MAP_SIZE"
  shows "report_name (discovered cwd es kd_user_init) h =
    (case map_of (rev (map (\<lambda>e. (pe_path_hash e, resolve_path cwd e)) es)) h of None \<Rightarrow> ''UNKNOWN'' | Some p \<Rightarrow> p)"
proof -
  let ?xs = "map (\<lambda>e. (pe_path_hash e, resolve_path cwd e)) es"
  have "fst ` set ?xs = pe_path_hash ` set es" by (simp add: image_image)
  with assms have "card (fst ` set ?xs) \<le> PATH_MAP_SIZE" by (simp only:)
  from paths.discoveries [OF this]
  have "path_of (ku_paths (discovered cwd es kd_user_init)) = map_of (rev (map (\<lambda>(h, p). (h, take MAX_PATH_LEN p)) ?xs))"
    by (simp only: discovered_paths) (simp add: kd_user_init_def)
  also have "map (\<lambda>(h, p). (h, take MAX_PATH_LEN p)) ?xs = ?xs"
    using resolve_path_short [of cwd] by (simp add: less_imp_le)
  finally show ?thesis unfolding path_of_def by (simp add: report_name_def fun_eq_iff)
qed

definition sample_path_event :: "u64 \<Rightarrow> string \<Rightarrow> path_event" where
  "sample_path_event h p = \<lparr>pe_path_hash = h, pe_pid = 7, pe_cgroup_id = 0, pe_start_time = 0, pe_comm = ''cat'', pe_path = p\<rparr>"

theorem discovered_names_witness:
  "report_name (discovered (\<lambda>_. Some ''/home'')
     [sample_path_event 1 ''/tmp/a'', sample_path_event 1025 ''b'', sample_path_event 1 ''/tmp/c''] kd_user_init) 1025 = ''/home/b''"
  by (subst discovered_names) (simp_all add: sample_path_event_def PATH_MAP_SIZE_def resolve_path_def MAX_PATH_LEN_def card_insert_if)

text \<open>
  The mount of a file is a longest mount point that is the path itself or an ancestor
  directory of it; without any, the report says \<^verbatim>\<open>/\<close> and \<^verbatim>\<open>ext4\<close>.
\<close>

theorem longest_mount:
  "(find_mount mounts path = (''/'', ''ext4'') \<and>
      (\<forall>m\<in>set mounts. mnt_dir m \<noteq> [] \<longrightarrow> \<not> mount_matches path m)) \<or>
   (\<exists>m\<in>set mounts. find_mount mounts path = (take 255 (mnt_dir m), take 63 (mnt_type m)) \<and> mount_matches path m \<and>
      (\<forall>m'\<in>set mounts. mount_matches path m' \<longrightarrow> length (mnt_dir m') \<le> length (mnt_dir m)))"
proof (cases "find_mount_loop mounts path 0 None")
  case None
  then show ?thesis using find_mount_loop_None [of mounts path 0 None] by (auto simp: find_mount_def)
next
  case (Some m)
  then show ?thesis using find_mount_loop_Some [OF Some] by (auto simp: find_mount_def)
qed

theorem longest_mount_witness:
  "find_mount (load_mounts [(''/'', ''ext4''), (''/data'', ''xfs''), (''/da'', ''tmpfs'')]) ''/data/x'' = (''/data'', ''xfs'')"
  using longest_mount [of "load_mounts [(''/'', ''ext4''), (''/data'', ''xfs''), (''/da'', ''tmpfs'')]" "''/data/x''"]
  by (auto simp: load_mounts_def MAX_MOUNTS_def mount_matches_def starts_with_def)

text \<open>
  The transfer section of a file: absent when the file is excluded or nothing was logged for
  it; otherwise it lists exactly the buffered events of that file, in order and numbered from 0,
  and its two counts are the numbers of writes and reads among them.
\<close>

theorem transfer_section:
  "dxt_report_entry u start0 mounts st =
     (let h = st_path_hash st; name = report_name u h; es = filter (\<lambda>e. dx_path_hash e = h) (ku_dxt u)
      in if is_path_excluded (ku_excludes u) (Some name) \<or> es = [] then []
         else [\<lparr>ds_file_id = h, ds_file_name = name,
                ds_write_count = length (filter (\<lambda>e. dx_write_flag e \<noteq> 0) es),
                ds_read_count = length (filter (\<lambda>e. dx_write_flag e = 0) es),
                ds_mount = find_mount mounts name,
                ds_ost = (if snd (find_mount mounts name) = ''lustre'' then 247 else - 1),
                ds_segments = map (segment_line start0) (enumerate 0 es)\<rparr>])"
  by (rule transfer_section_eq)

text \<open>
  The excluded path prefixes after a configuration file of \<^verbatim>\<open>EXCLUDE_PATH\<close> lines: the first
  line drops the built-in list, \<^verbatim>\<open>none\<close> empties it, and the list is the values behind the last
  \<^verbatim>\<open>none\<close>, of which the first 64 count, each clipped to 127 characters.
\<close>

theorem configured_excludes:
  assumes "list_all config_word vs"
  shows "ku_excludes (load_config (Some (map (\<lambda>v. ''EXCLUDE_PATH '' @ v @ [CHR 0x0A]) vs)) None kd_user_init) =
    (if vs = [] then default_excludes
     else map (take 127) (take 64 (rev (takeWhile (\<lambda>v. v \<noteq> ''none'') (rev vs)))))"
proof (cases "vs = []")
  case False
  then show ?thesis
    using exclude_run [of vs] unfolding load_config_def option.case exclude_lines [OF assms]
    by (simp add: Let_def last_excludes_def MAX_EXCLUDE_PATHS_def)
qed (simp add: load_config_def kd_user_init_def)

theorem configured_excludes_witness:
  "ku_excludes (load_config (Some [''EXCLUDE_PATH /a'' @ [CHR 0x0A], ''EXCLUDE_PATH none'' @ [CHR 0x0A],
     ''EXCLUDE_PATH /b/'' @ [CHR 0x0A]]) None kd_user_init) = [''/b/'']"
  using configured_excludes [of "[''/a'', ''none'', ''/b/'']"] by (simp add: config_word_def is_blank_def)

text \<open>
  A transfer that started before the reference time is reported with a start of almost
  2^64 nanoseconds: the difference wraps before the test for a negative time.
\<close>

theorem early_transfer_wraps:
  assumes "dx_start_ns e < start0"
  shows "unat (fst (event_times start0 e)) = 2 ^ 64 - (unat start0 - unat (dx_start_ns e))"
proof -
  have "unat (dx_start_ns e - start0) = 2 ^ 64 + unat (dx_start_ns e) - unat start0"
    using assms unat_sub_if' [of "dx_start_ns e" start0] by (simp add: word_less_nat_alt)
  then show ?thesis using assms by (simp add: event_times_def Let_def word_less_nat_alt)
qed

theorem early_transfer_wraps_witness:
  "unat (fst (event_times 10 \<lparr>dx_path_hash = 1, dx_start_ns = 9, dx_end_ns = 12, dx_offset = 0, dx_length = 1,
     dx_pid = 7, dx_cgroup_id = 0, dx_start_time = 0, dx_write_flag = 0\<rparr>)) = 18446744073709551615"
  by (subst early_transfer_wraps) (simp_all add: word_less_nat_alt)

end
