(* ===== verification/Kdarshan_Session.thy ===== *)
theory Kdarshan_Session
  imports Kdarshan_Probe Kdarshan_User
begin

text \<open>
  A whole run of kdarshan: the probe fills the two ring buffers, the main loop of \<^verbatim>\<open>src/kdarshan.c\<close>
  drains them through the two handlers, and the report is printed from the statistics map of the
  probe and the state of the handlers. The two rings are polled together, so their events arrive
  in any interleaving that keeps the order within each ring.
\<close>

section \<open>Draining the ring buffers\<close>

fun poll_event :: "(u32 \<Rightarrow> string option) \<Rightarrow> u64 \<Rightarrow> path_event + dxt_event \<Rightarrow> kd_user \<Rightarrow> kd_user" where
  "poll_event cwd start0 (Inl e) u = fst (handle_path_event cwd e u)"
| "poll_event cwd start0 (Inr e) u = fst (handle_dxt_event True start0 e u)"

definition drain :: "(u32 \<Rightarrow> string option) \<Rightarrow> u64 \<Rightarrow> (path_event + dxt_event) list \<Rightarrow> kd_user \<Rightarrow> kd_user" where
  "drain cwd start0 xs u = fold (poll_event cwd start0) xs u"

definition ring1 :: "('a + 'b) list \<Rightarrow> 'a list" where
  "ring1 xs = concat (map (case_sum (\<lambda>a. [a]) (\<lambda>_. [])) xs)"

definition ring2 :: "('a + 'b) list \<Rightarrow> 'b list" where
  "ring2 xs = concat (map (case_sum (\<lambda>_. []) (\<lambda>b. [b])) xs)"

lemma ring_simps [simp]:
  "ring1 [] = []" "ring1 (Inl a # xs) = a # ring1 xs" "ring1 (Inr b # xs) = ring1 xs"
  "ring2 [] = []" "ring2 (Inl a # xs) = ring2 xs" "ring2 (Inr b # xs) = b # ring2 xs"
  by (simp_all add: ring1_def ring2_def)

section \<open>Names of one file\<close>

text \<open>What a lookup can find: what was stored under the same identity.\<close>

lemma get_after_put:
  assumes "probing t" "get_path h (put_path k p t) = Some q"
  shows "k = h \<and> q = take MAX_PATH_LEN p \<or> get_path h t = Some q"
proof (cases "k \<in> dom (path_of t) \<or> \<not> is_full t")
  case True
  from path_of_put [OF assms(1) this, of p] assms(2) show ?thesis
    by (auto simp: path_of_def fun_eq_iff split: if_splits)
next
  case False
  have "first_stop t k = None"
  proof (rule ccontr)
    assume "first_stop t k \<noteq> None"
    then obtain j where "stops t k j" by (auto simp: first_stop_Some)
    then have "\<not> pm_occupied (t (slot k j)) \<or> pm_hash (t (slot k j)) = k" by (simp add: stops_def)
    with False have "pm_occupied (t (slot k j)) \<and> pm_hash (t (slot k j)) = k"
      using slot_less [of k j] by (auto simp: is_full_def)
    with False show False
      using slot_less [of k j] dom_path_of [OF assms(1)] by (metis (mono_tags, lifting) image_eqI mem_Collect_eq)
  qed
  with assms(2) show ?thesis by (simp add: put_path_cases)
qed

definition never_excluded :: "u64 \<Rightarrow> kd_user \<Rightarrow> bool" where
  "never_excluded h u \<longleftrightarrow> probing (ku_paths u) \<and>
     (\<forall>p. get_path h (ku_paths u) = Some p \<longrightarrow> \<not> is_path_excluded (ku_excludes u) (Some p))"

lemma poll_path:
  assumes "never_excluded h u" "pe_path_hash e = h \<Longrightarrow> \<not> is_path_excluded (ku_excludes u) (Some (resolve_path cwd e))"
  shows "never_excluded h (fst (handle_path_event cwd e u))"
proof -
  have "take MAX_PATH_LEN (resolve_path cwd e) = resolve_path cwd e"
    using resolve_path_short [of cwd e] by simp
  with assms get_after_put [of "ku_paths u" h "pe_path_hash e" "resolve_path cwd e"] show ?thesis
    by (auto simp: never_excluded_def handle_path_event_paths probing_put)
qed

lemma poll_transfer:
  assumes "never_excluded h u"
  shows "never_excluded h (fst (handle_dxt_event True start0 e u))"
    and "dx_path_hash e = h \<Longrightarrow> ku_dxt (fst (handle_dxt_event True start0 e u)) = ku_dxt u @ [e]"
    and "ku_dxt (fst (handle_dxt_event True start0 e u)) \<in> {ku_dxt u, ku_dxt u @ [e]}"
    and "ku_excludes (fst (handle_dxt_event True start0 e u)) = ku_excludes u"
  using assms
  by (auto simp: handle_dxt_event_def never_excluded_def Let_def is_path_excluded_def split: option.splits prod.splits)

lemma drain_keeps:
  assumes "never_excluded h u"
    and "\<forall>e\<in>set (ring1 xs). pe_path_hash e = h \<longrightarrow> \<not> is_path_excluded (ku_excludes u) (Some (resolve_path cwd e))"
  shows "never_excluded h (drain cwd start0 xs u) \<and> ku_excludes (drain cwd start0 xs u) = ku_excludes u \<and>
    dxt_at h (ku_dxt (drain cwd start0 xs u)) = dxt_at h (ku_dxt u) @ dxt_at h (ring2 xs)"
  using assms
proof (induction xs arbitrary: u)
  case Nil
  then show ?case by (simp add: drain_def dxt_at_def)
next
  case (Cons x xs)
  let ?u = "poll_event cwd start0 x u"
  have "never_excluded h ?u \<and> ku_excludes ?u = ku_excludes u \<and>
      dxt_at h (ku_dxt ?u) = dxt_at h (ku_dxt u) @ dxt_at h (ring2 [x])"
  proof (cases x)
    case (Inl e)
    with Cons.prems show ?thesis
      using poll_path [of h u e cwd] by (simp add: handle_path_event_paths dxt_at_def)
  next
    case (Inr e)
    then show ?thesis
      using poll_transfer [OF Cons.prems(1), where e = e and ?start0.0 = start0] by (auto simp: dxt_at_def)
  qed
  moreover have "dxt_at h (ring2 (x # xs)) = dxt_at h (ring2 [x]) @ dxt_at h (ring2 xs)"
    by (cases x) (simp_all add: dxt_at_def)
  moreover have "\<forall>e\<in>set (ring1 xs). pe_path_hash e = h \<longrightarrow> \<not> is_path_excluded (ku_excludes u) (Some (resolve_path cwd e))"
    using Cons.prems(2) by (cases x) auto
  ultimately show ?case
    using Cons.IH [of ?u] by (simp add: drain_def)
qed

lemma never_excluded_name:
  "never_excluded h u \<Longrightarrow> \<not> is_path_excluded (ku_excludes u) (Some ''UNKNOWN'') \<Longrightarrow>
     \<not> is_path_excluded (ku_excludes u) (Some (report_name u h))"
  by (auto simp: never_excluded_def report_name_def split: option.splits)

lemma kd_summary:
  assumes "kd_reach env_dxt_rb tp s" "file_stats s h = Some st"
  shows "st_path_hash st = h \<and> io_summary st (dxt_at h (dxt_events s))"
proof -
  have "probe_reach env_dxt_rb 0 s" by (rule kd_reach_probe [OF assms(1)]) simp
  from stats.reach_inv [OF this] show ?thesis using assms(2) stats_invD(2,3) by blast
qed

lemma never_excluded_init: "ku_paths u = path_map_init \<Longrightarrow> never_excluded h u"
  using paths.lookup_empty probing_init unfolding never_excluded_def path_of_def by (metis option.distinct(1))

text \<open>A run: process 7 opens a file and reads 100 bytes from it.\<close>

definition kd_demo_read :: probe_state where
  "kd_demo_read = kd_on_exit SC_read 7 (0, 0) (demo_env 3 100 40) (kd_on_enter SC_read 7 (demo_env 3 0 30) kd_demo_open)"

lemma kd_demo_read_reach: "kd_reach env_dxt_rb 7 kd_demo_read"
  unfolding kd_demo_read_def kd_demo_open_def by (intro kd_exit kd_enter kd_start demo_room)

lemma kd_demo_traced: "kd_should_trace 7 (demo_env a r t)"
  by (simp add: kd_should_trace_def demo_env_def)

lemma kd_demo_open_eval:
  "fd_states kd_demo_open 0x700000003 =
     Some \<lparr>fs_path_hash = 0x100000006, last_byte_read = 0, last_byte_written = 0, last_io_type = 0\<rparr>"
  "file_stats kd_demo_open 0x100000006 = Some (open_update_stats 20 3 4096 (fresh_stats 0x100000006))"
  "pending_rws kd_demo_open = Map.empty" "dxt_events kd_demo_open = []"
  "map pe_path (path_events kd_demo_open) = [''/tmp/f'']"
  by (simp_all add: kd_demo_open_def kd_exit_defs kd_enter_defs kd_demo_traced put_pending_open_def demo_room
      probe_init_def handle_open_exit_def demo_env_simps get_or_create_cases put_stats_def demo_mem_def
      fd_key_def word_sle_eq open_path_event_def Let_def, simp_all add: demo_env_def MAX_PATH_LEN_def)

lemma kd_demo_read_eval:
  "file_stats kd_demo_read 0x100000006 \<noteq> None"
  "map dx_path_hash (dxt_events kd_demo_read) = [0x100000006]"
  "path_events kd_demo_read = path_events kd_demo_open"
  by (simp_all add: kd_demo_read_def kd_exit_defs kd_enter_defs kd_demo_traced handle_rw_enter_def handle_rw_exit_def
      get_file_pos_def kd_demo_open_eval demo_env_simps demo_room fd_key_def get_or_create_cases rw_commit_def
      put_stats_def word_sless_alt demo_mem_def rw_dxt_event_def rw_read_fstate_def Let_def)

section \<open>Properties\<close>

text \<open>
  (C2) The two halves of the report agree. Take any run of the probe whose transfer ring never
  overflowed, and drain both rings to their ends in any interleaving. Then for every file with a
  logged transfer, if neither a path of the file nor the name UNKNOWN is excluded, the transfer
  section exists; its read and write counts
  are the \<^verbatim>\<open>POSIX_READS\<close> and \<^verbatim>\<open>POSIX_WRITES\<close> counters and the lengths of its segments add up to
  the byte counters (all modulo 2^64, the width of a counter).
\<close>

theorem report_consistent:
  assumes "kd_reach env_dxt_rb tp s" "file_stats s h = Some st" "dxt_at h (dxt_events s) \<noteq> []"
    and "ring1 xs = path_events s" "ring2 xs = dxt_events s"
    and "ku_paths u = path_map_init" "ku_dxt u = []"
    and "\<forall>e\<in>set (path_events s). pe_path_hash e = h \<longrightarrow> \<not> is_path_excluded (ku_excludes u) (Some (resolve_path cwd e))"
    and "\<not> is_path_excluded (ku_excludes u) (Some ''UNKNOWN'')"
  shows "\<exists>sec. dxt_report_entry (drain cwd start0 xs u) start0 mounts st = [sec] \<and>
    of_nat (ds_read_count sec) = counters st POSIX_READS \<and>
    of_nat (ds_write_count sec) = counters st POSIX_WRITES \<and>
    sum_list (map (\<lambda>(w, i, off, len, a, b). if \<not> w then len else 0) (ds_segments sec)) = counters st POSIX_BYTES_READ \<and>
    sum_list (map (\<lambda>(w, i, off, len, a, b). if w then len else 0) (ds_segments sec)) = counters st POSIX_BYTES_WRITTEN"
proof -
  let ?u = "drain cwd start0 xs u" let ?es = "dxt_at h (dxt_events s)"
  note st = kd_summary [OF assms(1,2)]
  have d: "never_excluded h ?u" "ku_excludes ?u = ku_excludes u" "filter (\<lambda>e. dx_path_hash e = h) (ku_dxt ?u) = ?es"
    using drain_keeps [of h u xs cwd start0] never_excluded_init [OF assms(6)] assms(4,5,7,8)
    by (simp_all add: dxt_at_def)
  have name: "\<not> is_path_excluded (ku_excludes ?u) (Some (report_name ?u h))"
    using never_excluded_name [OF d(1)] assms(9) d(2) by simp
  have len: "length (filter (\<lambda>e. dx_write_flag e \<noteq> 0) ?es) + length (filter (\<lambda>e. dx_write_flag e = 0) ?es) > 0"
    using assms(3) by (cases ?es) auto
  have seg: "sum_list (map ((\<lambda>(w, i, off, len, a, b). if w = v then len else 0) \<circ> segment_line start0) (enumerate n es)) =
      sum_list (map dx_length (filter (\<lambda>d. (dx_write_flag d \<noteq> 0) = v) es))" for v n es
    by (induction es arbitrary: n) (auto simp: segment_line_def)
  have "dxt_report_entry ?u start0 mounts st =
      [\<lparr>ds_file_id = h, ds_file_name = report_name ?u h, ds_write_count = length (writes ?es), ds_read_count = length (reads ?es),
        ds_mount = find_mount mounts (report_name ?u h),
        ds_ost = (if snd (find_mount mounts (report_name ?u h)) = ''lustre'' then 247 else - 1),
        ds_segments = map (segment_line start0) (enumerate 0 ?es)\<rparr>]"
    unfolding transfer_section_eq Let_def st [THEN conjunct1] d(3) writes_def reads_def
    using name assms(3) by simp
  moreover have "counters st POSIX_READS = of_nat (length (reads ?es))" "counters st POSIX_WRITES = of_nat (length (writes ?es))"
    "counters st POSIX_BYTES_READ = sum_list (map dx_length (reads ?es))"
    "counters st POSIX_BYTES_WRITTEN = sum_list (map dx_length (writes ?es))"
    using st by (simp_all add: io_summary_def direction_ok_def)
  ultimately show ?thesis
    using seg [of True 0 ?es] seg [of False 0 ?es] by (simp add: reads_def writes_def if_distrib)
qed

theorem report_consistent_witness:
  "\<exists>st sec. file_stats kd_demo_read 0x100000006 = Some st \<and>
    dxt_report_entry (drain (\<lambda>_. None) 0 (map Inr (dxt_events kd_demo_read) @ map Inl (path_events kd_demo_read)) kd_user_init)
      0 [] st = [sec] \<and> of_nat (ds_read_count sec) = counters st POSIX_READS"
proof -
  let ?xs = "map Inr (dxt_events kd_demo_read) @ map Inl (path_events kd_demo_read)"
  obtain st where st: "file_stats kd_demo_read 0x100000006 = Some st" using kd_demo_read_eval(1) by auto
  have m: "map f xs = [a] \<Longrightarrow> \<exists>x. xs = [x] \<and> f x = a" for f :: "'a \<Rightarrow> 'b" and xs a by auto
  obtain d where d: "dxt_events kd_demo_read = [d]" "dx_path_hash d = 0x100000006"
    using m [OF kd_demo_read_eval(2)] by blast
  obtain p where p: "path_events kd_demo_read = [p]" "pe_path p = ''/tmp/f''"
    using m [OF kd_demo_open_eval(5)] kd_demo_read_eval(3) by auto
  have ex: "\<not> is_path_excluded default_excludes (Some ''/tmp/f'')" "\<not> is_path_excluded default_excludes (Some ''UNKNOWN'')"
    by (simp_all add: is_path_excluded_def default_excludes_def starts_with_def)
  have "resolve_path (\<lambda>_. None) p = ''/tmp/f''" by (simp add: resolve_path_def p MAX_PATH_LEN_def)
  then show ?thesis
    using report_consistent [OF kd_demo_read_reach st, of ?xs kd_user_init "\<lambda>_. None" 0 "[]"] st ex
    by (auto simp: d p dxt_at_def kd_user_init_def)
qed

end
