(* ===== verification/Bytes.thy ===== *)
theory Bytes
  imports Prelude
begin

text \<open>
  Byte memories and little-endian images: how the C code writes an integer into a character
  buffer with \<open>*(u64*)p = v\<close> and reads it back. A memory is a function from positions to
  bytes; \<open>store\<close> writes a list of bytes, \<open>slice\<close> reads one.
\<close>

section \<open>Memories\<close>

type_synonym mem = "nat \<Rightarrow> u8"

definition store :: "mem \<Rightarrow> nat \<Rightarrow> u8 list \<Rightarrow> mem" where
  "store m i bs = (\<lambda>k. if i \<le> k \<and> k < i + length bs then bs ! (k - i) else m k)"

definition slice :: "mem \<Rightarrow> nat \<Rightarrow> nat \<Rightarrow> u8 list" where
  "slice m i n = map m [i..<i + n]"

lemma length_slice [simp]: "length (slice m i n) = n"
  by (simp add: slice_def)

lemma nth_slice [simp]: "k < n \<Longrightarrow> slice m i n ! k = m (i + k)"
  by (simp add: slice_def)

lemma slice_0 [simp]: "slice m i 0 = []"
  by (simp add: slice_def)

lemma slice_1 [mem_simps]: "slice m i (Suc 0) = [m i]"
  by (simp add: slice_def)

lemma slice_add [mem_simps]: "slice m i (a + b) = slice m i a @ slice m (i + a) b"
  by (rule nth_equalityI) (auto simp: nth_append)

lemma slice_cong: "(\<And>k. i \<le> k \<Longrightarrow> k < i + n \<Longrightarrow> m k = m' k) \<Longrightarrow> slice m i n = slice m' i n"
  by (simp add: slice_def)

lemma slice_store_same [simp]: "slice (store m i bs) i (length bs) = bs"
  by (rule nth_equalityI) (auto simp: store_def)

lemma slice_store_disjoint [mem_simps]:
  "i + n \<le> j \<or> j + length bs \<le> i \<Longrightarrow> slice (store m j bs) i n = slice m i n"
  by (rule slice_cong) (auto simp: store_def)

lemma store_other: "k < i \<or> i + length bs \<le> k \<Longrightarrow> store m i bs k = m k"
  by (auto simp: store_def)

lemma store_append [mem_simps]:
  "slice (store m i bs) 0 (i + length bs) = slice m 0 i @ bs"
  using slice_store_same [of m i bs] slice_store_disjoint [of 0 i i bs m] by (simp add: slice_add)

lemma upd_append [mem_simps]: "slice (m(i := v)) 0 (Suc i) = slice m 0 i @ [v]"
proof -
  have "slice (m(i := v)) 0 i = slice m 0 i" by (rule slice_cong) simp
  then show ?thesis using slice_add [of "m(i := v)" 0 i "Suc 0"] by (simp add: slice_1)
qed

lemma slice_upd_out [mem_simps]: "k < i \<or> i + n \<le> k \<Longrightarrow> slice (m(k := v)) i n = slice m i n"
  by (rule slice_cong) auto

lemma slice_upd_in: "k < n \<Longrightarrow> slice (m(k := v)) 0 n = (slice m 0 n)[k := v]"
  by (rule nth_equalityI) (auto simp: nth_list_update)

section \<open>Little-endian images\<close>

definition le_bytes :: "nat \<Rightarrow> u64 \<Rightarrow> u8 list" where
  "le_bytes n w = map (\<lambda>k. ucast (drop_bit (8 * k) w)) [0..<n]"

primrec of_le :: "u8 list \<Rightarrow> u64" where
  "of_le [] = 0"
| "of_le (b # bs) = ucast b OR push_bit 8 (of_le bs)"

lemma length_le_bytes [simp]: "length (le_bytes n w) = n"
  by (simp add: le_bytes_def)

lemma le_bytes_Suc: "le_bytes (Suc n) w = ucast w # le_bytes n (drop_bit 8 w)"
  by (rule nth_equalityI)
    (auto simp: le_bytes_def nth_Cons drop_bit_drop_bit algebra_simps simp del: upt_Suc split: nat.splits)

lemma le_bytes_0 [simp]: "le_bytes 0 w = []"
  by (simp add: le_bytes_def)

lemma of_le_bytes: "of_le (le_bytes n w) = take_bit (8 * n) w"
proof (induction n arbitrary: w)
  case 0
  show ?case by simp
next
  case (Suc n)
  have "bit (ucast (ucast w :: u8) OR push_bit 8 (take_bit (8 * n) (drop_bit 8 w))) k
      = bit (take_bit (8 * Suc n) w) k" if "k < 64" for k
    using that by (auto simp: bit_or_iff bit_push_bit_iff bit_take_bit_iff bit_drop_bit_eq bit_unsigned_iff)
  then show ?case
    by (simp add: le_bytes_Suc Suc.IH bit_eq_iff)
qed

lemma of_le_full: "of_le (le_bytes 8 w) = w"
  by (simp add: of_le_bytes take_bit_word_eq_self)

lemma ucast_take_bit_word:
  assumes "LENGTH('b::len) \<le> n"
  shows "(ucast (take_bit n (w :: 'a::len word)) :: 'b word) = ucast w"
  using assms by (auto intro!: bit_word_eqI simp: bit_unsigned_iff bit_take_bit_iff)

text \<open>A narrow integer read back at its own width.\<close>

lemma of_le_narrow [mem_simps]:
  "(ucast (of_le (le_bytes 2 w)) :: u16) = ucast w" "(ucast (of_le (le_bytes 4 w)) :: u32) = ucast w"
  by (simp_all add: of_le_bytes ucast_take_bit_word)

end
