(* ===== verification/Wire_Format.thy ===== *)
theory Wire_Format
  imports Bytes
begin

text \<open>
  The marshalling half of the audit probe \<^verbatim>\<open>src/eauditk.c\<close>: building a record in the
  cache of the current CPU, and copying the cache to the ring buffer. The configuration is the
  one \<^verbatim>\<open>src/dlogger.C\<close> compiles the probe with: \<open>ID_NOT_FD\<close>, \<open>SHORT_SEQNUM\<close>, \<open>FULL_TIME\<close>,
  \<open>LOCK_CACHE\<close>, \<open>USE_FLUSH_ALGO_A2\<close>, without \<open>TAMPER_DETECT\<close> and \<open>PERCPU_CACHE\<close>.

  Positions in the cache (\<open>u16\<close> in the source) are natural numbers; \<open>Cache_Props\<close> shows that they
  stay far below \<open>2 ^ 16\<close>.
\<close>

section \<open>Constants\<close>

definition BUFSIZE :: nat where "BUFSIZE = 16 * 1024 - 128"
definition MAX_SLEN :: nat where "MAX_SLEN = 128"
definition MAX_DLEN :: nat where "MAX_DLEN = 128"
definition MAX_ARG :: nat where "MAX_ARG = 512"
definition MS_BIT_SHIFT :: nat where "MS_BIT_SHIFT = 24"

definition MS_BITS :: "u64 \<Rightarrow> u64" where
  "MS_BITS x = x AND NOT (push_bit MS_BIT_SHIFT 1 - 1)"

definition getInt24 :: "u64 \<Rightarrow> u64 \<Rightarrow> u64 \<Rightarrow> u64" where
  "getInt24 b0 b1 b2 = push_bit 16 b2 OR push_bit 8 b1 OR b0"

definition TSMS_EN :: u8 where "TSMS_EN = of_char (CHR ''y'')"

definition TS_RECORD :: "u64 \<Rightarrow> u64" where
  "TS_RECORD x = x OR getInt24 (ucast TSMS_EN) (of_char (CHR ''%'')) (of_char (CHR ''.''))"

text \<open>The settings compiled into the probe.\<close>

record config =
  cf_TX_THRESH :: nat
  cf_TX_WT_THRESH :: u32
  cf_RINGBUF_PUSH_INTERVAL :: u32
  cf_MAXCACHETIME :: u64
  cf_EAUDIT_PID :: u32
  cf_kernel_le_6_12 :: bool \<comment> \<open>\<open>LINUX_VERSION_CODE <= KERNEL_VERSION(6,12,0)\<close>\<close>

datatype weight_class =
  WT_CRITICAL | WT_IMPORTANT | WT_ENDPOINT | WT_DGRAM | WT_FDTRACK | WT_RDWR | WT_UNIMPORTANT | WT_REDUNDANT

definition WT_THRESH :: nat where "WT_THRESH = 1024"

fun wt :: "weight_class \<Rightarrow> u32" where
  "wt WT_CRITICAL = of_nat (WT_THRESH + 1)"
| "wt WT_IMPORTANT = of_nat (WT_THRESH div 2 ^ 1)"
| "wt WT_ENDPOINT = of_nat (WT_THRESH div 2 ^ 5)"
| "wt WT_DGRAM = of_nat (WT_THRESH div 2 ^ 6)"
| "wt WT_FDTRACK = of_nat (WT_THRESH div 2 ^ 7)"
| "wt WT_RDWR = of_nat (WT_THRESH div 2 ^ 8)"
| "wt WT_UNIMPORTANT = of_nat (WT_THRESH div 2 ^ 9)"
| "wt WT_REDUNDANT = of_nat (WT_THRESH div 2 ^ 10)"

definition dlogger_config :: "u32 \<Rightarrow> bool \<Rightarrow> config" where
  "dlogger_config pid old_kernel =
     \<lparr>cf_TX_THRESH = 2 * 1024, cf_TX_WT_THRESH = of_nat WT_THRESH, cf_RINGBUF_PUSH_INTERVAL = 5,
      cf_MAXCACHETIME = 2 ^ 20, cf_EAUDIT_PID = pid, cf_kernel_le_6_12 = old_kernel\<rparr>"

section \<open>State and environment\<close>

text \<open>The per-CPU cache.\<close>

record buf =
  b_idx :: nat
  b_current_record_start :: nat
  b_nargvl :: nat
  b_nenvpl :: nat
  b_nargpos :: nat
  b_current_sn :: u64
  b_weight :: u32
  b_envp :: u64
  b_argv :: u64
  b_current_ts :: u64
  b_lock :: u64
  b_start_ts :: u64
  b_tsrec :: u64
  b_d :: mem

datatype (plugins only: code) stat_idx =
    RB_FAIL | RB_BYTES | RB_MSGS | RB_WAKEUPS | FN_ERR | DATA_ERR | ARGV_ERR | FCNTL_ERR | SADDR_ERR
  | PIPE_ERR | MMAP_ERR | FN_TRUNC_ERR | DATA_TRUNC_ERR | DATA_READ_OK | OPEN_DATA_ERR
  | SADDR_DATA_ERR | CONN_DATA_ERR | SENDTO_DATA_ERR | BIND_DATA_ERR | PIPE_READ_DATA_ERR
  | SADDR_READ_DATA_ERR | FD_UNFOUND_ERR | INODE_UNFOUND_ERR | FILE_UNFOUND_ERR | PIPE_UNFOUND_ERR
  | SOCK_UNFOUND_ERR | FDTOID_ERRS | FDTOID_CALLS | NUM_SUBJ_CREATED | LOCK_FAIL_LOST_SYSCALLS
  | UNEXP_MAP_LOOKUP_FAIL | UNEXP_ARG_LOOKUP_FAIL | NONLOCAL_CACHE_FLUSHES | NONLOCAL_CACHE_CHECKS
  | SIGN_FAIL | SIGN_FAIL_KEY_WINDOW | SIGN_FAIL_ZERO_KEY | SIGN_FAIL_TAILCALL_SIGN_RECORD
  | SIGN_FAIL_MAP_LOOKUP | SIGN_FAIL_TAILCALL_UMAC_START | SIGN_FAIL_TAILCALL_UMAC_CONT
  | EXECVE_TAILCALL_ARGV_START_FAIL | EXECVE_TAILCALL_ARGV_CONT_FAIL
  | EXECVE_TAILCALL_ENVP_START_FAIL | EXECVE_TAILCALL_ENVP_CONT_FAIL

text \<open>A message handed to user space through the ring buffer, and whether it wakes the reader.\<close>

record rb_msg =
  rb_wake :: bool
  rb_bytes :: "u8 list"

record kstate =
  ks_buf :: "nat \<rightharpoonup> buf"
  ks_seqn :: u64
  ks_mystat :: "stat_idx \<Rightarrow> u64"
  ks_count :: "nat \<Rightarrow> u64"
  ks_errcount :: "nat \<Rightarrow> u64"
  ks_syscall_total :: u64
  ks_events :: "rb_msg list"

record task =
  t_tgid :: u32
  t_real_parent :: u64
  t_start_time :: u64

record audit_env =
  ae_pid_tgid :: u64
  ae_task :: u64
  ae_tasks :: "u64 \<Rightarrow> task"
  ae_ktime :: u64
  ae_cpu :: nat
  ae_random :: u32
  ae_cgroup_id :: u64
  ae_rb_ok :: bool \<comment> \<open>the ring buffer has room for a message\<close>
  ae_log_wt :: u32 \<comment> \<open>\<open>log_level[0].log_wt\<close>, set from user space\<close>
  ae_str :: "u64 \<Rightarrow> u8 list option" \<comment> \<open>the bytes before the NUL at a user address; \<open>None\<close>: fault\<close>
  ae_data :: "u64 \<Rightarrow> u8 option" \<comment> \<open>a byte of user memory; \<open>None\<close>: the page is not present\<close>
  ae_ptrs :: "u64 \<Rightarrow> nat \<Rightarrow> u64 list option" \<comment> \<open>an array of pointers in user memory\<close>
  ae_tail_ok :: "nat \<Rightarrow> bool" \<comment> \<open>the tail call to this program slot succeeds\<close>

definition stat_add :: "stat_idx \<Rightarrow> u64 \<Rightarrow> kstate \<Rightarrow> kstate" where
  "stat_add i n s = s\<lparr>ks_mystat := (ks_mystat s)(i := ks_mystat s i + n)\<rparr>"

abbreviation stat_inc :: "stat_idx \<Rightarrow> kstate \<Rightarrow> kstate" where
  "stat_inc i \<equiv> stat_add i 1"

fun walk_ancestors :: "(u64 \<Rightarrow> task) \<Rightarrow> u32 \<Rightarrow> nat \<Rightarrow> u64 \<Rightarrow> bool" where
  "walk_ancestors tasks p 0 t = False"
| "walk_ancestors tasks p (Suc n) t =
     (if t = 0 then False
      else if t_tgid (tasks t) = p then True
      else walk_ancestors tasks p n (t_real_parent (tasks t)))"

definition is_dlogger_descendant :: "config \<Rightarrow> audit_env \<Rightarrow> bool" where
  "is_dlogger_descendant c e = walk_ancestors (ae_tasks e) (cf_EAUDIT_PID c) 5 (ae_task e)"

definition gettid :: "audit_env \<Rightarrow> s32" where
  "gettid e = ucast (ae_pid_tgid e AND 0xffffffff)"

definition getpid :: "audit_env \<Rightarrow> s32" where
  "getpid e = ucast (drop_bit 32 (ae_pid_tgid e) AND 0xffffffff)"

definition gettidpid :: "audit_env \<Rightarrow> u64 \<times> s32 \<times> s32" where
  "gettidpid e = (ae_pid_tgid e, ucast (ae_pid_tgid e AND 0xffffffff),
                  ucast (drop_bit 32 (ae_pid_tgid e) AND 0xffffffff))"

definition incr_sc_entry :: "nat \<Rightarrow> kstate \<Rightarrow> kstate" where
  "incr_sc_entry sc s = (if sc < 400 then s\<lparr>ks_count := (ks_count s)(sc := ks_count s sc + 1)\<rparr> else s)"

section \<open>Marshalling of fields\<close>

text \<open>
  The shortest signed width that holds \<open>v\<close>; the result is the memory and the width code.
\<close>

definition addLong :: "mem \<Rightarrow> nat \<Rightarrow> s64 \<Rightarrow> mem \<times> nat" where
  "addLong m p v =
     (let v0 = (ucast v :: u8); v1 = (ucast v :: u16); v2 = (ucast v :: u32)
      in if scast v0 = v then (store m p [v0], 0)
         else if scast v1 = v then (store m p (le_bytes 2 v), 1)
         else if scast v2 = v then (store m p (le_bytes 4 v), 2)
         else (store m p (le_bytes 8 v), 3))"

definition add_long_full :: "mem \<Rightarrow> nat \<Rightarrow> s64 \<Rightarrow> mem" where
  "add_long_full m p v = store m p (le_bytes 8 v)"

definition add_long_ex :: "buf \<Rightarrow> s64 \<Rightarrow> nat \<Rightarrow> buf \<times> nat" where
  "add_long_ex b a1 i = (b\<lparr>b_d := add_long_full (b_d b) i a1\<rparr>, i + 8)"

text \<open>One variable-width field: the new position and the width code of the header.\<close>

definition put_long :: "buf \<Rightarrow> s64 \<Rightarrow> nat \<Rightarrow> buf \<times> nat \<times> nat" where
  "put_long b a i = (let (m, sz) = addLong (b_d b) i a in (b\<lparr>b_d := m\<rparr>, i + 2 ^ sz, sz))"

definition or_hdr :: "buf \<Rightarrow> nat \<Rightarrow> u8 \<Rightarrow> buf" where
  "or_hdr b hdr v = b\<lparr>b_d := (b_d b)(hdr := b_d b hdr OR v)\<rparr>"

definition add_long1 :: "buf \<Rightarrow> s64 \<Rightarrow> nat \<Rightarrow> nat \<Rightarrow> buf \<times> nat" where
  "add_long1 b a1 i hdr =
     (let (b, i, sz1) = put_long b a1 i
      in (or_hdr b hdr (push_bit 4 (of_nat sz1)), i))"

definition add_long2 :: "buf \<Rightarrow> s64 \<Rightarrow> s64 \<Rightarrow> nat \<Rightarrow> nat \<Rightarrow> buf \<times> nat" where
  "add_long2 b a1 a2 i hdr =
     (let (b, i, sz1) = put_long b a1 i;
          (b, i, sz2) = put_long b a2 i
      in (or_hdr b hdr (push_bit 4 (of_nat sz1) OR push_bit 2 (of_nat sz2)), i))"

definition add_long3 :: "buf \<Rightarrow> s64 \<Rightarrow> s64 \<Rightarrow> s64 \<Rightarrow> nat \<Rightarrow> nat \<Rightarrow> buf \<times> nat" where
  "add_long3 b a1 a2 a3 i hdr =
     (let (b, i, sz1) = put_long b a1 i;
          (b, i, sz2) = put_long b a2 i;
          (b, i, sz3) = put_long b a3 i
      in (or_hdr b hdr (push_bit 4 (of_nat sz1) OR push_bit 2 (of_nat sz2) OR of_nat sz3), i))"

text \<open>
  \<open>bpf_probe_read_str(dst, size, src)\<close> copies at most \<open>size - 1\<close> bytes and a NUL and returns the
  number of bytes written, or a negative number when the address faults.
\<close>

definition probe_read_str :: "audit_env \<Rightarrow> mem \<Rightarrow> nat \<Rightarrow> nat \<Rightarrow> u64 \<Rightarrow> mem \<times> int" where
  "probe_read_str e m p sz a =
     (case ae_str e a of
        None \<Rightarrow> (m, - 14)
      | Some bs \<Rightarrow> (let out = take (sz - 1) bs @ [0] in (store m p out, int (length out))))"

definition add_string :: "audit_env \<Rightarrow> buf \<Rightarrow> u64 \<Rightarrow> nat \<Rightarrow> kstate \<Rightarrow> buf \<times> nat \<times> kstate" where
  "add_string e b fn i s =
     (let i = i + 1
      in if i < BUFSIZE - 200
         then let (m, n) = probe_read_str e (b_d b) i (min MAX_SLEN (BUFSIZE - i - 3)) fn;
                  s = (if n < 0 then stat_inc FN_ERR s else s);
                  n = (if n < 0 then 0 else n);
                  m = (if i < BUFSIZE - 200 then m(i - 1 := of_int n) else m)
              in (b\<lparr>b_d := m\<rparr>, i + nat n, s)
         else (b, i, s))"

text \<open>The unrolled loops over an argument array: strings until a null pointer.\<close>

fun add_strs :: "audit_env \<Rightarrow> buf \<Rightarrow> u64 list \<Rightarrow> nat \<Rightarrow> kstate \<Rightarrow> buf \<times> nat \<times> kstate \<times> nat" where
  "add_strs e b [] i s = (b, i, s, 0)"
| "add_strs e b (a # as) i s =
     (if a = 0 then (b, i, s, 0)
      else let (b, i, s) = add_string e b a i s;
               (b, i, s, n) = add_strs e b as i s
           in (b, i, s, Suc n))"

definition add_str_array0_16 :: "audit_env \<Rightarrow> buf \<Rightarrow> u64 \<Rightarrow> nat \<Rightarrow> kstate \<Rightarrow> buf \<times> nat \<times> kstate \<times> nat" where
  "add_str_array0_16 e b argv i s =
     (case ae_ptrs e argv 16 of
        None \<Rightarrow> (b, i, stat_inc ARGV_ERR s, 0)
      | Some ptrs \<Rightarrow> add_strs e b ptrs i s)"

definition add_str_array0_32 :: "audit_env \<Rightarrow> buf \<Rightarrow> u64 \<Rightarrow> nat \<Rightarrow> kstate \<Rightarrow> buf \<times> nat \<times> kstate \<times> nat" where
  "add_str_array0_32 e b argv i s =
     (case ae_ptrs e argv 32 of
        None \<Rightarrow> (b, i, stat_inc ARGV_ERR s, 0)
      | Some ptrs \<Rightarrow> add_strs e b ptrs i s)"

text \<open>\<open>bpf_probe_read\<close>: a block of user memory, unless one of its bytes faults.\<close>

definition probe_read :: "audit_env \<Rightarrow> u64 \<Rightarrow> nat \<Rightarrow> u8 list option" where
  "probe_read e a n = those (map (\<lambda>k. ae_data e (a + of_nat k)) [0..<n])"

text \<open>
  \<open>len\<close> is a \<open>u8\<close>: a negative \<open>dlen\<close> is reduced modulo 256. The result tells whether the read failed.
\<close>

definition add_data :: "audit_env \<Rightarrow> buf \<Rightarrow> u64 \<Rightarrow> s32 \<Rightarrow> nat \<Rightarrow> kstate \<Rightarrow> buf \<times> nat \<times> kstate \<times> bool" where
  "add_data e b data dlen i s =
     (let len = unat (of_int (min (int MAX_DLEN) (sint dlen)) :: u8);
          (m, len, s, fail) =
            (if 0 < len \<and> int len \<le> int BUFSIZE - int i - 3
             then let (m, len, fail) =
                        (case probe_read e data len of
                           None \<Rightarrow> (b_d b, 0, True)
                         | Some bs \<Rightarrow> (store (b_d b) (1 + i) bs, len, False));
                      s = (if len = MAX_DLEN then stat_inc DATA_TRUNC_ERR s else stat_inc DATA_READ_OK s)
                  in (m, len, s, fail)
             else (b_d b, 0, s, False));
          m = (if i < BUFSIZE - 200 then m(i := of_nat len) else m)
      in (b\<lparr>b_d := m\<rparr>, i + len + 1, s, fail))"

section \<open>From the cache to the ring buffer\<close>

definition cached_toolong :: "config \<Rightarrow> nat \<Rightarrow> u64 \<Rightarrow> u64 \<Rightarrow> bool" where
  "cached_toolong c len tso tsc \<longleftrightarrow> len \<noteq> 0 \<and> tso + cf_MAXCACHETIME c \<le> tsc"

definition cached_far_toolong :: "config \<Rightarrow> nat \<Rightarrow> u64 \<Rightarrow> u64 \<Rightarrow> bool" where
  "cached_far_toolong c len tso tsc \<longleftrightarrow> len \<noteq> 0 \<and> tso + (3 * cf_MAXCACHETIME c) div 2 < tsc"

text \<open>\<open>events.ringbuf_output(&b->tsrec, sz, flag)\<close>: \<open>tsrec\<close> and \<open>d\<close> are adjacent.\<close>

definition cache_image :: "buf \<Rightarrow> nat \<Rightarrow> u8 list" where
  "cache_image b sz = take sz (le_bytes 8 (b_tsrec b) @ slice (b_d b) 0 (sz - 8))"

definition ringbuf_output :: "audit_env \<Rightarrow> u8 list \<Rightarrow> bool \<Rightarrow> kstate \<Rightarrow> kstate \<times> bool" where
  "ringbuf_output e bs wake s =
     (if ae_rb_ok e then (s\<lparr>ks_events := ks_events s @ [\<lparr>rb_wake = wake, rb_bytes = bs\<rparr>]\<rparr>, True)
      else (s, False))"

definition check_xmit1 ::
  "config \<Rightarrow> audit_env \<Rightarrow> buf \<Rightarrow> nat \<Rightarrow> u64 \<Rightarrow> bool \<Rightarrow> bool \<Rightarrow> kstate \<Rightarrow> buf \<times> nat \<times> kstate" where
  "check_xmit1 c e b i ts force_tx force_wake s =
     (if force_tx \<or> cached_toolong c (b_idx b) (b_start_ts b) ts
      then let sz = min (BUFSIZE - 1) (i + 8);
               wake = (force_wake \<or> ae_random e < (- 1) div cf_RINGBUF_PUSH_INTERVAL c);
               s = stat_inc RB_MSGS s;
               s = (if wake then stat_inc RB_WAKEUPS s else s);
               s = stat_add RB_BYTES (of_nat (i + 8)) s;
               b = b\<lparr>b_tsrec := TS_RECORD (MS_BITS (b_start_ts b))\<rparr>;
               (s, ok) =
                 (if cf_kernel_le_6_12 c
                  then if sz < BUFSIZE - 128 then ringbuf_output e (cache_image b sz) wake s else (s, False)
                  else ringbuf_output e (cache_image b (min sz (BUFSIZE - 64))) wake s);
               b = b\<lparr>b_idx := 0, b_weight := 0\<rparr>;
               s = (if ok then s else stat_inc RB_FAIL s)
           in (b, 0, s)
      else (b, i, s))"

definition check_xmit2 :: "audit_env \<Rightarrow> buf \<Rightarrow> kstate \<Rightarrow> buf \<times> kstate" where
  "check_xmit2 e b s =
     (let sz = min (BUFSIZE - 1) (b_idx b + 8);
          s = stat_inc RB_MSGS s;
          s = stat_inc NONLOCAL_CACHE_FLUSHES s;
          s = stat_add RB_BYTES (of_nat (b_idx b + 8)) s;
          s = stat_inc RB_WAKEUPS s;
          b' = (if sz < BUFSIZE then b\<lparr>b_tsrec := TS_RECORD (MS_BITS (b_start_ts b))\<rparr> else b);
          (s, ok) = (if sz < BUFSIZE then ringbuf_output e (cache_image b' sz) True s else (s, False));
          s = (if ok then s else stat_inc RB_FAIL s)
      in (b'\<lparr>b_idx := 0, b_weight := 0\<rparr>, s))"

definition check_xmit3 :: "config \<Rightarrow> audit_env \<Rightarrow> buf \<Rightarrow> nat \<Rightarrow> u64 \<Rightarrow> kstate \<Rightarrow> buf \<times> nat \<times> kstate" where
  "check_xmit3 c e b i ts s =
     (if cached_toolong c (b_idx b) (b_start_ts b) ts then check_xmit1 c e b i ts True False s
      else (b, i, s))"

definition check_xmit :: "config \<Rightarrow> audit_env \<Rightarrow> buf \<Rightarrow> nat \<Rightarrow> bool \<Rightarrow> bool \<Rightarrow> kstate \<Rightarrow> buf \<times> nat \<times> kstate" where
  "check_xmit c e b i force_tx wake s = check_xmit1 c e b i (b_current_ts b) force_tx wake s"

section \<open>Locking and choosing the cache\<close>

text \<open>\<open>__sync_fetch_and_add(&b->lock, 1)\<close> changes the lock whether or not it is acquired.\<close>

definition lock_cache_if_needed :: "config \<Rightarrow> buf \<Rightarrow> u64 \<Rightarrow> buf \<times> bool" where
  "lock_cache_if_needed c b ts =
     (if \<not> cached_toolong c (b_idx b) (b_start_ts b) ts then (b, True)
      else (b\<lparr>b_lock := b_lock b + 1\<rparr>, b_lock b = 0 \<or> 0 < b_nargvl b))"

definition unlock_cache :: "buf \<Rightarrow> buf" where
  "unlock_cache b = b\<lparr>b_lock := 0\<rparr>"

definition put_buf :: "nat \<Rightarrow> buf \<Rightarrow> kstate \<Rightarrow> kstate" where
  "put_buf cpu b s = s\<lparr>ks_buf := (ks_buf s)(cpu \<mapsto> b)\<rparr>"

definition flush_cache :: "config \<Rightarrow> audit_env \<Rightarrow> nat \<Rightarrow> u64 \<Rightarrow> kstate \<Rightarrow> kstate" where
  "flush_cache c e cpu2check ts s =
     (case ks_buf s cpu2check of
        None \<Rightarrow> s
      | Some bb \<Rightarrow>
          (if cached_far_toolong c (b_idx bb) (b_start_ts bb) ts
           then case lock_cache_if_needed c bb ts of
                  (bb, True) \<Rightarrow> (let (bb, s) = check_xmit2 e bb s in put_buf cpu2check (unlock_cache bb) s)
                | (bb, False) \<Rightarrow> put_buf cpu2check bb s
           else s))"

definition getSeqNum :: "kstate \<Rightarrow> kstate \<times> u64" where
  "getSeqNum s = (s\<lparr>ks_seqn := ks_seqn s + 1\<rparr>, ks_seqn s)"

text \<open>The cache of the current CPU; a lock that is held elsewhere loses the system call.\<close>

definition get_cache :: "config \<Rightarrow> audit_env \<Rightarrow> u64 \<Rightarrow> kstate \<Rightarrow> kstate \<times> buf option" where
  "get_cache c e ts s =
     (case ks_buf s (ae_cpu e) of
        None \<Rightarrow> (stat_inc UNEXP_MAP_LOOKUP_FAIL s, None)
      | Some b \<Rightarrow>
          (case lock_cache_if_needed c b ts of
             (b, True) \<Rightarrow> (put_buf (ae_cpu e) b s, Some b)
           | (b, False) \<Rightarrow> (stat_inc LOCK_FAIL_LOST_SYSCALLS (put_buf (ae_cpu e) b s), None)))"

definition record_syscall_for_flush_window :: "kstate \<Rightarrow> kstate" where
  "record_syscall_for_flush_window s = s\<lparr>ks_syscall_total := ks_syscall_total s + 1\<rparr>"

section \<open>Beginning and ending a record\<close>

text \<open>
  The header: event code, sequence number, time stamp, a byte for the field widths, process and
  thread, control group, start time of the process. The result is the cache, the position after
  the header and the position of the byte for the field widths.
\<close>

definition init_header :: "audit_env \<Rightarrow> u8 \<Rightarrow> u64 \<Rightarrow> buf \<Rightarrow> nat \<Rightarrow> buf \<times> nat \<times> nat" where
  "init_header e scnm sn b i =
     (let m = (b_d b)(i := scnm); i = i + 1;
          m = store m i (le_bytes 2 sn); i = i + 2;
          m = store m i (le_bytes 8 (ae_ktime e)); i = i + 8;
          hdr = i; i = i + 1;
          (pidtid, tid, pid) = gettidpid e;
          pidtid = (if pid = tid then scast pid else pidtid);
          (m, sz) = addLong m i pidtid; i = i + 2 ^ sz;
          m = m(hdr := push_bit 6 (of_nat sz));
          (m, i) = (if i < BUFSIZE - 20
                    then (store (store m i (le_bytes 8 (ae_cgroup_id e))) (i + 8)
                            (le_bytes 8 (t_start_time (ae_tasks e (ae_task e)))), i + 16)
                    else (m, i))
      in (b\<lparr>b_d := m\<rparr>, i, hdr))"

definition init ::
  "config \<Rightarrow> audit_env \<Rightarrow> nat \<Rightarrow> u8 \<Rightarrow> u32 \<Rightarrow> kstate \<Rightarrow> kstate \<times> (buf \<times> nat \<times> nat) option" where
  "init c e sc scnm scwt s =
     (if is_dlogger_descendant c e then (s, None)
      else let ts = ae_ktime e;
               (s, bp) = get_cache c e ts s;
               s = (if sc < 500 then incr_sc_entry sc s else s);
               s = record_syscall_for_flush_window s
           in case bp of
                None \<Rightarrow> (s, None)
              | Some b \<Rightarrow>
                  (let b = b\<lparr>b_current_ts := ts\<rparr>;
                       i = b_idx b;
                       (s, sn) = getSeqNum s;
                       b = b\<lparr>b_current_sn := ucast (ucast sn :: u16)\<rparr>;
                       (b, i, s) =
                         (if i = 0 then (b\<lparr>b_start_ts := ts\<rparr>, i, s)
                          else if i > BUFSIZE - 4096
                               then let (b, i, s) = check_xmit c e b i True False s
                                    in (b\<lparr>b_start_ts := ts\<rparr>, i, s)
                          else (b, i, s));
                       b = b\<lparr>b_current_record_start := i\<rparr>;
                       (b, i, hdr) = init_header e scnm sn b i;
                       b = b\<lparr>b_weight := b_weight b + scwt\<rparr>
                   in (s, Some (b, i, hdr))))"

definition write_u16_le :: "buf \<Rightarrow> nat \<Rightarrow> nat \<Rightarrow> buf" where
  "write_u16_le b pos v =
     (if pos < BUFSIZE - 200
      then b\<lparr>b_d := (b_d b)(pos := of_nat v, pos + 1 := of_nat (v div 256))\<rparr> else b)"

definition emit_record :: "config \<Rightarrow> audit_env \<Rightarrow> buf \<Rightarrow> nat \<Rightarrow> kstate \<Rightarrow> kstate" where
  "emit_record c e b i s =
     (let (b, i) = (if i < BUFSIZE - 200 then (b\<lparr>b_d := (b_d b)(i := 10)\<rparr>, i + 1) else (b, i));
          force_wake = (b_weight b \<ge> cf_TX_WT_THRESH c);
          force_tx = (force_wake \<or> i \<ge> cf_TX_THRESH c);
          (b, i, s) = check_xmit c e b i force_tx force_wake s
      in put_buf (ae_cpu e) (unlock_cache (b\<lparr>b_idx := i\<rparr>)) s)"

definition finish :: "config \<Rightarrow> audit_env \<Rightarrow> buf \<Rightarrow> nat \<Rightarrow> kstate \<Rightarrow> kstate" where
  "finish c e b i s = emit_record c e b i s"

section \<open>Complete records\<close>

text \<open>
  Every \<open>log_sc_..\<close> function begins a record, adds its fields when the cache could be taken,
  and finishes it.
\<close>

definition with_record ::
  "config \<Rightarrow> audit_env \<Rightarrow> nat \<Rightarrow> u8 \<Rightarrow> u32 \<Rightarrow> (buf \<Rightarrow> nat \<Rightarrow> nat \<Rightarrow> kstate \<Rightarrow> buf \<times> nat \<times> kstate) \<Rightarrow> kstate \<Rightarrow> kstate" where
  "with_record c e sc scnm scwt body s =
     (case init c e sc scnm scwt s of
        (s, None) \<Rightarrow> s
      | (s, Some (b, i, hdr)) \<Rightarrow> (let (b, i, s) = body b i hdr s in finish c e b i s))"

definition log_sc_long0 :: "config \<Rightarrow> audit_env \<Rightarrow> nat \<Rightarrow> u8 \<Rightarrow> u32 \<Rightarrow> kstate \<Rightarrow> kstate" where
  "log_sc_long0 c e sc scnm scwt = with_record c e sc scnm scwt (\<lambda>b i hdr s. (b, i, s))"

definition log_sc_long1 ::
  "config \<Rightarrow> audit_env \<Rightarrow> nat \<Rightarrow> u8 \<Rightarrow> u32 \<Rightarrow> s64 \<Rightarrow> kstate \<Rightarrow> kstate" where
  "log_sc_long1 c e sc scnm scwt a1 =
     with_record c e sc scnm scwt
       (\<lambda>b i hdr s. let (b, i) = add_long1 b a1 i hdr
                      in (b, i, s))"

definition log_sc_long2 ::
  "config \<Rightarrow> audit_env \<Rightarrow> nat \<Rightarrow> u8 \<Rightarrow> u32 \<Rightarrow> s64 \<Rightarrow> s64 \<Rightarrow> kstate \<Rightarrow> kstate" where
  "log_sc_long2 c e sc scnm scwt a1 a2 =
     with_record c e sc scnm scwt
       (\<lambda>b i hdr s. let (b, i) = add_long2 b a1 a2 i hdr
                      in (b, i, s))"

definition log_sc_long3 ::
  "config \<Rightarrow> audit_env \<Rightarrow> nat \<Rightarrow> u8 \<Rightarrow> u32 \<Rightarrow> s64 \<Rightarrow> s64 \<Rightarrow> s64 \<Rightarrow> kstate \<Rightarrow> kstate" where
  "log_sc_long3 c e sc scnm scwt a1 a2 a3 =
     with_record c e sc scnm scwt
       (\<lambda>b i hdr s. let (b, i) = add_long3 b a1 a2 a3 i hdr
                      in (b, i, s))"

definition log_sc_long4 ::
  "config \<Rightarrow> audit_env \<Rightarrow> nat \<Rightarrow> u8 \<Rightarrow> u32 \<Rightarrow> s64 \<Rightarrow> s64 \<Rightarrow> s64 \<Rightarrow> s64 \<Rightarrow> kstate \<Rightarrow> kstate" where
  "log_sc_long4 c e sc scnm scwt a1 a2 a3 a4 =
     with_record c e sc scnm scwt
       (\<lambda>b i hdr s. let (b, i) = add_long3 b a1 a2 a3 i hdr;
                           (b, i) = add_long_ex b a4 i
                      in (b, i, s))"

definition log_sc_long5 ::
  "config \<Rightarrow> audit_env \<Rightarrow> nat \<Rightarrow> u8 \<Rightarrow> u32 \<Rightarrow> s64 \<Rightarrow> s64 \<Rightarrow> s64 \<Rightarrow> s64 \<Rightarrow> s64 \<Rightarrow> kstate \<Rightarrow> kstate" where
  "log_sc_long5 c e sc scnm scwt a1 a2 a3 a4 a5 =
     with_record c e sc scnm scwt
       (\<lambda>b i hdr s. let (b, i) = add_long3 b a1 a2 a3 i hdr;
                           (b, i) = add_long_ex b a4 i;
                           (b, i) = add_long_ex b a5 i
                      in (b, i, s))"

definition log_sc_str_long1 ::
  "config \<Rightarrow> audit_env \<Rightarrow> nat \<Rightarrow> u8 \<Rightarrow> u32 \<Rightarrow> u64 \<Rightarrow> s64 \<Rightarrow> kstate \<Rightarrow> kstate" where
  "log_sc_str_long1 c e sc scnm scwt fn a1 =
     with_record c e sc scnm scwt
       (\<lambda>b i hdr s. let (b, i) = add_long1 b a1 i hdr;
                           (b, i, s) = add_string e b fn i s
                      in (b, i, s))"

definition log_sc_str_long2 ::
  "config \<Rightarrow> audit_env \<Rightarrow> nat \<Rightarrow> u8 \<Rightarrow> u32 \<Rightarrow> u64 \<Rightarrow> s64 \<Rightarrow> s64 \<Rightarrow> kstate \<Rightarrow> kstate" where
  "log_sc_str_long2 c e sc scnm scwt fn a1 a2 =
     with_record c e sc scnm scwt
       (\<lambda>b i hdr s. let (b, i) = add_long2 b a1 a2 i hdr;
                           (b, i, s) = add_string e b fn i s
                      in (b, i, s))"

definition log_sc_str_long3 ::
  "config \<Rightarrow> audit_env \<Rightarrow> nat \<Rightarrow> u8 \<Rightarrow> u32 \<Rightarrow> u64 \<Rightarrow> s64 \<Rightarrow> s64 \<Rightarrow> s64 \<Rightarrow> kstate \<Rightarrow> kstate" where
  "log_sc_str_long3 c e sc scnm scwt fn a1 a2 a3 =
     with_record c e sc scnm scwt
       (\<lambda>b i hdr s. let (b, i) = add_long3 b a1 a2 a3 i hdr;
                           (b, i, s) = add_string e b fn i s
                      in (b, i, s))"

definition log_sc_str_long4 ::
  "config \<Rightarrow> audit_env \<Rightarrow> nat \<Rightarrow> u8 \<Rightarrow> u32 \<Rightarrow> u64 \<Rightarrow> s64 \<Rightarrow> s64 \<Rightarrow> s64 \<Rightarrow> s64 \<Rightarrow> kstate \<Rightarrow> kstate" where
  "log_sc_str_long4 c e sc scnm scwt fn a1 a2 a3 a4 =
     with_record c e sc scnm scwt
       (\<lambda>b i hdr s. let (b, i) = add_long3 b a1 a2 a3 i hdr;
                           (b, i) = add_long_ex b a4 i;
                           (b, i, s) = add_string e b fn i s
                      in (b, i, s))"

definition log_sc_str_long5 ::
  "config \<Rightarrow> audit_env \<Rightarrow> nat \<Rightarrow> u8 \<Rightarrow> u32 \<Rightarrow> u64 \<Rightarrow> s64 \<Rightarrow> s64 \<Rightarrow> s64 \<Rightarrow> s64 \<Rightarrow> s64 \<Rightarrow> kstate \<Rightarrow> kstate" where
  "log_sc_str_long5 c e sc scnm scwt fn a1 a2 a3 a4 a5 =
     with_record c e sc scnm scwt
       (\<lambda>b i hdr s. let (b, i) = add_long3 b a1 a2 a3 i hdr;
                           (b, i) = add_long_ex b a4 i;
                           (b, i) = add_long_ex b a5 i;
                           (b, i, s) = add_string e b fn i s
                      in (b, i, s))"

definition log_sc_str2_long2 ::
  "config \<Rightarrow> audit_env \<Rightarrow> nat \<Rightarrow> u8 \<Rightarrow> u32 \<Rightarrow> u64 \<Rightarrow> u64 \<Rightarrow> s64 \<Rightarrow> s64 \<Rightarrow> kstate \<Rightarrow> kstate" where
  "log_sc_str2_long2 c e sc scnm scwt s1 s2 a1 a2 =
     with_record c e sc scnm scwt
       (\<lambda>b i hdr s. let (b, i) = add_long2 b a1 a2 i hdr;
                           (b, i, s) = add_string e b s1 i s;
                           (b, i, s) = add_string e b s2 i s
                      in (b, i, s))"

definition log_sc_str2_long3 ::
  "config \<Rightarrow> audit_env \<Rightarrow> nat \<Rightarrow> u8 \<Rightarrow> u32 \<Rightarrow> u64 \<Rightarrow> u64 \<Rightarrow> s64 \<Rightarrow> s64 \<Rightarrow> s64 \<Rightarrow> kstate \<Rightarrow> kstate" where
  "log_sc_str2_long3 c e sc scnm scwt s1 s2 a1 a2 a3 =
     with_record c e sc scnm scwt
       (\<lambda>b i hdr s. let (b, i) = add_long3 b a1 a2 a3 i hdr;
                           (b, i, s) = add_string e b s1 i s;
                           (b, i, s) = add_string e b s2 i s
                      in (b, i, s))"

definition log_sc_str2_long4 ::
  "config \<Rightarrow> audit_env \<Rightarrow> nat \<Rightarrow> u8 \<Rightarrow> u32 \<Rightarrow> u64 \<Rightarrow> u64 \<Rightarrow> s64 \<Rightarrow> s64 \<Rightarrow> s64 \<Rightarrow> s64 \<Rightarrow> kstate \<Rightarrow> kstate" where
  "log_sc_str2_long4 c e sc scnm scwt s1 s2 a1 a2 a3 a4 =
     with_record c e sc scnm scwt
       (\<lambda>b i hdr s. let (b, i) = add_long3 b a1 a2 a3 i hdr;
                           (b, i) = add_long_ex b a4 i;
                           (b, i, s) = add_string e b s1 i s;
                           (b, i, s) = add_string e b s2 i s
                      in (b, i, s))"

definition log_sc_str2_long5 ::
  "config \<Rightarrow> audit_env \<Rightarrow> nat \<Rightarrow> u8 \<Rightarrow> u32 \<Rightarrow> u64 \<Rightarrow> u64 \<Rightarrow> s64 \<Rightarrow> s64 \<Rightarrow> s64 \<Rightarrow> s64 \<Rightarrow> s64 \<Rightarrow> kstate \<Rightarrow> kstate" where
  "log_sc_str2_long5 c e sc scnm scwt s1 s2 a1 a2 a3 a4 a5 =
     with_record c e sc scnm scwt
       (\<lambda>b i hdr s. let (b, i) = add_long3 b a1 a2 a3 i hdr;
                           (b, i) = add_long_ex b a4 i;
                           (b, i) = add_long_ex b a5 i;
                           (b, i, s) = add_string e b s1 i s;
                           (b, i, s) = add_string e b s2 i s
                      in (b, i, s))"

definition log_sc_str3_long2 ::
  "config \<Rightarrow> audit_env \<Rightarrow> nat \<Rightarrow> u8 \<Rightarrow> u32 \<Rightarrow> u64 \<Rightarrow> u64 \<Rightarrow> u64 \<Rightarrow> s64 \<Rightarrow> s64 \<Rightarrow> kstate \<Rightarrow> kstate" where
  "log_sc_str3_long2 c e sc scnm scwt s1 s2 s3 a1 a2 =
     with_record c e sc scnm scwt
       (\<lambda>b i hdr s. let (b, i) = add_long2 b a1 a2 i hdr;
                           (b, i, s) = add_string e b s1 i s;
                           (b, i, s) = add_string e b s2 i s;
                           (b, i, s) = add_string e b s3 i s
                      in (b, i, s))"

text \<open>With a block of data: the second result tells whether it could not be read.\<close>

definition with_data_record ::
  "config \<Rightarrow> audit_env \<Rightarrow> nat \<Rightarrow> u8 \<Rightarrow> u32 \<Rightarrow> (buf \<Rightarrow> nat \<Rightarrow> nat \<Rightarrow> kstate \<Rightarrow> buf \<times> nat \<times> kstate \<times> bool) \<Rightarrow>
   kstate \<Rightarrow> kstate \<times> bool" where
  "with_data_record c e sc scnm scwt body s =
     (case init c e sc scnm scwt s of
        (s, None) \<Rightarrow> (s, False)
      | (s, Some (b, i, hdr)) \<Rightarrow> (let (b, i, s, fail) = body b i hdr s in (finish c e b i s, fail)))"

definition log_sc_data_long2 ::
  "config \<Rightarrow> audit_env \<Rightarrow> nat \<Rightarrow> u8 \<Rightarrow> u32 \<Rightarrow> u64 \<Rightarrow> s32 \<Rightarrow> s64 \<Rightarrow> s64 \<Rightarrow> kstate \<Rightarrow> kstate \<times> bool" where
  "log_sc_data_long2 c e sc scnm scwt data len a1 a2 =
     with_data_record c e sc scnm scwt
       (\<lambda>b i hdr s. let (b, i) = add_long2 b a1 a2 i hdr in add_data e b data len i s)"

definition log_sc_data_long3 ::
  "config \<Rightarrow> audit_env \<Rightarrow> nat \<Rightarrow> u8 \<Rightarrow> u32 \<Rightarrow> u64 \<Rightarrow> s32 \<Rightarrow> s64 \<Rightarrow> s64 \<Rightarrow> s64 \<Rightarrow> kstate \<Rightarrow> kstate \<times> bool" where
  "log_sc_data_long3 c e sc scnm scwt data len a1 a2 a3 =
     with_data_record c e sc scnm scwt
       (\<lambda>b i hdr s. let (b, i) = add_long3 b a1 a2 a3 i hdr in add_data e b data len i s)"

end
