(* ===== verification/Event_Codes.thy ===== *)
theory Event_Codes
  imports Wire_Format
begin

text \<open>
  The one-character event codes and the weights of the system calls, \<^verbatim>\<open>src/eauditk.h\<close>, and the
  test for an error result.
\<close>

section \<open>Conversions\<close>

abbreviation to_int :: "s64 \<Rightarrow> s32" where "to_int \<equiv> ucast"
abbreviation to_long :: "s32 \<Rightarrow> s64" where "to_long \<equiv> scast"

section \<open>Event codes\<close>

definition CTRL :: "u8 \<Rightarrow> u8" where
  "CTRL x = x - 0x40"

definition ARG_LOOKUP_ERR :: u8 where "ARG_LOOKUP_ERR = of_char (CHR ''A'')"
definition ACCEPT_EX :: u8 where "ACCEPT_EX = of_char (CHR ''a'')"
definition BIND_EX :: u8 where "BIND_EX = of_char (CHR ''b'')"
definition CLOSE_EN :: u8 where "CLOSE_EN = of_char (CHR ''C'')"
definition CHDIR_EX :: u8 where "CHDIR_EX = of_char (CHR ''c'')"
definition CHMOD_EX :: u8 where "CHMOD_EX = CTRL (of_char (CHR ''C''))"
definition DUP2_EX :: u8 where "DUP2_EX = of_char (CHR ''D'')"
definition DUP_EX :: u8 where "DUP_EX = of_char (CHR ''d'')"
definition FCHDIR_EX :: u8 where "FCHDIR_EX = CTRL (of_char (CHR ''D''))"
definition EXECVE_EN :: u8 where "EXECVE_EN = of_char (CHR ''E'')"
definition EXECVE_EX :: u8 where "EXECVE_EX = of_char (CHR ''e'')"
definition EXECVEE_EN :: u8 where "EXECVEE_EN = CTRL (of_char (CHR ''E''))"
definition FORK_EN :: u8 where "FORK_EN = of_char (CHR ''F'')"
definition FORK_EX :: u8 where "FORK_EX = of_char (CHR ''f'')"
definition FCHMOD_EX :: u8 where "FCHMOD_EX = CTRL (of_char (CHR ''F''))"
definition SETGID_EX :: u8 where "SETGID_EX = of_char (CHR ''G'')"
definition GETPEER_EX :: u8 where "GETPEER_EX = of_char (CHR ''g'')"
definition LCHOWN_EX :: u8 where "LCHOWN_EX = of_char (CHR ''H'')"
definition INITMOD_EX :: u8 where "INITMOD_EX = of_char (CHR ''I'')"
definition FINITMOD_EX :: u8 where "FINITMOD_EX = of_char (CHR ''i'')"
definition PTRACE_EN :: u8 where "PTRACE_EN = of_char (CHR ''J'')"
definition PTRACE_EX :: u8 where "PTRACE_EX = of_char (CHR ''j'')"
definition KILL_EN :: u8 where "KILL_EN = of_char (CHR ''K'')"
definition KILL_EX :: u8 where "KILL_EX = of_char (CHR ''k'')"
definition TS_KERN :: u8 where "TS_KERN = CTRL (of_char (CHR ''K''))"
definition CLONE_EN :: u8 where "CLONE_EN = of_char (CHR ''L'')"
definition CLONE_EX :: u8 where "CLONE_EX = of_char (CHR ''l'')"
definition LINK_EX :: u8 where "LINK_EX = CTRL (of_char (CHR ''L''))"
definition MOUNT_EX :: u8 where "MOUNT_EX = of_char (CHR ''M'')"
definition MKDIR_EX :: u8 where "MKDIR_EX = of_char (CHR ''m'')"
definition MMAP_EX :: u8 where "MMAP_EX = CTRL (of_char (CHR ''M''))"
definition RENAME_EX :: u8 where "RENAME_EX = of_char (CHR ''N'')"
definition CONNECT_EX :: u8 where "CONNECT_EX = of_char (CHR ''n'')"
definition MKNOD_EX :: u8 where "MKNOD_EX = CTRL (of_char (CHR ''N''))"
definition CHOWN_EX :: u8 where "CHOWN_EX = of_char (CHR ''O'')"
definition OPEN_EX :: u8 where "OPEN_EX = of_char (CHR ''o'')"
definition FCHOWN_EX :: u8 where "FCHOWN_EX = CTRL (of_char (CHR ''O''))"
definition PREAD_EX :: u8 where "PREAD_EX = of_char (CHR ''P'')"
definition PIPE_EX :: u8 where "PIPE_EX = of_char (CHR ''p'')"
definition MPROTECT_EX :: u8 where "MPROTECT_EX = CTRL (of_char (CHR ''P''))"
definition RMDIR_EX :: u8 where "RMDIR_EX = of_char (CHR ''R'')"
definition READ_EX :: u8 where "READ_EX = of_char (CHR ''r'')"
definition ERR_REP :: u8 where "ERR_REP = CTRL (of_char (CHR ''R''))"
definition SYMLINK_EX :: u8 where "SYMLINK_EX = of_char (CHR ''S'')"
definition SENDTO_EX :: u8 where "SENDTO_EX = of_char (CHR ''s'')"
definition SOCKPAIR_EX :: u8 where "SOCKPAIR_EX = CTRL (of_char (CHR ''S''))"
definition FTRUNC_EX :: u8 where "FTRUNC_EX = of_char (CHR ''T'')"
definition TRUNC_EX :: u8 where "TRUNC_EX = of_char (CHR ''t'')"
definition TS_DIFF :: u8 where "TS_DIFF = CTRL (of_char (CHR ''T''))"
definition SETUID_EX :: u8 where "SETUID_EX = of_char (CHR ''U'')"
definition UNLINK_EX :: u8 where "UNLINK_EX = of_char (CHR ''u'')"
definition UMOUNT_EX :: u8 where "UMOUNT_EX = CTRL (of_char (CHR ''U''))"
definition VMSPLICE_EX :: u8 where "VMSPLICE_EX = of_char (CHR ''V'')"
definition RECVFROM_EX :: u8 where "RECVFROM_EX = of_char (CHR ''v'')"
definition PWRITE_EX :: u8 where "PWRITE_EX = of_char (CHR ''W'')"
definition WRITE_EX :: u8 where "WRITE_EX = of_char (CHR ''w'')"
definition EXIT_EN :: u8 where "EXIT_EN = of_char (CHR ''X'')"
definition EXITGRP_EN :: u8 where "EXITGRP_EN = of_char (CHR ''x'')"
definition SIGNING_KEY_SEED_REC :: u8 where "SIGNING_KEY_SEED_REC = of_char (CHR ''#'')"
definition SIGNED_RECORD_MAC_REC :: u8 where "SIGNED_RECORD_MAC_REC = of_char (CHR ''@'')"
definition TS_CGROUP_PATH :: u8 where "TS_CGROUP_PATH = of_char (CHR ''z'')"

section \<open>Weights\<close>

definition WT_EXECVE :: u32 where "WT_EXECVE = wt WT_CRITICAL"
definition WT_SETUID :: u32 where "WT_SETUID = wt WT_CRITICAL"
definition WT_KILL :: u32 where "WT_KILL = wt WT_CRITICAL"
definition WT_PTRACE :: u32 where "WT_PTRACE = wt WT_CRITICAL"
definition WT_FINITMOD :: u32 where "WT_FINITMOD = wt WT_CRITICAL"
definition WT_INITMOD :: u32 where "WT_INITMOD = wt WT_CRITICAL"
definition WT_MOUNT :: u32 where "WT_MOUNT = wt WT_CRITICAL"
definition WT_FORK :: u32 where "WT_FORK = wt WT_CRITICAL"
definition WT_SETGID :: u32 where "WT_SETGID = wt WT_IMPORTANT"
definition WT_MMAP :: u32 where "WT_MMAP = wt WT_IMPORTANT"
definition WT_CHDIR :: u32 where "WT_CHDIR = wt WT_IMPORTANT"
definition WT_EXIT :: u32 where "WT_EXIT = wt WT_IMPORTANT"
definition WT_UNLINK :: u32 where "WT_UNLINK = wt WT_IMPORTANT"
definition WT_RMDIR :: u32 where "WT_RMDIR = wt WT_IMPORTANT"
definition WT_RENAME :: u32 where "WT_RENAME = wt WT_IMPORTANT"
definition WT_LINK :: u32 where "WT_LINK = wt WT_IMPORTANT"
definition WT_SYMLINK :: u32 where "WT_SYMLINK = wt WT_IMPORTANT"
definition WT_CHMOD :: u32 where "WT_CHMOD = wt WT_IMPORTANT"
definition WT_FCHMOD :: u32 where "WT_FCHMOD = wt WT_IMPORTANT"
definition WT_FCHOWN :: u32 where "WT_FCHOWN = wt WT_IMPORTANT"
definition WT_LCHOWN :: u32 where "WT_LCHOWN = wt WT_IMPORTANT"
definition WT_CHOWN :: u32 where "WT_CHOWN = wt WT_IMPORTANT"
definition WT_OPENWR :: u32 where "WT_OPENWR = wt WT_ENDPOINT"
definition WT_TRUNC :: u32 where "WT_TRUNC = wt WT_ENDPOINT"
definition WT_MKDIR :: u32 where "WT_MKDIR = wt WT_ENDPOINT"
definition WT_MKNOD :: u32 where "WT_MKNOD = wt WT_ENDPOINT"
definition WT_ACCEPT :: u32 where "WT_ACCEPT = wt WT_ENDPOINT"
definition WT_CONNECT :: u32 where "WT_CONNECT = wt WT_ENDPOINT"
definition WT_SPLICE :: u32 where "WT_SPLICE = wt WT_ENDPOINT"
definition WT_VMSPLICE :: u32 where "WT_VMSPLICE = wt WT_ENDPOINT"
definition WT_TEE :: u32 where "WT_TEE = wt WT_ENDPOINT"
definition WT_RECVFROM :: u32 where "WT_RECVFROM = wt WT_DGRAM"
definition WT_SENDTO :: u32 where "WT_SENDTO = wt WT_DGRAM"
definition WT_OPENRD :: u32 where "WT_OPENRD = wt WT_FDTRACK"
definition WT_DUP :: u32 where "WT_DUP = wt WT_FDTRACK"
definition WT_PIPE :: u32 where "WT_PIPE = wt WT_FDTRACK"
definition WT_SOCKPAIR :: u32 where "WT_SOCKPAIR = wt WT_FDTRACK"
definition WT_SOCKET :: u32 where "WT_SOCKET = wt WT_FDTRACK"
definition WT_BIND :: u32 where "WT_BIND = wt WT_RDWR"
definition WT_GETPEER :: u32 where "WT_GETPEER = wt WT_RDWR"
definition WT_READ :: u32 where "WT_READ = wt WT_RDWR"
definition WT_WRITE :: u32 where "WT_WRITE = wt WT_RDWR"
definition WT_SENDFILE64 :: u32 where "WT_SENDFILE64 = wt WT_RDWR"
definition WT_COPY_FILE_RANGE :: u32 where "WT_COPY_FILE_RANGE = wt WT_RDWR"
definition WT_READEX :: u32 where "WT_READEX = wt WT_UNIMPORTANT"
definition WT_WRITEX :: u32 where "WT_WRITEX = wt WT_UNIMPORTANT"
definition WT_CLOSE :: u32 where "WT_CLOSE = wt WT_UNIMPORTANT"
definition WT_MMAPALL :: u32 where "WT_MMAPALL = wt WT_UNIMPORTANT"
definition WT_CLOSE_EX :: u32 where "WT_CLOSE_EX = wt WT_REDUNDANT"

section \<open>Results\<close>

definition is_err :: "s64 \<Rightarrow> bool" where
  "is_err ret \<longleftrightarrow> - 4095 \<le>s ret \<and> ret \<le>s - 1"

definition INVAL_UID :: s64 where "INVAL_UID = - 1"

section \<open>The codes as numbers\<close>

lemmas code_defs =
  CTRL_def ARG_LOOKUP_ERR_def ACCEPT_EX_def BIND_EX_def CLOSE_EN_def CHDIR_EX_def CHMOD_EX_def DUP2_EX_def DUP_EX_def FCHDIR_EX_def EXECVE_EN_def EXECVE_EX_def EXECVEE_EN_def FORK_EN_def FORK_EX_def FCHMOD_EX_def SETGID_EX_def GETPEER_EX_def LCHOWN_EX_def INITMOD_EX_def FINITMOD_EX_def PTRACE_EN_def PTRACE_EX_def KILL_EN_def KILL_EX_def TS_KERN_def CLONE_EN_def CLONE_EX_def LINK_EX_def MOUNT_EX_def MKDIR_EX_def MMAP_EX_def RENAME_EX_def CONNECT_EX_def MKNOD_EX_def CHOWN_EX_def OPEN_EX_def FCHOWN_EX_def PREAD_EX_def PIPE_EX_def MPROTECT_EX_def RMDIR_EX_def READ_EX_def ERR_REP_def SYMLINK_EX_def SENDTO_EX_def SOCKPAIR_EX_def FTRUNC_EX_def TRUNC_EX_def TS_DIFF_def SETUID_EX_def UNLINK_EX_def UMOUNT_EX_def VMSPLICE_EX_def RECVFROM_EX_def PWRITE_EX_def WRITE_EX_def EXIT_EN_def EXITGRP_EN_def SIGNING_KEY_SEED_REC_def SIGNED_RECORD_MAC_REC_def TS_CGROUP_PATH_def

lemma code_values:
  "ARG_LOOKUP_ERR = 65"
  "ACCEPT_EX = 97"
  "BIND_EX = 98"
  "CLOSE_EN = 67"
  "CHDIR_EX = 99"
  "CHMOD_EX = 3"
  "DUP2_EX = 68"
  "DUP_EX = 100"
  "FCHDIR_EX = 4"
  "EXECVE_EN = 69"
  "EXECVE_EX = 101"
  "EXECVEE_EN = 5"
  "FORK_EN = 70"
  "FORK_EX = 102"
  "FCHMOD_EX = 6"
  "SETGID_EX = 71"
  "GETPEER_EX = 103"
  "LCHOWN_EX = 72"
  "INITMOD_EX = 73"
  "FINITMOD_EX = 105"
  "PTRACE_EN = 74"
  "PTRACE_EX = 106"
  "KILL_EN = 75"
  "KILL_EX = 107"
  "TS_KERN = 11"
  "CLONE_EN = 76"
  "CLONE_EX = 108"
  "LINK_EX = 12"
  "MOUNT_EX = 77"
  "MKDIR_EX = 109"
  "MMAP_EX = 13"
  "RENAME_EX = 78"
  "CONNECT_EX = 110"
  "MKNOD_EX = 14"
  "CHOWN_EX = 79"
  "OPEN_EX = 111"
  "FCHOWN_EX = 15"
  "PREAD_EX = 80"
  "PIPE_EX = 112"
  "MPROTECT_EX = 16"
  "RMDIR_EX = 82"
  "READ_EX = 114"
  "ERR_REP = 18"
  "SYMLINK_EX = 83"
  "SENDTO_EX = 115"
  "SOCKPAIR_EX = 19"
  "FTRUNC_EX = 84"
  "TRUNC_EX = 116"
  "TS_DIFF = 20"
  "SETUID_EX = 85"
  "UNLINK_EX = 117"
  "UMOUNT_EX = 21"
  "VMSPLICE_EX = 86"
  "RECVFROM_EX = 118"
  "PWRITE_EX = 87"
  "WRITE_EX = 119"
  "EXIT_EN = 88"
  "EXITGRP_EN = 120"
  "SIGNING_KEY_SEED_REC = 35"
  "SIGNED_RECORD_MAC_REC = 64"
  "TS_CGROUP_PATH = 122"
  by (simp_all add: code_defs)

lemmas weight_defs =
  WT_EXECVE_def WT_SETUID_def WT_KILL_def WT_PTRACE_def WT_FINITMOD_def WT_INITMOD_def WT_MOUNT_def WT_FORK_def WT_SETGID_def WT_MMAP_def WT_CHDIR_def WT_EXIT_def WT_UNLINK_def WT_RMDIR_def WT_RENAME_def WT_LINK_def WT_SYMLINK_def WT_CHMOD_def WT_FCHMOD_def WT_FCHOWN_def WT_LCHOWN_def WT_CHOWN_def WT_OPENWR_def WT_TRUNC_def WT_MKDIR_def WT_MKNOD_def WT_ACCEPT_def WT_CONNECT_def WT_SPLICE_def WT_VMSPLICE_def WT_TEE_def WT_RECVFROM_def WT_SENDTO_def WT_OPENRD_def WT_DUP_def WT_PIPE_def WT_SOCKPAIR_def WT_SOCKET_def WT_BIND_def WT_GETPEER_def WT_READ_def WT_WRITE_def WT_SENDFILE64_def WT_COPY_FILE_RANGE_def WT_READEX_def WT_WRITEX_def WT_CLOSE_def WT_MMAPALL_def WT_CLOSE_EX_def

end
