(* ===== verification/Cache_Props.thy ===== *)
theory Cache_Props
  imports Wire_Format
begin

text \<open>
  What the marshalling functions of \<^verbatim>\<open>src/eauditk.c\<close> write: the byte image of a record as a
  function of its fields, and the refinement of the cached, batched transmission to an
  append-only byte stream.
\<close>

section \<open>Byte images of fields\<close>

definition long_code :: "s64 \<Rightarrow> nat" where
  "long_code v = (if scast (ucast v :: u8) = v then 0 else if scast (ucast v :: u16) = v then 1
     else if scast (ucast v :: u32) = v then 2 else 3)"

definition long_bytes :: "s64 \<Rightarrow> u8 list" where
  "long_bytes v = le_bytes (2 ^ long_code v) v"

lemma long_code_le: "long_code v \<le> 3"
  by (simp add: long_code_def)

lemma length_long_bytes [simp]: "length (long_bytes v) = 2 ^ long_code v"
  by (simp add: long_bytes_def)

lemma length_long_bytes_le: "length (long_bytes v) \<le> 8"
  by (simp add: long_code_def)

lemma addLong_bytes: "addLong m p v = (store m p (long_bytes v), long_code v)"
  by (simp add: addLong_def long_bytes_def long_code_def le_bytes_Suc Let_def)

definition str_bytes :: "audit_env \<Rightarrow> u64 \<Rightarrow> u8 list" where
  "str_bytes e a = (case ae_str e a of None \<Rightarrow> [0]
     | Some bs \<Rightarrow> of_nat (Suc (min 127 (length bs))) # take 127 bs @ [0])"

lemma length_str_bytes: "length (str_bytes e a) \<le> 129" "0 < length (str_bytes e a)"
  by (simp_all add: str_bytes_def split: option.split)

section \<open>The cache as a list of bytes\<close>

definition content :: "buf \<Rightarrow> nat \<Rightarrow> u8 list" where
  "content b i = slice (b_d b) 0 i"

lemma length_content [simp]: "length (content b i) = i"
  by (simp add: content_def)

text \<open>Two caches that differ in the data area at most.\<close>

definition same_but_d :: "buf \<Rightarrow> buf \<Rightarrow> bool" where
  "same_but_d b b' \<longleftrightarrow> b' = b\<lparr>b_d := b_d b'\<rparr>"

lemma same_but_d_upd [simp]: "same_but_d b (b\<lparr>b_d := m\<rparr>)"
  by (simp add: same_but_d_def)

lemma same_but_d_trans [trans]: "same_but_d b b' \<Longrightarrow> same_but_d b' b'' \<Longrightarrow> same_but_d b b''"
  by (metis same_but_d_def buf.surjective buf.update_convs(14))

lemma same_but_d_fields:
  assumes "same_but_d b b'"
  shows "b_idx b' = b_idx b" "b_weight b' = b_weight b" "b_start_ts b' = b_start_ts b"
    "b_current_ts b' = b_current_ts b" "b_lock b' = b_lock b" "b_nargvl b' = b_nargvl b"
  using assms unfolding same_but_d_def by (metis buf.select_convs buf.surjective buf.update_convs(14))+

lemma content_put_long:
  assumes "put_long b a i = (b', i', sz)"
  shows "content b' i' = content b i @ long_bytes a \<and> i' = i + length (long_bytes a) \<and>
    sz = long_code a \<and> same_but_d b b'"
  using assms store_append [of "b_d b" i "long_bytes a"]
  by (auto simp: put_long_def addLong_bytes content_def)

lemma content_add_long_ex:
  assumes "add_long_ex b a i = (b', i')"
  shows "content b' i' = content b i @ le_bytes 8 a \<and> i' = i + 8 \<and> same_but_d b b'"
  using assms store_append [of "b_d b" i "le_bytes 8 a"]
  by (auto simp: add_long_ex_def add_long_full_def content_def)

lemma content_or_hdr:
  assumes "hdr < i"
  shows "content (or_hdr b hdr v) i = (content b i)[hdr := content b i ! hdr OR v] \<and> same_but_d b (or_hdr b hdr v)"
  using assms by (simp add: content_def or_hdr_def slice_upd_in)

text \<open>String fields only change a counter of the state besides the cache.\<close>

definition same_log :: "kstate \<Rightarrow> kstate \<Rightarrow> bool" where
  "same_log s s' \<longleftrightarrow> s' = s\<lparr>ks_mystat := ks_mystat s'\<rparr>"

lemma same_log_refl [simp]: "same_log s s"
  by (simp add: same_log_def)

lemma same_log_stat [simp]: "same_log s (stat_add i n s)"
  by (simp add: same_log_def stat_add_def)

lemma same_log_trans [trans]: "same_log s s' \<Longrightarrow> same_log s' s'' \<Longrightarrow> same_log s s''"
  by (metis same_log_def kstate.surjective kstate.update_convs(3))

lemma content_add_string:
  assumes "add_string e b a i s = (b', i', s')" and "i + 1 < BUFSIZE - 200"
  shows "content b' i' = content b i @ str_bytes e a \<and> i' = i + length (str_bytes e a) \<and>
    same_but_d b b' \<and> same_log s s'"
proof (cases "ae_str e a")
  case None
  with assms show ?thesis
    using upd_append [of "b_d b" i 0]
    by (auto simp: add_string_def probe_read_str_def content_def str_bytes_def Let_def)
next
  case (Some bs)
  let ?out = "take 127 bs @ [0]" and ?n = "of_nat (Suc (min 127 (length bs))) :: u8"
  have len: "min MAX_SLEN (BUFSIZE - (i + 1) - 3) - 1 = 127"
    using assms(2) by (simp add: MAX_SLEN_def)
  have l: "length ?out = Suc (min 127 (length bs))" by simp
  have pr: "probe_read_str e (b_d b) (i + 1) (min MAX_SLEN (BUFSIZE - (i + 1) - 3)) a =
      (store (b_d b) (i + 1) ?out, int (length ?out))"
    by (simp only: probe_read_str_def Some option.case Let_def len)
  have n1: "nat (1 + int k) = Suc k" for k by simp
  have b': "b' = b\<lparr>b_d := (store (b_d b) (i + 1) ?out)(i := ?n)\<rparr>" and i': "i' = i + 1 + length ?out" and s': "s' = s"
    using assms n1 unfolding add_string_def Let_def pr l by auto
  have "(store (b_d b) (i + 1) ?out)(i := ?n) = store ((b_d b)(i := ?n)) (i + 1) ?out"
    by (auto simp: store_def fun_eq_iff)
  with b' i' have "content b' i' = slice (store ((b_d b)(i := ?n)) (i + 1) ?out) 0 (i + 1 + length ?out)"
    by (simp add: content_def)
  also have "\<dots> = slice ((b_d b)(i := ?n)) 0 (i + 1) @ ?out" by (rule store_append)
  finally show ?thesis
    using Some b' i' s' upd_append [of "b_d b" i ?n] by (simp add: content_def str_bytes_def)
qed

text \<open>A block of data: its length in a byte, then its bytes; nothing when it cannot be read.\<close>

definition data_len :: "s32 \<Rightarrow> nat" where
  "data_len n = unat (of_int (min (int MAX_DLEN) (sint n)) :: u8)"

definition data_bytes :: "audit_env \<Rightarrow> u64 \<Rightarrow> s32 \<Rightarrow> u8 list" where
  "data_bytes e a n = (case probe_read e a (data_len n) of None \<Rightarrow> [0] | Some bs \<Rightarrow> of_nat (data_len n) # bs)"

lemma probe_read_0 [simp]: "probe_read e a 0 = Some []"
  by (simp add: probe_read_def)

lemma length_probe_read: "probe_read e a n = Some bs \<Longrightarrow> length bs = n"
proof -
  have "those xs = Some ys \<Longrightarrow> length ys = length xs" for xs :: "'a option list" and ys
    by (induction xs arbitrary: ys) (auto split: option.splits)
  then show "probe_read e a n = Some bs \<Longrightarrow> length bs = n" by (force simp: probe_read_def)
qed

lemma data_len_le: "data_len n \<le> 255"
  using unsigned_less [of "of_int (min (int MAX_DLEN) (sint n)) :: u8", where ?'a = nat] by (simp add: data_len_def)

lemma length_data_bytes: "length (data_bytes e a n) \<le> 256"
  using data_len_le [of n] length_probe_read [of e a] by (auto simp: data_bytes_def split: option.splits)

lemma content_add_data:
  assumes "add_data e b a n i s = (b', i', s', fail)" and "i + 300 < BUFSIZE - 200"
  shows "content b' i' = content b i @ data_bytes e a n \<and> i' = i + length (data_bytes e a n) \<and>
    same_but_d b b' \<and> same_log s s'"
proof (cases "probe_read e a (data_len n)")
  case None
  then have "data_len n \<noteq> 0" by (auto intro: ccontr)
  moreover have "int (data_len n) \<le> int BUFSIZE - int i - 3"
    using assms(2) data_len_le [of n] by linarith
  ultimately show ?thesis
    using assms None upd_append [of "b_d b" i 0]
    by (auto simp: add_data_def data_len_def [symmetric] data_bytes_def content_def Let_def split: if_splits)
next
  case (Some bs)
  have l: "length bs = data_len n" using length_probe_read [OF Some] .
  have fits: "int (data_len n) \<le> int BUFSIZE - int i - 3" "i < BUFSIZE - 200"
    using assms(2) data_len_le [of n] by linarith+
  have s0: "store m k [] = m" for m k by (auto simp: store_def fun_eq_iff)
  have b': "b' = b\<lparr>b_d := (store (b_d b) (i + 1) bs)(i := of_nat (data_len n))\<rparr>"
    and i': "i' = i + 1 + length bs" and s': "same_log s s'"
    using assms(1) fits l Some
    by (cases "data_len n = 0"; auto simp: add_data_def data_len_def [symmetric] Let_def s0 split: if_splits)+
  have "(store (b_d b) (i + 1) bs)(i := of_nat (data_len n)) = store ((b_d b)(i := of_nat (data_len n))) (i + 1) bs"
    by (auto simp: store_def fun_eq_iff)
  with b' i' have "content b' i' = slice (store ((b_d b)(i := of_nat (data_len n))) (i + 1) bs) 0 (i + 1 + length bs)"
    by (simp add: content_def)
  also have "\<dots> = slice ((b_d b)(i := of_nat (data_len n))) 0 (i + 1) @ bs" by (rule store_append)
  finally show ?thesis
    using Some b' i' s' upd_append [of "b_d b" i "of_nat (data_len n)"] by (simp add: content_def data_bytes_def)
qed

section \<open>All records of the marshalling functions\<close>

text \<open>The argument lists of the functions \<open>log_sc_..\<close>, and the function each is passed to.\<close>

datatype sc_args =
    Long0 | Long1 s64 | Long2 s64 s64 | Long3 s64 s64 s64 | Long4 s64 s64 s64 s64
  | Long5 s64 s64 s64 s64 s64
  | Str_long1 u64 s64 | Str_long2 u64 s64 s64 | Str_long3 u64 s64 s64 s64
  | Str_long4 u64 s64 s64 s64 s64 | Str_long5 u64 s64 s64 s64 s64 s64
  | Str2_long2 u64 u64 s64 s64 | Str2_long3 u64 u64 s64 s64 s64
  | Str2_long4 u64 u64 s64 s64 s64 s64 | Str2_long5 u64 u64 s64 s64 s64 s64 s64
  | Str3_long2 u64 u64 u64 s64 s64
  | Data_long2 u64 s32 s64 s64 | Data_long3 u64 s32 s64 s64 s64

fun log_sc :: "config \<Rightarrow> audit_env \<Rightarrow> nat \<Rightarrow> u8 \<Rightarrow> u32 \<Rightarrow> sc_args \<Rightarrow> kstate \<Rightarrow> kstate" where
  "log_sc c e sc nm w Long0 = log_sc_long0 c e sc nm w"
| "log_sc c e sc nm w (Long1 a1) = log_sc_long1 c e sc nm w a1"
| "log_sc c e sc nm w (Long2 a1 a2) = log_sc_long2 c e sc nm w a1 a2"
| "log_sc c e sc nm w (Long3 a1 a2 a3) = log_sc_long3 c e sc nm w a1 a2 a3"
| "log_sc c e sc nm w (Long4 a1 a2 a3 a4) = log_sc_long4 c e sc nm w a1 a2 a3 a4"
| "log_sc c e sc nm w (Long5 a1 a2 a3 a4 a5) = log_sc_long5 c e sc nm w a1 a2 a3 a4 a5"
| "log_sc c e sc nm w (Str_long1 f a1) = log_sc_str_long1 c e sc nm w f a1"
| "log_sc c e sc nm w (Str_long2 f a1 a2) = log_sc_str_long2 c e sc nm w f a1 a2"
| "log_sc c e sc nm w (Str_long3 f a1 a2 a3) = log_sc_str_long3 c e sc nm w f a1 a2 a3"
| "log_sc c e sc nm w (Str_long4 f a1 a2 a3 a4) = log_sc_str_long4 c e sc nm w f a1 a2 a3 a4"
| "log_sc c e sc nm w (Str_long5 f a1 a2 a3 a4 a5) = log_sc_str_long5 c e sc nm w f a1 a2 a3 a4 a5"
| "log_sc c e sc nm w (Str2_long2 f g a1 a2) = log_sc_str2_long2 c e sc nm w f g a1 a2"
| "log_sc c e sc nm w (Str2_long3 f g a1 a2 a3) = log_sc_str2_long3 c e sc nm w f g a1 a2 a3"
| "log_sc c e sc nm w (Str2_long4 f g a1 a2 a3 a4) = log_sc_str2_long4 c e sc nm w f g a1 a2 a3 a4"
| "log_sc c e sc nm w (Str2_long5 f g a1 a2 a3 a4 a5) = log_sc_str2_long5 c e sc nm w f g a1 a2 a3 a4 a5"
| "log_sc c e sc nm w (Str3_long2 f g h a1 a2) = log_sc_str3_long2 c e sc nm w f g h a1 a2"
| "log_sc c e sc nm w (Data_long2 d n a1 a2) = (\<lambda>s. fst (log_sc_data_long2 c e sc nm w d n a1 a2 s))"
| "log_sc c e sc nm w (Data_long3 d n a1 a2 a3) = (\<lambda>s. fst (log_sc_data_long3 c e sc nm w d n a1 a2 a3 s))"

text \<open>The fields of a record: variable-width integers, full-width integers, strings.\<close>

fun arg_fields :: "sc_args \<Rightarrow> s64 list \<times> s64 list \<times> u64 list" where
  "arg_fields Long0 = ([], [], [])"
| "arg_fields (Long1 a1) = ([a1], [], [])"
| "arg_fields (Long2 a1 a2) = ([a1, a2], [], [])"
| "arg_fields (Long3 a1 a2 a3) = ([a1, a2, a3], [], [])"
| "arg_fields (Long4 a1 a2 a3 a4) = ([a1, a2, a3], [a4], [])"
| "arg_fields (Long5 a1 a2 a3 a4 a5) = ([a1, a2, a3], [a4, a5], [])"
| "arg_fields (Str_long1 f a1) = ([a1], [], [f])"
| "arg_fields (Str_long2 f a1 a2) = ([a1, a2], [], [f])"
| "arg_fields (Str_long3 f a1 a2 a3) = ([a1, a2, a3], [], [f])"
| "arg_fields (Str_long4 f a1 a2 a3 a4) = ([a1, a2, a3], [a4], [f])"
| "arg_fields (Str_long5 f a1 a2 a3 a4 a5) = ([a1, a2, a3], [a4, a5], [f])"
| "arg_fields (Str2_long2 f g a1 a2) = ([a1, a2], [], [f, g])"
| "arg_fields (Str2_long3 f g a1 a2 a3) = ([a1, a2, a3], [], [f, g])"
| "arg_fields (Str2_long4 f g a1 a2 a3 a4) = ([a1, a2, a3], [a4], [f, g])"
| "arg_fields (Str2_long5 f g a1 a2 a3 a4 a5) = ([a1, a2, a3], [a4, a5], [f, g])"
| "arg_fields (Str3_long2 f g h a1 a2) = ([a1, a2], [], [f, g, h])"
| "arg_fields (Data_long2 d n a1 a2) = ([a1, a2], [], [])"
| "arg_fields (Data_long3 d n a1 a2 a3) = ([a1, a2, a3], [], [])"

fun data_field :: "sc_args \<Rightarrow> (u64 \<times> s32) option" where
  "data_field (Data_long2 d n a1 a2) = Some (d, n)"
| "data_field (Data_long3 d n a1 a2 a3) = Some (d, n)"
| "data_field _ = None"

definition width_codes :: "s64 list \<Rightarrow> u8" where
  "width_codes ls =
     (case ls of
        [] \<Rightarrow> 0
      | [a1] \<Rightarrow> push_bit 4 (of_nat (long_code a1))
      | [a1, a2] \<Rightarrow> push_bit 4 (of_nat (long_code a1)) OR push_bit 2 (of_nat (long_code a2))
      | a1 # a2 # a3 # _ \<Rightarrow>
          push_bit 4 (of_nat (long_code a1)) OR push_bit 2 (of_nat (long_code a2)) OR of_nat (long_code a3))"

definition field_bytes :: "audit_env \<Rightarrow> sc_args \<Rightarrow> u8 list" where
  "field_bytes e r = (case arg_fields r of (ls, xs, ps) \<Rightarrow>
     concat (map long_bytes ls) @ concat (map (le_bytes 8) xs) @ concat (map (str_bytes e) ps)) @
     (case data_field r of None \<Rightarrow> [] | Some (d, n) \<Rightarrow> data_bytes e d n)"

definition pid_field :: "audit_env \<Rightarrow> s64" where
  "pid_field e = (case gettidpid e of (pidtid, tid, pid) \<Rightarrow> if pid = tid then scast pid else pidtid)"

definition record_bytes :: "audit_env \<Rightarrow> u8 \<Rightarrow> u64 \<Rightarrow> sc_args \<Rightarrow> u8 list" where
  "record_bytes e nm sn r =
     nm # le_bytes 2 sn @ le_bytes 8 (ae_ktime e) @
     (push_bit 6 (of_nat (long_code (pid_field e))) OR width_codes (fst (arg_fields r))) #
     long_bytes (pid_field e) @ le_bytes 8 (ae_cgroup_id e) @
     le_bytes 8 (t_start_time (ae_tasks e (ae_task e))) @ field_bytes e r @ [10]"

lemma length_concat_le:
  assumes "\<And>x. length (f x) \<le> k"
  shows "length (concat (map f xs)) \<le> k * length xs"
  using assms by (induction xs) (auto intro: add_mono)

lemma fields_size:
  assumes "arg_fields r = (ls, xs, ps)"
  shows "8 * length ls + 8 * length xs + 129 * length ps + (if data_field r = None then 0 else 256) \<le> 403"
    and "length ls \<le> 3"
  using assms by (cases r; auto)+

lemma length_field_bytes: "length (field_bytes e r) \<le> 403"
proof -
  obtain ls xs ps where f: "arg_fields r = (ls, xs, ps)" by (cases "arg_fields r")
  have "length (concat (map long_bytes ls)) \<le> 8 * length ls"
    by (rule length_concat_le) (rule length_long_bytes_le)
  moreover have "length (concat (map (le_bytes 8) xs)) \<le> 8 * length xs"
    by (rule length_concat_le) simp
  moreover have "length (concat (map (str_bytes e) ps)) \<le> 129 * length ps"
    by (rule length_concat_le) (rule length_str_bytes(1))
  moreover have "length (case data_field r of None \<Rightarrow> [] | Some (d, n) \<Rightarrow> data_bytes e d n) \<le> (if data_field r = None then 0 else 256)"
    using length_data_bytes [of e] by (auto split: option.splits)
  ultimately show ?thesis
    using fields_size(1) [OF f] by (simp only: field_bytes_def f prod.case length_append)
qed

lemma length_record_bytes: "length (record_bytes e nm sn r) \<le> 440"
  using length_field_bytes [of e r] length_long_bytes_le [of "pid_field e"]
  by (simp add: record_bytes_def del: length_long_bytes)

section \<open>A body of a record appends the fields\<close>

text \<open>
  A function that adds fields after position \<open>i\<close>: it appends \<open>bytes\<close>, and adds \<open>codes\<close> to the
  header byte at \<open>hdr\<close>; nothing else changes.
\<close>

definition writes_fields ::
  "(buf \<Rightarrow> nat \<Rightarrow> nat \<Rightarrow> kstate \<Rightarrow> buf \<times> nat \<times> kstate) \<Rightarrow> u8 \<Rightarrow> u8 list \<Rightarrow> bool" where
  "writes_fields f codes bytes \<longleftrightarrow>
     (\<forall>b i hdr s b' i' s'. hdr < i \<longrightarrow> i + 500 < BUFSIZE - 200 \<longrightarrow> f b i hdr s = (b', i', s') \<longrightarrow>
        content b' i' = (content b i)[hdr := content b i ! hdr OR codes] @ bytes \<and>
        i' = i + length bytes \<and> same_but_d b b' \<and> same_log s s')"

lemma hdr_append:
  assumes "hdr < i" and "content b' i' = content b i @ bs" and "i' = i + length bs" and "same_but_d b b'"
  shows "content (or_hdr b' hdr v) i' = (content b i)[hdr := content b i ! hdr OR v] @ bs \<and>
    same_but_d b (or_hdr b' hdr v)"
proof -
  have "content (or_hdr b' hdr v) i' = (content b' i')[hdr := content b' i' ! hdr OR v]"
    and s: "same_but_d b' (or_hdr b' hdr v)"
    using content_or_hdr [of hdr i' b' v] assms by simp_all
  then show ?thesis
    using assms same_but_d_trans [OF assms(4) s] by (simp add: list_update_append nth_append)
qed

lemma content_put_long2:
  assumes "put_long b a i = (b1, i1, z1)" "put_long b1 a' i1 = (b2, i2, z2)"
  shows "content b2 i2 = content b i @ long_bytes a @ long_bytes a' \<and>
    i2 = i + length (long_bytes a @ long_bytes a') \<and> same_but_d b b2"
  using content_put_long [OF assms(1)] content_put_long [OF assms(2)] same_but_d_trans by force

lemma writes_long0: "writes_fields (\<lambda>b i hdr s. (b, i, s)) 0 []"
  by (simp add: writes_fields_def same_but_d_def)

lemma writes_long1:
  "writes_fields (\<lambda>b i hdr s. let (b, i) = add_long1 b a1 i hdr in (b, i, s)) (width_codes [a1]) (long_bytes a1)"
  unfolding writes_fields_def
proof (intro allI impI)
  fix b i hdr b' i' and s s' :: kstate
  assume h: "hdr < i" and r: "(let (b, i) = add_long1 b a1 i hdr in (b, i, s)) = (b', i', s')"
  obtain b1 i1 z1 where p: "put_long b a1 i = (b1, i1, z1)" by (metis prod_cases3)
  note c = content_put_long [OF p]
  from r p c have "b' = or_hdr b1 hdr (width_codes [a1])" "i' = i1" "s' = s"
    by (auto simp: add_long1_def width_codes_def)
  then show "content b' i' = (content b i)[hdr := content b i ! hdr OR width_codes [a1]] @ long_bytes a1 \<and>
      i' = i + length (long_bytes a1) \<and> same_but_d b b' \<and> same_log s s'"
    using hdr_append [OF h, of b1 i1 b "long_bytes a1" "width_codes [a1]"] c by auto
qed

lemma writes_long2:
  "writes_fields (\<lambda>b i hdr s. let (b, i) = add_long2 b a1 a2 i hdr in (b, i, s)) (width_codes [a1, a2])
     (long_bytes a1 @ long_bytes a2)"
  unfolding writes_fields_def
proof (intro allI impI)
  fix b i hdr b' i' and s s' :: kstate
  assume h: "hdr < i" and r: "(let (b, i) = add_long2 b a1 a2 i hdr in (b, i, s)) = (b', i', s')"
  obtain b1 i1 z1 where p: "put_long b a1 i = (b1, i1, z1)" by (metis prod_cases3)
  obtain b2 i2 z2 where q: "put_long b1 a2 i1 = (b2, i2, z2)" by (metis prod_cases3)
  note z = content_put_long [OF p] content_put_long [OF q] and c = content_put_long2 [OF p q]
  from r p q z have "b' = or_hdr b2 hdr (width_codes [a1, a2])" "i' = i2" "s' = s"
    by (auto simp: add_long2_def width_codes_def)
  then show "content b' i' = (content b i)[hdr := content b i ! hdr OR width_codes [a1, a2]] @ long_bytes a1 @ long_bytes a2 \<and>
      i' = i + length (long_bytes a1 @ long_bytes a2) \<and> same_but_d b b' \<and> same_log s s'"
    using hdr_append [OF h, of b2 i2 b "long_bytes a1 @ long_bytes a2" "width_codes [a1, a2]"] c by auto
qed

lemma writes_long3:
  "writes_fields (\<lambda>b i hdr s. let (b, i) = add_long3 b a1 a2 a3 i hdr in (b, i, s)) (width_codes [a1, a2, a3])
     (long_bytes a1 @ long_bytes a2 @ long_bytes a3)"
  unfolding writes_fields_def
proof (intro allI impI)
  fix b i hdr b' i' and s s' :: kstate
  let ?bs = "long_bytes a1 @ long_bytes a2 @ long_bytes a3"
  assume h: "hdr < i" and r: "(let (b, i) = add_long3 b a1 a2 a3 i hdr in (b, i, s)) = (b', i', s')"
  obtain b1 i1 z1 where p: "put_long b a1 i = (b1, i1, z1)" by (metis prod_cases3)
  obtain b2 i2 z2 where q: "put_long b1 a2 i1 = (b2, i2, z2)" by (metis prod_cases3)
  obtain b3 i3 z3 where t: "put_long b2 a3 i2 = (b3, i3, z3)" by (metis prod_cases3)
  note z = content_put_long [OF p] content_put_long [OF q] content_put_long [OF t]
  have c: "content b3 i3 = content b i @ ?bs" "i3 = i + length ?bs" "same_but_d b b3"
    using z(3) content_put_long2 [OF p q] same_but_d_trans by auto
  from r p q t z have "b' = or_hdr b3 hdr (width_codes [a1, a2, a3])" "i' = i3" "s' = s"
    by (auto simp: add_long3_def width_codes_def)
  then show "content b' i' = (content b i)[hdr := content b i ! hdr OR width_codes [a1, a2, a3]] @ ?bs \<and>
      i' = i + length ?bs \<and> same_but_d b b' \<and> same_log s s'"
    using hdr_append [OF h c] c by simp
qed

definition then_ex where
  "then_ex a f = (\<lambda>b i hdr s. let (b, i, s) = f b i hdr s; (b, i) = add_long_ex b a i in (b, i, s))"

definition then_str where
  "then_str e a f = (\<lambda>b i hdr s. let (b, i, s) = f b i hdr s in add_string e b a i s)"

definition then_data where
  "then_data e d f = (case d of None \<Rightarrow> f
     | Some (a, n) \<Rightarrow> (\<lambda>b i hdr s. let (b, i, s) = f b i hdr s; (b, i, s, fail) = add_data e b a n i s in (b, i, s)))"

lemma writes_data:
  assumes "writes_fields f codes bs" "length bs \<le> 200"
  shows "writes_fields (then_data e (Some (a, n)) f) codes (bs @ data_bytes e a n)"
  unfolding writes_fields_def
proof (intro allI impI)
  fix b i hdr b' i' and s s' :: kstate
  assume h: "hdr < i" "i + 500 < BUFSIZE - 200" and r: "then_data e (Some (a, n)) f b i hdr s = (b', i', s')"
  obtain b1 i1 s1 where p: "f b i hdr s = (b1, i1, s1)" by (metis prod_cases3)
  note w = assms(1) [unfolded writes_fields_def, rule_format, OF h p]
  from r p obtain fail where q: "add_data e b1 a n i1 s1 = (b', i', s', fail)"
    by (auto simp: then_data_def split: prod.splits)
  show "content b' i' = (content b i)[hdr := content b i ! hdr OR codes] @ bs @ data_bytes e a n \<and>
      i' = i + length (bs @ data_bytes e a n) \<and> same_but_d b b' \<and> same_log s s'"
    using w content_add_data [OF q] assms(2) h(2) same_but_d_trans same_log_trans by force
qed

lemma writes_ex:
  assumes "writes_fields f codes bs" shows "writes_fields (then_ex a f) codes (bs @ le_bytes 8 a)"
  unfolding writes_fields_def
proof (intro allI impI)
  fix b i hdr b' i' and s s' :: kstate
  assume h: "hdr < i" "i + 500 < BUFSIZE - 200" and r: "then_ex a f b i hdr s = (b', i', s')"
  obtain b1 i1 s1 where p: "f b i hdr s = (b1, i1, s1)" by (metis prod_cases3)
  from r p have q: "add_long_ex b1 a i1 = (b', i')" and s': "s' = s1"
    by (auto simp: then_ex_def split: prod.splits)
  show "content b' i' = (content b i)[hdr := content b i ! hdr OR codes] @ bs @ le_bytes 8 a \<and>
      i' = i + length (bs @ le_bytes 8 a) \<and> same_but_d b b' \<and> same_log s s'"
    using assms [unfolded writes_fields_def, rule_format, OF h p] content_add_long_ex [OF q] s'
      same_but_d_trans by force
qed

lemma writes_str:
  assumes "writes_fields f codes bs" "length bs \<le> 400"
  shows "writes_fields (then_str e a f) codes (bs @ str_bytes e a)"
  unfolding writes_fields_def
proof (intro allI impI)
  fix b i hdr b' i' and s s' :: kstate
  assume h: "hdr < i" "i + 500 < BUFSIZE - 200" and r: "then_str e a f b i hdr s = (b', i', s')"
  obtain b1 i1 s1 where p: "f b i hdr s = (b1, i1, s1)" by (metis prod_cases3)
  note w = assms(1) [unfolded writes_fields_def, rule_format, OF h p]
  from r p have q: "add_string e b1 a i1 s1 = (b', i', s')" by (simp add: then_str_def)
  show "content b' i' = (content b i)[hdr := content b i ! hdr OR codes] @ bs @ str_bytes e a \<and>
      i' = i + length (bs @ str_bytes e a) \<and> same_but_d b b' \<and> same_log s s'"
    using w content_add_string [OF q] assms(2) h(2) same_but_d_trans same_log_trans by force
qed

definition base_longs where
  "base_longs ls =
     (case ls of
        [] \<Rightarrow> (\<lambda>b i hdr s. (b, i, s))
      | [a1] \<Rightarrow> (\<lambda>b i hdr s. let (b, i) = add_long1 b a1 i hdr in (b, i, s))
      | [a1, a2] \<Rightarrow> (\<lambda>b i hdr s. let (b, i) = add_long2 b a1 a2 i hdr in (b, i, s))
      | a1 # a2 # a3 # _ \<Rightarrow> (\<lambda>b i hdr s. let (b, i) = add_long3 b a1 a2 a3 i hdr in (b, i, s)))"

definition body where
  "body e r = then_data e (data_field r)
     (case arg_fields r of (ls, xs, ps) \<Rightarrow> fold (then_str e) ps (fold then_ex xs (base_longs ls)))"

lemmas log_sc_defs =
  log_sc_long0_def log_sc_long1_def log_sc_long2_def log_sc_long3_def log_sc_long4_def log_sc_long5_def
  log_sc_str_long1_def log_sc_str_long2_def log_sc_str_long3_def log_sc_str_long4_def log_sc_str_long5_def
  log_sc_str2_long2_def log_sc_str2_long3_def log_sc_str2_long4_def log_sc_str2_long5_def log_sc_str3_long2_def
  log_sc_data_long2_def log_sc_data_long3_def

lemma with_data_record_fst:
  "fst (with_data_record c e sc nm w f s) =
   with_record c e sc nm w (\<lambda>b i hdr s. let (b, i, s, fail) = f b i hdr s in (b, i, s)) s"
  by (simp add: with_data_record_def with_record_def Let_def split: prod.splits option.splits)

lemma log_sc_body: "log_sc c e sc nm w r = with_record c e sc nm w (body e r)"
  by (cases r; simp add: fun_eq_iff log_sc_defs with_data_record_fst body_def then_ex_def then_str_def then_data_def
      base_longs_def Let_def split_def)

lemma writes_exs: "writes_fields f codes bs \<Longrightarrow> writes_fields (fold then_ex xs f) codes (bs @ concat (map (le_bytes 8) xs))"
proof (induction xs arbitrary: f bs)
  case Nil
  then show ?case by simp
next
  case (Cons x xs)
  show ?case using Cons.IH [OF writes_ex [OF Cons.prems, of x]] by simp
qed

lemma writes_strs:
  "writes_fields f codes bs \<Longrightarrow> length bs + 129 * length ps \<le> 529 \<Longrightarrow>
   writes_fields (fold (then_str e) ps f) codes (bs @ concat (map (str_bytes e) ps))"
proof (induction ps arbitrary: f bs)
  case Nil
  then show ?case by simp
next
  case (Cons p ps)
  from Cons.prems(2) have "length bs \<le> 400" by simp
  from writes_str [OF Cons.prems(1) this, of e p] show ?case
    using Cons.IH [of "then_str e p f" "bs @ str_bytes e p"] Cons.prems(2) length_str_bytes(1) [of e p] by simp
qed

lemma writes_longs:
  "length ls \<le> 3 \<Longrightarrow> writes_fields (base_longs ls) (width_codes ls) (concat (map long_bytes ls))"
  using writes_long0 writes_long1 writes_long2 writes_long3
  by (auto simp: base_longs_def width_codes_def numeral_3_eq_3 split: list.splits)

lemma writes_body: "writes_fields (body e r) (width_codes (fst (arg_fields r))) (field_bytes e r)"
proof -
  obtain ls xs ps where f: "arg_fields r = (ls, xs, ps)" by (cases "arg_fields r")
  let ?bs = "concat (map long_bytes ls) @ concat (map (le_bytes 8) xs)"
  have "length (concat (map long_bytes ls)) \<le> 8 * length ls"
    by (rule length_concat_le) (rule length_long_bytes_le)
  moreover have "length (concat (map (le_bytes 8) xs)) \<le> 8 * length xs"
    by (rule length_concat_le) simp
  ultimately have b: "length ?bs \<le> 8 * length ls + 8 * length xs" by (simp only: length_append)
  then have "length ?bs + 129 * length ps \<le> 529" using fields_size(1) [OF f] by (simp split: if_splits)
  note w = writes_strs [OF writes_exs [OF writes_longs [OF fields_size(2) [OF f]]] this, of e]
  show ?thesis
  proof (cases "data_field r")
    case None
    with w show ?thesis by (simp add: body_def field_bytes_def f then_data_def)
  next
    case (Some d)
    then have "ps = []" using f by (cases r; auto)
    moreover have "length ?bs \<le> 200"
      using b fields_size(1) [OF f] by (simp add: Some split: if_splits)
    ultimately show ?thesis
      using writes_data [of _ _ ?bs e "fst d" "snd d"] w by (cases d) (simp add: body_def field_bytes_def f Some)
  qed
qed

section \<open>The header\<close>

definition header_bytes :: "audit_env \<Rightarrow> u8 \<Rightarrow> u64 \<Rightarrow> u8 \<Rightarrow> u8 list" where
  "header_bytes e nm sn codes =
     nm # le_bytes 2 sn @ le_bytes 8 (ae_ktime e) @
     (push_bit 6 (of_nat (long_code (pid_field e))) OR codes) #
     long_bytes (pid_field e) @ le_bytes 8 (ae_cgroup_id e) @ le_bytes 8 (t_start_time (ae_tasks e (ae_task e)))"

lemma record_bytes_header:
  "record_bytes e nm sn r = header_bytes e nm sn (width_codes (fst (arg_fields r))) @ field_bytes e r @ [10]"
  by (simp add: record_bytes_def header_bytes_def)

lemma header_codes: "(header_bytes e nm sn 0)[11 := header_bytes e nm sn 0 ! 11 OR v] = header_bytes e nm sn v"
  by (simp add: header_bytes_def list_update_append nth_append)

lemma upd_before_store: "(store m (Suc h) bs)(h := v) = store (m(h := v)) (Suc h) bs"
  by (auto simp: store_def fun_eq_iff)

lemma content_init_header:
  assumes "init_header e nm sn b i = (b', i', hdr)" and "i + 60 < BUFSIZE"
  shows "hdr = i + 11 \<and> i' = i + length (header_bytes e nm sn 0) \<and>
    content b' i' = content b i @ header_bytes e nm sn 0 \<and> same_but_d b b'"
proof -
  let ?m0 = "(b_d b)(i := nm)" let ?m1 = "store ?m0 (i + 1) (le_bytes 2 sn)"
  let ?m2 = "store ?m1 (i + 3) (le_bytes 8 (ae_ktime e))"
  let ?L = "long_bytes (pid_field e)" and ?h = "push_bit 6 (of_nat (long_code (pid_field e))) :: u8"
  let ?m3 = "?m2(i + 11 := ?h)" let ?m4 = "store ?m3 (i + 12) ?L" let ?j = "i + 12 + length ?L"
  let ?m5 = "store ?m4 ?j (le_bytes 8 (ae_cgroup_id e))"
  let ?m6 = "store ?m5 (?j + 8) (le_bytes 8 (t_start_time (ae_tasks e (ae_task e))))"
  have j: "?j < BUFSIZE - 20"
    using assms(2) length_long_bytes_le [of "pid_field e"] by linarith
  have swap: "(store ?m2 (i + 12) ?L)(i + 11 := ?h) = ?m4"
    using upd_before_store [of ?m2 "i + 11" ?L ?h] by (simp add: numeral_eq_Suc)
  have pf: "(if pid = tid then scast pid else pidtid) = pid_field e"
    if "gettidpid e = (pidtid, tid, pid)" for pidtid tid pid
    using that by (simp add: pid_field_def)
  obtain pidtid tid pid where g: "gettidpid e = (pidtid, tid, pid)" by (metis prod_cases3)
  have p: "i + 1 + 2 = i + 3" "i + 3 + 8 = i + 11" "i + 11 + 1 = i + 12" by simp_all
  have eq: "init_header e nm sn b i = (b\<lparr>b_d := ?m6\<rparr>, ?j + 16, i + 11)"
    using j unfolding init_header_def Let_def g prod.case pf [OF g] addLong_bytes p swap
    by (simp only: length_long_bytes if_True prod.case)
  note r0 = trans [OF sym [OF eq] assms(1), unfolded prod.inject]
  have r: "b' = b\<lparr>b_d := ?m6\<rparr>" "i' = ?j + 8 + 8" "hdr = i + 11"
    using r0 by (blast, linarith, blast)
  have "slice ?m6 0 (?j + 8 + 8) = slice ?m5 0 (?j + 8) @ le_bytes 8 (t_start_time (ae_tasks e (ae_task e)))"
    using store_append [of ?m5 "?j + 8" "le_bytes 8 (t_start_time (ae_tasks e (ae_task e)))"] by simp
  moreover have "slice ?m5 0 (?j + 8) = slice ?m4 0 ?j @ le_bytes 8 (ae_cgroup_id e)"
    using store_append [of ?m4 ?j "le_bytes 8 (ae_cgroup_id e)"] by simp
  moreover have "slice ?m4 0 ?j = slice ?m3 0 (i + 12) @ ?L" by (rule store_append)
  moreover have "slice ?m3 0 (i + 12) = slice ?m2 0 (i + 11) @ [?h]"
    using upd_append [of ?m2 "i + 11" ?h] by (simp add: add.commute)
  moreover have "slice ?m2 0 (i + 11) = slice ?m1 0 (i + 3) @ le_bytes 8 (ae_ktime e)"
    using store_append [of ?m1 "i + 3" "le_bytes 8 (ae_ktime e)"] by (simp add: add.commute)
  moreover have "slice ?m1 0 (i + 3) = slice ?m0 0 (i + 1) @ le_bytes 2 sn"
    using store_append [of ?m0 "i + 1" "le_bytes 2 sn"] by (simp add: numeral_3_eq_3)
  moreover have "slice ?m0 0 (i + 1) = content b i @ [nm]"
    using upd_append [of "b_d b" i nm] by (simp add: content_def)
  ultimately have "content b' i' = content b i @ header_bytes e nm sn 0"
    by (simp only: r content_def header_bytes_def append.simps append_assoc or.right_neutral) (simp add: content_def)
  then show ?thesis using r by (simp add: header_bytes_def)
qed

section \<open>The cache and the ring buffer together are a byte stream\<close>

definition payload :: "rb_msg \<Rightarrow> u8 list" where
  "payload m = drop 8 (rb_bytes m)"

text \<open>A message starts with a record of the high bits of the time the cache was started at.\<close>

definition time_stamped :: "rb_msg \<Rightarrow> bool" where
  "time_stamped m \<longleftrightarrow> (\<exists>t. rb_bytes m = le_bytes 8 (TS_RECORD (MS_BITS t)) @ payload m)"

definition cached :: "buf \<Rightarrow> u8 list" where
  "cached b = content b (b_idx b)"

definition cache_inv :: "config \<Rightarrow> kstate \<Rightarrow> bool" where
  "cache_inv c s \<longleftrightarrow> (\<forall>cpu b. ks_buf s cpu = Some b \<longrightarrow> b_idx b < cf_TX_THRESH c \<and> b_lock b = 0)"

text \<open>
  One invocation on \<open>cpu\<close> turned the cache into some \<open>b'\<close>: it added \<open>bytes\<close> to the cache, or it sent
  one message with what the cache held followed by \<open>bytes\<close> and left the cache empty.
\<close>

definition streams :: "config \<Rightarrow> nat \<Rightarrow> u8 list \<Rightarrow> kstate \<Rightarrow> u8 list \<Rightarrow> kstate \<Rightarrow> bool" where
  "streams c cpu old s bytes s' \<longleftrightarrow>
     (\<exists>msgs b'. ks_events s' = ks_events s @ msgs \<and> list_all time_stamped msgs \<and>
        ks_buf s' = (ks_buf s)(cpu \<mapsto> b') \<and> b_idx b' < cf_TX_THRESH c \<and> b_lock b' = 0 \<and>
        (msgs = [] \<and> cached b' = old @ bytes \<or> (\<exists>msg. msgs = [msg] \<and> payload msg = old @ bytes \<and> cached b' = [])))"

lemma cache_image_small:
  "cache_image b (i + 8) = le_bytes 8 (b_tsrec b) @ slice (b_d b) 0 i"
  by (simp add: cache_image_def)

lemma ringbuf_output_ok: "ae_rb_ok e \<Longrightarrow> ringbuf_output e bs w s =
  (s\<lparr>ks_events := ks_events s @ [\<lparr>rb_wake = w, rb_bytes = bs\<rparr>]\<rparr>, True)"
  by (simp add: ringbuf_output_def)

lemma check_xmit1_cases:
  assumes "check_xmit1 c e b i ts tx wk s = (b', i', s')" "ae_rb_ok e" "i + 8 < BUFSIZE - 128"
  shows "(\<not> tx \<and> b' = b \<and> i' = i \<and> s' = s) \<or>
    (\<exists>w. i' = 0 \<and> b' = b\<lparr>b_tsrec := TS_RECORD (MS_BITS (b_start_ts b)), b_idx := 0, b_weight := 0\<rparr> \<and>
      ks_buf s' = ks_buf s \<and> ks_seqn s' = ks_seqn s \<and>
      ks_events s' = ks_events s @
        [\<lparr>rb_wake = w, rb_bytes = le_bytes 8 (TS_RECORD (MS_BITS (b_start_ts b))) @ content b i\<rparr>])"
proof (cases "tx \<or> cached_toolong c (b_idx b) (b_start_ts b) ts")
  case False
  with assms(1) show ?thesis by (simp add: check_xmit1_def)
next
  case True
  have sz: "min (BUFSIZE - 1) (i + 8) = i + 8" "min (i + 8) (BUFSIZE - 64) = i + 8"
    using assms(3) by (auto simp: BUFSIZE_def)
  from True assms(1) show ?thesis
    unfolding check_xmit1_def Let_def sz cache_image_small ringbuf_output_ok [OF assms(2)]
    using assms(3) by (auto simp: stat_add_def content_def split: if_splits)
qed

lemma emit_record_streams:
  assumes "ae_rb_ok e" "i + 9 < BUFSIZE - 200" "0 < cf_TX_THRESH c"
  shows "streams c (ae_cpu e) (content b i) s [10] (emit_record c e b i s)"
proof -
  let ?b = "b\<lparr>b_d := (b_d b)(i := 10)\<rparr>"
  let ?fw = "b_weight b \<ge> cf_TX_WT_THRESH c" let ?tx = "?fw \<or> i + 1 \<ge> cf_TX_THRESH c"
  obtain b' i' s' where x: "check_xmit1 c e ?b (i + 1) (b_current_ts b) ?tx ?fw s = (b', i', s')"
    by (metis prod_cases3)
  have em: "emit_record c e b i s = put_buf (ae_cpu e) (unlock_cache (b'\<lparr>b_idx := i'\<rparr>)) s'"
    using x assms(2) by (simp add: emit_record_def check_xmit_def Let_def)
  have nl: "content ?b (i + 1) = content b i @ [10]"
    by (simp add: content_def upd_append)
  from assms(2) have bound: "i + 1 + 8 < BUFSIZE - 128" by linarith
  from check_xmit1_cases [OF x assms(1) bound] show ?thesis
  proof
    assume "\<not> ?tx \<and> b' = ?b \<and> i' = i + 1 \<and> s' = s"
    then show ?thesis
      unfolding streams_def em
      by (intro exI [of _ "[]"] exI [of _ "unlock_cache (?b\<lparr>b_idx := i + 1\<rparr>)"])
        (use nl in \<open>simp add: put_buf_def unlock_cache_def cached_def content_def\<close>)
  next
    assume "\<exists>w. i' = 0 \<and> b' = ?b\<lparr>b_tsrec := TS_RECORD (MS_BITS (b_start_ts ?b)), b_idx := 0, b_weight := 0\<rparr> \<and>
      ks_buf s' = ks_buf s \<and> ks_seqn s' = ks_seqn s \<and>
      ks_events s' = ks_events s @
        [\<lparr>rb_wake = w, rb_bytes = le_bytes 8 (TS_RECORD (MS_BITS (b_start_ts ?b))) @ content ?b (i + 1)\<rparr>]"
    then show ?thesis
      unfolding streams_def em
      by (elim exE) (rule exI, rule exI [of _ "unlock_cache (b'\<lparr>b_idx := 0\<rparr>)"],
        use nl assms(3) in \<open>auto simp: put_buf_def unlock_cache_def cached_def content_def time_stamped_def payload_def\<close>)
  qed
qed

lemma init_taken:
  assumes "\<not> is_dlogger_descendant c e" "ks_buf s (ae_cpu e) = Some b" "cache_inv c s"
    and "cf_TX_THRESH c \<le> BUFSIZE - 4096"
  shows "\<exists>b' i' s' m. init c e sc nm w s = (s', Some (b', i', b_idx b + 11)) \<and>
    i' = b_idx b + length (header_bytes e nm (ks_seqn s) 0) \<and>
    content b' i' = cached b @ header_bytes e nm (ks_seqn s) 0 \<and>
    ks_events s' = ks_events s \<and> ks_seqn s' = ks_seqn s + 1 \<and> ks_buf s' = (ks_buf s)(ae_cpu e \<mapsto> m)"
proof -
  from assms(2,3) have i: "b_idx b < cf_TX_THRESH c" and l: "b_lock b = 0"
    by (auto simp: cache_inv_def)
  define b1 where "b1 = fst (lock_cache_if_needed c b (ae_ktime e))"
  have lk: "lock_cache_if_needed c b (ae_ktime e) = (b1, True)"
    and b1: "b_idx b1 = b_idx b" "b_d b1 = b_d b"
    using l by (simp_all add: lock_cache_if_needed_def b1_def)
  define s0 where "s0 = (if sc < 500 then incr_sc_entry sc (put_buf (ae_cpu e) b1 s) else put_buf (ae_cpu e) b1 s)"
  define s1 where "s1 = record_syscall_for_flush_window s0"
  define b2 where "b2 = b1\<lparr>b_current_ts := ae_ktime e, b_current_sn := ucast (ucast (ks_seqn s) :: u16)\<rparr>"
  define b3 where "b3 = (if b_idx b = 0 then b2\<lparr>b_start_ts := ae_ktime e\<rparr> else b2)\<lparr>b_current_record_start := b_idx b\<rparr>"
  have q: "ks_seqn s1 = ks_seqn s" "ks_events s1 = ks_events s" "ks_buf s1 = (ks_buf s)(ae_cpu e \<mapsto> b1)"
    by (simp_all add: s1_def s0_def record_syscall_for_flush_window_def incr_sc_entry_def put_buf_def)
  obtain b4 i4 hdr where h: "init_header e nm (ks_seqn s) b3 (b_idx b) = (b4, i4, hdr)"
    by (metis prod_cases3)
  have in60: "b_idx b + 60 < BUFSIZE"
    using i assms(4) by (simp add: BUFSIZE_def)
  have c3: "content b3 (b_idx b) = cached b"
    by (simp add: b3_def b2_def cached_def content_def b1)
  note H = content_init_header [OF h in60]
  have "init c e sc nm w s = (s1\<lparr>ks_seqn := ks_seqn s + 1\<rparr>, Some (b4\<lparr>b_weight := b_weight b4 + w\<rparr>, i4, hdr))"
    using assms(1,2,4) lk i h q(1)
    by (simp add: init_def get_cache_def s0_def [symmetric] s1_def [symmetric] getSeqNum_def b1 b2_def b3_def Let_def
        split: if_splits)
  moreover have "content (b4\<lparr>b_weight := b_weight b4 + w\<rparr>) i4 = content b4 i4"
    by (simp add: content_def)
  ultimately show ?thesis using H q c3 by auto
qed

lemma with_record_streams:
  assumes "\<not> is_dlogger_descendant c e" "ks_buf s (ae_cpu e) = Some b" "cache_inv c s" "ae_rb_ok e"
    and "0 < cf_TX_THRESH c" "cf_TX_THRESH c \<le> BUFSIZE - 4096"
  shows "streams c (ae_cpu e) (cached b) s (record_bytes e nm (ks_seqn s) r) (log_sc c e sc nm w r s)
    \<and> ks_seqn (log_sc c e sc nm w r s) = ks_seqn s + 1"
proof -
  let ?H = "header_bytes e nm (ks_seqn s)" and ?v = "width_codes (fst (arg_fields r))"
  obtain b1 i1 s1 m where in1: "init c e sc nm w s = (s1, Some (b1, i1, b_idx b + 11))"
    and i1: "i1 = b_idx b + length (?H 0)" and c1: "content b1 i1 = cached b @ ?H 0"
    and s1: "ks_events s1 = ks_events s" "ks_seqn s1 = ks_seqn s + 1" "ks_buf s1 = (ks_buf s)(ae_cpu e \<mapsto> m)"
    using init_taken [OF assms(1-3,6), of sc nm w] by blast
  have idx: "b_idx b < cf_TX_THRESH c" using assms(2,3) by (auto simp: cache_inv_def)
  have len: "length (?H 0) \<le> 36" "11 < length (?H 0)"
    using length_long_bytes_le [of "pid_field e"] by (simp_all add: header_bytes_def del: length_long_bytes)
  have pre: "b_idx b + 11 < i1" "i1 + 500 < BUFSIZE - 200"
    using i1 len idx assms(6) by (simp_all add: BUFSIZE_def)
  obtain b2 i2 s2 where bd: "body e r b1 i1 (b_idx b + 11) s1 = (b2, i2, s2)" by (metis prod_cases3)
  have c2: "content b2 i2 = (content b1 i1)[b_idx b + 11 := content b1 i1 ! (b_idx b + 11) OR ?v] @ field_bytes e r"
    and i2: "i2 = i1 + length (field_bytes e r)" and sl: "same_log s1 s2"
    using writes_body [unfolded writes_fields_def, rule_format, OF pre bd] by blast+
  have lb: "length (cached b) = b_idx b" by (simp add: cached_def)
  have "content b2 i2 = cached b @ ?H ?v @ field_bytes e r"
    using header_codes [of e nm "ks_seqn s" ?v] by (simp add: c2 c1 list_update_append nth_append lb)
  moreover have lg: "log_sc c e sc nm w r s = emit_record c e b2 i2 s2"
    by (simp add: log_sc_body with_record_def in1 bd finish_def)
  moreover have "i2 + 9 < BUFSIZE - 200"
    using i2 i1 len length_field_bytes [of e r] idx assms(6) by (simp add: BUFSIZE_def)
  ultimately have st: "streams c (ae_cpu e) (cached b @ ?H ?v @ field_bytes e r) s2 [10] (log_sc c e sc nm w r s)"
    using emit_record_streams [OF assms(4) _ assms(5), of i2 b2 s2] by simp
  have s2: "ks_events s2 = ks_events s" "ks_buf s2 = (ks_buf s)(ae_cpu e \<mapsto> m)" "ks_seqn s2 = ks_seqn s + 1"
    using sl s1 by (metis same_log_def kstate.select_convs kstate.surjective kstate.update_convs(3))+
  have "streams c (ae_cpu e) (cached b) s (record_bytes e nm (ks_seqn s) r) (log_sc c e sc nm w r s)"
    using st unfolding streams_def s2 record_bytes_header by simp
  moreover have "ks_seqn (emit_record c e b2 i2 s2) = ks_seqn s2"
    by (auto simp: emit_record_def check_xmit_def check_xmit1_def ringbuf_output_def put_buf_def stat_add_def Let_def
        split: prod.splits if_splits)
  ultimately show ?thesis using s2(3) lg by simp
qed

section \<open>Runs of calls on one CPU\<close>

type_synonym log_call = "audit_env \<times> nat \<times> u8 \<times> u32 \<times> sc_args"

fun do_call :: "config \<Rightarrow> log_call \<Rightarrow> kstate \<Rightarrow> kstate" where
  "do_call c (e, sc, nm, w, r) s = log_sc c e sc nm w r s"

text \<open>A call the probe accepts: not from below the logger, and the ring buffer has room.\<close>

fun ok_call :: "config \<Rightarrow> nat \<Rightarrow> log_call \<Rightarrow> bool" where
  "ok_call c cpu (e, sc, nm, w, r) \<longleftrightarrow> \<not> is_dlogger_descendant c e \<and> ae_cpu e = cpu \<and> ae_rb_ok e"

fun call_image :: "log_call \<Rightarrow> kstate \<Rightarrow> u8 list" where
  "call_image (e, sc, nm, w, r) s = record_bytes e nm (ks_seqn s) r"

definition cpu_stream :: "nat \<Rightarrow> kstate \<Rightarrow> u8 list" where
  "cpu_stream cpu s = concat (map payload (ks_events s)) @ (case ks_buf s cpu of None \<Rightarrow> [] | Some b \<Rightarrow> cached b)"

definition cache_ready :: "config \<Rightarrow> nat \<Rightarrow> kstate \<Rightarrow> bool" where
  "cache_ready c cpu s \<longleftrightarrow> cache_inv c s \<and> ks_buf s cpu \<noteq> None \<and> list_all time_stamped (ks_events s)"

lemma streams_ready:
  assumes "streams c cpu (cached b) s bytes s'" "ks_buf s cpu = Some b" "cache_ready c cpu s"
  shows "cache_ready c cpu s'" "cpu_stream cpu s' = cpu_stream cpu s @ bytes"
  using assms by (auto simp: streams_def cache_ready_def cache_inv_def cpu_stream_def split: if_splits)

lemma thresholds: "0 < cf_TX_THRESH (dlogger_config p k)" "cf_TX_THRESH (dlogger_config p k) \<le> BUFSIZE - 4096"
  by (simp_all add: dlogger_config_def BUFSIZE_def)

lemma do_call_ready:
  assumes "cache_ready (dlogger_config p k) cpu s" "ok_call (dlogger_config p k) cpu x"
  shows "cache_ready (dlogger_config p k) cpu (do_call (dlogger_config p k) x s)"
    and "cpu_stream cpu (do_call (dlogger_config p k) x s) = cpu_stream cpu s @ call_image x s"
    and "ks_seqn (do_call (dlogger_config p k) x s) = ks_seqn s + 1"
proof -
  obtain e sc nm w r where x: "x = (e, sc, nm, w, r)" by (cases x)
  obtain b where b: "ks_buf s cpu = Some b" using assms(1) by (auto simp: cache_ready_def)
  let ?c = "dlogger_config p k"
  have "streams ?c cpu (cached b) s (call_image x s) (do_call ?c x s) \<and> ks_seqn (do_call ?c x s) = ks_seqn s + 1"
    using with_record_streams [of ?c e s b, OF _ _ _ _ thresholds] assms b by (auto simp: x cache_ready_def)
  then show "cache_ready ?c cpu (do_call ?c x s)" "cpu_stream cpu (do_call ?c x s) = cpu_stream cpu s @ call_image x s"
    "ks_seqn (do_call ?c x s) = ks_seqn s + 1"
    using streams_ready [OF _ b assms(1)] by auto
qed

text \<open>A call leaves its record in the cache, or sends the whole cache with the record in one message.\<close>

lemma do_call_sends:
  assumes "cache_ready (dlogger_config p k) cpu s" "ok_call (dlogger_config p k) cpu x" "ks_buf s cpu = Some b"
  obtains b' where "ks_buf (do_call (dlogger_config p k) x s) cpu = Some b'"
    and "ks_events (do_call (dlogger_config p k) x s) = ks_events s \<and> cached b' = cached b @ call_image x s \<or>
      (\<exists>msg. ks_events (do_call (dlogger_config p k) x s) = ks_events s @ [msg] \<and> time_stamped msg \<and>
        payload msg = cached b @ call_image x s \<and> cached b' = [])"
proof -
  obtain e sc nm w r where x: "x = (e, sc, nm, w, r)" by (cases x)
  have "streams (dlogger_config p k) cpu (cached b) s (call_image x s) (do_call (dlogger_config p k) x s)"
    using with_record_streams [of "dlogger_config p k" e s b, OF _ _ _ _ thresholds] assms by (auto simp: x cache_ready_def)
  then show ?thesis using that by (auto simp: streams_def)
qed

interpretation cache: append_log "cache_ready (dlogger_config p k) cpu" "cpu_stream cpu"
  "ok_call (dlogger_config p k) cpu" "do_call (dlogger_config p k)" call_image for p k cpu
  by unfold_locales (simp_all add: do_call_ready)

text \<open>The records of a run, with consecutive sequence numbers.\<close>

fun call_records :: "u64 \<Rightarrow> log_call list \<Rightarrow> u8 list" where
  "call_records sn [] = []"
| "call_records sn ((e, sc, nm, w, r) # xs) = record_bytes e nm sn r @ call_records (sn + 1) xs"

lemma images_records:
  "cache_ready (dlogger_config p k) cpu s \<Longrightarrow> list_all (ok_call (dlogger_config p k) cpu) xs \<Longrightarrow>
   cache.images p k xs s = call_records (ks_seqn s) xs"
proof (induction xs arbitrary: s)
  case Nil
  show ?case by simp
next
  case (Cons x xs)
  from Cons.prems have "ok_call (dlogger_config p k) cpu x" by simp
  note r = do_call_ready [OF Cons.prems(1) this]
  from Cons.IH [OF r(1)] Cons.prems(2) r(3) show ?case by (cases x) simp
qed

section \<open>The state the maps start in, and a sample environment\<close>

definition empty_buf :: buf where
  "empty_buf = \<lparr>b_idx = 0, b_current_record_start = 0, b_nargvl = 0, b_nenvpl = 0, b_nargpos = 0,
     b_current_sn = 0, b_weight = 0, b_envp = 0, b_argv = 0, b_current_ts = 0, b_lock = 0, b_start_ts = 0,
     b_tsrec = 0, b_d = (\<lambda>_. 0)\<rparr>"

definition kstate_init :: "nat \<Rightarrow> kstate" where
  "kstate_init ncpu =
     \<lparr>ks_buf = (\<lambda>cpu. if cpu < ncpu + 1 then Some empty_buf else None), ks_seqn = 0, ks_mystat = (\<lambda>_. 0),
      ks_count = (\<lambda>_. 0), ks_errcount = (\<lambda>_. 0), ks_syscall_total = 0, ks_events = []\<rparr>"

lemma kstate_init_ready: "cpu \<le> n \<Longrightarrow> cache_ready (dlogger_config p k) cpu (kstate_init n)"
  by (simp add: cache_ready_def cache_inv_def kstate_init_def empty_buf_def thresholds)

definition sample_env :: "u64 \<Rightarrow> audit_env" where
  "sample_env t =
     \<lparr>ae_pid_tgid = 0x700000007, ae_task = 1, ae_tasks = (\<lambda>_. \<lparr>t_tgid = 7, t_real_parent = 0, t_start_time = 5\<rparr>),
      ae_ktime = t, ae_cpu = 0, ae_random = 0, ae_cgroup_id = 3, ae_rb_ok = True, ae_log_wt = 0,
      ae_str = (\<lambda>a. if a = 0 then None else Some [104, 105]), ae_data = (\<lambda>_. Some 9),
      ae_ptrs = (\<lambda>_ n. Some (replicate n 0)), ae_tail_ok = (\<lambda>_. True)\<rparr>"

lemma walk_ancestors_numeral:
  "walk_ancestors tasks p (numeral n) t =
     (if t = 0 then False
      else if t_tgid (tasks t) = p then True
      else walk_ancestors tasks p (pred_numeral n) (t_real_parent (tasks t)))"
  by (simp add: numeral_eq_Suc)

lemma sample_ok: "p \<noteq> 7 \<Longrightarrow> ok_call (dlogger_config p k) 0 (sample_env t, sc, nm, w, r)"
  by (simp add: is_dlogger_descendant_def sample_env_def dlogger_config_def walk_ancestors_numeral)

section \<open>Properties\<close>

text \<open>
  (C9) Batching is invisible: whatever calls of the logging functions one CPU makes, and however the
  probe splits their records between its cache and the messages it sends, the bytes sent followed by
  the bytes still cached are the records of the calls, complete and in order, with consecutive
  sequence numbers. The calls come from processes outside the logger, nothing else holds the lock of
  the cache, and the ring buffer accepts every message (\<open>ok_call\<close>, \<open>cache_ready\<close>): a message that it
  refuses is lost.
\<close>

theorem batching_is_append:
  assumes "cache_ready (dlogger_config p k) cpu s" "list_all (ok_call (dlogger_config p k) cpu) xs"
  shows "cpu_stream cpu (fold (do_call (dlogger_config p k)) xs s) = cpu_stream cpu s @ call_records (ks_seqn s) xs
    \<and> cache_ready (dlogger_config p k) cpu (fold (do_call (dlogger_config p k)) xs s)"
  using cache.run_stream [OF assms] cache.run_inv [OF assms] images_records [OF assms] by simp

theorem batching_is_append_witness:
  "cpu_stream 0 (fold (do_call (dlogger_config 1 True))
     [(sample_env 10, 82, 78, 512, Str_long1 1 200), (sample_env 20, 82, 78, 600, Str_long1 1 200)] (kstate_init 3)) =
   record_bytes (sample_env 10) 78 0 (Str_long1 1 200) @ record_bytes (sample_env 20) 78 1 (Str_long1 1 200)"
proof -
  have "cpu_stream 0 (kstate_init 3) = []" "ks_seqn (kstate_init 3) = 0"
    by (simp_all add: cpu_stream_def kstate_init_def cached_def empty_buf_def content_def)
  then show ?thesis
    using batching_is_append [OF kstate_init_ready [of 0 3 1 True],
        of "[(sample_env 10, 82, 78, 512, Str_long1 1 200), (sample_env 20, 82, 78, 600, Str_long1 1 200)]"]
      sample_ok [of 1 True] by simp
qed

end
