(* ===== verification/Cache_Bounds.thy ===== *)
theory Cache_Bounds
  imports Cache_Props
begin

text \<open>
  The bounds of the per-CPU caches of the audit probe, for every call of its logging functions
  (execve has functions of its own): whether or not the ring buffer accepts a message, a cache can
  be locked, or the caller is logged at all. The BPF verifier makes the program test its positions
  against the end of the buffer; this theory shows how far from it they stay.
\<close>

section \<open>How far the functions that add fields reach\<close>

text \<open>A function that adds fields at \<open>i\<close> moves by at most \<open>k\<close> and writes nothing from \<open>i + k\<close> on.\<close>

definition within :: "nat \<Rightarrow> (buf \<Rightarrow> nat \<Rightarrow> nat \<Rightarrow> kstate \<Rightarrow> buf \<times> nat \<times> kstate) \<Rightarrow> bool" where
  "within k f \<longleftrightarrow> (\<forall>b i hdr s b' i' s'. hdr < i \<longrightarrow> f b i hdr s = (b', i', s') \<longrightarrow>
     i' \<le> i + k \<and> i \<le> i' \<and> (\<forall>x\<ge>i + k. b_d b' x = b_d b x) \<and> ks_buf s' = ks_buf s \<and> ks_events s' = ks_events s)"

lemma withinI:
  assumes "\<And>b i hdr s b' i' s'. hdr < i \<Longrightarrow> f b i hdr s = (b', i', s') \<Longrightarrow>
    i' \<le> i + k \<and> i \<le> i' \<and> (\<forall>x\<ge>i + k. b_d b' x = b_d b x) \<and> ks_buf s' = ks_buf s \<and> ks_events s' = ks_events s"
  shows "within k f"
  using assms unfolding within_def by blast

lemma withinD:
  assumes "within k f" "f b i hdr s = (b', i', s')" "hdr < i"
  shows "i' \<le> i + k" "i \<le> i'" "\<And>x. i + k \<le> x \<Longrightarrow> b_d b' x = b_d b x" "ks_buf s' = ks_buf s" "ks_events s' = ks_events s"
  using assms unfolding within_def by blast+

lemma within_mono: "within k f \<Longrightarrow> k \<le> k' \<Longrightarrow> within k' f"
  unfolding within_def by (meson add_left_mono le_trans)

text \<open>One more field after a function that adds fields.\<close>

lemma within_then:
  assumes f: "within k f"
    and g: "\<And>b i s b' i' s'. g b i s = (b', i', s') \<Longrightarrow>
      i' \<le> i + n \<and> i \<le> i' \<and> (\<forall>x\<ge>i + n. b_d b' x = b_d b x) \<and> ks_buf s' = ks_buf s \<and> ks_events s' = ks_events s"
  shows "within (k + n) (\<lambda>b i hdr s. case f b i hdr s of (b, i, s) \<Rightarrow> g b i s)"
proof (rule withinI)
  fix b i hdr b' i' and s s' :: kstate
  assume h: "hdr < i" "(case f b i hdr s of (b, i, s) \<Rightarrow> g b i s) = (b', i', s')"
  obtain b1 i1 s1 where p: "f b i hdr s = (b1, i1, s1)" by (metis prod_cases3)
  with h(2) have q: "g b1 i1 s1 = (b', i', s')" by simp
  show "i' \<le> i + (k + n) \<and> i \<le> i' \<and> (\<forall>x\<ge>i + (k + n). b_d b' x = b_d b x) \<and> ks_buf s' = ks_buf s \<and> ks_events s' = ks_events s"
    using withinD [OF f p h(1)] g [OF q] by auto
qed

lemma put_long_within:
  assumes "put_long b a i = (b', i', z)"
  shows "i' \<le> i + 8 \<and> i \<le> i' \<and> (\<forall>x\<ge>i + 8. b_d b' x = b_d b x)"
  using assms length_long_bytes_le [of a] by (auto simp: put_long_def addLong_bytes store_other simp flip: length_long_bytes)

lemma within_ex: "within k f \<Longrightarrow> within (k + 8) (then_ex a f)"
  using within_then [of k f "\<lambda>b i s. let (b, i) = add_long_ex b a i in (b, i, s)" 8]
  by (simp add: then_ex_def add_long_ex_def add_long_full_def store_other Let_def)

lemma within_str: "within k f \<Longrightarrow> within (k + 129) (then_str e a f)"
  unfolding then_str_def Let_def
  by (rule within_then)
    (auto simp: add_string_def probe_read_str_def store_other MAX_SLEN_def stat_add_def Let_def split: option.splits if_splits)

lemma add_data_within:
  assumes "add_data e b a n i s = (b', i', s', fail)"
  shows "i' \<le> i + 256 \<and> i \<le> i' \<and> (\<forall>x\<ge>i + 256. b_d b' x = b_d b x) \<and> ks_buf s' = ks_buf s \<and> ks_events s' = ks_events s"
proof -
  have "unat (of_int (min (int MAX_DLEN) (sint n)) :: u8) \<le> 255"
    using data_len_le [of n] by (simp add: data_len_def)
  then show ?thesis
    using assms by (auto simp: add_data_def stat_add_def store_other length_probe_read Let_def split: if_splits option.splits)
qed

lemma within_data:
  assumes "within k f" shows "within (k + 256) (then_data e (Some (a, n)) f)"
proof -
  have "within (k + 256) (\<lambda>b i hdr s. case f b i hdr s of (b, i, s) \<Rightarrow> case add_data e b a n i s of (b, i, s, fail) \<Rightarrow> (b, i, s))"
    by (rule within_then [OF assms]) (auto split: prod.splits dest!: add_data_within)
  then show ?thesis by (simp add: then_data_def Let_def)
qed

text \<open>The fields of variable width, which also change the header byte before them.\<close>

lemma within_long0: "within 0 (\<lambda>b i hdr s. (b, i, s))"
  by (rule withinI) auto

lemma within_long1: "within 8 (\<lambda>b i hdr s. let (b, i) = add_long1 b a1 i hdr in (b, i, s))"
  by (rule withinI) (auto simp: add_long1_def or_hdr_def split: prod.splits dest!: put_long_within)

lemma within_long2: "within 16 (\<lambda>b i hdr s. let (b, i) = add_long2 b a1 a2 i hdr in (b, i, s))"
  by (rule withinI) (auto simp: add_long2_def or_hdr_def split: prod.splits dest!: put_long_within)

lemma within_long3: "within 24 (\<lambda>b i hdr s. let (b, i) = add_long3 b a1 a2 a3 i hdr in (b, i, s))"
  by (rule withinI) (auto simp: add_long3_def or_hdr_def split: prod.splits dest!: put_long_within)

lemma within_longs: "length ls \<le> 3 \<Longrightarrow> within (8 * length ls) (base_longs ls)"
  using within_long0 within_long1 within_long2 within_long3
  by (auto simp: base_longs_def numeral_3_eq_3 split: list.splits)

lemma within_exs: "within k f \<Longrightarrow> within (k + 8 * length xs) (fold then_ex xs f)"
proof (induction xs arbitrary: f k)
  case (Cons x xs)
  show ?case using Cons.IH [OF within_ex [OF Cons.prems, of x]] by (simp add: add.assoc)
qed simp

lemma within_strs: "within k f \<Longrightarrow> within (k + 129 * length ps) (fold (then_str e) ps f)"
proof (induction ps arbitrary: f k)
  case (Cons p ps)
  show ?case using Cons.IH [OF within_str [OF Cons.prems, of e p]] by (simp add: add.assoc)
qed simp

lemma within_body: "within 403 (body e r)"
proof -
  obtain ls xs ps where f: "arg_fields r = (ls, xs, ps)" by (cases "arg_fields r")
  note w = within_strs [OF within_exs [OF within_longs [OF fields_size(2) [OF f]]], of xs ps e]
  show ?thesis
  proof (cases "data_field r")
    case None
    with fields_size(1) [OF f] within_mono [OF w] show ?thesis by (simp add: body_def f then_data_def)
  next
    case (Some d)
    obtain a n where d: "d = (a, n)" by (cases d)
    show ?thesis
      using fields_size(1) [OF f] within_mono [OF within_data [OF w, of e a n]] by (simp add: body_def f Some d)
  qed
qed

section \<open>The invariant of the caches\<close>

lemma init_header_within:
  assumes "init_header e nm sn b i = (b', i', hdr)"
  shows "i' \<le> i + 36 \<and> hdr < i' \<and> (\<forall>x\<ge>i + 36. b_d b' x = b_d b x)"
  using assms length_long_bytes_le [of "case gettidpid e of (pidtid, tid, pid) \<Rightarrow> if pid = tid then scast pid else pidtid"]
  by (auto simp: init_header_def addLong_bytes store_other Let_def split: prod.splits if_splits simp flip: length_long_bytes)

text \<open>
  The contents of a cache end before the threshold at which it is sent, nothing is ever written
  behind the longest record after that, and no message is longer.
\<close>

definition cache_bounded :: "config \<Rightarrow> kstate \<Rightarrow> bool" where
  "cache_bounded c s \<longleftrightarrow>
     (\<forall>cpu b. ks_buf s cpu = Some b \<longrightarrow> b_idx b < cf_TX_THRESH c \<and> (\<forall>x\<ge>cf_TX_THRESH c + 440. b_d b x = 0)) \<and>
     (\<forall>m\<in>set (ks_events s). length (rb_bytes m) < cf_TX_THRESH c + 448)"

lemma cache_boundedD:
  assumes "cache_bounded c s"
  shows "\<And>cpu b. ks_buf s cpu = Some b \<Longrightarrow> b_idx b < cf_TX_THRESH c"
    "\<And>cpu b x. ks_buf s cpu = Some b \<Longrightarrow> cf_TX_THRESH c + 440 \<le> x \<Longrightarrow> b_d b x = 0"
  using assms by (auto simp: cache_bounded_def)

lemma cache_bounded_same:
  "ks_buf s' = ks_buf s \<Longrightarrow> ks_events s' = ks_events s \<Longrightarrow> cache_bounded c s \<Longrightarrow> cache_bounded c s'"
  by (simp add: cache_bounded_def)

lemma cache_bounded_put:
  assumes "cache_bounded c s" "b_idx b < cf_TX_THRESH c" "\<And>x. cf_TX_THRESH c + 440 \<le> x \<Longrightarrow> b_d b x = 0"
  shows "cache_bounded c (put_buf cpu b s)"
  using assms by (auto simp: cache_bounded_def put_buf_def)

lemma length_cache_image: "length (cache_image b sz) \<le> sz"
  by (simp add: cache_image_def)

lemma cache_bounded_stat [simp]: "cache_bounded c (stat_add i n s) = cache_bounded c s"
  by (simp add: cache_bounded_def stat_add_def)

lemma ringbuf_output_bounded:
  "cache_bounded c s \<Longrightarrow> length bs < cf_TX_THRESH c + 448 \<Longrightarrow> cache_bounded c (fst (ringbuf_output e bs w s))"
  by (auto simp: cache_bounded_def ringbuf_output_def)

text \<open>What a flush does, with the counters it keeps left out.\<close>

lemma check_xmit1_flush:
  assumes "tx \<or> cached_toolong c (b_idx b) (b_start_ts b) ts"
  obtains s1 b1 s2 sz w where "check_xmit1 c e b i ts tx wk s = (b1\<lparr>b_idx := 0, b_weight := 0\<rparr>, 0, s2)" "b_d b1 = b_d b"
    "ks_buf s1 = ks_buf s" "ks_events s1 = ks_events s" "sz \<le> i + 8"
    "ks_buf s2 = ks_buf s1" "ks_events s2 = ks_events s1 \<or> ks_events s2 = ks_events (fst (ringbuf_output e (cache_image b1 sz) w s1))"
proof -
  let ?w = "wk \<or> ae_random e < (- 1) div cf_RINGBUF_PUSH_INTERVAL c"
  let ?s = "stat_add RB_BYTES (of_nat (i + 8)) (if ?w then stat_inc RB_WAKEUPS (stat_inc RB_MSGS s) else stat_inc RB_MSGS s)"
  let ?b = "b\<lparr>b_tsrec := TS_RECORD (MS_BITS (b_start_ts b))\<rparr>"
  let ?sz = "min (BUFSIZE - 1) (i + 8)"
  let ?out = "if cf_kernel_le_6_12 c
     then if ?sz < BUFSIZE - 128 then ringbuf_output e (cache_image ?b ?sz) ?w ?s else (?s, False)
     else ringbuf_output e (cache_image ?b (min ?sz (BUFSIZE - 64))) ?w ?s"
  have x: "check_xmit1 c e b i ts tx wk s =
      (?b\<lparr>b_idx := 0, b_weight := 0\<rparr>, 0, if snd ?out then fst ?out else stat_inc RB_FAIL (fst ?out))"
    unfolding check_xmit1_def if_P [OF assms] Let_def case_prod_unfold by (rule refl)
  show ?thesis
    by (rule that [OF x, of ?s "if cf_kernel_le_6_12 c then ?sz else min ?sz (BUFSIZE - 64)" ?w])
      (auto simp: stat_add_def ringbuf_output_def)
qed

lemma check_xmit1_bounded:
  assumes "check_xmit1 c e b i ts tx wk s = (b', i', s')" "cache_bounded c s" "i < cf_TX_THRESH c + 440"
  shows "cache_bounded c s' \<and> b_d b' = b_d b \<and> (i' = 0 \<or> i' = i \<and> \<not> tx)"
proof (cases "tx \<or> cached_toolong c (b_idx b) (b_start_ts b) ts")
  case False
  with assms(1,2) show ?thesis by (simp add: check_xmit1_def)
next
  case True
  from check_xmit1_flush [OF True, of e i wk s] obtain s1 b1 s2 sz w
    where f: "check_xmit1 c e b i ts tx wk s = (b1\<lparr>b_idx := 0, b_weight := 0\<rparr>, 0, s2)" "b_d b1 = b_d b"
      "ks_buf s1 = ks_buf s" "ks_events s1 = ks_events s" "sz \<le> i + 8" "ks_buf s2 = ks_buf s1"
      "ks_events s2 = ks_events s1 \<or> ks_events s2 = ks_events (fst (ringbuf_output e (cache_image b1 sz) w s1))" .
  have s1: "cache_bounded c s1" by (rule cache_bounded_same [OF f(3,4) assms(2)])
  moreover have "length (cache_image b1 sz) < cf_TX_THRESH c + 448"
    using length_cache_image [of b1 sz] f(5) assms(3) by simp
  from ringbuf_output_bounded [OF s1 this] have "cache_bounded c (fst (ringbuf_output e (cache_image b1 sz) w s1))" .
  moreover have "ks_buf (fst (ringbuf_output e (cache_image b1 sz) w s1)) = ks_buf s1" by (simp add: ringbuf_output_def)
  ultimately have "cache_bounded c s2"
    using f(7) cache_bounded_same [of s2 s1] cache_bounded_same [of s2 "fst (ringbuf_output e (cache_image b1 sz) w s1)"] f(6) by auto
  with assms(1) f(1,2) show ?thesis by auto
qed

lemma emit_record_bounded:
  assumes "cache_bounded c s" "i < cf_TX_THRESH c + 439" "0 < cf_TX_THRESH c" "cf_TX_THRESH c \<le> BUFSIZE - 4096"
    and "\<And>x. cf_TX_THRESH c + 440 \<le> x \<Longrightarrow> b_d b x = 0"
  shows "cache_bounded c (emit_record c e b i s)"
proof -
  let ?b = "b\<lparr>b_d := (b_d b)(i := 10)\<rparr>"
  let ?fw = "b_weight b \<ge> cf_TX_WT_THRESH c" let ?tx = "?fw \<or> i + 1 \<ge> cf_TX_THRESH c"
  obtain b' i' s' where x: "check_xmit1 c e ?b (i + 1) (b_current_ts b) ?tx ?fw s = (b', i', s')"
    by (metis prod_cases3)
  have small: "i + 1 < cf_TX_THRESH c + 440" "i < BUFSIZE - 200" using assms(2,4) by (auto simp: BUFSIZE_def)
  have em: "emit_record c e b i s = put_buf (ae_cpu e) (unlock_cache (b'\<lparr>b_idx := i'\<rparr>)) s'"
    using x small(2) by (simp add: emit_record_def check_xmit_def Let_def)
  have "cache_bounded c s'" "b_d b' = (b_d b)(i := 10)" "i' < cf_TX_THRESH c"
    using check_xmit1_bounded [OF x assms(1) small(1)] assms(3) by auto
  then show ?thesis
    unfolding em using assms(2,5) by (intro cache_bounded_put) (auto simp: unlock_cache_def)
qed

lemma init_bounded:
  assumes "init c e sc nm w s = (s', r)" "cache_bounded c s" "cf_TX_THRESH c \<le> BUFSIZE - 4096"
  shows "cache_bounded c s' \<and> (case r of None \<Rightarrow> True
    | Some (b, i, hdr) \<Rightarrow> i < cf_TX_THRESH c + 36 \<and> hdr < i \<and> (\<forall>x\<ge>cf_TX_THRESH c + 440. b_d b x = 0))"
proof (cases "is_dlogger_descendant c e \<or> ks_buf s (ae_cpu e) = None")
  case True
  then show ?thesis
    using assms(1,2)
    by (auto simp: init_def get_cache_def record_syscall_for_flush_window_def incr_sc_entry_def stat_add_def cache_bounded_def Let_def
        split: if_splits)
next
  case False
  then obtain b where b: "ks_buf s (ae_cpu e) = Some b" and log: "\<not> is_dlogger_descendant c e" by auto
  note old = cache_boundedD [OF assms(2) b]
  obtain b1 got where lk: "lock_cache_if_needed c b (ae_ktime e) = (b1, got)" by (metis prod.exhaust)
  then have b1: "b_idx b1 = b_idx b" "b_d b1 = b_d b" by (auto simp: lock_cache_if_needed_def split: if_splits)
  have put: "cache_bounded c (put_buf (ae_cpu e) b1 s)" using old b1 by (intro cache_bounded_put assms(2)) auto
  have idx: "\<not> b_idx b > BUFSIZE - 4096" using old(1) assms(3) by simp
  show ?thesis
  proof (cases got)
    case False
    have "cache_bounded c s' \<and> r = None"
      using assms(1) put log b lk False
      by (auto simp: init_def get_cache_def record_syscall_for_flush_window_def incr_sc_entry_def stat_add_def cache_bounded_def Let_def
          split: if_splits)
    then show ?thesis by simp
  next
    case True
    obtain b2 i2 hdr b3 where h: "init_header e nm (ks_seqn s) b3 (b_idx b) = (b2, i2, hdr)" and b3: "b_d b3 = b_d b"
      and r: "r = Some (b2\<lparr>b_weight := b_weight b2 + w\<rparr>, i2, hdr)"
      and s': "ks_buf s' = ks_buf (put_buf (ae_cpu e) b1 s)" "ks_events s' = ks_events s"
      using assms(1) log b lk True idx b1
      by (auto simp: init_def get_cache_def record_syscall_for_flush_window_def incr_sc_entry_def put_buf_def getSeqNum_def Let_def
          split: if_splits prod.splits)
    have "cache_bounded c s'" by (rule cache_bounded_same [OF s'(1) _ put]) (simp add: s'(2) put_buf_def)
    then show ?thesis
      using init_header_within [OF h] old b3 by (auto simp: r)
  qed
qed

lemma log_sc_bounded:
  assumes "cache_bounded c s" "0 < cf_TX_THRESH c" "cf_TX_THRESH c \<le> BUFSIZE - 4096"
  shows "cache_bounded c (log_sc c e sc nm w r s)"
proof -
  obtain s1 x where i: "init c e sc nm w s = (s1, x)" by (metis prod.exhaust)
  note ib = init_bounded [OF i assms(1,3)]
  show ?thesis
  proof (cases x)
    case None
    with ib i show ?thesis by (simp add: log_sc_body with_record_def)
  next
    case (Some y)
    then obtain b1 i1 hdr where y: "x = Some (b1, i1, hdr)" by (metis prod_cases3)
    obtain b2 i2 s2 where bd: "body e r b1 i1 hdr s1 = (b2, i2, s2)" by (metis prod_cases3)
    have h: "hdr < i1" "i1 < cf_TX_THRESH c + 36" and z: "\<forall>x\<ge>cf_TX_THRESH c + 440. b_d b1 x = 0" and s1: "cache_bounded c s1"
      using ib y by auto
    note w = withinD [OF within_body bd h(1)]
    have "cache_bounded c s2" by (rule cache_bounded_same [OF w(4,5) s1])
    moreover have "b_d b2 x = 0" if "cf_TX_THRESH c + 440 \<le> x" for x using w(3) [of x] z that h(2) by simp
    ultimately have "cache_bounded c (emit_record c e b2 i2 s2)"
      using w(1) h(2) assms(2,3) by (intro emit_record_bounded) auto
    then show ?thesis using i y bd by (simp add: log_sc_body with_record_def finish_def)
  qed
qed

lemma calls_bounded:
  "cache_bounded (dlogger_config p k) s \<Longrightarrow> cache_bounded (dlogger_config p k) (fold (do_call (dlogger_config p k)) xs s)"
proof (induction xs arbitrary: s)
  case (Cons x xs)
  obtain e sc nm w r where x: "x = (e, sc, nm, w, r)" by (cases x)
  show ?case using Cons.IH log_sc_bounded [OF Cons.prems thresholds] by (simp add: x)
qed simp

section \<open>Properties\<close>

text \<open>
  (C39) The caches are never overrun: whatever records the logging functions of the probe (all but
  those of execve) are called to write, on whatever CPUs, whether or not the ring buffer has room, a
  cache holds less than 2048 bytes between the calls, no byte of it behind position 2487 is ever
  written, and no message is longer than 2495 bytes. The buffer has 16256 bytes.
\<close>

theorem caches_not_overrun:
  assumes "s = fold (do_call (dlogger_config p k)) xs (kstate_init n)"
  shows "(\<forall>cpu b. ks_buf s cpu = Some b \<longrightarrow> b_idx b < 2048 \<and> (\<forall>x\<ge>2488. b_d b x = 0)) \<and>
    (\<forall>m\<in>set (ks_events s). length (rb_bytes m) \<le> 2495) \<and> 2495 < BUFSIZE"
proof -
  have "cache_bounded (dlogger_config p k) (kstate_init n)"
    by (auto simp: cache_bounded_def kstate_init_def empty_buf_def dlogger_config_def split: if_splits)
  from calls_bounded [OF this, of xs] assms have "cache_bounded (dlogger_config p k) s" by simp
  then show ?thesis by (auto simp: cache_bounded_def dlogger_config_def BUFSIZE_def)
qed

theorem caches_not_overrun_witness:
  "\<exists>b. ks_buf (fold (do_call (dlogger_config 1 True)) [(sample_env 10, 82, 78, 512, Str_long1 1 200)] (kstate_init 3)) 0 = Some b \<and>
     b_idx b < 2048 \<and> b_d b 2488 = 0"
proof -
  let ?s = "fold (do_call (dlogger_config 1 True)) [(sample_env 10, 82, 78, 512, Str_long1 1 200)] (kstate_init 3)"
  have "cache_ready (dlogger_config 1 True) 0 ?s"
    using do_call_ready(1) [OF kstate_init_ready [of 0 3 1 True] sample_ok [of 1 True 10 82 78 512 "Str_long1 1 200"]] by simp
  then obtain b where "ks_buf ?s 0 = Some b" by (auto simp: cache_ready_def)
  with caches_not_overrun [OF refl, of 1 True "[(sample_env 10, 82, 78, 512, Str_long1 1 200)]" 3] show ?thesis by blast
qed

end
