(* ===== verification/Obj_Id.thy ===== *)
theory Obj_Id
  imports Wire_Format
begin

text \<open>
  Object identifiers of the audit probe, \<^verbatim>\<open>src/eauditk.c\<close> (\<open>fdtoid\<close> and what it calls) and
  \<^verbatim>\<open>src/eauditk.h\<close> (\<open>mkid\<close>, \<open>fdtype\<close>, \<open>getid\<close>). An identifier is a type tag in the low bits and a hash of
  kernel data of the object behind a descriptor. The kernel structures that are read are records.
\<close>

section \<open>Tags\<close>

type_synonym obj_id = u64

definition FILE_ID :: u64 where "FILE_ID = 1"
definition PIPE_ID :: u64 where "PIPE_ID = 0"
definition SELF_NET_ID :: u64 where "SELF_NET_ID = 2"
definition LOCAL_NET_ID :: u64 where "LOCAL_NET_ID = 4"
definition FOREIGN_NET_ID :: u64 where "FOREIGN_NET_ID = 6"

definition fdtype :: "obj_id \<Rightarrow> u64" where
  "fdtype i = (if i AND 1 \<noteq> 0 then 1 else i AND 7)"

definition mkid :: "u64 \<Rightarrow> u64 \<Rightarrow> obj_id" where
  "mkid type i = (if type = FILE_ID then push_bit 1 i OR 1 else push_bit 3 i OR type)"

definition getid :: "obj_id \<Rightarrow> u64" where
  "getid i = (if i AND 1 \<noteq> 0 then drop_bit 1 i else drop_bit 3 i)"

section \<open>Kernel data\<close>

record kinode =
  i_mode :: u32
  i_ino :: u64
  i_sdev :: u32 \<comment> \<open>\<open>i_sb->s_dev\<close>\<close>
  i_generation :: u32
  i_pipe :: u64

text \<open>A UNIX domain socket; \<open>us_addr\<close> is \<open>None\<close> for a null \<open>addr\<close>, else its length, family and name.\<close>

record unix_sock =
  us_ptr :: u64
  us_addr :: "(nat \<times> u16 \<times> mem) option"

record ksock =
  sk_family :: u16
  inet_sport :: u16
  inet_dport :: u16
  inet_daddr :: u32
  inet_rcv_saddr :: u32
  inet_saddr :: u32
  sk_v6_daddr :: "u64 \<times> u64"
  sk_v6_rcv_saddr :: "u64 \<times> u64"
  pinet6_saddr :: "u64 \<times> u64"
  sk_unix :: unix_sock
  sk_peer :: "unix_sock option"

record kfile =
  f_inode :: "kinode option"
  f_sock :: ksock \<comment> \<open>\<open>((struct socket *)private_data)->sk\<close>, read for sockets only\<close>

record fdtable =
  fdt_max_fds :: u32
  fdt_fd :: "u32 \<Rightarrow> kfile"

definition S_IFMT :: u32 where "S_IFMT = 0xF000"

definition S_ISREG :: "u32 \<Rightarrow> bool" where "S_ISREG m \<longleftrightarrow> m AND S_IFMT = 0x8000"
definition S_ISSOCK :: "u32 \<Rightarrow> bool" where "S_ISSOCK m \<longleftrightarrow> m AND S_IFMT = 0xC000"
definition S_ISFIFO :: "u32 \<Rightarrow> bool" where "S_ISFIFO m \<longleftrightarrow> m AND S_IFMT = 0x1000"

definition AF_UNIX :: u16 where "AF_UNIX = 1"
definition AF_INET :: u16 where "AF_INET = 2"
definition AF_INET6 :: u16 where "AF_INET6 = 10"

definition ntohs :: "u16 \<Rightarrow> u16" where
  "ntohs x = push_bit 8 x OR drop_bit 8 x"

definition ntohl :: "u32 \<Rightarrow> u32" where
  "ntohl x = push_bit 24 x OR push_bit 8 (x AND 0xff00) OR (drop_bit 8 x AND 0xff00) OR drop_bit 24 x"

section \<open>Files and pipes\<close>

definition file2fid :: "kinode \<Rightarrow> kstate \<Rightarrow> obj_id \<times> kstate" where
  "file2fid n s =
     (let ino = i_ino n; sdev = ucast (i_sdev n); gen = ucast (i_generation n);
          h1 = (2237624219 * ino + 1336889963 * gen) mod (push_bit 32 1 - 5);
          h2 = (3024840434 * ino + 2790851613 * sdev) mod (push_bit 31 1 - 1);
          s = (if ino = 0 \<or> sdev = 0 then stat_inc FILE_UNFOUND_ERR s else s);
          s = (if h1 = 0 \<or> h2 = 0 then stat_inc FDTOID_ERRS s else s)
      in (mkid FILE_ID (push_bit 32 h2 OR h1), s))"

definition file2pipeid :: "kinode \<Rightarrow> kstate \<Rightarrow> obj_id \<times> kstate" where
  "file2pipeid n s =
     (let s = (if i_ino n = 0 \<or> i_pipe n = 0 then stat_inc PIPE_UNFOUND_ERR s else s)
      in (mkid PIPE_ID (8975298380752413961 * i_ino n + (- 6719241545104527607) * drop_bit 3 (i_pipe n)), s))"

section \<open>Sockets\<close>

text \<open>\<open>kind\<close> is overwritten with \<open>SELF_NET_ID\<close> (\<open>IGNORE_IPADDR_TYPE\<close> is defined).\<close>

definition inetid2objid :: "u64 \<Rightarrow> u64 \<Rightarrow> u64 \<Rightarrow> u16 \<Rightarrow> kstate \<Rightarrow> obj_id \<times> kstate" where
  "inetid2objid remid selfid kind fmly s =
     (let a = 2897563066638482501; kind = SELF_NET_ID;
          rv = (remid + a) * (selfid + a);
          s = (if rv = 0 then stat_inc FDTOID_ERRS s else s)
      in (mkid kind (push_bit 2 rv OR (if fmly \<noteq> AF_INET then 1 else 0)), s))"

text \<open>The network masks are 0 and the network addresses 1 in the configuration of dlogger.\<close>

definition ip4addrtype :: "u32 \<Rightarrow> u64" where
  "ip4addrtype ip =
     (if ip = 0 \<or> drop_bit 24 ip = 0x7f then SELF_NET_ID
      else if ip AND 0 = 1 then LOCAL_NET_ID else FOREIGN_NET_ID)"

definition ip6addrtype :: "u64 \<times> u64 \<Rightarrow> u64" where
  "ip6addrtype addr = FOREIGN_NET_ID"

definition v6ep2id :: "u64 \<times> u64 \<Rightarrow> u32 \<Rightarrow> kstate \<Rightarrow> u64 \<times> kstate" where
  "v6ep2id addr port s =
     (let d1 = (7277111512771247327 * fst addr) mod (push_bit 22 1 - 3);
          d2 = (2846993281888046111 * snd addr) mod (push_bit 21 1 - 9);
          s = (if d1 = 0 \<or> d2 = 0 then stat_inc FDTOID_ERRS s else s)
      in (push_bit 37 d1 OR push_bit 21 (ucast port) OR d2, s))"

text \<open>
  The unrolled rolling hash over at most \<open>n\<close> full words of a name: the hash, the position of the
  rest and its length.
\<close>

fun hash_words :: "nat \<Rightarrow> mem \<Rightarrow> nat \<Rightarrow> int \<Rightarrow> u64 \<Rightarrow> u64 \<times> nat \<times> int" where
  "hash_words 0 m p len rv = (rv, p, if 8 < len then 8 else len)"
| "hash_words (Suc n) m p len rv =
     (if len < 8 then (rv, p, len)
      else hash_words n m (p + 8) (len - 8) (rv * 7892540079625801679 + of_le (slice m p 8)))"

text \<open>
  \<open>t << (8 * (8 - len))\<close>. For an empty rest the shift count is 64, which C leaves undefined; \<open>ub\<close> is
  the value the compiled code delivers then.
\<close>

definition usock_abs2id :: "u64 \<Rightarrow> mem \<Rightarrow> nat \<Rightarrow> u64" where
  "usock_abs2id ub n len =
     (case hash_words 15 n 0 (int len) 1 of (rv, p, len) \<Rightarrow>
        rv * 7892540079625801679 + (if len = 0 then ub else push_bit (nat (8 * (8 - len))) (of_le (slice n p 8))))"

text \<open>\<open>bpf_probe_read_str\<close> into a buffer of 104 bytes with arbitrary old contents \<open>st\<close>; kernel memory is readable.\<close>

fun name_length :: "nat \<Rightarrow> mem \<Rightarrow> nat \<Rightarrow> nat" where
  "name_length 0 m p = 0"
| "name_length (Suc n) m p = (if m p = 0 then 0 else Suc (name_length n m (p + 1)))"

definition usock_fn2id :: "mem \<Rightarrow> mem \<Rightarrow> u64" where
  "usock_fn2id st n =
     (let l = name_length 103 n 0; s = store st 0 (slice n 0 l @ [0])
      in case hash_words 12 s 0 (int l + 1) 1 of (rv, p, len) \<Rightarrow>
           if 0 < len then rv * 7892540079625801679 + push_bit (nat (8 * (8 - len))) (of_le (slice s p 8)) else rv)"

definition usock2id :: "u64 \<Rightarrow> mem \<Rightarrow> unix_sock \<Rightarrow> u64" where
  "usock2id ub st u =
     (case us_addr u of
        None \<Rightarrow> us_ptr u
      | Some (len, fmly, n) \<Rightarrow>
          if len \<le> 2 then us_ptr u
          else if fmly \<noteq> AF_UNIX then 0
          else if n 0 \<noteq> 0 then usock_fn2id st n else usock_abs2id ub n len)"

text \<open>\<open>remid\<close> and \<open>selfid\<close> are declared \<open>u32\<close>: the assignments truncate.\<close>

definition file2sockid :: "u64 \<Rightarrow> mem \<Rightarrow> ksock \<Rightarrow> kstate \<Rightarrow> obj_id \<times> kstate" where
  "file2sockid ub st sk s =
     (let fmly = sk_family sk
      in if fmly = AF_INET \<or> fmly = AF_INET6
         then let selfport = (ucast (ntohs (inet_sport sk)) :: u32);
                  remport = (ucast (ntohs (inet_dport sk)) :: u32)
              in if fmly = AF_INET
                 then let remip = ntohl (inet_daddr sk);
                          selfip = ntohl (inet_rcv_saddr sk);
                          selfip = (if selfip = 0 then inet_saddr sk else selfip);
                          kind = ip4addrtype remip;
                          remid = (ucast (push_bit 16 (ucast remip :: u64) OR ucast remport) :: u32);
                          selfid = (ucast (push_bit 16 (ucast selfip :: u64) OR ucast selfport) :: u32)
                      in inetid2objid (ucast remid) (ucast selfid) kind fmly s
                 else let selfip = (if sk_v6_rcv_saddr sk = (0, 0) then pinet6_saddr sk else sk_v6_rcv_saddr sk);
                          kind = ip6addrtype (sk_v6_daddr sk);
                          (r, s) = v6ep2id (sk_v6_daddr sk) remport s;
                          (l, s) = v6ep2id selfip selfport s
                      in inetid2objid (ucast (ucast r :: u32)) (ucast (ucast l :: u32)) kind fmly s
         else if fmly = AF_UNIX
         then let rv = usock2id ub st (sk_unix sk);
                  rv = (case sk_peer sk of None \<Rightarrow> rv | Some r \<Rightarrow> rv * usock2id ub st r);
                  s = (if rv = 0 then stat_inc FDTOID_ERRS s else s)
              in (mkid SELF_NET_ID (push_bit 2 (drop_bit 2 rv) OR 2), s)
         else (mkid SELF_NET_ID 0, s))"

section \<open>Descriptors\<close>

record id_env =
  ie_fdt :: "fdtable option" \<comment> \<open>\<open>current->files->fdt\<close>\<close>
  ie_ub :: u64
  ie_stack :: mem

definition fdtoid :: "id_env \<Rightarrow> s32 \<Rightarrow> kstate \<Rightarrow> obj_id \<times> kstate" where
  "fdtoid k fd s =
     (let s = stat_inc FDTOID_CALLS s
      in case ie_fdt k of
           None \<Rightarrow> (mkid SELF_NET_ID 0, stat_inc FD_UNFOUND_ERR s)
         | Some t \<Rightarrow>
             (if fd < fdt_max_fds t
              then let file = fdt_fd t fd
                   in case f_inode file of
                        None \<Rightarrow> (mkid SELF_NET_ID 0, stat_inc INODE_UNFOUND_ERR s)
                      | Some n \<Rightarrow>
                          (if S_ISREG (i_mode n) then file2fid n s
                           else if S_ISSOCK (i_mode n) then file2sockid (ie_ub k) (ie_stack k) (f_sock file) s
                           else if S_ISFIFO (i_mode n) then file2pipeid n s
                           else file2fid n s)
              else (mkid SELF_NET_ID 0, stat_inc FD_UNFOUND_ERR s)))"

definition proc :: "id_env \<Rightarrow> s64 \<Rightarrow> kstate \<Rightarrow> u64 \<times> kstate" where
  "proc k fd s = (if 0 \<le>s fd then fdtoid k (ucast fd) s else (fd, s))"

section \<open>Tags and hashes\<close>

definition is_tag :: "u64 \<Rightarrow> bool" where
  "is_tag t \<longleftrightarrow> t \<in> {FILE_ID, PIPE_ID, SELF_NET_ID, LOCAL_NET_ID, FOREIGN_NET_ID}"

lemmas tag_defs = FILE_ID_def PIPE_ID_def SELF_NET_ID_def LOCAL_NET_ID_def FOREIGN_NET_ID_def

lemma and_masks: "x AND 1 = take_bit 1 x" "x AND 7 = take_bit 3 x" for x :: u64
  by (simp_all add: take_bit_eq_mask mask_eq_exp_minus_1)

lemma mkid_low: "t \<noteq> FILE_ID \<Longrightarrow> take_bit 3 (mkid t x) = take_bit 3 t"
  by (simp add: mkid_def take_bit_push_bit)

lemma mkid_file_low: "mkid FILE_ID x AND 1 = 1"
  by (simp add: mkid_def and_masks take_bit_push_bit del: push_bit_Suc push_bit_of_1)

lemma mkid_even: "is_tag t \<Longrightarrow> t \<noteq> FILE_ID \<Longrightarrow> mkid t x AND 1 = 0"
proof -
  assume t: "is_tag t" "t \<noteq> FILE_ID"
  have "take_bit 1 (mkid t x) = take_bit 1 (take_bit 3 (mkid t x))" by (simp del: take_bit_of_1_eq_0_iff)
  also have "\<dots> = 0" using t by (auto simp: mkid_low is_tag_def tag_defs)
  finally show ?thesis by (simp only: and_masks)
qed

lemma fdtype_mkid: "is_tag t \<Longrightarrow> fdtype (mkid t x) = t"
proof (cases "t = FILE_ID")
  case True
  then show ?thesis by (simp add: fdtype_def mkid_file_low) (simp add: FILE_ID_def)
next
  case False
  assume t: "is_tag t"
  then have "mkid t x AND 7 = t"
    using False by (auto simp: and_masks mkid_low is_tag_def tag_defs)
  then show ?thesis using mkid_even [OF t False] by (simp add: fdtype_def)
qed

lemma getid_mkid: "is_tag t \<Longrightarrow> getid (mkid t x) = take_bit (if t = FILE_ID then 63 else 61) x"
proof (cases "t = FILE_ID")
  case True
  have "drop_bit 1 (push_bit 1 x OR 1) = take_bit 63 x"
    by (rule bit_word_eqI) (auto simp: bit_drop_bit_eq bit_or_iff bit_push_bit_iff bit_take_bit_iff bit_1_iff simp del: push_bit_Suc drop_bit_Suc)
  with True show ?thesis by (simp add: getid_def mkid_file_low) (simp add: mkid_def)
next
  case False
  assume t: "is_tag t"
  have "drop_bit 3 (push_bit 3 x OR t) = take_bit 61 x OR drop_bit 3 t"
    by (rule bit_word_eqI) (auto simp: bit_drop_bit_eq bit_or_iff bit_push_bit_iff bit_take_bit_iff)
  moreover have "drop_bit 3 t = 0" using t False by (auto simp: is_tag_def tag_defs drop_bit_eq_div)
  ultimately show ?thesis using False mkid_even [OF t False] by (simp add: getid_def mkid_def)
qed

lemma is_tags [simp]: "is_tag FILE_ID" "is_tag PIPE_ID" "is_tag SELF_NET_ID"
  by (simp_all add: is_tag_def)

lemma fst_inetid: "fdtype (fst (inetid2objid r l kind fmly s)) = SELF_NET_ID"
  by (simp add: inetid2objid_def Let_def fdtype_mkid)

lemma fst_sockid: "fdtype (fst (file2sockid ub st sk s)) = SELF_NET_ID"
  by (auto simp: file2sockid_def Let_def fdtype_mkid fst_inetid split: prod.splits)

section \<open>Properties\<close>

text \<open>
  (C32) The tag of an identifier tells the type of the object: a descriptor of a pipe, of a socket and
  of any other file gets a pipe, a network and a file identifier; tag and hash can be read
  back, so identifiers of different kinds of objects never collide.
\<close>

theorem id_tells_type:
  assumes "ie_fdt k = Some t" "fd < fdt_max_fds t" "f_inode (fdt_fd t fd) = Some n"
  shows "fdtype (fst (fdtoid k fd s)) =
    (if S_ISSOCK (i_mode n) then SELF_NET_ID else if S_ISFIFO (i_mode n) then PIPE_ID else FILE_ID)"
proof -
  have "S_ISREG (i_mode n) \<Longrightarrow> \<not> S_ISSOCK (i_mode n) \<and> \<not> S_ISFIFO (i_mode n)"
    by (simp add: S_ISREG_def S_ISSOCK_def S_ISFIFO_def)
  with assms show ?thesis
    by (auto simp: fdtoid_def Let_def fst_sockid file2fid_def file2pipeid_def fdtype_mkid)
qed

definition sample_inode :: "u32 \<Rightarrow> kinode" where
  "sample_inode m = \<lparr>i_mode = m, i_ino = 12, i_sdev = 1, i_generation = 7, i_pipe = 64\<rparr>"

definition inet_sock :: "u16 \<Rightarrow> u16 \<Rightarrow> u32 \<Rightarrow> u32 \<Rightarrow> ksock" where
  "inet_sock sp dp la ra = \<lparr>sk_family = AF_INET, inet_sport = sp, inet_dport = dp, inet_daddr = ra, inet_rcv_saddr = la,
     inet_saddr = la, sk_v6_daddr = (0, 0), sk_v6_rcv_saddr = (0, 0), pinet6_saddr = (0, 0),
     sk_unix = \<lparr>us_ptr = 0, us_addr = None\<rparr>, sk_peer = None\<rparr>"

definition sample_fdt :: "u32 \<Rightarrow> id_env" where
  "sample_fdt m = \<lparr>ie_fdt = Some \<lparr>fdt_max_fds = 64, fdt_fd = (\<lambda>_. \<lparr>f_inode = Some (sample_inode m), f_sock = inet_sock 1 2 3 4\<rparr>)\<rparr>,
     ie_ub = 0, ie_stack = (\<lambda>_. 0)\<rparr>"

theorem id_tells_type_witness:
  "\<forall>s. fdtype (fst (fdtoid (sample_fdt 0x11B4) 3 s)) = PIPE_ID \<and> fdtype (fst (fdtoid (sample_fdt 0x81B4) 3 s)) = FILE_ID"
proof
  fix s
  let ?t = "\<lambda>m. \<lparr>fdt_max_fds = 64, fdt_fd = (\<lambda>_. \<lparr>f_inode = Some (sample_inode m), f_sock = inet_sock 1 2 3 4\<rparr>)\<rparr>"
  show "fdtype (fst (fdtoid (sample_fdt 0x11B4) 3 s)) = PIPE_ID \<and> fdtype (fst (fdtoid (sample_fdt 0x81B4) 3 s)) = FILE_ID"
    using id_tells_type [of "sample_fdt 0x11B4" "?t 0x11B4" 3 "sample_inode 0x11B4" s]
      id_tells_type [of "sample_fdt 0x81B4" "?t 0x81B4" 3 "sample_inode 0x81B4" s]
    by (simp add: sample_fdt_def sample_inode_def S_ISSOCK_def S_ISFIFO_def S_IFMT_def)
qed

text \<open>
  The two ends of an IPv4 connection between processes of the host get the same identifier, so
  what one end writes is found by what the other end reads.
\<close>

theorem connection_ends_agree:
  assumes "sk_family a = AF_INET" "sk_family b = AF_INET" "inet_sport a = inet_dport b" "inet_dport a = inet_sport b"
    and "inet_rcv_saddr a = inet_daddr b" "inet_daddr a = inet_rcv_saddr b"
    and "ntohl (inet_rcv_saddr a) \<noteq> 0" "ntohl (inet_rcv_saddr b) \<noteq> 0"
  shows "fst (file2sockid ub st a s) = fst (file2sockid ub st b s)"
  using assms by (simp add: file2sockid_def inetid2objid_def Let_def mult.commute)

theorem connection_ends_agree_witness:
  "\<forall>ub st s. fst (file2sockid ub st (inet_sock 80 5 0x100007F 0x200007F) s) = fst (file2sockid ub st (inet_sock 5 80 0x200007F 0x100007F) s)"
  by (intro allI connection_ends_agree) (simp_all add: inet_sock_def ntohl_def)

text \<open>
  (C33) Only the low half of an IPv4 address enters an identifier (the endpoint is truncated to 32
  bits): two remote hosts that agree in it, on the same port, are one object.
\<close>

theorem remote_hosts_collide:
  assumes "sk_family a = AF_INET" "take_bit 16 (ntohl (inet_daddr a)) = take_bit 16 (ntohl ip)"
  shows "fst (file2sockid ub st (a\<lparr>inet_daddr := ip\<rparr>) s) = fst (file2sockid ub st a s)"
proof -
  have trunc: "(ucast (push_bit 16 (ucast (i :: u32) :: u64) OR p) :: u32) = push_bit 16 (take_bit 16 i) OR ucast p" for i p
    by (rule bit_word_eqI) (auto simp: bit_or_iff bit_unsigned_iff bit_push_bit_iff bit_take_bit_iff)
  show ?thesis using assms by (simp add: file2sockid_def inetid2objid_def Let_def trunc)
qed

theorem remote_hosts_collide_witness:
  "\<forall>ub st s. fst (file2sockid ub st (inet_sock 80 5 0x100007F 0x0302090A) s) = fst (file2sockid ub st (inet_sock 80 5 0x100007F 0x0302010A) s)"
proof (intro allI)
  fix ub st s
  show "fst (file2sockid ub st (inet_sock 80 5 0x100007F 0x0302090A) s) = fst (file2sockid ub st (inet_sock 80 5 0x100007F 0x0302010A) s)"
    using remote_hosts_collide [of "inet_sock 80 5 0x100007F 0x0302010A" "0x0302090A" ub st s]
    by (simp add: inet_sock_def ntohl_def)
qed

end
