(* ===== verification/Audit_Handlers.thy ===== *)
theory Audit_Handlers
  imports Event_Codes Obj_Id
begin

text \<open>
  The tracepoint handlers of the audit probe \<^verbatim>\<open>src/eauditk.c\<close> in the configuration of dlogger:
  what is stashed at the entry of a system call, what is logged at its exit, and the records that
  are written at the entry. The handlers of \<open>execve\<close> are in \<open>Audit_Execve\<close>. \<open>LOG_DUP\<close> and \<open>LOG_PIPE\<close>
  are undefined with \<open>ID_NOT_FD\<close>; \<open>REPORT_OPEN_ERRS\<close>, \<open>REPORT_RDWR_ERRS\<close>, \<open>REPORT_MMAP_ERRS\<close> and
  \<open>LOG_MMAPALL\<close> are not defined, \<open>USE_FLUSH_ALGO_A1\<close> neither.
\<close>

section \<open>Tracepoints and the state of the probe\<close>

text \<open>
  The fields of \<open>args\<close> are 64-bit slots, named as in the source. \<open>tp_evict\<close> tells which entries of a
  table with least-recently-used replacement the kernel drops to make room for a new one.
\<close>

record tracepoint =
  tp_env :: audit_env
  tp_ids :: id_env
  tp_args :: "string \<Rightarrow> u64"
  tp_nr :: nat \<comment> \<open>\<open>__syscall_nr\<close>\<close>
  tp_ret :: s64
  tp_real_parent_pid :: u32 \<comment> \<open>\<open>t->real_parent->pid\<close>\<close>
  tp_euid :: u32
  tp_egid :: u32
  tp_ncpu :: nat \<comment> \<open>\<open>NUMCPU\<close>\<close>
  tp_evict :: "u32 \<Rightarrow> bool"

record astate =
  as_k :: kstate
  as_arg :: "u32 \<rightharpoonup> u64"
  as_arg3 :: "u32 \<rightharpoonup> u64 \<times> u64 \<times> u64"
  as_arg5 :: "u32 \<rightharpoonup> u64 \<times> u64 \<times> u64 \<times> u64 \<times> u64"

type_synonym handler = "config \<Rightarrow> tracepoint \<Rightarrow> astate \<Rightarrow> astate"

abbreviation tid :: "tracepoint \<Rightarrow> u32" where "tid e \<equiv> gettid (tp_env e)"

text \<open>\<open>ll && ll->log_wt <= w\<close>; the lookup in an array of one element succeeds.\<close>

definition log_on :: "tracepoint \<Rightarrow> u32 \<Rightarrow> bool" where
  "log_on e w \<longleftrightarrow> ae_log_wt (tp_env e) \<le> w"

definition on_k :: "(kstate \<Rightarrow> kstate) \<Rightarrow> astate \<Rightarrow> astate" where
  "on_k f s = s\<lparr>as_k := f (as_k s)\<rparr>"

definition with_proc :: "tracepoint \<Rightarrow> s64 \<Rightarrow> (u64 \<Rightarrow> astate \<Rightarrow> astate) \<Rightarrow> astate \<Rightarrow> astate" where
  "with_proc e fd f s = (let (oid, k) = proc (tp_ids e) fd (as_k s) in f oid (s\<lparr>as_k := k\<rparr>))"

definition with_fdtoid :: "tracepoint \<Rightarrow> s32 \<Rightarrow> (u64 \<Rightarrow> astate \<Rightarrow> astate) \<Rightarrow> astate \<Rightarrow> astate" where
  "with_fdtoid e fd f s = (let (oid, k) = fdtoid (tp_ids e) fd (as_k s) in f oid (s\<lparr>as_k := k\<rparr>))"

section \<open>Arguments kept between entry and exit\<close>

definition unexp_arg_lookup_err :: "config \<Rightarrow> tracepoint \<Rightarrow> nat \<Rightarrow> astate \<Rightarrow> astate" where
  "unexp_arg_lookup_err c e sc =
     (if sc < 500 \<and> \<not> is_dlogger_descendant c (tp_env e) \<and> log_on e (wt WT_UNIMPORTANT)
      then on_k (\<lambda>k. let k = log_sc_long2 c (tp_env e) sc ERR_REP 8 (ucast ARG_LOOKUP_ERR) (of_nat sc) k;
                         k = stat_inc UNEXP_ARG_LOOKUP_FAIL k
                     in if sc < 400 then k\<lparr>ks_errcount := (ks_errcount k)(sc := ks_errcount k sc + 1)\<rparr> else k)
      else (\<lambda>s. s))"

definition lru_update :: "(u32 \<Rightarrow> bool) \<Rightarrow> (u32 \<rightharpoonup> 'v) \<Rightarrow> u32 \<Rightarrow> 'v \<Rightarrow> (u32 \<rightharpoonup> 'v)" where
  "lru_update ev m k v = (\<lambda>x. if x = k then Some v else if ev x then None else m x)"

definition arg3_record :: "tracepoint \<Rightarrow> s64 \<Rightarrow> s64 \<Rightarrow> s64 \<Rightarrow> astate \<Rightarrow> astate" where
  "arg3_record e l1 l2 l3 s = s\<lparr>as_arg3 := lru_update (tp_evict e) (as_arg3 s) (tid e) (l1, l2, l3)\<rparr>"

definition arg3_retrieve_and_delete ::
  "config \<Rightarrow> tracepoint \<Rightarrow> nat \<Rightarrow> astate \<Rightarrow> astate \<times> (s64 \<times> s64 \<times> s64) option" where
  "arg3_retrieve_and_delete c e sc s =
     (case as_arg3 s (tid e) of
        Some v \<Rightarrow> (s\<lparr>as_arg3 := bpf_delete (as_arg3 s) (tid e)\<rparr>, Some v)
      | None \<Rightarrow> (unexp_arg_lookup_err c e sc s, None))"

definition arg_record :: "tracepoint \<Rightarrow> u64 \<Rightarrow> astate \<Rightarrow> astate" where
  "arg_record e d s = s\<lparr>as_arg := lru_update (tp_evict e) (as_arg s) (tid e) d\<rparr>"

definition arg_retrieve_and_delete :: "config \<Rightarrow> tracepoint \<Rightarrow> nat \<Rightarrow> astate \<Rightarrow> astate \<times> u64 option" where
  "arg_retrieve_and_delete c e sc s =
     (case as_arg s (tid e) of
        Some v \<Rightarrow> (s\<lparr>as_arg := bpf_delete (as_arg s) (tid e)\<rparr>, Some v)
      | None \<Rightarrow> (unexp_arg_lookup_err c e sc s, None))"

definition arg5_record :: "tracepoint \<Rightarrow> u64 \<Rightarrow> u64 \<Rightarrow> u64 \<Rightarrow> u64 \<Rightarrow> u64 \<Rightarrow> astate \<Rightarrow> astate" where
  "arg5_record e d1 d2 d3 d4 d5 s =
     s\<lparr>as_arg5 := lru_update (tp_evict e) (as_arg5 s) (tid e) (d1, d2, d3, d4, d5)\<rparr>"

definition arg5_retrieve_and_delete ::
  "config \<Rightarrow> tracepoint \<Rightarrow> nat \<Rightarrow> astate \<Rightarrow> astate \<times> (s64 \<times> s64 \<times> s64 \<times> s64 \<times> s64) option" where
  "arg5_retrieve_and_delete c e sc s =
     (case as_arg5 s (tid e) of
        Some v \<Rightarrow> (s\<lparr>as_arg5 := bpf_delete (as_arg5 s) (tid e)\<rparr>, Some v)
      | None \<Rightarrow> (unexp_arg_lookup_err c e sc s, None))"

text \<open>The exit handlers go on only when the arguments of the entry are found.\<close>

definition if_found :: "astate \<times> 'a option \<Rightarrow> ('a \<Rightarrow> astate \<Rightarrow> astate) \<Rightarrow> astate" where
  "if_found r f = (case r of (s, None) \<Rightarrow> s | (s, Some v) \<Rightarrow> f v s)"

section \<open>Opening and closing\<close>

definition AT_FDCWD :: s64 where "AT_FDCWD = - 100"
definition AT_SYMLINK_NOFOLLOW :: s64 where "AT_SYMLINK_NOFOLLOW = 0x100"
definition O_WRONLY :: s64 where "O_WRONLY = 1"
definition O_RDWR :: s64 where "O_RDWR = 2"
definition O_CREAT :: s64 where "O_CREAT = 0x40"
definition O_TRUNC :: s64 where "O_TRUNC = 0x200"
definition O_APPEND :: s64 where "O_APPEND = 0x400"

definition open_wt :: "s64 \<Rightarrow> u32" where
  "open_wt flags = (if flags AND (O_APPEND OR O_WRONLY OR O_RDWR) \<noteq> 0 then WT_OPENWR else WT_OPENRD)"

definition store_open_args :: "tracepoint \<Rightarrow> u64 \<Rightarrow> s32 \<Rightarrow> s32 \<Rightarrow> s32 \<Rightarrow> astate \<Rightarrow> astate" where
  "store_open_args e fn at_fd flags mode s =
     (if log_on e (open_wt (to_long flags))
      then arg3_record e fn (to_long at_fd) (push_bit 32 (to_long mode) OR to_long flags) s
      else s)"

definition log_open_exit :: "config \<Rightarrow> tracepoint \<Rightarrow> nat \<Rightarrow> s64 \<Rightarrow> astate \<Rightarrow> astate" where
  "log_open_exit c e sc ret s =
     if_found (arg3_retrieve_and_delete c e sc s) (\<lambda>(fn, at_fd, md_flags).
       if \<not> is_err ret
       then with_fdtoid e (to_int ret) (\<lambda>data. with_proc e at_fd (\<lambda>oid.
              on_k (log_sc_str_long5 c (tp_env e) sc OPEN_EX (open_wt md_flags) fn md_flags at_fd ret oid data)))
       else (\<lambda>s. s))"

definition sys_enter_open :: "handler" where
  "sys_enter_open c e s =
     store_open_args e (tp_args e ''filename'') (to_int AT_FDCWD) (to_int (tp_args e ''flags'')) (to_int (tp_args e ''mode'')) s"

definition sys_exit_open :: "handler" where
  "sys_exit_open c e s =
     log_open_exit c e (tp_nr e) (tp_ret e) s"

definition sys_enter_openat :: "handler" where
  "sys_enter_openat c e s =
     store_open_args e (tp_args e ''filename'') (to_int (tp_args e ''dfd'')) (to_int (tp_args e ''flags'')) (to_int (tp_args e ''mode'')) s"

definition sys_exit_openat :: "handler" where
  "sys_exit_openat c e s =
     log_open_exit c e (tp_nr e) (tp_ret e) s"

definition sys_enter_creat :: "handler" where
  "sys_enter_creat c e s =
     store_open_args e (tp_args e ''pathname'') (to_int AT_FDCWD) (to_int (O_CREAT OR O_WRONLY OR O_TRUNC)) (to_int (tp_args e ''mode'')) s"

definition sys_exit_creat :: "handler" where
  "sys_exit_creat c e s =
     log_open_exit c e (tp_nr e) (tp_ret e) s"

definition sys_enter_truncate :: "handler" where
  "sys_enter_truncate c e s =
     (if log_on e WT_TRUNC then arg3_record e (tp_args e ''path'') (tp_args e ''length'') 0 s else s)"

definition sys_exit_truncate :: "handler" where
  "sys_exit_truncate c e s =
     (if log_on e WT_TRUNC
      then if_found (arg3_retrieve_and_delete c e (tp_nr e) s) (\<lambda>(path, length, l3).
        on_k (log_sc_str_long2 c (tp_env e) (tp_nr e) TRUNC_EX WT_TRUNC path length (tp_ret e)))
      else s)"

definition sys_enter_ftruncate :: "handler" where
  "sys_enter_ftruncate c e s =
     (if log_on e WT_TRUNC then arg3_record e (of_nat (tp_nr e)) (tp_args e ''fd'') (tp_args e ''length'') s else s)"

definition sys_exit_ftruncate :: "handler" where
  "sys_exit_ftruncate c e s =
     (if log_on e WT_TRUNC
      then if_found (arg3_retrieve_and_delete c e (tp_nr e) s) (\<lambda>(ign, fd, length).
        with_proc e fd (\<lambda>oid.
        on_k (log_sc_long3 c (tp_env e) (tp_nr e) FTRUNC_EX WT_TRUNC oid length (push_bit 1 fd OR (tp_ret e AND 1)))))
      else s)"

definition sys_enter_close :: "handler" where
  "sys_enter_close c e s =
     (if log_on e WT_CLOSE
      then on_k (log_sc_long3 c (tp_env e) (tp_nr e) CLOSE_EN WT_CLOSE (to_long (to_int (tp_args e ''fd''))) 0 0) s
      else s)"

section \<open>Sockets\<close>

definition store_saddr_arg :: "tracepoint \<Rightarrow> u32 \<Rightarrow> u64 \<Rightarrow> u64 \<Rightarrow> s64 \<Rightarrow> astate \<Rightarrow> astate" where
  "store_saddr_arg e scwt saddr slen fd s = (if log_on e scwt then arg3_record e saddr slen fd s else s)"

text \<open>A record with a block of data; a block that cannot be read is counted under \<open>i\<close>.\<close>

definition log_data :: "(kstate \<Rightarrow> kstate \<times> bool) \<Rightarrow> stat_idx \<Rightarrow> astate \<Rightarrow> astate" where
  "log_data f i = on_k (\<lambda>k. case f k of (k, fail) \<Rightarrow> if fail then stat_inc i k else k)"

text \<open>\<open>bpf_probe_read(&slen, 4, alen)\<close>: the length the kernel stored, 0 when it cannot be read.\<close>

definition read_slen :: "audit_env \<Rightarrow> u64 \<Rightarrow> u64 \<Rightarrow> kstate \<Rightarrow> s32 \<times> kstate" where
  "read_slen e saddr alen k =
     (if saddr \<noteq> 0 \<and> alen \<noteq> 0
      then case probe_read e alen 4 of
             None \<Rightarrow> (0, stat_inc SADDR_READ_DATA_ERR k)
           | Some bs \<Rightarrow> (ucast (of_le bs), k)
      else (0, k))"

definition log_sc_exit_with_saddr ::
  "config \<Rightarrow> tracepoint \<Rightarrow> nat \<Rightarrow> u8 \<Rightarrow> u32 \<Rightarrow> s64 \<Rightarrow> bool \<Rightarrow> nat \<Rightarrow> astate \<Rightarrow> astate" where
  "log_sc_exit_with_saddr c e sc scnm scwt ret flag errsc s =
     if_found (arg3_retrieve_and_delete c e errsc s) (\<lambda>(saddr, alen, fd) s.
       if \<not> is_err ret
       then (if flag then with_fdtoid e (to_int ret) else (\<lambda>f. f 0)) (\<lambda>oid s.
              let (slen, k) = read_slen (tp_env e) saddr alen (as_k s)
              in log_data (log_sc_data_long3 c (tp_env e) sc scnm scwt saddr slen fd ret oid) SADDR_DATA_ERR
                   (s\<lparr>as_k := k\<rparr>)) s
       else s)"

definition sys_enter_accept :: "handler" where
  "sys_enter_accept c e s =
     store_saddr_arg e WT_ACCEPT (tp_args e ''upeer_sockaddr'') (tp_args e ''upeer_addrlen'') (tp_args e ''fd'') s"

definition sys_exit_accept :: "handler" where
  "sys_exit_accept c e s =
     log_sc_exit_with_saddr c e (tp_nr e) ACCEPT_EX WT_ACCEPT (tp_ret e) True (tp_nr e) s"

definition sys_enter_accept4 :: "handler" where
  "sys_enter_accept4 c e s =
     store_saddr_arg e WT_ACCEPT (tp_args e ''upeer_sockaddr'') (tp_args e ''upeer_addrlen'') (tp_args e ''fd'') s"

definition sys_exit_accept4 :: "handler" where
  "sys_exit_accept4 c e s =
     log_sc_exit_with_saddr c e (tp_nr e) ACCEPT_EX WT_ACCEPT (tp_ret e) True (tp_nr e) s"

definition sys_exit_socket :: "handler" where
  "sys_exit_socket c e s =
     s"

definition sys_enter_connect :: "handler" where
  "sys_enter_connect c e s =
     arg3_record e (tp_args e ''uservaddr'') (tp_args e ''addrlen'') (to_long (to_int (tp_args e ''fd''))) s"

definition sys_exit_connect :: "handler" where
  "sys_exit_connect c e s =
     if_found (arg3_retrieve_and_delete c e (tp_nr e) s) (\<lambda>(saddr, addrlen, fd).
        if \<not> is_err (tp_ret e)
        then with_fdtoid e (to_int fd) (\<lambda>oid.
               log_data (log_sc_data_long3 c (tp_env e) (tp_nr e) CONNECT_EX WT_CONNECT saddr (to_int addrlen) fd oid (tp_ret e))
                 CONN_DATA_ERR)
        else (\<lambda>s. s))"

definition sys_enter_getpeername :: "handler" where
  "sys_enter_getpeername c e s =
     store_saddr_arg e WT_GETPEER (tp_args e ''usockaddr'') (tp_args e ''usockaddr_len'') (tp_args e ''fd'') s"

definition sys_exit_getpeername :: "handler" where
  "sys_exit_getpeername c e s =
     log_sc_exit_with_saddr c e (tp_nr e) GETPEER_EX WT_GETPEER (tp_ret e) False (tp_nr e) s"

definition sys_enter_bind :: "handler" where
  "sys_enter_bind c e s =
     (if log_on e WT_BIND then arg3_record e (tp_args e ''umyaddr'') (tp_args e ''addrlen'') (tp_args e ''fd'') s else s)"

definition sys_exit_bind :: "handler" where
  "sys_exit_bind c e s =
     (if log_on e WT_BIND
      then if_found (arg3_retrieve_and_delete c e (tp_nr e) s) (\<lambda>(umyaddr, addrlen, fd).
        log_data (log_sc_data_long2 c (tp_env e) (tp_nr e) BIND_EX WT_BIND umyaddr (to_int addrlen) fd (tp_ret e)) BIND_DATA_ERR)
      else s)"

section \<open>Reading\<close>

definition read_entry :: "config \<Rightarrow> tracepoint \<Rightarrow> s32 \<Rightarrow> astate \<Rightarrow> astate" where
  "read_entry c e fd s =
     (if is_dlogger_descendant c (tp_env e) then s
      else if log_on e WT_READ then arg_record e (to_long fd) s else s)"

definition read_entry1 :: "config \<Rightarrow> tracepoint \<Rightarrow> u64 \<Rightarrow> u64 \<Rightarrow> s32 \<Rightarrow> astate \<Rightarrow> astate" where
  "read_entry1 c e addr addr_len fd s =
     (if is_dlogger_descendant c (tp_env e) then s
      else if log_on e WT_READ
      then if addr = 0 \<or> addr_len = 0 then arg_record e (to_long fd) s
           else store_saddr_arg e WT_RECVFROM addr addr_len (to_long fd) s
      else s)"

definition log_read :: "config \<Rightarrow> tracepoint \<Rightarrow> nat \<Rightarrow> u8 \<Rightarrow> s32 \<Rightarrow> s64 \<Rightarrow> astate \<Rightarrow> astate" where
  "log_read c e sc scnm fd ret =
     (if is_err ret then (\<lambda>s. s)
      else with_proc e (to_long fd) (\<lambda>oid. on_k (log_sc_long3 c (tp_env e) sc scnm WT_READ (to_long fd) oid ret)))"

definition read_exit :: "config \<Rightarrow> tracepoint \<Rightarrow> nat \<Rightarrow> u8 \<Rightarrow> s64 \<Rightarrow> nat \<Rightarrow> astate \<Rightarrow> astate \<times> bool" where
  "read_exit c e sc scnm ret errsc s =
     (case arg_retrieve_and_delete c e errsc s of
        (s, Some fd) \<Rightarrow> (log_read c e sc scnm (to_int fd) ret s, True)
      | (s, None) \<Rightarrow> (s, False))"

definition read_exit1 :: "config \<Rightarrow> tracepoint \<Rightarrow> nat \<Rightarrow> u8 \<Rightarrow> u32 \<Rightarrow> s64 \<Rightarrow> astate \<Rightarrow> astate" where
  "read_exit1 c e sc scnm scwt ret s =
     (case read_exit c e sc READ_EX ret 600 s of
        (s, True) \<Rightarrow> s
      | (s, False) \<Rightarrow> log_sc_exit_with_saddr c e sc scnm scwt ret False sc s)"

definition sys_enter_read :: "handler" where
  "sys_enter_read c e s =
     read_entry c e (to_int (tp_args e ''fd'')) s"

definition sys_enter_readv :: "handler" where
  "sys_enter_readv c e s =
     read_entry c e (to_int (tp_args e ''fd'')) s"

definition sys_enter_recvmsg :: "handler" where
  "sys_enter_recvmsg c e s =
     read_entry c e (to_int (tp_args e ''fd'')) s"

definition sys_enter_recvmmsg :: "handler" where
  "sys_enter_recvmmsg c e s =
     read_entry c e (to_int (tp_args e ''fd'')) s"

definition sys_enter_pread64 :: "handler" where
  "sys_enter_pread64 c e s =
     read_entry c e (to_int (tp_args e ''fd'')) s"

definition sys_enter_preadv :: "handler" where
  "sys_enter_preadv c e s =
     read_entry c e (to_int (tp_args e ''fd'')) s"

definition sys_enter_preadv2 :: "handler" where
  "sys_enter_preadv2 c e s =
     read_entry c e (to_int (tp_args e ''fd'')) s"

definition sys_enter_recvfrom :: "handler" where
  "sys_enter_recvfrom c e s =
     read_entry1 c e (tp_args e ''addr'') (tp_args e ''addr_len'') (to_int (tp_args e ''fd'')) s"

definition sys_exit_read :: "handler" where
  "sys_exit_read c e s =
     (if log_on e WT_READEX then fst (read_exit c e (tp_nr e) READ_EX (tp_ret e) (tp_nr e) s) else s)"

definition sys_exit_readv :: "handler" where
  "sys_exit_readv c e s =
     (if log_on e WT_READEX then fst (read_exit c e (tp_nr e) READ_EX (tp_ret e) (tp_nr e) s) else s)"

definition sys_exit_recvmsg :: "handler" where
  "sys_exit_recvmsg c e s =
     (if log_on e WT_READEX then fst (read_exit c e (tp_nr e) READ_EX (tp_ret e) (tp_nr e) s) else s)"

definition sys_exit_recvmmsg :: "handler" where
  "sys_exit_recvmmsg c e s =
     fst (read_exit c e (tp_nr e) READ_EX (tp_ret e) (tp_nr e) s)"

definition sys_exit_pread64 :: "handler" where
  "sys_exit_pread64 c e s =
     (if log_on e WT_READEX then fst (read_exit c e (tp_nr e) READ_EX (tp_ret e) (tp_nr e) s) else s)"

definition sys_exit_preadv :: "handler" where
  "sys_exit_preadv c e s =
     (if log_on e WT_READEX then fst (read_exit c e (tp_nr e) READ_EX (tp_ret e) (tp_nr e) s) else s)"

definition sys_exit_preadv2 :: "handler" where
  "sys_exit_preadv2 c e s =
     (if log_on e WT_READEX then fst (read_exit c e (tp_nr e) READ_EX (tp_ret e) (tp_nr e) s) else s)"

definition sys_exit_recvfrom :: "handler" where
  "sys_exit_recvfrom c e s =
     (if log_on e WT_READEX then read_exit1 c e (tp_nr e) RECVFROM_EX WT_RECVFROM (tp_ret e) s else s)"

section \<open>Writing\<close>

definition write_entry :: "config \<Rightarrow> tracepoint \<Rightarrow> s32 \<Rightarrow> astate \<Rightarrow> astate" where
  "write_entry c e fd s =
     (if is_dlogger_descendant c (tp_env e) then s
      else if log_on e WT_WRITE then arg_record e (to_long fd) s else s)"

definition write_entry1 :: "config \<Rightarrow> tracepoint \<Rightarrow> u64 \<Rightarrow> s32 \<Rightarrow> s32 \<Rightarrow> astate \<Rightarrow> astate" where
  "write_entry1 c e addr len fd s =
     (if is_dlogger_descendant c (tp_env e) then s
      else if log_on e WT_WRITE
      then if addr = 0 \<or> len = 0 then arg_record e (to_long fd) s
           else arg3_record e addr (to_long len) (to_long fd) s
      else s)"

definition log_write :: "config \<Rightarrow> tracepoint \<Rightarrow> nat \<Rightarrow> u8 \<Rightarrow> s32 \<Rightarrow> s64 \<Rightarrow> astate \<Rightarrow> astate" where
  "log_write c e sc scnm fd ret =
     (if is_err ret then (\<lambda>s. s)
      else with_proc e (to_long fd) (\<lambda>oid. on_k (log_sc_long3 c (tp_env e) sc scnm WT_WRITE (to_long fd) oid ret)))"

definition write_exit :: "config \<Rightarrow> tracepoint \<Rightarrow> nat \<Rightarrow> u8 \<Rightarrow> s64 \<Rightarrow> nat \<Rightarrow> astate \<Rightarrow> astate \<times> bool" where
  "write_exit c e sc scnm ret errsc s =
     (case arg_retrieve_and_delete c e errsc s of
        (s, Some fd) \<Rightarrow> (log_write c e sc scnm (to_int fd) ret s, True)
      | (s, None) \<Rightarrow> (s, False))"

definition write_exit1 :: "config \<Rightarrow> tracepoint \<Rightarrow> nat \<Rightarrow> u8 \<Rightarrow> u32 \<Rightarrow> s64 \<Rightarrow> astate \<Rightarrow> astate" where
  "write_exit1 c e sc scnm scwt ret s =
     (case write_exit c e sc WRITE_EX ret 600 s of
        (s, True) \<Rightarrow> s
      | (s, False) \<Rightarrow>
          if_found (arg3_retrieve_and_delete c e sc s) (\<lambda>(saddr, addrlen, fd).
            if \<not> is_err ret
            then log_data (log_sc_data_long2 c (tp_env e) sc scnm scwt saddr
                   (to_int (if addrlen <s 0 then 0 else addrlen)) fd ret) SENDTO_DATA_ERR
            else (\<lambda>s. s)))"

definition sendfile64_entry :: "config \<Rightarrow> tracepoint \<Rightarrow> s32 \<Rightarrow> s32 \<Rightarrow> astate \<Rightarrow> astate" where
  "sendfile64_entry c e in_fd out_fd s =
     (if is_dlogger_descendant c (tp_env e) then s
      else if log_on e WT_SENDFILE64
      then arg_record e (push_bit 32 (to_long in_fd) + to_long out_fd) s else s)"

definition sendfile64_exit :: "config \<Rightarrow> tracepoint \<Rightarrow> nat \<Rightarrow> u8 \<Rightarrow> s64 \<Rightarrow> astate \<Rightarrow> astate" where
  "sendfile64_exit c e sc scnm ret s =
     if_found (arg_retrieve_and_delete c e sc s) (\<lambda>all_fd s.
       let in_fd = to_int (drop_bit 32 all_fd); out_fd = to_int (all_fd AND 0xffffffff);
           s = log_read c e sc READ_EX in_fd ret s
       in log_write c e sc WRITE_EX out_fd ret s)"

definition sys_enter_sendfile64 :: "handler" where
  "sys_enter_sendfile64 c e s =
     sendfile64_entry c e (to_int (tp_args e ''in_fd'')) (to_int (tp_args e ''out_fd'')) s"

definition sys_exit_sendfile64 :: "handler" where
  "sys_exit_sendfile64 c e s =
     sendfile64_exit c e (tp_nr e) READ_EX (tp_ret e) s"

definition sys_enter_copy_file_range :: "handler" where
  "sys_enter_copy_file_range c e s =
     sendfile64_entry c e (to_int (tp_args e ''fd_in'')) (to_int (tp_args e ''fd_out'')) s"

definition sys_exit_copy_file_range :: "handler" where
  "sys_exit_copy_file_range c e s =
     sendfile64_exit c e (tp_nr e) READ_EX (tp_ret e) s"

definition sys_enter_write :: "handler" where
  "sys_enter_write c e s =
     write_entry c e (to_int (tp_args e ''fd'')) s"

definition sys_enter_writev :: "handler" where
  "sys_enter_writev c e s =
     write_entry c e (to_int (tp_args e ''fd'')) s"

definition sys_enter_sendmsg :: "handler" where
  "sys_enter_sendmsg c e s =
     write_entry c e (to_int (tp_args e ''fd'')) s"

definition sys_enter_sendmmsg :: "handler" where
  "sys_enter_sendmmsg c e s =
     write_entry c e (to_int (tp_args e ''fd'')) s"

definition sys_enter_pwrite64 :: "handler" where
  "sys_enter_pwrite64 c e s =
     write_entry c e (to_int (tp_args e ''fd'')) s"

definition sys_enter_pwritev :: "handler" where
  "sys_enter_pwritev c e s =
     write_entry c e (to_int (tp_args e ''fd'')) s"

definition sys_enter_pwritev2 :: "handler" where
  "sys_enter_pwritev2 c e s =
     write_entry c e (to_int (tp_args e ''fd'')) s"

definition sys_enter_sendto :: "handler" where
  "sys_enter_sendto c e s =
     write_entry1 c e (tp_args e ''addr'') (to_int (tp_args e ''addr_len'')) (to_int (tp_args e ''fd'')) s"

definition sys_exit_write :: "handler" where
  "sys_exit_write c e s =
     fst (write_exit c e (tp_nr e) WRITE_EX (tp_ret e) (tp_nr e) s)"

definition sys_exit_writev :: "handler" where
  "sys_exit_writev c e s =
     fst (write_exit c e (tp_nr e) WRITE_EX (tp_ret e) (tp_nr e) s)"

definition sys_exit_sendmsg :: "handler" where
  "sys_exit_sendmsg c e s =
     fst (write_exit c e (tp_nr e) WRITE_EX (tp_ret e) (tp_nr e) s)"

definition sys_exit_sendmmsg :: "handler" where
  "sys_exit_sendmmsg c e s =
     fst (write_exit c e (tp_nr e) WRITE_EX (tp_ret e) (tp_nr e) s)"

definition sys_exit_pwrite64 :: "handler" where
  "sys_exit_pwrite64 c e s =
     fst (write_exit c e (tp_nr e) WRITE_EX (tp_ret e) (tp_nr e) s)"

definition sys_exit_pwritev :: "handler" where
  "sys_exit_pwritev c e s =
     fst (write_exit c e (tp_nr e) WRITE_EX (tp_ret e) (tp_nr e) s)"

definition sys_exit_pwritev2 :: "handler" where
  "sys_exit_pwritev2 c e s =
     fst (write_exit c e (tp_nr e) WRITE_EX (tp_ret e) (tp_nr e) s)"

definition sys_exit_sendto :: "handler" where
  "sys_exit_sendto c e s =
     write_exit1 c e (tp_nr e) SENDTO_EX WT_SENDTO (tp_ret e) s"

section \<open>Memory mappings\<close>

definition PROT_READ :: s64 where "PROT_READ = 1"
definition PROT_WRITE :: s64 where "PROT_WRITE = 2"
definition PROT_EXEC :: s64 where "PROT_EXEC = 4"
definition MAP_ANONYMOUS :: s64 where "MAP_ANONYMOUS = 0x20"

text \<open>Protection bits in the order of file permissions.\<close>

definition prot_bits :: "s64 \<Rightarrow> s64" where
  "prot_bits prot = push_bit 2 (of_bool (prot AND PROT_READ \<noteq> 0)) OR push_bit 1 (of_bool (prot AND PROT_WRITE \<noteq> 0)) OR
     of_bool (prot AND PROT_EXEC \<noteq> 0)"

definition sys_enter_mprotect :: "handler" where
  "sys_enter_mprotect c e s =
     (if log_on e WT_MMAP
      then if tp_args e ''prot'' AND PROT_EXEC = 0 then s
           else arg3_record e (tp_args e ''start'') (tp_args e ''len'') (prot_bits (tp_args e ''prot'')) s
      else s)"

definition sys_exit_mprotect :: "handler" where
  "sys_exit_mprotect c e s =
     if_found (arg3_retrieve_and_delete c e 600 s) (\<lambda>(start, len, prot).
        if \<not> is_err (tp_ret e)
        then on_k (log_sc_long3 c (tp_env e) (tp_nr e) MPROTECT_EX WT_MMAP start len (push_bit 32 (tp_ret e) OR prot))
        else (\<lambda>s. s))"

text \<open>\<open>args->fd\<close> is an unsigned field of \<open>mmap\<close>, so that \<open>args->fd >= 0\<close> holds.\<close>

definition sys_enter_mmap :: "handler" where
  "sys_enter_mmap c e s =
     (if log_on e WT_MMAP
      then let file_backed = (tp_args e ''flags'' AND MAP_ANONYMOUS = 0);
               exec_perm = (tp_args e ''prot'' AND PROT_EXEC \<noteq> 0)
           in if \<not> (file_backed \<or> exec_perm) then s
              else arg5_record e (ucast WT_MMAP) (tp_args e ''addr'') (tp_args e ''len'')
                     (push_bit 32 (tp_args e ''flags'') OR prot_bits (tp_args e ''prot'')) (tp_args e ''fd'') s
      else s)"

definition sys_exit_mmap :: "handler" where
  "sys_exit_mmap c e s =
     (if log_on e WT_MMAP
      then if_found (arg5_retrieve_and_delete c e 600 s) (\<lambda>(scwt, addr, len, flags, fd).
        with_proc e fd (\<lambda>oid.
        on_k (log_sc_long5 c (tp_env e) (tp_nr e) MMAP_EX (ucast scwt) oid addr len flags (tp_ret e))))
      else s)"

section \<open>File names\<close>

definition log_unlink :: "config \<Rightarrow> tracepoint \<Rightarrow> nat \<Rightarrow> s64 \<Rightarrow> s64 \<Rightarrow> s64 \<Rightarrow> astate \<Rightarrow> astate" where
  "log_unlink c e sc pathname fd ret =
     with_proc e fd (\<lambda>oid. on_k (log_sc_str_long3 c (tp_env e) sc UNLINK_EX WT_UNLINK pathname fd oid ret))"

definition sys_enter_unlink :: "handler" where
  "sys_enter_unlink c e s =
     (if log_on e WT_UNLINK then arg3_record e (tp_args e ''pathname'') AT_FDCWD 0 s else s)"

definition sys_exit_unlink :: "handler" where
  "sys_exit_unlink c e s =
     (if log_on e WT_UNLINK
      then if_found (arg3_retrieve_and_delete c e (tp_nr e) s) (\<lambda>(pathname, fd, ign).
        log_unlink c e (tp_nr e) pathname fd (tp_ret e))
      else s)"

definition sys_enter_unlinkat :: "handler" where
  "sys_enter_unlinkat c e s =
     (if log_on e WT_UNLINK then arg3_record e (tp_args e ''pathname'') (tp_args e ''dfd'') 0 s else s)"

definition sys_exit_unlinkat :: "handler" where
  "sys_exit_unlinkat c e s =
     (if log_on e WT_UNLINK
      then if_found (arg3_retrieve_and_delete c e (tp_nr e) s) (\<lambda>(pathname, fd, ign).
        log_unlink c e (tp_nr e) pathname fd (tp_ret e))
      else s)"

definition log_mkdir :: "config \<Rightarrow> tracepoint \<Rightarrow> nat \<Rightarrow> s64 \<Rightarrow> s64 \<Rightarrow> s64 \<Rightarrow> s64 \<Rightarrow> astate \<Rightarrow> astate" where
  "log_mkdir c e sc pathname fd mode ret =
     with_proc e fd (\<lambda>oid. on_k (log_sc_str_long3 c (tp_env e) sc MKDIR_EX WT_MKDIR pathname fd oid
        (push_bit 32 mode OR (ret AND 0xffffffff))))"

definition sys_enter_mkdir :: "handler" where
  "sys_enter_mkdir c e s =
     (if log_on e WT_MKDIR then arg3_record e (tp_args e ''pathname'') AT_FDCWD (tp_args e ''mode'') s else s)"

definition sys_exit_mkdir :: "handler" where
  "sys_exit_mkdir c e s =
     (if log_on e WT_MKDIR
      then if_found (arg3_retrieve_and_delete c e (tp_nr e) s) (\<lambda>(pathname, fd, mode).
        log_mkdir c e (tp_nr e) pathname fd mode (tp_ret e))
      else s)"

definition sys_enter_mkdirat :: "handler" where
  "sys_enter_mkdirat c e s =
     (if log_on e WT_MKDIR then arg3_record e (tp_args e ''pathname'') (tp_args e ''dfd'') (tp_args e ''mode'') s else s)"

definition sys_exit_mkdirat :: "handler" where
  "sys_exit_mkdirat c e s =
     (if log_on e WT_MKDIR
      then if_found (arg3_retrieve_and_delete c e (tp_nr e) s) (\<lambda>(pathname, fd, mode).
        log_mkdir c e (tp_nr e) pathname fd mode (tp_ret e))
      else s)"

definition sys_enter_rmdir :: "handler" where
  "sys_enter_rmdir c e s =
     (if log_on e WT_RMDIR then arg_record e (tp_args e ''pathname'') s else s)"

definition sys_exit_rmdir :: "handler" where
  "sys_exit_rmdir c e s =
     (if log_on e WT_RMDIR
      then if_found (arg_retrieve_and_delete c e (tp_nr e) s) (\<lambda>pathname.
        on_k (log_sc_str_long1 c (tp_env e) (tp_nr e) RMDIR_EX WT_RMDIR pathname (tp_ret e)))
      else s)"

definition sys_enter_chdir :: "handler" where
  "sys_enter_chdir c e s =
     (if log_on e WT_CHDIR then arg_record e (tp_args e ''filename'') s else s)"

definition sys_exit_chdir :: "handler" where
  "sys_exit_chdir c e s =
     (if log_on e WT_CHDIR
      then if_found (arg_retrieve_and_delete c e (tp_nr e) s) (\<lambda>filename.
        on_k (log_sc_str_long1 c (tp_env e) (tp_nr e) CHDIR_EX WT_CHDIR filename (tp_ret e)))
      else s)"

definition sys_enter_fchdir :: "handler" where
  "sys_enter_fchdir c e s =
     (if log_on e WT_CHDIR then arg_record e (tp_args e ''fd'') s else s)"

definition sys_exit_fchdir :: "handler" where
  "sys_exit_fchdir c e s =
     (if log_on e WT_CHDIR
      then if_found (arg_retrieve_and_delete c e (tp_nr e) s) (\<lambda>fd.
        with_proc e fd (\<lambda>oid. on_k (log_sc_long3 c (tp_env e) (tp_nr e) FCHDIR_EX WT_CHDIR fd oid (tp_ret e))))
      else s)"

definition log_link :: "config \<Rightarrow> tracepoint \<Rightarrow> nat \<Rightarrow> s64 \<Rightarrow> s64 \<Rightarrow> s64 \<Rightarrow> s64 \<Rightarrow> s64 \<Rightarrow> s64 \<Rightarrow> astate \<Rightarrow> astate" where
  "log_link c e sc oldnm newnm fd1 fd2 fl ret =
     with_proc e fd1 (\<lambda>oid1. with_proc e fd2 (\<lambda>oid2. on_k (log_sc_str2_long5 c (tp_env e) sc LINK_EX WT_LINK oldnm newnm
        fd1 fd2 (push_bit 32 fl OR (ret AND 0xffffffff)) oid1 oid2)))"

definition sys_enter_link :: "handler" where
  "sys_enter_link c e s =
     (if log_on e WT_LINK then arg5_record e (tp_args e ''oldname'') (tp_args e ''newname'') AT_FDCWD AT_FDCWD AT_FDCWD s else s)"

definition sys_exit_link :: "handler" where
  "sys_exit_link c e s =
     (if log_on e WT_LINK
      then if_found (arg5_retrieve_and_delete c e (tp_nr e) s) (\<lambda>(oldname, newname, fd1, fd2, flag).
        log_link c e (tp_nr e) oldname newname fd1 fd2 flag (tp_ret e))
      else s)"

definition sys_enter_linkat :: "handler" where
  "sys_enter_linkat c e s =
     (if log_on e WT_LINK then arg5_record e (tp_args e ''oldname'') (tp_args e ''newname'') (tp_args e ''olddfd'') (tp_args e ''newdfd'') (tp_args e ''flags'') s else s)"

definition sys_exit_linkat :: "handler" where
  "sys_exit_linkat c e s =
     (if log_on e WT_LINK
      then if_found (arg5_retrieve_and_delete c e (tp_nr e) s) (\<lambda>(oldname, newname, fd1, fd2, flag).
        log_link c e (tp_nr e) oldname newname fd1 fd2 flag (tp_ret e))
      else s)"

definition log_symlink :: "config \<Rightarrow> tracepoint \<Rightarrow> nat \<Rightarrow> s64 \<Rightarrow> s64 \<Rightarrow> s64 \<Rightarrow> s64 \<Rightarrow> astate \<Rightarrow> astate" where
  "log_symlink c e sc oldname newname fd ret =
     with_proc e fd (\<lambda>oid. on_k (log_sc_str2_long3 c (tp_env e) sc SYMLINK_EX WT_SYMLINK oldname newname fd oid ret))"

definition sys_enter_symlink :: "handler" where
  "sys_enter_symlink c e s =
     (if log_on e WT_SYMLINK then arg3_record e (tp_args e ''oldname'') (tp_args e ''newname'') AT_FDCWD s else s)"

definition sys_exit_symlink :: "handler" where
  "sys_exit_symlink c e s =
     (if log_on e WT_SYMLINK
      then if_found (arg3_retrieve_and_delete c e (tp_nr e) s) (\<lambda>(oldname, newname, dir_fd).
        log_symlink c e (tp_nr e) oldname newname dir_fd (tp_ret e))
      else s)"

definition sys_enter_symlinkat :: "handler" where
  "sys_enter_symlinkat c e s =
     (if log_on e WT_SYMLINK then arg3_record e (tp_args e ''oldname'') (tp_args e ''newname'') (tp_args e ''newdfd'') s else s)"

definition sys_exit_symlinkat :: "handler" where
  "sys_exit_symlinkat c e s =
     (if log_on e WT_SYMLINK
      then if_found (arg3_retrieve_and_delete c e (tp_nr e) s) (\<lambda>(oldname, newname, dir_fd).
        log_symlink c e (tp_nr e) oldname newname dir_fd (tp_ret e))
      else s)"

definition log_rename :: "config \<Rightarrow> tracepoint \<Rightarrow> nat \<Rightarrow> s64 \<Rightarrow> s64 \<Rightarrow> s64 \<Rightarrow> s64 \<Rightarrow> s64 \<Rightarrow> s64 \<Rightarrow> astate \<Rightarrow> astate" where
  "log_rename c e sc oldnm newnm fd1 fd2 fl ret =
     with_proc e fd1 (\<lambda>oid1. with_proc e fd2 (\<lambda>oid2. on_k (log_sc_str2_long5 c (tp_env e) sc RENAME_EX WT_RENAME oldnm newnm
        fd1 fd2 (push_bit 32 fl OR (ret AND 0xffffffff)) oid1 oid2)))"

definition sys_enter_rename :: "handler" where
  "sys_enter_rename c e s =
     (if log_on e WT_RENAME then arg5_record e (tp_args e ''oldname'') (tp_args e ''newname'') AT_FDCWD AT_FDCWD 0 s else s)"

definition sys_exit_rename :: "handler" where
  "sys_exit_rename c e s =
     (if log_on e WT_RENAME
      then if_found (arg5_retrieve_and_delete c e (tp_nr e) s) (\<lambda>(oldname, newname, f1, f2, f3).
        log_rename c e (tp_nr e) oldname newname f1 f2 f3 (tp_ret e))
      else s)"

definition sys_enter_renameat :: "handler" where
  "sys_enter_renameat c e s =
     (if log_on e WT_RENAME then arg5_record e (tp_args e ''oldname'') (tp_args e ''newname'') (tp_args e ''olddfd'') (tp_args e ''newdfd'') 0 s else s)"

definition sys_exit_renameat :: "handler" where
  "sys_exit_renameat c e s =
     (if log_on e WT_RENAME
      then if_found (arg5_retrieve_and_delete c e (tp_nr e) s) (\<lambda>(oldname, newname, f1, f2, f3).
        log_rename c e (tp_nr e) oldname newname f1 f2 f3 (tp_ret e))
      else s)"

definition sys_enter_renameat2 :: "handler" where
  "sys_enter_renameat2 c e s =
     (if log_on e WT_RENAME then arg5_record e (tp_args e ''oldname'') (tp_args e ''newname'') (tp_args e ''olddfd'') (tp_args e ''newdfd'') (tp_args e ''flags'') s else s)"

definition sys_exit_renameat2 :: "handler" where
  "sys_exit_renameat2 c e s =
     (if log_on e WT_RENAME
      then if_found (arg5_retrieve_and_delete c e (tp_nr e) s) (\<lambda>(oldname, newname, f1, f2, f3).
        log_rename c e (tp_nr e) oldname newname f1 f2 f3 (tp_ret e))
      else s)"

definition log_mknod :: "config \<Rightarrow> tracepoint \<Rightarrow> nat \<Rightarrow> s64 \<Rightarrow> s64 \<Rightarrow> s64 \<Rightarrow> s64 \<Rightarrow> s64 \<Rightarrow> astate \<Rightarrow> astate" where
  "log_mknod c e sc filename mode dev fd ret =
     with_proc e fd (\<lambda>oid. on_k (log_sc_str_long4 c (tp_env e) sc MKNOD_EX WT_MKNOD filename fd dev
        (push_bit 8 mode OR (ret AND 0xff)) oid))"

definition sys_enter_mknod :: "handler" where
  "sys_enter_mknod c e s =
     (if log_on e WT_MKNOD then arg3_record e (tp_args e ''filename'') (tp_args e ''mode'') (tp_args e ''dev'') s else s)"

definition sys_exit_mknod :: "handler" where
  "sys_exit_mknod c e s =
     (if log_on e WT_MKNOD
      then if_found (arg3_retrieve_and_delete c e (tp_nr e) s) (\<lambda>(filename, mode, dev).
        log_mknod c e (tp_nr e) filename mode dev AT_FDCWD (tp_ret e))
      else s)"

definition sys_enter_mknodat :: "handler" where
  "sys_enter_mknodat c e s =
     (if log_on e WT_MKDIR then arg3_record e (tp_args e ''filename'') (push_bit 32 (tp_args e ''dfd'') OR tp_args e ''mode'') (tp_args e ''dev'') s else s)"

definition sys_exit_mknodat :: "handler" where
  "sys_exit_mknodat c e s =
     (if log_on e WT_MKNOD
      then if_found (arg3_retrieve_and_delete c e (tp_nr e) s) (\<lambda>(filename, mode, dev).
        log_mknod c e (tp_nr e) filename (mode AND 0xffffffff) dev (signed_drop_bit 32 mode) (tp_ret e))
      else s)"

definition sys_enter_tee :: "handler" where
  "sys_enter_tee c e s =
     (if log_on e WT_TEE then arg3_record e (tp_args e ''fdin'') (tp_args e ''fdout'') (tp_args e ''len'') s else s)"

definition sys_exit_tee :: "handler" where
  "sys_exit_tee c e s =
     (if log_on e WT_TEE
      then if_found (arg3_retrieve_and_delete c e (tp_nr e) s) (\<lambda>(fdin, fdout, len) s.
        log_write c e (tp_nr e) WRITE_EX (to_int fdout) (tp_ret e) (log_read c e (tp_nr e) READ_EX (to_int fdin) (tp_ret e) s))
      else s)"

definition sys_enter_mount :: "handler" where
  "sys_enter_mount c e s =
     (if log_on e WT_MOUNT then arg5_record e (tp_args e ''dev_name'') (tp_args e ''dir_name'') (tp_args e ''type'') (tp_args e ''flags'') 0 s else s)"

definition sys_exit_mount :: "handler" where
  "sys_exit_mount c e s =
     (if log_on e WT_MOUNT
      then if_found (arg5_retrieve_and_delete c e (tp_nr e) s) (\<lambda>(dev_name, dir_name, type, flags, ign).
        on_k (log_sc_str3_long2 c (tp_env e) (tp_nr e) MOUNT_EX WT_MOUNT dev_name dir_name type flags (tp_ret e)))
      else s)"

definition sys_enter_umount :: "handler" where
  "sys_enter_umount c e s =
     (if log_on e WT_MOUNT then arg3_record e (tp_args e ''name'') (tp_args e ''flags'') 0 s else s)"

definition sys_exit_umount :: "handler" where
  "sys_exit_umount c e s =
     (if log_on e WT_MOUNT
      then if_found (arg3_retrieve_and_delete c e (tp_nr e) s) (\<lambda>(name, flags, ign).
        on_k (log_sc_str_long2 c (tp_env e) (tp_nr e) UMOUNT_EX WT_MOUNT name flags (tp_ret e)))
      else s)"

definition sys_enter_splice :: "handler" where
  "sys_enter_splice c e s =
     (if log_on e WT_SPLICE then arg3_record e (tp_args e ''len'') (tp_args e ''fd_in'') (tp_args e ''fd_out'') s else s)"

definition sys_exit_splice :: "handler" where
  "sys_exit_splice c e s =
     (if log_on e WT_SPLICE
      then if_found (arg3_retrieve_and_delete c e (tp_nr e) s) (\<lambda>(len, fd_in, fd_out) s.
        log_write c e (tp_nr e) WRITE_EX (to_int fd_out) (tp_ret e) (log_read c e (tp_nr e) READ_EX (to_int fd_in) (tp_ret e) s))
      else s)"

definition sys_enter_vmsplice :: "handler" where
  "sys_enter_vmsplice c e s =
     (if log_on e WT_VMSPLICE then arg3_record e (tp_args e ''fd'') (tp_args e ''flags'') 0 s else s)"

definition sys_exit_vmsplice :: "handler" where
  "sys_exit_vmsplice c e s =
     (if log_on e WT_VMSPLICE
      then if_found (arg3_retrieve_and_delete c e (tp_nr e) s) (\<lambda>(fd, flags, ign).
        with_proc e fd (\<lambda>oid. on_k (log_sc_long3 c (tp_env e) (tp_nr e) VMSPLICE_EX WT_VMSPLICE fd oid (tp_ret e))))
      else s)"

section \<open>Signals and tracing\<close>

definition log_kill_entry :: "config \<Rightarrow> tracepoint \<Rightarrow> nat \<Rightarrow> s64 \<Rightarrow> s32 \<Rightarrow> astate \<Rightarrow> astate" where
  "log_kill_entry c e sc pid sig s =
     (if 0 <s sig
      then on_k (log_sc_long2 c (tp_env e) sc KILL_EN WT_KILL pid (to_long sig)) (arg_record e 0 s)
      else s)"

text \<open>Without \<open>USE_FLUSH_ALGO_A1\<close> the flush by the daemon is never skipped.\<close>

definition should_skip_daemon_flush :: bool where
  "should_skip_daemon_flush = False"

text \<open>The daemon sends signal 0 to have the caches of all CPUs flushed.\<close>

definition sys_enter_kill :: "handler" where
  "sys_enter_kill c e s =
     (if log_on e WT_KILL
      then log_kill_entry c e (tp_nr e) (tp_args e ''pid'') (to_int (tp_args e ''sig''))
             (if tp_args e ''sig'' = 0 \<and> is_dlogger_descendant c (tp_env e) \<and> \<not> should_skip_daemon_flush
              then on_k (fold (\<lambda>j. flush_cache c (tp_env e) j (ae_ktime (tp_env e))) [0..<tp_ncpu e]) s
              else s)
      else s)"

definition sys_enter_tkill :: "handler" where
  "sys_enter_tkill c e s =
     (if log_on e WT_KILL \<and> 0 <s tp_args e ''sig''
      then log_kill_entry c e (tp_nr e) (push_bit 32 (tp_args e ''pid'')) (to_int (tp_args e ''sig'')) s
      else s)"

definition sys_enter_tgkill :: "handler" where
  "sys_enter_tgkill c e s =
     (if log_on e WT_KILL \<and> 0 <s tp_args e ''sig''
      then log_kill_entry c e (tp_nr e) (push_bit 32 (tp_args e ''pid'') OR tp_args e ''tgid'') (to_int (tp_args e ''sig'')) s
      else s)"

definition sys_exit_kill :: "handler" where
  "sys_exit_kill c e s =
     (if log_on e WT_KILL
      then if_found (arg_retrieve_and_delete c e 600 s) (\<lambda>ignore.
        on_k (log_sc_long1 c (tp_env e) 600 KILL_EX 0 (tp_ret e)))
      else s)"

definition sys_exit_tkill :: "handler" where
  "sys_exit_tkill c e s =
     (if log_on e WT_KILL
      then if_found (arg_retrieve_and_delete c e 600 s) (\<lambda>ignore.
        on_k (log_sc_long1 c (tp_env e) 600 KILL_EX 0 (tp_ret e)))
      else s)"

definition sys_exit_tgkill :: "handler" where
  "sys_exit_tgkill c e s =
     (if log_on e WT_KILL
      then if_found (arg_retrieve_and_delete c e 600 s) (\<lambda>ignore.
        on_k (log_sc_long1 c (tp_env e) 600 KILL_EX 0 (tp_ret e)))
      else s)"

definition sys_enter_ptrace :: "handler" where
  "sys_enter_ptrace c e s =
     (if log_on e WT_PTRACE
      then on_k (log_sc_long2 c (tp_env e) (tp_nr e) PTRACE_EN WT_PTRACE (tp_args e ''request'') (tp_args e ''pid'')) s else s)"

definition sys_exit_ptrace :: "handler" where
  "sys_exit_ptrace c e s =
     (if log_on e WT_PTRACE then on_k (log_sc_long1 c (tp_env e) 600 PTRACE_EX 0 (tp_ret e)) s else s)"

section \<open>Permissions and owners\<close>

text \<open>\<open>(char)ret\<close>, widened again with its sign.\<close>

definition char_of_ret :: "s64 \<Rightarrow> s64" where
  "char_of_ret ret = scast (ucast ret :: u8)"

definition log_chmod :: "config \<Rightarrow> tracepoint \<Rightarrow> nat \<Rightarrow> s64 \<Rightarrow> s64 \<Rightarrow> s64 \<Rightarrow> s64 \<Rightarrow> s64 \<Rightarrow> astate \<Rightarrow> astate" where
  "log_chmod c e sc filename fd mode flags ret =
     with_proc e fd (\<lambda>oid. on_k (log_sc_str_long4 c (tp_env e) sc CHMOD_EX WT_CHMOD filename fd mode
        (push_bit 8 flags OR ret) oid))"

definition sys_enter_chmod :: "handler" where
  "sys_enter_chmod c e s =
     (if log_on e WT_CHMOD then arg3_record e (tp_args e ''filename'') (tp_args e ''mode'') AT_FDCWD s else s)"

definition sys_exit_chmod :: "handler" where
  "sys_exit_chmod c e s =
     (if log_on e WT_CHMOD
      then if_found (arg3_retrieve_and_delete c e (tp_nr e) s) (\<lambda>(filename, mode, fd).
        log_chmod c e (tp_nr e) filename fd mode 0 (tp_ret e))
      else s)"

definition sys_enter_fchmodat :: "handler" where
  "sys_enter_fchmodat c e s =
     (if log_on e WT_CHMOD then arg3_record e (tp_args e ''filename'') (tp_args e ''mode'') (push_bit 32 (tp_args e ''dfd'')) s else s)"

definition sys_exit_fchmodat :: "handler" where
  "sys_exit_fchmodat c e s =
     (if log_on e WT_CHMOD
      then if_found (arg3_retrieve_and_delete c e (tp_nr e) s) (\<lambda>(filename, mode, dfd).
        log_chmod c e (tp_nr e) filename (signed_drop_bit 32 dfd) mode (dfd AND 0xffffffff) (tp_ret e))
      else s)"

definition sys_enter_fchmod :: "handler" where
  "sys_enter_fchmod c e s =
     (if log_on e WT_FCHMOD then arg3_record e (tp_args e ''fd'') (tp_args e ''mode'') 0 s else s)"

definition sys_exit_fchmod :: "handler" where
  "sys_exit_fchmod c e s =
     (if log_on e WT_FCHMOD
      then if_found (arg3_retrieve_and_delete c e (tp_nr e) s) (\<lambda>(fd, mode, ign).
        with_proc e fd (\<lambda>oid. on_k (log_sc_long3 c (tp_env e) (tp_nr e) FCHMOD_EX WT_FCHMOD mode oid
        (push_bit 8 fd OR char_of_ret (tp_ret e)))))
      else s)"

definition log_chown :: "config \<Rightarrow> tracepoint \<Rightarrow> nat \<Rightarrow> s64 \<Rightarrow> s64 \<Rightarrow> s64 \<Rightarrow> s64 \<Rightarrow> s64 \<Rightarrow> s64 \<Rightarrow> astate \<Rightarrow> astate" where
  "log_chown c e sc fd file user grp fl ret =
     with_proc e fd (\<lambda>oid. on_k (log_sc_str_long5 c (tp_env e) sc CHOWN_EX WT_CHOWN file fd user grp oid
        (push_bit 8 fl OR char_of_ret ret)))"

definition sys_enter_chown :: "handler" where
  "sys_enter_chown c e s =
     (if log_on e WT_CHOWN then arg3_record e (tp_args e ''filename'') (tp_args e ''user'') (tp_args e ''group'') s else s)"

definition sys_exit_chown :: "handler" where
  "sys_exit_chown c e s =
     (if log_on e WT_CHOWN
      then if_found (arg3_retrieve_and_delete c e (tp_nr e) s) (\<lambda>(filename, user, group).
        log_chown c e (tp_nr e) AT_FDCWD filename user group 0 (tp_ret e))
      else s)"

definition sys_enter_lchown :: "handler" where
  "sys_enter_lchown c e s =
     (if log_on e WT_LCHOWN then arg3_record e (tp_args e ''filename'') (tp_args e ''user'') (tp_args e ''group'') s else s)"

definition sys_exit_lchown :: "handler" where
  "sys_exit_lchown c e s =
     (if log_on e WT_LCHOWN
      then if_found (arg3_retrieve_and_delete c e (tp_nr e) s) (\<lambda>(filename, user, group).
        log_chown c e (tp_nr e) AT_FDCWD filename user group AT_SYMLINK_NOFOLLOW (tp_ret e))
      else s)"

definition sys_enter_fchownat :: "handler" where
  "sys_enter_fchownat c e s =
     (if log_on e WT_CHOWN then arg5_record e (tp_args e ''filename'') (to_long (to_int (tp_args e ''dfd''))) (tp_args e ''user'') (tp_args e ''group'') (tp_args e ''flag'') s else s)"

definition sys_exit_fchownat :: "handler" where
  "sys_exit_fchownat c e s =
     (if log_on e WT_CHOWN
      then if_found (arg5_retrieve_and_delete c e (tp_nr e) s) (\<lambda>(filename, dfd, user, group, flags).
        log_chown c e (tp_nr e) dfd filename user group flags (tp_ret e))
      else s)"

definition sys_enter_fchown :: "handler" where
  "sys_enter_fchown c e s =
     (if log_on e WT_FCHOWN then arg3_record e (tp_args e ''fd'') (tp_args e ''user'') (tp_args e ''group'') s else s)"

definition sys_exit_fchown :: "handler" where
  "sys_exit_fchown c e s =
     (if log_on e WT_FCHOWN
      then if_found (arg3_retrieve_and_delete c e (tp_nr e) s) (\<lambda>(fd, user, group).
        with_proc e fd (\<lambda>oid. on_k (log_sc_long4 c (tp_env e) (tp_nr e) FCHOWN_EX WT_FCHOWN user group
        (push_bit 8 fd OR char_of_ret (tp_ret e)) oid)))
      else s)"

section \<open>User and group of a process\<close>

definition sys_enter_setresuid :: "handler" where
  "sys_enter_setresuid c e s =
     (if log_on e WT_SETUID then arg3_record e (tp_args e ''ruid'') (tp_args e ''euid'') (tp_args e ''suid'') s else s)"

definition sys_enter_setreuid :: "handler" where
  "sys_enter_setreuid c e s =
     (if log_on e WT_SETUID then arg3_record e (tp_args e ''ruid'') (tp_args e ''euid'') INVAL_UID s else s)"

definition sys_enter_setuid :: "handler" where
  "sys_enter_setuid c e s =
     (if log_on e WT_SETUID then arg3_record e INVAL_UID (tp_args e ''uid'') INVAL_UID s else s)"

definition sys_exit_setresuid :: "handler" where
  "sys_exit_setresuid c e s =
     (if log_on e WT_SETUID
      then if_found (arg3_retrieve_and_delete c e (tp_nr e) s) (\<lambda>(a1, a2, a3).
        on_k (log_sc_long4 c (tp_env e) (tp_nr e) SETUID_EX WT_SETUID a1 a2 a3 (tp_ret e)))
      else s)"

definition sys_exit_setreuid :: "handler" where
  "sys_exit_setreuid c e s =
     (if log_on e WT_SETUID
      then if_found (arg3_retrieve_and_delete c e (tp_nr e) s) (\<lambda>(a1, a2, a3).
        on_k (log_sc_long4 c (tp_env e) (tp_nr e) SETUID_EX WT_SETUID a1 a2 a3 (tp_ret e)))
      else s)"

definition sys_exit_setuid :: "handler" where
  "sys_exit_setuid c e s =
     (if log_on e WT_SETUID
      then if_found (arg3_retrieve_and_delete c e (tp_nr e) s) (\<lambda>(a1, a2, a3).
        on_k (log_sc_long4 c (tp_env e) (tp_nr e) SETUID_EX WT_SETUID a1 a2 a3 (tp_ret e)))
      else s)"

definition sys_enter_setresgid :: "handler" where
  "sys_enter_setresgid c e s =
     (if log_on e WT_SETGID then arg3_record e (tp_args e ''rgid'') (tp_args e ''egid'') (tp_args e ''sgid'') s else s)"

definition sys_enter_setregid :: "handler" where
  "sys_enter_setregid c e s =
     (if log_on e WT_SETGID then arg3_record e (tp_args e ''rgid'') (tp_args e ''egid'') INVAL_UID s else s)"

definition sys_enter_setgid :: "handler" where
  "sys_enter_setgid c e s =
     (if log_on e WT_SETGID then arg3_record e INVAL_UID (tp_args e ''gid'') INVAL_UID s else s)"

definition sys_exit_setresgid :: "handler" where
  "sys_exit_setresgid c e s =
     (if log_on e WT_SETGID
      then if_found (arg3_retrieve_and_delete c e (tp_nr e) s) (\<lambda>(a1, a2, a3).
        on_k (log_sc_long4 c (tp_env e) (tp_nr e) SETGID_EX WT_SETGID a1 a2 a3 (tp_ret e)))
      else s)"

definition sys_exit_setregid :: "handler" where
  "sys_exit_setregid c e s =
     (if log_on e WT_SETGID
      then if_found (arg3_retrieve_and_delete c e (tp_nr e) s) (\<lambda>(a1, a2, a3).
        on_k (log_sc_long4 c (tp_env e) (tp_nr e) SETGID_EX WT_SETGID a1 a2 a3 (tp_ret e)))
      else s)"

definition sys_exit_setgid :: "handler" where
  "sys_exit_setgid c e s =
     (if log_on e WT_SETGID
      then if_found (arg3_retrieve_and_delete c e (tp_nr e) s) (\<lambda>(a1, a2, a3).
        on_k (log_sc_long4 c (tp_env e) (tp_nr e) SETGID_EX WT_SETGID a1 a2 a3 (tp_ret e)))
      else s)"

section \<open>Processes\<close>

definition sys_enter_fork :: "handler" where
  "sys_enter_fork c e s =
     (if log_on e WT_FORK then on_k (log_sc_long0 c (tp_env e) (tp_nr e) FORK_EN WT_FORK) (arg_record e 0 s) else s)"

definition sys_enter_vfork :: "handler" where
  "sys_enter_vfork c e s =
     (if log_on e WT_FORK then on_k (log_sc_long0 c (tp_env e) (tp_nr e) FORK_EN WT_FORK) (arg_record e 0 s) else s)"

definition sys_enter_clone :: "handler" where
  "sys_enter_clone c e s =
     (if log_on e WT_FORK
      then on_k (log_sc_long1 c (tp_env e) (tp_nr e) CLONE_EN WT_FORK (tp_args e ''clone_flags'')) (arg_record e (tp_args e ''clone_flags'') s)
      else s)"

text \<open>The first word of the argument block of \<open>clone3\<close>; the helper clears the target when it fails.\<close>

definition sys_enter_clone3 :: "handler" where
  "sys_enter_clone3 c e s =
     (if log_on e WT_FORK
      then let flags = (case probe_read (tp_env e) (tp_args e ''uargs'') 8 of None \<Rightarrow> 0 | Some bs \<Rightarrow> of_le bs)
           in on_k (log_sc_long1 c (tp_env e) (tp_nr e) CLONE_EN WT_FORK flags) (arg_record e flags s)
      else s)"

definition CLONE_THREAD :: u64 where "CLONE_THREAD = 0x10000"

definition log_sc_exit_with_ids :: "config \<Rightarrow> tracepoint \<Rightarrow> nat \<Rightarrow> u8 \<Rightarrow> s64 \<Rightarrow> astate \<Rightarrow> astate" where
  "log_sc_exit_with_ids c e sc scnm ret s =
     (let (s, flags) = arg_retrieve_and_delete c e 600 s;
          (scwt, new) =
            (if \<not> is_err ret \<and> (scnm = FORK_EX \<or> scnm = CLONE_EX)
             then if ret \<noteq> 0
                  then (wt WT_CRITICAL, \<exists>fl\<in>set_option flags. fl AND CLONE_THREAD \<noteq> 0)
                  else (wt WT_IMPORTANT, tid e = getpid (tp_env e))
             else (0, False));
          s = (if new then on_k (stat_inc NUM_SUBJ_CREATED) s else s);
          ret = (ret AND 0xffffffff) OR push_bit 32 (ucast (tp_real_parent_pid e));
          uidgid = push_bit 32 (ucast (tp_egid e)) OR ucast (tp_euid e)
      in on_k (log_sc_long3 c (tp_env e) 600 scnm scwt uidgid (ae_cgroup_id (tp_env e)) ret) s)"

definition sys_exit_fork :: "handler" where
  "sys_exit_fork c e s =
     (if log_on e WT_FORK then log_sc_exit_with_ids c e (tp_nr e) FORK_EX (tp_ret e) s else s)"

definition sys_exit_vfork :: "handler" where
  "sys_exit_vfork c e s =
     (if log_on e WT_FORK then log_sc_exit_with_ids c e (tp_nr e) FORK_EX (tp_ret e) s else s)"

definition sys_exit_clone :: "handler" where
  "sys_exit_clone c e s =
     (if log_on e WT_FORK then log_sc_exit_with_ids c e (tp_nr e) CLONE_EX (tp_ret e) s else s)"

definition sys_exit_clone3 :: "handler" where
  "sys_exit_clone3 c e s =
     (if log_on e WT_FORK then log_sc_exit_with_ids c e (tp_nr e) CLONE_EX (tp_ret e) s else s)"

definition sys_enter_exit :: "handler" where
  "sys_enter_exit c e s =
     (if log_on e WT_EXIT then on_k (log_sc_long1 c (tp_env e) (tp_nr e) EXIT_EN WT_EXIT (tp_args e ''error_code'')) s else s)"

definition sys_enter_exit_group :: "handler" where
  "sys_enter_exit_group c e s =
     (if log_on e WT_EXIT then on_k (log_sc_long1 c (tp_env e) (tp_nr e) EXITGRP_EN WT_EXIT (tp_args e ''error_code'')) s else s)"

definition sys_exit_execve :: "handler" where
  "sys_exit_execve c e s =
     (if log_on e WT_EXECVE then log_sc_exit_with_ids c e (tp_nr e) EXECVE_EX (tp_ret e) s else s)"

definition sys_exit_execveat :: "handler" where
  "sys_exit_execveat c e s =
     (if log_on e WT_EXECVE then log_sc_exit_with_ids c e (tp_nr e) EXECVE_EX (tp_ret e) s else s)"

section \<open>Kernel modules\<close>

definition sys_enter_init_module :: "handler" where
  "sys_enter_init_module c e s =
     (if log_on e WT_INITMOD then arg_record e (tp_args e ''uargs'') s else s)"

definition sys_exit_init_module :: "handler" where
  "sys_exit_init_module c e s =
     (if log_on e WT_INITMOD
      then if_found (arg_retrieve_and_delete c e (tp_nr e) s) (\<lambda>uargs.
        on_k (log_sc_str_long1 c (tp_env e) (tp_nr e) INITMOD_EX WT_INITMOD uargs (tp_ret e)))
      else s)"

definition sys_enter_finit_module :: "handler" where
  "sys_enter_finit_module c e s =
     (if log_on e WT_FINITMOD then arg3_record e (tp_args e ''uargs'') (tp_args e ''fd'') (tp_args e ''flags'') s else s)"

definition sys_exit_finit_module :: "handler" where
  "sys_exit_finit_module c e s =
     (if log_on e WT_FINITMOD
      then if_found (arg3_retrieve_and_delete c e (tp_nr e) s) (\<lambda>(uargs, fd, flags).
        with_proc e fd (\<lambda>oid. on_k (log_sc_str_long4 c (tp_env e) (tp_nr e) FINITMOD_EX WT_FINITMOD uargs fd flags (tp_ret e) oid)))
      else s)"

end
