(* ===== verification/Audit_Execve.thy ===== *)
theory Audit_Execve
  imports Audit_Handlers
begin

text \<open>
  The entry handlers of \<open>execve\<close> and \<open>execveat\<close>, \<^verbatim>\<open>src/eauditk.c\<close>: a record whose argument and
  environment strings are added by a chain of programs, each of which ends in a tail call to the
  next. A tail call does not return when it succeeds. The kernel allows 33 tail calls from one
  program; the number that is left is the argument \<open>n\<close>.
\<close>

definition TAILCALL_ADD_ARGV :: nat where "TAILCALL_ADD_ARGV = 0"
definition TAILCALL_ADD_ENVP :: nat where "TAILCALL_ADD_ENVP = 1"
definition MAX_TAIL_CALL_CNT :: nat where "MAX_TAIL_CALL_CNT = 33"

text \<open>The end of every program of the chain: the counts are reset and the record is emitted.\<close>

definition emit_execve :: "config \<Rightarrow> audit_env \<Rightarrow> buf \<Rightarrow> nat \<Rightarrow> kstate \<Rightarrow> kstate" where
  "emit_execve c e b idx s = emit_record c e (b\<lparr>b_idx := idx, b_nargvl := 0, b_nenvpl := 0\<rparr>) idx s"

text \<open>An empty environment keeps the record readable when its strings cannot be added.\<close>

definition emit_no_env :: "config \<Rightarrow> audit_env \<Rightarrow> buf \<Rightarrow> nat \<Rightarrow> kstate \<Rightarrow> kstate" where
  "emit_no_env c e b idx s = emit_execve c e (write_u16_le b idx 0) (idx + 2) s"

fun add_string_tail_envp :: "config \<Rightarrow> audit_env \<Rightarrow> nat \<Rightarrow> kstate \<Rightarrow> kstate" where
  "add_string_tail_envp c e n s =
     (case ks_buf s (ae_cpu e) of
        None \<Rightarrow> s
      | Some b \<Rightarrow>
          (let (b, idx) = (if b_nenvpl b = 0 then (b\<lparr>b_nargpos := b_idx b\<rparr>, b_idx b + 2) else (b, b_idx b));
               (b, idx, s, m) = add_str_array0_32 e b (b_envp b) idx s;
               b = b\<lparr>b_nenvpl := b_nenvpl b + m\<rparr>;
               env_limit = (if b_nargvl b < MAX_ARG then MAX_ARG - b_nargvl b else 0)
           in if 32 < env_limit \<and> m = 32 \<and> b_nenvpl b < env_limit - 32
              then let b = b\<lparr>b_envp := b_envp b + 8 * of_nat m\<rparr>
                   in if ae_tail_ok e TAILCALL_ADD_ENVP \<and> 0 < n
                      then add_string_tail_envp c e (n - 1) (put_buf (ae_cpu e) (b\<lparr>b_idx := idx\<rparr>) s)
                      else emit_execve c e (write_u16_le b (b_nargpos b) (b_nenvpl b)) idx
                             (stat_inc EXECVE_TAILCALL_ENVP_CONT_FAIL s)
              else emit_execve c e (write_u16_le b (b_nargpos b) (b_nenvpl b)) idx s))"

declare add_string_tail_envp.simps [simp del]

fun add_string_tail_argv :: "config \<Rightarrow> audit_env \<Rightarrow> nat \<Rightarrow> kstate \<Rightarrow> kstate" where
  "add_string_tail_argv c e n s =
     (case ks_buf s (ae_cpu e) of
        None \<Rightarrow> s
      | Some b \<Rightarrow>
          (let (b, idx, s, m) = add_str_array0_32 e b (b_argv b) (b_idx b) s;
               b = b\<lparr>b_nargvl := b_nargvl b + m\<rparr>
           in if m = 32 \<and> b_nargvl b < MAX_ARG - 32
              then let b = b\<lparr>b_argv := b_argv b + 8 * of_nat m\<rparr>
                   in if ae_tail_ok e TAILCALL_ADD_ARGV \<and> 0 < n
                      then add_string_tail_argv c e (n - 1) (put_buf (ae_cpu e) (b\<lparr>b_idx := idx\<rparr>) s)
                      else emit_no_env c e ((write_u16_le b (b_nargpos b) (b_nargvl b))\<lparr>b_nargpos := 0\<rparr>) idx
                             (stat_inc EXECVE_TAILCALL_ARGV_CONT_FAIL s)
              else let b = (write_u16_le b (b_nargpos b) (b_nargvl b))\<lparr>b_nargpos := 0\<rparr>
                   in if ae_tail_ok e TAILCALL_ADD_ENVP \<and> 0 < n
                      then add_string_tail_envp c e (n - 1) (put_buf (ae_cpu e) (b\<lparr>b_idx := idx\<rparr>) s)
                      else emit_no_env c e b idx (stat_inc EXECVE_TAILCALL_ENVP_START_FAIL s)))"

declare add_string_tail_argv.simps [simp del]

definition log_execve ::
  "config \<Rightarrow> tracepoint \<Rightarrow> nat \<Rightarrow> u64 \<Rightarrow> u64 \<Rightarrow> u64 \<Rightarrow> s64 \<Rightarrow> s64 \<Rightarrow> kstate \<Rightarrow> kstate" where
  "log_execve c t sc fn argv envp fd flags s =
     (let e = tp_env t; n = MAX_TAIL_CALL_CNT
      in case init c e sc EXECVEE_EN WT_EXECVE s of
           (s, None) \<Rightarrow> s
         | (s, Some (b, i, hdr)) \<Rightarrow>
             (let (oid, s) = proc (tp_ids t) fd s;
                  (b, i) = add_long3 b flags fd oid i hdr;
                  (b, i, s) = add_string e b fn i s;
                  b = b\<lparr>b_nargpos := i\<rparr>;
                  (b, i, s, argv_count) = add_str_array0_16 e b argv (i + 2) s;
                  b = b\<lparr>b_nargvl := argv_count\<rparr>;
                  b = write_u16_le b (b_nargpos b) (b_nargvl b);
                  no_env = (\<lambda>b s. finish c e (write_u16_le b i 0) (i + 2) (stat_inc EXECVE_TAILCALL_ENVP_START_FAIL s));
                  start_env = (\<lambda>b s. if ae_tail_ok e TAILCALL_ADD_ENVP
                                 then add_string_tail_envp c e (n - 1) (put_buf (ae_cpu e) b s)
                                 else no_env b s)
              in if argv_count < 16
                 then start_env (b\<lparr>b_idx := i, b_envp := envp\<rparr>) s
                 else let b = b\<lparr>b_idx := i, b_argv := argv + 8 * of_nat argv_count, b_envp := envp\<rparr>
                      in if ae_tail_ok e TAILCALL_ADD_ARGV
                         then add_string_tail_argv c e (n - 1) (put_buf (ae_cpu e) b s)
                         else start_env (write_u16_le b (b_nargpos b) (b_nargvl b))
                                (stat_inc EXECVE_TAILCALL_ARGV_START_FAIL s)))"

definition sys_enter_execve :: handler where
  "sys_enter_execve c e s =
     (if log_on e WT_EXECVE
      then on_k (log_execve c e (tp_nr e) (tp_args e ''filename'') (tp_args e ''argv'') (tp_args e ''envp'') AT_FDCWD 0) s
      else s)"

text \<open>\<open>proc\<close> is applied to the descriptor here, and to its result once more in \<open>log_execve\<close>.\<close>

definition sys_enter_execveat :: handler where
  "sys_enter_execveat c e s =
     with_proc e (tp_args e ''fd'') (\<lambda>fd.
       if log_on e WT_EXECVE
       then on_k (log_execve c e (tp_nr e) (tp_args e ''filename'') (tp_args e ''argv'') (tp_args e ''envp'') fd
              (tp_args e ''flags''))
       else (\<lambda>s. s)) s"

end
