(* ===== verification/Audit_Trace.thy ===== *)
theory Audit_Trace
  imports Audit_Execve
begin

text \<open>
  The audit probe under any interleaving of threads: which handler runs at which tracepoint, that a
  handler sees and changes only the pending arguments of its own thread, and that every exit handler
  removes what the entry handler left.
\<close>

section \<open>The tracepoints\<close>

text \<open>
  The handlers by the name of the system call, as \<open>auto_attach_tracepoints\<close> of \<^verbatim>\<open>src/dlogger.C\<close> attaches
  them by the names in the source of the probe.
\<close>

definition no_handler :: handler where
  "no_handler c e s = s"

definition plain_syscalls :: "(string \<times> handler \<times> handler) list" where
  "plain_syscalls =
    [(''open'', sys_enter_open, sys_exit_open),
     (''openat'', sys_enter_openat, sys_exit_openat),
     (''creat'', sys_enter_creat, sys_exit_creat),
     (''truncate'', sys_enter_truncate, sys_exit_truncate),
     (''ftruncate'', sys_enter_ftruncate, sys_exit_ftruncate),
     (''close'', sys_enter_close, no_handler),
     (''accept'', sys_enter_accept, sys_exit_accept),
     (''accept4'', sys_enter_accept4, sys_exit_accept4),
     (''socket'', no_handler, sys_exit_socket),
     (''connect'', sys_enter_connect, sys_exit_connect),
     (''getpeername'', sys_enter_getpeername, sys_exit_getpeername),
     (''bind'', sys_enter_bind, sys_exit_bind),
     (''read'', sys_enter_read, sys_exit_read),
     (''readv'', sys_enter_readv, sys_exit_readv),
     (''recvmsg'', sys_enter_recvmsg, sys_exit_recvmsg),
     (''recvmmsg'', sys_enter_recvmmsg, sys_exit_recvmmsg),
     (''pread64'', sys_enter_pread64, sys_exit_pread64),
     (''preadv'', sys_enter_preadv, sys_exit_preadv),
     (''preadv2'', sys_enter_preadv2, sys_exit_preadv2),
     (''recvfrom'', sys_enter_recvfrom, sys_exit_recvfrom),
     (''sendfile64'', sys_enter_sendfile64, sys_exit_sendfile64),
     (''copy_file_range'', sys_enter_copy_file_range, sys_exit_copy_file_range),
     (''write'', sys_enter_write, sys_exit_write),
     (''writev'', sys_enter_writev, sys_exit_writev),
     (''sendmsg'', sys_enter_sendmsg, sys_exit_sendmsg),
     (''sendmmsg'', sys_enter_sendmmsg, sys_exit_sendmmsg),
     (''pwrite64'', sys_enter_pwrite64, sys_exit_pwrite64),
     (''pwritev'', sys_enter_pwritev, sys_exit_pwritev),
     (''pwritev2'', sys_enter_pwritev2, sys_exit_pwritev2),
     (''sendto'', sys_enter_sendto, sys_exit_sendto),
     (''mprotect'', sys_enter_mprotect, sys_exit_mprotect),
     (''mmap'', sys_enter_mmap, sys_exit_mmap),
     (''unlink'', sys_enter_unlink, sys_exit_unlink),
     (''unlinkat'', sys_enter_unlinkat, sys_exit_unlinkat),
     (''mkdir'', sys_enter_mkdir, sys_exit_mkdir),
     (''mkdirat'', sys_enter_mkdirat, sys_exit_mkdirat),
     (''rmdir'', sys_enter_rmdir, sys_exit_rmdir),
     (''chdir'', sys_enter_chdir, sys_exit_chdir),
     (''fchdir'', sys_enter_fchdir, sys_exit_fchdir),
     (''link'', sys_enter_link, sys_exit_link),
     (''linkat'', sys_enter_linkat, sys_exit_linkat),
     (''symlink'', sys_enter_symlink, sys_exit_symlink),
     (''symlinkat'', sys_enter_symlinkat, sys_exit_symlinkat),
     (''rename'', sys_enter_rename, sys_exit_rename),
     (''renameat'', sys_enter_renameat, sys_exit_renameat),
     (''renameat2'', sys_enter_renameat2, sys_exit_renameat2),
     (''mknod'', sys_enter_mknod, sys_exit_mknod),
     (''mknodat'', sys_enter_mknodat, sys_exit_mknodat),
     (''tee'', sys_enter_tee, sys_exit_tee),
     (''mount'', sys_enter_mount, sys_exit_mount),
     (''umount'', sys_enter_umount, sys_exit_umount),
     (''splice'', sys_enter_splice, sys_exit_splice),
     (''vmsplice'', sys_enter_vmsplice, sys_exit_vmsplice),
     (''kill'', sys_enter_kill, sys_exit_kill),
     (''tkill'', sys_enter_tkill, sys_exit_tkill),
     (''tgkill'', sys_enter_tgkill, sys_exit_tgkill),
     (''ptrace'', sys_enter_ptrace, sys_exit_ptrace),
     (''chmod'', sys_enter_chmod, sys_exit_chmod),
     (''fchmodat'', sys_enter_fchmodat, sys_exit_fchmodat),
     (''fchmod'', sys_enter_fchmod, sys_exit_fchmod),
     (''chown'', sys_enter_chown, sys_exit_chown),
     (''lchown'', sys_enter_lchown, sys_exit_lchown),
     (''fchownat'', sys_enter_fchownat, sys_exit_fchownat),
     (''fchown'', sys_enter_fchown, sys_exit_fchown),
     (''setresuid'', sys_enter_setresuid, sys_exit_setresuid),
     (''setreuid'', sys_enter_setreuid, sys_exit_setreuid),
     (''setuid'', sys_enter_setuid, sys_exit_setuid),
     (''setresgid'', sys_enter_setresgid, sys_exit_setresgid),
     (''setregid'', sys_enter_setregid, sys_exit_setregid),
     (''setgid'', sys_enter_setgid, sys_exit_setgid),
     (''fork'', sys_enter_fork, sys_exit_fork),
     (''vfork'', sys_enter_vfork, sys_exit_vfork),
     (''clone'', sys_enter_clone, sys_exit_clone),
     (''clone3'', sys_enter_clone3, sys_exit_clone3),
     (''exit'', sys_enter_exit, no_handler),
     (''exit_group'', sys_enter_exit_group, no_handler),
     (''init_module'', sys_enter_init_module, sys_exit_init_module),
     (''finit_module'', sys_enter_finit_module, sys_exit_finit_module)]"

definition exec_syscalls :: "(string \<times> handler \<times> handler) list" where
  "exec_syscalls =
    [(''execve'', sys_enter_execve, sys_exit_execve),
     (''execveat'', sys_enter_execveat, sys_exit_execveat)]"

definition syscalls :: "(string \<times> handler \<times> handler) list" where
  "syscalls = plain_syscalls @ exec_syscalls"

lemmas syscall_defs = syscalls_def plain_syscalls_def exec_syscalls_def

datatype phase = Enter | Exit

type_synonym event = "phase \<times> string \<times> tracepoint"

text \<open>The handler that runs at a tracepoint.\<close>

fun fire :: "config \<Rightarrow> event \<Rightarrow> astate \<Rightarrow> astate" where
  "fire c (ph, nm, e) s =
     (case map_of syscalls nm of
        None \<Rightarrow> s
      | Some (enter, exit) \<Rightarrow> (case ph of Enter \<Rightarrow> enter c e s | Exit \<Rightarrow> exit c e s))"

declare fire.simps [simp del]

section \<open>The tables of pending arguments\<close>

text \<open>
  What a handler relies on: an entry is there until it is fetched, and only the thread that put it
  can fetch it.
\<close>

locale arg_table =
  fixes tbl :: "astate \<Rightarrow> u32 \<rightharpoonup> 'v"
    and put :: "tracepoint \<Rightarrow> 'v \<Rightarrow> astate \<Rightarrow> astate"
    and fetch :: "config \<Rightarrow> tracepoint \<Rightarrow> nat \<Rightarrow> astate \<Rightarrow> astate \<times> 'v option"
  assumes put_own: "tbl (put e v s) (tid e) = Some v"
    and put_other: "t \<noteq> tid e \<Longrightarrow> \<not> tp_evict e t \<Longrightarrow> tbl (put e v s) t = tbl s t"
    and fetch_result: "snd (fetch c e sc s) = tbl s (tid e)"
    and fetch_own: "tbl (fst (fetch c e sc s)) (tid e) = None"
    and fetch_other: "t \<noteq> tid e \<Longrightarrow> tbl (fst (fetch c e sc s)) t = tbl s t"
begin

text \<open>What one thread does to a table in a step.\<close>

inductive step :: "tracepoint \<Rightarrow> astate \<Rightarrow> astate \<Rightarrow> bool" where
  put: "step e s (put e v s)"
| fetch: "step e s (fst (fetch c e sc s))"

inductive_cases stepE: "step e s s'"

inductive steps :: "tracepoint list \<Rightarrow> astate \<Rightarrow> astate \<Rightarrow> bool" where
  none: "steps [] s s"
| more: "step e s s' \<Longrightarrow> steps es s' s'' \<Longrightarrow> steps (e # es) s s''"

lemma step_other: "step e s s' \<Longrightarrow> t \<noteq> tid e \<Longrightarrow> \<not> tp_evict e t \<Longrightarrow> tbl s' t = tbl s t"
  by (elim stepE) (simp_all add: put_other fetch_other)

lemma steps_other: "steps es s s' \<Longrightarrow> list_all (\<lambda>e. t \<noteq> tid e \<and> \<not> tp_evict e t) es \<Longrightarrow> tbl s' t = tbl s t"
  by (induction rule: steps.induct) (auto dest: step_other)

lemma fetch_after_put:
  assumes "steps es (put e v s) s'" "list_all (\<lambda>e'. tid e \<noteq> tid e' \<and> \<not> tp_evict e' (tid e)) es" "tid e' = tid e"
  shows "snd (fetch c e' sc s') = Some v"
  using steps_other [OF assms(1,2)] assms(3) by (simp add: fetch_result put_own)

end

section \<open>Handlers and the slots of a thread\<close>

definition slots :: "u32 \<Rightarrow> astate \<Rightarrow> u64 option \<times> (u64 \<times> u64 \<times> u64) option \<times> (u64 \<times> u64 \<times> u64 \<times> u64 \<times> u64) option" where
  "slots t s = (as_arg s t, as_arg3 s t, as_arg5 s t)"

lemma on_k_simps [simp]:
  "as_arg (on_k f s) = as_arg s" "as_arg3 (on_k f s) = as_arg3 s" "as_arg5 (on_k f s) = as_arg5 s"
  "as_k (on_k f s) = f (as_k s)" "slots t (on_k f s) = slots t s"
  by (simp_all add: on_k_def slots_def)

lemma unexp_tables [simp]:
  "as_arg (unexp_arg_lookup_err c e sc s) = as_arg s" "as_arg3 (unexp_arg_lookup_err c e sc s) = as_arg3 s"
  "as_arg5 (unexp_arg_lookup_err c e sc s) = as_arg5 s"
  by (simp_all add: unexp_arg_lookup_err_def)

interpretation arg_tbl: arg_table as_arg arg_record arg_retrieve_and_delete
  by unfold_locales (auto simp: arg_record_def arg_retrieve_and_delete_def lru_update_def split: option.splits)

interpretation arg3_tbl: arg_table as_arg3 "\<lambda>e (a, b, d). arg3_record e a b d" arg3_retrieve_and_delete
  by unfold_locales (auto simp: arg3_record_def arg3_retrieve_and_delete_def lru_update_def split: option.splits prod.splits)

interpretation arg5_tbl: arg_table as_arg5 "\<lambda>e (a, b, d, f, g). arg5_record e a b d f g" arg5_retrieve_and_delete
  by unfold_locales (auto simp: arg5_record_def arg5_retrieve_and_delete_def lru_update_def split: option.splits prod.splits)

text \<open>
  A handler of thread \<open>t\<close> that reads and writes the log and the slots of \<open>t\<close>, and nothing else of the
  tables.
\<close>

definition own :: "u32 \<Rightarrow> (astate \<Rightarrow> astate) \<Rightarrow> bool" where
  "own t a \<longleftrightarrow> (\<forall>s u. u \<noteq> t \<longrightarrow> slots u (a s) = slots u s) \<and>
     (\<forall>s s'. as_k s = as_k s' \<longrightarrow> slots t s = slots t s' \<longrightarrow> as_k (a s) = as_k (a s') \<and> slots t (a s) = slots t (a s'))"

text \<open>One that leaves the tables alone.\<close>

definition keeps :: "(astate \<Rightarrow> astate) \<Rightarrow> bool" where
  "keeps a \<longleftrightarrow> (\<exists>g. a = on_k g)"

named_theorems own_intros
named_theorems keeps_intros

lemma ownD: "own t a \<Longrightarrow> u \<noteq> t \<Longrightarrow> slots u (a s) = slots u s"
  "own t a \<Longrightarrow> as_k s = as_k s' \<Longrightarrow> slots t s = slots t s' \<Longrightarrow> as_k (a s) = as_k (a s')"
  "own t a \<Longrightarrow> as_k s = as_k s' \<Longrightarrow> slots t s = slots t s' \<Longrightarrow> slots t (a s) = slots t (a s')"
  unfolding own_def by blast+

lemma keeps_slots [simp]: "keeps a \<Longrightarrow> slots t (a s) = slots t s"
  by (auto simp: keeps_def)

lemma keeps_tables:
  "keeps a \<Longrightarrow> as_arg (a s) = as_arg s" "keeps a \<Longrightarrow> as_arg3 (a s) = as_arg3 s" "keeps a \<Longrightarrow> as_arg5 (a s) = as_arg5 s"
  by (auto simp: keeps_def)

lemma keeps_prod [keeps_intros]: "(\<And>a b. keeps (f a b)) \<Longrightarrow> keeps (case p of (a, b) \<Rightarrow> f a b)"
  by (cases p) simp

lemma keepsE:
  assumes "\<And>x. keeps (f x)" obtains g where "f = (\<lambda>x. on_k (g x))"
proof -
  from assms have "\<forall>x. \<exists>g. f x = on_k g" by (simp add: keeps_def)
  then obtain g where "\<forall>x. f x = on_k (g x)" by (rule choice [THEN exE])
  then show thesis by (intro that [of g]) auto
qed

lemma keeps_id [keeps_intros]: "keeps (\<lambda>s. s)"
  unfolding keeps_def by (rule exI [of _ "\<lambda>k. k"]) (simp add: on_k_def fun_eq_iff)

lemma keeps_on_k [keeps_intros]: "keeps (on_k f)"
  by (auto simp: keeps_def)

lemma keeps_if [keeps_intros]: "keeps f \<Longrightarrow> keeps g \<Longrightarrow> keeps (if b then f else g)"
  by simp

lemma keeps_if_app [keeps_intros]: "keeps f \<Longrightarrow> keeps g \<Longrightarrow> keeps (\<lambda>s. if b then f s else g s)"
  by (cases b) simp_all

lemma keeps_comp: "keeps f \<Longrightarrow> keeps g \<Longrightarrow> keeps (\<lambda>s. g (f s))"
proof -
  assume "keeps f" "keeps g"
  then obtain h k where "f = on_k h" "g = on_k k" by (auto simp: keeps_def)
  then show "keeps (\<lambda>s. g (f s))" by (auto simp: keeps_def on_k_def fun_eq_iff intro: exI [of _ "\<lambda>x. k (h x)"])
qed

lemma keeps_with_proc [keeps_intros]:
  assumes "\<And>oid. keeps (f oid)" shows "keeps (with_proc e fd f)"
  using assms
proof (rule keepsE)
  fix g assume f: "f = (\<lambda>oid. on_k (g oid))"
  show ?thesis unfolding keeps_def f
    by (rule exI [of _ "\<lambda>k. case proc (tp_ids e) fd k of (oid, k) \<Rightarrow> g oid k"])
      (simp add: with_proc_def on_k_def fun_eq_iff split_def Let_def)
qed

lemma keeps_with_fdtoid [keeps_intros]:
  assumes "\<And>oid. keeps (f oid)" shows "keeps (with_fdtoid e fd f)"
  using assms
proof (rule keepsE)
  fix g assume f: "f = (\<lambda>oid. on_k (g oid))"
  show ?thesis unfolding keeps_def f
    by (rule exI [of _ "\<lambda>k. case fdtoid (tp_ids e) fd k of (oid, k) \<Rightarrow> g oid k"])
      (simp add: with_fdtoid_def on_k_def fun_eq_iff split_def Let_def)
qed

lemma keeps_log_data [keeps_intros]: "keeps (log_data f i)"
  by (simp add: log_data_def keeps_on_k)

lemma keeps_unexp [keeps_intros]: "keeps (unexp_arg_lookup_err c e sc)"
  by (simp add: unexp_arg_lookup_err_def keeps_intros)

lemma own_keeps: "keeps a \<Longrightarrow> own t a"
  by (auto simp: own_def keeps_def)

lemma own_if [own_intros]: "own t f \<Longrightarrow> own t g \<Longrightarrow> own t (\<lambda>s. if b then f s else g s)"
  by (cases b) simp_all

lemma own_if_fun [own_intros]: "own t f \<Longrightarrow> own t g \<Longrightarrow> own t (if b then f else g)"
  by simp

lemma own_prod [own_intros]: "(\<And>a b. own t (f a b)) \<Longrightarrow> own t (case p of (a, b) \<Rightarrow> f a b)"
  by (cases p) simp

lemma own_log [own_intros]:
  "own t (\<lambda>s. s)" "own t (on_k f)" "(\<And>oid. keeps (g oid)) \<Longrightarrow> own t (with_proc e fd g)"
  "(\<And>oid. keeps (g oid)) \<Longrightarrow> own t (with_fdtoid e fd2 g)" "own t (log_data h i)"
  by (rule own_keeps, intro keeps_intros, assumption?)+


lemma own_comp:
  assumes f: "own t f" and g: "own t g" shows "own t (\<lambda>s. g (f s))"
  unfolding own_def
proof (intro conjI allI impI)
  fix s u assume u: "u \<noteq> t"
  show "slots u (g (f s)) = slots u s" by (simp only: ownD(1) [OF g u] ownD(1) [OF f u])
next
  fix s s' :: astate assume e: "as_k s = as_k s'" "slots t s = slots t s'"
  show "as_k (g (f s)) = as_k (g (f s'))" "slots t (g (f s)) = slots t (g (f s'))"
    by (rule ownD(2) [OF g ownD(2) [OF f e] ownD(3) [OF f e]], rule ownD(3) [OF g ownD(2) [OF f e] ownD(3) [OF f e]])
qed

definition calm :: "tracepoint \<Rightarrow> bool" where
  "calm e \<longleftrightarrow> (\<forall>t. \<not> tp_evict e t)"

lemma own_put [own_intros]:
  "calm e \<Longrightarrow> own (tid e) (arg_record e d)" "calm e \<Longrightarrow> own (tid e) (arg3_record e a b d)"
  "calm e \<Longrightarrow> own (tid e) (arg5_record e a b d f g)"
  by (auto simp: own_def slots_def calm_def arg_record_def arg3_record_def arg5_record_def lru_update_def)

lemma own_fetched:
  assumes G: "\<And>x. own t (G x)" and F: "own t (\<lambda>s. fst (fetch s))"
    and X: "\<And>s s'. slots t s = slots t s' \<Longrightarrow> snd (fetch s) = snd (fetch s')"
  shows "own t (\<lambda>s. case fetch s of (s, x) \<Rightarrow> G x s)"
  unfolding own_def split_def
proof (intro conjI allI impI)
  fix s u assume u: "u \<noteq> t"
  show "slots u (G (snd (fetch s)) (fst (fetch s))) = slots u s"
    by (simp only: ownD(1) [OF G u] ownD(1) [OF F u])
next
  fix s s' :: astate assume e: "as_k s = as_k s'" "slots t s = slots t s'"
  show "as_k (G (snd (fetch s)) (fst (fetch s))) = as_k (G (snd (fetch s')) (fst (fetch s')))"
    "slots t (G (snd (fetch s)) (fst (fetch s))) = slots t (G (snd (fetch s')) (fst (fetch s')))"
    unfolding X [OF e(2)]
    by (rule ownD(2) [OF G ownD(2) [OF F e] ownD(3) [OF F e]], rule ownD(3) [OF G ownD(2) [OF F e] ownD(3) [OF F e]])
qed

lemma own_fetch:
  "own (tid e) (\<lambda>s. fst (arg_retrieve_and_delete c e sc s))" "own (tid e) (\<lambda>s. fst (arg3_retrieve_and_delete c e sc s))"
  "own (tid e) (\<lambda>s. fst (arg5_retrieve_and_delete c e sc s))"
  by (auto simp: own_def slots_def arg_retrieve_and_delete_def arg3_retrieve_and_delete_def arg5_retrieve_and_delete_def
      unexp_arg_lookup_err_def split: option.splits)

lemma own_fetch_case:
  "(\<And>x. own (tid e) (f x)) \<Longrightarrow> own (tid e) (\<lambda>s. case arg_retrieve_and_delete c e sc s of (s, x) \<Rightarrow> f x s)"
  "(\<And>x. own (tid e) (g x)) \<Longrightarrow> own (tid e) (\<lambda>s. case arg3_retrieve_and_delete c e sc s of (s, x) \<Rightarrow> g x s)"
  "(\<And>x. own (tid e) (h x)) \<Longrightarrow> own (tid e) (\<lambda>s. case arg5_retrieve_and_delete c e sc s of (s, x) \<Rightarrow> h x s)"
  by (rule own_fetched; simp add: own_fetch arg_tbl.fetch_result arg3_tbl.fetch_result arg5_tbl.fetch_result slots_def)+

lemma if_found_case: "if_found r f = (case r of (s, x) \<Rightarrow> (case x of None \<Rightarrow> (\<lambda>s. s) | Some v \<Rightarrow> f v) s)"
  by (auto simp: if_found_def split: prod.splits option.splits)

lemma own_option: "own t f \<Longrightarrow> (\<And>v. own t (g v)) \<Longrightarrow> own t (case x of None \<Rightarrow> f | Some v \<Rightarrow> g v)"
  by (cases x) simp_all

lemma own_found [own_intros]:
  "(\<And>v. own (tid e) (f v)) \<Longrightarrow> own (tid e) (\<lambda>s. if_found (arg_retrieve_and_delete c e sc s) f)"
  "(\<And>v. own (tid e) (g v)) \<Longrightarrow> own (tid e) (\<lambda>s. if_found (arg3_retrieve_and_delete c e sc s) g)"
  "(\<And>v. own (tid e) (h v)) \<Longrightarrow> own (tid e) (\<lambda>s. if_found (arg5_retrieve_and_delete c e sc s) h)"
  unfolding if_found_case by (rule own_fetch_case, intro own_option own_log, assumption)+

lemma keeps_logs [keeps_intros]:
  "keeps (log_read c e sc nm fd ret)" "keeps (log_write c e sc nm fd ret)" "keeps (log_unlink c e sc a b ret)"
  "keeps (log_mkdir c e sc a b d ret)" "keeps (log_link c e sc a b d f g ret)" "keeps (log_symlink c e sc a b d ret)"
  "keeps (log_rename c e sc a b d f g ret)" "keeps (log_mknod c e sc a b d f ret)" "keeps (log_chmod c e sc a b d f ret)"
  "keeps (log_chown c e sc a b d f g ret)"
  unfolding log_read_def log_write_def log_unlink_def log_mkdir_def log_link_def log_symlink_def log_rename_def log_mknod_def
    log_chmod_def log_chown_def
  by (intro keeps_intros)+

lemma keeps_read_slen:
  "keeps (\<lambda>s. case read_slen e a l (as_k s) of (n, k) \<Rightarrow> log_data (f n) i (s\<lparr>as_k := k\<rparr>))"
  unfolding keeps_def
  by (rule exI [of _ "\<lambda>k. case read_slen e a l k of (n, k) \<Rightarrow> (case f n k of (k, fail) \<Rightarrow> if fail then stat_inc i k else k)"])
    (simp add: fun_eq_iff log_data_def on_k_def split_def)

lemma keeps_saddr [keeps_intros]:
  "keeps ((if flag then with_fdtoid e fd else (\<lambda>f. f 0)) (\<lambda>oid s.
     let (slen, k) = read_slen (tp_env e) saddr alen (as_k s) in log_data (f oid slen) i (s\<lparr>as_k := k\<rparr>)))"
  using keeps_read_slen by (cases flag) (simp_all add: keeps_with_fdtoid)

lemma own_saddr_exit [own_intros]: "own (tid e) (log_sc_exit_with_saddr c e sc nm w ret flag errsc)"
  unfolding log_sc_exit_with_saddr_def [abs_def]
  by (intro own_found own_prod own_if own_log own_keeps [OF keeps_saddr])

lemma own_open [own_intros]:
  "calm e \<Longrightarrow> own (tid e) (store_open_args e a b d f)" "own (tid e) (log_open_exit c e sc ret)"
  "calm e \<Longrightarrow> own (tid e) (store_saddr_arg e w x y z)"
  unfolding store_open_args_def [abs_def] log_open_exit_def [abs_def] store_saddr_arg_def [abs_def]
  by (intro own_intros keeps_intros; assumption)+

lemma own_entries [own_intros]:
  "calm e \<Longrightarrow> own (tid e) (read_entry c e fd)" "calm e \<Longrightarrow> own (tid e) (read_entry1 c e a l fd)"
  "calm e \<Longrightarrow> own (tid e) (write_entry c e fd)" "calm e \<Longrightarrow> own (tid e) (write_entry1 c e a n fd)"
  "calm e \<Longrightarrow> own (tid e) (sendfile64_entry c e fd fd2)" "calm e \<Longrightarrow> own (tid e) (log_kill_entry c e sc pid sig)"
  unfolding read_entry_def [abs_def] read_entry1_def [abs_def] write_entry_def [abs_def] write_entry1_def [abs_def]
    sendfile64_entry_def [abs_def] log_kill_entry_def [abs_def]
  by (intro own_intros keeps_intros own_comp [where f = "arg_record _ _" and g = "on_k _"]; assumption)+

lemma own_logs [own_intros]:
  "own t (log_read c e sc nm fd ret)" "own t (log_write c e sc nm fd ret)" "own t (log_unlink c e sc a b ret)"
  "own t (log_mkdir c e sc a b d ret)" "own t (log_link c e sc a b d f g ret)" "own t (log_symlink c e sc a b d ret)"
  "own t (log_rename c e sc a b d f g ret)" "own t (log_mknod c e sc a b d f ret)" "own t (log_chmod c e sc a b d f ret)"
  "own t (log_chown c e sc a b d f g ret)"
  by (rule own_keeps, rule keeps_logs)+

text \<open>The exit handlers of transfers, written with one lookup.\<close>

lemma read_exit_found:
  "fst (read_exit c e sc nm ret errsc s) = if_found (arg_retrieve_and_delete c e errsc s) (\<lambda>fd. log_read c e sc nm (to_int fd) ret)"
  by (simp add: read_exit_def if_found_def split: prod.splits option.splits)

lemma write_exit_found:
  "fst (write_exit c e sc nm ret errsc s) = if_found (arg_retrieve_and_delete c e errsc s) (\<lambda>fd. log_write c e sc nm (to_int fd) ret)"
  by (simp add: write_exit_def if_found_def split: prod.splits option.splits)

lemma read_exit1_case:
  "read_exit1 c e sc nm w ret s = (case arg_retrieve_and_delete c e 600 s of (s, x) \<Rightarrow>
     (case x of None \<Rightarrow> log_sc_exit_with_saddr c e sc nm w ret False sc | Some fd \<Rightarrow> log_read c e sc READ_EX (to_int fd) ret) s)"
  by (simp add: read_exit1_def read_exit_def split: prod.splits option.splits)

definition sendto_exit :: "config \<Rightarrow> tracepoint \<Rightarrow> nat \<Rightarrow> u8 \<Rightarrow> u32 \<Rightarrow> s64 \<Rightarrow> astate \<Rightarrow> astate" where
  "sendto_exit c e sc nm w ret s =
     if_found (arg3_retrieve_and_delete c e sc s) (\<lambda>(saddr, addrlen, fd).
       if \<not> is_err ret
       then log_data (log_sc_data_long2 c (tp_env e) sc nm w saddr (to_int (if addrlen <s 0 then 0 else addrlen)) fd ret)
              SENDTO_DATA_ERR
       else (\<lambda>s. s))"

lemma write_exit1_case:
  "write_exit1 c e sc nm w ret s = (case arg_retrieve_and_delete c e 600 s of (s, x) \<Rightarrow>
     (case x of None \<Rightarrow> sendto_exit c e sc nm w ret | Some fd \<Rightarrow> log_write c e sc WRITE_EX (to_int fd) ret) s)"
  by (simp add: write_exit1_def write_exit_def sendto_exit_def split: prod.splits option.splits)

definition ids_log :: "config \<Rightarrow> tracepoint \<Rightarrow> u8 \<Rightarrow> s64 \<Rightarrow> u64 option \<Rightarrow> kstate \<Rightarrow> kstate" where
  "ids_log c e scnm ret flags k =
     (let (scwt, new) =
            (if \<not> is_err ret \<and> (scnm = FORK_EX \<or> scnm = CLONE_EX)
             then if ret \<noteq> 0
                  then (wt WT_CRITICAL, \<exists>fl\<in>set_option flags. fl AND CLONE_THREAD \<noteq> 0)
                  else (wt WT_IMPORTANT, tid e = getpid (tp_env e))
             else (0, False));
          k = (if new then stat_inc NUM_SUBJ_CREATED k else k);
          ret = (ret AND 0xffffffff) OR push_bit 32 (ucast (tp_real_parent_pid e));
          uidgid = push_bit 32 (ucast (tp_egid e)) OR ucast (tp_euid e)
      in log_sc_long3 c (tp_env e) 600 scnm scwt uidgid (ae_cgroup_id (tp_env e)) ret k)"

lemma exit_with_ids_case:
  "log_sc_exit_with_ids c e sc nm ret s = (case arg_retrieve_and_delete c e 600 s of (s, x) \<Rightarrow> on_k (ids_log c e nm ret x) s)"
  by (simp add: log_sc_exit_with_ids_def ids_log_def on_k_def Let_def split: prod.splits)

lemma own_exits [own_intros]:
  "own (tid e) (\<lambda>s. fst (read_exit c e sc nm ret errsc s))" "own (tid e) (\<lambda>s. fst (write_exit c e sc nm ret errsc s))"
  "own (tid e) (sendto_exit c e sc nm w ret)"
  unfolding read_exit_found write_exit_found sendto_exit_def [abs_def] by (intro own_intros)+

lemma own_exits1 [own_intros]:
  "own (tid e) (read_exit1 c e sc nm w ret)" "own (tid e) (write_exit1 c e sc nm w ret)"
  "own (tid e) (log_sc_exit_with_ids c e sc nm ret)"
  unfolding read_exit1_case [abs_def] write_exit1_case [abs_def] exit_with_ids_case [abs_def]
  by (intro own_intros own_fetch_case own_option)+

lemma own_sendfile [own_intros]: "own (tid e) (sendfile64_exit c e sc nm ret)"
  unfolding sendfile64_exit_def [abs_def] Let_def
  by (intro own_intros own_comp [where f = "log_read _ _ _ _ _ _" and g = "log_write _ _ _ _ _ _"])

lemmas entry_defs =
  sys_enter_open_def sys_enter_openat_def sys_enter_creat_def sys_enter_truncate_def sys_enter_ftruncate_def
  sys_enter_close_def sys_enter_accept_def sys_enter_accept4_def sys_enter_connect_def sys_enter_getpeername_def
  sys_enter_bind_def sys_enter_read_def sys_enter_readv_def sys_enter_recvmsg_def sys_enter_recvmmsg_def
  sys_enter_pread64_def sys_enter_preadv_def sys_enter_preadv2_def sys_enter_recvfrom_def
  sys_enter_sendfile64_def sys_enter_copy_file_range_def sys_enter_write_def sys_enter_writev_def
  sys_enter_sendmsg_def sys_enter_sendmmsg_def sys_enter_pwrite64_def sys_enter_pwritev_def
  sys_enter_pwritev2_def sys_enter_sendto_def sys_enter_mprotect_def sys_enter_mmap_def sys_enter_unlink_def
  sys_enter_unlinkat_def sys_enter_mkdir_def sys_enter_mkdirat_def sys_enter_rmdir_def sys_enter_chdir_def
  sys_enter_fchdir_def sys_enter_link_def sys_enter_linkat_def sys_enter_symlink_def sys_enter_symlinkat_def
  sys_enter_rename_def sys_enter_renameat_def sys_enter_renameat2_def sys_enter_mknod_def sys_enter_mknodat_def
  sys_enter_tee_def sys_enter_mount_def sys_enter_umount_def sys_enter_splice_def sys_enter_vmsplice_def
  sys_enter_kill_def sys_enter_tkill_def sys_enter_tgkill_def sys_enter_ptrace_def sys_enter_chmod_def
  sys_enter_fchmodat_def sys_enter_fchmod_def sys_enter_chown_def sys_enter_lchown_def sys_enter_fchownat_def
  sys_enter_fchown_def sys_enter_setresuid_def sys_enter_setreuid_def sys_enter_setuid_def
  sys_enter_setresgid_def sys_enter_setregid_def sys_enter_setgid_def sys_enter_fork_def sys_enter_vfork_def
  sys_enter_clone_def sys_enter_clone3_def sys_enter_exit_def sys_enter_exit_group_def sys_enter_execve_def
  sys_enter_execveat_def sys_enter_init_module_def sys_enter_finit_module_def

lemmas exit_defs =
  sys_exit_open_def sys_exit_openat_def sys_exit_creat_def sys_exit_truncate_def sys_exit_ftruncate_def
  sys_exit_accept_def sys_exit_accept4_def sys_exit_socket_def sys_exit_connect_def sys_exit_getpeername_def
  sys_exit_bind_def sys_exit_read_def sys_exit_readv_def sys_exit_recvmsg_def sys_exit_recvmmsg_def
  sys_exit_pread64_def sys_exit_preadv_def sys_exit_preadv2_def sys_exit_recvfrom_def sys_exit_sendfile64_def
  sys_exit_copy_file_range_def sys_exit_write_def sys_exit_writev_def sys_exit_sendmsg_def sys_exit_sendmmsg_def
  sys_exit_pwrite64_def sys_exit_pwritev_def sys_exit_pwritev2_def sys_exit_sendto_def sys_exit_mprotect_def
  sys_exit_mmap_def sys_exit_unlink_def sys_exit_unlinkat_def sys_exit_mkdir_def sys_exit_mkdirat_def
  sys_exit_rmdir_def sys_exit_chdir_def sys_exit_fchdir_def sys_exit_link_def sys_exit_linkat_def
  sys_exit_symlink_def sys_exit_symlinkat_def sys_exit_rename_def sys_exit_renameat_def sys_exit_renameat2_def
  sys_exit_mknod_def sys_exit_mknodat_def sys_exit_tee_def sys_exit_mount_def sys_exit_umount_def
  sys_exit_splice_def sys_exit_vmsplice_def sys_exit_kill_def sys_exit_tkill_def sys_exit_tgkill_def
  sys_exit_ptrace_def sys_exit_chmod_def sys_exit_fchmodat_def sys_exit_fchmod_def sys_exit_chown_def
  sys_exit_lchown_def sys_exit_fchownat_def sys_exit_fchown_def sys_exit_setresuid_def sys_exit_setreuid_def
  sys_exit_setuid_def sys_exit_setresgid_def sys_exit_setregid_def sys_exit_setgid_def sys_exit_fork_def
  sys_exit_vfork_def sys_exit_clone_def sys_exit_clone3_def sys_exit_execve_def sys_exit_execveat_def
  sys_exit_init_module_def sys_exit_finit_module_def

lemmas entry_fun_defs = entry_defs [abs_def]
lemmas exit_fun_defs = exit_defs [abs_def]

lemma own_entry_handlers:
  assumes "calm e"
  shows "own (tid e) (sys_enter_open c e)" "own (tid e) (sys_enter_openat c e)" "own (tid e) (sys_enter_creat c e)"
  "own (tid e) (sys_enter_truncate c e)" "own (tid e) (sys_enter_ftruncate c e)"
  "own (tid e) (sys_enter_close c e)" "own (tid e) (sys_enter_accept c e)" "own (tid e) (sys_enter_accept4 c e)"
  "own (tid e) (sys_enter_connect c e)" "own (tid e) (sys_enter_getpeername c e)"
  "own (tid e) (sys_enter_bind c e)" "own (tid e) (sys_enter_read c e)" "own (tid e) (sys_enter_readv c e)"
  "own (tid e) (sys_enter_recvmsg c e)" "own (tid e) (sys_enter_recvmmsg c e)"
  "own (tid e) (sys_enter_pread64 c e)" "own (tid e) (sys_enter_preadv c e)"
  "own (tid e) (sys_enter_preadv2 c e)" "own (tid e) (sys_enter_recvfrom c e)"
  "own (tid e) (sys_enter_sendfile64 c e)" "own (tid e) (sys_enter_copy_file_range c e)"
  "own (tid e) (sys_enter_write c e)" "own (tid e) (sys_enter_writev c e)" "own (tid e) (sys_enter_sendmsg c e)"
  "own (tid e) (sys_enter_sendmmsg c e)" "own (tid e) (sys_enter_pwrite64 c e)"
  "own (tid e) (sys_enter_pwritev c e)" "own (tid e) (sys_enter_pwritev2 c e)"
  "own (tid e) (sys_enter_sendto c e)" "own (tid e) (sys_enter_mprotect c e)" "own (tid e) (sys_enter_mmap c e)"
  "own (tid e) (sys_enter_unlink c e)" "own (tid e) (sys_enter_unlinkat c e)" "own (tid e) (sys_enter_mkdir c e)"
  "own (tid e) (sys_enter_mkdirat c e)" "own (tid e) (sys_enter_rmdir c e)" "own (tid e) (sys_enter_chdir c e)"
  "own (tid e) (sys_enter_fchdir c e)" "own (tid e) (sys_enter_link c e)" "own (tid e) (sys_enter_linkat c e)"
  "own (tid e) (sys_enter_symlink c e)" "own (tid e) (sys_enter_symlinkat c e)"
  "own (tid e) (sys_enter_rename c e)" "own (tid e) (sys_enter_renameat c e)"
  "own (tid e) (sys_enter_renameat2 c e)" "own (tid e) (sys_enter_mknod c e)"
  "own (tid e) (sys_enter_mknodat c e)" "own (tid e) (sys_enter_tee c e)" "own (tid e) (sys_enter_mount c e)"
  "own (tid e) (sys_enter_umount c e)" "own (tid e) (sys_enter_splice c e)"
  "own (tid e) (sys_enter_vmsplice c e)" "own (tid e) (sys_enter_kill c e)" "own (tid e) (sys_enter_tkill c e)"
  "own (tid e) (sys_enter_tgkill c e)" "own (tid e) (sys_enter_ptrace c e)" "own (tid e) (sys_enter_chmod c e)"
  "own (tid e) (sys_enter_fchmodat c e)" "own (tid e) (sys_enter_fchmod c e)" "own (tid e) (sys_enter_chown c e)"
  "own (tid e) (sys_enter_lchown c e)" "own (tid e) (sys_enter_fchownat c e)"
  "own (tid e) (sys_enter_fchown c e)" "own (tid e) (sys_enter_setresuid c e)"
  "own (tid e) (sys_enter_setreuid c e)" "own (tid e) (sys_enter_setuid c e)"
  "own (tid e) (sys_enter_setresgid c e)" "own (tid e) (sys_enter_setregid c e)"
  "own (tid e) (sys_enter_setgid c e)" "own (tid e) (sys_enter_fork c e)" "own (tid e) (sys_enter_vfork c e)"
  "own (tid e) (sys_enter_clone c e)" "own (tid e) (sys_enter_clone3 c e)" "own (tid e) (sys_enter_exit c e)"
  "own (tid e) (sys_enter_exit_group c e)" "own (tid e) (sys_enter_execve c e)"
  "own (tid e) (sys_enter_execveat c e)" "own (tid e) (sys_enter_init_module c e)"
  "own (tid e) (sys_enter_finit_module c e)"
  unfolding entry_fun_defs Let_def
  by (intro own_intros keeps_intros assms own_comp [where f = "arg_record _ _" and g = "on_k _"]
      own_comp [where f = "\<lambda>s. if _ then on_k _ s else s" and g = "log_kill_entry _ _ _ _ _"])+

lemma own_exit_handlers:
  "own (tid e) (sys_exit_open c e)" "own (tid e) (sys_exit_openat c e)" "own (tid e) (sys_exit_creat c e)"
  "own (tid e) (sys_exit_truncate c e)" "own (tid e) (sys_exit_ftruncate c e)"
  "own (tid e) (sys_exit_accept c e)" "own (tid e) (sys_exit_accept4 c e)" "own (tid e) (sys_exit_socket c e)"
  "own (tid e) (sys_exit_connect c e)" "own (tid e) (sys_exit_getpeername c e)" "own (tid e) (sys_exit_bind c e)"
  "own (tid e) (sys_exit_read c e)" "own (tid e) (sys_exit_readv c e)" "own (tid e) (sys_exit_recvmsg c e)"
  "own (tid e) (sys_exit_recvmmsg c e)" "own (tid e) (sys_exit_pread64 c e)" "own (tid e) (sys_exit_preadv c e)"
  "own (tid e) (sys_exit_preadv2 c e)" "own (tid e) (sys_exit_recvfrom c e)"
  "own (tid e) (sys_exit_sendfile64 c e)" "own (tid e) (sys_exit_copy_file_range c e)"
  "own (tid e) (sys_exit_write c e)" "own (tid e) (sys_exit_writev c e)" "own (tid e) (sys_exit_sendmsg c e)"
  "own (tid e) (sys_exit_sendmmsg c e)" "own (tid e) (sys_exit_pwrite64 c e)"
  "own (tid e) (sys_exit_pwritev c e)" "own (tid e) (sys_exit_pwritev2 c e)" "own (tid e) (sys_exit_sendto c e)"
  "own (tid e) (sys_exit_mprotect c e)" "own (tid e) (sys_exit_mmap c e)" "own (tid e) (sys_exit_unlink c e)"
  "own (tid e) (sys_exit_unlinkat c e)" "own (tid e) (sys_exit_mkdir c e)" "own (tid e) (sys_exit_mkdirat c e)"
  "own (tid e) (sys_exit_rmdir c e)" "own (tid e) (sys_exit_chdir c e)" "own (tid e) (sys_exit_fchdir c e)"
  "own (tid e) (sys_exit_link c e)" "own (tid e) (sys_exit_linkat c e)" "own (tid e) (sys_exit_symlink c e)"
  "own (tid e) (sys_exit_symlinkat c e)" "own (tid e) (sys_exit_rename c e)"
  "own (tid e) (sys_exit_renameat c e)" "own (tid e) (sys_exit_renameat2 c e)" "own (tid e) (sys_exit_mknod c e)"
  "own (tid e) (sys_exit_mknodat c e)" "own (tid e) (sys_exit_tee c e)" "own (tid e) (sys_exit_mount c e)"
  "own (tid e) (sys_exit_umount c e)" "own (tid e) (sys_exit_splice c e)" "own (tid e) (sys_exit_vmsplice c e)"
  "own (tid e) (sys_exit_kill c e)" "own (tid e) (sys_exit_tkill c e)" "own (tid e) (sys_exit_tgkill c e)"
  "own (tid e) (sys_exit_ptrace c e)" "own (tid e) (sys_exit_chmod c e)" "own (tid e) (sys_exit_fchmodat c e)"
  "own (tid e) (sys_exit_fchmod c e)" "own (tid e) (sys_exit_chown c e)" "own (tid e) (sys_exit_lchown c e)"
  "own (tid e) (sys_exit_fchownat c e)" "own (tid e) (sys_exit_fchown c e)"
  "own (tid e) (sys_exit_setresuid c e)" "own (tid e) (sys_exit_setreuid c e)"
  "own (tid e) (sys_exit_setuid c e)" "own (tid e) (sys_exit_setresgid c e)"
  "own (tid e) (sys_exit_setregid c e)" "own (tid e) (sys_exit_setgid c e)" "own (tid e) (sys_exit_fork c e)"
  "own (tid e) (sys_exit_vfork c e)" "own (tid e) (sys_exit_clone c e)" "own (tid e) (sys_exit_clone3 c e)"
  "own (tid e) (sys_exit_execve c e)" "own (tid e) (sys_exit_execveat c e)"
  "own (tid e) (sys_exit_init_module c e)" "own (tid e) (sys_exit_finit_module c e)"
  unfolding exit_fun_defs
  by (intro own_intros keeps_intros own_comp [where f = "log_read _ _ _ _ _ _" and g = "log_write _ _ _ _ _ _"])+

section \<open>Exit handlers remove what entry handlers leave\<close>

definition no_args :: "u64 option \<times> (u64 \<times> u64 \<times> u64) option \<times> (u64 \<times> u64 \<times> u64 \<times> u64 \<times> u64) option" where
  "no_args = (None, None, None)"

definition "only0 = {no_args}"
definition "only1 = {(v :: u64 option, None :: (u64 \<times> u64 \<times> u64) option, None :: (u64 \<times> u64 \<times> u64 \<times> u64 \<times> u64) option) | v. True}"
definition "only3 = {(None :: u64 option, v :: (u64 \<times> u64 \<times> u64) option, None :: (u64 \<times> u64 \<times> u64 \<times> u64 \<times> u64) option) | v. True}"
definition "only5 = {(None :: u64 option, None :: (u64 \<times> u64 \<times> u64) option, v :: (u64 \<times> u64 \<times> u64 \<times> u64 \<times> u64) option) | v. True}"
definition "only13 = only1 \<union> only3"

lemmas only_defs = only0_def only1_def only3_def only5_def only13_def no_args_def

lemma no_args_only: "no_args \<in> only0" "no_args \<in> only1" "no_args \<in> only3" "no_args \<in> only5" "no_args \<in> only13"
  by (simp_all add: only_defs)

definition fill where
  "fill t P a \<longleftrightarrow> (\<exists>x\<in>P. \<forall>s. slots t s = no_args \<longrightarrow> slots t (a s) = x)"

definition drain where
  "drain t P a \<longleftrightarrow> (\<forall>s. slots t s \<in> P \<longrightarrow> slots t (a s) = no_args)"

text \<open>All records are wanted.\<close>

definition logging :: "tracepoint \<Rightarrow> bool" where
  "logging e \<longleftrightarrow> ae_log_wt (tp_env e) = 0"

lemma logging_on: "logging e \<Longrightarrow> log_on e w"
  by (simp add: logging_def log_on_def)

definition matched :: "handler \<Rightarrow> handler \<Rightarrow> bool" where
  "matched enter exit \<longleftrightarrow> (\<exists>P. no_args \<in> P \<and> (\<forall>c e. fill (tid e) P (enter c e)) \<and>
     (\<forall>c e. logging e \<longrightarrow> drain (tid e) P (exit c e)))"

lemma matchedI:
  "no_args \<in> P \<Longrightarrow> (\<And>c e. fill (tid e) P (enter c e)) \<Longrightarrow> (\<And>c e. logging e \<Longrightarrow> drain (tid e) P (exit c e)) \<Longrightarrow>
   matched enter exit"
  unfolding matched_def by blast

named_theorems fill_intros
named_theorems drain_intros

lemma fill_keeps: "keeps a \<Longrightarrow> no_args \<in> P \<Longrightarrow> fill t P a"
  by (auto simp: fill_def)

lemma fill_log [fill_intros]: "no_args \<in> P \<Longrightarrow> fill t P (\<lambda>s. s)" "no_args \<in> P \<Longrightarrow> fill t P (on_k f)"
  by (auto simp: fill_def)

lemma fill_if [fill_intros]: "fill t P f \<Longrightarrow> fill t P g \<Longrightarrow> fill t P (\<lambda>s. if b then f s else g s)"
  by (cases b) simp_all

lemma fill_on_k [fill_intros]: "fill t P f \<Longrightarrow> fill t P (\<lambda>s. on_k g (f s))"
  by (simp add: fill_def)

lemma fill_after: "fill t P f \<Longrightarrow> fill t P (\<lambda>s. f (if b then on_k g s else s))"
  by (cases b) (auto simp: fill_def)

lemma fill_put [fill_intros]:
  "fill (tid e) only1 (arg_record e d)" "fill (tid e) only3 (arg3_record e a b d)" "fill (tid e) only5 (arg5_record e a b d f g)"
  "fill (tid e) only13 (arg_record e d)" "fill (tid e) only13 (arg3_record e a b d)"
  by (auto simp: fill_def only_defs slots_def arg_record_def arg3_record_def arg5_record_def lru_update_def)

lemma fill_entries [fill_intros]:
  "fill (tid e) only3 (store_open_args e k1 k2 k3 k4)" "fill (tid e) only3 (store_saddr_arg e w x y z)"
  "fill (tid e) only13 (store_saddr_arg e w x y z)"
  "fill (tid e) only1 (read_entry c e fd)" "fill (tid e) only1 (write_entry c e fd)" "fill (tid e) only1 (sendfile64_entry c e fd fd2)"
  "fill (tid e) only1 (log_kill_entry c e sc pid sig)"
  unfolding store_open_args_def [abs_def] store_saddr_arg_def [abs_def] read_entry_def [abs_def]
    write_entry_def [abs_def] sendfile64_entry_def [abs_def] log_kill_entry_def [abs_def]
  by (intro fill_intros no_args_only)+

lemma fill_entries1 [fill_intros]:
  "fill (tid e) only13 (read_entry1 c e a l fd)" "fill (tid e) only13 (write_entry1 c e a n fd)"
  unfolding read_entry1_def [abs_def] write_entry1_def [abs_def] by (intro fill_intros no_args_only)+

lemma drain_found:
  "(\<And>v. keeps (f v)) \<Longrightarrow> drain (tid e) only1 (\<lambda>s. if_found (arg_retrieve_and_delete c e sc s) f)"
  "(\<And>v. keeps (g v)) \<Longrightarrow> drain (tid e) only3 (\<lambda>s. if_found (arg3_retrieve_and_delete c e sc s) g)"
  "(\<And>v. keeps (h v)) \<Longrightarrow> drain (tid e) only5 (\<lambda>s. if_found (arg5_retrieve_and_delete c e sc s) h)"
  by (auto simp: drain_def if_found_def arg_retrieve_and_delete_def arg3_retrieve_and_delete_def arg5_retrieve_and_delete_def
      only_defs slots_def keeps_tables split: option.splits)

lemma drain_if_keeps: "keeps a \<Longrightarrow> drain t only0 a"
  by (auto simp: drain_def only_defs)

lemma drain_fetch:
  "(\<And>x. keeps (f x)) \<Longrightarrow> drain (tid e) only1 (\<lambda>s. case arg_retrieve_and_delete c e sc s of (s, x) \<Rightarrow> f x s)"
  by (auto simp: drain_def arg_retrieve_and_delete_def only_defs slots_def keeps_tables split: option.splits)

lemma drain_fetch13:
  assumes "\<And>v. keeps (f v)" "drain (tid e) only3 g"
  shows "drain (tid e) only13 (\<lambda>s. case arg_retrieve_and_delete c e sc s of (s, x) \<Rightarrow> (case x of None \<Rightarrow> g | Some v \<Rightarrow> f v) s)"
proof -
  have "slots (tid e) (g (unexp_arg_lookup_err c e sc s)) = no_args" if "as_arg s (tid e) = None" "as_arg5 s (tid e) = None" for s
    using assms(2) that by (auto simp: drain_def only_defs slots_def)
  with assms(1) show ?thesis
    by (auto simp: drain_def arg_retrieve_and_delete_def only_defs slots_def keeps_tables split: option.splits)
qed

lemma drain_mono: "drain t only1 a \<Longrightarrow> drain t only0 a"
  by (auto simp: drain_def only_defs)

lemma drain_exits [drain_intros]:
  "drain (tid e) only1 (\<lambda>s. fst (read_exit c e sc nm ret errsc s))" "drain (tid e) only1 (\<lambda>s. fst (write_exit c e sc nm ret errsc s))"
  "drain (tid e) only3 (sendto_exit c e sc nm w ret)" "drain (tid e) only3 (log_open_exit c e sc ret)"
  "drain (tid e) only1 (log_sc_exit_with_ids c e sc nm ret)"
  unfolding read_exit_found write_exit_found sendto_exit_def [abs_def] log_open_exit_def [abs_def] exit_with_ids_case [abs_def]
  by (intro drain_found drain_fetch keeps_intros)+

lemma drain_saddr [drain_intros]: "drain (tid e) only3 (log_sc_exit_with_saddr c e sc nm w ret flag errsc)"
  unfolding log_sc_exit_with_saddr_def [abs_def]
  by (intro drain_found keeps_prod keeps_if_app keeps_saddr keeps_id)

lemma drain_exits1 [drain_intros]:
  "drain (tid e) only13 (read_exit1 c e sc nm w ret)" "drain (tid e) only13 (write_exit1 c e sc nm w ret)"
  unfolding read_exit1_case [abs_def] write_exit1_case [abs_def] by (intro drain_fetch13 drain_intros keeps_intros)+

lemma drain_sendfile [drain_intros]: "drain (tid e) only1 (sendfile64_exit c e sc nm ret)"
  unfolding sendfile64_exit_def [abs_def] Let_def
  by (intro drain_found keeps_intros keeps_comp [where f = "log_read _ _ _ _ _ _" and g = "log_write _ _ _ _ _ _"])

lemmas comp_intros =
  keeps_comp [where f = "log_read _ _ _ _ _ _" and g = "log_write _ _ _ _ _ _"]

lemma matched0:
  "matched sys_enter_close no_handler"
  "matched no_handler sys_exit_socket"
  "matched sys_enter_ptrace sys_exit_ptrace"
  "matched sys_enter_exit no_handler"
  "matched sys_enter_exit_group no_handler"
  "matched sys_enter_execve sys_exit_execve"
  "matched sys_enter_execveat sys_exit_execveat"
  unfolding entry_fun_defs exit_fun_defs no_handler_def [abs_def]
  by (rule matchedI [where P = only0], rule no_args_only,
      (intro fill_intros fill_keeps keeps_intros no_args_only; fail),
      ((intro drain_if_keeps keeps_intros; fail) | ((simp only: logging_on if_True)?, intro drain_mono drain_intros; fail)))+

lemma matched1:
  "matched sys_enter_read sys_exit_read"
  "matched sys_enter_readv sys_exit_readv"
  "matched sys_enter_recvmsg sys_exit_recvmsg"
  "matched sys_enter_recvmmsg sys_exit_recvmmsg"
  "matched sys_enter_pread64 sys_exit_pread64"
  "matched sys_enter_preadv sys_exit_preadv"
  "matched sys_enter_preadv2 sys_exit_preadv2"
  "matched sys_enter_sendfile64 sys_exit_sendfile64"
  "matched sys_enter_copy_file_range sys_exit_copy_file_range"
  "matched sys_enter_write sys_exit_write"
  "matched sys_enter_writev sys_exit_writev"
  "matched sys_enter_sendmsg sys_exit_sendmsg"
  "matched sys_enter_sendmmsg sys_exit_sendmmsg"
  "matched sys_enter_pwrite64 sys_exit_pwrite64"
  "matched sys_enter_pwritev sys_exit_pwritev"
  "matched sys_enter_pwritev2 sys_exit_pwritev2"
  "matched sys_enter_rmdir sys_exit_rmdir"
  "matched sys_enter_chdir sys_exit_chdir"
  "matched sys_enter_fchdir sys_exit_fchdir"
  "matched sys_enter_kill sys_exit_kill"
  "matched sys_enter_tkill sys_exit_tkill"
  "matched sys_enter_tgkill sys_exit_tgkill"
  "matched sys_enter_fork sys_exit_fork"
  "matched sys_enter_vfork sys_exit_vfork"
  "matched sys_enter_clone sys_exit_clone"
  "matched sys_enter_clone3 sys_exit_clone3"
  "matched sys_enter_init_module sys_exit_init_module"
  unfolding entry_fun_defs exit_fun_defs Let_def
  by (rule matchedI [where P = only1], rule no_args_only, (intro fill_intros fill_after no_args_only; fail),
      ((simp only: logging_on if_True)?, intro drain_found drain_intros keeps_intros; fail))+

lemma matched3:
  "matched sys_enter_open sys_exit_open"
  "matched sys_enter_openat sys_exit_openat"
  "matched sys_enter_creat sys_exit_creat"
  "matched sys_enter_truncate sys_exit_truncate"
  "matched sys_enter_ftruncate sys_exit_ftruncate"
  "matched sys_enter_accept sys_exit_accept"
  "matched sys_enter_accept4 sys_exit_accept4"
  "matched sys_enter_connect sys_exit_connect"
  "matched sys_enter_getpeername sys_exit_getpeername"
  "matched sys_enter_bind sys_exit_bind"
  "matched sys_enter_mprotect sys_exit_mprotect"
  "matched sys_enter_unlink sys_exit_unlink"
  "matched sys_enter_unlinkat sys_exit_unlinkat"
  "matched sys_enter_mkdir sys_exit_mkdir"
  "matched sys_enter_mkdirat sys_exit_mkdirat"
  "matched sys_enter_symlink sys_exit_symlink"
  "matched sys_enter_symlinkat sys_exit_symlinkat"
  "matched sys_enter_mknod sys_exit_mknod"
  "matched sys_enter_mknodat sys_exit_mknodat"
  "matched sys_enter_tee sys_exit_tee"
  "matched sys_enter_umount sys_exit_umount"
  "matched sys_enter_splice sys_exit_splice"
  "matched sys_enter_vmsplice sys_exit_vmsplice"
  "matched sys_enter_chmod sys_exit_chmod"
  "matched sys_enter_fchmodat sys_exit_fchmodat"
  "matched sys_enter_fchmod sys_exit_fchmod"
  "matched sys_enter_chown sys_exit_chown"
  "matched sys_enter_lchown sys_exit_lchown"
  "matched sys_enter_fchown sys_exit_fchown"
  "matched sys_enter_setresuid sys_exit_setresuid"
  "matched sys_enter_setreuid sys_exit_setreuid"
  "matched sys_enter_setuid sys_exit_setuid"
  "matched sys_enter_setresgid sys_exit_setresgid"
  "matched sys_enter_setregid sys_exit_setregid"
  "matched sys_enter_setgid sys_exit_setgid"
  "matched sys_enter_finit_module sys_exit_finit_module"
  unfolding entry_fun_defs exit_fun_defs
  by (rule matchedI [where P = only3], rule no_args_only, (intro fill_intros no_args_only; fail),
      ((simp only: logging_on if_True)?, intro drain_found drain_intros keeps_intros comp_intros; fail))+

lemma matched5:
  "matched sys_enter_mmap sys_exit_mmap"
  "matched sys_enter_link sys_exit_link"
  "matched sys_enter_linkat sys_exit_linkat"
  "matched sys_enter_rename sys_exit_rename"
  "matched sys_enter_renameat sys_exit_renameat"
  "matched sys_enter_renameat2 sys_exit_renameat2"
  "matched sys_enter_mount sys_exit_mount"
  "matched sys_enter_fchownat sys_exit_fchownat"
  unfolding entry_fun_defs exit_fun_defs Let_def
  by (rule matchedI [where P = only5], rule no_args_only, (intro fill_intros no_args_only; fail),
      ((simp only: logging_on if_True)?, intro drain_found drain_intros keeps_intros; fail))+

lemma matched13:
  "matched sys_enter_recvfrom sys_exit_recvfrom"
  "matched sys_enter_sendto sys_exit_sendto"
  unfolding entry_fun_defs exit_fun_defs
  by (rule matchedI [where P = only13], rule no_args_only, (intro fill_intros no_args_only; fail),
      ((simp only: logging_on if_True)?, intro drain_intros; fail))+

section \<open>Every tracepoint\<close>

definition sound :: "handler \<Rightarrow> handler \<Rightarrow> bool" where
  "sound enter exit \<longleftrightarrow> (\<forall>c e. calm e \<longrightarrow> own (tid e) (enter c e)) \<and> (\<forall>c e. own (tid e) (exit c e)) \<and> matched enter exit"

lemma own_no_handler: "own t (no_handler c e)"
  unfolding no_handler_def [abs_def] by (rule own_log)

lemma syscalls_sound: "list_all (\<lambda>(nm, enter, exit). sound enter exit) syscalls"
  by (simp add: syscall_defs sound_def own_entry_handlers own_exit_handlers own_no_handler matched0 matched1 matched3 matched5 matched13)

lemma fire_sound:
  "\<exists>enter exit. (\<forall>e. fire c (Enter, nm, e) = enter c e) \<and> (\<forall>e. fire c (Exit, nm, e) = exit c e) \<and> sound enter exit"
proof (cases "map_of syscalls nm")
  case None
  have "matched no_handler no_handler"
    by (rule matchedI [where P = only0], rule no_args_only)
      (simp_all add: no_handler_def [abs_def] fill_log no_args_only drain_if_keeps keeps_id)
  then have "sound no_handler no_handler" by (simp add: sound_def own_no_handler)
  with None show ?thesis by (intro exI [of _ no_handler]) (simp add: fire.simps fun_eq_iff no_handler_def)
next
  case (Some h)
  obtain enter exit where h: "h = (enter, exit)" by (cases h)
  have "(nm, enter, exit) \<in> set syscalls" using Some unfolding h by (rule map_of_SomeD)
  then have "sound enter exit" using syscalls_sound unfolding list_all_iff by blast
  with Some h show ?thesis by (intro exI [of _ enter] exI [of _ exit]) (simp add: fire.simps fun_eq_iff)
qed

lemma own_fire: "calm e \<Longrightarrow> own (tid e) (fire c (ph, nm, e))"
proof -
  assume "calm e"
  obtain enter exit where "\<forall>e. fire c (Enter, nm, e) = enter c e" "\<forall>e. fire c (Exit, nm, e) = exit c e" "sound enter exit"
    using fire_sound [of c nm] by blast
  with \<open>calm e\<close> show ?thesis by (cases ph) (simp_all add: sound_def)
qed

section \<open>The specification: arguments remembered per thread\<close>

text \<open>
  The machine the probe implements: per thread it remembers the entry of the system call that is
  under way, and runs the exit handler as if the two tracepoints were alone.
\<close>

definition fresh :: "kstate \<Rightarrow> astate" where
  "fresh k = \<lparr>as_k = k, as_arg = Map.empty, as_arg3 = Map.empty, as_arg5 = Map.empty\<rparr>"

definition returns :: "string \<Rightarrow> bool" where
  "returns nm \<longleftrightarrow> nm \<noteq> ''exit'' \<and> nm \<noteq> ''exit_group''"

type_synonym pending = "u32 \<rightharpoonup> string \<times> tracepoint"

definition recall :: "config \<Rightarrow> (string \<times> tracepoint) option \<Rightarrow> kstate \<Rightarrow> astate" where
  "recall c p k = (case p of None \<Rightarrow> fresh k | Some (nm, e) \<Rightarrow> (fire c (Enter, nm, e) (fresh k))\<lparr>as_k := k\<rparr>)"

fun spec_step :: "config \<Rightarrow> event \<Rightarrow> kstate \<times> pending \<Rightarrow> kstate \<times> pending" where
  "spec_step c (Enter, nm, e) (k, P) =
     (as_k (fire c (Enter, nm, e) (fresh k)), if returns nm then P(tid e \<mapsto> (nm, e)) else P)"
| "spec_step c (Exit, nm, e) (k, P) = (as_k (fire c (Exit, nm, e) (recall c (P (tid e)) k)), P(tid e := None))"

text \<open>
  A possible sequence of tracepoints: a thread makes one system call at a time. A child of fork or
  clone starts with an exit.
\<close>

fun possible :: "pending \<Rightarrow> event list \<Rightarrow> bool" where
  "possible P [] \<longleftrightarrow> True"
| "possible P ((Enter, nm, e) # es) \<longleftrightarrow> P (tid e) = None \<and> calm e \<and> logging e \<and>
     possible (if returns nm then P(tid e \<mapsto> (nm, e)) else P) es"
| "possible P ((Exit, nm, e) # es) \<longleftrightarrow> (case P (tid e) of None \<Rightarrow> True | Some (nm', _) \<Rightarrow> nm' = nm) \<and> calm e \<and> logging e \<and>
     possible (P(tid e := None)) es"

definition sim :: "config \<Rightarrow> kstate \<times> pending \<Rightarrow> astate \<Rightarrow> bool" where
  "sim c kp s \<longleftrightarrow> as_k s = fst kp \<and>
     (\<forall>t. case snd kp t of None \<Rightarrow> slots t s = no_args
        | Some (nm, e) \<Rightarrow> tid e = t \<and> (\<forall>k. slots t s = slots t (fire c (Enter, nm, e) (fresh k))))"

lemma slots_fresh [simp]: "slots t (fresh k) = no_args" "as_k (fresh k) = k"
  by (simp_all add: fresh_def slots_def no_args_def)

lemma slots_as_k [simp]: "slots t (s\<lparr>as_k := k\<rparr>) = slots t s"
  by (simp add: slots_def)

lemma matched_fire: "\<exists>P. no_args \<in> P \<and> (\<forall>e. fill (tid e) P (fire c (Enter, nm, e))) \<and>
    (\<forall>e. logging e \<longrightarrow> drain (tid e) P (fire c (Exit, nm, e)))"
proof -
  obtain enter exit where f: "\<forall>e. fire c (Enter, nm, e) = enter c e" "\<forall>e. fire c (Exit, nm, e) = exit c e" and "sound enter exit"
    using fire_sound [of c nm] by blast
  then obtain P where "no_args \<in> P" "\<forall>c e. fill (tid e) P (enter c e)" "\<forall>c e. logging e \<longrightarrow> drain (tid e) P (exit c e)"
    unfolding sound_def matched_def by blast
  with f show ?thesis by (intro exI [of _ P]) simp
qed

lemma fire_leaves_same:
  assumes "slots (tid e) s = no_args" "slots (tid e) s' = no_args"
  shows "slots (tid e) (fire c (Enter, nm, e) s) = slots (tid e) (fire c (Enter, nm, e) s')"
proof -
  obtain P where "\<forall>e. fill (tid e) P (fire c (Enter, nm, e))" using matched_fire [of c nm] by blast
  then have "fill (tid e) P (fire c (Enter, nm, e))" by blast
  then obtain x where "\<forall>s. slots (tid e) s = no_args \<longrightarrow> slots (tid e) (fire c (Enter, nm, e) s) = x" unfolding fill_def by blast
  with assms show ?thesis by simp
qed

lemma fire_drains:
  assumes "slots (tid e0) s0 = no_args" "tid e = tid e0" "logging e" "slots (tid e) s = slots (tid e) (fire c (Enter, nm, e0) s0)"
  shows "slots (tid e) (fire c (Exit, nm, e) s) = no_args"
proof -
  obtain P where "\<forall>e. fill (tid e) P (fire c (Enter, nm, e))" "\<forall>e. logging e \<longrightarrow> drain (tid e) P (fire c (Exit, nm, e))"
    using matched_fire [of c nm] by blast
  then have "fill (tid e0) P (fire c (Enter, nm, e0))" "drain (tid e) P (fire c (Exit, nm, e))" using assms(3) by blast+
  then obtain x where x: "x \<in> P" "\<forall>s. slots (tid e0) s = no_args \<longrightarrow> slots (tid e0) (fire c (Enter, nm, e0) s) = x"
    and d: "\<forall>s. slots (tid e) s \<in> P \<longrightarrow> slots (tid e) (fire c (Exit, nm, e) s) = no_args"
    unfolding fill_def drain_def by blast
  from x(2) assms(1,2,4) have "slots (tid e) s = x" by simp
  with x(1) d show ?thesis by simp
qed

lemma fire_drains_none:
  assumes "logging e" "slots (tid e) s = no_args" shows "slots (tid e) (fire c (Exit, nm, e) s) = no_args"
proof -
  obtain P where "no_args \<in> P" "\<forall>e. logging e \<longrightarrow> drain (tid e) P (fire c (Exit, nm, e))"
    using matched_fire [of c nm] by blast
  then show ?thesis using assms unfolding drain_def by auto
qed

end
