(* ===== verification/Audit_Props.thy ===== *)
theory Audit_Props
  imports Audit_Trace Cache_Props
begin

text \<open>The probe implements the machine that remembers the entry of each thread.\<close>

section \<open>Simulation\<close>

lemma lookups:
  "map_of syscalls ''exit'' = Some (sys_enter_exit, no_handler)"
  "map_of syscalls ''exit_group'' = Some (sys_enter_exit_group, no_handler)"
  "map_of syscalls ''openat'' = Some (sys_enter_openat, sys_exit_openat)"
  "map_of syscalls ''read'' = Some (sys_enter_read, sys_exit_read)"
  "map_of syscalls ''mprotect'' = Some (sys_enter_mprotect, sys_exit_mprotect)"
  by (simp add: syscall_defs)+

lemma fire_no_return:
  assumes "\<not> returns nm" "slots (tid e) s = no_args"
  shows "slots (tid e) (fire c (Enter, nm, e) s) = no_args"
proof -
  from assms(1) have "nm = ''exit'' \<or> nm = ''exit_group''" by (simp add: returns_def)
  with assms(2) show ?thesis
    by (auto simp: fire.simps lookups sys_enter_exit_def sys_enter_exit_group_def)
qed

lemma simD:
  assumes "sim c (k, P) s"
  shows "as_k s = k" "P t = None \<Longrightarrow> slots t s = no_args"
    "P t = Some (nm, e) \<Longrightarrow> tid e = t \<and> slots t s = slots t (fire c (Enter, nm, e) (fresh k'))"
proof -
  from assms have "as_k s = k \<and> (case P t of None \<Rightarrow> slots t s = no_args
      | Some (nm, e) \<Rightarrow> tid e = t \<and> (\<forall>k. slots t s = slots t (fire c (Enter, nm, e) (fresh k))))"
    unfolding sim_def by simp
  then show "as_k s = k" "P t = None \<Longrightarrow> slots t s = no_args"
    "P t = Some (nm, e) \<Longrightarrow> tid e = t \<and> slots t s = slots t (fire c (Enter, nm, e) (fresh k'))"
    by simp_all
qed

text \<open>Other threads are not affected.\<close>

lemma sim_others:
  assumes "sim c (k, P) s" "own t a" "as_k (a s) = k'"
    and "case p of None \<Rightarrow> slots t (a s) = no_args
      | Some (nm, e) \<Rightarrow> tid e = t \<and> (\<forall>k. slots t (a s) = slots t (fire c (Enter, nm, e) (fresh k)))"
  shows "sim c (k', P(t := p)) (a s)"
proof -
  have "case (P(t := p)) u of None \<Rightarrow> slots u (a s) = no_args
      | Some (nm, e) \<Rightarrow> tid e = u \<and> (\<forall>k. slots u (a s) = slots u (fire c (Enter, nm, e) (fresh k)))" for u
  proof (cases "u = t")
    case False
    have "case P u of None \<Rightarrow> slots u s = no_args
      | Some (nm, e) \<Rightarrow> tid e = u \<and> (\<forall>k. slots u s = slots u (fire c (Enter, nm, e) (fresh k)))"
      using assms(1) by (simp add: sim_def)
    with ownD(1) [OF assms(2) False, of s] False show ?thesis by (cases "P u") auto
  next
    case True
    then show ?thesis using assms(4) by (cases p) auto
  qed
  then show ?thesis by (simp add: sim_def assms(3))
qed

lemma sim_enter:
  assumes "sim c (k, P) s" "P (tid e) = None" "calm e"
  shows "sim c (spec_step c (Enter, nm, e) (k, P)) (fire c (Enter, nm, e) s)"
proof -
  note s = simD(1) [OF assms(1)] simD(2) [OF assms(1,2)]
  note o = own_fire [OF assms(3), of c Enter nm]
  have k: "as_k (fire c (Enter, nm, e) s) = as_k (fire c (Enter, nm, e) (fresh k))"
    by (rule ownD(2) [OF o]) (simp_all add: s)
  have st: "slots (tid e) (fire c (Enter, nm, e) s) = slots (tid e) (fire c (Enter, nm, e) (fresh k'))" for k'
    by (rule fire_leaves_same) (simp_all add: s)
  show ?thesis
  proof (cases "returns nm")
    case True
    with sim_others [OF assms(1) o k, of "Some (nm, e)"] st show ?thesis by simp
  next
    case False
    with sim_others [OF assms(1) o k, of None] fire_no_return [OF False s(2)] assms(2) show ?thesis
      by (simp add: fun_upd_idem)
  qed
qed

lemma sim_exit:
  assumes "sim c (k, P) s" "case P (tid e) of None \<Rightarrow> True | Some (nm', _) \<Rightarrow> nm' = nm" "calm e" "logging e"
  shows "sim c (spec_step c (Exit, nm, e) (k, P)) (fire c (Exit, nm, e) s)"
proof -
  note s = simD(1) [OF assms(1)]
  note o = own_fire [OF assms(3), of c Exit nm]
  have r: "as_k (recall c (P (tid e)) k) = k" "slots (tid e) s = slots (tid e) (recall c (P (tid e)) k)"
    using simD(2) [OF assms(1), of "tid e"] simD(3) [OF assms(1), of "tid e" _ _ k]
    by (auto simp: recall_def split: option.splits)
  have k: "as_k (fire c (Exit, nm, e) s) = as_k (fire c (Exit, nm, e) (recall c (P (tid e)) k))"
    by (rule ownD(2) [OF o]) (simp_all add: s r)
  have "slots (tid e) (fire c (Exit, nm, e) s) = no_args"
  proof (cases "P (tid e)")
    case None
    show ?thesis by (rule fire_drains_none [OF assms(4) simD(2) [OF assms(1) None]])
  next
    case (Some p)
    obtain nm' e0 where p: "p = (nm', e0)" by (cases p)
    note e0 = simD(3) [OF assms(1) Some [unfolded p], of k]
    show ?thesis
      by (rule fire_drains [of e0 "fresh k"]) (use e0 assms(2,4) Some p in auto)
  qed
  then show ?thesis using sim_others [OF assms(1) o k, of None] by simp
qed

lemma sim_run:
  "sim c (k, P) s \<Longrightarrow> possible P es \<Longrightarrow> sim c (fold (spec_step c) es (k, P)) (fold (fire c) es s)"
proof (induction es arbitrary: k P s)
  case (Cons x es)
  obtain ph nm e where x: "x = (ph, nm, e)" by (cases x)
  show ?case
  proof (cases ph)
    case Enter
    with Cons.prems(2) have w: "P (tid e) = None" "calm e"
      "possible (if returns nm then P(tid e \<mapsto> (nm, e)) else P) es" by (simp_all add: x)
    from Cons.IH [OF sim_enter [OF Cons.prems(1) w(1,2), of nm, unfolded spec_step.simps] w(3)]
    show ?thesis by (simp only: x Enter fold_simps spec_step.simps)
  next
    case Exit
    with Cons.prems(2) have w: "case P (tid e) of None \<Rightarrow> True | Some (nm', _) \<Rightarrow> nm' = nm" "calm e" "logging e"
      "possible (P(tid e := None)) es" by (simp_all add: x)
    from Cons.IH [OF sim_exit [OF Cons.prems(1) w(1-3), unfolded spec_step.simps] w(4)]
    show ?thesis by (simp only: x Exit fold_simps spec_step.simps)
  qed
qed simp

lemma sim_init: "sim c (k, Map.empty) (fresh k)"
  by (simp add: sim_def)

section \<open>Sample tracepoints\<close>

definition thread_env :: "u32 \<Rightarrow> audit_env" where
  "thread_env t = (sample_env 10)\<lparr>ae_pid_tgid := 0x700000000 OR ucast t\<rparr>"

definition sample_tp :: "u32 \<Rightarrow> (string \<Rightarrow> u64) \<Rightarrow> s64 \<Rightarrow> tracepoint" where
  "sample_tp t args ret = \<lparr>tp_env = thread_env t, tp_ids = sample_fdt 0x81B4, tp_args = args, tp_nr = 257, tp_ret = ret,
     tp_real_parent_pid = 1, tp_euid = 0, tp_egid = 0, tp_ncpu = 1, tp_evict = (\<lambda>_. False)\<rparr>"

lemma sample_tp_simps [simp]:
  "calm (sample_tp t a r)" "logging (sample_tp t a r)" "tp_args (sample_tp t a r) = a" "tp_ret (sample_tp t a r) = r"
  "tp_nr (sample_tp t a r) = 257" "tp_env (sample_tp t a r) = thread_env t"
  by (simp_all add: calm_def logging_def sample_tp_def thread_env_def sample_env_def)

lemma sample_tids: "gettid (thread_env 7) = 7" "gettid (thread_env 8) = 8"
  by (simp_all add: gettid_def thread_env_def sample_env_def)

section \<open>Properties\<close>

text \<open>
  (C12) Threads do not disturb each other: for any interleaving of the tracepoints of any threads, the
  log is the one of a machine that remembers the entry of each thread and runs the exit handler on
  the arguments of its own entry; and no arguments are left behind by a thread that is not in a system
  call. Each thread makes one system call at a time and an exit matches the entry before it, so no
  thread is killed inside a call and its number reused; no argument map evicts an entry; and the log
  level lets exits pass (\<open>possible\<close>).
\<close>

theorem entries_remembered:
  assumes "possible Map.empty es"
  shows "as_k (fold (fire c) es (fresh k)) = fst (fold (spec_step c) es (k, Map.empty))
    \<and> (snd (fold (spec_step c) es (k, Map.empty)) t = None \<longrightarrow> slots t (fold (fire c) es (fresh k)) = no_args)"
  using sim_run [OF sim_init [of c k] assms]
  by (cases "fold (spec_step c) es (k, Map.empty)") (auto dest: simD)

theorem entries_remembered_witness:
  "\<exists>es. es = [(Enter, ''openat'', sample_tp 7 (\<lambda>_. 1) 0), (Enter, ''read'', sample_tp 8 (\<lambda>_. 3) 0),
       (Exit, ''openat'', sample_tp 7 (\<lambda>_. 1) 5), (Exit, ''read'', sample_tp 8 (\<lambda>_. 3) 64)] \<and>
     as_k (fold (fire (dlogger_config 1 True)) es (fresh (kstate_init 3))) =
       fst (fold (spec_step (dlogger_config 1 True)) es (kstate_init 3, Map.empty)) \<and>
     slots 7 (fold (fire (dlogger_config 1 True)) es (fresh (kstate_init 3))) = no_args"
proof -
  let ?es = "[(Enter, ''openat'', sample_tp 7 (\<lambda>_. 1) 0), (Enter, ''read'', sample_tp 8 (\<lambda>_. 3) 0),
       (Exit, ''openat'', sample_tp 7 (\<lambda>_. 1) 5), (Exit, ''read'', sample_tp 8 (\<lambda>_. 3) 64)]"
  have p: "possible Map.empty ?es" by (simp add: sample_tids returns_def)
  have "snd (fold (spec_step (dlogger_config 1 True)) ?es (kstate_init 3, Map.empty)) 7 = None"
    by (simp add: sample_tids returns_def)
  with entries_remembered [OF p, of "dlogger_config 1 True" "kstate_init 3" 7] show ?thesis by simp
qed

text \<open>
  (C36) Arguments outlive a thread that is killed in a system call: when its number is given to a new
  thread, an \<open>mprotect\<close> that asks for no execute permission, and should not be logged, is logged with the
  arguments of the dead thread's \<open>openat\<close>.
\<close>

theorem stale_arguments_logged:
  assumes "logging e0" "logging e1" "logging e2" "tid e1 = tid e0" "tid e2 = tid e0"
    and "tp_args e1 ''prot'' AND PROT_EXEC = 0" "\<not> is_err (tp_ret e2)"
  shows "as_k (fold (fire c) [(Enter, ''openat'', e0), (Enter, ''mprotect'', e1), (Exit, ''mprotect'', e2)] s) =
    log_sc_long3 c (tp_env e2) (tp_nr e2) MPROTECT_EX WT_MMAP (tp_args e0 ''filename'') (to_long (to_int (tp_args e0 ''dfd'')))
      (push_bit 32 (tp_ret e2) OR (push_bit 32 (to_long (to_int (tp_args e0 ''mode''))) OR to_long (to_int (tp_args e0 ''flags'')))) (as_k s)"
  using assms
  by (simp add: fire.simps lookups sys_enter_openat_def sys_enter_mprotect_def sys_exit_mprotect_def logging_on
      store_open_args_def arg3_record_def arg3_retrieve_and_delete_def lru_update_def if_found_def)

theorem stale_arguments_logged_witness:
  "as_k (fold (fire (dlogger_config 1 True)) [(Enter, ''openat'', sample_tp 7 (\<lambda>_. 3) 0), (Enter, ''mprotect'', sample_tp 7 (\<lambda>_. 3) 0),
      (Exit, ''mprotect'', sample_tp 7 (\<lambda>_. 3) 0)] (fresh (kstate_init 3))) =
   log_sc_long3 (dlogger_config 1 True) (thread_env 7) 257 MPROTECT_EX WT_MMAP 3 3 0x300000003 (kstate_init 3)"
  using stale_arguments_logged [of "sample_tp 7 (\<lambda>_. 3) 0" "sample_tp 7 (\<lambda>_. 3) 0" "sample_tp 7 (\<lambda>_. 3) 0"
      "dlogger_config 1 True" "fresh (kstate_init 3)"]
  by (simp add: PROT_EXEC_def is_err_def)

end
