(* ===== verification/Wire_Parser.thy ===== *)
theory Wire_Parser
  imports Wire_Format
begin

text \<open>
  The field readers of the user-space parser \<^verbatim>\<open>src/eParser.C\<close>. The input is a byte memory read
  between a cursor \<open>p\<close> and an end \<open>q\<close>; the parser's global variables are a record. A reader
  fails (\<open>return false\<close>, with the cursor and the variables as they are then), yields a value, or
  does not return: \<open>Abort\<close> is a failed assertion on the string buffer or an access outside it.
\<close>

section \<open>State\<close>

datatype sctype = SC_DEFAULT | SC_IMPORTANT | SC_CRITICAL

record pstate =
  ps_kernel_ts :: u64
  ps_clk_ts :: u64
  ps_clk_kernel_diff :: u64
  ps_tamperwin_start :: u64
  ps_cur_sctype :: sctype
  ps_tamper_count :: nat
  ps_tamper_ccount :: nat
  ps_tamper_icount :: nat
  ps_tamper_thislag :: u64
  ps_tamper_thisclag :: u64
  ps_tamper_thisilag :: u64
  ps_tamper_maxlag :: u64
  ps_tamper_maxclag :: u64
  ps_tamper_maxilag :: u64
  ps_n_out_of_order :: nat
  ps_t_out_of_order :: u64
  ps_pid_width :: nat
  ps_a1width :: nat
  ps_a2width :: nat
  ps_a3width :: nat
  ps_cgroup_id :: u64
  ps_start_time :: u64
  ps_pid :: s32
  ps_tid :: s32
  ps_last_pid :: s32
  ps_last_tid :: s32
  ps_trunc_fn :: nat
  ps_trunc_data :: nat
  ps_strbuf :: mem
  ps_strbuf_next :: nat

datatype 'a res = Abort | Fail nat pstate | Got 'a nat pstate

type_synonym 'a reader = "mem \<Rightarrow> nat \<Rightarrow> nat \<Rightarrow> pstate \<Rightarrow> 'a res"

definition pbind :: "'a reader \<Rightarrow> ('a \<Rightarrow> 'b reader) \<Rightarrow> 'b reader" where
  "pbind r f = (\<lambda>m q p st. case r m q p st of
     Abort \<Rightarrow> Abort | Fail p st \<Rightarrow> Fail p st | Got v p st \<Rightarrow> f v m q p st)"

definition preturn :: "'a \<Rightarrow> 'a reader" where
  "preturn v = (\<lambda>m q p st. Got v p st)"

section \<open>Integers\<close>

definition get_long :: "nat \<Rightarrow> s64 reader" where
  "get_long width m q p st =
     (if p + width \<ge> q then Fail p st
      else if width = 1 then Got (scast (m p)) (p + 1) st
      else if width = 2 then Got (scast (ucast (of_le (slice m p 2)) :: u16)) (p + 2) st
      else if width = 4 then Got (scast (ucast (of_le (slice m p 4)) :: u32)) (p + 4) st
      else if width = 8 then Got (of_le (slice m p 8)) (p + 8) st
      else Fail p st)"

text \<open>Bookkeeping on the time stamp: records older than the last tamper window, and records out of order.\<close>

definition note_tamper :: "pstate \<Rightarrow> pstate" where
  "note_tamper st =
     (if ps_kernel_ts st + 1000 < ps_tamperwin_start st
      then let lag = ps_tamperwin_start st - ps_kernel_ts st;
               st = (if ps_cur_sctype st = SC_CRITICAL
                     then st\<lparr>ps_tamper_ccount := ps_tamper_ccount st + 1,
                             ps_tamper_thisclag := max (ps_tamper_thisclag st) lag,
                             ps_tamper_maxclag := max (ps_tamper_maxclag st) lag\<rparr>
                     else if ps_cur_sctype st = SC_IMPORTANT
                     then st\<lparr>ps_tamper_icount := ps_tamper_icount st + 1,
                             ps_tamper_thisilag := max (ps_tamper_thisilag st) lag,
                             ps_tamper_maxilag := max (ps_tamper_maxilag st) lag\<rparr>
                     else st)
           in st\<lparr>ps_tamper_count := ps_tamper_count st + 1,
                 ps_tamper_thislag := max (ps_tamper_thislag st) lag,
                 ps_tamper_maxlag := max (ps_tamper_maxlag st) lag\<rparr>
      else st)"

definition note_order :: "u64 \<Rightarrow> pstate \<Rightarrow> pstate" where
  "note_order last_ts st =
     (if ps_kernel_ts st < last_ts
      then let backdrift = last_ts - ps_kernel_ts st
           in if backdrift < 100000000000
              then st\<lparr>ps_n_out_of_order := ps_n_out_of_order st + 1,
                      ps_t_out_of_order := ps_t_out_of_order st + backdrift\<rparr>
              else st
      else st)"

definition set_widths :: "u8 \<Rightarrow> pstate \<Rightarrow> pstate" where
  "set_widths b st =
     st\<lparr>ps_pid_width := 2 ^ unat (drop_bit 6 b),
        ps_a1width := 2 ^ unat (drop_bit 4 b AND 3),
        ps_a2width := 2 ^ unat (drop_bit 2 b AND 3),
        ps_a3width := 2 ^ unat (b AND 3)\<rparr>"

definition set_pid_tid :: "s64 \<Rightarrow> pstate \<Rightarrow> pstate" where
  "set_pid_tid pid_tgid st =
     (let st = st\<lparr>ps_last_pid := ps_pid st, ps_last_tid := ps_tid st\<rparr>
      in if ps_pid_width st \<le> 4 then st\<lparr>ps_pid := ucast pid_tgid, ps_tid := ucast pid_tgid\<rparr>
         else st\<lparr>ps_pid := ucast (drop_bit 32 pid_tgid), ps_tid := ucast pid_tgid\<rparr>)"

definition get_ts_and_widths :: "unit reader" where
  "get_ts_and_widths m q p st =
     (if p + 5 \<ge> q then Fail p st
      else let last_kernel_ts = ps_kernel_ts st;
               st = st\<lparr>ps_kernel_ts := of_le (slice m p 8)\<rparr>; p = p + 8;
               st = note_tamper st;
               st = st\<lparr>ps_clk_ts := ps_kernel_ts st + ps_clk_kernel_diff st\<rparr>;
               st = note_order last_kernel_ts st;
               st = set_widths (m p) st; p = p + 1
           in case get_long (ps_pid_width st) m q p st of
                Got pid_tgid p st \<Rightarrow>
                  (if p + 16 > q then Fail p st
                   else let st = st\<lparr>ps_cgroup_id := of_le (slice m p 8)\<rparr>; p = p + 8;
                            st = st\<lparr>ps_start_time := of_le (slice m p 8)\<rparr>; p = p + 8
                        in Got () p (set_pid_tid pid_tgid st))
              | Fail p st \<Rightarrow> Fail p st
              | Abort \<Rightarrow> Abort)"

definition get_long_ex :: "s64 reader" where
  "get_long_ex m q p st = (if p + 8 \<ge> q then Fail p st else Got (of_le (slice m p 8)) (p + 8) st)"

text \<open>The three fields whose widths the header byte announces.\<close>

definition get_a1 :: "s64 reader" where "get_a1 m q p st = get_long (ps_a1width st) m q p st"
definition get_a2 :: "s64 reader" where "get_a2 m q p st = get_long (ps_a2width st) m q p st"
definition get_a3 :: "s64 reader" where "get_a3 m q p st = get_long (ps_a3width st) m q p st"

definition get_long1 :: "s64 reader" where
  "get_long1 = pbind get_ts_and_widths (\<lambda>_. get_a1)"

definition get_long2 :: "(s64 \<times> s64) reader" where
  "get_long2 = pbind get_long1 (\<lambda>a1. pbind get_a2 (\<lambda>a2. preturn (a1, a2)))"

definition get_long3 :: "(s64 \<times> s64 \<times> s64) reader" where
  "get_long3 = pbind get_long2 (\<lambda>(a1, a2). pbind get_a3 (\<lambda>a3. preturn (a1, a2, a3)))"

definition get_long4 :: "(s64 \<times> s64 \<times> s64 \<times> s64) reader" where
  "get_long4 = pbind get_long2 (\<lambda>(a1, a2). pbind get_a3 (\<lambda>a3. pbind get_long_ex (\<lambda>a4.
     preturn (a1, a2, a3, a4))))"

definition get_long5 :: "(s64 \<times> s64 \<times> s64 \<times> s64 \<times> s64) reader" where
  "get_long5 = pbind get_long2 (\<lambda>(a1, a2). pbind get_a3 (\<lambda>a3. pbind get_long_ex (\<lambda>a4.
     pbind get_long_ex (\<lambda>a5. preturn (a1, a2, a3, a4, a5)))))"

section \<open>Strings and data\<close>

definition PBUFSIZE :: nat where "PBUFSIZE = 8 * BUFSIZE"

definition reset_strbuf :: "pstate \<Rightarrow> pstate" where
  "reset_strbuf st = st\<lparr>ps_strbuf_next := 0\<rparr>"

definition rem_spc_strbuf :: "pstate \<Rightarrow> int" where
  "rem_spc_strbuf st = int PBUFSIZE - int (ps_strbuf_next st) - 8"

text \<open>
  \<open>copy2strbuf(src, len, term)\<close>: the copy, then the last byte copied is compared with the
  terminator. With \<open>len = 0\<close> that byte is the one before the cursor, outside the buffer when the
  cursor is at its start; the result is then \<open>None\<close>.
\<close>

definition copy2strbuf_term :: "u8 list \<Rightarrow> u8 \<Rightarrow> pstate \<Rightarrow> (nat \<times> pstate) option" where
  "copy2strbuf_term bs term st =
     (let rv = ps_strbuf_next st; len = length bs
      in if \<not> rem_spc_strbuf st > int len then None
         else if rv + len = 0 then None
         else let sb = store (ps_strbuf st) rv bs;
                  nx = rv + len - 1;
                  (sb, nx) = (if sb nx \<noteq> term
                              then if sb nx = 0 then (sb(nx := term), nx) else (sb(nx + 1 := term), nx + 1)
                              else (sb, nx))
              in Some (rv, st\<lparr>ps_strbuf := sb, ps_strbuf_next := nx + 1\<rparr>))"

definition copy2strbuf :: "u8 list \<Rightarrow> pstate \<Rightarrow> (nat \<times> pstate) option" where
  "copy2strbuf bs st =
     (if \<not> rem_spc_strbuf st > int (length bs) then None
      else Some (ps_strbuf_next st,
                 st\<lparr>ps_strbuf := store (ps_strbuf st) (ps_strbuf_next st) bs,
                    ps_strbuf_next := ps_strbuf_next st + length bs\<rparr>))"

definition get_string_term :: "u8 \<Rightarrow> nat reader" where
  "get_string_term term m q p st =
     (let len = unat (m p); p = p + 1;
          st = (if len \<ge> MAX_DLEN then st\<lparr>ps_trunc_fn := ps_trunc_fn st + 1\<rparr> else st)
      in if p + len > q then Fail p st
         else case copy2strbuf_term (slice m p len) term st of
                None \<Rightarrow> Abort
              | Some (s, st) \<Rightarrow> Got s (p + len) st)"

abbreviation get_string :: "nat reader" where
  "get_string \<equiv> get_string_term 0"

text \<open>The string at an offset of the string buffer, up to the NUL (of at most \<open>n\<close> bytes).\<close>

fun c_string :: "nat \<Rightarrow> mem \<Rightarrow> nat \<Rightarrow> u8 list" where
  "c_string 0 sb i = []"
| "c_string (Suc n) sb i = (if sb i = 0 then [] else sb i # c_string n sb (i + 1))"

definition get_str_long1 :: "(nat \<times> s64) reader" where
  "get_str_long1 = pbind get_long1 (\<lambda>a1. pbind get_string (\<lambda>s. preturn (s, a1)))"

definition get_str_long2 :: "(nat \<times> s64 \<times> s64) reader" where
  "get_str_long2 = pbind get_long2 (\<lambda>(a1, a2). pbind get_string (\<lambda>s. preturn (s, a1, a2)))"

definition get_str_long3 :: "(nat \<times> s64 \<times> s64 \<times> s64) reader" where
  "get_str_long3 = pbind get_long3 (\<lambda>(a1, a2, a3). pbind get_string (\<lambda>s. preturn (s, a1, a2, a3)))"

definition get_str_long4 :: "(nat \<times> s64 \<times> s64 \<times> s64 \<times> s64) reader" where
  "get_str_long4 = pbind get_long3 (\<lambda>(a1, a2, a3). pbind get_long_ex (\<lambda>a4. pbind get_string (\<lambda>s.
     preturn (s, a1, a2, a3, a4))))"

definition get_str_long5 :: "(nat \<times> s64 \<times> s64 \<times> s64 \<times> s64 \<times> s64) reader" where
  "get_str_long5 = pbind get_long3 (\<lambda>(a1, a2, a3). pbind get_long_ex (\<lambda>a4. pbind get_long_ex (\<lambda>a5.
     pbind get_string (\<lambda>s. preturn (s, a1, a2, a3, a4, a5)))))"

definition get_str2_long3 :: "(nat \<times> nat \<times> s64 \<times> s64 \<times> s64) reader" where
  "get_str2_long3 = pbind get_long3 (\<lambda>(a1, a2, a3). pbind get_string (\<lambda>s1. pbind get_string (\<lambda>s2.
     preturn (s1, s2, a1, a2, a3))))"

definition get_str2_long5 :: "(nat \<times> nat \<times> s64 \<times> s64 \<times> s64 \<times> s64 \<times> s64) reader" where
  "get_str2_long5 = pbind get_long3 (\<lambda>(a1, a2, a3). pbind get_long_ex (\<lambda>a4. pbind get_long_ex (\<lambda>a5.
     pbind get_string (\<lambda>s1. pbind get_string (\<lambda>s2. preturn (s1, s2, a1, a2, a3, a4, a5))))))"

definition get_str3_long2 :: "(nat \<times> nat \<times> nat \<times> s64 \<times> s64) reader" where
  "get_str3_long2 = pbind get_long2 (\<lambda>(a1, a2). pbind get_string (\<lambda>s1. pbind get_string (\<lambda>s2.
     pbind get_string (\<lambda>s3. preturn (s1, s2, s3, a1, a2)))))"

definition get_data :: "(nat \<times> nat) reader" where
  "get_data m q p st =
     (let dlen = unat (m p); p = p + 1;
          st = (if dlen > MAX_DLEN then st\<lparr>ps_trunc_data := ps_trunc_data st + 1\<rparr> else st)
      in if p + dlen \<ge> q then Fail p st
         else case copy2strbuf (slice m p dlen) st of
                None \<Rightarrow> Abort
              | Some (d, st) \<Rightarrow> Got (d, dlen) (p + dlen) st)"

definition get_data_long2 :: "(nat \<times> nat \<times> s64 \<times> s64) reader" where
  "get_data_long2 = pbind get_long2 (\<lambda>(a1, a2). pbind get_data (\<lambda>(d, n). preturn (d, n, a1, a2)))"

definition get_data_long3 :: "(nat \<times> nat \<times> s64 \<times> s64 \<times> s64) reader" where
  "get_data_long3 = pbind get_long3 (\<lambda>(a1, a2, a3). pbind get_data (\<lambda>(d, n). preturn (d, n, a1, a2, a3)))"

text \<open>Binary fields are not copied: the result is a position of the input.\<close>

definition get_binary :: "(nat \<times> nat) reader" where
  "get_binary m q p st =
     (if p \<ge> q then Fail p st
      else let dlen = unat (m p); p = p + 1
           in if dlen > MAX_DLEN then Fail p (st\<lparr>ps_trunc_data := ps_trunc_data st + 1\<rparr>)
              else if p + dlen > q then Fail p st
              else Got (p, dlen) (p + dlen) st)"

end
