(* ===== verification/Wire_Roundtrip.thy ===== *)
theory Wire_Roundtrip
  imports Cache_Props Wire_Parser
begin

text \<open>
  The parser of \<^verbatim>\<open>src/eParser.C\<close> reads back what the probe of \<^verbatim>\<open>src/eauditk.c\<close> wrote: field by
  field, the header, and complete records, wherever the record lies in the input.
\<close>

section \<open>Reading a list of bytes\<close>

definition holds :: "mem \<Rightarrow> nat \<Rightarrow> u8 list \<Rightarrow> bool" where
  "holds m p bs \<longleftrightarrow> slice m p (length bs) = bs"

lemma holds_append [simp]: "holds m p (xs @ ys) \<longleftrightarrow> holds m p xs \<and> holds m (p + length xs) ys"
  by (auto simp: holds_def slice_add)

lemma holds_Cons [simp]: "holds m p (x # ys) \<longleftrightarrow> m p = x \<and> holds m (p + 1) ys"
  using slice_add [of m p 1 "length ys"] by (auto simp: holds_def slice_1)

lemma holds_Nil [simp]: "holds m p []"
  by (simp add: holds_def)

lemma holds_last: "holds m p bs \<Longrightarrow> bs \<noteq> [] \<Longrightarrow> m (p + length bs - 1) = last bs"
  by (cases bs rule: rev_cases) simp_all

section \<open>Integers\<close>

lemma long_code_cases: "long_code v = 0 \<or> long_code v = 1 \<or> long_code v = 2 \<or> long_code v = 3"
  by (simp add: long_code_def)

lemma get_long_bytes:
  assumes "holds m p (long_bytes v)" "p + length (long_bytes v) < q"
  shows "get_long (2 ^ long_code v) m q p st = Got v (p + length (long_bytes v)) st"
proof -
  have s: "slice m p (2 ^ long_code v) = le_bytes (2 ^ long_code v) v"
    using assms(1) by (simp add: holds_def long_bytes_def)
  consider "long_code v = 0" | "long_code v = 1" | "long_code v = 2" | "long_code v = 3"
    using long_code_cases [of v] by (elim disjE)
  then show ?thesis
  proof cases
    case 1
    then have "scast (ucast v :: u8) = v" by (simp add: long_code_def split: if_splits)
    with s 1 assms(2) show ?thesis by (simp add: get_long_def slice_1 le_bytes_Suc)
  next
    case 2
    then have "scast (ucast v :: u16) = v" by (simp add: long_code_def split: if_splits)
    with s 2 assms(2) show ?thesis by (simp add: get_long_def of_le_narrow)
  next
    case 3
    then have "scast (ucast v :: u32) = v" by (simp add: long_code_def split: if_splits)
    with s 3 assms(2) show ?thesis by (simp add: get_long_def of_le_narrow)
  next
    case 4
    with s assms(2) show ?thesis by (simp add: get_long_def of_le_full)
  qed
qed

lemma get_long_ex_bytes:
  "holds m p (le_bytes 8 v) \<Longrightarrow> p + 8 < q \<Longrightarrow> get_long_ex m q p st = Got v (p + 8) st"
  by (simp add: get_long_ex_def holds_def of_le_full)

definition hdr_byte :: "nat \<Rightarrow> nat \<Rightarrow> nat \<Rightarrow> nat \<Rightarrow> u8" where
  "hdr_byte z a b c = push_bit 6 (of_nat z) OR push_bit 4 (of_nat a) OR push_bit 2 (of_nat b) OR of_nat c"

lemma hdr_byte_widths:
  assumes "z \<le> 3" "a \<le> 3" "b \<le> 3" "c \<le> 3"
  shows "unat (drop_bit 6 (hdr_byte z a b c)) = z" "unat (drop_bit 4 (hdr_byte z a b c) AND 3) = a"
    "unat (drop_bit 2 (hdr_byte z a b c) AND 3) = b" "unat (hdr_byte z a b c AND 3) = c"
proof -
  have four: "k = 0 \<or> k = 1 \<or> k = 2 \<or> k = 3" if "k \<le> 3" for k :: nat using that by linarith
  show "unat (drop_bit 6 (hdr_byte z a b c)) = z" "unat (drop_bit 4 (hdr_byte z a b c) AND 3) = a"
    "unat (drop_bit 2 (hdr_byte z a b c) AND 3) = b" "unat (hdr_byte z a b c AND 3) = c"
    using four [OF assms(1)] four [OF assms(2)] four [OF assms(3)] four [OF assms(4)]
    by (elim disjE; simp add: hdr_byte_def)+
qed

definition code_at :: "s64 list \<Rightarrow> nat \<Rightarrow> nat" where
  "code_at ls k = (if k < length ls then long_code (ls ! k) else 0)"

lemma code_at_le: "code_at ls k \<le> 3"
  by (simp add: code_at_def long_code_le)

lemma width_codes_hdr_byte:
  "length ls \<le> 3 \<Longrightarrow> push_bit 6 (of_nat z) OR width_codes ls = hdr_byte z (code_at ls 0) (code_at ls 1) (code_at ls 2)"
  by (auto simp: width_codes_def hdr_byte_def code_at_def or.assoc split: list.splits)

section \<open>The header\<close>

text \<open>The part of the header that follows the event code and the sequence number.\<close>

definition header_rest :: "audit_env \<Rightarrow> s64 list \<Rightarrow> u8 list" where
  "header_rest e ls =
     le_bytes 8 (ae_ktime e) @
     (push_bit 6 (of_nat (long_code (pid_field e))) OR width_codes ls) #
     long_bytes (pid_field e) @ le_bytes 8 (ae_cgroup_id e) @ le_bytes 8 (t_start_time (ae_tasks e (ae_task e)))"

text \<open>What the parser knows after a header.\<close>

definition knows_header :: "audit_env \<Rightarrow> s64 list \<Rightarrow> pstate \<Rightarrow> bool" where
  "knows_header e ls st \<longleftrightarrow>
     ps_kernel_ts st = ae_ktime e \<and> ps_clk_ts st = ae_ktime e + ps_clk_kernel_diff st \<and>
     ps_cgroup_id st = ae_cgroup_id e \<and> ps_start_time st = t_start_time (ae_tasks e (ae_task e)) \<and>
     ps_pid st = getpid e \<and> ps_tid st = gettid e \<and>
     ps_a1width st = 2 ^ code_at ls 0 \<and> ps_a2width st = 2 ^ code_at ls 1 \<and> ps_a3width st = 2 ^ code_at ls 2"

text \<open>What reading integers keeps.\<close>

definition same_strings :: "pstate \<Rightarrow> pstate \<Rightarrow> bool" where
  "same_strings st st' \<longleftrightarrow> ps_strbuf st' = ps_strbuf st \<and> ps_strbuf_next st' = ps_strbuf_next st \<and>
     ps_clk_kernel_diff st' = ps_clk_kernel_diff st"

lemma note_frame:
  "same_strings st (note_tamper st)" "same_strings st (note_order t st)"
  "ps_kernel_ts (note_tamper st) = ps_kernel_ts st" "ps_kernel_ts (note_order t st) = ps_kernel_ts st"
  "ps_clk_kernel_diff (note_tamper st) = ps_clk_kernel_diff st" "ps_clk_kernel_diff (note_order t st) = ps_clk_kernel_diff st"
  "ps_clk_ts (note_order t st) = ps_clk_ts st"
  by (simp_all add: same_strings_def note_tamper_def note_order_def Let_def)

lemma mask32: "(ucast (x AND 0xffffffff :: u64) :: s32) = ucast x"
proof -
  have "(0xffffffff :: u64) = mask 32" by (simp add: mask_eq_exp_minus_1)
  then have "x AND 0xffffffff = take_bit 32 x" by (simp add: take_bit_eq_mask)
  then show ?thesis by (simp add: ucast_take_bit_word)
qed

lemma wide_pid_code:
  fixes x :: u64
  assumes "(ucast (drop_bit 32 x) :: s32) \<noteq> 0" "(ucast (drop_bit 32 x) :: s32) \<noteq> - 1"
  shows "long_code x = 3"
proof -
  have "(ucast (drop_bit 32 (scast w :: u64)) :: s32) = (if bit w 31 then - 1 else 0)" for w :: u32
    by (rule bit_word_eqI) (auto simp: bit_unsigned_iff bit_drop_bit_eq bit_signed_iff min_def)
  moreover have "(ucast (drop_bit 32 (scast w :: u64)) :: s32) = (if bit w 15 then - 1 else 0)" for w :: u16
    by (rule bit_word_eqI) (auto simp: bit_unsigned_iff bit_drop_bit_eq bit_signed_iff min_def)
  moreover have "(ucast (drop_bit 32 (scast w :: u64)) :: s32) = (if bit w 7 then - 1 else 0)" for w :: u8
    by (rule bit_word_eqI) (auto simp: bit_unsigned_iff bit_drop_bit_eq bit_signed_iff min_def)
  ultimately have "scast (ucast x :: u8) \<noteq> x" "scast (ucast x :: u16) \<noteq> x" "scast (ucast x :: u32) \<noteq> x"
    using assms by metis+
  then show ?thesis by (simp add: long_code_def)
qed

lemma narrow_pid_code: "long_code (scast (w :: s32)) \<le> 2"
  by (simp add: long_code_def ucast_scast_eq)

lemma pid_roundtrip:
  assumes "0 <s getpid e" "ps_pid_width st = 2 ^ long_code (pid_field e)"
  shows "ps_pid (set_pid_tid (pid_field e) st) = getpid e" "ps_tid (set_pid_tid (pid_field e) st) = gettid e"
proof -
  have g: "gettidpid e = (ae_pid_tgid e, gettid e, getpid e)"
    by (simp add: gettidpid_def gettid_def getpid_def)
  have nz: "getpid e \<noteq> 0" "getpid e \<noteq> - 1"
    using assms(1) by (auto simp: word_sless_alt)
  have hi: "ucast (drop_bit 32 (ae_pid_tgid e)) = getpid e" and lo: "ucast (ae_pid_tgid e) = gettid e"
    by (simp_all add: getpid_def gettid_def mask32)
  have "ps_pid (set_pid_tid (pid_field e) st) = getpid e \<and> ps_tid (set_pid_tid (pid_field e) st) = gettid e"
  proof (cases "getpid e = gettid e")
    case True
    then have pf: "pid_field e = scast (getpid e)" by (simp add: pid_field_def g)
    then have "(2 :: nat) ^ long_code (pid_field e) \<le> 2 ^ 2"
      using narrow_pid_code [of "getpid e"] by (intro power_increasing) simp_all
    with pf assms(2) True show ?thesis by (simp add: set_pid_tid_def ucast_scast_eq Let_def)
  next
    case False
    then have pf: "pid_field e = ae_pid_tgid e" by (simp add: pid_field_def g)
    then have "long_code (pid_field e) = 3" using wide_pid_code [of "ae_pid_tgid e"] nz hi by simp
    with pf assms(2) hi lo show ?thesis by (simp add: set_pid_tid_def Let_def)
  qed
  then show "ps_pid (set_pid_tid (pid_field e) st) = getpid e" "ps_tid (set_pid_tid (pid_field e) st) = gettid e"
    by simp_all
qed

lemma get_header:
  assumes "holds m p (header_rest e ls)" "p + length (header_rest e ls) \<le> q" "length ls \<le> 3" "0 <s getpid e"
  shows "\<exists>st'. get_ts_and_widths m q p st = Got () (p + length (header_rest e ls)) st' \<and>
    knows_header e ls st' \<and> same_strings st st'"
proof -
  let ?z = "long_code (pid_field e)" and ?L = "long_bytes (pid_field e)"
  define st1 where "st1 = note_tamper (st\<lparr>ps_kernel_ts := ae_ktime e\<rparr>)"
  define st2 where "st2 = note_order (ps_kernel_ts st) (st1\<lparr>ps_clk_ts := ps_kernel_ts st1 + ps_clk_kernel_diff st1\<rparr>)"
  define st3 where "st3 = set_widths (hdr_byte ?z (code_at ls 0) (code_at ls 1) (code_at ls 2)) st2"
  define st4 where "st4 = set_pid_tid (pid_field e) (st3\<lparr>ps_cgroup_id := ae_cgroup_id e,
     ps_start_time := t_start_time (ae_tasks e (ae_task e))\<rparr>)"
  have h: "slice m p 8 = le_bytes 8 (ae_ktime e)"
    "m (p + 8) = hdr_byte ?z (code_at ls 0) (code_at ls 1) (code_at ls 2)" "holds m (p + 9) ?L"
    "slice m (p + 9 + length ?L) 8 = le_bytes 8 (ae_cgroup_id e)"
    "slice m (p + 9 + length ?L + 8) 8 = le_bytes 8 (t_start_time (ae_tasks e (ae_task e)))"
    using assms(1) width_codes_hdr_byte [OF assms(3), of ?z]
    by (simp_all add: header_rest_def holds_def [of _ _ "le_bytes n w" for n w] ac_simps)
  have len: "length (header_rest e ls) = 25 + length ?L" by (simp add: header_rest_def)
  have w: "ps_pid_width st3 = 2 ^ ?z" "ps_a1width st3 = 2 ^ code_at ls 0"
    "ps_a2width st3 = 2 ^ code_at ls 1" "ps_a3width st3 = 2 ^ code_at ls 2"
    by (simp_all add: st3_def set_widths_def hdr_byte_widths long_code_le code_at_le)
  have f: "ps_kernel_ts st3 = ae_ktime e" "ps_clk_ts st3 = ae_ktime e + ps_clk_kernel_diff st3" "same_strings st st3"
    using note_frame by (simp_all add: st3_def st2_def st1_def set_widths_def same_strings_def)
  have gl: "get_long (2 ^ ?z) m q (p + 9) st3 = Got (pid_field e) (p + 9 + length ?L) st3"
    by (rule get_long_bytes) (use h(3) assms(2) len in simp_all)
  have pos: "p + 8 + 1 = p + 9" by simp
  have q: "\<not> q \<le> p + 5" "\<not> q < p + 9 + length ?L + 16" using assms(2) len by linarith+
  have "get_ts_and_widths m q p st = Got () (p + 9 + length ?L + 8 + 8) st4"
    unfolding get_ts_and_widths_def Let_def h(1,2) of_le_full pos st1_def [symmetric] st2_def [symmetric]
      st3_def [symmetric] w(1) gl res.case h(4,5) st4_def
    using q by (simp only: if_False)
  moreover have "knows_header e ls st4" "same_strings st st4"
    using f w pid_roundtrip [OF assms(4), of "st3\<lparr>ps_cgroup_id := ae_cgroup_id e,
     ps_start_time := t_start_time (ae_tasks e (ae_task e))\<rparr>"]
    by (simp_all add: st4_def knows_header_def same_strings_def set_pid_tid_def Let_def)
  ultimately show ?thesis using len by (auto simp: add.commute add.left_commute)
qed

section \<open>Strings\<close>

lemma c_string_holds:
  "holds sb i (xs @ [0]) \<Longrightarrow> 0 \<notin> set xs \<Longrightarrow> length xs \<le> n \<Longrightarrow> c_string n sb i = xs"
proof (induction xs arbitrary: n i)
  case Nil
  then show ?case by (cases n) simp_all
next
  case (Cons x xs)
  then obtain n' where "n = Suc n'" by (cases n) simp_all
  with Cons show ?case by simp
qed

text \<open>What reading a string keeps: the header, and every string read before.\<close>

definition same_header :: "pstate \<Rightarrow> pstate \<Rightarrow> bool" where
  "same_header st st' \<longleftrightarrow> ps_clk_kernel_diff st' = ps_clk_kernel_diff st \<and>
     (\<forall>e ls. knows_header e ls st \<longrightarrow> knows_header e ls st')"

definition user_string :: "audit_env \<Rightarrow> u64 \<Rightarrow> u8 list \<Rightarrow> bool" where
  "user_string e a bs \<longleftrightarrow> ae_str e a = Some bs \<and> 0 \<notin> set bs"

lemma get_string_bytes:
  assumes "user_string e a bs" "holds m p (str_bytes e a)" "p + length (str_bytes e a) \<le> q"
    and "ps_strbuf_next st + 140 < PBUFSIZE"
  shows "\<exists>st'. get_string m q p st = Got (ps_strbuf_next st) (p + length (str_bytes e a)) st' \<and>
    holds (ps_strbuf st') (ps_strbuf_next st) (take 127 bs @ [0]) \<and>
    ps_strbuf_next st' = ps_strbuf_next st + length (take 127 bs @ [0]) \<and>
    (\<forall>k < ps_strbuf_next st. ps_strbuf st' k = ps_strbuf st k) \<and> same_header st st'"
proof -
  let ?out = "take 127 bs @ [0]" and ?n = "Suc (min 127 (length bs))"
  have a: "ae_str e a = Some bs" using assms(1) by (simp add: user_string_def)
  have l: "length ?out = ?n" "?n \<le> 128" by simp_all
  have mp: "m p = of_nat ?n" and "holds m (p + 1) ?out"
    using assms(2) unfolding str_bytes_def a by simp_all
  then have out: "slice m (p + 1) ?n = ?out" by (simp only: holds_def l)
  have un: "unat (of_nat ?n :: u8) = ?n"
    using l(2) by (simp only: unat_of_nat) simp
  have sl: "length (str_bytes e a) = ?n + 1" by (simp add: str_bytes_def a)
  define st1 where "st1 = (if ?n \<ge> MAX_DLEN then st\<lparr>ps_trunc_fn := ps_trunc_fn st + 1\<rparr> else st)"
  have nx: "ps_strbuf_next st1 = ps_strbuf_next st" "ps_strbuf st1 = ps_strbuf st" by (simp_all add: st1_def)
  define sb where "sb = store (ps_strbuf st) (ps_strbuf_next st) ?out"
  have hs: "holds sb (ps_strbuf_next st) ?out"
    by (simp only: holds_def sb_def slice_store_same)
  then have last: "sb (ps_strbuf_next st + ?n - 1) = 0" by (simp add: min.commute)
  define st2 where "st2 = st1\<lparr>ps_strbuf := sb, ps_strbuf_next := ps_strbuf_next st + ?n\<rparr>"
  have "rem_spc_strbuf st1 > int (length ?out)"
    using assms(4) l by (simp add: rem_spc_strbuf_def nx)
  then have "copy2strbuf_term ?out 0 st1 = Some (ps_strbuf_next st, st2)"
    unfolding copy2strbuf_term_def Let_def l nx sb_def [symmetric] last by (simp add: st2_def)
  then have "get_string m q p st = Got (ps_strbuf_next st) (p + length (str_bytes e a)) st2"
    using assms(3) unfolding get_string_term_def Let_def mp un out st1_def [symmetric] sl by simp
  moreover have "same_header st st2" by (simp add: same_header_def knows_header_def st2_def st1_def)
  ultimately show ?thesis using hs l by (auto simp: st2_def sb_def store_def)
qed

section \<open>Records\<close>

lemma pbind_simps [simp]:
  "pbind (preturn v) f = f v" "pbind (pbind r f) g = pbind r (\<lambda>v. pbind (f v) g)"
  "r m q p st = Got v p' st' \<Longrightarrow> pbind r f m q p st = f v m q p' st'"
  by (auto simp: pbind_def preturn_def fun_eq_iff split: res.splits)

primrec read_exs :: "nat \<Rightarrow> s64 list reader" where
  "read_exs 0 = preturn []"
| "read_exs (Suc n) = pbind get_long_ex (\<lambda>x. pbind (read_exs n) (\<lambda>xs. preturn (x # xs)))"

primrec read_strs :: "nat \<Rightarrow> nat list reader" where
  "read_strs 0 = preturn []"
| "read_strs (Suc n) = pbind get_string (\<lambda>x. pbind (read_strs n) (\<lambda>xs. preturn (x # xs)))"

definition read_longs :: "nat \<Rightarrow> s64 list reader" where
  "read_longs n = pbind get_ts_and_widths (\<lambda>_.
     if n = 0 then preturn []
     else pbind get_a1 (\<lambda>a1. if n = 1 then preturn [a1]
     else pbind get_a2 (\<lambda>a2. if n = 2 then preturn [a1, a2]
     else pbind get_a3 (\<lambda>a3. preturn [a1, a2, a3]))))"

definition read_rec :: "nat \<Rightarrow> nat \<Rightarrow> nat \<Rightarrow> (s64 list \<times> s64 list \<times> nat list) reader" where
  "read_rec nl nx ns = pbind (read_longs nl) (\<lambda>ls. pbind (read_exs nx) (\<lambda>xs. pbind (read_strs ns) (\<lambda>ps.
     preturn (ls, xs, ps))))"

text \<open>The reader the parser uses for each argument list the probe writes.\<close>

fun read_back :: "sc_args \<Rightarrow> (s64 list \<times> s64 list \<times> nat list) reader" where
  "read_back Long0 = pbind get_ts_and_widths (\<lambda>_. preturn ([], [], []))"
| "read_back (Long1 _) = pbind get_long1 (\<lambda>a1. preturn ([a1], [], []))"
| "read_back (Long2 _ _) = pbind get_long2 (\<lambda>(a1, a2). preturn ([a1, a2], [], []))"
| "read_back (Long3 _ _ _) = pbind get_long3 (\<lambda>(a1, a2, a3). preturn ([a1, a2, a3], [], []))"
| "read_back (Long4 _ _ _ _) = pbind get_long4 (\<lambda>(a1, a2, a3, a4). preturn ([a1, a2, a3], [a4], []))"
| "read_back (Long5 _ _ _ _ _) = pbind get_long5 (\<lambda>(a1, a2, a3, a4, a5). preturn ([a1, a2, a3], [a4, a5], []))"
| "read_back (Str_long1 _ _) = pbind get_str_long1 (\<lambda>(s, a1). preturn ([a1], [], [s]))"
| "read_back (Str_long2 _ _ _) = pbind get_str_long2 (\<lambda>(s, a1, a2). preturn ([a1, a2], [], [s]))"
| "read_back (Str_long3 _ _ _ _) = pbind get_str_long3 (\<lambda>(s, a1, a2, a3). preturn ([a1, a2, a3], [], [s]))"
| "read_back (Str_long4 _ _ _ _ _) =
     pbind get_str_long4 (\<lambda>(s, a1, a2, a3, a4). preturn ([a1, a2, a3], [a4], [s]))"
| "read_back (Str_long5 _ _ _ _ _ _) =
     pbind get_str_long5 (\<lambda>(s, a1, a2, a3, a4, a5). preturn ([a1, a2, a3], [a4, a5], [s]))"
| "read_back (Str2_long3 _ _ _ _ _) =
     pbind get_str2_long3 (\<lambda>(s1, s2, a1, a2, a3). preturn ([a1, a2, a3], [], [s1, s2]))"
| "read_back (Str2_long5 _ _ _ _ _ _ _) =
     pbind get_str2_long5 (\<lambda>(s1, s2, a1, a2, a3, a4, a5). preturn ([a1, a2, a3], [a4, a5], [s1, s2]))"
| "read_back (Str3_long2 _ _ _ _ _) =
     pbind get_str3_long2 (\<lambda>(s1, s2, s3, a1, a2). preturn ([a1, a2], [], [s1, s2, s3]))"
| "read_back _ = (\<lambda>m q p st. Fail p st)"

text \<open>The argument lists of integers and strings for which the parser has a reader.\<close>

fun has_reader :: "sc_args \<Rightarrow> bool" where
  "has_reader (Str2_long2 _ _ _ _) = False"
| "has_reader (Str2_long4 _ _ _ _ _ _) = False"
| "has_reader (Data_long2 _ _ _ _) = False"
| "has_reader (Data_long3 _ _ _ _ _) = False"
| "has_reader _ = True"

lemmas reader_defs =
  get_long1_def get_long2_def get_long3_def get_long4_def get_long5_def get_str_long1_def get_str_long2_def
  get_str_long3_def get_str_long4_def get_str_long5_def get_str2_long3_def get_str2_long5_def get_str3_long2_def

lemma read_back_rec:
  assumes "has_reader r" "arg_fields r = (ls, xs, ps)"
  shows "read_back r = read_rec (length ls) (length xs) (length ps)"
  using assms by (cases r) (auto simp: read_rec_def read_longs_def reader_defs)

lemma read_exs_bytes:
  "holds m p (concat (map (le_bytes 8) xs)) \<Longrightarrow> p + 8 * length xs < q \<Longrightarrow>
   read_exs (length xs) m q p st = Got xs (p + 8 * length xs) st"
proof (induction xs arbitrary: p)
  case Nil
  then show ?case by (simp add: preturn_def)
next
  case (Cons x xs)
  from Cons.prems have x: "get_long_ex m q p st = Got x (p + 8) st"
    by (intro get_long_ex_bytes) simp_all
  have "read_exs (length xs) m q (p + 8) st = Got xs (p + 8 + 8 * length xs) st"
    by (rule Cons.IH) (use Cons.prems in simp_all)
  with x show ?case by (simp add: preturn_def)
qed

text \<open>The strings at the given offsets of the string buffer.\<close>

definition strings_at :: "pstate \<Rightarrow> nat list \<Rightarrow> u8 list list" where
  "strings_at st os = map (c_string 128 (ps_strbuf st)) os"

lemma c_string_cong:
  "(\<And>k. k < i + length xs + 1 \<Longrightarrow> sb' k = sb k) \<Longrightarrow> holds sb i (xs @ [0]) \<Longrightarrow> holds sb' i (xs @ [0])"
  unfolding holds_def using slice_cong [of i "length (xs @ [0])" sb' sb] by simp

lemma read_strs_bytes:
  assumes "list_all2 (user_string e) ps bss" "holds m p (concat (map (str_bytes e) ps))"
    and "p + length (concat (map (str_bytes e) ps)) \<le> q"
    and "ps_strbuf_next st + 128 * length ps + 140 < PBUFSIZE"
  shows "\<exists>os st'. read_strs (length ps) m q p st = Got os (p + length (concat (map (str_bytes e) ps))) st' \<and>
    strings_at st' os = map (take 127) bss \<and> (\<forall>k < ps_strbuf_next st. ps_strbuf st' k = ps_strbuf st k) \<and>
    same_header st st'"
  using assms
proof (induction ps bss arbitrary: p st rule: list_all2_induct)
  case Nil
  then show ?case by (simp add: preturn_def strings_at_def same_header_def)
next
  case (Cons a ps bs bss)
  let ?l = "length (str_bytes e a)"
  obtain st1 where g: "get_string m q p st = Got (ps_strbuf_next st) (p + ?l) st1"
    and h: "holds (ps_strbuf st1) (ps_strbuf_next st) (take 127 bs @ [0])"
    and nx: "ps_strbuf_next st1 = ps_strbuf_next st + length (take 127 bs @ [0])"
    and fr: "\<forall>k < ps_strbuf_next st. ps_strbuf st1 k = ps_strbuf st k" and sh: "same_header st st1"
    using get_string_bytes [OF Cons.hyps(1), of m p q st] Cons.prems by auto
  have "ps_strbuf_next st1 + 128 * length ps + 140 < PBUFSIZE"
    using Cons.prems(3) nx by simp
  then obtain os st2 where r: "read_strs (length ps) m q (p + ?l) st1 =
      Got os (p + ?l + length (concat (map (str_bytes e) ps))) st2"
    and so: "strings_at st2 os = map (take 127) bss"
    and fr2: "\<forall>k < ps_strbuf_next st1. ps_strbuf st2 k = ps_strbuf st1 k" and sh2: "same_header st1 st2"
    using Cons.IH [of "p + ?l" st1] Cons.prems by auto
  have "holds (ps_strbuf st2) (ps_strbuf_next st) (take 127 bs @ [0])"
    by (rule c_string_cong [OF _ h]) (use fr2 nx in simp)
  then have "c_string 128 (ps_strbuf st2) (ps_strbuf_next st) = take 127 bs"
    by (rule c_string_holds) (use Cons.hyps(1) in \<open>auto simp: user_string_def dest: in_set_takeD\<close>)
  moreover have "read_strs (length (a # ps)) m q p st =
      Got (ps_strbuf_next st # os) (p + length (concat (map (str_bytes e) (a # ps)))) st2"
    using g r by (simp add: preturn_def add.assoc)
  moreover have "\<forall>k < ps_strbuf_next st. ps_strbuf st2 k = ps_strbuf st k"
    using fr fr2 nx by simp
  moreover have "same_header st st2"
    using sh sh2 by (simp add: same_header_def)
  ultimately show ?case
    using so by (intro exI [of _ "ps_strbuf_next st # os"] exI [of _ st2]) (simp add: strings_at_def)
qed

lemma read_longs_bytes:
  assumes "holds m p (header_rest e ls @ concat (map long_bytes ls))" "length ls \<le> 3" "0 <s getpid e"
    and "p + length (header_rest e ls @ concat (map long_bytes ls)) < q"
  shows "\<exists>st'. read_longs (length ls) m q p st =
      Got ls (p + length (header_rest e ls @ concat (map long_bytes ls))) st' \<and>
    knows_header e ls st' \<and> same_strings st st'"
proof -
  obtain st' where g: "get_ts_and_widths m q p st = Got () (p + length (header_rest e ls)) st'"
    and k: "knows_header e ls st'" and s: "same_strings st st'"
    using get_header [of m p e ls q st] assms by auto
  note w = k [unfolded knows_header_def]
  define p0 where "p0 = p + length (header_rest e ls)"
  have h: "holds m p0 (concat (map long_bytes ls))" "p0 + length (concat (map long_bytes ls)) < q"
    using assms(1,4) by (simp_all add: p0_def)
  have "ls = [] \<or> (\<exists>a. ls = [a]) \<or> (\<exists>a b. ls = [a, b]) \<or> (\<exists>a b c. ls = [a, b, c])"
    using assms(2) by (cases ls; cases "tl ls"; cases "tl (tl ls)"; cases "tl (tl (tl ls))") auto
  moreover have a1: "get_a1 m q p1 st' = Got a (p1 + length (long_bytes a)) st'"
    if "0 < length ls" "a = ls ! 0" "holds m p1 (long_bytes a)" "p1 + length (long_bytes a) < q" for a p1
    using get_long_bytes [OF that(3,4)] w that(1,2) by (simp add: get_a1_def code_at_def)
  moreover have a2: "get_a2 m q p1 st' = Got a (p1 + length (long_bytes a)) st'"
    if "1 < length ls" "a = ls ! 1" "holds m p1 (long_bytes a)" "p1 + length (long_bytes a) < q" for a p1
    using get_long_bytes [OF that(3,4)] w that(1,2) by (simp add: get_a2_def code_at_def)
  moreover have a3: "get_a3 m q p1 st' = Got a (p1 + length (long_bytes a)) st'"
    if "2 < length ls" "a = ls ! 2" "holds m p1 (long_bytes a)" "p1 + length (long_bytes a) < q" for a p1
    using get_long_bytes [OF that(3,4)] w that(1,2) by (simp add: get_a3_def code_at_def)
  ultimately have "read_longs (length ls) m q p st = Got ls (p0 + length (concat (map long_bytes ls))) st'"
    using g h by (auto simp: read_longs_def p0_def [symmetric] preturn_def add.assoc simp del: length_long_bytes)
  with k s show ?thesis by (auto simp: p0_def add.assoc)
qed

lemma record_bytes_parts:
  assumes "arg_fields r = (ls, xs, ps)" "has_reader r"
  shows "record_bytes e nm sn r = (nm # le_bytes 2 sn) @ (header_rest e ls @ concat (map long_bytes ls)) @
    concat (map (le_bytes 8) xs) @ concat (map (str_bytes e) ps) @ [10]"
proof -
  have "data_field r = None" using assms(2) by (cases r) simp_all
  then show ?thesis by (simp add: record_bytes_def header_rest_def field_bytes_def assms)
qed

lemma length_concat_8: "length (concat (map (le_bytes 8) xs)) = 8 * length xs"
  by (induction xs) simp_all

text \<open>The bytes of a record at \<open>p\<close> are read back from behind the event code and the sequence number.\<close>

lemma read_back_record:
  assumes "has_reader r" "arg_fields r = (ls, xs, ps)" "list_all2 (user_string e) ps bss" "0 <s getpid e"
    and "holds m p (record_bytes e nm sn r)" "p + length (record_bytes e nm sn r) \<le> q" "ps_strbuf_next st = 0"
  shows "\<exists>os st'. read_back r m q (p + 3) st = Got (ls, xs, os) (p + length (record_bytes e nm sn r) - 1) st' \<and>
    strings_at st' os = map (take 127) bss \<and> knows_header e ls st' \<and> ps_clk_kernel_diff st' = ps_clk_kernel_diff st"
proof -
  let ?L = "header_rest e ls @ concat (map long_bytes ls)" and ?X = "concat (map (le_bytes 8) xs)"
  let ?S = "concat (map (str_bytes e) ps)"
  define p1 where "p1 = p + 3 + length ?L"
  define p2 where "p2 = p1 + 8 * length xs"
  have nl: "length ls \<le> 3" and np: "length ps \<le> 3"
    using fields_size [OF assms(2)] by linarith+
  have len: "p + length (record_bytes e nm sn r) = p2 + length ?S + 1"
    by (simp add: record_bytes_parts [OF assms(2,1)] p1_def p2_def length_concat_8)
  have split: "holds m p (A @ L @ X @ S @ [10]) \<Longrightarrow> length A = 3 \<Longrightarrow>
      holds m (p + 3) L \<and> holds m (p + 3 + length L) X \<and> holds m (p + 3 + length L + length X) S" for A L X S
    by simp
  have h: "holds m (p + 3) ?L" "holds m p1 ?X" "holds m p2 ?S"
    using split [OF assms(5) [unfolded record_bytes_parts [OF assms(2,1)]]]
    unfolding p1_def p2_def length_concat_8 by simp_all
  obtain st1 where r1: "read_longs (length ls) m q (p + 3) st = Got ls p1 st1"
    and k1: "knows_header e ls st1" and s1: "same_strings st st1"
    using read_longs_bytes [OF h(1) nl assms(4), of q st] assms(6) len by (auto simp: p1_def p2_def)
  have r2: "read_exs (length xs) m q p1 st1 = Got xs p2 st1"
    using read_exs_bytes [OF h(2), of q st1] assms(6) len by (simp add: p2_def)
  have "ps_strbuf_next st1 + 128 * length ps + 140 < PBUFSIZE"
    using s1 assms(7) np by (simp add: same_strings_def PBUFSIZE_def BUFSIZE_def)
  then obtain os st2 where r3: "read_strs (length ps) m q p2 st1 = Got os (p2 + length ?S) st2"
    and so: "strings_at st2 os = map (take 127) bss" and sh: "same_header st1 st2"
    using read_strs_bytes [OF assms(3) h(3), of q st1] assms(6) len by auto
  have "read_back r m q (p + 3) st = Got (ls, xs, os) (p2 + length ?S) st2"
    using r1 r2 r3 by (simp add: read_back_rec [OF assms(1,2)] read_rec_def preturn_def)
  with so sh k1 s1 len show ?thesis by (auto simp: same_header_def same_strings_def)
qed

section \<open>Concrete memories and the initial parser state\<close>

definition memory_of :: "u8 list \<Rightarrow> mem" where
  "memory_of bs = (\<lambda>k. if k < length bs then bs ! k else 0)"

lemma memory_of_holds: "holds (memory_of (pre @ bs @ post)) (length pre) bs"
  unfolding holds_def by (rule nth_equalityI) (auto simp: memory_of_def nth_append)

definition pstate_init :: pstate where
  "pstate_init =
     \<lparr>ps_kernel_ts = 0, ps_clk_ts = 0, ps_clk_kernel_diff = 0, ps_tamperwin_start = 0, ps_cur_sctype = SC_DEFAULT,
      ps_tamper_count = 0, ps_tamper_ccount = 0, ps_tamper_icount = 0, ps_tamper_thislag = 0, ps_tamper_thisclag = 0,
      ps_tamper_thisilag = 0, ps_tamper_maxlag = 0, ps_tamper_maxclag = 0, ps_tamper_maxilag = 0,
      ps_n_out_of_order = 0, ps_t_out_of_order = 0, ps_pid_width = 0, ps_a1width = 0, ps_a2width = 0, ps_a3width = 0,
      ps_cgroup_id = 0, ps_start_time = 0, ps_pid = 0, ps_tid = 0, ps_last_pid = 0, ps_last_tid = 0,
      ps_trunc_fn = 0, ps_trunc_data = 0, ps_strbuf = (\<lambda>_. 0), ps_strbuf_next = 0\<rparr>"

section \<open>Properties\<close>

text \<open>
  (C10) The parser inverts the probe: whatever record of integers and strings the probe writes, and
  wherever its bytes lie in the parser's input, the parser's reader for that kind of record
  returns the arguments, the strings (cut to 127 bytes), the time stamp, the process and thread,
  the control group and the start time, and stops at the record's final newline. The strings of the
  record could be read by the probe and contain no NUL, the process number is positive, and the kind
  of record is one for which the parser has such a reader (\<open>has_reader\<close>).
\<close>

theorem record_roundtrip:
  assumes "has_reader r" "arg_fields r = (ls, xs, ps)" "list_all2 (user_string e) ps bss" "0 <s getpid e"
    and "holds m p (record_bytes e nm sn r)" "p + length (record_bytes e nm sn r) \<le> q" "ps_strbuf_next st = 0"
  shows "\<exists>os st'. read_back r m q (p + 3) st = Got (ls, xs, os) (p + length (record_bytes e nm sn r) - 1) st' \<and>
    strings_at st' os = map (take 127) bss \<and> ps_kernel_ts st' = ae_ktime e \<and> ps_pid st' = getpid e \<and>
    ps_tid st' = gettid e \<and> ps_cgroup_id st' = ae_cgroup_id e \<and>
    ps_start_time st' = t_start_time (ae_tasks e (ae_task e)) \<and>
    m p = nm \<and> ucast (of_le (slice m (p + 1) 2)) = (ucast sn :: u16) \<and>
    m (p + length (record_bytes e nm sn r) - 1) = 10"
proof -
  have code: "m p = nm" and sq: "slice m (p + 1) 2 = le_bytes 2 sn"
    using assms(5) by (simp_all add: record_bytes_def holds_def [of _ _ "le_bytes n w" for n w])
  then have sqv: "ucast (of_le (slice m (p + 1) 2)) = (ucast sn :: u16)" by (simp only: of_le_narrow)
  have "last (record_bytes e nm sn r) = 10" "record_bytes e nm sn r \<noteq> []"
    by (simp_all add: record_bytes_def)
  with holds_last [OF assms(5)] have "m (p + length (record_bytes e nm sn r) - 1) = 10" by simp
  then show ?thesis
    using read_back_record [OF assms] code sqv by (auto simp: knows_header_def)
qed

theorem record_roundtrip_witness:
  "\<exists>os st'. read_back (Str_long5 1 5 300 70000 (- 1) 0x123456789)
       (memory_of (record_bytes (sample_env 10) 111 42 (Str_long5 1 5 300 70000 (- 1) 0x123456789)))
       (length (record_bytes (sample_env 10) 111 42 (Str_long5 1 5 300 70000 (- 1) 0x123456789))) 3 pstate_init
     = Got ([5, 300, 70000], [- 1, 0x123456789], os)
         (length (record_bytes (sample_env 10) 111 42 (Str_long5 1 5 300 70000 (- 1) 0x123456789)) - 1) st' \<and>
     strings_at st' os = [[104, 105]] \<and> ps_pid st' = 7 \<and> ps_kernel_ts st' = 10"
proof -
  let ?r = "Str_long5 1 5 300 70000 (- 1) 0x123456789"
  let ?R = "record_bytes (sample_env 10) 111 42 ?r"
  have gp: "getpid (sample_env 10) = 7" by (simp add: getpid_def sample_env_def)
  have kt: "ae_ktime (sample_env 10) = 10" by (simp add: sample_env_def)
  have us: "list_all2 (user_string (sample_env 10)) [1] [[104, 105]]"
    by (simp add: user_string_def sample_env_def)
  have h: "holds (memory_of ?R) 0 ?R" using memory_of_holds [of "[]" ?R "[]"] by simp
  have pos: "0 <s getpid (sample_env 10)" by (simp add: gp word_sless_alt)
  from record_roundtrip [of ?r "[5, 300, 70000]" "[- 1, 0x123456789]" "[1]", OF _ _ us pos h, of "length ?R" pstate_init]
  show ?thesis using gp kt by (auto simp: pstate_init_def)
qed

text \<open>
  A string the probe could not read is logged with length 0, and the parser does not report an
  empty string for it: it returns a pointer at which nothing was written, so that the bytes of an
  earlier record are taken for the argument.
\<close>

theorem unreadable_string_stale:
  "\<exists>e a m p q st s st'. ae_str e a = None \<and> holds m p (str_bytes e a) \<and> ps_strbuf_next st > 0 \<and>
     get_string m q p st = Got s (p + 1) st' \<and> c_string 128 (ps_strbuf st') s = [65]"
proof -
  let ?st = "pstate_init\<lparr>ps_strbuf := (\<lambda>_. 0)(1 := 65), ps_strbuf_next := 1\<rparr>"
  have h: "holds (\<lambda>_. 0) 0 (str_bytes (sample_env 10) 0)" and n: "ae_str (sample_env 10) 0 = None"
    by (simp_all add: str_bytes_def sample_env_def)
  have s0: "store m i [] = m" for m i by (auto simp: store_def fun_eq_iff)
  have g: "get_string (\<lambda>_. 0) 5 0 ?st = Got 1 (0 + 1) ?st"
    by (simp add: get_string_term_def copy2strbuf_term_def rem_spc_strbuf_def PBUFSIZE_def BUFSIZE_def MAX_DLEN_def
        s0 pstate_init_def Let_def)
  have "c_string 128 (ps_strbuf ?st) 1 = [65]"
    by (rule c_string_holds) simp_all
  moreover have "ps_strbuf_next ?st > 0" by simp
  ultimately show ?thesis using h n g by blast
qed

end
