(* ===== verification/Umac3.thy ===== *)
theory Umac3
  imports Event_Codes
begin

text \<open>
  Tamper detection: the signing half of the probe (\<^verbatim>\<open>src/eauditk.c\<close>, under \<open>TAMPER_DETECT\<close>) and the
  checking half of the parser (\<^verbatim>\<open>src/computehash.C\<close>). The probe computes the tag of a record in a
  chain of tail calls, ten words per call; the parser computes it in one loop.
\<close>

section \<open>The signing state of a record\<close>

record umac_info =
  um_msg_words :: nat \<comment> \<open>position in the cache of the next word\<close>
  um_state_p1 :: u32
  um_state_p2 :: u32
  um_poly_key :: u64
  um_pad_key :: u64
  um_remaining_words :: nat
  um_signed_bytes :: u16
  um_final_word_bytes :: nat

definition UMAC3_P1 :: u64 where "UMAC3_P1 = push_bit 32 1 - 5"
definition UMAC3_P2 :: u64 where "UMAC3_P2 = push_bit 32 1 - 17"
definition UMAC3_WORDS_PER_TAIL_CALL :: nat where "UMAC3_WORDS_PER_TAIL_CALL = 10"
definition SIGNED_RECORD_TRAILER_SIZE :: nat where "SIGNED_RECORD_TRAILER_SIZE = 10"
definition MAX_SIGNED_RECORD_BYTES :: nat where "MAX_SIGNED_RECORD_BYTES = 712"

definition umac3_finalize_mac :: "u64 \<Rightarrow> u32 \<Rightarrow> u32 \<Rightarrow> u64" where
  "umac3_finalize_mac pad sp1 sp2 = (pad XOR ucast sp1) XOR push_bit 32 (ucast sp2)"

definition read_umac_word :: "mem \<Rightarrow> nat \<Rightarrow> nat \<Rightarrow> u32" where
  "read_umac_word d p bytes_in_word =
     (if bytes_in_word = 0 \<or> bytes_in_word = 4 then ucast (of_le (slice d p 4))
      else let m = ucast (d p);
               m = (if bytes_in_word \<ge> 2 then m OR push_bit 8 (ucast (d (p + 1))) else m);
               m = (if bytes_in_word \<ge> 3 then m OR push_bit 16 (ucast (d (p + 2))) else m)
           in m)"

definition umac3_wipe_keys :: "umac_info \<Rightarrow> umac_info" where
  "umac3_wipe_keys u = u\<lparr>um_poly_key := 0, um_pad_key := 0, um_final_word_bytes := 0\<rparr>"

text \<open>One \<open>UMAC3_STEP()\<close>: nothing when no word remains.\<close>

definition umac3_step :: "mem \<Rightarrow> umac_info \<Rightarrow> umac_info" where
  "umac3_step d u =
     (if um_remaining_words u \<ge> 1
      then let kp1 = um_poly_key u AND 0xffffffff; kp2 = drop_bit 32 (um_poly_key u);
               m = read_umac_word d (um_msg_words u)
                     (if um_remaining_words u = 1 then um_final_word_bytes u else 0);
               x = ucast (um_state_p1 u) * kp1 + ucast m;
               y = ucast (um_state_p2 u) * kp2 + ucast m
           in u\<lparr>um_state_p1 := ucast (x mod UMAC3_P1), um_state_p2 := ucast (y mod UMAC3_P2),
                um_remaining_words := um_remaining_words u - 1, um_msg_words := um_msg_words u + 4\<rparr>
      else u)"

section \<open>Emitting a signed record\<close>

definition append_mac_trailer :: "umac_info \<Rightarrow> buf \<Rightarrow> nat \<Rightarrow> u64 \<Rightarrow> buf \<times> nat" where
  "append_mac_trailer u b i mac =
     (if i < BUFSIZE - 200 - SIGNED_RECORD_TRAILER_SIZE - 2
      then (b\<lparr>b_d := store (b_d b) i (SIGNED_RECORD_MAC_REC # of_nat SIGNED_RECORD_TRAILER_SIZE #
                       le_bytes 2 (ucast (um_signed_bytes u)) @ le_bytes 8 mac)\<rparr>, i + 12)
      else (b, i))"

definition emit_signed_record :: "config \<Rightarrow> audit_env \<Rightarrow> umac_info \<Rightarrow> buf \<Rightarrow> nat \<Rightarrow> u64 \<Rightarrow> kstate \<Rightarrow> kstate" where
  "emit_signed_record c e u b i mac s =
     (let (b, i) = append_mac_trailer u b i mac;
          (b, i) = (if i < BUFSIZE then (b\<lparr>b_d := (b_d b)(i := 10)\<rparr>, i + 1) else (b, i));
          force_wake = (b_weight b \<ge> cf_TX_WT_THRESH c);
          force_tx = (force_wake \<or> i \<ge> cf_TX_THRESH c);
          (b, i, s) = check_xmit c e b i force_tx force_wake s
      in put_buf (ae_cpu e) (unlock_cache (b\<lparr>b_idx := i\<rparr>)) s)"

definition TAILCALL_UMAC3 :: nat where "TAILCALL_UMAC3 = 2"

text \<open>
  The tail-called program. The first argument is the number of tail calls the kernel still allows
  this chain to make. A failing tail call emits the record unsigned.
\<close>

fun tailcall_umac3 ::
  "nat \<Rightarrow> config \<Rightarrow> audit_env \<Rightarrow> buf \<Rightarrow> umac_info \<Rightarrow> kstate \<Rightarrow> umac_info \<times> kstate" where
  "tailcall_umac3 budget c e b u s =
     (let u = (umac3_step (b_d b) ^^ UMAC3_WORDS_PER_TAIL_CALL) u
      in if um_remaining_words u > 0
         then case budget of
                0 \<Rightarrow> (u, emit_record c e b (b_idx b) (stat_inc SIGN_FAIL_TAILCALL_UMAC_CONT s))
              | Suc n \<Rightarrow> if ae_tail_ok e TAILCALL_UMAC3 then tailcall_umac3 n c e b u s
                         else (u, emit_record c e b (b_idx b) (stat_inc SIGN_FAIL_TAILCALL_UMAC_CONT s))
         else let mac = umac3_finalize_mac (um_pad_key u) (um_state_p1 u) (um_state_p2 u);
                  u = umac3_wipe_keys u
              in (u, emit_signed_record c e u b (b_idx b) mac s))"

declare tailcall_umac3.simps [simp del]

definition reduce_p :: "u64 \<Rightarrow> u32 \<Rightarrow> u32" where
  "reduce_p p m = (if ucast m \<ge> p then m - ucast p else m)"

definition umac3_sign ::
  "nat \<Rightarrow> config \<Rightarrow> audit_env \<Rightarrow> buf \<Rightarrow> umac_info \<Rightarrow> nat \<Rightarrow> nat \<Rightarrow> u64 \<Rightarrow> u64 \<Rightarrow> kstate \<Rightarrow> umac_info \<times> kstate" where
  "umac3_sign budget c e b u offset byte_count poly_key pad_key s =
     (let word_count = (byte_count + 3) div 4;
          final_bytes = byte_count mod 4;
          m = read_umac_word (b_d b) offset (if word_count = 1 then final_bytes else 0);
          sp1 = reduce_p UMAC3_P1 m;
          sp2 = reduce_p UMAC3_P2 m;
          u = u\<lparr>um_poly_key := poly_key, um_pad_key := pad_key, um_final_word_bytes := final_bytes\<rparr>;
          remaining = int word_count - 1
      in if remaining > 0
         then let u = u\<lparr>um_state_p1 := sp1, um_state_p2 := sp2, um_msg_words := offset + 4,
                        um_remaining_words := nat remaining\<rparr>
              in case budget of
                   0 \<Rightarrow> (u, emit_record c e b (b_idx b) (stat_inc SIGN_FAIL_TAILCALL_UMAC_START s))
                 | Suc n \<Rightarrow> if ae_tail_ok e TAILCALL_UMAC3 then tailcall_umac3 n c e b u s
                            else (u, emit_record c e b (b_idx b) (stat_inc SIGN_FAIL_TAILCALL_UMAC_START s))
         else let mac = umac3_finalize_mac pad_key sp1 sp2; u = umac3_wipe_keys u
              in (u, emit_signed_record c e u b (b_idx b) mac s))"

section \<open>The reference computation of the parser\<close>

definition load_u32_le :: "mem \<Rightarrow> nat \<Rightarrow> nat \<Rightarrow> u32" where
  "load_u32_le d p available =
     (let w = 0;
          w = (if available > 0 then w OR ucast (d p) else w);
          w = (if available > 1 then w OR push_bit 8 (ucast (d (p + 1))) else w);
          w = (if available > 2 then w OR push_bit 16 (ucast (d (p + 2))) else w);
          w = (if available > 3 then w OR push_bit 24 (ucast (d (p + 3))) else w)
      in w)"

text \<open>The loop over the words \<open>word, word + 1, .., word_count - 1\<close>.\<close>

fun umac3_loop :: "mem \<Rightarrow> nat \<Rightarrow> nat \<Rightarrow> u64 \<Rightarrow> u64 \<Rightarrow> nat \<Rightarrow> nat \<Rightarrow> u32 \<Rightarrow> u32 \<Rightarrow> u32 \<times> u32" where
  "umac3_loop d pos inlen k11 k12 word 0 rv1 rv2 = (rv1, rv2)"
| "umac3_loop d pos inlen k11 k12 word (Suc n) rv1 rv2 =
     (let byte_offset = word * 4;
          remaining = inlen - byte_offset;
          msg_word = load_u32_le d (pos + byte_offset) (if remaining \<ge> 4 then 4 else remaining);
          x = ucast rv1 * k11 + ucast msg_word;
          y = ucast rv2 * k12 + ucast msg_word
      in umac3_loop d pos inlen k11 k12 (word + 1) n (ucast (x mod UMAC3_P1)) (ucast (y mod UMAC3_P2)))"

definition compute_umac3_words :: "mem \<Rightarrow> nat \<Rightarrow> nat \<Rightarrow> nat \<Rightarrow> u64 \<Rightarrow> u64 \<Rightarrow> u64" where
  "compute_umac3_words d pos inlen word_count poly_key pad_key =
     (if word_count = 0 then pad_key
      else let k11 = poly_key AND 0xffffffff; k12 = drop_bit 32 poly_key;
               w = load_u32_le d pos (if inlen \<ge> 4 then 4 else inlen);
               (rv1, rv2) = umac3_loop d pos inlen k11 k12 1 (word_count - 1)
                              (reduce_p UMAC3_P1 w) (reduce_p UMAC3_P2 w)
           in (pad_key XOR ucast rv1) XOR push_bit 32 (ucast rv2))"

definition compute_umac3_mac :: "mem \<Rightarrow> nat \<Rightarrow> nat \<Rightarrow> u8 list \<Rightarrow> u64" where
  "compute_umac3_mac d pos inlen k =
     compute_umac3_words d pos inlen ((inlen + 3) div 4) (of_le (take 8 k)) (of_le (take 8 (drop 8 k)))"

section \<open>Words\<close>

lemma load_full: "load_u32_le d p 4 = ucast (of_le (slice d p 4))"
proof -
  have s: "slice d p 4 = [d p, d (p + 1), d (p + 2), d (p + 3)]"
    by (simp add: slice_def upt_rec numeral_eq_Suc)
  show ?thesis
    unfolding s load_u32_le_def Let_def
    by (rule bit_word_eqI)
      (auto simp: bit_or_iff bit_push_bit_iff bit_unsigned_iff not_le dest: bit_imp_le_length)
qed

lemma read_load:
  assumes "0 < n" "n \<le> 4"
  shows "read_umac_word d p (n mod 4) = load_u32_le d p n"
proof -
  from assms have "n = 1 \<or> n = 2 \<or> n = 3 \<or> n = 4" by linarith
  then show ?thesis
    using load_full [of d p] by (auto simp: read_umac_word_def load_u32_le_def)
qed

lemma read_load_full: "read_umac_word d p 0 = load_u32_le d p 4"
  by (simp add: read_umac_word_def load_full)

section \<open>The chain of tail calls computes the reference\<close>

text \<open>The signing state after \<open>N - um_remaining_words u\<close> of the \<open>N\<close> words of a payload.\<close>

definition signing :: "nat \<Rightarrow> nat \<Rightarrow> u64 \<Rightarrow> u64 \<Rightarrow> umac_info \<Rightarrow> bool" where
  "signing pos inlen pk pad u \<longleftrightarrow>
     (let N = (inlen + 3) div 4
      in um_remaining_words u < N \<and> um_msg_words u = pos + 4 * (N - um_remaining_words u) \<and>
         um_final_word_bytes u = inlen mod 4 \<and> um_poly_key u = pk \<and> um_pad_key u = pad)"

definition rest_of_loop :: "mem \<Rightarrow> nat \<Rightarrow> nat \<Rightarrow> umac_info \<Rightarrow> u32 \<times> u32" where
  "rest_of_loop d pos inlen u =
     umac3_loop d pos inlen (um_poly_key u AND 0xffffffff) (drop_bit 32 (um_poly_key u))
       ((inlen + 3) div 4 - um_remaining_words u) (um_remaining_words u) (um_state_p1 u) (um_state_p2 u)"

lemma step_word:
  assumes "signing pos inlen pk pad u" "um_remaining_words u = Suc n"
  shows "read_umac_word d (um_msg_words u) (if Suc n = 1 then um_final_word_bytes u else 0) =
    load_u32_le d (pos + ((inlen + 3) div 4 - Suc n) * 4)
      (if inlen - ((inlen + 3) div 4 - Suc n) * 4 \<ge> 4 then 4 else inlen - ((inlen + 3) div 4 - Suc n) * 4)"
proof -
  let ?N = "(inlen + 3) div 4" and ?r = "inlen - ((inlen + 3) div 4 - Suc n) * 4"
  have u: "um_msg_words u = pos + (?N - Suc n) * 4" "um_final_word_bytes u = inlen mod 4" "Suc n < ?N"
    using assms by (simp_all add: signing_def Let_def)
  have N: "4 * ?N \<le> inlen + 3" "inlen < 4 * ?N + 1" by linarith+
  show ?thesis
  proof (cases "n = 0")
    case True
    define r where "r = ?r"
    have "inlen = r + 4 * (?N - 1)" "0 < r" "r \<le> 4"
      using N u(3) True unfolding r_def by linarith+
    moreover from this(1) have "r mod 4 = inlen mod 4" by (metis mod_mult_self2)
    ultimately have "read_umac_word d (um_msg_words u) (inlen mod 4) = load_u32_le d (um_msg_words u) r" "r \<ge> 4 \<Longrightarrow> r = 4"
      using read_load [of r d "um_msg_words u"] by simp_all
    with True u show ?thesis unfolding r_def [symmetric] by auto
  next
    case False
    then have "4 \<le> ?r" using N u(3) by linarith
    with False u show ?thesis by (simp add: read_load_full)
  qed
qed

lemma step_signing: "signing pos inlen pk pad u \<Longrightarrow> signing pos inlen pk pad (umac3_step d u)"
  by (auto simp: signing_def umac3_step_def Let_def Suc_diff_le)

lemma step_rest:
  assumes "signing pos inlen pk pad u"
  shows "rest_of_loop d pos inlen (umac3_step d u) = rest_of_loop d pos inlen u"
proof (cases "um_remaining_words u")
  case 0
  then show ?thesis by (simp add: umac3_step_def)
next
  case (Suc n)
  have N: "Suc n < (inlen + 3) div 4" using assms Suc by (simp add: signing_def Let_def)
  then have "(inlen + 3) div 4 - n = (inlen + 3) div 4 - Suc n + 1" by linarith
  with Suc step_word [OF assms Suc, of d] show ?thesis
    by (simp add: rest_of_loop_def umac3_step_def Let_def)
qed

lemma steps:
  assumes "signing pos inlen pk pad u"
  shows "signing pos inlen pk pad ((umac3_step d ^^ k) u)"
    and "rest_of_loop d pos inlen ((umac3_step d ^^ k) u) = rest_of_loop d pos inlen u"
    and "um_remaining_words ((umac3_step d ^^ k) u) = um_remaining_words u - k"
    and "um_signed_bytes ((umac3_step d ^^ k) u) = um_signed_bytes u"
proof (induction k)
  case (Suc k)
  { case 1 from step_signing [OF Suc(1)] show ?case by simp }
  { case 2 from step_rest [OF Suc(1)] Suc(2) show ?case by simp }
  { case 3 from Suc(3) show ?case by (simp add: umac3_step_def Let_def) }
  { case 4 from Suc(4) show ?case by (simp add: umac3_step_def Let_def) }
qed (use assms in simp_all)

definition loop_mac :: "u64 \<Rightarrow> u32 \<times> u32 \<Rightarrow> u64" where
  "loop_mac pad rv = (pad XOR ucast (fst rv)) XOR push_bit 32 (ucast (snd rv))"

lemma tailcall_done:
  assumes "signing pos inlen pk pad u" "um_remaining_words u \<le> 10"
  shows "\<exists>u'. tailcall_umac3 budget c e b u s =
      (u', emit_signed_record c e u' b (b_idx b) (loop_mac pad (rest_of_loop (b_d b) pos inlen u)) s) \<and>
    um_poly_key u' = 0 \<and> um_pad_key u' = 0 \<and> um_signed_bytes u' = um_signed_bytes u"
proof -
  let ?u = "(umac3_step (b_d b) ^^ 10) u"
  note t = steps [OF assms(1), where d = "b_d b" and k = 10]
  have z: "um_remaining_words ?u = 0" using t(3) assms(2) by simp
  have r: "rest_of_loop (b_d b) pos inlen u = (um_state_p1 ?u, um_state_p2 ?u)"
    unfolding t(2) [symmetric] by (simp add: rest_of_loop_def z)
  have p: "um_pad_key ?u = pad" using t(1) by (simp add: signing_def Let_def)
  have "tailcall_umac3 budget c e b u s = (umac3_wipe_keys ?u, emit_signed_record c e (umac3_wipe_keys ?u) b (b_idx b)
      (loop_mac pad (rest_of_loop (b_d b) pos inlen u)) s)"
    by (subst tailcall_umac3.simps)
      (simp add: UMAC3_WORDS_PER_TAIL_CALL_def Let_def z r p umac3_finalize_mac_def loop_mac_def)
  then show ?thesis using t(4) by (auto simp: umac3_wipe_keys_def)
qed

lemma tailcall_signs:
  assumes "signing pos inlen pk pad u" "ae_tail_ok e TAILCALL_UMAC3" "um_remaining_words u \<le> 10 * (budget + 1)"
  shows "\<exists>u'. tailcall_umac3 budget c e b u s =
      (u', emit_signed_record c e u' b (b_idx b) (loop_mac pad (rest_of_loop (b_d b) pos inlen u)) s) \<and>
    um_poly_key u' = 0 \<and> um_pad_key u' = 0 \<and> um_signed_bytes u' = um_signed_bytes u"
  using assms(1,3)
proof (induction budget arbitrary: u)
  case (0 u)
  then show ?case by (intro tailcall_done) simp_all
next
  case (Suc n u)
  let ?u = "(umac3_step (b_d b) ^^ 10) u"
  note t = steps [OF Suc.prems(1), where d = "b_d b" and k = 10]
  show ?case
  proof (cases "um_remaining_words u \<le> 10")
    case True
    with Suc.prems(1) show ?thesis by (rule tailcall_done)
  next
    case False
    then have "um_remaining_words ?u > 0" "um_remaining_words ?u \<le> 10 * (n + 1)" using t(3) Suc.prems(2) by simp_all
    with Suc.IH [OF t(1)] t(2,4) assms(2) show ?thesis
      by (subst tailcall_umac3.simps) (simp add: UMAC3_WORDS_PER_TAIL_CALL_def Let_def)
  qed
qed

lemma sign_is_reference:
  assumes "ae_tail_ok e TAILCALL_UMAC3" "0 < n" "n \<le> MAX_SIGNED_RECORD_BYTES" "17 < budget"
  shows "\<exists>u'. umac3_sign budget c e b u pos n pk pad s =
      (u', emit_signed_record c e u' b (b_idx b)
             (compute_umac3_words (b_d b) pos n ((n + 3) div 4) pk pad) s) \<and>
    um_poly_key u' = 0 \<and> um_pad_key u' = 0 \<and> um_signed_bytes u' = um_signed_bytes u"
proof -
  let ?N = "(n + 3) div 4"
  let ?w = "read_umac_word (b_d b) pos (if ?N = 1 then n mod 4 else 0)"
  have w: "?w = load_u32_le (b_d b) pos (if n \<ge> 4 then 4 else n)"
  proof (cases "?N = 1")
    case True
    then have "n \<le> 4" by linarith
    with True read_load [OF assms(2) this, of "b_d b" pos] show ?thesis by auto
  next
    case False
    then have "4 \<le> n" using assms(2) by linarith
    with False show ?thesis by (simp add: read_load_full)
  qed
  have N: "1 \<le> ?N" "?N \<le> 178" using assms(2,3) by (simp_all add: MAX_SIGNED_RECORD_BYTES_def)
  obtain k where k: "budget = Suc k" "17 \<le> k" using assms(4) by (cases budget) auto
  show ?thesis
  proof (cases "?N = 1")
    case True
    then show ?thesis
      using w by (auto simp: umac3_sign_def compute_umac3_words_def umac3_finalize_mac_def umac3_wipe_keys_def Let_def)
  next
    case False
    let ?u = "u\<lparr>um_poly_key := pk, um_pad_key := pad, um_final_word_bytes := n mod 4,
       um_state_p1 := reduce_p UMAC3_P1 ?w, um_state_p2 := reduce_p UMAC3_P2 ?w, um_msg_words := pos + 4,
       um_remaining_words := ?N - 1\<rparr>"
    have sg: "signing pos n pk pad ?u" using N False by (simp add: signing_def Let_def)
    have rm: "um_remaining_words ?u \<le> 10 * (k + 1)" using N k by simp
    have us: "umac3_sign budget c e b u pos n pk pad s = tailcall_umac3 k c e b ?u s"
      using N False k assms(1) by (simp add: umac3_sign_def Let_def nat_diff_distrib)
    have mac: "loop_mac pad (rest_of_loop (b_d b) pos n ?u) = compute_umac3_words (b_d b) pos n ?N pk pad"
      using N False w by (simp add: loop_mac_def rest_of_loop_def compute_umac3_words_def Let_def split_def)
    from tailcall_signs [OF sg assms(1) rm, of c b s] show ?thesis unfolding us mac by simp
  qed
qed

section \<open>The tag as a polynomial\<close>

text \<open>The value at \<open>k\<close> of the polynomial whose coefficients are the words of a message.\<close>

definition poly_value :: "nat \<Rightarrow> nat list \<Rightarrow> nat" where
  "poly_value k ws = foldl (\<lambda>a w. a * k + w) 0 ws"

definition message_words :: "mem \<Rightarrow> nat \<Rightarrow> nat \<Rightarrow> nat list" where
  "message_words d pos inlen =
     map (\<lambda>w. unat (load_u32_le d (pos + w * 4) (min 4 (inlen - w * 4)))) [0..<(inlen + 3) div 4]"

lemma P_nat: "unat UMAC3_P1 = 2 ^ 32 - 5" "unat UMAC3_P2 = 2 ^ 32 - 17"
  by (simp_all add: UMAC3_P1_def UMAC3_P2_def)

lemma no_overflow:
  fixes a m :: u32 and k p :: u64
  assumes "unat a < unat p" "unat k < 2 ^ 32" "0 < unat p" "unat p < 2 ^ 32"
  shows "unat (ucast ((ucast a * k + ucast m) mod p) :: u32) = (unat a * unat k + unat m) mod unat p"
proof -
  have u: "unat (ucast a :: u64) = unat a" "unat (ucast m :: u64) = unat m"
    by (simp_all add: unat_ucast_up)
  have m32: "unat m < 2 ^ 32" using unsigned_less [where ?'a = nat, of m] by simp
  have "unat a * unat k \<le> (2 ^ 32 - 2) * (2 ^ 32 - 1)"
    using assms by (intro mult_mono) simp_all
  then have x: "unat a * unat k + unat m < 2 ^ 64" using m32 by simp
  have "unat (ucast a * k :: u64) = unat a * unat k"
    using x u by (simp add: unat_word_ariths)
  then have s: "unat (ucast a * k + ucast m :: u64) = unat a * unat k + unat m"
    using x u by (simp add: unat_word_ariths)
  have "(unat a * unat k + unat m) mod unat p < 2 ^ 32"
    using assms(3,4) by (meson less_trans mod_less_divisor)
  then show ?thesis by (simp add: unat_mod s unsigned_ucast_eq take_bit_nat_eq_self)
qed

lemma reduce_nat:
  assumes "2 ^ 31 \<le> unat p" "unat p < 2 ^ 32"
  shows "unat (reduce_p p m) = unat m mod unat p"
proof -
  have m: "unat m < 2 ^ 32" using unsigned_less [where ?'a = nat, of m] by simp
  have c: "(p \<le> ucast m) = (unat p \<le> unat m)" by (simp add: word_le_nat_alt unat_ucast_up)
  have pu: "unat (ucast p :: u32) = unat p"
    using assms(2) by (simp add: unsigned_ucast_eq take_bit_nat_eq_self)
  show ?thesis
  proof (cases "unat p \<le> unat m")
    case True
    then have "ucast p \<le> m" using pu by (simp add: word_le_nat_alt)
    then have "unat (m - ucast p) = unat m - unat p" using pu by (simp add: unat_sub)
    moreover have "(2 :: nat) ^ 32 = 2 * 2 ^ 31" by simp
    then have "unat m - unat p < unat p" using m assms by linarith
    ultimately show ?thesis using True c by (simp add: reduce_p_def le_mod_geq)
  next
    case False
    then show ?thesis using c by (simp add: reduce_p_def)
  qed
qed

lemma foldl_mod:
  "foldl (\<lambda>a w. (a * k + w) mod p) (a mod p) ws = foldl (\<lambda>a w. a * k + w) a ws mod (p :: nat)"
proof (induction ws arbitrary: a)
  case Nil
  show ?case by simp
next
  case (Cons w ws)
  have "(a mod p * k + w) mod p = (a * k + w) mod p" by (metis mod_add_left_eq mod_mult_left_eq)
  with Cons.IH [of "a * k + w"] show ?case by simp
qed

definition word_at :: "mem \<Rightarrow> nat \<Rightarrow> nat \<Rightarrow> nat \<Rightarrow> nat" where
  "word_at d pos inlen w = unat (load_u32_le d (pos + w * 4) (min 4 (inlen - w * 4)))"

lemma loop_nat:
  assumes "unat k1 < 2 ^ 32" "unat k2 < 2 ^ 32" "unat a1 < unat UMAC3_P1" "unat a2 < unat UMAC3_P2"
    and "umac3_loop d pos inlen k1 k2 w n a1 a2 = (r1, r2)"
  shows "unat r1 = foldl (\<lambda>a x. (a * unat k1 + x) mod unat UMAC3_P1) (unat a1) (map (word_at d pos inlen) [w..<w + n])
    \<and> unat r2 = foldl (\<lambda>a x. (a * unat k2 + x) mod unat UMAC3_P2) (unat a2) (map (word_at d pos inlen) [w..<w + n])"
  using assms(3-5)
proof (induction n arbitrary: w a1 a2)
  case (Suc n)
  let ?m = "load_u32_le d (pos + w * 4) (if 4 \<le> inlen - w * 4 then 4 else inlen - w * 4)"
  let ?b1 = "ucast ((ucast a1 * k1 + ucast ?m) mod UMAC3_P1) :: u32"
  let ?b2 = "ucast ((ucast a2 * k2 + ucast ?m) mod UMAC3_P2) :: u32"
  have m: "unat ?m = word_at d pos inlen w" by (simp add: word_at_def min_def)
  have b: "unat ?b1 = (unat a1 * unat k1 + word_at d pos inlen w) mod unat UMAC3_P1"
    "unat ?b2 = (unat a2 * unat k2 + word_at d pos inlen w) mod unat UMAC3_P2"
    unfolding m [symmetric]
    by (rule no_overflow; use Suc.prems(1,2) assms(1,2) in \<open>simp add: P_nat\<close>)+
  then have lt: "unat ?b1 < unat UMAC3_P1" "unat ?b2 < unat UMAC3_P2" by (simp_all add: P_nat)
  have r: "umac3_loop d pos inlen k1 k2 (w + 1) n ?b1 ?b2 = (r1, r2)"
    using Suc.prems(3) by (simp add: Let_def)
  have u: "[w..<w + Suc n] = w # [w + 1..<w + 1 + n]" by (simp add: upt_rec)
  from Suc.IH [OF lt r] b show ?case by (simp only: u list.map foldl.simps)
qed simp_all

lemma tag_poly:
  assumes "0 < n"
  shows "\<exists>(r1 :: u32) (r2 :: u32). compute_umac3_words d pos n ((n + 3) div 4) pk pad = (pad XOR ucast r1) XOR push_bit 32 (ucast r2) \<and>
    unat r1 = poly_value (unat (pk AND 0xffffffff)) (message_words d pos n) mod (2 ^ 32 - 5) \<and>
    unat r2 = poly_value (unat (drop_bit 32 pk)) (message_words d pos n) mod (2 ^ 32 - 17)"
proof -
  let ?N = "(n + 3) div 4" and ?k1 = "pk AND 0xffffffff" and ?k2 = "drop_bit 32 pk"
  let ?w = "load_u32_le d pos (if n \<ge> 4 then 4 else n)"
  obtain r1 r2 where l: "umac3_loop d pos n ?k1 ?k2 1 (?N - 1) (reduce_p UMAC3_P1 ?w) (reduce_p UMAC3_P2 ?w) = (r1, r2)"
    by fastforce
  have "?k1 = take_bit 32 pk" by (simp add: take_bit_eq_mask mask_eq_exp_minus_1)
  then have k: "unat ?k1 < 2 ^ 32" "unat ?k2 < 2 ^ 32"
    by (simp_all add: unsigned_take_bit_eq unat_high_half del: power_numeral)
  have w: "unat ?w = word_at d pos n 0" by (simp add: word_at_def min_def)
  have red: "unat (reduce_p UMAC3_P1 ?w) = word_at d pos n 0 mod unat UMAC3_P1"
    "unat (reduce_p UMAC3_P2 ?w) = word_at d pos n 0 mod unat UMAC3_P2"
    unfolding w [symmetric] by (rule reduce_nat; simp add: P_nat)+
  then have lt: "unat (reduce_p UMAC3_P1 ?w) < unat UMAC3_P1" "unat (reduce_p UMAC3_P2 ?w) < unat UMAC3_P2"
    by (simp_all add: P_nat)
  have N: "1 \<le> ?N" using assms by linarith
  then have u: "[0..<?N] = 0 # [1..<1 + (?N - 1)]" by (simp add: upt_rec)
  have mw: "message_words d pos n = word_at d pos n 0 # map (word_at d pos n) [1..<1 + (?N - 1)]"
    by (simp only: message_words_def word_at_def [symmetric] u list.map)
  have "unat r1 = poly_value (unat ?k1) (message_words d pos n) mod unat UMAC3_P1"
    "unat r2 = poly_value (unat ?k2) (message_words d pos n) mod unat UMAC3_P2"
    using loop_nat [OF k lt l] unfolding red foldl_mod poly_value_def mw by simp_all
  moreover have "compute_umac3_words d pos n ?N pk pad = (pad XOR ucast r1) XOR push_bit 32 (ucast r2)"
    using N l by (simp add: compute_umac3_words_def Let_def)
  ultimately show ?thesis unfolding P_nat by blast
qed

section \<open>Properties\<close>

text \<open>
  (C18) The tag the probe puts on a record is the one the parser computes for the same bytes: for
  every payload the probe signs (at most 712 bytes), the chain of tail calls finishes within the
  33 calls the kernel allows (18 are enough), emits the record with the reference tag, and leaves
  no key material behind.
\<close>

theorem probe_tag_is_parser_tag:
  assumes "ae_tail_ok e TAILCALL_UMAC3" "0 < n" "n \<le> MAX_SIGNED_RECORD_BYTES" "17 < budget"
    and "key = le_bytes 8 pk @ le_bytes 8 pad"
  shows "\<exists>u'. umac3_sign budget c e b u pos n pk pad s =
      (u', emit_signed_record c e u' b (b_idx b) (compute_umac3_mac (b_d b) pos n key) s) \<and>
    um_poly_key u' = 0 \<and> um_pad_key u' = 0 \<and> um_signed_bytes u' = um_signed_bytes u"
  using sign_is_reference [OF assms(1-4)] by (simp add: compute_umac3_mac_def assms(5) of_le_full)

theorem probe_tag_is_parser_tag_witness:
  "\<forall>e b u s. \<exists>u'. umac3_sign 33 (dlogger_config 1 True) (e\<lparr>ae_tail_ok := (\<lambda>_. True)\<rparr>) b u 4 45 3 9 s =
      (u', emit_signed_record (dlogger_config 1 True) (e\<lparr>ae_tail_ok := (\<lambda>_. True)\<rparr>) u' b (b_idx b)
             (compute_umac3_mac (b_d b) 4 45 (le_bytes 8 3 @ le_bytes 8 9)) s) \<and>
    um_poly_key u' = 0 \<and> um_pad_key u' = 0 \<and> um_signed_bytes u' = um_signed_bytes u"
proof (intro allI)
  fix e b u s
  show "\<exists>u'. umac3_sign 33 (dlogger_config 1 True) (e\<lparr>ae_tail_ok := (\<lambda>_. True)\<rparr>) b u 4 45 3 9 s =
      (u', emit_signed_record (dlogger_config 1 True) (e\<lparr>ae_tail_ok := (\<lambda>_. True)\<rparr>) u' b (b_idx b)
             (compute_umac3_mac (b_d b) 4 45 (le_bytes 8 3 @ le_bytes 8 9)) s) \<and>
    um_poly_key u' = 0 \<and> um_pad_key u' = 0 \<and> um_signed_bytes u' = um_signed_bytes u"
    by (rule probe_tag_is_parser_tag) (simp_all add: MAX_SIGNED_RECORD_BYTES_def)
qed

text \<open>
  (C25) The tag is the pair of fingerprints it is meant to be: without any 64-bit overflow, its two
  halves are, up to the one-time pad, the values of the message polynomial at the two halves of the
  key, modulo \<open>2^32 - 5\<close> and modulo \<open>2^32 - 17\<close>.
\<close>

theorem tag_is_polynomial:
  assumes "0 < n"
  shows "\<exists>(r1 :: u32) (r2 :: u32). compute_umac3_mac d pos n key = (of_le (take 8 (drop 8 key)) XOR ucast r1) XOR push_bit 32 (ucast r2) \<and>
    unat r1 = poly_value (unat (of_le (take 8 key) AND 0xffffffff)) (message_words d pos n) mod (2 ^ 32 - 5) \<and>
    unat r2 = poly_value (unat (drop_bit 32 (of_le (take 8 key)))) (message_words d pos n) mod (2 ^ 32 - 17)"
  unfolding compute_umac3_mac_def by (rule tag_poly [OF assms])

theorem tag_is_polynomial_witness:
  "\<exists>(r1 :: u32) (r2 :: u32). compute_umac3_mac (\<lambda>k. of_nat k) 0 6 [2, 0, 0, 0, 3, 0, 0, 0, 0, 0, 0, 0, 0, 0, 0, 0] =
      ucast r1 XOR push_bit 32 (ucast r2) \<and>
    unat r1 = (50462976 * 2 + 1284) mod (2 ^ 32 - 5) \<and> unat r2 = (50462976 * 3 + 1284) mod (2 ^ 32 - 17)"
proof -
  let ?key = "[2, 0, 0, 0, 3, 0, 0, 0, 0, 0, 0, 0, 0, 0, 0, 0] :: u8 list"
  have k: "of_le (take 8 ?key) = 0x300000002" "of_le (take 8 (drop 8 ?key)) = 0" by simp_all
  have "message_words (\<lambda>k. of_nat k) 0 6 = [50462976, 1284]"
    by (simp add: message_words_def load_u32_le_def upt_rec)
  with k tag_is_polynomial [of 6 "\<lambda>k. of_nat k" 0 ?key] show ?thesis
    by (simp add: poly_value_def)
qed

end
