(* ===== verification/Record_Parser.thy ===== *)
theory Record_Parser
  imports Event_Codes Wire_Parser Umac3
begin

text \<open>
  The record parser \<^verbatim>\<open>src/eParser.C\<close>: one function per kind of record, which reads the fields,
  tells the consumer, checks the tag when the log is verified, and skips the final newline; and
  \<open>parse_buffer\<close>, which finds the records in the input. What the consumer is told is a list of
  calls, one constructor per method of \<^verbatim>\<open>src/eConsumer.h\<close> with its parameter types. Printing is left
  out; an error message is counted.
\<close>

section \<open>Calls of the consumer\<close>

type_synonym cstr = "u8 list"

record event_hdr =
  eh_sc :: u8
  eh_sn :: u16
  eh_ts :: u64
  eh_tid :: s32
  eh_pid :: s32

datatype (plugins only: code) consumer_call =
    C_accRcvfPeer s32 s64 cstr s64
  | C_bind s32 cstr s64
  | C_chdir cstr s64
  | C_fchdir s32 s64 s64
  | C_chmodat s32 s64 cstr s32 s64
  | C_fchmod s32 s64 s32 s64
  | C_chownat s32 s64 cstr s64 s64 s64 s64
  | C_fchown s32 s64 s64 s64 s64
  | C_ent_clone s64
  | C_close s32 s64 s64 s64
  | C_connect s32 s64 cstr s64
  | C_dup s32 s64
  | C_ent_execveat s32 s64 s64 cstr "cstr list" "cstr list"
  | C_ent_exit s32
  | C_init_module cstr s64
  | C_finit_module s32 s64 cstr s32 s64
  | C_ent_kill s32 s32 s32
  | C_linkat s32 s64 cstr s32 s64 cstr s64 s64
  | C_symlinkat cstr s32 s64 cstr s64
  | C_mkdirat s32 s64 cstr s32 s64
  | C_mknodat s32 s64 cstr s32 s32 s64
  | C_mmapex s64 s64 s64 s32 s32 s64
  | C_mount cstr cstr cstr s64 s64
  | C_mprotect s64 s64 s32 s64
  | C_openat s32 cstr s32 s32 s32 s64 s64
  | C_pipe bool s32 s32
  | C_ent_ptrace s64 s32
  | C_read s32 s64 s64
  | C_renameat s32 s64 cstr s32 s64 cstr s64 s64
  | C_rmdir cstr s64
  | C_sendto s32 cstr s64
  | C_setgid s32 s32 s32 s64
  | C_setuid s32 s32 s32 s64
  | C_vmsplice s32 s64 s64
  | C_truncate cstr s64 s64
  | C_ftruncate s32 s64 s64 s32
  | C_umount cstr s64 s64
  | C_unlinkat s32 s64 cstr s64
  | C_write s32 s64 s64
  | C_clone_exit s32 s32 s32 s32 s64
  | C_exec_exit s32 s32 s32 s32 s64
  | C_sc_exit s64

datatype (plugins only: code) consumer_event =
    Cur_time u64
  | Call event_hdr consumer_call

section \<open>State and options\<close>

text \<open>
  Command line options, the compile-time switch, and the expansion of a seed to a batch of keys
  (\<open>generate_signing_keys\<close> of \<^verbatim>\<open>src/keygen.c\<close>): the key with the given number.
\<close>

record pconf =
  pc_long_seqnum :: bool
  pc_use_procid :: bool
  pc_verifyLog :: bool
  pc_TAMPER_DETECT :: bool
  pc_signing_keys :: "u8 list \<Rightarrow> nat \<Rightarrow> u8 list"

record rstate =
  rs_p :: pstate
  rs_sn :: u32
  rs_current_rec :: nat
  rs_exit_op :: bool
  rs_no_entry :: bool
  rs_out_of_sync :: bool
  rs_kernel_ts_msb :: u64
  rs_entry_rec :: nat
  rs_exit_rec :: nat
  rs_tsms_rec :: nat
  rs_tsms_rec1 :: nat
  rs_tsdiff_rec :: nat
  rs_err_rec :: nat
  rs_exit_errs :: nat
  rs_skipped :: nat
  rs_errmsgs :: nat
  rs_sc_count :: "u8 \<Rightarrow> nat"
  rs_scexit_count :: "u8 \<Rightarrow> nat"
  rs_tamper_windows :: nat
  rs_tamper_totlags :: "u64 \<times> u64 \<times> u64"
  rs_tamper_lags :: "(u64 \<times> u64 \<times> u64) list"
  rs_tamper_period :: "u64 list"
  rs_cgroup_paths :: "u64 \<rightharpoonup> cstr"
  rs_initial_seed_embedded :: bool
  rs_verifier_batch_count :: nat
  rs_keys_lo :: "nat \<Rightarrow> u8 list"
  rs_keys_hi :: "nat \<Rightarrow> u8 list"
  rs_log_tampered :: bool
  rs_n_tampered_events :: nat
  rs_events :: "consumer_event list"

text \<open>A handler does not return (\<open>Crash\<close>), or returns with its success, cursor and state.\<close>

datatype hres = Crash | Ret bool nat rstate

type_synonym rhandler = "pconf \<Rightarrow> mem \<Rightarrow> nat \<Rightarrow> nat \<Rightarrow> rstate \<Rightarrow> hres"

definition errmsg :: "rstate \<Rightarrow> rstate" where
  "errmsg r = r\<lparr>rs_errmsgs := rs_errmsgs r + 1\<rparr>"

definition set_sctype :: "sctype \<Rightarrow> rstate \<Rightarrow> rstate" where
  "set_sctype t r = r\<lparr>rs_p := (rs_p r)\<lparr>ps_cur_sctype := t\<rparr>\<rparr>"

definition str_at :: "rstate \<Rightarrow> nat \<Rightarrow> cstr" where
  "str_at r s = c_string PBUFSIZE (ps_strbuf (rs_p r)) s"

definition data_at :: "rstate \<Rightarrow> nat \<Rightarrow> nat \<Rightarrow> u8 list" where
  "data_at r d n = slice (ps_strbuf (rs_p r)) d n"

definition hdr_of :: "u8 \<Rightarrow> rstate \<Rightarrow> event_hdr" where
  "hdr_of sc r = \<lparr>eh_sc = sc, eh_sn = ucast (rs_sn r), eh_ts = ps_clk_ts (rs_p r), eh_tid = ps_tid (rs_p r),
                  eh_pid = ps_pid (rs_p r)\<rparr>"

definition tell :: "u8 \<Rightarrow> consumer_call \<Rightarrow> rstate \<Rightarrow> rstate" where
  "tell sc ev r = r\<lparr>rs_events := rs_events r @ [Call (hdr_of sc r) ev]\<rparr>"

definition count_err :: "s64 \<Rightarrow> rstate \<Rightarrow> rstate" where
  "count_err ret r = (if is_err ret then r\<lparr>rs_exit_errs := rs_exit_errs r + 1\<rparr> else r)"

section \<open>Seeds and tags\<close>

definition SIGNING_KEY_BATCH_SIZE :: nat where "SIGNING_KEY_BATCH_SIZE = 131072"
definition SIGNING_KEY_RING_SIZE :: nat where "SIGNING_KEY_RING_SIZE = 2 * SIGNING_KEY_BATCH_SIZE"
definition SIGNING_KEY_SIZE :: nat where "SIGNING_KEY_SIZE = 16"
definition SIGNED_RECORD_LEN_SIZE :: nat where "SIGNED_RECORD_LEN_SIZE = 2"
definition SIGNED_RECORD_MAC_SIZE :: nat where "SIGNED_RECORD_MAC_SIZE = 8"

definition regenerate_signing_key_batch :: "pconf \<Rightarrow> mem \<Rightarrow> nat \<Rightarrow> (nat \<Rightarrow> u8 list) \<Rightarrow> nat \<Rightarrow> u8 list" where
  "regenerate_signing_key_batch c m seed keys =
     (if pc_TAMPER_DETECT c then pc_signing_keys c (slice m seed SIGNING_KEY_SIZE) else keys)"

definition note_seed :: "pconf \<Rightarrow> mem \<Rightarrow> nat \<Rightarrow> rstate \<Rightarrow> rstate" where
  "note_seed c m seed r =
     (if \<not> rs_initial_seed_embedded r
      then r\<lparr>rs_initial_seed_embedded := True,
             rs_keys_lo := regenerate_signing_key_batch c m seed (rs_keys_lo r), rs_verifier_batch_count := 1\<rparr>
      else let r' = (if rs_verifier_batch_count r mod 2 = 1
                     then r\<lparr>rs_keys_hi := regenerate_signing_key_batch c m seed (rs_keys_hi r)\<rparr>
                     else r\<lparr>rs_keys_lo := regenerate_signing_key_batch c m seed (rs_keys_lo r)\<rparr>)
           in r'\<lparr>rs_verifier_batch_count := rs_verifier_batch_count r + 1\<rparr>)"

text \<open>The position of the tag, the number of signed bytes, and the end of the signed fields.\<close>

record crypto =
  cr_mac_tag :: "nat option"
  cr_signed_payload_bytes :: nat
  cr_signed_payload_end :: nat

text \<open>\<open>get_binary\<close> on the parser's own state.\<close>

definition rget_binary :: "mem \<Rightarrow> nat \<Rightarrow> nat \<Rightarrow> rstate \<Rightarrow> (nat \<times> nat) option \<times> nat \<times> rstate" where
  "rget_binary m q p r =
     (case get_binary m q p (rs_p r) of
        Got v p st \<Rightarrow> (Some v, p, r\<lparr>rs_p := st\<rparr>)
      | Fail p st \<Rightarrow> (None, p, r\<lparr>rs_p := st\<rparr>)
      | Abort \<Rightarrow> (None, p, r))"

definition read_seed :: "pconf \<Rightarrow> mem \<Rightarrow> nat \<Rightarrow> nat \<Rightarrow> rstate \<Rightarrow> bool \<times> nat \<times> rstate" where
  "read_seed c m q p r =
     (if m p = SIGNING_KEY_SEED_REC
      then case rget_binary m q (p + 1) r of
             (None, p, r) \<Rightarrow> (False, p, r)
           | (Some (d, n), p, r) \<Rightarrow> (True, p, if pc_verifyLog c then note_seed c m d r else r)
      else (True, p, r))"

definition read_mac :: "pconf \<Rightarrow> mem \<Rightarrow> nat \<Rightarrow> nat \<Rightarrow> rstate \<Rightarrow> (nat option \<times> nat) option \<times> nat \<times> rstate" where
  "read_mac c m q p r =
     (if m p = SIGNED_RECORD_MAC_REC
      then case rget_binary m q (p + 1) r of
             (None, p, r) \<Rightarrow> (None, p, r)
           | (Some (d, n), p, r) \<Rightarrow>
               (if \<not> pc_verifyLog c then (Some (Some d, 0), p, r)
                else if n \<noteq> SIGNED_RECORD_TRAILER_SIZE then (None, p, r)
                else (Some (Some (d + SIGNED_RECORD_LEN_SIZE), unat (m d) + 256 * unat (m (d + 1))), p, r))
      else (Some (None, 0), p, r))"

definition read_record_crypto_fields :: "pconf \<Rightarrow> mem \<Rightarrow> nat \<Rightarrow> nat \<Rightarrow> rstate \<Rightarrow> crypto option \<times> nat \<times> rstate" where
  "read_record_crypto_fields c m q p0 r =
     (case read_seed c m q p0 r of
        (False, p, r) \<Rightarrow> (None, p, r)
      | (True, p, r) \<Rightarrow>
          (case read_mac c m q p r of
             (None, p, r) \<Rightarrow> (None, p, r)
           | (Some (t, n), p, r) \<Rightarrow>
               (Some \<lparr>cr_mac_tag = t, cr_signed_payload_bytes = n, cr_signed_payload_end = p0\<rparr>, p, r)))"

definition get_signing_key_for_sn :: "rstate \<Rightarrow> nat \<Rightarrow> u8 list" where
  "get_signing_key_for_sn r sn =
     (if sn < SIGNING_KEY_BATCH_SIZE then rs_keys_lo r sn else rs_keys_hi r (sn - SIGNING_KEY_BATCH_SIZE))"

definition verify_record_mac :: "pconf \<Rightarrow> mem \<Rightarrow> nat \<Rightarrow> nat \<Rightarrow> nat \<Rightarrow> rstate \<Rightarrow> bool" where
  "verify_record_mac c m n pend tag r \<longleftrightarrow>
     \<not> (n = 0 \<or> rs_current_rec r + n > pend) \<and>
     (if pc_TAMPER_DETECT c
      then compute_umac3_mac m (rs_current_rec r) n (get_signing_key_for_sn r (unat (rs_sn r))) else 0) =
     of_le (slice m tag SIGNED_RECORD_MAC_SIZE)"

definition mark_record_tampered :: "rstate \<Rightarrow> rstate" where
  "mark_record_tampered r = r\<lparr>rs_log_tampered := True, rs_n_tampered_events := rs_n_tampered_events r + 1\<rparr>"

definition verify_record_crypto_fields :: "pconf \<Rightarrow> mem \<Rightarrow> crypto \<Rightarrow> rstate \<Rightarrow> rstate" where
  "verify_record_crypto_fields c m k r =
     (case cr_mac_tag k of
        None \<Rightarrow> r
      | Some tag \<Rightarrow>
          (if \<not> pc_verifyLog c \<or> \<not> rs_initial_seed_embedded r \<or> SIGNING_KEY_RING_SIZE \<le> unat (rs_sn r) then r
           else if verify_record_mac c m (cr_signed_payload_bytes k) (cr_signed_payload_end k) tag r then r
           else mark_record_tampered r))"

section \<open>One record\<close>

text \<open>What follows the fields: seed and tag, the call of the consumer, the check, the newline.\<close>

definition record_end :: "(rstate \<Rightarrow> rstate) \<Rightarrow> rhandler" where
  "record_end report c m q p r =
     (case read_record_crypto_fields c m q p r of
        (None, p, r) \<Rightarrow> Ret False p r
      | (Some k, p, r) \<Rightarrow>
          (let r = verify_record_crypto_fields c m k (report r);
               r = (if m p \<noteq> 10 then errmsg r else r)
           in Ret True (p + 1) r))"

text \<open>
  A handler: the fields are read by \<open>rd\<close>; \<open>note_err\<close> is done before the seed and the tag are read,
  \<open>report\<close> after.
\<close>

definition with_fields ::
  "'a reader \<Rightarrow> ('a \<Rightarrow> rstate \<Rightarrow> rstate) \<Rightarrow> ('a \<Rightarrow> rstate \<Rightarrow> rstate) \<Rightarrow> rhandler" where
  "with_fields rd note_err report c m q p r =
     (case rd m q p (rs_p r) of
        Abort \<Rightarrow> Crash
      | Fail p st \<Rightarrow> Ret False p (r\<lparr>rs_p := st\<rparr>)
      | Got v p st \<Rightarrow> record_end (report v) c m q p (note_err v (r\<lparr>rs_p := st\<rparr>)))"

abbreviation no_note :: "'a \<Rightarrow> rstate \<Rightarrow> rstate" where
  "no_note \<equiv> \<lambda>_ r. r"

definition exit_open :: "rhandler" where
  "exit_open c m q p r =
     with_fields get_str_long5 no_note
       (\<lambda>(fn, md_fl, at, ret, at_id, ret_id) r. tell OPEN_EX (C_openat (to_int at) (str_at r fn) (to_int (md_fl AND 0xffffffff))
         (to_int (signed_drop_bit 32 md_fl)) (to_int ret) at_id ret_id) r)
       c m q p r"

definition exit_sc :: "u8 \<Rightarrow> rhandler" where
  "exit_sc sc c m q p r =
     with_fields get_long1 (\<lambda>ret. count_err ret)
       (\<lambda>ret r. tell sc (C_sc_exit ret) r)
       c m q p (r\<lparr>rs_no_entry := False\<rparr>)"

definition enter_close :: "rhandler" where
  "enter_close c m q p r =
     with_fields get_long3 no_note
       (\<lambda>(fd, unrep_rd, unrep_wr) r. tell CLOSE_EN (C_close (to_int fd) unrep_rd unrep_wr 0) r)
       c m q p (r\<lparr>rs_exit_op := False\<rparr>)"

definition exit_dup :: "u8 \<Rightarrow> rhandler" where
  "exit_dup sc c m q p r =
     with_fields get_long2 no_note
       (\<lambda>(fd, ret) r. tell sc (C_dup (to_int fd) ret) r)
       c m q p r"

definition exit_pipe :: "u8 \<Rightarrow> rhandler" where
  "exit_pipe sc c m q p r =
     with_fields get_long1 (\<lambda>ret. count_err ret)
       (\<lambda>ret r. tell sc (C_pipe (sc = SOCKPAIR_EX) (to_int ret) (to_int (signed_drop_bit 32 ret))) r)
       c m q p r"

definition exit_read :: "rhandler" where
  "exit_read c m q p r =
     with_fields get_long3 no_note
       (\<lambda>(fd, oid, ret) r. tell READ_EX (C_read (to_int fd) oid ret) r)
       c m q p r"

definition exitt_saddr :: "u8 \<Rightarrow> rhandler" where
  "exitt_saddr sc c m q p r =
     with_fields get_data_long3 (\<lambda>(saddr, slen, fd, ret, oid). count_err ret)
       (\<lambda>(saddr, slen, fd, ret, oid) r. tell sc (C_accRcvfPeer (to_int fd) oid (data_at r saddr slen) ret) r)
       c m q p r"

definition exit_connect :: "rhandler" where
  "exit_connect c m q p r =
     with_fields get_data_long3 no_note
       (\<lambda>(saddr, slen, fd, oid, ret) r. tell CONNECT_EX (C_connect (to_int fd) oid (data_at r saddr slen) ret) r)
       c m q p r"

definition exit_bind :: "rhandler" where
  "exit_bind c m q p r =
     with_fields get_data_long2 no_note
       (\<lambda>(saddr, slen, fd, ret) r. tell BIND_EX (C_bind (to_int fd) (data_at r saddr slen) ret) r)
       c m q p r"

definition exit_sendto :: "rhandler" where
  "exit_sendto c m q p r =
     with_fields get_data_long2 no_note
       (\<lambda>(saddr, slen, fd, ret) r. tell SENDTO_EX (C_sendto (to_int fd) (data_at r saddr slen) ret) r)
       c m q p r"

definition exit_write :: "rhandler" where
  "exit_write c m q p r =
     with_fields get_long3 no_note
       (\<lambda>(fd, oid, ret) r. tell WRITE_EX (C_write (to_int fd) oid ret) r)
       c m q p r"

definition exit_truncate :: "rhandler" where
  "exit_truncate c m q p r =
     with_fields get_str_long2 no_note
       (\<lambda>(fn, len, ret) r. tell TRUNC_EX (C_truncate (str_at r fn) len ret) r)
       c m q p r"

definition exit_ftruncate :: "rhandler" where
  "exit_ftruncate c m q p r =
     with_fields get_long3 no_note
       (\<lambda>(oid, len, ret) r. tell FTRUNC_EX (C_ftruncate (to_int (signed_drop_bit 1 ret)) oid len (if ret AND 1 \<noteq> 0 then - 1 else 0)) r)
       c m q p r"

definition exit_mmap :: "rhandler" where
  "exit_mmap c m q p r =
     with_fields get_long5 (\<lambda>(oid, addr, len, flags, ret). count_err ret)
       (\<lambda>(oid, addr, len, flags, ret) r. tell MMAP_EX (C_mmapex oid addr len (to_int (flags AND 7)) (to_int (drop_bit 32 flags)) ret) r)
       c m q p (set_sctype SC_IMPORTANT r)"

text \<open>The thread is reset around the record to force a new line of output; the consumer is not told.\<close>

definition error_entry :: rhandler where
  "error_entry c m q p r =
     (case with_fields get_long2 no_note no_note c m q p (r\<lparr>rs_p := (rs_p r)\<lparr>ps_last_tid := 0\<rparr>\<rparr>) of
        Ret True p r \<Rightarrow> Ret True p (r\<lparr>rs_p := (rs_p r)\<lparr>ps_tid := 0\<rparr>\<rparr>)
      | res \<Rightarrow> res)"

definition exit_mprotect :: "rhandler" where
  "exit_mprotect c m q p r =
     with_fields get_long3 no_note
       (\<lambda>(addr, len, ret) r. tell MPROTECT_EX (C_mprotect addr len (to_int (ret AND 0xffffffff)) (signed_drop_bit 32 ret)) r)
       c m q p (set_sctype SC_IMPORTANT r)"

definition exit_unlink :: "rhandler" where
  "exit_unlink c m q p r =
     with_fields get_str_long3 no_note
       (\<lambda>(fn, fd, oid, ret) r. tell UNLINK_EX (C_unlinkat (to_int fd) oid (str_at r fn) ret) r)
       c m q p (set_sctype SC_IMPORTANT r)"

definition exit_mkdir :: "rhandler" where
  "exit_mkdir c m q p r =
     with_fields get_str_long3 no_note
       (\<lambda>(fn, fd, oid, ret) r. tell MKDIR_EX (C_mkdirat (to_int fd) oid (str_at r fn) (to_int (signed_drop_bit 32 ret)) (to_long (to_int ret))) r)
       c m q p r"

text \<open>\<open>(char)ret\<close>\<close>

definition char_val :: "s64 \<Rightarrow> s64" where
  "char_val ret = scast (ucast ret :: u8)"

definition exit_mknod :: "rhandler" where
  "exit_mknod c m q p r =
     with_fields get_str_long4 no_note
       (\<lambda>(fn, fd, dev, ret, oid) r. tell MKNOD_EX (C_mknodat (to_int fd) oid (str_at r fn) (to_int (signed_drop_bit 8 ret)) (to_int dev) (char_val ret)) r)
       c m q p r"

definition exit_rmdir :: "rhandler" where
  "exit_rmdir c m q p r =
     with_fields get_str_long1 no_note
       (\<lambda>(fn, ret) r. tell RMDIR_EX (C_rmdir (str_at r fn) ret) r)
       c m q p r"

definition exit_chdir :: "rhandler" where
  "exit_chdir c m q p r =
     with_fields get_str_long1 no_note
       (\<lambda>(fn, ret) r. tell CHDIR_EX (C_chdir (str_at r fn) ret) r)
       c m q p (set_sctype SC_IMPORTANT r)"

definition exit_fchdir :: "rhandler" where
  "exit_fchdir c m q p r =
     with_fields get_long3 no_note
       (\<lambda>(fd, oid, ret) r. tell FCHDIR_EX (C_fchdir (to_int fd) oid ret) r)
       c m q p (set_sctype SC_IMPORTANT r)"

definition exit_link :: "rhandler" where
  "exit_link c m q p r =
     with_fields get_str2_long5 no_note
       (\<lambda>(s1, s2, ofd, nfd, ret, oid, nid) r. tell LINK_EX (C_linkat (to_int ofd) oid (str_at r s1) (to_int nfd) nid (str_at r s2)
         (signed_drop_bit 32 ret) (to_long (to_int ret))) r)
       c m q p (set_sctype SC_IMPORTANT r)"

definition exit_chown :: "rhandler" where
  "exit_chown c m q p r =
     with_fields get_str_long5 no_note
       (\<lambda>(s1, fd, user, grp, oid, ret) r. tell CHOWN_EX (C_chownat (to_int fd) oid (str_at r s1) user grp (signed_drop_bit 8 ret) (char_val ret)) r)
       c m q p (set_sctype SC_IMPORTANT r)"

definition exit_fchown :: "rhandler" where
  "exit_fchown c m q p r =
     with_fields get_long4 no_note
       (\<lambda>(user, grp, ret, oid) r. tell FCHOWN_EX (C_fchown (to_int (signed_drop_bit 8 ret)) oid user grp (char_val ret)) r)
       c m q p (set_sctype SC_IMPORTANT r)"

definition exit_mount :: "rhandler" where
  "exit_mount c m q p r =
     with_fields get_str3_long2 no_note
       (\<lambda>(src, dst, fstp, flags, ret) r. tell MOUNT_EX (C_mount (str_at r src) (str_at r dst) (str_at r fstp) flags ret) r)
       c m q p (set_sctype SC_IMPORTANT r)"

definition exit_umount :: "rhandler" where
  "exit_umount c m q p r =
     with_fields get_str_long2 no_note
       (\<lambda>(s1, flags, ret) r. tell UMOUNT_EX (C_umount (str_at r s1) flags ret) r)
       c m q p (set_sctype SC_IMPORTANT r)"

definition exit_symlink :: "rhandler" where
  "exit_symlink c m q p r =
     with_fields get_str2_long3 no_note
       (\<lambda>(s1, s2, fd, oid, ret) r. tell SYMLINK_EX (C_symlinkat (str_at r s1) (to_int fd) oid (str_at r s2) ret) r)
       c m q p (set_sctype SC_IMPORTANT r)"

definition exit_rename :: "rhandler" where
  "exit_rename c m q p r =
     with_fields get_str2_long5 no_note
       (\<lambda>(s1, s2, ofd, nfd, ret, oid, nid) r. tell RENAME_EX (C_renameat (to_int ofd) oid (str_at r s1) (to_int nfd) nid (str_at r s2)
         (signed_drop_bit 32 ret) (to_long (to_int ret))) r)
       c m q p (set_sctype SC_IMPORTANT r)"

definition exit_vmsplice :: "rhandler" where
  "exit_vmsplice c m q p r =
     with_fields get_long3 no_note
       (\<lambda>(fd, oid, ret) r. tell VMSPLICE_EX (C_vmsplice (to_int fd) oid ret) r)
       c m q p (set_sctype SC_IMPORTANT r)"

definition enter_kill :: "rhandler" where
  "enter_kill c m q p r =
     with_fields get_long2 no_note
       (\<lambda>(pid_tgid, sig) r. tell KILL_EX (C_ent_kill (to_int (pid_tgid AND 0xffffffff)) (to_int (signed_drop_bit 32 pid_tgid)) (to_int sig)) r)
       c m q p ((set_sctype SC_CRITICAL r)\<lparr>rs_exit_op := False\<rparr>)"

definition enter_ptrace :: "rhandler" where
  "enter_ptrace c m q p r =
     with_fields get_long2 no_note
       (\<lambda>(req, target_tid) r. tell PTRACE_EX (C_ent_ptrace req (to_int target_tid)) r)
       c m q p ((set_sctype SC_CRITICAL r)\<lparr>rs_exit_op := False\<rparr>)"

definition exit_chmod :: "rhandler" where
  "exit_chmod c m q p r =
     with_fields get_str_long4 no_note
       (\<lambda>(fn, fd, mode, ret, oid) r. tell CHMOD_EX (C_chmodat (to_int fd) oid (str_at r fn) (to_int mode) ret) r)
       c m q p (set_sctype SC_IMPORTANT r)"

definition exit_fchmod :: "rhandler" where
  "exit_fchmod c m q p r =
     with_fields get_long3 no_note
       (\<lambda>(mode, oid, ret) r. tell FCHMOD_EX (C_fchmod (to_int (signed_drop_bit 8 ret)) oid (to_int mode) (char_val ret)) r)
       c m q p (set_sctype SC_IMPORTANT r)"

definition exit_setuid :: "rhandler" where
  "exit_setuid c m q p r =
     with_fields get_long4 no_note
       (\<lambda>(ruid, euid, suid, ret) r. tell SETUID_EX (C_setuid (to_int ruid) (to_int euid) (to_int suid) ret) r)
       c m q p (set_sctype SC_CRITICAL r)"

definition exit_setgid :: "rhandler" where
  "exit_setgid c m q p r =
     with_fields get_long4 no_note
       (\<lambda>(rgid, egid, sgid, ret) r. tell SETGID_EX (C_setgid (to_int rgid) (to_int egid) (to_int sgid) ret) r)
       c m q p (set_sctype SC_IMPORTANT r)"

definition enter_fork :: "rhandler" where
  "enter_fork c m q p r =
     with_fields get_ts_and_widths no_note
       (\<lambda>_ r. tell FORK_EX (C_ent_clone 0) r)
       c m q p ((set_sctype SC_IMPORTANT r)\<lparr>rs_exit_op := False\<rparr>)"

definition exitt_ids :: "u8 \<Rightarrow> rhandler" where
  "exitt_ids sc c m q p r =
     with_fields get_long3 (\<lambda>(uid_gid, cgroup, ret). count_err (to_long (to_int ret)))
       (\<lambda>(uid_gid, cgroup, ret) r.
          let parent_tid = to_int (drop_bit 32 ret); rv = to_int ret;
              uid = to_int uid_gid; gid = to_int (drop_bit 32 uid_gid)
          in tell sc (if sc = EXECVE_EX then C_exec_exit parent_tid rv uid gid cgroup
                      else C_clone_exit parent_tid rv uid gid cgroup) r)
       c m q p (r\<lparr>rs_no_entry := False\<rparr>)"

definition enter_clone :: "rhandler" where
  "enter_clone c m q p r =
     with_fields get_long1 no_note
       (\<lambda>flags r. tell CLONE_EX (C_ent_clone flags) r)
       c m q p ((set_sctype SC_IMPORTANT r)\<lparr>rs_exit_op := False\<rparr>)"

text \<open>
  The argument and environment strings of \<open>execve\<close>. The high byte of a count is a signed character.
  A negative count, or one of \<open>MAX_ARG\<close>, makes the assignment after the loop write outside the
  array; \<open>None\<close> is that, an assertion that fails, or an access outside the string buffer.
\<close>

definition repl_last_char_strbuf :: "u8 \<Rightarrow> pstate \<Rightarrow> pstate option" where
  "repl_last_char_strbuf ch st =
     (if 0 < ps_strbuf_next st then Some (st\<lparr>ps_strbuf := (ps_strbuf st)(ps_strbuf_next st - 1 := ch)\<rparr>) else None)"

fun get_strings :: "nat \<Rightarrow> nat list reader" where
  "get_strings 0 = preturn []"
| "get_strings (Suc n) = pbind get_string (\<lambda>s. pbind (get_strings n) (\<lambda>ss. preturn (s # ss)))"

definition get_arg_strings :: "nat list reader" where
  "get_arg_strings m q p st =
     (let n = sint (scast (m (p + 1)) * 256 + ucast (m p) :: s32); p = p + 2
      in if n > int MAX_ARG then Fail p st
         else case get_strings (nat n) m q p st of
                Got ss p st \<Rightarrow>
                  (if n < 0 \<or> n = int MAX_ARG then Abort
                   else if n = 0 then Got ss p st
                   else case repl_last_char_strbuf 0 st of None \<Rightarrow> Abort | Some st \<Rightarrow> Got ss p st)
              | Fail p st \<Rightarrow> Fail p st
              | Abort \<Rightarrow> Abort)"

definition get_execve :: "bool \<Rightarrow> (nat \<times> s64 \<times> s64 \<times> s64 \<times> nat list \<times> nat list) reader" where
  "get_execve env_incl =
     pbind get_str_long3 (\<lambda>(fn, flags, fd, oid).
       pbind get_arg_strings (\<lambda>argv.
         pbind (if env_incl then get_arg_strings else preturn []) (\<lambda>envp. preturn (fn, flags, fd, oid, argv, envp))))"

definition enter_execve :: "bool \<Rightarrow> rhandler" where
  "enter_execve env_incl c m q p r =
     with_fields (get_execve env_incl) no_note
       (\<lambda>(fn, flags, fd, oid, argv, envp) r. tell EXECVE_EX
          (C_ent_execveat (to_int fd) oid flags (str_at r fn) (map (str_at r) argv) (map (str_at r) envp)) r)
       c m q p (set_sctype SC_CRITICAL (r\<lparr>rs_exit_op := False\<rparr>))"

definition enter_exit :: "rhandler" where
  "enter_exit c m q p r =
     with_fields get_long1 no_note
       (\<lambda>flags r. tell EXIT_EN (C_ent_exit (to_int flags)) r)
       c m q p ((set_sctype SC_IMPORTANT r)\<lparr>rs_exit_op := False\<rparr>)"

definition enter_exitgrp :: "rhandler" where
  "enter_exitgrp c m q p r =
     with_fields get_long1 no_note
       (\<lambda>flags r. tell EXITGRP_EN (C_ent_exit (to_int flags)) r)
       c m q p ((set_sctype SC_IMPORTANT r)\<lparr>rs_exit_op := False\<rparr>)"

definition exit_finit_module :: "rhandler" where
  "exit_finit_module c m q p r =
     with_fields get_str_long4 no_note
       (\<lambda>(params, fd, flags, ret, oid) r. tell FINITMOD_EX (C_finit_module (to_int fd) oid (str_at r params) (to_int flags) ret) r)
       c m q p (set_sctype SC_CRITICAL r)"

definition exit_init_module :: "rhandler" where
  "exit_init_module c m q p r =
     with_fields get_str_long1 no_note
       (\<lambda>(params, ret) r. tell INITMOD_EX (C_init_module (str_at r params) ret) r)
       c m q p r"

section \<open>Records that are not system calls\<close>

definition MS_REC_OK :: "mem \<Rightarrow> nat \<Rightarrow> bool" where
  "MS_REC_OK m p \<longleftrightarrow> m p = TSMS_EN \<and> m (p + 1) = of_char (CHR ''%'') \<and> m (p + 2) = of_char (CHR ''.'')"

definition GET_TSREC :: "mem \<Rightarrow> nat \<Rightarrow> u64" where
  "GET_TSREC m p = MS_BITS (of_le (slice m p 8))"

definition cgroup_path_rec :: rhandler where
  "cgroup_path_rec c m q p r =
     (let cgroup_id = of_le (slice m p 8)
      in case get_string m q (p + 8) (rs_p r) of
           Abort \<Rightarrow> Crash
         | Fail p st \<Rightarrow> Ret False p (r\<lparr>rs_p := st, rs_exit_op := False\<rparr>)
         | Got s p st \<Rightarrow>
             (let r = r\<lparr>rs_p := st\<rparr>
              in Ret True p (r\<lparr>rs_cgroup_paths := (rs_cgroup_paths r)(cgroup_id \<mapsto> str_at r s), rs_exit_op := False\<rparr>)))"

definition ts_diff_rec :: rhandler where
  "ts_diff_rec c m q p r =
     (let realtime_ts = of_le (slice m p 8); monotonic_ts = of_le (slice m (p + 8) 8)
      in Ret True (p + 16)
           (r\<lparr>rs_tsdiff_rec := rs_tsdiff_rec r + 1,
              rs_p := (rs_p r)\<lparr>ps_clk_kernel_diff := realtime_ts - monotonic_ts\<rparr>,
              rs_events := rs_events r @ [Cur_time realtime_ts], rs_exit_op := False\<rparr>))"

definition ts_kern_rec :: rhandler where
  "ts_kern_rec c m q p r =
     (let st = rs_p r; prev = ps_tamperwin_start st; now = of_le (slice m p 8);
          (tc, ti, tl) = rs_tamper_totlags r;
          lags = (ps_tamper_thisclag st div 1000, ps_tamper_thisilag st div 1000, ps_tamper_thislag st div 1000)
      in Ret True (p + 8)
           (r\<lparr>rs_tsdiff_rec := rs_tsdiff_rec r + 1,
              rs_p := st\<lparr>ps_tamperwin_start := now, ps_tamper_thisclag := 0, ps_tamper_thisilag := 0, ps_tamper_thislag := 0\<rparr>,
              rs_tamper_period := (if prev > 0 then rs_tamper_period r @ [(now - prev) div 1000] else rs_tamper_period r),
              rs_tamper_windows := rs_tamper_windows r + 1,
              rs_tamper_totlags := (tc + ps_tamper_thisclag st, ti + ps_tamper_thisilag st, tl + ps_tamper_thislag st),
              rs_tamper_lags := rs_tamper_lags r @ [lags], rs_exit_op := False\<rparr>))"

definition tsms_rec_ok :: rhandler where
  "tsms_rec_ok c m q p r =
     Ret True (p + 7) (r\<lparr>rs_tsms_rec := rs_tsms_rec r + 1, rs_kernel_ts_msb := GET_TSREC m (p - 1), rs_exit_op := False\<rparr>)"

section \<open>Finding the records\<close>

text \<open>The \<open>switch\<close> on the event code; the cursor is behind the code and the sequence number.\<close>

definition dispatch :: "u8 \<Rightarrow> rhandler" where
  "dispatch sc =
     (if sc = TS_CGROUP_PATH then cgroup_path_rec
      else if sc = TS_DIFF then ts_diff_rec
      else if sc = TS_KERN then ts_kern_rec
      else if sc = TSMS_EN then tsms_rec_ok
      else if sc = CLONE_EN then enter_clone
      else if sc = CLOSE_EN then enter_close
      else if sc = EXIT_EN then enter_exit
      else if sc = EXITGRP_EN then enter_exitgrp
      else if sc = EXECVEE_EN then enter_execve True
      else if sc = EXECVE_EN then enter_execve False
      else if sc = KILL_EN then enter_kill
      else if sc = FORK_EN then enter_fork
      else if sc = PTRACE_EN then enter_ptrace
      else if sc = ACCEPT_EX then exitt_saddr ACCEPT_EX
      else if sc = BIND_EX then exit_bind
      else if sc = CHDIR_EX then exit_chdir
      else if sc = CHMOD_EX then exit_chmod
      else if sc = FCHOWN_EX then exit_fchown
      else if sc = LCHOWN_EX then exit_chown
      else if sc = MOUNT_EX then exit_mount
      else if sc = UMOUNT_EX then exit_umount
      else if sc = CHOWN_EX then exit_chown
      else if sc = CLONE_EX then exitt_ids CLONE_EX
      else if sc = CONNECT_EX then exit_connect
      else if sc = DUP_EX then exit_dup DUP_EX
      else if sc = DUP2_EX then exit_dup DUP2_EX
      else if sc = EXECVE_EX then exitt_ids EXECVE_EX
      else if sc = FCHDIR_EX then exit_fchdir
      else if sc = FCHMOD_EX then exit_fchmod
      else if sc = FORK_EX then exitt_ids FORK_EX
      else if sc = FTRUNC_EX then exit_ftruncate
      else if sc = GETPEER_EX then exitt_saddr GETPEER_EX
      else if sc = KILL_EX then exit_sc KILL_EX
      else if sc = LINK_EX then exit_link
      else if sc = MKDIR_EX then exit_mkdir
      else if sc = MMAP_EX then exit_mmap
      else if sc = ERR_REP then error_entry
      else if sc = MPROTECT_EX then exit_mprotect
      else if sc = OPEN_EX then exit_open
      else if sc = PIPE_EX then exit_pipe PIPE_EX
      else if sc = PTRACE_EX then exit_sc PTRACE_EX
      else if sc = READ_EX then exit_read
      else if sc = RECVFROM_EX then exitt_saddr RECVFROM_EX
      else if sc = RENAME_EX then exit_rename
      else if sc = RMDIR_EX then exit_rmdir
      else if sc = SENDTO_EX then exit_sendto
      else if sc = SETGID_EX then exit_setgid
      else if sc = SETUID_EX then exit_setuid
      else if sc = SOCKPAIR_EX then exit_pipe SOCKPAIR_EX
      else if sc = SYMLINK_EX then exit_symlink
      else if sc = TRUNC_EX then exit_truncate
      else if sc = UNLINK_EX then exit_unlink
      else if sc = WRITE_EX then exit_write
      else if sc = INITMOD_EX then exit_init_module
      else if sc = FINITMOD_EX then exit_finit_module
      else if sc = MKNOD_EX then exit_mknod
      else if sc = VMSPLICE_EX then exit_vmsplice
      else (\<lambda>c m q p r. Ret False p r))"

definition has_seqnum :: "u8 \<Rightarrow> bool" where
  "has_seqnum sc \<longleftrightarrow> sc \<noteq> TS_DIFF \<and> sc \<noteq> TS_KERN \<and> sc \<noteq> TSMS_EN \<and> sc \<noteq> TS_CGROUP_PATH"

text \<open>The sequence number and the processor number behind the event code.\<close>

definition read_seqnum :: "pconf \<Rightarrow> u8 \<Rightarrow> mem \<Rightarrow> nat \<Rightarrow> rstate \<Rightarrow> nat \<times> rstate" where
  "read_seqnum c sc m p r =
     (if has_seqnum sc
      then let n = (if pc_long_seqnum c then 4 else 2);
               r = r\<lparr>rs_sn := ucast (of_le (slice m p n))\<rparr>
           in (p + n + (if pc_use_procid c then 1 else 0), r)
      else (p, r))"

definition count_record :: "u8 \<Rightarrow> rstate \<Rightarrow> rstate" where
  "count_record sc r =
     (if rs_exit_op r
      then r\<lparr>rs_exit_rec := rs_exit_rec r + 1, rs_scexit_count := (rs_scexit_count r)(sc := rs_scexit_count r sc + 1)\<rparr>
      else let r = r\<lparr>rs_entry_rec := rs_entry_rec r + 1\<rparr>
           in if sc \<noteq> TS_DIFF \<and> sc \<noteq> TS_KERN \<and> sc \<noteq> TSMS_EN
              then r\<lparr>rs_sc_count := (rs_sc_count r)(sc := rs_sc_count r sc + 1)\<rparr> else r)"

text \<open>One round of the inner loop of \<open>parse_buffer\<close>; \<open>None\<close>: the program does not go on.\<close>

definition parse_record :: "pconf \<Rightarrow> mem \<Rightarrow> nat \<Rightarrow> nat \<Rightarrow> rstate \<Rightarrow> (nat \<times> rstate) option" where
  "parse_record c m q p r =
     (let r = r\<lparr>rs_exit_op := True, rs_no_entry := True, rs_current_rec := p, rs_p := reset_strbuf (rs_p r)\<rparr>;
          sc = m p
      in if sc = TSMS_EN \<and> \<not> MS_REC_OK m p
         then Some (p, errmsg (set_sctype SC_DEFAULT r)\<lparr>rs_out_of_sync := True\<rparr>)
         else let (p, r) = read_seqnum c sc m (p + 1) r
              in case dispatch sc c m q p (set_sctype SC_DEFAULT r) of
                   Crash \<Rightarrow> None
                 | Ret True p r \<Rightarrow> Some (p, count_record sc r)
                 | Ret False p r \<Rightarrow> Some (p, errmsg (r\<lparr>rs_err_rec := rs_err_rec r + 1\<rparr>)\<lparr>rs_out_of_sync := True\<rparr>))"

text \<open>The search for the next time stamp record, one byte at a time.\<close>

function skip_to_tsms :: "mem \<Rightarrow> nat \<Rightarrow> nat \<Rightarrow> rstate \<Rightarrow> nat \<times> rstate" where
  "skip_to_tsms m q p r =
     (if m p \<noteq> TSMS_EN \<and> p < q then skip_to_tsms m q (p + 1) (r\<lparr>rs_skipped := rs_skipped r + 1\<rparr>) else (p, r))"
  by pat_completeness auto
termination by (relation "measure (\<lambda>(m, q, p, r). q - p)") auto

declare skip_to_tsms.simps [simp del]

definition needs_more :: "bool \<Rightarrow> mem \<Rightarrow> nat \<Rightarrow> nat \<Rightarrow> bool" where
  "needs_more ended m q p \<longleftrightarrow>
     \<not> ended \<and> q \<le> p + (if m p = EXECVE_EN \<or> m p = EXECVEE_EN then BUFSIZE else 512)"

end
