(* ===== verification/Record_Loop.thy ===== *)
theory Record_Loop
  imports Record_Parser
begin

text \<open>
  The loop \<open>parse_buffer\<close> of \<^verbatim>\<open>src/eParser.C\<close>: it reads records while it is in step with the input and
  looks for the next time stamp record when it is not. Every reader and every handler moves the
  cursor forward, which gives termination.
\<close>

section \<open>Readers move forward\<close>

definition advances :: "'a reader \<Rightarrow> bool" where
  "advances rd \<longleftrightarrow> (\<forall>m q p st. case rd m q p st of Abort \<Rightarrow> True | Fail p' _ \<Rightarrow> p \<le> p' | Got _ p' _ \<Rightarrow> p \<le> p')"

named_theorems advance_intros

lemma advancesI:
  "(\<And>m q p st p' st'. rd m q p st = Fail p' st' \<Longrightarrow> p \<le> p') \<Longrightarrow>
   (\<And>m q p st v p' st'. rd m q p st = Got v p' st' \<Longrightarrow> p \<le> p') \<Longrightarrow> advances rd"
  by (auto simp: advances_def split: res.splits)

lemma advancesD:
  assumes "advances rd"
  shows "rd m q p st = Fail p' st' \<Longrightarrow> p \<le> p'" "rd m q p st = Got v p' st' \<Longrightarrow> p \<le> p'"
proof -
  have "case rd m q p st of Abort \<Rightarrow> True | Fail p' _ \<Rightarrow> p \<le> p' | Got _ p' _ \<Rightarrow> p \<le> p'"
    using assms unfolding advances_def by blast
  then show "rd m q p st = Fail p' st' \<Longrightarrow> p \<le> p'" "rd m q p st = Got v p' st' \<Longrightarrow> p \<le> p'" by simp_all
qed

lemma advances_pbind [advance_intros]:
  assumes "advances rd" "\<And>v. advances (f v)"
  shows "advances (pbind rd f)"
  by (rule advancesI) (auto simp: pbind_def split: res.splits dest!: advancesD [OF assms(1)] advancesD [OF assms(2)])

lemma advances_preturn [advance_intros]: "advances (preturn v)"
  by (simp add: advances_def preturn_def)

lemma advances_prod [advance_intros]: "(\<And>a b. advances (f a b)) \<Longrightarrow> advances (case v of (a, b) \<Rightarrow> f a b)"
  by (cases v) simp

lemma advances_get_long: "advances (get_long w)"
  by (auto simp: advances_def get_long_def)

lemma advances_basic [advance_intros]:
  "advances get_a1" "advances get_a2" "advances get_a3" "advances get_long_ex" "advances (get_string_term t)"
  "advances get_data" "advances get_ts_and_widths" "advances get_binary"
proof -
  show "advances get_ts_and_widths"
    unfolding advances_def
  proof (intro allI)
    fix m q p st
    show "case get_ts_and_widths m q p st of Abort \<Rightarrow> True | Fail p' _ \<Rightarrow> p \<le> p' | Got _ p' _ \<Rightarrow> p \<le> p'"
      by (auto simp: get_ts_and_widths_def Let_def get_long_def split: if_splits)
  qed
qed (auto simp: advances_def get_a1_def get_a2_def get_a3_def get_long_ex_def get_string_term_def get_data_def
    get_binary_def get_long_def Let_def split: option.splits)

lemmas record_reader_defs =
  get_long1_def get_long2_def get_long3_def get_long4_def get_long5_def get_str_long1_def get_str_long2_def
  get_str_long3_def get_str_long4_def get_str_long5_def get_str2_long3_def get_str2_long5_def get_str3_long2_def
  get_data_long2_def get_data_long3_def

lemma advances_readers:
  "advances get_long1" "advances get_long2" "advances get_long3" "advances get_long4" "advances get_long5"
  "advances get_str_long1" "advances get_str_long2" "advances get_str_long3" "advances get_str_long4"
  "advances get_str_long5" "advances get_str2_long3" "advances get_str2_long5" "advances get_str3_long2"
  "advances get_data_long2" "advances get_data_long3"
  by (simp_all add: record_reader_defs) (intro advance_intros)+

lemma advances_strings: "advances (get_strings n)"
  by (induction n) (auto intro: advance_intros)

lemma advances_arg_strings: "advances get_arg_strings"
  by (rule advancesI)
    (auto simp: get_arg_strings_def Let_def preturn_def split: if_splits res.splits option.splits dest!: advancesD [OF advances_strings])

lemma advances_execve: "advances (get_execve b)"
  unfolding get_execve_def by (intro advance_intros advances_readers advances_arg_strings) (auto intro: advance_intros advances_arg_strings)

section \<open>Handlers move forward\<close>

definition hadvances :: "rhandler \<Rightarrow> bool" where
  "hadvances h \<longleftrightarrow> (\<forall>c m q p r. case h c m q p r of Crash \<Rightarrow> True | Ret _ p' _ \<Rightarrow> p \<le> p')"

lemma rget_binary_advances: "rget_binary m q p r = (x, p', r') \<Longrightarrow> p \<le> p'"
  by (auto simp: rget_binary_def get_binary_def Let_def split: if_splits)

lemma read_seed_advances: "read_seed c m q p r = (b, p', r') \<Longrightarrow> p \<le> p'"
  using rget_binary_advances [of m q "p + 1" r] by (auto simp: read_seed_def split: if_splits prod.splits option.splits)

lemma read_mac_advances: "read_mac c m q p r = (x, p', r') \<Longrightarrow> p \<le> p'"
  using rget_binary_advances [of m q "p + 1" r] by (auto simp: read_mac_def split: if_splits prod.splits option.splits)

lemma crypto_advances: "read_record_crypto_fields c m q p r = (x, p', r') \<Longrightarrow> p \<le> p'"
  unfolding read_record_crypto_fields_def
  by (auto split: prod.splits bool.splits option.splits dest!: read_seed_advances read_mac_advances)

lemma hadvancesI: "(\<And>c m q p r b p' r'. h c m q p r = Ret b p' r' \<Longrightarrow> p \<le> p') \<Longrightarrow> hadvances h"
  by (auto simp: hadvances_def split: hres.splits)

lemma hadvancesD: "hadvances h \<Longrightarrow> h c m q p r = Ret b p' r' \<Longrightarrow> p \<le> p'"
proof -
  assume "hadvances h" and r: "h c m q p r = Ret b p' r'"
  then have "case h c m q p r of Crash \<Rightarrow> True | Ret _ p' _ \<Rightarrow> p \<le> p'" unfolding hadvances_def by blast
  with r show "p \<le> p'" by simp
qed

lemma hadvances_record_end: "hadvances (record_end f)"
  by (rule hadvancesI) (auto simp: record_end_def Let_def split: prod.splits option.splits dest!: crypto_advances)

lemma hadvances_with_fields:
  assumes "advances rd" shows "hadvances (with_fields rd f g)"
  by (rule hadvancesI)
    (auto simp: with_fields_def split: res.splits dest!: advancesD [OF assms] hadvancesD [OF hadvances_record_end])

lemmas handler_defs =
  exit_open_def exit_sc_def enter_close_def exit_dup_def exit_pipe_def exit_read_def exitt_saddr_def exit_connect_def
  exit_bind_def exit_sendto_def exit_write_def exit_truncate_def exit_ftruncate_def exit_mmap_def exit_mprotect_def
  exit_unlink_def exit_mkdir_def exit_mknod_def exit_rmdir_def exit_chdir_def exit_fchdir_def exit_link_def
  exit_chown_def exit_fchown_def exit_mount_def exit_umount_def exit_symlink_def exit_rename_def exit_vmsplice_def
  enter_kill_def enter_ptrace_def exit_chmod_def exit_fchmod_def exit_setuid_def exit_setgid_def enter_fork_def
  exitt_ids_def enter_clone_def enter_execve_def enter_exit_def enter_exitgrp_def exit_finit_module_def
  exit_init_module_def

text \<open>Every handler is a reader and a report, up to its changes of the state before it reads.\<close>

lemma hadvances_with:
  assumes "\<And>c m q p r. h c m q p r = with_fields rd f g c m q p (k r)" "advances rd"
  shows "hadvances h"
  using hadvances_with_fields [OF assms(2), of f g] by (simp add: hadvances_def assms(1))

lemma hadvances_handlers:
  "hadvances exit_open" "hadvances (exit_sc n)" "hadvances enter_close" "hadvances (exit_dup n)" "hadvances (exit_pipe n)"
  "hadvances exit_read" "hadvances (exitt_saddr n)" "hadvances exit_connect" "hadvances exit_bind" "hadvances exit_sendto"
  "hadvances exit_write" "hadvances exit_truncate" "hadvances exit_ftruncate" "hadvances exit_mmap"
  "hadvances exit_mprotect" "hadvances exit_unlink" "hadvances exit_mkdir" "hadvances exit_mknod" "hadvances exit_rmdir"
  "hadvances exit_chdir" "hadvances exit_fchdir" "hadvances exit_link" "hadvances exit_chown" "hadvances exit_fchown"
  "hadvances exit_mount" "hadvances exit_umount" "hadvances exit_symlink" "hadvances exit_rename"
  "hadvances exit_vmsplice" "hadvances enter_kill" "hadvances enter_ptrace" "hadvances exit_chmod" "hadvances exit_fchmod"
  "hadvances exit_setuid" "hadvances exit_setgid" "hadvances enter_fork" "hadvances (exitt_ids n)" "hadvances enter_clone"
  "hadvances (enter_execve b)" "hadvances enter_exit" "hadvances enter_exitgrp" "hadvances exit_finit_module"
  "hadvances exit_init_module"
  by (rule hadvances_with, rule handler_defs, rule advances_readers advances_execve advances_basic)+

lemma hadvances_error_entry: "hadvances error_entry"
  by (rule hadvancesI)
    (auto simp: error_entry_def split: hres.splits bool.splits
      dest!: hadvancesD [OF hadvances_with_fields [OF advances_readers(2)]])

lemma hadvances_others: "hadvances cgroup_path_rec" "hadvances ts_diff_rec" "hadvances ts_kern_rec" "hadvances tsms_rec_ok"
proof -
  show "hadvances cgroup_path_rec"
    by (rule hadvancesI)
      (auto simp: cgroup_path_rec_def Let_def split: res.splits dest!: advancesD [OF advances_basic(5)])
qed (simp_all add: hadvances_def ts_diff_rec_def ts_kern_rec_def tsms_rec_ok_def Let_def split: prod.splits)

lemma hadvances_dispatch: "hadvances (dispatch sc)"
  unfolding dispatch_def
  by (simp only: if_split hadvances_handlers hadvances_error_entry hadvances_others simp_thms)
    (simp add: hadvances_def)

lemma parse_record_advances:
  "parse_record c m q p r = Some (p', r') \<Longrightarrow> p < p' \<or> p' = p \<and> rs_out_of_sync r'"
proof -
  assume a: "parse_record c m q p r = Some (p', r')"
  let ?r = "r\<lparr>rs_exit_op := True, rs_no_entry := True, rs_current_rec := p, rs_p := reset_strbuf (rs_p r)\<rparr>"
  obtain p1 r1 where s: "read_seqnum c (m p) m (p + 1) ?r = (p1, r1)" by (cases "read_seqnum c (m p) m (p + 1) ?r")
  then have "p < p1" by (auto simp: read_seqnum_def Let_def split: if_splits)
  moreover have "case dispatch (m p) c m q p1 (set_sctype SC_DEFAULT r1) of Crash \<Rightarrow> True | Ret _ p2 _ \<Rightarrow> p1 \<le> p2"
    using hadvances_dispatch by (simp add: hadvances_def)
  ultimately show ?thesis
    using a s by (auto simp: parse_record_def Let_def split: if_splits hres.splits bool.splits)
qed

section \<open>The loop\<close>

text \<open>
  Both loops in one function: \<open>inner\<close> tells whether the inner loop is entered or the condition of
  the outer loop is tested next. \<open>ended\<close> tells that no more input follows.
\<close>

lemma skip_to_tsms_advances: "skip_to_tsms m q p r = (p', r') \<Longrightarrow> p \<le> p'"
proof (induction m q p r rule: skip_to_tsms.induct)
  case (1 m q p r)
  then show ?case by (subst (asm) (2) skip_to_tsms.simps) (auto split: if_splits)
qed

definition resync :: "mem \<Rightarrow> nat \<Rightarrow> rstate \<Rightarrow> rstate" where
  "resync m p r = r\<lparr>rs_kernel_ts_msb := GET_TSREC m p, rs_out_of_sync := False, rs_tsms_rec1 := rs_tsms_rec1 r + 1\<rparr>"

text \<open>The measure of both loops.\<close>

definition loop_rank :: "nat \<Rightarrow> bool \<Rightarrow> nat \<Rightarrow> bool \<Rightarrow> nat" where
  "loop_rank q inner p oos =
     5 * (q - p) + (if \<not> inner \<and> q \<le> p + 8 then 0 else if inner then (if oos then 2 else 3) else (if oos then 1 else 4))"

function parse_loop :: "pconf \<Rightarrow> bool \<Rightarrow> mem \<Rightarrow> nat \<Rightarrow> bool \<Rightarrow> nat \<Rightarrow> rstate \<Rightarrow> (nat \<times> rstate) option" where
  "parse_loop c ended m q inner p r =
     (if inner
      then if \<not> rs_out_of_sync r \<and> p < q
           then if needs_more ended m q p then Some (p, r)
                else case parse_record c m q p r of
                       None \<Rightarrow> None
                     | Some (p, r) \<Rightarrow> parse_loop c ended m q True p r
           else parse_loop c ended m q False p r
      else if p + 8 < q
           then if rs_out_of_sync r
                then case skip_to_tsms m q p r of (p, r) \<Rightarrow>
                       if q \<le> p then Some (p, r)
                       else if \<not> MS_REC_OK m p
                       then parse_loop c ended m q False (p + 3) (r\<lparr>rs_skipped := rs_skipped r + 4\<rparr>)
                       else parse_loop c ended m q True (p + 8) (resync m p r)
                else parse_loop c ended m q True p r
           else Some (p, r))"
  by pat_completeness auto

termination
proof (relation "measure (\<lambda>(c, ended, m, q, inner, p, r). loop_rank q inner p (rs_out_of_sync r))", goal_cases)
  case 1
  show ?case by simp
next
  case (2 c ended m q inner p r x2 p' r')
  then show ?case using parse_record_advances [of c m q p r p' r'] by (auto simp: loop_rank_def)
next
  case (3 c ended m q inner p r)
  then show ?case by (auto simp: loop_rank_def)
next
  case (4 c ended m q inner p r p' r')
  then show ?case using skip_to_tsms_advances [of m q p r p' r'] by (auto simp: loop_rank_def)
next
  case (5 c ended m q inner p r p' r')
  then show ?case using skip_to_tsms_advances [of m q p r p' r'] by (auto simp: loop_rank_def resync_def)
next
  case (6 c ended m q inner p r)
  then show ?case by (auto simp: loop_rank_def)
qed

declare parse_loop.simps [simp del]

definition parse_buffer :: "pconf \<Rightarrow> bool \<Rightarrow> mem \<Rightarrow> nat \<Rightarrow> nat \<Rightarrow> rstate \<Rightarrow> (nat \<times> rstate) option" where
  "parse_buffer c ended m q p r = parse_loop c ended m q False p r"

definition parse_rec :: "pconf \<Rightarrow> mem \<Rightarrow> nat \<Rightarrow> rstate \<Rightarrow> (nat \<times> rstate) option" where
  "parse_rec c m len r = parse_buffer c True m len 0 r"

end
