(* ===== verification/Record_Events.thy ===== *)
theory Record_Events
  imports Wire_Roundtrip Record_Loop
begin

text \<open>
  From the bytes of a record to the call of the consumer: what \<open>parse_record\<close> does with the records
  the probe writes.
\<close>

section \<open>What a record means\<close>

text \<open>The bytes behind a string pointer, at most 127, and those of a block of data.\<close>

definition str_val :: "audit_env \<Rightarrow> u64 \<Rightarrow> cstr" where
  "str_val e a = (case ae_str e a of None \<Rightarrow> [] | Some bs \<Rightarrow> take 127 bs)"

definition data_val :: "audit_env \<Rightarrow> u64 \<Rightarrow> s32 \<Rightarrow> u8 list" where
  "data_val e a n = (case probe_read e a (data_len n) of None \<Rightarrow> [] | Some bs \<Rightarrow> bs)"

text \<open>
  The calls of the consumer for a record with code \<open>nm\<close> and arguments \<open>r\<close>, with the code the consumer
  is given; \<open>None\<close> for a combination that the probe does not write.
\<close>

fun record_calls :: "audit_env \<Rightarrow> u8 \<Rightarrow> sc_args \<Rightarrow> (u8 \<times> consumer_call) list option" where
  "record_calls e nm Long0 = (if nm = FORK_EN then Some [(FORK_EX, C_ent_clone 0)] else None)"
| "record_calls e nm (Long1 a1) =
     (if nm = KILL_EX \<or> nm = PTRACE_EX then Some [(nm, C_sc_exit a1)]
      else if nm = CLONE_EN then Some [(CLONE_EX, C_ent_clone a1)]
      else if nm = EXIT_EN \<or> nm = EXITGRP_EN then Some [(nm, C_ent_exit (to_int a1))]
      else None)"
| "record_calls e nm (Long2 a1 a2) =
     (if nm = KILL_EN then Some [(KILL_EX, C_ent_kill (to_int (a1 AND 0xffffffff)) (to_int (signed_drop_bit 32 a1)) (to_int a2))]
      else if nm = PTRACE_EN then Some [(PTRACE_EX, C_ent_ptrace a1 (to_int a2))]
      else if nm = ERR_REP then Some []
      else None)"
| "record_calls e nm (Long3 a1 a2 a3) =
     (if nm = CLOSE_EN then Some [(nm, C_close (to_int a1) a2 a3 0)]
      else if nm = READ_EX then Some [(nm, C_read (to_int a1) a2 a3)]
      else if nm = WRITE_EX then Some [(nm, C_write (to_int a1) a2 a3)]
      else if nm = FTRUNC_EX then Some [(nm, C_ftruncate (to_int (signed_drop_bit 1 a3)) a1 a2 (if a3 AND 1 \<noteq> 0 then - 1 else 0))]
      else if nm = MPROTECT_EX then Some [(nm, C_mprotect a1 a2 (to_int (a3 AND 0xffffffff)) (signed_drop_bit 32 a3))]
      else if nm = FCHDIR_EX then Some [(nm, C_fchdir (to_int a1) a2 a3)]
      else if nm = VMSPLICE_EX then Some [(nm, C_vmsplice (to_int a1) a2 a3)]
      else if nm = FCHMOD_EX then Some [(nm, C_fchmod (to_int (signed_drop_bit 8 a3)) a2 (to_int a1) (char_val a3))]
      else if nm = CLONE_EX \<or> nm = FORK_EX
      then Some [(nm, C_clone_exit (to_int (drop_bit 32 a3)) (to_int a3) (to_int a1) (to_int (drop_bit 32 a1)) a2)]
      else if nm = EXECVE_EX
      then Some [(nm, C_exec_exit (to_int (drop_bit 32 a3)) (to_int a3) (to_int a1) (to_int (drop_bit 32 a1)) a2)]
      else None)"
| "record_calls e nm (Long4 a1 a2 a3 a4) =
     (if nm = FCHOWN_EX then Some [(nm, C_fchown (to_int (signed_drop_bit 8 a3)) a4 a1 a2 (char_val a3))]
      else if nm = SETUID_EX then Some [(nm, C_setuid (to_int a1) (to_int a2) (to_int a3) a4)]
      else if nm = SETGID_EX then Some [(nm, C_setgid (to_int a1) (to_int a2) (to_int a3) a4)]
      else None)"
| "record_calls e nm (Long5 a1 a2 a3 a4 a5) =
     (if nm = MMAP_EX then Some [(nm, C_mmapex a1 a2 a3 (to_int (a4 AND 7)) (to_int (drop_bit 32 a4)) a5)] else None)"
| "record_calls e nm (Str_long1 f a1) =
     (if nm = RMDIR_EX then Some [(nm, C_rmdir (str_val e f) a1)]
      else if nm = CHDIR_EX then Some [(nm, C_chdir (str_val e f) a1)]
      else if nm = INITMOD_EX then Some [(nm, C_init_module (str_val e f) a1)]
      else None)"
| "record_calls e nm (Str_long2 f a1 a2) =
     (if nm = TRUNC_EX then Some [(nm, C_truncate (str_val e f) a1 a2)]
      else if nm = UMOUNT_EX then Some [(nm, C_umount (str_val e f) a1 a2)]
      else None)"
| "record_calls e nm (Str_long3 f a1 a2 a3) =
     (if nm = UNLINK_EX then Some [(nm, C_unlinkat (to_int a1) a2 (str_val e f) a3)]
      else if nm = MKDIR_EX
      then Some [(nm, C_mkdirat (to_int a1) a2 (str_val e f) (to_int (signed_drop_bit 32 a3)) (to_long (to_int a3)))]
      else None)"
| "record_calls e nm (Str_long4 f a1 a2 a3 a4) =
     (if nm = MKNOD_EX
      then Some [(nm, C_mknodat (to_int a1) a4 (str_val e f) (to_int (signed_drop_bit 8 a3)) (to_int a2) (char_val a3))]
      else if nm = CHMOD_EX then Some [(nm, C_chmodat (to_int a1) a4 (str_val e f) (to_int a2) a3)]
      else if nm = FINITMOD_EX then Some [(nm, C_finit_module (to_int a1) a4 (str_val e f) (to_int a2) a3)]
      else None)"
| "record_calls e nm (Str_long5 f a1 a2 a3 a4 a5) =
     (if nm = OPEN_EX
      then Some [(nm, C_openat (to_int a2) (str_val e f) (to_int (a1 AND 0xffffffff)) (to_int (signed_drop_bit 32 a1)) (to_int a3) a4 a5)]
      else if nm = CHOWN_EX
      then Some [(nm, C_chownat (to_int a1) a4 (str_val e f) a2 a3 (signed_drop_bit 8 a5) (char_val a5))]
      else None)"
| "record_calls e nm (Str2_long3 f g a1 a2 a3) =
     (if nm = SYMLINK_EX then Some [(nm, C_symlinkat (str_val e f) (to_int a1) a2 (str_val e g) a3)] else None)"
| "record_calls e nm (Str2_long5 f g a1 a2 a3 a4 a5) =
     (if nm = LINK_EX
      then Some [(nm, C_linkat (to_int a1) a4 (str_val e f) (to_int a2) a5 (str_val e g) (signed_drop_bit 32 a3) (to_long (to_int a3)))]
      else if nm = RENAME_EX
      then Some [(nm, C_renameat (to_int a1) a4 (str_val e f) (to_int a2) a5 (str_val e g) (signed_drop_bit 32 a3) (to_long (to_int a3)))]
      else None)"
| "record_calls e nm (Str3_long2 f g h a1 a2) =
     (if nm = MOUNT_EX then Some [(nm, C_mount (str_val e f) (str_val e g) (str_val e h) a1 a2)] else None)"
| "record_calls e nm (Data_long2 d n a1 a2) =
     (if nm = BIND_EX then Some [(nm, C_bind (to_int a1) (data_val e d n) a2)]
      else if nm = SENDTO_EX then Some [(nm, C_sendto (to_int a1) (data_val e d n) a2)]
      else None)"
| "record_calls e nm (Data_long3 d n a1 a2 a3) =
     (if nm = ACCEPT_EX \<or> nm = GETPEER_EX \<or> nm = RECVFROM_EX then Some [(nm, C_accRcvfPeer (to_int a1) a3 (data_val e d n) a2)]
      else if nm = CONNECT_EX then Some [(nm, C_connect (to_int a1) a2 (data_val e d n) a3)]
      else None)"
| "record_calls e nm _ = None"

definition call_hdr :: "audit_env \<Rightarrow> u64 \<Rightarrow> u64 \<Rightarrow> u8 \<Rightarrow> event_hdr" where
  "call_hdr e diff sn code = \<lparr>eh_sc = code, eh_sn = ucast sn, eh_ts = ae_ktime e + diff, eh_tid = gettid e, eh_pid = getpid e\<rparr>"

definition record_events :: "audit_env \<Rightarrow> u64 \<Rightarrow> u64 \<Rightarrow> u8 \<Rightarrow> sc_args \<Rightarrow> consumer_event list" where
  "record_events e diff sn nm r =
     (case record_calls e nm r of None \<Rightarrow> [] | Some cs \<Rightarrow> map (\<lambda>(code, ev). Call (call_hdr e diff sn code) ev) cs)"

section \<open>Reading one record\<close>

lemma pbind_GotE:
  assumes "pbind r f m q p st = Got x p' st'"
  obtains v p1 st1 where "r m q p st = Got v p1 st1" "f v m q p1 st1 = Got x p' st'"
  using assms by (auto simp: pbind_def split: res.splits)

lemma c_string_longer: "length (c_string n sb i) < n \<Longrightarrow> n \<le> n' \<Longrightarrow> c_string n' sb i = c_string n sb i"
proof (induction n arbitrary: n' i)
  case (Suc n)
  then obtain k where k: "n' = Suc k" by (cases n') auto
  show ?case
  proof (cases "sb i = 0")
    case False
    then have "c_string k sb (i + 1) = c_string n sb (i + 1)"
      using Suc.prems k by (intro Suc.IH) simp_all
    with k show ?thesis by simp
  qed (simp add: k)
qed simp

lemma with_fields_done:
  assumes "rd m q p (rs_p r) = Got v p' st" "m p' = 10"
  shows "with_fields rd f g c m q p r = Ret True (p' + 1) (g v (f v (r\<lparr>rs_p := st\<rparr>)))"
  using assms by (simp add: with_fields_def record_end_def read_record_crypto_fields_def read_seed_def read_mac_def
      verify_record_crypto_fields_def code_values Let_def)

lemma dispatch_simps:
  "dispatch TS_CGROUP_PATH = cgroup_path_rec"
  "dispatch TS_DIFF = ts_diff_rec"
  "dispatch TS_KERN = ts_kern_rec"
  "dispatch TSMS_EN = tsms_rec_ok"
  "dispatch CLONE_EN = enter_clone"
  "dispatch CLOSE_EN = enter_close"
  "dispatch EXIT_EN = enter_exit"
  "dispatch EXITGRP_EN = enter_exitgrp"
  "dispatch EXECVEE_EN = enter_execve True"
  "dispatch EXECVE_EN = enter_execve False"
  "dispatch KILL_EN = enter_kill"
  "dispatch FORK_EN = enter_fork"
  "dispatch PTRACE_EN = enter_ptrace"
  "dispatch ACCEPT_EX = exitt_saddr ACCEPT_EX"
  "dispatch BIND_EX = exit_bind"
  "dispatch CHDIR_EX = exit_chdir"
  "dispatch CHMOD_EX = exit_chmod"
  "dispatch FCHOWN_EX = exit_fchown"
  "dispatch LCHOWN_EX = exit_chown"
  "dispatch MOUNT_EX = exit_mount"
  "dispatch UMOUNT_EX = exit_umount"
  "dispatch CHOWN_EX = exit_chown"
  "dispatch CLONE_EX = exitt_ids CLONE_EX"
  "dispatch CONNECT_EX = exit_connect"
  "dispatch DUP_EX = exit_dup DUP_EX"
  "dispatch DUP2_EX = exit_dup DUP2_EX"
  "dispatch EXECVE_EX = exitt_ids EXECVE_EX"
  "dispatch FCHDIR_EX = exit_fchdir"
  "dispatch FCHMOD_EX = exit_fchmod"
  "dispatch FORK_EX = exitt_ids FORK_EX"
  "dispatch FTRUNC_EX = exit_ftruncate"
  "dispatch GETPEER_EX = exitt_saddr GETPEER_EX"
  "dispatch KILL_EX = exit_sc KILL_EX"
  "dispatch LINK_EX = exit_link"
  "dispatch MKDIR_EX = exit_mkdir"
  "dispatch MMAP_EX = exit_mmap"
  "dispatch ERR_REP = error_entry"
  "dispatch MPROTECT_EX = exit_mprotect"
  "dispatch OPEN_EX = exit_open"
  "dispatch PIPE_EX = exit_pipe PIPE_EX"
  "dispatch PTRACE_EX = exit_sc PTRACE_EX"
  "dispatch READ_EX = exit_read"
  "dispatch RECVFROM_EX = exitt_saddr RECVFROM_EX"
  "dispatch RENAME_EX = exit_rename"
  "dispatch RMDIR_EX = exit_rmdir"
  "dispatch SENDTO_EX = exit_sendto"
  "dispatch SETGID_EX = exit_setgid"
  "dispatch SETUID_EX = exit_setuid"
  "dispatch SOCKPAIR_EX = exit_pipe SOCKPAIR_EX"
  "dispatch SYMLINK_EX = exit_symlink"
  "dispatch TRUNC_EX = exit_truncate"
  "dispatch UNLINK_EX = exit_unlink"
  "dispatch WRITE_EX = exit_write"
  "dispatch INITMOD_EX = exit_init_module"
  "dispatch FINITMOD_EX = exit_finit_module"
  "dispatch MKNOD_EX = exit_mknod"
  "dispatch VMSPLICE_EX = exit_vmsplice"
  by (simp_all add: dispatch_def code_values TSMS_EN_def)

lemma data_bytes_val: "data_bytes e a n = of_nat (length (data_val e a n)) # data_val e a n"
  using length_probe_read [of e a "data_len n"] by (auto simp: data_bytes_def data_val_def split: option.splits)

lemma length_data_val: "length (data_val e a n) \<le> 255"
  using length_probe_read [of e a "data_len n"] data_len_le [of n] by (auto simp: data_val_def split: option.splits)

lemma get_data_bytes:
  assumes "holds m p (data_bytes e a n)" "p + length (data_bytes e a n) < q" "ps_strbuf_next st + 300 < PBUFSIZE"
  shows "\<exists>st'. get_data m q p st = Got (ps_strbuf_next st, length (data_val e a n)) (p + length (data_bytes e a n)) st' \<and>
    slice (ps_strbuf st') (ps_strbuf_next st) (length (data_val e a n)) = data_val e a n \<and> same_header st st'"
proof -
  let ?v = "data_val e a n"
  have mp: "m p = of_nat (length ?v)" and sl: "slice m (p + 1) (length ?v) = ?v"
    using assms(1) unfolding data_bytes_val by (simp_all add: holds_def [of _ "Suc p"])
  have un: "unat (of_nat (length ?v) :: u8) = length ?v"
    using length_data_val [of e a n] by (simp only: unat_of_nat) simp
  define st1 where "st1 = (if length ?v > MAX_DLEN then st\<lparr>ps_trunc_data := ps_trunc_data st + 1\<rparr> else st)"
  define st2 where "st2 = st1\<lparr>ps_strbuf := store (ps_strbuf st1) (ps_strbuf_next st1) ?v, ps_strbuf_next := ps_strbuf_next st1 + length ?v\<rparr>"
  have nx: "ps_strbuf_next st1 = ps_strbuf_next st" by (simp add: st1_def)
  have "rem_spc_strbuf st1 > int (length ?v)"
    using assms(3) length_data_val [of e a n] by (simp add: rem_spc_strbuf_def nx)
  then have "copy2strbuf ?v st1 = Some (ps_strbuf_next st, st2)"
    by (simp add: copy2strbuf_def st2_def nx)
  moreover have "\<not> q \<le> p + 1 + length ?v" using assms(2) by (simp add: data_bytes_val)
  ultimately have "get_data m q p st = Got (ps_strbuf_next st, length ?v) (p + length (data_bytes e a n)) st2"
    unfolding get_data_def Let_def mp un st1_def [symmetric] sl by (simp add: data_bytes_val)
  moreover have "slice (ps_strbuf st2) (ps_strbuf_next st) (length ?v) = ?v" by (simp add: st2_def nx)
  moreover have "same_header st st2" by (simp add: same_header_def knows_header_def st2_def st1_def)
  ultimately show ?thesis by blast
qed

section \<open>From a record to the consumer\<close>

text \<open>A record of the probe in the input of a parser with the options of dlogger.\<close>

definition record_at :: "pconf \<Rightarrow> audit_env \<Rightarrow> mem \<Rightarrow> nat \<Rightarrow> nat \<Rightarrow> u8 \<Rightarrow> u64 \<Rightarrow> sc_args \<Rightarrow> bool" where
  "record_at c e m q p nm sn r \<longleftrightarrow>
     holds m p (record_bytes e nm sn r) \<and> p + length (record_bytes e nm sn r) \<le> q \<and> 0 <s getpid e \<and>
     \<not> pc_long_seqnum c \<and> \<not> pc_use_procid c"

text \<open>What a handler keeps before it tells the consumer.\<close>

definition quiet :: "rstate \<Rightarrow> rstate \<Rightarrow> bool" where
  "quiet R R' \<longleftrightarrow> rs_events R' = rs_events R \<and> rs_sn R' = rs_sn R \<and> rs_out_of_sync R' = rs_out_of_sync R \<and>
     rs_errmsgs R' = rs_errmsgs R \<and> rs_err_rec R' = rs_err_rec R \<and> rs_n_tampered_events R' = rs_n_tampered_events R \<and>
     rs_cgroup_paths R' = rs_cgroup_paths R \<and>
     ps_strbuf_next (rs_p R') = ps_strbuf_next (rs_p R) \<and> ps_clk_kernel_diff (rs_p R') = ps_clk_kernel_diff (rs_p R)"

definition told :: "consumer_event list \<Rightarrow> rstate \<Rightarrow> rstate \<Rightarrow> bool" where
  "told evs R R' \<longleftrightarrow> rs_events R' = rs_events R @ evs \<and> rs_out_of_sync R' = rs_out_of_sync R \<and>
     rs_errmsgs R' = rs_errmsgs R \<and> rs_err_rec R' = rs_err_rec R \<and> rs_n_tampered_events R' = rs_n_tampered_events R \<and>
     rs_cgroup_paths R' = rs_cgroup_paths R \<and> ps_clk_kernel_diff (rs_p R') = ps_clk_kernel_diff (rs_p R)"

text \<open>The fields are read and the header is known.\<close>

definition reads_as :: "'a reader \<Rightarrow> mem \<Rightarrow> nat \<Rightarrow> nat \<Rightarrow> nat \<Rightarrow> audit_env \<Rightarrow> ('a \<Rightarrow> pstate \<Rightarrow> bool) \<Rightarrow> bool" where
  "reads_as rd m q p p' e V \<longleftrightarrow> (\<forall>st. ps_strbuf_next st = 0 \<longrightarrow> (\<exists>v st' ls. rd m q p st = Got v p' st' \<and>
     knows_header e ls st' \<and> ps_clk_kernel_diff st' = ps_clk_kernel_diff st \<and> V v st'))"

text \<open>A handler that goes on after the record has been read.\<close>

definition after :: "(rstate \<Rightarrow> rstate) \<Rightarrow> hres \<Rightarrow> hres" where
  "after w res = (case res of Ret True p r \<Rightarrow> Ret True p (w r) | _ \<Rightarrow> res)"

lemma after_id: "after (\<lambda>r. r) res = res"
  by (auto simp: after_def split: hres.splits bool.splits)

lemma parsed_told:
  assumes at: "record_at c e m q p nm sn r" and seq: "has_seqnum nm"
    and h: "dispatch nm = h" "\<And>q p R. h c m q p R = after w (with_fields rd f g c m q p (k R))"
    and rd: "reads_as rd m q (p + 3) (p + length (record_bytes e nm sn r) - 1) e V"
    and k: "\<And>R. quiet R (k R)"
    and g: "\<And>v R. V v (rs_p R) \<Longrightarrow> told (map (\<lambda>(code, ev). Call (hdr_of code R) ev) cs) R (w (g v (f v R)))"
  shows "\<exists>R'. parse_record c m q p R = Some (p + length (record_bytes e nm sn r), R') \<and>
    told (map (\<lambda>(code, ev). Call (call_hdr e (ps_clk_kernel_diff (rs_p R)) sn code) ev) cs) R R'"
proof -
  let ?n = "length (record_bytes e nm sn r)"
  have mp: "m p = nm" and sq: "slice m (Suc p) 2 = le_bytes 2 sn"
    using at by (simp_all add: record_at_def record_bytes_def holds_def [of _ _ "le_bytes n w" for n w])
  have nl: "m (p + ?n - 1) = 10" and pos: "0 < ?n"
    using at holds_last [of m p "record_bytes e nm sn r"] by (simp_all add: record_at_def record_bytes_def)
  define R1 where "R1 = set_sctype SC_DEFAULT (R\<lparr>rs_exit_op := True, rs_no_entry := True, rs_current_rec := p,
     rs_p := reset_strbuf (rs_p R), rs_sn := ucast (of_le (le_bytes 2 sn))\<rparr>)"
  have q1: "ps_strbuf_next (rs_p (k R1)) = 0" "ps_clk_kernel_diff (rs_p (k R1)) = ps_clk_kernel_diff (rs_p R)"
    "rs_sn (k R1) = ucast (of_le (le_bytes 2 sn))"
    using k [of R1] by (simp_all add: quiet_def R1_def set_sctype_def reset_strbuf_def)
  obtain v st ls where r: "rd m q (p + 3) (rs_p (k R1)) = Got v (p + ?n - 1) st"
    and kh: "knows_header e ls st" "ps_clk_kernel_diff st = ps_clk_kernel_diff (rs_p R)" and V: "V v st"
    using rd q1 unfolding reads_as_def by metis
  let ?R2 = "(k R1)\<lparr>rs_p := st\<rparr>"
  have d: "with_fields rd f g c m q (p + 3) (k R1) = Ret True (p + ?n - 1 + 1) (g v (f v ?R2))"
    by (rule with_fields_done) (rule r, rule nl)
  have "nm \<noteq> TSMS_EN" using seq by (simp add: has_seqnum_def)
  then have pr: "parse_record c m q p R = Some (p + ?n, count_record nm (w (g v (f v ?R2))))"
    using at seq d pos by (simp add: after_def parse_record_def mp read_seqnum_def record_at_def Let_def sq h R1_def numeral_3_eq_3)
  have sn: "(ucast (ucast (of_le (le_bytes 2 sn)) :: u32) :: u16) = ucast sn"
    by (rule bit_word_eqI) (auto simp: of_le_bytes bit_unsigned_iff bit_take_bit_iff)
  have hd: "hdr_of code ?R2 = call_hdr e (ps_clk_kernel_diff (rs_p R)) sn code" for code
    using kh q1(3) sn by (simp add: hdr_of_def call_hdr_def knows_header_def)
  have "told (map (\<lambda>(code, ev). Call (hdr_of code ?R2) ev) cs) R (count_record nm (w (g v (f v ?R2))))"
    using g [of v ?R2] V k [of R1] kh(2)
    by (auto simp: told_def quiet_def R1_def set_sctype_def reset_strbuf_def count_record_def Let_def)
  then show ?thesis using pr hd by simp
qed

text \<open>The strings of a record can be read.\<close>

definition strings_ok :: "audit_env \<Rightarrow> sc_args \<Rightarrow> bool" where
  "strings_ok e r \<longleftrightarrow> list_all (\<lambda>a. case ae_str e a of None \<Rightarrow> False | Some bs \<Rightarrow> 0 \<notin> set bs) (snd (snd (arg_fields r)))"

lemma str_val_at:
  assumes "list_all (\<lambda>a. case ae_str e a of None \<Rightarrow> False | Some bs \<Rightarrow> 0 \<notin> set bs) ps"
  shows "\<exists>bss. list_all2 (user_string e) ps bss \<and> map (take 127) bss = map (str_val e) ps"
  using assms
proof (induction ps)
  case (Cons a ps)
  then obtain bs bss where "ae_str e a = Some bs" "0 \<notin> set bs" "list_all2 (user_string e) ps bss"
    "map (take 127) bss = map (str_val e) ps" by (auto split: option.splits)
  moreover from this have "user_string e a bs" by (simp add: user_string_def)
  ultimately show ?case by (intro exI [of _ "bs # bss"]) (simp add: str_val_def)
qed simp

lemma reads_back:
  assumes at: "record_at c e m q p nm sn r" and r: "has_reader r" "arg_fields r = (ls, xs, ps)" "strings_ok e r"
  shows "reads_as (read_back r) m q (p + 3) (p + length (record_bytes e nm sn r) - 1) e
    (\<lambda>(ls', xs', os) st. ls' = ls \<and> xs' = xs \<and> map (c_string PBUFSIZE (ps_strbuf st)) os = map (str_val e) ps)"
  unfolding reads_as_def
proof (intro allI impI, goal_cases)
  case (1 st)
  obtain bss where b: "list_all2 (user_string e) ps bss" "map (take 127) bss = map (str_val e) ps"
    using str_val_at r(2,3) by (force simp: strings_ok_def)
  obtain os st' where g: "read_back r m q (p + 3) st = Got (ls, xs, os) (p + length (record_bytes e nm sn r) - 1) st'"
    and s: "strings_at st' os = map (take 127) bss" and k: "knows_header e ls st'" "ps_clk_kernel_diff st' = ps_clk_kernel_diff st"
    using read_back_record [OF r(1,2) b(1) _ _ _ 1, of m p nm sn q] at by (auto simp: record_at_def)
  have "c_string PBUFSIZE sb i = c_string 128 sb i" if "c_string 128 sb i \<in> set (map (take 127) bss)" for sb i
  proof (rule c_string_longer)
    show "length (c_string 128 sb i) < 128" using that by auto
  qed (simp add: PBUFSIZE_def BUFSIZE_def)
  then have "map (c_string PBUFSIZE (ps_strbuf st')) os = map (str_val e) ps"
    using s b(2) unfolding strings_at_def by (metis (no_types, lifting) image_eqI list.set_map map_cong)
  with g k show ?case by force
qed

lemma reads_as_pbind:
  assumes "reads_as (pbind rd f) m q p p' e V" "\<And>v. \<exists>x. f v = preturn x"
  shows "reads_as rd m q p p' e (\<lambda>v st. \<exists>x. f v = preturn x \<and> V x st)"
  unfolding reads_as_def
proof (intro allI impI)
  fix st :: pstate assume "ps_strbuf_next st = 0"
  then obtain x st' ls where "pbind rd f m q p st = Got x p' st'" and k: "knows_header e ls st'"
    "ps_clk_kernel_diff st' = ps_clk_kernel_diff st" "V x st'"
    using assms(1) unfolding reads_as_def by blast
  then obtain v p1 st1 where v: "rd m q p st = Got v p1 st1" "f v m q p1 st1 = Got x p' st'"
    by (auto elim: pbind_GotE)
  with assms(2) [of v] have "f v = preturn x \<and> p1 = p' \<and> st1 = st'" by (auto simp: preturn_def)
  with v k show "\<exists>v st' ls. rd m q p st = Got v p' st' \<and> knows_header e ls st' \<and>
      ps_clk_kernel_diff st' = ps_clk_kernel_diff st \<and> (\<exists>x. f v = preturn x \<and> V x st')" by blast
qed

lemma told_reader:
  assumes at: "record_at c e m q p nm sn r" and seq: "has_seqnum nm"
    and h: "dispatch nm = h" "\<And>q p R. h c m q p R = with_fields rd f g c m q p (k R)"
    and b: "read_back r = pbind rd K" "\<And>v. \<exists>x. K v = preturn x" "has_reader r" "strings_ok e r"
    and k: "\<And>R. quiet R (k R)"
    and g: "\<And>v R os. K v = preturn (fst (arg_fields r), fst (snd (arg_fields r)), os) \<Longrightarrow>
        map (str_at R) os = map (str_val e) (snd (snd (arg_fields r))) \<Longrightarrow>
        told (map (\<lambda>(code, ev). Call (hdr_of code R) ev) cs) R (g v (f v R))"
  shows "\<exists>R'. parse_record c m q p R = Some (p + length (record_bytes e nm sn r), R') \<and>
    told (map (\<lambda>(code, ev). Call (call_hdr e (ps_clk_kernel_diff (rs_p R)) sn code) ev) cs) R R'"
proof -
  obtain ls xs ps where a: "arg_fields r = (ls, xs, ps)" by (metis prod_cases3)
  note v = reads_as_pbind [OF reads_back [OF at b(3) a b(4), unfolded b(1)] b(2)]
  show ?thesis
    by (rule parsed_told [where w = "\<lambda>r. r" and f = f and g = g and rd = rd and k = k, OF at seq h(1) _ v k]) (use g in \<open>auto simp: h(2) after_id a str_at_def [abs_def]\<close>)
qed

lemma preturn_inject [simp]: "preturn x = preturn y \<longleftrightarrow> x = y"
  by (auto simp: preturn_def fun_eq_iff)

definition tells_consumer :: "pconf \<Rightarrow> audit_env \<Rightarrow> u8 \<Rightarrow> sc_args \<Rightarrow> bool" where
  "tells_consumer c e nm r \<longleftrightarrow> (\<forall>m q p sn R. record_at c e m q p nm sn r \<longrightarrow> strings_ok e r \<longrightarrow>
     (\<exists>R'. parse_record c m q p R = Some (p + length (record_bytes e nm sn r), R') \<and>
       told (record_events e (ps_clk_kernel_diff (rs_p R)) sn nm r) R R'))"

lemma count_err_simps [simp]:
  "rs_events (count_err a R) = rs_events R" "rs_out_of_sync (count_err a R) = rs_out_of_sync R"
  "rs_errmsgs (count_err a R) = rs_errmsgs R" "rs_err_rec (count_err a R) = rs_err_rec R"
  "rs_n_tampered_events (count_err a R) = rs_n_tampered_events R" "rs_p (count_err a R) = rs_p R"
  "rs_cgroup_paths (count_err a R) = rs_cgroup_paths R"
  "hdr_of code (count_err a R) = hdr_of code R" "str_at (count_err a R) = str_at R" "data_at (count_err a R) = data_at R"
  by (auto simp: count_err_def hdr_of_def str_at_def data_at_def fun_eq_iff)

lemma has_seqnums:
  assumes "record_calls e nm r = Some cs" shows "has_seqnum nm"
  using assms by (cases r) (auto simp: has_seqnum_def code_values TSMS_EN_def split: if_splits)

lemma tells_reader:
  assumes "dispatch nm = h" "\<And>c m q p R. h c m q p R = with_fields rd f g c m q p (k R)"
    and "record_calls e nm r = Some cs" "has_reader r"
    and "read_back r = pbind rd K" "\<And>v. \<exists>x. K v = preturn x" "\<And>R. quiet R (k R)"
    and "\<And>v R os. K v = preturn (fst (arg_fields r), fst (snd (arg_fields r)), os) \<Longrightarrow>
        map (str_at R) os = map (str_val e) (snd (snd (arg_fields r))) \<Longrightarrow>
        told (map (\<lambda>(code, ev). Call (hdr_of code R) ev) cs) R (g v (f v R))"
  shows "tells_consumer c e nm r"
  unfolding tells_consumer_def record_events_def assms(3) option.case
  by (intro allI impI told_reader [where rd = rd and f = f and g = g and k = k and K = K and h = h])
    (use assms has_seqnums [OF assms(3)] in auto)

lemma tells_integers:
  "tells_consumer c e FORK_EN Long0"
  "tells_consumer c e KILL_EX (Long1 a1)"
  "tells_consumer c e PTRACE_EX (Long1 a1)"
  "tells_consumer c e CLONE_EN (Long1 a1)"
  "tells_consumer c e EXIT_EN (Long1 a1)"
  "tells_consumer c e EXITGRP_EN (Long1 a1)"
  "tells_consumer c e KILL_EN (Long2 a1 a2)"
  "tells_consumer c e PTRACE_EN (Long2 a1 a2)"
  "tells_consumer c e CLOSE_EN (Long3 a1 a2 a3)"
  "tells_consumer c e READ_EX (Long3 a1 a2 a3)"
  "tells_consumer c e WRITE_EX (Long3 a1 a2 a3)"
  "tells_consumer c e FTRUNC_EX (Long3 a1 a2 a3)"
  "tells_consumer c e MPROTECT_EX (Long3 a1 a2 a3)"
  "tells_consumer c e FCHDIR_EX (Long3 a1 a2 a3)"
  "tells_consumer c e VMSPLICE_EX (Long3 a1 a2 a3)"
  "tells_consumer c e FCHMOD_EX (Long3 a1 a2 a3)"
  "tells_consumer c e CLONE_EX (Long3 a1 a2 a3)"
  "tells_consumer c e FORK_EX (Long3 a1 a2 a3)"
  "tells_consumer c e EXECVE_EX (Long3 a1 a2 a3)"
  "tells_consumer c e FCHOWN_EX (Long4 a1 a2 a3 a4)"
  "tells_consumer c e SETUID_EX (Long4 a1 a2 a3 a4)"
  "tells_consumer c e SETGID_EX (Long4 a1 a2 a3 a4)"
  "tells_consumer c e MMAP_EX (Long5 a1 a2 a3 a4 a5)"
  by (rule tells_reader, rule dispatch_simps, rule handler_defs, simp add: code_values, simp, rule read_back.simps,
      force simp: split_def, simp add: quiet_def set_sctype_def,
      (auto simp: told_def tell_def code_values Let_def)[1])+

lemma tells_strings:
  "tells_consumer c e RMDIR_EX (Str_long1 f a1)"
  "tells_consumer c e CHDIR_EX (Str_long1 f a1)"
  "tells_consumer c e INITMOD_EX (Str_long1 f a1)"
  "tells_consumer c e TRUNC_EX (Str_long2 f a1 a2)"
  "tells_consumer c e UMOUNT_EX (Str_long2 f a1 a2)"
  "tells_consumer c e UNLINK_EX (Str_long3 f a1 a2 a3)"
  "tells_consumer c e MKDIR_EX (Str_long3 f a1 a2 a3)"
  "tells_consumer c e MKNOD_EX (Str_long4 f a1 a2 a3 a4)"
  "tells_consumer c e CHMOD_EX (Str_long4 f a1 a2 a3 a4)"
  "tells_consumer c e FINITMOD_EX (Str_long4 f a1 a2 a3 a4)"
  "tells_consumer c e OPEN_EX (Str_long5 f a1 a2 a3 a4 a5)"
  "tells_consumer c e CHOWN_EX (Str_long5 f a1 a2 a3 a4 a5)"
  "tells_consumer c e SYMLINK_EX (Str2_long3 f g a1 a2 a3)"
  "tells_consumer c e LINK_EX (Str2_long5 f g a1 a2 a3 a4 a5)"
  "tells_consumer c e RENAME_EX (Str2_long5 f g a1 a2 a3 a4 a5)"
  "tells_consumer c e MOUNT_EX (Str3_long2 f g h a1 a2)"
  by (rule tells_reader, rule dispatch_simps, rule handler_defs, simp add: code_values, simp, rule read_back.simps,
      force simp: split_def, simp add: quiet_def set_sctype_def,
      (auto simp: told_def tell_def code_values Let_def)[1])+

text \<open>Records with a block of data.\<close>

definition reads_data :: "'a reader \<Rightarrow> mem \<Rightarrow> nat \<Rightarrow> nat \<Rightarrow> nat \<Rightarrow> audit_env \<Rightarrow> u8 list \<Rightarrow> (nat \<Rightarrow> 'a) \<Rightarrow> bool" where
  "reads_data rd m q p p' e bs F \<longleftrightarrow> reads_as rd m q p p' e (\<lambda>v st. \<exists>d. v = F d \<and> slice (ps_strbuf st) d (length bs) = bs)"

lemma reads_longs_data:
  assumes at: "record_at c e m q p nm sn r" and r: "data_field r = Some (a, n)" "arg_fields r = (ls, [], [])"
  shows "reads_data (pbind (read_longs (length ls)) (\<lambda>ls. pbind get_data (\<lambda>(d, n). preturn (ls, d, n)))) m q (p + 3)
    (p + length (record_bytes e nm sn r) - 1) e (data_val e a n) (\<lambda>d. (ls, d, length (data_val e a n)))"
  unfolding reads_data_def reads_as_def
proof (intro allI impI, goal_cases)
  case (1 st)
  let ?L = "header_rest e ls @ concat (map long_bytes ls)" and ?D = "data_bytes e a n"
  have rb: "record_bytes e nm sn r = (nm # le_bytes 2 sn) @ ?L @ ?D @ [10]"
    by (simp add: record_bytes_def header_rest_def field_bytes_def r)
  have split: "holds m p (A @ L @ D @ [10]) \<Longrightarrow> length A = 3 \<Longrightarrow> holds m (p + 3) L \<and> holds m (p + 3 + length L) D" for A L D
    by simp
  have h: "holds m (p + 3) ?L" "holds m (p + 3 + length ?L) ?D"
    using at split [of "nm # le_bytes 2 sn" ?L ?D] unfolding record_at_def rb by simp_all
  have len: "length (record_bytes e nm sn r) = 3 + length ?L + length ?D + 1" by (simp add: rb)
  have q: "p + 3 + length ?L + length ?D + 1 \<le> q" using at len by (simp add: record_at_def)
  have pg: "0 <s getpid e" using at by (simp add: record_at_def)
  obtain st1 where g: "read_longs (length ls) m q (p + 3) st = Got ls (p + 3 + length ?L) st1"
    and k: "knows_header e ls st1" "same_strings st st1"
    using read_longs_bytes [OF h(1) fields_size(2) [OF r(2)] pg, of q st] q by auto
  obtain st2 where d: "get_data m q (p + 3 + length ?L) st1 =
      Got (ps_strbuf_next st1, length (data_val e a n)) (p + 3 + length ?L + length ?D) st2"
    and s: "slice (ps_strbuf st2) (ps_strbuf_next st1) (length (data_val e a n)) = data_val e a n" "same_header st1 st2"
    using get_data_bytes [OF h(2), of q st1] q 1 k(2) by (auto simp: same_strings_def PBUFSIZE_def BUFSIZE_def)
  have "pbind (read_longs (length ls)) (\<lambda>ls. pbind get_data (\<lambda>(d, n). preturn (ls, d, n))) m q (p + 3) st =
      Got (ls, ps_strbuf_next st1, length (data_val e a n)) (p + length (record_bytes e nm sn r) - 1) st2"
    using g d len by (simp add: preturn_def add.assoc)
  moreover have "knows_header e ls st2" "ps_clk_kernel_diff st2 = ps_clk_kernel_diff st"
    using k s(2) by (simp_all add: same_header_def same_strings_def)
  ultimately show ?case using s(1) by blast
qed

lemma reads_data_pbind:
  assumes "reads_data (pbind rd f) m q p p' e bs F" "\<And>v. \<exists>x. f v = preturn x"
  shows "reads_as rd m q p p' e (\<lambda>v st. \<exists>d. f v = preturn (F d) \<and> slice (ps_strbuf st) d (length bs) = bs)"
  using reads_as_pbind [OF assms(1) [unfolded reads_data_def] assms(2)] unfolding reads_as_def by blast

lemma tells_data_reader:
  assumes h: "dispatch nm = h" "\<And>c m q p R. h c m q p R = with_fields rd f g c m q p (k R)"
    and r: "record_calls e nm r = Some cs" "data_field r = Some (a, n)" "arg_fields r = (ls, [], [])"
    and K: "pbind rd K = pbind (read_longs (length ls)) (\<lambda>ls. pbind get_data (\<lambda>(d, n). preturn (ls, d, n)))"
      "\<And>v. \<exists>x. K v = preturn x"
    and k: "\<And>R. quiet R (k R)"
    and g: "\<And>v R d. K v = preturn (ls, d, length (data_val e a n)) \<Longrightarrow>
        data_at R d (length (data_val e a n)) = data_val e a n \<Longrightarrow>
        told (map (\<lambda>(code, ev). Call (hdr_of code R) ev) cs) R (g v (f v R))"
  shows "tells_consumer c e nm r"
  unfolding tells_consumer_def record_events_def r(1) option.case
proof (intro allI impI)
  fix m q p sn R
  assume at: "record_at c e m q p nm sn r"
  note v = reads_data_pbind [OF reads_longs_data [OF at r(2,3), folded K(1)] K(2)]
  show "\<exists>R'. parse_record c m q p R = Some (p + length (record_bytes e nm sn r), R') \<and>
      told (map (\<lambda>(code, ev). Call (call_hdr e (ps_clk_kernel_diff (rs_p R)) sn code) ev) cs) R R'"
    by (rule parsed_told [where w = "\<lambda>r. r" and f = f and g = g and rd = rd and k = k,
          OF at has_seqnums [OF r(1)] h(1) _ v k]) (use g in \<open>auto simp: h(2) after_id data_at_def\<close>)
qed

lemma data_readers:
  "pbind get_data_long2 (\<lambda>(d, n, a1, a2). preturn ([a1, a2], d, n)) =
     pbind (read_longs (length [x1, x2])) (\<lambda>ls. pbind get_data (\<lambda>(d, n). preturn (ls, d, n)))"
  "pbind get_data_long3 (\<lambda>(d, n, a1, a2, a3). preturn ([a1, a2, a3], d, n)) =
     pbind (read_longs (length [x1, x2, x3])) (\<lambda>ls. pbind get_data (\<lambda>(d, n). preturn (ls, d, n)))"
  by (simp_all add: read_longs_def record_reader_defs split_def)

lemma tells_data:
  "tells_consumer c e BIND_EX (Data_long2 d n a1 a2)" "tells_consumer c e SENDTO_EX (Data_long2 d n a1 a2)"
  "tells_consumer c e ACCEPT_EX (Data_long3 d n a1 a2 a3)" "tells_consumer c e GETPEER_EX (Data_long3 d n a1 a2 a3)"
  "tells_consumer c e RECVFROM_EX (Data_long3 d n a1 a2 a3)" "tells_consumer c e CONNECT_EX (Data_long3 d n a1 a2 a3)"
  by (rule tells_data_reader, rule dispatch_simps, rule handler_defs, simp add: code_values,
      rule data_field.simps, rule arg_fields.simps, rule data_readers, force simp: split_def, simp add: quiet_def set_sctype_def,
      (auto simp: told_def tell_def code_values Let_def)[1])+

lemma reads_as_weaken: "reads_as rd m q p p' e V \<Longrightarrow> reads_as rd m q p p' e (\<lambda>_ _. True)"
  unfolding reads_as_def by blast

lemma tells_err: "tells_consumer c e ERR_REP (Long2 a1 a2)"
  unfolding tells_consumer_def
proof (intro allI impI)
  fix m q p sn R
  let ?r = "Long2 a1 a2" and ?g = "\<lambda>(v :: s64 \<times> s64) r. r :: rstate"
  assume at: "record_at c e m q p ERR_REP sn ?r" and s: "strings_ok e ?r"
  have v: "reads_as get_long2 m q (p + 3) (p + length (record_bytes e ERR_REP sn ?r) - 1) e (\<lambda>_ _. True)"
    by (rule reads_as_weaken [OF reads_as_pbind [OF reads_back [OF at _ arg_fields.simps(3) s, unfolded read_back.simps(3)]]])
      (auto simp: split_def)
  have "\<exists>R'. parse_record c m q p R = Some (p + length (record_bytes e ERR_REP sn ?r), R') \<and>
      told (map (\<lambda>(code, ev). Call (call_hdr e (ps_clk_kernel_diff (rs_p R)) sn code) ev) []) R R'"
    by (rule parsed_told [where w = "\<lambda>r. r\<lparr>rs_p := (rs_p r)\<lparr>ps_tid := 0\<rparr>\<rparr>" and f = ?g and g = ?g and rd = get_long2
          and k = "\<lambda>r. r\<lparr>rs_p := (rs_p r)\<lparr>ps_last_tid := 0\<rparr>\<rparr>" and V = "\<lambda>_ _. True", OF at _ dispatch_simps(37) _ v])
      (auto simp: has_seqnum_def code_values TSMS_EN_def error_entry_def after_def quiet_def told_def
        split: hres.splits bool.splits)
  then show "\<exists>R'. parse_record c m q p R = Some (p + length (record_bytes e ERR_REP sn ?r), R') \<and>
      told (record_events e (ps_clk_kernel_diff (rs_p R)) sn ERR_REP ?r) R R'"
    by (simp add: record_events_def code_values)
qed

lemma known_record_told:
  assumes "record_calls e nm r = Some cs"
  shows "tells_consumer c e nm r"
  using assms tells_integers tells_strings tells_data tells_err by (cases r) (auto split: if_splits)

section \<open>The state the parser starts in\<close>

definition rstate_init :: rstate where
  "rstate_init =
     \<lparr>rs_p = pstate_init, rs_sn = 0, rs_current_rec = 0, rs_exit_op = False, rs_no_entry = False, rs_out_of_sync = False,
      rs_kernel_ts_msb = 0, rs_entry_rec = 0, rs_exit_rec = 0, rs_tsms_rec = 0, rs_tsms_rec1 = 0, rs_tsdiff_rec = 0,
      rs_err_rec = 0, rs_exit_errs = 0, rs_skipped = 0, rs_errmsgs = 0, rs_sc_count = (\<lambda>_. 0), rs_scexit_count = (\<lambda>_. 0),
      rs_tamper_windows = 0, rs_tamper_totlags = (0, 0, 0), rs_tamper_lags = [], rs_tamper_period = [],
      rs_cgroup_paths = (\<lambda>_. None), rs_initial_seed_embedded = False, rs_verifier_batch_count = 0,
      rs_keys_lo = (\<lambda>_. []), rs_keys_hi = (\<lambda>_. []), rs_log_tampered = False, rs_n_tampered_events = 0, rs_events = []\<rparr>"

definition dlogger_pconf :: pconf where
  "dlogger_pconf = \<lparr>pc_long_seqnum = False, pc_use_procid = False, pc_verifyLog = False, pc_TAMPER_DETECT = False,
     pc_signing_keys = (\<lambda>_ _. [])\<rparr>"

lemma sample_pid: "getpid (sample_env t) = 7" "gettid (sample_env t) = 7"
  by (simp_all add: getpid_def gettid_def sample_env_def)

lemma sample_time: "ae_ktime (sample_env t) = t"
  by (simp add: sample_env_def)

section \<open>Properties\<close>

text \<open>
  (C17) Every record the parser knows reaches the consumer: wherever the record of a system call lies in
  the input, the parser reads it to its last byte and makes exactly the consumer's calls for it, with
  the arguments, strings, thread, process, time and sequence number that the probe put into it. The
  strings of the record could be read by the probe and contain no NUL.
\<close>

theorem record_reaches_consumer:
  assumes "record_at c e m q p nm sn r" "strings_ok e r" "record_calls e nm r = Some cs"
  shows "\<exists>R'. parse_record c m q p R = Some (p + length (record_bytes e nm sn r), R') \<and>
    told (map (\<lambda>(code, ev). Call (call_hdr e (ps_clk_kernel_diff (rs_p R)) sn code) ev) cs) R R'"
  using known_record_told [OF assms(3), of c] assms unfolding tells_consumer_def record_events_def by (simp add: assms(3))

theorem record_reaches_consumer_witness:
  "\<exists>R'. parse_record dlogger_pconf (memory_of (record_bytes (sample_env 10) RMDIR_EX 6 (Str_long1 1 0)))
       (length (record_bytes (sample_env 10) RMDIR_EX 6 (Str_long1 1 0))) 0 rstate_init =
     Some (length (record_bytes (sample_env 10) RMDIR_EX 6 (Str_long1 1 0)), R') \<and>
     rs_events R' = [Call \<lparr>eh_sc = RMDIR_EX, eh_sn = 6, eh_ts = 10, eh_tid = 7, eh_pid = 7\<rparr> (C_rmdir [104, 105] 0)]"
proof -
  let ?b = "record_bytes (sample_env 10) RMDIR_EX 6 (Str_long1 1 0)"
  have at: "record_at dlogger_pconf (sample_env 10) (memory_of ?b) (length ?b) 0 RMDIR_EX 6 (Str_long1 1 0)"
    using memory_of_holds [of "[]" ?b "[]"] by (simp add: record_at_def dlogger_pconf_def sample_pid word_sless_alt)
  have cs: "record_calls (sample_env 10) RMDIR_EX (Str_long1 1 0) = Some [(RMDIR_EX, C_rmdir [104, 105] 0)]"
    by (simp add: code_values str_val_def sample_env_def)
  have "strings_ok (sample_env 10) (Str_long1 1 0)" by (simp add: strings_ok_def sample_env_def)
  from record_reaches_consumer [OF at this cs, of rstate_init] obtain R' where
    "parse_record dlogger_pconf (memory_of ?b) (length ?b) 0 rstate_init = Some (length ?b, R')"
    and "told [Call (call_hdr (sample_env 10) 0 6 RMDIR_EX) (C_rmdir [104, 105] 0)] rstate_init R'"
    by (auto simp: rstate_init_def pstate_init_def)
  then show ?thesis
    by (intro exI [of _ R']) (simp add: told_def rstate_init_def call_hdr_def sample_pid sample_time)
qed

end
