(* ===== verification/Stream_Events.thy ===== *)
theory Stream_Events
  imports Record_Events
begin

text \<open>
  The whole way of a run: records are batched into messages, the messages are written one after the
  other to the capture file, and the parser reads the file and tells the consumer.
\<close>

section \<open>Runs of records\<close>

text \<open>A call whose record the parser knows and whose strings the probe can read.\<close>

fun known_call :: "log_call \<Rightarrow> bool" where
  "known_call (e, sc, nm, w, r) \<longleftrightarrow> record_calls e nm r \<noteq> None \<and> strings_ok e r \<and> 0 <s getpid e"

fun call_events :: "u64 \<Rightarrow> u64 \<Rightarrow> log_call list \<Rightarrow> consumer_event list" where
  "call_events diff sn [] = []"
| "call_events diff sn ((e, sc, nm, w, r) # xs) = record_events e diff sn nm r @ call_events diff (sn + 1) xs"

definition short_seqnum :: "pconf \<Rightarrow> bool" where
  "short_seqnum c \<longleftrightarrow> \<not> pc_long_seqnum c \<and> \<not> pc_use_procid c"

lemma told_append [trans]: "told a R R' \<Longrightarrow> told b R' R'' \<Longrightarrow> told (a @ b) R R''"
  by (simp add: told_def)

lemma told_Nil [simp]: "told [] R R"
  by (simp add: told_def)

lemma toldD: "told a R R' \<Longrightarrow> rs_out_of_sync R' = rs_out_of_sync R" "told a R R' \<Longrightarrow> ps_clk_kernel_diff (rs_p R') = ps_clk_kernel_diff (rs_p R)"
  by (simp_all add: told_def)

lemma parse_loop_step:
  assumes "parse_record c m q p R = Some (p', R')" "\<not> rs_out_of_sync R" "p < q"
  shows "parse_loop c True m q True p R = parse_loop c True m q True p' R'"
  using assms by (subst parse_loop.simps) (simp add: needs_more_def)

lemma parse_loop_end:
  "q \<le> p \<Longrightarrow> parse_loop c ended m q True p R = Some (p, R)"
  by (subst parse_loop.simps, simp, subst parse_loop.simps) simp

lemma record_bytes_pos: "0 < length (record_bytes e nm sn r)"
  by (simp add: record_bytes_def)

lemma parse_records:
  assumes "list_all known_call xs" "holds m p (call_records sn xs)" "p + length (call_records sn xs) \<le> q"
    and "\<not> rs_out_of_sync R" "short_seqnum c"
  shows "\<exists>R'. parse_loop c True m q True p R = parse_loop c True m q True (p + length (call_records sn xs)) R' \<and>
    told (call_events (ps_clk_kernel_diff (rs_p R)) sn xs) R R'"
  using assms
proof (induction xs arbitrary: p sn R)
  case Nil
  show ?case by (intro exI [of _ R]) simp
next
  case (Cons x xs)
  obtain e sc nm w r where x: "x = (e, sc, nm, w, r)" by (cases x)
  let ?n = "length (record_bytes e nm sn r)"
  have h: "holds m p (record_bytes e nm sn r)" "holds m (p + ?n) (call_records (sn + 1) xs)"
    "p + ?n + length (call_records (sn + 1) xs) \<le> q"
    using Cons.prems(2,3) by (simp_all add: x add.assoc)
  obtain cs where k: "record_calls e nm r = Some cs" "strings_ok e r" "0 <s getpid e" and ks: "list_all known_call xs"
    using Cons.prems(1) by (auto simp: x)
  have "record_at c e m q p nm sn r"
    using h k(3) Cons.prems(5) by (simp add: record_at_def short_seqnum_def)
  with known_record_told [OF k(1), of c] k(2) obtain R1 where pr: "parse_record c m q p R = Some (p + ?n, R1)"
    and t1: "told (record_events e (ps_clk_kernel_diff (rs_p R)) sn nm r) R R1"
    unfolding tells_consumer_def by blast
  have s1: "parse_loop c True m q True p R = parse_loop c True m q True (p + ?n) R1"
    by (rule parse_loop_step [OF pr Cons.prems(4)]) (use h(3) record_bytes_pos [of e nm sn r] in linarith)
  obtain R2 where "parse_loop c True m q True (p + ?n) R1 =
      parse_loop c True m q True (p + ?n + length (call_records (sn + 1) xs)) R2"
    and t2: "told (call_events (ps_clk_kernel_diff (rs_p R1)) (sn + 1) xs) R1 R2"
    using Cons.IH [OF ks h(2,3) _ Cons.prems(5), of R1] toldD [OF t1] Cons.prems(4) by auto
  then show ?case
    using s1 told_append [OF t1 t2] toldD(2) [OF t1] by (intro exI [of _ R2]) (simp add: x add.assoc)
qed

section \<open>Messages\<close>

lemma MS_BITS_mask: "MS_BITS t = t AND NOT (mask 24)"
  by (simp add: MS_BITS_def MS_BIT_SHIFT_def mask_eq_exp_minus_1)

lemma ms_bits_low:
  assumes "k + 8 \<le> 24" shows "(ucast (drop_bit k (MS_BITS t)) :: u8) = 0"
  unfolding MS_BITS_mask
  by (rule bit_word_eqI) (use assms in \<open>auto simp: bit_unsigned_iff bit_drop_bit_eq bit_and_iff bit_not_iff bit_mask_iff\<close>)

lemma ts_record_bytes:
  "le_bytes 8 (TS_RECORD (MS_BITS t)) ! 0 = TSMS_EN" "le_bytes 8 (TS_RECORD (MS_BITS t)) ! 1 = 37"
  "le_bytes 8 (TS_RECORD (MS_BITS t)) ! 2 = 46"
  using ms_bits_low [of 0 t] ms_bits_low [of 8 t] ms_bits_low [of 16 t]
  by (simp_all add: le_bytes_def TS_RECORD_def getInt24_def TSMS_EN_def unsigned_or_eq drop_bit_or)
lemma parse_tsms:
  assumes "holds m p (le_bytes 8 (TS_RECORD (MS_BITS t)))"
  shows "\<exists>R'. parse_record c m q p R = Some (p + 8, R') \<and> told [] R R'"
proof -
  have b: "m (p + i) = le_bytes 8 (TS_RECORD (MS_BITS t)) ! i" if "i < 8" for i
    using assms nth_slice [OF that, of m p] that by (simp add: holds_def)
  have m0: "m p = TSMS_EN" "m (p + 1) = 37" "m (p + 2) = 46"
    using b [of 0] b [of 1] b [of 2] ts_record_bytes [of t] by simp_all
  then have "MS_REC_OK m p" by (simp add: MS_REC_OK_def)
  then show ?thesis
    using m0 by (simp add: parse_record_def read_seqnum_def has_seqnum_def Let_def dispatch_simps tsms_rec_ok_def
        count_record_def set_sctype_def reset_strbuf_def told_def)
qed

text \<open>The messages of a run, each with the records of a group of calls.\<close>

definition message_of :: "u64 \<Rightarrow> log_call list \<Rightarrow> u8 list \<Rightarrow> bool" where
  "message_of sn xs bs \<longleftrightarrow> (\<exists>t. bs = le_bytes 8 (TS_RECORD (MS_BITS t)) @ call_records sn xs)"

fun messages_of :: "u64 \<Rightarrow> log_call list list \<Rightarrow> u8 list list \<Rightarrow> bool" where
  "messages_of sn [] ms \<longleftrightarrow> ms = []"
| "messages_of sn (g # gs) ms \<longleftrightarrow> (\<exists>b bs. ms = b # bs \<and> message_of sn g b \<and> messages_of (sn + of_nat (length g)) gs bs)"

lemma call_records_append:
  "call_records sn (xs @ ys) = call_records sn xs @ call_records (sn + of_nat (length xs)) ys"
  by (induction xs arbitrary: sn) (auto simp: algebra_simps)

lemma call_events_append:
  "call_events d sn (xs @ ys) = call_events d sn xs @ call_events d (sn + of_nat (length xs)) ys"
  by (induction xs arbitrary: sn) (auto simp: algebra_simps)

lemma messages_of_snoc:
  "messages_of sn gs ms \<Longrightarrow> message_of (sn + of_nat (length (concat gs))) g b \<Longrightarrow> messages_of sn (gs @ [g]) (ms @ [b])"
  by (induction gs arbitrary: sn ms) (auto simp: algebra_simps)

lemma message_longer: "message_of sn g b \<Longrightarrow> g \<noteq> [] \<Longrightarrow> 8 < length b"
  using record_bytes_pos by (cases g) (auto simp: message_of_def)

lemma parse_message:
  assumes "list_all known_call xs" "message_of sn xs bs" "holds m p bs" "p + length bs \<le> q"
    and "\<not> rs_out_of_sync R" "short_seqnum c"
  shows "\<exists>R'. parse_loop c True m q True p R = parse_loop c True m q True (p + length bs) R' \<and>
    told (call_events (ps_clk_kernel_diff (rs_p R)) sn xs) R R'"
proof -
  obtain t where bs: "bs = le_bytes 8 (TS_RECORD (MS_BITS t)) @ call_records sn xs"
    using assms(2) by (auto simp: message_of_def)
  have h: "holds m p (le_bytes 8 (TS_RECORD (MS_BITS t)))" "holds m (p + 8) (call_records sn xs)"
    "p + 8 + length (call_records sn xs) \<le> q"
    using assms(3,4) by (simp_all add: bs add.assoc)
  obtain R1 where r1: "parse_record c m q p R = Some (p + 8, R1)" and t1: "told [] R R1"
    using parse_tsms [OF h(1)] by blast
  have s1: "parse_loop c True m q True p R = parse_loop c True m q True (p + 8) R1"
    by (rule parse_loop_step [OF r1 assms(5)]) (use h(3) in linarith)
  obtain R2 where "parse_loop c True m q True (p + 8) R1 = parse_loop c True m q True (p + 8 + length (call_records sn xs)) R2"
    and t2: "told (call_events (ps_clk_kernel_diff (rs_p R1)) sn xs) R1 R2"
    using parse_records [OF assms(1) h(2,3) _ assms(6), of R1] toldD [OF t1] assms(5) by auto
  then show ?thesis
    using s1 told_append [OF t1 t2] toldD(2) [OF t1] by (intro exI [of _ R2]) (simp add: bs add.assoc)
qed

lemma parse_messages:
  assumes "list_all (list_all known_call) gs" "messages_of sn gs ms" "holds m p (concat ms)" "p + length (concat ms) \<le> q"
    and "\<not> rs_out_of_sync R" "short_seqnum c"
  shows "\<exists>R'. parse_loop c True m q True p R = parse_loop c True m q True (p + length (concat ms)) R' \<and>
    told (call_events (ps_clk_kernel_diff (rs_p R)) sn (concat gs)) R R'"
  using assms
proof (induction gs arbitrary: p sn ms R)
  case Nil
  then show ?case by (intro exI [of _ R]) simp
next
  case (Cons g gs)
  obtain b bs where ms: "ms = b # bs" and g: "message_of sn g b" and gs: "messages_of (sn + of_nat (length g)) gs bs"
    using Cons.prems(2) by auto
  have h: "holds m p b" "p + length b \<le> q" "holds m (p + length b) (concat bs)" "p + length b + length (concat bs) \<le> q"
    using Cons.prems(3,4) by (simp_all add: ms add.assoc)
  obtain R1 where s1: "parse_loop c True m q True p R = parse_loop c True m q True (p + length b) R1"
    and t1: "told (call_events (ps_clk_kernel_diff (rs_p R)) sn g) R R1"
    using parse_message [OF _ g h(1,2) Cons.prems(5,6)] Cons.prems(1) by auto
  obtain R2 where "parse_loop c True m q True (p + length b) R1 = parse_loop c True m q True (p + length b + length (concat bs)) R2"
    and t2: "told (call_events (ps_clk_kernel_diff (rs_p R1)) (sn + of_nat (length g)) (concat gs)) R1 R2"
    using Cons.IH [OF _ gs h(3,4) _ Cons.prems(6), of R1] Cons.prems(1,5) toldD [OF t1] by auto
  then show ?case
    using s1 told_append [OF t1 t2] toldD(2) [OF t1]
    by (intro exI [of _ R2]) (simp add: ms add.assoc call_events_append)
qed

section \<open>Runs of the probe\<close>

text \<open>
  After a run the messages hold the records of groups of calls, and the cache holds those of the
  calls that have not been sent.
\<close>

definition sent :: "nat \<Rightarrow> u64 \<Rightarrow> kstate \<Rightarrow> log_call list list \<Rightarrow> log_call list \<Rightarrow> bool" where
  "sent cpu sn s gs rest \<longleftrightarrow> messages_of sn gs (map rb_bytes (ks_events s)) \<and>
     (\<exists>b. ks_buf s cpu = Some b \<and> cached b = call_records (sn + of_nat (length (concat gs))) rest) \<and>
     ks_seqn s = sn + of_nat (length (concat gs @ rest)) \<and> list_all (\<lambda>g. g \<noteq> []) gs"

lemma sent_call:
  assumes "sent cpu sn s gs rest" "cache_ready (dlogger_config p k) cpu s" "ok_call (dlogger_config p k) cpu x"
  shows "\<exists>gs' rest'. concat gs' @ rest' = concat gs @ rest @ [x] \<and> sent cpu sn (do_call (dlogger_config p k) x s) gs' rest'"
proof -
  let ?s = "do_call (dlogger_config p k) x s" and ?sn = "sn + of_nat (length (concat gs))"
  obtain e sc nm w r where x: "x = (e, sc, nm, w, r)" by (cases x)
  obtain b where ms: "messages_of sn gs (map rb_bytes (ks_events s))" and b: "ks_buf s cpu = Some b"
    "cached b = call_records ?sn rest" and sq: "ks_seqn s = sn + of_nat (length (concat gs @ rest))"
    and ne: "list_all (\<lambda>g. g \<noteq> []) gs"
    using assms(1) by (auto simp: sent_def)
  have im: "cached b @ call_image x s = call_records ?sn (rest @ [x])"
    using sq by (simp add: b(2) call_records_append x algebra_simps)
  have sq': "ks_seqn ?s = sn + of_nat (length (concat gs @ rest @ [x]))"
    using do_call_ready(3) [OF assms(2,3)] sq by simp
  obtain b' where b': "ks_buf ?s cpu = Some b'" and "ks_events ?s = ks_events s \<and> cached b' = cached b @ call_image x s \<or>
      (\<exists>msg. ks_events ?s = ks_events s @ [msg] \<and> time_stamped msg \<and> payload msg = cached b @ call_image x s \<and> cached b' = [])"
    using do_call_sends [OF assms(2,3) b(1)] by blast
  then show ?thesis
  proof (elim disjE conjE exE)
    assume "ks_events ?s = ks_events s" "cached b' = cached b @ call_image x s"
    then have "sent cpu sn ?s gs (rest @ [x])" using ms b' im sq' ne by (simp add: sent_def)
    then show ?thesis by (intro exI [of _ gs] exI [of _ "rest @ [x]"]) simp
  next
    fix msg assume m: "ks_events ?s = ks_events s @ [msg]" "time_stamped msg" "payload msg = cached b @ call_image x s" "cached b' = []"
    then have "message_of ?sn (rest @ [x]) (rb_bytes msg)" by (auto simp: message_of_def time_stamped_def im)
    from messages_of_snoc [OF ms this] have "sent cpu sn ?s (gs @ [rest @ [x]]) []"
      using m b' sq' ne by (simp add: sent_def)
    then show ?thesis by (intro exI [of _ "gs @ [rest @ [x]]"] exI [of _ "[]"]) simp
  qed
qed

lemma sent_run:
  assumes "sent cpu sn s gs rest" "cache_ready (dlogger_config p k) cpu s" "list_all (ok_call (dlogger_config p k) cpu) xs"
  shows "\<exists>gs' rest'. concat gs' @ rest' = concat gs @ rest @ xs \<and> sent cpu sn (fold (do_call (dlogger_config p k)) xs s) gs' rest'"
  using assms
proof (induction xs arbitrary: s gs rest)
  case Nil
  then show ?case by (intro exI [of _ gs] exI [of _ rest]) simp
next
  case (Cons x xs)
  from Cons.prems(3) have ok: "ok_call (dlogger_config p k) cpu x" "list_all (ok_call (dlogger_config p k) cpu) xs" by simp_all
  obtain gs1 rest1 where 1: "concat gs1 @ rest1 = concat gs @ rest @ [x]" "sent cpu sn (do_call (dlogger_config p k) x s) gs1 rest1"
    using sent_call [OF Cons.prems(1,2) ok(1)] by blast
  obtain gs' rest' where 2: "concat gs' @ rest' = (concat gs1 @ rest1) @ xs"
    "sent cpu sn (fold (do_call (dlogger_config p k)) xs (do_call (dlogger_config p k) x s)) gs' rest'"
    using Cons.IH [OF 1(2) do_call_ready(1) [OF Cons.prems(2) ok(1)] ok(2)] by auto
  from 2(1) have "concat gs' @ rest' = concat gs @ rest @ x # xs" unfolding 1(1) by simp
  with 2(2) show ?case by (intro exI [of _ gs'] exI [of _ rest']) simp
qed

text \<open>The bytes a run leaves in the capture file.\<close>

definition capture :: "kstate \<Rightarrow> u8 list" where
  "capture s = concat (map rb_bytes (ks_events s))"

lemma parse_capture:
  assumes "sent cpu sn s gs rest" "list_all known_call (concat gs)" "\<not> rs_out_of_sync R" "short_seqnum c"
  shows "\<exists>R'. parse_rec c (memory_of (capture s)) (length (capture s)) R = Some (length (capture s), R') \<and>
    told (call_events (ps_clk_kernel_diff (rs_p R)) sn (concat gs)) R R'"
proof -
  let ?m = "memory_of (capture s)" and ?q = "length (capture s)"
  have h: "holds ?m 0 (concat (map rb_bytes (ks_events s)))"
    using memory_of_holds [of "[]" "capture s" "[]"] by (simp add: capture_def)
  have ms: "messages_of sn gs (map rb_bytes (ks_events s))" using assms(1) by (simp add: sent_def)
  have ks: "list_all (list_all known_call) gs" using assms(2) by (induction gs) simp_all
  obtain R' where p: "parse_loop c True ?m ?q True 0 R = parse_loop c True ?m ?q True ?q R'"
    and t: "told (call_events (ps_clk_kernel_diff (rs_p R)) sn (concat gs)) R R'"
    using parse_messages [OF ks ms h _ assms(3,4), of ?q] by (auto simp: capture_def)
  show ?thesis
  proof (cases "8 < ?q")
    case True
    then have "parse_rec c ?m ?q R = parse_loop c True ?m ?q True 0 R"
      using assms(3) by (simp add: parse_rec_def parse_buffer_def parse_loop.simps [of c True ?m ?q False])
    with p t show ?thesis by (simp add: parse_loop_end)
  next
    case False
    have "gs = []"
    proof (rule ccontr)
      assume "gs \<noteq> []"
      then obtain g gs' where g: "gs = g # gs'" by (cases gs) auto
      with ms obtain b bs where "map rb_bytes (ks_events s) = b # bs" "message_of sn g b" by auto
      moreover have "g \<noteq> []" using assms(1) by (simp add: sent_def g)
      ultimately have "8 < length b" "length b \<le> ?q" by (auto simp: message_longer capture_def)
      with False show False by linarith
    qed
    then have "capture s = []" "gs = []" using ms by (simp_all add: capture_def)
    then show ?thesis
      by (intro exI [of _ R]) (simp add: parse_rec_def parse_buffer_def parse_loop.simps [of _ _ _ _ False])
  qed
qed

section \<open>Finding the next message\<close>

lemma skip_to_tsms_run:
  assumes "TSMS_EN \<notin> set g" "holds m p g" "m (p + length g) = TSMS_EN" "p + length g < q"
  shows "skip_to_tsms m q p r = (p + length g, r\<lparr>rs_skipped := rs_skipped r + length g\<rparr>)"
  using assms
proof (induction g arbitrary: p r)
  case Nil
  then show ?case by (subst skip_to_tsms.simps) simp
next
  case (Cons x g)
  have "m p = x" "holds m (p + 1) g" using Cons.prems(2) by simp_all
  then show ?case
    using Cons.prems(1,3,4) by (subst skip_to_tsms.simps) (auto simp: Cons.IH)
qed

lemma skip_to_tsms_all:
  "(\<And>i. p \<le> i \<Longrightarrow> i < q \<Longrightarrow> m i \<noteq> TSMS_EN) \<Longrightarrow> p \<le> q \<Longrightarrow> m q \<noteq> TSMS_EN \<Longrightarrow>
   skip_to_tsms m q p r = (q, r\<lparr>rs_skipped := rs_skipped r + (q - p)\<rparr>)"
proof (induction "q - p" arbitrary: p r)
  case 0
  then show ?case by (subst skip_to_tsms.simps) simp
next
  case (Suc n)
  then show ?case by (subst skip_to_tsms.simps) (simp add: Suc_diff_le)
qed

lemma ts_marker:
  assumes "holds m p (le_bytes 8 (TS_RECORD (MS_BITS t)))"
  shows "m p = TSMS_EN" "m (p + 1) = 37" "m (p + 2) = 46"
proof -
  have b: "m (p + i) = le_bytes 8 (TS_RECORD (MS_BITS t)) ! i" if "i < 8" for i
    using assms nth_slice [OF that, of m p] that by (simp add: holds_def)
  show "m p = TSMS_EN" "m (p + 1) = 37" "m (p + 2) = 46"
    using b [of 0] b [of 1] b [of 2] ts_record_bytes [of t] by simp_all
qed

definition in_step :: "rstate \<Rightarrow> rstate" where
  "in_step R = R\<lparr>rs_out_of_sync := False\<rparr>"

lemma parse_resync:
  assumes "rs_out_of_sync R" "TSMS_EN \<notin> set g" "message_of sn xs b" "xs \<noteq> []" "holds m p (g @ b)" "p + length (g @ b) \<le> q"
    and "list_all known_call xs" "short_seqnum c"
  shows "\<exists>R'. parse_loop c True m q False p R = parse_loop c True m q True (p + length (g @ b)) R' \<and>
    told (call_events (ps_clk_kernel_diff (rs_p R)) sn xs) (in_step R) R'"
proof -
  obtain t where b: "b = le_bytes 8 (TS_RECORD (MS_BITS t)) @ call_records sn xs"
    using assms(3) by (auto simp: message_of_def)
  let ?p = "p + length g"
  have h: "holds m p g" "holds m ?p (le_bytes 8 (TS_RECORD (MS_BITS t)))" "holds m (?p + 8) (call_records sn xs)"
    "?p + 8 + length (call_records sn xs) \<le> q"
    using assms(5,6) by (simp_all add: b add.assoc)
  have l: "8 < length b" by (rule message_longer [OF assms(3,4)])
  define R0 where "R0 = resync m ?p (R\<lparr>rs_skipped := rs_skipped R + length g\<rparr>)"
  have "skip_to_tsms m q p R = (?p, R\<lparr>rs_skipped := rs_skipped R + length g\<rparr>)"
    by (rule skip_to_tsms_run [OF assms(2) h(1) ts_marker(1) [OF h(2)]]) (use h(4) in linarith)
  moreover have "MS_REC_OK m ?p" using ts_marker [OF h(2)] by (simp add: MS_REC_OK_def)
  moreover have "p + 8 < q" using assms(6) l by simp
  ultimately have s: "parse_loop c True m q False p R = parse_loop c True m q True (?p + 8) R0"
    using h(4) assms(1) by (subst parse_loop.simps) (simp add: R0_def)
  have R0: "told [] (in_step R) R0" by (simp add: told_def in_step_def R0_def resync_def)
  obtain R1 where "parse_loop c True m q True (?p + 8) R0 = parse_loop c True m q True (?p + 8 + length (call_records sn xs)) R1"
    and t1: "told (call_events (ps_clk_kernel_diff (rs_p R0)) sn xs) R0 R1"
    using parse_records [OF assms(7) h(3,4) _ assms(8), of R0] toldD [OF R0] by (auto simp: in_step_def)
  then show ?thesis
    using s told_append [OF R0 t1] toldD(2) [OF R0] by (intro exI [of _ R1]) (simp add: b add.assoc in_step_def)
qed

text \<open>How far a run of the loop from \<open>p\<close> has come.\<close>

definition consumes :: "pconf \<Rightarrow> bool \<Rightarrow> mem \<Rightarrow> nat \<Rightarrow> nat \<Rightarrow> (nat \<times> rstate) option \<Rightarrow> bool" where
  "consumes c ended m q p res \<longleftrightarrow>
     (\<exists>p' r'. res = Some (p', r') \<and> p \<le> p' \<and> (q \<le> p' + 8 \<or> \<not> ended \<and> \<not> rs_out_of_sync r' \<and> needs_more ended m q p')) \<or>
     res = None \<and> (\<exists>p' r'. p \<le> p' \<and> p' < q \<and> parse_record c m q p' r' = None)"

lemma consumes_mono: "consumes c ended m q p' res \<Longrightarrow> p \<le> p' \<Longrightarrow> consumes c ended m q p res"
  unfolding consumes_def by (elim disjE exE conjE) (auto intro: le_trans)

lemma consumes_end: "q \<le> p' + 8 \<Longrightarrow> p \<le> p' \<Longrightarrow> consumes c ended m q p (Some (p', r))"
  by (simp add: consumes_def)

lemma parse_loop_consumes: "consumes c ended m q p (parse_loop c ended m q inner p r)"
proof (induction c ended m q inner p r rule: parse_loop.induct)
  case (1 c ended m q inner p r)
  show ?case
  proof (cases inner)
    case True
    show ?thesis
    proof (cases "\<not> rs_out_of_sync r \<and> p < q")
      case run: True
      show ?thesis
      proof (cases "needs_more ended m q p")
        case more: True
        with True run show ?thesis
          by (subst parse_loop.simps) (auto simp: consumes_def needs_more_def)
      next
        case False
        show ?thesis
        proof (cases "parse_record c m q p r")
          case None
          with True run False show ?thesis by (subst parse_loop.simps) (auto simp: consumes_def)
        next
          case (Some a)
          obtain p1 r1 where a: "a = (p1, r1)" by (cases a)
          from parse_record_advances [OF Some [unfolded a]] have "p \<le> p1" by auto
          with 1(1) [OF True run False Some a [symmetric]] have "consumes c ended m q p (parse_loop c ended m q True p1 r1)"
            by (rule consumes_mono)
          with True run False Some a show ?thesis by (subst parse_loop.simps) simp
        qed
      qed
    next
      case False
      with 1(2) True show ?thesis by (subst parse_loop.simps) auto
    qed
  next
    case False
    obtain p1 r1 where sk: "skip_to_tsms m q p r = (p1, r1)" by (cases "skip_to_tsms m q p r")
    note ps = skip_to_tsms_advances [OF sk]
    show ?thesis
    proof (cases "p + 8 < q")
      case more: True
      show ?thesis
      proof (cases "rs_out_of_sync r")
        case oos: True
        note r = 1(3,4) [OF False more oos sk [symmetric]]
        show ?thesis
          using False more oos sk ps consumes_end [of q p1 p] consumes_mono [OF r(1)] consumes_mono [OF r(2)]
          by (subst parse_loop.simps) simp
      next
        case sync: False
        with 1(5) False more show ?thesis by (subst parse_loop.simps) simp
      qed
    next
      case end_: False
      with False show ?thesis by (subst parse_loop.simps) (simp add: consumes_end)
    qed
  qed
qed

section \<open>A sample run\<close>

lemma sample_known:
  "record_calls (sample_env t) nm r \<noteq> None \<Longrightarrow> strings_ok (sample_env t) r \<Longrightarrow> known_call (sample_env t, sc, nm, w, r)"
  by (simp add: sample_pid word_sless_alt)

section \<open>Properties\<close>

text \<open>
  From the probe to the consumer: whatever records one CPU logs after the start, the parser
  reads the messages the probe has sent to the end without an error, and tells the consumer exactly
  the events of the first \<open>j\<close> calls, in order and with the arguments, thread, time and sequence number of
  each; the records of all other calls are still in the cache.
\<close>

theorem probe_to_consumer:
  assumes "list_all (ok_call (dlogger_config p k) cpu) xs" "list_all known_call xs" "cpu \<le> n"
    and "short_seqnum c" "\<not> rs_out_of_sync R"
    and "s = fold (do_call (dlogger_config p k)) xs (kstate_init n)"
  shows "\<exists>j R'. parse_rec c (memory_of (capture s)) (length (capture s)) R = Some (length (capture s), R') \<and>
    told (call_events (ps_clk_kernel_diff (rs_p R)) 0 (take j xs)) R R' \<and>
    (\<exists>b. ks_buf s cpu = Some b \<and> cached b = call_records (of_nat j) (drop j xs))"
proof -
  have "sent cpu 0 (kstate_init n) [] []"
    using assms(3) by (simp add: sent_def kstate_init_def empty_buf_def cached_def content_def)
  from sent_run [OF this kstate_init_ready [OF assms(3)] assms(1)]
  obtain gs rest where g: "concat gs @ rest = xs" and st: "sent cpu 0 s gs rest" unfolding assms(6) by auto
  let ?j = "length (concat gs)"
  have tk: "take ?j xs = concat gs" "drop ?j xs = rest" by (simp_all flip: g)
  have "list_all known_call (concat gs)" using assms(2) by (simp flip: g)
  from parse_capture [OF st this assms(5,4)] show ?thesis
    using st by (intro exI [of _ ?j]) (auto simp: tk sent_def)
qed

theorem probe_to_consumer_witness:
  "\<exists>j R' s. s = fold (do_call (dlogger_config 1 True))
       [(sample_env 10, 84, RMDIR_EX, 512, Str_long1 1 0), (sample_env 20, 0, READ_EX, 40000, Long3 5 70000 9)] (kstate_init 3) \<and>
     parse_rec dlogger_pconf (memory_of (capture s)) (length (capture s)) rstate_init = Some (length (capture s), R') \<and>
     rs_events R' = take j [Call (call_hdr (sample_env 10) 0 0 RMDIR_EX) (C_rmdir [104, 105] 0),
       Call (call_hdr (sample_env 20) 0 1 READ_EX) (C_read 5 70000 9)]"
proof -
  let ?xs = "[(sample_env 10, 84, RMDIR_EX, 512, Str_long1 1 0), (sample_env 20, 0, READ_EX, 40000, Long3 5 70000 9)]"
  have ok: "list_all (ok_call (dlogger_config 1 True) 0) ?xs" using sample_ok [of 1 True] by simp
  have kn: "list_all known_call ?xs"
    by (simp del: known_call.simps, intro conjI sample_known) (simp_all add: code_values strings_ok_def sample_env_def user_string_def)
  obtain j R' where "parse_rec dlogger_pconf (memory_of (capture (fold (do_call (dlogger_config 1 True)) ?xs (kstate_init 3))))
      (length (capture (fold (do_call (dlogger_config 1 True)) ?xs (kstate_init 3)))) rstate_init =
      Some (length (capture (fold (do_call (dlogger_config 1 True)) ?xs (kstate_init 3))), R')"
    and "told (call_events 0 0 (take j ?xs)) rstate_init R'"
    using probe_to_consumer [OF ok kn, of 3 dlogger_pconf rstate_init, OF _ _ _ refl]
    by (auto simp: short_seqnum_def dlogger_pconf_def rstate_init_def pstate_init_def)
  moreover have "call_events 0 0 (take j ?xs) = take j [Call (call_hdr (sample_env 10) 0 0 RMDIR_EX) (C_rmdir [104, 105] 0),
       Call (call_hdr (sample_env 20) 0 1 READ_EX) (C_read 5 70000 9)]"
    by (cases j; cases "j - 1") (simp_all add: record_events_def code_values sample_env_def str_val_def)
  ultimately show ?thesis by (intro exI [of _ j] exI [of _ R'] exI) (auto simp: told_def rstate_init_def)
qed

text \<open>
  (C29) After an error the parser finds its way back: bytes none of which is the first byte of a time
  stamp marker are skipped, and every record of the next message is told to the consumer.
\<close>

theorem parser_resyncs:
  assumes "rs_out_of_sync R" "TSMS_EN \<notin> set g" "message_of sn xs b" "xs \<noteq> []"
    and "list_all known_call xs" "short_seqnum c"
  shows "\<exists>R'. parse_rec c (memory_of (g @ b)) (length (g @ b)) R = Some (length (g @ b), R') \<and>
    told (call_events (ps_clk_kernel_diff (rs_p R)) sn xs) (in_step R) R'"
proof -
  have h: "holds (memory_of (g @ b)) 0 (g @ b)" using memory_of_holds [of "[]" "g @ b" "[]"] by simp
  from parse_resync [OF assms(1-4) h _ assms(5,6), of "length (g @ b)"] show ?thesis
    by (auto simp: parse_rec_def parse_buffer_def parse_loop_end)
qed

theorem parser_resyncs_witness:
  "\<exists>R'. parse_rec dlogger_pconf
       (memory_of ([1, 2, 3] @ le_bytes 8 (TS_RECORD (MS_BITS 10)) @ record_bytes (sample_env 10) READ_EX 6 (Long3 5 70000 9)))
       (length ([1, 2, 3] @ le_bytes 8 (TS_RECORD (MS_BITS 10)) @ record_bytes (sample_env 10) READ_EX 6 (Long3 5 70000 9)))
       (rstate_init\<lparr>rs_out_of_sync := True\<rparr>) =
     Some (length ([1, 2, 3] @ le_bytes 8 (TS_RECORD (MS_BITS 10)) @ record_bytes (sample_env 10) READ_EX 6 (Long3 5 70000 9)), R') \<and>
     rs_events R' = [Call (call_hdr (sample_env 10) 0 6 READ_EX) (C_read 5 70000 9)] \<and> \<not> rs_out_of_sync R'"
proof -
  let ?x = "(sample_env 10, 0, READ_EX, 40000, Long3 5 70000 9)"
  let ?b = "le_bytes 8 (TS_RECORD (MS_BITS 10)) @ record_bytes (sample_env 10) READ_EX 6 (Long3 5 70000 9)"
  have kn: "list_all known_call [?x]"
    by (simp del: known_call.simps, intro sample_known) (simp_all add: code_values strings_ok_def)
  have m: "message_of 6 [?x] ?b" unfolding message_of_def by (rule exI [of _ 10]) simp
  have g: "TSMS_EN \<notin> set [1, 2, 3]" by (simp add: TSMS_EN_def)
  obtain R' where "parse_rec dlogger_pconf (memory_of ([1, 2, 3] @ ?b)) (length ([1, 2, 3] @ ?b)) (rstate_init\<lparr>rs_out_of_sync := True\<rparr>) =
      Some (length ([1, 2, 3] @ ?b), R')" "told (call_events 0 6 [?x]) (in_step rstate_init) R'"
    using parser_resyncs [OF _ g m _ kn, of "rstate_init\<lparr>rs_out_of_sync := True\<rparr>" dlogger_pconf]
    by (auto simp: short_seqnum_def dlogger_pconf_def rstate_init_def pstate_init_def in_step_def)
  then show ?thesis
    by (intro exI [of _ R']) (auto simp: told_def rstate_init_def in_step_def record_events_def code_values)
qed

text \<open>
  (C34) The search for the next message can jump over it: when the byte before a message happens to be
  the first byte of a time stamp marker, three bytes are skipped, and none of the records of the
  message reaches the consumer.
\<close>

theorem resync_jumps_over_message:
  assumes "rs_out_of_sync R" "message_of sn xs b" "TSMS_EN \<notin> set (drop 1 b)"
  shows "\<exists>q R'. parse_rec c (memory_of (TSMS_EN # b)) (length (TSMS_EN # b)) R = Some (q, R') \<and>
    rs_events R' = rs_events R"
proof -
  let ?m = "memory_of (TSMS_EN # b)" and ?q = "length (TSMS_EN # b)"
  obtain t where b: "b = le_bytes 8 (TS_RECORD (MS_BITS t)) @ call_records sn xs"
    using assms(2) by (auto simp: message_of_def)
  have l: "8 \<le> length b" by (simp add: b)
  have y: "?m 0 = TSMS_EN" "?m 1 = TSMS_EN"
    using ts_record_bytes(1) [of t] by (simp_all add: memory_of_def b nth_append)
  have no: "?m i \<noteq> TSMS_EN" if "3 \<le> i" for i
  proof (cases "i < ?q")
    case True
    then have "drop 1 b ! (i - 2) = b ! (i - 1)" "i - 2 < length (drop 1 b)"
      using that by (simp_all add: nth_drop Suc_diff_Suc numeral_2_eq_2)
    then have "b ! (i - 1) \<in> set (drop 1 b)" using nth_mem by metis
    then show ?thesis using True that assms(3) by (auto simp: memory_of_def nth_Cons' )
  qed (simp add: memory_of_def TSMS_EN_def)
  have sk: "skip_to_tsms ?m ?q 0 R = (0, R)" by (subst skip_to_tsms.simps) (simp add: y)
  have "\<not> MS_REC_OK ?m 0" using y by (simp add: MS_REC_OK_def TSMS_EN_def)
  then have "parse_rec c ?m ?q R = parse_loop c True ?m ?q False 3 (R\<lparr>rs_skipped := rs_skipped R + 4\<rparr>)"
    unfolding parse_rec_def parse_buffer_def using l assms(1) sk by (subst parse_loop.simps) simp
  also have "\<dots> = (if 11 < ?q then Some (?q, R\<lparr>rs_skipped := rs_skipped R + 4 + (?q - 3)\<rparr>) else Some (3, R\<lparr>rs_skipped := rs_skipped R + 4\<rparr>))"
    using assms(1) l skip_to_tsms_all [of 3 ?q ?m, OF no] no [of ?q] by (subst parse_loop.simps) simp
  finally show ?thesis by simp
qed

theorem resync_jumps_over_message_witness:
  "\<exists>q R'. parse_rec dlogger_pconf
       (memory_of (TSMS_EN # le_bytes 8 (TS_RECORD (MS_BITS 10)) @ record_bytes (sample_env 10) READ_EX 6 (Long3 5 70000 9)))
       (length (TSMS_EN # le_bytes 8 (TS_RECORD (MS_BITS 10)) @ record_bytes (sample_env 10) READ_EX 6 (Long3 5 70000 9)))
       (rstate_init\<lparr>rs_out_of_sync := True\<rparr>) = Some (q, R') \<and> rs_events R' = []"
proof -
  let ?x = "(sample_env 10, 0, READ_EX, 40000, Long3 5 70000 9)"
  let ?b = "le_bytes 8 (TS_RECORD (MS_BITS 10)) @ record_bytes (sample_env 10) READ_EX 6 (Long3 5 70000 9)"
  have m: "message_of 6 [?x] ?b" unfolding message_of_def by (rule exI [of _ 10]) simp
  have "TSMS_EN \<notin> set (drop 1 ?b)" by code_simp
  from resync_jumps_over_message [OF _ m this, of "rstate_init\<lparr>rs_out_of_sync := True\<rparr>" dlogger_pconf] show ?thesis
    by (auto simp: rstate_init_def)
qed

text \<open>
  (C28) The parser never hangs: it returns after finitely many rounds, having moved forward to
  within eight bytes of the end or, when more input may follow, to a record that may be incomplete;
  otherwise a handler aborted the program.
\<close>

theorem parse_buffer_consumes:
  "(\<exists>p' r'. parse_buffer c ended m q p r = Some (p', r') \<and> p \<le> p' \<and>
      (q \<le> p' + 8 \<or> \<not> ended \<and> \<not> rs_out_of_sync r' \<and> needs_more ended m q p'))
   \<or> parse_buffer c ended m q p r = None \<and> (\<exists>p' r'. p \<le> p' \<and> p' < q \<and> parse_record c m q p' r' = None)"
  unfolding parse_buffer_def using parse_loop_consumes [of c ended m q p False r] by (simp add: consumes_def)

end
