(* ===== verification/Audit_Calls.thy ===== *)
theory Audit_Calls
  imports Audit_Props Stream_Events
begin

text \<open>
  What the audit probe logs for each system call, as a function of the tracepoints at its entry and
  its exit, and that the handlers log exactly that. The handlers of \<open>execve\<close> and \<open>execveat\<close>, whose records
  are not made by one call of a \<open>log_sc\<close> function, are not in the table.
\<close>

section \<open>The table\<close>

text \<open>Identifiers and lengths that the exit handlers compute; they do not depend on the log.\<close>

definition oid :: "tracepoint \<Rightarrow> s64 \<Rightarrow> u64" where
  "oid e fd = fst (proc (tp_ids e) fd (kstate_init 0))"

definition fdoid :: "tracepoint \<Rightarrow> s32 \<Rightarrow> u64" where
  "fdoid e fd = fst (fdtoid (tp_ids e) fd (kstate_init 0))"

definition slen :: "tracepoint \<Rightarrow> u64 \<Rightarrow> u64 \<Rightarrow> s32" where
  "slen e saddr alen = fst (read_slen (tp_env e) saddr alen (kstate_init 0))"

definition open_word :: "s32 \<Rightarrow> s32 \<Rightarrow> s64" where
  "open_word mode flags = push_bit 32 (to_long mode) OR to_long flags"

definition transfer :: "tracepoint \<Rightarrow> u8 \<Rightarrow> u32 \<Rightarrow> s64 \<Rightarrow> log_call list" where
  "transfer e nm w fd = (if is_err (tp_ret e) then [] else [(tp_env e, tp_nr e, nm, w, Long3 fd (oid e fd) (tp_ret e))])"

definition ids_calls :: "tracepoint \<Rightarrow> u8 \<Rightarrow> log_call list" where
  "ids_calls e nm =
     [(tp_env e, 600, nm,
       if is_err (tp_ret e) then 0 else if tp_ret e \<noteq> 0 then wt WT_CRITICAL else wt WT_IMPORTANT,
       Long3 (push_bit 32 (ucast (tp_egid e)) OR ucast (tp_euid e)) (ae_cgroup_id (tp_env e))
         ((tp_ret e AND 0xffffffff) OR push_bit 32 (ucast (tp_real_parent_pid e))))]"

text \<open>Calls at the entry \<open>a\<close>, and calls at the exit \<open>e\<close> of the system call that was entered at \<open>a\<close>.\<close>

definition call_table ::
  "(string \<times> (tracepoint \<Rightarrow> log_call list) \<times> (tracepoint \<Rightarrow> tracepoint \<Rightarrow> log_call list)) list" where
  "call_table =
    [(''open'', \<lambda>a. [], \<lambda>a e.
       if is_err (tp_ret e) then [] else [(tp_env e, tp_nr e, OPEN_EX, (open_wt (open_word (to_int (tp_args a ''mode'')) (to_int (tp_args a ''flags'')))), Str_long5 (tp_args a ''filename'') (open_word (to_int (tp_args a ''mode'')) (to_int (tp_args a ''flags''))) (to_long (to_int AT_FDCWD)) (tp_ret e) (oid e (to_long (to_int AT_FDCWD))) (fdoid e (to_int (tp_ret e))))]),
     (''openat'', \<lambda>a. [], \<lambda>a e.
       if is_err (tp_ret e) then [] else [(tp_env e, tp_nr e, OPEN_EX, (open_wt (open_word (to_int (tp_args a ''mode'')) (to_int (tp_args a ''flags'')))), Str_long5 (tp_args a ''filename'') (open_word (to_int (tp_args a ''mode'')) (to_int (tp_args a ''flags''))) (to_long (to_int (tp_args a ''dfd''))) (tp_ret e) (oid e (to_long (to_int (tp_args a ''dfd'')))) (fdoid e (to_int (tp_ret e))))]),
     (''creat'', \<lambda>a. [], \<lambda>a e.
       if is_err (tp_ret e) then [] else [(tp_env e, tp_nr e, OPEN_EX, (open_wt (open_word (to_int (tp_args a ''mode'')) (to_int (O_CREAT OR O_WRONLY OR O_TRUNC)))), Str_long5 (tp_args a ''pathname'') (open_word (to_int (tp_args a ''mode'')) (to_int (O_CREAT OR O_WRONLY OR O_TRUNC))) (to_long (to_int AT_FDCWD)) (tp_ret e) (oid e (to_long (to_int AT_FDCWD))) (fdoid e (to_int (tp_ret e))))]),
     (''truncate'', \<lambda>a. [], \<lambda>a e.
       [(tp_env e, tp_nr e, TRUNC_EX, WT_TRUNC, Str_long2 (tp_args a ''path'') (tp_args a ''length'') (tp_ret e))]),
     (''ftruncate'', \<lambda>a. [], \<lambda>a e.
       [(tp_env e, tp_nr e, FTRUNC_EX, WT_TRUNC, Long3 (oid e (tp_args a ''fd'')) (tp_args a ''length'') (push_bit 1 (tp_args a ''fd'') OR (tp_ret e AND 1)))]),
     (''close'', \<lambda>a. [(tp_env a, tp_nr a, CLOSE_EN, WT_CLOSE, Long3 (to_long (to_int (tp_args a ''fd''))) 0 0)], \<lambda>a e.
       []),
     (''accept'', \<lambda>a. [], \<lambda>a e.
       if is_err (tp_ret e) then [] else [(tp_env e, tp_nr e, ACCEPT_EX, WT_ACCEPT, Data_long3 (tp_args a ''upeer_sockaddr'') (slen e (tp_args a ''upeer_sockaddr'') (tp_args a ''upeer_addrlen'')) (tp_args a ''fd'') (tp_ret e) (fdoid e (to_int (tp_ret e))))]),
     (''accept4'', \<lambda>a. [], \<lambda>a e.
       if is_err (tp_ret e) then [] else [(tp_env e, tp_nr e, ACCEPT_EX, WT_ACCEPT, Data_long3 (tp_args a ''upeer_sockaddr'') (slen e (tp_args a ''upeer_sockaddr'') (tp_args a ''upeer_addrlen'')) (tp_args a ''fd'') (tp_ret e) (fdoid e (to_int (tp_ret e))))]),
     (''socket'', \<lambda>a. [], \<lambda>a e.
       []),
     (''connect'', \<lambda>a. [], \<lambda>a e.
       if is_err (tp_ret e) then [] else [(tp_env e, tp_nr e, CONNECT_EX, WT_CONNECT, Data_long3 (tp_args a ''uservaddr'') (to_int (tp_args a ''addrlen'')) (to_long (to_int (tp_args a ''fd''))) (fdoid e (to_int (tp_args a ''fd''))) (tp_ret e))]),
     (''getpeername'', \<lambda>a. [], \<lambda>a e.
       if is_err (tp_ret e) then [] else [(tp_env e, tp_nr e, GETPEER_EX, WT_GETPEER, Data_long3 (tp_args a ''usockaddr'') (slen e (tp_args a ''usockaddr'') (tp_args a ''usockaddr_len'')) (tp_args a ''fd'') (tp_ret e) 0)]),
     (''bind'', \<lambda>a. [], \<lambda>a e.
       [(tp_env e, tp_nr e, BIND_EX, WT_BIND, Data_long2 (tp_args a ''umyaddr'') (to_int (tp_args a ''addrlen'')) (tp_args a ''fd'') (tp_ret e))]),
     (''read'', \<lambda>a. [], \<lambda>a e.
       transfer e READ_EX WT_READ (to_long (to_int (tp_args a ''fd'')))),
     (''readv'', \<lambda>a. [], \<lambda>a e.
       transfer e READ_EX WT_READ (to_long (to_int (tp_args a ''fd'')))),
     (''recvmsg'', \<lambda>a. [], \<lambda>a e.
       transfer e READ_EX WT_READ (to_long (to_int (tp_args a ''fd'')))),
     (''recvmmsg'', \<lambda>a. [], \<lambda>a e.
       transfer e READ_EX WT_READ (to_long (to_int (tp_args a ''fd'')))),
     (''pread64'', \<lambda>a. [], \<lambda>a e.
       transfer e READ_EX WT_READ (to_long (to_int (tp_args a ''fd'')))),
     (''preadv'', \<lambda>a. [], \<lambda>a e.
       transfer e READ_EX WT_READ (to_long (to_int (tp_args a ''fd'')))),
     (''preadv2'', \<lambda>a. [], \<lambda>a e.
       transfer e READ_EX WT_READ (to_long (to_int (tp_args a ''fd'')))),
     (''recvfrom'', \<lambda>a. [], \<lambda>a e.
       if tp_args a ''addr'' = 0 \<or> tp_args a ''addr_len'' = 0 then transfer e READ_EX WT_READ (to_long (to_int (tp_args a ''fd'')))
       else if is_err (tp_ret e) then [] else [(tp_env e, tp_nr e, RECVFROM_EX, WT_RECVFROM, Data_long3 (tp_args a ''addr'') (slen e (tp_args a ''addr'') (tp_args a ''addr_len'')) (to_long (to_int (tp_args a ''fd''))) (tp_ret e) 0)]),
     (''sendfile64'', \<lambda>a. [], \<lambda>a e.
       transfer e READ_EX WT_READ (to_long (to_int (drop_bit 32 (push_bit 32 (to_long (to_int (tp_args a ''in_fd''))) + to_long (to_int (tp_args a ''out_fd'')))))) @ transfer e WRITE_EX WT_WRITE (to_long (to_int ((push_bit 32 (to_long (to_int (tp_args a ''in_fd''))) + to_long (to_int (tp_args a ''out_fd''))) AND 0xffffffff)))),
     (''copy_file_range'', \<lambda>a. [], \<lambda>a e.
       transfer e READ_EX WT_READ (to_long (to_int (drop_bit 32 (push_bit 32 (to_long (to_int (tp_args a ''fd_in''))) + to_long (to_int (tp_args a ''fd_out'')))))) @ transfer e WRITE_EX WT_WRITE (to_long (to_int ((push_bit 32 (to_long (to_int (tp_args a ''fd_in''))) + to_long (to_int (tp_args a ''fd_out''))) AND 0xffffffff)))),
     (''write'', \<lambda>a. [], \<lambda>a e.
       transfer e WRITE_EX WT_WRITE (to_long (to_int (tp_args a ''fd'')))),
     (''writev'', \<lambda>a. [], \<lambda>a e.
       transfer e WRITE_EX WT_WRITE (to_long (to_int (tp_args a ''fd'')))),
     (''sendmsg'', \<lambda>a. [], \<lambda>a e.
       transfer e WRITE_EX WT_WRITE (to_long (to_int (tp_args a ''fd'')))),
     (''sendmmsg'', \<lambda>a. [], \<lambda>a e.
       transfer e WRITE_EX WT_WRITE (to_long (to_int (tp_args a ''fd'')))),
     (''pwrite64'', \<lambda>a. [], \<lambda>a e.
       transfer e WRITE_EX WT_WRITE (to_long (to_int (tp_args a ''fd'')))),
     (''pwritev'', \<lambda>a. [], \<lambda>a e.
       transfer e WRITE_EX WT_WRITE (to_long (to_int (tp_args a ''fd'')))),
     (''pwritev2'', \<lambda>a. [], \<lambda>a e.
       transfer e WRITE_EX WT_WRITE (to_long (to_int (tp_args a ''fd'')))),
     (''sendto'', \<lambda>a. [], \<lambda>a e.
       if tp_args a ''addr'' = 0 \<or> to_int (tp_args a ''addr_len'') = 0 then transfer e WRITE_EX WT_WRITE (to_long (to_int (tp_args a ''fd'')))
       else if is_err (tp_ret e) then [] else [(tp_env e, tp_nr e, SENDTO_EX, WT_SENDTO, Data_long2 (tp_args a ''addr'') (if to_int (tp_args a ''addr_len'') <s 0 then 0 else to_int (tp_args a ''addr_len'')) (to_long (to_int (tp_args a ''fd''))) (tp_ret e))]),
     (''mprotect'', \<lambda>a. [], \<lambda>a e.
       if tp_args a ''prot'' AND PROT_EXEC = 0 then [] else if is_err (tp_ret e) then []
       else [(tp_env e, tp_nr e, MPROTECT_EX, WT_MMAP, Long3 (tp_args a ''start'') (tp_args a ''len'') (push_bit 32 (tp_ret e) OR prot_bits (tp_args a ''prot'')))]),
     (''mmap'', \<lambda>a. [], \<lambda>a e.
       if tp_args a ''flags'' AND MAP_ANONYMOUS = 0 \<or> tp_args a ''prot'' AND PROT_EXEC \<noteq> 0
       then [(tp_env e, tp_nr e, MMAP_EX, WT_MMAP, Long5 (oid e (tp_args a ''fd'')) (tp_args a ''addr'') (tp_args a ''len'') (push_bit 32 (tp_args a ''flags'') OR prot_bits (tp_args a ''prot'')) (tp_ret e))] else []),
     (''unlink'', \<lambda>a. [], \<lambda>a e.
       [(tp_env e, tp_nr e, UNLINK_EX, WT_UNLINK, Str_long3 (tp_args a ''pathname'') (AT_FDCWD) (oid e (AT_FDCWD)) (tp_ret e))]),
     (''unlinkat'', \<lambda>a. [], \<lambda>a e.
       [(tp_env e, tp_nr e, UNLINK_EX, WT_UNLINK, Str_long3 (tp_args a ''pathname'') (tp_args a ''dfd'') (oid e (tp_args a ''dfd'')) (tp_ret e))]),
     (''mkdir'', \<lambda>a. [], \<lambda>a e.
       [(tp_env e, tp_nr e, MKDIR_EX, WT_MKDIR, Str_long3 (tp_args a ''pathname'') (AT_FDCWD) (oid e (AT_FDCWD)) (push_bit 32 (tp_args a ''mode'') OR (tp_ret e AND 0xffffffff)))]),
     (''mkdirat'', \<lambda>a. [], \<lambda>a e.
       [(tp_env e, tp_nr e, MKDIR_EX, WT_MKDIR, Str_long3 (tp_args a ''pathname'') (tp_args a ''dfd'') (oid e (tp_args a ''dfd'')) (push_bit 32 (tp_args a ''mode'') OR (tp_ret e AND 0xffffffff)))]),
     (''rmdir'', \<lambda>a. [], \<lambda>a e.
       [(tp_env e, tp_nr e, RMDIR_EX, WT_RMDIR, Str_long1 (tp_args a ''pathname'') (tp_ret e))]),
     (''chdir'', \<lambda>a. [], \<lambda>a e.
       [(tp_env e, tp_nr e, CHDIR_EX, WT_CHDIR, Str_long1 (tp_args a ''filename'') (tp_ret e))]),
     (''fchdir'', \<lambda>a. [], \<lambda>a e.
       [(tp_env e, tp_nr e, FCHDIR_EX, WT_CHDIR, Long3 (tp_args a ''fd'') (oid e (tp_args a ''fd'')) (tp_ret e))]),
     (''link'', \<lambda>a. [], \<lambda>a e.
       [(tp_env e, tp_nr e, LINK_EX, WT_LINK, Str2_long5 (tp_args a ''oldname'') (tp_args a ''newname'') (AT_FDCWD) (AT_FDCWD) (push_bit 32 (AT_FDCWD) OR (tp_ret e AND 0xffffffff)) (oid e (AT_FDCWD)) (oid e (AT_FDCWD)))]),
     (''linkat'', \<lambda>a. [], \<lambda>a e.
       [(tp_env e, tp_nr e, LINK_EX, WT_LINK, Str2_long5 (tp_args a ''oldname'') (tp_args a ''newname'') (tp_args a ''olddfd'') (tp_args a ''newdfd'') (push_bit 32 (tp_args a ''flags'') OR (tp_ret e AND 0xffffffff)) (oid e (tp_args a ''olddfd'')) (oid e (tp_args a ''newdfd'')))]),
     (''symlink'', \<lambda>a. [], \<lambda>a e.
       [(tp_env e, tp_nr e, SYMLINK_EX, WT_SYMLINK, Str2_long3 (tp_args a ''oldname'') (tp_args a ''newname'') (AT_FDCWD) (oid e (AT_FDCWD)) (tp_ret e))]),
     (''symlinkat'', \<lambda>a. [], \<lambda>a e.
       [(tp_env e, tp_nr e, SYMLINK_EX, WT_SYMLINK, Str2_long3 (tp_args a ''oldname'') (tp_args a ''newname'') (tp_args a ''newdfd'') (oid e (tp_args a ''newdfd'')) (tp_ret e))]),
     (''rename'', \<lambda>a. [], \<lambda>a e.
       [(tp_env e, tp_nr e, RENAME_EX, WT_RENAME, Str2_long5 (tp_args a ''oldname'') (tp_args a ''newname'') (AT_FDCWD) (AT_FDCWD) (push_bit 32 (0) OR (tp_ret e AND 0xffffffff)) (oid e (AT_FDCWD)) (oid e (AT_FDCWD)))]),
     (''renameat'', \<lambda>a. [], \<lambda>a e.
       [(tp_env e, tp_nr e, RENAME_EX, WT_RENAME, Str2_long5 (tp_args a ''oldname'') (tp_args a ''newname'') (tp_args a ''olddfd'') (tp_args a ''newdfd'') (push_bit 32 (0) OR (tp_ret e AND 0xffffffff)) (oid e (tp_args a ''olddfd'')) (oid e (tp_args a ''newdfd'')))]),
     (''renameat2'', \<lambda>a. [], \<lambda>a e.
       [(tp_env e, tp_nr e, RENAME_EX, WT_RENAME, Str2_long5 (tp_args a ''oldname'') (tp_args a ''newname'') (tp_args a ''olddfd'') (tp_args a ''newdfd'') (push_bit 32 (tp_args a ''flags'') OR (tp_ret e AND 0xffffffff)) (oid e (tp_args a ''olddfd'')) (oid e (tp_args a ''newdfd'')))]),
     (''mknod'', \<lambda>a. [], \<lambda>a e.
       [(tp_env e, tp_nr e, MKNOD_EX, WT_MKNOD, Str_long4 (tp_args a ''filename'') (AT_FDCWD) (tp_args a ''dev'') (push_bit 8 (tp_args a ''mode'') OR (tp_ret e AND 0xff)) (oid e (AT_FDCWD)))]),
     (''mknodat'', \<lambda>a. [], \<lambda>a e.
       [(tp_env e, tp_nr e, MKNOD_EX, WT_MKNOD, Str_long4 (tp_args a ''filename'') (signed_drop_bit 32 (push_bit 32 (tp_args a ''dfd'') OR tp_args a ''mode'')) (tp_args a ''dev'') (push_bit 8 ((push_bit 32 (tp_args a ''dfd'') OR tp_args a ''mode'') AND 0xffffffff) OR (tp_ret e AND 0xff)) (oid e (signed_drop_bit 32 (push_bit 32 (tp_args a ''dfd'') OR tp_args a ''mode''))))]),
     (''tee'', \<lambda>a. [], \<lambda>a e.
       transfer e READ_EX WT_READ (to_long (to_int (tp_args a ''fdin''))) @ transfer e WRITE_EX WT_WRITE (to_long (to_int (tp_args a ''fdout'')))),
     (''mount'', \<lambda>a. [], \<lambda>a e.
       [(tp_env e, tp_nr e, MOUNT_EX, WT_MOUNT, Str3_long2 (tp_args a ''dev_name'') (tp_args a ''dir_name'') (tp_args a ''type'') (tp_args a ''flags'') (tp_ret e))]),
     (''umount'', \<lambda>a. [], \<lambda>a e.
       [(tp_env e, tp_nr e, UMOUNT_EX, WT_MOUNT, Str_long2 (tp_args a ''name'') (tp_args a ''flags'') (tp_ret e))]),
     (''splice'', \<lambda>a. [], \<lambda>a e.
       transfer e READ_EX WT_READ (to_long (to_int (tp_args a ''fd_in''))) @ transfer e WRITE_EX WT_WRITE (to_long (to_int (tp_args a ''fd_out'')))),
     (''vmsplice'', \<lambda>a. [], \<lambda>a e.
       [(tp_env e, tp_nr e, VMSPLICE_EX, WT_VMSPLICE, Long3 (tp_args a ''fd'') (oid e (tp_args a ''fd'')) (tp_ret e))]),
     (''kill'', \<lambda>a. if 0 <s to_int (tp_args a ''sig'') then [(tp_env a, tp_nr a, KILL_EN, WT_KILL, Long2 (tp_args a ''pid'') (to_long (to_int (tp_args a ''sig''))))] else [], \<lambda>a e.
       if 0 <s to_int (tp_args a ''sig'') then [(tp_env e, 600, KILL_EX, 0, Long1 (tp_ret e))] else []),
     (''tkill'', \<lambda>a. if 0 <s tp_args a ''sig'' \<and> 0 <s to_int (tp_args a ''sig'') then [(tp_env a, tp_nr a, KILL_EN, WT_KILL, Long2 (push_bit 32 (tp_args a ''pid'')) (to_long (to_int (tp_args a ''sig''))))] else [], \<lambda>a e.
       if 0 <s tp_args a ''sig'' \<and> 0 <s to_int (tp_args a ''sig'') then [(tp_env e, 600, KILL_EX, 0, Long1 (tp_ret e))] else []),
     (''tgkill'', \<lambda>a. if 0 <s tp_args a ''sig'' \<and> 0 <s to_int (tp_args a ''sig'') then [(tp_env a, tp_nr a, KILL_EN, WT_KILL, Long2 (push_bit 32 (tp_args a ''pid'') OR tp_args a ''tgid'') (to_long (to_int (tp_args a ''sig''))))] else [], \<lambda>a e.
       if 0 <s tp_args a ''sig'' \<and> 0 <s to_int (tp_args a ''sig'') then [(tp_env e, 600, KILL_EX, 0, Long1 (tp_ret e))] else []),
     (''ptrace'', \<lambda>a. [(tp_env a, tp_nr a, PTRACE_EN, WT_PTRACE, Long2 (tp_args a ''request'') (tp_args a ''pid''))], \<lambda>a e.
       [(tp_env e, 600, PTRACE_EX, 0, Long1 (tp_ret e))]),
     (''chmod'', \<lambda>a. [], \<lambda>a e.
       [(tp_env e, tp_nr e, CHMOD_EX, WT_CHMOD, Str_long4 (tp_args a ''filename'') AT_FDCWD (tp_args a ''mode'') (push_bit 8 0 OR tp_ret e) (oid e AT_FDCWD))]),
     (''fchmodat'', \<lambda>a. [], \<lambda>a e.
       [(tp_env e, tp_nr e, CHMOD_EX, WT_CHMOD, Str_long4 (tp_args a ''filename'') (signed_drop_bit 32 (push_bit 32 (tp_args a ''dfd''))) (tp_args a ''mode'') (push_bit 8 ((push_bit 32 (tp_args a ''dfd'')) AND 0xffffffff) OR tp_ret e) (oid e (signed_drop_bit 32 (push_bit 32 (tp_args a ''dfd'')))))]),
     (''fchmod'', \<lambda>a. [], \<lambda>a e.
       [(tp_env e, tp_nr e, FCHMOD_EX, WT_FCHMOD, Long3 (tp_args a ''mode'') (oid e (tp_args a ''fd'')) (push_bit 8 (tp_args a ''fd'') OR char_of_ret (tp_ret e)))]),
     (''chown'', \<lambda>a. [], \<lambda>a e.
       [(tp_env e, tp_nr e, CHOWN_EX, WT_CHOWN, Str_long5 (tp_args a ''filename'') (AT_FDCWD) (tp_args a ''user'') (tp_args a ''group'') (oid e (AT_FDCWD)) (push_bit 8 (0) OR char_of_ret (tp_ret e)))]),
     (''lchown'', \<lambda>a. [], \<lambda>a e.
       [(tp_env e, tp_nr e, CHOWN_EX, WT_CHOWN, Str_long5 (tp_args a ''filename'') (AT_FDCWD) (tp_args a ''user'') (tp_args a ''group'') (oid e (AT_FDCWD)) (push_bit 8 (AT_SYMLINK_NOFOLLOW) OR char_of_ret (tp_ret e)))]),
     (''fchownat'', \<lambda>a. [], \<lambda>a e.
       [(tp_env e, tp_nr e, CHOWN_EX, WT_CHOWN, Str_long5 (tp_args a ''filename'') (to_long (to_int (tp_args a ''dfd''))) (tp_args a ''user'') (tp_args a ''group'') (oid e (to_long (to_int (tp_args a ''dfd'')))) (push_bit 8 (tp_args a ''flag'') OR char_of_ret (tp_ret e)))]),
     (''fchown'', \<lambda>a. [], \<lambda>a e.
       [(tp_env e, tp_nr e, FCHOWN_EX, WT_FCHOWN, Long4 (tp_args a ''user'') (tp_args a ''group'') (push_bit 8 (tp_args a ''fd'') OR char_of_ret (tp_ret e)) (oid e (tp_args a ''fd'')))]),
     (''setresuid'', \<lambda>a. [], \<lambda>a e.
       [(tp_env e, tp_nr e, SETUID_EX, WT_SETUID, Long4 (tp_args a ''ruid'') (tp_args a ''euid'') (tp_args a ''suid'') (tp_ret e))]),
     (''setreuid'', \<lambda>a. [], \<lambda>a e.
       [(tp_env e, tp_nr e, SETUID_EX, WT_SETUID, Long4 (tp_args a ''ruid'') (tp_args a ''euid'') (INVAL_UID) (tp_ret e))]),
     (''setuid'', \<lambda>a. [], \<lambda>a e.
       [(tp_env e, tp_nr e, SETUID_EX, WT_SETUID, Long4 (INVAL_UID) (tp_args a ''uid'') (INVAL_UID) (tp_ret e))]),
     (''setresgid'', \<lambda>a. [], \<lambda>a e.
       [(tp_env e, tp_nr e, SETGID_EX, WT_SETGID, Long4 (tp_args a ''rgid'') (tp_args a ''egid'') (tp_args a ''sgid'') (tp_ret e))]),
     (''setregid'', \<lambda>a. [], \<lambda>a e.
       [(tp_env e, tp_nr e, SETGID_EX, WT_SETGID, Long4 (tp_args a ''rgid'') (tp_args a ''egid'') (INVAL_UID) (tp_ret e))]),
     (''setgid'', \<lambda>a. [], \<lambda>a e.
       [(tp_env e, tp_nr e, SETGID_EX, WT_SETGID, Long4 (INVAL_UID) (tp_args a ''gid'') (INVAL_UID) (tp_ret e))]),
     (''fork'', \<lambda>a. [(tp_env a, tp_nr a, FORK_EN, WT_FORK, Long0)], \<lambda>a e.
       ids_calls e FORK_EX),
     (''vfork'', \<lambda>a. [(tp_env a, tp_nr a, FORK_EN, WT_FORK, Long0)], \<lambda>a e.
       ids_calls e FORK_EX),
     (''clone'', \<lambda>a. [(tp_env a, tp_nr a, CLONE_EN, WT_FORK, Long1 (tp_args a ''clone_flags''))], \<lambda>a e.
       ids_calls e CLONE_EX),
     (''clone3'', \<lambda>a. [(tp_env a, tp_nr a, CLONE_EN, WT_FORK, Long1 (case probe_read (tp_env a) (tp_args a ''uargs'') 8 of None \<Rightarrow> 0 | Some bs \<Rightarrow> of_le bs))], \<lambda>a e.
       ids_calls e CLONE_EX),
     (''exit'', \<lambda>a. [(tp_env a, tp_nr a, EXIT_EN, WT_EXIT, Long1 (tp_args a ''error_code''))], \<lambda>a e.
       []),
     (''exit_group'', \<lambda>a. [(tp_env a, tp_nr a, EXITGRP_EN, WT_EXIT, Long1 (tp_args a ''error_code''))], \<lambda>a e.
       []),
     (''init_module'', \<lambda>a. [], \<lambda>a e.
       [(tp_env e, tp_nr e, INITMOD_EX, WT_INITMOD, Str_long1 (tp_args a ''uargs'') (tp_ret e))]),
     (''finit_module'', \<lambda>a. [], \<lambda>a e.
       [(tp_env e, tp_nr e, FINITMOD_EX, WT_FINITMOD, Str_long4 (tp_args a ''uargs'') (tp_args a ''fd'') (tp_args a ''flags'') (tp_ret e) (oid e (tp_args a ''fd'')))])]"

section \<open>Logging actions\<close>

text \<open>The log grows by the records of some calls; counters may change in between.\<close>

inductive logs :: "config \<Rightarrow> log_call list \<Rightarrow> kstate \<Rightarrow> kstate \<Rightarrow> bool" for c where
  none: "logs c [] k k"
| stat: "logs c xs k k' \<Longrightarrow> same_log k' k'' \<Longrightarrow> logs c xs k k''"
| call: "logs c xs k k' \<Longrightarrow> logs c (xs @ [x]) k (do_call c x k')"

lemma logs_append:
  assumes "logs c ys k' k''" "logs c xs k k'" shows "logs c (xs @ ys) k k''"
  using assms
proof (induction rule: logs.induct)
  case (call ys k k' y)
  then show ?case using logs.call [of c "xs @ ys"] by simp
qed (auto intro: logs.intros)

lemma logs_same: "same_log k k' \<Longrightarrow> logs c [] k k'"
  by (rule logs.stat [OF logs.none])

lemma logs_single: "logs c [x] k (do_call c x k)"
  using logs.call [OF logs.none, of c x k] by simp

text \<open>Functions whose result does not depend on the log and that change counters only.\<close>

definition counting :: "(kstate \<Rightarrow> 'a \<times> kstate) \<Rightarrow> bool" where
  "counting f \<longleftrightarrow> (\<forall>k k'. fst (f k) = fst (f k')) \<and> (\<forall>k. same_log k (snd (f k)))"

lemma countingD: "counting f \<Longrightarrow> same_log k (snd (f k))" "counting f \<Longrightarrow> fst (f k) = fst (f k')"
  unfolding counting_def by blast+

lemma same_log_if: "same_log k k' \<Longrightarrow> same_log k (if b then stat_add i n k' else k')"
  using same_log_trans [OF _ same_log_stat] by simp

lemma counting_if: "counting f \<Longrightarrow> counting g \<Longrightarrow> counting (\<lambda>k. if b then f k else g k)"
  by (cases b) simp_all

lemma counting_bind:
  assumes "counting f" "\<And>x. counting (g x)" shows "counting (\<lambda>k. case f k of (x, k) \<Rightarrow> g x k)"
  unfolding counting_def split_def
proof (intro conjI allI)
  fix k k'
  show "fst (g (fst (f k)) (snd (f k))) = fst (g (fst (f k')) (snd (f k')))"
    unfolding countingD(2) [OF assms(1), of k k'] by (rule countingD(2) [OF assms(2)])
  show "same_log k (snd (g (fst (f k)) (snd (f k))))"
    by (rule same_log_trans [OF countingD(1) [OF assms(1)] countingD(1) [OF assms(2)]])
qed

lemma counting_ids:
  "counting (file2fid n)" "counting (file2pipeid n)" "counting (inetid2objid r l kd fm)" "counting (v6ep2id a p)"
  by (simp_all add: counting_def file2fid_def file2pipeid_def inetid2objid_def v6ep2id_def Let_def same_log_if)

lemma counting_stat: "counting (\<lambda>k. (x, if b then stat_add i n k else k))" "counting (\<lambda>k. (x, k))"
  by (simp_all add: counting_def same_log_if)

lemma counting_inc: "counting (\<lambda>k. (x, stat_add i n k))"
  using counting_stat(1) [of x True i n] by simp

lemma counting_option: "counting f \<Longrightarrow> (\<And>v. counting (g v)) \<Longrightarrow> counting (\<lambda>k. case x of None \<Rightarrow> f k | Some v \<Rightarrow> g v k)"
  by (cases x) simp_all

lemma counting_sockid: "counting (file2sockid ub st sk)"
  unfolding file2sockid_def [abs_def] Let_def
  by (intro counting_if counting_bind counting_ids counting_stat)

lemma counting_after: "counting f \<Longrightarrow> counting (\<lambda>k. f (stat_add i n k))"
  using same_log_trans [OF same_log_stat] unfolding counting_def by blast

lemma counting_fdtoid: "counting (fdtoid i fd)"
  unfolding fdtoid_def [abs_def] Let_def
  by (intro counting_option counting_if counting_after [OF counting_ids(1)] counting_after [OF counting_ids(2)]
      counting_after [OF counting_sockid] counting_after [OF counting_inc])

lemmas fdtoid_stat = countingD [OF counting_fdtoid]

lemma proc_stat: "same_log k (snd (proc i fd k))" "fst (proc i fd k) = fst (proc i fd k')"
  using fdtoid_stat by (simp_all add: proc_def)

lemma read_slen_stat: "same_log k (snd (read_slen e a l k))" "fst (read_slen e a l k) = fst (read_slen e a l k')"
  by (simp_all add: read_slen_def split: option.splits)

text \<open>An action that only logs.\<close>

definition act :: "config \<Rightarrow> (astate \<Rightarrow> astate) \<Rightarrow> log_call list \<Rightarrow> bool" where
  "act c f xs \<longleftrightarrow> (\<forall>k. \<exists>k'. f (fresh k) = fresh k' \<and> logs c xs k k')"

named_theorems act_intros

lemma fresh_simps [simp]: "on_k f (fresh k) = fresh (f k)" "(fresh k)\<lparr>as_k := k'\<rparr> = fresh k'"
  by (simp_all add: fresh_def on_k_def)

lemma act_logs: "act c f xs \<Longrightarrow> logs c xs k (as_k (f (fresh k)))"
  by (auto simp: act_def dest!: spec [of _ k])

lemma logs_eq: "logs c xs k k' \<Longrightarrow> xs = ys \<Longrightarrow> logs c ys k k'"
  by simp

lemma act_id [act_intros]: "act c (\<lambda>s. s) []"
  by (auto simp: act_def intro: logs.none)

lemma act_on_k: "(\<And>k. logs c xs k (f k)) \<Longrightarrow> act c (on_k f) xs"
  by (auto simp: act_def)

lemma act_call:
  assumes "\<And>k. f k = do_call c x k" shows "act c (on_k f) [x]"
  using logs_single by (intro act_on_k) (simp add: assms)

lemma act_calls [act_intros]:
  "act c (on_k (log_sc_long1 c e sc nm w a1)) [(e, sc, nm, w, Long1 a1)]"
  "act c (on_k (log_sc_long3 c e sc nm w a1 a2 a3)) [(e, sc, nm, w, Long3 a1 a2 a3)]"
  "act c (on_k (log_sc_long4 c e sc nm w a1 a2 a3 a4)) [(e, sc, nm, w, Long4 a1 a2 a3 a4)]"
  "act c (on_k (log_sc_long5 c e sc nm w a1 a2 a3 a4 a5)) [(e, sc, nm, w, Long5 a1 a2 a3 a4 a5)]"
  "act c (on_k (log_sc_str_long1 c e sc nm w f a1)) [(e, sc, nm, w, Str_long1 f a1)]"
  "act c (on_k (log_sc_str_long2 c e sc nm w f a1 a2)) [(e, sc, nm, w, Str_long2 f a1 a2)]"
  "act c (on_k (log_sc_str_long3 c e sc nm w f a1 a2 a3)) [(e, sc, nm, w, Str_long3 f a1 a2 a3)]"
  "act c (on_k (log_sc_str_long4 c e sc nm w f a1 a2 a3 a4)) [(e, sc, nm, w, Str_long4 f a1 a2 a3 a4)]"
  "act c (on_k (log_sc_str_long5 c e sc nm w f a1 a2 a3 a4 a5)) [(e, sc, nm, w, Str_long5 f a1 a2 a3 a4 a5)]"
  "act c (on_k (log_sc_str2_long3 c e sc nm w f g a1 a2 a3)) [(e, sc, nm, w, Str2_long3 f g a1 a2 a3)]"
  "act c (on_k (log_sc_str2_long5 c e sc nm w f g a1 a2 a3 a4 a5)) [(e, sc, nm, w, Str2_long5 f g a1 a2 a3 a4 a5)]"
  "act c (on_k (log_sc_str3_long2 c e sc nm w f g h a1 a2)) [(e, sc, nm, w, Str3_long2 f g h a1 a2)]"
  by (rule act_call, simp)+

lemma act_log_data: "(\<And>k. fst (f k) = do_call c x k) \<Longrightarrow> act c (log_data f i) [x]"
  unfolding log_data_def using logs_single [of c x] logs.stat [OF logs_single same_log_stat, of c x]
  by (intro act_on_k) (simp add: split_def)

lemma act_data [act_intros]:
  "act c (log_data (log_sc_data_long2 c e sc nm w d n a1 a2) i) [(e, sc, nm, w, Data_long2 d n a1 a2)]"
  "act c (log_data (log_sc_data_long3 c e sc nm w d n a1 a2 a3) i) [(e, sc, nm, w, Data_long3 d n a1 a2 a3)]"
  by (rule act_log_data, simp)+

lemma act_if [act_intros]: "act c f xs \<Longrightarrow> act c g ys \<Longrightarrow> act c (if b then f else g) (if b then xs else ys)"
  by simp

lemma act_if_app [act_intros]: "act c f xs \<Longrightarrow> act c g ys \<Longrightarrow> act c (\<lambda>s. if b then f s else g s) (if b then xs else ys)"
  by (cases b) simp_all

lemma act_comp: "act c f xs \<Longrightarrow> act c g ys \<Longrightarrow> act c (\<lambda>s. g (f s)) (xs @ ys)"
  unfolding act_def by (metis logs_append)

lemma act_same: "act c f xs \<Longrightarrow> same_log k k' \<Longrightarrow> \<exists>k''. f (fresh k') = fresh k'' \<and> logs c xs k k''"
  using logs_append [OF _ logs_same, of c xs k' _ k] unfolding act_def by fastforce

lemma act_proc [act_intros]:
  assumes "act c (f (oid e fd)) xs" shows "act c (with_proc e fd f) xs"
  unfolding act_def
proof
  fix k
  have "fst (proc (tp_ids e) fd k) = oid e fd" unfolding oid_def by (rule proc_stat)
  then show "\<exists>k'. with_proc e fd f (fresh k) = fresh k' \<and> logs c xs k k'"
    using act_same [OF assms proc_stat(1) [of k "tp_ids e" fd]] by (simp add: with_proc_def split_def Let_def)
qed

lemma act_fdtoid [act_intros]:
  assumes "act c (f (fdoid e fd)) xs" shows "act c (with_fdtoid e fd f) xs"
  unfolding act_def
proof
  fix k
  have "fst (fdtoid (tp_ids e) fd k) = fdoid e fd" unfolding fdoid_def by (rule fdtoid_stat)
  then show "\<exists>k'. with_fdtoid e fd f (fresh k) = fresh k' \<and> logs c xs k k'"
    using act_same [OF assms fdtoid_stat(1) [of k "tp_ids e" fd]] by (simp add: with_fdtoid_def split_def Let_def)
qed

lemma act_slen:
  assumes "act c (f (slen e saddr alen)) xs"
  shows "act c (\<lambda>s. let (n, k) = read_slen (tp_env e) saddr alen (as_k s) in f n (s\<lparr>as_k := k\<rparr>)) xs"
  unfolding act_def
proof
  fix k0
  have "fst (read_slen (tp_env e) saddr alen k0) = slen e saddr alen" unfolding slen_def by (rule read_slen_stat)
  then show "\<exists>k'. (let (n, k) = read_slen (tp_env e) saddr alen (as_k (fresh k0)) in f n (fresh k0\<lparr>as_k := k\<rparr>)) = fresh k' \<and>
      logs c xs k0 k'"
    using act_same [OF assms read_slen_stat(1) [of k0 "tp_env e" saddr alen]] by (simp add: split_def Let_def)
qed

lemma act_read [act_intros]: "act c (log_read c e (tp_nr e) nm fd (tp_ret e)) (transfer e nm WT_READ (to_long fd))"
  unfolding log_read_def transfer_def by (intro act_intros)

lemma act_write [act_intros]: "act c (log_write c e (tp_nr e) nm fd (tp_ret e)) (transfer e nm WT_WRITE (to_long fd))"
  unfolding log_write_def transfer_def by (intro act_intros)

section \<open>The handlers log what the table says\<close>

text \<open>The state of the tables after an entry handler.\<close>

definition holding1 :: "u32 \<Rightarrow> u64 \<Rightarrow> kstate \<Rightarrow> astate" where
  "holding1 t v k = (fresh k)\<lparr>as_arg := [t \<mapsto> v]\<rparr>"

definition holding3 :: "u32 \<Rightarrow> u64 \<times> u64 \<times> u64 \<Rightarrow> kstate \<Rightarrow> astate" where
  "holding3 t v k = (fresh k)\<lparr>as_arg3 := [t \<mapsto> v]\<rparr>"

definition holding5 :: "u32 \<Rightarrow> u64 \<times> u64 \<times> u64 \<times> u64 \<times> u64 \<Rightarrow> kstate \<Rightarrow> astate" where
  "holding5 t v k = (fresh k)\<lparr>as_arg5 := [t \<mapsto> v]\<rparr>"

lemmas holding_defs = holding1_def holding3_def holding5_def fresh_def

lemma holding_simps:
  "arg_record e d (fresh k) = holding1 (tid e) d k"
  "arg3_record e x1 x2 x3 (fresh k) = holding3 (tid e) (x1, x2, x3) k"
  "arg5_record e x1 x2 x3 x4 x5 (fresh k) = holding5 (tid e) (x1, x2, x3, x4, x5) k"
  "(fresh k)\<lparr>as_k := k'\<rparr> = fresh k'" "(holding1 t v1 k)\<lparr>as_k := k'\<rparr> = holding1 t v1 k'"
  "(holding3 t v3 k)\<lparr>as_k := k'\<rparr> = holding3 t v3 k'" "(holding5 t v5 k)\<lparr>as_k := k'\<rparr> = holding5 t v5 k'"
  "on_k f (fresh k) = fresh (f k)" "on_k f (holding1 t v1 k) = holding1 t v1 (f k)"
  "as_k (fresh k) = k" "as_k (holding1 t v1 k) = k" "as_k (holding3 t v3 k) = k" "as_k (holding5 t v5 k) = k"
  by (auto simp: holding_defs on_k_def arg_record_def arg3_record_def arg5_record_def lru_update_def fun_eq_iff)

lemma holding_fetch:
  "arg_retrieve_and_delete c e sc (holding1 (tid e) v1 k) = (fresh k, Some v1)"
  "arg3_retrieve_and_delete c e sc (holding3 (tid e) v3 k) = (fresh k, Some v3)"
  "arg5_retrieve_and_delete c e sc (holding5 (tid e) v5 k) = (fresh k, Some v5)"
  "arg_retrieve_and_delete c e 600 (holding3 t v3 k) = (holding3 t v3 k, None)"
  "arg_retrieve_and_delete c e 600 (fresh k) = (fresh k, None)" "arg3_retrieve_and_delete c e 600 (fresh k) = (fresh k, None)"
  "arg5_retrieve_and_delete c e 600 (fresh k) = (fresh k, None)"
  by (simp_all add: holding_defs arg_retrieve_and_delete_def arg3_retrieve_and_delete_def arg5_retrieve_and_delete_def
      unexp_arg_lookup_err_def bpf_delete_def)

lemma found_simps: "if_found (s, Some v) f = f v s" "if_found (s, None) f = s"
  by (simp_all add: if_found_def)

definition logged :: "handler \<Rightarrow> handler \<Rightarrow> (tracepoint \<Rightarrow> log_call list) \<Rightarrow> (tracepoint \<Rightarrow> tracepoint \<Rightarrow> log_call list) \<Rightarrow> bool" where
  "logged enter exit E X \<longleftrightarrow> (\<forall>c a e k. logging a \<longrightarrow> logging e \<longrightarrow> \<not> is_dlogger_descendant c (tp_env a) \<longrightarrow>
     \<not> is_dlogger_descendant c (tp_env e) \<longrightarrow> tid a = tid e \<longrightarrow>
     logs c (E a) k (as_k (enter c a (fresh k))) \<and> logs c (X a e) k (as_k (exit c e ((enter c a (fresh k))\<lparr>as_k := k\<rparr>))))"

lemmas handler_simps = logging_on if_True if_False simp_thms holding_simps holding_fetch found_simps prod.case Let_def

lemma logs_call1: "k' = do_call c x k \<Longrightarrow> logs c [x] k k'"
  by (simp add: logs_single)

lemma logs_calls:
  "logs c [(e, sc, nm, w, Long0)] k (log_sc_long0 c e sc nm w k)"
  "logs c [(e, sc, nm, w, Long1 a1)] k (log_sc_long1 c e sc nm w a1 k)"
  "logs c [(e, sc, nm, w, Long2 a1 a2)] k (log_sc_long2 c e sc nm w a1 a2 k)"
  "logs c [(e, sc, nm, w, Long3 a1 a2 a3)] k (log_sc_long3 c e sc nm w a1 a2 a3 k)"
  "logs c [(e, sc, nm, w, Long4 a1 a2 a3 a4)] k (log_sc_long4 c e sc nm w a1 a2 a3 a4 k)"
  "logs c [(e, sc, nm, w, Str_long1 f a1)] k (log_sc_str_long1 c e sc nm w f a1 k)"
  "logs c [(e, sc, nm, w, Str_long2 f a1 a2)] k (log_sc_str_long2 c e sc nm w f a1 a2 k)"
  "logs c [(e, sc, nm, w, Str3_long2 f g h a1 a2)] k (log_sc_str3_long2 c e sc nm w f g h a1 a2 k)"
  by (rule logs_call1, simp)+

lemma logs_saddr:
  "logs c (if is_err (tp_ret e) then []
     else [(tp_env e, sc, nm, w, Data_long3 saddr (slen e saddr alen) fd (tp_ret e) (if flag then fdoid e (to_int (tp_ret e)) else 0))])
   k (as_k (log_sc_exit_with_saddr c e sc nm w (tp_ret e) flag errsc (holding3 (tid e) (saddr, alen, fd) k)))"
proof (cases "is_err (tp_ret e)")
  case True
  then show ?thesis by (simp add: log_sc_exit_with_saddr_def holding_fetch found_simps logs.none)
next
  case False
  let ?F = "\<lambda>oid s. let (n, k) = read_slen (tp_env e) saddr alen (as_k s)
      in log_data (log_sc_data_long3 c (tp_env e) sc nm w saddr n fd (tp_ret e) oid) SADDR_DATA_ERR (s\<lparr>as_k := k\<rparr>)"
  have F: "act c (?F oid) [(tp_env e, sc, nm, w, Data_long3 saddr (slen e saddr alen) fd (tp_ret e) oid)]" for oid
    by (rule act_slen, rule act_data)
  have "act c ((if flag then with_fdtoid e (to_int (tp_ret e)) else (\<lambda>f. f 0)) ?F)
      [(tp_env e, sc, nm, w, Data_long3 saddr (slen e saddr alen) fd (tp_ret e) (if flag then fdoid e (to_int (tp_ret e)) else 0))]"
    by (cases flag) (simp_all only: if_True if_False F, rule act_fdtoid, rule F)
  from act_logs [OF this] False show ?thesis
    by (simp add: log_sc_exit_with_saddr_def holding_fetch found_simps del: fresh_simps cong del: if_cong)
qed

lemma logs_ids: "nm = FORK_EX \<or> nm = CLONE_EX \<Longrightarrow> logs c (ids_calls e nm) k (ids_log c e nm (tp_ret e) x k)"
proof -
  assume "nm = FORK_EX \<or> nm = CLONE_EX"
  then obtain k' where "ids_log c e nm (tp_ret e) x k = do_call c (hd (ids_calls e nm)) k'" "same_log k k'"
    by (cases "is_err (tp_ret e)"; cases "tp_ret e = 0") (auto simp: ids_log_def ids_calls_def Let_def split: if_splits)
  then show ?thesis
    using logs_append [OF logs_single logs_same, of k k' c "hd (ids_calls e nm)"] by (simp add: ids_calls_def)
qed

lemma logs_two:
  "logs c (transfer e n1 WT_READ (to_long f1) @ transfer e n2 WT_WRITE (to_long f2)) k
     (as_k (log_write c e (tp_nr e) n2 f2 (tp_ret e) (log_read c e (tp_nr e) n1 f1 (tp_ret e) (fresh k))))"
  by (rule act_logs [OF act_comp [OF act_read act_write]])

lemmas helper_defs =
  store_open_args_def log_open_exit_def store_saddr_arg_def read_entry_def write_entry_def read_exit_found write_exit_found
  sendfile64_entry_def sendfile64_exit_def log_unlink_def log_mkdir_def log_link_def log_symlink_def log_rename_def log_mknod_def
  log_chmod_def log_chown_def exit_with_ids_case no_handler_def

lemma logged_calls:
  "logged sys_enter_open sys_exit_open (\<lambda>a. []) (\<lambda>a e. if is_err (tp_ret e) then [] else [(tp_env e, tp_nr e, OPEN_EX, (open_wt (open_word (to_int (tp_args a ''mode'')) (to_int (tp_args a ''flags'')))), Str_long5 (tp_args a ''filename'') (open_word (to_int (tp_args a ''mode'')) (to_int (tp_args a ''flags''))) (to_long (to_int AT_FDCWD)) (tp_ret e) (oid e (to_long (to_int AT_FDCWD))) (fdoid e (to_int (tp_ret e))))])"
  "logged sys_enter_openat sys_exit_openat (\<lambda>a. []) (\<lambda>a e. if is_err (tp_ret e) then [] else [(tp_env e, tp_nr e, OPEN_EX, (open_wt (open_word (to_int (tp_args a ''mode'')) (to_int (tp_args a ''flags'')))), Str_long5 (tp_args a ''filename'') (open_word (to_int (tp_args a ''mode'')) (to_int (tp_args a ''flags''))) (to_long (to_int (tp_args a ''dfd''))) (tp_ret e) (oid e (to_long (to_int (tp_args a ''dfd'')))) (fdoid e (to_int (tp_ret e))))])"
  "logged sys_enter_creat sys_exit_creat (\<lambda>a. []) (\<lambda>a e. if is_err (tp_ret e) then [] else [(tp_env e, tp_nr e, OPEN_EX, (open_wt (open_word (to_int (tp_args a ''mode'')) (to_int (O_CREAT OR O_WRONLY OR O_TRUNC)))), Str_long5 (tp_args a ''pathname'') (open_word (to_int (tp_args a ''mode'')) (to_int (O_CREAT OR O_WRONLY OR O_TRUNC))) (to_long (to_int AT_FDCWD)) (tp_ret e) (oid e (to_long (to_int AT_FDCWD))) (fdoid e (to_int (tp_ret e))))])"
  "logged sys_enter_truncate sys_exit_truncate (\<lambda>a. []) (\<lambda>a e. [(tp_env e, tp_nr e, TRUNC_EX, WT_TRUNC, Str_long2 (tp_args a ''path'') (tp_args a ''length'') (tp_ret e))])"
  "logged sys_enter_ftruncate sys_exit_ftruncate (\<lambda>a. []) (\<lambda>a e. [(tp_env e, tp_nr e, FTRUNC_EX, WT_TRUNC, Long3 (oid e (tp_args a ''fd'')) (tp_args a ''length'') (push_bit 1 (tp_args a ''fd'') OR (tp_ret e AND 1)))])"
  "logged sys_enter_close no_handler (\<lambda>a. [(tp_env a, tp_nr a, CLOSE_EN, WT_CLOSE, Long3 (to_long (to_int (tp_args a ''fd''))) 0 0)]) (\<lambda>a e. [])"
  "logged sys_enter_accept sys_exit_accept (\<lambda>a. []) (\<lambda>a e. if is_err (tp_ret e) then [] else [(tp_env e, tp_nr e, ACCEPT_EX, WT_ACCEPT, Data_long3 (tp_args a ''upeer_sockaddr'') (slen e (tp_args a ''upeer_sockaddr'') (tp_args a ''upeer_addrlen'')) (tp_args a ''fd'') (tp_ret e) (fdoid e (to_int (tp_ret e))))])"
  "logged sys_enter_accept4 sys_exit_accept4 (\<lambda>a. []) (\<lambda>a e. if is_err (tp_ret e) then [] else [(tp_env e, tp_nr e, ACCEPT_EX, WT_ACCEPT, Data_long3 (tp_args a ''upeer_sockaddr'') (slen e (tp_args a ''upeer_sockaddr'') (tp_args a ''upeer_addrlen'')) (tp_args a ''fd'') (tp_ret e) (fdoid e (to_int (tp_ret e))))])"
  "logged no_handler sys_exit_socket (\<lambda>a. []) (\<lambda>a e. [])"
  "logged sys_enter_connect sys_exit_connect (\<lambda>a. []) (\<lambda>a e. if is_err (tp_ret e) then [] else [(tp_env e, tp_nr e, CONNECT_EX, WT_CONNECT, Data_long3 (tp_args a ''uservaddr'') (to_int (tp_args a ''addrlen'')) (to_long (to_int (tp_args a ''fd''))) (fdoid e (to_int (tp_args a ''fd''))) (tp_ret e))])"
  "logged sys_enter_getpeername sys_exit_getpeername (\<lambda>a. []) (\<lambda>a e. if is_err (tp_ret e) then [] else [(tp_env e, tp_nr e, GETPEER_EX, WT_GETPEER, Data_long3 (tp_args a ''usockaddr'') (slen e (tp_args a ''usockaddr'') (tp_args a ''usockaddr_len'')) (tp_args a ''fd'') (tp_ret e) 0)])"
  "logged sys_enter_bind sys_exit_bind (\<lambda>a. []) (\<lambda>a e. [(tp_env e, tp_nr e, BIND_EX, WT_BIND, Data_long2 (tp_args a ''umyaddr'') (to_int (tp_args a ''addrlen'')) (tp_args a ''fd'') (tp_ret e))])"
  "logged sys_enter_read sys_exit_read (\<lambda>a. []) (\<lambda>a e. transfer e READ_EX WT_READ (to_long (to_int (tp_args a ''fd''))))"
  "logged sys_enter_readv sys_exit_readv (\<lambda>a. []) (\<lambda>a e. transfer e READ_EX WT_READ (to_long (to_int (tp_args a ''fd''))))"
  "logged sys_enter_recvmsg sys_exit_recvmsg (\<lambda>a. []) (\<lambda>a e. transfer e READ_EX WT_READ (to_long (to_int (tp_args a ''fd''))))"
  "logged sys_enter_recvmmsg sys_exit_recvmmsg (\<lambda>a. []) (\<lambda>a e. transfer e READ_EX WT_READ (to_long (to_int (tp_args a ''fd''))))"
  "logged sys_enter_pread64 sys_exit_pread64 (\<lambda>a. []) (\<lambda>a e. transfer e READ_EX WT_READ (to_long (to_int (tp_args a ''fd''))))"
  "logged sys_enter_preadv sys_exit_preadv (\<lambda>a. []) (\<lambda>a e. transfer e READ_EX WT_READ (to_long (to_int (tp_args a ''fd''))))"
  "logged sys_enter_preadv2 sys_exit_preadv2 (\<lambda>a. []) (\<lambda>a e. transfer e READ_EX WT_READ (to_long (to_int (tp_args a ''fd''))))"
  "logged sys_enter_sendfile64 sys_exit_sendfile64 (\<lambda>a. []) (\<lambda>a e. transfer e READ_EX WT_READ (to_long (to_int (drop_bit 32 (push_bit 32 (to_long (to_int (tp_args a ''in_fd''))) + to_long (to_int (tp_args a ''out_fd'')))))) @ transfer e WRITE_EX WT_WRITE (to_long (to_int ((push_bit 32 (to_long (to_int (tp_args a ''in_fd''))) + to_long (to_int (tp_args a ''out_fd''))) AND 0xffffffff))))"
  "logged sys_enter_copy_file_range sys_exit_copy_file_range (\<lambda>a. []) (\<lambda>a e. transfer e READ_EX WT_READ (to_long (to_int (drop_bit 32 (push_bit 32 (to_long (to_int (tp_args a ''fd_in''))) + to_long (to_int (tp_args a ''fd_out'')))))) @ transfer e WRITE_EX WT_WRITE (to_long (to_int ((push_bit 32 (to_long (to_int (tp_args a ''fd_in''))) + to_long (to_int (tp_args a ''fd_out''))) AND 0xffffffff))))"
  "logged sys_enter_write sys_exit_write (\<lambda>a. []) (\<lambda>a e. transfer e WRITE_EX WT_WRITE (to_long (to_int (tp_args a ''fd''))))"
  "logged sys_enter_writev sys_exit_writev (\<lambda>a. []) (\<lambda>a e. transfer e WRITE_EX WT_WRITE (to_long (to_int (tp_args a ''fd''))))"
  "logged sys_enter_sendmsg sys_exit_sendmsg (\<lambda>a. []) (\<lambda>a e. transfer e WRITE_EX WT_WRITE (to_long (to_int (tp_args a ''fd''))))"
  "logged sys_enter_sendmmsg sys_exit_sendmmsg (\<lambda>a. []) (\<lambda>a e. transfer e WRITE_EX WT_WRITE (to_long (to_int (tp_args a ''fd''))))"
  "logged sys_enter_pwrite64 sys_exit_pwrite64 (\<lambda>a. []) (\<lambda>a e. transfer e WRITE_EX WT_WRITE (to_long (to_int (tp_args a ''fd''))))"
  "logged sys_enter_pwritev sys_exit_pwritev (\<lambda>a. []) (\<lambda>a e. transfer e WRITE_EX WT_WRITE (to_long (to_int (tp_args a ''fd''))))"
  "logged sys_enter_pwritev2 sys_exit_pwritev2 (\<lambda>a. []) (\<lambda>a e. transfer e WRITE_EX WT_WRITE (to_long (to_int (tp_args a ''fd''))))"
  "logged sys_enter_unlink sys_exit_unlink (\<lambda>a. []) (\<lambda>a e. [(tp_env e, tp_nr e, UNLINK_EX, WT_UNLINK, Str_long3 (tp_args a ''pathname'') (AT_FDCWD) (oid e (AT_FDCWD)) (tp_ret e))])"
  "logged sys_enter_unlinkat sys_exit_unlinkat (\<lambda>a. []) (\<lambda>a e. [(tp_env e, tp_nr e, UNLINK_EX, WT_UNLINK, Str_long3 (tp_args a ''pathname'') (tp_args a ''dfd'') (oid e (tp_args a ''dfd'')) (tp_ret e))])"
  "logged sys_enter_mkdir sys_exit_mkdir (\<lambda>a. []) (\<lambda>a e. [(tp_env e, tp_nr e, MKDIR_EX, WT_MKDIR, Str_long3 (tp_args a ''pathname'') (AT_FDCWD) (oid e (AT_FDCWD)) (push_bit 32 (tp_args a ''mode'') OR (tp_ret e AND 0xffffffff)))])"
  "logged sys_enter_mkdirat sys_exit_mkdirat (\<lambda>a. []) (\<lambda>a e. [(tp_env e, tp_nr e, MKDIR_EX, WT_MKDIR, Str_long3 (tp_args a ''pathname'') (tp_args a ''dfd'') (oid e (tp_args a ''dfd'')) (push_bit 32 (tp_args a ''mode'') OR (tp_ret e AND 0xffffffff)))])"
  "logged sys_enter_rmdir sys_exit_rmdir (\<lambda>a. []) (\<lambda>a e. [(tp_env e, tp_nr e, RMDIR_EX, WT_RMDIR, Str_long1 (tp_args a ''pathname'') (tp_ret e))])"
  "logged sys_enter_chdir sys_exit_chdir (\<lambda>a. []) (\<lambda>a e. [(tp_env e, tp_nr e, CHDIR_EX, WT_CHDIR, Str_long1 (tp_args a ''filename'') (tp_ret e))])"
  "logged sys_enter_fchdir sys_exit_fchdir (\<lambda>a. []) (\<lambda>a e. [(tp_env e, tp_nr e, FCHDIR_EX, WT_CHDIR, Long3 (tp_args a ''fd'') (oid e (tp_args a ''fd'')) (tp_ret e))])"
  "logged sys_enter_link sys_exit_link (\<lambda>a. []) (\<lambda>a e. [(tp_env e, tp_nr e, LINK_EX, WT_LINK, Str2_long5 (tp_args a ''oldname'') (tp_args a ''newname'') (AT_FDCWD) (AT_FDCWD) (push_bit 32 (AT_FDCWD) OR (tp_ret e AND 0xffffffff)) (oid e (AT_FDCWD)) (oid e (AT_FDCWD)))])"
  "logged sys_enter_linkat sys_exit_linkat (\<lambda>a. []) (\<lambda>a e. [(tp_env e, tp_nr e, LINK_EX, WT_LINK, Str2_long5 (tp_args a ''oldname'') (tp_args a ''newname'') (tp_args a ''olddfd'') (tp_args a ''newdfd'') (push_bit 32 (tp_args a ''flags'') OR (tp_ret e AND 0xffffffff)) (oid e (tp_args a ''olddfd'')) (oid e (tp_args a ''newdfd'')))])"
  "logged sys_enter_symlink sys_exit_symlink (\<lambda>a. []) (\<lambda>a e. [(tp_env e, tp_nr e, SYMLINK_EX, WT_SYMLINK, Str2_long3 (tp_args a ''oldname'') (tp_args a ''newname'') (AT_FDCWD) (oid e (AT_FDCWD)) (tp_ret e))])"
  "logged sys_enter_symlinkat sys_exit_symlinkat (\<lambda>a. []) (\<lambda>a e. [(tp_env e, tp_nr e, SYMLINK_EX, WT_SYMLINK, Str2_long3 (tp_args a ''oldname'') (tp_args a ''newname'') (tp_args a ''newdfd'') (oid e (tp_args a ''newdfd'')) (tp_ret e))])"
  "logged sys_enter_rename sys_exit_rename (\<lambda>a. []) (\<lambda>a e. [(tp_env e, tp_nr e, RENAME_EX, WT_RENAME, Str2_long5 (tp_args a ''oldname'') (tp_args a ''newname'') (AT_FDCWD) (AT_FDCWD) (push_bit 32 (0) OR (tp_ret e AND 0xffffffff)) (oid e (AT_FDCWD)) (oid e (AT_FDCWD)))])"
  "logged sys_enter_renameat sys_exit_renameat (\<lambda>a. []) (\<lambda>a e. [(tp_env e, tp_nr e, RENAME_EX, WT_RENAME, Str2_long5 (tp_args a ''oldname'') (tp_args a ''newname'') (tp_args a ''olddfd'') (tp_args a ''newdfd'') (push_bit 32 (0) OR (tp_ret e AND 0xffffffff)) (oid e (tp_args a ''olddfd'')) (oid e (tp_args a ''newdfd'')))])"
  "logged sys_enter_renameat2 sys_exit_renameat2 (\<lambda>a. []) (\<lambda>a e. [(tp_env e, tp_nr e, RENAME_EX, WT_RENAME, Str2_long5 (tp_args a ''oldname'') (tp_args a ''newname'') (tp_args a ''olddfd'') (tp_args a ''newdfd'') (push_bit 32 (tp_args a ''flags'') OR (tp_ret e AND 0xffffffff)) (oid e (tp_args a ''olddfd'')) (oid e (tp_args a ''newdfd'')))])"
  "logged sys_enter_mknod sys_exit_mknod (\<lambda>a. []) (\<lambda>a e. [(tp_env e, tp_nr e, MKNOD_EX, WT_MKNOD, Str_long4 (tp_args a ''filename'') (AT_FDCWD) (tp_args a ''dev'') (push_bit 8 (tp_args a ''mode'') OR (tp_ret e AND 0xff)) (oid e (AT_FDCWD)))])"
  "logged sys_enter_mknodat sys_exit_mknodat (\<lambda>a. []) (\<lambda>a e. [(tp_env e, tp_nr e, MKNOD_EX, WT_MKNOD, Str_long4 (tp_args a ''filename'') (signed_drop_bit 32 (push_bit 32 (tp_args a ''dfd'') OR tp_args a ''mode'')) (tp_args a ''dev'') (push_bit 8 ((push_bit 32 (tp_args a ''dfd'') OR tp_args a ''mode'') AND 0xffffffff) OR (tp_ret e AND 0xff)) (oid e (signed_drop_bit 32 (push_bit 32 (tp_args a ''dfd'') OR tp_args a ''mode''))))])"
  "logged sys_enter_tee sys_exit_tee (\<lambda>a. []) (\<lambda>a e. transfer e READ_EX WT_READ (to_long (to_int (tp_args a ''fdin''))) @ transfer e WRITE_EX WT_WRITE (to_long (to_int (tp_args a ''fdout''))))"
  "logged sys_enter_mount sys_exit_mount (\<lambda>a. []) (\<lambda>a e. [(tp_env e, tp_nr e, MOUNT_EX, WT_MOUNT, Str3_long2 (tp_args a ''dev_name'') (tp_args a ''dir_name'') (tp_args a ''type'') (tp_args a ''flags'') (tp_ret e))])"
  "logged sys_enter_umount sys_exit_umount (\<lambda>a. []) (\<lambda>a e. [(tp_env e, tp_nr e, UMOUNT_EX, WT_MOUNT, Str_long2 (tp_args a ''name'') (tp_args a ''flags'') (tp_ret e))])"
  "logged sys_enter_splice sys_exit_splice (\<lambda>a. []) (\<lambda>a e. transfer e READ_EX WT_READ (to_long (to_int (tp_args a ''fd_in''))) @ transfer e WRITE_EX WT_WRITE (to_long (to_int (tp_args a ''fd_out''))))"
  "logged sys_enter_vmsplice sys_exit_vmsplice (\<lambda>a. []) (\<lambda>a e. [(tp_env e, tp_nr e, VMSPLICE_EX, WT_VMSPLICE, Long3 (tp_args a ''fd'') (oid e (tp_args a ''fd'')) (tp_ret e))])"
  "logged sys_enter_ptrace sys_exit_ptrace (\<lambda>a. [(tp_env a, tp_nr a, PTRACE_EN, WT_PTRACE, Long2 (tp_args a ''request'') (tp_args a ''pid''))]) (\<lambda>a e. [(tp_env e, 600, PTRACE_EX, 0, Long1 (tp_ret e))])"
  "logged sys_enter_chmod sys_exit_chmod (\<lambda>a. []) (\<lambda>a e. [(tp_env e, tp_nr e, CHMOD_EX, WT_CHMOD, Str_long4 (tp_args a ''filename'') AT_FDCWD (tp_args a ''mode'') (push_bit 8 0 OR tp_ret e) (oid e AT_FDCWD))])"
  "logged sys_enter_fchmodat sys_exit_fchmodat (\<lambda>a. []) (\<lambda>a e. [(tp_env e, tp_nr e, CHMOD_EX, WT_CHMOD, Str_long4 (tp_args a ''filename'') (signed_drop_bit 32 (push_bit 32 (tp_args a ''dfd''))) (tp_args a ''mode'') (push_bit 8 ((push_bit 32 (tp_args a ''dfd'')) AND 0xffffffff) OR tp_ret e) (oid e (signed_drop_bit 32 (push_bit 32 (tp_args a ''dfd'')))))])"
  "logged sys_enter_fchmod sys_exit_fchmod (\<lambda>a. []) (\<lambda>a e. [(tp_env e, tp_nr e, FCHMOD_EX, WT_FCHMOD, Long3 (tp_args a ''mode'') (oid e (tp_args a ''fd'')) (push_bit 8 (tp_args a ''fd'') OR char_of_ret (tp_ret e)))])"
  "logged sys_enter_chown sys_exit_chown (\<lambda>a. []) (\<lambda>a e. [(tp_env e, tp_nr e, CHOWN_EX, WT_CHOWN, Str_long5 (tp_args a ''filename'') (AT_FDCWD) (tp_args a ''user'') (tp_args a ''group'') (oid e (AT_FDCWD)) (push_bit 8 (0) OR char_of_ret (tp_ret e)))])"
  "logged sys_enter_lchown sys_exit_lchown (\<lambda>a. []) (\<lambda>a e. [(tp_env e, tp_nr e, CHOWN_EX, WT_CHOWN, Str_long5 (tp_args a ''filename'') (AT_FDCWD) (tp_args a ''user'') (tp_args a ''group'') (oid e (AT_FDCWD)) (push_bit 8 (AT_SYMLINK_NOFOLLOW) OR char_of_ret (tp_ret e)))])"
  "logged sys_enter_fchownat sys_exit_fchownat (\<lambda>a. []) (\<lambda>a e. [(tp_env e, tp_nr e, CHOWN_EX, WT_CHOWN, Str_long5 (tp_args a ''filename'') (to_long (to_int (tp_args a ''dfd''))) (tp_args a ''user'') (tp_args a ''group'') (oid e (to_long (to_int (tp_args a ''dfd'')))) (push_bit 8 (tp_args a ''flag'') OR char_of_ret (tp_ret e)))])"
  "logged sys_enter_fchown sys_exit_fchown (\<lambda>a. []) (\<lambda>a e. [(tp_env e, tp_nr e, FCHOWN_EX, WT_FCHOWN, Long4 (tp_args a ''user'') (tp_args a ''group'') (push_bit 8 (tp_args a ''fd'') OR char_of_ret (tp_ret e)) (oid e (tp_args a ''fd'')))])"
  "logged sys_enter_setresuid sys_exit_setresuid (\<lambda>a. []) (\<lambda>a e. [(tp_env e, tp_nr e, SETUID_EX, WT_SETUID, Long4 (tp_args a ''ruid'') (tp_args a ''euid'') (tp_args a ''suid'') (tp_ret e))])"
  "logged sys_enter_setreuid sys_exit_setreuid (\<lambda>a. []) (\<lambda>a e. [(tp_env e, tp_nr e, SETUID_EX, WT_SETUID, Long4 (tp_args a ''ruid'') (tp_args a ''euid'') (INVAL_UID) (tp_ret e))])"
  "logged sys_enter_setuid sys_exit_setuid (\<lambda>a. []) (\<lambda>a e. [(tp_env e, tp_nr e, SETUID_EX, WT_SETUID, Long4 (INVAL_UID) (tp_args a ''uid'') (INVAL_UID) (tp_ret e))])"
  "logged sys_enter_setresgid sys_exit_setresgid (\<lambda>a. []) (\<lambda>a e. [(tp_env e, tp_nr e, SETGID_EX, WT_SETGID, Long4 (tp_args a ''rgid'') (tp_args a ''egid'') (tp_args a ''sgid'') (tp_ret e))])"
  "logged sys_enter_setregid sys_exit_setregid (\<lambda>a. []) (\<lambda>a e. [(tp_env e, tp_nr e, SETGID_EX, WT_SETGID, Long4 (tp_args a ''rgid'') (tp_args a ''egid'') (INVAL_UID) (tp_ret e))])"
  "logged sys_enter_setgid sys_exit_setgid (\<lambda>a. []) (\<lambda>a e. [(tp_env e, tp_nr e, SETGID_EX, WT_SETGID, Long4 (INVAL_UID) (tp_args a ''gid'') (INVAL_UID) (tp_ret e))])"
  "logged sys_enter_fork sys_exit_fork (\<lambda>a. [(tp_env a, tp_nr a, FORK_EN, WT_FORK, Long0)]) (\<lambda>a e. ids_calls e FORK_EX)"
  "logged sys_enter_vfork sys_exit_vfork (\<lambda>a. [(tp_env a, tp_nr a, FORK_EN, WT_FORK, Long0)]) (\<lambda>a e. ids_calls e FORK_EX)"
  "logged sys_enter_clone sys_exit_clone (\<lambda>a. [(tp_env a, tp_nr a, CLONE_EN, WT_FORK, Long1 (tp_args a ''clone_flags''))]) (\<lambda>a e. ids_calls e CLONE_EX)"
  "logged sys_enter_clone3 sys_exit_clone3 (\<lambda>a. [(tp_env a, tp_nr a, CLONE_EN, WT_FORK, Long1 (case probe_read (tp_env a) (tp_args a ''uargs'') 8 of None \<Rightarrow> 0 | Some bs \<Rightarrow> of_le bs))]) (\<lambda>a e. ids_calls e CLONE_EX)"
  "logged sys_enter_exit no_handler (\<lambda>a. [(tp_env a, tp_nr a, EXIT_EN, WT_EXIT, Long1 (tp_args a ''error_code''))]) (\<lambda>a e. [])"
  "logged sys_enter_exit_group no_handler (\<lambda>a. [(tp_env a, tp_nr a, EXITGRP_EN, WT_EXIT, Long1 (tp_args a ''error_code''))]) (\<lambda>a e. [])"
  "logged sys_enter_init_module sys_exit_init_module (\<lambda>a. []) (\<lambda>a e. [(tp_env e, tp_nr e, INITMOD_EX, WT_INITMOD, Str_long1 (tp_args a ''uargs'') (tp_ret e))])"
  "logged sys_enter_finit_module sys_exit_finit_module (\<lambda>a. []) (\<lambda>a e. [(tp_env e, tp_nr e, FINITMOD_EX, WT_FINITMOD, Str_long4 (tp_args a ''uargs'') (tp_args a ''fd'') (tp_args a ''flags'') (tp_ret e) (oid e (tp_args a ''fd'')))])"
  by (((unfold logged_def, intro allI impI conjI; simp only: entry_defs exit_defs helper_defs handler_simps),
      (rule logs.none | (rule logs_eq, rule logs_calls, simp)),
      (rule logs_two | rule logs_ids, simp | rule logs.none |
        (rule logs_eq, (rule logs_saddr logs_calls | (rule act_logs, (rule act_intros)+)),
          simp add: open_word_def transfer_def ucast_scast_eq)))[1])+

text \<open>System calls whose entry handler keeps arguments only under a condition.\<close>

lemma logged_recvfrom:
  "logged sys_enter_recvfrom sys_exit_recvfrom (\<lambda>a. []) (\<lambda>a e. if tp_args a ''addr'' = 0 \<or> tp_args a ''addr_len'' = 0 then transfer e READ_EX WT_READ (to_long (to_int (tp_args a ''fd'')))
       else if is_err (tp_ret e) then [] else [(tp_env e, tp_nr e, RECVFROM_EX, WT_RECVFROM, Data_long3 (tp_args a ''addr'') (slen e (tp_args a ''addr'') (tp_args a ''addr_len'')) (to_long (to_int (tp_args a ''fd''))) (tp_ret e) 0)])"
  unfolding logged_def
proof (intro allI impI conjI, goal_cases)
  case (1 c a e k)
  then show ?case
    by (cases "tp_args a ''addr'' = 0 \<or> tp_args a ''addr_len'' = 0")
      (simp_all add: entry_defs read_entry1_def store_saddr_arg_def handler_simps logs.none)
next
  case (2 c a e k)
  show ?case
  proof (cases "tp_args a ''addr'' = 0 \<or> tp_args a ''addr_len'' = 0")
    case True
    have "logs c (transfer e READ_EX WT_READ (to_long (to_int (tp_args a ''fd'')))) k
        (as_k (log_read c e (tp_nr e) READ_EX (to_int (tp_args a ''fd'')) (tp_ret e) (fresh k)))"
      by (rule act_logs [OF act_read])
    with 2 True show ?thesis
      by (simp add: entry_defs exit_defs read_entry1_def read_exit1_case handler_simps ucast_scast_eq)
  next
    case False
    from logs_saddr [of c e "tp_nr e" RECVFROM_EX WT_RECVFROM "tp_args a ''addr''" "tp_args a ''addr_len''"
        "to_long (to_int (tp_args a ''fd''))" False k "tp_nr e"] 2 False show ?thesis
      by (cases "is_err (tp_ret e)") (simp_all add: entry_defs exit_defs read_entry1_def store_saddr_arg_def read_exit1_case handler_simps)
  qed
qed

lemma sendto_len: "to_int (if to_long n <s 0 then 0 else to_long n) = (if n <s 0 then 0 else n)"
  using sint_up_scast [of n, where ?'b = 64] by (simp add: ucast_scast_eq word_sless_alt is_up)

lemma to_int_ucast: "to_int (ucast (w :: u32)) = w"
  by (rule bit_word_eqI) (simp add: bit_ucast_iff)

lemma logged_sendto:
  "logged sys_enter_sendto sys_exit_sendto (\<lambda>a. []) (\<lambda>a e. if tp_args a ''addr'' = 0 \<or> to_int (tp_args a ''addr_len'') = 0 then transfer e WRITE_EX WT_WRITE (to_long (to_int (tp_args a ''fd'')))
       else if is_err (tp_ret e) then [] else [(tp_env e, tp_nr e, SENDTO_EX, WT_SENDTO, Data_long2 (tp_args a ''addr'') (if to_int (tp_args a ''addr_len'') <s 0 then 0 else to_int (tp_args a ''addr_len'')) (to_long (to_int (tp_args a ''fd''))) (tp_ret e))])"
  unfolding logged_def
proof (intro allI impI conjI, goal_cases)
  case (1 c a e k)
  then show ?case
    by (cases "tp_args a ''addr'' = 0 \<or> to_int (tp_args a ''addr_len'') = 0")
      (simp_all add: entry_defs write_entry1_def handler_simps logs.none)
next
  case (2 c a e k)
  let ?fd = "to_long (to_int (tp_args a ''fd''))" and ?n = "to_int (tp_args a ''addr_len'')"
  show ?case
  proof (cases "tp_args a ''addr'' = 0 \<or> ?n = 0")
    case True
    have "logs c (transfer e WRITE_EX WT_WRITE ?fd) k
        (as_k (log_write c e (tp_nr e) WRITE_EX (to_int (tp_args a ''fd'')) (tp_ret e) (fresh k)))"
      by (rule act_logs [OF act_write])
    with 2 True show ?thesis
      by (simp add: entry_defs exit_defs write_entry1_def write_exit1_case handler_simps ucast_scast_eq)
  next
    case False
    let ?x = "log_data (log_sc_data_long2 c (tp_env e) (tp_nr e) SENDTO_EX WT_SENDTO (tp_args a ''addr'')
      (if ?n <s 0 then 0 else ?n) ?fd (tp_ret e)) SENDTO_DATA_ERR"
    have "logs c [(tp_env e, tp_nr e, SENDTO_EX, WT_SENDTO, Data_long2 (tp_args a ''addr'') (if ?n <s 0 then 0 else ?n) ?fd (tp_ret e))] k
        (as_k (?x (fresh k)))"
      by (rule act_logs [OF act_data(1)])
    moreover have "sys_exit_sendto c e (sys_enter_sendto c a (fresh k)\<lparr>as_k := k\<rparr>) = (if is_err (tp_ret e) then fresh k else ?x (fresh k))"
      using 2 False
      by (simp only: entry_defs exit_defs write_entry1_def write_exit1_case sendto_exit_def handler_simps sendto_len option.case
          if_not_P if_P not_not) simp
    ultimately show ?thesis using False by (simp add: logs.none)
  qed
qed

lemma logged_mprotect:
  "logged sys_enter_mprotect sys_exit_mprotect (\<lambda>a. []) (\<lambda>a e. if tp_args a ''prot'' AND PROT_EXEC = 0 then [] else if is_err (tp_ret e) then []
       else [(tp_env e, tp_nr e, MPROTECT_EX, WT_MMAP, Long3 (tp_args a ''start'') (tp_args a ''len'') (push_bit 32 (tp_ret e) OR prot_bits (tp_args a ''prot'')))])"
  unfolding logged_def
proof (intro allI impI conjI, goal_cases)
  case (1 c a e k)
  then show ?case
    by (cases "tp_args a ''prot'' AND PROT_EXEC = 0") (simp_all add: entry_defs handler_simps logs.none)
next
  case (2 c a e k)
  then show ?case
    by (cases "tp_args a ''prot'' AND PROT_EXEC = 0"; cases "is_err (tp_ret e)")
      (simp_all add: entry_defs exit_defs handler_simps logs.none logs_calls)
qed

lemma logged_mmap:
  "logged sys_enter_mmap sys_exit_mmap (\<lambda>a. []) (\<lambda>a e. if tp_args a ''flags'' AND MAP_ANONYMOUS = 0 \<or> tp_args a ''prot'' AND PROT_EXEC \<noteq> 0
       then [(tp_env e, tp_nr e, MMAP_EX, WT_MMAP, Long5 (oid e (tp_args a ''fd'')) (tp_args a ''addr'') (tp_args a ''len'') (push_bit 32 (tp_args a ''flags'') OR prot_bits (tp_args a ''prot'')) (tp_ret e))] else [])"
  unfolding logged_def
proof (intro allI impI conjI, goal_cases)
  case (1 c a e k)
  then show ?case
    by (cases "tp_args a ''flags'' AND MAP_ANONYMOUS = 0 \<or> tp_args a ''prot'' AND PROT_EXEC \<noteq> 0")
      (auto simp add: entry_defs handler_simps logs.none)
next
  case (2 c a e k)
  let ?w = "push_bit 32 (tp_args a ''flags'') OR prot_bits (tp_args a ''prot'')"
  have "act c (with_proc e (tp_args a ''fd'') (\<lambda>oid. on_k (log_sc_long5 c (tp_env e) (tp_nr e) MMAP_EX WT_MMAP oid
      (tp_args a ''addr'') (tp_args a ''len'') ?w (tp_ret e))))
    [(tp_env e, tp_nr e, MMAP_EX, WT_MMAP, Long5 (oid e (tp_args a ''fd'')) (tp_args a ''addr'') (tp_args a ''len'') ?w (tp_ret e))]"
    by (rule act_intros)+
  from act_logs [OF this, of k] 2 show ?case
    by (cases "tp_args a ''flags'' AND MAP_ANONYMOUS = 0 \<or> tp_args a ''prot'' AND PROT_EXEC \<noteq> 0")
      (auto simp add: entry_defs exit_defs handler_simps logs.none to_int_ucast)
qed

lemma logged_kills:
  "logged sys_enter_kill sys_exit_kill (\<lambda>a. if 0 <s to_int (tp_args a ''sig'') then [(tp_env a, tp_nr a, KILL_EN, WT_KILL, Long2 (tp_args a ''pid'') (to_long (to_int (tp_args a ''sig''))))] else []) (\<lambda>a e. if 0 <s to_int (tp_args a ''sig'') then [(tp_env e, 600, KILL_EX, 0, Long1 (tp_ret e))] else [])"
  "logged sys_enter_tkill sys_exit_tkill (\<lambda>a. if 0 <s tp_args a ''sig'' \<and> 0 <s to_int (tp_args a ''sig'') then [(tp_env a, tp_nr a, KILL_EN, WT_KILL, Long2 (push_bit 32 (tp_args a ''pid'')) (to_long (to_int (tp_args a ''sig''))))] else []) (\<lambda>a e. if 0 <s tp_args a ''sig'' \<and> 0 <s to_int (tp_args a ''sig'') then [(tp_env e, 600, KILL_EX, 0, Long1 (tp_ret e))] else [])"
  "logged sys_enter_tgkill sys_exit_tgkill (\<lambda>a. if 0 <s tp_args a ''sig'' \<and> 0 <s to_int (tp_args a ''sig'') then [(tp_env a, tp_nr a, KILL_EN, WT_KILL, Long2 (push_bit 32 (tp_args a ''pid'') OR tp_args a ''tgid'') (to_long (to_int (tp_args a ''sig''))))] else []) (\<lambda>a e. if 0 <s tp_args a ''sig'' \<and> 0 <s to_int (tp_args a ''sig'') then [(tp_env e, 600, KILL_EX, 0, Long1 (tp_ret e))] else [])"
  by (unfold logged_def, intro allI impI conjI;
      auto simp: entry_defs exit_defs log_kill_entry_def handler_simps logs.none logs_calls split: if_splits)+

section \<open>Every system call of the table\<close>

definition execs :: "string list" where
  "execs = [''execve'', ''execveat'']"

definition agree :: "string \<times> handler \<times> handler \<Rightarrow> string \<times> (tracepoint \<Rightarrow> log_call list) \<times> (tracepoint \<Rightarrow> tracepoint \<Rightarrow> log_call list) \<Rightarrow> bool" where
  "agree h t \<longleftrightarrow> fst h = fst t \<and> logged (fst (snd h)) (snd (snd h)) (fst (snd t)) (snd (snd t))"

lemma table_agrees: "list_all2 agree plain_syscalls call_table"
  unfolding plain_syscalls_def call_table_def
  by (simp only: list.rel_inject list.rel_intros(1) agree_def fst_conv snd_conv logged_calls logged_recvfrom logged_sendto
      logged_mprotect logged_mmap logged_kills simp_thms)

lemma map_of_agree:
  "list_all2 agree hs ts \<Longrightarrow> map_of hs nm = None \<and> map_of ts nm = None \<or>
     (\<exists>enter exit E X. map_of hs nm = Some (enter, exit) \<and> map_of ts nm = Some (E, X) \<and> logged enter exit E X)"
proof (induction rule: list_all2_induct)
  case (Cons h hs t ts)
  obtain n1 enter exit n2 E X where "h = (n1, enter, exit)" "t = (n2, E, X)" by (cases h, cases t) auto
  with Cons show ?case by (auto simp: agree_def)
qed simp

lemma plain_lookup: "\<not> List.member execs nm \<Longrightarrow> map_of syscalls nm = map_of plain_syscalls nm"
  by (auto simp: syscalls_def exec_syscalls_def execs_def map_add_def split: option.splits)

definition enter_calls :: "string \<Rightarrow> tracepoint \<Rightarrow> log_call list" where
  "enter_calls nm a = (case map_of call_table nm of None \<Rightarrow> [] | Some (E, X) \<Rightarrow> E a)"

text \<open>A child of fork and clone returns from a system call it has not entered.\<close>

definition exit_calls :: "string \<Rightarrow> (string \<times> tracepoint) option \<Rightarrow> tracepoint \<Rightarrow> log_call list" where
  "exit_calls nm p e =
     (case p of
        None \<Rightarrow> ids_calls e (if nm = ''fork'' \<or> nm = ''vfork'' then FORK_EX else CLONE_EX)
      | Some (_, a) \<Rightarrow> (case map_of call_table nm of None \<Rightarrow> [] | Some (E, X) \<Rightarrow> X a e))"

fun trace_calls :: "pending \<Rightarrow> event list \<Rightarrow> log_call list" where
  "trace_calls P [] = []"
| "trace_calls P ((Enter, nm, e) # es) =
     enter_calls nm e @ trace_calls (if returns nm then P(tid e \<mapsto> (nm, e)) else P) es"
| "trace_calls P ((Exit, nm, e) # es) = exit_calls nm (P (tid e)) e @ trace_calls (P(tid e := None)) es"

definition births :: "string list" where
  "births = [''fork'', ''vfork'', ''clone'', ''clone3'']"

definition audited :: "config \<Rightarrow> string \<Rightarrow> tracepoint \<Rightarrow> bool" where
  "audited c nm e \<longleftrightarrow> calm e \<and> logging e \<and> \<not> is_dlogger_descendant c (tp_env e) \<and> \<not> List.member execs nm"

text \<open>A possible sequence of tracepoints of processes that are audited, without \<open>execve\<close>.\<close>

fun normal_run :: "config \<Rightarrow> pending \<Rightarrow> event list \<Rightarrow> bool" where
  "normal_run c P [] \<longleftrightarrow> True"
| "normal_run c P ((Enter, nm, e) # es) \<longleftrightarrow> P (tid e) = None \<and> audited c nm e \<and>
     normal_run c (if returns nm then P(tid e \<mapsto> (nm, e)) else P) es"
| "normal_run c P ((Exit, nm, e) # es) \<longleftrightarrow>
     (case P (tid e) of None \<Rightarrow> List.member births nm | Some (nm', _) \<Rightarrow> nm' = nm) \<and> audited c nm e \<and>
     normal_run c (P(tid e := None)) es"

lemma normal_possible: "normal_run c P es \<Longrightarrow> possible P es"
proof (induction es arbitrary: P)
  case (Cons x es)
  obtain ph nm e where x: "x = (ph, nm, e)" by (cases x)
  show ?case using Cons.IH Cons.prems unfolding x by (cases ph; cases "P (tid e)") (auto simp: audited_def)
qed simp

lemma fire_logged:
  assumes "audited c nm a" "logging e" "\<not> is_dlogger_descendant c (tp_env e)" "tid a = tid e"
  shows "logs c (enter_calls nm a) k (as_k (fire c (Enter, nm, a) (fresh k)))"
    and "logs c (exit_calls nm (Some (nm', a)) e) k (as_k (fire c (Exit, nm, e) ((fire c (Enter, nm, a) (fresh k))\<lparr>as_k := k\<rparr>)))"
proof -
  from assms(1) have "\<not> List.member execs nm" "logging a" "\<not> is_dlogger_descendant c (tp_env a)" by (simp_all add: audited_def)
  with map_of_agree [OF table_agrees, of nm]
  have t: "map_of syscalls nm = None \<and> map_of call_table nm = None \<or>
     (\<exists>enter exit E X. map_of syscalls nm = Some (enter, exit) \<and> map_of call_table nm = Some (E, X) \<and> logged enter exit E X)"
    by (simp add: plain_lookup)
  show "logs c (enter_calls nm a) k (as_k (fire c (Enter, nm, a) (fresh k)))"
    "logs c (exit_calls nm (Some (nm', a)) e) k (as_k (fire c (Exit, nm, e) ((fire c (Enter, nm, a) (fresh k))\<lparr>as_k := k\<rparr>)))"
    using t assms(2-4) \<open>logging a\<close> \<open>\<not> is_dlogger_descendant c (tp_env a)\<close>
    by (auto simp: fire.simps enter_calls_def exit_calls_def logs.none logged_def)
qed

lemma birth_lookups:
  "map_of syscalls ''fork'' = Some (sys_enter_fork, sys_exit_fork)" "map_of syscalls ''vfork'' = Some (sys_enter_vfork, sys_exit_vfork)"
  "map_of syscalls ''clone'' = Some (sys_enter_clone, sys_exit_clone)" "map_of syscalls ''clone3'' = Some (sys_enter_clone3, sys_exit_clone3)"
  by (simp add: syscall_defs)+

lemma birth_logged:
  assumes "List.member births nm" "logging e"
  shows "logs c (exit_calls nm None e) k (as_k (fire c (Exit, nm, e) (fresh k)))"
proof -
  have "nm = ''fork'' \<or> nm = ''vfork'' \<or> nm = ''clone'' \<or> nm = ''clone3''" using assms(1) by (auto simp: births_def)
  then show ?thesis
    using assms(2)
    by (elim disjE) (simp_all add: fire.simps birth_lookups exit_calls_def exit_defs exit_with_ids_case handler_simps logs_ids)
qed

lemma run_logged:
  "normal_run c P es \<Longrightarrow> (\<And>t nm a. P t = Some (nm, a) \<Longrightarrow> tid a = t \<and> audited c nm a) \<Longrightarrow>
   logs c (trace_calls P es) k (fst (fold (spec_step c) es (k, P)))"
proof (induction es arbitrary: P k)
  case Nil
  show ?case by (simp add: logs.none)
next
  case (Cons x es)
  obtain ph nm e where x: "x = (ph, nm, e)" by (cases x)
  show ?case
  proof (cases ph)
    case Enter
    let ?P = "if returns nm then P(tid e \<mapsto> (nm, e)) else P" and ?k = "as_k (fire c (Enter, nm, e) (fresh k))"
    have a: "audited c nm e" "normal_run c ?P es" using Cons.prems(1) by (simp_all add: x Enter)
    have "logs c (enter_calls nm e) k ?k" by (rule fire_logged) (use a(1) in \<open>simp_all add: audited_def\<close>)
    moreover have "logs c (trace_calls ?P es) ?k (fst (fold (spec_step c) es (?k, ?P)))"
      by (rule Cons.IH [OF a(2)]) (use Cons.prems(2) a(1) in \<open>auto split: if_splits\<close>)
    ultimately show ?thesis
      using logs_append by (simp only: x Enter trace_calls.simps fold_simps spec_step.simps)
  next
    case Exit
    let ?k = "as_k (fire c (Exit, nm, e) (recall c (P (tid e)) k))" and ?P = "P(tid e := None)"
    have a: "case P (tid e) of None \<Rightarrow> List.member births nm | Some (nm', _) \<Rightarrow> nm' = nm" "audited c nm e" "normal_run c ?P es"
      using Cons.prems(1) by (simp_all add: x Exit)
    have "logs c (exit_calls nm (P (tid e)) e) k ?k"
    proof (cases "P (tid e)")
      case None
      with a birth_logged [of nm e] show ?thesis by (simp add: recall_def audited_def)
    next
      case (Some p)
      obtain a0 where p: "p = (nm, a0)" using a(1) Some by (cases p) simp
      with Cons.prems(2) Some have "tid a0 = tid e" "audited c nm a0" by blast+
      then show ?thesis using fire_logged(2) [of c nm a0 e] a(2) Some p by (simp add: recall_def audited_def)
    qed
    moreover have "logs c (trace_calls ?P es) ?k (fst (fold (spec_step c) es (?k, ?P)))"
      by (rule Cons.IH [OF a(3)]) (use Cons.prems(2) in \<open>auto split: if_splits\<close>)
    ultimately show ?thesis
      using logs_append by (simp only: x Exit trace_calls.simps fold_simps spec_step.simps)
  qed
qed

section \<open>From system calls to the consumer\<close>

lemma same_log_sent: "same_log k k' \<Longrightarrow> sent cpu sn k gs rest \<Longrightarrow> sent cpu sn k' gs rest"
  "same_log k k' \<Longrightarrow> cache_ready c cpu k \<Longrightarrow> cache_ready c cpu k'"
proof -
  assume "same_log k k'"
  then have f: "ks_buf k' = ks_buf k" "ks_events k' = ks_events k" "ks_seqn k' = ks_seqn k"
    unfolding same_log_def by (metis kstate.select_convs kstate.surjective kstate.update_convs(3))+
  show "sent cpu sn k gs rest \<Longrightarrow> sent cpu sn k' gs rest" by (simp add: sent_def f)
  show "cache_ready c cpu k \<Longrightarrow> cache_ready c cpu k'" by (simp add: cache_ready_def cache_inv_def f)
qed

lemma sent_logs:
  assumes "logs (dlogger_config p d) xs k k'" "list_all (ok_call (dlogger_config p d) cpu) xs"
    and "sent cpu sn k gs rest" "cache_ready (dlogger_config p d) cpu k"
  shows "(\<exists>gs' rest'. concat gs' @ rest' = concat gs @ rest @ xs \<and> sent cpu sn k' gs' rest') \<and> cache_ready (dlogger_config p d) cpu k'"
  using assms
proof (induction rule: logs.induct)
  case (none k)
  then show ?case by (auto intro!: exI [of _ gs] exI [of _ rest])
next
  case (stat xs k k' k'')
  then show ?case using same_log_sent by blast
next
  case (call xs k k' x)
  have ok: "list_all (ok_call (dlogger_config p d) cpu) xs" "ok_call (dlogger_config p d) cpu x" using call.prems(1) by simp_all
  from call.IH [OF ok(1) call.prems(2,3)] obtain gs1 rest1 where 1: "concat gs1 @ rest1 = concat gs @ rest @ xs"
    "sent cpu sn k' gs1 rest1" and r: "cache_ready (dlogger_config p d) cpu k'" by blast
  obtain gs2 rest2 where 2: "concat gs2 @ rest2 = (concat gs1 @ rest1) @ [x]"
    "sent cpu sn (do_call (dlogger_config p d) x k') gs2 rest2"
    using sent_call [OF 1(2) r ok(2)] by auto
  from 2(1) have "concat gs2 @ rest2 = concat gs @ rest @ xs @ [x]" unfolding 1(1) by simp
  then show ?case using 2(2) do_call_ready(1) [OF r ok(2)] by blast
qed

text \<open>All calls of the table have records that the parser knows, made in the context of the tracepoint.\<close>

definition good_calls :: "tracepoint \<Rightarrow> log_call list \<Rightarrow> bool" where
  "good_calls e xs \<longleftrightarrow> list_all (\<lambda>(env, sc, nm, w, r). env = tp_env e \<and> record_calls env nm r \<noteq> None) xs"

lemma good_ids: "good_calls e (ids_calls e FORK_EX)" "good_calls e (ids_calls e CLONE_EX)"
  by (simp_all add: good_calls_def ids_calls_def code_values)

lemma good_transfer: "good_calls e (transfer e READ_EX w fd)" "good_calls e (transfer e WRITE_EX w fd)"
  by (simp_all add: good_calls_def transfer_def code_values)

lemma good_append [simp]: "good_calls e (xs @ ys) \<longleftrightarrow> good_calls e xs \<and> good_calls e ys"
  by (simp add: good_calls_def)

lemma good_single: "good_calls e [(tp_env e, sc, nm, w, r)] \<longleftrightarrow> record_calls (tp_env e) nm r \<noteq> None"
  by (simp add: good_calls_def)

lemma good_Nil: "good_calls e []"
  by (simp add: good_calls_def)

lemma good_if: "good_calls e xs \<Longrightarrow> good_calls e ys \<Longrightarrow> good_calls e (if b then xs else ys)"
  by simp

definition good_entry :: "string \<times> (tracepoint \<Rightarrow> log_call list) \<times> (tracepoint \<Rightarrow> tracepoint \<Rightarrow> log_call list) \<Rightarrow> bool" where
  "good_entry t \<longleftrightarrow> (\<forall>a. good_calls a (fst (snd t) a)) \<and> (\<forall>a e. good_calls e (snd (snd t) a e))"

lemma call_codes_known:
  "record_calls e OPEN_EX (Str_long5 f a1 a2 a3 a4 a5) \<noteq> None" "record_calls e TRUNC_EX (Str_long2 f a1 a2) \<noteq> None"
  "record_calls e FTRUNC_EX (Long3 a1 a2 a3) \<noteq> None" "record_calls e CLOSE_EN (Long3 a1 a2 a3) \<noteq> None"
  "record_calls e ACCEPT_EX (Data_long3 d n a1 a2 a3) \<noteq> None" "record_calls e CONNECT_EX (Data_long3 d n a1 a2 a3) \<noteq> None"
  "record_calls e GETPEER_EX (Data_long3 d n a1 a2 a3) \<noteq> None" "record_calls e BIND_EX (Data_long2 d n a1 a2) \<noteq> None"
  "record_calls e RECVFROM_EX (Data_long3 d n a1 a2 a3) \<noteq> None" "record_calls e SENDTO_EX (Data_long2 d n a1 a2) \<noteq> None"
  "record_calls e MPROTECT_EX (Long3 a1 a2 a3) \<noteq> None" "record_calls e MMAP_EX (Long5 a1 a2 a3 a4 a5) \<noteq> None"
  "record_calls e UNLINK_EX (Str_long3 f a1 a2 a3) \<noteq> None" "record_calls e MKDIR_EX (Str_long3 f a1 a2 a3) \<noteq> None"
  "record_calls e RMDIR_EX (Str_long1 f a1) \<noteq> None" "record_calls e CHDIR_EX (Str_long1 f a1) \<noteq> None"
  "record_calls e FCHDIR_EX (Long3 a1 a2 a3) \<noteq> None" "record_calls e LINK_EX (Str2_long5 f g a1 a2 a3 a4 a5) \<noteq> None"
  "record_calls e RENAME_EX (Str2_long5 f g a1 a2 a3 a4 a5) \<noteq> None" "record_calls e SYMLINK_EX (Str2_long3 f g a1 a2 a3) \<noteq> None"
  "record_calls e MKNOD_EX (Str_long4 f a1 a2 a3 a4) \<noteq> None" "record_calls e MOUNT_EX (Str3_long2 f g h a1 a2) \<noteq> None"
  "record_calls e UMOUNT_EX (Str_long2 f a1 a2) \<noteq> None" "record_calls e VMSPLICE_EX (Long3 a1 a2 a3) \<noteq> None"
  "record_calls e KILL_EN (Long2 a1 a2) \<noteq> None" "record_calls e KILL_EX (Long1 a1) \<noteq> None"
  "record_calls e PTRACE_EN (Long2 a1 a2) \<noteq> None" "record_calls e PTRACE_EX (Long1 a1) \<noteq> None"
  "record_calls e CHMOD_EX (Str_long4 f a1 a2 a3 a4) \<noteq> None" "record_calls e FCHMOD_EX (Long3 a1 a2 a3) \<noteq> None"
  "record_calls e CHOWN_EX (Str_long5 f a1 a2 a3 a4 a5) \<noteq> None" "record_calls e FCHOWN_EX (Long4 a1 a2 a3 a4) \<noteq> None"
  "record_calls e SETUID_EX (Long4 a1 a2 a3 a4) \<noteq> None" "record_calls e SETGID_EX (Long4 a1 a2 a3 a4) \<noteq> None"
  "record_calls e FORK_EN Long0 \<noteq> None" "record_calls e CLONE_EN (Long1 a1) \<noteq> None"
  "record_calls e EXIT_EN (Long1 a1) \<noteq> None" "record_calls e EXITGRP_EN (Long1 a1) \<noteq> None"
  "record_calls e INITMOD_EX (Str_long1 f a1) \<noteq> None" "record_calls e FINITMOD_EX (Str_long4 f a1 a2 a3 a4) \<noteq> None"
  by (simp_all add: code_values)

lemma table_good: "list_all good_entry call_table"
  unfolding call_table_def
  by (simp only: list.pred_inject good_entry_def fst_conv snd_conv good_if good_Nil good_single good_ids good_transfer good_append
      call_codes_known simp_thms if_True if_False)

lemma calls_good: "good_calls a (enter_calls nm a)" "good_calls e (exit_calls nm p e)"
proof -
  have "good_entry (nm, E, X)" if "map_of call_table nm = Some (E, X)" for E X
    using table_good map_of_SomeD [OF that] by (auto simp: list_all_iff)
  then show "good_calls a (enter_calls nm a)" "good_calls e (exit_calls nm p e)"
    by (auto simp: enter_calls_def exit_calls_def good_Nil good_ids good_entry_def split: option.splits)
qed

text \<open>The tracepoints of a run fire on one CPU, in processes with a number, and the ring buffer has room.\<close>

definition on_cpu :: "nat \<Rightarrow> event \<Rightarrow> bool" where
  "on_cpu cpu x \<longleftrightarrow> (case x of (ph, nm, e) \<Rightarrow> ae_cpu (tp_env e) = cpu \<and> ae_rb_ok (tp_env e) \<and> 0 <s getpid (tp_env e))"

definition readable :: "log_call \<Rightarrow> bool" where
  "readable x \<longleftrightarrow> (case x of (e, sc, nm, w, r) \<Rightarrow> strings_ok e r)"

lemma trace_ok:
  "normal_run c P es \<Longrightarrow> list_all (on_cpu cpu) es \<Longrightarrow> list_all (ok_call c cpu) (trace_calls P es)"
  "normal_run c P es \<Longrightarrow> list_all (on_cpu cpu) es \<Longrightarrow> list_all readable (trace_calls P es) \<Longrightarrow> list_all known_call (trace_calls P es)"
proof (induction es arbitrary: P)
  case (Cons x es)
  obtain ph nm e where x: "x = (ph, nm, e)" by (cases x)
  have s: "list_all (ok_call c cpu) xs" "list_all readable xs \<Longrightarrow> list_all known_call xs"
    if "good_calls e xs" "on_cpu cpu (ph, nm, e)" "audited c nm e" for xs
    using that by (auto simp: good_calls_def list_all_iff on_cpu_def audited_def readable_def)
  { case 1 then show ?case
      using Cons.IH(1) s(1) calls_good unfolding x by (cases ph) auto
  next
    case 2 then show ?case
      using Cons.IH(2) s(2) calls_good unfolding x by (cases ph) auto }
qed simp_all

lemma run_sent:
  assumes "normal_run (dlogger_config p d) Map.empty es" "list_all (on_cpu cpu) es" "cpu \<le> n"
    and "s = as_k (fold (fire (dlogger_config p d)) es (fresh (kstate_init n)))"
  shows "\<exists>gs rest. concat gs @ rest = trace_calls Map.empty es \<and> sent cpu 0 s gs rest"
proof -
  let ?c = "dlogger_config p d" and ?xs = "trace_calls Map.empty es"
  have "s = fst (fold (spec_step ?c) es (kstate_init n, Map.empty))"
    using sim_run [OF sim_init normal_possible [OF assms(1)], of ?c "kstate_init n"] unfolding assms(4)
    by (cases "fold (spec_step ?c) es (kstate_init n, Map.empty)") (auto dest: simD)
  with run_logged [OF assms(1), of "kstate_init n"] have l: "logs ?c ?xs (kstate_init n) s" by simp
  have "sent cpu 0 (kstate_init n) [] []"
    using assms(3) by (simp add: sent_def kstate_init_def empty_buf_def cached_def content_def)
  from sent_logs [OF l trace_ok(1) [OF assms(1,2)] this kstate_init_ready [OF assms(3)]] show ?thesis by simp
qed

section \<open>A sample run\<close>

definition sample_run :: "event list" where
  "sample_run = [(Enter, ''rmdir'', sample_tp 7 (\<lambda>_. 1) 0), (Enter, ''read'', sample_tp 8 (\<lambda>_. 3) 0),
     (Exit, ''rmdir'', sample_tp 7 (\<lambda>_. 1) 0), (Exit, ''read'', sample_tp 8 (\<lambda>_. 3) 64)]"

lemma table_lookups:
  "map_of call_table ''rmdir'' = Some (\<lambda>a. [], \<lambda>a e. [(tp_env e, tp_nr e, RMDIR_EX, WT_RMDIR, Str_long1 (tp_args a ''pathname'') (tp_ret e))])"
  "map_of call_table ''read'' = Some (\<lambda>a. [], \<lambda>a e. transfer e READ_EX WT_READ (to_long (to_int (tp_args a ''fd''))))"
  by (simp add: call_table_def)+

lemma sample_calls:
  "trace_calls Map.empty sample_run =
     [(thread_env 7, 257, RMDIR_EX, WT_RMDIR, Str_long1 1 0),
      (thread_env 8, 257, READ_EX, WT_READ, Long3 3 (oid (sample_tp 8 (\<lambda>_. 3) 64) 3) 64)]"
  by (simp add: sample_run_def enter_calls_def exit_calls_def table_lookups returns_def sample_tids transfer_def is_err_def word_sle_eq)

lemma thread_not_logger: "\<not> is_dlogger_descendant (dlogger_config 1 d) (thread_env t)"
  by (simp add: is_dlogger_descendant_def thread_env_def sample_env_def dlogger_config_def walk_ancestors_numeral)

lemma sample_run_normal: "normal_run (dlogger_config 1 d) Map.empty sample_run"
  by (simp add: sample_run_def audited_def sample_tids returns_def thread_not_logger execs_def)

lemma sample_pids: "getpid (thread_env 7) = 7" "getpid (thread_env 8) = 7"
  by (simp_all add: getpid_def thread_env_def sample_env_def)

section \<open>Properties\<close>

text \<open>
  (C13) The probe logs what the table says: for every system call but execve, run to its end in any
  interleaving with other threads, the records written are those of the table, computed from the
  tracepoints at the entry and the exit of that call alone.
\<close>

theorem handlers_log_table:
  assumes "normal_run c Map.empty es"
  shows "logs c (trace_calls Map.empty es) k (as_k (fold (fire c) es (fresh k)))"
proof -
  have "as_k (fold (fire c) es (fresh k)) = fst (fold (spec_step c) es (k, Map.empty))"
    using sim_run [OF sim_init normal_possible [OF assms], of c k]
    by (cases "fold (spec_step c) es (k, Map.empty)") (auto dest: simD)
  with run_logged [OF assms, of k] show ?thesis by simp
qed

theorem handlers_log_table_witness:
  "logs (dlogger_config 1 True)
     [(thread_env 7, 257, RMDIR_EX, WT_RMDIR, Str_long1 1 0),
      (thread_env 8, 257, READ_EX, WT_READ, Long3 3 (oid (sample_tp 8 (\<lambda>_. 3) 64) 3) 64)]
     (kstate_init 3) (as_k (fold (fire (dlogger_config 1 True)) sample_run (fresh (kstate_init 3))))"
  using handlers_log_table [OF sample_run_normal [of True], of "kstate_init 3"] by (simp add: sample_calls)

text \<open>
  (C11) From system calls to the consumer: whatever system calls other than execve and execveat the
  threads of a CPU make, each thread one call at a time, and however they interleave, the parser reads
  the captured messages without an error and tells the consumer the events of the first \<open>j\<close> records of
  the table, in order; the other records are still in the cache. The calls are audited and come from
  outside the logger, no argument map evicts an entry (\<open>normal_run\<close>), the ring buffer accepts every
  message (\<open>on_cpu\<close>), and the strings of the calls can be read (\<open>readable\<close>).
\<close>

theorem syscalls_reach_consumer:
  assumes "normal_run (dlogger_config p d) Map.empty es" "list_all (on_cpu cpu) es" "cpu \<le> n"
    and "list_all readable (trace_calls Map.empty es)" "short_seqnum c" "\<not> rs_out_of_sync R"
    and "s = as_k (fold (fire (dlogger_config p d)) es (fresh (kstate_init n)))"
  shows "\<exists>j R'. parse_rec c (memory_of (capture s)) (length (capture s)) R = Some (length (capture s), R') \<and>
    told (call_events (ps_clk_kernel_diff (rs_p R)) 0 (take j (trace_calls Map.empty es))) R R' \<and>
    (\<exists>b. ks_buf s cpu = Some b \<and> cached b = call_records (of_nat j) (drop j (trace_calls Map.empty es)))"
proof -
  obtain gs rest where g: "concat gs @ rest = trace_calls Map.empty es" and st: "sent cpu 0 s gs rest"
    using run_sent [OF assms(1-3,7)] by blast
  let ?j = "length (concat gs)"
  have tk: "take ?j (trace_calls Map.empty es) = concat gs" "drop ?j (trace_calls Map.empty es) = rest" by (simp_all flip: g)
  have "list_all known_call (concat gs)" using trace_ok(2) [OF assms(1,2,4)] by (simp flip: g)
  from parse_capture [OF st this assms(6,5)] show ?thesis
    using st by (intro exI [of _ ?j]) (auto simp: tk sent_def)
qed

theorem syscalls_reach_consumer_witness:
  "\<exists>j R' s. s = as_k (fold (fire (dlogger_config 1 True)) sample_run (fresh (kstate_init 3))) \<and>
     parse_rec dlogger_pconf (memory_of (capture s)) (length (capture s)) rstate_init = Some (length (capture s), R') \<and>
     rs_events R' = take j [Call (call_hdr (thread_env 7) 0 0 RMDIR_EX) (C_rmdir [104, 105] 0),
       Call (call_hdr (thread_env 8) 0 1 READ_EX) (C_read 3 (oid (sample_tp 8 (\<lambda>_. 3) 64) 3) 64)]"
proof -
  let ?s = "as_k (fold (fire (dlogger_config 1 True)) sample_run (fresh (kstate_init 3)))"
  have cpu: "list_all (on_cpu 0) sample_run"
    by (simp add: sample_run_def on_cpu_def sample_pids word_sless_alt) (simp add: thread_env_def sample_env_def)
  have rd: "list_all readable (trace_calls Map.empty sample_run)"
    by (simp add: sample_calls readable_def strings_ok_def) (simp add: thread_env_def sample_env_def)
  obtain j R' where "parse_rec dlogger_pconf (memory_of (capture ?s)) (length (capture ?s)) rstate_init = Some (length (capture ?s), R')"
    and "told (call_events 0 0 (take j (trace_calls Map.empty sample_run))) rstate_init R'"
    using syscalls_reach_consumer [OF sample_run_normal [of True] cpu, of 3 dlogger_pconf rstate_init, OF _ rd _ _ refl]
    by (auto simp: short_seqnum_def dlogger_pconf_def rstate_init_def pstate_init_def)
  moreover have "str_val (thread_env 7) 1 = [104, 105]" by (simp add: str_val_def thread_env_def sample_env_def)
  then have "call_events 0 0 (take j (trace_calls Map.empty sample_run)) =
      take j [Call (call_hdr (thread_env 7) 0 0 RMDIR_EX) (C_rmdir [104, 105] 0),
       Call (call_hdr (thread_env 8) 0 1 READ_EX) (C_read 3 (oid (sample_tp 8 (\<lambda>_. 3) 64) 3) 64)]"
    by (cases j; cases "j - 1") (simp_all add: sample_calls record_events_def code_values)
  ultimately show ?thesis by (intro exI [of _ j] exI [of _ R'] exI) (auto simp: told_def rstate_init_def)
qed

end
