(* ===== verification/Stream_Items.thy ===== *)
theory Stream_Items
  imports Stream_Events
begin

text \<open>
  The pieces of a capture file: time stamps, records of the probe, and the records the daemon adds
  (clock differences, tamper windows, paths of control groups), and what the parser learns from each.
\<close>

section \<open>Pieces\<close>

datatype (plugins only: code size) item =
    Stamp u64
  | Clock u64 u64
  | Window u64
  | Cgroup u64 "u8 list"
  | Rec u64 log_call

fun item_bytes :: "item \<Rightarrow> u8 list" where
  "item_bytes (Stamp t) = le_bytes 8 (TS_RECORD (MS_BITS t))"
| "item_bytes (Clock a b) = TS_DIFF # le_bytes 8 a @ le_bytes 8 b"
| "item_bytes (Window t) = TS_KERN # le_bytes 8 t"
| "item_bytes (Cgroup g s) = TS_CGROUP_PATH # le_bytes 8 g @ of_nat (length s) # s"
| "item_bytes (Rec sn (e, sc, nm, w, r)) = record_bytes e nm sn r"

definition items_bytes :: "item list \<Rightarrow> u8 list" where
  "items_bytes xs = concat (map item_bytes xs)"

lemma items_bytes_simps [simp]:
  "items_bytes [] = []" "items_bytes (x # xs) = item_bytes x @ items_bytes xs"
  "items_bytes (xs @ ys) = items_bytes xs @ items_bytes ys"
  by (simp_all add: items_bytes_def)

fun item_ok :: "item \<Rightarrow> bool" where
  "item_ok (Cgroup g s) \<longleftrightarrow> s \<noteq> [] \<and> 0 \<notin> set s \<and> length s < 256"
| "item_ok (Rec sn x) \<longleftrightarrow> known_call x"
| "item_ok _ \<longleftrightarrow> True"

fun item_events :: "u64 \<Rightarrow> item \<Rightarrow> consumer_event list" where
  "item_events d (Clock a b) = [Cur_time a]"
| "item_events d (Rec sn (e, sc, nm, w, r)) = record_events e d sn nm r"
| "item_events d _ = []"

fun item_diff :: "item \<Rightarrow> u64 \<Rightarrow> u64" where
  "item_diff (Clock a b) d = a - b"
| "item_diff _ d = d"

fun item_path :: "item \<Rightarrow> (u64 \<rightharpoonup> cstr) \<Rightarrow> (u64 \<rightharpoonup> cstr)" where
  "item_path (Cgroup g s) m = m(g \<mapsto> s)"
| "item_path _ m = m"

fun items_events :: "u64 \<Rightarrow> item list \<Rightarrow> consumer_event list" where
  "items_events d [] = []"
| "items_events d (x # xs) = item_events d x @ items_events (item_diff x d) xs"

text \<open>What the parser knows after it has read some pieces without an error.\<close>

definition learnt :: "item list \<Rightarrow> rstate \<Rightarrow> rstate \<Rightarrow> bool" where
  "learnt xs R R' \<longleftrightarrow> rs_events R' = rs_events R @ items_events (ps_clk_kernel_diff (rs_p R)) xs \<and>
     ps_clk_kernel_diff (rs_p R') = fold item_diff xs (ps_clk_kernel_diff (rs_p R)) \<and>
     rs_cgroup_paths R' = fold item_path xs (rs_cgroup_paths R) \<and> rs_out_of_sync R' = rs_out_of_sync R \<and>
     rs_errmsgs R' = rs_errmsgs R \<and> rs_err_rec R' = rs_err_rec R \<and> rs_n_tampered_events R' = rs_n_tampered_events R"

lemma items_events_append:
  "items_events d (xs @ ys) = items_events d xs @ items_events (fold item_diff xs d) ys"
  by (induction xs arbitrary: d) auto

lemma learnt_append [trans]: "learnt xs R R' \<Longrightarrow> learnt ys R' R'' \<Longrightarrow> learnt (xs @ ys) R R''"
  by (simp add: learnt_def items_events_append)

lemma learnt_Nil [simp]: "learnt [] R R"
  by (simp add: learnt_def)

lemma learnt_Cons: "learnt [x] R R' \<Longrightarrow> learnt xs R' R'' \<Longrightarrow> learnt (x # xs) R R''"
  using learnt_append [of "[x]" R R' xs R''] by simp

lemma learnt_sync: "learnt xs R R' \<Longrightarrow> rs_out_of_sync R' = rs_out_of_sync R"
  by (simp add: learnt_def)

lemma length_item: "item_ok x \<Longrightarrow> 8 \<le> length (item_bytes x) \<and> length (item_bytes x) < 512"
proof (cases x rule: item_bytes.cases)
  case (5 sn e sc nm w r)
  show ?thesis using length_record_bytes [of e nm sn r] by (simp add: 5) (simp add: record_bytes_def)
qed auto

lemma length_item_stamp: "item_ok x \<Longrightarrow> length (item_bytes x) \<le> 8 \<Longrightarrow> \<exists>t. x = Stamp t"
  by (cases x rule: item_bytes.cases) (auto simp: record_bytes_def)

section \<open>Reading one piece\<close>

lemma holds_le: "holds m p (le_bytes 8 a) \<Longrightarrow> of_le (slice m p 8) = a"
  by (simp add: holds_def of_le_full)

lemma parse_clock:
  assumes "holds m p (item_bytes (Clock a b))"
  shows "\<exists>R'. parse_record c m q p R = Some (p + 17, R') \<and> learnt [Clock a b] R R'"
proof -
  have h: "m p = TS_DIFF" "of_le (slice m (Suc p) 8) = a" "of_le (slice m (Suc (p + 8)) 8) = b"
    using assms holds_le [of m "p + 1" a] holds_le [of m "p + 9" b] by (simp_all add: eval_nat_numeral)
  then show ?thesis
    by (simp add: parse_record_def code_values TSMS_EN_def read_seqnum_def has_seqnum_def Let_def dispatch_def ts_diff_rec_def
        count_record_def set_sctype_def reset_strbuf_def learnt_def)
qed

lemma parse_window:
  assumes "holds m p (item_bytes (Window t))"
  shows "\<exists>R'. parse_record c m q p R = Some (p + 9, R') \<and> learnt [Window t] R R'"
proof -
  have "m p = TS_KERN" using assms by simp
  then show ?thesis
    by (simp add: parse_record_def code_values TSMS_EN_def read_seqnum_def has_seqnum_def Let_def dispatch_def ts_kern_rec_def
        count_record_def set_sctype_def reset_strbuf_def learnt_def split: prod.split)
qed

lemma c_string_copied:
  assumes "0 \<notin> set s" "slice sb i (length s) = s" "sb (i + length s) = 0" "length s < n"
  shows "c_string n sb i = s"
  using assms
proof (induction s arbitrary: i n)
  case Nil
  then show ?case by (cases n) simp_all
next
  case (Cons x s)
  then obtain n' where n: "n = Suc n'" by (cases n) auto
  have "slice sb i 1 @ slice sb (i + 1) (length s) = x # s"
    using Cons.prems(2) slice_add [of sb i 1 "length s"] by simp
  then have "sb i = x" "slice sb (i + 1) (length s) = s" by (simp_all add: slice_1)
  with Cons.IH [of "i + 1" n'] Cons.prems show ?case by (simp add: n)
qed

lemma parse_cgroup:
  assumes "holds m p (item_bytes (Cgroup g s))" "item_ok (Cgroup g s)" "p + length (item_bytes (Cgroup g s)) \<le> q"
  shows "\<exists>R'. parse_record c m q p R = Some (p + length (item_bytes (Cgroup g s)), R') \<and> learnt [Cgroup g s] R R'"
proof -
  let ?n = "length s"
  have h: "m p = TS_CGROUP_PATH" "of_le (slice m (Suc p) 8) = g" "m (9 + p) = of_nat ?n" "slice m (10 + p) ?n = s"
    using assms(1) holds_le [of m "p + 1" g] by (simp_all add: holds_def [of _ _ s] ac_simps)
  have n: "unat (of_nat ?n :: u8) = ?n" "0 < ?n" using assms(2) by (simp_all add: unat_of_nat)
  define R1 where "R1 = set_sctype SC_DEFAULT (R\<lparr>rs_exit_op := True, rs_no_entry := True, rs_current_rec := p, rs_p := reset_strbuf (rs_p R)\<rparr>)"
  define st where "st = (if MAX_DLEN \<le> ?n then (rs_p R1)\<lparr>ps_trunc_fn := ps_trunc_fn (rs_p R1) + 1\<rparr> else rs_p R1)"
  have nx: "ps_strbuf_next st = 0" "ps_clk_kernel_diff st = ps_clk_kernel_diff (rs_p R)"
    by (simp_all add: st_def R1_def set_sctype_def reset_strbuf_def)
  let ?sb = "store (ps_strbuf st) 0 s"
  have "?sb (?n - 1) = last s" "last s \<noteq> 0"
    using assms(2) last_in_set [of s] by (simp add: store_def last_conv_nth, metis item_ok.simps(1))
  then have "copy2strbuf_term s 0 st = Some (0, st\<lparr>ps_strbuf := ?sb(?n := 0), ps_strbuf_next := ?n + 1\<rparr>)"
    using n(2) assms(2) by (simp add: copy2strbuf_term_def nx rem_spc_strbuf_def PBUFSIZE_def BUFSIZE_def Let_def)
  then have gs: "get_string m q (9 + p) (rs_p R1) = Got 0 (10 + p + ?n) (st\<lparr>ps_strbuf := ?sb(?n := 0), ps_strbuf_next := ?n + 1\<rparr>)"
    using assms(3) by (simp add: get_string_term_def Let_def h n st_def)
  have "slice (?sb(?n := 0)) 0 ?n = s" by (subst slice_upd_out) simp_all
  then have cs: "c_string PBUFSIZE (?sb(?n := 0)) 0 = s"
    using assms(2) by (intro c_string_copied) (auto simp: PBUFSIZE_def BUFSIZE_def)
  have "parse_record c m q p R = Some (p + length (item_bytes (Cgroup g s)), count_record TS_CGROUP_PATH
      (R1\<lparr>rs_p := st\<lparr>ps_strbuf := ?sb(?n := 0), ps_strbuf_next := ?n + 1\<rparr>, rs_cgroup_paths := (rs_cgroup_paths R1)(g \<mapsto> s), rs_exit_op := False\<rparr>))"
    using gs cs by (simp add: parse_record_def h code_values TSMS_EN_def read_seqnum_def has_seqnum_def Let_def dispatch_def
        cgroup_path_rec_def str_at_def flip: R1_def)
  then show ?thesis
    by (simp add: learnt_def nx count_record_def Let_def) (simp add: R1_def set_sctype_def)
qed

lemma told_learnt: "told (item_events (ps_clk_kernel_diff (rs_p R)) x) R R' \<Longrightarrow> (\<And>d. item_diff x d = d) \<Longrightarrow> (\<And>m. item_path x m = m) \<Longrightarrow> learnt [x] R R'"
  by (simp add: told_def learnt_def)

lemma parse_item:
  assumes "item_ok x" "holds m p (item_bytes x)" "p + length (item_bytes x) \<le> q" "short_seqnum c"
  shows "\<exists>R'. parse_record c m q p R = Some (p + length (item_bytes x), R') \<and> learnt [x] R R'"
proof (cases x rule: item_bytes.cases)
  case (1 t)
  then show ?thesis using parse_tsms [of m p t c q R] assms told_learnt [of R "Stamp t"] by auto
next
  case (2 a b)
  then show ?thesis using parse_clock [of m p a b c q R] assms by auto
next
  case (3 t)
  then show ?thesis using parse_window [of m p t c q R] assms by auto
next
  case (4 g s)
  then show ?thesis using parse_cgroup [of m p g s q c R] assms by blast
next
  case (5 sn e sc nm w r)
  from assms(1) obtain cs where k: "record_calls e nm r = Some cs" "strings_ok e r" "0 <s getpid e" by (auto simp: 5)
  have "record_at c e m q p nm sn r" using assms k(3) by (simp add: 5 record_at_def short_seqnum_def)
  with known_record_told [OF k(1), of c] k(2) obtain R' where
    "parse_record c m q p R = Some (p + length (record_bytes e nm sn r), R')"
    "told (record_events e (ps_clk_kernel_diff (rs_p R)) sn nm r) R R'"
    unfolding tells_consumer_def by blast
  then show ?thesis using told_learnt [of R x R'] by (auto simp: 5)
qed

section \<open>Reading a run of pieces\<close>

text \<open>Where the input may go on, the loop stops between two pieces; at the end it reads all of them.\<close>

lemma holds_appendD: "holds m p (a @ b) \<Longrightarrow> holds m p a \<and> holds m (p + length a) b"
  by simp

lemma parse_items_more:
  assumes "list_all item_ok xs" "holds m p (take n (items_bytes xs))" "n \<le> length (items_bytes xs)" "\<not> rs_out_of_sync R" "short_seqnum c"
  shows "\<exists>k R'. parse_loop c False m (p + n) True p R = Some (p + length (items_bytes (take k xs)), R') \<and>
    learnt (take k xs) R R' \<and> length (items_bytes (take k xs)) \<le> n"
  using assms
proof (induction xs arbitrary: p n R)
  case Nil
  then show ?case by (intro exI [of _ 0] exI [of _ R]) (simp add: parse_loop_end)
next
  case (Cons x xs)
  let ?l = "length (item_bytes x)"
  have l: "8 \<le> ?l" "?l < 512" using length_item [of x] Cons.prems(1) by simp_all
  show ?case
  proof (cases "n = 0 \<or> needs_more False m (p + n) p")
    case True
    then have "parse_loop c False m (p + n) True p R = Some (p, R)"
      using Cons.prems(4) by (cases "n = 0") (simp_all add: parse_loop_end parse_loop.simps [of c False m "p + n"])
    then show ?thesis by (intro exI [of _ 0] exI [of _ R]) simp
  next
    case False
    then have n: "512 < n" by (auto simp: needs_more_def BUFSIZE_def split: if_splits)
    then have "take n (items_bytes (x # xs)) = item_bytes x @ take (n - ?l) (items_bytes xs)" using l by simp
    then have h: "holds m p (item_bytes x)" "holds m (p + ?l) (take (n - ?l) (items_bytes xs))"
      using Cons.prems(2) by simp_all
    obtain R1 where r: "parse_record c m (p + n) p R = Some (p + ?l, R1)" "learnt [x] R R1"
      using parse_item [OF _ h(1) _ Cons.prems(5), of "p + n" R] Cons.prems(1) n l by auto
    have e: "p + ?l + (n - ?l) = p + n" using n l by simp
    obtain k R' where "parse_loop c False m (p + n) True (p + ?l) R1 = Some (p + ?l + length (items_bytes (take k xs)), R')"
      "learnt (take k xs) R1 R'" "length (items_bytes (take k xs)) \<le> n - ?l"
      using Cons.IH [OF _ h(2) _ _ Cons.prems(5), of R1] Cons.prems(1,3,4) learnt_sync [OF r(2)] e by auto
    then show ?thesis
      using False r n l Cons.prems(4) learnt_Cons [OF r(2), of "take k xs"]
      by (intro exI [of _ "Suc k"] exI [of _ R']) (subst parse_loop.simps, simp add: add.assoc)
  qed
qed

lemma parse_items_end:
  assumes "list_all item_ok xs" "holds m p (items_bytes xs)" "\<not> rs_out_of_sync R" "short_seqnum c"
    and "q = p + length (items_bytes xs)"
  shows "\<exists>R'. parse_loop c True m q True p R = Some (q, R') \<and> learnt xs R R'"
  using assms
proof (induction xs arbitrary: p R)
  case Nil
  then show ?case by (intro exI [of _ R]) (simp add: parse_loop_end)
next
  case (Cons x xs)
  let ?l = "length (item_bytes x)"
  have h: "holds m p (item_bytes x)" "holds m (p + ?l) (items_bytes xs)" "q = p + ?l + length (items_bytes xs)"
    using Cons.prems(2,5) by (simp_all add: add.assoc)
  have l: "8 \<le> ?l" using length_item [of x] Cons.prems(1) by simp
  obtain R1 where r: "parse_record c m q p R = Some (p + ?l, R1)" "learnt [x] R R1"
    using parse_item [OF _ h(1) _ Cons.prems(4), of q R] Cons.prems(1) h(3) by auto
  obtain R' where "parse_loop c True m q True (p + ?l) R1 = Some (q, R')" "learnt xs R1 R'"
    using Cons.IH [OF _ h(2) _ Cons.prems(4) h(3), of R1] Cons.prems(1,3) learnt_sync [OF r(2)] by auto
  moreover have "p < q" using h(3) l by linarith
  ultimately show ?case
    using parse_loop_step [OF r(1) Cons.prems(3)] learnt_Cons [OF r(2), of xs R'] by (intro exI [of _ R']) auto
qed

end
