(* ===== verification/Stream_Read.thy ===== *)
theory Stream_Read
  imports Stream_Items
begin

text \<open>
  \<open>parse_stream\<close> of \<^verbatim>\<open>src/eParser.C\<close>: the capture file is read into a buffer in chunks of whatever size
  the kernel returns, the complete records in the buffer are parsed, and what is left is moved to the
  front when the buffer is nearly full.
\<close>

section \<open>The program\<close>

text \<open>
  The file: its bytes, how many bytes (less one) each call of \<open>read\<close> is willing to return, and whether
  the call after the last byte fails.
\<close>

record input =
  in_data :: "u8 list"
  in_sizes :: "nat list"
  in_fails :: bool

definition read_input :: "nat \<Rightarrow> input \<Rightarrow> u8 list \<times> input" where
  "read_input n i =
     (let k = (case in_sizes i of [] \<Rightarrow> n | j # js \<Rightarrow> min n (Suc j))
      in (take k (in_data i), i\<lparr>in_data := drop k (in_data i), in_sizes := tl (in_sizes i)\<rparr>))"

record stream =
  sm_buf :: mem
  sm_p :: nat
  sm_q :: nat
  sm_nr :: nat
  sm_offset :: nat
  sm_r :: rstate
  sm_in :: input

text \<open>
  The program stops with the last result of \<open>read\<close> or does not go on: a handler aborts, or \<open>memcpy\<close> is
  called with a negative size or with areas that overlap.
\<close>

datatype stream_end = Crashed | Stopped int stream

definition take_in :: "u8 list \<Rightarrow> input \<Rightarrow> stream \<Rightarrow> stream" where
  "take_in bs i s = s\<lparr>sm_buf := store (sm_buf s) (sm_q s) bs, sm_q := sm_q s + length bs, sm_nr := sm_nr s + length bs, sm_in := i\<rparr>"

definition compact :: "stream \<Rightarrow> stream" where
  "compact s = s\<lparr>sm_buf := store (sm_buf s) 0 (slice (sm_buf s) (sm_p s) (sm_q s - sm_p s)), sm_q := sm_q s - sm_p s,
     sm_offset := sm_offset s + sm_p s, sm_p := 0\<rparr>"

partial_function (option) stream_loop :: "pconf \<Rightarrow> stream \<Rightarrow> stream_end option" where
  "stream_loop c s =
     (if PBUFSIZE - sm_q s > min 8192 (PBUFSIZE div 5)
      then case read_input (PBUFSIZE - sm_q s) (sm_in s) of (bs, i) \<Rightarrow>
             if bs = [] then Some (Stopped (if in_fails i then - 1 else 0) s)
             else case parse_buffer c False (sm_buf (take_in bs i s)) (sm_q (take_in bs i s)) (sm_p s) (sm_r s) of
                    None \<Rightarrow> Some Crashed
                  | Some (p, r) \<Rightarrow> stream_loop c ((take_in bs i s)\<lparr>sm_p := p, sm_r := r\<rparr>)
      else if sm_q s < sm_p s \<or> sm_p s < sm_q s - sm_p s then Some Crashed
      else stream_loop c (compact s))"

definition stream_start :: "mem \<Rightarrow> nat \<Rightarrow> input \<Rightarrow> rstate \<Rightarrow> stream" where
  "stream_start m offs i r = \<lparr>sm_buf = m, sm_p = 0, sm_q = 0, sm_nr = 0, sm_offset = offs, sm_r = r, sm_in = i\<rparr>"

definition parse_stream :: "pconf \<Rightarrow> mem \<Rightarrow> nat \<Rightarrow> input \<Rightarrow> rstate \<Rightarrow> stream_end option" where
  "parse_stream c m offs i r =
     (case stream_loop c (stream_start m offs i r) of
        Some (Stopped nb s) \<Rightarrow>
          if sm_p s < sm_q s
          then case parse_buffer c True (sm_buf s) (sm_q s) (sm_p s) (sm_r s) of
                 None \<Rightarrow> Some Crashed
               | Some (p, r) \<Rightarrow> Some (Stopped nb (s\<lparr>sm_p := p, sm_r := r\<rparr>))
          else Some (Stopped nb s)
      | e \<Rightarrow> e)"

section \<open>Progress\<close>

definition chunk :: "nat \<Rightarrow> input \<Rightarrow> nat" where
  "chunk n i = (case in_sizes i of [] \<Rightarrow> n | j # js \<Rightarrow> min n (Suc j))"

lemma read_input_chunk:
  "read_input n i = (take (chunk n i) (in_data i), i\<lparr>in_data := drop (chunk n i) (in_data i), in_sizes := tl (in_sizes i)\<rparr>)"
  by (simp add: read_input_def chunk_def Let_def)

lemma chunk_bounds: "chunk n i \<le> n" "0 < n \<Longrightarrow> 0 < chunk n i"
  by (auto simp: chunk_def split: list.split)

lemma room: "8192 < PBUFSIZE - q \<longleftrightarrow> q < 121856" "min 8192 (PBUFSIZE div 5) = 8192"
  by (auto simp: PBUFSIZE_def BUFSIZE_def)

text \<open>The part of the buffer that is not parsed yet is never longer than the longest record.\<close>

definition fits :: "stream \<Rightarrow> bool" where
  "fits s \<longleftrightarrow> sm_q s \<le> PBUFSIZE \<and> sm_q s \<le> sm_p s + BUFSIZE"

lemma parse_buffer_fits: "parse_buffer c ended m q p r = Some (p', r') \<Longrightarrow> p \<le> p' \<and> q \<le> p' + BUFSIZE"
  using parse_loop_consumes [of c ended m q p False r]
  by (auto simp: parse_buffer_def consumes_def needs_more_def BUFSIZE_def split: if_splits)

text \<open>One round of the loop: a chunk is read, or the buffer is compacted, which leaves room for the next chunk.\<close>

definition fed :: "stream \<Rightarrow> stream" where
  "fed s = (case read_input (PBUFSIZE - sm_q s) (sm_in s) of (bs, i) \<Rightarrow> take_in bs i s)"

lemma stream_loop_stop:
  "sm_q s < 121856 \<Longrightarrow> in_data (sm_in s) = [] \<Longrightarrow>
   stream_loop c s = Some (Stopped (if in_fails (sm_in s) then - 1 else 0) s)"
  by (subst stream_loop.simps) (simp add: room read_input_chunk)

lemma fed_chunk:
  assumes "sm_q s < 121856" "in_data (sm_in s) \<noteq> []"
  shows "\<exists>bs ds. in_data (sm_in s) = bs @ ds \<and> bs \<noteq> [] \<and> sm_q s + length bs \<le> PBUFSIZE \<and> in_data (sm_in (fed s)) = ds \<and>
    in_fails (sm_in (fed s)) = in_fails (sm_in s) \<and>
    sm_buf (fed s) = store (sm_buf s) (sm_q s) bs \<and> sm_q (fed s) = sm_q s + length bs \<and> sm_nr (fed s) = sm_nr s + length bs \<and>
    stream_loop c s = (case parse_buffer c False (sm_buf (fed s)) (sm_q (fed s)) (sm_p s) (sm_r s) of
      None \<Rightarrow> Some Crashed | Some (p, r) \<Rightarrow> stream_loop c ((fed s)\<lparr>sm_p := p, sm_r := r\<rparr>))"
proof -
  let ?k = "chunk (PBUFSIZE - sm_q s) (sm_in s)"
  have k: "0 < ?k" "?k \<le> PBUFSIZE - sm_q s"
    using assms(1) chunk_bounds [of "PBUFSIZE - sm_q s" "sm_in s"] by (auto simp: PBUFSIZE_def BUFSIZE_def)
  then have "sm_q s + length (take ?k (in_data (sm_in s))) \<le> PBUFSIZE" using assms(1) by (simp add: PBUFSIZE_def BUFSIZE_def)
  moreover have fe: "fed s = take_in (take ?k (in_data (sm_in s))) ((sm_in s)\<lparr>in_data := drop ?k (in_data (sm_in s)), in_sizes := tl (in_sizes (sm_in s))\<rparr>) s"
    by (simp add: fed_def read_input_chunk)
  moreover have "stream_loop c s = (case parse_buffer c False (sm_buf (fed s)) (sm_q (fed s)) (sm_p s) (sm_r s) of
      None \<Rightarrow> Some Crashed | Some (p, r) \<Rightarrow> stream_loop c ((fed s)\<lparr>sm_p := p, sm_r := r\<rparr>))"
    unfolding fe using assms k by (subst stream_loop.simps) (simp add: room read_input_chunk)
  ultimately show ?thesis
    using assms k
    by - (rule exI [of _ "take ?k (in_data (sm_in s))"], rule exI [of _ "drop ?k (in_data (sm_in s))"], simp add: take_in_def)
qed

lemma stream_loop_compact:
  "\<not> sm_q s < 121856 \<Longrightarrow> stream_loop c s =
     (if sm_q s < sm_p s \<or> sm_p s < sm_q s - sm_p s then Some Crashed else stream_loop c (compact s))"
  by (subst stream_loop.simps) (simp add: room)

definition stream_rank :: "stream \<Rightarrow> nat" where
  "stream_rank s = 2 * length (in_data (sm_in s)) + (if sm_q s < 121856 then 0 else 1)"

definition bytes_total :: "stream \<Rightarrow> nat" where
  "bytes_total s = sm_nr s + length (in_data (sm_in s))"

lemma compact_simps:
  "in_data (sm_in (compact s)) = in_data (sm_in s)" "bytes_total (compact s) = bytes_total s" "sm_r (compact s) = sm_r s"
  "sm_in (compact s) = sm_in s"
  "fits s \<Longrightarrow> fits (compact s)" "fits s \<Longrightarrow> sm_q (compact s) < 121856"
  by (auto simp: compact_def bytes_total_def fits_def BUFSIZE_def)

fun ends :: "nat \<Rightarrow> stream_end option \<Rightarrow> bool" where
  "ends n None \<longleftrightarrow> False"
| "ends n (Some Crashed) \<longleftrightarrow> True"
| "ends n (Some (Stopped nb s)) \<longleftrightarrow> in_data (sm_in s) = [] \<and> bytes_total s = n \<and> fits s"

lemma stream_loop_returns:
  assumes "fits s" shows "ends (bytes_total s) (stream_loop c s)"
  using assms
proof (induction s rule: measure_induct_rule [of stream_rank])
  case (less s)
  show ?case
  proof (cases "sm_q s < 121856")
    case q: True
    show ?thesis
    proof (cases "in_data (sm_in s) = []")
      case True
      with q less.prems show ?thesis by (simp add: stream_loop_stop)
    next
      case False
      from fed_chunk [OF q this, of c] obtain bs ds where f: "in_data (sm_in s) = bs @ ds" "bs \<noteq> []" "sm_q s + length bs \<le> PBUFSIZE"
        "in_data (sm_in (fed s)) = ds" "sm_q (fed s) = sm_q s + length bs" "sm_nr (fed s) = sm_nr s + length bs"
        and st: "stream_loop c s = (case parse_buffer c False (sm_buf (fed s)) (sm_q (fed s)) (sm_p s) (sm_r s) of
          None \<Rightarrow> Some Crashed | Some (p, r) \<Rightarrow> stream_loop c ((fed s)\<lparr>sm_p := p, sm_r := r\<rparr>))" by blast
      show ?thesis
      proof (cases "parse_buffer c False (sm_buf (fed s)) (sm_q (fed s)) (sm_p s) (sm_r s)")
        case (Some a)
        obtain p r where a: "a = (p, r)" by (cases a)
        let ?s = "(fed s)\<lparr>sm_p := p, sm_r := r\<rparr>"
        have "fits ?s" using parse_buffer_fits [OF Some [unfolded a]] f by (simp add: fits_def)
        moreover have "stream_rank ?s < stream_rank s" using f(1,2,4) q by (cases bs) (simp_all add: stream_rank_def)
        ultimately have "ends (bytes_total ?s) (stream_loop c ?s)" by (intro less.IH)
        moreover have "bytes_total ?s = bytes_total s" using f by (simp add: bytes_total_def)
        ultimately show ?thesis by (simp add: st Some a)
      qed (simp add: st)
    qed
  next
    case False
    have "stream_rank (compact s) < stream_rank s"
      using False compact_simps(6) [OF less.prems] by (simp add: stream_rank_def compact_simps)
    from less.IH [OF this compact_simps(5) [OF less.prems]] show ?thesis
      using stream_loop_compact [OF False, of c] by (simp add: compact_simps(2))
  qed
qed

section \<open>Reading what was written\<close>

text \<open>The pieces of the file that have not been parsed are in the buffer and in the rest of the file.\<close>

definition awaits :: "item list \<Rightarrow> stream \<Rightarrow> bool" where
  "awaits xs s \<longleftrightarrow> fits s \<and> sm_p s \<le> sm_q s \<and> \<not> rs_out_of_sync (sm_r s) \<and>
     slice (sm_buf s) (sm_p s) (sm_q s - sm_p s) @ in_data (sm_in s) = items_bytes xs"

lemma parse_buffer_items:
  assumes "list_all item_ok xs" "holds m p (take n (items_bytes xs))" "n \<le> length (items_bytes xs)" "\<not> rs_out_of_sync R" "short_seqnum c"
  shows "\<exists>k R'. parse_buffer c False m (p + n) p R = Some (p + length (items_bytes (take k xs)), R') \<and>
    learnt (take k xs) R R' \<and> length (items_bytes (take k xs)) \<le> n"
proof (cases "8 < n")
  case True
  with parse_items_more [OF assms] assms(4) show ?thesis
    by (simp add: parse_buffer_def parse_loop.simps [of c False m "p + n" False])
next
  case False
  then show ?thesis
    by (intro exI [of _ 0] exI [of _ R]) (simp add: parse_buffer_def parse_loop.simps [of c False m "p + n" False])
qed

lemma awaits_fed:
  assumes "awaits xs s" "list_all item_ok xs" "short_seqnum c" "sm_q s < 121856" "in_data (sm_in s) \<noteq> []"
  shows "\<exists>k s'. stream_loop c s = stream_loop c s' \<and> awaits (drop k xs) s' \<and> learnt (take k xs) (sm_r s) (sm_r s') \<and>
    length (in_data (sm_in s')) < length (in_data (sm_in s)) \<and> in_fails (sm_in s') = in_fails (sm_in s)"
proof -
  from fed_chunk [OF assms(4,5), of c] obtain bs ds where f: "in_data (sm_in s) = bs @ ds" "bs \<noteq> []" "sm_q s + length bs \<le> PBUFSIZE"
    "in_data (sm_in (fed s)) = ds" "in_fails (sm_in (fed s)) = in_fails (sm_in s)" "sm_buf (fed s) = store (sm_buf s) (sm_q s) bs"
    "sm_q (fed s) = sm_q s + length bs"
    and st: "stream_loop c s = (case parse_buffer c False (sm_buf (fed s)) (sm_q (fed s)) (sm_p s) (sm_r s) of
      None \<Rightarrow> Some Crashed | Some (p, r) \<Rightarrow> stream_loop c ((fed s)\<lparr>sm_p := p, sm_r := r\<rparr>))" by blast
  let ?p = "sm_p s" and ?m = "sm_buf (fed s)" and ?n = "sm_q (fed s) - sm_p s"
  have a: "fits s" "?p \<le> sm_q s" "\<not> rs_out_of_sync (sm_r s)" "slice (sm_buf s) ?p (sm_q s - ?p) @ bs @ ds = items_bytes xs"
    using assms(1) by (simp_all add: awaits_def f(1))
  have n: "?n = (sm_q s - ?p) + length bs" "?p + ?n = sm_q (fed s)" using a(2) by (simp_all add: f)
  have "slice ?m ?p ?n = slice (sm_buf s) ?p (sm_q s - ?p) @ bs"
    unfolding n(1) slice_add using a(2) by (simp add: f slice_store_disjoint)
  then have sl: "slice ?m ?p ?n @ ds = items_bytes xs" using a(4) by simp
  then have tk: "slice ?m ?p ?n = take ?n (items_bytes xs)" "?n \<le> length (items_bytes xs)" by (simp_all flip: sl)
  then have "holds ?m ?p (take ?n (items_bytes xs))" by (simp add: holds_def min_def)
  from parse_buffer_items [OF assms(2) this tk(2) a(3) assms(3)] obtain k R' where
    pb: "parse_buffer c False ?m (sm_q (fed s)) ?p (sm_r s) = Some (?p + length (items_bytes (take k xs)), R')"
    and l: "learnt (take k xs) (sm_r s) R'" "length (items_bytes (take k xs)) \<le> ?n" unfolding n(2) by blast
  let ?k = "length (items_bytes (take k xs))" let ?s = "(fed s)\<lparr>sm_p := ?p + ?k, sm_r := R'\<rparr>"
  have "items_bytes xs = items_bytes (take k xs) @ items_bytes (drop k xs)" by (simp flip: items_bytes_simps(3))
  moreover have "slice ?m ?p ?n = slice ?m ?p ?k @ slice ?m (?p + ?k) (?n - ?k)" using slice_add [of ?m ?p ?k "?n - ?k"] l(2) by (simp only: le_add_diff_inverse)
  ultimately have "slice ?m (?p + ?k) (?n - ?k) @ ds = items_bytes (drop k xs)" using sl by (simp add: append_eq_append_conv)
  moreover have "?n - ?k = sm_q ?s - sm_p ?s" by simp
  moreover have "fits ?s" using parse_buffer_fits [OF pb] f(3) by (simp add: fits_def f)
  moreover have "sm_p ?s \<le> sm_q ?s" using l(2) a(2) f(7) by simp
  ultimately have "awaits (drop k xs) ?s" using a(3) learnt_sync [OF l(1)] by (simp add: awaits_def f(4))
  then show ?thesis using l(1) st pb f(1,2,4,5) by (intro exI [of _ k] exI [of _ ?s]) simp
qed

lemma awaits_compact:
  assumes "awaits xs s" "\<not> sm_q s < 121856"
  shows "stream_loop c s = stream_loop c (compact s)" "awaits xs (compact s)"
proof -
  have a: "fits s" "sm_p s \<le> sm_q s" using assms(1) by (simp_all add: awaits_def)
  have "\<not> (sm_q s < sm_p s \<or> sm_p s < sm_q s - sm_p s)" using a assms(2) by (auto simp: fits_def BUFSIZE_def)
  then show "stream_loop c s = stream_loop c (compact s)" using stream_loop_compact [OF assms(2), of c] by simp
  have "slice (sm_buf (compact s)) (sm_p (compact s)) (sm_q (compact s) - sm_p (compact s)) = slice (sm_buf s) (sm_p s) (sm_q s - sm_p s)"
    using slice_store_same [of "sm_buf s" 0 "slice (sm_buf s) (sm_p s) (sm_q s - sm_p s)"] by (simp add: compact_def)
  then show "awaits xs (compact s)" using assms(1) compact_simps(5) [OF a(1)] by (simp add: awaits_def compact_simps) (simp add: compact_def)
qed

lemma stream_reads_items:
  assumes "awaits xs s" "list_all item_ok xs" "short_seqnum c"
  shows "\<exists>k s'. stream_loop c s = Some (Stopped (if in_fails (sm_in s) then - 1 else 0) s') \<and> awaits (drop k xs) s' \<and>
    in_data (sm_in s') = [] \<and> learnt (take k xs) (sm_r s) (sm_r s')"
  using assms
proof (induction s arbitrary: xs rule: measure_induct_rule [of stream_rank])
  case (less s)
  show ?case
  proof (cases "sm_q s < 121856")
    case q: True
    show ?thesis
    proof (cases "in_data (sm_in s) = []")
      case True
      with q less.prems(1) show ?thesis by (intro exI [of _ 0] exI [of _ s]) (simp add: stream_loop_stop)
    next
      case False
      from awaits_fed [OF less.prems q False] obtain k1 s1 where 1: "stream_loop c s = stream_loop c s1" "awaits (drop k1 xs) s1"
        "learnt (take k1 xs) (sm_r s) (sm_r s1)" "length (in_data (sm_in s1)) < length (in_data (sm_in s))" "in_fails (sm_in s1) = in_fails (sm_in s)"
        by blast
      have ok: "list_all item_ok (drop k1 xs)" using less.prems(2) by (auto simp: list_all_iff dest: in_set_dropD)
      have "stream_rank s1 < stream_rank s" using 1(4) q by (simp add: stream_rank_def)
      from less.IH [OF this 1(2) ok less.prems(3)] obtain k2 s2 where 2: "stream_loop c s1 = Some (Stopped (if in_fails (sm_in s1) then - 1 else 0) s2)"
        "awaits (drop k2 (drop k1 xs)) s2" "in_data (sm_in s2) = []" "learnt (take k2 (drop k1 xs)) (sm_r s1) (sm_r s2)" by blast
      have "take (k1 + k2) xs = take k1 xs @ take k2 (drop k1 xs)" by (simp add: take_add)
      then show ?thesis
        using 1 2 learnt_append [OF 1(3) 2(4)] by (intro exI [of _ "k1 + k2"] exI [of _ s2]) (simp add: add.commute)
    qed
  next
    case False
    have "stream_rank (compact s) < stream_rank s"
      using False compact_simps(6) [of s] less.prems(1) by (simp add: stream_rank_def compact_simps awaits_def)
    from less.IH [OF this awaits_compact(2) [OF less.prems(1) False] less.prems(2,3)] show ?thesis
      using awaits_compact(1) [OF less.prems(1) False, of c] by (simp add: compact_simps)
  qed
qed

lemma parse_rest:
  assumes "awaits xs s" "in_data (sm_in s) = []" "list_all item_ok xs" "short_seqnum c"
  shows "\<exists>p R'. (if sm_p s < sm_q s then parse_buffer c True (sm_buf s) (sm_q s) (sm_p s) (sm_r s) else Some (sm_p s, sm_r s)) = Some (p, R') \<and>
    learnt xs (sm_r s) R'"
proof -
  let ?n = "sm_q s - sm_p s"
  have a: "sm_p s \<le> sm_q s" "\<not> rs_out_of_sync (sm_r s)" "slice (sm_buf s) (sm_p s) ?n = items_bytes xs"
    using assms(1,2) by (simp_all add: awaits_def)
  then have n: "length (items_bytes xs) = ?n" by (simp flip: a(3))
  show ?thesis
  proof (cases "8 < ?n")
    case True
    have "holds (sm_buf s) (sm_p s) (items_bytes xs)" by (simp add: holds_def n a(3))
    from parse_items_end [OF assms(3) this a(2) assms(4), of "sm_q s"] show ?thesis
      using True a n by (auto simp: parse_buffer_def parse_loop.simps [of c True "sm_buf s" "sm_q s" False])
  next
    case False
    have "learnt xs (sm_r s) (sm_r s)"
    proof (cases xs)
      case (Cons x ys)
      then have l: "length (item_bytes x) + length (items_bytes ys) \<le> 8" "item_ok x" "list_all item_ok ys" using False n assms(3) by simp_all
      then obtain t where x: "x = Stamp t" using length_item_stamp [of x] by auto
      have "ys = []" using l length_item [of "hd ys"] by (cases ys) (auto simp: x)
      then show ?thesis by (simp add: Cons x learnt_def)
    qed simp
    then show ?thesis
      using False by (auto simp: parse_buffer_def parse_loop.simps [of c True "sm_buf s" "sm_q s" False])
  qed
qed

lemma parse_stream_items:
  assumes "list_all item_ok xs" "in_data i = items_bytes xs" "\<not> rs_out_of_sync R" "short_seqnum c"
  shows "\<exists>s. parse_stream c m offs i R = Some (Stopped (if in_fails i then - 1 else 0) s) \<and> learnt xs R (sm_r s)"
proof -
  let ?s = "stream_start m offs i R"
  have "awaits xs ?s" using assms by (simp add: awaits_def stream_start_def fits_def)
  from stream_reads_items [OF this assms(1,4)] obtain k s where
    1: "stream_loop c ?s = Some (Stopped (if in_fails i then - 1 else 0) s)" "awaits (drop k xs) s" "in_data (sm_in s) = []"
    "learnt (take k xs) R (sm_r s)" by (auto simp: stream_start_def)
  have ok: "list_all item_ok (drop k xs)" using assms(1) by (auto simp: list_all_iff dest: in_set_dropD)
  from parse_rest [OF 1(2,3) ok assms(4)] obtain p R' where
    2: "(if sm_p s < sm_q s then parse_buffer c True (sm_buf s) (sm_q s) (sm_p s) (sm_r s) else Some (sm_p s, sm_r s)) = Some (p, R')"
    "learnt (drop k xs) (sm_r s) R'" by blast
  from learnt_append [OF 1(4) 2(2)] have "learnt xs R R'" by simp
  with 1(1) 2(1) show ?thesis
    by (cases "sm_p s < sm_q s") (auto simp: parse_stream_def)
qed

lemma start_facts:
  "rs_events rstate_init = []" "rs_cgroup_paths rstate_init = Map.empty" "rs_err_rec rstate_init = 0" "\<not> rs_out_of_sync rstate_init"
  "ps_clk_kernel_diff (rs_p rstate_init) = 0"
  by (simp_all add: rstate_init_def pstate_init_def)

section \<open>Properties\<close>

lemma parse_stream_ends:
  "case parse_stream c m offs i R of None \<Rightarrow> False | Some Crashed \<Rightarrow> True
   | Some (Stopped nb s) \<Rightarrow> in_data (sm_in s) = [] \<and> sm_nr s = length (in_data i) \<and> sm_q s \<le> PBUFSIZE"
proof -
  have "fits (stream_start m offs i R)" by (simp add: fits_def stream_start_def)
  from stream_loop_returns [OF this, of c] show ?thesis
    by (auto simp: parse_stream_def bytes_total_def stream_start_def fits_def split: option.split stream_end.split elim!: ends.elims)
qed

text \<open>
  (C16) Reading a capture file never hangs: whatever the file holds and however the kernel cuts it into
  chunks, the loop never spins on a full buffer. Either the program crashes (a handler aborts, or
  \<open>memcpy\<close> is called with a negative size or overlapping areas) or it stops, with all bytes of the
  file read and the end of the input inside the buffer.
\<close>

theorem parse_stream_returns:
  "case parse_stream c m offs i R of None \<Rightarrow> False | Some Crashed \<Rightarrow> True
   | Some (Stopped nb s) \<Rightarrow> in_data (sm_in s) = [] \<and> sm_nr s = length (in_data i) \<and> sm_q s \<le> PBUFSIZE"
  by (rule parse_stream_ends)

text \<open>
  (C14) The chunks do not matter: a file of well-formed pieces is read to its end without an error
  however it is cut, and the consumer is told the same events, the same clock difference and the same
  paths of control groups as if the pieces were read one by one.
\<close>

theorem chunks_do_not_matter:
  assumes "list_all item_ok xs" "in_data i = items_bytes xs" "\<not> rs_out_of_sync R" "short_seqnum c"
  shows "\<exists>s. parse_stream c m offs i R = Some (Stopped (if in_fails i then - 1 else 0) s) \<and>
    rs_events (sm_r s) = rs_events R @ items_events (ps_clk_kernel_diff (rs_p R)) xs \<and>
    ps_clk_kernel_diff (rs_p (sm_r s)) = fold item_diff xs (ps_clk_kernel_diff (rs_p R)) \<and>
    rs_cgroup_paths (sm_r s) = fold item_path xs (rs_cgroup_paths R) \<and>
    rs_err_rec (sm_r s) = rs_err_rec R \<and> rs_errmsgs (sm_r s) = rs_errmsgs R"
  using parse_stream_items [OF assms, of m offs] by (auto simp: learnt_def)

theorem chunks_do_not_matter_witness:
  "\<exists>s xs. xs = [Cgroup 1 [47, 97], Clock 1000 400, Stamp 10, Rec 6 (sample_env 10, 0, READ_EX, 40000, Long3 5 70000 9)] \<and>
     parse_stream dlogger_pconf (\<lambda>_. 0) 0 \<lparr>in_data = items_bytes xs, in_sizes = [2, 0, 5], in_fails = False\<rparr> rstate_init = Some (Stopped 0 s) \<and>
     rs_events (sm_r s) = [Cur_time 1000, Call (call_hdr (sample_env 10) 600 6 READ_EX) (C_read 5 70000 9)] \<and>
     rs_cgroup_paths (sm_r s) 1 = Some [47, 97] \<and> rs_err_rec (sm_r s) = 0"
proof -
  let ?x = "(sample_env 10, 0, READ_EX, 40000, Long3 5 70000 9)"
  let ?xs = "[Cgroup 1 [47, 97], Clock 1000 400, Stamp 10, Rec 6 ?x]"
  have "known_call ?x" by (rule sample_known) (simp_all add: code_values strings_ok_def)
  then have "list_all item_ok ?xs" by simp
  moreover have ev: "items_events 0 ?xs = [Cur_time 1000, Call (call_hdr (sample_env 10) 600 6 READ_EX) (C_read 5 70000 9)]"
    by (simp add: record_events_def code_values)
  moreover have sq: "short_seqnum dlogger_pconf" by (simp add: short_seqnum_def dlogger_pconf_def)
  ultimately obtain s where "parse_stream dlogger_pconf (\<lambda>_. 0) 0 \<lparr>in_data = items_bytes ?xs, in_sizes = [2, 0, 5], in_fails = False\<rparr> rstate_init = Some (Stopped 0 s)"
    "rs_events (sm_r s) = items_events 0 ?xs" "rs_cgroup_paths (sm_r s) 1 = Some [47, 97]" "rs_err_rec (sm_r s) = 0"
    using chunks_do_not_matter [of ?xs "\<lparr>in_data = items_bytes ?xs, in_sizes = [2, 0, 5], in_fails = False\<rparr>" rstate_init dlogger_pconf "\<lambda>_. 0" 0]
    by (auto simp del: items_events.simps items_bytes_simps simp: start_facts)
  then show ?thesis unfolding ev by blast
qed

text \<open>The search for the next marker steps over the end of the buffer when it finds its first byte there.\<close>

lemma search_overruns:
  assumes "rs_out_of_sync R" "TSMS_EN \<notin> set g" "holds m p (g @ [TSMS_EN])" "q = Suc (p + length g)" "p + 8 < q"
  shows "\<exists>p' r. parse_loop c ended m q False p R = Some (p', r) \<and> q < p'"
proof -
  have h: "holds m p g" "m (p + length g) = TSMS_EN" using assms(3) by simp_all
  have sk: "skip_to_tsms m q p R = (p + length g, R\<lparr>rs_skipped := rs_skipped R + length g\<rparr>)"
    using skip_to_tsms_run [OF assms(2) h(1,2), of q] assms(4) by simp
  show ?thesis
  proof (cases "MS_REC_OK m (p + length g)")
    case True
    then show ?thesis
      using sk assms(1,4,5) by (subst parse_loop.simps) (simp add: parse_loop.simps [of c ended _ _ True] parse_loop.simps [of c ended _ _ False])
  next
    case False
    then show ?thesis
      using sk assms(1,4,5) by (subst parse_loop.simps) (simp add: parse_loop.simps [of c ended _ _ False])
  qed
qed

text \<open>
  (C35) A corrupted file can bring the reader down. The file begins with a damaged time stamp marker
  (its second byte is wrong), so that the parser starts to search for the next one; it is read in
  full chunks, as from a disk; and the next first byte of a marker in it is the last byte of the
  buffer. Then the search steps over the end of the buffer, whatever memory holds there, and
  \<open>parse_stream\<close> calls \<open>memcpy\<close> with a negative size.
\<close>

theorem resync_wild_copy:
  assumes "\<not> rs_out_of_sync R" "x \<noteq> of_char (CHR ''%'')" "TSMS_EN \<notin> set g" "length g + 3 = PBUFSIZE"
    and "in_data i = TSMS_EN # x # g @ TSMS_EN # rest" "in_sizes i = []"
  shows "parse_stream c m offs i R = Some Crashed"
proof -
  let ?s = "stream_start m offs i R" and ?bs = "TSMS_EN # x # g @ [TSMS_EN]"
  let ?m = "store m 0 ?bs"
  have l: "length g = 130045" using assms(4) by (simp add: PBUFSIZE_def BUFSIZE_def)
  have pb: "PBUFSIZE = 130048" by (simp add: PBUFSIZE_def BUFSIZE_def)
  have rd: "read_input PBUFSIZE i = (?bs, i\<lparr>in_data := rest\<rparr>)"
    using assms(5,6) by (simp add: read_input_def pb l)
  have h: "holds ?m 0 ?bs" by (simp add: holds_def del: length_append list.size)
  obtain y g' where g: "g = y # g'" using l by (cases g) auto
  have h3: "holds ?m 3 (g' @ [TSMS_EN])" and m0: "?m 0 = TSMS_EN" "?m 1 = x" using h unfolding g by (simp_all add: eval_nat_numeral)
  have no: "\<not> MS_REC_OK ?m 0" using m0 assms(2) by (simp add: MS_REC_OK_def)
  have sk: "skip_to_tsms ?m PBUFSIZE 0 r = (0, r)" for r by (subst skip_to_tsms.simps) (simp add: m0)
  define r1 where "r1 = errmsg (set_sctype SC_DEFAULT (R\<lparr>rs_exit_op := True, rs_no_entry := True, rs_current_rec := 0,
    rs_p := reset_strbuf (rs_p R)\<rparr>))\<lparr>rs_out_of_sync := True\<rparr>"
  have "parse_record c ?m PBUFSIZE 0 R = Some (0, r1)" using m0 no by (simp add: parse_record_def r1_def)
  moreover have "\<not> needs_more False ?m PBUFSIZE 0" using m0 by (simp add: needs_more_def pb code_values TSMS_EN_def)
  ultimately have "parse_buffer c False ?m PBUFSIZE 0 R = parse_loop c False ?m PBUFSIZE False 0 r1"
    unfolding parse_buffer_def using assms(1)
    by (subst parse_loop.simps, simp add: pb, subst parse_loop.simps, simp add: pb, subst parse_loop.simps, simp add: r1_def)
  also have "\<dots> = parse_loop c False ?m PBUFSIZE False 3 (r1\<lparr>rs_skipped := rs_skipped r1 + 4\<rparr>)"
    using sk no by (subst parse_loop.simps) (simp add: pb r1_def)
  finally obtain p' r where "parse_buffer c False ?m PBUFSIZE 0 R = Some (p', r)" "PBUFSIZE < p'"
    using search_overruns [of "r1\<lparr>rs_skipped := rs_skipped r1 + 4\<rparr>" g' ?m 3 PBUFSIZE c False] h3 assms(3) l g
    by (auto simp: r1_def pb)
  then have "stream_loop c ?s = Some Crashed"
    using rd by (subst stream_loop.simps)
      (simp add: stream_start_def take_in_def room l, subst stream_loop_compact, simp_all add: l pb take_in_def stream_start_def)
  then show ?thesis by (simp add: parse_stream_def)
qed

theorem resync_wild_copy_witness:
  "parse_stream dlogger_pconf (\<lambda>_. 0) 0 \<lparr>in_data = TSMS_EN # 0 # replicate (PBUFSIZE - 3) 0 @ [TSMS_EN], in_sizes = [], in_fails = False\<rparr>
     rstate_init = Some Crashed"
  by (rule resync_wild_copy [of _ 0 "replicate (PBUFSIZE - 3) 0" _ "[]"])
    (simp_all add: TSMS_EN_def PBUFSIZE_def BUFSIZE_def rstate_init_def)

end
