(* ===== verification/Capture_Writer.thy ===== *)
theory Capture_Writer
  imports Stream_Items
begin

text \<open>
  The capture writer \<^verbatim>\<open>src/eauditd.C\<close>: the messages of the audit probe, and clock records in between,
  are collected in a buffer and written to the capture file; with a parser the records are parsed as
  well. The state is the file's and the buffer's content and the counters.
\<close>

section \<open>State and environment\<close>

datatype capture_state = NOT_ENABLED | OPEN | CLOSED

text \<open>The program exits with a message, or writes outside its buffer, or its parser does not go on.\<close>

datatype werror = Exit_failed | Sbuf_overrun | Parser_stuck

type_synonym 'a wres = "werror + 'a"

definition wbind :: "'a wres \<Rightarrow> ('a \<Rightarrow> 'b wres) \<Rightarrow> 'b wres" where
  "wbind r f = (case r of Inl x \<Rightarrow> Inl x | Inr v \<Rightarrow> f v)"

record wstate =
  w_cap_state :: capture_state
  w_file :: "u8 list"
  w_sbuf :: mem
  w_bidx :: nat
  w_batch_write :: bool
  w_nbytes :: u64
  w_ncalls :: u64
  w_numwritten :: u64
  w_numread_and_written :: u64
  w_nwrites :: u64
  w_killtime :: u64
  w_twin_end :: bool
  w_tsync_n :: u64
  w_unexpected :: nat
  w_parser_on :: bool
  w_parser :: rstate

text \<open>
  What the system answers during one call: how many bytes \<open>write\<close> wrote, and the clocks (seconds and
  nanoseconds), read for the end of a window, as real time and as monotonic time.
\<close>

record wenv =
  we_pconf :: pconf
  we_flush :: bool \<comment> \<open>\<open>flushInterval > 0\<close>\<close>
  we_write :: "nat \<Rightarrow> int"
  we_now :: "(u64 \<times> u64) option"
  we_realtime :: "(u64 \<times> u64) option"
  we_monotonic :: "(u64 \<times> u64) option"

section \<open>Writing\<close>

definition wbufsize :: nat where "wbufsize = 2 ^ 20"

definition dowrite :: "wenv \<Rightarrow> wstate \<Rightarrow> wstate wres" where
  "dowrite e s =
     (if w_cap_state s = OPEN \<and> w_bidx s \<noteq> 0
      then let s = s\<lparr>w_nwrites := w_nwrites s + 1\<rparr>
           in if we_write e (w_bidx s) \<noteq> int (w_bidx s) then Inl Exit_failed
              else Inr (s\<lparr>w_file := w_file s @ slice (w_sbuf s) 0 (w_bidx s), w_bidx := 0\<rparr>)
      else Inr s)"

definition emit_batched :: "wenv \<Rightarrow> u8 list \<Rightarrow> wstate \<Rightarrow> wstate wres" where
  "emit_batched e buf s =
     wbind (if length buf + w_bidx s \<ge> wbufsize - 8 then dowrite e s else Inr s) (\<lambda>s.
       if w_bidx s + length buf > wbufsize then Inl Sbuf_overrun
       else Inr (s\<lparr>w_sbuf := store (w_sbuf s) (w_bidx s) buf, w_bidx := w_bidx s + length buf\<rparr>))"

definition emit_direct :: "wenv \<Rightarrow> u8 list \<Rightarrow> wstate \<Rightarrow> wstate wres" where
  "emit_direct e buf s =
     (let s = s\<lparr>w_nwrites := w_nwrites s + 1\<rparr>
      in if we_write e (length buf) \<noteq> int (length buf) then Inl Exit_failed
         else Inr (s\<lparr>w_file := w_file s @ buf\<rparr>))"

definition emit_parse :: "wenv \<Rightarrow> u8 list \<Rightarrow> wstate \<Rightarrow> wstate wres" where
  "emit_parse e buf s =
     (if w_parser_on s
      then case parse_rec (we_pconf e) (memory_of buf) (length buf) (w_parser s) of
             None \<Rightarrow> Inl Parser_stuck
           | Some (p, r) \<Rightarrow> Inr (s\<lparr>w_parser := r\<rparr>)
      else Inr s)"

definition emit :: "wenv \<Rightarrow> u8 list \<Rightarrow> bool \<Rightarrow> wstate \<Rightarrow> wstate wres" where
  "emit e buf flg s =
     (if buf = [] then Inl Exit_failed
      else wbind (if w_cap_state s = OPEN
                  then wbind (if w_batch_write s then emit_batched e buf s else emit_direct e buf s) (\<lambda>s.
                         let s = s\<lparr>w_numwritten := w_numwritten s + of_nat (length buf)\<rparr>
                         in Inr (if flg then s\<lparr>w_numread_and_written := w_numread_and_written s + of_nat (length buf)\<rparr> else s))
                  else Inr s)
                 (emit_parse e buf))"

section \<open>Clock records\<close>

definition gettime :: "(u64 \<times> u64) option \<Rightarrow> u64 wres" where
  "gettime c = (case c of None \<Rightarrow> Inl Exit_failed | Some (sec, nsec) \<Rightarrow> Inr (sec * 1000000000 + nsec))"

definition tsighandler :: "wenv \<Rightarrow> wstate \<Rightarrow> wstate wres" where
  "tsighandler e s = wbind (gettime (we_now e)) (\<lambda>t. Inr (s\<lparr>w_killtime := t\<rparr>))"

definition emit_clk_diff_rec :: "wenv \<Rightarrow> bool \<Rightarrow> wstate \<Rightarrow> wstate wres" where
  "emit_clk_diff_rec e flag s =
     (if flag then emit e (TS_KERN # le_bytes 8 (w_killtime s)) False s
      else wbind (gettime (we_realtime e)) (\<lambda>realtime_ts.
           wbind (gettime (we_monotonic e)) (\<lambda>monotonic_ts.
             emit e (TS_DIFF # le_bytes 8 realtime_ts @ le_bytes 8 monotonic_ts) False s)))"

text \<open>One round of the thread that ends the tamper windows; the second result is the new value of \<open>twin_end\<close>.\<close>

definition poll_tick :: "nat \<Rightarrow> nat \<times> wstate \<Rightarrow> nat \<times> wstate" where
  "poll_tick twin = (\<lambda>(l, s). if l = twin then (1, s\<lparr>w_twin_end := True\<rparr>) else (l + 1, s))"

section \<open>Messages\<close>

definition window_end :: "wenv \<Rightarrow> wstate \<Rightarrow> wstate wres" where
  "window_end e s =
     (if we_flush e
      then if w_twin_end s
           then wbind (gettime (we_now e)) (\<lambda>t. Inr (s\<lparr>w_twin_end := False, w_killtime := t\<rparr>))
           else Inr s
      else if w_ncalls s AND 0xfff = 0 \<and> w_ncalls s > 0xfff
           then wbind (gettime (we_now e)) (\<lambda>t. Inr (s\<lparr>w_killtime := t\<rparr>))
           else Inr s)"

definition logprinter :: "wenv \<Rightarrow> u8 list \<Rightarrow> wstate \<Rightarrow> wstate wres" where
  "logprinter e buf s =
     (if buf = [] then Inr s
      else let s = (if hd buf \<noteq> TSMS_EN \<and> hd buf \<noteq> TS_CGROUP_PATH then s\<lparr>w_unexpected := w_unexpected s + 1\<rparr> else s);
               s = s\<lparr>w_nbytes := w_nbytes s + of_nat (length buf), w_ncalls := w_ncalls s + 1\<rparr>
           in wbind (window_end e s) (\<lambda>s.
              wbind (if w_killtime s \<noteq> 0
                     then wbind (emit_clk_diff_rec e True s) (\<lambda>s. Inr (s\<lparr>w_killtime := 0\<rparr>))
                     else Inr s) (\<lambda>s.
              wbind (if w_nbytes s - w_tsync_n s > 20000
                     then wbind (emit_clk_diff_rec e False s) (\<lambda>s. Inr (s\<lparr>w_tsync_n := w_nbytes s\<rparr>))
                     else Inr s) (\<lambda>s.
              emit e buf True s))))"

definition end_op :: "wstate \<Rightarrow> wstate" where
  "end_op s = s\<lparr>w_cap_state := CLOSED\<rparr>"

definition nread :: "wstate \<Rightarrow> u64" where "nread s = w_nbytes s"
definition nwritten :: "wstate \<Rightarrow> u64" where "nwritten s = w_numread_and_written s"
definition calls :: "wstate \<Rightarrow> u64" where "calls s = w_ncalls s"

text \<open>The state after \<open>init_consumer\<close> with a capture file and no parser, as dlogger starts it.\<close>

definition writer_init :: "wstate" where
  "writer_init = \<lparr>w_cap_state = OPEN, w_file = [], w_sbuf = (\<lambda>_. 0), w_bidx = 0, w_batch_write = True, w_nbytes = 0, w_ncalls = 0,
     w_numwritten = 0, w_numread_and_written = 0, w_nwrites = 0, w_killtime = 0, w_twin_end = False, w_tsync_n = - 1000000000,
     w_unexpected = 0, w_parser_on = False, w_parser = rstate_init\<rparr>"

section \<open>Runs of the writer\<close>

text \<open>
  What happens to the writer: a message arrives, the buffer is flushed at the end of a batch, the thread
  ends a tamper window, or a signal does.
\<close>

datatype (plugins only: code) writer_op = Message wenv "u8 list" | Flush wenv | Window_over | Signal wenv

fun writer_step :: "writer_op \<Rightarrow> wstate \<Rightarrow> wstate wres" where
  "writer_step (Message e buf) s = logprinter e buf s"
| "writer_step (Flush e) s = dowrite e s"
| "writer_step Window_over s = Inr (s\<lparr>w_twin_end := True\<rparr>)"
| "writer_step (Signal e) s = tsighandler e s"

fun run_writer :: "writer_op list \<Rightarrow> wstate \<Rightarrow> wstate wres" where
  "run_writer [] s = Inr s"
| "run_writer (x # xs) s = wbind (writer_step x s) (run_writer xs)"

definition system_ok :: "wenv \<Rightarrow> bool" where
  "system_ok e \<longleftrightarrow> we_write e = int \<and> we_now e \<noteq> None \<and> we_realtime e \<noteq> None \<and> we_monotonic e \<noteq> None"

fun op_ok :: "writer_op \<Rightarrow> bool" where
  "op_ok (Message e buf) \<longleftrightarrow> system_ok e \<and> buf \<noteq> [] \<and> length buf < wbufsize - 8"
| "op_ok (Flush e) \<longleftrightarrow> system_ok e"
| "op_ok Window_over \<longleftrightarrow> True"
| "op_ok (Signal e) \<longleftrightarrow> system_ok e"

text \<open>The file as it will be after the next flush.\<close>

definition pending_file :: "wstate \<Rightarrow> u8 list" where
  "pending_file s = w_file s @ slice (w_sbuf s) 0 (w_bidx s)"

definition open_file :: "wstate \<Rightarrow> bool" where
  "open_file s \<longleftrightarrow> w_cap_state s = OPEN \<and> w_batch_write s \<and> \<not> w_parser_on s \<and> w_bidx s < wbufsize - 8 \<and>
     w_numwritten s = of_nat (length (pending_file s))"

text \<open>The part of the state that decides which clock records are written.\<close>

definition clocks :: "wstate \<Rightarrow> u64 \<times> u64 \<times> u64 \<times> bool \<times> u64" where
  "clocks s = (w_nbytes s, w_ncalls s, w_killtime s, w_twin_end s, w_tsync_n s)"

lemma wbind_simps [simp]: "wbind (Inr v) f = f v" "wbind (Inl x) f = Inl x"
  by (simp_all add: wbind_def)

lemma counter_updates:
  "open_file (s\<lparr>w_numread_and_written := n\<rparr>) = open_file s" "pending_file (s\<lparr>w_numread_and_written := n\<rparr>) = pending_file s"
  "clocks (s\<lparr>w_numread_and_written := n\<rparr>) = clocks s"
  by (simp_all add: open_file_def pending_file_def clocks_def)

lemma clock_updates:
  "open_file (s\<lparr>w_nbytes := n\<rparr>) = open_file s" "open_file (s\<lparr>w_ncalls := n\<rparr>) = open_file s"
  "open_file (s\<lparr>w_killtime := n\<rparr>) = open_file s" "open_file (s\<lparr>w_tsync_n := n\<rparr>) = open_file s"
  "open_file (s\<lparr>w_twin_end := b\<rparr>) = open_file s" "open_file (s\<lparr>w_unexpected := k\<rparr>) = open_file s"
  "pending_file (s\<lparr>w_nbytes := n\<rparr>) = pending_file s" "pending_file (s\<lparr>w_ncalls := n\<rparr>) = pending_file s"
  "pending_file (s\<lparr>w_killtime := n\<rparr>) = pending_file s" "pending_file (s\<lparr>w_tsync_n := n\<rparr>) = pending_file s"
  "pending_file (s\<lparr>w_twin_end := b\<rparr>) = pending_file s" "pending_file (s\<lparr>w_unexpected := k\<rparr>) = pending_file s"
  "clocks (s\<lparr>w_tsync_n := n\<rparr>) = (case clocks s of (nb, nc, kt, tw, ts) \<Rightarrow> (nb, nc, kt, tw, n))"
  "clocks (s\<lparr>w_killtime := n\<rparr>) = (case clocks s of (nb, nc, kt, tw, ts) \<Rightarrow> (nb, nc, n, tw, ts))"
  by (simp_all add: open_file_def pending_file_def clocks_def)

lemma dowrite_flushes:
  assumes "open_file s" "we_write e = int"
  shows "\<exists>s'. dowrite e s = Inr s' \<and> open_file s' \<and> pending_file s' = pending_file s \<and> w_bidx s' = 0 \<and> w_file s' = pending_file s \<and>
    clocks s' = clocks s \<and> w_numread_and_written s' = w_numread_and_written s"
  using assms by (auto simp: dowrite_def open_file_def pending_file_def clocks_def wbufsize_def)

lemma emit_appends:
  assumes "open_file s" "we_write e = int" "buf \<noteq> []" "length buf < wbufsize - 8"
  shows "\<exists>s'. emit e buf flg s = Inr s' \<and> open_file s' \<and> pending_file s' = pending_file s @ buf \<and> clocks s' = clocks s \<and>
    w_numread_and_written s' = w_numread_and_written s + (if flg then of_nat (length buf) else 0)"
proof -
  obtain s1 where s1: "(if length buf + w_bidx s \<ge> wbufsize - 8 then dowrite e s else Inr s) = Inr s1" "open_file s1"
    "pending_file s1 = pending_file s" "w_bidx s1 + length buf < wbufsize - 8" "clocks s1 = clocks s"
    "w_numread_and_written s1 = w_numread_and_written s"
    using dowrite_flushes [OF assms(1,2)] assms(1,4) by (cases "length buf + w_bidx s \<ge> wbufsize - 8") auto
  define s2 where "s2 = s1\<lparr>w_sbuf := store (w_sbuf s1) (w_bidx s1) buf, w_bidx := w_bidx s1 + length buf,
     w_numwritten := w_numwritten s1 + of_nat (length buf)\<rparr>"
  have "emit_batched e buf s = Inr (s1\<lparr>w_sbuf := store (w_sbuf s1) (w_bidx s1) buf, w_bidx := w_bidx s1 + length buf\<rparr>)"
    using s1(1,4) by (simp add: emit_batched_def)
  then have "emit e buf flg s = Inr (if flg then s2\<lparr>w_numread_and_written := w_numread_and_written s1 + of_nat (length buf)\<rparr> else s2)"
    using assms(1,3) s1(2) by (simp add: emit_def emit_parse_def Let_def s2_def open_file_def)
  moreover have pf: "pending_file s2 = pending_file s @ buf" using s1(3) by (simp add: pending_file_def store_append s2_def)
  moreover have "open_file s2" using s1(2-4) unfolding open_file_def pf by (simp add: s2_def)
  moreover have "clocks s2 = clocks s" "w_numread_and_written s2 = w_numread_and_written s" using s1(5,6) by (simp_all add: clocks_def s2_def)
  ultimately show ?thesis using s1(6) by (cases flg) (simp_all add: counter_updates)
qed

text \<open>The clock records before a message.\<close>

definition time_of :: "(u64 \<times> u64) option \<Rightarrow> u64" where
  "time_of c = (case c of None \<Rightarrow> 0 | Some (sec, nsec) \<Rightarrow> sec * 1000000000 + nsec)"

lemma gettime_ok: "c \<noteq> None \<Longrightarrow> gettime c = Inr (time_of c)"
  by (auto simp: gettime_def time_of_def)

definition kill_now :: "wenv \<Rightarrow> u64 \<times> u64 \<times> u64 \<times> bool \<times> u64 \<Rightarrow> u64" where
  "kill_now e = (\<lambda>(nbytes, ncalls, killtime, twin, tsync).
     if (if we_flush e then twin else (ncalls + 1) AND 0xfff = 0 \<and> ncalls + 1 > 0xfff) then time_of (we_now e) else killtime)"

definition marks :: "wenv \<Rightarrow> nat \<Rightarrow> u64 \<times> u64 \<times> u64 \<times> bool \<times> u64 \<Rightarrow> item list" where
  "marks e len k = (case k of (nbytes, ncalls, killtime, twin, tsync) \<Rightarrow>
     (if kill_now e k \<noteq> 0 then [Window (kill_now e k)] else []) @
     (if nbytes + of_nat len - tsync > 20000 then [Clock (time_of (we_realtime e)) (time_of (we_monotonic e))] else []))"

definition clocks_after :: "wenv \<Rightarrow> nat \<Rightarrow> u64 \<times> u64 \<times> u64 \<times> bool \<times> u64 \<Rightarrow> u64 \<times> u64 \<times> u64 \<times> bool \<times> u64" where
  "clocks_after e len k = (case k of (nbytes, ncalls, killtime, twin, tsync) \<Rightarrow>
     (nbytes + of_nat len, ncalls + 1, 0, if we_flush e then False else twin,
      if nbytes + of_nat len - tsync > 20000 then nbytes + of_nat len else tsync))"

lemma window_end_ok:
  assumes "system_ok e" "open_file s" "clocks s = (nb, nc + 1, kt, tw, ts)"
  shows "\<exists>s'. window_end e s = Inr s' \<and> open_file s' \<and> pending_file s' = pending_file s \<and>
    w_numread_and_written s' = w_numread_and_written s \<and>
    clocks s' = (nb, nc + 1, kill_now e (nb, nc, kt, tw, ts), if we_flush e then False else tw, ts)"
  using assms gettime_ok [of "we_now e"]
  by (auto simp: window_end_def system_ok_def kill_now_def clock_updates clocks_def)

lemma clk_diff_ok:
  assumes "system_ok e" "open_file s"
  shows "\<exists>s'. emit_clk_diff_rec e flag s = Inr s' \<and> open_file s' \<and>
    pending_file s' = pending_file s @ item_bytes (if flag then Window (w_killtime s) else Clock (time_of (we_realtime e)) (time_of (we_monotonic e))) \<and>
    clocks s' = clocks s \<and> w_numread_and_written s' = w_numread_and_written s"
proof (cases flag)
  case True
  then show ?thesis using emit_appends [OF assms(2), of e "TS_KERN # le_bytes 8 (w_killtime s)" False] assms(1)
    by (simp add: emit_clk_diff_rec_def system_ok_def wbufsize_def)
next
  case False
  then show ?thesis
    using emit_appends [OF assms(2), of e "TS_DIFF # le_bytes 8 (time_of (we_realtime e)) @ le_bytes 8 (time_of (we_monotonic e))" False] assms(1)
      gettime_ok [of "we_realtime e"] gettime_ok [of "we_monotonic e"]
    by (simp add: emit_clk_diff_rec_def system_ok_def wbufsize_def)
qed

lemma logprinter_appends:
  assumes "system_ok e" "open_file s" "buf \<noteq> []" "length buf < wbufsize - 8"
  shows "\<exists>s'. logprinter e buf s = Inr s' \<and> open_file s' \<and> clocks s' = clocks_after e (length buf) (clocks s) \<and>
    w_numread_and_written s' = w_numread_and_written s + of_nat (length buf) \<and>
    pending_file s' = pending_file s @ items_bytes (marks e (length buf) (clocks s)) @ buf"
proof -
  obtain nb nc kt tw ts where k: "clocks s = (nb, nc, kt, tw, ts)" by (cases "clocks s")
  define s0 where "s0 = (if hd buf \<noteq> TSMS_EN \<and> hd buf \<noteq> TS_CGROUP_PATH then s\<lparr>w_unexpected := w_unexpected s + 1\<rparr> else s)"
  define s1 where "s1 = s0\<lparr>w_nbytes := w_nbytes s0 + of_nat (length buf), w_ncalls := w_ncalls s0 + 1\<rparr>"
  have s1: "open_file s1" "pending_file s1 = pending_file s" "w_numread_and_written s1 = w_numread_and_written s"
    "clocks s1 = (nb + of_nat (length buf), nc + 1, kt, tw, ts)"
    using assms(2) k by (simp_all add: s1_def s0_def clock_updates clocks_def)
  let ?nb = "nb + of_nat (length buf)" and ?tw = "if we_flush e then False else tw" and ?kn = "kill_now e (clocks s)"
  have kn: "kill_now e (?nb, nc, kt, tw, ts) = ?kn" by (simp add: kill_now_def k)
  obtain s2 where s2: "window_end e s1 = Inr s2" "open_file s2" "pending_file s2 = pending_file s"
    "w_numread_and_written s2 = w_numread_and_written s" "clocks s2 = (?nb, nc + 1, ?kn, ?tw, ts)"
    using window_end_ok [OF assms(1) s1(1,4)] s1(2,3) unfolding kn by auto
  have k2: "w_killtime s2 = ?kn" using s2(5) by (simp add: clocks_def)
  obtain s3 where s3: "(if w_killtime s2 \<noteq> 0 then wbind (emit_clk_diff_rec e True s2) (\<lambda>s. Inr (s\<lparr>w_killtime := 0\<rparr>)) else Inr s2) = Inr s3"
    "open_file s3" "pending_file s3 = pending_file s @ items_bytes (if ?kn \<noteq> 0 then [Window ?kn] else [])"
    "w_numread_and_written s3 = w_numread_and_written s" "clocks s3 = (?nb, nc + 1, 0, ?tw, ts)"
  proof (cases "?kn = 0")
    case True
    with s2 k2 show ?thesis by (intro that [of s2]) simp_all
  next
    case False
    obtain s' where "emit_clk_diff_rec e True s2 = Inr s'" "open_file s'" "pending_file s' = pending_file s @ item_bytes (Window ?kn)"
      "clocks s' = clocks s2" "w_numread_and_written s' = w_numread_and_written s"
      using clk_diff_ok [OF assms(1) s2(2), of True] s2(3,4) k2 by auto
    with False k2 s2(5) show ?thesis by (intro that [of "s'\<lparr>w_killtime := 0\<rparr>"]) (simp_all add: clock_updates)
  qed
  have k3: "w_nbytes s3 = ?nb" "w_tsync_n s3 = ts" using s3(5) by (simp_all add: clocks_def)
  obtain s4 where s4: "(if w_nbytes s3 - w_tsync_n s3 > 20000 then wbind (emit_clk_diff_rec e False s3) (\<lambda>s. Inr (s\<lparr>w_tsync_n := w_nbytes s\<rparr>)) else Inr s3) = Inr s4"
    "open_file s4" "pending_file s4 = pending_file s @ items_bytes (marks e (length buf) (clocks s))"
    "w_numread_and_written s4 = w_numread_and_written s" "clocks s4 = clocks_after e (length buf) (clocks s)"
  proof (cases "?nb - ts > 20000")
    case False
    with s3 k3 show ?thesis by (intro that [of s3]) (simp_all add: marks_def clocks_after_def k)
  next
    case True
    obtain s' where s': "emit_clk_diff_rec e False s3 = Inr s'" "open_file s'" "clocks s' = clocks s3" "w_numread_and_written s' = w_numread_and_written s"
      "pending_file s' = pending_file s3 @ item_bytes (Clock (time_of (we_realtime e)) (time_of (we_monotonic e)))"
      using clk_diff_ok [OF assms(1) s3(2), of False] s3(4) by auto
    have "w_nbytes s' = ?nb" using s'(3) s3(5) by (simp add: clocks_def)
    with True k3 s' s3(3,5) show ?thesis
      by (intro that [of "s'\<lparr>w_tsync_n := w_nbytes s'\<rparr>"]) (simp_all add: clock_updates marks_def clocks_after_def k)
  qed
  obtain s5 where "emit e buf True s4 = Inr s5" "open_file s5" "pending_file s5 = pending_file s4 @ buf" "clocks s5 = clocks s4"
    "w_numread_and_written s5 = w_numread_and_written s + of_nat (length buf)"
    using emit_appends [OF s4(2) _ assms(3,4), of e True] assms(1) s4(4) by (auto simp: system_ok_def)
  moreover have "logprinter e buf s = emit e buf True s4"
    using assms(3) s2(1) s3(1) s4(1) unfolding logprinter_def Let_def by (simp flip: s0_def s1_def)
  ultimately show ?thesis using s4 by (intro exI [of _ s5]) simp
qed

text \<open>Every operation goes through, and appends to the file.\<close>

definition exec_op :: "writer_op \<Rightarrow> wstate \<Rightarrow> wstate" where
  "exec_op x s = (case writer_step x s of Inl _ \<Rightarrow> s | Inr s' \<Rightarrow> s')"

definition writer_ready :: "wstate \<Rightarrow> bool" where
  "writer_ready s \<longleftrightarrow> open_file s \<and> w_numread_and_written s = w_nbytes s"

fun op_items :: "writer_op \<Rightarrow> wstate \<Rightarrow> item list" where
  "op_items (Message e buf) s = marks e (length buf) (clocks s)"
| "op_items _ s = []"

fun op_bytes :: "writer_op \<Rightarrow> u8 list" where
  "op_bytes (Message e buf) = buf"
| "op_bytes _ = []"

lemma writer_step_ok:
  assumes "writer_ready s" "op_ok x"
  shows "writer_step x s = Inr (exec_op x s) \<and> writer_ready (exec_op x s) \<and>
    pending_file (exec_op x s) = pending_file s @ items_bytes (op_items x s) @ op_bytes x"
proof (cases x)
  case (Message e buf)
  obtain nb nc kt tw ts where k: "clocks s = (nb, nc, kt, tw, ts)" by (cases "clocks s")
  obtain s' where s': "logprinter e buf s = Inr s'" "open_file s'" "clocks s' = clocks_after e (length buf) (clocks s)"
    "w_numread_and_written s' = w_numread_and_written s + of_nat (length buf)"
    "pending_file s' = pending_file s @ items_bytes (marks e (length buf) (clocks s)) @ buf"
    using logprinter_appends [of e s buf] assms by (auto simp: Message writer_ready_def)
  have "w_nbytes s' = w_nbytes s + of_nat (length buf)" using s'(3) k by (simp add: clocks_def clocks_after_def)
  with s' assms(1) show ?thesis by (simp add: Message exec_op_def writer_ready_def)
next
  case (Flush e)
  then obtain s' where "dowrite e s = Inr s'" "open_file s'" "pending_file s' = pending_file s" "clocks s' = clocks s"
    "w_numread_and_written s' = w_numread_and_written s"
    using dowrite_flushes [of s e] assms by (auto simp: writer_ready_def system_ok_def)
  with assms(1) show ?thesis by (simp add: Flush exec_op_def writer_ready_def clocks_def)
next
  case Window_over
  with assms(1) show ?thesis by (simp add: exec_op_def writer_ready_def clock_updates)
next
  case (Signal e)
  with assms gettime_ok [of "we_now e"] show ?thesis
    by (simp add: exec_op_def writer_ready_def clock_updates tsighandler_def system_ok_def)
qed

interpretation writer: append_log writer_ready pending_file op_ok exec_op "\<lambda>x s. items_bytes (op_items x s) @ op_bytes x"
  by unfold_locales (simp_all add: writer_step_ok)

lemma run_writer_ok: "writer_ready s \<Longrightarrow> list_all op_ok xs \<Longrightarrow> run_writer xs s = Inr (fold exec_op xs s)"
  by (induction xs arbitrary: s) (simp_all add: writer_step_ok)

lemma run_writer_append: "run_writer (xs @ ys) s = wbind (run_writer xs s) (run_writer ys)"
  by (induction xs arbitrary: s) (auto simp: wbind_def split: sum.split)

lemma run_flush:
  assumes "writer_ready s" "list_all op_ok xs" "system_ok e"
  shows "\<exists>s'. run_writer (xs @ [Flush e]) s = Inr s' \<and> writer_ready s' \<and> w_file s' = pending_file s @ writer.images xs s \<and> pending_file s' = w_file s'"
proof -
  let ?s = "fold exec_op xs s"
  have r: "writer_ready ?s" by (rule writer.run_inv [OF assms(1,2)])
  obtain s' where s': "dowrite e ?s = Inr s'" "w_file s' = pending_file ?s" "pending_file s' = w_file s'"
    using dowrite_flushes [of ?s e] r assms(3) by (auto simp: writer_ready_def system_ok_def)
  then have "writer_ready s'" using writer_step_ok [of ?s "Flush e"] r assms(3) by (simp add: exec_op_def)
  with s' show ?thesis
    using writer.run_stream [OF assms(1,2)] run_writer_ok [OF assms(1,2)] by (intro exI [of _ s']) (simp add: run_writer_append)
qed

section \<open>The pieces of the file\<close>

fun is_mark :: "item \<Rightarrow> bool" where
  "is_mark (Clock a b) \<longleftrightarrow> True"
| "is_mark (Window t) \<longleftrightarrow> True"
| "is_mark _ \<longleftrightarrow> False"

fun is_clock :: "item \<Rightarrow> bool" where
  "is_clock (Clock a b) \<longleftrightarrow> True"
| "is_clock _ \<longleftrightarrow> False"

fun messages :: "writer_op list \<Rightarrow> u8 list list" where
  "messages [] = []"
| "messages (Message e buf # xs) = buf # messages xs"
| "messages (_ # xs) = messages xs"

lemma marks_are_marks: "list_all is_mark (marks e n k)" "list_all item_ok (marks e n k)" "filter (\<lambda>x. \<not> is_mark x) (marks e n k) = []"
  by (auto simp: marks_def split: prod.split)

lemma images_items:
  assumes "messages ops = map items_bytes ys" "list_all (list_all (\<lambda>x. \<not> is_mark x)) ys"
  shows "\<exists>zs. writer.images ops s = items_bytes zs \<and> filter (\<lambda>x. \<not> is_mark x) zs = concat ys \<and>
    (list_all (list_all item_ok) ys \<longrightarrow> list_all item_ok zs)"
  using assms
proof (induction ops arbitrary: ys s)
  case Nil
  then show ?case by (intro exI [of _ "[]"]) simp
next
  case (Cons x ops)
  show ?case
  proof (cases x)
    case (Message e buf)
    then obtain y ys' where ys: "ys = y # ys'" "buf = items_bytes y" "messages ops = map items_bytes ys'" using Cons.prems(1) by (cases ys) auto
    obtain zs where zs: "writer.images ops (exec_op x s) = items_bytes zs" "filter (\<lambda>x. \<not> is_mark x) zs = concat ys'"
      "list_all (list_all item_ok) ys' \<longrightarrow> list_all item_ok zs"
      using Cons.IH [OF ys(3), of "exec_op x s"] Cons.prems(2) ys(1) by auto
    have "filter (\<lambda>x. \<not> is_mark x) y = y" using Cons.prems(2) by (simp add: ys list_all_iff filter_id_conv)
    then show ?thesis
      using zs by (intro exI [of _ "marks e (length buf) (clocks s) @ y @ zs"]) (auto simp: Message ys marks_are_marks)
  qed (use Cons in auto)
qed

text \<open>The first message is preceded by a clock record.\<close>

lemma first_clock:
  assumes "w_nbytes s = 0" "w_tsync_n s = - 1000000000" "list_all op_ok ops" "writer_ready s"
    and "messages ops = map items_bytes ys" "list_all (list_all (\<lambda>x. \<not> is_mark x)) ys"
  shows "\<exists>zs. writer.images ops s = items_bytes zs \<and> filter (\<lambda>x. \<not> is_mark x) zs = concat ys \<and>
    (list_all (list_all item_ok) ys \<longrightarrow> list_all item_ok zs) \<and> list_all is_mark (takeWhile (\<lambda>x. \<not> is_clock x) zs)"
  using assms
proof (induction ops arbitrary: s)
  case Nil
  then show ?case by (intro exI [of _ "[]"]) simp
next
  case (Cons x ops)
  have rd: "writer_ready (exec_op x s)" "list_all op_ok ops" using writer_step_ok [OF Cons.prems(4), of x] Cons.prems(3) by simp_all
  show ?case
  proof (cases x)
    case (Message e buf)
    then obtain y ys' where ys: "ys = y # ys'" "buf = items_bytes y" "messages ops = map items_bytes ys'" using Cons.prems(5) by (cases ys) auto
    have l: "length buf < 2 ^ 20" using Cons.prems(3) by (simp add: Message wbufsize_def)
    have "unat (of_nat (length buf) + 1000000000 :: u64) = length buf + 1000000000"
      using l by (simp add: unat_word_ariths unat_of_nat)
    then have "w_nbytes s + of_nat (length buf) - w_tsync_n s > 20000" using Cons.prems(1,2) by (simp add: word_less_nat_alt)
    then have mk: "marks e (length buf) (clocks s) = (if kill_now e (clocks s) \<noteq> 0 then [Window (kill_now e (clocks s))] else []) @
        [Clock (time_of (we_realtime e)) (time_of (we_monotonic e))]" by (simp add: marks_def clocks_def)
    obtain zs where zs: "writer.images ops (exec_op x s) = items_bytes zs" "filter (\<lambda>x. \<not> is_mark x) zs = concat ys'"
      "list_all (list_all item_ok) ys' \<longrightarrow> list_all item_ok zs"
      using images_items [OF ys(3), of "exec_op x s"] Cons.prems(6) ys(1) by auto
    have "filter (\<lambda>x. \<not> is_mark x) y = y" using Cons.prems(6) by (simp add: ys list_all_iff filter_id_conv)
    moreover have "list_all is_mark (takeWhile (\<lambda>x. \<not> is_clock x) (marks e (length buf) (clocks s) @ y @ zs))" by (simp add: mk)
    ultimately show ?thesis
      using zs by (intro exI [of _ "marks e (length buf) (clocks s) @ y @ zs"]) (simp add: Message ys marks_are_marks)
  next
    case (Flush e)
    have "w_nbytes (exec_op x s) = 0" "w_tsync_n (exec_op x s) = - 1000000000"
      using Cons.prems(1,2) by (simp_all add: Flush exec_op_def dowrite_def Let_def)
    from Cons.IH [OF this rd(2,1)] Cons.prems(5,6) show ?thesis by (simp add: Flush)
  next
    case Window_over
    have "w_nbytes (exec_op x s) = 0" "w_tsync_n (exec_op x s) = - 1000000000"
      using Cons.prems(1,2) by (simp_all add: Window_over exec_op_def)
    from Cons.IH [OF this rd(2,1)] Cons.prems(5,6) show ?thesis by (simp add: Window_over)
  next
    case (Signal e)
    have "w_nbytes (exec_op x s) = 0" "w_tsync_n (exec_op x s) = - 1000000000"
      using Cons.prems(1,2) by (auto simp: Signal exec_op_def tsighandler_def wbind_def split: sum.split)
    from Cons.IH [OF this rd(2,1)] Cons.prems(5,6) show ?thesis by (simp add: Signal)
  qed
qed

lemma writer_init_ready: "writer_ready writer_init" "pending_file writer_init = []"
  by (simp_all add: writer_ready_def open_file_def writer_init_def pending_file_def wbufsize_def)

section \<open>Properties\<close>

text \<open>
  (C15) The writer loses nothing and reorders nothing: whatever messages of whole pieces arrive, each
  smaller than the write buffer, and whenever the buffer is flushed and windows end in between, as long
  as writing and reading the clocks succeed, the run goes through, and after the last flush the file is
  the messages in order with clock records in between, the first of them before the first message;
  all bytes read are counted as written.
\<close>

theorem capture_complete:
  assumes "list_all op_ok ops" "system_ok e" "messages ops = map items_bytes ys" "list_all (list_all (\<lambda>x. \<not> is_mark x)) ys"
  shows "\<exists>s zs. run_writer (ops @ [Flush e]) writer_init = Inr s \<and> w_file s = items_bytes zs \<and>
    filter (\<lambda>x. \<not> is_mark x) zs = concat ys \<and> list_all is_mark (takeWhile (\<lambda>x. \<not> is_clock x) zs) \<and>
    nwritten s = nread s \<and> w_numwritten s = of_nat (length (w_file s))"
proof -
  obtain s where s: "run_writer (ops @ [Flush e]) writer_init = Inr s" "writer_ready s" "w_file s = writer.images ops writer_init" "pending_file s = w_file s"
    using run_flush [OF writer_init_ready(1) assms(1,2)] by (auto simp: writer_init_ready)
  moreover obtain zs where "writer.images ops writer_init = items_bytes zs" "filter (\<lambda>x. \<not> is_mark x) zs = concat ys"
    "list_all is_mark (takeWhile (\<lambda>x. \<not> is_clock x) zs)"
    using first_clock [OF _ _ assms(1) writer_init_ready(1) assms(3,4)] by (auto simp: writer_init_def)
  ultimately show ?thesis using s(2) by (auto simp: writer_ready_def open_file_def nread_def nwritten_def)
qed

definition sample_wenv :: wenv where
  "sample_wenv = \<lparr>we_pconf = dlogger_pconf, we_flush = True, we_write = int, we_now = Some (2, 5), we_realtime = Some (100, 7), we_monotonic = Some (1, 7)\<rparr>"

lemma sample_wenv_ok: "system_ok sample_wenv"
  by (simp add: system_ok_def sample_wenv_def)

theorem capture_complete_witness:
  "\<exists>s zs ops. ops = [Message sample_wenv (item_bytes (Cgroup 1 [47])), Flush sample_wenv, Window_over, Message sample_wenv (item_bytes (Cgroup 2 [47, 97]))] \<and>
     run_writer (ops @ [Flush sample_wenv]) writer_init = Inr s \<and> w_file s = items_bytes zs \<and>
     filter (\<lambda>x. \<not> is_mark x) zs = [Cgroup 1 [47], Cgroup 2 [47, 97]] \<and> list_all is_mark (takeWhile (\<lambda>x. \<not> is_clock x) zs)"
proof -
  let ?ops = "[Message sample_wenv (item_bytes (Cgroup 1 [47])), Flush sample_wenv, Window_over, Message sample_wenv (item_bytes (Cgroup 2 [47, 97]))]"
  have "list_all op_ok ?ops" by (simp add: sample_wenv_ok wbufsize_def)
  from capture_complete [OF this sample_wenv_ok, of "[[Cgroup 1 [47]], [Cgroup 2 [47, 97]]]"] show ?thesis by auto
qed

end
