(* ===== verification/Dlogger_Daemon.thy ===== *)
theory Dlogger_Daemon
  imports Kdarshan_Types Capture_Writer
begin

text \<open>
  The daemon \<^verbatim>\<open>src/dlogger.C\<close>: configuration, the paths of control groups, the handlers of the ring
  buffers, the attachment of tracepoints, and the rows of \<^verbatim>\<open>fine.csv\<close>. Messages for the capture file are
  returned as a list of byte strings, which \<open>logprinter\<close> receives one by one. The file system is a
  parameter of every event: what \<open>stat\<close>, \<open>readdir\<close> and the files under \<^verbatim>\<open>/proc\<close> return while the event is
  handled; it may differ from one event to the next.
\<close>

section \<open>Configuration\<close>

definition starts_with_at :: "string \<Rightarrow> string \<Rightarrow> bool" where
  "starts_with_at s prefix \<longleftrightarrow> take (length prefix) s = prefix" \<comment> \<open>\<open>s.rfind(prefix, 0) == 0\<close>\<close>

definition is_list_sep :: "char \<Rightarrow> bool" where "is_list_sep c \<longleftrightarrow> c = CHR '','' \<or> c = CHR '':''"
definition is_white :: "char \<Rightarrow> bool" where "is_white c \<longleftrightarrow> c \<in> {CHR '' '', CHR 0x09, CHR 0x0D, CHR 0x0A}"
definition is_key_sep :: "char \<Rightarrow> bool" where "is_key_sep c \<longleftrightarrow> c \<in> {CHR '' '', CHR 0x09, CHR ''=''}"

function split_paths :: "string \<Rightarrow> string list" where
  "split_paths s =
     (let p = takeWhile (\<lambda>c. \<not> is_list_sep c) s; rest = dropWhile (\<lambda>c. \<not> is_list_sep c) s
      in (if p \<noteq> [] then [p] else []) @ (if rest = [] then [] else split_paths (tl rest)))"
  by pat_completeness auto
termination
proof (relation "measure length", goal_cases)
  case (2 s p rest)
  have "length rest \<le> length s" "0 < length rest" using 2 length_dropWhile_le [of "\<lambda>c. \<not> is_list_sep c" s] by simp_all
  then show ?case by (cases rest) auto
qed simp

declare split_paths.simps [simp del]

text \<open>The argument is a C string: it ends at the first NUL.\<close>

definition parse_exclude_paths :: "string option \<Rightarrow> string list" where
  "parse_exclude_paths env_val = (case env_val of None \<Rightarrow> [] | Some v \<Rightarrow> split_paths (takeWhile (\<lambda>c. c \<noteq> CHR 0x00) v))"

definition is_excluded :: "string \<Rightarrow> string list \<Rightarrow> bool" where
  "is_excluded path exclude_list \<longleftrightarrow> path \<noteq> [] \<and> list_ex (starts_with_at path) exclude_list"

record dl_config =
  fine_excludes :: "string list"
  fine_csv_path :: string
  pg_bin_path :: string
  fine_cleared :: bool

definition dl_config_init :: dl_config where
  "dl_config_init = \<lparr>fine_excludes = [''/etc/'', ''/dev/'', ''/usr/'', ''/bin/'', ''/boot/'', ''/lib/'', ''/opt/'', ''/sbin/'', ''/sys/'', ''/proc/'', ''/var/''],
     fine_csv_path = ''fine.csv'', pg_bin_path = ''pg.bin'', fine_cleared = False\<rparr>"

definition dl_config_entry :: "string \<Rightarrow> string \<Rightarrow> dl_config \<Rightarrow> dl_config" where
  "dl_config_entry key val c =
     (if key = ''FINE_EXCLUDE_PATH''
      then let c = (if fine_cleared c then c else c\<lparr>fine_excludes := [], fine_cleared := True\<rparr>)
           in c\<lparr>fine_excludes := fine_excludes c @ parse_exclude_paths (Some val)\<rparr>
      else if key = ''FINE_CSV_PATH'' then c\<lparr>fine_csv_path := val\<rparr>
      else if key = ''PG_BIN_PATH'' then c\<lparr>pg_bin_path := val\<rparr>
      else c)"

definition trim_right :: "(char \<Rightarrow> bool) \<Rightarrow> string \<Rightarrow> string" where
  "trim_right f s = rev (dropWhile f (rev s))"

definition dl_config_line :: "string \<Rightarrow> dl_config \<Rightarrow> dl_config" where
  "dl_config_line line c =
     (let line = takeWhile (\<lambda>c. c \<noteq> CHR ''#'') line
      in if list_all is_white line then c
         else let line = trim_right is_white (dropWhile is_white line)
              in if \<not> list_ex is_key_sep line then c
                 else let key = takeWhile (\<lambda>c. \<not> is_key_sep c) line;
                          val = tl (dropWhile (\<lambda>c. \<not> is_key_sep c) line);
                          key = (if list_all is_key_sep key then key else trim_right is_key_sep key);
                          val = dropWhile is_key_sep val
                      in dl_config_entry key val c)"

definition load_dlogger_config :: "string list option \<Rightarrow> dl_config \<Rightarrow> dl_config" where
  "load_dlogger_config file c = (case file of None \<Rightarrow> c | Some lines \<Rightarrow> fold dl_config_line lines (c\<lparr>fine_cleared := False\<rparr>))"

text \<open>
  The start of \<open>main\<close>: a file named on the command line, else the first of two files that exists,
  else the environment; then the two variables for the outputs.
\<close>

definition dlogger_config_of ::
  "string option \<Rightarrow> (string \<Rightarrow> string list option) \<Rightarrow> (string \<Rightarrow> string option) \<Rightarrow> dl_config" where
  "dlogger_config_of arg files getenv =
     (let path = (case arg of Some p \<Rightarrow> p
                  | None \<Rightarrow> if files ''dlogger.conf'' \<noteq> None then ''dlogger.conf''
                           else if files ''/etc/dlogger.conf'' \<noteq> None then ''/etc/dlogger.conf'' else []);
          c = (if path \<noteq> [] then load_dlogger_config (files path) dl_config_init
               else case getenv ''FINE_EXCLUDE_PATH'' of
                      None \<Rightarrow> dl_config_init
                    | Some v \<Rightarrow> dl_config_init\<lparr>fine_excludes := parse_exclude_paths (Some v)\<rparr>);
          c = (case getenv ''DLOGGER_CSV_PATH'' of None \<Rightarrow> c | Some v \<Rightarrow> c\<lparr>fine_csv_path := v\<rparr>)
      in case getenv ''DLOGGER_BIN_PATH'' of None \<Rightarrow> c | Some v \<Rightarrow> c\<lparr>pg_bin_path := v\<rparr>)"

section \<open>Tracepoints\<close>

text \<open>
  The names of the tracepoints in the source of the probe: every occurrence of the marker is
  followed by a category, a comma, an event and a parenthesis.
\<close>

definition trim :: "string \<Rightarrow> string" where
  "trim s = trim_right is_white (dropWhile is_white s)"

fun after_marker :: "string \<Rightarrow> string \<Rightarrow> string option" where
  "after_marker w [] = (if w = [] then Some [] else None)"
| "after_marker w (c # cs) = (if starts_with_at (c # cs) w then Some (drop (length w) (c # cs)) else after_marker w cs)"

lemma after_marker_shorter: "after_marker w s = Some r \<Longrightarrow> w \<noteq> [] \<Longrightarrow> length r < length s"
proof (induction s)
  case (Cons c cs)
  then show ?case by (cases w) (auto split: if_splits)
qed (simp split: if_splits)

function auto_attach_tracepoints :: "string \<Rightarrow> (string \<times> string) list" where
  "auto_attach_tracepoints src =
     (case after_marker ''TRACEPOINT_PROBE('' src of
        None \<Rightarrow> []
      | Some s \<Rightarrow>
          if CHR '','' \<notin> set s then []
          else let category = takeWhile (\<lambda>c. c \<noteq> CHR '','') s; r = tl (dropWhile (\<lambda>c. c \<noteq> CHR '','') s)
               in if CHR '')'' \<notin> set r then []
                  else let event = takeWhile (\<lambda>c. c \<noteq> CHR '')'') r; rest = dropWhile (\<lambda>c. c \<noteq> CHR '')'') r
                       in (trim category @ '':'' @ trim event, ''tracepoint__'' @ trim category @ ''__'' @ trim event) #
                          auto_attach_tracepoints rest)"
  by pat_completeness auto
termination
proof (relation "measure length", goal_cases)
  case (2 src s category r event rest)
  then have "length s < length src" by (auto dest: after_marker_shorter)
  moreover have "length rest \<le> length r" "length r \<le> length s"
    using 2 length_dropWhile_le [of "\<lambda>c. c \<noteq> CHR '')''" r] length_dropWhile_le [of "\<lambda>c. c \<noteq> CHR '',''" s] by auto
  ultimately show ?case by simp
qed simp

declare auto_attach_tracepoints.simps [simp del]

section \<open>Control groups\<close>

record cg_env =
  ce_stat :: "string \<Rightarrow> u64 option" \<comment> \<open>the inode number\<close>
  ce_readdir :: "string \<Rightarrow> (string \<times> bool) list option" \<comment> \<open>names, and whether the entry is a directory\<close>
  ce_proc :: "u32 \<Rightarrow> string list option" \<comment> \<open>the lines of \<^verbatim>\<open>/proc/<pid>/cgroup\<close>\<close>

definition cgroup_root :: string where "cgroup_root = ''/sys/fs/cgroup''"

definition join_path :: "string \<Rightarrow> string \<Rightarrow> string" where
  "join_path dir name = (if dir \<noteq> [] \<and> last dir = CHR ''/'' then dir else dir @ ''/'') @ name"

definition or_root :: "string \<Rightarrow> string" where
  "or_root p = (if p = [] then ''/'' else p)"

text \<open>The subdirectories of a directory that can be examined, with their inode numbers.\<close>

definition subdirs :: "cg_env \<Rightarrow> string \<Rightarrow> (string \<times> bool) list \<Rightarrow> (string \<times> u64) list" where
  "subdirs ce dir es = List.map_filter (\<lambda>(name, is_dir).
     if name = ''.'' \<or> name = ''..'' \<or> \<not> is_dir then None
     else map_option (\<lambda>ino. (join_path dir name, ino)) (ce_stat ce (join_path dir name))) es"

text \<open>
  The loop over the subdirectories: the first search that finds something ends it. \<open>None\<close>: a search does
  not return; \<open>Some None\<close>: nothing found.
\<close>

fun find_first :: "('a \<Rightarrow> 'b option option) \<Rightarrow> 'a list \<Rightarrow> 'b option option" where
  "find_first f [] = Some None"
| "find_first f (x # xs) = Option.bind (f x) (\<lambda>r. case r of Some y \<Rightarrow> Some (Some y) | None \<Rightarrow> find_first f xs)"

lemma find_first_mono [partial_function_mono]:
  assumes "\<And>x. mono_option (\<lambda>f. B x f)"
  shows "mono_option (\<lambda>f. find_first (\<lambda>x. B x f) xs)"
proof (induction xs)
  case Nil
  show ?case by (simp add: option.const_mono)
next
  case (Cons x xs)
  have "mono_option (\<lambda>f. case r of Some y \<Rightarrow> Some (Some y) | None \<Rightarrow> find_first (\<lambda>x. B x f) xs)" for r
    using Cons.IH by (cases r) (simp_all add: option.const_mono)
  then show ?case unfolding find_first.simps by (rule bind_mono [OF assms])
qed

text \<open>The search below a directory, without a bound on the depth, as in the code.\<close>

partial_function (option) find_cgroup_path_recursive :: "cg_env \<Rightarrow> string \<Rightarrow> u64 \<Rightarrow> string option option" where
  "find_cgroup_path_recursive ce dir target =
     (case ce_readdir ce dir of
        None \<Rightarrow> Some None
      | Some es \<Rightarrow>
          (case find (\<lambda>(p, ino). ino = target) (subdirs ce dir es) of
             Some (p, ino) \<Rightarrow> Some (Some (or_root (drop 14 p)))
           | None \<Rightarrow> find_first (\<lambda>d. find_cgroup_path_recursive ce d target) (map fst (subdirs ce dir es))))"

definition proc_cgroup :: "cg_env \<Rightarrow> u32 \<Rightarrow> string" where
  "proc_cgroup ce pid =
     (if 0 <s pid
      then case ce_proc ce pid of
             None \<Rightarrow> []
           | Some lines \<Rightarrow> (case find (\<lambda>l. starts_with_at l ''0::'') lines of None \<Rightarrow> [] | Some l \<Rightarrow> or_root (drop 3 l))
      else [])"

definition resolve_cgroup :: "cg_env \<Rightarrow> u64 \<Rightarrow> u32 \<Rightarrow> string option" where
  "resolve_cgroup ce cgroup_id pid =
     (let path = proc_cgroup ce pid;
          path = (if path \<noteq> [] \<and> ce_stat ce (cgroup_root @ path) \<noteq> Some cgroup_id then [] else path)
      in if path = []
         then if ce_stat ce cgroup_root = Some cgroup_id then Some ''/''
              else map_option (\<lambda>r. case r of None \<Rightarrow> ''/'' | Some p \<Rightarrow> or_root p) (find_cgroup_path_recursive ce cgroup_root cgroup_id)
         else Some path)"

record dstate =
  d_path_map :: "u64 \<rightharpoonup> string"
  d_cgroup_cache :: "u64 \<rightharpoonup> string"
  d_dxt :: "dxt_event list"

definition get_cgroup_path :: "cg_env \<Rightarrow> u64 \<Rightarrow> u32 \<Rightarrow> dstate \<Rightarrow> (string \<times> dstate) option" where
  "get_cgroup_path ce cgroup_id pid d =
     (case d_cgroup_cache d cgroup_id of
        Some p \<Rightarrow> Some (p, d)
      | None \<Rightarrow> map_option (\<lambda>p. (p, d\<lparr>d_cgroup_cache := (d_cgroup_cache d)(cgroup_id \<mapsto> p)\<rparr>)) (resolve_cgroup ce cgroup_id pid))"

definition emit_cgroup_path :: "u64 \<Rightarrow> string \<Rightarrow> u8 list" where
  "emit_cgroup_path cgroup_id path =
     (let len = min 255 (length path)
      in TS_CGROUP_PATH # map (\<lambda>i. ucast (drop_bit (i * 8) cgroup_id AND 0xff)) [0..<8] @ of_nat len # map (of_char :: char \<Rightarrow> u8) (take len path))"

text \<open>
  The scan of all control groups: a stack of directories, the last one first. The result is the new
  state and the messages.
\<close>

definition scan_entry :: "string \<times> u64 \<Rightarrow> dstate \<times> u8 list list \<Rightarrow> dstate \<times> u8 list list" where
  "scan_entry = (\<lambda>(path, ino) (d, ms).
     let rel_path = or_root (drop 14 path)
     in if d_cgroup_cache d ino = None
        then (d\<lparr>d_cgroup_cache := (d_cgroup_cache d)(ino \<mapsto> rel_path)\<rparr>, ms @ [emit_cgroup_path ino rel_path])
        else (d, ms))"

partial_function (option) scan_dirs :: "cg_env \<Rightarrow> string list \<Rightarrow> dstate \<times> u8 list list \<Rightarrow> (dstate \<times> u8 list list) option" where
  "scan_dirs ce pending dm =
     (if pending = [] then Some dm
      else case ce_readdir ce (last pending) of
             None \<Rightarrow> scan_dirs ce (butlast pending) dm
           | Some es \<Rightarrow> scan_dirs ce (butlast pending @ map fst (subdirs ce (last pending) es)) (fold scan_entry (subdirs ce (last pending) es) dm))"

definition scan_root :: "cg_env \<Rightarrow> dstate \<Rightarrow> (dstate \<times> u8 list list) option" where
  "scan_root ce d =
     (case ce_stat ce cgroup_root of
        None \<Rightarrow> Some (d, [])
      | Some ino \<Rightarrow> map_option (\<lambda>(p, d). (d, [emit_cgroup_path ino ''/''])) (get_cgroup_path ce ino 0 d))"

definition scan_and_emit_cgroups :: "cg_env \<Rightarrow> dstate \<Rightarrow> (dstate \<times> u8 list list) option" where
  "scan_and_emit_cgroups ce d = Option.bind (scan_root ce d) (scan_dirs ce [cgroup_root])"

section \<open>Ring buffer handlers\<close>

definition dl_resolve :: "(u32 \<Rightarrow> string option) \<Rightarrow> path_event \<Rightarrow> string" where
  "dl_resolve cwd e =
     (if pe_path e \<noteq> [] \<and> hd (pe_path e) = CHR ''/'' then take (MAX_PATH_LEN - 1) (pe_path e)
      else case cwd (pe_pid e) of
             Some d \<Rightarrow> take (MAX_PATH_LEN - 1) (take (MAX_PATH_LEN - 1) d @ ''/'' @ pe_path e)
           | None \<Rightarrow> take (MAX_PATH_LEN - 1) (pe_path e))"

definition dl_handle_path_event :: "(u32 \<Rightarrow> string option) \<Rightarrow> path_event \<Rightarrow> dstate \<Rightarrow> dstate" where
  "dl_handle_path_event cwd e d = d\<lparr>d_path_map := (d_path_map d)(pe_path_hash e \<mapsto> dl_resolve cwd e)\<rparr>"

definition dl_handle_dxt_event :: "cg_env \<Rightarrow> dxt_event \<Rightarrow> dstate \<Rightarrow> (dstate \<times> u8 list list) option" where
  "dl_handle_dxt_event ce e d =
     map_option (\<lambda>(d, ms). (d\<lparr>d_dxt := d_dxt d @ [e]\<rparr>, ms))
       (if d_cgroup_cache d (dx_cgroup_id e) = None
        then map_option (\<lambda>(path, d). (d, [emit_cgroup_path (dx_cgroup_id e) path])) (get_cgroup_path ce (dx_cgroup_id e) (dx_pid e) d)
        else Some (d, []))"

definition handle_eaudit_packet :: "u8 list \<Rightarrow> dstate \<Rightarrow> dstate \<times> u8 list list" where
  "handle_eaudit_packet data d = (d, [data])"

section \<open>The rows of fine.csv\<close>

text \<open>Times stay in nanoseconds; the conversion of the unsigned difference is not modelled further.\<close>

record csv_line =
  cr_write :: bool
  cr_pid :: u32
  cr_cgroup_id :: u64
  cr_cgroup_path :: string
  cr_start_time :: u64
  cr_offset :: s64
  cr_length :: s64
  cr_start_ns :: u64
  cr_end_ns :: u64
  cr_filename :: string

definition csv_filename :: "dstate \<Rightarrow> dxt_event \<Rightarrow> string" where
  "csv_filename d e =
     (let f = (case d_path_map d (dx_path_hash e) of None \<Rightarrow> [] | Some p \<Rightarrow> p)
      in if f = [] then ''UNKNOWN'' else f)"

definition csv_row :: "u64 \<Rightarrow> dstate \<Rightarrow> dxt_event \<Rightarrow> csv_line" where
  "csv_row start d e =
     (let s = dx_start_ns e - start; t = dx_end_ns e - start
      in \<lparr>cr_write = (dx_write_flag e \<noteq> 0), cr_pid = dx_pid e, cr_cgroup_id = dx_cgroup_id e,
          cr_cgroup_path = or_root (case d_cgroup_cache d (dx_cgroup_id e) of None \<Rightarrow> [] | Some p \<Rightarrow> p),
          cr_start_time = dx_start_time e, cr_offset = dx_offset e, cr_length = dx_length e,
          cr_start_ns = s, cr_end_ns = (if t < s then s else t), cr_filename = csv_filename d e\<rparr>)"

fun csv_rows :: "string list \<Rightarrow> u64 \<Rightarrow> dstate \<Rightarrow> dxt_event list \<Rightarrow> csv_line list" where
  "csv_rows excludes start d [] = []"
| "csv_rows excludes start d (e # es) =
     (if \<not> is_excluded (csv_filename d e) excludes then csv_row start d e # csv_rows excludes start d es
      else csv_rows excludes start d es)"

section \<open>Runs of the daemon\<close>

text \<open>
  What the daemon reacts to: a message of the audit probe, events of the I/O probe, a scan, each with
  the working directories or the file system it finds then.
\<close>

datatype (plugins only: code) dstep =
    Packet "u8 list"
  | Path_event "u32 \<Rightarrow> string option" path_event
  | Dxt_event cg_env dxt_event
  | Scan cg_env

fun daemon_step :: "dstep \<Rightarrow> dstate \<Rightarrow> (dstate \<times> u8 list list) option" where
  "daemon_step (Packet b) d = Some (handle_eaudit_packet b d)"
| "daemon_step (Path_event cwd e) d = Some (dl_handle_path_event cwd e d, [])"
| "daemon_step (Dxt_event ce e) d = dl_handle_dxt_event ce e d"
| "daemon_step (Scan ce) d = scan_and_emit_cgroups ce d"

fun daemon_run :: "dstep list \<Rightarrow> dstate \<Rightarrow> (dstate \<times> u8 list list) option" where
  "daemon_run [] d = Some (d, [])"
| "daemon_run (x # xs) d =
     (case daemon_step x d of
        None \<Rightarrow> None
      | Some (d, ms) \<Rightarrow> map_option (\<lambda>(d', ms'). (d', ms @ ms')) (daemon_run xs d))"

definition dstate_init :: dstate where
  "dstate_init = \<lparr>d_path_map = Map.empty, d_cgroup_cache = Map.empty, d_dxt = []\<rparr>"

section \<open>Paths of control groups\<close>

lemma byte_of_mask: "(ucast (w AND 0xff) :: u8) = ucast (w :: u64)"
proof (rule bit_word_eqI)
  fix n assume "n < LENGTH(8)"
  then show "bit (ucast (w AND 0xff) :: u8) n = bit (ucast w :: u8) n"
    using bit_mask_iff [of 8 n, where 'a = u64] by (simp add: bit_ucast_iff bit_and_iff mask_eq_exp_minus_1)
qed

definition path_bytes :: "string \<Rightarrow> u8 list" where
  "path_bytes p = map of_char (take 255 p)"

lemma emit_cgroup_item: "emit_cgroup_path g p = item_bytes (Cgroup g (path_bytes p))"
proof -
  have "take (min 255 (length p)) p = take 255 p" by (simp add: min_def)
  moreover have "min 255 (length p) = length (take 255 p)" by (simp add: min_def)
  ultimately show ?thesis
    by (simp add: emit_cgroup_path_def path_bytes_def Let_def le_bytes_def byte_of_mask mult.commute)
qed

definition no_nul :: "string \<Rightarrow> bool" where
  "no_nul p \<longleftrightarrow> CHR 0x00 \<notin> set p"

text \<open>
  What the kernel promises of a file system: names of directory entries are not empty and contain no
  NUL, nor do the lines of a file under \<^verbatim>\<open>/proc\<close>; and a path of \<open>PATH_MAX\<close> bytes or more cannot be opened.
\<close>

definition PATH_MAX :: nat where "PATH_MAX = 4096"

definition fs_ok :: "cg_env \<Rightarrow> bool" where
  "fs_ok ce \<longleftrightarrow> (\<forall>dir es. ce_readdir ce dir = Some es \<longrightarrow> length dir < PATH_MAX \<and> (\<forall>(name, b)\<in>set es. name \<noteq> [] \<and> no_nul name)) \<and>
     (\<forall>pid ls. ce_proc ce pid = Some ls \<longrightarrow> list_all no_nul ls)"

definition good_path :: "string \<Rightarrow> bool" where
  "good_path p \<longleftrightarrow> p \<noteq> [] \<and> no_nul p"

lemma of_char_zero: "(of_char c :: u8) = 0 \<longleftrightarrow> c = CHR 0x00"
proof -
  have "(of_char c :: u8) = of_nat (of_char c :: nat)" by (rule of_nat_of_char [symmetric])
  then have "(of_char c :: u8) = 0 \<longleftrightarrow> (of_char c :: nat) = 0" 
    using nat_of_char_less_256 [of c] dvd_imp_le [of 256 "of_char c"] by (cases "(of_char c :: nat) = 0") (auto simp: word_of_nat_eq_0_iff simp del: nat_of_char_less_256)
  also have "\<dots> \<longleftrightarrow> c = CHR 0x00" using of_char_eq_iff [of c "CHR 0x00", where 'a = nat] by simp
  finally show ?thesis .
qed

lemma good_item: "good_path p \<Longrightarrow> item_ok (Cgroup g (path_bytes p))"
  by (auto simp: good_path_def no_nul_def path_bytes_def of_char_zero dest: in_set_takeD)

lemma good_or_root [simp]: "good_path (or_root p) \<longleftrightarrow> no_nul p"
  by (auto simp: or_root_def good_path_def no_nul_def)

text \<open>A directory of the control group file system.\<close>

definition cg_dir :: "string \<Rightarrow> bool" where
  "cg_dir p \<longleftrightarrow> take 14 p = cgroup_root \<and> no_nul p"

lemma cg_root_dir: "cg_dir cgroup_root"
  by (simp add: cg_dir_def cgroup_root_def no_nul_def)

lemma cg_dir_split: "cg_dir p \<Longrightarrow> p = cgroup_root @ drop 14 p"
  unfolding cg_dir_def by (metis append_take_drop_id)

lemma cg_dir_drop: "cg_dir p \<Longrightarrow> no_nul (drop 14 p)"
  by (auto simp: cg_dir_def no_nul_def dest: in_set_dropD)

lemma cg_dir_join:
  assumes "cg_dir dir" "no_nul name" shows "cg_dir (join_path dir name)"
proof -
  have "length (take 14 dir) = 14" using assms(1) unfolding cg_dir_def by (simp only: cgroup_root_def list.size)
  then have "14 \<le> length dir" by simp
  with assms show ?thesis by (auto simp: cg_dir_def join_path_def no_nul_def)
qed

lemma subdirs_dirs:
  assumes "fs_ok ce" "ce_readdir ce dir = Some es" "(p, ino) \<in> set (subdirs ce dir es)"
  shows "length dir < length p \<and> length dir < PATH_MAX \<and> (cg_dir dir \<longrightarrow> cg_dir p \<and> ce_stat ce p = Some ino)"
proof -
  obtain name b where n: "(name, b) \<in> set es" "p = join_path dir name" "ce_stat ce p = Some ino"
    using assms(3) by (auto simp: subdirs_def map_filter_def split: if_splits)
  then have "name \<noteq> []" "no_nul name" "length dir < PATH_MAX" using assms(1,2) unfolding fs_ok_def by fast+
  with n cg_dir_join [of dir name] show ?thesis by (auto simp: join_path_def)
qed

lemma find_mem: "find f xs = Some x \<Longrightarrow> x \<in> set xs \<and> f x"
  by (auto simp: find_Some_iff intro: nth_mem)

lemma find_first_found: "find_first f xs = Some (Some y) \<Longrightarrow> \<exists>x\<in>set xs. f x = Some (Some y)"
  by (induction xs) (auto simp: bind_eq_Some_conv split: option.splits)

lemma find_first_returns: "(\<And>x. x \<in> set xs \<Longrightarrow> f x \<noteq> None) \<Longrightarrow> find_first f xs \<noteq> None"
proof (induction xs)
  case (Cons x xs)
  then obtain r where "f x = Some r" by (metis list.set_intros(1) not_Some_eq)
  moreover have "find_first f xs \<noteq> None" using Cons by simp
  ultimately show ?case by (cases r) auto
qed simp

text \<open>The search ends: a path gets longer with every call, and paths that are too long cannot be opened.\<close>

lemma find_cgroup_returns:
  assumes "fs_ok ce"
  shows "\<exists>r. find_cgroup_path_recursive ce dir t = Some r"
proof (induction "PATH_MAX - length dir" arbitrary: dir rule: less_induct)
  case less
  show ?case
  proof (cases "ce_readdir ce dir")
    case None
    then show ?thesis by (subst find_cgroup_path_recursive.simps) simp
  next
    case (Some es)
    have "find_cgroup_path_recursive ce p t \<noteq> None" if "p \<in> set (map fst (subdirs ce dir es))" for p
      using subdirs_dirs [OF assms Some, of p] that less [of p] by fastforce
    then have "find_first (\<lambda>d. find_cgroup_path_recursive ce d t) (map fst (subdirs ce dir es)) \<noteq> None"
      by (rule find_first_returns)
    then show ?thesis using Some by (subst find_cgroup_path_recursive.simps) (auto split: option.split)
  qed
qed

lemma find_cgroup_correct:
  assumes "fs_ok ce" "find_cgroup_path_recursive ce dir t = Some (Some p)" "cg_dir dir"
  shows "\<exists>q. cg_dir q \<and> ce_stat ce q = Some t \<and> p = or_root (drop 14 q)"
  using assms(2,3)
proof (induction "PATH_MAX - length dir" arbitrary: dir rule: less_induct)
  case less
  obtain es where es: "ce_readdir ce dir = Some es"
    using less.prems(1) by (subst (asm) find_cgroup_path_recursive.simps) (auto split: option.splits)
  note sub = subdirs_dirs [OF assms(1) es]
  show ?case
  proof (cases "find (\<lambda>(p, ino). ino = t) (subdirs ce dir es)")
    case None
    then have "find_first (\<lambda>d. find_cgroup_path_recursive ce d t) (map fst (subdirs ce dir es)) = Some (Some p)"
      using less.prems(1) es by (subst (asm) find_cgroup_path_recursive.simps) simp
    then obtain d ino where d: "(d, ino) \<in> set (subdirs ce dir es)" "find_cgroup_path_recursive ce d t = Some (Some p)"
      using find_first_found by fastforce
    then show ?thesis using less.hyps [of d] sub [of d ino] less.prems(2) by auto
  next
    case (Some x)
    obtain q ino where x: "x = (q, ino)" by (cases x)
    have "(q, ino) \<in> set (subdirs ce dir es)" "ino = t" using Some by (auto simp: x dest: find_mem)
    moreover have "p = or_root (drop 14 q)"
      using less.prems(1) es Some by (subst (asm) find_cgroup_path_recursive.simps) (simp add: x)
    ultimately show ?thesis using sub [of q ino] less.prems(2) by blast
  qed
qed

lemma proc_cgroup_nul: "fs_ok ce \<Longrightarrow> no_nul (proc_cgroup ce pid)"
proof -
  assume e: "fs_ok ce"
  have "no_nul l" if "ce_proc ce pid = Some ls" "find f ls = Some l" for ls f l
  proof -
    from that(2) have "l \<in> set ls" using find_mem by fast
    with e that(1) show ?thesis by (auto simp: fs_ok_def list_all_iff)
  qed
  moreover have "no_nul (or_root (drop 3 l))" if "no_nul l" for l
    using that by (auto simp: or_root_def no_nul_def dest: in_set_dropD)
  moreover have "no_nul []" by (simp add: no_nul_def)
  ultimately show ?thesis unfolding proc_cgroup_def by (simp split: option.split)
qed

lemma resolve_cgroup_correct:
  assumes "fs_ok ce" "resolve_cgroup ce g pid = Some p"
  shows "good_path p \<and> (p = ''/'' \<or> ce_stat ce (cgroup_root @ p) = Some g)"
proof (cases "proc_cgroup ce pid \<noteq> [] \<and> ce_stat ce (cgroup_root @ proc_cgroup ce pid) = Some g")
  case True
  with assms proc_cgroup_nul [OF assms(1), of pid] show ?thesis by (simp add: resolve_cgroup_def good_path_def)
next
  case np: False
  show ?thesis
  proof (cases "ce_stat ce cgroup_root = Some g")
    case True
    with assms(2) np show ?thesis by (auto simp: resolve_cgroup_def good_path_def no_nul_def Let_def split: if_splits)
  next
    case False
    with assms(2) np obtain r where r: "find_cgroup_path_recursive ce cgroup_root g = Some r" "p = (case r of None \<Rightarrow> ''/'' | Some p \<Rightarrow> or_root p)"
      by (auto simp: resolve_cgroup_def Let_def split: if_splits)
    show ?thesis
    proof (cases r)
      case None
      then show ?thesis using r(2) by (simp add: good_path_def no_nul_def)
    next
      case (Some x)
      obtain q where q: "cg_dir q" "ce_stat ce q = Some g" "x = or_root (drop 14 q)"
        using find_cgroup_correct [OF assms(1) r(1) [unfolded Some] cg_root_dir] by blast
      then have "p = or_root (drop 14 q)" using r(2) by (simp add: Some or_root_def)
      with q cg_dir_drop [OF q(1)] cg_dir_split [OF q(1)] show ?thesis by (auto simp: or_root_def good_path_def no_nul_def)
    qed
  qed
qed

section \<open>What a run announces\<close>

text \<open>A path found for a control group is the root or names a directory with the inode number of the group.\<close>

definition path_of :: "cg_env \<Rightarrow> u64 \<Rightarrow> string \<Rightarrow> bool" where
  "path_of ce g p \<longleftrightarrow> good_path p \<and> (p = ''/'' \<or> ce_stat ce (cgroup_root @ p) = Some g)"

text \<open>A message for every control group that enters the cache.\<close>

definition announces :: "cg_env \<Rightarrow> dstate \<Rightarrow> dstate \<Rightarrow> (u64 \<times> string) list \<Rightarrow> bool" where
  "announces ce d d' gs \<longleftrightarrow> list_all (\<lambda>(g, p). path_of ce g p) gs \<and>
     (\<forall>g p. d_cgroup_cache d' g = Some p \<longrightarrow> d_cgroup_cache d g = Some p \<or> path_of ce g p) \<and>
     dom (d_cgroup_cache d) \<subseteq> dom (d_cgroup_cache d') \<and> dom (d_cgroup_cache d') \<subseteq> dom (d_cgroup_cache d) \<union> fst ` set gs"

abbreviation cg_messages :: "(u64 \<times> string) list \<Rightarrow> u8 list list" where
  "cg_messages gs \<equiv> map (\<lambda>(g, p). emit_cgroup_path g p) gs"

definition same_events :: "dstate \<Rightarrow> dstate \<Rightarrow> bool" where
  "same_events d d' \<longleftrightarrow> d_path_map d' = d_path_map d \<and> d_dxt d' = d_dxt d"

lemma announces_refl: "announces ce d d []"
  by (simp add: announces_def)

lemma announces_trans:
  assumes "announces ce d d1 g1" "announces ce d1 d2 g2"
  shows "announces ce d d2 (g1 @ g2)"
proof -
  have "d_cgroup_cache d g = Some p \<or> path_of ce g p" if "d_cgroup_cache d2 g = Some p" for g p
    using that assms unfolding announces_def by metis
  moreover have "dom (d_cgroup_cache d2) \<subseteq> dom (d_cgroup_cache d) \<union> fst ` set (g1 @ g2)"
    "dom (d_cgroup_cache d) \<subseteq> dom (d_cgroup_cache d2)"
    using assms unfolding announces_def set_append image_Un by blast+
  ultimately show ?thesis using assms by (simp add: announces_def)
qed

lemma get_cgroup_path_ok:
  assumes "fs_ok ce"
  shows "\<exists>p d' gs. get_cgroup_path ce g pid d = Some (p, d') \<and> announces ce d d' gs \<and> same_events d d' \<and> g \<in> dom (d_cgroup_cache d') \<and>
    (gs = [] \<and> g \<in> dom (d_cgroup_cache d) \<or> gs = [(g, p)])"
proof (cases "d_cgroup_cache d g")
  case None
  obtain p where p: "resolve_cgroup ce g pid = Some p"
    using find_cgroup_returns [OF assms, of cgroup_root g] by (fastforce simp: resolve_cgroup_def Let_def)
  let ?d = "d\<lparr>d_cgroup_cache := (d_cgroup_cache d)(g \<mapsto> p)\<rparr>"
  have "path_of ce g p" unfolding path_of_def by (rule resolve_cgroup_correct [OF assms p])
  then have "announces ce d ?d [(g, p)]" by (auto simp: announces_def)
  moreover have "get_cgroup_path ce g pid d = Some (p, ?d)" using None p by (simp add: get_cgroup_path_def)
  ultimately show ?thesis by (intro exI [of _ p] exI [of _ ?d] exI [of _ "[(g, p)]"]) (simp add: same_events_def)
next
  case (Some q)
  then show ?thesis
    by (intro exI [of _ q] exI [of _ d] exI [of _ "[]"]) (simp add: get_cgroup_path_def announces_refl same_events_def domI)
qed

lemma scan_entries_ok:
  assumes "list_all (\<lambda>(p, ino). cg_dir p \<and> ce_stat ce p = Some ino) ps"
  shows "\<exists>d' gs. fold scan_entry ps (d, ms) = (d', ms @ cg_messages gs) \<and> announces ce d d' gs \<and> same_events d d'"
  using assms
proof (induction ps arbitrary: d ms)
  case Nil
  then show ?case by (intro exI [of _ d] exI [of _ "[]"]) (simp add: announces_refl same_events_def)
next
  case (Cons x ps)
  obtain p ino where x: "x = (p, ino)" by (cases x)
  have g: "path_of ce ino (or_root (drop 14 p))"
    using Cons.prems cg_dir_drop [of p] cg_dir_split [of p] by (auto simp: x path_of_def or_root_def good_path_def no_nul_def)
  define gs1 where "gs1 = (if d_cgroup_cache d ino = None then [(ino, or_root (drop 14 p))] else [])"
  define d1 where "d1 = (if d_cgroup_cache d ino = None then d\<lparr>d_cgroup_cache := (d_cgroup_cache d)(ino \<mapsto> or_root (drop 14 p))\<rparr> else d)"
  have 1: "scan_entry x (d, ms) = (d1, ms @ cg_messages gs1)" by (simp add: scan_entry_def x gs1_def d1_def Let_def)
  have 2: "announces ce d d1 gs1" "same_events d d1" using g by (auto simp: announces_def d1_def gs1_def same_events_def)
  obtain d' gs where "fold scan_entry ps (d1, ms @ cg_messages gs1) = (d', (ms @ cg_messages gs1) @ cg_messages gs)"
    "announces ce d1 d' gs" "same_events d1 d'" using Cons.IH [of d1 "ms @ cg_messages gs1"] Cons.prems by auto
  with 1 2 show ?case
    using announces_trans [OF 2(1), of d' gs] by (intro exI [of _ d'] exI [of _ "gs1 @ gs"]) (auto simp: same_events_def)
qed

text \<open>The scan works off the directories on its stack, each with all that is below it.\<close>

definition scanned :: "cg_env \<Rightarrow> dstate \<times> u8 list list \<Rightarrow> dstate \<times> u8 list list \<Rightarrow> bool" where
  "scanned ce dm dm' \<longleftrightarrow> (\<exists>gs. snd dm' = snd dm @ cg_messages gs \<and> announces ce (fst dm) (fst dm') gs \<and> same_events (fst dm) (fst dm'))"

lemma scanned_refl: "scanned ce dm dm"
  unfolding scanned_def by (intro exI [of _ "[]"]) (simp add: announces_refl same_events_def)

lemma scanned_trans:
  assumes "scanned ce dm dm1" "scanned ce dm1 dm2"
  shows "scanned ce dm dm2"
proof -
  obtain g1 g2 where "snd dm1 = snd dm @ cg_messages g1" "announces ce (fst dm) (fst dm1) g1" "same_events (fst dm) (fst dm1)"
    "snd dm2 = snd dm1 @ cg_messages g2" "announces ce (fst dm1) (fst dm2) g2" "same_events (fst dm1) (fst dm2)"
    using assms unfolding scanned_def by blast
  then show ?thesis
    unfolding scanned_def using announces_trans by (intro exI [of _ "g1 @ g2"]) (auto simp: same_events_def)
qed

lemma scan_stack:
  assumes "\<And>d pending dm. d \<in> set ds \<Longrightarrow> \<exists>dm'. scan_dirs ce (pending @ [d]) dm = scan_dirs ce pending dm' \<and> scanned ce dm dm'"
  shows "\<exists>dm'. scan_dirs ce (pending @ ds) dm = scan_dirs ce pending dm' \<and> scanned ce dm dm'"
  using assms
proof (induction ds arbitrary: dm rule: rev_induct)
  case Nil
  then show ?case using scanned_refl by (intro exI [of _ dm]) simp
next
  case (snoc d ds)
  obtain dm1 where dm1: "scan_dirs ce ((pending @ ds) @ [d]) dm = scan_dirs ce (pending @ ds) dm1" "scanned ce dm dm1"
    using snoc.prems [of d "pending @ ds" dm] by auto
  obtain dm2 where "scan_dirs ce (pending @ ds) dm1 = scan_dirs ce pending dm2" "scanned ce dm1 dm2"
    using snoc.IH [of dm1] snoc.prems by auto
  then show ?case using dm1 scanned_trans by (intro exI [of _ dm2]) simp
qed

lemma scan_one:
  assumes "fs_ok ce" "cg_dir dir"
  shows "\<exists>dm'. scan_dirs ce (pending @ [dir]) dm = scan_dirs ce pending dm' \<and> scanned ce dm dm'"
  using assms(2)
proof (induction "PATH_MAX - length dir" arbitrary: dir pending dm rule: less_induct)
  case less
  show ?case
  proof (cases "ce_readdir ce dir")
    case None
    then have "scan_dirs ce (pending @ [dir]) dm = scan_dirs ce pending dm" by (subst scan_dirs.simps) simp
    then show ?thesis using scanned_refl by (intro exI [of _ dm]) simp
  next
    case (Some es)
    let ?ps = "subdirs ce dir es"
    note sub = subdirs_dirs [OF assms(1) Some]
    have ps: "list_all (\<lambda>(p, ino). cg_dir p \<and> ce_stat ce p = Some ino) ?ps" using sub less.prems by (auto simp: list_all_iff)
    obtain d1 g1 where f1: "fold scan_entry ?ps dm = (d1, snd dm @ cg_messages g1)" "announces ce (fst dm) d1 g1" "same_events (fst dm) d1"
      using scan_entries_ok [OF ps, of "fst dm" "snd dm"] by auto
    then have s1: "scanned ce dm (fold scan_entry ?ps dm)" by (auto simp: scanned_def)
    have "\<exists>dm'. scan_dirs ce (pending @ map fst ?ps) (fold scan_entry ?ps dm) = scan_dirs ce pending dm' \<and> scanned ce (fold scan_entry ?ps dm) dm'"
      by (rule scan_stack) (use less.hyps sub less.prems in fastforce)
    moreover have "scan_dirs ce (pending @ [dir]) dm = scan_dirs ce (pending @ map fst ?ps) (fold scan_entry ?ps dm)"
      using Some by (subst scan_dirs.simps) simp
    ultimately show ?thesis using scanned_trans [OF s1] by auto
  qed
qed

lemma scan_ok:
  assumes "fs_ok ce"
  shows "\<exists>d' gs. scan_and_emit_cgroups ce d = Some (d', cg_messages gs) \<and> announces ce d d' gs \<and> same_events d d'"
proof -
  have "\<exists>dm. scan_root ce d = Some dm \<and> scanned ce (d, []) dm"
  proof (cases "ce_stat ce cgroup_root")
    case None
    then show ?thesis using scanned_refl by (auto simp: scan_root_def)
  next
    case (Some ino)
    obtain p d1 gs where g: "get_cgroup_path ce ino 0 d = Some (p, d1)" "announces ce d d1 gs" "same_events d d1"
      "gs = [] \<and> ino \<in> dom (d_cgroup_cache d) \<or> gs = [(ino, p)]"
      using get_cgroup_path_ok [OF assms, of ino 0 d] by blast
    have "announces ce d d1 [(ino, ''/'')]" using g(2,4) by (auto simp: announces_def path_of_def good_path_def no_nul_def)
    then show ?thesis
      using g(1,3) Some by (auto simp: scan_root_def scanned_def intro: exI [of _ "[(ino, ''/'')]"])
  qed
  then obtain dm where dm: "scan_root ce d = Some dm" "scanned ce (d, []) dm" by blast
  obtain dm' where "scan_dirs ce [cgroup_root] dm = scan_dirs ce [] dm'" "scanned ce dm dm'"
    using scan_one [OF assms cg_root_dir, of "[]" dm] by auto
  moreover have "scan_dirs ce [] dm' = Some dm'" by (subst scan_dirs.simps) simp
  ultimately have "scan_and_emit_cgroups ce d = Some dm'" "scanned ce (d, []) dm'"
    using dm scanned_trans by (auto simp: scan_and_emit_cgroups_def)
  then show ?thesis by (cases dm') (auto simp: scanned_def)
qed

lemma dxt_event_ok:
  assumes "fs_ok ce"
  shows "\<exists>d' gs. dl_handle_dxt_event ce e d = Some (d', cg_messages gs) \<and> announces ce d d' gs \<and> d_path_map d' = d_path_map d \<and>
    d_dxt d' = d_dxt d @ [e] \<and> dx_cgroup_id e \<in> dom (d_cgroup_cache d')"
proof (cases "d_cgroup_cache d (dx_cgroup_id e)")
  case None
  obtain p d1 where g: "get_cgroup_path ce (dx_cgroup_id e) (dx_pid e) d = Some (p, d1)" "announces ce d d1 [(dx_cgroup_id e, p)]"
    "same_events d d1" "dx_cgroup_id e \<in> dom (d_cgroup_cache d1)"
    using get_cgroup_path_ok [OF assms, of "dx_cgroup_id e" "dx_pid e" d] None by auto
  show ?thesis
    by (intro exI [of _ "d1\<lparr>d_dxt := d_dxt d1 @ [e]\<rparr>"] exI [of _ "[(dx_cgroup_id e, p)]"])
      (use g None in \<open>auto simp: dl_handle_dxt_event_def announces_def same_events_def\<close>)
next
  case (Some p)
  then show ?thesis
    by (intro exI [of _ "d\<lparr>d_dxt := d_dxt d @ [e]\<rparr>"] exI [of _ "[]"]) (auto simp: dl_handle_dxt_event_def announces_def)
qed

fun packets :: "dstep list \<Rightarrow> u8 list list" where
  "packets [] = []"
| "packets (Packet b # xs) = b # packets xs"
| "packets (_ # xs) = packets xs"

fun transfers :: "dstep list \<Rightarrow> dxt_event list" where
  "transfers [] = []"
| "transfers (Dxt_event ce e # xs) = e # transfers xs"
| "transfers (_ # xs) = transfers xs"

text \<open>The paths discovered, resolved when they were.\<close>

fun discoveries :: "dstep list \<Rightarrow> (u64 \<times> string) list" where
  "discoveries [] = []"
| "discoveries (Path_event cwd e # xs) = (pe_path_hash e, dl_resolve cwd e) # discoveries xs"
| "discoveries (_ # xs) = discoveries xs"

text \<open>The file systems the steps find.\<close>

fun file_systems :: "dstep list \<Rightarrow> cg_env list" where
  "file_systems [] = []"
| "file_systems (Dxt_event ce e # xs) = ce # file_systems xs"
| "file_systems (Scan ce # xs) = ce # file_systems xs"
| "file_systems (_ # xs) = file_systems xs"

definition paths_after :: "(u64 \<times> string) list \<Rightarrow> (u64 \<rightharpoonup> string) \<Rightarrow> (u64 \<rightharpoonup> string)" where
  "paths_after = fold (\<lambda>(h, p) m. m(h \<mapsto> p))"

text \<open>What one step adds: messages for the control groups that enter the cache, with paths of its file system.\<close>

definition caches :: "cg_env list \<Rightarrow> dstate \<Rightarrow> dstate \<Rightarrow> (u64 \<times> string) list \<Rightarrow> bool" where
  "caches ces d d' gs \<longleftrightarrow> list_all (\<lambda>(g, p). good_path p) gs \<and>
     (\<forall>g p. d_cgroup_cache d' g = Some p \<longrightarrow> d_cgroup_cache d g = Some p \<or> (\<exists>ce\<in>set ces. path_of ce g p)) \<and>
     dom (d_cgroup_cache d) \<subseteq> dom (d_cgroup_cache d') \<and> dom (d_cgroup_cache d') \<subseteq> dom (d_cgroup_cache d) \<union> fst ` set gs"

lemma caches_refl: "caches ces d d []"
  by (simp add: caches_def)

lemma announces_caches:
  assumes "announces ce d d' gs" "ce \<in> set ces"
  shows "caches ces d d' gs"
  unfolding caches_def
proof (intro conjI)
  show "list_all (\<lambda>(g, p). good_path p) gs" using assms(1) by (fastforce simp: announces_def path_of_def list_all_iff)
  show "\<forall>g p. d_cgroup_cache d' g = Some p \<longrightarrow> d_cgroup_cache d g = Some p \<or> (\<exists>ce\<in>set ces. path_of ce g p)"
    using assms unfolding announces_def by blast
qed (use assms(1) in \<open>simp_all add: announces_def\<close>)

lemma daemon_step_ok:
  assumes "list_all fs_ok (file_systems [x])"
  shows "\<exists>d' gs. daemon_step x d = Some (d', packets [x] @ cg_messages gs) \<and> caches (file_systems [x]) d d' gs \<and> (packets [x] = [] \<or> gs = []) \<and>
    d_dxt d' = d_dxt d @ transfers [x] \<and> d_path_map d' = paths_after (discoveries [x]) (d_path_map d) \<and>
    dx_cgroup_id ` set (transfers [x]) \<subseteq> dom (d_cgroup_cache d')"
proof (cases x)
  case (Packet b)
  then show ?thesis
    by (intro exI [of _ d] exI [of _ "[]"]) (simp add: handle_eaudit_packet_def caches_refl paths_after_def)
next
  case (Path_event cwd e)
  then show ?thesis
    by (intro exI [of _ "dl_handle_path_event cwd e d"] exI [of _ "[]"]) (simp add: dl_handle_path_event_def caches_def paths_after_def)
next
  case (Dxt_event ce e)
  then have ok: "fs_ok ce" using assms by simp
  show ?thesis using dxt_event_ok [OF ok, of e d] announces_caches [of ce d _ _ "[ce]"] Dxt_event by (auto simp: paths_after_def)
next
  case (Scan ce)
  then have ok: "fs_ok ce" using assms by simp
  show ?thesis
    using scan_ok [OF ok, of d] announces_caches [of ce d _ _ "[ce]"] Scan by (auto simp: paths_after_def same_events_def)
qed

lemma step_lists:
  "packets (x # xs) = packets [x] @ packets xs" "transfers (x # xs) = transfers [x] @ transfers xs"
  "discoveries (x # xs) = discoveries [x] @ discoveries xs" "file_systems (x # xs) = file_systems [x] @ file_systems xs"
  by (cases x; simp)+

fun is_cgroup :: "item \<Rightarrow> bool" where
  "is_cgroup (Cgroup g s) \<longleftrightarrow> True"
| "is_cgroup _ \<longleftrightarrow> False"

lemma cgroup_no_mark: "is_cgroup x \<Longrightarrow> \<not> is_mark x"
  by (cases x) simp_all

definition groups_in :: "item list \<Rightarrow> u64 set" where
  "groups_in xs = {g. \<exists>s. Cgroup g s \<in> set xs}"

lemma groups_in_append: "groups_in (xs @ ys) = groups_in xs \<union> groups_in ys"
  by (auto simp: groups_in_def)

lemma cg_messages_items:
  assumes "list_all (\<lambda>(g, p). good_path p) gs"
  shows "\<exists>ys. cg_messages gs = map items_bytes ys \<and> list_all (list_all item_ok) ys \<and> list_all (list_all is_cgroup) ys \<and>
    fst ` set gs \<subseteq> groups_in (concat ys)"
proof (intro exI conjI)
  let ?ys = "map (\<lambda>(g, p). [Cgroup g (path_bytes p)]) gs"
  show "cg_messages gs = map items_bytes ?ys" by (auto simp: emit_cgroup_item simp del: item_bytes.simps)
  show "list_all (list_all item_ok) ?ys" using assms good_item by (fastforce simp: list_all_iff simp del: item_ok.simps)
  show "list_all (list_all is_cgroup) ?ys" by (auto simp: list_all_iff)
  show "fst ` set gs \<subseteq> groups_in (concat ?ys)" by (force simp: groups_in_def)
qed

text \<open>The messages of a run are the packets in order, with the announcements of control groups in between.\<close>

definition run_ok :: "dstep list \<Rightarrow> u8 list list \<Rightarrow> dstate \<Rightarrow> dstate \<Rightarrow> bool" where
  "run_ok steps ms d d' \<longleftrightarrow>
     (\<forall>ps. packets steps = map items_bytes ps \<and> list_all (list_all (\<lambda>x. \<not> is_mark x \<and> \<not> is_cgroup x)) ps \<longrightarrow>
        (\<exists>ys. ms = map items_bytes ys \<and> filter (\<lambda>x. \<not> is_cgroup x) (concat ys) = concat ps \<and> list_all (list_all (\<lambda>x. \<not> is_mark x)) ys \<and>
           (list_all (list_all item_ok) ps \<longrightarrow> list_all (list_all item_ok) ys) \<and>
           dom (d_cgroup_cache d') \<subseteq> dom (d_cgroup_cache d) \<union> groups_in (concat ys)))"

lemma run_ok_Nil: "run_ok [] [] d d"
proof -
  have "ps = []" if "packets [] = map items_bytes ps" for ps using that by simp
  then show ?thesis unfolding run_ok_def by (intro allI impI exI [of _ "[]"]) auto
qed

lemma run_ok_Cons:
  assumes "packets [x] = [] \<or> gs = []" "caches ces d d1 gs" "run_ok xs m2 d1 d'"
  shows "run_ok (x # xs) ((packets [x] @ cg_messages gs) @ m2) d d'"
  unfolding run_ok_def
proof (intro allI impI, elim conjE)
  fix ps assume pk: "packets (x # xs) = map items_bytes ps" and nm: "list_all (list_all (\<lambda>x. \<not> is_mark x \<and> \<not> is_cgroup x)) ps"
  obtain p1 p2 where p: "ps = p1 @ p2" "packets [x] = map items_bytes p1" "packets xs = map items_bytes p2"
    using pk unfolding step_lists(1) [of x xs] by (auto simp: append_eq_map_conv)
  obtain y1 where y1: "cg_messages gs = map items_bytes y1" "list_all (list_all item_ok) y1" "list_all (list_all is_cgroup) y1"
    "fst ` set gs \<subseteq> groups_in (concat y1)" using cg_messages_items [of gs] assms(2) by (auto simp: caches_def)
  obtain y2 where y2: "m2 = map items_bytes y2" "filter (\<lambda>x. \<not> is_cgroup x) (concat y2) = concat p2" "list_all (list_all (\<lambda>x. \<not> is_mark x)) y2"
    "list_all (list_all item_ok) p2 \<longrightarrow> list_all (list_all item_ok) y2" "dom (d_cgroup_cache d') \<subseteq> dom (d_cgroup_cache d1) \<union> groups_in (concat y2)"
    using assms(3) nm p(3) unfolding run_ok_def by (auto simp: p(1))
  have f1: "filter (\<lambda>x. \<not> is_cgroup x) (concat p1) = concat p1" "list_all (list_all (\<lambda>x. \<not> is_mark x)) p1"
    using nm by (auto simp: p(1) list_all_iff filter_id_conv)
  have f2: "filter (\<lambda>x. \<not> is_cgroup x) (concat y1) = []" "list_all (list_all (\<lambda>x. \<not> is_mark x)) y1"
    using y1(3) cgroup_no_mark by (auto simp: list_all_iff filter_empty_conv)
  have "dom (d_cgroup_cache d') \<subseteq> dom (d_cgroup_cache d) \<union> groups_in (concat (p1 @ y1 @ y2))"
  proof -
    have "dom (d_cgroup_cache d1) \<subseteq> dom (d_cgroup_cache d) \<union> fst ` set gs" using assms(2) by (simp add: caches_def)
    moreover have "A \<subseteq> D \<union> (P \<union> (G \<union> H))" if "A \<subseteq> B \<union> H" "B \<subseteq> D \<union> F" "F \<subseteq> G" for A B D F G H P :: "u64 set" using that by blast
    ultimately show ?thesis using y2(5) y1(4) unfolding groups_in_append concat_append by metis
  qed
  then show "\<exists>ys. (packets [x] @ cg_messages gs) @ m2 = map items_bytes ys \<and> filter (\<lambda>x. \<not> is_cgroup x) (concat ys) = concat ps \<and>
      list_all (list_all (\<lambda>x. \<not> is_mark x)) ys \<and> (list_all (list_all item_ok) ps \<longrightarrow> list_all (list_all item_ok) ys) \<and>
      dom (d_cgroup_cache d') \<subseteq> dom (d_cgroup_cache d) \<union> groups_in (concat ys)"
    using y1(1,2) y2(1-4) f1 f2 by (intro exI [of _ "p1 @ y1 @ y2"]) (simp add: p)
qed

text \<open>A run returns, whatever the steps, when the file systems keep what the kernel promises.\<close>

lemma daemon_run_ok:
  assumes "list_all fs_ok (file_systems steps)"
  shows "\<exists>d' ms. daemon_run steps d = Some (d', ms) \<and> run_ok steps ms d d' \<and> d_dxt d' = d_dxt d @ transfers steps \<and>
    d_path_map d' = paths_after (discoveries steps) (d_path_map d) \<and> dom (d_cgroup_cache d) \<subseteq> dom (d_cgroup_cache d') \<and>
    dx_cgroup_id ` set (transfers steps) \<subseteq> dom (d_cgroup_cache d') \<and>
    (\<forall>g p. d_cgroup_cache d' g = Some p \<longrightarrow> d_cgroup_cache d g = Some p \<or> (\<exists>ce\<in>set (file_systems steps). path_of ce g p))"
  using assms
proof (induction steps arbitrary: d)
  case Nil
  then show ?case by (simp add: run_ok_Nil paths_after_def)
next
  case (Cons x xs)
  have fs: "list_all fs_ok (file_systems [x])" "list_all fs_ok (file_systems xs)"
    using Cons.prems unfolding step_lists(4) [of x xs] by simp_all
  obtain d1 gs where g: "daemon_step x d = Some (d1, packets [x] @ cg_messages gs)" "caches (file_systems [x]) d d1 gs" "packets [x] = [] \<or> gs = []"
    "d_dxt d1 = d_dxt d @ transfers [x]" "d_path_map d1 = paths_after (discoveries [x]) (d_path_map d)"
    "dx_cgroup_id ` set (transfers [x]) \<subseteq> dom (d_cgroup_cache d1)"
    using daemon_step_ok [OF fs(1)] by blast
  obtain d' m2 where ih: "daemon_run xs d1 = Some (d', m2)" "run_ok xs m2 d1 d'" "d_dxt d' = d_dxt d1 @ transfers xs"
    "d_path_map d' = paths_after (discoveries xs) (d_path_map d1)" "dom (d_cgroup_cache d1) \<subseteq> dom (d_cgroup_cache d')"
    "dx_cgroup_id ` set (transfers xs) \<subseteq> dom (d_cgroup_cache d')"
    "\<forall>g p. d_cgroup_cache d' g = Some p \<longrightarrow> d_cgroup_cache d1 g = Some p \<or> (\<exists>ce\<in>set (file_systems xs). path_of ce g p)"
    using Cons.IH [OF fs(2), of d1] by blast
  have "daemon_run (x # xs) d = Some (d', (packets [x] @ cg_messages gs) @ m2)" using g(1) ih(1) by simp
  moreover have "run_ok (x # xs) ((packets [x] @ cg_messages gs) @ m2) d d'" by (rule run_ok_Cons [OF g(3,2) ih(2)])
  moreover have "d_dxt d' = d_dxt d @ transfers (x # xs)" "d_path_map d' = paths_after (discoveries (x # xs)) (d_path_map d)"
    unfolding step_lists(2,3) [of x xs] by (simp_all add: ih(3,4) g(4,5) paths_after_def)
  moreover have "dom (d_cgroup_cache d) \<subseteq> dom (d_cgroup_cache d')" using g(2) ih(5) unfolding caches_def by blast
  moreover have "dx_cgroup_id ` set (transfers (x # xs)) \<subseteq> dom (d_cgroup_cache d')"
    unfolding step_lists(2) [of x xs] set_append image_Un using subset_trans [OF g(6) ih(5)] ih(6) by simp
  moreover have "d_cgroup_cache d g = Some p \<or> (\<exists>ce\<in>set (file_systems (x # xs)). path_of ce g p)" if "d_cgroup_cache d' g = Some p" for g p
    using ih(7) g(2) that unfolding caches_def step_lists(4) [of x xs] set_append by blast
  ultimately show ?case by blast
qed

section \<open>Properties\<close>

text \<open>The file of a transfer: the last discovery of its identity tells its path.\<close>

definition file_of :: "dstep list \<Rightarrow> dxt_event \<Rightarrow> string" where
  "file_of steps e =
     (case find (\<lambda>(h, p). h = dx_path_hash e) (rev (discoveries steps)) of
        None \<Rightarrow> ''UNKNOWN''
      | Some (h, p) \<Rightarrow> if p = [] then ''UNKNOWN'' else p)"

lemma paths_after_find:
  "paths_after es m h = (case find (\<lambda>(h', p). h' = h) (rev es) of None \<Rightarrow> m h | Some (h', p) \<Rightarrow> Some p)"
  by (induction es rule: rev_induct) (auto simp: paths_after_def)

lemma csv_rows_filter: "csv_rows ex start d es = map (csv_row start d) (filter (\<lambda>e. \<not> is_excluded (csv_filename d e) ex) es)"
  by (induction es) auto

text \<open>
  (C27) \<^verbatim>\<open>fine.csv\<close> lists the transfers: every run of the daemon returns, whatever messages, events and scans
  it consists of and whatever the file system looks like at each of them, as long as names of directory
  entries are not empty, nothing contains a NUL and paths of 4096 bytes cannot be opened. Afterwards the
  rows are exactly the transfers received, in order, whose file is not excluded, with the last path
  discovered for the file; and the path of the control group in a row is the root, or named a directory
  with the inode number of the group at one of the steps.
\<close>

theorem csv_lists_transfers:
  assumes "list_all fs_ok (file_systems steps)"
  shows "\<exists>d ms. daemon_run steps dstate_init = Some (d, ms)
    \<and> map (\<lambda>r. (cr_write r, cr_pid r, cr_cgroup_id r, cr_offset r, cr_length r, cr_filename r)) (csv_rows ex start d (d_dxt d)) =
      map (\<lambda>e. (dx_write_flag e \<noteq> 0, dx_pid e, dx_cgroup_id e, dx_offset e, dx_length e, file_of steps e))
        (filter (\<lambda>e. \<not> is_excluded (file_of steps e) ex) (transfers steps))
    \<and> list_all (\<lambda>r. cr_cgroup_path r = ''/'' \<or> list_ex (\<lambda>ce. ce_stat ce (cgroup_root @ cr_cgroup_path r) = Some (cr_cgroup_id r)) (file_systems steps))
        (csv_rows ex start d (d_dxt d))"
proof -
  obtain d ms where r: "daemon_run steps dstate_init = Some (d, ms)" "d_dxt d = transfers steps" "d_path_map d = paths_after (discoveries steps) Map.empty"
    "\<forall>g p. d_cgroup_cache d g = Some p \<longrightarrow> (\<exists>ce\<in>set (file_systems steps). path_of ce g p)"
    using daemon_run_ok [OF assms, of dstate_init] by (auto simp: dstate_init_def)
  have f: "csv_filename d e = file_of steps e" for e
    by (auto simp: csv_filename_def file_of_def r(3) paths_after_find Let_def split: option.split)
  have "or_root p = p" if "path_of ce g p" for ce g p using that by (auto simp: path_of_def good_path_def or_root_def)
  then have "or_root (case d_cgroup_cache d g of None \<Rightarrow> [] | Some p \<Rightarrow> p) = ''/'' \<or>
      (\<exists>ce\<in>set (file_systems steps). ce_stat ce (cgroup_root @ or_root (case d_cgroup_cache d g of None \<Rightarrow> [] | Some p \<Rightarrow> p)) = Some g)" for g
    using r(4) by (cases "d_cgroup_cache d g") (fastforce simp: path_of_def or_root_def)+
  then show ?thesis using r(1) by (intro exI [of _ d] exI [of _ ms]) (simp add: csv_rows_filter r(2) f csv_row_def Let_def list_all_iff list_ex_iff o_def)
qed

text \<open>A file system with a control group two levels deep.\<close>

definition sample_cg :: cg_env where
  "sample_cg = \<lparr>ce_stat = (\<lambda>p. if p = cgroup_root then Some 1 else if p = cgroup_root @ ''/a'' then Some 2
       else if p = cgroup_root @ ''/a/b'' then Some 3 else None),
     ce_readdir = (\<lambda>p. if p = cgroup_root then Some [(''f'', False), (''a'', True)]
       else if p = cgroup_root @ ''/a'' then Some [(''.'', True), (''b'', True)] else None),
     ce_proc = (\<lambda>_. None)\<rparr>"

lemma sample_cg_ok: "fs_ok sample_cg"
  by (simp add: fs_ok_def sample_cg_def PATH_MAX_def cgroup_root_def no_nul_def)

definition sample_transfer :: "u64 \<Rightarrow> u64 \<Rightarrow> s64 \<Rightarrow> dxt_event" where
  "sample_transfer h g n = \<lparr>dx_path_hash = h, dx_start_ns = 10, dx_end_ns = 20, dx_offset = 0, dx_length = n, dx_pid = 7, dx_cgroup_id = g,
     dx_start_time = 5, dx_write_flag = 1\<rparr>"

definition sample_steps :: "dstep list" where
  "sample_steps = [Path_event (\<lambda>_. Some ''/home'') \<lparr>pe_path_hash = 4, pe_pid = 7, pe_cgroup_id = 1, pe_start_time = 5, pe_comm = ''c'', pe_path = ''f''\<rparr>,
     Dxt_event sample_cg (sample_transfer 4 3 100), Packet (item_bytes (Stamp 10)), Dxt_event sample_cg (sample_transfer 9 1 7)]"

lemma sample_find: "find_cgroup_path_recursive sample_cg cgroup_root 3 = Some (Some ''/a/b'')"
proof -
  have root: "subdirs sample_cg cgroup_root [(''f'', False), (''a'', True)] = [(cgroup_root @ ''/a'', 2)]"
    by (simp add: subdirs_def map_filter_simps sample_cg_def join_path_def cgroup_root_def)
  have a: "subdirs sample_cg (cgroup_root @ ''/a'') [(''.'', True), (''b'', True)] = [(cgroup_root @ ''/a/b'', 3)]"
    by (simp add: subdirs_def map_filter_simps sample_cg_def join_path_def cgroup_root_def)
  have rd: "ce_readdir sample_cg cgroup_root = Some [(''f'', False), (''a'', True)]"
    "ce_readdir sample_cg (cgroup_root @ ''/a'') = Some [(''.'', True), (''b'', True)]"
    by (simp_all add: sample_cg_def cgroup_root_def)
  have "find_cgroup_path_recursive sample_cg (cgroup_root @ ''/a'') 3 = Some (Some ''/a/b'')"
    by (subst find_cgroup_path_recursive.simps) (simp add: rd(2) a, simp add: cgroup_root_def or_root_def)
  then show ?thesis by (subst find_cgroup_path_recursive.simps) (simp add: rd(1) root)
qed

lemma sample_daemon_run:
  "daemon_run sample_steps dstate_init =
     Some (\<lparr>d_path_map = [4 \<mapsto> ''/home/f''], d_cgroup_cache = [3 \<mapsto> ''/a/b'', 1 \<mapsto> ''/''], d_dxt = [sample_transfer 4 3 100, sample_transfer 9 1 7]\<rparr>,
       [emit_cgroup_path 3 ''/a/b'', item_bytes (Stamp 10), emit_cgroup_path 1 ''/''])"
proof -
  have "ce_stat sample_cg cgroup_root = Some 1" "ce_proc sample_cg = (\<lambda>_. None)" by (simp_all add: sample_cg_def)
  then show ?thesis
    by (simp add: sample_steps_def sample_transfer_def dstate_init_def dl_handle_path_event_def dl_resolve_def MAX_PATH_LEN_def sample_find
      dl_handle_dxt_event_def get_cgroup_path_def resolve_cgroup_def proc_cgroup_def handle_eaudit_packet_def Let_def or_root_def)
qed

theorem csv_lists_transfers_witness:
  "\<exists>d ms. daemon_run sample_steps dstate_init = Some (d, ms) \<and> d_cgroup_cache d 3 = Some ''/a/b'' \<and>
     map (\<lambda>r. (cr_write r, cr_pid r, cr_cgroup_id r, cr_offset r, cr_length r, cr_filename r)) (csv_rows [''/etc/''] 3 d (d_dxt d)) =
       [(True, 7, 3, 0, 100, ''/home/f''), (True, 7, 1, 0, 7, ''UNKNOWN'')]"
proof -
  have fs: "list_all fs_ok (file_systems sample_steps)" by (simp add: sample_steps_def sample_cg_ok)
  have "file_of sample_steps (sample_transfer 4 g n) = ''/home/f''" "file_of sample_steps (sample_transfer 9 g n) = ''UNKNOWN''" for g n
    by (simp_all add: file_of_def sample_steps_def sample_transfer_def dl_resolve_def MAX_PATH_LEN_def)
  moreover have "transfers sample_steps = [sample_transfer 4 3 100, sample_transfer 9 1 7]" by (simp add: sample_steps_def)
  ultimately show ?thesis
    using csv_lists_transfers [OF fs, of "[''/etc/'']" 3]
    by (simp add: sample_daemon_run is_excluded_def starts_with_at_def) (simp add: sample_transfer_def)
qed

end
