(* ===== verification/Dlogger_Session.thy ===== *)
theory Dlogger_Session
  imports Dlogger_Daemon Audit_Calls Stream_Read
begin

text \<open>
  A session of dlogger from end to end: system calls, the handlers of the audit probe, the caches, the
  ring buffer, the daemon, the capture file, the parser that reads it in chunks, and the consumer.
\<close>

section \<open>Messages as pieces\<close>

fun is_rec :: "item \<Rightarrow> bool" where
  "is_rec (Rec sn x) \<longleftrightarrow> True"
| "is_rec _ \<longleftrightarrow> False"

fun recs_from :: "u64 \<Rightarrow> log_call list \<Rightarrow> item list" where
  "recs_from sn [] = []"
| "recs_from sn (x # xs) = Rec sn x # recs_from (sn + 1) xs"

lemma items_bytes_recs: "items_bytes (recs_from sn xs) = call_records sn xs"
proof (induction xs arbitrary: sn)
  case (Cons x xs)
  then show ?case by (cases x) simp
qed simp

lemma recs_from_append: "recs_from sn (xs @ ys) = recs_from sn xs @ recs_from (sn + of_nat (length xs)) ys"
  by (induction xs arbitrary: sn) (auto simp: algebra_simps)

lemma recs_from_all: "filter is_rec (recs_from sn xs) = recs_from sn xs" "list_all (\<lambda>x. \<not> is_mark x \<and> \<not> is_cgroup x) (recs_from sn xs)"
  "list_all item_ok (recs_from sn xs) = list_all known_call xs"
  by (induction xs arbitrary: sn) (auto simp del: known_call.simps)

lemma messages_items:
  "messages_of sn gs ms \<Longrightarrow> \<exists>ps. ms = map items_bytes ps \<and> filter is_rec (concat ps) = recs_from sn (concat gs) \<and>
    list_all (list_all (\<lambda>x. \<not> is_mark x \<and> \<not> is_cgroup x)) ps \<and> (list_all known_call (concat gs) \<longrightarrow> list_all (list_all item_ok) ps)"
proof (induction gs arbitrary: sn ms)
  case Nil
  then show ?case by (intro exI [of _ "[]"]) simp
next
  case (Cons g gs)
  then obtain b bs t where b: "ms = b # bs" "b = le_bytes 8 (TS_RECORD (MS_BITS t)) @ call_records sn g" "messages_of (sn + of_nat (length g)) gs bs"
    by (auto simp: message_of_def)
  obtain ps where "bs = map items_bytes ps" "filter is_rec (concat ps) = recs_from (sn + of_nat (length g)) (concat gs)"
    "list_all (list_all (\<lambda>x. \<not> is_mark x \<and> \<not> is_cgroup x)) ps" "list_all known_call (concat gs) \<longrightarrow> list_all (list_all item_ok) ps"
    using Cons.IH [OF b(3)] by blast
  then show ?case
    using recs_from_all [of sn g] by (intro exI [of _ "(Stamp t # recs_from sn g) # ps"])
      (simp add: b(1,2) items_bytes_recs recs_from_append)
qed

lemma filter_weaker: "(\<And>x. P x \<Longrightarrow> Q x) \<Longrightarrow> filter P (filter Q xs) = filter P xs"
  by (induction xs) auto

lemma is_rec_other: "is_rec x \<Longrightarrow> \<not> is_mark x" "is_rec x \<Longrightarrow> \<not> is_cgroup x"
  by (cases x; simp)+

lemma groups_known: "groups_in xs \<subseteq> dom (fold item_path xs m)"
proof (induction xs rule: rev_induct)
  case (snoc x xs)
  then show ?case by (cases x) (auto simp: groups_in_def)
qed (simp add: groups_in_def)

lemma groups_in_filter: "groups_in (filter (\<lambda>x. \<not> is_mark x) xs) = groups_in xs"
  by (auto simp: groups_in_def)

section \<open>A sample session\<close>

lemma daemon_run_packets:
  "daemon_run (map Packet bs @ xs) d = map_option (\<lambda>(d', ms). (d', bs @ ms)) (daemon_run xs d)"
proof (induction bs)
  case Nil
  show ?case by (cases "daemon_run xs d") auto
next
  case (Cons b bs)
  then show ?case by (cases "daemon_run xs d") (auto simp: handle_eaudit_packet_def)
qed

lemma packets_append: "packets (map Packet bs @ xs) = bs @ packets xs"
  by (induction bs) auto

lemma messages_map: "messages (map (Message e) bs) = bs"
  by (induction bs) auto

lemma length_call_records: "length (call_records sn xs) \<le> 440 * length xs"
proof (induction xs arbitrary: sn)
  case (Cons x xs)
  obtain e sc nm w r where x: "x = (e, sc, nm, w, r)" by (cases x)
  show ?case using Cons.IH [of "sn + 1"] length_record_bytes [of e nm sn r] by (simp add: x)
qed simp

lemma message_lengths:
  "messages_of sn gs ms \<Longrightarrow> b \<in> set ms \<Longrightarrow> b \<noteq> [] \<and> length b \<le> 8 + 440 * length (concat gs)"
proof (induction gs arbitrary: sn ms)
  case (Cons g gs)
  then obtain b1 bs t where b: "ms = b1 # bs" "b1 = le_bytes 8 (TS_RECORD (MS_BITS t)) @ call_records sn g" "messages_of (sn + of_nat (length g)) gs bs"
    by (auto simp: message_of_def)
  show ?case
  proof (cases "b = b1")
    case True
    have "b \<noteq> []" using arg_cong [OF b(2), of length] by (auto simp: True)
    then show ?thesis using length_call_records [of sn g] by (simp add: True b(2))
  next
    case False
    then show ?thesis using Cons.IH [OF b(3)] Cons.prems(2) by (auto simp: b(1))
  qed
qed simp

lemma sample_on_cpu: "list_all (on_cpu 0) sample_run"
  by (simp add: sample_run_def on_cpu_def sample_pids word_sless_alt) (simp add: thread_env_def sample_env_def)

lemma sample_readable: "list_all readable (trace_calls Map.empty sample_run)"
  by (simp add: sample_calls readable_def strings_ok_def) (simp add: thread_env_def sample_env_def)

abbreviation sample_kernel :: kstate where
  "sample_kernel \<equiv> as_k (fold (fire (dlogger_config 1 True)) sample_run (fresh (kstate_init 3)))"

definition session_steps :: "dstep list" where
  "session_steps = map Packet (map rb_bytes (ks_events sample_kernel)) @ [Dxt_event sample_cg (sample_transfer 4 3 100)]"

lemma session_run:
  "daemon_run session_steps dstate_init =
     Some (\<lparr>d_path_map = Map.empty, d_cgroup_cache = [3 \<mapsto> ''/a/b''], d_dxt = [sample_transfer 4 3 100]\<rparr>,
       map rb_bytes (ks_events sample_kernel) @ [emit_cgroup_path 3 ''/a/b''])"
proof -
  have "ce_stat sample_cg cgroup_root = Some 1" "ce_proc sample_cg = (\<lambda>_. None)" by (simp_all add: sample_cg_def)
  then show ?thesis
    unfolding session_steps_def daemon_run_packets
    by (simp add: sample_transfer_def dstate_init_def dl_handle_dxt_event_def get_cgroup_path_def resolve_cgroup_def
        proc_cgroup_def sample_find Let_def or_root_def)
qed

lemma session_systems: "list_all fs_ok (file_systems session_steps)"
proof -
  have fs: "file_systems (map Packet bs @ [Dxt_event ce e]) = [ce]" for bs ce e by (induction bs) auto
  show ?thesis unfolding session_steps_def fs by (simp add: sample_cg_ok)
qed

definition session_ops :: "writer_op list" where
  "session_ops = map (Message sample_wenv) (map rb_bytes (ks_events sample_kernel) @ [emit_cgroup_path 3 ''/a/b''])"

lemma session_ops_ok: "list_all op_ok session_ops"
proof -
  obtain gs rest where g: "concat gs @ rest = trace_calls Map.empty sample_run" and st: "sent 0 0 sample_kernel gs rest"
    using run_sent [OF sample_run_normal [of True] sample_on_cpu, of 3, OF _ refl] by auto
  have "length (concat gs) \<le> 2" using arg_cong [OF g, of length] by (simp add: sample_calls)
  moreover have "messages_of 0 gs (map rb_bytes (ks_events sample_kernel))" using st by (simp add: sent_def)
  ultimately have "b \<noteq> [] \<and> length b < wbufsize - 8" if "b \<in> set (map rb_bytes (ks_events sample_kernel))" for b
    using message_lengths [OF _ that] by (fastforce simp: wbufsize_def)
  then have "list_all op_ok (map (Message sample_wenv) (map rb_bytes (ks_events sample_kernel)))"
    by (auto simp: list_all_iff sample_wenv_ok)
  moreover have "op_ok (Message sample_wenv (emit_cgroup_path 3 ''/a/b''))"
    by (simp add: sample_wenv_ok emit_cgroup_path_def wbufsize_def)
  ultimately show ?thesis by (simp add: session_ops_def)
qed

section \<open>Properties\<close>

text \<open>
  (C1) A session from end to end. Threads of one CPU make system calls, interleaved in any way, each
  thread one call at a time; execve and execveat are left out, no argument map evicts an entry, the
  ring buffer accepts every batch and the strings of the calls can be read. The daemon takes the messages
  of the ring in order and does anything else in between; writes succeed and messages fit into the write
  buffer; the capture file is then read back in any chunks. Then the daemon returns, the file is written,
  and the parser reads it to its end without an error. What the consumer is told are the events of the
  first \<open>j\<close> records of the table of system calls, in order and with consecutive sequence numbers, with clock
  readings in between, the first of them before the first record; the other records are still in the
  cache of the probe; and every control group of a transfer has a path.
\<close>

theorem session_end_to_end:
  assumes "normal_run (dlogger_config p k) Map.empty es" "list_all (on_cpu cpu) es" "cpu \<le> n"
    and "list_all readable (trace_calls Map.empty es)"
    and "s = as_k (fold (fire (dlogger_config p k)) es (fresh (kstate_init n)))"
    and "packets steps = map rb_bytes (ks_events s)" "list_all fs_ok (file_systems steps)" "short_seqnum c"
  shows "\<exists>d ms. daemon_run steps dstate_init = Some (d, ms) \<and>
    (\<forall>ops e. messages ops = ms \<and> list_all op_ok ops \<and> system_ok e \<longrightarrow>
      (\<exists>w. run_writer (ops @ [Flush e]) writer_init = Inr w \<and>
        (\<forall>i. in_data i = w_file w \<longrightarrow>
          (\<exists>st zs j. parse_stream c m offs i rstate_init = Some (Stopped (if in_fails i then - 1 else 0) st) \<and>
            rs_events (sm_r st) = items_events 0 zs \<and> filter is_rec zs = recs_from 0 (take j (trace_calls Map.empty es)) \<and>
            list_all is_mark (takeWhile (\<lambda>x. \<not> is_clock x) zs) \<and> rs_err_rec (sm_r st) = 0 \<and>
            (\<exists>b. ks_buf s cpu = Some b \<and> cached b = call_records (of_nat j) (drop j (trace_calls Map.empty es))) \<and>
            dx_cgroup_id ` set (transfers steps) \<subseteq> dom (rs_cgroup_paths (sm_r st))))))"
proof -
  let ?xs = "trace_calls Map.empty es"
  obtain gs rest where g: "concat gs @ rest = ?xs" and st: "sent cpu 0 s gs rest" using run_sent [OF assms(1-3,5)] by blast
  let ?j = "length (concat gs)"
  have tk: "take ?j ?xs = concat gs" "drop ?j ?xs = rest" by (simp_all flip: g)
  have kn: "list_all known_call (concat gs)" using trace_ok(2) [OF assms(1,2,4)] by (simp flip: g)
  have "messages_of 0 gs (map rb_bytes (ks_events s))" using st by (simp add: sent_def)
  from messages_items [OF this] kn obtain ps where ps: "map rb_bytes (ks_events s) = map items_bytes ps"
    "filter is_rec (concat ps) = recs_from 0 (concat gs)" "list_all (list_all (\<lambda>x. \<not> is_mark x \<and> \<not> is_cgroup x)) ps" "list_all (list_all item_ok) ps" by blast
  obtain d ms where r: "daemon_run steps dstate_init = Some (d, ms)" "run_ok steps ms dstate_init d"
    "dx_cgroup_id ` set (transfers steps) \<subseteq> dom (d_cgroup_cache d)"
    using daemon_run_ok [OF assms(7), of dstate_init] by blast
  obtain ys where ys: "ms = map items_bytes ys" "filter (\<lambda>x. \<not> is_cgroup x) (concat ys) = concat ps" "list_all (list_all (\<lambda>x. \<not> is_mark x)) ys"
    "list_all (list_all item_ok) ys" "dom (d_cgroup_cache d) \<subseteq> groups_in (concat ys)"
    using r(2) assms(6) ps unfolding run_ok_def by (auto simp: dstate_init_def)
  have left: "\<exists>b. ks_buf s cpu = Some b \<and> cached b = call_records (of_nat ?j) (drop ?j ?xs)" using st by (auto simp: sent_def tk)
  have written: "\<exists>w. run_writer (ops @ [Flush e]) writer_init = Inr w \<and> (\<forall>i. in_data i = w_file w \<longrightarrow>
      (\<exists>st zs j. parse_stream c m offs i rstate_init = Some (Stopped (if in_fails i then - 1 else 0) st) \<and>
         rs_events (sm_r st) = items_events 0 zs \<and> filter is_rec zs = recs_from 0 (take j ?xs) \<and>
         list_all is_mark (takeWhile (\<lambda>x. \<not> is_clock x) zs) \<and> rs_err_rec (sm_r st) = 0 \<and>
         (\<exists>b. ks_buf s cpu = Some b \<and> cached b = call_records (of_nat j) (drop j ?xs)) \<and>
         dx_cgroup_id ` set (transfers steps) \<subseteq> dom (rs_cgroup_paths (sm_r st))))"
    if ops: "messages ops = ms" "list_all op_ok ops" "system_ok e" for ops e
  proof -
    obtain w where w: "run_writer (ops @ [Flush e]) writer_init = Inr w" "w_file w = writer.images ops writer_init"
      using run_flush [OF writer_init_ready(1) ops(2,3)] by (auto simp: writer_init_ready)
    obtain zs where zs: "writer.images ops writer_init = items_bytes zs" "filter (\<lambda>x. \<not> is_mark x) zs = concat ys" "list_all item_ok zs"
      "list_all is_mark (takeWhile (\<lambda>x. \<not> is_clock x) zs)"
      using first_clock [OF _ _ ops(2) writer_init_ready(1) ops(1) [unfolded ys(1)] ys(3)] ys(4) by (auto simp: writer_init_def)
    have "filter is_rec zs = filter is_rec (concat ys)" unfolding zs(2) [symmetric] by (rule filter_weaker [symmetric]) (rule is_rec_other(1))
    also have "\<dots> = filter is_rec (concat ps)" unfolding ys(2) [symmetric] by (rule filter_weaker [symmetric]) (rule is_rec_other(2))
    finally have rec: "filter is_rec zs = recs_from 0 (take ?j ?xs)" using ps(2) by (simp add: tk)
    have groups: "dx_cgroup_id ` set (transfers steps) \<subseteq> groups_in zs"
      using r(3) ys(5) by (simp flip: zs(2) add: groups_in_filter)
    show ?thesis
    proof (intro exI [of _ w] conjI allI impI w(1))
      fix i :: input assume i: "in_data i = w_file w"
      obtain st where p: "parse_stream c m offs i rstate_init = Some (Stopped (if in_fails i then - 1 else 0) st)" "learnt zs rstate_init (sm_r st)"
        using parse_stream_items [OF zs(3) _ _ assms(8), of i rstate_init m offs] i w(2) zs(1) start_facts(4) by auto
      have "dx_cgroup_id ` set (transfers steps) \<subseteq> dom (rs_cgroup_paths (sm_r st))"
        using subset_trans [OF groups groups_known [of zs Map.empty]] p(2) by (simp add: learnt_def start_facts)
      then show "\<exists>st zs j. parse_stream c m offs i rstate_init = Some (Stopped (if in_fails i then - 1 else 0) st) \<and>
         rs_events (sm_r st) = items_events 0 zs \<and> filter is_rec zs = recs_from 0 (take j ?xs) \<and>
         list_all is_mark (takeWhile (\<lambda>x. \<not> is_clock x) zs) \<and> rs_err_rec (sm_r st) = 0 \<and>
         (\<exists>b. ks_buf s cpu = Some b \<and> cached b = call_records (of_nat j) (drop j ?xs)) \<and>
         dx_cgroup_id ` set (transfers steps) \<subseteq> dom (rs_cgroup_paths (sm_r st))"
        using p rec zs(4) left by (intro exI [of _ st] exI [of _ zs] exI [of _ ?j]) (simp add: learnt_def start_facts)
    qed
  qed
  show ?thesis by (intro exI [of _ d] exI [of _ ms] conjI r(1) allI impI) (elim conjE, rule written)
qed

theorem session_end_to_end_witness:
  "\<exists>w i st zs j. run_writer (session_ops @ [Flush sample_wenv]) writer_init = Inr w \<and> i = \<lparr>in_data = w_file w, in_sizes = [7, 0, 99], in_fails = False\<rparr> \<and>
     parse_stream dlogger_pconf (\<lambda>_. 0) 0 i rstate_init = Some (Stopped 0 st) \<and> rs_events (sm_r st) = items_events 0 zs \<and>
     filter is_rec zs = recs_from 0 (take j [(thread_env 7, 257, RMDIR_EX, WT_RMDIR, Str_long1 1 0),
       (thread_env 8, 257, READ_EX, WT_READ, Long3 3 (oid (sample_tp 8 (\<lambda>_. 3) 64) 3) 64)]) \<and>
     rs_cgroup_paths (sm_r st) 3 \<noteq> None"
proof -
  have pk: "packets session_steps = map rb_bytes (ks_events sample_kernel)" unfolding session_steps_def packets_append by simp
  have ms: "messages session_ops = map rb_bytes (ks_events sample_kernel) @ [emit_cgroup_path 3 ''/a/b'']"
    unfolding session_ops_def by (rule messages_map)
  have sq: "short_seqnum dlogger_pconf" by (simp add: short_seqnum_def dlogger_pconf_def)
  have tr: "transfers (map Packet bs @ [Dxt_event ce e]) = [e]" for bs ce e by (induction bs) auto
  have tr3: "transfers session_steps = [sample_transfer 4 3 100]" unfolding session_steps_def by (rule tr)
  have "(0 :: nat) \<le> 3" by simp
  note all = session_end_to_end [OF sample_run_normal [of True] sample_on_cpu this sample_readable refl pk session_systems sq,
      of "\<lambda>_. 0" 0, unfolded session_run]
  obtain d ms where dm: "Some (\<lparr>d_path_map = Map.empty, d_cgroup_cache = [3 \<mapsto> ''/a/b''], d_dxt = [sample_transfer 4 3 100]\<rparr>,
      map rb_bytes (ks_events sample_kernel) @ [emit_cgroup_path 3 ''/a/b'']) = Some (d :: dstate, ms)" and "\<forall>ops e. messages ops = ms \<and> list_all op_ok ops \<and> system_ok e \<longrightarrow>
      (\<exists>w. run_writer (ops @ [Flush e]) writer_init = Inr w \<and>
        (\<forall>i. in_data i = w_file w \<longrightarrow>
          (\<exists>st zs j. parse_stream dlogger_pconf (\<lambda>_. 0) 0 i rstate_init = Some (Stopped (if in_fails i then - 1 else 0) st) \<and>
            rs_events (sm_r st) = items_events 0 zs \<and> filter is_rec zs = recs_from 0 (take j (trace_calls Map.empty sample_run)) \<and>
            list_all is_mark (takeWhile (\<lambda>x. \<not> is_clock x) zs) \<and> rs_err_rec (sm_r st) = 0 \<and>
            (\<exists>b. ks_buf sample_kernel 0 = Some b \<and> cached b = call_records (of_nat j) (drop j (trace_calls Map.empty sample_run))) \<and>
            dx_cgroup_id ` set (transfers session_steps) \<subseteq> dom (rs_cgroup_paths (sm_r st)))))"
    using all by (elim exE conjE) (rule that)
  note body = this(2) [rule_format, of session_ops sample_wenv]
  have "ms = messages session_ops" using dm unfolding ms by (simp only: option.inject prod.inject)
  then obtain w where w: "run_writer (session_ops @ [Flush sample_wenv]) writer_init = Inr w" and reads: "\<And>i. in_data i = w_file w \<Longrightarrow>
      \<exists>st zs j. parse_stream dlogger_pconf (\<lambda>_. 0) 0 i rstate_init = Some (Stopped (if in_fails i then - 1 else 0) st) \<and>
        rs_events (sm_r st) = items_events 0 zs \<and> filter is_rec zs = recs_from 0 (take j (trace_calls Map.empty sample_run)) \<and>
        list_all is_mark (takeWhile (\<lambda>x. \<not> is_clock x) zs) \<and> rs_err_rec (sm_r st) = 0 \<and>
        (\<exists>b. ks_buf sample_kernel 0 = Some b \<and> cached b = call_records (of_nat j) (drop j (trace_calls Map.empty sample_run))) \<and>
        dx_cgroup_id ` set (transfers session_steps) \<subseteq> dom (rs_cgroup_paths (sm_r st))"
    using body session_ops_ok sample_wenv_ok by blast
  let ?i = "\<lparr>in_data = w_file w, in_sizes = [7, 0, 99], in_fails = False\<rparr>"
  show ?thesis using w reads [of ?i] by (auto simp: sample_calls sample_transfer_def tr3)
qed

end
