(* ===== verification/Mfu_Select.thy ===== *)
theory Mfu_Select
  imports Prelude "HOL-Library.Multiset"
begin

text \<open>
  The selection of the entries that \<open>purgeOld\<close> of \<open>lib/BaseMFUTab.h\<close> removes: a quickselect
  with Hoare's partition over an array of (count, key) pairs between two sentinels. The inner
  loops of the code have no bounds checks; here a scan or a round that reads outside the array is
  \<open>None\<close>, and the lemmas show that it does not happen. The rounds may go on for ever: the loop is
  \<open>None\<close> when they do, \<open>Some None\<close> when one of them reads outside the array, and otherwise
  \<open>Some (Some r)\<close>. The results of \<open>random()\<close> are a parameter.
\<close>

type_synonym 'k keyslot = "nat \<times> 'k"

definition swap :: "nat \<Rightarrow> nat \<Rightarrow> 'a list \<Rightarrow> 'a list" where
  "swap i j xs = xs[i := xs ! j, j := xs ! i]"

function scan_up :: "'k keyslot list \<Rightarrow> nat \<Rightarrow> nat \<Rightarrow> nat option" where
  "scan_up key pc i =
     (if Suc i < length key
      then if fst (key ! Suc i) < pc then scan_up key pc (Suc i) else Some (Suc i)
      else None)"
  by auto
termination by (relation "measure (\<lambda>(key, pc, i). length key - i)") auto

declare scan_up.simps [simp del]

fun scan_down :: "'k keyslot list \<Rightarrow> nat \<Rightarrow> nat \<Rightarrow> nat option" where
  "scan_down key pc 0 = None"
| "scan_down key pc (Suc j) =
     (if j < length key then if pc < fst (key ! j) then scan_down key pc j else Some j else None)"

lemma scan_down_less: "scan_down key pc j = Some j' \<Longrightarrow> j' < j"
  by (induction key pc j rule: scan_down.induct) (auto split: if_splits)

function hoare :: "'k keyslot list \<Rightarrow> nat \<Rightarrow> nat \<Rightarrow> nat \<Rightarrow> ('k keyslot list \<times> nat) option" where
  "hoare key pc i j =
     (case scan_up key pc i of
        None \<Rightarrow> None
      | Some i' \<Rightarrow>
          (case scan_down key pc j of
             None \<Rightarrow> None
           | Some j' \<Rightarrow> if j' \<le> i' then Some (key, j') else hoare (swap i' j' key) pc i' j'))"
  by auto
termination by (relation "measure (\<lambda>(key, pc, i, j). j)") (auto dest: scan_down_less)

declare hoare.simps [simp del]

definition select_step :: "nat \<Rightarrow> nat \<Rightarrow> nat \<Rightarrow> 'k keyslot list \<Rightarrow> ('k keyslot list \<times> nat) option" where
  "select_step r first lst key =
     (if lst \<le> first then None
      else let key1 = swap (first + r mod (lst - first)) first key in
           case hoare key1 (fst (key1 ! first)) first (Suc lst) of
             None \<Rightarrow> None
           | Some (key2, j) \<Rightarrow> Some (swap first j key2, j))"

partial_function (option) select_loop ::
    "(nat \<Rightarrow> nat) \<Rightarrow> nat \<Rightarrow> nat \<Rightarrow> nat \<Rightarrow> nat \<Rightarrow> nat \<Rightarrow> 'k keyslot list
     \<Rightarrow> ('k keyslot list \<times> nat \<times> nat) option option" where
  "select_loop rnd c minR maxR first lst key =
     (if first < minR
      then case select_step (rnd c) first lst key of
             None \<Rightarrow> Some None
           | Some (key', j) \<Rightarrow>
               if maxR \<le> j then select_loop rnd (Suc c) minR maxR first j key'
               else select_loop rnd (Suc c) minR maxR (Suc j) lst key'
      else Some (Some (key, first, c)))"

section \<open>Swapping\<close>

lemma length_swap [simp]: "length (swap i j xs) = length xs"
  by (simp add: swap_def)

lemma nth_swap:
  "i < length xs \<Longrightarrow> j < length xs \<Longrightarrow> x < length xs \<Longrightarrow>
     swap i j xs ! x = (if x = i then xs ! j else if x = j then xs ! i else xs ! x)"
  by (auto simp: swap_def nth_list_update)

lemma mset_swap [simp]: "i < length xs \<Longrightarrow> j < length xs \<Longrightarrow> mset (swap i j xs) = mset xs"
  by (simp add: swap_def mset_swap)

section \<open>The scans\<close>

lemma scan_up_finds:
  assumes "i < k" "k < length key" "pc \<le> fst (key ! k)"
  shows "\<exists>i'. scan_up key pc i = Some i' \<and> i < i' \<and> i' \<le> k \<and> pc \<le> fst (key ! i')
           \<and> (\<forall>x. i < x \<longrightarrow> x < i' \<longrightarrow> fst (key ! x) < pc)"
  using assms
proof (induction key pc i rule: scan_up.induct)
  case (1 key pc i)
  show ?case
  proof (cases "fst (key ! Suc i) < pc")
    case True
    with 1 have "Suc i \<noteq> k" by auto
    with 1(2,3) have k: "Suc i < length key" "Suc i < k" by auto
    obtain i' where i': "scan_up key pc (Suc i) = Some i'" "Suc i < i'" "i' \<le> k"
      "pc \<le> fst (key ! i')" "\<forall>x. Suc i < x \<longrightarrow> x < i' \<longrightarrow> fst (key ! x) < pc"
      using 1(1) [OF k(1) True k(2) 1(3,4)] by blast
    moreover have "\<forall>x. i < x \<longrightarrow> x < i' \<longrightarrow> fst (key ! x) < pc"
      using i'(5) True by (metis Suc_lessI)
    ultimately show ?thesis
      using 1(2,3) True by (subst scan_up.simps) auto
  next
    case False
    then show ?thesis using 1(2,3) by (subst scan_up.simps) auto
  qed
qed

lemma scan_down_finds:
  assumes "k < j" "j \<le> length key" "fst (key ! k) \<le> pc"
  shows "\<exists>j'. scan_down key pc j = Some j' \<and> j' < j \<and> k \<le> j' \<and> fst (key ! j') \<le> pc
           \<and> (\<forall>x. j' < x \<longrightarrow> x < j \<longrightarrow> pc < fst (key ! x))"
  using assms
proof (induction key pc j rule: scan_down.induct)
  case (2 key pc j)
  show ?case
  proof (cases "pc < fst (key ! j)")
    case True
    with 2 have "k < j" by (metis leD less_SucE)
    with 2 True obtain j' where j': "scan_down key pc j = Some j'" "j' < j" "k \<le> j'"
      "fst (key ! j') \<le> pc" "\<forall>x. j' < x \<longrightarrow> x < j \<longrightarrow> pc < fst (key ! x)"
      by (metis Suc_leD Suc_le_lessD)
    moreover have "\<forall>x. j' < x \<longrightarrow> x < Suc j \<longrightarrow> pc < fst (key ! x)"
      using j'(5) True by (metis less_SucE)
    ultimately show ?thesis
      using 2(3) True by auto
  next
    case False
    then show ?thesis using 2(2,3) by auto
  qed
qed simp

section \<open>The partition\<close>

text \<open>
  What the comments in the code state of one partition of \<open>key[first..lst]\<close>: a permutation
  inside that range which leaves everything else alone, split at \<open>j\<close> by the pivot's count.
\<close>

definition rearranged :: "nat \<Rightarrow> nat \<Rightarrow> 'a list \<Rightarrow> 'a list \<Rightarrow> bool" where
  "rearranged a b xs ys \<longleftrightarrow> length ys = length xs \<and> mset ys = mset xs
     \<and> (\<forall>x. x < a \<or> b < x \<longrightarrow> ys ! x = xs ! x)
     \<and> (\<forall>x. a \<le> x \<longrightarrow> x \<le> b \<longrightarrow> (\<exists>y. a \<le> y \<and> y \<le> b \<and> ys ! x = xs ! y))"

lemma rearranged_refl [simp]: "rearranged a b xs xs"
  by (auto simp: rearranged_def)

lemma rearranged_trans:
  "rearranged a b xs ys \<Longrightarrow> rearranged a b ys zs \<Longrightarrow> rearranged a b xs zs"
  unfolding rearranged_def by metis

lemma rearranged_swap:
  assumes "a \<le> i" "i \<le> b" "a \<le> j" "j \<le> b" "b < length xs"
  shows "rearranged a b xs (swap i j xs)"
proof -
  have "swap i j xs ! x = xs ! x" if "x < a \<or> b < x" for x
    using assms that by (auto simp: swap_def)
  moreover have "\<exists>y. a \<le> y \<and> y \<le> b \<and> swap i j xs ! x = xs ! y" if "a \<le> x" "x \<le> b" for x
    using assms that by (simp add: nth_swap) metis
  ultimately show ?thesis using assms by (simp add: rearranged_def)
qed

lemma rearranged_mono:
  assumes "rearranged a b xs ys" "a' \<le> a" "b \<le> b'"
  shows "rearranged a' b' xs ys"
proof -
  have "\<exists>y. a' \<le> y \<and> y \<le> b' \<and> ys ! x = xs ! y" if "a' \<le> x" "x \<le> b'" for x
    using assms that unfolding rearranged_def by (metis le_trans not_le)
  moreover have "ys ! x = xs ! x" if "x < a' \<or> b' < x" for x
    using assms that unfolding rearranged_def by (meson le_trans not_le)
  ultimately show ?thesis
    using assms(1) by (simp add: rearranged_def)
qed

lemma hoare_partitions:
  assumes "first \<le> i" "i < j" "j \<le> Suc lst" "Suc lst < length key"
    and "\<forall>x. first \<le> x \<longrightarrow> x \<le> i \<longrightarrow> fst (key ! x) \<le> pc"
    and "\<forall>x. j \<le> x \<longrightarrow> x \<le> Suc lst \<longrightarrow> pc \<le> fst (key ! x)"
  shows "\<exists>key' j'. hoare key pc i j = Some (key', j') \<and> i \<le> j' \<and> j' < j
           \<and> rearranged (Suc first) lst key key'
           \<and> (\<forall>x. first \<le> x \<longrightarrow> x \<le> j' \<longrightarrow> fst (key' ! x) \<le> pc)
           \<and> (\<forall>x. j' < x \<longrightarrow> x \<le> Suc lst \<longrightarrow> pc \<le> fst (key' ! x))"
  using assms
proof (induction key pc i j rule: hoare.induct)
  case (1 key pc i j)
  have "\<exists>i'. scan_up key pc i = Some i' \<and> i < i' \<and> i' \<le> j \<and> pc \<le> fst (key ! i')
           \<and> (\<forall>x. i < x \<longrightarrow> x < i' \<longrightarrow> fst (key ! x) < pc)"
    by (rule scan_up_finds) (use 1(3-7) in auto)
  then obtain i' where i': "scan_up key pc i = Some i'" "i < i'" "i' \<le> j" "pc \<le> fst (key ! i')"
      "\<forall>x. i < x \<longrightarrow> x < i' \<longrightarrow> fst (key ! x) < pc"
    by blast
  have "\<exists>j'. scan_down key pc j = Some j' \<and> j' < j \<and> i \<le> j' \<and> fst (key ! j') \<le> pc
           \<and> (\<forall>x. j' < x \<longrightarrow> x < j \<longrightarrow> pc < fst (key ! x))"
    by (rule scan_down_finds) (use 1(2-6) in auto)
  then obtain j' where j': "scan_down key pc j = Some j'" "j' < j" "i \<le> j'" "fst (key ! j') \<le> pc"
      "\<forall>x. j' < x \<longrightarrow> x < j \<longrightarrow> pc < fst (key ! x)"
    by blast
  have up: "\<forall>x. first \<le> x \<longrightarrow> x < i' \<longrightarrow> fst (key ! x) \<le> pc"
    using i'(5) 1(6) by (metis less_imp_le not_le)
  have down: "\<forall>x. j' < x \<longrightarrow> x \<le> Suc lst \<longrightarrow> pc \<le> fst (key ! x)"
    using j'(5) 1(7) by (metis less_imp_le not_le)
  show ?case
  proof (cases "j' \<le> i'")
    case True
    have "\<forall>x. first \<le> x \<longrightarrow> x \<le> j' \<longrightarrow> fst (key ! x) \<le> pc"
    proof (intro allI impI)
      fix x assume x: "first \<le> x" "x \<le> j'"
      then show "fst (key ! x) \<le> pc"
        using up [rule_format, of x] j'(4) True by (cases "x = j'") simp_all
    qed
    then show ?thesis
      using i'(1) j'(1-3) True down by (subst hoare.simps) auto
  next
    case False
    let ?key = "swap i' j' key"
    have ord: "i' < j'" "j' \<le> lst" "first < i'" "j' < length key" "i' < length key"
      using False i' j' 1(2,4,5) by auto
    have sw: "?key ! x = (if x = i' then key ! j' else if x = j' then key ! i' else key ! x)"
      if "x < length key" for x
      using ord that by (simp add: nth_swap)
    have lo: "\<forall>x. first \<le> x \<longrightarrow> x \<le> i' \<longrightarrow> fst (?key ! x) \<le> pc"
    proof (intro allI impI)
      fix x assume x: "first \<le> x" "x \<le> i'"
      then show "fst (?key ! x) \<le> pc"
        using up [rule_format, of x] j'(4) ord(1,4) sw [of x] by (cases "x = i'") simp_all
    qed
    have hi: "\<forall>x. j' \<le> x \<longrightarrow> x \<le> Suc lst \<longrightarrow> pc \<le> fst (?key ! x)"
    proof (intro allI impI)
      fix x assume x: "j' \<le> x" "x \<le> Suc lst"
      then show "pc \<le> fst (?key ! x)"
        using down [rule_format, of x] i'(4) ord(1) sw [of x] 1(5) by (cases "x = j'") simp_all
    qed
    obtain key' j'' where r: "hoare ?key pc i' j' = Some (key', j'')" "i' \<le> j''" "j'' < j'"
        "rearranged (Suc first) lst ?key key'"
        "\<forall>x. first \<le> x \<longrightarrow> x \<le> j'' \<longrightarrow> fst (key' ! x) \<le> pc"
        "\<forall>x. j'' < x \<longrightarrow> x \<le> Suc lst \<longrightarrow> pc \<le> fst (key' ! x)"
      using 1(1) [OF i'(1) j'(1) False] ord lo hi 1(5) by auto
    have "rearranged (Suc first) lst key ?key"
      by (rule rearranged_swap) (use ord 1(5) in auto)
    then have "rearranged (Suc first) lst key key'"
      using r(4) by (rule rearranged_trans)
    moreover have "hoare key pc i j = hoare ?key pc i' j'"
      using i'(1) j'(1) False by (subst hoare.simps) simp
    ultimately show ?thesis
      using r i'(2) j'(2) by (intro exI [of _ key'], intro exI [of _ j'']) auto
  qed
qed

lemma hoare_less: "hoare key pc i j = Some (key', j') \<Longrightarrow> j' < j"
proof (induction key pc i j rule: hoare.induct)
  case (1 key pc i j)
  from 1(2) obtain i' j0 where s: "scan_up key pc i = Some i'" "scan_down key pc j = Some j0"
    by (subst (asm) hoare.simps) (auto split: option.splits)
  note less = scan_down_less [OF s(2)]
  show ?case
  proof (cases "j0 \<le> i'")
    case True
    then show ?thesis using 1(2) s less by (subst (asm) hoare.simps) simp
  next
    case False
    then have "hoare (swap i' j0 key) pc i' j0 = Some (key', j')"
      using 1(2) s by (subst (asm) hoare.simps) simp
    from 1(1) [OF s False this] less show ?thesis by simp
  qed
qed

lemma scan_down_stops: "scan_down key pc j = Some j' \<Longrightarrow> fst (key ! j') \<le> pc"
  by (induction key pc j rule: scan_down.induct) (auto split: if_splits)

lemma scan_up_skips:
  "scan_up key pc i = Some i' \<Longrightarrow> i < x \<Longrightarrow> x < i' \<Longrightarrow> fst (key ! x) < pc"
proof (induction key pc i rule: scan_up.induct)
  case (1 key pc i)
  then show ?case
    by (subst (asm) (2) scan_up.simps) (cases "x = Suc i"; auto split: if_splits)
qed

text \<open>The partition ends where it began, at the last element, only if it did nothing.\<close>

lemma hoare_idle:
  assumes "hoare key pc i (Suc lst) = Some (key', lst)"
  shows "key' = key \<and> fst (key ! lst) \<le> pc \<and> (\<forall>x. i < x \<longrightarrow> x < lst \<longrightarrow> fst (key ! x) < pc)"
proof -
  obtain i' j' where s: "scan_up key pc i = Some i'" "scan_down key pc (Suc lst) = Some j'"
    using assms by (subst (asm) hoare.simps) (auto split: option.splits)
  have "j' \<le> i'"
  proof (rule ccontr)
    assume "\<not> j' \<le> i'"
    then have "hoare (swap i' j' key) pc i' j' = Some (key', lst)"
      using assms s by (subst (asm) hoare.simps) simp
    from hoare_less [OF this] scan_down_less [OF s(2)] show False by simp
  qed
  then have "key' = key" "j' = lst"
    using assms s by (simp_all add: hoare.simps [of _ _ _ "Suc lst"])
  with \<open>j' \<le> i'\<close> show ?thesis
    using scan_up_skips [OF s(1)] scan_down_stops [OF s(2)] by auto
qed

section \<open>One round\<close>

text \<open>The invariant the comments state: what is left of \<open>first\<close> is not above what is right of
  it, what is right of \<open>last\<close> is not below what is left of it.\<close>

definition splits :: "nat \<Rightarrow> 'k keyslot list \<Rightarrow> bool" where
  "splits k key \<longleftrightarrow> (\<forall>x y. x < k \<longrightarrow> k \<le> y \<longrightarrow> y < length key \<longrightarrow> fst (key ! x) \<le> fst (key ! y))"

definition select_inv :: "nat \<Rightarrow> nat \<Rightarrow> 'k keyslot list \<Rightarrow> bool" where
  "select_inv first lst key \<longleftrightarrow> Suc lst < length key \<and> splits first key \<and> splits (Suc lst) key"

lemma splitsD: "splits k key \<Longrightarrow> x < k \<Longrightarrow> k \<le> y \<Longrightarrow> y < length key \<Longrightarrow> fst (key ! x) \<le> fst (key ! y)"
  by (simp add: splits_def)

lemma rearrangedD:
  "rearranged a b xs ys \<Longrightarrow> length ys = length xs"
  "rearranged a b xs ys \<Longrightarrow> x < a \<or> b < x \<Longrightarrow> ys ! x = xs ! x"
  "rearranged a b xs ys \<Longrightarrow> a \<le> x \<Longrightarrow> x \<le> b \<Longrightarrow> \<exists>y. a \<le> y \<and> y \<le> b \<and> ys ! x = xs ! y"
  by (auto simp: rearranged_def)

lemma rearranged_source:
  assumes "rearranged a b xs ys"
  obtains y where "ys ! x = xs ! y" "x < a \<or> b < x \<Longrightarrow> y = x" "a \<le> x \<and> x \<le> b \<Longrightarrow> a \<le> y \<and> y \<le> b"
proof (cases "x < a \<or> b < x")
  case True
  then show ?thesis using that [of x] rearrangedD(2) [OF assms] by auto
next
  case False
  then show ?thesis using that rearrangedD(3) [OF assms, of x] by (metis not_le)
qed

lemma splits_rearranged:
  assumes "splits k key" "rearranged a b key key'" "k \<le> a \<or> b < k" "b < length key"
  shows "splits k key'"
  unfolding splits_def
proof (intro allI impI)
  fix x y assume xy: "x < k" "k \<le> y" "y < length key'"
  obtain x' where x': "key' ! x = key ! x'" "x < a \<or> b < x \<Longrightarrow> x' = x" "a \<le> x \<and> x \<le> b \<Longrightarrow> a \<le> x' \<and> x' \<le> b"
    using rearranged_source [OF assms(2)] by metis
  obtain y' where y': "key' ! y = key ! y'" "y < a \<or> b < y \<Longrightarrow> y' = y" "a \<le> y \<and> y \<le> b \<Longrightarrow> a \<le> y' \<and> y' \<le> b"
    using rearranged_source [OF assms(2)] by metis
  have "x' < k" using xy(1) assms(3) x'(2,3) by linarith
  moreover have "k \<le> y'" using xy(2) assms(3) y'(2,3) by linarith
  moreover have "y' < length key"
    using xy(3) assms(4) y'(2,3) rearrangedD(1) [OF assms(2)] by linarith
  ultimately show "fst (key' ! x) \<le> fst (key' ! y)"
    using splitsD [OF assms(1)] x'(1) y'(1) by simp
qed

lemma select_inv_rearranged:
  "select_inv first lst key \<Longrightarrow> rearranged first lst key key' \<Longrightarrow> select_inv first lst key'"
  using splits_rearranged [of first key first lst key'] splits_rearranged [of "Suc lst" key first lst key']
  by (simp add: select_inv_def rearrangedD(1))

lemma select_step_ok:
  assumes "select_inv first lst key" "first < lst"
  shows "\<exists>key' j. select_step r first lst key = Some (key', j) \<and> first \<le> j \<and> j \<le> lst
           \<and> rearranged first lst key key' \<and> splits (Suc j) key'"
proof -
  let ?p = "first + r mod (lst - first)"
  let ?key1 = "swap ?p first key"
  let ?pc = "fst (?key1 ! first)"
  have len: "Suc lst < length key" using assms(1) by (simp add: select_inv_def)
  have "r mod (lst - first) < lst - first" using assms(2) by simp
  then have p: "?p < lst" by linarith
  have r1: "rearranged first lst key ?key1"
    by (rule rearranged_swap) (use p assms(2) len in auto)
  note inv1 = select_inv_rearranged [OF assms(1) r1]
  have piv: "?pc \<le> fst (?key1 ! Suc lst)"
    by (rule splitsD [of "Suc lst"]) (use inv1 assms(2) in \<open>auto simp: select_inv_def\<close>)
  obtain key2 j where h: "hoare ?key1 ?pc first (Suc lst) = Some (key2, j)" "first \<le> j" "j < Suc lst"
      "rearranged (Suc first) lst ?key1 key2"
      "\<forall>x. first \<le> x \<longrightarrow> x \<le> j \<longrightarrow> fst (key2 ! x) \<le> ?pc"
      "\<forall>x. j < x \<longrightarrow> x \<le> Suc lst \<longrightarrow> ?pc \<le> fst (key2 ! x)"
    using hoare_partitions [of first first "Suc lst" lst ?key1 ?pc] assms(2) len piv
    by (auto simp: le_antisym le_Suc_eq)
  let ?key3 = "swap first j key2"
  have len2: "length key2 = length key" using rearrangedD(1) [OF h(4)] by simp
  have r3: "rearranged first j key2 ?key3"
    by (rule rearranged_swap) (use h(2,3) len len2 in auto)
  have all: "rearranged first lst key ?key3"
    using r1 rearranged_mono [OF h(4)] rearranged_mono [OF r3] h(3)
    by (meson le_SucI less_Suc_eq_le order_refl rearranged_trans)
  have inv3: "splits first ?key3" "splits (Suc lst) ?key3"
    using select_inv_rearranged [OF assms(1) all] by (simp_all add: select_inv_def)
  have low: "fst (?key3 ! x) \<le> ?pc" if "first \<le> x" "x \<le> j" for x
    using rearrangedD(3) [OF r3 that] h(5) by metis
  have high: "?pc \<le> fst (?key3 ! x)" if "j < x" "x \<le> lst" for x
    using rearrangedD(2) [OF r3, of x] h(6) that by simp
  have "splits (Suc j) ?key3"
    unfolding splits_def
  proof (intro allI impI)
    fix x y assume xy: "x < Suc j" "Suc j \<le> y" "y < length ?key3"
    consider "x < first" | "first \<le> x" "y \<le> lst" | "first \<le> x" "lst < y" by linarith
    then show "fst (?key3 ! x) \<le> fst (?key3 ! y)"
    proof cases
      case 1
      then show ?thesis using splitsD [OF inv3(1), of x y] xy h(2) by simp
    next
      case 2
      then show ?thesis using low [of x] high [of y] xy by simp
    next
      case 3
      then show ?thesis using splitsD [OF inv3(2), of x y] xy h(3) by simp
    qed
  qed
  then show ?thesis
    using h(1-3) all assms(2)
    by (intro exI [of _ ?key3], intro exI [of _ j]) (simp add: select_step_def Let_def)
qed

text \<open>
  A round that leaves both ends in place has moved a strict maximum to the last place, and
  only a pivot at \<open>first\<close> can do that again.
\<close>

definition topped :: "nat \<Rightarrow> nat \<Rightarrow> 'k keyslot list \<Rightarrow> bool" where
  "topped first lst key \<longleftrightarrow> (\<forall>x. first < x \<longrightarrow> x < lst \<longrightarrow> fst (key ! x) < fst (key ! lst))"

lemma select_step_cases:
  assumes "select_step r first lst key = Some (key', j)" "lst < length key"
  obtains key1 key2 where "key1 = swap (first + r mod (lst - first)) first key" "first < lst"
    "hoare key1 (fst (key1 ! first)) first (Suc lst) = Some (key2, j)" "key' = swap first j key2"
  using assms by (auto simp: select_step_def Let_def split: if_splits option.splits)

lemma select_step_idle:
  assumes "select_step r first lst key = Some (key', lst)" "lst < length key"
  shows "topped first lst key'"
proof -
  from assms obtain key1 key2 where k: "key1 = swap (first + r mod (lst - first)) first key" "first < lst"
    "hoare key1 (fst (key1 ! first)) first (Suc lst) = Some (key2, lst)" "key' = swap first lst key2"
    by (rule select_step_cases)
  with hoare_idle [OF k(3)] assms(2) show ?thesis
    by (auto simp: topped_def nth_swap)
qed

lemma select_step_moves:
  assumes "select_step r first lst key = Some (key', j)" "lst < length key" "topped first lst key"
    and "r mod (lst - first) \<noteq> 0"
  shows "j \<noteq> lst"
proof
  assume "j = lst"
  with assms obtain key1 key2 where k: "key1 = swap (first + r mod (lst - first)) first key" "first < lst"
    "hoare key1 (fst (key1 ! first)) first (Suc lst) = Some (key2, lst)"
    by (metis select_step_cases)
  let ?p = "first + r mod (lst - first)"
  have "r mod (lst - first) < lst - first" using k(2) by simp
  then have p: "first < ?p" "?p < lst" using assms(4) by simp_all
  have "fst (key1 ! lst) \<le> fst (key1 ! first)" using hoare_idle [OF k(3)] by simp
  then have "fst (key ! lst) \<le> fst (key ! ?p)"
    unfolding k(1) using p assms(2) by (simp add: nth_swap)
  then show False using assms(3) p by (metis topped_def leD)
qed

section \<open>The loop\<close>

text \<open>What termination needs of the random numbers: no residue stays zero for ever.\<close>

definition fair :: "(nat \<Rightarrow> nat) \<Rightarrow> bool" where
  "fair rnd \<longleftrightarrow> (\<forall>c m. 2 \<le> m \<longrightarrow> (\<exists>d. rnd (c + d) mod m \<noteq> 0))"

definition selects :: "nat \<Rightarrow> nat \<Rightarrow> nat \<Rightarrow> nat \<Rightarrow> 'k keyslot list \<Rightarrow> ('k keyslot list \<times> nat \<times> nat) option option \<Rightarrow> bool" where
  "selects minR maxR first lst key res \<longleftrightarrow>
     (\<exists>key' k c. res = Some (Some (key', k, c)) \<and> minR \<le> k \<and> k \<le> maxR \<and> rearranged first lst key key' \<and> splits k key')"

lemma selects_mono:
  assumes "selects minR maxR a b key' res" "rearranged first lst key key'" "first \<le> a" "b \<le> lst"
  shows "selects minR maxR first lst key res"
  using assms rearranged_mono rearranged_trans unfolding selects_def by metis

lemma select_loop_step:
  assumes "select_step (rnd c) first lst key = Some (key', j)" "first < minR"
  shows "select_loop rnd c minR maxR first lst key =
           (if maxR \<le> j then select_loop rnd (Suc c) minR maxR first j key'
            else select_loop rnd (Suc c) minR maxR (Suc j) lst key')"
  using assms by (subst select_loop.simps) simp

text \<open>A round that moves one of the ends leaves a smaller range to select from.\<close>

lemma select_progress:
  fixes key :: "'k keyslot list"
  assumes smaller: "\<And>a b (key' :: 'k keyslot list) c. b - a < lst - first \<Longrightarrow> select_inv a b key' \<Longrightarrow> a \<le> maxR \<Longrightarrow> maxR \<le> b \<Longrightarrow>
        selects minR maxR a b key' (select_loop rnd c minR maxR a b key')"
    and inv: "select_inv first lst key" and ends: "first < minR" "minR < maxR" "maxR \<le> lst"
    and st: "select_step (rnd c) first lst key = Some (key', j)" "j \<noteq> lst"
  shows "selects minR maxR first lst key (select_loop rnd c minR maxR first lst key)"
proof -
  have less: "first < lst" using ends by simp
  from select_step_ok [OF inv less, of "rnd c"] st(1)
  have r: "first \<le> j" "j \<le> lst" "rearranged first lst key key'" "splits (Suc j) key'" by auto
  have "select_inv first j key'" "select_inv (Suc j) lst key'"
    using select_inv_rearranged [OF inv r(3)] r(2,4) by (auto simp: select_inv_def)
  then have "maxR \<le> j \<Longrightarrow> selects minR maxR first j key' (select_loop rnd (Suc c) minR maxR first j key')"
    "\<not> maxR \<le> j \<Longrightarrow> selects minR maxR (Suc j) lst key' (select_loop rnd (Suc c) minR maxR (Suc j) lst key')"
    using smaller [of j first key' "Suc c"] smaller [of lst "Suc j" key' "Suc c"] r(1,2) st(2) ends by auto
  then show ?thesis
    unfolding select_loop_step [where rnd = rnd, OF st(1) ends(1)] using selects_mono [OF _ r(3)] r(1,2)
    by (auto split: if_splits)
qed

lemma select_loop_idle:
  assumes "select_step (rnd c) first lst key = Some (key', lst)" "rearranged first lst key key'"
    and "first < minR" "maxR \<le> lst"
    and "selects minR maxR first lst key' (select_loop rnd (Suc c) minR maxR first lst key')"
  shows "selects minR maxR first lst key (select_loop rnd c minR maxR first lst key)"
  using select_loop_step [where rnd = rnd and maxR = maxR, OF assms(1,3)] selects_mono [OF assms(5,2)] assms(4) by simp

text \<open>Once a maximum is at the end, the next pivot elsewhere than at \<open>first\<close> moves an end.\<close>

lemma select_topped:
  fixes key :: "'k keyslot list"
  assumes smaller: "\<And>a b (key' :: 'k keyslot list) c. b - a < lst - first \<Longrightarrow> select_inv a b key' \<Longrightarrow> a \<le> maxR \<Longrightarrow> maxR \<le> b \<Longrightarrow>
        selects minR maxR a b key' (select_loop rnd c minR maxR a b key')"
    and ends: "first < minR" "minR < maxR" "maxR \<le> lst"
    and "select_inv first lst key" "topped first lst key" "rnd (c + d) mod (lst - first) \<noteq> 0"
  shows "selects minR maxR first lst key (select_loop rnd c minR maxR first lst key)"
  using assms(5-)
proof (induction d arbitrary: c key)
  case 0
  have len: "lst < length key" and less: "first < lst" using 0(1) ends by (auto simp: select_inv_def)
  obtain key' j where st: "select_step (rnd c) first lst key = Some (key', j)"
    using select_step_ok [OF 0(1) less] by blast
  show ?case
    using select_progress [where rnd = rnd, OF smaller 0(1) ends st] select_step_moves [OF st len 0(2)] 0(3) by simp
next
  case (Suc d)
  have len: "lst < length key" and less: "first < lst" using Suc.prems(1) ends by (auto simp: select_inv_def)
  obtain key' j where st: "select_step (rnd c) first lst key = Some (key', j)" "rearranged first lst key key'"
    using select_step_ok [OF Suc.prems(1) less] by blast
  show ?case
  proof (cases "j = lst")
    case False
    then show ?thesis using select_progress [where rnd = rnd, OF smaller Suc.prems(1) ends st(1)] by simp
  next
    case True
    have "selects minR maxR first lst key' (select_loop rnd (Suc c) minR maxR first lst key')"
      by (rule Suc.IH) (use Suc.prems(3) select_inv_rearranged [OF Suc.prems(1) st(2)]
          select_step_idle [OF st(1) [unfolded True] len] in auto)
    then show ?thesis using select_loop_idle [where rnd = rnd, OF st(1) [unfolded True] st(2)] ends by simp
  qed
qed

lemma select_loop_ok:
  assumes "fair rnd" "minR < maxR" "select_inv first lst key" "first \<le> maxR" "maxR \<le> lst"
  shows "selects minR maxR first lst key (select_loop rnd c minR maxR first lst key)"
  using assms(3-)
proof (induction "lst - first" arbitrary: first lst key c rule: less_induct)
  case less
  show ?case
  proof (cases "first < minR")
    case False
    then show ?thesis
      using less.prems by (subst select_loop.simps) (auto simp: selects_def select_inv_def)
  next
    case True
    then have w: "2 \<le> lst - first" "first < lst" using assms(2) less.prems by auto
    note ends = True assms(2) less.prems(3)
    have len: "lst < length key" using less.prems(1) by (simp add: select_inv_def)
    obtain key' j where st: "select_step (rnd c) first lst key = Some (key', j)" "rearranged first lst key key'"
      using select_step_ok [OF less.prems(1) w(2)] by blast
    show ?thesis
    proof (cases "j = lst")
      case False
      then show ?thesis using select_progress [where rnd = rnd, OF less.hyps less.prems(1) ends st(1)] by simp
    next
      case eq: True
      obtain d where d: "rnd (Suc c + d) mod (lst - first) \<noteq> 0"
        using assms(1) w(1) unfolding fair_def by blast
      have "selects minR maxR first lst key' (select_loop rnd (Suc c) minR maxR first lst key')"
        using less.hyps ends select_inv_rearranged [OF less.prems(1) st(2)]
          select_step_idle [OF st(1) [unfolded eq] len] d
        by (rule select_topped)
      then show ?thesis using select_loop_idle [where rnd = rnd, OF st(1) [unfolded eq] st(2)] ends by simp
    qed
  qed
qed

lemma rearranged_between:
  assumes "rearranged 1 (length mid) (lo # mid @ [hi]) key'"
  shows "\<exists>mid'. key' = lo # mid' @ [hi] \<and> mset mid' = mset mid"
proof -
  note same = rearrangedD(1,2) [OF assms]
  have len: "length key' = Suc (Suc (length mid))" using same(1) by simp
  have hd: "key' = lo # tl key'"
    using same(2) [of 0] len by (cases key') auto
  have lt: "length (tl key') = Suc (length mid)" using len by simp
  then have ne: "tl key' \<noteq> []" by (metis list.size(3) nat.distinct(1))
  have "tl key' ! length mid = hi"
    using same(2) [of "Suc (length mid)"] hd by (metis lessI nth_Cons_Suc nth_append_length)
  then have "last (tl key') = hi" using lt ne by (simp add: last_conv_nth)
  then have eq: "key' = lo # butlast (tl key') @ [hi]"
    using hd ne by (metis append_butlast_last_id)
  have "mset key' = mset (lo # mid @ [hi])" using assms by (simp add: rearranged_def)
  then have "mset (butlast (tl key')) = mset mid" by (subst (asm) eq) simp
  with eq show ?thesis by blast
qed

text \<open>Between a least and a greatest sentinel the loop needs no bounds checks.\<close>

lemma select_between_sentinels:
  fixes mid :: "'k keyslot list"
  assumes "fair rnd" "1 \<le> minR" "minR < maxR" "maxR \<le> length mid"
    and ends: "\<forall>s\<in>set mid. fst lo \<le> fst s \<and> fst s \<le> fst hi" "fst lo \<le> fst hi"
  obtains mid' k c' where
    "select_loop rnd c minR maxR 1 (length mid) (lo # mid @ [hi]) = Some (Some (lo # mid' @ [hi], k, c'))"
    "mset mid' = mset mid" "minR \<le> k" "k \<le> maxR"
    "\<forall>a\<in>set (take (k - 1) mid'). \<forall>b\<in>set (drop (k - 1) mid'). fst a \<le> fst b"
proof -
  let ?key = "lo # mid @ [hi]"
  have at: "fst lo \<le> fst (?key ! x) \<and> fst (?key ! x) \<le> fst hi" if "x < length ?key" for x
    using nth_mem [OF that] ends by auto
  have "splits 1 ?key"
    unfolding splits_def
  proof (intro allI impI)
    fix x y assume "x < (1 :: nat)" "y < length ?key"
    then show "fst (?key ! x) \<le> fst (?key ! y)" using at [of y] by simp
  qed
  moreover have "splits (Suc (length mid)) ?key"
    unfolding splits_def
  proof (intro allI impI)
    fix x y assume xy: "x < Suc (length mid)" "Suc (length mid) \<le> y" "y < length ?key"
    then have "y = Suc (length mid)" by simp
    then have "?key ! y = hi" by simp
    with at [of x] xy show "fst (?key ! x) \<le> fst (?key ! y)" by simp
  qed
  ultimately have inv: "select_inv 1 (length mid) ?key" by (simp add: select_inv_def)
  obtain key' k c' where r: "select_loop rnd c minR maxR 1 (length mid) ?key = Some (Some (key', k, c'))"
      "minR \<le> k" "k \<le> maxR" "rearranged 1 (length mid) ?key key'" "splits k key'"
    using select_loop_ok [OF assms(1,3) inv, of c] assms(2-4) by (auto simp: selects_def)
  obtain mid' where key': "key' = lo # mid' @ [hi]" and ms: "mset mid' = mset mid"
    using rearranged_between [OF r(4)] by blast
  have "fst a \<le> fst b" if ab: "a \<in> set (take (k - 1) mid')" "b \<in> set (drop (k - 1) mid')" for a b
  proof -
    obtain x where "x < length (take (k - 1) mid')" "take (k - 1) mid' ! x = a"
      using ab(1) unfolding in_set_conv_nth by blast
    then have x: "x < k - 1" "x < length mid'" "a = mid' ! x" by auto
    obtain y where "y < length (drop (k - 1) mid')" "drop (k - 1) mid' ! y = b"
      using ab(2) unfolding in_set_conv_nth by blast
    then have y: "k - 1 + y < length mid'" "b = mid' ! (k - 1 + y)" by auto
    have "fst (key' ! Suc x) \<le> fst (key' ! Suc (k - 1 + y))"
      by (rule splitsD [OF r(5)]) (use x y key' in auto)
    then show ?thesis using x y key' by (simp add: nth_append)
  qed
  with that [of mid' k c'] r(1-3) key' ms show ?thesis by blast
qed

end
