(* ===== verification/Mfu_Table.thy ===== *)
theory Mfu_Table
  imports Mfu_Select
begin

text \<open>
  The bounded table of \<open>lib/BaseMFUTab.h\<close> and \<open>lib/MFUData.h\<close> that keeps the most frequently
  used entries, in the variant without decay that the consumer uses. The entries are listed in
  the order in which the hash table iterates over them; where a new entry lands in that order is
  the parameter \<open>ord\<close>, the results of \<open>random()\<close> are the parameter \<open>rnd\<close>, and \<open>bits\<close> is the
  width of the count field (15 for a table, 31 for a set). \<open>mt_shrunk\<close> lists the entries handed
  to the \<open>shrink\<close> callback. A purge is \<open>None\<close> when its selection never ends and \<open>Some None\<close> when
  it reads outside its array, and an insertion that purges is the same.
\<close>

section \<open>Entries\<close>

record 'd mfu_data =
  md_data :: 'd
  md_pinned :: bool
  md_count :: nat

definition MFUData :: "'d \<Rightarrow> bool \<Rightarrow> 'd mfu_data" where
  "MFUData d pin = \<lparr>md_data = d, md_pinned = pin, md_count = 1\<rparr>"

definition set_count :: "nat \<Rightarrow> nat \<Rightarrow> 'd mfu_data \<Rightarrow> 'd mfu_data" where
  "set_count bits c d = d\<lparr>md_count := c mod 2 ^ bits\<rparr>"

definition maxCount :: "nat \<Rightarrow> nat" where
  "maxCount bits = 2 ^ bits - 1"

section \<open>The table\<close>

record ('k, 'd) mfu_table =
  mt_maxSize :: nat
  mt_misses :: nat
  mt_accesses :: nat
  mt_maxCount :: nat
  mt_htab :: "('k \<times> 'd mfu_data) list"
  mt_draws :: nat
  mt_shrunk :: "('k \<times> 'd mfu_data) list"

definition UINT_MAX :: nat where
  "UINT_MAX = 2 ^ 32 - 1"

definition mfu_init :: "nat \<Rightarrow> ('k, 'd) mfu_table" where
  "mfu_init maxsz = \<lparr>mt_maxSize = (if 8 \<le> maxsz then maxsz else 256), mt_misses = 0, mt_accesses = 0,
     mt_maxCount = 0, mt_htab = [], mt_draws = 0, mt_shrunk = []\<rparr>"

definition on_entry :: "'k \<Rightarrow> ('d mfu_data \<Rightarrow> 'd mfu_data) \<Rightarrow> ('k \<times> 'd mfu_data) list \<Rightarrow> ('k \<times> 'd mfu_data) list" where
  "on_entry k f = map (\<lambda>(k', d). (k', if k' = k then f d else d))"

definition halveCount :: "nat \<Rightarrow> ('k, 'd) mfu_table \<Rightarrow> ('k, 'd) mfu_table" where
  "halveCount bits t =
     (let half = map (\<lambda>(k, d). (k, (md_count d + 1) div 2)) (mt_htab t) in
      t\<lparr>mt_misses := (mt_misses t + 1) mod 2 ^ 32 div 2,
        mt_accesses := (mt_accesses t + 1) mod 2 ^ 32 div 2,
        mt_htab := map (\<lambda>(k, d). (k, set_count bits ((md_count d + 1) div 2) d)) (mt_htab t),
        mt_maxCount := fold (\<lambda>(k, c) rv. max rv c) half 0\<rparr>)"

definition updateAcc :: "nat \<Rightarrow> nat \<Rightarrow> nat \<Rightarrow> ('k, 'd) mfu_table \<Rightarrow> ('k, 'd) mfu_table" where
  "updateAcc bits acc miss t =
     (let t' = if UINT_MAX - acc \<le> mt_accesses t then halveCount bits t else t in
      t'\<lparr>mt_misses := (mt_misses t' + miss) mod 2 ^ 32, mt_accesses := (mt_accesses t' + acc) mod 2 ^ 32\<rparr>)"

text \<open>The count of a found entry goes up by one, and all counts are halved before one can overflow.\<close>

definition bump :: "nat \<Rightarrow> 'k \<Rightarrow> ('k, 'd) mfu_table \<Rightarrow> ('k, 'd) mfu_table" where
  "bump bits k t =
     (let t1 = t\<lparr>mt_htab := on_entry k (\<lambda>d. set_count bits (md_count d + 1) d) (mt_htab t)\<rparr> in
      case map_of (mt_htab t1) k of
        None \<Rightarrow> t1
      | Some d \<Rightarrow>
          if mt_maxCount t1 < md_count d
          then let t2 = t1\<lparr>mt_maxCount := (mt_maxCount t1 + 1) mod 2 ^ 32\<rparr> in
               if maxCount bits - 3 < mt_maxCount t2 then halveCount bits t2 else t2
          else t1)"

definition mfu_lookup :: "nat \<Rightarrow> 'k \<Rightarrow> ('k, 'd) mfu_table \<Rightarrow> 'd mfu_data option \<times> ('k, 'd) mfu_table" where
  "mfu_lookup bits k t =
     (case map_of (mt_htab t) k of
        None \<Rightarrow> (None, updateAcc bits 1 1 t)
      | Some _ \<Rightarrow> let t' = bump bits k (updateAcc bits 1 0 t) in (map_of (mt_htab t') k, t'))"

definition lookupData :: "nat \<Rightarrow> 'd \<Rightarrow> 'k \<Rightarrow> ('k, 'd) mfu_table \<Rightarrow> 'd \<times> ('k, 'd) mfu_table" where
  "lookupData bits dflt k t =
     (case mfu_lookup bits k t of
        (None, t') \<Rightarrow> (dflt, t')
      | (Some d, t') \<Rightarrow> (md_data d, t'))"

definition mfu_remove :: "'k \<Rightarrow> bool \<Rightarrow> ('k, 'd) mfu_table \<Rightarrow> 'd mfu_data option \<times> ('k, 'd) mfu_table" where
  "mfu_remove k force t =
     (case map_of (mt_htab t) k of
        None \<Rightarrow> (None, t)
      | Some d \<Rightarrow>
          if \<not> md_pinned d \<or> force
          then (Some d, t\<lparr>mt_maxSize := (if md_pinned d then (mt_maxSize t + 2 ^ 32 - 1) mod 2 ^ 32 else mt_maxSize t),
                          mt_htab := filter (\<lambda>(k', _). k' \<noteq> k) (mt_htab t)\<rparr>)
          else (None, t))"

section \<open>Purging\<close>

definition npinned :: "('k \<times> 'd mfu_data) list \<Rightarrow> nat" where
  "npinned h = length (filter (\<lambda>(_, d). md_pinned d) h)"

definition purge_zeros :: "('k, 'd) mfu_table \<Rightarrow> ('k, 'd) mfu_table" where
  "purge_zeros t =
     t\<lparr>mt_htab := filter (\<lambda>(_, d). md_pinned d \<or> md_count d \<noteq> 0) (mt_htab t),
       mt_shrunk := mt_shrunk t @ filter (\<lambda>(_, d). \<not> md_pinned d \<and> md_count d = 0) (mt_htab t)\<rparr>"

definition purge_room :: "('k, 'd) mfu_table \<Rightarrow> nat" where
  "purge_room t = (mt_maxSize t + 2 ^ 32 - npinned (mt_htab t)) mod 2 ^ 32"

definition targetMax :: "('k, 'd) mfu_table \<Rightarrow> nat" where
  "targetMax t = 55 * purge_room t div 100"

definition targetMin :: "('k, 'd) mfu_table \<Rightarrow> nat" where
  "targetMin t = 45 * purge_room t div 100"

text \<open>The array of counts and keys, between the two sentinels; its counts have 15 bits.\<close>

definition key_array :: "nat \<Rightarrow> ('k \<times> 'd mfu_data) list \<Rightarrow> 'k option keyslot list" where
  "key_array bits h =
     (0, None) # map (\<lambda>(k, d). (md_count d mod 2 ^ 15, Some k)) (filter (\<lambda>(_, d). \<not> md_pinned d) h)
     @ [(maxCount bits mod 2 ^ 15, None)]"

definition purge_key :: "'k option \<Rightarrow> ('k, 'd) mfu_table \<Rightarrow> ('k, 'd) mfu_table" where
  "purge_key ky t =
     (case ky of
        None \<Rightarrow> t
      | Some k \<Rightarrow> (case mfu_remove k False t of
                     (None, t') \<Rightarrow> t'
                   | (Some d, t') \<Rightarrow> t'\<lparr>mt_shrunk := mt_shrunk t' @ [(k, d)]\<rparr>))"

definition purge_selected :: "nat \<Rightarrow> (nat \<Rightarrow> nat) \<Rightarrow> ('k, 'd) mfu_table \<Rightarrow> ('k, 'd) mfu_table option option" where
  "purge_selected bits rnd t =
     (let n = length (mt_htab t) - npinned (mt_htab t) + 2 in
      map_option (map_option (\<lambda>(key, first, c).
          fold (\<lambda>s. purge_key (snd s)) (take (first - 1) (drop 1 key)) (t\<lparr>mt_draws := c\<rparr>)))
        (select_loop rnd (mt_draws t) (n - targetMax t - 1) (n - targetMin t - 1) 1 (n - 2)
           (key_array bits (mt_htab t))))"

definition reset_counts :: "nat \<Rightarrow> ('k, 'd) mfu_table \<Rightarrow> ('k, 'd) mfu_table" where
  "reset_counts bits t = t\<lparr>mt_htab := map (\<lambda>(k, d). (k, set_count bits 1 d)) (mt_htab t)\<rparr>"

definition purgeOld :: "nat \<Rightarrow> (nat \<Rightarrow> nat) \<Rightarrow> ('k, 'd) mfu_table \<Rightarrow> ('k, 'd) mfu_table option option" where
  "purgeOld bits rnd t =
     (let t1 = purge_zeros t in
      map_option (map_option (reset_counts bits))
        (if targetMax t1 \<le> length (mt_htab t1) - npinned (mt_htab t1) then purge_selected bits rnd t1
         else Some (Some t1)))"

section \<open>Insertion\<close>

type_synonym ('k, 'd) hash_order = "('k \<times> 'd mfu_data) list \<Rightarrow> ('k \<times> 'd mfu_data) list"

definition emplace :: "('k, 'd) hash_order \<Rightarrow> 'k \<Rightarrow> 'd mfu_data \<Rightarrow> ('k, 'd) mfu_table \<Rightarrow> ('k, 'd) mfu_table" where
  "emplace ord k d t = t\<lparr>mt_htab := ord ((k, d) # mt_htab t)\<rparr>"

definition mfu_insert :: "nat \<Rightarrow> ('k, 'd) hash_order \<Rightarrow> (nat \<Rightarrow> nat) \<Rightarrow> 'k \<Rightarrow> 'd \<Rightarrow> bool \<Rightarrow> bool
    \<Rightarrow> ('k, 'd) mfu_table \<Rightarrow> (bool \<times> ('k, 'd) mfu_table) option option" where
  "mfu_insert bits ord rnd k d pin upd t =
     (case map_of (mt_htab t) k of
        Some _ \<Rightarrow>
          let t' = bump bits k (updateAcc bits 1 0 t) in
          Some (Some (False, if upd then t'\<lparr>mt_htab := on_entry k (\<lambda>e. e\<lparr>md_data := d\<rparr>) (mt_htab t')\<rparr> else t'))
      | None \<Rightarrow>
          let t' = updateAcc bits 1 1 t in
          map_option (map_option (\<lambda>t''. (True, emplace ord k (MFUData d pin) t'')))
            (if pin then Some (Some (t'\<lparr>mt_maxSize := (mt_maxSize t' + 1) mod 2 ^ 32\<rparr>))
             else if mt_maxSize t' \<le> length (mt_htab t') then purgeOld bits rnd t'
             else Some (Some t')))"

definition mfu_update :: "nat \<Rightarrow> ('k, 'd) hash_order \<Rightarrow> (nat \<Rightarrow> nat) \<Rightarrow> 'k \<Rightarrow> 'd \<Rightarrow> bool
    \<Rightarrow> ('k, 'd) mfu_table \<Rightarrow> (bool \<times> ('k, 'd) mfu_table) option option" where
  "mfu_update bits ord rnd k d pin t = mfu_insert bits ord rnd k d pin True t"

definition insertWithCount :: "nat \<Rightarrow> ('k, 'd) hash_order \<Rightarrow> (nat \<Rightarrow> nat) \<Rightarrow> 'k \<Rightarrow> 'd \<Rightarrow> nat \<Rightarrow> bool
    \<Rightarrow> ('k, 'd) mfu_table \<Rightarrow> (bool \<times> ('k, 'd) mfu_table) option option" where
  "insertWithCount bits ord rnd k d initVal upd t =
     (let c = if initVal = 0 then 1 else initVal in
      case map_of (mt_htab t) k of
        Some _ \<Rightarrow>
          let t' = updateAcc bits 1 0 t;
              t'' = t'\<lparr>mt_htab := on_entry k (set_count bits c) (mt_htab t')\<rparr> in
          Some (Some (False, if upd then t''\<lparr>mt_htab := on_entry k (\<lambda>e. e\<lparr>md_data := d\<rparr>) (mt_htab t'')\<rparr> else t''))
      | None \<Rightarrow>
          let t' = updateAcc bits 1 1 t in
          map_option (map_option (\<lambda>t''. (True, emplace ord k (set_count bits c (MFUData d False)) t'')))
            (if mt_maxSize t' \<le> length (mt_htab t') then purgeOld bits rnd t' else Some (Some t')))"

definition set_insert :: "('k, unit) hash_order \<Rightarrow> (nat \<Rightarrow> nat) \<Rightarrow> 'k \<Rightarrow> bool
    \<Rightarrow> ('k, unit) mfu_table \<Rightarrow> (bool \<times> ('k, unit) mfu_table) option option" where
  "set_insert ord rnd k pin t = mfu_insert 31 ord rnd k () pin False t"

definition set_contains :: "'k \<Rightarrow> ('k, unit) mfu_table \<Rightarrow> bool \<times> ('k, unit) mfu_table" where
  "set_contains k t = (case mfu_lookup 31 k t of (d, t') \<Rightarrow> (d \<noteq> None, t'))"

definition set_lookup :: "'k \<Rightarrow> ('k, unit) mfu_table \<Rightarrow> int \<times> ('k, unit) mfu_table" where
  "set_lookup k t = (case mfu_lookup 31 k t of (d, t') \<Rightarrow> (case d of None \<Rightarrow> - 1 | Some e \<Rightarrow> int (md_count e), t'))"

end
