(* ===== verification/Mfu_Props.thy ===== *)
theory Mfu_Props
  imports Mfu_Table
begin

text \<open>
  What the bounded table promises: its invariant and that every operation keeps it, what a
  purge removes, and the contract under which the consumer uses its tables.
\<close>

section \<open>What counting leaves alone\<close>

definition skeleton :: "('k \<times> 'd mfu_data) list \<Rightarrow> ('k \<times> 'd \<times> bool) list" where
  "skeleton h = map (\<lambda>(k, d). (k, md_data d, md_pinned d)) h"

definition contents :: "('k, 'd) mfu_table \<Rightarrow> 'k \<Rightarrow> 'd option" where
  "contents t k = map_option md_data (map_of (mt_htab t) k)"

definition pinned_keys :: "('k, 'd) mfu_table \<Rightarrow> 'k set" where
  "pinned_keys t = {k. \<exists>d. (k, d) \<in> set (mt_htab t) \<and> md_pinned d}"

lemma skeleton_keys: "map fst (skeleton h) = map fst h"
  by (simp add: skeleton_def case_prod_unfold)

lemma skeleton_eqD:
  fixes h h' :: "('k \<times> 'd mfu_data) list"
  assumes "skeleton h = skeleton h'"
  shows "map fst h = map fst h'" "length h = length h'" "npinned h = npinned h'"
    "map_option md_data (map_of h k) = map_option md_data (map_of h' k)"
    "(\<exists>d. (k, d) \<in> set h \<and> md_pinned d) \<longleftrightarrow> (\<exists>d. (k, d) \<in> set h' \<and> md_pinned d)"
proof -
  show "map fst h = map fst h'" "length h = length h'"
    using assms skeleton_keys by (metis length_map)+
  have "npinned h = length (filter (\<lambda>(_, _, p). p) (skeleton h))" for h :: "('k \<times> 'd mfu_data) list"
    by (simp add: npinned_def skeleton_def filter_map comp_def case_prod_unfold)
  with assms show "npinned h = npinned h'" by metis
  have "map_option md_data (map_of h k) = map_option fst (map_of (skeleton h) k)" for h :: "('k \<times> 'd mfu_data) list"
    by (induction h) (auto simp: skeleton_def)
  with assms show "map_option md_data (map_of h k) = map_option md_data (map_of h' k)" by metis
  have "(\<exists>d. (k, d) \<in> set h \<and> md_pinned d) \<longleftrightarrow> (\<exists>v. (k, v, True) \<in> set (skeleton h))" for h :: "('k \<times> 'd mfu_data) list"
    by (force simp: skeleton_def)
  with assms show "(\<exists>d. (k, d) \<in> set h \<and> md_pinned d) \<longleftrightarrow> (\<exists>d. (k, d) \<in> set h' \<and> md_pinned d)" by metis
qed

lemma set_count_simps [simp]:
  "md_data (set_count bits c d) = md_data d" "md_pinned (set_count bits c d) = md_pinned d"
  "md_count (set_count bits c d) = c mod 2 ^ bits"
  by (simp_all add: set_count_def)

lemma skeleton_map_count:
  "(\<And>k d. md_data (f k d) = md_data d \<and> md_pinned (f k d) = md_pinned d) \<Longrightarrow>
     skeleton (map (\<lambda>(k, d). (k, f k d)) h) = skeleton h"
  by (simp add: skeleton_def case_prod_unfold comp_def)

lemma halveCount_skeleton [simp]: "skeleton (mt_htab (halveCount bits t)) = skeleton (mt_htab t)"
  by (simp add: halveCount_def Let_def skeleton_map_count)

lemma updateAcc_skeleton [simp]: "skeleton (mt_htab (updateAcc bits a m t)) = skeleton (mt_htab t)"
  by (simp add: updateAcc_def Let_def)

lemma bump_skeleton [simp]: "skeleton (mt_htab (bump bits k t)) = skeleton (mt_htab t)"
  by (simp add: bump_def Let_def on_entry_def skeleton_map_count split: option.split)

lemma halveCount_rest [simp]:
  "mt_maxSize (halveCount bits t) = mt_maxSize t" "mt_draws (halveCount bits t) = mt_draws t"
  "mt_shrunk (halveCount bits t) = mt_shrunk t"
  by (simp_all add: halveCount_def Let_def)

lemma updateAcc_rest [simp]:
  "mt_maxSize (updateAcc bits a m t) = mt_maxSize t" "mt_draws (updateAcc bits a m t) = mt_draws t"
  "mt_shrunk (updateAcc bits a m t) = mt_shrunk t"
  by (simp_all add: updateAcc_def Let_def)

lemma bump_rest [simp]:
  "mt_maxSize (bump bits k t) = mt_maxSize t" "mt_draws (bump bits k t) = mt_draws t"
  "mt_shrunk (bump bits k t) = mt_shrunk t"
  by (simp_all add: bump_def Let_def split: option.split)

section \<open>The invariant\<close>

text \<open>The part of the invariant about the shape of the table, which only its skeleton matters to,
  and the part about the counters.\<close>

definition shape_inv :: "('k, 'd) mfu_table \<Rightarrow> bool" where
  "shape_inv t \<longleftrightarrow> distinct (map fst (mt_htab t)) \<and> length (mt_htab t) \<le> mt_maxSize t \<and> mt_maxSize t < 2 ^ 32
     \<and> npinned (mt_htab t) + 8 \<le> mt_maxSize t \<and> mt_maxSize t \<noteq> npinned (mt_htab t) + 9"

definition count_inv :: "nat \<Rightarrow> ('k, 'd) mfu_table \<Rightarrow> bool" where
  "count_inv bits t \<longleftrightarrow> (\<forall>(k, d) \<in> set (mt_htab t). 1 \<le> md_count d \<and> md_count d \<le> mt_maxCount t + 1)
     \<and> mt_maxCount t \<le> maxCount bits - 3 \<and> mt_misses t \<le> mt_accesses t \<and> mt_accesses t < UINT_MAX"

definition mfu_inv :: "nat \<Rightarrow> ('k, 'd) mfu_table \<Rightarrow> bool" where
  "mfu_inv bits t \<longleftrightarrow> shape_inv t \<and> count_inv bits t"

definition width_ok :: "nat \<Rightarrow> bool" where
  "width_ok bits \<longleftrightarrow> 15 \<le> bits \<and> bits \<le> 31"

lemma shape_inv_skeleton:
  assumes "skeleton (mt_htab t') = skeleton (mt_htab t)" "mt_maxSize t' = mt_maxSize t" "shape_inv t"
  shows "shape_inv t'"
  using skeleton_eqD(1-3) [OF assms(1)] assms(2,3) by (simp add: shape_inv_def)

lemma width_bounds:
  assumes "width_ok bits"
  shows "32767 \<le> maxCount bits \<and> maxCount bits < 2 ^ 31"
proof -
  have "(2 :: nat) ^ 15 \<le> 2 ^ bits" "(2 :: nat) ^ bits \<le> 2 ^ 31"
    by (rule power_increasing; use assms in \<open>simp add: width_ok_def\<close>)+
  then show ?thesis unfolding maxCount_def by simp linarith
qed

lemma mod_width: "c \<le> maxCount bits \<Longrightarrow> c mod 2 ^ bits = c"
  by (rule mod_less) (metis maxCount_def One_nat_def Suc_pred le_imp_less_Suc zero_less_numeral zero_less_power)

text \<open>Halving leaves the largest count in \<open>mt_maxCount\<close>.\<close>

lemma fold_max_ge:
  "(rv :: nat) \<le> fold (\<lambda>(k, c) rv. max rv c) xs rv"
  "(k, c) \<in> set xs \<Longrightarrow> c \<le> fold (\<lambda>(k, c) rv. max rv c) xs rv"
proof (induction xs arbitrary: rv)
  case (Cons x xs)
  { case 1 then show ?case using Cons(1) [of "max rv (snd x)"] by (auto simp: case_prod_unfold) }
  { case 2 then show ?case using Cons [of "max rv (snd x)"] by (auto simp: case_prod_unfold) }
qed simp_all

lemma fold_max_le:
  "rv \<le> (b :: nat) \<Longrightarrow> \<forall>(k, c) \<in> set xs. c \<le> b \<Longrightarrow> fold (\<lambda>(k, c) rv. max rv c) xs rv \<le> b"
  by (induction xs arbitrary: rv) auto

lemma halveCount_count:
  assumes "width_ok bits" "\<forall>(k, d) \<in> set (mt_htab t). 1 \<le> md_count d \<and> md_count d \<le> maxCount bits - 1"
    and "mt_misses t \<le> mt_accesses t" "mt_accesses t < UINT_MAX"
  shows "count_inv bits (halveCount bits t)"
proof -
  let ?half = "map (\<lambda>(k, d). (k, (md_count d + 1) div 2)) (mt_htab t)"
  let ?mx = "fold (\<lambda>(k, c) rv. max rv c) ?half 0"
  have "\<forall>(k, c) \<in> set ?half. c \<le> maxCount bits - 3"
    using assms(2) width_bounds [OF assms(1)] by fastforce
  then have mx: "?mx \<le> maxCount bits - 3" by (intro fold_max_le) auto
  have ent: "1 \<le> md_count d \<and> md_count d \<le> ?mx + 1"
    if mem: "(k, d) \<in> set (map (\<lambda>(k, d). (k, set_count bits ((md_count d + 1) div 2) d)) (mt_htab t))" for k d
  proof -
    obtain e where e: "(k, e) \<in> set (mt_htab t)" "d = set_count bits ((md_count e + 1) div 2) e"
      using mem by auto
    have c: "1 \<le> md_count e" "md_count e \<le> maxCount bits - 1" using assms(2) e(1) by auto
    have "(md_count e + 1) div 2 \<le> ?mx"
      by (rule fold_max_ge(2) [where k = k]) (use e(1) in force)
    moreover have "md_count d = (md_count e + 1) div 2"
      using e(2) c(2) mod_width [of _ bits] by simp
    ultimately show ?thesis using c(1) by simp
  qed
  have "(mt_misses t + 1) mod 2 ^ 32 div 2 \<le> (mt_accesses t + 1) mod 2 ^ 32 div 2"
    "(mt_accesses t + 1) mod 2 ^ 32 div 2 < UINT_MAX"
    using assms(3,4) by (auto simp: UINT_MAX_def intro: div_le_mono)
  with mx ent show ?thesis
    unfolding count_inv_def halveCount_def Let_def by fastforce
qed

lemma updateAcc_count:
  assumes "width_ok bits" "count_inv bits t" "m \<le> 1"
  shows "count_inv bits (updateAcc bits 1 m t)"
proof -
  have half: "count_inv bits (halveCount bits t)"
    by (rule halveCount_count [OF assms(1)]) (use assms(2) width_bounds [OF assms(1)] in \<open>auto simp: count_inv_def\<close>)
  have small: "mt_accesses (halveCount bits t) < UINT_MAX - 1"
    by (simp add: halveCount_def Let_def UINT_MAX_def)
  show ?thesis
    using half small assms(2,3) by (auto simp: updateAcc_def Let_def count_inv_def UINT_MAX_def)
qed

lemma count_inv_upd:
  assumes "count_inv bits t" "mt_htab t' = h" "mt_misses t' = mt_misses t" "mt_accesses t' = mt_accesses t"
    and "\<forall>(k, d) \<in> set h. 1 \<le> md_count d \<and> md_count d \<le> mt_maxCount t' + 1" "mt_maxCount t' \<le> maxCount bits - 3"
  shows "count_inv bits t'"
  using assms by (simp add: count_inv_def)

lemma map_of_on_entry:
  "map_of (on_entry k f h) k' = map_option (\<lambda>d. if k' = k then f d else d) (map_of h k')"
  unfolding on_entry_def by (induction h) auto

lemma keys_on_entry [simp]: "map fst (on_entry k f h) = map fst h"
  by (simp add: on_entry_def case_prod_unfold comp_def)

lemma bump_count:
  assumes w: "width_ok bits" and inv: "count_inv bits t" and dist: "distinct (map fst (mt_htab t))"
  shows "count_inv bits (bump bits k t)"
proof (cases "map_of (mt_htab t) k")
  case None
  then have "on_entry k f (mt_htab t) = mt_htab t" for f
    by (force simp: on_entry_def map_of_eq_None_iff intro: map_idI)
  then show ?thesis using None inv by (simp add: bump_def Let_def)
next
  case (Some e)
  let ?h = "on_entry k (\<lambda>d. set_count bits (md_count d + 1) d) (mt_htab t)"
  let ?mc = "mt_maxCount t"
  note mx = width_bounds [OF w]
  have cnt: "1 \<le> md_count d \<and> md_count d \<le> ?mc + 1" if "map_of (mt_htab t) k' = Some d" for k' d
    using inv map_of_SomeD [OF that] by (auto simp: count_inv_def)
  have top: "?mc \<le> maxCount bits - 3" using inv by (simp add: count_inv_def)
  have new: "(md_count e + 1) mod 2 ^ bits = md_count e + 1"
    by (rule mod_width) (use cnt [OF Some] top mx in linarith)
  have at: "map_of ?h k = Some (set_count bits (md_count e + 1) e)" by (simp add: map_of_on_entry Some)
  have ent: "1 \<le> md_count d \<and> md_count d \<le> (if k' = k then md_count e + 1 else ?mc + 1)"
    if "(k', d) \<in> set ?h" for k' d
  proof -
    have "map_of ?h k' = Some d" using that dist by simp
    then show ?thesis using cnt [of k'] new Some by (auto simp: map_of_on_entry split: if_splits)
  qed
  have le: "md_count e + 1 \<le> ?mc + 2" using cnt [OF Some] by simp
  show ?thesis
  proof (cases "?mc < md_count e + 1")
    case False
    have "1 \<le> md_count d \<and> md_count d \<le> ?mc + 1" if "(k', d) \<in> set ?h" for k' d
      using ent [OF that] False by (auto split: if_splits)
    then have "\<forall>(k', d) \<in> set ?h. 1 \<le> md_count d \<and> md_count d \<le> ?mc + 1" by blast
    with False inv at new show ?thesis
      by (simp add: bump_def Let_def) (auto simp: count_inv_def)
  next
    case True
    let ?t2 = "t\<lparr>mt_htab := ?h, mt_maxCount := ?mc + 1\<rparr>"
    have wrap: "(?mc + 1) mod 2 ^ 32 = ?mc + 1" by (rule mod_less) (use top mx in auto)
    have b: "bump bits k t = (if maxCount bits - 3 < ?mc + 1 then halveCount bits ?t2 else ?t2)"
      using True at new wrap by (simp add: bump_def Let_def)
    have "1 \<le> md_count d \<and> md_count d \<le> ?mc + 2" if "(k', d) \<in> set ?h" for k' d
      using ent [OF that] le by (auto split: if_splits)
    then have all: "\<forall>(k', d) \<in> set ?h. 1 \<le> md_count d \<and> md_count d \<le> ?mc + 2" by blast
    have "count_inv bits (halveCount bits ?t2)"
      by (rule halveCount_count [OF w]) (use all top mx inv in \<open>auto simp: count_inv_def\<close>)
    moreover have "count_inv bits ?t2" if "\<not> maxCount bits - 3 < ?mc + 1"
      by (rule count_inv_upd [OF inv]) (use all that in auto)
    ultimately show ?thesis using b by simp
  qed
qed

section \<open>Purging\<close>

text \<open>What is left after removing the keys \<open>gone\<close> and resetting the counts.\<close>

definition purged :: "'k set \<Rightarrow> ('k \<times> 'd mfu_data) list \<Rightarrow> ('k \<times> 'd mfu_data) list" where
  "purged gone h = map (\<lambda>(k, d). (k, d\<lparr>md_count := 1\<rparr>)) (filter (\<lambda>(k, _). k \<notin> gone) h)"

definition unpinned :: "('k \<times> 'd mfu_data) list \<Rightarrow> ('k \<times> 'd mfu_data) list" where
  "unpinned h = filter (\<lambda>(_, d). \<not> md_pinned d) h"

lemma length_unpinned: "length (unpinned h) + npinned h = length h"
  using sum_length_filter_compl [of "\<lambda>(_, d). md_pinned d" h]
  by (simp add: unpinned_def npinned_def case_prod_unfold add.commute)

lemma mfu_remove_unpinned:
  assumes "map_of (mt_htab t) k = Some d" "\<not> md_pinned d"
  shows "purge_key (Some k) t = t\<lparr>mt_htab := filter (\<lambda>(k', _). k' \<noteq> k) (mt_htab t), mt_shrunk := mt_shrunk t @ [(k, d)]\<rparr>"
  using assms by (simp add: purge_key_def mfu_remove_def)

lemma map_of_filter_key: "k' \<notin> G \<Longrightarrow> map_of (filter (\<lambda>(k, _). k \<notin> G) h) k' = map_of h k'"
  by (induction h) auto

lemma purge_keys:
  assumes "distinct gs" "\<forall>k \<in> set gs. \<exists>d. map_of (mt_htab t) k = Some d \<and> \<not> md_pinned d"
  shows "fold purge_key (map Some gs) t =
           t\<lparr>mt_htab := filter (\<lambda>(k, _). k \<notin> set gs) (mt_htab t),
             mt_shrunk := mt_shrunk t @ map (\<lambda>k. (k, the (map_of (mt_htab t) k))) gs\<rparr>"
  using assms
proof (induction gs arbitrary: t)
  case (Cons g gs)
  obtain d where d: "map_of (mt_htab t) g = Some d" "\<not> md_pinned d" using Cons.prems(2) by auto
  let ?t = "purge_key (Some g) t"
  have h: "mt_htab ?t = filter (\<lambda>(k, _). k \<notin> {g}) (mt_htab t)"
    by (simp add: mfu_remove_unpinned [OF d])
  have at: "map_of (mt_htab ?t) k = map_of (mt_htab t) k" if "k \<in> set gs" for k
    unfolding h by (rule map_of_filter_key) (use that Cons.prems(1) in auto)
  have "fold purge_key (map Some gs) ?t =
          ?t\<lparr>mt_htab := filter (\<lambda>(k, _). k \<notin> set gs) (mt_htab ?t),
             mt_shrunk := mt_shrunk ?t @ map (\<lambda>k. (k, the (map_of (mt_htab ?t) k))) gs\<rparr>"
    by (rule Cons.IH) (use Cons.prems at in auto)
  moreover have "map (\<lambda>k. (k, the (map_of (mt_htab ?t) k))) gs = map (\<lambda>k. (k, the (map_of (mt_htab t) k))) gs"
    using at by simp
  moreover have "filter (\<lambda>(k, _). k \<notin> set gs) (mt_htab ?t) = filter (\<lambda>(k, _). k \<notin> set (g # gs)) (mt_htab t)"
    unfolding h filter_filter by (rule filter_cong) auto
  ultimately show ?case
    using d by (simp add: mfu_remove_unpinned [OF d])
qed (simp add: filter_True case_prod_unfold)

lemma purge_zeros_id: "count_inv bits t \<Longrightarrow> purge_zeros t = t"
proof -
  assume "count_inv bits t"
  then have c: "md_count (snd e) \<noteq> 0" if "e \<in> set (mt_htab t)" for e
    using that by (auto simp: count_inv_def)
  have "filter (\<lambda>(_, d). md_pinned d \<or> md_count d \<noteq> 0) (mt_htab t) = mt_htab t"
    "filter (\<lambda>(_, d). \<not> md_pinned d \<and> md_count d = 0) (mt_htab t) = []"
    using c by (simp_all add: filter_id_conv filter_empty_conv case_prod_unfold)
  then show ?thesis by (simp add: purge_zeros_def)
qed

lemma purge_room_eq: "shape_inv t \<Longrightarrow> purge_room t = mt_maxSize t - npinned (mt_htab t)"
proof -
  assume "shape_inv t"
  then have "mt_maxSize t + 2 ^ 32 - npinned (mt_htab t) = (mt_maxSize t - npinned (mt_htab t)) + 2 ^ 32"
    "mt_maxSize t - npinned (mt_htab t) < 2 ^ 32"
    by (auto simp: shape_inv_def)
  then show ?thesis unfolding purge_room_def by (simp only: mod_add_self2 mod_less)
qed

lemma targets:
  assumes "shape_inv t"
  shows "1 \<le> targetMin t" "targetMin t < targetMax t"
proof -
  have r: "8 \<le> purge_room t" "purge_room t \<noteq> 9" using assms purge_room_eq [OF assms] by (auto simp: shape_inv_def)
  show "1 \<le> targetMin t" using r(1) by (simp add: targetMin_def)
  show "targetMin t < targetMax t"
  proof (cases "purge_room t = 8")
    case False
    with r have "45 * purge_room t + 100 \<le> 55 * purge_room t" by simp
    then have "(45 * purge_room t + 100) div 100 \<le> 55 * purge_room t div 100" by (rule div_le_mono)
    then show ?thesis by (simp add: targetMin_def targetMax_def)
  qed (simp add: targetMin_def targetMax_def)
qed

lemma sentinel_count: "width_ok bits \<Longrightarrow> maxCount bits mod 2 ^ 15 = 2 ^ 15 - 1"
proof -
  assume "width_ok bits"
  then obtain q where "bits = 15 + q" by (auto simp: width_ok_def le_iff_add)
  then have "maxCount bits = (2 ^ 15 - 1) + (2 ^ q - 1) * 2 ^ 15"
    by (simp add: maxCount_def power_add algebra_simps diff_mult_distrib)
  then show ?thesis by simp
qed

lemma fold_purge_slots: "fold (\<lambda>s. purge_key (snd s)) xs t = fold purge_key (map snd xs) t"
  by (simp add: fold_map comp_def)

definition slot_of :: "'k \<times> 'd mfu_data \<Rightarrow> 'k option keyslot" where
  "slot_of = (\<lambda>(k, d). (md_count d mod 2 ^ 15, Some k))"

lemma key_array_eq:
  "width_ok bits \<Longrightarrow> key_array bits h = (0, None) # map slot_of (unpinned h) @ [(2 ^ 15 - 1, None)]"
  by (simp only: key_array_def slot_of_def unpinned_def sentinel_count)

text \<open>The keys a purge removes: unpinned ones, as many as the code means to remove, and none of
  them counted higher than one that stays.\<close>

definition good_victims :: "('k, 'd) mfu_table \<Rightarrow> 'k list \<Rightarrow> bool" where
  "good_victims t gs \<longleftrightarrow> distinct gs \<and> set gs \<subseteq> fst ` set (unpinned (mt_htab t))
     \<and> targetMin t + length gs \<le> length (unpinned (mt_htab t))
     \<and> length (unpinned (mt_htab t)) \<le> targetMax t + length gs
     \<and> (\<forall>(k, d) \<in> set (unpinned (mt_htab t)). \<forall>(k', d') \<in> set (unpinned (mt_htab t)).
          k \<in> set gs \<longrightarrow> k' \<notin> set gs \<longrightarrow> md_count d mod 2 ^ 15 \<le> md_count d' mod 2 ^ 15)"

lemma victims_of_slots:
  assumes "distinct (map fst u)" "mset mid' = mset (map slot_of u)"
    and le: "\<forall>a\<in>set (take n mid'). \<forall>b\<in>set (drop n mid'). fst a \<le> fst b"
  obtains gs where "map snd (take n mid') = map Some gs" "distinct gs" "set gs \<subseteq> fst ` set u"
    "length gs = min n (length u)"
    "\<forall>(k, d) \<in> set u. \<forall>(k', d') \<in> set u. k \<in> set gs \<longrightarrow> k' \<notin> set gs \<longrightarrow> md_count d mod 2 ^ 15 \<le> md_count d' mod 2 ^ 15"
proof -
  define gs where "gs = map (the \<circ> snd) (take n mid')"
  have set': "set mid' = slot_of ` set u" using assms(2) by (metis list.set_map set_mset_mset)
  have len: "length mid' = length u" using assms(2) by (metis length_map size_mset)
  have some: "\<exists>k d. s = slot_of (k, d) \<and> (k, d) \<in> set u" if "s \<in> set mid'" for s
    using that set' by auto
  have snds: "map snd (take n mid') = map Some gs"
    unfolding gs_def using some by (force simp: slot_of_def dest: in_set_takeD)
  have keys: "map (the \<circ> snd \<circ> slot_of) u = map fst u" by (simp add: slot_of_def case_prod_unfold comp_def)
  have "mset (map (the \<circ> snd) mid') = mset (map fst u)"
    using assms(2) keys by (metis mset_map map_map)
  then have d: "distinct (map (the \<circ> snd) mid')" using assms(1) by (metis mset_eq_imp_distinct_iff)
  have dg: "distinct gs" unfolding gs_def using d by (metis distinct_take take_map)
  have sub: "set gs \<subseteq> fst ` set u"
  proof
    fix k assume "k \<in> set gs"
    then obtain s where "s \<in> set mid'" "k = the (snd s)" by (auto simp: gs_def dest: in_set_takeD)
    with some [of s] show "k \<in> fst ` set u" by (force simp: slot_of_def)
  qed
  have mem: "slot_of (k, d) \<in> set (take n mid') \<longleftrightarrow> k \<in> set gs" if kd: "(k, d) \<in> set u" for k d
  proof
    show "slot_of (k, d) \<in> set (take n mid') \<Longrightarrow> k \<in> set gs" by (force simp: gs_def slot_of_def)
    assume "k \<in> set gs"
    then obtain s where s: "s \<in> set (take n mid')" "k = the (snd s)" by (auto simp: gs_def)
    with some [of s] obtain k' d' where k': "s = slot_of (k', d')" "(k', d') \<in> set u" by (meson in_set_takeD)
    then have "k' = k" using s(2) by (simp add: slot_of_def)
    then have "d' = d" using kd k'(2) assms(1) by (metis eq_key_imp_eq_value)
    with \<open>k' = k\<close> s(1) k'(1) show "slot_of (k, d) \<in> set (take n mid')" by simp
  qed
  have ord: "md_count d mod 2 ^ 15 \<le> md_count d' mod 2 ^ 15"
    if "(k, d) \<in> set u" "(k', d') \<in> set u" "k \<in> set gs" "k' \<notin> set gs" for k d k' d'
  proof -
    have "slot_of (k', d') \<in> set mid'" using that(2) set' by simp
    then have "slot_of (k', d') \<in> set (drop n mid')"
      using mem [OF that(2)] that(4) by (metis Un_iff append_take_drop_id set_append)
    moreover have "slot_of (k, d) \<in> set (take n mid')" using mem [OF that(1)] that(3) by simp
    ultimately show ?thesis using le by (fastforce simp: slot_of_def)
  qed
  have "length gs = min n (length u)" by (simp add: gs_def len min.commute)
  with that [of gs] snds dg sub ord show ?thesis by blast
qed

lemma purge_selected_ok:
  assumes w: "width_ok bits" and "fair rnd" and shape: "shape_inv t"
    and full: "targetMax t \<le> length (unpinned (mt_htab t))"
  obtains gs c where "good_victims t gs"
    "purge_selected bits rnd t =
       Some (Some (t\<lparr>mt_htab := filter (\<lambda>(k, _). k \<notin> set gs) (mt_htab t), mt_draws := c,
               mt_shrunk := mt_shrunk t @ map (\<lambda>k. (k, the (map_of (mt_htab t) k))) gs\<rparr>))"
proof -
  let ?u = "unpinned (mt_htab t)"
  let ?mid = "map slot_of ?u"
  note tg = targets [OF shape]
  have dist: "distinct (map fst ?u)"
    using shape by (simp add: shape_inv_def unpinned_def distinct_map_filter)
  have n: "length (mt_htab t) - npinned (mt_htab t) = length ?u" using length_unpinned [of "mt_htab t"] by simp
  obtain mid' k c where sel:
      "select_loop rnd (mt_draws t) (length ?u + 1 - targetMax t) (length ?u + 1 - targetMin t) 1 (length ?mid)
         ((0, None) # ?mid @ [(2 ^ 15 - 1, None)]) = Some (Some ((0, None) # mid' @ [(2 ^ 15 - 1, None)], k, c))"
      "mset mid' = mset ?mid" "length ?u + 1 - targetMax t \<le> k" "k \<le> length ?u + 1 - targetMin t"
      "\<forall>a\<in>set (take (k - 1) mid'). \<forall>b\<in>set (drop (k - 1) mid'). fst a \<le> fst b"
    by (rule select_between_sentinels [where rnd = rnd and minR = "length ?u + 1 - targetMax t"
          and maxR = "length ?u + 1 - targetMin t" and mid = ?mid and lo = "(0, None)" and hi = "(2 ^ 15 - 1, None)" and c = "mt_draws t"])
      (use assms(2) tg full in \<open>auto simp: slot_of_def less_Suc_eq_le [symmetric]\<close>)
  have len: "length mid' = length ?u" using sel(2) by (metis length_map size_mset)
  obtain gs where gs: "map snd (take (k - 1) mid') = map Some gs" "distinct gs" "set gs \<subseteq> fst ` set ?u"
      "length gs = min (k - 1) (length ?u)"
      "\<forall>(k, d) \<in> set ?u. \<forall>(k', d') \<in> set ?u. k \<in> set gs \<longrightarrow> k' \<notin> set gs \<longrightarrow> md_count d mod 2 ^ 15 \<le> md_count d' mod 2 ^ 15"
    using victims_of_slots [OF dist sel(2,5)] by blast
  have k: "k - 1 \<le> length ?u" "length gs = k - 1" using sel(4) gs(4) by auto
  have "good_victims t gs"
    unfolding good_victims_def using gs(2,3,5) k sel(3,4) tg full by auto
  moreover have "\<forall>g \<in> set gs. \<exists>d. map_of (mt_htab t) g = Some d \<and> \<not> md_pinned d"
    using gs(3) shape by (force simp: unpinned_def shape_inv_def)
  then have "fold purge_key (map Some gs) (t\<lparr>mt_draws := c\<rparr>) =
      t\<lparr>mt_htab := filter (\<lambda>(k, _). k \<notin> set gs) (mt_htab t), mt_draws := c,
        mt_shrunk := mt_shrunk t @ map (\<lambda>k. (k, the (map_of (mt_htab t) k))) gs\<rparr>"
    using purge_keys [OF gs(2), of "t\<lparr>mt_draws := c\<rparr>"] by simp
  moreover have "take (k - 1) (drop 1 ((0, None) # mid' @ [(2 ^ 15 - 1, None)])) = take (k - 1) mid'"
    using k(1) len by simp
  ultimately show ?thesis
    using that [of gs c] sel(1) gs(1)
    by (simp add: purge_selected_def n key_array_eq [OF w] fold_purge_slots Let_def)
qed

lemma reset_counts_eq: "width_ok bits \<Longrightarrow>
    mt_htab (reset_counts bits t) = map (\<lambda>(k, d). (k, d\<lparr>md_count := 1\<rparr>)) (mt_htab t)"
  by (auto simp: reset_counts_def set_count_def width_ok_def case_prod_unfold)

lemma purged_none: "purged {} h = map (\<lambda>(k, d). (k, d\<lparr>md_count := 1\<rparr>)) h"
  by (simp add: purged_def case_prod_unfold)

text \<open>A purge as a whole; when there are fewer unpinned entries than the target it removes none.\<close>

lemma purgeOld_cases:
  assumes "width_ok bits" "fair rnd" "mfu_inv bits t"
  obtains gs t' where "purgeOld bits rnd t = Some (Some t')" "mt_htab t' = purged (set gs) (mt_htab t)"
    "mt_maxSize t' = mt_maxSize t" "mt_maxCount t' = mt_maxCount t"
    "mt_misses t' = mt_misses t" "mt_accesses t' = mt_accesses t"
    "mt_shrunk t' = mt_shrunk t @ map (\<lambda>k. (k, the (map_of (mt_htab t) k))) gs"
    "if targetMax t \<le> length (unpinned (mt_htab t)) then good_victims t gs else gs = []"
proof -
  have inv: "shape_inv t" "count_inv bits t" using assms(3) by (simp_all add: mfu_inv_def)
  have n: "length (mt_htab t) - npinned (mt_htab t) = length (unpinned (mt_htab t))"
    using length_unpinned [of "mt_htab t"] by simp
  show ?thesis
  proof (cases "targetMax t \<le> length (unpinned (mt_htab t))")
    case True
    obtain gs c where gs: "good_victims t gs" "purge_selected bits rnd t =
       Some (Some (t\<lparr>mt_htab := filter (\<lambda>(k, _). k \<notin> set gs) (mt_htab t), mt_draws := c,
               mt_shrunk := mt_shrunk t @ map (\<lambda>k. (k, the (map_of (mt_htab t) k))) gs\<rparr>))"
      using purge_selected_ok [OF assms(1,2) inv(1) True] by blast
    then have "purgeOld bits rnd t = Some (Some (reset_counts bits (t\<lparr>mt_htab := filter (\<lambda>(k, _). k \<notin> set gs) (mt_htab t),
        mt_draws := c, mt_shrunk := mt_shrunk t @ map (\<lambda>k. (k, the (map_of (mt_htab t) k))) gs\<rparr>)))"
      using True n inv(2) by (simp add: purgeOld_def purge_zeros_id)
    then show ?thesis
      by (rule that) (use gs(1) True in \<open>simp_all add: reset_counts_eq [OF assms(1)] purged_def\<close>, simp_all add: reset_counts_def)
  next
    case False
    then have "purgeOld bits rnd t = Some (Some (reset_counts bits t))"
      using n inv(2) by (simp add: purgeOld_def purge_zeros_id)
    then show ?thesis
      by (rule that [where gs = "[]"]) (use False in \<open>simp_all add: reset_counts_eq [OF assms(1)] purged_none\<close>, simp_all add: reset_counts_def)
  qed
qed

lemma length_filter_keys:
  assumes "distinct (map fst h)" "distinct gs" "set gs \<subseteq> fst ` set h"
  shows "length (filter (\<lambda>(k, _). k \<notin> set gs) h) + length gs = length h"
proof -
  let ?g = "filter (\<lambda>(k, _). k \<in> set gs) h"
  have "set (map fst ?g) = set gs" using assms(3) by force
  moreover have "distinct (map fst ?g)" using assms(1) by (simp add: distinct_map_filter)
  ultimately have "length ?g = length gs" using assms(2) by (metis distinct_card length_map)
  then show ?thesis
    using sum_length_filter_compl [of "\<lambda>(k, _). k \<in> set gs" h] by (simp add: case_prod_unfold add.commute)
qed

lemma purged_keys: "map fst (purged G h) = map fst (filter (\<lambda>(k, _). k \<notin> G) h)"
  by (simp add: purged_def case_prod_unfold comp_def)

lemma purged_npinned:
  assumes "distinct (map fst h)" "G \<subseteq> fst ` set (unpinned h)"
  shows "npinned (purged G h) = npinned h"
proof -
  have "k \<notin> G" if "(k, d) \<in> set h" "md_pinned d" for k d
  proof
    assume "k \<in> G"
    then obtain d' where "(k, d') \<in> set h" "\<not> md_pinned d'" using assms(2) by (auto simp: unpinned_def)
    with that eq_key_imp_eq_value [OF assms(1), of k d d'] show False by simp
  qed
  then have "filter (\<lambda>(k, d). k \<notin> G \<and> md_pinned d) h = filter (\<lambda>(k, d). md_pinned d) h"
    by (intro filter_cong) auto
  then show ?thesis
    by (simp add: npinned_def purged_def filter_map comp_def case_prod_unfold conj_commute)
qed

lemma map_of_purged: "map_of (purged G h) k = (if k \<in> G then None else map_option (\<lambda>d. d\<lparr>md_count := 1\<rparr>) (map_of h k))"
  by (induction h) (auto simp: purged_def)

lemma unpinned_subset: "fst ` set (unpinned h) \<subseteq> fst ` set h"
  by (auto simp: unpinned_def)

lemma purged_inv:
  assumes "mfu_inv bits t" "set gs \<subseteq> fst ` set (unpinned (mt_htab t))" "mt_htab t' = purged (set gs) (mt_htab t)"
    "mt_maxSize t' = mt_maxSize t" "mt_maxCount t' = mt_maxCount t"
    "mt_misses t' = mt_misses t" "mt_accesses t' = mt_accesses t"
  shows "mfu_inv bits t'"
proof -
  have inv: "shape_inv t" "count_inv bits t" using assms(1) by (simp_all add: mfu_inv_def)
  have "length (purged (set gs) (mt_htab t)) \<le> length (mt_htab t)"
    by (simp add: purged_def)
  then have "shape_inv t'"
    using inv(1) purged_npinned [OF _ assms(2)] assms(3,4)
    by (simp add: shape_inv_def purged_keys distinct_map_filter)
  moreover have "count_inv bits t'"
    by (rule count_inv_upd [OF inv(2) assms(3)]) (use assms(5-) inv(2) in \<open>auto simp: purged_def count_inv_def\<close>)
  ultimately show ?thesis by (simp add: mfu_inv_def)
qed

text \<open>The documented outcome of a purge.\<close>

lemma purge_ok_full:
  assumes "width_ok bits" "fair rnd" "mfu_inv bits t" "length (mt_htab t) = mt_maxSize t"
  obtains gs t' where "purgeOld bits rnd t = Some (Some t')" "mfu_inv bits t'" "good_victims t gs"
    "mt_htab t' = purged (set gs) (mt_htab t)" "mt_maxSize t' = mt_maxSize t" "length (mt_htab t') < mt_maxSize t"
    "mt_shrunk t' = mt_shrunk t @ map (\<lambda>k. (k, the (map_of (mt_htab t) k))) gs"
proof -
  have shape: "shape_inv t" using assms(3) by (simp add: mfu_inv_def)
  obtain gs t' where r: "purgeOld bits rnd t = Some (Some t')" "mt_htab t' = purged (set gs) (mt_htab t)"
    "mt_maxSize t' = mt_maxSize t" "mt_maxCount t' = mt_maxCount t"
    "mt_misses t' = mt_misses t" "mt_accesses t' = mt_accesses t"
    "mt_shrunk t' = mt_shrunk t @ map (\<lambda>k. (k, the (map_of (mt_htab t) k))) gs"
    "if targetMax t \<le> length (unpinned (mt_htab t)) then good_victims t gs else gs = []"
    using purgeOld_cases [OF assms(1-3)] by blast
  have u: "length (unpinned (mt_htab t)) = purge_room t"
    using length_unpinned [of "mt_htab t"] assms(4) purge_room_eq [OF shape] by simp
  have tm: "targetMax t < purge_room t"
    using purge_room_eq [OF shape] shape by (auto simp: targetMax_def shape_inv_def)
  then have g: "good_victims t gs" using r(8) u by simp
  then have sub: "set gs \<subseteq> fst ` set (unpinned (mt_htab t))" and "distinct gs"
    and some: "purge_room t \<le> targetMax t + length gs"
    using u by (auto simp: good_victims_def)
  moreover have len: "length (purged (set gs) (mt_htab t)) + length gs = length (mt_htab t)"
    using length_filter_keys [of "mt_htab t" gs] sub \<open>distinct gs\<close> shape unpinned_subset [of "mt_htab t"]
    by (simp add: purged_def shape_inv_def)
  ultimately have "length (mt_htab t') < mt_maxSize t" unfolding r(2) using assms(4) tm by linarith
  moreover have "mfu_inv bits t'" by (rule purged_inv [OF assms(3) sub r(2-6)])
  ultimately show ?thesis using that r(1-3,7) g by blast
qed

section \<open>Insertion, lookup and removal\<close>

definition rearranges :: "('k, 'd) hash_order \<Rightarrow> bool" where
  "rearranges ord \<longleftrightarrow> (\<forall>h. mset (ord h) = mset h)"

lemma map_of_rearranged:
  assumes "distinct (map fst h)" "mset h' = mset h"
  shows "map_of h' = map_of h"
proof
  fix k
  have "set h' = set h" using assms(2) by (metis set_mset_mset)
  moreover have "distinct (map fst h')" using assms by (metis mset_eq_imp_distinct_iff mset_map)
  ultimately have "map_of h' k = Some v \<longleftrightarrow> map_of h k = Some v" for v
    using assms(1) by simp
  then show "map_of h' k = map_of h k" by (metis option.exhaust)
qed

lemma emplace_facts:
  assumes "rearranges ord" "distinct (map fst (mt_htab t))" "map_of (mt_htab t) k = None"
  shows "map_of (mt_htab (emplace ord k d t)) = (map_of (mt_htab t))(k \<mapsto> d)"
    "distinct (map fst (mt_htab (emplace ord k d t)))"
    "length (mt_htab (emplace ord k d t)) = Suc (length (mt_htab t))"
    "set (mt_htab (emplace ord k d t)) = insert (k, d) (set (mt_htab t))"
    "npinned (mt_htab (emplace ord k d t)) = npinned (mt_htab t) + (if md_pinned d then 1 else 0)"
proof -
  let ?h = "(k, d) # mt_htab t"
  have dist: "distinct (map fst ?h)" using assms(2,3) by (simp add: map_of_eq_None_iff)
  have ms: "mset (ord ?h) = mset ?h" using assms(1) by (simp add: rearranges_def)
  have h: "mt_htab (emplace ord k d t) = ord ?h" by (simp add: emplace_def)
  show "map_of (mt_htab (emplace ord k d t)) = (map_of (mt_htab t))(k \<mapsto> d)"
    unfolding h map_of_rearranged [OF dist ms] by simp
  show "distinct (map fst (mt_htab (emplace ord k d t)))"
    unfolding h using dist ms by (metis mset_eq_imp_distinct_iff mset_map)
  show "length (mt_htab (emplace ord k d t)) = Suc (length (mt_htab t))"
    unfolding h using ms by (metis length_Cons size_mset)
  show "set (mt_htab (emplace ord k d t)) = insert (k, d) (set (mt_htab t))"
    unfolding h using ms by (metis list.simps(15) set_mset_mset)
  have np: "npinned xs = size (filter_mset (\<lambda>(_, d). md_pinned d) (mset xs))" for xs :: "('a \<times> 'b mfu_data) list"
    by (metis mset_filter npinned_def size_mset)
  show "npinned (mt_htab (emplace ord k d t)) = npinned (mt_htab t) + (if md_pinned d then 1 else 0)"
    unfolding h np ms by simp
qed

lemma MFUData_simps [simp]:
  "md_data (MFUData d pin) = d" "md_pinned (MFUData d pin) = pin" "md_count (MFUData d pin) = 1"
  by (simp_all add: MFUData_def)

lemma emplace_count: "rearranges ord \<Longrightarrow> distinct (map fst (mt_htab t)) \<Longrightarrow> map_of (mt_htab t) k = None \<Longrightarrow>
    count_inv bits t \<Longrightarrow> count_inv bits (emplace ord k (MFUData d pin) t)"
  by (rule count_inv_upd [where t = t, OF _ refl]) (auto simp: emplace_facts(4), auto simp: emplace_def count_inv_def)

text \<open>What an operation may do to the contents: change the key it is about, and forget unpinned
  entries if the table was full.\<close>

definition forgets :: "('k, 'd) mfu_table \<Rightarrow> ('k, 'd) mfu_table \<Rightarrow> 'k \<Rightarrow> bool" where
  "forgets t t' k \<longleftrightarrow> contents t' k = None \<and> k \<notin> pinned_keys t \<and> length (mt_htab t) = mt_maxSize t"

lemma contents_skeleton:
  assumes "skeleton (mt_htab t') = skeleton (mt_htab t)"
  shows "contents t' = contents t"
  by (rule ext) (simp only: contents_def skeleton_eqD(4) [OF assms])

lemma pinned_skeleton:
  assumes "skeleton (mt_htab t') = skeleton (mt_htab t)"
  shows "pinned_keys t' = pinned_keys t"
  by (simp only: pinned_keys_def skeleton_eqD(5) [OF assms])

lemma pinned_keys_iff:
  "distinct (map fst (mt_htab t)) \<Longrightarrow> k \<in> pinned_keys t \<longleftrightarrow> (\<exists>d. map_of (mt_htab t) k = Some d \<and> md_pinned d)"
  by (auto simp: pinned_keys_def)

lemma touch_inv:
  assumes "width_ok bits" "mfu_inv bits t"
  shows "mfu_inv bits (bump bits k (updateAcc bits 1 0 t))" "mfu_inv bits (updateAcc bits 1 1 t)"
    "mfu_inv bits (updateAcc bits 1 0 t)"
proof -
  have shape: "shape_inv t" and count: "count_inv bits t" using assms(2) by (simp_all add: mfu_inv_def)
  have sh: "shape_inv (updateAcc bits 1 m t)" for m
    by (rule shape_inv_skeleton [OF _ _ shape]) simp_all
  have ct: "count_inv bits (updateAcc bits 1 m t)" if "m \<le> 1" for m
    by (rule updateAcc_count [OF assms(1) count that])
  show "mfu_inv bits (updateAcc bits 1 1 t)" "mfu_inv bits (updateAcc bits 1 0 t)"
    using sh ct by (simp_all add: mfu_inv_def)
  have "shape_inv (bump bits k (updateAcc bits 1 0 t))"
    by (rule shape_inv_skeleton [OF _ _ shape]) simp_all
  moreover have "count_inv bits (bump bits k (updateAcc bits 1 0 t))"
    by (rule bump_count [OF assms(1) ct]) (use sh in \<open>simp_all add: shape_inv_def\<close>)
  ultimately show "mfu_inv bits (bump bits k (updateAcc bits 1 0 t))" by (simp add: mfu_inv_def)
qed

lemma set_data_facts:
  fixes t :: "('k, 'd) mfu_table" and k :: 'k and v :: 'd
  defines "t' \<equiv> t\<lparr>mt_htab := on_entry k (\<lambda>e. e\<lparr>md_data := v\<rparr>) (mt_htab t)\<rparr>"
  assumes "mfu_inv bits t" "map_of (mt_htab t) k \<noteq> None"
  shows "mfu_inv bits t'" "contents t' = (contents t)(k \<mapsto> v)" "pinned_keys t' = pinned_keys t"
proof -
  have h: "mt_htab t' = on_entry k (\<lambda>e. e\<lparr>md_data := v\<rparr>) (mt_htab t)" by (simp add: t'_def)
  have keys: "map fst (mt_htab t') = map fst (mt_htab t)" unfolding h by simp
  have len: "length (mt_htab t') = length (mt_htab t)" using keys by (metis length_map)
  have np: "npinned (mt_htab t') = npinned (mt_htab t)"
    unfolding h npinned_def on_entry_def by (simp add: filter_map comp_def case_prod_unfold if_distrib cong: if_cong)
  have dist: "distinct (map fst (mt_htab t))" using assms(2) by (simp add: mfu_inv_def shape_inv_def)
  have "count_inv bits t'"
    by (rule count_inv_upd [of bits t, OF _ h]) (use assms(2) in \<open>auto simp: t'_def mfu_inv_def count_inv_def on_entry_def\<close>)
  then show "mfu_inv bits t'"
    using assms(2) keys len np by (simp add: mfu_inv_def shape_inv_def t'_def)
  show "contents t' = (contents t)(k \<mapsto> v)"
    using assms(3) by (auto simp: contents_def h map_of_on_entry fun_eq_iff option.map_comp comp_def)
  show "pinned_keys t' = pinned_keys t"
  proof (rule set_eqI)
    fix x
    have dist': "distinct (map fst (mt_htab t'))" using dist keys by simp
    show "x \<in> pinned_keys t' \<longleftrightarrow> x \<in> pinned_keys t"
      unfolding pinned_keys_iff [OF dist] pinned_keys_iff [OF dist'] unfolding h map_of_on_entry
      by (cases "map_of (mt_htab t) x") auto
  qed
qed

lemma purge_forgets:
  assumes "mfu_inv bits t" "good_victims t gs" "mt_htab t' = purged (set gs) (mt_htab t)" "length (mt_htab t) = mt_maxSize t"
  shows "contents t' k = contents t k \<or> forgets t t' k" "pinned_keys t' = pinned_keys t"
proof -
  have dist: "distinct (map fst (mt_htab t))" using assms(1) by (simp add: mfu_inv_def shape_inv_def)
  then have dist': "distinct (map fst (mt_htab t'))" by (simp add: assms(3) purged_keys distinct_map_filter)
  have np: "x \<notin> pinned_keys t" if "x \<in> set gs" for x
  proof -
    have "x \<in> fst ` set (unpinned (mt_htab t))" using assms(2) that unfolding good_victims_def by blast
    then obtain d where "(x, d) \<in> set (mt_htab t)" "\<not> md_pinned d" by (auto simp: unpinned_def)
    then show ?thesis using dist by (simp add: pinned_keys_iff)
  qed
  show "contents t' k = contents t k \<or> forgets t t' k"
    using np [of k] assms(3,4) by (auto simp: forgets_def contents_def map_of_purged option.map_comp comp_def)
  show "pinned_keys t' = pinned_keys t"
  proof (rule set_eqI)
    fix x
    show "x \<in> pinned_keys t' \<longleftrightarrow> x \<in> pinned_keys t"
      using np [of x] unfolding pinned_keys_iff [OF dist] pinned_keys_iff [OF dist'] assms(3) map_of_purged
      by (cases "map_of (mt_htab t) x") auto
  qed
qed

text \<open>Making room for one more entry.\<close>

definition make_room :: "nat \<Rightarrow> (nat \<Rightarrow> nat) \<Rightarrow> bool \<Rightarrow> ('k, 'd) mfu_table \<Rightarrow> ('k, 'd) mfu_table option option" where
  "make_room bits rnd pin t =
     (if pin then Some (Some (t\<lparr>mt_maxSize := (mt_maxSize t + 1) mod 2 ^ 32\<rparr>))
      else if mt_maxSize t \<le> length (mt_htab t) then purgeOld bits rnd t
      else Some (Some t))"

lemma make_room_ok:
  assumes "width_ok bits" "fair rnd" "mfu_inv bits t" "\<not> pin" "map_of (mt_htab t) k = None"
  obtains t' where "make_room bits rnd pin t = Some (Some t')" "mfu_inv bits t'" "length (mt_htab t') < mt_maxSize t'"
    "mt_maxSize t' = mt_maxSize t" "\<forall>k. contents t' k = contents t k \<or> forgets t t' k" "pinned_keys t' = pinned_keys t"
    "map_of (mt_htab t') k = None"
proof (cases "mt_maxSize t \<le> length (mt_htab t)")
  case True
  then have full: "length (mt_htab t) = mt_maxSize t" using assms(3) by (simp add: mfu_inv_def shape_inv_def)
  obtain gs t' where r: "purgeOld bits rnd t = Some (Some t')" "mfu_inv bits t'" "good_victims t gs"
    "mt_htab t' = purged (set gs) (mt_htab t)" "mt_maxSize t' = mt_maxSize t" "length (mt_htab t') < mt_maxSize t"
    using purge_ok_full [OF assms(1-3) full] by blast
  show ?thesis
    by (rule that [of t'])
      (use r True assms(4,5) purge_forgets [OF assms(3) r(3,4) full] in \<open>auto simp: make_room_def map_of_purged\<close>)
next
  case False
  then show ?thesis using that [of t] assms(3-5) by (simp add: make_room_def)
qed

lemma forgets_skeleton:
  assumes "skeleton (mt_htab t1) = skeleton (mt_htab t)" "mt_maxSize t1 = mt_maxSize t" "forgets t1 t' k"
  shows "forgets t t' k"
  using assms(2,3) skeleton_eqD(2) [OF assms(1)] pinned_skeleton [OF assms(1)] by (simp add: forgets_def)

text \<open>The effect of an insertion or update on the contents.\<close>

definition inserted :: "'k \<Rightarrow> 'd \<Rightarrow> bool \<Rightarrow> bool \<Rightarrow> ('k, 'd) mfu_table \<Rightarrow> bool \<times> ('k, 'd) mfu_table \<Rightarrow> bool" where
  "inserted k d pin upd t = (\<lambda>(b, t').
     (b \<longleftrightarrow> contents t k = None)
     \<and> contents t' k = (if b \<or> upd then Some d else contents t k)
     \<and> (\<forall>k'. k' \<noteq> k \<longrightarrow> contents t' k' = contents t k' \<or> forgets t t' k')
     \<and> pinned_keys t' = pinned_keys t \<union> (if b \<and> pin then {k} else {})
     \<and> mt_maxSize t' = mt_maxSize t + (if b \<and> pin then 1 else 0))"

lemma insert_present:
  assumes "width_ok bits" "mfu_inv bits t" "map_of (mt_htab t) k \<noteq> None"
  shows "\<exists>r. mfu_insert bits ord rnd k d pin upd t = Some (Some r) \<and> mfu_inv bits (snd r) \<and> inserted k d pin upd t r"
proof -
  let ?t = "bump bits k (updateAcc bits 1 0 t)"
  have sk: "skeleton (mt_htab ?t) = skeleton (mt_htab t)" by simp
  have inv: "mfu_inv bits ?t" by (rule touch_inv [OF assms(1,2)])
  have same: "contents ?t = contents t" "pinned_keys ?t = pinned_keys t"
    using contents_skeleton [OF sk] pinned_skeleton [OF sk] by simp_all
  have at: "contents t k \<noteq> None" using assms(3) by (auto simp: contents_def)
  then have at': "map_of (mt_htab ?t) k \<noteq> None" unfolding same(1) [symmetric] contents_def by auto
  show ?thesis
    using assms(3) inv same at set_data_facts [OF inv at', of d] by (auto simp: mfu_insert_def inserted_def Let_def)
qed

lemma insert_pinned:
  fixes t :: "('k, 'd) mfu_table" and d :: 'd
  assumes "rearranges ord" "mfu_inv bits t" "map_of (mt_htab t) k = None" "mt_maxSize t + 1 < 2 ^ 32"
  defines "t' \<equiv> emplace ord k (MFUData d True) (t\<lparr>mt_maxSize := mt_maxSize t + 1\<rparr>)"
  shows "mfu_inv bits t'" "contents t' = (contents t)(k \<mapsto> d)" "pinned_keys t' = insert k (pinned_keys t)"
proof -
  let ?t = "t\<lparr>mt_maxSize := mt_maxSize t + 1\<rparr>"
  have dist: "distinct (map fst (mt_htab ?t))" and none: "map_of (mt_htab ?t) k = None"
    and c: "count_inv bits ?t"
    using assms(2,3) by (simp_all add: mfu_inv_def shape_inv_def count_inv_def)
  note em = emplace_facts [OF assms(1) dist none, of "MFUData d True", folded t'_def]
  have mx: "mt_maxSize t' = mt_maxSize t + 1" by (simp add: t'_def emplace_def)
  have "shape_inv t'"
    using assms(2,4) em(2,3,5) mx by (simp add: shape_inv_def mfu_inv_def)
  moreover have "count_inv bits t'" unfolding t'_def by (rule emplace_count [OF assms(1) dist none c])
  ultimately show "mfu_inv bits t'" by (simp add: mfu_inv_def)
  show "contents t' = (contents t)(k \<mapsto> d)" by (rule ext) (simp add: contents_def em(1))
  show "pinned_keys t' = insert k (pinned_keys t)" by (auto simp: pinned_keys_def em(4))
qed

lemma insert_unpinned:
  fixes t :: "('k, 'd) mfu_table" and d :: 'd
  assumes "rearranges ord" "mfu_inv bits t" "map_of (mt_htab t) k = None" "length (mt_htab t) < mt_maxSize t"
  defines "t' \<equiv> emplace ord k (MFUData d False) t"
  shows "mfu_inv bits t'" "contents t' = (contents t)(k \<mapsto> d)" "pinned_keys t' = pinned_keys t" "mt_maxSize t' = mt_maxSize t"
proof -
  have dist: "distinct (map fst (mt_htab t))" and c: "count_inv bits t"
    using assms(2) by (simp_all add: mfu_inv_def shape_inv_def)
  note em = emplace_facts [OF assms(1) dist assms(3), of "MFUData d False", folded t'_def]
  show mx: "mt_maxSize t' = mt_maxSize t" by (simp add: t'_def emplace_def)
  have "shape_inv t'"
    using assms(2,4) em(2,3,5) mx by (simp add: shape_inv_def mfu_inv_def)
  moreover have "count_inv bits t'" unfolding t'_def by (rule emplace_count [OF assms(1) dist assms(3) c])
  ultimately show "mfu_inv bits t'" by (simp add: mfu_inv_def)
  show "contents t' = (contents t)(k \<mapsto> d)" by (rule ext) (simp add: contents_def em(1))
  show "pinned_keys t' = pinned_keys t" by (auto simp: pinned_keys_def em(4))
qed

lemma insert_absent:
  assumes "width_ok bits" "fair rnd" "rearranges ord" "mfu_inv bits t" "map_of (mt_htab t) k = None"
    and "pin \<Longrightarrow> mt_maxSize t + 1 < 2 ^ 32"
  shows "\<exists>r. mfu_insert bits ord rnd k d pin upd t = Some (Some r) \<and> mfu_inv bits (snd r) \<and> inserted k d pin upd t r"
proof -
  let ?t = "updateAcc bits 1 1 t"
  have sk: "skeleton (mt_htab ?t) = skeleton (mt_htab t)" by simp
  have inv: "mfu_inv bits ?t" by (rule touch_inv [OF assms(1,4)])
  have same: "contents ?t = contents t" "pinned_keys ?t = pinned_keys t"
    using contents_skeleton [OF sk] pinned_skeleton [OF sk] by simp_all
  have at: "contents t k = None" using assms(5) by (simp add: contents_def)
  have none: "map_of (mt_htab ?t) k = None" using at unfolding same(1) [symmetric] contents_def by simp
  have eq: "mfu_insert bits ord rnd k d pin upd t =
      map_option (map_option (\<lambda>t'. (True, emplace ord k (MFUData d pin) t'))) (make_room bits rnd pin ?t)"
    using assms(5) by (auto simp: mfu_insert_def make_room_def Let_def)
  show ?thesis
  proof (cases pin)
    case True
    have big: "mt_maxSize ?t + 1 < 2 ^ 32" using assms(6) True by simp
    note ins = insert_pinned [OF assms(3) inv none big, of d]
    have "make_room bits rnd pin ?t = Some (Some (?t\<lparr>mt_maxSize := mt_maxSize ?t + 1\<rparr>))"
      using True big by (simp add: make_room_def)
    then show ?thesis
      using True at ins same unfolding eq by (auto simp: inserted_def, auto simp: emplace_def)
  next
    case False
    obtain t' where r: "make_room bits rnd pin ?t = Some (Some t')" "mfu_inv bits t'" "length (mt_htab t') < mt_maxSize t'"
      "mt_maxSize t' = mt_maxSize ?t" "\<forall>k. contents t' k = contents ?t k \<or> forgets ?t t' k" "pinned_keys t' = pinned_keys ?t"
      "map_of (mt_htab t') k = None"
      using make_room_ok [OF assms(1,2) inv False none] by blast
    note ins = insert_unpinned [OF assms(3) r(2,7,3), of d]
    have "contents t' k' = contents t k' \<or> forgets t t' k'" for k'
      using r(5) same(1) forgets_skeleton [OF sk] by (metis updateAcc_rest(1))
    then show ?thesis
      using False at ins same r(1,4,6) unfolding eq by (auto simp: inserted_def forgets_def)
  qed
qed

lemma mfu_insert_ok:
  assumes "width_ok bits" "fair rnd" "rearranges ord" "mfu_inv bits t" "pin \<Longrightarrow> mt_maxSize t + 1 < 2 ^ 32"
  shows "\<exists>r. mfu_insert bits ord rnd k d pin upd t = Some (Some r) \<and> mfu_inv bits (snd r) \<and> inserted k d pin upd t r"
  using insert_present [OF assms(1,4)] insert_absent [OF assms(1-4) _ assms(5)] by (cases "map_of (mt_htab t) k = None") auto

lemma mfu_lookup_ok:
  assumes "width_ok bits" "mfu_inv bits t"
  shows "map_option md_data (fst (mfu_lookup bits k t)) = contents t k" "mfu_inv bits (snd (mfu_lookup bits k t))"
    "contents (snd (mfu_lookup bits k t)) = contents t" "pinned_keys (snd (mfu_lookup bits k t)) = pinned_keys t"
    "mt_maxSize (snd (mfu_lookup bits k t)) = mt_maxSize t"
proof -
  let ?t = "snd (mfu_lookup bits k t)"
  have sk: "skeleton (mt_htab ?t) = skeleton (mt_htab t)"
    by (simp add: mfu_lookup_def Let_def split: option.split)
  show c: "contents ?t = contents t" "pinned_keys ?t = pinned_keys t"
    using contents_skeleton [OF sk] pinned_skeleton [OF sk] by simp_all
  show "mfu_inv bits ?t" using touch_inv [OF assms] by (simp add: mfu_lookup_def Let_def split: option.split)
  show "mt_maxSize ?t = mt_maxSize t" by (simp add: mfu_lookup_def Let_def split: option.split)
  have "fst (mfu_lookup bits k t) = map_of (mt_htab ?t) k \<or> fst (mfu_lookup bits k t) = None \<and> map_of (mt_htab t) k = None"
    by (simp add: mfu_lookup_def Let_def split: option.split)
  then show "map_option md_data (fst (mfu_lookup bits k t)) = contents t k"
    using c(1) by (metis contents_def option.map(1))
qed

lemma npinned_filter_other:
  assumes "distinct (map fst h)" "map_of h k = Some d"
  shows "npinned (filter (\<lambda>(k', _). k' \<noteq> k) h) = npinned h - (if md_pinned d then 1 else 0)"
    "Suc (length (filter (\<lambda>(k', _). k' \<noteq> k) h)) = length h"
    "md_pinned d \<Longrightarrow> 0 < npinned h"
proof -
  have "npinned h = npinned (filter (\<lambda>(k', _). k' \<noteq> k) h) + (if md_pinned d then 1 else 0) \<and>
      Suc (length (filter (\<lambda>(k', _). k' \<noteq> k) h)) = length h"
    using assms
  proof (induction h)
    case (Cons e h)
    obtain k' d' where e: "e = (k', d')" by (cases e)
    show ?case
    proof (cases "k' = k")
      case True
      have "filter (\<lambda>(k', _). k' \<noteq> k) h = h"
        using Cons.prems(1) e True by (force simp: filter_id_conv)
      then show ?thesis using True e Cons.prems(2) by (simp add: npinned_def)
    next
      case False
      then show ?thesis using Cons e by (auto simp: npinned_def)
    qed
  qed simp
  then show "npinned (filter (\<lambda>(k', _). k' \<noteq> k) h) = npinned h - (if md_pinned d then 1 else 0)"
    "Suc (length (filter (\<lambda>(k', _). k' \<noteq> k) h)) = length h" "md_pinned d \<Longrightarrow> 0 < npinned h"
    by auto
qed

lemma map_of_filter_other: "map_of (filter (\<lambda>(k', _). k' \<noteq> k) h) = (map_of h)(k := None)"
  by (induction h) auto

lemma remove_entry:
  assumes inv: "mfu_inv bits t" and at: "map_of (mt_htab t) k = Some d" and "\<not> md_pinned d \<or> force"
  shows "mfu_inv bits (snd (mfu_remove k force t))" "contents (snd (mfu_remove k force t)) = (contents t)(k := None)"
    "pinned_keys (snd (mfu_remove k force t)) = pinned_keys t - {k}" "mt_maxSize (snd (mfu_remove k force t)) \<le> mt_maxSize t"
proof -
  let ?t = "snd (mfu_remove k force t)"
  have dist: "distinct (map fst (mt_htab t))" and shape: "shape_inv t" using inv by (simp_all add: mfu_inv_def shape_inv_def)
  have h: "mt_htab ?t = filter (\<lambda>(k', _). k' \<noteq> k) (mt_htab t)" using at assms(3) by (simp add: mfu_remove_def)
  have dist': "distinct (map fst (mt_htab ?t))" unfolding h using dist by (simp add: distinct_map_filter)
  have "(mt_maxSize t + 2 ^ 32 - 1) mod 2 ^ 32 = mt_maxSize t - 1"
  proof -
    have "mt_maxSize t + 2 ^ 32 - 1 = (mt_maxSize t - 1) + 2 ^ 32" "mt_maxSize t - 1 < 2 ^ 32"
      using shape by (auto simp: shape_inv_def)
    then show ?thesis by (simp only: mod_add_self2 mod_less)
  qed
  then have mx: "mt_maxSize ?t = mt_maxSize t - (if md_pinned d then 1 else 0)"
    using at assms(3) by (simp add: mfu_remove_def)
  then show "mt_maxSize ?t \<le> mt_maxSize t" by simp
  have "shape_inv ?t"
    using shape dist' mx npinned_filter_other [OF dist at] unfolding shape_inv_def h by auto
  moreover have "count_inv bits ?t"
    by (rule count_inv_upd [of bits t, OF _ h])
      (use inv at assms(3) in \<open>auto simp: mfu_inv_def count_inv_def mfu_remove_def\<close>)
  ultimately show "mfu_inv bits ?t" by (simp add: mfu_inv_def)
  show "contents ?t = (contents t)(k := None)"
    by (rule ext) (simp add: contents_def h map_of_filter_other)
  show "pinned_keys ?t = pinned_keys t - {k}"
    by (auto simp: pinned_keys_def h)
qed

lemma mfu_remove_ok:
  assumes "mfu_inv bits t"
  shows "mfu_inv bits (snd (mfu_remove k force t))"
    "contents (snd (mfu_remove k force t)) = (if force \<or> k \<notin> pinned_keys t then (contents t)(k := None) else contents t)"
    "pinned_keys (snd (mfu_remove k force t)) = (if force then pinned_keys t - {k} else pinned_keys t)"
    "mt_maxSize (snd (mfu_remove k force t)) \<le> mt_maxSize t"
proof -
  have dist: "distinct (map fst (mt_htab t))" using assms by (simp add: mfu_inv_def shape_inv_def)
  note pin = pinned_keys_iff [OF dist]
  have "mfu_inv bits (snd (mfu_remove k force t)) \<and>
    contents (snd (mfu_remove k force t)) = (if force \<or> k \<notin> pinned_keys t then (contents t)(k := None) else contents t) \<and>
    pinned_keys (snd (mfu_remove k force t)) = (if force then pinned_keys t - {k} else pinned_keys t) \<and>
    mt_maxSize (snd (mfu_remove k force t)) \<le> mt_maxSize t"
  proof (cases "map_of (mt_htab t) k")
    case None
    then have "contents t k = None" "k \<notin> pinned_keys t" using pin [of k] by (simp_all add: contents_def)
    then show ?thesis using None assms by (auto simp: mfu_remove_def fun_upd_idem)
  next
    case (Some d)
    show ?thesis
    proof (cases "\<not> md_pinned d \<or> force")
      case True
      then show ?thesis using remove_entry [OF assms Some True] pin [of k] Some by auto
    next
      case False
      then show ?thesis using Some assms pin [of k] by (simp add: mfu_remove_def)
    qed
  qed
  then show "mfu_inv bits (snd (mfu_remove k force t))"
    "contents (snd (mfu_remove k force t)) = (if force \<or> k \<notin> pinned_keys t then (contents t)(k := None) else contents t)"
    "pinned_keys (snd (mfu_remove k force t)) = (if force then pinned_keys t - {k} else pinned_keys t)"
    "mt_maxSize (snd (mfu_remove k force t)) \<le> mt_maxSize t"
    by blast+
qed

lemma mfu_init_inv: "8 \<le> n \<Longrightarrow> n \<noteq> 9 \<Longrightarrow> n < 2 ^ 32 \<Longrightarrow> mfu_inv bits (mfu_init n)"
  by (simp add: mfu_inv_def shape_inv_def count_inv_def mfu_init_def npinned_def UINT_MAX_def)

end
