(* ===== verification/Mfu_Dict.thy ===== *)
theory Mfu_Dict
  imports Mfu_Props
begin

text \<open>
  The contract of the bounded table as its clients see it: a dictionary that may forget what is
  not pinned. The contract is a locale, the table of \<open>lib/BaseMFUTab.h\<close> interprets it, and the
  properties of whole runs follow.
\<close>

section \<open>Runs of a dictionary\<close>

datatype ('e, 'k, 'd) dict_op =
    Put 'e 'k 'd bool
  | Get 'k
  | Del 'k bool

fun dict_run :: "('e \<Rightarrow> 'k \<Rightarrow> 'd \<Rightarrow> bool \<Rightarrow> 's \<Rightarrow> 's option) \<Rightarrow> ('k \<Rightarrow> 's \<Rightarrow> 'd option \<times> 's) \<Rightarrow> ('k \<Rightarrow> bool \<Rightarrow> 's \<Rightarrow> 's)
    \<Rightarrow> ('e, 'k, 'd) dict_op list \<Rightarrow> 's \<Rightarrow> ('d option list \<times> 's) option" where
  "dict_run put get del [] s = Some ([], s)"
| "dict_run put get del (Put e k d pin # ops) s =
     (case put e k d pin s of None \<Rightarrow> None | Some s' \<Rightarrow> dict_run put get del ops s')"
| "dict_run put get del (Get k # ops) s =
     (case get k s of (a, s') \<Rightarrow> map_option (\<lambda>(as, s''). (a # as, s'')) (dict_run put get del ops s'))"
| "dict_run put get del (Del k force # ops) s = dict_run put get del ops (del k force s)"

text \<open>
  The specification: a map that forgets nothing, the keys that were ever put with a pin, and the
  keys that are surely pinned because they were absent when they were put with a pin.
\<close>

record ('k, 'd) dict_spec =
  ds_map :: "'k \<Rightarrow> 'd option"
  ds_ever :: "'k set"
  ds_sure :: "'k set"

fun dict_step :: "('e, 'k, 'd) dict_op \<Rightarrow> ('k, 'd) dict_spec \<Rightarrow> ('k, 'd) dict_spec" where
  "dict_step (Put e k d pin) sp =
     sp\<lparr>ds_map := (ds_map sp)(k \<mapsto> d), ds_ever := ds_ever sp \<union> (if pin then {k} else {}),
        ds_sure := ds_sure sp \<union> (if pin \<and> ds_map sp k = None then {k} else {})\<rparr>"
| "dict_step (Get k) sp = sp"
| "dict_step (Del k force) sp =
     (if force \<or> k \<notin> ds_ever sp then sp\<lparr>ds_map := (ds_map sp)(k := None), ds_sure := ds_sure sp - {k}\<rparr> else sp)"

fun dict_answers :: "('e, 'k, 'd) dict_op list \<Rightarrow> ('k, 'd) dict_spec \<Rightarrow> ('d option \<times> bool) list" where
  "dict_answers [] sp = []"
| "dict_answers (op # ops) sp =
     (case op of Get k \<Rightarrow> [(ds_map sp k, k \<in> ds_sure sp)] | _ \<Rightarrow> []) @ dict_answers ops (dict_step op sp)"

text \<open>An answer is the specified one, or, for a key that is not surely pinned, no answer.\<close>

definition answer_ok :: "'d option \<Rightarrow> 'd option \<times> bool \<Rightarrow> bool" where
  "answer_ok a = (\<lambda>(v, sure). a = v \<or> a = None \<and> \<not> sure)"

fun pins :: "('e, 'k, 'd) dict_op list \<Rightarrow> nat" where
  "pins [] = 0"
| "pins (Put e k d pin # ops) = (if pin then 1 else 0) + pins ops"
| "pins (_ # ops) = pins ops"

fun envs_ok :: "('e \<Rightarrow> bool) \<Rightarrow> ('e, 'k, 'd) dict_op list \<Rightarrow> bool" where
  "envs_ok good [] = True"
| "envs_ok good (Put e k d pin # ops) = (good e \<and> envs_ok good ops)"
| "envs_ok good (_ # ops) = envs_ok good ops"

locale forgetful_dict =
  fixes good :: "'e \<Rightarrow> bool"
    and invar :: "'s \<Rightarrow> bool"
    and holds :: "'s \<Rightarrow> 'k \<Rightarrow> 'd option"
    and kept :: "'s \<Rightarrow> 'k set"
    and slack :: "'s \<Rightarrow> nat"
    and put :: "'e \<Rightarrow> 'k \<Rightarrow> 'd \<Rightarrow> bool \<Rightarrow> 's \<Rightarrow> 's option"
    and get :: "'k \<Rightarrow> 's \<Rightarrow> 'd option \<times> 's"
    and del :: "'k \<Rightarrow> bool \<Rightarrow> 's \<Rightarrow> 's"
  assumes put_law: "invar s \<Longrightarrow> good e \<Longrightarrow> (pin \<Longrightarrow> 0 < slack s) \<Longrightarrow>
      \<exists>s'. put e k d pin s = Some s' \<and> invar s' \<and> holds s' k = Some d
        \<and> (\<forall>k'. k' \<noteq> k \<longrightarrow> holds s' k' = holds s k' \<or> holds s' k' = None \<and> k' \<notin> kept s)
        \<and> kept s' = kept s \<union> (if pin \<and> holds s k = None then {k} else {})
        \<and> slack s \<le> slack s' + (if pin then 1 else 0)"
    and get_law: "invar s \<Longrightarrow>
      fst (get k s) = holds s k \<and> invar (snd (get k s)) \<and> holds (snd (get k s)) = holds s
        \<and> kept (snd (get k s)) = kept s \<and> slack s \<le> slack (snd (get k s))"
    and del_law: "invar s \<Longrightarrow>
      invar (del k force s)
        \<and> holds (del k force s) = (if force \<or> k \<notin> kept s then (holds s)(k := None) else holds s)
        \<and> kept (del k force s) = (if force then kept s - {k} else kept s)
        \<and> slack s \<le> slack (del k force s)"
    and kept_held: "invar s \<Longrightarrow> k \<in> kept s \<Longrightarrow> holds s k \<noteq> None"
begin

lemma put_refines:
  assumes "invar s" "good e" "pin \<Longrightarrow> 0 < slack s"
    and rel: "holds s \<subseteq>\<^sub>m ds_map sp" "kept s \<subseteq> ds_ever sp" "ds_sure sp \<subseteq> kept s"
  shows "\<exists>s'. put e k d pin s = Some s' \<and> invar s' \<and> holds s' \<subseteq>\<^sub>m ds_map (dict_step (Put e k d pin) sp)
           \<and> kept s' \<subseteq> ds_ever (dict_step (Put e k d pin) sp) \<and> ds_sure (dict_step (Put e k d pin) sp) \<subseteq> kept s'
           \<and> slack s \<le> slack s' + (if pin then 1 else 0)"
proof -
  obtain s' where s': "put e k d pin s = Some s'" "invar s'" "holds s' k = Some d"
    "\<forall>k'. k' \<noteq> k \<longrightarrow> holds s' k' = holds s k' \<or> holds s' k' = None \<and> k' \<notin> kept s"
    "kept s' = kept s \<union> (if pin \<and> holds s k = None then {k} else {})" "slack s \<le> slack s' + (if pin then 1 else 0)"
    using put_law [OF assms(1-3)] by blast
  have "holds s' x = (ds_map (dict_step (Put e k d pin) sp)) x" if "holds s' x \<noteq> None" for x
  proof (cases "x = k")
    case False
    then have "holds s' x = holds s x" using s'(4) [rule_format, OF False] that by auto
    moreover from this that have "holds s x = ds_map sp x" using rel(1) by (simp add: map_le_def dom_def)
    ultimately show ?thesis using False by simp
  qed (simp add: s'(3))
  then have "holds s' \<subseteq>\<^sub>m ds_map (dict_step (Put e k d pin) sp)" by (auto simp: map_le_def dom_def)
  moreover have "holds s k = None" if "ds_map sp k = None"
    using that rel(1) by (metis domIff map_le_def)
  ultimately show ?thesis using s'(1,2,5,6) rel(2,3) by (auto split: if_splits)
qed

lemma del_refines:
  assumes "invar s" and rel: "holds s \<subseteq>\<^sub>m ds_map sp" "kept s \<subseteq> ds_ever sp" "ds_sure sp \<subseteq> kept s"
  shows "holds (del k force s) \<subseteq>\<^sub>m ds_map (dict_step (Del k force) sp)"
    "kept (del k force s) \<subseteq> ds_ever (dict_step (Del k force) sp)"
    "ds_sure (dict_step (Del k force) sp) \<subseteq> kept (del k force s)"
proof -
  have h: "holds (del k force s) = (if force \<or> k \<notin> kept s then (holds s)(k := None) else holds s)"
    and kp: "kept (del k force s) = (if force then kept s - {k} else kept s)"
    using del_law [OF assms(1)] by blast+
  show "holds (del k force s) \<subseteq>\<^sub>m ds_map (dict_step (Del k force) sp)"
    unfolding h using rel(1,2) by (auto simp: map_le_def)
  show "kept (del k force s) \<subseteq> ds_ever (dict_step (Del k force) sp)" unfolding kp using rel(2) by auto
  show "ds_sure (dict_step (Del k force) sp) \<subseteq> kept (del k force s)" unfolding kp using rel(2,3) by auto
qed

lemma get_refines:
  assumes "invar s" and rel: "holds s \<subseteq>\<^sub>m ds_map sp" "ds_sure sp \<subseteq> kept s"
  shows "answer_ok (fst (get k s)) (ds_map sp k, k \<in> ds_sure sp)"
proof -
  have "fst (get k s) = holds s k" using get_law [OF assms(1)] by blast
  moreover have "holds s k = None \<or> holds s k = ds_map sp k" using rel(1) by (auto simp: map_le_def dom_def)
  moreover have "holds s k \<noteq> None" if "k \<in> ds_sure sp" using kept_held [OF assms(1)] rel(2) that by blast
  ultimately show ?thesis by (auto simp: answer_ok_def)
qed

lemma run_refines:
  assumes "invar s" "envs_ok good ops" "pins ops \<le> slack s"
    and "holds s \<subseteq>\<^sub>m ds_map sp" "kept s \<subseteq> ds_ever sp" "ds_sure sp \<subseteq> kept s"
  shows "\<exists>as s'. dict_run put get del ops s = Some (as, s') \<and> invar s' \<and> list_all2 answer_ok as (dict_answers ops sp)
           \<and> slack s \<le> slack s' + pins ops"
  using assms
proof (induction ops arbitrary: s sp)
  case (Cons op ops)
  show ?case
  proof (cases op)
    case (Put e k d pin)
    have "good e" "pin \<Longrightarrow> 0 < slack s" using Cons.prems(2,3) Put by auto
    then obtain s' where s': "put e k d pin s = Some s'" "invar s'" "holds s' \<subseteq>\<^sub>m ds_map (dict_step op sp)"
        "kept s' \<subseteq> ds_ever (dict_step op sp)" "ds_sure (dict_step op sp) \<subseteq> kept s'"
        "slack s \<le> slack s' + (if pin then 1 else 0)"
      using put_refines [OF Cons.prems(1) _ _ Cons.prems(4-6)] unfolding Put by blast
    have "pins ops \<le> slack s'" "envs_ok good ops" using Cons.prems(2,3) s'(6) Put by (auto split: if_splits)
    with Cons.IH [OF s'(2) _ _ s'(3-5)] s'(1,6) Put show ?thesis by fastforce
  next
    case (Get k)
    note g = get_law [OF Cons.prems(1), of k]
    have "\<exists>as s'. dict_run put get del ops (snd (get k s)) = Some (as, s') \<and> invar s' \<and> list_all2 answer_ok as (dict_answers ops sp)
        \<and> slack (snd (get k s)) \<le> slack s' + pins ops"
      by (rule Cons.IH) (use Cons.prems g Get in auto)
    then show ?thesis
      using get_refines [OF Cons.prems(1,4,6), of k] Get g by (fastforce simp: case_prod_unfold)
  next
    case (Del k force)
    have "\<exists>as s'. dict_run put get del ops (del k force s) = Some (as, s') \<and> invar s' \<and> list_all2 answer_ok as (dict_answers ops (dict_step op sp))
        \<and> slack (del k force s) \<le> slack s' + pins ops"
      unfolding Del by (rule Cons.IH) (use Cons.prems(2,3) Del del_law [OF Cons.prems(1), of k force]
          del_refines [OF Cons.prems(1,4-6), of k force] in auto)
    then show ?thesis using Del del_law [OF Cons.prems(1), of k force] by fastforce
  qed
qed simp

end

section \<open>The bounded table is such a dictionary\<close>

type_synonym ('k, 'd) mfu_env = "('k, 'd) hash_order \<times> (nat \<Rightarrow> nat)"

definition env_ok :: "('k, 'd) mfu_env \<Rightarrow> bool" where
  "env_ok e \<longleftrightarrow> rearranges (fst e) \<and> fair (snd e)"

definition table_put :: "('k, 'd) mfu_env \<Rightarrow> 'k \<Rightarrow> 'd \<Rightarrow> bool \<Rightarrow> ('k, 'd) mfu_table \<Rightarrow> ('k, 'd) mfu_table option" where
  "table_put e k d pin t = (case mfu_update 15 (fst e) (snd e) k d pin t of Some (Some (_, t')) \<Rightarrow> Some t' | _ \<Rightarrow> None)"

definition table_get :: "'k \<Rightarrow> ('k, 'd) mfu_table \<Rightarrow> 'd option \<times> ('k, 'd) mfu_table" where
  "table_get k t = (case mfu_lookup 15 k t of (d, t') \<Rightarrow> (map_option md_data d, t'))"

definition table_del :: "'k \<Rightarrow> bool \<Rightarrow> ('k, 'd) mfu_table \<Rightarrow> ('k, 'd) mfu_table" where
  "table_del k force t = snd (mfu_remove k force t)"

definition pins_left :: "('k, 'd) mfu_table \<Rightarrow> nat" where
  "pins_left t = 2 ^ 32 - 1 - mt_maxSize t"

lemma width_15 [simp]: "width_ok 15" by (simp add: width_ok_def)

interpretation mfu: forgetful_dict env_ok "mfu_inv 15" contents pinned_keys pins_left table_put table_get table_del
proof (unfold_locales, goal_cases)
  case (1 t e pin k d)
  have big: "pin \<Longrightarrow> mt_maxSize t + 1 < 2 ^ 32" using 1(3) by (auto simp: pins_left_def)
  obtain r where r: "mfu_insert 15 (fst e) (snd e) k d pin True t = Some (Some r)" "mfu_inv 15 (snd r)" "inserted k d pin True t r"
    using mfu_insert_ok [OF width_15 _ _ 1(1) big] 1(2) unfolding env_ok_def by blast
  then show ?case
    by (intro exI [of _ "snd r"])
      (auto simp: table_put_def mfu_update_def inserted_def forgets_def pins_left_def split: prod.splits)
next
  case (2 t k)
  then show ?case
    using mfu_lookup_ok [OF width_15 2, of k] by (simp add: table_get_def case_prod_unfold pins_left_def)
next
  case (3 t k force)
  then show ?case
    using mfu_remove_ok [OF 3, of k force] by (simp add: table_del_def pins_left_def)
next
  case (4 t k)
  then have "distinct (map fst (mt_htab t))" by (simp add: mfu_inv_def shape_inv_def)
  with 4(2) show ?case by (auto simp: pinned_keys_iff contents_def)
qed

section \<open>Properties\<close>

definition dict_empty :: "('k, 'd) dict_spec" where
  "dict_empty = \<lparr>ds_map = Map.empty, ds_ever = {}, ds_sure = {}\<rparr>"

text \<open>
  (C22) A table of at least eight entries (but not nine) serves any sequence of updates, lookups
  and removals, wherever the hash table puts its entries and whatever numbers \<open>random()\<close> gives,
  as long as they are not for ever multiples of the same number: it never gets stuck, it never
  holds more entries than its limit, which only pins raise, and every lookup answers with the
  value a dictionary that forgets nothing would give, or, for an entry that is not pinned, with
  nothing.
\<close>
theorem table_forgets_only_unpinned:
  fixes ops :: "(('k, 'd) mfu_env, 'k, 'd) dict_op list"
  assumes "8 \<le> n" "n \<noteq> 9" "n + pins ops < 2 ^ 32" "envs_ok env_ok ops"
  shows "\<exists>as t. dict_run table_put table_get table_del ops (mfu_init n) = Some (as, t)
    \<and> length (mt_htab t) \<le> mt_maxSize t \<and> mt_maxSize t \<le> n + pins ops
    \<and> list_all2 answer_ok as (dict_answers ops dict_empty)"
proof -
  let ?t = "mfu_init n :: ('k, 'd) mfu_table"
  have inv: "mfu_inv 15 ?t" by (rule mfu_init_inv) (use assms in auto)
  have le: "pins ops \<le> pins_left ?t" using assms(1,3) by (simp add: pins_left_def mfu_init_def)
  have start: "contents ?t \<subseteq>\<^sub>m ds_map dict_empty" "pinned_keys ?t \<subseteq> ds_ever dict_empty"
      "ds_sure dict_empty \<subseteq> pinned_keys ?t"
    by (simp_all add: dict_empty_def contents_def pinned_keys_def mfu_init_def map_le_def dom_def)
  obtain as t where r: "dict_run table_put table_get table_del ops ?t = Some (as, t)" "mfu_inv 15 t"
      "list_all2 answer_ok as (dict_answers ops dict_empty)" "pins_left ?t \<le> pins_left t + pins ops"
    using mfu.run_refines [OF inv assms(4) le start] by blast
  have "length (mt_htab t) \<le> mt_maxSize t" "mt_maxSize t < 2 ^ 32"
    using r(2) by (simp_all add: mfu_inv_def shape_inv_def)
  moreover from this have "mt_maxSize t \<le> n + pins ops"
    using r(4) assms(1,3) by (simp add: pins_left_def mfu_init_def)
  ultimately show ?thesis using r(1,3) by blast
qed

lemma fair_one: "fair (\<lambda>_. 1)"
  by (simp add: fair_def)

lemma fair_Suc: "fair (\<lambda>_. Suc 0)"
  using fair_one by simp

lemma rearranges_id: "rearranges id"
  by (simp add: rearranges_def)

definition sample_ops :: "((nat, string) mfu_env, nat, string) dict_op list" where
  "sample_ops = [Put (id, \<lambda>_. 1) 1 ''initd'' True, Put (id, \<lambda>_. 1) 7 ''sh'' False, Get 7, Del 7 False, Get 1, Get 7]"

lemma sample_ops_facts:
  "pins sample_ops = 1" "envs_ok env_ok sample_ops"
  "dict_answers sample_ops dict_empty = [(Some ''sh'', False), (Some ''initd'', True), (None, False)]"
  by (simp_all add: sample_ops_def env_ok_def fair_Suc rearranges_id dict_empty_def)

theorem table_forgets_only_unpinned_witness:
  "\<exists>as t. dict_run table_put table_get table_del sample_ops (mfu_init 8) = Some (as, t)
    \<and> length (mt_htab t) \<le> mt_maxSize t \<and> mt_maxSize t \<le> 9
    \<and> list_all2 answer_ok as [(Some ''sh'', False), (Some ''initd'', True), (None, False)]"
  using table_forgets_only_unpinned [of 8 sample_ops] by (simp add: sample_ops_facts)

text \<open>
  (C23) A purge of a full table with 15-bit counts does what its comments promise, if the room for
  unpinned entries is at least eight but not nine and \<open>random()\<close> does not give multiples of the
  same number for ever: it returns without reading outside its array, it removes no pinned entry,
  however seldom that was used, it leaves between 45 and 55 percent of the room for unpinned
  entries occupied, and no entry it removes was used more often than an unpinned entry it keeps.
\<close>
theorem purge_keeps_frequent:
  assumes "fair rnd" "mfu_inv 15 t" "length (mt_htab t) = mt_maxSize t"
  shows "\<exists>t' gone. purgeOld 15 rnd t = Some (Some t') \<and> mfu_inv 15 t' \<and> mt_htab t' = purged gone (mt_htab t)
    \<and> gone \<subseteq> fst ` set (unpinned (mt_htab t))
    \<and> targetMin t \<le> length (unpinned (mt_htab t')) \<and> length (unpinned (mt_htab t')) \<le> targetMax t
    \<and> (\<forall>(k, d) \<in> set (unpinned (mt_htab t)). \<forall>(k', d') \<in> set (unpinned (mt_htab t)).
         k \<in> gone \<longrightarrow> k' \<notin> gone \<longrightarrow> md_count d \<le> md_count d')"
proof -
  obtain gs t' where r: "purgeOld 15 rnd t = Some (Some t')" "mfu_inv 15 t'" "good_victims t gs"
    "mt_htab t' = purged (set gs) (mt_htab t)"
    using purge_ok_full [OF width_15 assms] by blast
  have small: "md_count d mod 2 ^ 15 = md_count d" if "(k, d) \<in> set (mt_htab t)" for k d
    by (rule mod_width) (use assms(2) that in \<open>auto simp: mfu_inv_def count_inv_def maxCount_def\<close>)
  have dist: "distinct (map fst (mt_htab t))" using assms(2) by (simp add: mfu_inv_def shape_inv_def)
  note g = r(3) [unfolded good_victims_def]
  have "unpinned (purged (set gs) (mt_htab t)) = map (\<lambda>(k, d). (k, d\<lparr>md_count := 1\<rparr>)) (filter (\<lambda>(k, _). k \<notin> set gs) (unpinned (mt_htab t)))"
    by (simp add: unpinned_def purged_def filter_map comp_def case_prod_unfold conj_commute)
  moreover have "length (filter (\<lambda>(k, _). k \<notin> set gs) (unpinned (mt_htab t))) + length gs = length (unpinned (mt_htab t))"
    by (rule length_filter_keys) (use g dist in \<open>auto simp: unpinned_def distinct_map_filter\<close>)
  ultimately have "length (unpinned (mt_htab t')) + length gs = length (unpinned (mt_htab t))" using r(4) by simp
  then have "targetMin t \<le> length (unpinned (mt_htab t'))" "length (unpinned (mt_htab t')) \<le> targetMax t"
    using g by linarith+
  moreover have "md_count d \<le> md_count d'"
    if "(k, d) \<in> set (unpinned (mt_htab t))" "(k', d') \<in> set (unpinned (mt_htab t))" "k \<in> set gs" "k' \<notin> set gs" for k d k' d'
  proof -
    have "md_count d mod 2 ^ 15 \<le> md_count d' mod 2 ^ 15" using g that by blast
    moreover have "(k, d) \<in> set (mt_htab t)" "(k', d') \<in> set (mt_htab t)" using that(1,2) by (auto simp: unpinned_def)
    ultimately show ?thesis using small by metis
  qed
  ultimately show ?thesis
    using r g by (intro exI [of _ t'], intro exI [of _ "set gs"]) auto
qed

definition full_of :: "nat list \<Rightarrow> (nat, unit) mfu_table" where
  "full_of cs = (mfu_init (length cs))\<lparr>mt_maxCount := 2 ^ 15 - 4, mt_accesses := sum_list cs,
     mt_htab := map (\<lambda>(k, c). (k, \<lparr>md_data = (), md_pinned = False, md_count = c\<rparr>)) (zip [0..<length cs] cs)\<rparr>"

lemma full_of_eight: "mfu_inv 15 (full_of [1, 9, 1, 9, 1, 9, 1, 9])"
  by (simp add: full_of_def mfu_inv_def shape_inv_def count_inv_def mfu_init_def npinned_def maxCount_def UINT_MAX_def upt_rec)

theorem purge_keeps_frequent_witness:
  "\<exists>t' gone. purgeOld 15 (\<lambda>_. 1) (full_of [1, 9, 1, 9, 1, 9, 1, 9]) = Some (Some t') \<and> mfu_inv 15 t'
    \<and> mt_htab t' = purged gone (mt_htab (full_of [1, 9, 1, 9, 1, 9, 1, 9]))
    \<and> 3 \<le> length (unpinned (mt_htab t')) \<and> length (unpinned (mt_htab t')) \<le> 4"
proof -
  let ?t = "full_of [1, 9, 1, 9, 1, 9, 1, 9]"
  have t: "length (mt_htab ?t) = mt_maxSize ?t" "targetMin ?t = 3" "targetMax ?t = 4"
    by (simp_all add: full_of_def mfu_init_def targetMin_def targetMax_def purge_room_def npinned_def upt_rec)
  show ?thesis using purge_keeps_frequent [OF fair_one full_of_eight t(1), unfolded t(2,3)] by blast
qed

section \<open>Where the table fails\<close>

text \<open>With room for nine entries the two targets are equal, and two equal counts at the boundary
  are exchanged for ever.\<close>

lemma select_step_mod: "r mod (lst - first) = r' mod (lst - first) \<Longrightarrow> select_step r first lst key = select_step r' first lst key"
  by (simp add: select_step_def)

lemma select_stuck_step:
  assumes "length key = 11" "fst (key ! 5) = 1" "fst (key ! 6) = 1"
  shows "select_step r 5 6 key = Some (swap 5 6 key, 6)"
proof -
  have "swap 5 5 key = key" by (simp add: swap_def)
  moreover have "scan_up key 1 5 = Some 6" using assms by (subst scan_up.simps) simp
  moreover have "scan_down key 1 (Suc 6) = Some 6" using assms by (subst scan_down.simps(2)) simp
  ultimately have "swap 5 5 key = key" "hoare key 1 5 (Suc 6) = Some (key, 6)"
    by (simp_all add: hoare.simps del: scan_down.simps)
  then show ?thesis
    using assms by (simp add: select_step_def)
qed

lemma select_stuck:
  assumes "select_loop rnd c minR maxR first lst key = Some y"
  shows "\<not> (minR = 6 \<and> maxR = 6 \<and> first = 5 \<and> lst = 6 \<and> length key = 11 \<and> fst (key ! 5) = 1 \<and> fst (key ! 6) = 1)"
proof (rule select_loop.raw_induct [OF _ assms], goal_cases)
  case (1 loop rnd c minR maxR first lst key y)
  show ?case
  proof
    assume s: "minR = 6 \<and> maxR = 6 \<and> first = 5 \<and> lst = 6 \<and> length key = 11 \<and> fst (key ! 5) = 1 \<and> fst (key ! 6) = 1"
    then have "loop rnd (Suc c) 6 6 5 6 (swap 5 6 key) = Some y"
      using 1(2) select_stuck_step [of key "rnd c"] by simp
    from 1(1) [OF this] s show False by (simp add: nth_swap)
  qed
qed

definition nine :: "(nat, unit) mfu_table" where
  "nine = full_of [1, 1, 1, 1, 1, 1, 2, 2, 2]"

lemma nine_keys: "key_array 15 (mt_htab nine) = [(0, None), (1, Some 0), (1, Some 1), (1, Some 2), (1, Some 3), (1, Some 4),
    (1, Some 5), (2, Some 6), (2, Some 7), (2, Some 8), (32767, None)]"
  by (simp add: nine_def full_of_def key_array_def mfu_init_def maxCount_def upt_rec)

lemma scan_down_numeral:
  "scan_down key pc (numeral n) =
     (if pred_numeral n < length key
      then if pc < fst (key ! pred_numeral n) then scan_down key pc (pred_numeral n) else Some (pred_numeral n) else None)"
  by (simp add: numeral_eq_Suc)

lemmas run_select = select_step_def swap_def hoare.simps scan_up.simps scan_down_numeral Let_def

definition nine_keys1 :: "nat option keyslot list" where
  "nine_keys1 = [(0, None), (1, Some 3), (1, Some 5), (1, Some 4), (1, Some 0), (1, Some 2), (1, Some 1), (2, Some 6), (2, Some 7), (2, Some 8), (32767, None)]"

definition nine_keys2 :: "nat option keyslot list" where
  "nine_keys2 = [(0, None), (1, Some 3), (1, Some 5), (1, Some 4), (1, Some 0), (1, Some 1), (1, Some 2), (2, Some 6), (2, Some 7), (2, Some 8), (32767, None)]"

lemma nine_steps:
  "select_step 0 1 9 (key_array 15 (mt_htab nine)) = Some (nine_keys1, 4)"
  "select_step 0 5 9 nine_keys1 = Some (nine_keys2, 6)"
  unfolding nine_keys nine_keys1_def nine_keys2_def by (simp_all add: run_select)

text \<open>
  (C37) A table with room for nine unpinned entries can hang in a purge: the comment in the code
  says that room for at least eight makes the two targets differ, but for nine both are four. This
  is one such table: with six entries counted once and three counted twice, if the first two pivots
  are the first elements of their ranges, the selection never ends, whatever numbers \<open>random()\<close>
  gives after that. The result \<open>None\<close> is a selection that does not end; a read outside the array
  would be \<open>Some None\<close>.
\<close>
theorem purge_hangs_at_nine:
  assumes "rnd 0 mod 8 = 0" "rnd 1 mod 4 = 0"
  shows "distinct (map fst (mt_htab nine)) \<and> length (mt_htab nine) = mt_maxSize nine \<and> count_inv 15 nine
    \<and> purgeOld 15 rnd nine = None"
proof (intro conjI)
  show "distinct (map fst (mt_htab nine))" "length (mt_htab nine) = mt_maxSize nine" "count_inv 15 nine"
    by (simp_all add: nine_def full_of_def count_inv_def mfu_init_def maxCount_def UINT_MAX_def upt_rec)
  have s: "select_step (rnd 0) 1 9 (key_array 15 (mt_htab nine)) = Some (nine_keys1, 4)"
      "select_step (rnd (Suc 0)) 5 9 nine_keys1 = Some (nine_keys2, 6)"
    using nine_steps select_step_mod [of "rnd 0" 9 1 0 "key_array 15 (mt_htab nine)"]
      select_step_mod [of "rnd 1" 9 5 0 nine_keys1] assms by simp_all
  have "select_loop rnd 0 6 6 1 9 (key_array 15 (mt_htab nine)) = select_loop rnd (Suc (Suc 0)) 6 6 5 6 nine_keys2"
    using select_loop_step [where rnd = rnd and minR = 6 and maxR = 6, OF s(1)]
      select_loop_step [where rnd = rnd and minR = 6 and maxR = 6, OF s(2)] by simp
  moreover have "select_loop rnd (Suc (Suc 0)) 6 6 5 6 nine_keys2 = None"
  proof (cases "select_loop rnd (Suc (Suc 0)) 6 6 5 6 nine_keys2")
    case (Some y)
    from select_stuck [OF this] show ?thesis by (simp add: nine_keys2_def)
  qed simp
  moreover have "purge_zeros nine = nine" "length (mt_htab nine) = 9" "npinned (mt_htab nine) = 0" "mt_draws nine = 0"
      "targetMax nine = 4" "targetMin nine = 4"
    by (simp_all add: purge_zeros_def nine_def full_of_def mfu_init_def npinned_def targetMax_def targetMin_def purge_room_def upt_rec)
  ultimately show "purgeOld 15 rnd nine = None" by (simp add: purgeOld_def purge_selected_def Let_def)
qed

theorem purge_hangs_at_nine_witness:
  "((\<lambda>c. if c < 2 then 0 else 1) :: nat \<Rightarrow> nat) 0 mod 8 = 0 \<and> purgeOld 15 (\<lambda>c. if c < 2 then 0 else 1) nine = None"
  using purge_hangs_at_nine [of "\<lambda>c. if c < 2 then 0 else 1"] by simp

definition hot_set :: "(nat, unit) mfu_table" where
  "hot_set = (full_of [32769, 5, 5, 5, 5, 5, 5, 5])\<lparr>mt_maxCount := 40000\<rparr>"

lemma hot_set_facts:
  "mfu_inv 31 hot_set" "length (mt_htab hot_set) = mt_maxSize hot_set" "targetMin hot_set = 3" "targetMax hot_set = 4"
  "set (unpinned (mt_htab hot_set)) = insert (0, \<lparr>md_data = (), md_pinned = False, md_count = 32769\<rparr>)
     ((\<lambda>k. (k, \<lparr>md_data = (), md_pinned = False, md_count = 5\<rparr>)) ` set [1..<8])"
  "length (unpinned (mt_htab hot_set)) = 8"
  by (simp_all add: hot_set_def full_of_def mfu_inv_def shape_inv_def count_inv_def mfu_init_def npinned_def maxCount_def
      UINT_MAX_def targetMin_def targetMax_def purge_room_def unpinned_def upt_rec)

text \<open>
  (C38) A set counts with 31 bits, but a purge compares counts of 15 bits: an endpoint that was
  used 32769 times is removed as if it had been used once, while endpoints used five times stay.
\<close>
theorem set_purge_drops_most_frequent:
  assumes "fair rnd"
  shows "\<exists>t'. purgeOld 31 rnd hot_set = Some (Some t') \<and> contents hot_set 0 = Some () \<and> contents t' 0 = None
    \<and> (\<exists>k d. map_of (mt_htab hot_set) k = Some d \<and> md_count d = 5 \<and> contents t' k = Some ())"
proof -
  have "width_ok 31" by (simp add: width_ok_def)
  then obtain gs t' where r: "purgeOld 31 rnd hot_set = Some (Some t')" "good_victims hot_set gs"
      "mt_htab t' = purged (set gs) (mt_htab hot_set)"
    using purge_ok_full [OF _ assms hot_set_facts(1,2)] by blast
  note g = r(2) [unfolded good_victims_def hot_set_facts]
  have le: "length gs \<le> 5" "4 \<le> length gs" "distinct gs" using g by auto
  obtain a where a: "a \<in> set gs" using le(2) by (cases gs) auto
  have "\<not> set [1..<8] \<subseteq> set gs"
  proof
    assume "set [1..<8] \<subseteq> set gs"
    then have "card (set [1..<8]) \<le> card (set gs)" by (intro card_mono) auto
    then show False using le(1,3) by (simp add: distinct_card)
  qed
  then obtain b where b: "b \<in> set [1..<8]" "b \<notin> set gs" by blast
  have "0 \<in> set gs"
  proof (rule ccontr)
    assume no: "0 \<notin> set gs"
    have "a \<in> set [1..<8]" using a no g by auto
    then have "(5 :: nat) mod 2 ^ 15 \<le> 32769 mod 2 ^ 15" using g a no by auto
    then show False by simp
  qed
  moreover have "map_of (mt_htab hot_set) 0 \<noteq> None" "\<exists>d. map_of (mt_htab hot_set) b = Some d \<and> md_count d = 5"
    using b(1) by (auto simp: hot_set_def full_of_def mfu_init_def upt_rec)
  ultimately show ?thesis
    using r(1,3) b(2) by (auto simp: contents_def map_of_purged)
qed

theorem set_purge_drops_most_frequent_witness:
  "\<exists>t'. purgeOld 31 (\<lambda>_. 1) hot_set = Some (Some t') \<and> contents t' 0 = None"
  using set_purge_drops_most_frequent [OF fair_one] by blast

end
