(* ===== verification/Consumer_State.thy ===== *)
theory Consumer_State
  imports Record_Parser Obj_Id "HOL-Library.Multiset"
begin

text \<open>
  The state of the consumer of \<^verbatim>\<open>src/eConsumer.C\<close>: events under construction and in the queue,
  subjects, objects, the string table, the free list, the counters and the calls of the clients. Subjects live at addresses, because
  events point to them and a subject is deleted when its exit is executed; an access to a deleted
  subject is an outcome of its own. An event has one owner at any time (a subject's list of open
  events, a queue slot or the free list), so events are values. The counters that are only printed
  at the end are left out, unless the code also decides by them. \<open>procMap\<close>, \<open>nm2oi_map\<close> and
  \<open>id2nm_map\<close> are the bounded tables of \<open>Mfu_Table\<close> below their limits, where they forget nothing.
  Objects live at addresses too: \<open>cs_nm2oi\<close> and the code's pointers name an address and \<open>cs_objs\<close> says what
  is there. An update of \<open>nm2oi_map\<close> overwrites the pointer in the table and does not delete the object
  it pointed to; only a purge of the table, beyond its limit, deletes objects. Every client gets
  the same calls, so they are one list; there is no \<open>eRecorder\<close>, so the ids are the consumer's own.
\<close>

section \<open>Events\<close>

datatype sc_stat = NEITHER | ENTRY_SEEN | EXIT_SEEN | INJECTED_EXIT | BOTH_SEEN

fun stat_num :: "sc_stat \<Rightarrow> nat" where
  "stat_num NEITHER = 0"
| "stat_num ENTRY_SEEN = 1"
| "stat_num EXIT_SEEN = 2"
| "stat_num INJECTED_EXIT = 3"
| "stat_num BOTH_SEEN = 4"

type_synonym addr = nat
type_synonym objptr = nat

record evinfo =
  ev_code :: u8
  ev_status :: sc_stat
  ev_seqnum :: u16
  ev_fd :: s32
  ev_id :: s64
  ev_ts :: u64
  ev_arg0 :: u64
  ev_arg1 :: u64
  ev_arg2 :: u64
  ev_arg3 :: u64
  ev_si :: addr

definition ev_zero :: evinfo where
  "ev_zero = \<lparr>ev_code = 0, ev_status = NEITHER, ev_seqnum = 0, ev_fd = 0, ev_id = 0, ev_ts = 0,
     ev_arg0 = 0, ev_arg1 = 0, ev_arg2 = 0, ev_arg3 = 0, ev_si = 0\<rparr>"

text \<open>The two halves of an argument: \<open>u32[0]\<close> is the low one.\<close>

definition u32_0 :: "u64 \<Rightarrow> u32" where
  "u32_0 a = ucast a"

definition u32_1 :: "u64 \<Rightarrow> u32" where
  "u32_1 a = ucast (drop_bit 32 a)"

definition set_u32_0 :: "u32 \<Rightarrow> u64 \<Rightarrow> u64" where
  "set_u32_0 v a = push_bit 32 (ucast (u32_1 a)) OR ucast v"

definition set_u32_1 :: "u32 \<Rightarrow> u64 \<Rightarrow> u64" where
  "set_u32_1 v a = push_bit 32 (ucast v) OR ucast (u32_0 a)"

definition is_exit :: "evinfo \<Rightarrow> bool" where
  "is_exit e \<longleftrightarrow> ev_code e = EXIT_EN \<or> ev_code e = EXITGRP_EN"

section \<open>Objects and subjects\<close>

datatype otype = FILET | PIPET | SOCKETT

definition nulloiid :: "49 word" where
  "nulloiid = 2 ^ 48"

record obj =
  ob_nm :: u32
  ob_uid :: s32
  ob_gid :: s32
  ob_mtime :: u32
  ob_id :: u64
  ob_type :: otype
  ob_mode :: "12 word"
  ob_oid :: "49 word"
  ob_addr :: nat

definition obj_zero :: obj where
  "obj_zero = \<lparr>ob_nm = 0, ob_uid = 0, ob_gid = 0, ob_mtime = 0, ob_id = 0, ob_type = FILET, ob_mode = 0, ob_oid = 0, ob_addr = 0\<rparr>"

definition nullsiid :: u64 where
  "nullsiid = 2 ^ 48"

record subj =
  sj_id :: u64
  sj_tid :: s32
  sj_pid :: s32
  sj_ptid :: s32
  sj_uid :: s32
  sj_gid :: s32
  sj_seqnum :: s32
  sj_cwd :: "obj option"
  sj_exe :: "obj option"
  sj_args :: "u32 list"
  sj_envs :: "u32 list"
  sj_orphan :: bool
  sj_lastEv :: u64
  sj_exitTime :: u64
  sj_curEv :: "evinfo list"

definition subj_skeleton :: "u64 \<Rightarrow> s32 \<Rightarrow> s32 \<Rightarrow> s32 \<Rightarrow> s32 \<Rightarrow> s32 \<Rightarrow> u64 \<Rightarrow> bool \<Rightarrow> subj" where
  "subj_skeleton i tid pid ptid uid gid ts orph =
     \<lparr>sj_id = i, sj_tid = tid, sj_pid = pid, sj_ptid = ptid, sj_uid = uid, sj_gid = gid, sj_seqnum = 0,
      sj_cwd = None, sj_exe = None, sj_args = [], sj_envs = [],
      sj_orphan = orph, sj_lastEv = ts, sj_exitTime = - 1, sj_curEv = []\<rparr>"

text \<open>
  The constructors of a thread and of a clone copy the directory and the program of the parent, and
  read a null pointer if it has none. The constructor of a thread does not set
  \<open>definite_orphan\<close>; what the memory held is \<open>junk\<close>.
\<close>

definition has_dirs :: "subj \<Rightarrow> bool" where
  "has_dirs si \<longleftrightarrow> sj_cwd si \<noteq> None \<and> sj_exe si \<noteq> None"

definition subj_thread :: "bool \<Rightarrow> s32 \<Rightarrow> subj \<Rightarrow> u64 \<Rightarrow> subj option" where
  "subj_thread junk tid par ts =
     (if has_dirs par
      then Some \<lparr>sj_id = sj_id par, sj_tid = tid, sj_pid = sj_pid par, sj_ptid = sj_tid par, sj_uid = sj_uid par,
                 sj_gid = sj_gid par, sj_seqnum = 0, sj_cwd = sj_cwd par, sj_exe = sj_exe par,
                 sj_args = sj_args par, sj_envs = sj_envs par,
                 sj_orphan = junk, sj_lastEv = ts, sj_exitTime = - 1, sj_curEv = []\<rparr>
      else None)"

definition subj_clone :: "subj \<Rightarrow> subj option" where
  "subj_clone si = (if has_dirs si then Some (si\<lparr>sj_curEv := []\<rparr>) else None)"

section \<open>Calls of the clients\<close>

text \<open>One constructor per method of \<^verbatim>\<open>src/eClient.h\<close>; subjects and objects as they are at the call.\<close>

datatype (plugins only: code) client_call =
    K_existingSubj subj u64
  | K_existingObj subj obj u64
  | K_clone subj "subj option" s32 u64
  | K_execve subj obj s32 u64
  | K_exit subj s64 u64
  | K_kill subj subj s32 s64 u64
  | K_ptrace subj subj s32 s64 u64
  | K_setuid subj s64 s64 s64 s64 u64
  | K_setgid subj s64 s64 s64 s64 u64
  | K_accept subj obj s32 s64 u64
  | K_bind subj obj s32 s64 u64
  | K_connect subj obj s32 s64 u64
  | K_sendto subj obj s32 s64 u64
  | K_recvfrom subj obj s32 s64 u64
  | K_pipe subj s32 s32 u64
  | K_sockpair subj s32 s32 u64
  | K_dup subj s32 s32 u64
  | K_open subj obj s32 s32 s32 u64
  | K_close subj s32 u64
  | K_truncate subj obj s64 s64 u64 s32
  | K_mkdir subj u32 s32 s64 u64
  | K_mknod subj u32 s32 s32 s64 u64
  | K_read subj obj s32 s64 u64
  | K_write subj obj s32 s64 u64
  | K_vmsplice subj obj s32 s64 u64
  | K_mmap subj obj s64 s64 s32 s32 s64 u64
  | K_mprotect subj s64 s64 s32 s64 u64
  | K_link subj obj u32 s32 s64 u64
  | K_symlink subj obj u32 s64 u64
  | K_rename subj obj u32 s32 s64 u64
  | K_unlink subj obj s64 u64
  | K_chdir subj obj s64 u64 s32
  | K_chmod subj obj s32 s64 u64 s32
  | K_chown subj obj s32 s32 s32 s64 u64 s32
  | K_init_module subj u32 s64 u64
  | K_finit_module subj obj s32 u32 s32 s64 u64
  | K_mount subj u32 u32 u32 s64 s64 u64
  | K_umount subj u32 s64 s64 u64

section \<open>The state\<close>

definition QFAC :: nat where
  "QFAC = 2"

definition QSIZE :: nat where
  "QSIZE = QFAC * 65536"

record cstate =
  cs_q :: "nat \<Rightarrow> evinfo option"
  cs_qbeg :: nat
  cs_qsize :: nat
  cs_first_ts :: u64
  cs_latest_ts :: u64
  cs_curtime :: u64
  cs_maxts :: u64
  cs_last_compl :: u64
  cs_lastsn :: u16
  cs_procMap :: "s32 \<Rightarrow> addr option"
  cs_subj :: "addr \<Rightarrow> subj option"
  cs_next :: addr
  cs_free :: "evinfo list"
  cs_strtab :: "cstr list"
  cs_argvs :: "u32 list list"
  cs_nm2oi :: "u32 \<Rightarrow> objptr option"
  cs_objs :: "objptr \<Rightarrow> obj"
  cs_id2nm :: "u64 \<Rightarrow> u32 option"
  cs_nobj :: objptr
  cs_calls :: "client_call list"
  cs_nsucc :: nat
  cs_nfailed :: nat
  cs_nsubj :: nat
  cs_noutofseq :: nat
  cs_nforced :: nat
  cs_tooLate :: nat
  cs_ncollisions :: nat
  cs_nbad :: nat
  cs_expired :: nat
  cs_lost_clones :: nat
  cs_injected :: nat
  cs_done :: "evinfo list"
  cs_dropped :: "evinfo list"

text \<open>
  What the consumer asks of the system: whether it looks up missing information, the result of
  opening \<^verbatim>\<open>/proc/<n>\<close> and reading its status (thread group, parent, user, group), its directory,
  program, arguments and environment, the target of \<^verbatim>\<open>/proc/<n>/fd/<m>\<close> (as far as the buffer has room),
  the result of \<open>stat\<close>, the numeric host name of an address, the bytes behind a socket address, and
  uninitialised memory.
\<close>

record statbuf =
  st_mode :: u32
  st_uid :: s32
  st_gid :: s32
  st_atime :: s64
  st_mtime :: s64
  st_ctime :: s64

record cenv =
  ce_query :: bool
  ce_open :: "s32 \<Rightarrow> bool"
  ce_status :: "s32 \<Rightarrow> (s32 \<times> s32 \<times> s32 \<times> s32) option"
  ce_cwd :: "s32 \<Rightarrow> cstr option"
  ce_exe :: "s32 \<Rightarrow> cstr option"
  ce_cmdline :: "s32 \<Rightarrow> cstr option"
  ce_environ :: "s32 \<Rightarrow> cstr option"
  ce_fdlink :: "s32 \<Rightarrow> s32 \<Rightarrow> cstr option"
  ce_stat :: "cstr \<Rightarrow> statbuf option"
  ce_nameinfo :: "u8 list \<Rightarrow> cstr"
  ce_after :: "nat \<Rightarrow> u8"
  ce_junk :: bool

section \<open>Strings\<close>

definition nullstr :: u32 where
  "nullstr = - 1"

fun index_of :: "'a \<Rightarrow> 'a list \<Rightarrow> nat option" where
  "index_of x [] = None"
| "index_of x (y # ys) = (if x = y then Some 0 else map_option Suc (index_of x ys))"

definition create :: "cstr \<Rightarrow> cstate \<Rightarrow> u32 \<times> cstate" where
  "create t s =
     (case index_of t (cs_strtab s) of
        Some i \<Rightarrow> (of_nat i, s)
      | None \<Rightarrow> (of_nat (length (cs_strtab s)), s\<lparr>cs_strtab := cs_strtab s @ [t]\<rparr>))"

definition str :: "u32 \<Rightarrow> cstate \<Rightarrow> cstr" where
  "str i s = (if i = nullstr then [] else if unat i < length (cs_strtab s) then cs_strtab s ! unat i else cs_strtab s ! 0)"

fun create_all :: "cstr list \<Rightarrow> cstate \<Rightarrow> u32 list \<times> cstate" where
  "create_all [] s = ([], s)"
| "create_all (t # ts) s =
     (case create t s of (i, s) \<Rightarrow> case create_all ts s of (is, s) \<Rightarrow> (i # is, s))"

text \<open>The address of an argument vector is its position, counted from one; zero is the null pointer.\<close>

definition copyargv :: "cstr list \<Rightarrow> cstate \<Rightarrow> u64 \<times> cstate" where
  "copyargv argv s =
     (case create_all argv s of (is, s) \<Rightarrow>
        (of_nat (length (cs_argvs s) + 1), s\<lparr>cs_argvs := cs_argvs s @ [is @ [nullstr]]\<rparr>))"

definition argv_at :: "u64 \<Rightarrow> cstate \<Rightarrow> u32 list" where
  "argv_at p s = (if 0 < unat p \<and> unat p \<le> length (cs_argvs s) then takeWhile (\<lambda>i. i \<noteq> nullstr) (cs_argvs s ! (unat p - 1)) else [])"

section \<open>Endpoints\<close>

definition ascii :: "string \<Rightarrow> cstr" where
  "ascii t = map of_char t"

fun dec_digits :: "nat \<Rightarrow> cstr" where
  "dec_digits n = (if n < 10 then [of_nat (48 + n)] else dec_digits (n div 10) @ [of_nat (48 + n mod 10)])"

declare dec_digits.simps [simp del]

definition hexdigit :: "nat \<Rightarrow> u8" where
  "hexdigit c = (if c < 10 then of_nat (48 + c) else of_nat (97 + (c - 10)))"

fun hex_digits :: "nat \<Rightarrow> cstr" where
  "hex_digits n = (if n < 16 then [hexdigit n] else hex_digits (n div 16) @ [hexdigit (n mod 16)])"

declare hex_digits.simps [simp del]

definition dec_int :: "s32 \<Rightarrow> cstr" where
  "dec_int w = (if sint w < 0 then ascii ''-'' @ dec_digits (nat (- sint w)) else dec_digits (nat (sint w)))"

definition bin2str :: "u8 list \<Rightarrow> cstr" where
  "bin2str path = concat (map (\<lambda>b. if unat b < 128 then [b]
     else [92, 120, hexdigit (unat b div 16), hexdigit (unat b mod 16)]) path)"

definition upto_nul :: "u8 list \<Rightarrow> cstr" where
  "upto_nul bs = takeWhile (\<lambda>b. b \<noteq> 0) bs"

definition sa_byte :: "cenv \<Rightarrow> u8 list \<Rightarrow> nat \<Rightarrow> u8" where
  "sa_byte e sa i = (if i < length sa then sa ! i else ce_after e i)"

definition sa_le :: "cenv \<Rightarrow> u8 list \<Rightarrow> nat \<Rightarrow> nat \<Rightarrow> nat" where
  "sa_le e sa i n = foldr (\<lambda>k a. unat (sa_byte e sa (i + k)) + 256 * a) [0..<n] 0"

definition AF_LOCAL :: nat where "AF_LOCAL = 1"
definition ep_AF_INET :: nat where "ep_AF_INET = 2"
definition ep_AF_INET6 :: nat where "ep_AF_INET6 = 10"
definition AF_NETLINK :: nat where "AF_NETLINK = 16"

definition ep_local :: "u8 list \<Rightarrow> cstr" where
  "ep_local sa =
     (let path = drop 2 sa in
      if length sa = 2 then ascii ''unix:unnamed''
      else if path ! 0 = 0 then ascii ''unix:'' @ upto_nul (bin2str (take (min (length sa - 2) 246) path))
      else ascii ''unix:'' @ upto_nul (take (min 108 (length sa - 2)) path))"

definition ep_name :: "cenv \<Rightarrow> u8 list \<Rightarrow> cstr" where
  "ep_name e sa =
     (if length sa < 2 then ascii ''invalid''
      else let family = sa_le e sa 0 2 in
        if family = AF_LOCAL then ep_local sa
        else if family = ep_AF_INET
        then ascii ''IP4:'' @ ce_nameinfo e (map (sa_byte e sa) [4..<8]) @ ascii '':''
             @ dec_digits (256 * unat (sa_byte e sa 2) + unat (sa_byte e sa 3))
        else if family = AF_NETLINK
        then ascii ''netlink:'' @ dec_int (of_nat (sa_le e sa 4 4)) @ ascii ''/'' @ hex_digits (sa_le e sa 8 4)
        else if family = ep_AF_INET6
        then ascii ''IP6:'' @ ce_nameinfo e (map (sa_byte e sa) [8..<24]) @ ascii '':'' @ dec_digits (sa_le e sa 2 2)
        else [])"

definition getEp :: "cenv \<Rightarrow> u8 list \<Rightarrow> cstate \<Rightarrow> u32 \<times> cstate" where
  "getEp e sa s = create (ep_name e sa) s"

section \<open>Events and subjects of the state\<close>

definition newEvInfo :: "cstate \<Rightarrow> evinfo \<times> cstate" where
  "newEvInfo s =
     (case cs_free s of
        [] \<Rightarrow> (ev_zero, s)
      | e # es \<Rightarrow> (e, s\<lparr>cs_free := es\<rparr>))"

definition free_ev :: "evinfo \<Rightarrow> cstate \<Rightarrow> cstate" where
  "free_ev e s = s\<lparr>cs_free := e # cs_free s\<rparr>"

definition put_subj :: "addr \<Rightarrow> subj \<Rightarrow> cstate \<Rightarrow> cstate" where
  "put_subj a si s = s\<lparr>cs_subj := (cs_subj s)(a \<mapsto> si)\<rparr>"

definition new_subj :: "s32 \<Rightarrow> subj \<Rightarrow> cstate \<Rightarrow> addr \<times> cstate" where
  "new_subj tid si s =
     (cs_next s,
      s\<lparr>cs_subj := (cs_subj s)(cs_next s \<mapsto> si), cs_procMap := (cs_procMap s)(tid \<mapsto> cs_next s),
        cs_next := Suc (cs_next s), cs_nsubj := cs_nsubj s + 1\<rparr>)"

definition getSubj :: "s32 \<Rightarrow> s32 \<Rightarrow> u64 \<Rightarrow> s32 \<Rightarrow> s32 \<Rightarrow> cstate \<Rightarrow> addr \<times> cstate" where
  "getSubj tid pid ts uid gid s =
     (case cs_procMap s tid of
        Some a \<Rightarrow> (a, s)
      | None \<Rightarrow> new_subj tid (subj_skeleton nullsiid tid pid 1 uid gid ts True) s)"

definition inval_uid :: s32 where
  "inval_uid = ucast INVAL_UID"

section \<open>Matching an entry with its exit\<close>

definition sndiff :: "u16 \<Rightarrow> u16 \<Rightarrow> nat" where
  "sndiff sn1 sn2 = nat \<bar>int (unat sn1) - int (unat sn2)\<bar>"

definition too_old_sn :: "u16 \<Rightarrow> u16 \<Rightarrow> bool" where
  "too_old_sn sn1 sn2 \<longleftrightarrow> sndiff sn1 sn2 > 65535 div 4"

definition too_old_ts :: "u64 \<Rightarrow> u64 \<Rightarrow> bool" where
  "too_old_ts old_ts cur \<longleftrightarrow> old_ts < cur \<and> cur - old_ts > 1000000000"

definition INT_MAX :: nat where
  "INT_MAX = 2 ^ 31 - 1"

definition matches :: "evinfo \<Rightarrow> u8 \<Rightarrow> sc_stat \<Rightarrow> bool" where
  "matches e1 code st \<longleftrightarrow> ev_code e1 = code \<and>
     (ev_status e1 = ENTRY_SEEN \<and> st = EXIT_SEEN \<or>
      st = ENTRY_SEEN \<and> (ev_status e1 = EXIT_SEEN \<or> ev_status e1 = INJECTED_EXIT))"

definition dist :: "evinfo \<Rightarrow> u8 \<Rightarrow> u16 \<Rightarrow> sc_stat \<Rightarrow> nat" where
  "dist e1 code sn st = (if matches e1 code st then sndiff (ev_seqnum e1) sn else INT_MAX)"

definition too_old :: "u16 \<Rightarrow> u64 \<Rightarrow> evinfo \<Rightarrow> bool" where
  "too_old sn cur e \<longleftrightarrow> too_old_sn (ev_seqnum e) sn \<or> too_old_ts (ev_ts e) cur"

text \<open>Removal of an element by overwriting it with the last one.\<close>

definition swap_remove :: "nat \<Rightarrow> 'a list \<Rightarrow> 'a list" where
  "swap_remove j xs = butlast (xs[j := last xs])"

lemma length_swap_remove [simp]: "length (swap_remove j xs) = length xs - 1"
  by (simp add: swap_remove_def)

function bme_loop :: "u8 \<Rightarrow> u16 \<Rightarrow> sc_stat \<Rightarrow> u64 \<Rightarrow> nat \<Rightarrow> nat option \<Rightarrow> nat \<Rightarrow> evinfo list \<Rightarrow> evinfo list
    \<Rightarrow> nat option \<times> evinfo list \<times> evinfo list" where
  "bme_loop sc sn st cur j rv best e expired =
     (if j < length e
      then if dist (e ! j) sc sn st < best
           then bme_loop sc sn st cur (Suc j) (Some j) (dist (e ! j) sc sn st) e expired
           else if too_old sn cur (e ! j)
           then bme_loop sc sn st cur j rv best (swap_remove j e) (expired @ [e ! j])
           else bme_loop sc sn st cur (Suc j) rv best e expired
      else (rv, e, expired))"
  by pat_completeness auto
termination
  by (relation "measure (\<lambda>(sc, sn, st, cur, j, rv, best, e, expired). length e - j)") auto

declare bme_loop.simps [simp del]

definition best_matching_event :: "evinfo list \<Rightarrow> u8 \<Rightarrow> u16 \<Rightarrow> sc_stat \<Rightarrow> u64 \<Rightarrow> nat option \<times> evinfo list \<times> evinfo list" where
  "best_matching_event e sc sn st cur = bme_loop sc sn st cur 0 None INT_MAX e []"

lemma mset_swap_remove:
  assumes "j < length xs"
  shows "add_mset (xs ! j) (mset (swap_remove j xs)) = mset xs"
proof -
  let ?ys = "xs[j := last xs]"
  have ne: "?ys \<noteq> []" using assms by auto
  have "last ?ys = last xs" using assms by (cases xs rule: rev_cases) (auto simp: list_update_append)
  then have "mset ?ys = add_mset (last xs) (mset (swap_remove j xs))"
    unfolding swap_remove_def using append_butlast_last_id [OF ne]
    by (metis add_mset_add_single mset.simps mset_append)
  moreover have "mset ?ys = add_mset (last xs) (mset xs - {#xs ! j#})" using assms by (simp add: mset_update)
  ultimately show ?thesis using assms by (metis add_mset_remove_trivial insert_DiffM nth_mem_mset)
qed

lemma nth_swap_remove: "i < j \<Longrightarrow> j < length xs \<Longrightarrow> swap_remove j xs ! i = xs ! i"
  by (simp add: swap_remove_def nth_butlast)

lemma take_swap_remove: "j < length xs \<Longrightarrow> take j (swap_remove j xs) = take j xs"
  by (rule nth_equalityI) (auto simp: nth_swap_remove)

text \<open>What the search has found after looking at the first \<open>j\<close> events.\<close>

definition found_best :: "u8 \<Rightarrow> u16 \<Rightarrow> sc_stat \<Rightarrow> nat option \<Rightarrow> nat \<Rightarrow> evinfo list \<Rightarrow> evinfo list \<Rightarrow> bool" where
  "found_best sc sn st rv best seen e \<longleftrightarrow>
     (\<forall>x\<in>set seen. best \<le> dist x sc sn st) \<and> best \<le> INT_MAX \<and>
     (case rv of None \<Rightarrow> best = INT_MAX
      | Some i \<Rightarrow> i < length e \<and> best = dist (e ! i) sc sn st \<and> best < INT_MAX)"

lemma found_best_le: "found_best sc sn st rv best seen e \<Longrightarrow> best' < best \<Longrightarrow> \<forall>x\<in>set seen. best' \<le> dist x sc sn st"
  by (auto simp: found_best_def)

lemma bme_loop_ok:
  assumes "bme_loop sc sn st cur j rv best e expired = (rv', e', expired')" "j \<le> length e"
    and "found_best sc sn st rv best (take j e @ expired) (take j e)"
  shows "mset e' + mset expired' = mset e + mset expired \<and>
      ((\<forall>x\<in>set expired. too_old sn cur x) \<longrightarrow> (\<forall>x\<in>set expired'. too_old sn cur x)) \<and>
      (\<exists>best'. found_best sc sn st rv' best' (e' @ expired') e')"
  using assms
proof (induction sc sn st cur j rv best e expired rule: bme_loop.induct)
  case (1 sc sn st cur j rv best e expired)
  let ?d = "dist (e ! j) sc sn st"
  show ?case
  proof (cases "j < length e")
    case False
    then have "rv' = rv" "e' = e" "expired' = expired" using 1(4) by (simp_all add: bme_loop.simps)
    moreover have "take j e = e" using False by simp
    ultimately show ?thesis using 1(6) by auto
  next
    case j: True
    note tk = take_Suc_conv_app_nth [OF j]
    note step = 1(4) [unfolded bme_loop.simps [of sc sn st cur j rv best e expired]]
    consider (better) "?d < best" | (old) "\<not> ?d < best" "too_old sn cur (e ! j)" | (keep) "\<not> ?d < best" "\<not> too_old sn cur (e ! j)"
      by blast
    then show ?thesis
    proof cases
      case better
      have "found_best sc sn st (Some j) ?d (take (Suc j) e @ expired) (take (Suc j) e)"
        using 1(6) better j tk found_best_le [OF 1(6) better] by (auto simp: found_best_def nth_append)
      then show ?thesis using 1(1) [OF j better] step j better by simp
    next
      case old
      have "found_best sc sn st rv best (take j (swap_remove j e) @ expired @ [e ! j]) (take j (swap_remove j e))"
        using 1(6) old j by (auto simp: found_best_def take_swap_remove split: option.splits)
      then show ?thesis
        using 1(2) [OF j old] step j old mset_swap_remove [OF j, symmetric] by simp
    next
      case keep
      have "found_best sc sn st rv best (take (Suc j) e @ expired) (take (Suc j) e)"
        using 1(6) keep j tk by (auto simp: found_best_def nth_append split: option.splits)
      then show ?thesis using 1(3) [OF j keep] step j keep by simp
    qed
  qed
qed

lemma dist_matches: "dist x sc sn st < INT_MAX \<longleftrightarrow> matches x sc st"
proof -
  have "sndiff a b \<le> 65535" for a b
  proof -
    have "unat a < 65536" "unat b < 65536"
      using unsigned_less [where ?'a = nat, of a] unsigned_less [where ?'a = nat, of b] by simp_all
    then show ?thesis by (simp only: sndiff_def nat_le_iff abs_le_iff) linarith
  qed
  then have "sndiff a b < INT_MAX" for a b by (rule le_less_trans) (simp add: INT_MAX_def)
  then show ?thesis by (simp add: dist_def)
qed

text \<open>
  (C24) Matching an entry with an exit: the search returns an event of the same system call that
  still lacks its other half, one with the least difference of sequence numbers among all events
  that were open, and none only if there is none; events it expires are too old, and no open event
  is lost or duplicated.
\<close>
theorem best_match_is_closest:
  assumes "best_matching_event e sc sn st cur = (rv, e', expired)"
  shows "mset e' + mset expired = mset e \<and> (\<forall>x\<in>set expired. too_old sn cur x)
    \<and> (case rv of
         None \<Rightarrow> \<forall>x\<in>set e. \<not> matches x sc st
       | Some i \<Rightarrow> i < length e' \<and> matches (e' ! i) sc st
           \<and> (\<forall>x\<in>set e. matches x sc st \<longrightarrow> sndiff (ev_seqnum (e' ! i)) sn \<le> sndiff (ev_seqnum x) sn))"
proof -
  note b = assms [unfolded best_matching_event_def]
  have f: "found_best sc sn st None INT_MAX (take 0 e @ []) (take 0 e)" by (simp add: found_best_def)
  note ok = bme_loop_ok [OF b _ f]
  obtain best where best: "found_best sc sn st rv best (e' @ expired) e'" using ok by auto
  have ms: "mset e' + mset expired = mset e" using ok by simp
  then have all: "set e' \<union> set expired = set e" by (metis set_mset_mset set_mset_union)
  have "case rv of
         None \<Rightarrow> \<forall>x\<in>set e. \<not> matches x sc st
       | Some i \<Rightarrow> i < length e' \<and> matches (e' ! i) sc st
           \<and> (\<forall>x\<in>set e. matches x sc st \<longrightarrow> sndiff (ev_seqnum (e' ! i)) sn \<le> sndiff (ev_seqnum x) sn)"
  proof (cases rv)
    case None
    then have "best = INT_MAX" using best by (simp add: found_best_def)
    then have "\<forall>x\<in>set e. \<not> dist x sc sn st < INT_MAX" using best all by (auto simp: found_best_def)
    then show ?thesis using None by (simp add: dist_matches)
  next
    case (Some i)
    then have i: "i < length e'" "best = dist (e' ! i) sc sn st" "best < INT_MAX" using best by (simp_all add: found_best_def)
    have "\<forall>x\<in>set e. best \<le> dist x sc sn st" using best all by (auto simp: found_best_def)
    then show ?thesis using i Some dist_matches [of "e' ! i" sc sn st] by (auto simp: dist_def)
  qed
  then show ?thesis using ms ok by simp
qed

definition sample_entry :: "u16 \<Rightarrow> evinfo" where
  "sample_entry sn = ev_zero\<lparr>ev_code := EXECVE_EX, ev_status := ENTRY_SEEN, ev_seqnum := sn\<rparr>"

lemma sample_match:
  "best_matching_event [sample_entry 7, sample_entry 9] EXECVE_EX 10 EXIT_SEEN 0 = (Some 1, [sample_entry 7, sample_entry 9], [])"
  by (simp add: best_matching_event_def bme_loop.simps sample_entry_def dist_def matches_def sndiff_def INT_MAX_def
      too_old_def too_old_sn_def too_old_ts_def)

theorem best_match_is_closest_witness:
  "matches (sample_entry 9) EXECVE_EX EXIT_SEEN \<and> sndiff (ev_seqnum (sample_entry 9)) 10 \<le> sndiff (ev_seqnum (sample_entry 7)) 10"
  using best_match_is_closest [OF sample_match] by (simp add: matches_def sample_entry_def)

end
