(* ===== verification/Consumer_Objects.thy ===== *)
theory Consumer_Objects
  imports Consumer_State
begin

text \<open>
  Objects of the consumer (\<open>nm2Obj\<close>, \<open>resolveId\<close>, \<open>fullpath\<close> of \<^verbatim>\<open>src/eConsumer.C\<close>) and subjects that
  existed before the log began. A function of the consumer takes the state and crashes (a null
  pointer, a deleted subject, an \<open>assert_abort\<close>) or returns a value and a state.
\<close>

datatype 'a outcome = Crash | Fine 'a

fun obind :: "'a outcome \<Rightarrow> ('a \<Rightarrow> 'b outcome) \<Rightarrow> 'b outcome" where
  "obind Crash f = Crash"
| "obind (Fine x) f = f x"

type_synonym 'a consumer = "cstate \<Rightarrow> ('a \<times> cstate) outcome"

definition cret :: "'a \<Rightarrow> 'a consumer" where
  "cret x s = Fine (x, s)"

definition cbind :: "'a consumer \<Rightarrow> ('a \<Rightarrow> 'b consumer) \<Rightarrow> 'b consumer" where
  "cbind f g s = obind (f s) (\<lambda>(x, s). g x s)"

section \<open>Access to subjects and objects\<close>

definition get_subj :: "addr \<Rightarrow> subj consumer" where
  "get_subj a s = (case cs_subj s a of None \<Rightarrow> Crash | Some si \<Rightarrow> Fine (si, s))"

definition get_obj :: "objptr \<Rightarrow> obj consumer" where
  "get_obj p s = Fine (cs_objs s p, s)"

definition on_subj :: "addr \<Rightarrow> (subj \<Rightarrow> subj) \<Rightarrow> cstate \<Rightarrow> cstate" where
  "on_subj a f s = (case cs_subj s a of None \<Rightarrow> s | Some si \<Rightarrow> put_subj a (f si) s)"

definition set_subj :: "addr \<Rightarrow> (subj \<Rightarrow> subj) \<Rightarrow> unit consumer" where
  "set_subj a f = cbind (get_subj a) (\<lambda>si s. Fine ((), put_subj a (f si) s))"

definition set_obj :: "objptr \<Rightarrow> (obj \<Rightarrow> obj) \<Rightarrow> unit consumer" where
  "set_obj p f s = Fine ((), s\<lparr>cs_objs := (cs_objs s)(p := f (cs_objs s p))\<rparr>)"

definition tell_clients :: "client_call \<Rightarrow> unit consumer" where
  "tell_clients k s = Fine ((), s\<lparr>cs_calls := cs_calls s @ [k]\<rparr>)"

section \<open>Names\<close>

definition create_name :: "cstr option \<Rightarrow> u32 consumer" where
  "create_name t s = (case t of None \<Rightarrow> Fine (nullstr, s) | Some t \<Rightarrow> Fine (create t s))"

definition max_args :: nat where
  "max_args = 512"

text \<open>The end of the strings that are taken, and the number of terminators before it.\<close>

primrec arg_end :: "u8 list \<Rightarrow> nat \<Rightarrow> nat \<Rightarrow> nat \<times> nat" where
  "arg_end [] n r = (n, r)"
| "arg_end (b # bs) n r =
     (let n = (if b = 0 then n + 1 else n) in if n \<ge> max_args - 1 then (n, r) else arg_end bs n (r + 1))"

function arg_strings :: "u8 list \<Rightarrow> nat \<Rightarrow> nat \<Rightarrow> cstr list" where
  "arg_strings bs p r =
     (if p < r
      then let t = takeWhile (\<lambda>b. b \<noteq> 0) (drop p bs) in
           (if t = [] then [] else [t]) @ arg_strings bs (p + length t + 1) r
      else [])"
  by pat_completeness auto
termination by (relation "measure (\<lambda>(bs, p, r). r - p)") auto

declare arg_strings.simps [simp del]

text \<open>The array of \<open>mkargv\<close>: one element per terminator and one more, null where there is no string.\<close>

definition mkargv :: "u8 list \<Rightarrow> (u32 list) consumer" where
  "mkargv bs s =
     (case arg_end bs 0 0 of (n, r) \<Rightarrow>
      case create_all (arg_strings bs 0 r) s of (is, s) \<Rightarrow>
        Fine (is @ replicate (n + 1 - length is) nullstr, s))"

definition args_of :: "u32 list \<Rightarrow> u32 list" where
  "args_of as = takeWhile (\<lambda>i. i \<noteq> nullstr) as"

section \<open>Objects\<close>

datatype create_flag = OLD | MAYBE_NEW | NEW
datatype lookup_opt = IGNORE | QUERY_OS | CREATE_BEST_EFFORT

record nmopt =
  no_create :: create_flag
  no_type :: otype
  no_opt :: lookup_opt

definition NmOpt :: "create_flag \<Rightarrow> otype \<Rightarrow> lookup_opt \<Rightarrow> nmopt" where
  "NmOpt cf ot lo = \<lparr>no_create = cf, no_type = ot, no_opt = lo\<rparr>"

definition fileopt :: "cenv \<Rightarrow> lookup_opt" where
  "fileopt e = (if ce_query e then QUERY_OS else CREATE_BEST_EFFORT)"

definition old_file :: "cenv \<Rightarrow> nmopt" where
  "old_file e = NmOpt OLD FILET (fileopt e)"

text \<open>A file that may be new is taken as new if \<open>stat\<close> says that it was just made by this user.\<close>

definition judge_new :: "subj \<Rightarrow> statbuf \<Rightarrow> u64 \<Rightarrow> create_flag \<Rightarrow> create_flag" where
  "judge_new si sb cur cf =
     (if cf \<noteq> MAYBE_NEW then cf
      else if sj_uid si = st_uid sb \<and> sj_gid si = st_gid sb \<and> st_atime sb = st_ctime sb \<and> st_ctime sb = st_mtime sb
              \<and> \<bar>sint (st_mtime sb - cur)\<bar> < 5
      then NEW else OLD)"

definition stat_obj :: "cenv \<Rightarrow> subj \<Rightarrow> u32 \<Rightarrow> nmopt \<Rightarrow> cstate \<Rightarrow> (u32 \<times> s32 \<times> s32 \<times> u32) \<times> create_flag" where
  "stat_obj e si nm opt s =
     (let default = ((0x1A4, 0, 0, 0), no_create opt) in
      if no_opt opt = QUERY_OS \<and> no_type opt = FILET
      then case ce_stat e (str nm s) of
             None \<Rightarrow> default
           | Some sb \<Rightarrow> ((st_mode sb AND 0xFFF, st_uid sb, st_gid sb, ucast (st_mtime sb)),
                         judge_new si sb (cs_curtime s) (no_create opt))
      else default)"

definition new_obj :: "cenv \<Rightarrow> subj \<Rightarrow> u32 \<Rightarrow> u64 \<Rightarrow> nmopt \<Rightarrow> u64 \<Rightarrow> cstate \<Rightarrow> objptr \<times> cstate" where
  "new_obj e si nm ts opt i s =
     (case stat_obj e si nm opt s of ((mode, uid, gid, mtime), cf) \<Rightarrow>
      let (mode, uid, gid) = (if no_type opt \<noteq> FILET then (0xDB6, sj_uid si, sj_gid si) else (mode, uid, gid));
          oo = \<lparr>ob_nm = nm, ob_uid = uid, ob_gid = gid, ob_mtime = mtime, ob_id = i, ob_type = no_type opt,
                ob_mode = ucast mode, ob_oid = nulloiid, ob_addr = cs_nobj s\<rparr>;
          rv = cs_nobj s;
          s = s\<lparr>cs_nm2oi := (cs_nm2oi s)(nm \<mapsto> rv), cs_objs := (cs_objs s)(rv := oo), cs_nobj := Suc rv\<rparr> in
      (rv, if no_type opt = FILET \<and> cf \<noteq> NEW then s\<lparr>cs_calls := cs_calls s @ [K_existingObj si oo ts]\<rparr> else s))"

text \<open>The last assignment of \<open>nm2Obj\<close> has no effect: an object with another id has just been replaced.\<close>

definition nm2Obj :: "cenv \<Rightarrow> addr \<Rightarrow> u32 \<Rightarrow> u64 \<Rightarrow> nmopt \<Rightarrow> u64 \<Rightarrow> objptr consumer" where
  "nm2Obj e a nm ts opt i =
     cbind (get_subj a) (\<lambda>si s.
       let (rv, s) = (case cs_nm2oi s nm of
                        None \<Rightarrow> new_obj e si nm ts opt i s
                      | Some rv \<Rightarrow> if i \<noteq> 0 \<and> ob_id (cs_objs s rv) \<noteq> i then new_obj e si nm ts opt i s else (rv, s));
           s = (if i \<noteq> 0 then s\<lparr>cs_id2nm := (cs_id2nm s)(i \<mapsto> nm)\<rparr> else s)
       in Fine (rv, s))"

definition createSocket :: "cenv \<Rightarrow> addr \<Rightarrow> u64 \<Rightarrow> u32 \<Rightarrow> u64 \<Rightarrow> objptr consumer" where
  "createSocket e a i remEp ts = nm2Obj e a remEp ts (NmOpt NEW SOCKETT (fileopt e)) i"

definition createObjNmAsStr :: "u64 \<Rightarrow> cstr" where
  "createObjNmAsStr i = ascii ''id_'' @ dec_digits (unat i)"

definition id2otype :: "u64 \<Rightarrow> otype" where
  "id2otype i = (if i = 0 \<or> fdtype i = FILE_ID then FILET else if fdtype i = PIPE_ID then PIPET else SOCKETT)"

text \<open>The name behind an identifier; it is looked up or made up if it is not known.\<close>

definition id_name :: "cenv \<Rightarrow> addr \<Rightarrow> s32 \<Rightarrow> u64 \<Rightarrow> nmopt \<Rightarrow> u32 consumer" where
  "id_name e a fd i opt s =
     (let nm = (case cs_id2nm s i of None \<Rightarrow> nullstr | Some nm \<Rightarrow> nm) in
      if nm \<noteq> nullstr then Fine (nm, s)
      else
          cbind (get_subj a) (\<lambda>si.
          cbind (create_name (if no_opt opt = QUERY_OS then ce_fdlink e (sj_tid si) fd else None)) (\<lambda>nm.
          cbind (if nm = nullstr then create_name (Some (createObjNmAsStr i)) else cret nm) (\<lambda>nm s.
            Fine (nm, if i \<noteq> 0 then s\<lparr>cs_id2nm := (cs_id2nm s)(i \<mapsto> nm)\<rparr> else s)))) s)"

definition resolveId :: "cenv \<Rightarrow> addr \<Rightarrow> s32 \<Rightarrow> u64 \<Rightarrow> u64 \<Rightarrow> nmopt \<Rightarrow> objptr consumer" where
  "resolveId e a fd i ts opt =
     (let opt = (if i \<noteq> 0 then opt\<lparr>no_type := id2otype i\<rparr> else opt) in
      cbind (id_name e a fd i opt) (\<lambda>nm. nm2Obj e a nm ts opt i))"

section \<open>Paths\<close>

definition at_fdcwd :: s32 where
  "at_fdcwd = - 100"

definition slash :: u8 where
  "slash = 47"

definition join_dir :: "cstr \<Rightarrow> cstr \<Rightarrow> cstr" where
  "join_dir dir nm = (if dir \<noteq> [] \<and> last dir = slash then butlast dir else dir) @ slash # nm"

definition dir_name :: "cenv \<Rightarrow> addr \<Rightarrow> s32 \<Rightarrow> u64 \<Rightarrow> u64 \<Rightarrow> nmopt \<Rightarrow> u32 consumer" where
  "dir_name e a at_fd at_id ts opt =
     (if at_fd = at_fdcwd
      then cbind (get_subj a) (\<lambda>si s. case sj_cwd si of None \<Rightarrow> Crash | Some cwd \<Rightarrow> Fine (ob_nm cwd, s))
      else cbind (resolveId e a at_fd at_id ts opt) (\<lambda>p. cbind (get_obj p) (\<lambda>o'. cret (ob_nm o'))))"

definition fullpath :: "cenv \<Rightarrow> addr \<Rightarrow> s32 \<Rightarrow> u64 \<Rightarrow> u32 \<Rightarrow> u64 \<Rightarrow> nmopt \<Rightarrow> u32 consumer" where
  "fullpath e a at_fd at_id fn ts opt s =
     (let nm = str fn s in
      if nm \<noteq> [] \<and> hd nm = slash then Fine (fn, s)
      else cbind (dir_name e a at_fd at_id ts opt) (\<lambda>dir s. create_name (Some (join_dir (str dir s) nm)) s) s)"

definition nm2ObjAt :: "cenv \<Rightarrow> addr \<Rightarrow> s32 \<Rightarrow> u64 \<Rightarrow> u32 \<Rightarrow> u64 \<Rightarrow> nmopt \<Rightarrow> u64 \<Rightarrow> objptr consumer" where
  "nm2ObjAt e a at_fd at_id nm ts opt i =
     cbind (fullpath e a at_fd at_id nm ts (old_file e)) (\<lambda>fnm. nm2Obj e a fnm ts opt i)"

section \<open>Subjects that existed before\<close>

text \<open>What \<^verbatim>\<open>/proc\<close> says of a thread: its process and, if they could be read, the parent, user and group.\<close>

definition proc_ids :: "cenv \<Rightarrow> s32 \<Rightarrow> s32 \<Rightarrow> s32 \<times> (s32 option \<times> s32 \<times> s32) option" where
  "proc_ids e tid pid =
     (if \<not> ce_query e then (pid, None)
      else let st = (if ce_open e tid then ce_status e tid else None);
               pid = (case st of None \<Rightarrow> pid | Some (tgid, _) \<Rightarrow> tgid) in
        (pid, case st of
           Some (_, ppid, uid, gid) \<Rightarrow> Some (if pid = tid then Some ppid else None, uid, gid)
         | None \<Rightarrow>
             if pid \<noteq> tid \<and> ce_open e pid
             then (case ce_status e pid of
                     None \<Rightarrow> None
                   | Some (_, ppid, uid, gid) \<Rightarrow> Some (if ppid = 0 then None else Some ppid, uid, gid))
             else None))"

text \<open>The directory of \<^verbatim>\<open>/proc\<close> the strings are read from: the process if it can be opened, else the thread.\<close>

definition proc_dir :: "cenv \<Rightarrow> s32 \<Rightarrow> s32 \<Rightarrow> s32 option" where
  "proc_dir e tid pid =
     (if \<not> ce_query e then None
      else if pid \<noteq> tid \<and> ce_open e pid then Some pid
      else if ce_open e tid then Some tid else None)"

definition mkProperThread :: "cenv \<Rightarrow> s32 \<Rightarrow> addr \<Rightarrow> u64 \<Rightarrow> unit consumer" where
  "mkProperThread e tid pa ts =
     cbind (get_subj pa) (\<lambda>par s.
       case subj_thread (ce_junk e) tid par ts of
         None \<Rightarrow> Crash
       | Some t \<Rightarrow>
           (case cs_procMap s tid of
              None \<Rightarrow> Fine ((), snd (new_subj tid t s))
            | Some a \<Rightarrow> if cs_subj s a = None then Crash else Fine ((), (put_subj a t s)\<lparr>cs_nsubj := cs_nsubj s + 1\<rparr>)))"

definition existing_parent :: "(s32 option \<times> s32 \<times> s32) option \<Rightarrow> subj \<Rightarrow> subj" where
  "existing_parent ids si =
     (case ids of
        None \<Rightarrow> si
      | Some (ppid, uid, gid) \<Rightarrow>
          si\<lparr>sj_ptid := (case ppid of None \<Rightarrow> sj_ptid si | Some p \<Rightarrow> p), sj_uid := uid, sj_gid := gid\<rparr>)"

definition setcwd :: "addr \<Rightarrow> objptr \<Rightarrow> unit consumer" where
  "setcwd a p = cbind (get_obj p) (\<lambda>o'. set_subj a (\<lambda>si. si\<lparr>sj_cwd := Some o'\<rparr>))"

definition setexe :: "addr \<Rightarrow> objptr \<Rightarrow> unit consumer" where
  "setexe a p = cbind (get_obj p) (\<lambda>o'. set_subj a (\<lambda>si. si\<lparr>sj_exe := Some o'\<rparr>))"

definition existing_dirs :: "cenv \<Rightarrow> addr \<Rightarrow> cstr option \<Rightarrow> cstr option \<Rightarrow> u64 \<Rightarrow> unit consumer" where
  "existing_dirs e pa cwd exe ts =
     cbind (create_name cwd) (\<lambda>nm. cbind (nm2Obj e pa nm ts (old_file e) 0) (\<lambda>p. cbind (setcwd pa p) (\<lambda>_.
     cbind (create_name exe) (\<lambda>nm. cbind (nm2Obj e pa nm ts (old_file e) 0) (setexe pa)))))"

definition existing_args :: "addr \<Rightarrow> cstr option \<Rightarrow> cstr option \<Rightarrow> bool \<Rightarrow> unit consumer" where
  "existing_args pa argv env strings_read =
     (case (argv, env) of
        (Some argv, Some env) \<Rightarrow>
          if strings_read
          then cbind (mkargv argv) (\<lambda>as. cbind (set_subj pa (\<lambda>si. si\<lparr>sj_args := args_of as\<rparr>)) (\<lambda>_.
               cbind (mkargv env) (\<lambda>es. set_subj pa (\<lambda>si. si\<lparr>sj_envs := args_of es\<rparr>))))
          else cret ()
      | _ \<Rightarrow> cret ())"

definition give_id :: "addr \<Rightarrow> u64 \<Rightarrow> unit consumer" where
  "give_id pa ts =
     cbind (get_subj pa) (\<lambda>prsi.
       if sj_id prsi = nullsiid
       then cbind (\<lambda>s. set_subj pa (\<lambda>si. si\<lparr>sj_orphan := True, sj_id := of_nat (cs_nsubj s)\<rparr>) s) (\<lambda>_.
            cbind (get_subj pa) (\<lambda>prsi. tell_clients (K_existingSubj prsi ts)))
       else cret ())"

definition createExistingSubj :: "cenv \<Rightarrow> s32 \<Rightarrow> s32 \<Rightarrow> u64 \<Rightarrow> unit consumer" where
  "createExistingSubj e tid pid0 ts =
     (case proc_ids e tid pid0 of (pid, ids) \<Rightarrow>
      let dir = proc_dir e tid pid; rd = (\<lambda>f. case dir of None \<Rightarrow> None | Some d \<Rightarrow> f d);
          cwd = rd (ce_cwd e); exe = rd (ce_exe e); argv = rd (ce_cmdline e); env = rd (ce_environ e) in
      cbind (\<lambda>s. Fine (getSubj pid pid ts inval_uid inval_uid s)) (\<lambda>pa.
      cbind (set_subj pa (existing_parent ids)) (\<lambda>_.
      cbind (existing_dirs e pa cwd exe ts) (\<lambda>_.
      cbind (existing_args pa argv env (cwd \<noteq> None \<and> exe \<noteq> None)) (\<lambda>_.
      cbind (give_id pa ts) (\<lambda>_.
        if tid \<noteq> pid then mkProperThread e tid pa ts else cret ()))))))"

end
