(* ===== verification/Consumer_Exec.thy ===== *)
theory Consumer_Exec
  imports Consumer_Objects
begin

text \<open>
  The execution of one system call (\<open>procSyscall\<close> and the \<open>doXX\<close> functions of \<^verbatim>\<open>src/eConsumer.C\<close>):
  the subject is completed if nothing is known of it, the objects are resolved, the clients are
  told, and the subject or object is updated. What remains of an exit (the open events of the
  subject are queued first) is in \<open>Consumer_Queue\<close>.
\<close>

definition cdo :: "unit consumer \<Rightarrow> 'a consumer \<Rightarrow> 'a consumer" where
  "cdo f g = cbind f (\<lambda>_. g)"

text \<open>A call of the clients about the subject of the event, and about an object.\<close>

definition say :: "evinfo \<Rightarrow> (subj \<Rightarrow> client_call) \<Rightarrow> unit consumer" where
  "say ev k = cbind (get_subj (ev_si ev)) (\<lambda>si. tell_clients (k si))"

definition say_obj :: "evinfo \<Rightarrow> objptr \<Rightarrow> (subj \<Rightarrow> obj \<Rightarrow> client_call) \<Rightarrow> unit consumer" where
  "say_obj ev p k = cbind (get_obj p) (\<lambda>o'. say ev (\<lambda>si. k si o'))"

section \<open>Processes\<close>

definition doclone :: "evinfo \<Rightarrow> unit consumer" where
  "doclone ev =
     (let chtid = ucast (ev_arg3 ev) :: s32; flags = ucast (ev_arg0 ev) :: s32 in
      if chtid = 0 then cret ()
      else cbind (get_subj (ev_si ev)) (\<lambda>si s.
        let child = (\<lambda>c. c\<lparr>sj_tid := chtid, sj_ptid := sj_tid si, sj_lastEv := max (ev_ts ev) (sj_lastEv c),
                           sj_id := of_nat (cs_nsubj s + 1)\<rparr>) in
        case subj_clone si of
          None \<Rightarrow> Crash
        | Some c \<Rightarrow>
            (case cs_procMap s chtid of
               Some ca \<Rightarrow>
                 cbind (get_subj ca) (\<lambda>old s.
                   if sj_tid old \<noteq> chtid then Crash
                   else let c = child (c\<lparr>sj_uid := sj_uid old, sj_gid := sj_gid old, sj_pid := sj_pid old, sj_curEv := sj_curEv old\<rparr>);
                            s = (put_subj ca c s)\<lparr>cs_nsubj := cs_nsubj s + 1\<rparr> in
                        say ev (\<lambda>si. K_clone si (Some c) flags (ev_ts ev)) s) s
             | None \<Rightarrow> say ev (\<lambda>si. K_clone si None flags (ev_ts ev)) (snd (new_subj chtid (child c) s)))))"

definition doexecve :: "cenv \<Rightarrow> evinfo \<Rightarrow> unit consumer" where
  "doexecve e ev =
     (let uid = u32_0 (ev_arg3 ev); gid = u32_1 (ev_arg3 ev) in
      cbind (nm2ObjAt e (ev_si ev) (ev_fd ev) (ev_id ev) (u32_0 (ev_arg0 ev)) (ev_ts ev) (old_file e) 0) (\<lambda>p.
      cdo (\<lambda>s. set_subj (ev_si ev) (\<lambda>si. si\<lparr>sj_args := argv_at (ev_arg1 ev) s, sj_envs := argv_at (ev_arg2 ev) s\<rparr>) s)
      (cdo (setexe (ev_si ev) p)
      (cdo (say_obj ev p (\<lambda>si o'. K_execve si o' (u32_1 (ev_arg0 ev)) (ev_ts ev)))
      (cbind (get_subj (ev_si ev)) (\<lambda>si.
       cdo (if sj_uid si \<noteq> uid then say ev (\<lambda>si. K_setuid si (scast uid) (scast inval_uid) (scast inval_uid) 0 (ev_ts ev)) else cret ())
           (if sj_gid si \<noteq> gid then say ev (\<lambda>si. K_setgid si (scast gid) (scast inval_uid) (scast inval_uid) 0 (ev_ts ev)) else cret ())))))))"

definition dokill :: "evinfo \<Rightarrow> unit consumer" where
  "dokill ev =
     cbind (\<lambda>s. Fine (getSubj (ucast (ev_arg1 ev)) (ucast (ev_arg0 ev)) (ev_ts ev) inval_uid inval_uid s)) (\<lambda>a.
     cbind (get_subj a) (\<lambda>chsi. say ev (\<lambda>si. K_kill si chsi (ucast (ev_arg2 ev)) (ev_arg3 ev) (ev_ts ev))))"

text \<open>The target after \<open>createExistingSubj\<close> is the subject listed under its thread id.\<close>

definition doptrace :: "cenv \<Rightarrow> evinfo \<Rightarrow> unit consumer" where
  "doptrace e ev =
     (if ev_arg0 ev = 0 then cret ()
      else let target = ucast (ev_arg1 ev) in
        cbind (\<lambda>s. Fine (getSubj target target (ev_ts ev) inval_uid inval_uid s)) (\<lambda>a.
        cbind (get_subj a) (\<lambda>t.
        cbind (if sj_id t = nullsiid
               then cdo (createExistingSubj e (sj_tid t) (sj_pid t) (ev_ts ev))
                        (\<lambda>s. case cs_procMap s (sj_tid t) of None \<Rightarrow> Crash | Some b \<Rightarrow> get_subj b s)
               else cret t) (\<lambda>t.
          say ev (\<lambda>si. K_ptrace si t (ucast (ev_arg0 ev)) (ev_arg3 ev) (ev_ts ev))))))"

definition dosetuid :: "evinfo \<Rightarrow> unit consumer" where
  "dosetuid ev =
     cdo (say ev (\<lambda>si. K_setuid si (ev_arg1 ev) (ev_arg0 ev) (ev_arg2 ev) (ev_arg3 ev) (ev_ts ev)))
         (set_subj (ev_si ev) (\<lambda>si. si\<lparr>sj_uid := ucast (ev_arg1 ev)\<rparr>))"

definition dosetgid :: "evinfo \<Rightarrow> unit consumer" where
  "dosetgid ev =
     cdo (say ev (\<lambda>si. K_setgid si (ev_arg1 ev) (ev_arg0 ev) (ev_arg2 ev) (ev_arg3 ev) (ev_ts ev)))
         (set_subj (ev_si ev) (\<lambda>si. si\<lparr>sj_gid := ucast (ev_arg1 ev)\<rparr>))"

section \<open>Network and pipes\<close>

definition ev_socket :: "cenv \<Rightarrow> evinfo \<Rightarrow> objptr consumer" where
  "ev_socket e ev = createSocket e (ev_si ev) (ev_id ev) (u32_0 (ev_arg0 ev)) (ev_ts ev)"

definition doaccept :: "cenv \<Rightarrow> evinfo \<Rightarrow> unit consumer" where
  "doaccept e ev = cbind (ev_socket e ev) (\<lambda>p. say_obj ev p (\<lambda>si o'. K_accept si o' (ev_fd ev) (ev_arg3 ev) (ev_ts ev)))"

definition dobind :: "cenv \<Rightarrow> evinfo \<Rightarrow> unit consumer" where
  "dobind e ev =
     cbind (createSocket e (ev_si ev) 0 (u32_0 (ev_arg0 ev)) (ev_ts ev))
       (\<lambda>p. say_obj ev p (\<lambda>si o'. K_bind si o' (ev_fd ev) (ev_arg3 ev) (ev_ts ev)))"

definition doconnect :: "cenv \<Rightarrow> evinfo \<Rightarrow> unit consumer" where
  "doconnect e ev = cbind (ev_socket e ev) (\<lambda>p. say_obj ev p (\<lambda>si o'. K_connect si o' (ev_fd ev) (ev_arg3 ev) (ev_ts ev)))"

definition dogetpeer :: "cenv \<Rightarrow> evinfo \<Rightarrow> unit consumer" where
  "dogetpeer e ev = cbind (ev_socket e ev) (\<lambda>_. cret ())"

definition dosendto :: "cenv \<Rightarrow> evinfo \<Rightarrow> unit consumer" where
  "dosendto e ev = cbind (ev_socket e ev) (\<lambda>p. say_obj ev p (\<lambda>si o'. K_sendto si o' (ev_fd ev) (ev_arg3 ev) (ev_ts ev)))"

definition dorecvfrom :: "cenv \<Rightarrow> evinfo \<Rightarrow> unit consumer" where
  "dorecvfrom e ev = cbind (ev_socket e ev) (\<lambda>p. say_obj ev p (\<lambda>si o'. K_recvfrom si o' (ev_fd ev) (ev_arg3 ev) (ev_ts ev)))"

definition dopipeopen :: "evinfo \<Rightarrow> unit consumer" where
  "dopipeopen ev =
     (let fd0 = ucast (signed_drop_bit 32 (ev_arg3 ev)); fd1 = ucast (ev_arg3 ev) in
      say ev (\<lambda>si. if ev_arg0 ev \<noteq> 0 then K_sockpair si fd0 fd1 (ev_ts ev) else K_pipe si fd0 fd1 (ev_ts ev)))"

definition dodup :: "evinfo \<Rightarrow> unit consumer" where
  "dodup ev = say ev (\<lambda>si. K_dup si (ev_fd ev) (ucast (ev_arg3 ev)) (ev_ts ev))"

section \<open>Files\<close>

definition ev_obj :: "cenv \<Rightarrow> evinfo \<Rightarrow> objptr consumer" where
  "ev_obj e ev = resolveId e (ev_si ev) (ev_fd ev) (ev_id ev) (ev_ts ev) (old_file e)"

definition ev_obj_at :: "cenv \<Rightarrow> evinfo \<Rightarrow> objptr consumer" where
  "ev_obj_at e ev = nm2ObjAt e (ev_si ev) (ev_fd ev) (ev_id ev) (u32_0 (ev_arg0 ev)) (ev_ts ev) (old_file e) 0"

definition flag_CREAT :: s32 where "flag_CREAT = 0x40"
definition flag_EXCL :: s32 where "flag_EXCL = 0x80"

definition doopen :: "cenv \<Rightarrow> evinfo \<Rightarrow> unit consumer" where
  "doopen e ev =
     (let flags = u32_1 (ev_arg0 ev);
          create_op = (if flags AND flag_CREAT \<noteq> 0 then if flags AND flag_EXCL \<noteq> 0 then NEW else MAYBE_NEW else OLD) in
      cbind (nm2ObjAt e (ev_si ev) (ev_fd ev) (ev_id ev) (u32_0 (ev_arg0 ev)) (ev_ts ev)
               (NmOpt create_op FILET (fileopt e)) (ev_arg3 ev))
        (\<lambda>p. say_obj ev p (\<lambda>si o'. K_open si o' flags (u32_0 (ev_arg1 ev)) (u32_1 (ev_arg1 ev)) (ev_ts ev))))"

definition doclose :: "evinfo \<Rightarrow> unit consumer" where
  "doclose ev = say ev (\<lambda>si. K_close si (ev_fd ev) (ev_ts ev))"

definition dotruncate :: "cenv \<Rightarrow> evinfo \<Rightarrow> unit consumer" where
  "dotruncate e ev =
     cbind (nm2ObjAt e (ev_si ev) at_fdcwd 0 (u32_0 (ev_arg0 ev)) (ev_ts ev) (old_file e) 0)
       (\<lambda>p. say_obj ev p (\<lambda>si o'. K_truncate si o' (ev_arg1 ev) (ev_arg3 ev) (ev_ts ev) (- 1)))"

definition doftruncate :: "cenv \<Rightarrow> evinfo \<Rightarrow> unit consumer" where
  "doftruncate e ev =
     cbind (ev_obj e ev) (\<lambda>p. say_obj ev p (\<lambda>si o'. K_truncate si o' (ev_arg0 ev) (ev_arg3 ev) (ev_ts ev) (ev_fd ev)))"

definition ev_path :: "cenv \<Rightarrow> evinfo \<Rightarrow> u32 consumer" where
  "ev_path e ev = fullpath e (ev_si ev) (ev_fd ev) (ev_id ev) (u32_0 (ev_arg0 ev)) (ev_ts ev) (old_file e)"

definition domkdir :: "cenv \<Rightarrow> evinfo \<Rightarrow> unit consumer" where
  "domkdir e ev = cbind (ev_path e ev) (\<lambda>fnm. say ev (\<lambda>si. K_mkdir si fnm (u32_1 (ev_arg0 ev)) (ev_arg3 ev) (ev_ts ev)))"

definition domknod :: "cenv \<Rightarrow> evinfo \<Rightarrow> unit consumer" where
  "domknod e ev =
     cbind (ev_path e ev)
       (\<lambda>fnm. say ev (\<lambda>si. K_mknod si fnm (u32_1 (ev_arg0 ev)) (ucast (ev_arg2 ev)) (ev_arg3 ev) (ev_ts ev)))"

definition doreadwr :: "cenv \<Rightarrow> evinfo \<Rightarrow> bool \<Rightarrow> unit consumer" where
  "doreadwr e ev rd =
     cbind (ev_obj e ev) (\<lambda>p. say_obj ev p (\<lambda>si o'.
       if rd then K_read si o' (ev_fd ev) (ev_arg3 ev) (ev_ts ev) else K_write si o' (ev_fd ev) (ev_arg3 ev) (ev_ts ev)))"

definition dovmsplice :: "cenv \<Rightarrow> evinfo \<Rightarrow> unit consumer" where
  "dovmsplice e ev = cbind (ev_obj e ev) (\<lambda>p. say_obj ev p (\<lambda>si o'. K_vmsplice si o' (ev_fd ev) (ev_arg3 ev) (ev_ts ev)))"

definition dommap :: "cenv \<Rightarrow> evinfo \<Rightarrow> unit consumer" where
  "dommap e ev =
     cbind (resolveId e (ev_si ev) 0 (ev_id ev) (ev_ts ev) (old_file e)) (\<lambda>p. say_obj ev p (\<lambda>si o'.
       K_mmap si o' (ev_arg0 ev) (ev_arg1 ev) (u32_0 (ev_arg2 ev)) (u32_1 (ev_arg2 ev)) (ev_arg3 ev) (ev_ts ev)))"

definition domprotect :: "evinfo \<Rightarrow> unit consumer" where
  "domprotect ev = say ev (\<lambda>si. K_mprotect si (ev_arg0 ev) (ev_arg1 ev) (u32_0 (ev_arg2 ev)) (ev_arg3 ev) (ev_ts ev))"

section \<open>Links, names and attributes\<close>

definition dolink :: "cenv \<Rightarrow> evinfo \<Rightarrow> unit consumer" where
  "dolink e ev =
     cbind (nm2ObjAt e (ev_si ev) (ev_fd ev) (ev_id ev) (u32_0 (ev_arg2 ev)) (ev_ts ev) (old_file e) 0) (\<lambda>p.
     cbind (fullpath e (ev_si ev) (u32_0 (ev_arg0 ev)) (ev_arg1 ev) (u32_1 (ev_arg2 ev)) (ev_ts ev) (old_file e)) (\<lambda>fnm.
       say_obj ev p (\<lambda>si o'. K_link si o' fnm (u32_1 (ev_arg0 ev)) (ev_arg3 ev) (ev_ts ev))))"

definition dosymlink :: "cenv \<Rightarrow> evinfo \<Rightarrow> unit consumer" where
  "dosymlink e ev =
     cbind (nm2ObjAt e (ev_si ev) at_fdcwd 0 (u32_0 (ev_arg2 ev)) (ev_ts ev) (old_file e) 0) (\<lambda>p.
     cbind (fullpath e (ev_si ev) (ev_fd ev) (ev_id ev) (u32_1 (ev_arg2 ev)) (ev_ts ev) (old_file e)) (\<lambda>fnm.
       say_obj ev p (\<lambda>si o'. K_symlink si o' fnm (ev_arg3 ev) (ev_ts ev))))"

definition dorename :: "cenv \<Rightarrow> evinfo \<Rightarrow> unit consumer" where
  "dorename e ev =
     cbind (nm2ObjAt e (ev_si ev) (ev_fd ev) (ev_id ev) (u32_0 (ev_arg2 ev)) (ev_ts ev) (NmOpt OLD FILET CREATE_BEST_EFFORT) 0) (\<lambda>p.
     cbind (fullpath e (ev_si ev) (u32_0 (ev_arg0 ev)) (ev_arg1 ev) (u32_1 (ev_arg2 ev)) (ev_ts ev) (old_file e)) (\<lambda>fnm.
       say_obj ev p (\<lambda>si o'. K_rename si o' fnm (u32_1 (ev_arg0 ev)) (ev_arg3 ev) (ev_ts ev))))"

definition dounlink :: "cenv \<Rightarrow> evinfo \<Rightarrow> unit consumer" where
  "dounlink e ev =
     cbind (nm2ObjAt e (ev_si ev) (ev_fd ev) (ev_id ev) (u32_0 (ev_arg0 ev)) (ev_ts ev) (NmOpt OLD FILET CREATE_BEST_EFFORT) 0)
       (\<lambda>p. say_obj ev p (\<lambda>si o'. K_unlink si o' (ev_arg3 ev) (ev_ts ev)))"

definition dormdir :: "cenv \<Rightarrow> evinfo \<Rightarrow> unit consumer" where
  "dormdir e ev = dounlink e ev"

definition dochdir :: "cenv \<Rightarrow> evinfo \<Rightarrow> unit consumer" where
  "dochdir e ev =
     cbind (nm2ObjAt e (ev_si ev) at_fdcwd 0 (u32_0 (ev_arg0 ev)) (ev_ts ev) (old_file e) 0) (\<lambda>p.
       cdo (say_obj ev p (\<lambda>si o'. K_chdir si o' (ev_arg3 ev) (ev_ts ev) (- 1))) (setcwd (ev_si ev) p))"

definition dofchdir :: "cenv \<Rightarrow> evinfo \<Rightarrow> unit consumer" where
  "dofchdir e ev =
     cbind (ev_obj e ev) (\<lambda>p.
       cdo (say_obj ev p (\<lambda>si o'. K_chdir si o' (ev_arg3 ev) (ev_ts ev) (ev_fd ev))) (setcwd (ev_si ev) p))"

definition dochmod :: "cenv \<Rightarrow> evinfo \<Rightarrow> unit consumer" where
  "dochmod e ev =
     cbind (ev_obj_at e ev) (\<lambda>p.
       cdo (say_obj ev p (\<lambda>si o'. K_chmod si o' (ucast (ev_arg2 ev)) (ev_arg3 ev) (ev_ts ev) (- 1)))
           (set_obj p (\<lambda>o'. o'\<lparr>ob_mode := ucast (ev_arg2 ev)\<rparr>)))"

definition dofchmod :: "cenv \<Rightarrow> evinfo \<Rightarrow> unit consumer" where
  "dofchmod e ev =
     cbind (ev_obj e ev) (\<lambda>p.
       cdo (say_obj ev p (\<lambda>si o'. K_chmod si o' (ucast (ev_arg2 ev)) (ev_arg3 ev) (ev_ts ev) (ev_fd ev)))
           (set_obj p (\<lambda>o'. o'\<lparr>ob_mode := ucast (ev_arg2 ev)\<rparr>)))"

definition dochown :: "cenv \<Rightarrow> evinfo \<Rightarrow> unit consumer" where
  "dochown e ev =
     (let user = u32_0 (ev_arg2 ev); grp = u32_1 (ev_arg2 ev) in
      cbind (ev_obj_at e ev) (\<lambda>p.
        cdo (say_obj ev p (\<lambda>si o'. K_chown si o' user grp (u32_1 (ev_arg0 ev)) (ev_arg3 ev) (ev_ts ev) (- 1)))
            (set_obj p (\<lambda>o'. o'\<lparr>ob_uid := user, ob_gid := grp\<rparr>))))"

definition dofchown :: "cenv \<Rightarrow> evinfo \<Rightarrow> unit consumer" where
  "dofchown e ev =
     (let user = u32_0 (ev_arg2 ev); grp = u32_1 (ev_arg2 ev) in
      cbind (ev_obj e ev) (\<lambda>p.
        cdo (say_obj ev p (\<lambda>si o'. K_chown si o' user grp 0 (ev_arg3 ev) (ev_ts ev) (ev_fd ev)))
            (set_obj p (\<lambda>o'. o'\<lparr>ob_uid := user, ob_gid := grp\<rparr>))))"

section \<open>Administration\<close>

definition doinitmod :: "evinfo \<Rightarrow> unit consumer" where
  "doinitmod ev = say ev (\<lambda>si. K_init_module si (u32_0 (ev_arg0 ev)) (ev_arg3 ev) (ev_ts ev))"

text \<open>The identifier is cut to 32 bits here.\<close>

definition dofinitmod :: "cenv \<Rightarrow> evinfo \<Rightarrow> unit consumer" where
  "dofinitmod e ev =
     cbind (resolveId e (ev_si ev) (ev_fd ev) (scast (ucast (ev_id ev) :: s32)) (ev_ts ev) (old_file e))
       (\<lambda>p. say_obj ev p (\<lambda>si o'. K_finit_module si o' (ev_fd ev) (u32_1 (ev_arg0 ev)) (u32_0 (ev_arg0 ev)) (ev_arg3 ev) (ev_ts ev)))"

definition domount :: "cenv \<Rightarrow> evinfo \<Rightarrow> unit consumer" where
  "domount e ev =
     cbind (fullpath e (ev_si ev) at_fdcwd 0 (u32_0 (ev_arg0 ev)) (ev_ts ev) (old_file e)) (\<lambda>devnm.
     cbind (fullpath e (ev_si ev) at_fdcwd 0 (u32_1 (ev_arg0 ev)) (ev_ts ev) (old_file e)) (\<lambda>dirnm.
       say ev (\<lambda>si. K_mount si devnm dirnm (u32_0 (ev_arg1 ev)) (ev_arg2 ev) (ev_arg3 ev) (ev_ts ev))))"

definition doumount :: "cenv \<Rightarrow> evinfo \<Rightarrow> unit consumer" where
  "doumount e ev =
     cbind (fullpath e (ev_si ev) at_fdcwd 0 (u32_0 (ev_arg0 ev)) (ev_ts ev) (old_file e))
       (\<lambda>fnm. say ev (\<lambda>si. K_umount si fnm (ev_arg1 ev) (ev_arg3 ev) (ev_ts ev)))"

section \<open>The switch\<close>

definition do_syscall :: "cenv \<Rightarrow> evinfo \<Rightarrow> unit consumer" where
  "do_syscall e ev =
     (let c = ev_code ev in
      if c = ACCEPT_EX then doaccept e ev
      else if c = BIND_EX then dobind e ev
      else if c = CHDIR_EX then dochdir e ev
      else if c = FCHDIR_EX then dofchdir e ev
      else if c = CHMOD_EX then dochmod e ev
      else if c = FCHMOD_EX then dofchmod e ev
      else if c = CHOWN_EX then dochown e ev
      else if c = FCHOWN_EX then dofchown e ev
      else if c = CLONE_EX then doclone ev
      else if c = CLOSE_EN then doclose ev
      else if c = CONNECT_EX then doconnect e ev
      else if c = DUP_EX then dodup ev
      else if c = EXECVE_EX then doexecve e ev
      else if c = FORK_EX then doclone ev
      else if c = GETPEER_EX then dogetpeer e ev
      else if c = INITMOD_EX then doinitmod ev
      else if c = FINITMOD_EX then dofinitmod e ev
      else if c = KILL_EX then dokill ev
      else if c = LINK_EX then dolink e ev
      else if c = SYMLINK_EX then dosymlink e ev
      else if c = MKDIR_EX then domkdir e ev
      else if c = MKNOD_EX then domknod e ev
      else if c = MMAP_EX then dommap e ev
      else if c = MOUNT_EX then domount e ev
      else if c = MPROTECT_EX then domprotect ev
      else if c = OPEN_EX then doopen e ev
      else if c = PIPE_EX then dopipeopen ev
      else if c = PTRACE_EX then doptrace e ev
      else if c = READ_EX \<or> c = PREAD_EX then doreadwr e ev True
      else if c = RECVFROM_EX then dorecvfrom e ev
      else if c = RENAME_EX then dorename e ev
      else if c = RMDIR_EX then dormdir e ev
      else if c = SENDTO_EX then dosendto e ev
      else if c = SETGID_EX then dosetgid ev
      else if c = SETUID_EX then dosetuid ev
      else if c = VMSPLICE_EX then dovmsplice e ev
      else if c = TRUNC_EX then dotruncate e ev
      else if c = FTRUNC_EX then doftruncate e ev
      else if c = UNLINK_EX then dounlink e ev
      else if c = UMOUNT_EX then doumount e ev
      else if c = WRITE_EX \<or> c = PWRITE_EX then doreadwr e ev False
      else cret ())"

definition out_of_seq :: "evinfo \<Rightarrow> cstate \<Rightarrow> cstate" where
  "out_of_seq ev s =
     s\<lparr>cs_noutofseq := cs_noutofseq s + (if cs_nsucc s > 1000 \<and> ev_seqnum ev - cs_lastsn s > 100 then 1 else 0),
       cs_last_compl := ev_ts ev, cs_lastsn := ev_seqnum ev\<rparr>"

definition known_subject :: "cenv \<Rightarrow> evinfo \<Rightarrow> unit consumer" where
  "known_subject e ev =
     cbind (get_subj (ev_si ev)) (\<lambda>si.
     cdo (if sj_id si = nullsiid then createExistingSubj e (sj_tid si) (sj_pid si) (ev_ts ev) else cret ())
     (cbind (get_subj (ev_si ev)) (\<lambda>si s. if sj_id si = nullsiid then Crash else Fine ((), s))))"

end
