(* ===== verification/Consumer_Queue.thy ===== *)
theory Consumer_Queue
  imports Consumer_Exec
begin

text \<open>
  The queue that puts system calls into the order of their sequence numbers (\<open>do_enq\<close>, \<open>dq\<close>,
  \<open>dqAndDo\<close>, \<open>enq\<close>, \<open>processExpired\<close>, \<open>procSyscall\<close> of \<^verbatim>\<open>src/eConsumer.C\<close>). These functions call each
  other: executing an exit queues the open events of its subject, queueing executes events. The
  pending calls are a list of tasks, one constructor per function or loop, and \<open>run\<close> works it off.
  The executed events are also kept in the list \<open>cs_done\<close>.
\<close>

datatype qtask =
    Enq addr evinfo
  | DqAndDo bool
  | DoEnq evinfo
  | Proc evinfo
  | Expired "evinfo list"
  | ExpiredAt addr nat
  | EndExit evinfo
  | FreeEv evinfo

section \<open>Execution of one system call\<close>

definition procSyscall :: "cenv \<Rightarrow> evinfo \<Rightarrow> cstate \<Rightarrow> (qtask list \<times> cstate) outcome" where
  "procSyscall e ev s =
     obind (known_subject e ev (out_of_seq ev s)) (\<lambda>(_, s).
       let s = s\<lparr>cs_done := cs_done s @ [ev]\<rparr> in
       if is_err (ev_arg3 ev) then Fine ([], free_ev ev s)
       else
         let s = on_subj (ev_si ev) (\<lambda>si. si\<lparr>sj_seqnum := ucast (ev_seqnum ev)\<rparr>) s in
         if is_exit ev then Fine ([ExpiredAt (ev_si ev) 0, EndExit ev, FreeEv ev], s)
         else obind (do_syscall e ev s) (\<lambda>(_, s). Fine ([], free_ev ev s)))"

section \<open>The queue\<close>

definition toolong_in_q :: u64 where
  "toolong_in_q = 2000000000"

definition ready_to_dq :: "cstate \<Rightarrow> bool" where
  "ready_to_dq s \<longleftrightarrow> cs_qsize s > 32000 \<or> cs_curtime s > cs_first_ts s + toolong_in_q"

text \<open>The search of \<open>dq\<close>; \<open>None\<close> if all slots are empty, where the code loops for ever.\<close>

function dq_scan :: "(nat \<Rightarrow> evinfo option) \<Rightarrow> nat \<Rightarrow> nat \<Rightarrow> (nat \<times> evinfo) option" where
  "dq_scan q cur left =
     (if left = 0 then None
      else case q cur of
             Some ev \<Rightarrow> Some (cur, ev)
           | None \<Rightarrow> dq_scan q (if cur + 1 = QSIZE then 0 else cur + 1) (left - 1))"
  by pat_completeness auto
termination by (relation "measure (\<lambda>(q, cur, left). left)") auto

declare dq_scan.simps [simp del]

definition dq :: "cstate \<Rightarrow> (evinfo \<times> cstate) option" where
  "dq s =
     (case dq_scan (cs_q s) (cs_qbeg s) QSIZE of
        None \<Rightarrow> None
      | Some (cur, ev) \<Rightarrow>
          Some (ev, s\<lparr>cs_q := (cs_q s)(cur := None), cs_qbeg := (if cur + 1 = QSIZE then 0 else cur + 1),
                      cs_qsize := cs_qsize s - 1, cs_first_ts := ev_ts ev\<rparr>))"

definition islot :: "evinfo \<Rightarrow> nat" where
  "islot ev = QFAC * unat (ev_seqnum ev)"

definition qpos :: "evinfo \<Rightarrow> cstate \<Rightarrow> nat" where
  "qpos ev s = (if islot ev < cs_qbeg s then islot ev + QSIZE else islot ev) - cs_qbeg s"

datatype probe_result = Empty nat nat | Old nat evinfo | Full nat

text \<open>The search for a slot; the alternate slot of a search that fails is \<open>QSIZE\<close> if there is none.\<close>

function probe :: "(nat \<Rightarrow> evinfo option) \<Rightarrow> evinfo \<Rightarrow> nat \<Rightarrow> nat \<Rightarrow> probe_result" where
  "probe q ev alt j =
     (if 32 \<le> j then Full alt
      else let slot = (if islot ev + j \<ge> QSIZE then islot ev + j - QSIZE else islot ev + j) in
        case q slot of
          None \<Rightarrow> Empty slot j
        | Some oe \<Rightarrow>
            if is_exit oe then probe q ev alt (Suc j)
            else if ev_ts oe < ev_ts ev - 2 ^ 20 then Old slot oe
            else probe q ev (if alt = QSIZE then slot else alt) (Suc j))"
  by pat_completeness auto
termination by (relation "measure (\<lambda>(q, ev, alt, j). 32 - j)") auto

declare probe.simps [simp del]

definition set_slot :: "nat \<Rightarrow> evinfo \<Rightarrow> cstate \<Rightarrow> cstate" where
  "set_slot slot ev s = s\<lparr>cs_q := (cs_q s)(slot \<mapsto> ev)\<rparr>"

text \<open>Execute the event that is in the slot, then put the new one there.\<close>

definition displace :: "cenv \<Rightarrow> nat \<Rightarrow> evinfo \<Rightarrow> evinfo \<Rightarrow> cstate \<Rightarrow> (qtask list \<times> cstate) outcome" where
  "displace e slot oe ev s = obind (procSyscall e oe s) (\<lambda>(ts, s). Fine (ts, set_slot slot ev s))"

definition find_slot :: "cenv \<Rightarrow> evinfo \<Rightarrow> cstate \<Rightarrow> (qtask list \<times> cstate) outcome" where
  "find_slot e ev s =
     (case probe (cs_q s) ev QSIZE 0 of
        Empty slot j \<Rightarrow>
          Fine ([], (set_slot slot ev s)\<lparr>cs_qsize := cs_qsize s + 1, cs_ncollisions := cs_ncollisions s + (if j > 0 then 1 else 0)\<rparr>)
      | Old slot oe \<Rightarrow> displace e slot oe ev s
      | Full alt \<Rightarrow>
          let s = s\<lparr>cs_ncollisions := cs_ncollisions s + 1, cs_nbad := cs_nbad s + 1\<rparr> in
          (case cs_q s alt of
             None \<Rightarrow> Fine ([], s\<lparr>cs_dropped := cs_dropped s @ [ev]\<rparr>)
           | Some oe \<Rightarrow> if ev_ts oe < ev_ts ev then displace e alt oe ev s else procSyscall e ev s))"

definition do_enq :: "cenv \<Rightarrow> evinfo \<Rightarrow> cstate \<Rightarrow> (qtask list \<times> cstate) outcome" where
  "do_enq e ev s =
     (let s = (if cs_first_ts s = 0 then s\<lparr>cs_first_ts := ev_ts ev\<rparr> else s);
          late = qpos ev s > (16000 + cs_qsize s) * QFAC \<and> cs_nsucc s > 5;
          s = (if late then s\<lparr>cs_tooLate := cs_tooLate s + 1\<rparr> else s) in
      if late \<and> \<not> is_exit ev then procSyscall e ev s
      else find_slot e ev (s\<lparr>cs_latest_ts := max (cs_latest_ts s) (ev_ts ev)\<rparr>))"

section \<open>Tasks\<close>

text \<open>An event that gave up waiting for its other half; a clone has been processed already.\<close>

definition expire :: "evinfo \<Rightarrow> cstate \<Rightarrow> evinfo \<times> cstate" where
  "expire ev s =
     (let clone = ev_code ev = CLONE_EX \<or> ev_code ev = FORK_EX;
          ev = (if clone then ev\<lparr>ev_status := INJECTED_EXIT\<rparr> else ev) in
      (ev, s\<lparr>cs_lost_clones := cs_lost_clones s + (if clone \<and> cs_nsucc s > 50000 then 1 else 0),
             cs_expired := cs_expired s + (if stat_num (ev_status ev) < stat_num INJECTED_EXIT then 1 else 0)\<rparr>))"

definition enq :: "addr \<Rightarrow> evinfo \<Rightarrow> cstate \<Rightarrow> (qtask list \<times> cstate) outcome" where
  "enq a ev s =
     (case cs_subj s a of
        None \<Rightarrow> Crash
      | Some si \<Rightarrow>
          if ev_status ev = INJECTED_EXIT then Fine ([], free_ev ev s)
          else if ev_ts ev \<ge> sj_exitTime si
          then Fine ([DqAndDo False, DoEnq (ev\<lparr>ev_ts := sj_exitTime si - 1\<rparr>)], s\<lparr>cs_nforced := cs_nforced s + 1\<rparr>)
          else Fine ([DqAndDo False, DoEnq ev],
                     put_subj a (si\<lparr>sj_lastEv := max (ev_ts ev) (sj_lastEv si)\<rparr>)
                       (s\<lparr>cs_maxts := max (ev_ts ev) (cs_maxts s)\<rparr>)))"

definition expired_at :: "addr \<Rightarrow> nat \<Rightarrow> cstate \<Rightarrow> (qtask list \<times> cstate) outcome" where
  "expired_at a idx s =
     (case cs_subj s a of
        None \<Rightarrow> Crash
      | Some si \<Rightarrow>
          if idx < length (sj_curEv si)
          then let cev = sj_curEv si ! idx in
               if is_exit cev then Fine ([ExpiredAt a (Suc idx)], s)
               else case expire cev s of (cev, s) \<Rightarrow>
                 Fine ([Enq (ev_si cev) cev, ExpiredAt a (Suc idx)], put_subj a (si\<lparr>sj_curEv := (sj_curEv si)[idx := cev]\<rparr>) s)
          else Fine ([], put_subj a (si\<lparr>sj_curEv := []\<rparr>) s))"

text \<open>
  The entry of the init process is pinned, and \<open>remove\<close> without \<open>force\<close> leaves a pinned entry in the
  table: after an exit of the init process the table points to a deleted subject.
\<close>

definition initd :: s32 where
  "initd = 1"

definition unlist :: "s32 \<Rightarrow> (s32 \<Rightarrow> addr option) \<Rightarrow> s32 \<Rightarrow> addr option" where
  "unlist tid m = (if tid = initd then m else m(tid := None))"

definition end_exit :: "evinfo \<Rightarrow> cstate \<Rightarrow> (qtask list \<times> cstate) outcome" where
  "end_exit ev s =
     (case cs_subj s (ev_si ev) of
        None \<Rightarrow> Crash
      | Some si \<Rightarrow>
          Fine ([], s\<lparr>cs_calls := cs_calls s @ [K_exit si (ev_arg0 ev) (ev_ts ev)],
                      cs_procMap := unlist (sj_tid si) (cs_procMap s), cs_subj := (cs_subj s)(ev_si ev := None)\<rparr>))"

definition dqAndDo :: "bool \<Rightarrow> cstate \<Rightarrow> qtask list \<times> cstate" where
  "dqAndDo doall s =
     (if cs_qsize s \<noteq> 0 \<and> (doall \<or> ready_to_dq s)
      then case dq s of None \<Rightarrow> ([DqAndDo doall], s) | Some (ev, s) \<Rightarrow> ([Proc ev, DqAndDo doall], s)
      else ([], s))"

fun step :: "cenv \<Rightarrow> qtask \<Rightarrow> cstate \<Rightarrow> (qtask list \<times> cstate) outcome" where
  "step e (Enq a ev) s = enq a ev s"
| "step e (DqAndDo doall) s = Fine (dqAndDo doall s)"
| "step e (DoEnq ev) s = do_enq e ev s"
| "step e (Proc ev) s = procSyscall e ev s"
| "step e (Expired []) s = Fine ([], s)"
| "step e (Expired (ev # evs)) s =
     (if is_exit ev then Fine ([Expired evs], s)
      else case expire ev s of (ev, s) \<Rightarrow> Fine ([Enq (ev_si ev) ev, Expired evs], s))"
| "step e (ExpiredAt a idx) s = expired_at a idx s"
| "step e (EndExit ev) s = end_exit ev s"
| "step e (FreeEv ev) s = Fine ([], free_ev ev s)"

partial_function (option) run :: "cenv \<Rightarrow> qtask list \<Rightarrow> cstate \<Rightarrow> cstate outcome option" where
  "run e ts s =
     (case ts of
        [] \<Rightarrow> Some (Fine s)
      | t # ts \<Rightarrow>
          (case step e t s of
             Crash \<Rightarrow> Some Crash
           | Fine (ts', s') \<Rightarrow> run e (ts' @ ts) s'))"


section \<open>The consumer at the start\<close>

definition init_subj :: subj where
  "init_subj = subj_skeleton 0 initd initd initd 0 0 1657825670000000000 True"

definition empty_state :: cstate where
  "empty_state =
     \<lparr>cs_q = \<lambda>_. None, cs_qbeg = 0, cs_qsize = 0, cs_first_ts = 0, cs_latest_ts = 0, cs_curtime = 0, cs_maxts = 0,
      cs_last_compl = 0, cs_lastsn = 0, cs_procMap = \<lambda>_. None, cs_subj = \<lambda>_. None, cs_next = 0,
      cs_free = [], cs_strtab = [], cs_argvs = [], cs_nm2oi = \<lambda>_. None, cs_objs = \<lambda>_. obj_zero, cs_id2nm = \<lambda>_. None, cs_nobj = 0,
      cs_calls = [], cs_nsucc = 0, cs_nfailed = 0,
      cs_nsubj = 0, cs_noutofseq = 0, cs_nforced = 0, cs_tooLate = 0, cs_ncollisions = 0, cs_nbad = 0,
      cs_expired = 0, cs_lost_clones = 0, cs_injected = 0, cs_done = [], cs_dropped = []\<rparr>"

text \<open>One subject, the init process; there are no clients yet that could be told of its objects.\<close>

definition consumer_start :: "cenv \<Rightarrow> cstate outcome" where
  "consumer_start e =
     obind (existing_dirs e 0 (Some (ascii ''/'')) (Some (ascii ''/initd'')) 1657825670000000000
              (snd (new_subj initd init_subj empty_state)))
       (\<lambda>(_, s). Fine (s\<lparr>cs_calls := []\<rparr>))"

end
