(* ===== verification/Consumer_Live.thy ===== *)
theory Consumer_Live
  imports Consumer_Queue
begin

text \<open>
  The queue of the consumer stays consistent and its functions return. Executing an exit queues
  further events and queueing executes events, so the recursion is not bounded by the queue alone:
  an exit never queues another exit, and between two exits every call shrinks a weight.
\<close>

section \<open>The invariant of the queue\<close>

definition occupied :: "(nat \<Rightarrow> evinfo option) \<Rightarrow> nat set" where
  "occupied q = {i. q i \<noteq> None}"

definition queue_inv :: "cstate \<Rightarrow> bool" where
  "queue_inv s \<longleftrightarrow> cs_qbeg s < QSIZE \<and> occupied (cs_q s) \<subseteq> {..<QSIZE} \<and> cs_qsize s = card (occupied (cs_q s))"

lemma queue_inv_finite: "queue_inv s \<Longrightarrow> finite (occupied (cs_q s))"
  by (auto simp: queue_inv_def intro: finite_subset)

lemma QSIZE_pos: "0 < QSIZE"
  by (simp add: QSIZE_def QFAC_def)

lemma islot_less: "islot ev < QSIZE"
  using unsigned_less [where ?'a = nat, of "ev_seqnum ev"] by (simp add: islot_def QSIZE_def QFAC_def)

lemma occupied_upd: "occupied (q(i := x)) = (if x = None then occupied q - {i} else insert i (occupied q))"
  by (auto simp: occupied_def)

subsection \<open>The search for a slot\<close>

lemma probe_cases:
  assumes "alt = QSIZE \<or> (\<exists>oe. q alt = Some oe \<and> \<not> is_exit oe \<and> alt < QSIZE)"
  shows "case probe q ev alt j of
      Empty slot n \<Rightarrow> slot < QSIZE \<and> q slot = None
    | Old slot oe \<Rightarrow> slot < QSIZE \<and> q slot = Some oe \<and> \<not> is_exit oe
    | Full alt' \<Rightarrow> alt' = QSIZE \<or> (\<exists>oe. q alt' = Some oe \<and> \<not> is_exit oe \<and> alt' < QSIZE)"
  using assms
proof (induction q ev alt j rule: probe.induct)
  case (1 q ev alt j)
  define slot where "slot = (if islot ev + j \<ge> QSIZE then islot ev + j - QSIZE else islot ev + j)"
  show ?case
  proof (cases "32 \<le> j")
    case True
    then show ?thesis using 1(3) by (simp add: probe.simps)
  next
    case j: False
    have "slot < QSIZE" using islot_less [of ev] j unfolding slot_def by (auto simp: QSIZE_def QFAC_def)
    then show ?thesis
      using 1(1) [OF j slot_def] 1(2) [OF j slot_def] 1(3) j
      by (subst probe.simps) (auto simp: slot_def [symmetric] Let_def split: option.split)
  qed
qed

lemma probe_start:
  "case probe q ev QSIZE 0 of
      Empty slot n \<Rightarrow> slot < QSIZE \<and> q slot = None
    | Old slot oe \<Rightarrow> slot < QSIZE \<and> q slot = Some oe \<and> \<not> is_exit oe
    | Full alt' \<Rightarrow> alt' = QSIZE \<or> (\<exists>oe. q alt' = Some oe \<and> \<not> is_exit oe \<and> alt' < QSIZE)"
  by (rule probe_cases) simp

subsection \<open>The search for the next event\<close>

definition next_slot :: "nat \<Rightarrow> nat" where
  "next_slot cur = (if cur + 1 = QSIZE then 0 else cur + 1)"

lemma next_slot_less: "cur < QSIZE \<Longrightarrow> next_slot cur < QSIZE"
  by (simp add: next_slot_def)

lemma next_slot_mod: "cur < QSIZE \<Longrightarrow> next_slot cur = (cur + 1) mod QSIZE"
  by (simp add: next_slot_def)

lemma funpow_next_slot: "cur < QSIZE \<Longrightarrow> (next_slot ^^ n) cur = (cur + n) mod QSIZE"
proof (induction n)
  case (Suc n)
  have "(cur + n) mod QSIZE < QSIZE" by (simp add: QSIZE_pos)
  then show ?case using Suc by (simp add: next_slot_mod mod_Suc_eq)
qed simp

text \<open>The search returns the first occupied slot.\<close>

lemma dq_scan_first:
  assumes "q ((next_slot ^^ n) cur) = Some ev" "\<forall>m<n. q ((next_slot ^^ m) cur) = None" "n < left"
  shows "dq_scan q cur left = Some ((next_slot ^^ n) cur, ev)"
  using assms
proof (induction n arbitrary: cur left)
  case 0
  then show ?case by (simp add: dq_scan.simps)
next
  case (Suc n)
  have "q cur = None" using Suc.prems(2) [rule_format, of 0] by simp
  moreover have "dq_scan q (next_slot cur) (left - 1) = Some ((next_slot ^^ n) (next_slot cur), ev)"
  proof (rule Suc.IH)
    show "q ((next_slot ^^ n) (next_slot cur)) = Some ev"
      using Suc.prems(1) by (simp only: funpow_Suc_right o_apply)
    show "\<forall>m<n. q ((next_slot ^^ m) (next_slot cur)) = None"
    proof (intro allI impI)
      fix m assume "m < n"
      then have "q ((next_slot ^^ Suc m) cur) = None" using Suc.prems(2) [rule_format, of "Suc m"] by simp
      then show "q ((next_slot ^^ m) (next_slot cur)) = None" by (simp only: funpow_Suc_right o_apply)
    qed
    show "n < left - 1" using Suc.prems(3) by simp
  qed
  ultimately show ?case
    using Suc.prems(3) by (subst dq_scan.simps) (simp add: next_slot_def funpow_Suc_right del: funpow.simps)
qed

lemma reaches_slot:
  assumes "cur < QSIZE" "i < QSIZE"
  shows "\<exists>n<QSIZE. (next_slot ^^ n) cur = i"
proof -
  let ?n = "(i + (QSIZE - cur)) mod QSIZE"
  have "?n < QSIZE" by (simp add: QSIZE_pos)
  moreover have "(cur + ?n) mod QSIZE = i"
  proof -
    have "(cur + ?n) mod QSIZE = (cur + (i + (QSIZE - cur))) mod QSIZE" by (rule mod_add_right_eq)
    also have "cur + (i + (QSIZE - cur)) = i + QSIZE" using assms(1) by simp
    finally show ?thesis using assms(2) by simp
  qed
  ultimately show ?thesis using funpow_next_slot [OF assms(1)] by metis
qed

text \<open>\<open>dq\<close> finds an event whenever the queue is not empty: its loop ends.\<close>

lemma dq_finds:
  assumes "queue_inv s" "cs_qsize s \<noteq> 0"
  obtains n ev where "n < QSIZE" "cs_q s ((next_slot ^^ n) (cs_qbeg s)) = Some ev"
    "\<forall>m<n. cs_q s ((next_slot ^^ m) (cs_qbeg s)) = None"
    "dq s = Some (ev, s\<lparr>cs_q := (cs_q s)((next_slot ^^ n) (cs_qbeg s) := None),
        cs_qbeg := next_slot ((next_slot ^^ n) (cs_qbeg s)), cs_qsize := cs_qsize s - 1, cs_first_ts := ev_ts ev\<rparr>)"
proof -
  let ?P = "\<lambda>n. cs_q s ((next_slot ^^ n) (cs_qbeg s)) \<noteq> None"
  have "occupied (cs_q s) \<noteq> {}" using assms by (auto simp: queue_inv_def)
  then obtain i where "cs_q s i \<noteq> None" "i < QSIZE" using assms(1) by (auto simp: queue_inv_def occupied_def)
  then obtain n0 where n0: "n0 < QSIZE" "?P n0"
    using reaches_slot [of "cs_qbeg s" i] assms(1) by (auto simp: queue_inv_def)
  define n where "n = (LEAST n. ?P n)"
  have P: "?P n" unfolding n_def using n0(2) by (rule LeastI)
  have n: "n < QSIZE" using Least_le [of ?P, OF n0(2)] n0(1) unfolding n_def by simp
  have before: "\<forall>m<n. cs_q s ((next_slot ^^ m) (cs_qbeg s)) = None"
    using not_less_Least [of _ ?P] unfolding n_def by blast
  obtain ev where ev: "cs_q s ((next_slot ^^ n) (cs_qbeg s)) = Some ev" using P by auto
  show ?thesis
    using that [OF n ev before] dq_scan_first [OF ev before n] by (simp add: dq_def next_slot_def)
qed


section \<open>What executing a system call leaves alone\<close>

definition open_events :: "cstate \<Rightarrow> addr \<Rightarrow> nat" where
  "open_events s a = (case cs_subj s a of None \<Rightarrow> 0 | Some si \<Rightarrow> length (sj_curEv si))"

text \<open>The queue is the same, and no subject has more open events.\<close>

definition queue_kept :: "cstate \<Rightarrow> cstate \<Rightarrow> bool" where
  "queue_kept s s' \<longleftrightarrow> cs_q s' = cs_q s \<and> cs_qbeg s' = cs_qbeg s \<and> cs_qsize s' = cs_qsize s
     \<and> (\<forall>a. open_events s' a \<le> open_events s a)"

lemma queue_kept_refl [simp, intro]: "queue_kept s s"
  by (simp add: queue_kept_def)

lemma queue_kept_trans: "queue_kept s s' \<Longrightarrow> queue_kept s' s'' \<Longrightarrow> queue_kept s s''"
  unfolding queue_kept_def by (metis le_trans)

lemma queue_kept_inv: "queue_kept s s' \<Longrightarrow> queue_inv s \<Longrightarrow> queue_inv s'"
  by (simp add: queue_kept_def queue_inv_def)

lemma queue_kept_put_subj:
  assumes "length (sj_curEv si) \<le> open_events s a"
  shows "queue_kept s (put_subj a si s)"
  using assms by (simp add: queue_kept_def put_subj_def open_events_def)

lemma queue_kept_on_subj:
  assumes "\<And>si. length (sj_curEv (f si)) \<le> length (sj_curEv si)"
  shows "queue_kept s (on_subj a f s)"
  using assms by (auto simp: on_subj_def open_events_def intro: queue_kept_put_subj split: option.split)

lemma queue_kept_new_subj: "sj_curEv si = [] \<Longrightarrow> queue_kept s (snd (new_subj tid si s))"
  by (simp add: queue_kept_def new_subj_def open_events_def)

lemma queue_kept_getSubj: "queue_kept s (snd (getSubj tid pid ts uid gid s))"
  by (auto simp: getSubj_def subj_skeleton_def intro: queue_kept_new_subj split: option.split)

lemma queue_kept_free: "queue_kept s (free_ev ev s)"
  by (simp add: queue_kept_def free_ev_def open_events_def)

lemma queue_kept_fields:
  "cs_q s' = cs_q s \<Longrightarrow> cs_qbeg s' = cs_qbeg s \<Longrightarrow> cs_qsize s' = cs_qsize s \<Longrightarrow> cs_subj s' = cs_subj s \<Longrightarrow> queue_kept s s'"
  by (simp add: queue_kept_def open_events_def)

lemma obind_Fine: "obind x f = Fine y \<longleftrightarrow> (\<exists>z. x = Fine z \<and> f z = Fine y)"
  by (cases x) auto

subsection \<open>Functions that leave the queue alone\<close>

named_theorems leaves_intros

definition leaves :: "'a consumer \<Rightarrow> bool" where
  "leaves f \<longleftrightarrow> (\<forall>s x s'. f s = Fine (x, s') \<longrightarrow> queue_kept s s')"

lemma leavesI: "(\<And>s x s'. f s = Fine (x, s') \<Longrightarrow> queue_kept s s') \<Longrightarrow> leaves f"
  by (simp add: leaves_def)

lemma leavesD: "leaves f \<Longrightarrow> f s = Fine (x, s') \<Longrightarrow> queue_kept s s'"
  by (simp add: leaves_def)

lemma leaves_bind [leaves_intros]:
  assumes "leaves f" "\<And>x. leaves (g x)"
  shows "leaves (cbind f g)"
proof (rule leavesI)
  fix s y s' assume "cbind f g s = Fine (y, s')"
  then obtain x s1 where "f s = Fine (x, s1)" "g x s1 = Fine (y, s')" by (auto simp: cbind_def obind_Fine)
  then show "queue_kept s s'" using assms leavesD queue_kept_trans by metis
qed

lemma leaves_cdo [leaves_intros]: "leaves f \<Longrightarrow> leaves g \<Longrightarrow> leaves (cdo f g)"
  unfolding cdo_def by (rule leaves_bind)

lemma leaves_if [leaves_intros]: "leaves f \<Longrightarrow> leaves g \<Longrightarrow> leaves (if b then f else g)"
  by simp

lemma leaves_fun: "(\<And>s0. leaves (f s0)) \<Longrightarrow> leaves (\<lambda>s. f s s)"
  by (simp add: leaves_def)

lemma leaves_cret [leaves_intros]: "leaves (cret x)"
  by (simp add: leaves_def cret_def)

lemma leaves_Fine: "(\<And>s. queue_kept s (h s)) \<Longrightarrow> leaves (\<lambda>s. Fine (x s, h s))"
  by (simp add: leaves_def)

lemma leaves_get_subj [leaves_intros]: "leaves (get_subj a)"
  by (auto simp: leaves_def get_subj_def split: option.splits)

lemma leaves_get_obj [leaves_intros]: "leaves (get_obj p)"
  by (auto simp: leaves_def get_obj_def split: option.splits)

lemma leaves_tell [leaves_intros]: "leaves (tell_clients k)"
  by (auto simp: leaves_def tell_clients_def intro: queue_kept_fields)

lemma leaves_set_subj [leaves_intros]:
  assumes "\<And>si. sj_curEv (f si) = sj_curEv si"
  shows "leaves (set_subj a f)"
  using assms
  by (auto simp: leaves_def set_subj_def cbind_def get_subj_def obind_Fine open_events_def
      intro!: queue_kept_put_subj split: option.splits)

lemma leaves_set_obj [leaves_intros]: "leaves (set_obj p f)"
  unfolding set_obj_def [abs_def] by (rule leaves_Fine) (simp add: queue_kept_fields)

lemma create_kept: "create t s = (i, s') \<Longrightarrow> queue_kept s s'"
  by (rule queue_kept_fields) (auto simp: create_def split: option.splits)

lemma leaves_create_name [leaves_intros]: "leaves (create_name t)"
  by (auto simp: leaves_def create_name_def intro: create_kept split: option.splits)

lemma create_all_kept: "create_all ts s = (is, s') \<Longrightarrow> queue_kept s s'"
proof (induction ts arbitrary: s "is" s')
  case (Cons t ts)
  obtain i s1 where c: "create t s = (i, s1)" by fastforce
  obtain js s2 where r: "create_all ts s1 = (js, s2)" by fastforce
  then show ?case using Cons.IH [OF r] Cons.prems create_kept [OF c] c queue_kept_trans by auto
qed simp

lemma leaves_mkargv [leaves_intros]: "leaves (mkargv bs)"
  by (auto simp: leaves_def mkargv_def intro: create_all_kept split: prod.splits)

lemma new_obj_kept: "queue_kept s (snd (new_obj e si nm ts opt i s))"
  by (rule queue_kept_fields) (simp_all add: new_obj_def Let_def split: prod.split)

lemma leaves_nm2Obj [leaves_intros]: "leaves (nm2Obj e a nm ts opt i)"
proof (rule leavesI)
  fix s x s' assume n: "nm2Obj e a nm ts opt i s = Fine (x, s')"
  then obtain si where si: "cs_subj s a = Some si" by (auto simp: nm2Obj_def cbind_def get_subj_def split: option.splits)
  have id: "queue_kept s1 (s1\<lparr>cs_id2nm := m\<rparr>)" for s1 m by (rule queue_kept_fields) simp_all
  show "queue_kept s s'"
    using n new_obj_kept [of s e si nm ts opt i] queue_kept_trans [OF new_obj_kept [of s e si nm ts opt i] id] id [of s]
    by (auto simp: nm2Obj_def cbind_def get_subj_def si Let_def split: option.splits prod.splits if_splits)
qed

lemma leaves_id_name [leaves_intros]: "leaves (id_name e a fd i opt)"
proof -
  have *: "leaves (\<lambda>s. Fine (nm, if i \<noteq> 0 then s\<lparr>cs_id2nm := (cs_id2nm s)(i \<mapsto> nm)\<rparr> else s))" for nm
    by (rule leaves_Fine) (simp add: queue_kept_fields)
  let ?m = "cbind (get_subj a) (\<lambda>si.
     cbind (create_name (if no_opt opt = QUERY_OS then ce_fdlink e (sj_tid si) fd else None)) (\<lambda>nm.
     cbind (if nm = nullstr then create_name (Some (createObjNmAsStr i)) else cret nm) (\<lambda>nm s.
       Fine (nm, if i \<noteq> 0 then s\<lparr>cs_id2nm := (cs_id2nm s)(i \<mapsto> nm)\<rparr> else s))))"
  have "leaves ?m" by (intro leaves_intros *)
  from leavesD [OF this] show ?thesis
    by (intro leavesI) (auto simp: id_name_def Let_def split: if_splits)
qed

lemma leaves_resolveId [leaves_intros]: "leaves (resolveId e a fd i ts opt)"
  unfolding resolveId_def Let_def by (intro leaves_intros)


lemma leaves_dir_name [leaves_intros]: "leaves (dir_name e a at_fd at_id ts opt)"
proof -
  have *: "leaves (\<lambda>s. case sj_cwd si of None \<Rightarrow> Crash | Some cwd \<Rightarrow> Fine (ob_nm cwd, s))" for si
    by (auto simp: leaves_def split: option.splits)
  show ?thesis unfolding dir_name_def by (intro leaves_intros *)
qed

lemma leaves_fullpath [leaves_intros]: "leaves (fullpath e a at_fd at_id fn ts opt)"
proof -
  have name: "leaves (\<lambda>s. create_name (t s) s)" for t
    by (rule leaves_fun [where f = "\<lambda>s. create_name (t s)"]) (rule leaves_create_name)
  have *: "leaves (cbind (dir_name e a at_fd at_id ts opt) (\<lambda>dir s. create_name (Some (join_dir (str dir s) nm)) s))" for nm
    by (intro leaves_intros name)
  show ?thesis by (rule leavesI) (use leavesD [OF *] in \<open>auto simp: fullpath_def Let_def split: if_splits\<close>)
qed

lemma leaves_nm2ObjAt [leaves_intros]: "leaves (nm2ObjAt e a at_fd at_id nm ts opt i)"
  unfolding nm2ObjAt_def by (intro leaves_intros)

lemma leaves_createSocket [leaves_intros]: "leaves (createSocket e a i nm ts)"
  unfolding createSocket_def by (intro leaves_intros)

lemma leaves_setcwd [leaves_intros]: "leaves (setcwd a p)" and leaves_setexe [leaves_intros]: "leaves (setexe a p)"
  unfolding setcwd_def setexe_def by (intro leaves_intros; simp)+

lemma leaves_existing_dirs [leaves_intros]: "leaves (existing_dirs e pa cwd exe ts)"
  unfolding existing_dirs_def by (intro leaves_intros)

lemma leaves_existing_args [leaves_intros]: "leaves (existing_args pa argv env b)"
proof (cases argv)
  case (Some x)
  then show ?thesis
    by (cases env) (simp_all add: existing_args_def leaves_cret leaves_bind leaves_mkargv leaves_set_subj)
qed (simp add: existing_args_def leaves_cret)

lemma leaves_give_id [leaves_intros]: "leaves (give_id pa ts)"
proof -
  have *: "leaves (\<lambda>s. set_subj pa (\<lambda>si. si\<lparr>sj_orphan := True, sj_id := of_nat (cs_nsubj s)\<rparr>) s)"
    by (rule leaves_fun [where f = "\<lambda>s. set_subj pa (\<lambda>si. si\<lparr>sj_orphan := True, sj_id := of_nat (cs_nsubj s)\<rparr>)"])
      (rule leaves_set_subj, simp)
  show ?thesis unfolding give_id_def by (intro leaves_intros *)
qed

lemma subj_thread_curEv: "subj_thread j tid par ts = Some t \<Longrightarrow> sj_curEv t = []"
  by (auto simp: subj_thread_def split: if_splits)

lemma leaves_mkProperThread [leaves_intros]: "leaves (mkProperThread e tid pa ts)"
proof -
  have put: "queue_kept s ((put_subj a t s)\<lparr>cs_nsubj := n\<rparr>)" if "sj_curEv t = []" for s a t n
    using that by (intro queue_kept_trans [OF queue_kept_put_subj queue_kept_fields]) simp_all
  have "leaves (\<lambda>s. case subj_thread (ce_junk e) tid par ts of
         None \<Rightarrow> Crash
       | Some t \<Rightarrow>
           (case cs_procMap s tid of
              None \<Rightarrow> Fine ((), snd (new_subj tid t s))
            | Some a \<Rightarrow> if cs_subj s a = None then Crash else Fine ((), (put_subj a t s)\<lparr>cs_nsubj := cs_nsubj s + 1\<rparr>)))" for par
    by (auto simp: leaves_def dest!: subj_thread_curEv intro: put queue_kept_new_subj split: option.splits if_splits)
  then show ?thesis unfolding mkProperThread_def by (intro leaves_intros)
qed

lemma leaves_getSubj [leaves_intros]: "leaves (\<lambda>s. Fine (getSubj tid pid ts uid gid s))"
  using queue_kept_getSubj by (auto simp: leaves_def) (metis snd_conv)

lemma existing_parent_curEv: "sj_curEv (existing_parent ids si) = sj_curEv si"
  by (auto simp: existing_parent_def split: option.split)

lemma leaves_createExisting [leaves_intros]: "leaves (createExistingSubj e tid pid ts)"
  unfolding createExistingSubj_def Let_def
  by (cases "proc_ids e tid pid") (simp, intro leaves_intros; simp add: existing_parent_curEv)

lemma leaves_say [leaves_intros]: "leaves (say ev k)"
  unfolding say_def by (intro leaves_intros)

lemma leaves_say_obj [leaves_intros]: "leaves (say_obj ev p l)"
  unfolding say_obj_def by (intro leaves_intros)

lemma leaves_ev_objs [leaves_intros]: "leaves (ev_socket e ev)" "leaves (ev_obj e ev)" "leaves (ev_obj_at e ev)" "leaves (ev_path e ev)"
  unfolding ev_socket_def ev_obj_def ev_obj_at_def ev_path_def by (intro leaves_intros)+

lemma leaves_doclone: "leaves (doclone ev)"
proof (rule leavesI)
  fix s x s' assume c: "doclone ev s = Fine (x, s')"
  show "queue_kept s s'"
  proof (cases "(ucast (ev_arg3 ev) :: s32) = 0")
    case True
    then show ?thesis using c by (simp add: doclone_def cret_def)
  next
    case False
    have say: "queue_kept s1 s2" if "say ev k s1 = Fine (y, s2)" for k s1 y s2
      by (rule leavesD [OF leaves_say that])
    have put: "queue_kept s ((put_subj a t s)\<lparr>cs_nsubj := n\<rparr>)" if "length (sj_curEv t) \<le> open_events s a" for a t n
      using that by (intro queue_kept_trans [OF queue_kept_put_subj queue_kept_fields]) simp_all
    show ?thesis
      using c False
      by (auto simp: doclone_def cbind_def get_subj_def obind_Fine Let_def subj_clone_def open_events_def
          dest!: say intro: queue_kept_trans [OF put, rotated] queue_kept_trans [OF queue_kept_new_subj, rotated]
          split: option.splits if_splits)
  qed
qed

lemma leaves_doptrace: "leaves (doptrace e ev)"
proof -
  have *: "leaves (\<lambda>s. case cs_procMap s tid of None \<Rightarrow> Crash | Some b \<Rightarrow> get_subj b s)" for tid
    by (auto simp: leaves_def intro: leavesD [OF leaves_get_subj] split: option.splits)
  show ?thesis unfolding doptrace_def Let_def by (intro leaves_intros *)
qed

lemma leaves_doexecve: "leaves (doexecve e ev)"
proof -
  have *: "leaves (\<lambda>s. set_subj a (\<lambda>si. si\<lparr>sj_args := f s, sj_envs := g s\<rparr>) s)" for a f g
    by (rule leaves_fun [where f = "\<lambda>s. set_subj a (\<lambda>si. si\<lparr>sj_args := f s, sj_envs := g s\<rparr>)"]) (rule leaves_set_subj, simp)
  show ?thesis unfolding doexecve_def Let_def by (intro leaves_intros *)
qed

lemmas do_files_defs =
  doaccept_def dobind_def dochdir_def dofchdir_def dochmod_def dofchmod_def dochown_def dofchown_def doclose_def
  doconnect_def dodup_def dogetpeer_def doinitmod_def dofinitmod_def dolink_def dosymlink_def domkdir_def domknod_def
  dommap_def domount_def domprotect_def doopen_def dopipeopen_def doreadwr_def dorecvfrom_def dorename_def dormdir_def
  dosendto_def dovmsplice_def dotruncate_def doftruncate_def dounlink_def doumount_def

lemma leaves_do_files [leaves_intros]:
  "leaves (doaccept e ev)" "leaves (dobind e ev)" "leaves (dochdir e ev)" "leaves (dofchdir e ev)" "leaves (dochmod e ev)"
  "leaves (dofchmod e ev)" "leaves (dochown e ev)" "leaves (dofchown e ev)" "leaves (doclose ev)" "leaves (doconnect e ev)"
  "leaves (dodup ev)" "leaves (dogetpeer e ev)" "leaves (doinitmod ev)" "leaves (dofinitmod e ev)" "leaves (dolink e ev)"
  "leaves (dosymlink e ev)" "leaves (domkdir e ev)" "leaves (domknod e ev)" "leaves (dommap e ev)" "leaves (domount e ev)"
  "leaves (domprotect ev)" "leaves (doopen e ev)" "leaves (dopipeopen ev)" "leaves (doreadwr e ev b)" "leaves (dorecvfrom e ev)"
  "leaves (dorename e ev)" "leaves (dormdir e ev)" "leaves (dosendto e ev)" "leaves (dovmsplice e ev)" "leaves (dotruncate e ev)"
  "leaves (doftruncate e ev)" "leaves (dounlink e ev)" "leaves (doumount e ev)"
  unfolding do_files_defs Let_def by (intro leaves_intros)+

lemma leaves_do_ids [leaves_intros]: "leaves (dokill ev)" "leaves (dosetuid ev)" "leaves (dosetgid ev)"
  unfolding dokill_def dosetuid_def dosetgid_def by (intro leaves_intros; simp)+

lemma leaves_do_syscall: "leaves (do_syscall e ev)"
  unfolding do_syscall_def Let_def by (intro leaves_intros leaves_doclone leaves_doptrace leaves_doexecve)

lemma leaves_known_subject: "leaves (known_subject e ev)"
proof -
  have *: "leaves (\<lambda>s. if sj_id si = nullsiid then Crash else Fine ((), s))" for si
    by (auto simp: leaves_def)
  show ?thesis unfolding known_subject_def by (intro leaves_intros *)
qed

text \<open>Executing a system call: the queue is unchanged, and only an exit leaves further work.\<close>

lemma procSyscall_kept:
  assumes "procSyscall e ev s = Fine (ts, s')"
  shows "queue_kept s s' \<and> (if is_exit ev then ts = [] \<or> ts = [ExpiredAt (ev_si ev) 0, EndExit ev, FreeEv ev] else ts = [])"
proof -
  obtain s1 where s1: "known_subject e ev (out_of_seq ev s) = Fine ((), s1)"
    using assms by (auto simp: procSyscall_def obind_Fine)
  let ?s2 = "s1\<lparr>cs_done := cs_done s1 @ [ev]\<rparr>"
  let ?s3 = "on_subj (ev_si ev) (\<lambda>si. si\<lparr>sj_seqnum := ucast (ev_seqnum ev)\<rparr>) ?s2"
  have "queue_kept s (out_of_seq ev s)" by (rule queue_kept_fields) (simp_all add: out_of_seq_def)
  moreover have "queue_kept s1 ?s2" by (rule queue_kept_fields) simp_all
  ultimately have k2: "queue_kept s ?s2" using leavesD [OF leaves_known_subject s1] queue_kept_trans by blast
  then have k3: "queue_kept s ?s3" by (rule queue_kept_trans) (simp add: queue_kept_on_subj)
  have k4: "queue_kept s s4" if "do_syscall e ev ?s3 = Fine (x, s4)" for x s4
    using leavesD [OF leaves_do_syscall that] queue_kept_trans [OF k3] by blast
  show ?thesis
    using assms k2 k3 k4 queue_kept_trans [OF _ queue_kept_free]
    by (auto simp: procSyscall_def s1 obind_Fine Let_def split: if_splits option.splits)
qed

section \<open>Weights\<close>

text \<open>The events a task holds that can be an exit.\<close>

fun task_exits :: "qtask \<Rightarrow> nat" where
  "task_exits (Enq a ev) = of_bool (is_exit ev)"
| "task_exits (DoEnq ev) = of_bool (is_exit ev)"
| "task_exits (Proc ev) = of_bool (is_exit ev)"
| "task_exits _ = 0"

fun task_weight :: "cstate \<Rightarrow> qtask \<Rightarrow> nat" where
  "task_weight s (Enq a ev) = 7"
| "task_weight s (DqAndDo doall) = 1"
| "task_weight s (DoEnq ev) = 5"
| "task_weight s (Proc ev) = 3"
| "task_weight s (Expired evs) = 8 * length evs + 1"
| "task_weight s (ExpiredAt a idx) = 8 * (open_events s a - idx) + 1"
| "task_weight s (EndExit ev) = 1"
| "task_weight s (FreeEv ev) = 1"

definition queued_exits :: "(nat \<Rightarrow> evinfo option) \<Rightarrow> nat set" where
  "queued_exits q = {i. \<exists>ev. q i = Some ev \<and> is_exit ev}"

definition exits :: "qtask list \<Rightarrow> cstate \<Rightarrow> nat" where
  "exits ts s = card (queued_exits (cs_q s)) + sum_list (map task_exits ts)"

definition weight :: "qtask list \<Rightarrow> cstate \<Rightarrow> nat" where
  "weight ts s = 4 * cs_qsize s + sum_list (map (task_weight s) ts)"

text \<open>A call got nearer to its end: it executed an exit, or it holds no more exits and weighs less.\<close>

definition nearer :: "qtask list \<Rightarrow> cstate \<Rightarrow> qtask list \<Rightarrow> cstate \<Rightarrow> bool" where
  "nearer ts' s' ts s \<longleftrightarrow> exits ts' s' < exits ts s \<or> exits ts' s' \<le> exits ts s \<and> weight ts' s' < weight ts s"

lemma queued_exits_upd:
  "queued_exits (q(i := x)) =
     (if \<exists>ev. x = Some ev \<and> is_exit ev then insert i (queued_exits q) else queued_exits q - {i})"
  by (auto simp: queued_exits_def)

lemma queued_exits_finite: "queue_inv s \<Longrightarrow> finite (queued_exits (cs_q s))"
  by (rule finite_subset [OF _ queue_inv_finite]) (auto simp: queued_exits_def occupied_def)

lemma task_weight_kept: "queue_kept s s' \<Longrightarrow> task_weight s' t \<le> task_weight s t"
  by (cases t) (auto simp: queue_kept_def intro: diff_le_mono)

lemma weights_kept: "queue_kept s s' \<Longrightarrow> sum_list (map (task_weight s') ts) \<le> sum_list (map (task_weight s) ts)"
  by (rule sum_list_mono) (rule task_weight_kept)

text \<open>It is enough to look at the task that is worked on.\<close>

lemma nearer_context:
  assumes "nearer ts' s' [t] s" "\<And>a. open_events s' a \<le> open_events s a"
  shows "nearer (ts' @ ts) s' (t # ts) s"
proof -
  have "task_weight s' x \<le> task_weight s x" for x
    using assms(2) by (cases x) (auto intro: diff_le_mono)
  then have "sum_list (map (task_weight s') ts) \<le> sum_list (map (task_weight s) ts)" by (intro sum_list_mono)
  then show ?thesis using assms(1) by (auto simp: nearer_def exits_def weight_def)
qed

lemma queue_kept_exits: "queue_kept s s' \<Longrightarrow> queued_exits (cs_q s') = queued_exits (cs_q s)"
  by (simp add: queue_kept_def)

lemma queue_kept_open: "queue_kept s s' \<Longrightarrow> open_events s' a \<le> open_events s a"
  by (simp add: queue_kept_def)

lemma queue_kept_size: "queue_kept s s' \<Longrightarrow> cs_qsize s' = cs_qsize s"
  by (simp add: queue_kept_def)

text \<open>What a step of the queue has to do: keep the invariant, add no open events, get nearer to the end.\<close>

definition good_step :: "qtask list \<Rightarrow> cstate \<Rightarrow> qtask \<Rightarrow> cstate \<Rightarrow> bool" where
  "good_step ts' s' t s \<longleftrightarrow> queue_inv s' \<and> (\<forall>a. open_events s' a \<le> open_events s a) \<and> nearer ts' s' [t] s"

text \<open>Steps that leave the queue alone.\<close>

lemma good_step_kept:
  assumes "queue_inv s" "queue_kept s s'"
    and "sum_list (map task_exits ts') < task_exits t \<or>
      sum_list (map task_exits ts') \<le> task_exits t \<and> sum_list (map (task_weight s') ts') < task_weight s t"
  shows "good_step ts' s' t s"
  using assms(3) queue_kept_inv [OF assms(2,1)]
  by (auto simp: good_step_def nearer_def exits_def weight_def queue_kept_exits [OF assms(2)]
      queue_kept_size [OF assms(2)] queue_kept_open [OF assms(2)])

lemma good_step_proc:
  assumes "procSyscall e ev s = Fine (ts', s')" "queue_inv s" "task_exits t = of_bool (is_exit ev)" "0 < task_weight s t"
  shows "good_step ts' s' t s"
  using procSyscall_kept [OF assms(1)] assms(2-)
  by (intro good_step_kept) (auto split: if_splits)

subsection \<open>Each step\<close>

lemma displace_good:
  assumes "displace e slot oe ev s = Fine (ts', s')" "queue_inv s" "slot < QSIZE" "cs_q s slot = Some oe" "\<not> is_exit oe"
  shows "good_step ts' s' (DoEnq ev) s"
proof -
  obtain ts s1 where p: "procSyscall e oe s = Fine (ts, s1)" and s': "ts' = ts" "s' = set_slot slot ev s1"
    using assms(1) by (auto simp: displace_def obind_Fine)
  have k: "queue_kept s s1" and ts: "ts = []" using procSyscall_kept [OF p] assms(5) by auto
  have q: "cs_q s1 = cs_q s" "cs_qbeg s1 = cs_qbeg s" "cs_qsize s1 = cs_qsize s" using k by (simp_all add: queue_kept_def)
  have "slot \<in> occupied (cs_q s)" using assms(4) by (simp add: occupied_def)
  then have inv: "queue_inv s'"
    using assms(2) q by (auto simp: s' set_slot_def queue_inv_def occupied_upd insert_absorb)
  have fin: "finite (queued_exits (cs_q s))" by (rule queued_exits_finite [OF assms(2)])
  have "slot \<notin> queued_exits (cs_q s)" using assms(4,5) by (auto simp: queued_exits_def)
  then have "exits [] s' \<le> exits [DoEnq ev] s"
    using fin q by (auto simp: exits_def s' set_slot_def queued_exits_upd card_insert_if)
  moreover have "weight [] s' < weight [DoEnq ev] s" using q by (simp add: weight_def s' set_slot_def)
  moreover have "open_events s' a \<le> open_events s a" for a
    using queue_kept_open [OF k] by (simp add: s' set_slot_def open_events_def)
  ultimately show ?thesis using inv ts s' by (simp add: good_step_def nearer_def)
qed

lemma insert_good:
  assumes "queue_inv s" "slot < QSIZE" "cs_q s slot = None"
  shows "good_step [] ((set_slot slot ev s)\<lparr>cs_qsize := cs_qsize s + 1, cs_ncollisions := n\<rparr>) (DoEnq ev) s"
proof -
  have "slot \<notin> occupied (cs_q s)" "slot \<notin> queued_exits (cs_q s)" using assms(3) by (auto simp: occupied_def queued_exits_def)
  then show ?thesis
    using assms(1,2) queued_exits_finite [OF assms(1)] queue_inv_finite [OF assms(1)]
    by (auto simp: good_step_def queue_inv_def set_slot_def occupied_upd open_events_def nearer_def exits_def weight_def
        queued_exits_upd)
qed

lemma good_step_pre:
  assumes "good_step ts' s' t s1" "queue_kept s s1"
  shows "good_step ts' s' t s"
proof -
  have "open_events s' a \<le> open_events s a" for a
    using assms(1) queue_kept_open [OF assms(2)] le_trans unfolding good_step_def by blast
  then show ?thesis
    using assms task_weight_kept [OF assms(2), of t]
    by (auto simp: good_step_def nearer_def exits_def weight_def queue_kept_exits queue_kept_size)
qed

lemma find_slot_good:
  assumes "find_slot e ev s = Fine (ts', s')" "queue_inv s"
  shows "good_step ts' s' (DoEnq ev) s"
proof (cases "probe (cs_q s) ev QSIZE 0")
  case (Empty slot j)
  then show ?thesis
    using assms insert_good [OF assms(2), of slot] probe_start [of "cs_q s" ev] by (auto simp: find_slot_def)
next
  case (Old slot oe)
  then show ?thesis
    using assms displace_good probe_start [of "cs_q s" ev] by (auto simp: find_slot_def)
next
  case (Full alt)
  let ?s1 = "s\<lparr>cs_ncollisions := cs_ncollisions s + 1, cs_nbad := cs_nbad s + 1\<rparr>"
  have k: "queue_kept s ?s1" by (rule queue_kept_fields) simp_all
  have inv: "queue_inv ?s1" by (rule queue_kept_inv [OF k assms(2)])
  have "cs_q s QSIZE = None" using assms(2) by (auto simp: queue_inv_def occupied_def)
  with Full probe_start [of "cs_q s" ev]
  consider (none) "cs_q s alt = None" | (some) oe where "cs_q s alt = Some oe" "\<not> is_exit oe" "alt < QSIZE" by auto
  then show ?thesis
  proof cases
    case none
    let ?s2 = "?s1\<lparr>cs_dropped := cs_dropped s @ [ev]\<rparr>"
    have "queue_kept s ?s2" by (rule queue_kept_fields) simp_all
    then have "good_step [] ?s2 (DoEnq ev) s" using assms(2) by (intro good_step_kept) auto
    then show ?thesis using assms(1) Full none by (simp add: find_slot_def)
  next
    case some
    show ?thesis
    proof (cases "ev_ts oe < ev_ts ev")
      case True
      then have "displace e alt oe ev ?s1 = Fine (ts', s')" using assms(1) Full some by (simp add: find_slot_def)
      then show ?thesis by (rule good_step_pre [OF displace_good [OF _ inv] k]) (use some in simp_all)
    next
      case False
      then have "procSyscall e ev ?s1 = Fine (ts', s')" using assms(1) Full some by (simp add: find_slot_def)
      then show ?thesis by (intro good_step_pre [OF good_step_proc [OF _ inv] k]) auto
    qed
  qed
qed

lemma do_enq_good:
  assumes "do_enq e ev s = Fine (ts', s')" "queue_inv s"
  shows "good_step ts' s' (DoEnq ev) s"
proof -
  define s1 where "s1 = (if cs_first_ts s = 0 then s\<lparr>cs_first_ts := ev_ts ev\<rparr> else s)"
  define late where "late \<longleftrightarrow> qpos ev s1 > (16000 + cs_qsize s1) * QFAC \<and> cs_nsucc s1 > 5"
  define s2 where "s2 = (if late then s1\<lparr>cs_tooLate := cs_tooLate s1 + 1\<rparr> else s1)"
  have k2: "queue_kept s s2" by (rule queue_kept_fields) (simp_all add: s1_def s2_def)
  have k3: "queue_kept s (s2\<lparr>cs_latest_ts := t\<rparr>)" for t by (rule queue_kept_fields) (simp_all add: s1_def s2_def)
  have "do_enq e ev s = (if late \<and> \<not> is_exit ev then procSyscall e ev s2
      else find_slot e ev (s2\<lparr>cs_latest_ts := max (cs_latest_ts s2) (ev_ts ev)\<rparr>))"
    by (simp add: do_enq_def s1_def late_def s2_def Let_def)
  then show ?thesis
    using assms(1) good_step_pre [OF find_slot_good [OF _ queue_kept_inv [OF k3 assms(2)]] k3]
      good_step_pre [OF good_step_proc [OF _ queue_kept_inv [OF k2 assms(2)]] k2, of e ev]
    by (auto split: if_splits)
qed

lemma dqAndDo_good:
  assumes "dqAndDo doall s = (ts', s')" "queue_inv s"
  shows "good_step ts' s' (DqAndDo doall) s"
proof (cases "cs_qsize s \<noteq> 0 \<and> (doall \<or> ready_to_dq s)")
  case True
  then obtain n ev where n: "n < QSIZE" "cs_q s ((next_slot ^^ n) (cs_qbeg s)) = Some ev"
    and dq: "dq s = Some (ev, s\<lparr>cs_q := (cs_q s)((next_slot ^^ n) (cs_qbeg s) := None),
        cs_qbeg := next_slot ((next_slot ^^ n) (cs_qbeg s)), cs_qsize := cs_qsize s - 1, cs_first_ts := ev_ts ev\<rparr>)"
    by (metis dq_finds [OF assms(2)])
  define i where "i = (next_slot ^^ n) (cs_qbeg s)"
  have i: "i < QSIZE" "cs_q s i = Some ev"
    using assms(2) n by (simp_all add: i_def funpow_next_slot queue_inv_def QSIZE_pos)
  have oc: "i \<in> occupied (cs_q s)" "finite (occupied (cs_q s))" using i queue_inv_finite [OF assms(2)] by (auto simp: occupied_def)
  have s': "ts' = [Proc ev, DqAndDo doall]" "s' = s\<lparr>cs_q := (cs_q s)(i := None),
        cs_qbeg := next_slot i, cs_qsize := cs_qsize s - 1, cs_first_ts := ev_ts ev\<rparr>"
    using assms(1) True dq by (auto simp: dqAndDo_def i_def)
  have "queue_inv s'"
    using assms(2) oc i next_slot_less [OF i(1)] by (auto simp: s' queue_inv_def occupied_upd)
  moreover have "exits ts' s' \<le> exits [DqAndDo doall] s"
  proof (cases "is_exit ev")
    case True
    then have "i \<in> queued_exits (cs_q s)" using i by (simp add: queued_exits_def)
    then have "0 < card (queued_exits (cs_q s))" "card (queued_exits (cs_q s) - {i}) = card (queued_exits (cs_q s)) - 1"
      using queued_exits_finite [OF assms(2)] by (auto simp: card_gt_0_iff)
    then show ?thesis using True by (simp add: exits_def s' queued_exits_upd)
  next
    case False
    then show ?thesis using queued_exits_finite [OF assms(2)] by (simp add: exits_def s' queued_exits_upd card_mono)
  qed
  moreover have "weight ts' s' < weight [DqAndDo doall] s" using True by (cases "cs_qsize s") (simp_all add: weight_def s')
  ultimately show ?thesis by (auto simp: good_step_def nearer_def s' open_events_def)
next
  case False
  then have "ts' = []" "s' = s" using assms(1) by (auto simp: dqAndDo_def split: if_splits)
  then show ?thesis using assms(2) by (auto intro: good_step_kept)
qed


lemma enq_good:
  assumes "enq a ev s = Fine (ts', s')" "queue_inv s"
  shows "good_step ts' s' (Enq a ev) s"
proof -
  obtain si where si: "cs_subj s a = Some si" using assms(1) by (auto simp: enq_def split: option.splits)
  have k1: "queue_kept s (s\<lparr>cs_nforced := n\<rparr>)" for n by (rule queue_kept_fields) simp_all
  have k2: "queue_kept s (put_subj a (si\<lparr>sj_lastEv := t\<rparr>) (s\<lparr>cs_maxts := m\<rparr>))" for t m
  proof (rule queue_kept_trans)
    show "queue_kept s (s\<lparr>cs_maxts := m\<rparr>)" by (rule queue_kept_fields) simp_all
    show "queue_kept (s\<lparr>cs_maxts := m\<rparr>) (put_subj a (si\<lparr>sj_lastEv := t\<rparr>) (s\<lparr>cs_maxts := m\<rparr>))"
      by (rule queue_kept_put_subj) (simp add: open_events_def si)
  qed
  have ex: "is_exit (ev\<lparr>ev_ts := t\<rparr>) = is_exit ev" for t by (simp add: is_exit_def)
  show ?thesis
    using assms si queue_kept_free k1 k2 ex
    by (intro good_step_kept [OF assms(2)]) (auto simp: enq_def split: if_splits)
qed

lemma expire_exit: "expire ev s = (ev', s') \<Longrightarrow> is_exit ev' = is_exit ev"
  by (auto simp: expire_def is_exit_def Let_def split: if_splits)

lemma expire_kept: "expire ev s = (ev', s') \<Longrightarrow> queue_kept s s'"
  by (rule queue_kept_fields) (auto simp: expire_def Let_def)

lemma expire_subj: "expire ev s = (ev', s') \<Longrightarrow> cs_subj s' = cs_subj s \<and> ev_si ev' = ev_si ev"
  by (auto simp: expire_def Let_def split: if_splits)

lemma expired_at_good:
  assumes "expired_at a idx s = Fine (ts', s')" "queue_inv s"
  shows "good_step ts' s' (ExpiredAt a idx) s"
proof -
  obtain si where si: "cs_subj s a = Some si" using assms(1) by (auto simp: expired_at_def split: option.splits)
  have open_si: "open_events s a = length (sj_curEv si)" by (simp add: open_events_def si)
  show ?thesis
  proof (cases "idx < length (sj_curEv si)")
    case False
    then have "ts' = []" "s' = put_subj a (si\<lparr>sj_curEv := []\<rparr>) s" using assms(1) si by (auto simp: expired_at_def)
    then show ?thesis using assms(2) by (auto intro!: good_step_kept queue_kept_put_subj)
  next
    case idx: True
    show ?thesis
    proof (cases "is_exit (sj_curEv si ! idx)")
      case True
      then have "ts' = [ExpiredAt a (Suc idx)]" "s' = s" using assms(1) si idx by (auto simp: expired_at_def)
      then show ?thesis using assms(2) idx open_si by (auto intro!: good_step_kept)
    next
      case False
      obtain cev s1 where cev: "expire (sj_curEv si ! idx) s = (cev, s1)" by fastforce
      let ?s2 = "put_subj a (si\<lparr>sj_curEv := (sj_curEv si)[idx := cev]\<rparr>) s1"
      have eq: "ts' = [Enq (ev_si cev) cev, ExpiredAt a (Suc idx)]" "s' = ?s2"
        using assms(1) si idx False cev by (auto simp: expired_at_def Let_def)
      have "queue_kept s1 ?s2" using expire_subj [OF cev] si by (intro queue_kept_put_subj) (simp add: open_events_def)
      then have k: "queue_kept s ?s2" using expire_kept [OF cev] queue_kept_trans by blast
      have "open_events ?s2 a = length (sj_curEv si)" by (simp add: put_subj_def open_events_def)
      then show ?thesis
        using False expire_exit [OF cev] idx open_si unfolding eq by (intro good_step_kept [OF assms(2) k]) auto
    qed
  qed
qed

lemma end_exit_good:
  assumes "end_exit ev s = Fine (ts', s')" "queue_inv s"
  shows "good_step ts' s' (EndExit ev) s"
  using assms by (intro good_step_kept) (auto simp: end_exit_def queue_kept_def open_events_def split: option.splits if_splits)

lemma step_good:
  assumes "step e t s = Fine (ts', s')" "queue_inv s"
  shows "good_step ts' s' t s"
proof (cases t)
  case (Expired evs)
  show ?thesis
  proof (cases evs)
    case Nil
    then show ?thesis using assms Expired by (auto intro: good_step_kept)
  next
    case (Cons ev evs')
    obtain ev' s1 where ex: "expire ev s = (ev', s1)" by fastforce
    show ?thesis
      using assms Expired Cons ex expire_kept [OF ex] expire_exit [OF ex]
      by (intro good_step_kept [OF assms(2)]) (auto split: if_splits)
  qed
next
  case (Proc ev)
  then show ?thesis using assms good_step_proc by simp
next
  case (FreeEv ev)
  then show ?thesis using assms queue_kept_free by (auto intro: good_step_kept)
qed (use assms enq_good dqAndDo_good do_enq_good expired_at_good end_exit_good in auto)

section \<open>Every call returns\<close>

lemma run_returns:
  assumes "queue_inv s"
  shows "\<exists>r. run e ts s = Some r \<and> (case r of Crash \<Rightarrow> True | Fine s' \<Rightarrow> queue_inv s')"
proof -
  let ?R = "inv_image (less_than <*lex*> less_than) (\<lambda>(ts, s). (exits ts s, weight ts s))"
  have "wf ?R" by auto
  then show ?thesis using assms
  proof (induction "(ts, s)" arbitrary: ts s rule: wf_induct_rule)
    case less
    show ?case
    proof (cases ts)
      case Nil
      then show ?thesis using less.prems by (subst run.simps) simp
    next
      case (Cons t us)
      show ?thesis
      proof (cases "step e t s")
        case Crash
        then show ?thesis using Cons by (subst run.simps) simp
      next
        case (Fine r)
        obtain ts' s' where r: "r = (ts', s')" by fastforce
        have g: "good_step ts' s' t s" using step_good less.prems Fine r by blast
        then have "nearer (ts' @ us) s' ts s" using Cons by (auto simp: good_step_def intro: nearer_context)
        then have "((ts' @ us, s'), (ts, s)) \<in> ?R" by (auto simp: nearer_def)
        then have "\<exists>r. run e (ts' @ us) s' = Some r \<and> (case r of Crash \<Rightarrow> True | Fine s' \<Rightarrow> queue_inv s')"
          using less.hyps g by (auto simp: good_step_def)
        then show ?thesis using Cons Fine r by (subst run.simps) simp
      qed
    qed
  qed
qed

text \<open>
  Liveness of the event queue: from a consistent queue, any sequence of calls of \<open>enq\<close>,
  \<open>dqAndDo\<close>, \<open>do_enq\<close>, \<open>procSyscall\<close> and \<open>processExpired\<close> returns, however the calls they make
  nest: the search loop of \<open>dq\<close>, the drain loop of \<open>dqAndDo\<close> and the queueing of the open events of
  a process that exits all come to an end, and unless a deleted subject was accessed on the way
  the queue is consistent again, its size the number of its occupied slots.
\<close>
theorem consumer_queue_returns:
  assumes "queue_inv s"
  shows "\<exists>r. run e ts s = Some r \<and> (case r of Crash \<Rightarrow> True | Fine s' \<Rightarrow> queue_inv s')"
  using assms by (rule run_returns)

definition sample_consumer :: cstate where
  "sample_consumer = snd (new_subj initd init_subj empty_state)"

lemma sample_queue_inv: "queue_inv sample_consumer"
  by (simp add: queue_inv_def sample_consumer_def new_subj_def empty_state_def occupied_def QSIZE_pos)

theorem consumer_queue_returns_witness:
  "queue_inv sample_consumer \<and>
   (\<forall>e. \<exists>r. run e [Enq 0 (sample_entry 3), DqAndDo True] sample_consumer = Some r \<and> (case r of Crash \<Rightarrow> True | Fine s' \<Rightarrow> queue_inv s'))"
  using sample_queue_inv consumer_queue_returns [OF sample_queue_inv] by blast

end
