(* ===== verification/Consumer_Order.thy ===== *)
theory Consumer_Order
  imports Consumer_Live
begin

text \<open>
  The consumer executes system calls in the order of their sequence numbers, whatever the order in
  which they arrive. This needs that no execution touches a deleted subject, hence the consistency
  of the subject table: every subject is listed under its thread id.
\<close>

section \<open>The subject table\<close>

definition tidy :: "subj \<Rightarrow> bool" where
  "tidy si \<longleftrightarrow> (sj_id si \<noteq> nullsiid \<longrightarrow> has_dirs si)"

definition subj_inv :: "cstate \<Rightarrow> bool" where
  "subj_inv s \<longleftrightarrow>
     (\<forall>tid a. cs_procMap s tid = Some a \<longrightarrow> (\<exists>si. cs_subj s a = Some si \<and> sj_tid si = tid)) \<and>
     (\<forall>a si. cs_subj s a = Some si \<longrightarrow> cs_procMap s (sj_tid si) = Some a \<and> a < cs_next s \<and> tidy si)"

lemma subj_inv_listed: "subj_inv s \<Longrightarrow> cs_procMap s tid = Some a \<Longrightarrow> \<exists>si. cs_subj s a = Some si \<and> sj_tid si = tid"
  by (simp add: subj_inv_def)

lemma subj_inv_subj: "subj_inv s \<Longrightarrow> cs_subj s a = Some si \<Longrightarrow> cs_procMap s (sj_tid si) = Some a \<and> a < cs_next s \<and> tidy si"
  by (simp add: subj_inv_def)

text \<open>A subject may learn its directory, program and id, but not lose them.\<close>

definition better :: "subj \<Rightarrow> subj \<Rightarrow> bool" where
  "better old si \<longleftrightarrow> sj_tid si = sj_tid old \<and> (sj_cwd old \<noteq> None \<longrightarrow> sj_cwd si \<noteq> None) \<and> (sj_exe old \<noteq> None \<longrightarrow> sj_exe si \<noteq> None)
     \<and> (sj_id old \<noteq> nullsiid \<longrightarrow> sj_id si \<noteq> nullsiid)"

lemma better_refl: "better si si"
  by (simp add: better_def)

lemma better_trans: "better x y \<Longrightarrow> better y z \<Longrightarrow> better x z"
  by (simp add: better_def)

text \<open>No subject is lost, and at most \<open>n\<close> are created.\<close>

definition subj_ok :: "nat \<Rightarrow> cstate \<Rightarrow> cstate \<Rightarrow> bool" where
  "subj_ok n s s' \<longleftrightarrow> subj_inv s' \<and> (\<forall>a si. cs_subj s a = Some si \<longrightarrow> (\<exists>si'. cs_subj s' a = Some si' \<and> better si si'))
     \<and> cs_nsubj s' \<le> cs_nsubj s + n \<and> cs_done s' = cs_done s"

lemma subj_ok_refl: "subj_inv s \<Longrightarrow> subj_ok 0 s s"
  by (simp add: subj_ok_def better_refl)

lemma subj_ok_subj: "subj_ok n s s' \<Longrightarrow> cs_subj s a = Some si \<Longrightarrow> \<exists>si'. cs_subj s' a = Some si' \<and> better si si'"
  by (simp add: subj_ok_def)

lemma subj_ok_inv: "subj_ok n s s' \<Longrightarrow> subj_inv s'"
  by (simp add: subj_ok_def)

lemma subj_ok_nsubj: "subj_ok n s s' \<Longrightarrow> cs_nsubj s' \<le> cs_nsubj s + n"
  by (simp add: subj_ok_def)

lemma subj_ok_trans:
  assumes "subj_ok m s s'" "subj_ok n s' s''"
  shows "subj_ok (m + n) s s''"
proof -
  have "\<exists>si''. cs_subj s'' a = Some si'' \<and> better si si''" if "cs_subj s a = Some si" for a si
    using subj_ok_subj [OF assms(1) that] subj_ok_subj [OF assms(2)] better_trans by meson
  then show ?thesis using assms by (simp add: subj_ok_def)
qed

lemma subj_ok_mono: "subj_ok m s s' \<Longrightarrow> m \<le> n \<Longrightarrow> subj_ok n s s'"
  by (simp add: subj_ok_def)

lemma subj_ok_put:
  assumes "subj_inv s" "cs_subj s a = Some old" "better old si" "tidy si"
  shows "subj_ok 0 s (put_subj a si s)"
proof -
  have l: "cs_procMap s (sj_tid old) = Some a" "a < cs_next s" using subj_inv_subj [OF assms(1,2)] by simp_all
  have tid: "sj_tid si = sj_tid old" using assms(3) by (simp add: better_def)
  have "subj_inv (put_subj a si s)"
    unfolding subj_inv_def
  proof (intro conjI allI impI)
    fix tid b assume "cs_procMap (put_subj a si s) tid = Some b"
    then have b: "cs_procMap s tid = Some b" by (simp add: put_subj_def)
    show "\<exists>si'. cs_subj (put_subj a si s) b = Some si' \<and> sj_tid si' = tid"
      using subj_inv_listed [OF assms(1) b] assms tid by (auto simp: put_subj_def)
  next
    fix b si' assume "cs_subj (put_subj a si s) b = Some si'"
    then consider "b = a" "si' = si" | "b \<noteq> a" "cs_subj s b = Some si'" by (auto simp: put_subj_def split: if_splits)
    then show "cs_procMap (put_subj a si s) (sj_tid si') = Some b" "b < cs_next (put_subj a si s)" "tidy si'"
      using subj_inv_subj [OF assms(1), of b si'] assms(4) l tid by (cases; simp add: put_subj_def)+
  qed
  then show ?thesis using assms(2,3) better_refl by (auto simp: subj_ok_def put_subj_def)
qed

lemma subj_ok_new:
  assumes "subj_inv s" "cs_procMap s tid = None" "sj_tid si = tid" "tidy si"
  shows "subj_ok 1 s (snd (new_subj tid si s))"
proof -
  let ?s = "snd (new_subj tid si s)"
  have fresh: "b < cs_next s" if "cs_subj s b = Some x" for b x using subj_inv_subj [OF assms(1) that] by simp
  have "subj_inv ?s"
    unfolding subj_inv_def
  proof (intro conjI allI impI)
    fix t b assume "cs_procMap ?s t = Some b"
    then consider "t = tid" "b = cs_next s" | "t \<noteq> tid" "cs_procMap s t = Some b" by (auto simp: new_subj_def split: if_splits)
    then show "\<exists>si'. cs_subj ?s b = Some si' \<and> sj_tid si' = t"
      using subj_inv_listed [OF assms(1), of t b] assms(3) fresh by cases (auto simp: new_subj_def)
  next
    fix b si' assume b: "cs_subj ?s b = Some si'"
    then consider "b = cs_next s" "si' = si" | "b \<noteq> cs_next s" "cs_subj s b = Some si'" by (auto simp: new_subj_def split: if_splits)
    then show "cs_procMap ?s (sj_tid si') = Some b" "b < cs_next ?s" "tidy si'"
      using subj_inv_subj [OF assms(1), of b si'] assms(2-4) by (cases; auto simp: new_subj_def)+
  qed
  moreover have "\<exists>si'. cs_subj ?s a = Some si' \<and> better x si'" if "cs_subj s a = Some x" for a x
    using that fresh [OF that] better_refl by (auto simp: new_subj_def)
  ultimately show ?thesis by (auto simp: subj_ok_def new_subj_def)
qed

lemma subj_inv_cong:
  "cs_procMap s' = cs_procMap s \<Longrightarrow> cs_subj s' = cs_subj s \<Longrightarrow> cs_next s' = cs_next s \<Longrightarrow> subj_inv s' = subj_inv s"
  by (simp add: subj_inv_def)

lemma subj_ok_fields:
  assumes "subj_inv s" "cs_procMap s' = cs_procMap s" "cs_subj s' = cs_subj s" "cs_next s' = cs_next s"
    "cs_nsubj s' \<le> cs_nsubj s + n" "cs_done s' = cs_done s"
  shows "subj_ok n s s'"
  using assms subj_inv_cong [OF assms(2-4)] by (simp add: subj_ok_def better_refl)

lemma subj_ok_on_subj:
  assumes "subj_inv s" "\<And>si. better si (f si)" "\<And>si. tidy si \<Longrightarrow> tidy (f si)"
  shows "subj_ok 0 s (on_subj a f s)"
  using subj_ok_put [OF assms(1)] subj_ok_refl [OF assms(1)] subj_inv_subj [OF assms(1)] assms(2,3)
  by (auto simp: on_subj_def split: option.split)

lemma subj_ok_replace:
  assumes "subj_inv s" "cs_subj s a = Some old" "better old c" "tidy c"
  shows "subj_ok 1 s ((put_subj a c s)\<lparr>cs_nsubj := cs_nsubj s + 1\<rparr>)"
proof -
  note k = subj_ok_put [OF assms]
  have "subj_ok 1 (put_subj a c s) ((put_subj a c s)\<lparr>cs_nsubj := cs_nsubj s + 1\<rparr>)"
    by (rule subj_ok_fields [OF subj_ok_inv [OF k]]) (simp_all add: put_subj_def)
  then show ?thesis using subj_ok_trans [OF k] by simp
qed

lemma getSubj_ok:
  assumes "subj_inv s" "getSubj tid pid ts uid gid s = (a, s')"
  shows "subj_ok 1 s s' \<and> cs_procMap s' tid = Some a \<and> (\<exists>si. cs_subj s' a = Some si \<and> sj_tid si = tid)"
proof (cases "cs_procMap s tid")
  case None
  let ?si = "subj_skeleton nullsiid tid pid 1 uid gid ts True"
  have s': "s' = snd (new_subj tid ?si s)" "a = cs_next s" using assms(2) None by (auto simp: getSubj_def new_subj_def)
  have "subj_ok 1 s s'" unfolding s' by (rule subj_ok_new [OF assms(1) None]) (simp_all add: subj_skeleton_def tidy_def)
  then show ?thesis by (auto simp: s' new_subj_def subj_skeleton_def)
next
  case (Some b)
  then show ?thesis
    using assms subj_ok_mono [OF subj_ok_refl [OF assms(1)], of 1] subj_inv_listed [OF assms(1) Some] by (auto simp: getSubj_def)
qed

lemma id_not_null:
  assumes "n < 2 ^ 48"
  shows "(of_nat n :: u64) \<noteq> nullsiid"
proof
  assume "(of_nat n :: u64) = nullsiid"
  then have "unat (of_nat n :: u64) = unat (2 ^ 48 :: u64)" by (simp add: nullsiid_def)
  moreover have "unat (of_nat n :: u64) = n" using assms by (simp add: unsigned_of_nat take_bit_nat_eq_self)
  moreover have "unat (2 ^ 48 :: u64) = 2 ^ 48" by simp
  ultimately show False using assms by simp
qed

section \<open>Functions that do not crash\<close>

text \<open>A subject is there; its directory and program are known.\<close>

definition present :: "addr \<Rightarrow> cstate \<Rightarrow> bool" where
  "present a s \<longleftrightarrow> subj_inv s \<and> a \<in> dom (cs_subj s)"

definition settled :: "addr \<Rightarrow> cstate \<Rightarrow> bool" where
  "settled a s \<longleftrightarrow> subj_inv s \<and> (\<exists>si. cs_subj s a = Some si \<and> has_dirs si)"

text \<open>From a state with \<open>A\<close> a function returns and keeps the subjects.\<close>

definition total :: "(cstate \<Rightarrow> bool) \<Rightarrow> 'a consumer \<Rightarrow> bool" where
  "total A f \<longleftrightarrow> (\<forall>s. A s \<longrightarrow> (\<exists>x s'. f s = Fine (x, s') \<and> subj_ok 0 s s'))"

lemma totalI: "(\<And>s. A s \<Longrightarrow> \<exists>x s'. f s = Fine (x, s') \<and> subj_ok 0 s s') \<Longrightarrow> total A f"
  by (simp add: total_def)

lemma totalE: "total A f \<Longrightarrow> A s \<Longrightarrow> (\<And>x s'. f s = Fine (x, s') \<Longrightarrow> subj_ok 0 s s' \<Longrightarrow> P) \<Longrightarrow> P"
  unfolding total_def by blast

lemma total_mono: "total A f \<Longrightarrow> (\<And>s. B s \<Longrightarrow> A s) \<Longrightarrow> total B f"
  by (simp add: total_def)

text \<open>How such functions are put together, for any condition that lasts.\<close>

locale lasting =
  fixes A :: "cstate \<Rightarrow> bool"
  assumes lasts: "A s \<Longrightarrow> subj_ok n s s' \<Longrightarrow> A s'"
    and consistent: "A s \<Longrightarrow> subj_inv s"
begin

lemma same: "A s \<Longrightarrow> subj_ok 0 s s"
  by (rule subj_ok_refl) (rule consistent)

lemma kept_fields:
  "A s \<Longrightarrow> cs_procMap s' = cs_procMap s \<Longrightarrow> cs_subj s' = cs_subj s \<Longrightarrow> cs_next s' = cs_next s \<Longrightarrow> cs_nsubj s' = cs_nsubj s
    \<Longrightarrow> cs_done s' = cs_done s \<Longrightarrow> subj_ok 0 s s'"
  using consistent by (intro subj_ok_fields) simp_all

lemma ok_trans: "subj_ok 0 s s' \<Longrightarrow> subj_ok 0 s' s'' \<Longrightarrow> subj_ok 0 s s''"
  using subj_ok_trans [of 0 s s' 0 s''] by simp

lemma total_bind:
  assumes "total A f" "\<And>x. total A (g x)"
  shows "total A (cbind f g)"
proof (rule totalI)
  fix s assume "A s"
  then obtain x s1 where f: "f s = Fine (x, s1)" "subj_ok 0 s s1" using totalE [OF assms(1)] by metis
  obtain y s2 where g: "g x s1 = Fine (y, s2)" "subj_ok 0 s1 s2" using totalE [OF assms(2) lasts [OF \<open>A s\<close> f(2)]] by metis
  show "\<exists>x s'. cbind f g s = Fine (x, s') \<and> subj_ok 0 s s'" using f g ok_trans by (auto simp: cbind_def)
qed

lemma total_cdo: "total A f \<Longrightarrow> total A g \<Longrightarrow> total A (cdo f g)"
  unfolding cdo_def by (rule total_bind)

lemma total_if: "total A f \<Longrightarrow> total A g \<Longrightarrow> total A (if b then f else g)"
  by simp

lemma total_cret: "total A (cret x)"
  using same by (auto simp: total_def cret_def)

lemma total_tell: "total A (tell_clients k)"
  using kept_fields by (auto simp: total_def tell_clients_def)

lemma total_get_obj: "total A (get_obj p)"
  using same by (auto simp: total_def get_obj_def)

lemma total_set_obj: "total A (set_obj p f)"
  using kept_fields by (auto simp: total_def set_obj_def)

lemma create_fields: "create t s = (i, s') \<Longrightarrow> \<exists>st. s' = s\<lparr>cs_strtab := st\<rparr>"
  by (auto simp: create_def split: option.splits) (metis cstate.surjective cstate.update_convs(14))

lemma create_name_fields: "\<exists>i st. create_name t s = Fine (i, s\<lparr>cs_strtab := st\<rparr>)"
proof (cases t)
  case None
  then show ?thesis by (auto simp: create_name_def intro: exI [of _ "cs_strtab s"])
next
  case (Some x)
  obtain i s' where c: "create x s = (i, s')" by fastforce
  show ?thesis using create_fields [OF c] c Some by (auto simp: create_name_def)
qed

lemma total_create_name: "total A (create_name t)"
proof (rule totalI)
  fix s assume s: "A s"
  obtain i st where "create_name t s = Fine (i, s\<lparr>cs_strtab := st\<rparr>)" using create_name_fields by blast
  then show "\<exists>x s'. create_name t s = Fine (x, s') \<and> subj_ok 0 s s'"
    using kept_fields [OF s, of "s\<lparr>cs_strtab := st\<rparr>"] by simp
qed

lemma create_all_fields: "create_all ts s = (is, s') \<Longrightarrow> \<exists>st. s' = s\<lparr>cs_strtab := st\<rparr>"
proof (induction ts arbitrary: s "is" s')
  case Nil
  then show ?case by (auto intro: exI [of _ "cs_strtab s"])
next
  case (Cons t ts)
  obtain i s1 where c: "create t s = (i, s1)" by fastforce
  obtain js s2 where r: "create_all ts s1 = (js, s2)" by fastforce
  obtain st where "s1 = s\<lparr>cs_strtab := st\<rparr>" using create_fields [OF c] by auto
  then show ?case using Cons.IH [OF r] Cons.prems c r by auto
qed

lemma total_mkargv: "total A (mkargv bs)"
proof (rule totalI)
  fix s assume s: "A s"
  obtain n r where e: "arg_end bs 0 0 = (n, r)" by fastforce
  obtain js s1 where c: "create_all (arg_strings bs 0 r) s = (js, s1)" by fastforce
  obtain st where "s1 = s\<lparr>cs_strtab := st\<rparr>" using create_all_fields [OF c] by auto
  then show "\<exists>x s'. mkargv bs s = Fine (x, s') \<and> subj_ok 0 s s'"
    using kept_fields [OF s, of s1] e c by (simp add: mkargv_def)
qed

end

text \<open>Functions about one subject.\<close>

locale lasting_subject = lasting A for A :: "cstate \<Rightarrow> bool" +
  fixes a :: addr
  assumes there: "A s \<Longrightarrow> a \<in> dom (cs_subj s)"
begin

lemma total_get_subj: "total A (get_subj a)"
  using there same by (fastforce simp: total_def get_subj_def)

lemma set_subj_runs:
  assumes "A s" "\<And>si. better si (f si)" "\<And>si. tidy si \<Longrightarrow> tidy (f si)"
  shows "\<exists>si. cs_subj s a = Some si \<and> set_subj a f s = Fine ((), put_subj a (f si) s) \<and> subj_ok 0 s (put_subj a (f si) s)"
proof -
  obtain si where si: "cs_subj s a = Some si" using there [OF assms(1)] by auto
  have "subj_ok 0 s (put_subj a (f si) s)"
    using subj_ok_put [OF consistent [OF assms(1)] si] subj_inv_subj [OF consistent [OF assms(1)] si] assms(2,3) by blast
  then show ?thesis by (simp add: si set_subj_def cbind_def get_subj_def)
qed

lemma total_set_subj: "(\<And>si. better si (f si)) \<Longrightarrow> (\<And>si. tidy si \<Longrightarrow> tidy (f si)) \<Longrightarrow> total A (set_subj a f)"
  by (rule totalI) (metis set_subj_runs)

lemma new_obj_runs: "A s \<Longrightarrow> subj_ok 0 s (snd (new_obj e si nm ts opt i s))"
  by (rule kept_fields) (simp_all add: new_obj_def Let_def split: prod.split)

lemma total_nm2Obj: "total A (nm2Obj e a nm ts opt i)"
proof (rule totalI)
  fix s assume s: "A s"
  obtain si where si: "cs_subj s a = Some si" using there [OF s] by auto
  obtain rv s1 where r: "(case cs_nm2oi s nm of
                        None \<Rightarrow> new_obj e si nm ts opt i s
                      | Some rv \<Rightarrow> if i \<noteq> 0 \<and> ob_id (cs_objs s rv) \<noteq> i then new_obj e si nm ts opt i s else (rv, s)) = (rv, s1)" by fastforce
  have s1: "subj_ok 0 s s1"
    using r new_obj_runs [OF s, of e si nm ts opt i] same [OF s] by (auto split: option.splits if_splits)
  let ?s2 = "if i \<noteq> 0 then s1\<lparr>cs_id2nm := (cs_id2nm s1)(i \<mapsto> nm)\<rparr> else s1"
  have "subj_ok 0 s1 ?s2" by (rule kept_fields [OF lasts [OF s s1]]) simp_all
  then have "subj_ok 0 s ?s2" using s1 ok_trans by blast
  moreover have "nm2Obj e a nm ts opt i s = Fine (rv, ?s2)" by (simp add: nm2Obj_def cbind_def get_subj_def si r)
  ultimately show "\<exists>p s'. nm2Obj e a nm ts opt i s = Fine (p, s') \<and> subj_ok 0 s s'" by blast
qed

lemma total_id_name: "total A (id_name e a fd i opt)"
proof -
  have last: "total A (\<lambda>s. Fine (nm, if i \<noteq> 0 then s\<lparr>cs_id2nm := (cs_id2nm s)(i \<mapsto> nm)\<rparr> else s))" for nm
    using kept_fields by (auto simp: total_def)
  have "total A (cbind (get_subj a) (\<lambda>si.
     cbind (create_name (if no_opt opt = QUERY_OS then ce_fdlink e (sj_tid si) fd else None)) (\<lambda>nm.
     cbind (if nm = nullstr then create_name (Some (createObjNmAsStr i)) else cret nm) (\<lambda>nm s.
       Fine (nm, if i \<noteq> 0 then s\<lparr>cs_id2nm := (cs_id2nm s)(i \<mapsto> nm)\<rparr> else s)))))"
    by (intro total_bind total_get_subj total_create_name total_if total_cret last)
  then show ?thesis using same by (auto simp: total_def id_name_def Let_def)
qed

lemma total_resolveId: "total A (resolveId e a fd i ts opt)"
  unfolding resolveId_def Let_def by (intro total_bind total_id_name total_nm2Obj)

lemma total_createSocket: "total A (createSocket e a i nm ts)"
  unfolding createSocket_def by (rule total_nm2Obj)

lemma total_setcwd: "total A (setcwd a p)" and total_setexe: "total A (setexe a p)"
  unfolding setcwd_def setexe_def
  by (intro total_bind total_get_obj total_set_subj; simp add: better_def has_dirs_def tidy_def)+

end

lemma present_lasts: "present a s \<Longrightarrow> subj_ok n s s' \<Longrightarrow> present a s'"
  using subj_ok_subj [of n s s' a] by (auto simp: present_def subj_ok_inv)

lemma settled_lasts: "settled a s \<Longrightarrow> subj_ok n s s' \<Longrightarrow> settled a s'"
  using subj_ok_subj [of n s s' a] by (auto simp: settled_def subj_ok_inv better_def has_dirs_def)

interpretation prs: lasting_subject "present a" a
proof
  show "present a s'" if "present a s" "subj_ok n s s'" for s n s' using that by (rule present_lasts)
qed (simp_all add: present_def)

interpretation stl: lasting_subject "settled a" a
proof
  show "settled a s'" if "settled a s" "subj_ok n s s'" for s n s' using that by (rule settled_lasts)
qed (auto simp: settled_def)

lemma settled_present: "settled a s \<Longrightarrow> present a s"
  by (auto simp: settled_def present_def)


subsection \<open>Paths and clients\<close>

lemma total_dir_name: "total (settled a) (dir_name e a at_fd at_id ts opt)"
proof (cases "at_fd = at_fdcwd")
  case True
  have "\<exists>x s'. dir_name e a at_fd at_id ts opt s = Fine (x, s') \<and> subj_ok 0 s s'" if s: "settled a s" for s
  proof -
    obtain si cwd where "cs_subj s a = Some si" "sj_cwd si = Some cwd" using s by (auto simp: settled_def has_dirs_def)
    then show ?thesis using True stl.same [OF s] by (simp add: dir_name_def cbind_def get_subj_def)
  qed
  then show ?thesis by (rule totalI)
next
  case False
  show ?thesis
    unfolding dir_name_def if_not_P [OF False] by (intro stl.total_bind stl.total_resolveId stl.total_get_obj stl.total_cret)
qed

lemma total_fun: "(\<And>s0. total A (f s0)) \<Longrightarrow> total A (\<lambda>s. f s s)"
  unfolding total_def by blast

lemma total_fullpath: "total (settled a) (fullpath e a at_fd at_id fn ts opt)"
proof -
  have name: "total (settled a) (\<lambda>s. create_name (t s) s)" for t
    by (rule total_fun [where f = "\<lambda>s. create_name (t s)"]) (rule stl.total_create_name)
  have "total (settled a) (cbind (dir_name e a at_fd at_id ts opt) (\<lambda>dir s. create_name (Some (join_dir (str dir s) nm)) s))" for nm
    by (intro stl.total_bind total_dir_name name)
  then show ?thesis using stl.same by (auto simp: total_def fullpath_def Let_def)
qed

lemma total_nm2ObjAt: "total (settled a) (nm2ObjAt e a at_fd at_id nm ts opt i)"
  unfolding nm2ObjAt_def by (intro stl.total_bind total_fullpath stl.total_nm2Obj)

lemma total_say: "total (settled (ev_si ev)) (say ev k)"
  unfolding say_def by (intro stl.total_bind stl.total_get_subj stl.total_tell)

lemma total_say_obj: "total (settled (ev_si ev)) (say_obj ev p k)"
  unfolding say_obj_def by (intro stl.total_bind stl.total_get_obj total_say)

lemmas settled_intros =
  stl.total_bind stl.total_cdo stl.total_cret stl.total_if total_say total_say_obj total_fullpath total_nm2ObjAt
  stl.total_resolveId stl.total_createSocket stl.total_set_obj stl.total_setcwd stl.total_setexe stl.total_get_subj

section \<open>Executing a system call\<close>

lemma ev_total:
  "total (settled (ev_si ev)) (ev_socket e ev)" "total (settled (ev_si ev)) (ev_obj e ev)"
  "total (settled (ev_si ev)) (ev_obj_at e ev)"
  unfolding ev_socket_def ev_obj_def ev_obj_at_def by (intro settled_intros)+

lemma total_files:
  fixes ev :: evinfo
  defines "A \<equiv> settled (ev_si ev)"
  shows "total A (doaccept e ev)" "total A (dobind e ev)" "total A (dochdir e ev)" "total A (dofchdir e ev)"
    "total A (dochmod e ev)" "total A (dofchmod e ev)" "total A (dochown e ev)" "total A (dofchown e ev)"
    "total A (doclose ev)" "total A (doconnect e ev)" "total A (dodup ev)" "total A (doinitmod ev)"
    "total A (dofinitmod e ev)" "total A (domkdir e ev)" "total A (domknod e ev)" "total A (dommap e ev)"
    "total A (domount e ev)" "total A (domprotect ev)" "total A (doopen e ev)" "total A (dopipeopen ev)"
    "total A (doreadwr e ev b)" "total A (dorecvfrom e ev)" "total A (dormdir e ev)" "total A (dosendto e ev)"
    "total A (dovmsplice e ev)" "total A (dotruncate e ev)" "total A (doftruncate e ev)" "total A (dounlink e ev)"
    "total A (doumount e ev)" "total A (dogetpeer e ev)" "total A (dolink e ev)" "total A (dosymlink e ev)" "total A (dorename e ev)"
  unfolding A_def do_files_defs Let_def ev_path_def
  by ((rule settled_intros ev_total | simp)+)

lemma total_ids:
  fixes ev :: evinfo
  defines "A \<equiv> settled (ev_si ev)"
  shows "total A (dosetuid ev)" "total A (dosetgid ev)" "total A (doexecve e ev)"
proof -
  have set: "total A (set_subj (ev_si ev) f)" if "\<And>si. better si (f si)" "\<And>si. tidy si \<Longrightarrow> tidy (f si)" for f
    unfolding A_def by (rule stl.total_set_subj [OF that])
  show "total A (dosetuid ev)" "total A (dosetgid ev)"
    unfolding dosetuid_def dosetgid_def A_def
    by (intro settled_intros set [unfolded A_def]; simp add: better_def tidy_def has_dirs_def)+
  have args: "total A (\<lambda>s. set_subj (ev_si ev) (\<lambda>si. si\<lparr>sj_args := f s, sj_envs := g s\<rparr>) s)" for f g
    by (rule total_fun [where f = "\<lambda>s. set_subj (ev_si ev) (\<lambda>si. si\<lparr>sj_args := f s, sj_envs := g s\<rparr>)"])
      (rule set; simp add: better_def tidy_def has_dirs_def)
  show "total A (doexecve e ev)"
    unfolding doexecve_def A_def Let_def by (intro settled_intros args [unfolded A_def])
qed


subsection \<open>Subjects that existed before\<close>

lemma total_existing_args: "total (present a) (existing_args a argv env b)"
proof -
  have "total (present a) (set_subj a (\<lambda>si. si\<lparr>sj_args := x\<rparr>))" "total (present a) (set_subj a (\<lambda>si. si\<lparr>sj_envs := x\<rparr>))" for x
    by (rule prs.total_set_subj; simp add: better_def tidy_def has_dirs_def)+
  then show ?thesis
    unfolding existing_args_def
    by (auto intro!: prs.total_bind prs.total_mkargv prs.total_cret split: option.split)
qed

text \<open>After looking up the directory and the program the subject has them.\<close>

lemma set_dir_step:
  assumes "present a s" "\<And>o' si. better si (f o' si)" "\<And>o' si. tidy si \<Longrightarrow> tidy (f o' si)"
  shows "\<exists>s' o' si. cbind (create_name t) (\<lambda>nm. cbind (nm2Obj e a nm ts opt i) (\<lambda>p. cbind (get_obj p) (\<lambda>o'. set_subj a (f o')))) s = Fine ((), s')
    \<and> subj_ok 0 s s' \<and> cs_subj s' a = Some (f o' si)"
proof -
  obtain nm s1 where s1: "create_name t s = Fine (nm, s1)" "subj_ok 0 s s1" using totalE [OF prs.total_create_name assms(1)] by metis
  have p1: "present a s1" by (rule present_lasts [OF assms(1) s1(2)])
  obtain p s2 where s2: "nm2Obj e a nm ts opt i s1 = Fine (p, s2)" "subj_ok 0 s1 s2"
    using totalE [OF prs.total_nm2Obj p1] by metis
  have p2: "present a s2" by (rule present_lasts [OF p1 s2(2)])
  define o' where "o' = cs_objs s2 p"
  obtain si where set: "set_subj a (f o') s2 = Fine ((), put_subj a (f o' si) s2)" "subj_ok 0 s2 (put_subj a (f o' si) s2)"
    using prs.set_subj_runs [OF p2, of "f o'"] assms(2,3) by blast
  have "subj_ok 0 s (put_subj a (f o' si) s2)" using prs.ok_trans [OF prs.ok_trans [OF s1(2) s2(2)] set(2)] .
  moreover have "cs_subj (put_subj a (f o' si) s2) a = Some (f o' si)" by (simp add: put_subj_def)
  moreover have "cbind (create_name t) (\<lambda>nm. cbind (nm2Obj e a nm ts opt i) (\<lambda>p. cbind (get_obj p) (\<lambda>o'. set_subj a (f o')))) s
      = Fine ((), put_subj a (f o' si) s2)"
    using s1(1) s2(1) set(1) by (simp add: cbind_def get_obj_def o'_def)
  ultimately show ?thesis by blast
qed

lemma cbind_assoc: "cbind (cbind f g) h = cbind f (\<lambda>x. cbind (g x) h)"
proof
  fix s show "cbind (cbind f g) h s = cbind f (\<lambda>x. cbind (g x) h) s"
    by (cases "f s") (auto simp: cbind_def)
qed

lemma existing_dirs_ok:
  assumes "present a s"
  shows "\<exists>s'. existing_dirs e a cwd exe ts s = Fine ((), s') \<and> subj_ok 0 s s' \<and> settled a s'"
proof -
  let ?step = "\<lambda>t f. cbind (create_name t) (\<lambda>nm. cbind (nm2Obj e a nm ts (old_file e) 0) (\<lambda>p. cbind (get_obj p) (\<lambda>o'. set_subj a (f o'))))"
  let ?cwd = "\<lambda>o' si. si\<lparr>sj_cwd := Some o'\<rparr>" and ?exe = "\<lambda>o' si. si\<lparr>sj_exe := Some o'\<rparr>"
  have f: "better si (?cwd o' si)" "tidy si \<Longrightarrow> tidy (?cwd o' si)" "better si (?exe o' si)" "tidy si \<Longrightarrow> tidy (?exe o' si)" for o' si
    by (simp_all add: better_def tidy_def has_dirs_def)
  have d: "existing_dirs e a cwd exe ts = cbind (?step cwd ?cwd) (\<lambda>_. ?step exe ?exe)"
    by (simp add: existing_dirs_def setcwd_def setexe_def [abs_def] cbind_assoc)
  obtain s1 o1 si1 where s1: "?step cwd ?cwd s = Fine ((), s1)" "subj_ok 0 s s1" "cs_subj s1 a = Some (?cwd o1 si1)"
    using set_dir_step [where f = ?cwd, OF assms] f by blast
  obtain s2 o2 si2 where s2: "?step exe ?exe s1 = Fine ((), s2)" "subj_ok 0 s1 s2" "cs_subj s2 a = Some (?exe o2 si2)"
    using set_dir_step [where f = ?exe, OF present_lasts [OF assms s1(2)]] f by blast
  obtain si where si: "cs_subj s2 a = Some si" "better (?cwd o1 si1) si" using subj_ok_subj [OF s2(2) s1(3)] by blast
  then have "has_dirs si" using s2(3) by (auto simp: has_dirs_def better_def)
  then have "settled a s2" using si(1) subj_ok_inv [OF s2(2)] by (simp add: settled_def)
  moreover have "existing_dirs e a cwd exe ts s = Fine ((), s2)" unfolding d cbind_def [of "?step cwd ?cwd"] using s1(1) s2(1) by simp
  ultimately show ?thesis using prs.ok_trans [OF s1(2) s2(2)] by blast
qed

lemma give_id_ok:
  assumes "settled a s" "cs_nsubj s < 2 ^ 48"
  shows "\<exists>s' si. give_id a ts s = Fine ((), s') \<and> subj_ok 0 s s' \<and> cs_subj s' a = Some si \<and> sj_id si \<noteq> nullsiid \<and> has_dirs si"
proof -
  obtain si where si: "cs_subj s a = Some si" "has_dirs si" "subj_inv s" using assms(1) by (auto simp: settled_def)
  show ?thesis
  proof (cases "sj_id si = nullsiid")
    case True
    let ?si = "si\<lparr>sj_orphan := True, sj_id := of_nat (cs_nsubj s)\<rparr>"
    let ?s1 = "put_subj a ?si s"
    let ?s2 = "?s1\<lparr>cs_calls := cs_calls ?s1 @ [K_existingSubj ?si ts]\<rparr>"
    have si': "sj_id ?si \<noteq> nullsiid" "has_dirs ?si" using id_not_null [OF assms(2)] si(2) by (simp_all add: has_dirs_def)
    have k1: "subj_ok 0 s ?s1"
      by (rule subj_ok_put [OF si(3,1)]) (use si' in \<open>simp_all add: better_def tidy_def\<close>)
    have "subj_ok 0 ?s1 ?s2" by (rule subj_ok_fields [OF subj_ok_inv [OF k1]]) simp_all
    then have "subj_ok 0 s ?s2" by (rule prs.ok_trans [OF k1])
    moreover have "give_id a ts s = Fine ((), ?s2)"
      using si(1) True by (simp add: give_id_def cbind_def get_subj_def set_subj_def put_subj_def tell_clients_def)
    moreover have "cs_subj ?s2 a = Some ?si" by (simp add: put_subj_def)
    ultimately show ?thesis using si' by blast
  next
    case False
    then show ?thesis using si subj_ok_refl [OF si(3)] by (auto simp: give_id_def cbind_def get_subj_def cret_def)
  qed
qed

lemma mkProperThread_ok:
  assumes "subj_inv s" "cs_subj s pa = Some par" "has_dirs par" "sj_id par \<noteq> nullsiid"
  shows "\<exists>s' a si. mkProperThread e tid pa ts s = Fine ((), s') \<and> subj_ok 1 s s' \<and> cs_procMap s' tid = Some a
    \<and> cs_subj s' a = Some si \<and> sj_id si \<noteq> nullsiid"
proof -
  obtain t where t: "subj_thread (ce_junk e) tid par ts = Some t" "sj_tid t = tid" "sj_id t \<noteq> nullsiid" "has_dirs t"
    using assms(3,4) by (auto simp: subj_thread_def has_dirs_def)
  then have tidy: "tidy t" by (simp add: tidy_def)
  show ?thesis
  proof (cases "cs_procMap s tid")
    case None
    have "subj_ok 1 s (snd (new_subj tid t s))" by (rule subj_ok_new [OF assms(1) None t(2) tidy])
    then show ?thesis using assms(2) None t by (auto simp: mkProperThread_def cbind_def get_subj_def new_subj_def)
  next
    case (Some a)
    obtain old where old: "cs_subj s a = Some old" "sj_tid old = tid" using subj_inv_listed [OF assms(1) Some] by auto
    have "better old t" using t old by (simp add: better_def has_dirs_def)
    then have "subj_ok 1 s ((put_subj a t s)\<lparr>cs_nsubj := cs_nsubj s + 1\<rparr>)"
      by (rule subj_ok_replace [OF assms(1) old(1) _ tidy])
    then show ?thesis
      using assms(2) Some t old(1) by (auto simp: mkProperThread_def cbind_def get_subj_def put_subj_def)
  qed
qed

lemma existing_parent_fields:
  "better si (existing_parent ids si)" "tidy si \<Longrightarrow> tidy (existing_parent ids si)"
  by (auto simp: existing_parent_def better_def tidy_def has_dirs_def split: option.split)

lemma createExisting_ok:
  assumes "subj_inv s" "cs_nsubj s + 1 < 2 ^ 48"
  shows "\<exists>s' a si. createExistingSubj e tid pid ts s = Fine ((), s') \<and> subj_ok 2 s s' \<and> cs_procMap s' tid = Some a
    \<and> cs_subj s' a = Some si \<and> sj_id si \<noteq> nullsiid"
proof -
  obtain pid' ids where p: "proc_ids e tid pid = (pid', ids)" by fastforce
  let ?rd = "\<lambda>f :: s32 \<Rightarrow> cstr option. case proc_dir e tid pid' of None \<Rightarrow> None | Some d \<Rightarrow> f d"
  obtain pa s1 where g: "getSubj pid' pid' ts inval_uid inval_uid s = (pa, s1)" by fastforce
  have k1: "subj_ok 1 s s1" and pm: "cs_procMap s1 pid' = Some pa" and p1: "present pa s1"
    using getSubj_ok [OF assms(1) g] by (auto simp: present_def subj_ok_inv)
  obtain si where s2: "set_subj pa (existing_parent ids) s1 = Fine ((), put_subj pa (existing_parent ids si) s1)"
    "subj_ok 0 s1 (put_subj pa (existing_parent ids si) s1)"
    using prs.set_subj_runs [OF p1, of "existing_parent ids"] existing_parent_fields by blast
  let ?s2 = "put_subj pa (existing_parent ids si) s1"
  obtain s3 where s3: "existing_dirs e pa (?rd (ce_cwd e)) (?rd (ce_exe e)) ts ?s2 = Fine ((), s3)" "subj_ok 0 ?s2 s3" "settled pa s3"
    using existing_dirs_ok [OF present_lasts [OF p1 s2(2)]] by blast
  obtain s4 where s4: "existing_args pa (?rd (ce_cmdline e)) (?rd (ce_environ e)) (?rd (ce_cwd e) \<noteq> None \<and> ?rd (ce_exe e) \<noteq> None) s3 = Fine ((), s4)"
    "subj_ok 0 s3 s4"
    using totalE [OF total_existing_args settled_present [OF s3(3)]] by (metis (full_types) unit.exhaust)
  have k4: "subj_ok 1 s s4" using subj_ok_trans [OF k1 prs.ok_trans [OF prs.ok_trans [OF s2(2) s3(2)] s4(2)]] by simp
  have "cs_nsubj s4 < 2 ^ 48" using subj_ok_nsubj [OF k4] assms(2) by simp
  then obtain s5 si5 where s5: "give_id pa ts s4 = Fine ((), s5)" "subj_ok 0 s4 s5" "cs_subj s5 pa = Some si5"
    "sj_id si5 \<noteq> nullsiid" "has_dirs si5"
    using give_id_ok [OF settled_lasts [OF s3(3) s4(2)]] by blast
  have k5: "subj_ok 1 s s5" using subj_ok_trans [OF k4 s5(2)] by simp
  have c: "createExistingSubj e tid pid ts s = (if tid \<noteq> pid' then mkProperThread e tid pa ts s5 else Fine ((), s5))"
    by (simp only: createExistingSubj_def Let_def p prod.case cbind_def g obind.simps s2(1) s3(1) s4(1) s5(1))
      (simp add: cret_def)
  show ?thesis
  proof (cases "tid = pid'")
    case True
    obtain si0 where "cs_subj s1 pa = Some si0" "sj_tid si0 = pid'" using getSubj_ok [OF assms(1) g] by auto
    then obtain "sj_tid si5 = pid'"
      using subj_ok_subj [OF prs.ok_trans [OF prs.ok_trans [OF prs.ok_trans [OF s2(2) s3(2)] s4(2)] s5(2)]] s5(3)
      by (fastforce simp: better_def)
    then have "cs_procMap s5 tid = Some pa" using subj_inv_subj [OF subj_ok_inv [OF k5] s5(3)] True by simp
    then show ?thesis using c True s5(3,4) subj_ok_mono [OF k5, of 2] by auto
  next
    case False
    obtain s' a si' where "mkProperThread e tid pa ts s5 = Fine ((), s')" "subj_ok 1 s5 s'" "cs_procMap s' tid = Some a"
      "cs_subj s' a = Some si'" "sj_id si' \<noteq> nullsiid"
      using mkProperThread_ok [OF subj_ok_inv [OF k5] s5(3,5,4), of e tid ts] by auto
    then show ?thesis using False c subj_ok_trans [OF k5, of 1 s'] by (auto simp: numeral_2_eq_2)
  qed
qed


text \<open>A listed thread stays where it is.\<close>

lemma subj_ok_listed:
  assumes "subj_ok n s s'" "subj_inv s" "cs_procMap s t = Some b"
  shows "cs_procMap s' t = Some b"
proof -
  obtain si where "cs_subj s b = Some si" "sj_tid si = t" using subj_inv_listed [OF assms(2,3)] by auto
  then obtain si' where "cs_subj s' b = Some si'" "sj_tid si' = t" using subj_ok_subj [OF assms(1)] by (fastforce simp: better_def)
  then show ?thesis using subj_inv_subj [OF subj_ok_inv [OF assms(1)]] by blast
qed

subsection \<open>Calls about subjects\<close>

lemma say_after:
  assumes "settled (ev_si ev) s" "subj_ok n s s1"
  shows "\<exists>s'. say ev k s1 = Fine ((), s') \<and> subj_ok n s s'"
proof -
  obtain s' where "say ev k s1 = Fine ((), s')" "subj_ok 0 s1 s'"
    using totalE [OF total_say settled_lasts [OF assms]] by (metis (full_types) unit.exhaust)
  then show ?thesis using subj_ok_trans [OF assms(2), of 0 s'] by auto
qed

lemma doclone_ok:
  assumes "settled (ev_si ev) s" "cs_nsubj s + 1 < 2 ^ 48"
  shows "\<exists>s'. doclone ev s = Fine ((), s') \<and> subj_ok 1 s s'"
proof (cases "(ucast (ev_arg3 ev) :: s32) = 0")
  case True
  have "subj_ok 1 s s" using subj_ok_mono [OF stl.same [OF assms(1)]] by simp
  then show ?thesis using True by (simp add: doclone_def cret_def)
next
  case nz: False
  define chtid where "chtid = (ucast (ev_arg3 ev) :: s32)"
  obtain si where si: "cs_subj s (ev_si ev) = Some si" "has_dirs si" "subj_inv s" using assms(1) by (auto simp: settled_def)
  define child where "child = (\<lambda>c :: subj. c\<lparr>sj_tid := chtid, sj_ptid := sj_tid si,
    sj_lastEv := max (ev_ts ev) (sj_lastEv c), sj_id := of_nat (cs_nsubj s + 1)\<rparr>)"
  have child: "sj_tid (child c) = chtid" "sj_id (child c) \<noteq> nullsiid" "has_dirs (child c) = has_dirs c" for c
    using id_not_null [OF assms(2)] by (simp_all add: child_def has_dirs_def del: of_nat_add)
  show ?thesis
  proof (cases "cs_procMap s chtid")
    case None
    let ?c = "child (si\<lparr>sj_curEv := []\<rparr>)"
    have "tidy ?c" "sj_tid ?c = chtid" using child [of "si\<lparr>sj_curEv := []\<rparr>"] si(2) by (simp_all add: tidy_def has_dirs_def)
    then have k: "subj_ok 1 s (snd (new_subj chtid ?c s))" using subj_ok_new [OF si(3) None] by blast
    have "doclone ev s = say ev (\<lambda>si. K_clone si None (ucast (ev_arg0 ev)) (ev_ts ev)) (snd (new_subj chtid ?c s))"
      using nz si None by (simp add: doclone_def chtid_def [symmetric] child_def Let_def cbind_def get_subj_def subj_clone_def)
    then show ?thesis using say_after [OF assms(1) k] by simp
  next
    case (Some ca)
    obtain old where old: "cs_subj s ca = Some old" "sj_tid old = chtid" using subj_inv_listed [OF si(3) Some] by auto
    let ?c = "child (si\<lparr>sj_curEv := [], sj_uid := sj_uid old, sj_gid := sj_gid old, sj_pid := sj_pid old, sj_curEv := sj_curEv old\<rparr>)"
    have "has_dirs (si\<lparr>sj_curEv := [], sj_uid := sj_uid old, sj_gid := sj_gid old, sj_pid := sj_pid old, sj_curEv := sj_curEv old\<rparr>)"
      using si(2) by (simp add: has_dirs_def)
    then have c: "sj_tid ?c = chtid" "sj_id ?c \<noteq> nullsiid" "has_dirs ?c" using child by blast+
    then have "better old ?c" "tidy ?c" using old by (simp_all add: better_def tidy_def has_dirs_def)
    then have k: "subj_ok 1 s ((put_subj ca ?c s)\<lparr>cs_nsubj := cs_nsubj s + 1\<rparr>)" by (rule subj_ok_replace [OF si(3) old(1)])
    have "doclone ev s = say ev (\<lambda>si. K_clone si (Some ?c) (ucast (ev_arg0 ev)) (ev_ts ev)) ((put_subj ca ?c s)\<lparr>cs_nsubj := cs_nsubj s + 1\<rparr>)"
      using nz si Some old by (simp add: doclone_def chtid_def [symmetric] child_def Let_def cbind_def get_subj_def subj_clone_def)
    then show ?thesis using say_after [OF assms(1) k] by simp
  qed
qed

lemma dokill_ok:
  assumes "settled (ev_si ev) s"
  shows "\<exists>s'. dokill ev s = Fine ((), s') \<and> subj_ok 1 s s'"
proof -
  obtain a s1 where g: "getSubj (ucast (ev_arg1 ev)) (ucast (ev_arg0 ev)) (ev_ts ev) inval_uid inval_uid s = (a, s1)" by fastforce
  obtain c where "cs_subj s1 a = Some c" and k: "subj_ok 1 s s1" using getSubj_ok [OF stl.consistent [OF assms] g] by auto
  then show ?thesis using say_after [OF assms k] g by (simp add: dokill_def cbind_def get_subj_def)
qed

lemma doptrace_ok:
  assumes "settled (ev_si ev) s" "cs_nsubj s + 2 < 2 ^ 48"
  shows "\<exists>s'. doptrace e ev s = Fine ((), s') \<and> subj_ok 3 s s'"
proof (cases "ev_arg0 ev = 0")
  case True
  have "subj_ok 3 s s" using subj_ok_mono [OF stl.same [OF assms(1)]] by simp
  then show ?thesis using True by (simp add: doptrace_def cret_def)
next
  case nz: False
  obtain a s1 where g: "getSubj (ucast (ev_arg1 ev)) (ucast (ev_arg1 ev)) (ev_ts ev) inval_uid inval_uid s = (a, s1)"
    by fastforce
  obtain t where t: "cs_subj s1 a = Some t" and k: "subj_ok 1 s s1" using getSubj_ok [OF stl.consistent [OF assms(1)] g] by auto
  let ?say = "\<lambda>t. say ev (\<lambda>si. K_ptrace si t (ucast (ev_arg0 ev)) (ev_arg3 ev) (ev_ts ev))"
  show ?thesis
  proof (cases "sj_id t = nullsiid")
    case True
    obtain s2 b si where s2: "createExistingSubj e (sj_tid t) (sj_pid t) (ev_ts ev) s1 = Fine ((), s2)" "subj_ok 2 s1 s2"
      "cs_procMap s2 (sj_tid t) = Some b" "cs_subj s2 b = Some si"
      using createExisting_ok [OF subj_ok_inv [OF k], of e "sj_tid t" "sj_pid t" "ev_ts ev"] subj_ok_nsubj [OF k] assms(2) by auto
    have k2: "subj_ok 3 s s2" using subj_ok_trans [OF k s2(2)] by (simp add: numeral_3_eq_3)
    have "doptrace e ev s = ?say si s2"
      using nz g t True s2 by (simp add: doptrace_def Let_def cdo_def cbind_def get_subj_def)
    then show ?thesis using say_after [OF assms(1) k2] by simp
  next
    case False
    have "doptrace e ev s = ?say t s1"
      using nz g t False by (simp add: doptrace_def Let_def cdo_def cbind_def get_subj_def cret_def)
    then show ?thesis using say_after [OF assms(1) subj_ok_mono [OF k, of 3]] by simp
  qed
qed

lemma do_syscall_ok:
  assumes "settled (ev_si ev) s" "cs_nsubj s + 2 < 2 ^ 48"
  shows "\<exists>s'. do_syscall e ev s = Fine ((), s') \<and> subj_ok 3 s s'"
proof -
  define P where "P = (\<lambda>f :: unit consumer. \<exists>s'. f s = Fine ((), s') \<and> subj_ok 3 s s')"
  have tot: "P f" if "total (settled (ev_si ev)) f" for f
    unfolding P_def using totalE [OF that assms(1)] subj_ok_mono [of 0 s _ 3] by (metis (full_types) unit.exhaust le0)
  have subjects: "P (doclone ev)" "P (dokill ev)" "P (doptrace e ev)"
    unfolding P_def using doclone_ok [OF assms(1)] dokill_ok [OF assms(1)] doptrace_ok [OF assms(1,2), of e] assms(2)
      subj_ok_mono [of 1 s _ 3] by fastforce+
  note files = total_files [of ev, THEN tot] total_ids [of ev, THEN tot] stl.total_cret [THEN tot]
  have "P (if b then f else g)" if "b \<Longrightarrow> P f" "\<not> b \<Longrightarrow> P g" for b f g using that by simp
  note cond = this
  have "P (do_syscall e ev)"
    unfolding do_syscall_def Let_def
    by (intro cond) (rule subjects files)+
  then show ?thesis by (simp add: P_def)
qed


lemma known_subject_ok:
  assumes "subj_inv s" "cs_subj s (ev_si ev) = Some si" "cs_nsubj s + 1 < 2 ^ 48"
  shows "\<exists>s'. known_subject e ev s = Fine ((), s') \<and> subj_ok 2 s s' \<and> settled (ev_si ev) s'"
proof (cases "sj_id si = nullsiid")
  case True
  obtain s' a si' where c: "createExistingSubj e (sj_tid si) (sj_pid si) (ev_ts ev) s = Fine ((), s')" "subj_ok 2 s s'"
    "cs_procMap s' (sj_tid si) = Some a" "cs_subj s' a = Some si'" "sj_id si' \<noteq> nullsiid"
    using createExisting_ok [OF assms(1,3), of e "sj_tid si" "sj_pid si" "ev_ts ev"] by auto
  have "cs_procMap s (sj_tid si) = Some (ev_si ev)" using subj_inv_subj [OF assms(1,2)] by simp
  then have a: "a = ev_si ev" using subj_ok_listed [OF c(2) assms(1)] c(3) by auto
  moreover have "tidy si'" using subj_inv_subj [OF subj_ok_inv [OF c(2)] c(4)] by simp
  ultimately have "settled (ev_si ev) s'" using c subj_ok_inv [OF c(2)] by (auto simp: settled_def tidy_def)
  then show ?thesis using True assms(2) c a by (simp add: known_subject_def cdo_def cbind_def get_subj_def)
next
  case False
  have "settled (ev_si ev) s" using False assms subj_inv_subj [OF assms(1,2)] by (auto simp: settled_def tidy_def)
  then show ?thesis
    using False assms(2) subj_ok_mono [OF subj_ok_refl [OF assms(1)], of 2]
    by (simp add: known_subject_def cdo_def cbind_def get_subj_def cret_def)
qed

section \<open>Executing one event\<close>

definition executed :: "evinfo \<Rightarrow> cstate \<Rightarrow> cstate \<Rightarrow> bool" where
  "executed ev s s' \<longleftrightarrow> subj_inv s' \<and> queue_kept s s' \<and> cs_done s' = cs_done s @ [ev] \<and> cs_nsubj s' \<le> cs_nsubj s + 5
     \<and> (\<forall>a si. cs_subj s a = Some si \<and> (is_exit ev \<longrightarrow> a \<noteq> ev_si ev) \<longrightarrow> (\<exists>si'. cs_subj s' a = Some si' \<and> sj_tid si' = sj_tid si))"

text \<open>The part of \<open>procSyscall\<close> that all events go through.\<close>

lemma proc_start:
  assumes "subj_inv s" "cs_subj s (ev_si ev) = Some si" "cs_nsubj s + 1 < 2 ^ 48"
  obtains s1 where "known_subject e ev (out_of_seq ev s) = Fine ((), s1)" "subj_ok 2 s s1" "queue_kept s s1"
    "settled (ev_si ev) s1"
proof -
  have k0: "subj_ok 0 s (out_of_seq ev s)" by (rule subj_ok_fields [OF assms(1)]) (simp_all add: out_of_seq_def)
  have q0: "queue_kept s (out_of_seq ev s)" by (rule queue_kept_fields) (simp_all add: out_of_seq_def)
  have "cs_subj (out_of_seq ev s) (ev_si ev) = Some si" "cs_nsubj (out_of_seq ev s) + 1 < 2 ^ 48"
    using assms(2,3) by (simp_all add: out_of_seq_def)
  then obtain s1 where s1: "known_subject e ev (out_of_seq ev s) = Fine ((), s1)" "subj_ok 2 (out_of_seq ev s) s1"
    "settled (ev_si ev) s1"
    using known_subject_ok [OF subj_ok_inv [OF k0]] by blast
  show ?thesis
    using that [OF s1(1)] subj_ok_trans [OF k0 s1(2)] queue_kept_trans [OF q0 leavesD [OF leaves_known_subject s1(1)]] s1(3)
    by (simp add: numeral_2_eq_2)
qed

lemma subj_ok_done: "subj_ok n s s1 \<Longrightarrow> subj_inv (s1\<lparr>cs_done := xs\<rparr>)"
  using subj_inv_cong [of "s1\<lparr>cs_done := xs\<rparr>" s1] by (simp add: subj_ok_def)

lemma subj_ok_free: "subj_inv s \<Longrightarrow> subj_ok 0 s (free_ev ev s)"
  by (rule subj_ok_fields) (simp_all add: free_ev_def)

lemma run_Cons:
  "run e (t # ts) s = (case step e t s of Crash \<Rightarrow> Some Crash | Fine (ts', s') \<Rightarrow> run e (ts' @ ts) s')"
  by (subst run.simps) simp

lemma executedI:
  assumes "subj_ok 2 s s1" "subj_ok 3 (s1\<lparr>cs_done := cs_done s1 @ [ev]\<rparr>) s'" "queue_kept s s'"
  shows "executed ev s s'"
proof -
  have "\<exists>si'. cs_subj s' a = Some si' \<and> sj_tid si' = sj_tid si" if "cs_subj s a = Some si" for a si
    using subj_ok_subj [OF assms(1) that] subj_ok_subj [OF assms(2), of a] by (fastforce simp: better_def)
  then show ?thesis using assms by (auto simp: executed_def subj_ok_def)
qed

lemma settled_done: "settled a s \<Longrightarrow> settled a (s\<lparr>cs_done := xs\<rparr>)"
  using subj_inv_cong [of "s\<lparr>cs_done := xs\<rparr>" s] by (simp add: settled_def)

lemma seqnum_ok:
  assumes "settled a s"
  shows "subj_ok 0 s (on_subj b (\<lambda>si. si\<lparr>sj_seqnum := n\<rparr>) s)"
  by (rule subj_ok_on_subj [OF stl.consistent [OF assms]]) (simp_all add: better_def tidy_def has_dirs_def)

lemma proc_plain:
  assumes "subj_inv s" "cs_subj s (ev_si ev) = Some si" "cs_nsubj s + 5 < 2 ^ 48" "is_exit ev \<longrightarrow> is_err (ev_arg3 ev)"
  shows "\<exists>s'. procSyscall e ev s = Fine ([], s') \<and> executed ev s s'"
proof -
  obtain s1 where s1: "known_subject e ev (out_of_seq ev s) = Fine ((), s1)" "subj_ok 2 s s1" "queue_kept s s1" "settled (ev_si ev) s1"
    using proc_start [OF assms(1,2)] assms(3) by (metis add_lessD1 add_Suc_right numeral_nat(3) plus_1_eq_Suc add.assoc)
  let ?s2 = "s1\<lparr>cs_done := cs_done s1 @ [ev]\<rparr>"
  let ?s3 = "on_subj (ev_si ev) (\<lambda>si. si\<lparr>sj_seqnum := ucast (ev_seqnum ev)\<rparr>) ?s2"
  have i2: "subj_inv ?s2" by (rule subj_ok_done [OF s1(2)])
  have k3: "subj_ok 0 ?s2 ?s3" by (rule seqnum_ok [OF settled_done [OF s1(4)]])
  have n: "cs_nsubj ?s3 + 2 < 2 ^ 48" using subj_ok_nsubj [OF s1(2)] subj_ok_nsubj [OF k3] assms(3) by simp
  obtain s4 where s4: "do_syscall e ev ?s3 = Fine ((), s4)" "subj_ok 3 ?s3 s4"
    using do_syscall_ok [OF settled_lasts [OF settled_done [OF s1(4)] k3] n, of e] by auto
  show ?thesis
  proof (cases "is_err (ev_arg3 ev)")
    case True
    then have p: "procSyscall e ev s = Fine ([], free_ev ev ?s2)" by (simp add: procSyscall_def s1(1))
    have "subj_ok 3 ?s2 (free_ev ev ?s2)" by (rule subj_ok_mono [OF subj_ok_free [OF i2]]) simp
    then show ?thesis using p executedI [OF s1(2)] procSyscall_kept [OF p] by blast
  next
    case False
    then have p: "procSyscall e ev s = Fine ([], free_ev ev s4)"
      using assms(4) s4(1) by (simp add: procSyscall_def s1(1))
    have "subj_ok 3 ?s2 (free_ev ev s4)"
      using subj_ok_trans [OF subj_ok_trans [OF k3 s4(2)] subj_ok_free [OF subj_ok_inv [OF s4(2)]]] by simp
    then show ?thesis using p executedI [OF s1(2)] procSyscall_kept [OF p] by blast
  qed
qed

lemma subj_inv_remove:
  assumes "subj_inv s" "cs_subj s a = Some si" "sj_tid si \<noteq> initd"
  shows "subj_inv (s\<lparr>cs_calls := cs, cs_procMap := unlist (sj_tid si) (cs_procMap s), cs_subj := (cs_subj s)(a := None)\<rparr>)"
    (is "subj_inv ?s")
proof -
  have a: "cs_procMap s (sj_tid si) = Some a" using subj_inv_subj [OF assms(1,2)] by simp
  show ?thesis
    unfolding subj_inv_def
  proof (intro conjI allI impI)
    fix tid b assume "cs_procMap ?s tid = Some b"
    then have b: "tid \<noteq> sj_tid si" "cs_procMap s tid = Some b" using assms(3) by (auto simp: unlist_def split: if_splits)
    obtain x where "cs_subj s b = Some x" "sj_tid x = tid" using subj_inv_listed [OF assms(1) b(2)] by auto
    then show "\<exists>si'. cs_subj ?s b = Some si' \<and> sj_tid si' = tid" using assms(2) b(1) by auto
  next
    fix b x assume "cs_subj ?s b = Some x"
    then have b: "b \<noteq> a" "cs_subj s b = Some x" by (auto split: if_splits)
    note x = subj_inv_subj [OF assms(1) b(2)]
    then have "sj_tid x \<noteq> sj_tid si" using a b(1) by auto
    then show "cs_procMap ?s (sj_tid x) = Some b" "b < cs_next ?s" "tidy x" using x by (simp_all add: unlist_def)
  qed
qed

lemma run_exit:
  assumes "subj_inv s" "cs_subj s (ev_si ev) = Some si" "cs_nsubj s + 5 < 2 ^ 48" "is_exit ev" "\<not> is_err (ev_arg3 ev)"
    "open_events s (ev_si ev) = 0" "sj_tid si \<noteq> initd"
  shows "\<exists>s'. (\<forall>ts. run e (Proc ev # ts) s = run e ts s') \<and> executed ev s s'"
proof -
  let ?a = "ev_si ev"
  obtain s1 where s1: "known_subject e ev (out_of_seq ev s) = Fine ((), s1)" "subj_ok 2 s s1" "queue_kept s s1" "settled ?a s1"
    using proc_start [OF assms(1,2)] assms(3) by (metis add_lessD1 add_Suc_right numeral_nat(3) plus_1_eq_Suc add.assoc)
  define s2 where "s2 = s1\<lparr>cs_done := cs_done s1 @ [ev]\<rparr>"
  define s3 where "s3 = on_subj ?a (\<lambda>si. si\<lparr>sj_seqnum := ucast (ev_seqnum ev)\<rparr>) s2"
  have st2: "settled ?a s2" unfolding s2_def by (rule settled_done [OF s1(4)])
  have k3: "subj_ok 0 s2 s3" unfolding s3_def by (rule seqnum_ok [OF st2])
  obtain si3 where si3: "cs_subj s3 ?a = Some si3" using settled_lasts [OF st2 k3] by (auto simp: settled_def)
  have p: "procSyscall e ev s = Fine ([ExpiredAt ?a 0, EndExit ev, FreeEv ev], s3)"
    using assms(4,5) by (simp add: procSyscall_def s1(1) s2_def s3_def)
  have q3: "queue_kept s s3" using procSyscall_kept [OF p] by simp
  then have cur: "sj_curEv si3 = []" using assms(6) si3 by (auto simp: queue_kept_def open_events_def dest: spec [of _ ?a])
  define si4 where "si4 = si3\<lparr>sj_curEv := []\<rparr>"
  define s4 where "s4 = put_subj ?a si4 s3"
  define s5 where "s5 = s4\<lparr>cs_calls := cs_calls s4 @ [K_exit si4 (ev_arg0 ev) (ev_ts ev)],
    cs_procMap := unlist (sj_tid si4) (cs_procMap s4), cs_subj := (cs_subj s4)(?a := None)\<rparr>"
  define s6 where "s6 = free_ev ev s5"
  have k4: "subj_ok 0 s3 s4"
    unfolding s4_def
    by (rule subj_ok_put [OF subj_ok_inv [OF k3] si3])
      (use subj_inv_subj [OF subj_ok_inv [OF k3] si3] in \<open>simp_all add: si4_def better_def tidy_def has_dirs_def\<close>)
  have a4: "cs_subj s4 ?a = Some si4" by (simp add: s4_def put_subj_def)
  have run: "run e (Proc ev # ts) s = run e ts s6" for ts
    using p si3 cur a4 by (simp add: run_Cons expired_at_def end_exit_def s4_def s5_def s6_def si4_def)
  have "queue_kept s3 s6"
    by (auto simp: queue_kept_def open_events_def free_ev_def put_subj_def s4_def s5_def s6_def split: option.splits)
  then have q6: "queue_kept s s6" using q3 queue_kept_trans by blast
  have keep: "\<exists>x. cs_subj s4 b = Some x \<and> sj_tid x = sj_tid y" if b: "cs_subj s b = Some y" for b y
  proof -
    obtain y2 where "cs_subj s2 b = Some y2" "better y y2" using subj_ok_subj [OF s1(2) b] by (auto simp: s2_def)
    then show ?thesis using subj_ok_subj [OF prs.ok_trans [OF k3 k4], of b y2] by (auto simp: better_def)
  qed
  have i5: "subj_inv s5"
    unfolding s5_def by (rule subj_inv_remove [OF subj_ok_inv [OF k4] a4]) (use keep [OF assms(2)] a4 assms(7) in auto)
  have "\<forall>b y. cs_subj s b = Some y \<and> (is_exit ev \<longrightarrow> b \<noteq> ?a) \<longrightarrow> (\<exists>x. cs_subj s6 b = Some x \<and> sj_tid x = sj_tid y)"
    using assms(4) keep by (auto simp: s6_def s5_def free_ev_def)
  moreover have "cs_done s6 = cs_done s @ [ev]" "cs_nsubj s6 \<le> cs_nsubj s + 5"
    using s1(2) k3 k4 by (auto simp: subj_ok_def free_ev_def s5_def s6_def s2_def)
  moreover have "subj_inv s6" unfolding s6_def by (rule subj_ok_inv [OF subj_ok_free [OF i5]])
  ultimately have "executed ev s s6" using q6 by (simp add: executed_def)
  then show ?thesis using run by blast
qed

lemma run_event:
  assumes "subj_inv s" "ev_si ev \<in> dom (cs_subj s)" "cs_nsubj s + 5 < 2 ^ 48" 
    "is_exit ev \<longrightarrow> open_events s (ev_si ev) = 0 \<and> cs_procMap s initd \<noteq> Some (ev_si ev)"
  obtains s' where "\<And>ts. run e (Proc ev # ts) s = run e ts s'" "executed ev s s'"
proof (cases "is_exit ev \<and> \<not> is_err (ev_arg3 ev)")
  case True
  obtain si where si: "cs_subj s (ev_si ev) = Some si" using assms(2) by auto
  have "sj_tid si \<noteq> initd" using subj_inv_subj [OF assms(1) si] assms(4) True by auto
  then have "\<exists>s'. (\<forall>ts. run e (Proc ev # ts) s = run e ts s') \<and> executed ev s s'"
    using assms(4) True by (intro run_exit [OF assms(1) si assms(3)]) simp_all
  then show ?thesis using that by metis
next
  case False
  then obtain s' where "procSyscall e ev s = Fine ([], s')" "executed ev s s'"
    using proc_plain [OF assms(1) _ assms(3), of ev _ e] assms(2) by blast
  then show ?thesis using that by (simp add: run_Cons)
qed

end
