(* ===== verification/Consumer_Burst.thy ===== *)
theory Consumer_Burst
  imports Consumer_Order
begin

text \<open>
  A burst of system calls: queueing puts every event at the slot of its sequence number, and
  draining the queue executes the slots in order.
\<close>

section \<open>The events of the queue in order\<close>

definition q_order :: "cstate \<Rightarrow> evinfo list" where
  "q_order s = List.map_filter (\<lambda>n. cs_q s ((cs_qbeg s + n) mod QSIZE)) [0..<QSIZE]"

lemma map_filter_append: "List.map_filter f (xs @ ys) = List.map_filter f xs @ List.map_filter f ys"
  by (simp add: map_filter_def)

lemma map_filter_none: "(\<And>x. x \<in> set xs \<Longrightarrow> f x = None) \<Longrightarrow> List.map_filter f xs = []"
  by (induction xs) (auto simp: map_filter_simps)

lemma map_filter_cong: "(\<And>x. x \<in> set xs \<Longrightarrow> f x = g x) \<Longrightarrow> List.map_filter f xs = List.map_filter g xs"
  by (induction xs) (auto simp: map_filter_simps split: option.split)

lemma map_filter_map: "List.map_filter f (map g xs) = List.map_filter (\<lambda>x. f (g x)) xs"
  by (induction xs) (auto simp: map_filter_simps split: option.split)

lemma set_map_filter: "set (List.map_filter f xs) = {y. \<exists>x\<in>set xs. f x = Some y}"
  by (force simp: map_filter_def)

lemma map_key_map_filter:
  "(\<And>n y. n \<in> set ns \<Longrightarrow> f n = Some y \<Longrightarrow> k y = n) \<Longrightarrow> map k (List.map_filter f ns) = filter (\<lambda>n. f n \<noteq> None) ns"
  by (induction ns) (auto simp: map_filter_simps split: option.split)

lemma q_order_empty: "queue_inv s \<Longrightarrow> cs_qsize s = 0 \<Longrightarrow> q_order s = []"
  using queue_inv_finite [of s] unfolding q_order_def
  by (intro map_filter_none) (auto simp: queue_inv_def occupied_def)

text \<open>Splitting the slots at the one that is taken.\<close>

lemma q_order_split:
  assumes "b < QSIZE" "n < QSIZE" "q ((b + n) mod QSIZE) = Some ev" "\<And>m. m < n \<Longrightarrow> q ((b + m) mod QSIZE) = None"
    and i: "i = (b + n) mod QSIZE"
  shows "List.map_filter (\<lambda>m. q ((b + m) mod QSIZE)) [0..<QSIZE] =
    ev # List.map_filter (\<lambda>m. (q(i := None)) ((next_slot i + m) mod QSIZE)) [0..<QSIZE]"
proof -
  let ?f = "\<lambda>m. q ((b + m) mod QSIZE)" and ?g = "\<lambda>m. (q(i := None)) ((next_slot i + m) mod QSIZE)"
  let ?r = "QSIZE - Suc n"
  have "i < QSIZE" unfolding i by (simp add: QSIZE_pos)
  then have ns: "(next_slot i + m) mod QSIZE = (b + (Suc n + m)) mod QSIZE" for m
    unfolding i by (simp add: next_slot_mod mod_simps add.assoc add.commute [of n])
  have "[0..<QSIZE] = [0..<n] @ n # [Suc n..<QSIZE]"
    using assms(2) by (metis le0 less_imp_le_nat upt_add_eq_append upt_conv_Cons le_add_diff_inverse add_0)
  then have left: "List.map_filter ?f [0..<QSIZE] = ev # List.map_filter ?f [Suc n..<QSIZE]"
    using assms(3,4) map_filter_none [of "[0..<n]" ?f] by (simp add: map_filter_append map_filter_simps)
  have "[0..<QSIZE] = [0..<?r] @ [?r..<QSIZE]" using assms(2) by (metis diff_le_self le0 upt_add_eq_append le_add_diff_inverse add_0)
  moreover have "List.map_filter ?g [?r..<QSIZE] = []"
  proof (rule map_filter_none)
    fix m assume "m \<in> set [?r..<QSIZE]"
    then have m: "?r \<le> m" "m < QSIZE" by auto
    define k where "k = m - ?r"
    have k: "Suc n + m = QSIZE + k" "k \<le> n" using m assms(2) by (auto simp: k_def)
    have "(b + (Suc n + m)) mod QSIZE = (b + k) mod QSIZE" unfolding k(1) by (metis add.left_commute mod_add_self1)
    then show "?g m = None" using k(2) assms(4) [of k] ns [of m] i by (cases "k = n") auto
  qed
  moreover have "List.map_filter ?g [0..<?r] = List.map_filter ?f [Suc n..<QSIZE]"
  proof -
    have "[Suc n..<QSIZE] = map (\<lambda>m. m + Suc n) [0..<?r]"
      unfolding map_add_upt using assms(2) by simp
    then have "List.map_filter ?f [Suc n..<QSIZE] = List.map_filter (\<lambda>m. ?f (m + Suc n)) [0..<?r]"
      by (simp only: map_filter_map)
    also have "\<dots> = List.map_filter ?g [0..<?r]"
    proof (rule map_filter_cong)
      fix m assume "m \<in> set [0..<?r]"
      then have m: "Suc n + m < QSIZE" using assms(2) by auto
      have "(b + (Suc n + m)) mod QSIZE \<noteq> i"
      proof
        assume "(b + (Suc n + m)) mod QSIZE = i"
        then have "(b + (Suc n + m)) mod QSIZE = (b + n) mod QSIZE" unfolding i .
        then have "QSIZE dvd Suc m" using mod_eq_dvd_iff_nat [of "b + n" "b + (Suc n + m)" QSIZE] by simp
        then show False using m by (auto dest: dvd_imp_le)
      qed
      then show "?f (m + Suc n) = ?g m" unfolding ns by (simp add: add.commute [of m])
    qed
    finally show ?thesis by simp
  qed
  ultimately show ?thesis using left by (simp add: map_filter_append)
qed


lemma dq_order:
  assumes "queue_inv s" "cs_qsize s \<noteq> 0"
  obtains ev s1 where "dqAndDo True s = ([Proc ev, DqAndDo True], s1)" "q_order s = ev # q_order s1" "queue_inv s1"
    "cs_subj s1 = cs_subj s" "cs_procMap s1 = cs_procMap s" "cs_next s1 = cs_next s" "cs_nsubj s1 = cs_nsubj s"
    "cs_done s1 = cs_done s"
proof -
  obtain n ev where n: "n < QSIZE" "cs_q s ((next_slot ^^ n) (cs_qbeg s)) = Some ev"
    "\<forall>m<n. cs_q s ((next_slot ^^ m) (cs_qbeg s)) = None"
    and dq: "dq s = Some (ev, s\<lparr>cs_q := (cs_q s)((next_slot ^^ n) (cs_qbeg s) := None),
        cs_qbeg := next_slot ((next_slot ^^ n) (cs_qbeg s)), cs_qsize := cs_qsize s - 1, cs_first_ts := ev_ts ev\<rparr>)"
    using dq_finds [OF assms] by metis
  have b: "cs_qbeg s < QSIZE" using assms(1) by (simp add: queue_inv_def)
  define i where "i = (cs_qbeg s + n) mod QSIZE"
  have i: "(next_slot ^^ n) (cs_qbeg s) = i" by (simp add: i_def funpow_next_slot [OF b])
  let ?s1 = "s\<lparr>cs_q := (cs_q s)(i := None), cs_qbeg := next_slot i, cs_qsize := cs_qsize s - 1, cs_first_ts := ev_ts ev\<rparr>"
  have d: "dqAndDo True s = ([Proc ev, DqAndDo True], ?s1)" using assms(2) dq by (simp add: dqAndDo_def i)
  have "q_order s = ev # q_order ?s1"
    using q_order_split [OF b n(1), of "cs_q s" ev i] n(2,3)
    by (simp add: q_order_def funpow_next_slot [OF b] i_def)
  then show ?thesis
    using that [OF d] dqAndDo_good [OF d assms(1)] by (simp add: good_step_def)
qed

section \<open>Draining\<close>

text \<open>An exit is the last event of its subject.\<close>

fun exits_last :: "evinfo list \<Rightarrow> bool" where
  "exits_last [] \<longleftrightarrow> True"
| "exits_last (ev # evs) \<longleftrightarrow> (is_exit ev \<longrightarrow> (\<forall>x\<in>set evs. ev_si x \<noteq> ev_si ev)) \<and> exits_last evs"

definition executable :: "cstate \<Rightarrow> evinfo \<Rightarrow> bool" where
  "executable s ev \<longleftrightarrow> ev_si ev \<in> dom (cs_subj s)
     \<and> (is_exit ev \<longrightarrow> open_events s (ev_si ev) = 0 \<and> cs_procMap s initd \<noteq> Some (ev_si ev))"

lemma executed_keeps:
  assumes "executed ev s s'" "executable s x" "is_exit ev \<longrightarrow> ev_si x \<noteq> ev_si ev" "subj_inv s"
  shows "executable s' x"
proof -
  have "open_events s' a \<le> open_events s a" for a using assms(1) by (simp add: executed_def queue_kept_def)
  moreover obtain si where si: "cs_subj s (ev_si x) = Some si" using assms(2) by (auto simp: executable_def)
  moreover obtain si' where si': "cs_subj s' (ev_si x) = Some si'" "sj_tid si' = sj_tid si"
    using assms(1,3) si by (auto simp: executed_def)
  moreover have "cs_procMap s initd = Some (ev_si x)" if "cs_procMap s' initd = Some (ev_si x)"
    using subj_inv_listed [of s' initd "ev_si x"] that si' assms(1) subj_inv_subj [OF assms(4) si] by (auto simp: executed_def)
  ultimately show ?thesis using assms(2) unfolding executable_def by (metis domI le_zero_eq)
qed

lemma q_order_kept: "queue_kept s s' \<Longrightarrow> q_order s' = q_order s"
  by (simp add: q_order_def queue_kept_def)

lemma drain_runs:
  assumes "q_order s = evs" "queue_inv s" "subj_inv s" "\<forall>ev\<in>set evs. executable s ev" "exits_last evs"
    "cs_nsubj s + 5 * length evs < 2 ^ 48"
  shows "\<exists>s'. run e [DqAndDo True] s = Some (Fine s') \<and> cs_done s' = cs_done s @ evs \<and> cs_qsize s' = 0
    \<and> queue_inv s' \<and> subj_inv s'"
  using assms
proof (induction evs arbitrary: s)
  case Nil
  have "cs_qsize s = 0"
  proof (rule ccontr)
    assume "cs_qsize s \<noteq> 0"
    then show False using dq_order [OF Nil.prems(2)] Nil.prems(1) by (metis list.distinct(1))
  qed
  then have "run e [DqAndDo True] s = Some (Fine s)" by (simp add: run_Cons dqAndDo_def run.simps [of e "[]"])
  then show ?case using Nil.prems \<open>cs_qsize s = 0\<close> by simp
next
  case (Cons ev evs)
  have "cs_qsize s \<noteq> 0" using q_order_empty [OF Cons.prems(2)] Cons.prems(1) by auto
  then obtain s1 where d: "dqAndDo True s = ([Proc ev, DqAndDo True], s1)" "q_order s1 = evs" "queue_inv s1"
    and eq: "cs_subj s1 = cs_subj s" "cs_procMap s1 = cs_procMap s" "cs_next s1 = cs_next s" "cs_nsubj s1 = cs_nsubj s"
      "cs_done s1 = cs_done s"
    using dq_order [OF Cons.prems(2)] Cons.prems(1) by (metis list.inject)
  have inv1: "subj_inv s1" using subj_inv_cong [OF eq(2,1,3)] Cons.prems(3) by simp
  have ex1: "executable s1 x = executable s x" for x by (simp add: executable_def open_events_def eq(1,2))
  then have "executable s1 ev" using Cons.prems(4) by simp
  then have ev1: "ev_si ev \<in> dom (cs_subj s1)"
    "is_exit ev \<longrightarrow> open_events s1 (ev_si ev) = 0 \<and> cs_procMap s1 initd \<noteq> Some (ev_si ev)"
    unfolding executable_def by blast+
  have n1: "cs_nsubj s1 + 5 < 2 ^ 48" using Cons.prems(6) eq(4) by simp
  obtain s2 where run2: "run e (Proc ev # ts) s1 = run e ts s2" and x2: "executed ev s1 s2" for ts
    using run_event [OF inv1 ev1(1) n1 ev1(2)] by metis
  have "\<exists>s'. run e [DqAndDo True] s2 = Some (Fine s') \<and> cs_done s' = cs_done s2 @ evs \<and> cs_qsize s' = 0
    \<and> queue_inv s' \<and> subj_inv s'"
  proof (rule Cons.IH)
    show "q_order s2 = evs" "queue_inv s2" "subj_inv s2" "cs_nsubj s2 + 5 * length evs < 2 ^ 48"
      using x2 d q_order_kept queue_kept_inv [of s1 s2] Cons.prems(6) eq(4) by (auto simp: executed_def)
    show "exits_last evs" using Cons.prems(5) by simp
    show "\<forall>x\<in>set evs. executable s2 x"
      using executed_keeps [OF x2 _ _ inv1] Cons.prems(4,5) ex1 by auto
  qed
  moreover have "run e [DqAndDo True] s = run e [DqAndDo True] s2" using d(1) run2 by (simp add: run_Cons [of e "DqAndDo True" "[]" s])
  moreover have "cs_done s2 = cs_done s @ [ev]" using x2 eq(5) by (simp add: executed_def)
  ultimately show ?case by simp
qed


section \<open>Queueing\<close>

definition recent :: "cstate \<Rightarrow> u64 \<Rightarrow> bool" where
  "recent s ts \<longleftrightarrow> \<not> cs_curtime s > ts + toolong_in_q"

text \<open>
  An event that is neither forced before the exit of its subject nor executed at once: its subject
  is still there, and its sequence number is within 16000 of the beginning of the queue.
\<close>

definition accepted :: "cstate \<Rightarrow> evinfo \<Rightarrow> bool" where
  "accepted s ev \<longleftrightarrow> (case cs_subj s (ev_si ev) of None \<Rightarrow> False | Some si \<Rightarrow> ev_ts ev < sj_exitTime si)
     \<and> ev_status ev \<noteq> INJECTED_EXIT \<and> recent s (ev_ts ev) \<and> qpos ev s \<le> 16000 * QFAC"

definition patient :: "cstate \<Rightarrow> bool" where
  "patient s \<longleftrightarrow> cs_first_ts s = 0 \<and> cs_qsize s = 0 \<or> recent s (cs_first_ts s)"

definition unlast :: "subj \<Rightarrow> subj" where
  "unlast si = si\<lparr>sj_lastEv := 0\<rparr>"

text \<open>States that differ in the queue, the counters and the times of the last events only.\<close>

definition similar :: "cstate \<Rightarrow> cstate \<Rightarrow> bool" where
  "similar s s' \<longleftrightarrow> cs_qbeg s' = cs_qbeg s \<and> cs_curtime s' = cs_curtime s \<and> cs_done s' = cs_done s
     \<and> cs_nsubj s' = cs_nsubj s \<and> cs_procMap s' = cs_procMap s \<and> cs_next s' = cs_next s
     \<and> (\<forall>a. map_option unlast (cs_subj s' a) = map_option unlast (cs_subj s a))"

lemma similar_refl: "similar s s"
  by (simp add: similar_def)

lemma similar_trans: "similar s s' \<Longrightarrow> similar s' s'' \<Longrightarrow> similar s s''"
  by (simp add: similar_def)

lemma similar_cases:
  assumes "similar s s'"
  obtains "cs_subj s' a = None" "cs_subj s a = None"
  | si' si where "cs_subj s' a = Some si'" "cs_subj s a = Some si" "sj_tid si' = sj_tid si"
      "sj_exitTime si' = sj_exitTime si" "sj_curEv si' = sj_curEv si" "tidy si' = tidy si"
proof -
  have eq: "map_option unlast (cs_subj s' a) = map_option unlast (cs_subj s a)" using assms by (simp add: similar_def)
  show ?thesis
  proof (cases "cs_subj s a")
    case None
    then show ?thesis using that(1) eq by simp
  next
    case (Some si)
    then obtain si' where s': "cs_subj s' a = Some si'" and u: "unlast si' = unlast si" using eq by auto
    have "sj_tid (unlast x) = sj_tid x" "sj_exitTime (unlast x) = sj_exitTime x" "sj_curEv (unlast x) = sj_curEv x"
      "tidy (unlast x) = tidy x" for x
      by (simp_all add: unlast_def tidy_def has_dirs_def)
    then show ?thesis using that(2) [OF s' Some] u by metis
  qed
qed

lemma similar_accepted: "similar s s' \<Longrightarrow> accepted s' ev = accepted s ev"
  by (rule similar_cases [of s s' "ev_si ev"]) (auto simp: accepted_def recent_def qpos_def similar_def)

lemma similar_executable: "similar s s' \<Longrightarrow> executable s' ev = executable s ev"
  by (rule similar_cases [of s s' "ev_si ev"]) (auto simp: executable_def open_events_def similar_def)

lemma similar_subj_inv:
  assumes "similar s s'" "subj_inv s"
  shows "subj_inv s'"
  unfolding subj_inv_def
proof (intro conjI allI impI)
  have eq: "cs_procMap s' = cs_procMap s" "cs_next s' = cs_next s" using assms(1) by (simp_all add: similar_def)
  show "\<exists>si. cs_subj s' a = Some si \<and> sj_tid si = tid" if "cs_procMap s' tid = Some a" for tid a
    using subj_inv_listed [OF assms(2), of tid a] that eq by (auto intro: similar_cases [OF assms(1), of a])
  show "cs_procMap s' (sj_tid si) = Some a" "a < cs_next s'" "tidy si" if "cs_subj s' a = Some si" for a si
    using subj_inv_subj [OF assms(2), of a] that eq by (auto intro: similar_cases [OF assms(1), of a])
qed

text \<open>What queueing an event changes.\<close>

definition queued :: "evinfo \<Rightarrow> cstate \<Rightarrow> cstate \<Rightarrow> bool" where
  "queued ev s s' \<longleftrightarrow> similar s s' \<and> cs_q s' = (cs_q s)(islot ev \<mapsto> ev) \<and> cs_qsize s' = cs_qsize s + 1
     \<and> cs_first_ts s' = (if cs_first_ts s = 0 then ev_ts ev else cs_first_ts s)"

lemma do_enq_home:
  assumes "cs_q s (islot ev) = None" "qpos ev s \<le> 16000 * QFAC"
  shows "\<exists>s'. do_enq e ev s = Fine ([], s') \<and> queued ev s s'"
proof -
  define s1 where "s1 = (if cs_first_ts s = 0 then s\<lparr>cs_first_ts := ev_ts ev\<rparr> else s)"
  have "qpos ev s1 \<le> (16000 + cs_qsize s1) * QFAC" using assms(2) by (auto simp: s1_def qpos_def QFAC_def)
  moreover have "probe (cs_q s1) ev QSIZE 0 = Empty (islot ev) 0"
    using assms(1) islot_less [of ev] by (subst probe.simps) (auto simp: s1_def Let_def)
  ultimately have "do_enq e ev s = Fine ([], (set_slot (islot ev) ev (s1\<lparr>cs_latest_ts := max (cs_latest_ts s1) (ev_ts ev)\<rparr>))
      \<lparr>cs_qsize := cs_qsize s1 + 1, cs_ncollisions := cs_ncollisions s1\<rparr>)"
    by (simp add: do_enq_def s1_def [symmetric] find_slot_def Let_def)
  then show ?thesis by (simp add: queued_def similar_def set_slot_def s1_def)
qed

lemma enq_queued:
  assumes "accepted s ev" "cs_q s (islot ev) = None" "patient s" "cs_qsize s \<le> 32000"
  obtains s' where "\<And>ts. run e (Enq (ev_si ev) ev # ts) s = run e ts s'" "queued ev s s'"
proof -
  obtain si where si: "cs_subj s (ev_si ev) = Some si" "ev_ts ev < sj_exitTime si"
    using assms(1) by (auto simp: accepted_def split: option.splits)
  define s1 where "s1 = put_subj (ev_si ev) (si\<lparr>sj_lastEv := max (ev_ts ev) (sj_lastEv si)\<rparr>) (s\<lparr>cs_maxts := max (ev_ts ev) (cs_maxts s)\<rparr>)"
  have sim: "similar s s1" using si by (simp add: similar_def s1_def put_subj_def unlast_def)
  have q1: "cs_q s1 = cs_q s" "cs_qsize s1 = cs_qsize s" "cs_first_ts s1 = cs_first_ts s" "cs_curtime s1 = cs_curtime s"
    by (simp_all add: s1_def put_subj_def)
  have e1: "enq (ev_si ev) ev s = Fine ([DqAndDo False, DoEnq ev], s1)"
    using si assms(1) by (simp add: enq_def accepted_def s1_def)
  have "dqAndDo False s1 = ([], s1)"
    using assms(3,4) q1 by (auto simp: dqAndDo_def ready_to_dq_def patient_def recent_def)
  moreover obtain s' where s': "do_enq e ev s1 = Fine ([], s')" "queued ev s1 s'"
    using do_enq_home [of s1 ev e] assms(1,2) q1 similar_accepted [OF sim, of ev] by (auto simp: accepted_def)
  ultimately have "run e (Enq (ev_si ev) ev # ts) s = run e ts s'" for ts using e1 by (simp add: run_Cons)
  moreover have "queued ev s s'" using s'(2) q1 similar_trans [OF sim] by (simp add: queued_def)
  ultimately show ?thesis using that by blast
qed

text \<open>Every event of a list is at its slot, and nothing else is in the queue.\<close>

definition holds :: "cstate \<Rightarrow> evinfo list \<Rightarrow> bool" where
  "holds s evs \<longleftrightarrow> (\<forall>i ev. cs_q s i = Some ev \<longleftrightarrow> ev \<in> set evs \<and> islot ev = i)"

lemma queued_keeps:
  assumes "queued ev s s'" "holds s xs" "queue_inv s" "\<forall>x\<in>set xs. islot x \<noteq> islot ev" "accepted s ev" "patient s"
  shows "holds s' (xs @ [ev]) \<and> queue_inv s' \<and> patient s'"
proof (intro conjI)
  have empty: "islot ev \<notin> occupied (cs_q s)" using assms(2,4) by (auto simp: holds_def occupied_def)
  show "holds s' (xs @ [ev])" using assms(1,2,4) by (auto simp: holds_def queued_def)
  show "queue_inv s'"
    using assms(1,3) islot_less [of ev] empty queue_inv_finite [OF assms(3)]
    by (simp add: queue_inv_def queued_def similar_def occupied_upd)
  show "patient s'" using assms(1,5,6) by (auto simp: patient_def recent_def queued_def similar_def accepted_def)
qed

definition enq_all :: "evinfo list \<Rightarrow> qtask list" where
  "enq_all evs = map (\<lambda>ev. Enq (ev_si ev) ev) evs"

lemma enq_burst:
  assumes "holds s xs" "queue_inv s" "patient s" "distinct (map islot (xs @ evs))" "\<forall>ev\<in>set evs. accepted s ev"
    "cs_qsize s + length evs \<le> 32000"
  shows "\<exists>s'. run e (enq_all evs @ ts) s = run e ts s' \<and> similar s s' \<and> holds s' (xs @ evs) \<and> queue_inv s'"
  using assms
proof (induction evs arbitrary: s xs)
  case Nil
  then show ?case using similar_refl by (auto simp: enq_all_def)
next
  case (Cons ev evs)
  have new: "\<forall>x\<in>set xs. islot x \<noteq> islot ev" using Cons.prems(4) by (auto simp: image_iff)
  have free: "cs_q s (islot ev) = None"
  proof (cases "cs_q s (islot ev)")
    case (Some x)
    then have "x \<in> set xs" "islot x = islot ev" using Cons.prems(1) unfolding holds_def by blast+
    then show ?thesis using new by blast
  qed
  have acc: "accepted s ev" and len: "cs_qsize s \<le> 32000" using Cons.prems(5,6) by simp_all
  obtain s1 where run1: "run e (Enq (ev_si ev) ev # us) s = run e us s1" and q1: "queued ev s s1" for us
    using enq_queued [OF acc free Cons.prems(3) len] by metis
  note k = queued_keeps [OF q1 Cons.prems(1,2) new acc Cons.prems(3)]
  have sim: "similar s s1" "cs_qsize s1 = cs_qsize s + 1" using q1 by (simp_all add: queued_def)
  have "\<exists>s'. run e (enq_all evs @ ts) s1 = run e ts s' \<and> similar s1 s' \<and> holds s' ((xs @ [ev]) @ evs) \<and> queue_inv s'"
    by (rule Cons.IH) (use k sim Cons.prems(4-6) similar_accepted [OF sim(1)] in auto)
  then show ?case using run1 similar_trans [OF sim(1)] by (auto simp: enq_all_def)
qed

section \<open>Order\<close>

lemma qpos_slot:
  assumes "cs_qbeg s < QSIZE" "n < QSIZE" "islot ev = (cs_qbeg s + n) mod QSIZE"
  shows "qpos ev s = n"
proof (cases "cs_qbeg s + n < QSIZE")
  case True
  then show ?thesis using assms by (simp add: qpos_def)
next
  case False
  then have "(cs_qbeg s + n) mod QSIZE = cs_qbeg s + n - QSIZE" using assms(1,2) by (simp add: mod_if)
  then show ?thesis using assms False by (auto simp: qpos_def)
qed

lemma slot_of_qpos:
  assumes "cs_qbeg s < QSIZE"
  shows "qpos ev s < QSIZE \<and> (cs_qbeg s + qpos ev s) mod QSIZE = islot ev"
  using islot_less [of ev] assms by (auto simp: qpos_def)

lemma q_order_sorted:
  assumes "holds s evs" "queue_inv s" "distinct (map islot evs)"
  shows "q_order s = sort_key (\<lambda>ev. qpos ev s) evs"
proof -
  let ?f = "\<lambda>n. cs_q s ((cs_qbeg s + n) mod QSIZE)" and ?k = "\<lambda>ev. qpos ev s"
  have b: "cs_qbeg s < QSIZE" using assms(2) by (simp add: queue_inv_def)
  have home: "cs_q s i = Some ev \<longleftrightarrow> ev \<in> set evs \<and> islot ev = i" for i ev using assms(1) by (simp add: holds_def)
  have "map ?k (q_order s) = filter (\<lambda>n. ?f n \<noteq> None) [0..<QSIZE]"
    unfolding q_order_def by (rule map_key_map_filter) (use home qpos_slot [OF b] in auto)
  then have sorted: "sorted (map ?k (q_order s))" "distinct (map ?k (q_order s))"
    by (simp_all add: sorted_wrt_filter)
  have "set (q_order s) = set evs"
  proof -
    have "\<exists>n<QSIZE. islot x = (cs_qbeg s + n) mod QSIZE" for x using slot_of_qpos [OF b, of x] by metis
    then show ?thesis unfolding q_order_def set_map_filter using home by (auto simp: Bex_def)
  qed
  moreover have inj: "inj_on ?k (set evs)"
  proof (rule inj_onI)
    fix x y assume "x \<in> set evs" "y \<in> set evs" "qpos x s = qpos y s"
    then have "islot x = islot y" using slot_of_qpos [OF b] by metis
    then show "x = y" using assms(3) \<open>x \<in> set evs\<close> \<open>y \<in> set evs\<close> by (auto simp: distinct_map dest: inj_onD)
  qed
  moreover have "distinct (map ?k (sort_key ?k evs))" using inj assms(3) by (simp add: distinct_map)
  ultimately show ?thesis
    using sorted by (intro map_sorted_distinct_set_unique [of ?k]) simp_all
qed


lemma distinct_slots: "distinct (map ev_seqnum evs) \<Longrightarrow> distinct (map islot evs)"
  by (auto simp: distinct_map inj_on_def islot_def QFAC_def word_unat_eq_iff)

lemma similar_qpos: "similar s s' \<Longrightarrow> qpos ev s' = qpos ev s"
  by (simp add: qpos_def similar_def)

text \<open>
  (C3) The consumer puts system calls into the order of their sequence numbers: if the queue is
  empty and a burst of at most 32000 system calls with distinct sequence numbers, all within 16000 of
  the beginning of the queue, arrives in any order, then queueing them and draining the queue returns
  and has executed each of them exactly once, in the order of the sequence numbers (counted from
  the beginning of the queue, so across a wrap-around), with the queue empty and consistent
  again. This is so while the queue holds events back, that is as long as neither the event dequeued
  last (\<open>patient\<close>) nor an event of the burst (\<open>accepted\<close>) is more than two seconds older than the current
  time: after two quiet seconds \<open>ready_to_dq\<close> executes the first event of a burst at once. The subjects
  of the events are listed (\<open>subj_inv\<close>); an exit among them is the last event of its subject in the
  order of the sequence numbers, finds nothing open for the subject, and is not that of the init
  process, whose pinned entry would point to a deleted subject.
\<close>
theorem burst_executed_in_order:
  assumes "queue_inv s" "subj_inv s" "cs_qsize s = 0" "patient s"
    and "distinct (map ev_seqnum evs)" "length evs \<le> 32000" "cs_nsubj s + 5 * length evs < 2 ^ 48"
    and "\<forall>ev\<in>set evs. accepted s ev \<and> executable s ev" "exits_last (sort_key (\<lambda>ev. qpos ev s) evs)"
  shows "\<exists>s'. run e (enq_all evs @ [DqAndDo True]) s = Some (Fine s')
    \<and> cs_done s' = cs_done s @ sort_key (\<lambda>ev. qpos ev s) evs \<and> cs_qsize s' = 0 \<and> queue_inv s' \<and> subj_inv s'"
proof -
  have "occupied (cs_q s) = {}" using assms(1,3) queue_inv_finite [OF assms(1)] by (simp add: queue_inv_def)
  then have "holds s []" by (simp add: holds_def occupied_def)
  then obtain s1 where run1: "run e (enq_all evs @ [DqAndDo True]) s = run e [DqAndDo True] s1"
    and s1: "similar s s1" "holds s1 evs" "queue_inv s1"
    using enq_burst [of s "[]" evs e "[DqAndDo True]"] assms distinct_slots [OF assms(5)] by auto
  have ord: "q_order s1 = sort_key (\<lambda>ev. qpos ev s) evs"
    using q_order_sorted [OF s1(2,3) distinct_slots [OF assms(5)]] by (simp add: similar_qpos [OF s1(1)])
  have "\<exists>s'. run e [DqAndDo True] s1 = Some (Fine s') \<and> cs_done s' = cs_done s1 @ sort_key (\<lambda>ev. qpos ev s) evs
    \<and> cs_qsize s' = 0 \<and> queue_inv s' \<and> subj_inv s'"
  proof (rule drain_runs [OF ord s1(3) similar_subj_inv [OF s1(1) assms(2)] _ assms(9)])
    show "\<forall>ev\<in>set (sort_key (\<lambda>ev. qpos ev s) evs). executable s1 ev"
      using assms(8) by (simp add: similar_executable [OF s1(1)])
    show "cs_nsubj s1 + 5 * length (sort_key (\<lambda>ev. qpos ev s) evs) < 2 ^ 48"
      using assms(7) s1(1) by (simp add: similar_def)
  qed
  then show ?thesis using run1 s1(1) by (simp add: similar_def)
qed


definition sample_event :: "u8 \<Rightarrow> u16 \<Rightarrow> u64 \<Rightarrow> evinfo" where
  "sample_event code sn ts = ev_zero\<lparr>ev_code := code, ev_status := BOTH_SEEN, ev_seqnum := sn, ev_ts := ts\<rparr>"

definition sample_dir :: obj where
  "sample_dir = \<lparr>ob_nm = 0, ob_uid = 0, ob_gid = 0, ob_mtime = 0, ob_id = 0, ob_type = FILET, ob_mode = 0, ob_oid = nulloiid, ob_addr = 0\<rparr>"

definition sample_subj :: subj where
  "sample_subj = (subj_skeleton 3 7 7 initd 0 0 0 False)\<lparr>sj_cwd := Some sample_dir, sj_exe := Some sample_dir\<rparr>"

definition sample_start :: cstate where
  "sample_start = snd (new_subj 7 sample_subj empty_state)"

lemmas sample_start_defs = sample_start_def new_subj_def empty_state_def sample_subj_def subj_skeleton_def

lemma sample_start_invs: "queue_inv sample_start" "subj_inv sample_start"
  by (simp_all add: queue_inv_def subj_inv_def sample_start_defs occupied_def QSIZE_pos tidy_def has_dirs_def)

lemma sample_accepted: "ts < 1000 \<Longrightarrow> unat sn < 10 \<Longrightarrow> accepted sample_start (sample_event code sn ts)"
proof -
  assume "ts < 1000" "unat sn < 10"
  then have "ts < - 1" by (rule_tac less_le_trans [of ts 1000]) simp_all
  then show ?thesis using \<open>unat sn < 10\<close>
    by (simp add: accepted_def sample_start_defs sample_event_def ev_zero_def recent_def qpos_def islot_def QFAC_def)
qed

lemma sample_executable: "executable sample_start (sample_event code sn ts)"
  by (simp add: executable_def sample_start_defs sample_event_def ev_zero_def open_events_def initd_def)

lemma sample_qpos: "qpos (sample_event code sn ts) sample_start = 2 * unat sn"
  by (simp add: qpos_def islot_def QFAC_def sample_event_def sample_start_defs)

lemma sample_inject: "sample_event c sn ts = sample_event c' sn' ts' \<longleftrightarrow> c = c' \<and> sn = sn' \<and> ts = ts'"
  by (auto simp: sample_event_def ev_zero_def)

lemma sample_exit: "is_exit (sample_event code sn ts) \<longleftrightarrow> code = EXIT_EN \<or> code = EXITGRP_EN"
  by (simp add: is_exit_def sample_event_def)

theorem burst_executed_in_order_witness:
  "\<forall>e. \<exists>s'. run e (enq_all [sample_event EXIT_EN 7 30, sample_event READ_EX 5 20, sample_event READ_EX 3 10] @ [DqAndDo True])
      sample_start = Some (Fine s')
    \<and> cs_done s' = [sample_event READ_EX 3 10, sample_event READ_EX 5 20, sample_event EXIT_EN 7 30]
    \<and> cs_qsize s' = 0"
proof
  fix e
  let ?evs = "[sample_event EXIT_EN 7 30, sample_event READ_EX 5 20, sample_event READ_EX 3 10]"
  have sort: "sort_key (\<lambda>ev. qpos ev sample_start) ?evs = [sample_event READ_EX 3 10, sample_event READ_EX 5 20, sample_event EXIT_EN 7 30]"
    by (simp add: sample_qpos)
  have "exits_last (sort_key (\<lambda>ev. qpos ev sample_start) ?evs)" unfolding sort by (simp add: sample_exit READ_EX_def EXIT_EN_def EXITGRP_EN_def)
  moreover have "\<forall>ev\<in>set ?evs. accepted sample_start ev \<and> executable sample_start ev"
    by (simp add: sample_accepted sample_executable)
  moreover have "distinct (map ev_seqnum ?evs)" by (simp add: sample_event_def)
  moreover have "cs_qsize sample_start = 0" "patient sample_start" "cs_nsubj sample_start = 1" "cs_done sample_start = []"
    by (simp_all add: sample_start_defs patient_def)
  ultimately show "\<exists>s'. run e (enq_all ?evs @ [DqAndDo True]) sample_start = Some (Fine s')
    \<and> cs_done s' = [sample_event READ_EX 3 10, sample_event READ_EX 5 20, sample_event EXIT_EN 7 30] \<and> cs_qsize s' = 0"
    using burst_executed_in_order [OF sample_start_invs, of ?evs e] unfolding sort by simp blast
qed


section \<open>The start\<close>

lemma consumer_start_ok: "\<exists>s. consumer_start e = Fine s \<and> queue_inv s \<and> subj_inv s \<and> cs_qsize s = 0 \<and> cs_done s = []"
  by (simp add: consumer_start_def existing_dirs_def cbind_def create_name_def create_def ascii_def nm2Obj_def get_subj_def
      new_subj_def empty_state_def new_obj_def Let_def setcwd_def setexe_def get_obj_def set_subj_def put_subj_def
      old_file_def NmOpt_def queue_inv_def occupied_def QSIZE_pos subj_inv_def tidy_def has_dirs_def init_subj_def
      subj_skeleton_def split: prod.split)

end
