(* ===== verification/Consumer_Calls.thy ===== *)
theory Consumer_Calls
  imports Consumer_Live
begin

text \<open>
  The methods of \<^verbatim>\<open>src/eConsumer.C\<close> that the parser calls, one constructor of \<open>consumer_call\<close> each:
  an event is made or found among the open events of the subject, its fields are filled in, and it
  is queued once both its entry and its exit are there. A method runs the queue in between, so
  it returns nothing if the queue does not.
\<close>

section \<open>Events of a subject\<close>

type_synonym 'a rconsumer = "cstate \<Rightarrow> ('a \<times> cstate) outcome option"

definition rlift :: "'a consumer \<Rightarrow> 'a rconsumer" where
  "rlift f s = Some (f s)"

definition rret :: "'a \<Rightarrow> 'a rconsumer" where
  "rret x s = Some (Fine (x, s))"

definition rbind :: "'a rconsumer \<Rightarrow> ('a \<Rightarrow> 'b rconsumer) \<Rightarrow> 'b rconsumer" where
  "rbind f g s = (case f s of None \<Rightarrow> None | Some Crash \<Rightarrow> Some Crash | Some (Fine (x, s')) \<Rightarrow> g x s')"

definition rdo :: "unit rconsumer \<Rightarrow> 'a rconsumer \<Rightarrow> 'a rconsumer" where
  "rdo f g = rbind f (\<lambda>_. g)"

definition upd :: "(cstate \<Rightarrow> cstate) \<Rightarrow> unit rconsumer" where
  "upd h s = Some (Fine ((), h s))"

definition run_tasks :: "cenv \<Rightarrow> qtask list \<Rightarrow> unit rconsumer" where
  "run_tasks e ts s = (case run e ts s of None \<Rightarrow> None | Some Crash \<Rightarrow> Some Crash | Some (Fine s') \<Rightarrow> Some (Fine ((), s')))"

text \<open>The open event of a subject at a position; there is none if the position is out of range.\<close>

definition cur_ev :: "addr \<Rightarrow> nat \<Rightarrow> evinfo rconsumer" where
  "cur_ev a idx s =
     (case cs_subj s a of
        None \<Rightarrow> Some Crash
      | Some si \<Rightarrow> if idx < length (sj_curEv si) then Some (Fine (sj_curEv si ! idx, s)) else Some Crash)"

definition set_ev :: "addr \<Rightarrow> nat \<Rightarrow> (evinfo \<Rightarrow> evinfo) \<Rightarrow> unit rconsumer" where
  "set_ev a idx f = rbind (cur_ev a idx) (\<lambda>ev. upd (on_subj a (\<lambda>si. si\<lparr>sj_curEv := (sj_curEv si)[idx := f ev]\<rparr>)))"

definition push_ev :: "addr \<Rightarrow> (evinfo \<Rightarrow> evinfo) \<Rightarrow> nat rconsumer" where
  "push_ev a f =
     rbind (\<lambda>s. Some (Fine (newEvInfo s))) (\<lambda>ev.
     rbind (rlift (get_subj a)) (\<lambda>si.
     rdo (upd (put_subj a (si\<lparr>sj_curEv := sj_curEv si @ [f ev]\<rparr>))) (rret (length (sj_curEv si)))))"

definition enq_at :: "cenv \<Rightarrow> addr \<Rightarrow> nat \<Rightarrow> unit rconsumer" where
  "enq_at e a idx =
     rbind (cur_ev a idx) (\<lambda>ev.
     rdo (upd (on_subj a (\<lambda>si. si\<lparr>sj_curEv := swap_remove idx (sj_curEv si)\<rparr>))) (run_tasks e [Enq a ev]))"

definition update_nfailed :: "s64 \<Rightarrow> cstate \<Rightarrow> cstate" where
  "update_nfailed rv s = (if is_err rv then s\<lparr>cs_nfailed := cs_nfailed s + 1\<rparr> else s\<lparr>cs_nsucc := cs_nsucc s + 1\<rparr>)"

definition get_subject :: "event_hdr \<Rightarrow> addr rconsumer" where
  "get_subject h s = Some (Fine (getSubj (eh_tid h) (eh_pid h) (eh_ts h) inval_uid inval_uid s))"

text \<open>The fields every new event gets.\<close>

definition ev_start :: "event_hdr \<Rightarrow> addr \<Rightarrow> sc_stat \<Rightarrow> s64 \<Rightarrow> evinfo \<Rightarrow> evinfo" where
  "ev_start h a st rv ev =
     ev\<lparr>ev_status := st, ev_code := eh_sc h, ev_si := a, ev_seqnum := eh_sn h, ev_ts := eh_ts h, ev_arg3 := rv\<rparr>"

text \<open>The search for the other half of a system call; the events that gave up are queued.\<close>

definition match_event :: "cenv \<Rightarrow> addr \<Rightarrow> u8 \<Rightarrow> u16 \<Rightarrow> sc_stat \<Rightarrow> nat option rconsumer" where
  "match_event e a sc sn st =
     rbind (rlift (get_subj a)) (\<lambda>si s.
       case best_matching_event (sj_curEv si) sc sn st (cs_curtime s) of (idx, evs, expired) \<Rightarrow>
         rdo (upd (put_subj a (si\<lparr>sj_curEv := evs\<rparr>))) (rdo (run_tasks e [Expired expired]) (rret idx)) s)"

definition preOp :: "cenv \<Rightarrow> event_hdr \<Rightarrow> (addr \<times> nat) rconsumer" where
  "preOp e h =
     rbind (get_subject h) (\<lambda>a.
     rbind (match_event e a (eh_sc h) (eh_sn h) ENTRY_SEEN) (\<lambda>idx.
       case idx of
         None \<Rightarrow> rbind (push_ev a (ev_start h a ENTRY_SEEN 0)) (\<lambda>idx. rret (a, idx))
       | Some idx \<Rightarrow> rdo (set_ev a idx (\<lambda>ev. ev\<lparr>ev_status := BOTH_SEEN\<rparr>)) (rret (a, idx))))"

definition prePostOp :: "event_hdr \<Rightarrow> s64 \<Rightarrow> (addr \<times> nat) rconsumer" where
  "prePostOp h rv =
     rbind (get_subject h) (\<lambda>a.
     rbind (push_ev a (ev_start h a BOTH_SEEN rv)) (\<lambda>idx. rdo (upd (update_nfailed rv)) (rret (a, idx))))"

definition inStartUp :: "cstate \<Rightarrow> bool" where
  "inStartUp s \<longleftrightarrow> cs_nsucc s < 4000"

text \<open>The subject, if it is known or the call succeeded, and the position of the event, if there is one.\<close>

definition postOp :: "cenv \<Rightarrow> event_hdr \<Rightarrow> s64 \<Rightarrow> (addr \<times> nat) option rconsumer" where
  "postOp e h rv =
     rdo (upd (update_nfailed rv)) (\<lambda>s.
       if cs_procMap s (eh_tid h) = None \<and> is_err rv then rret None s
       else rbind (get_subject h) (\<lambda>a.
            rbind (match_event e a (eh_sc h) (eh_sn h) EXIT_SEEN) (\<lambda>idx s.
              case idx of
                None \<Rightarrow>
                  if inStartUp s then rret None s
                  else rbind (push_ev a (\<lambda>_. ev_start h a EXIT_SEEN rv ev_zero)) (\<lambda>idx. rret (Some (a, idx))) s
              | Some idx \<Rightarrow>
                  rdo (set_ev a idx (\<lambda>ev. ev\<lparr>ev_status := BOTH_SEEN, ev_arg3 := rv\<rparr>)) (rret (Some (a, idx))) s)) s)"

definition set_ids :: "addr \<Rightarrow> nat \<Rightarrow> s32 \<Rightarrow> s32 \<Rightarrow> unit rconsumer" where
  "set_ids a idx uid gid =
     rbind (cur_ev a idx) (\<lambda>ev.
       if ev_code ev = EXECVE_EX
       then set_ev a idx (\<lambda>ev. ev\<lparr>ev_arg3 := set_u32_1 gid (set_u32_0 uid (ev_arg3 ev))\<rparr>)
       else upd (on_subj a (\<lambda>si. si\<lparr>sj_uid := uid, sj_gid := gid\<rparr>)))"

section \<open>Calls that are reported at their exit only\<close>

definition mk_name :: "cstr \<Rightarrow> u32 rconsumer" where
  "mk_name t = rlift (create_name (Some t))"

definition mk_ep :: "cenv \<Rightarrow> u8 list \<Rightarrow> u32 rconsumer" where
  "mk_ep e sa s = Some (Fine (getEp e sa s))"

text \<open>
  The common shape: a new event, the fields of the method, the queue. The names are created
  between the two, with the event already in the list of the subject.
\<close>

definition complete :: "cenv \<Rightarrow> event_hdr \<Rightarrow> s64 \<Rightarrow> (evinfo \<Rightarrow> evinfo) rconsumer \<Rightarrow> unit rconsumer" where
  "complete e h rv fill =
     rbind (prePostOp h rv) (\<lambda>(a, idx). rbind fill (\<lambda>f. rdo (set_ev a idx f) (enq_at e a idx)))"

definition fill_name0 :: "cstr \<Rightarrow> (u32 \<Rightarrow> evinfo \<Rightarrow> evinfo) \<Rightarrow> (evinfo \<Rightarrow> evinfo) rconsumer" where
  "fill_name0 t f = rbind (mk_name t) (\<lambda>nm. rret (\<lambda>ev. f nm (ev\<lparr>ev_arg0 := set_u32_0 nm (ev_arg0 ev)\<rparr>)))"

definition fill_ep :: "cenv \<Rightarrow> u8 list \<Rightarrow> (evinfo \<Rightarrow> evinfo) \<Rightarrow> (evinfo \<Rightarrow> evinfo) rconsumer" where
  "fill_ep e sa f = rbind (mk_ep e sa) (\<lambda>nm. rret (\<lambda>ev. f (ev\<lparr>ev_arg0 := set_u32_0 nm (ev_arg0 ev)\<rparr>)))"

definition fill_names2 :: "cstr \<Rightarrow> cstr \<Rightarrow> (evinfo \<Rightarrow> evinfo) \<Rightarrow> (evinfo \<Rightarrow> evinfo) rconsumer" where
  "fill_names2 fn1 fn2 f =
     rbind (mk_name fn1) (\<lambda>n1. rbind (mk_name fn2) (\<lambda>n2.
       rret (\<lambda>ev. (f ev)\<lparr>ev_arg2 := set_u32_1 n2 (set_u32_0 n1 (ev_arg2 ev))\<rparr>)))"

definition fd_id :: "s32 \<Rightarrow> s64 \<Rightarrow> evinfo \<Rightarrow> evinfo" where
  "fd_id fd i ev = ev\<lparr>ev_fd := fd, ev_id := i\<rparr>"

definition args3 :: "s64 \<Rightarrow> s64 \<Rightarrow> s64 \<Rightarrow> evinfo \<Rightarrow> evinfo" where
  "args3 x y z ev = ev\<lparr>ev_arg0 := x, ev_arg1 := y, ev_arg2 := z\<rparr>"

definition accRcvfPeer :: "cenv \<Rightarrow> event_hdr \<Rightarrow> s32 \<Rightarrow> s64 \<Rightarrow> u8 list \<Rightarrow> s64 \<Rightarrow> unit rconsumer" where
  "accRcvfPeer e h fd i sa rv = complete e h rv (fill_ep e sa (fd_id fd i))"

definition cons_bind :: "cenv \<Rightarrow> event_hdr \<Rightarrow> s32 \<Rightarrow> u8 list \<Rightarrow> s64 \<Rightarrow> unit rconsumer" where
  "cons_bind e h fd sa rv = complete e h rv (fill_ep e sa (\<lambda>ev. ev\<lparr>ev_fd := fd\<rparr>))"

definition chdir :: "cenv \<Rightarrow> event_hdr \<Rightarrow> cstr \<Rightarrow> s64 \<Rightarrow> unit rconsumer" where
  "chdir e h fn rv = complete e h rv (fill_name0 fn (\<lambda>_ ev. ev))"

definition fchdir :: "cenv \<Rightarrow> event_hdr \<Rightarrow> s32 \<Rightarrow> s64 \<Rightarrow> s64 \<Rightarrow> unit rconsumer" where
  "fchdir e h fd i rv = complete e h rv (rret (fd_id fd i))"

definition chmodat :: "cenv \<Rightarrow> event_hdr \<Rightarrow> s32 \<Rightarrow> s64 \<Rightarrow> cstr \<Rightarrow> s32 \<Rightarrow> s64 \<Rightarrow> unit rconsumer" where
  "chmodat e h fd i fn mode rv = complete e h rv (fill_name0 fn (\<lambda>_ ev. (fd_id fd i ev)\<lparr>ev_arg2 := scast mode\<rparr>))"

definition fchmod :: "cenv \<Rightarrow> event_hdr \<Rightarrow> s32 \<Rightarrow> s64 \<Rightarrow> s32 \<Rightarrow> s64 \<Rightarrow> unit rconsumer" where
  "fchmod e h fd i md rv = complete e h rv (rret (\<lambda>ev. (fd_id fd i ev)\<lparr>ev_arg2 := scast md\<rparr>))"

definition chownat :: "cenv \<Rightarrow> event_hdr \<Rightarrow> s32 \<Rightarrow> s64 \<Rightarrow> cstr \<Rightarrow> s64 \<Rightarrow> s64 \<Rightarrow> s64 \<Rightarrow> s64 \<Rightarrow> unit rconsumer" where
  "chownat e h fd i fn user grp flgs rv =
     complete e h rv (fill_name0 fn (\<lambda>_ ev.
       (fd_id fd i ev)\<lparr>ev_arg0 := set_u32_1 (ucast flgs) (ev_arg0 ev),
                       ev_arg2 := set_u32_1 (ucast grp) (set_u32_0 (ucast user) (ev_arg2 ev))\<rparr>))"

definition fchown :: "cenv \<Rightarrow> event_hdr \<Rightarrow> s32 \<Rightarrow> s64 \<Rightarrow> s64 \<Rightarrow> s64 \<Rightarrow> s64 \<Rightarrow> unit rconsumer" where
  "fchown e h fd i user grp rv =
     complete e h rv (rret (\<lambda>ev.
       (fd_id fd i ev)\<lparr>ev_arg0 := set_u32_1 0 (ev_arg0 ev),
                       ev_arg2 := set_u32_1 (ucast grp) (set_u32_0 (ucast user) (ev_arg2 ev))\<rparr>))"

definition cons_close :: "cenv \<Rightarrow> event_hdr \<Rightarrow> s32 \<Rightarrow> s64 \<Rightarrow> s64 \<Rightarrow> s64 \<Rightarrow> unit rconsumer" where
  "cons_close e h fd unrep_rd unrep_wr rv =
     complete e h rv (rret (\<lambda>ev. ev\<lparr>ev_fd := fd, ev_arg0 := unrep_rd, ev_arg1 := unrep_wr\<rparr>))"

definition cons_connect :: "cenv \<Rightarrow> event_hdr \<Rightarrow> s32 \<Rightarrow> s64 \<Rightarrow> u8 list \<Rightarrow> s64 \<Rightarrow> unit rconsumer" where
  "cons_connect e h fd i sa rv = complete e h rv (fill_ep e sa (fd_id fd i))"

definition cons_dup :: "cenv \<Rightarrow> event_hdr \<Rightarrow> s32 \<Rightarrow> s64 \<Rightarrow> unit rconsumer" where
  "cons_dup e h fd rv = complete e h rv (rret (\<lambda>ev. ev\<lparr>ev_fd := fd\<rparr>))"

definition init_module :: "cenv \<Rightarrow> event_hdr \<Rightarrow> cstr \<Rightarrow> s64 \<Rightarrow> unit rconsumer" where
  "init_module e h params rv = complete e h rv (fill_name0 params (\<lambda>_ ev. ev))"

definition finit_module :: "cenv \<Rightarrow> event_hdr \<Rightarrow> s32 \<Rightarrow> s64 \<Rightarrow> cstr \<Rightarrow> s32 \<Rightarrow> s64 \<Rightarrow> unit rconsumer" where
  "finit_module e h fd i params flags rv =
     complete e h rv (rbind (mk_name params) (\<lambda>nm. rret (\<lambda>ev.
       (fd_id fd i ev)\<lparr>ev_arg0 := set_u32_1 nm (set_u32_0 flags (ev_arg0 ev))\<rparr>)))"

definition two_dirs :: "s32 \<Rightarrow> s64 \<Rightarrow> s32 \<Rightarrow> s64 \<Rightarrow> s64 \<Rightarrow> evinfo \<Rightarrow> evinfo" where
  "two_dirs fd1 id1 fd2 id2 flags ev =
     (fd_id fd1 id1 ev)\<lparr>ev_arg0 := set_u32_1 (ucast flags) (set_u32_0 fd2 (ev_arg0 ev)), ev_arg1 := id2\<rparr>"

definition linkat :: "cenv \<Rightarrow> event_hdr \<Rightarrow> s32 \<Rightarrow> s64 \<Rightarrow> cstr \<Rightarrow> s32 \<Rightarrow> s64 \<Rightarrow> cstr \<Rightarrow> s64 \<Rightarrow> s64 \<Rightarrow> unit rconsumer" where
  "linkat e h fd1 id1 fn1 fd2 id2 fn2 flags rv = complete e h rv (fill_names2 fn1 fn2 (two_dirs fd1 id1 fd2 id2 flags))"

definition symlinkat :: "cenv \<Rightarrow> event_hdr \<Rightarrow> cstr \<Rightarrow> s32 \<Rightarrow> s64 \<Rightarrow> cstr \<Rightarrow> s64 \<Rightarrow> unit rconsumer" where
  "symlinkat e h fn1 fd i fn2 rv = complete e h rv (fill_names2 fn1 fn2 (fd_id fd i))"

definition mkdirat :: "cenv \<Rightarrow> event_hdr \<Rightarrow> s32 \<Rightarrow> s64 \<Rightarrow> cstr \<Rightarrow> s32 \<Rightarrow> s64 \<Rightarrow> unit rconsumer" where
  "mkdirat e h fd i fn mode rv =
     complete e h rv (fill_name0 fn (\<lambda>_ ev. (fd_id fd i ev)\<lparr>ev_arg0 := set_u32_1 mode (ev_arg0 ev)\<rparr>))"

definition mknodat :: "cenv \<Rightarrow> event_hdr \<Rightarrow> s32 \<Rightarrow> s64 \<Rightarrow> cstr \<Rightarrow> s32 \<Rightarrow> s32 \<Rightarrow> s64 \<Rightarrow> unit rconsumer" where
  "mknodat e h fd i fn mode dev rv =
     complete e h rv (fill_name0 fn (\<lambda>_ ev.
       (fd_id fd i ev)\<lparr>ev_arg0 := set_u32_1 mode (ev_arg0 ev), ev_arg2 := scast dev\<rparr>))"

definition mmapex :: "cenv \<Rightarrow> event_hdr \<Rightarrow> s64 \<Rightarrow> s64 \<Rightarrow> s64 \<Rightarrow> s32 \<Rightarrow> s32 \<Rightarrow> s64 \<Rightarrow> unit rconsumer" where
  "mmapex e h i addr len prot flags rv =
     complete e h rv (rret (\<lambda>ev.
       ev\<lparr>ev_id := i, ev_arg0 := addr, ev_arg1 := len, ev_arg2 := set_u32_1 flags (set_u32_0 prot (ev_arg2 ev))\<rparr>))"

definition mount :: "cenv \<Rightarrow> event_hdr \<Rightarrow> cstr \<Rightarrow> cstr \<Rightarrow> cstr \<Rightarrow> s64 \<Rightarrow> s64 \<Rightarrow> unit rconsumer" where
  "mount e h sr ds fstp flags rv =
     complete e h rv (rbind (mk_name sr) (\<lambda>n1. rbind (mk_name ds) (\<lambda>n2. rbind (mk_name fstp) (\<lambda>n3. rret (\<lambda>ev.
       ev\<lparr>ev_arg0 := set_u32_1 n2 (set_u32_0 n1 (ev_arg0 ev)), ev_arg1 := set_u32_0 n3 (ev_arg1 ev), ev_arg2 := flags\<rparr>)))))"

definition mprotect :: "cenv \<Rightarrow> event_hdr \<Rightarrow> s64 \<Rightarrow> s64 \<Rightarrow> s32 \<Rightarrow> s64 \<Rightarrow> unit rconsumer" where
  "mprotect e h addr len prot rv =
     complete e h rv (rret (\<lambda>ev. ev\<lparr>ev_arg0 := addr, ev_arg1 := len, ev_arg2 := set_u32_0 prot (ev_arg2 ev)\<rparr>))"

text \<open>An open is queued with the identifier of the new descriptor as its result.\<close>

definition openat :: "cenv \<Rightarrow> event_hdr \<Rightarrow> s32 \<Rightarrow> cstr \<Rightarrow> s32 \<Rightarrow> s32 \<Rightarrow> s32 \<Rightarrow> s64 \<Rightarrow> s64 \<Rightarrow> unit rconsumer" where
  "openat e h at_fd fn flags mode rv at_id ret_id =
     complete e h ret_id (fill_name0 fn (\<lambda>_ ev.
       (fd_id at_fd at_id ev)\<lparr>ev_arg0 := set_u32_1 flags (ev_arg0 ev), ev_arg1 := set_u32_1 rv (set_u32_0 mode (ev_arg1 ev))\<rparr>))"

definition pipe :: "cenv \<Rightarrow> event_hdr \<Rightarrow> bool \<Rightarrow> s32 \<Rightarrow> s32 \<Rightarrow> unit rconsumer" where
  "pipe e h is_sock fd1 fd2 =
     complete e h (push_bit 32 (scast fd1) OR scast fd2) (rret (\<lambda>ev. ev\<lparr>ev_arg0 := (if is_sock then 1 else 0)\<rparr>))"

definition cons_read :: "cenv \<Rightarrow> event_hdr \<Rightarrow> s32 \<Rightarrow> s64 \<Rightarrow> s64 \<Rightarrow> unit rconsumer" where
  "cons_read e h fd i rv = complete e h rv (rret (fd_id fd i))"

definition renameat :: "cenv \<Rightarrow> event_hdr \<Rightarrow> s32 \<Rightarrow> s64 \<Rightarrow> cstr \<Rightarrow> s32 \<Rightarrow> s64 \<Rightarrow> cstr \<Rightarrow> s64 \<Rightarrow> s64 \<Rightarrow> unit rconsumer" where
  "renameat e h fd1 id1 fn1 fd2 id2 fn2 flags rv = complete e h rv (fill_names2 fn1 fn2 (two_dirs fd1 id1 fd2 id2 flags))"

definition rmdir :: "cenv \<Rightarrow> event_hdr \<Rightarrow> cstr \<Rightarrow> s64 \<Rightarrow> unit rconsumer" where
  "rmdir e h fn rv = complete e h rv (fill_name0 fn (\<lambda>_ ev. ev\<lparr>ev_fd := at_fdcwd\<rparr>))"

definition sendto :: "cenv \<Rightarrow> event_hdr \<Rightarrow> s32 \<Rightarrow> u8 list \<Rightarrow> s64 \<Rightarrow> unit rconsumer" where
  "sendto e h fd sa rv = complete e h rv (fill_ep e sa (\<lambda>ev. ev\<lparr>ev_fd := fd\<rparr>))"

definition setgid :: "cenv \<Rightarrow> event_hdr \<Rightarrow> s32 \<Rightarrow> s32 \<Rightarrow> s32 \<Rightarrow> s64 \<Rightarrow> unit rconsumer" where
  "setgid e h rgid egid sgid rv = complete e h rv (rret (args3 (scast rgid) (scast egid) (scast sgid)))"

definition setuid :: "cenv \<Rightarrow> event_hdr \<Rightarrow> s32 \<Rightarrow> s32 \<Rightarrow> s32 \<Rightarrow> s64 \<Rightarrow> unit rconsumer" where
  "setuid e h ruid euid suid rv = complete e h rv (rret (args3 (scast ruid) (scast euid) (scast suid)))"

definition vmsplice :: "cenv \<Rightarrow> event_hdr \<Rightarrow> s32 \<Rightarrow> s64 \<Rightarrow> s64 \<Rightarrow> unit rconsumer" where
  "vmsplice e h fd i rv = complete e h rv (rret (fd_id fd i))"

definition cons_truncate :: "cenv \<Rightarrow> event_hdr \<Rightarrow> cstr \<Rightarrow> s64 \<Rightarrow> s64 \<Rightarrow> unit rconsumer" where
  "cons_truncate e h fn len rv = complete e h rv (fill_name0 fn (\<lambda>_ ev. ev\<lparr>ev_arg1 := len\<rparr>))"

definition ftruncate :: "cenv \<Rightarrow> event_hdr \<Rightarrow> s32 \<Rightarrow> s64 \<Rightarrow> s64 \<Rightarrow> s32 \<Rightarrow> unit rconsumer" where
  "ftruncate e h fd i len rv = complete e h (scast rv) (rret (\<lambda>ev. (fd_id fd i ev)\<lparr>ev_arg0 := len\<rparr>))"

definition umount :: "cenv \<Rightarrow> event_hdr \<Rightarrow> cstr \<Rightarrow> s64 \<Rightarrow> s64 \<Rightarrow> unit rconsumer" where
  "umount e h fn flags rv = complete e h rv (fill_name0 fn (\<lambda>_ ev. ev\<lparr>ev_arg1 := flags\<rparr>))"

definition unlinkat :: "cenv \<Rightarrow> event_hdr \<Rightarrow> s32 \<Rightarrow> s64 \<Rightarrow> cstr \<Rightarrow> s64 \<Rightarrow> unit rconsumer" where
  "unlinkat e h at_fd at_id fn rv = complete e h rv (fill_name0 fn (\<lambda>_. fd_id at_fd at_id))"

definition cons_write :: "cenv \<Rightarrow> event_hdr \<Rightarrow> s32 \<Rightarrow> s64 \<Rightarrow> s64 \<Rightarrow> unit rconsumer" where
  "cons_write e h fd i rv = complete e h rv (rret (fd_id fd i))"

section \<open>Calls that are reported at their entry\<close>

definition enq_if_both :: "cenv \<Rightarrow> addr \<Rightarrow> nat \<Rightarrow> unit rconsumer" where
  "enq_if_both e a idx = rbind (cur_ev a idx) (\<lambda>ev. if ev_status ev = BOTH_SEEN then enq_at e a idx else rret ())"

definition entry :: "cenv \<Rightarrow> event_hdr \<Rightarrow> (evinfo \<Rightarrow> evinfo) rconsumer \<Rightarrow> unit rconsumer" where
  "entry e h fill =
     rbind (preOp e h) (\<lambda>(a, idx). rbind fill (\<lambda>f. rdo (set_ev a idx f) (enq_if_both e a idx)))"

definition ent_clone :: "cenv \<Rightarrow> event_hdr \<Rightarrow> s64 \<Rightarrow> unit rconsumer" where
  "ent_clone e h flags = entry e h (rret (\<lambda>ev. ev\<lparr>ev_arg0 := flags\<rparr>))"

definition mk_argv :: "cstr list \<Rightarrow> u64 rconsumer" where
  "mk_argv argv s = Some (Fine (copyargv argv s))"

definition ent_execveat :: "cenv \<Rightarrow> event_hdr \<Rightarrow> s32 \<Rightarrow> s64 \<Rightarrow> s64 \<Rightarrow> cstr \<Rightarrow> cstr list \<Rightarrow> cstr list \<Rightarrow> unit rconsumer" where
  "ent_execveat e h fd i flags fn argv envp =
     entry e h (rbind (mk_name fn) (\<lambda>nm. rbind (mk_argv argv) (\<lambda>as. rbind (mk_argv envp) (\<lambda>es. rret (\<lambda>ev.
       (fd_id fd i ev)\<lparr>ev_arg0 := set_u32_1 (ucast flags) (set_u32_0 nm (ev_arg0 ev)), ev_arg1 := as, ev_arg2 := es\<rparr>)))))"

definition ent_kill :: "cenv \<Rightarrow> event_hdr \<Rightarrow> s32 \<Rightarrow> s32 \<Rightarrow> s32 \<Rightarrow> unit rconsumer" where
  "ent_kill e h pid1 tid1 sig = entry e h (rret (args3 (scast pid1) (scast tid1) (scast sig)))"

definition ent_ptrace :: "cenv \<Rightarrow> event_hdr \<Rightarrow> s64 \<Rightarrow> s32 \<Rightarrow> unit rconsumer" where
  "ent_ptrace e h request target = entry e h (rret (\<lambda>ev. ev\<lparr>ev_arg0 := request, ev_arg1 := scast target\<rparr>))"

definition CLK_ERR :: u64 where
  "CLK_ERR = 50"

definition ent_exit :: "cenv \<Rightarrow> event_hdr \<Rightarrow> s32 \<Rightarrow> unit rconsumer" where
  "ent_exit e h code =
     rbind (preOp e h) (\<lambda>(a, idx).
     rdo (set_ev a idx (\<lambda>ev. ev\<lparr>ev_arg0 := scast code\<rparr>))
     (rdo (rlift (set_subj a (\<lambda>si. si\<lparr>sj_lastEv := max (sj_lastEv si) (eh_ts h)\<rparr>)))
     (rbind (rlift (get_subj a)) (\<lambda>si.
      rdo (set_ev a idx (\<lambda>ev. ev\<lparr>ev_ts := sj_lastEv si + 2 * CLK_ERR\<rparr>))
      (rdo (enq_at e a idx)
           (rlift (set_subj a (\<lambda>si'. si'\<lparr>sj_exitTime := sj_lastEv si\<rparr>))))))))"

section \<open>Exits\<close>

definition sc_exit :: "cenv \<Rightarrow> event_hdr \<Rightarrow> s64 \<Rightarrow> unit rconsumer" where
  "sc_exit e h rv = rbind (postOp e h rv) (\<lambda>p. case p of None \<Rightarrow> rret () | Some (a, idx) \<Rightarrow> enq_if_both e a idx)"

definition exec_exit :: "cenv \<Rightarrow> event_hdr \<Rightarrow> s32 \<Rightarrow> s32 \<Rightarrow> s32 \<Rightarrow> unit rconsumer" where
  "exec_exit e h rv uid gid =
     rbind (postOp e h (scast rv)) (\<lambda>p.
       case p of
         None \<Rightarrow> rret ()
       | Some (a, idx) \<Rightarrow> rdo (if is_err (scast rv) then rret () else set_ids a idx uid gid) (enq_if_both e a idx))"

text \<open>The parent of a clone that succeeded; one that is not known is made up.\<close>

definition new_thread :: "cenv \<Rightarrow> event_hdr \<Rightarrow> subj \<Rightarrow> addr rconsumer" where
  "new_thread e h prsi s =
     (case subj_thread (ce_junk e) (eh_tid h) prsi (eh_ts h) of
        None \<Rightarrow> Some Crash
      | Some t \<Rightarrow> Some (Fine (new_subj (eh_tid h) t s)))"

definition cloning_thread :: "cenv \<Rightarrow> event_hdr \<Rightarrow> s32 \<Rightarrow> s32 \<Rightarrow> addr rconsumer" where
  "cloning_thread e h uid gid s =
     (case cs_procMap s (eh_tid h) of
        Some a \<Rightarrow> rret a s
      | None \<Rightarrow>
          if eh_pid h \<noteq> eh_tid h
          then rbind (\<lambda>s. Some (Fine (getSubj (eh_pid h) (eh_pid h) (eh_ts h) uid gid s))) (\<lambda>pa.
               rbind (rlift (get_subj pa)) (new_thread e h)) s
          else Some (Fine (getSubj (eh_tid h) (eh_pid h) (eh_ts h) uid gid s)))"

definition clone_parent :: "cenv \<Rightarrow> event_hdr \<Rightarrow> s32 \<Rightarrow> s32 \<Rightarrow> s32 \<Rightarrow> s32 \<Rightarrow> addr rconsumer" where
  "clone_parent e h parent_tid rv uid gid =
     (if rv \<noteq> 0 then rdo (upd (\<lambda>s. s\<lparr>cs_nsucc := cs_nsucc s + 1\<rparr>)) (cloning_thread e h uid gid)
      else (\<lambda>s. Some (Fine (getSubj parent_tid parent_tid (eh_ts h) uid gid s))))"

definition clone_thread_flag :: s32 where
  "clone_thread_flag = 0x10000"

definition clone_child :: "event_hdr \<Rightarrow> addr \<Rightarrow> nat \<Rightarrow> s32 \<Rightarrow> s32 \<Rightarrow> s32 \<Rightarrow> s32 \<Rightarrow> unit rconsumer" where
  "clone_child h a idx childtid rv uid gid =
     rbind (cur_ev a idx) (\<lambda>ev. rbind (rlift (get_subj a)) (\<lambda>par.
       let flags = ucast (ev_arg0 ev) :: s32;
           childpid = (if rv \<noteq> 0 then if flags AND clone_thread_flag \<noteq> 0 then eh_pid h else childtid else eh_pid h) in
       upd (\<lambda>s. snd (new_subj childtid (subj_skeleton nullsiid childtid childpid (sj_tid par) uid gid (eh_ts h) False) s))))"

definition clone_finish :: "cenv \<Rightarrow> event_hdr \<Rightarrow> addr \<Rightarrow> nat \<Rightarrow> s32 \<Rightarrow> s32 \<Rightarrow> s32 \<Rightarrow> s32 \<Rightarrow> bool \<Rightarrow> unit rconsumer" where
  "clone_finish e h a idx childtid rv uid gid has_child =
     rdo (set_ev a idx (\<lambda>ev. ev\<lparr>ev_status := BOTH_SEEN, ev_seqnum := eh_sn h,
            ev_arg3 := (if is_err (scast rv) then scast rv else scast childtid), ev_ts := eh_ts h\<rparr>))
     (rdo (set_ids a idx uid gid)
     (rdo (if \<not> has_child \<and> \<not> is_err (scast rv) then clone_child h a idx childtid rv uid gid else rret ())
          (enq_at e a idx)))"

text \<open>The event of the clone; if its entry was not seen one is made up.\<close>

definition clone_event :: "cenv \<Rightarrow> event_hdr \<Rightarrow> addr \<Rightarrow> s32 \<Rightarrow> bool \<Rightarrow> nat option rconsumer" where
  "clone_event e h a rv has_child =
     rbind (match_event e a (eh_sc h) (eh_sn h) EXIT_SEEN) (\<lambda>idx s.
       if idx = None \<and> \<not> has_child \<and> \<not> is_err (scast rv) \<and> \<not> inStartUp s
       then rdo (upd (\<lambda>s. s\<lparr>cs_injected := cs_injected s + 1\<rparr>))
            (rbind (push_ev a (\<lambda>ev. ev\<lparr>ev_code := eh_sc h, ev_si := a, ev_arg0 := 0\<rparr>)) (\<lambda>i. rret (Some i))) s
       else rret idx s)"

definition clone_record :: "cenv \<Rightarrow> event_hdr \<Rightarrow> s32 \<Rightarrow> s32 \<Rightarrow> s32 \<Rightarrow> s32 \<Rightarrow> bool \<Rightarrow> addr \<Rightarrow> unit rconsumer" where
  "clone_record e h childtid rv uid gid has_child a =
     rbind (clone_event e h a rv has_child) (\<lambda>idx.
       case idx of None \<Rightarrow> rret () | Some idx \<Rightarrow> clone_finish e h a idx childtid rv uid gid has_child)"

definition not_orphan :: "s32 \<Rightarrow> unit rconsumer" where
  "not_orphan tid s =
     (case cs_procMap s tid of None \<Rightarrow> rret () s | Some c \<Rightarrow> rlift (set_subj c (\<lambda>si. si\<lparr>sj_orphan := False\<rparr>)) s)"

definition clone_exit :: "cenv \<Rightarrow> event_hdr \<Rightarrow> s32 \<Rightarrow> s32 \<Rightarrow> s32 \<Rightarrow> s32 \<Rightarrow> unit rconsumer" where
  "clone_exit e h parent_tid rv uid gid s0 =
     (let ok = rv \<noteq> 0 \<and> \<not> is_err (scast rv);
          childtid = (if ok then rv else eh_tid h);
          parenttid = (if ok then eh_tid h else parent_tid);
          has_child = cs_procMap s0 childtid \<noteq> None in
      rdo (not_orphan childtid) (\<lambda>s.
      if is_err (scast rv)
      then rdo (upd (\<lambda>s. s\<lparr>cs_nfailed := cs_nfailed s + 1\<rparr>))
             (case cs_procMap s parenttid of
                None \<Rightarrow> rret ()
              | Some a \<Rightarrow> clone_record e h childtid rv uid gid has_child a) s
      else rbind (clone_parent e h parent_tid rv uid gid) (clone_record e h childtid rv uid gid has_child) s) s0)"

section \<open>Dispatch\<close>

fun consume :: "cenv \<Rightarrow> consumer_event \<Rightarrow> unit rconsumer" where
  "consume e (Cur_time ts) = upd (\<lambda>s. s\<lparr>cs_curtime := ts\<rparr>)"
| "consume e (Call h c) =
     (case c of
        C_accRcvfPeer fd i sa rv \<Rightarrow> accRcvfPeer e h fd i sa rv
      | C_bind fd sa rv \<Rightarrow> cons_bind e h fd sa rv
      | C_chdir fn rv \<Rightarrow> chdir e h fn rv
      | C_fchdir fd i rv \<Rightarrow> fchdir e h fd i rv
      | C_chmodat fd i fn mode rv \<Rightarrow> chmodat e h fd i fn mode rv
      | C_fchmod fd i md rv \<Rightarrow> fchmod e h fd i md rv
      | C_chownat fd i fn user grp flgs rv \<Rightarrow> chownat e h fd i fn user grp flgs rv
      | C_fchown fd i user grp rv \<Rightarrow> fchown e h fd i user grp rv
      | C_ent_clone flags \<Rightarrow> ent_clone e h flags
      | C_close fd r w rv \<Rightarrow> cons_close e h fd r w rv
      | C_connect fd i sa rv \<Rightarrow> cons_connect e h fd i sa rv
      | C_dup fd rv \<Rightarrow> cons_dup e h fd rv
      | C_ent_execveat fd i flags fn argv envp \<Rightarrow> ent_execveat e h fd i flags fn argv envp
      | C_ent_exit code \<Rightarrow> ent_exit e h code
      | C_init_module params rv \<Rightarrow> init_module e h params rv
      | C_finit_module fd i params flags rv \<Rightarrow> finit_module e h fd i params flags rv
      | C_ent_kill pid1 tid1 sig \<Rightarrow> ent_kill e h pid1 tid1 sig
      | C_linkat fd1 id1 fn1 fd2 id2 fn2 flags rv \<Rightarrow> linkat e h fd1 id1 fn1 fd2 id2 fn2 flags rv
      | C_symlinkat fn1 fd i fn2 rv \<Rightarrow> symlinkat e h fn1 fd i fn2 rv
      | C_mkdirat fd i fn mode rv \<Rightarrow> mkdirat e h fd i fn mode rv
      | C_mknodat fd i fn mode dev rv \<Rightarrow> mknodat e h fd i fn mode dev rv
      | C_mmapex i addr len prot flags rv \<Rightarrow> mmapex e h i addr len prot flags rv
      | C_mount sr ds fstp flags rv \<Rightarrow> mount e h sr ds fstp flags rv
      | C_mprotect addr len prot rv \<Rightarrow> mprotect e h addr len prot rv
      | C_openat at_fd fn flags mode rv at_id ret_id \<Rightarrow> openat e h at_fd fn flags mode rv at_id ret_id
      | C_pipe is_sock fd1 fd2 \<Rightarrow> pipe e h is_sock fd1 fd2
      | C_ent_ptrace request target \<Rightarrow> ent_ptrace e h request target
      | C_read fd i rv \<Rightarrow> cons_read e h fd i rv
      | C_renameat fd1 id1 fn1 fd2 id2 fn2 flags rv \<Rightarrow> renameat e h fd1 id1 fn1 fd2 id2 fn2 flags rv
      | C_rmdir fn rv \<Rightarrow> rmdir e h fn rv
      | C_sendto fd sa rv \<Rightarrow> sendto e h fd sa rv
      | C_setgid rgid egid sgid rv \<Rightarrow> setgid e h rgid egid sgid rv
      | C_setuid ruid euid suid rv \<Rightarrow> setuid e h ruid euid suid rv
      | C_vmsplice fd i rv \<Rightarrow> vmsplice e h fd i rv
      | C_truncate fn len rv \<Rightarrow> cons_truncate e h fn len rv
      | C_ftruncate fd i len rv \<Rightarrow> ftruncate e h fd i len rv
      | C_umount fn flags rv \<Rightarrow> umount e h fn flags rv
      | C_unlinkat at_fd at_id fn rv \<Rightarrow> unlinkat e h at_fd at_id fn rv
      | C_write fd i rv \<Rightarrow> cons_write e h fd i rv
      | C_clone_exit parent_tid rv uid gid _ \<Rightarrow> clone_exit e h parent_tid rv uid gid
      | C_exec_exit parent_tid rv uid gid _ \<Rightarrow> exec_exit e h rv uid gid
      | C_sc_exit rv \<Rightarrow> sc_exit e h rv)"

fun consume_all :: "cenv \<Rightarrow> consumer_event list \<Rightarrow> unit rconsumer" where
  "consume_all e [] = rret ()"
| "consume_all e (x # xs) = rdo (consume e x) (consume_all e xs)"

definition finalize :: "cenv \<Rightarrow> unit rconsumer" where
  "finalize e = run_tasks e [DqAndDo True]"

end
