(* ===== verification/Consumer_Serve.thy ===== *)
theory Consumer_Serve
  imports Consumer_Calls Consumer_Burst
begin

text \<open>
  Every method of the consumer returns, and at the end of the capture the queue is empty. A method is
  a sequence of accesses to the subject, runs of the queue and updates that leave the queue alone;
  the collection \<open>serves_intros\<close> has a rule for each.
\<close>

section \<open>Every method returns\<close>

named_theorems serves_intros

text \<open>A method that returns and leaves a consistent queue.\<close>

definition serves :: "'a rconsumer \<Rightarrow> bool" where
  "serves f \<longleftrightarrow> (\<forall>s. queue_inv s \<longrightarrow> (\<exists>r. f s = Some r \<and> (\<forall>x s'. r = Fine (x, s') \<longrightarrow> queue_inv s')))"

lemma servesI: "(\<And>s. queue_inv s \<Longrightarrow> \<exists>r. f s = Some r \<and> (\<forall>x s'. r = Fine (x, s') \<longrightarrow> queue_inv s')) \<Longrightarrow> serves f"
  by (simp add: serves_def)

lemma servesE:
  assumes "serves f" "queue_inv s"
  obtains "f s = Some Crash" | x s' where "f s = Some (Fine (x, s'))" "queue_inv s'"
  using assms unfolding serves_def by (metis outcome.exhaust surj_pair)

lemma serves_rbind [serves_intros]:
  assumes "serves f" "\<And>x. serves (g x)"
  shows "serves (rbind f g)"
proof (rule servesI)
  fix s assume "queue_inv s"
  with assms(1) show "\<exists>r. rbind f g s = Some r \<and> (\<forall>x s'. r = Fine (x, s') \<longrightarrow> queue_inv s')"
  proof (cases rule: servesE)
    case 1
    then show ?thesis by (simp add: rbind_def)
  next
    case (2 x s')
    then show ?thesis using assms(2) [of x] by (simp add: rbind_def serves_def)
  qed
qed

lemma serves_rdo [serves_intros]: "serves f \<Longrightarrow> serves g \<Longrightarrow> serves (rdo f g)"
  unfolding rdo_def by (rule serves_rbind)

lemma serves_rret [serves_intros]: "serves (rret x)"
  by (simp add: serves_def rret_def)

lemma serves_if [serves_intros]: "serves f \<Longrightarrow> serves g \<Longrightarrow> serves (if b then f else g)"
  by simp

lemma serves_option [serves_intros]:
  "serves f \<Longrightarrow> (\<And>x. serves (g x)) \<Longrightarrow> serves (case p of None \<Rightarrow> f | Some x \<Rightarrow> g x)"
  by (cases p) auto

lemma serves_pair [serves_intros]: "(\<And>x y. serves (g x y)) \<Longrightarrow> serves (case p of (x, y) \<Rightarrow> g x y)"
  by (cases p) auto

lemma serves_cond: "serves f \<Longrightarrow> serves g \<Longrightarrow> serves (\<lambda>s. if b s then f s else g s)"
  by (simp add: serves_def)

lemma serves_lookup: "serves f \<Longrightarrow> (\<And>x. serves (g x)) \<Longrightarrow> serves (\<lambda>s. case k s of None \<Rightarrow> f s | Some x \<Rightarrow> g x s)"
  by (simp add: serves_def split: option.split)

lemma serves_triple:
  "(\<And>x y z. serves (g x y z)) \<Longrightarrow> serves (\<lambda>s. case k s of (x, y, z) \<Rightarrow> g x y z s)"
  by (simp add: serves_def split: prod.split)

lemma serves_fun: "(\<And>s0. serves (f s0)) \<Longrightarrow> serves (\<lambda>s. f s s)"
  by (simp add: serves_def)

lemma serves_rlift [serves_intros]: "leaves f \<Longrightarrow> serves (rlift f)"
  by (auto simp: serves_def rlift_def dest: leavesD intro: queue_kept_inv)

lemma serves_Fine: "(\<And>s. cs_q (snd (f s)) = cs_q s \<and> cs_qbeg (snd (f s)) = cs_qbeg s \<and> cs_qsize (snd (f s)) = cs_qsize s) \<Longrightarrow> serves (\<lambda>s. Some (Fine (f s)))"
  by (simp add: serves_def queue_inv_def) (metis snd_conv)

lemma serves_kept: "(\<And>s x s'. f s = (x, s') \<Longrightarrow> queue_kept s s') \<Longrightarrow> serves (\<lambda>s. Some (Fine (f s)))"
  by (auto simp: serves_def dest: queue_kept_inv)

lemma serves_upd: "(\<And>s. cs_q (h s) = cs_q s \<and> cs_qbeg (h s) = cs_qbeg s \<and> cs_qsize (h s) = cs_qsize s) \<Longrightarrow> serves (upd h)"
  by (simp add: serves_def queue_inv_def upd_def)

lemma serves_run [serves_intros]: "serves (run_tasks e ts)"
proof (rule servesI)
  fix s assume "queue_inv s"
  then obtain r where "run e ts s = Some r" "case r of Crash \<Rightarrow> True | Fine s' \<Rightarrow> queue_inv s'" using run_returns by blast
  then show "\<exists>r. run_tasks e ts s = Some r \<and> (\<forall>x s'. r = Fine (x, s') \<longrightarrow> queue_inv s')"
    by (cases r) (auto simp: run_tasks_def)
qed

lemma queue_same:
  "cs_q (on_subj a f s) = cs_q s" "cs_qbeg (on_subj a f s) = cs_qbeg s" "cs_qsize (on_subj a f s) = cs_qsize s"
  "cs_q (put_subj a si s) = cs_q s" "cs_qbeg (put_subj a si s) = cs_qbeg s" "cs_qsize (put_subj a si s) = cs_qsize s"
  "cs_q (snd (new_subj tid si s)) = cs_q s" "cs_qbeg (snd (new_subj tid si s)) = cs_qbeg s" "cs_qsize (snd (new_subj tid si s)) = cs_qsize s"
  by (simp_all add: on_subj_def put_subj_def new_subj_def split: option.split)

lemma serves_cur_ev [serves_intros]: "serves (cur_ev a idx)"
  by (auto simp: serves_def cur_ev_def split: option.split)

lemma serves_set_ev [serves_intros]: "serves (set_ev a idx f)"
  unfolding set_ev_def by (intro serves_intros serves_upd) (simp add: queue_same)

lemma serves_new_ev: "serves (\<lambda>s. Some (Fine (newEvInfo s)))"
  by (rule serves_Fine) (simp add: newEvInfo_def split: list.split)

lemma serves_push_ev [serves_intros]: "serves (push_ev a f)"
  unfolding push_ev_def
  by (intro serves_intros serves_upd serves_new_ev leaves_intros) (simp add: queue_same)

lemma serves_enq_at [serves_intros]: "serves (enq_at e a idx)"
  unfolding enq_at_def by (intro serves_intros serves_upd) (simp add: queue_same)

lemma serves_getSubj [serves_intros]: "serves (\<lambda>s. Some (Fine (getSubj tid pid ts uid gid s)))"
  by (rule serves_Fine) (simp add: getSubj_def queue_same split: option.split)

lemma serves_get_subject [serves_intros]: "serves (get_subject h)"
  unfolding get_subject_def [abs_def] by (rule serves_getSubj)

lemma serves_match_event [serves_intros]: "serves (match_event e a sc sn st)"
proof -
  have "serves (\<lambda>s. case best_matching_event (sj_curEv si) sc sn st (cs_curtime s) of (idx, evs, expired) \<Rightarrow>
         rdo (upd (put_subj a (si\<lparr>sj_curEv := evs\<rparr>))) (rdo (run_tasks e [Expired expired]) (rret idx)) s)" for si
    by (rule serves_triple) (intro serves_intros serves_upd, simp add: queue_same)
  then show ?thesis unfolding match_event_def by (intro serves_intros leaves_intros)
qed

lemma serves_preOp [serves_intros]: "serves (preOp e h)"
  unfolding preOp_def by (intro serves_intros)

lemma serves_nfailed [serves_intros]: "serves (upd (update_nfailed rv))"
  by (rule serves_upd) (simp add: update_nfailed_def)

lemma serves_prePostOp [serves_intros]: "serves (prePostOp h rv)"
  unfolding prePostOp_def by (intro serves_intros)

lemma serves_postOp [serves_intros]: "serves (postOp e h rv)"
proof -
  have *: "serves (\<lambda>s. case idx of
        None \<Rightarrow>
          if inStartUp s then rret None s
          else rbind (push_ev a (\<lambda>_. ev_start h a EXIT_SEEN rv ev_zero)) (\<lambda>idx. rret (Some (a, idx))) s
      | Some idx \<Rightarrow>
          rdo (set_ev a idx (\<lambda>ev. ev\<lparr>ev_status := BOTH_SEEN, ev_arg3 := rv\<rparr>)) (rret (Some (a, idx))) s)" for a idx
    by (cases idx) (auto intro!: serves_intros serves_cond)
  show ?thesis unfolding postOp_def by (intro serves_intros serves_cond *)
qed

lemma serves_set_ids [serves_intros]: "serves (set_ids a idx uid gid)"
  unfolding set_ids_def by (intro serves_intros serves_upd) (simp add: queue_same)

lemma copyargv_kept:
  assumes "copyargv ts s = (x, s')"
  shows "queue_kept s s'"
proof -
  obtain js s1 where c: "create_all ts s = (js, s1)" by fastforce
  have "queue_kept s1 s'" using assms c by (intro queue_kept_fields) (auto simp: copyargv_def)
  then show ?thesis using create_all_kept [OF c] queue_kept_trans by blast
qed

lemma serves_mk_name [serves_intros]: "serves (mk_name t)"
  unfolding mk_name_def by (rule serves_rlift) (rule leaves_create_name)

lemma serves_mk_argv [serves_intros]: "serves (mk_argv ts)"
  unfolding mk_argv_def [abs_def] by (rule serves_kept) (rule copyargv_kept)

lemma serves_mk_ep [serves_intros]: "serves (mk_ep e sa)"
  unfolding mk_ep_def [abs_def] getEp_def by (rule serves_kept) (rule create_kept)

lemma serves_fills [serves_intros]: "serves (fill_name0 t f)" "serves (fill_ep e sa g)" "serves (fill_names2 t t' g)"
  unfolding fill_name0_def fill_ep_def fill_names2_def by (intro serves_intros)+

lemma serves_complete [serves_intros]: "serves fill \<Longrightarrow> serves (complete e h rv fill)"
  unfolding complete_def by (intro serves_intros)

lemma serves_entry [serves_intros]: "serves fill \<Longrightarrow> serves (entry e h fill)"
  unfolding entry_def enq_if_both_def by (intro serves_intros)

lemma serves_ent_exit: "serves (ent_exit e h code)"
  unfolding ent_exit_def by (intro serves_intros leaves_intros; simp)

lemma serves_exits: "serves (sc_exit e h rv)" "serves (exec_exit e h r uid gid)"
  unfolding sc_exit_def exec_exit_def enq_if_both_def by (intro serves_intros)+

lemma serves_new_thread: "serves (new_thread e h prsi)"
  by (cases "subj_thread (ce_junk e) (eh_tid h) prsi (eh_ts h)")
    (auto simp: serves_def new_thread_def queue_inv_def new_subj_def)

lemma serves_cloning_thread [serves_intros]: "serves (cloning_thread e h uid gid)"
proof -
  have "serves (\<lambda>s. if b then rbind (\<lambda>s. Some (Fine (getSubj p p ts u g s))) (\<lambda>pa.
       rbind (rlift (get_subj pa)) (new_thread e h)) s else Some (Fine (getSubj t' p' ts u g s)))" for b p ts u g t' p'
    by (cases b) (auto intro!: serves_intros leaves_intros serves_new_thread)
  then show ?thesis
    unfolding cloning_thread_def [abs_def] by (intro serves_lookup serves_intros)
qed

lemma serves_clone_parent [serves_intros]: "serves (clone_parent e h parent_tid rv uid gid)"
  unfolding clone_parent_def by (intro serves_intros serves_upd) simp

lemma serves_clone_finish [serves_intros]: "serves (clone_finish e h a idx childtid rv uid gid b)"
  unfolding clone_finish_def clone_child_def Let_def
  by (intro serves_intros serves_upd leaves_intros) (simp add: queue_same)

lemma serves_clone_event [serves_intros]: "serves (clone_event e h a rv b)"
  unfolding clone_event_def by (intro serves_intros serves_cond serves_upd) simp

lemma serves_clone_record [serves_intros]: "serves (clone_record e h childtid rv uid gid b a)"
  unfolding clone_record_def by (intro serves_intros)

lemma serves_not_orphan [serves_intros]: "serves (not_orphan tid)"
proof (rule servesI)
  fix s assume inv: "queue_inv s"
  have "serves (rlift (set_subj c (\<lambda>si. si\<lparr>sj_orphan := False\<rparr>)))" for c by (intro serves_intros leaves_intros) simp
  then show "\<exists>r. not_orphan tid s = Some r \<and> (\<forall>x s'. r = Fine (x, s') \<longrightarrow> queue_inv s')"
    using inv by (cases "cs_procMap s tid") (auto simp: not_orphan_def rret_def serves_def)
qed

lemma serves_at: "serves f \<Longrightarrow> queue_inv s \<Longrightarrow> \<exists>r. f s = Some r \<and> (\<forall>x s'. r = Fine (x, s') \<longrightarrow> queue_inv s')"
  by (simp add: serves_def)

lemma serves_clone_exit: "serves (clone_exit e h parent_tid rv uid gid)"
proof (rule servesI)
  fix s assume inv: "queue_inv s"
  have fails: "serves (rdo (upd (\<lambda>s. s\<lparr>cs_nfailed := cs_nfailed s + 1\<rparr>))
         (case p of None \<Rightarrow> rret () | Some a \<Rightarrow> clone_record e h c rv uid gid d a))" for p c d
    by (intro serves_intros serves_upd) simp
  have succ: "serves (rbind (clone_parent e h parent_tid rv uid gid) (clone_record e h c rv uid gid d))" for c d
    by (intro serves_intros)
  have rest: "serves (\<lambda>s. if is_err (scast rv)
      then rdo (upd (\<lambda>s. s\<lparr>cs_nfailed := cs_nfailed s + 1\<rparr>))
             (case cs_procMap s p of None \<Rightarrow> rret () | Some a \<Rightarrow> clone_record e h c rv uid gid d a) s
      else rbind (clone_parent e h parent_tid rv uid gid) (clone_record e h c rv uid gid d) s)" for p c d
    using serves_at [OF fails] serves_at [OF succ] by (auto intro: servesI)
  show "\<exists>r. clone_exit e h parent_tid rv uid gid s = Some r \<and> (\<forall>x s'. r = Fine (x, s') \<longrightarrow> queue_inv s')"
    unfolding clone_exit_def Let_def
    by (rule serves_at [OF _ inv]) (intro serves_intros rest)
qed

lemmas method_defs =
  accRcvfPeer_def cons_bind_def chdir_def fchdir_def chmodat_def fchmod_def chownat_def fchown_def ent_clone_def
  cons_close_def cons_connect_def cons_dup_def ent_execveat_def init_module_def finit_module_def ent_kill_def
  linkat_def symlinkat_def mkdirat_def mknodat_def mmapex_def mount_def mprotect_def openat_def pipe_def ent_ptrace_def
  cons_read_def renameat_def rmdir_def sendto_def setgid_def setuid_def vmsplice_def cons_truncate_def ftruncate_def
  umount_def unlinkat_def cons_write_def

lemma serves_consume [serves_intros]: "serves (consume e x)"
proof (cases x)
  case (Cur_time ts)
  then show ?thesis by (auto intro: serves_upd)
next
  case (Call h c)
  show ?thesis unfolding Call
    by (cases c; simp only: consume.simps consumer_call.case method_defs;
        intro serves_intros serves_ent_exit serves_exits serves_clone_exit)
qed

lemma serves_consume_all [serves_intros]: "serves (consume_all e xs)"
  by (induction xs) (auto intro: serves_intros)

section \<open>The end of the capture\<close>

text \<open>A run that ends with emptying the queue leaves nothing in it.\<close>

definition empties :: "qtask list \<Rightarrow> cstate \<Rightarrow> cstate outcome \<Rightarrow> bool" where
  "empties us s r \<longleftrightarrow> (us = [] \<longrightarrow> r = Fine s) \<and> (\<forall>ts s'. us = ts @ [DqAndDo True] \<longrightarrow> r = Fine s' \<longrightarrow> cs_qsize s' = 0)"

lemma run_empties:
  assumes "run e (ts @ [DqAndDo True]) s = Some (Fine s')"
  shows "cs_qsize s' = 0"
proof -
  have "empties us s r" if "run e us s = Some r" for us s r
  proof (rule run.raw_induct [where P = "\<lambda>_. empties", OF _ that])
    fix f e us s r
    assume hyp: "\<And>e us s r. f e us s = Some r \<Longrightarrow> empties us s r"
      and body: "(case us of [] \<Rightarrow> Some (Fine s) | t # ts \<Rightarrow>
        (case step e t s of Crash \<Rightarrow> Some Crash | Fine (ts', s') \<Rightarrow> f e (ts' @ ts) s')) = Some r"
    show "empties us s r"
    proof (cases us)
      case Nil
      then show ?thesis using body by (auto simp: empties_def)
    next
      case (Cons t us')
      show ?thesis unfolding empties_def
      proof (intro conjI allI impI)
        fix ts s' assume us: "us = ts @ [DqAndDo True]" and r: "r = Fine s'"
        obtain ts1 s1 where st: "step e t s = Fine (ts1, s1)" and f: "f e (ts1 @ us') s1 = Some r"
          using body Cons r by (auto split: outcome.splits)
        note IH = hyp [OF f, unfolded empties_def]
        show "cs_qsize s' = 0"
        proof (cases ts)
          case Nil
          then have t: "t = DqAndDo True" "us' = []" using us Cons by auto
          then have "dqAndDo True s = (ts1, s1)" using st by simp
          then have "ts1 = [] \<and> cs_qsize s1 = 0 \<or> (\<exists>us. ts1 = us @ [DqAndDo True])"
            by (auto simp: dqAndDo_def split: if_splits option.splits)
          then show ?thesis using IH r t by auto
        next
          case (Cons t' ts')
          then have "ts1 @ us' = (ts1 @ ts') @ [DqAndDo True]" using us \<open>us = t # us'\<close> by auto
          then show ?thesis using IH r by blast
        qed
      qed (use Cons in simp)
    qed
  qed
  then show ?thesis using assms unfolding empties_def by blast
qed

section \<open>Properties\<close>

lemma start_inv: "consumer_start e = Fine s \<Longrightarrow> queue_inv s"
proof -
  assume "consumer_start e = Fine s"
  then obtain x s1 where "existing_dirs e 0 (Some (ascii ''/'')) (Some (ascii ''/initd'')) 1657825670000000000
              (snd (new_subj initd init_subj empty_state)) = Fine (x, s1)" and s: "s = s1\<lparr>cs_calls := []\<rparr>"
    by (auto simp: consumer_start_def obind_Fine)
  then have "queue_kept (snd (new_subj initd init_subj empty_state)) s1" using leavesD [OF leaves_existing_dirs] by blast
  then have "queue_inv s1" using sample_queue_inv by (auto simp: sample_consumer_def intro: queue_kept_inv)
  then show ?thesis by (simp add: s queue_inv_def)
qed

lemma run_to_end:
  assumes inv: "queue_inv s"
  shows "\<exists>r. rdo (consume_all e xs) (finalize e) s = Some r \<and>
    (case r of Crash \<Rightarrow> True | Fine (_, s') \<Rightarrow> queue_inv s' \<and> cs_qsize s' = 0 \<and> (\<forall>i. cs_q s' i = None))"
proof -
  have "serves (rdo (consume_all e xs) (finalize e))" unfolding finalize_def by (intro serves_intros)
  then obtain r where r: "rdo (consume_all e xs) (finalize e) s = Some r" "\<forall>x s'. r = Fine (x, s') \<longrightarrow> queue_inv s'"
    using serves_at [OF _ inv] by blast
  have "queue_inv s' \<and> cs_qsize s' = 0 \<and> (\<forall>i. cs_q s' i = None)" if fine: "r = Fine (x, s')" for x s'
  proof -
    obtain s1 where "run e [DqAndDo True] s1 = Some (Fine s')"
      using r(1) fine by (auto simp: rdo_def rbind_def finalize_def run_tasks_def split: option.splits outcome.splits prod.splits)
    then have z: "cs_qsize s' = 0" using run_empties [of e "[]" s1 s'] by simp
    moreover have inv': "queue_inv s'" using r(2) fine by blast
    ultimately have "occupied (cs_q s') = {}" using queue_inv_finite [OF inv'] by (simp add: queue_inv_def)
    then show ?thesis using inv' z by (auto simp: occupied_def)
  qed
  then show ?thesis using r(1) by (cases r) (auto split: prod.split)
qed

text \<open>
  (C4) The consumer gets through every capture: whatever sequence of calls the parser makes, with
  whatever times in between, every method of the consumer returns, and the queue is
  consistent after each; when the parser is done, \<open>finalize\<close> executes all that is left and the queue is
  empty. Nothing else ends the run but an access to a deleted subject or through a null pointer, or an
  \<open>assert_abort\<close> of the code.
\<close>
theorem consumer_finishes:
  assumes "consumer_start e = Fine s"
  shows "\<exists>r. rdo (consume_all e xs) (finalize e) s = Some r \<and>
    (case r of Crash \<Rightarrow> True | Fine (_, s') \<Rightarrow> queue_inv s' \<and> cs_qsize s' = 0 \<and> (\<forall>i. cs_q s' i = None))"
  by (rule run_to_end) (rule start_inv [OF assms])

definition sample_hdr :: "u8 \<Rightarrow> u16 \<Rightarrow> event_hdr" where
  "sample_hdr sc sn = \<lparr>eh_sc = sc, eh_sn = sn, eh_ts = 1000, eh_tid = 7, eh_pid = 7\<rparr>"

theorem consumer_finishes_witness:
  "\<forall>e. \<exists>s r. consumer_start e = Fine s
    \<and> rdo (consume_all e [Call (sample_hdr READ_EX 3) (C_read 0 7 9), Cur_time 2000, Call (sample_hdr EXIT_EN 4) (C_ent_exit 0)]) (finalize e) s = Some r
    \<and> (case r of Crash \<Rightarrow> True | Fine (_, s') \<Rightarrow> queue_inv s' \<and> cs_qsize s' = 0 \<and> (\<forall>i. cs_q s' i = None))"
proof
  fix e
  obtain s where s: "consumer_start e = Fine s" using consumer_start_ok by blast
  show "\<exists>s r. consumer_start e = Fine s
    \<and> rdo (consume_all e [Call (sample_hdr READ_EX 3) (C_read 0 7 9), Cur_time 2000, Call (sample_hdr EXIT_EN 4) (C_ent_exit 0)]) (finalize e) s = Some r
    \<and> (case r of Crash \<Rightarrow> True | Fine (_, s') \<Rightarrow> queue_inv s' \<and> cs_qsize s' = 0 \<and> (\<forall>i. cs_q s' i = None))"
    using s consumer_finishes [OF s] by blast
qed

end
