(* ===== verification/Consumer_Names.thy ===== *)
theory Consumer_Names
  imports Consumer_Serve
begin

text \<open>
  What the consumer remembers of an identifier: once a name is known for it, the name stays until an
  event is executed that gives the identifier another name. The collection \<open>ckeeps_intros\<close> has a rule
  for every function of the execution, \<open>rkeeps_intros\<close> one for every function of the methods.
\<close>

section \<open>The name of an identifier\<close>

text \<open>Every object is listed under its name, and new objects do not take the address of a listed one.\<close>

definition well_named :: "cstate \<Rightarrow> bool" where
  "well_named s \<longleftrightarrow> (\<forall>n p. cs_nm2oi s n = Some p \<longrightarrow> ob_nm (cs_objs s p) = n \<and> p < cs_nobj s)"

definition named :: "u64 \<Rightarrow> u32 \<Rightarrow> cstr \<Rightarrow> cstate \<Rightarrow> bool" where
  "named i n t s \<longleftrightarrow> well_named s \<and> cs_id2nm s i = Some n \<and> n \<noteq> nullstr \<and> unat n < length (cs_strtab s) \<and> str n s = t"

definition kept_name :: "u64 \<Rightarrow> cstate \<Rightarrow> cstate \<Rightarrow> bool" where
  "kept_name i s s' \<longleftrightarrow> (\<forall>n t. named i n t s \<longrightarrow> named i n t s')"

lemma kept_name_refl: "kept_name i s s"
  by (simp add: kept_name_def)

lemma kept_name_trans: "kept_name i s s' \<Longrightarrow> kept_name i s' s'' \<Longrightarrow> kept_name i s s''"
  by (simp add: kept_name_def)

lemma kept_name_fields:
  "cs_nm2oi s' = cs_nm2oi s \<Longrightarrow> cs_objs s' = cs_objs s \<Longrightarrow> cs_nobj s' = cs_nobj s \<Longrightarrow> cs_id2nm s' = cs_id2nm s
    \<Longrightarrow> cs_strtab s' = cs_strtab s \<Longrightarrow> kept_name i s s'"
  by (simp add: kept_name_def named_def well_named_def str_def)

lemma kept_name_strtab:
  assumes "cs_nm2oi s' = cs_nm2oi s" "cs_objs s' = cs_objs s" "cs_nobj s' = cs_nobj s" "cs_id2nm s' = cs_id2nm s"
    "cs_strtab s' = cs_strtab s @ ts"
  shows "kept_name i s s'"
  unfolding kept_name_def
proof (intro allI impI)
  fix n t assume "named i n t s"
  then show "named i n t s'" using assms by (clarsimp simp: named_def well_named_def str_def nth_append)
qed

lemma create_strtab: "create t s = (n, s') \<Longrightarrow> \<exists>ts. s' = s\<lparr>cs_strtab := cs_strtab s @ ts\<rparr>"
  by (auto simp: create_def split: option.splits intro: exI [of _ "[]"])

lemma create_all_strtab: "create_all us s = (ns, s') \<Longrightarrow> \<exists>ts. s' = s\<lparr>cs_strtab := cs_strtab s @ ts\<rparr>"
proof (induction us arbitrary: s ns s')
  case Nil
  then show ?case by (auto intro: exI [of _ "[]"])
next
  case (Cons u us)
  obtain n s1 where c: "create u s = (n, s1)" by fastforce
  obtain ms s2 where r: "create_all us s1 = (ms, s2)" by fastforce
  obtain ts us' where "s1 = s\<lparr>cs_strtab := cs_strtab s @ ts\<rparr>" "s2 = s1\<lparr>cs_strtab := cs_strtab s1 @ us'\<rparr>"
    using create_strtab [OF c] Cons.IH [OF r] by blast
  then show ?case using Cons.prems c r by auto
qed

lemma new_obj_well_named: "well_named s \<Longrightarrow> well_named (snd (new_obj e si nm ts opt i s))"
  by (auto simp: well_named_def new_obj_def Let_def less_Suc_eq split: prod.split)

lemma new_obj_kept_name: "kept_name i s (snd (new_obj e si nm ts opt i' s))"
  unfolding kept_name_def
proof (intro allI impI)
  fix n t assume "named i n t s"
  then show "named i n t (snd (new_obj e si nm ts opt i' s))"
    by (auto simp: named_def well_named_def str_def new_obj_def Let_def less_Suc_eq split: prod.split)
qed

text \<open>An object is looked up under an identifier: the identifier gets the name.\<close>

lemma nm2Obj_kept:
  assumes "nm2Obj e a nm ts opt i' s = Fine (p, s')" "i' \<noteq> 0 \<and> i' = i \<longrightarrow> (\<forall>n t. named i n t s \<longrightarrow> n = nm)"
  shows "kept_name i s s' \<and> cs_done s' = cs_done s"
proof -
  obtain si where si: "cs_subj s a = Some si" using assms(1) by (auto simp: nm2Obj_def cbind_def get_subj_def split: option.splits)
  obtain s1 where s1: "s' = (if i' \<noteq> 0 then s1\<lparr>cs_id2nm := (cs_id2nm s1)(i' \<mapsto> nm)\<rparr> else s1)"
    "s1 = s \<or> s1 = snd (new_obj e si nm ts opt i' s)"
    using assms(1) by (auto simp: nm2Obj_def cbind_def get_subj_def si Let_def split: option.splits prod.splits if_splits)
  have k: "kept_name i s s1" using s1(2) new_obj_kept_name kept_name_refl by auto
  have d: "cs_done s1 = cs_done s" using s1(2) by (auto simp: new_obj_def Let_def split: prod.split)
  have "named i n t s'" if "named i n t s" for n t
  proof -
    have "named i n t s1" using k that by (simp add: kept_name_def)
    moreover have "i' = i \<and> i' \<noteq> 0 \<longrightarrow> n = nm" using assms(2) that by blast
    ultimately show ?thesis by (auto simp: s1(1) named_def well_named_def str_def)
  qed
  then show ?thesis using d by (simp add: kept_name_def s1(1))
qed

section \<open>Functions that keep the name\<close>

named_theorems ckeeps_intros

definition ckeeps :: "u64 \<Rightarrow> 'a consumer \<Rightarrow> bool" where
  "ckeeps i f \<longleftrightarrow> (\<forall>s x s'. f s = Fine (x, s') \<longrightarrow> kept_name i s s' \<and> cs_done s' = cs_done s)"

lemma ckeepsI: "(\<And>s x s'. f s = Fine (x, s') \<Longrightarrow> kept_name i s s' \<and> cs_done s' = cs_done s) \<Longrightarrow> ckeeps i f"
  by (simp add: ckeeps_def)

lemma ckeepsD: "ckeeps i f \<Longrightarrow> f s = Fine (x, s') \<Longrightarrow> kept_name i s s' \<and> cs_done s' = cs_done s"
  by (simp add: ckeeps_def)

lemma ckeeps_bind [ckeeps_intros]:
  assumes "ckeeps i f" "\<And>x. ckeeps i (g x)"
  shows "ckeeps i (cbind f g)"
proof (rule ckeepsI)
  fix s y s' assume "cbind f g s = Fine (y, s')"
  then obtain x s1 where "f s = Fine (x, s1)" "g x s1 = Fine (y, s')" by (auto simp: cbind_def obind_Fine)
  then show "kept_name i s s' \<and> cs_done s' = cs_done s"
    using ckeepsD [OF assms(1)] ckeepsD [OF assms(2)] kept_name_trans by metis
qed

lemma ckeeps_cdo [ckeeps_intros]: "ckeeps i f \<Longrightarrow> ckeeps i g \<Longrightarrow> ckeeps i (cdo f g)"
  unfolding cdo_def by (rule ckeeps_bind)

lemma ckeeps_if [ckeeps_intros]: "ckeeps i f \<Longrightarrow> ckeeps i g \<Longrightarrow> ckeeps i (if b then f else g)"
  by simp

lemma ckeeps_fun: "(\<And>s0. ckeeps i (f s0)) \<Longrightarrow> ckeeps i (\<lambda>s. f s s)"
  by (simp add: ckeeps_def)

lemma ckeeps_cret [ckeeps_intros]: "ckeeps i (cret x)"
  by (simp add: ckeeps_def cret_def kept_name_refl)

lemma ckeeps_subj [ckeeps_intros]: "ckeeps i (get_subj a)" "ckeeps i (get_obj p)" "ckeeps i (tell_clients k)" "ckeeps i (set_subj a f)"
  by (auto simp: ckeeps_def get_subj_def get_obj_def tell_clients_def set_subj_def cbind_def put_subj_def kept_name_refl
      intro: kept_name_fields split: option.splits)

lemma ckeeps_set_obj [ckeeps_intros]: "(\<And>x. ob_nm (f x) = ob_nm x) \<Longrightarrow> ckeeps i (set_obj p f)"
  by (auto simp: ckeeps_def set_obj_def kept_name_def named_def well_named_def str_def)

lemma ckeeps_create_name [ckeeps_intros]: "ckeeps i (create_name t)"
  by (auto simp: ckeeps_def create_name_def kept_name_refl intro: kept_name_strtab dest!: create_strtab split: option.splits)

lemma ckeeps_mkargv [ckeeps_intros]: "ckeeps i (mkargv bs)"
  by (auto simp: ckeeps_def mkargv_def intro: kept_name_strtab dest!: create_all_strtab split: prod.splits)

lemma ckeeps_nm2Obj [ckeeps_intros]: "i' = 0 \<or> i' \<noteq> i \<Longrightarrow> ckeeps i (nm2Obj e a nm ts opt i')"
  by (rule ckeepsI) (rule nm2Obj_kept, auto)

lemma id_name_kept:
  assumes "id_name e a fd i' opt s = Fine (nm, s')"
  shows "kept_name i s s' \<and> cs_done s' = cs_done s \<and> (i' = i \<longrightarrow> (\<forall>n t. named i n t s \<longrightarrow> n = nm))"
proof (cases "\<exists>n. cs_id2nm s i' = Some n \<and> n \<noteq> nullstr")
  case True
  then show ?thesis using assms by (auto simp: id_name_def named_def kept_name_refl)
next
  case False
  let ?m = "cbind (get_subj a) (\<lambda>si.
     cbind (create_name (if no_opt opt = QUERY_OS then ce_fdlink e (sj_tid si) fd else None)) (\<lambda>nm.
     if nm = nullstr then create_name (Some (createObjNmAsStr i')) else cret nm))"
  obtain s1 where m: "?m s = Fine (nm, s1)" "s' = (if i' \<noteq> 0 then s1\<lparr>cs_id2nm := (cs_id2nm s1)(i' \<mapsto> nm)\<rparr> else s1)"
    using assms False by (auto simp: id_name_def Let_def cbind_def obind_Fine split: option.splits)
  have m': "ckeeps i ?m" by (intro ckeeps_intros)
  have k: "kept_name i s s1" "cs_done s1 = cs_done s" using ckeepsD [OF m' m(1)] by blast+
  have no: "\<not> named i n t s" if "i' = i" for n t using False that by (auto simp: named_def)
  have "named i n t s'" if "named i n t s" for n t
  proof -
    have "i' \<noteq> i" "named i n t s1" using that k no by (auto simp: kept_name_def)
    then show ?thesis by (auto simp: m(2) named_def well_named_def str_def)
  qed
  then show ?thesis using k no by (auto simp: kept_name_def m(2))
qed

lemma ckeeps_resolveId [ckeeps_intros]: "ckeeps i (resolveId e a fd i' ts opt)"
proof (rule ckeepsI)
  fix s p s' assume "resolveId e a fd i' ts opt s = Fine (p, s')"
  then obtain nm s1 opt' where n: "id_name e a fd i' opt' s = Fine (nm, s1)" "nm2Obj e a nm ts opt' i' s1 = Fine (p, s')"
    by (auto simp: resolveId_def Let_def cbind_def obind_Fine)
  note k = id_name_kept [OF n(1), of i]
  show "kept_name i s s' \<and> cs_done s' = cs_done s"
  proof (cases "\<exists>n t. named i n t s")
    case True
    then obtain n t where nt: "named i n t s" by blast
    then have "named i n t s1" using k by (simp add: kept_name_def)
    then have "i' = i \<longrightarrow> (\<forall>n t. named i n t s1 \<longrightarrow> n = nm)" using k nt by (auto simp: named_def)
    then show ?thesis using nm2Obj_kept [OF n(2), of i] k kept_name_trans by metis
  next
    case False
    then have "kept_name i s s'" by (simp add: kept_name_def)
    moreover have o': "ckeeps (i' + 1) (nm2Obj e a nm ts opt' i')" by (intro ckeeps_intros) simp
    ultimately show ?thesis using ckeepsD [OF o' n(2)] k by metis
  qed
qed


lemma ckeeps_dir_name [ckeeps_intros]: "ckeeps i (dir_name e a at_fd at_id ts opt)"
proof -
  have *: "ckeeps i (\<lambda>s. case sj_cwd si of None \<Rightarrow> Crash | Some cwd \<Rightarrow> Fine (ob_nm cwd, s))" for si
    by (auto simp: ckeeps_def kept_name_refl split: option.splits)
  show ?thesis unfolding dir_name_def by (intro ckeeps_intros *)
qed

lemma ckeeps_fullpath [ckeeps_intros]: "ckeeps i (fullpath e a at_fd at_id fn ts opt)"
proof -
  have name: "ckeeps i (\<lambda>s. create_name (t s) s)" for t
    by (rule ckeeps_fun [where f = "\<lambda>s. create_name (t s)"]) (rule ckeeps_create_name)
  have *: "ckeeps i (cbind (dir_name e a at_fd at_id ts opt) (\<lambda>dir s. create_name (Some (join_dir (str dir s) nm)) s))" for nm
    by (intro ckeeps_intros name)
  show ?thesis
    by (rule ckeepsI) (use ckeepsD [OF *] in \<open>auto simp: fullpath_def Let_def kept_name_refl split: if_splits\<close>)
qed

lemma ckeeps_nm2ObjAt [ckeeps_intros]: "i' = 0 \<or> i' \<noteq> i \<Longrightarrow> ckeeps i (nm2ObjAt e a at_fd at_id nm ts opt i')"
  unfolding nm2ObjAt_def by (intro ckeeps_intros)

lemma ckeeps_createSocket [ckeeps_intros]: "i' = 0 \<or> i' \<noteq> i \<Longrightarrow> ckeeps i (createSocket e a i' nm ts)"
  unfolding createSocket_def by (intro ckeeps_intros)

lemma ckeeps_dirs [ckeeps_intros]: "ckeeps i (setcwd a p)" "ckeeps i (setexe a p)" "ckeeps i (existing_dirs e pa cwd exe ts)"
  unfolding setcwd_def setexe_def [abs_def] existing_dirs_def by (intro ckeeps_intros; simp)+

lemma ckeeps_existing_args [ckeeps_intros]: "ckeeps i (existing_args pa argv env b)"
proof (cases argv)
  case (Some x)
  then show ?thesis by (cases env) (auto simp: existing_args_def intro!: ckeeps_intros)
qed (simp add: existing_args_def ckeeps_cret)

lemma ckeeps_give_id [ckeeps_intros]: "ckeeps i (give_id pa ts)"
proof -
  have *: "ckeeps i (\<lambda>s. set_subj pa (\<lambda>si. si\<lparr>sj_orphan := True, sj_id := of_nat (cs_nsubj s)\<rparr>) s)"
    by (rule ckeeps_fun [where f = "\<lambda>s. set_subj pa (\<lambda>si. si\<lparr>sj_orphan := True, sj_id := of_nat (cs_nsubj s)\<rparr>)"])
      (rule ckeeps_intros)
  show ?thesis unfolding give_id_def by (intro ckeeps_intros *)
qed

lemma kept_name_getSubj: "kept_name i s (snd (getSubj tid pid ts uid gid s)) \<and> cs_done (snd (getSubj tid pid ts uid gid s)) = cs_done s"
  by (auto simp: getSubj_def new_subj_def kept_name_refl intro: kept_name_fields split: option.split)

lemma ckeeps_getSubj [ckeeps_intros]: "ckeeps i (\<lambda>s. Fine (getSubj tid pid ts uid gid s))"
  using kept_name_getSubj by (auto simp: ckeeps_def) (metis snd_conv)+

lemma ckeeps_mkProperThread [ckeeps_intros]: "ckeeps i (mkProperThread e tid pa ts)"
  by (auto simp: ckeeps_def mkProperThread_def cbind_def get_subj_def put_subj_def new_subj_def
      intro: kept_name_fields split: option.splits if_splits)

lemma ckeeps_createExisting [ckeeps_intros]: "ckeeps i (createExistingSubj e tid pid ts)"
  unfolding createExistingSubj_def Let_def by (cases "proc_ids e tid pid") (simp, intro ckeeps_intros)

lemma ckeeps_say [ckeeps_intros]: "ckeeps i (say ev k)" "ckeeps i (say_obj ev p l)"
  unfolding say_obj_def say_def by (intro ckeeps_intros)+

lemma ckeeps_ev_objs [ckeeps_intros]:
  "ckeeps i (ev_obj e ev)" "ckeeps i (ev_obj_at e ev)" "ckeeps i (ev_path e ev)"
  "ev_id ev = 0 \<or> ev_id ev \<noteq> i \<Longrightarrow> ckeeps i (ev_socket e ev)"
  unfolding ev_socket_def ev_obj_def ev_obj_at_def ev_path_def by (intro ckeeps_intros; simp)+

section \<open>Executing events\<close>

text \<open>The events that give an identifier a name: an open that returns it, and a socket under it.\<close>

definition spares :: "u64 \<Rightarrow> evinfo \<Rightarrow> bool" where
  "spares i ev \<longleftrightarrow> \<not> (ev_code ev = OPEN_EX \<and> ev_arg3 ev = i)
     \<and> \<not> (ev_code ev \<in> {ACCEPT_EX, CONNECT_EX, GETPEER_EX, SENDTO_EX, RECVFROM_EX} \<and> ev_id ev = i)"

lemma ckeeps_do_files [ckeeps_intros]:
  "ckeeps i (dobind e ev)" "ckeeps i (dochdir e ev)" "ckeeps i (dofchdir e ev)" "ckeeps i (dochmod e ev)"
  "ckeeps i (dofchmod e ev)" "ckeeps i (dochown e ev)" "ckeeps i (dofchown e ev)" "ckeeps i (doclose ev)"
  "ckeeps i (dodup ev)" "ckeeps i (doinitmod ev)" "ckeeps i (dofinitmod e ev)" "ckeeps i (dolink e ev)"
  "ckeeps i (dosymlink e ev)" "ckeeps i (domkdir e ev)" "ckeeps i (domknod e ev)" "ckeeps i (dommap e ev)" "ckeeps i (domount e ev)"
  "ckeeps i (domprotect ev)" "ckeeps i (dopipeopen ev)" "ckeeps i (doreadwr e ev b)"
  "ckeeps i (dorename e ev)" "ckeeps i (dormdir e ev)" "ckeeps i (dovmsplice e ev)" "ckeeps i (dotruncate e ev)"
  "ckeeps i (doftruncate e ev)" "ckeeps i (dounlink e ev)" "ckeeps i (doumount e ev)"
  unfolding do_files_defs Let_def by (intro ckeeps_intros; simp)+

lemma ckeeps_do_names:
  "ev_arg3 ev \<noteq> i \<Longrightarrow> ckeeps i (doopen e ev)"
  "ev_id ev \<noteq> i \<Longrightarrow> ckeeps i (doaccept e ev)" "ev_id ev \<noteq> i \<Longrightarrow> ckeeps i (doconnect e ev)" "ev_id ev \<noteq> i \<Longrightarrow> ckeeps i (dogetpeer e ev)"
  "ev_id ev \<noteq> i \<Longrightarrow> ckeeps i (dosendto e ev)" "ev_id ev \<noteq> i \<Longrightarrow> ckeeps i (dorecvfrom e ev)"
  unfolding do_files_defs Let_def by (intro ckeeps_intros; simp)+

lemma ckeeps_doclone: "ckeeps i (doclone ev)"
proof (rule ckeepsI)
  fix s x s' assume c: "doclone ev s = Fine (x, s')"
  have say: "kept_name i s1 s2 \<and> cs_done s2 = cs_done s1" if "say ev k s1 = Fine (y, s2)" for k s1 y s2
    using ckeepsD [OF ckeeps_say(1) that] .
  have fields: "kept_name i s (snd (new_subj tid t s))" "kept_name i s ((put_subj a t s)\<lparr>cs_nsubj := n\<rparr>)"
    "cs_done (snd (new_subj tid t s)) = cs_done s" "cs_done (put_subj a t s) = cs_done s" for tid t a n
    by (auto simp: new_subj_def put_subj_def intro: kept_name_fields)
  show "kept_name i s s' \<and> cs_done s' = cs_done s"
    using c fields kept_name_refl
    by (auto simp: doclone_def cbind_def get_subj_def obind_Fine Let_def subj_clone_def cret_def
        dest!: say intro: kept_name_trans [OF fields(1)] kept_name_trans [OF fields(2)] split: option.splits if_splits)
qed

lemma ckeeps_do_subjects: "ckeeps i (doptrace e ev)" "ckeeps i (doexecve e ev)" "ckeeps i (dokill ev)" "ckeeps i (dosetuid ev)"
  "ckeeps i (dosetgid ev)"
proof -
  have p: "ckeeps i (\<lambda>s. case cs_procMap s tid of None \<Rightarrow> Crash | Some b \<Rightarrow> get_subj b s)" for tid
    by (auto simp: ckeeps_def get_subj_def kept_name_refl split: option.splits)
  have x: "ckeeps i (\<lambda>s. set_subj a (\<lambda>si. si\<lparr>sj_args := f s, sj_envs := g s\<rparr>) s)" for a f g
    by (rule ckeeps_fun [where f = "\<lambda>s. set_subj a (\<lambda>si. si\<lparr>sj_args := f s, sj_envs := g s\<rparr>)"]) (rule ckeeps_intros)
  show "ckeeps i (doptrace e ev)" "ckeeps i (doexecve e ev)" "ckeeps i (dokill ev)" "ckeeps i (dosetuid ev)" "ckeeps i (dosetgid ev)"
    unfolding doptrace_def doexecve_def dokill_def dosetuid_def dosetgid_def Let_def by (intro ckeeps_intros p x; simp)+
qed

lemma ckeeps_do_syscall:
  assumes "spares i ev"
  shows "ckeeps i (do_syscall e ev)"
proof -
  have c: "ckeeps i (if b then f else g)" if "b \<Longrightarrow> ckeeps i f" "\<not> b \<Longrightarrow> ckeeps i g" for b and f g :: "unit consumer"
    using that by simp
  note s = assms [unfolded spares_def]
  show ?thesis
    unfolding do_syscall_def Let_def
    by (intro c) (rule ckeeps_do_files ckeeps_do_subjects ckeeps_doclone ckeeps_cret | rule ckeeps_do_names, use s in simp)+
qed


lemma ckeeps_known_subject: "ckeeps i (known_subject e ev)"
proof -
  have *: "ckeeps i (\<lambda>s. if sj_id si = nullsiid then Crash else Fine ((), s))" for si
    by (auto simp: ckeeps_def kept_name_refl)
  show ?thesis unfolding known_subject_def by (intro ckeeps_intros *)
qed

text \<open>From one state to another, with the events executed in between.\<close>

definition keeps_unless :: "u64 \<Rightarrow> cstate \<Rightarrow> cstate \<Rightarrow> bool" where
  "keeps_unless i s s' \<longleftrightarrow> (\<exists>evs. cs_done s' = cs_done s @ evs \<and> (list_all (spares i) evs \<longrightarrow> kept_name i s s'))"

lemma keeps_unless_done: "kept_name i s s' \<Longrightarrow> cs_done s' = cs_done s \<Longrightarrow> keeps_unless i s s'"
  by (simp add: keeps_unless_def)

lemma keeps_unless_fields:
  "cs_nm2oi s' = cs_nm2oi s \<Longrightarrow> cs_objs s' = cs_objs s \<Longrightarrow> cs_nobj s' = cs_nobj s \<Longrightarrow> cs_id2nm s' = cs_id2nm s
    \<Longrightarrow> cs_strtab s' = cs_strtab s \<Longrightarrow> cs_done s' = cs_done s \<Longrightarrow> keeps_unless i s s'"
  by (rule keeps_unless_done) (rule kept_name_fields)

lemma keeps_unless_trans:
  assumes "keeps_unless i s s'" "keeps_unless i s' s''"
  shows "keeps_unless i s s''"
proof -
  obtain xs ys where "cs_done s' = cs_done s @ xs" "list_all (spares i) xs \<longrightarrow> kept_name i s s'"
    "cs_done s'' = cs_done s' @ ys" "list_all (spares i) ys \<longrightarrow> kept_name i s' s''"
    using assms by (auto simp: keeps_unless_def)
  then show ?thesis unfolding keeps_unless_def
    by (intro exI [of _ "xs @ ys"]) (auto intro: kept_name_trans)
qed

lemma third_word: "\<exists>j :: u64. x \<noteq> j \<and> y \<noteq> j"
proof (rule ccontr)
  assume "\<nexists>j. x \<noteq> j \<and> y \<noteq> j"
  then have "x = j \<or> y = j" for j by blast
  from this [of 0] this [of 1] this [of 2] show False by auto
qed

lemma procSyscall_keeps:
  assumes "procSyscall e ev s = Fine (ts, s')"
  shows "keeps_unless i s s'"
proof -
  obtain s1 where k: "known_subject e ev (out_of_seq ev s) = Fine ((), s1)" using assms by (auto simp: procSyscall_def obind_Fine)
  let ?s2 = "s1\<lparr>cs_done := cs_done s1 @ [ev]\<rparr>"
  let ?s3 = "on_subj (ev_si ev) (\<lambda>si. si\<lparr>sj_seqnum := ucast (ev_seqnum ev)\<rparr>) ?s2"
  have k1: "kept_name i s s1 \<and> cs_done s1 = cs_done s"
  proof -
    have "kept_name i s (out_of_seq ev s)" by (rule kept_name_fields) (simp_all add: out_of_seq_def)
    then show ?thesis using ckeepsD [OF ckeeps_known_subject k, of i] kept_name_trans by (auto simp: out_of_seq_def)
  qed
  have free: "kept_name i x (free_ev ev x)" for x by (rule kept_name_fields) (simp_all add: free_ev_def)
  have k2: "kept_name i s ?s2" 
    using k1 kept_name_trans [OF conjunct1 [OF k1] kept_name_fields [of ?s2 s1]] by simp
  have k3: "kept_name i ?s2 ?s3 \<and> cs_done ?s3 = cs_done ?s2"
    by (auto simp: on_subj_def put_subj_def kept_name_refl intro: kept_name_fields split: option.split)
  have "cs_done s' = cs_done s @ [ev] \<and> (spares i ev \<longrightarrow> kept_name i s s')"
  proof (cases "is_err (ev_arg3 ev) \<or> is_exit ev")
    case True
    then have "s' = free_ev ev ?s2 \<or> s' = ?s3" using assms k by (auto simp: procSyscall_def Let_def split: if_splits)
    moreover have "kept_name i s (free_ev ev ?s2)" "kept_name i s ?s3" using kept_name_trans [OF k2] k3 free by blast+
    moreover have "cs_done (free_ev ev ?s2) = cs_done s @ [ev]" "cs_done ?s3 = cs_done s @ [ev]" using k1 k3 by (simp_all add: free_ev_def)
    ultimately show ?thesis by metis
  next
    case False
    then obtain s4 where d: "do_syscall e ev ?s3 = Fine ((), s4)" "s' = free_ev ev s4"
      using assms k by (auto simp: procSyscall_def Let_def obind_Fine)
    obtain j where "ev_arg3 ev \<noteq> j" "ev_id ev \<noteq> j" using third_word by blast
    then have "spares j ev" by (simp add: spares_def)
    then have "cs_done s4 = cs_done ?s3" using ckeepsD [OF ckeeps_do_syscall d(1)] by blast
    moreover have "kept_name i ?s3 s4" if "spares i ev" using ckeepsD [OF ckeeps_do_syscall [OF that] d(1)] by simp
    moreover have "kept_name i s (free_ev ev s4)" if "kept_name i ?s3 s4"
      using kept_name_trans [OF kept_name_trans [OF kept_name_trans [OF k2 conjunct1 [OF k3]] that] free] .
    moreover have "cs_done (free_ev ev s4) = cs_done s4" by (simp add: free_ev_def)
    ultimately show ?thesis using k1 k3 unfolding d(2) by simp
  qed
  then show ?thesis unfolding keeps_unless_def by (intro exI [of _ "[ev]"]) simp
qed


lemma displace_keeps: "displace e slot oe ev s = Fine (ts, s') \<Longrightarrow> keeps_unless i s s'"
  by (auto simp: displace_def obind_Fine set_slot_def intro: keeps_unless_trans [OF procSyscall_keeps keeps_unless_fields])

lemma find_slot_keeps:
  assumes "find_slot e ev s = Fine (ts, s')"
  shows "keeps_unless i s s'"
proof (cases "probe (cs_q s) ev QSIZE 0")
  case (Empty slot j)
  then show ?thesis using assms by (auto simp: find_slot_def set_slot_def intro: keeps_unless_fields)
next
  case (Old slot oe)
  then show ?thesis using assms by (auto simp: find_slot_def intro: displace_keeps)
next
  case (Full alt)
  let ?s = "s\<lparr>cs_ncollisions := cs_ncollisions s + 1, cs_nbad := cs_nbad s + 1\<rparr>"
  have f: "keeps_unless i s ?s" by (rule keeps_unless_fields) simp_all
  show ?thesis
  proof (cases "cs_q s alt")
    case None
    then show ?thesis using assms Full by (auto simp: find_slot_def intro: keeps_unless_fields)
  next
    case (Some oe)
    then have "displace e alt oe ev ?s = Fine (ts, s') \<or> procSyscall e ev ?s = Fine (ts, s')"
      using assms Full by (simp add: find_slot_def Let_def split: if_splits)
    then show ?thesis using keeps_unless_trans [OF f] displace_keeps procSyscall_keeps by blast
  qed
qed

lemma do_enq_keeps:
  assumes "do_enq e ev s = Fine (ts, s')"
  shows "keeps_unless i s s'"
proof -
  define s1 where "s1 = (if cs_first_ts s = 0 then s\<lparr>cs_first_ts := ev_ts ev\<rparr> else s)"
  define late where "late = (qpos ev s1 > (16000 + cs_qsize s1) * QFAC \<and> cs_nsucc s1 > 5)"
  define s2 where "s2 = (if late then s1\<lparr>cs_tooLate := cs_tooLate s1 + 1\<rparr> else s1)"
  define s3 where "s3 = s2\<lparr>cs_latest_ts := max (cs_latest_ts s2) (ev_ts ev)\<rparr>"
  have "keeps_unless i s s2" "keeps_unless i s s3"
    by (rule keeps_unless_fields; simp add: s1_def s2_def s3_def)+
  moreover have "procSyscall e ev s2 = Fine (ts, s') \<or> find_slot e ev s3 = Fine (ts, s')"
    using assms unfolding do_enq_def s1_def [symmetric] Let_def late_def [symmetric] s2_def [symmetric] s3_def [symmetric]
    by (simp split: if_splits)
  ultimately show ?thesis using keeps_unless_trans procSyscall_keeps find_slot_keeps by blast
qed

lemma expire_fields:
  "expire ev s = (ev', s') \<Longrightarrow> keeps_unless i s s'"
  by (rule keeps_unless_fields) (auto simp: expire_def Let_def)

lemma expired_at_keeps:
  assumes "expired_at a idx s = Fine (ts, s')"
  shows "keeps_unless i s s'"
proof -
  have put: "keeps_unless i x (put_subj a si x)" for si x by (rule keeps_unless_fields) (simp_all add: put_subj_def)
  have "keeps_unless i s s" by (rule keeps_unless_fields) simp_all
  then show ?thesis
    using assms put by (auto simp: expired_at_def Let_def split: option.splits if_splits prod.splits
        intro: keeps_unless_trans [OF expire_fields put])
qed

lemma step_keeps:
  assumes "step e t s = Fine (ts, s')"
  shows "keeps_unless i s s'"
proof (cases t)
  case (Enq a ev)
  then show ?thesis
    using assms by (auto simp: enq_def free_ev_def put_subj_def intro!: keeps_unless_fields split: option.splits if_splits)
next
  case (DqAndDo b)
  then show ?thesis
    using assms by (auto simp: dqAndDo_def dq_def intro!: keeps_unless_fields split: option.splits if_splits prod.splits)
next
  case (DoEnq ev)
  then show ?thesis using assms by (auto intro: do_enq_keeps)
next
  case (Proc ev)
  then show ?thesis using assms by (auto intro: procSyscall_keeps)
next
  case (Expired evs)
  then show ?thesis
    using assms keeps_unless_fields [of s s i] by (cases evs) (auto split: if_splits prod.splits intro: expire_fields)
next
  case (ExpiredAt a idx)
  then show ?thesis using assms by (auto intro: expired_at_keeps)
next
  case (EndExit ev)
  then show ?thesis using assms by (auto simp: end_exit_def intro!: keeps_unless_fields split: option.splits)
next
  case (FreeEv ev)
  then show ?thesis using assms by (auto simp: free_ev_def intro!: keeps_unless_fields)
qed

lemma run_keeps: "run e ts s = Some (Fine s') \<Longrightarrow> keeps_unless i s s'"
proof -
  have "r = Fine s' \<longrightarrow> keeps_unless i s s'" if "run e us s = Some r" for us s r s'
  proof (rule run.raw_induct [where P = "\<lambda>_ us s r. \<forall>s'. r = Fine s' \<longrightarrow> keeps_unless i s s'", OF _ that, THEN spec])
    fix f e us s r
    assume hyp: "\<And>e us s r. f e us s = Some r \<Longrightarrow> \<forall>s'. r = Fine s' \<longrightarrow> keeps_unless i s s'"
      and body: "(case us of [] \<Rightarrow> Some (Fine s) | t # ts \<Rightarrow>
        (case step e t s of Crash \<Rightarrow> Some Crash | Fine (ts', s') \<Rightarrow> f e (ts' @ ts) s')) = Some r"
    show "\<forall>s'. r = Fine s' \<longrightarrow> keeps_unless i s s'"
    proof (cases us)
      case Nil
      then show ?thesis using body by (auto intro: keeps_unless_fields)
    next
      case (Cons t us')
      then show ?thesis
        using body hyp step_keeps [of e t s] keeps_unless_trans [of i s]
        by (auto split: outcome.splits prod.splits) blast
    qed
  qed
  then show "run e ts s = Some (Fine s') \<Longrightarrow> keeps_unless i s s'" by blast
qed


section \<open>Methods\<close>

named_theorems rkeeps_intros

definition rkeeps :: "u64 \<Rightarrow> 'a rconsumer \<Rightarrow> bool" where
  "rkeeps i f \<longleftrightarrow> (\<forall>s x s'. f s = Some (Fine (x, s')) \<longrightarrow> keeps_unless i s s')"

lemma rkeepsI: "(\<And>s x s'. f s = Some (Fine (x, s')) \<Longrightarrow> keeps_unless i s s') \<Longrightarrow> rkeeps i f"
  by (simp add: rkeeps_def)

lemma rkeepsD: "rkeeps i f \<Longrightarrow> f s = Some (Fine (x, s')) \<Longrightarrow> keeps_unless i s s'"
  by (simp add: rkeeps_def)

lemma rkeeps_rbind [rkeeps_intros]:
  assumes "rkeeps i f" "\<And>x. rkeeps i (g x)"
  shows "rkeeps i (rbind f g)"
proof (rule rkeepsI)
  fix s y s' assume "rbind f g s = Some (Fine (y, s'))"
  then obtain x s1 where "f s = Some (Fine (x, s1))" "g x s1 = Some (Fine (y, s'))"
    by (auto simp: rbind_def split: option.splits outcome.splits)
  then show "keeps_unless i s s'" using rkeepsD [OF assms(1)] rkeepsD [OF assms(2)] keeps_unless_trans by metis
qed

lemma rkeeps_rdo [rkeeps_intros]: "rkeeps i f \<Longrightarrow> rkeeps i g \<Longrightarrow> rkeeps i (rdo f g)"
  unfolding rdo_def by (rule rkeeps_rbind)

lemma rkeeps_rret [rkeeps_intros]: "rkeeps i (rret x)"
  by (auto simp: rkeeps_def rret_def intro: keeps_unless_fields)

lemma rkeeps_if [rkeeps_intros]: "rkeeps i f \<Longrightarrow> rkeeps i g \<Longrightarrow> rkeeps i (if b then f else g)"
  by simp

lemma rkeeps_option [rkeeps_intros]:
  "rkeeps i f \<Longrightarrow> (\<And>x. rkeeps i (g x)) \<Longrightarrow> rkeeps i (case p of None \<Rightarrow> f | Some x \<Rightarrow> g x)"
  by (cases p) auto

lemma rkeeps_pair [rkeeps_intros]: "(\<And>x y. rkeeps i (g x y)) \<Longrightarrow> rkeeps i (case p of (x, y) \<Rightarrow> g x y)"
  by (cases p) auto

lemma rkeeps_cond: "rkeeps i f \<Longrightarrow> rkeeps i g \<Longrightarrow> rkeeps i (\<lambda>s. if b s then f s else g s)"
  by (simp add: rkeeps_def)

lemma rkeeps_lookup: "rkeeps i f \<Longrightarrow> (\<And>x. rkeeps i (g x)) \<Longrightarrow> rkeeps i (\<lambda>s. case k s of None \<Rightarrow> f s | Some x \<Rightarrow> g x s)"
  by (simp add: rkeeps_def split: option.split)

lemma rkeeps_triple: "(\<And>x y z. rkeeps i (g x y z)) \<Longrightarrow> rkeeps i (\<lambda>s. case k s of (x, y, z) \<Rightarrow> g x y z s)"
  by (simp add: rkeeps_def split: prod.split)

lemma rkeeps_fun: "(\<And>s0. rkeeps i (f s0)) \<Longrightarrow> rkeeps i (\<lambda>s. f s s)"
  by (simp add: rkeeps_def)

lemma rkeeps_rlift [rkeeps_intros]: "ckeeps i f \<Longrightarrow> rkeeps i (rlift f)"
  by (auto simp: rkeeps_def rlift_def dest: ckeepsD intro: keeps_unless_done)

lemma rkeeps_upd:
  "(\<And>s. cs_nm2oi (h s) = cs_nm2oi s \<and> cs_objs (h s) = cs_objs s \<and> cs_nobj (h s) = cs_nobj s \<and> cs_id2nm (h s) = cs_id2nm s
      \<and> cs_strtab (h s) = cs_strtab s \<and> cs_done (h s) = cs_done s) \<Longrightarrow> rkeeps i (upd h)"
  by (auto simp: rkeeps_def upd_def intro: keeps_unless_fields)

lemma rkeeps_run [rkeeps_intros]: "rkeeps i (run_tasks e ts)"
  by (auto simp: rkeeps_def run_tasks_def split: option.splits outcome.splits intro: run_keeps)

lemma names_same:
  "cs_nm2oi (on_subj a f s) = cs_nm2oi s" "cs_objs (on_subj a f s) = cs_objs s" "cs_nobj (on_subj a f s) = cs_nobj s"
  "cs_id2nm (on_subj a f s) = cs_id2nm s" "cs_strtab (on_subj a f s) = cs_strtab s" "cs_done (on_subj a f s) = cs_done s"
  "cs_nm2oi (put_subj a si s) = cs_nm2oi s" "cs_objs (put_subj a si s) = cs_objs s" "cs_nobj (put_subj a si s) = cs_nobj s"
  "cs_id2nm (put_subj a si s) = cs_id2nm s" "cs_strtab (put_subj a si s) = cs_strtab s" "cs_done (put_subj a si s) = cs_done s"
  "cs_nm2oi (snd (new_subj t si s)) = cs_nm2oi s" "cs_objs (snd (new_subj t si s)) = cs_objs s" "cs_nobj (snd (new_subj t si s)) = cs_nobj s"
  "cs_id2nm (snd (new_subj t si s)) = cs_id2nm s" "cs_strtab (snd (new_subj t si s)) = cs_strtab s" "cs_done (snd (new_subj t si s)) = cs_done s"
  by (simp_all add: on_subj_def put_subj_def new_subj_def split: option.split)

lemma rkeeps_events [rkeeps_intros]: "rkeeps i (cur_ev a idx)" "rkeeps i (set_ev a idx f)" "rkeeps i (push_ev a g)" "rkeeps i (enq_at e a idx)"
proof -
  show cur: "rkeeps i (cur_ev a idx)" by (auto simp: rkeeps_def cur_ev_def intro: keeps_unless_fields split: option.splits if_splits)
  have new: "rkeeps i (\<lambda>s. Some (Fine (newEvInfo s)))"
    by (auto simp: rkeeps_def newEvInfo_def intro: keeps_unless_fields split: list.splits)
  show "rkeeps i (set_ev a idx f)" "rkeeps i (push_ev a g)" "rkeeps i (enq_at e a idx)"
    unfolding set_ev_def push_ev_def enq_at_def
    by (intro rkeeps_intros ckeeps_intros cur new rkeeps_upd; simp add: names_same)+
qed

lemma rkeeps_getSubj [rkeeps_intros]: "rkeeps i (\<lambda>s. Some (Fine (getSubj tid pid ts uid gid s)))" "rkeeps i (get_subject h)"
proof -
  show g: "rkeeps i (\<lambda>s. Some (Fine (getSubj tid pid ts uid gid s)))" for tid pid ts uid gid
    using kept_name_getSubj by (auto simp: rkeeps_def intro!: keeps_unless_done) (metis snd_conv)+
  show "rkeeps i (get_subject h)" unfolding get_subject_def [abs_def] by (rule g)
qed

lemma rkeeps_match_event [rkeeps_intros]: "rkeeps i (match_event e a sc sn st)"
proof -
  have "rkeeps i (\<lambda>s. case best_matching_event (sj_curEv si) sc sn st (cs_curtime s) of (idx, evs, expired) \<Rightarrow>
         rdo (upd (put_subj a (si\<lparr>sj_curEv := evs\<rparr>))) (rdo (run_tasks e [Expired expired]) (rret idx)) s)" for si
    by (rule rkeeps_triple) (intro rkeeps_intros rkeeps_upd, simp add: names_same)
  then show ?thesis unfolding match_event_def by (intro rkeeps_intros ckeeps_intros)
qed

lemma rkeeps_ops [rkeeps_intros]: "rkeeps i (preOp e h)" "rkeeps i (prePostOp h rv)" "rkeeps i (postOp e h rv)" "rkeeps i (set_ids a idx uid gid)"
proof -
  have nf: "rkeeps i (upd (update_nfailed rv))" by (rule rkeeps_upd) (simp add: update_nfailed_def)
  show "rkeeps i (preOp e h)" "rkeeps i (prePostOp h rv)"
    unfolding preOp_def prePostOp_def by (intro rkeeps_intros nf)+
  have *: "rkeeps i (\<lambda>s. case idx of
        None \<Rightarrow>
          if inStartUp s then rret None s
          else rbind (push_ev a (\<lambda>_. ev_start h a EXIT_SEEN rv ev_zero)) (\<lambda>idx. rret (Some (a, idx))) s
      | Some idx \<Rightarrow>
          rdo (set_ev a idx (\<lambda>ev. ev\<lparr>ev_status := BOTH_SEEN, ev_arg3 := rv\<rparr>)) (rret (Some (a, idx))) s)" for a idx
    by (cases idx) (auto intro!: rkeeps_intros rkeeps_cond)
  show "rkeeps i (postOp e h rv)" unfolding postOp_def by (intro rkeeps_intros rkeeps_cond nf *)
  show "rkeeps i (set_ids a idx uid gid)" unfolding set_ids_def by (intro rkeeps_intros rkeeps_upd) (simp add: names_same)
qed

lemma rkeeps_names [rkeeps_intros]:
  "rkeeps i (mk_name t)" "rkeeps i (mk_argv ts)" "rkeeps i (mk_ep e sa)"
  "rkeeps i (fill_name0 t f)" "rkeeps i (fill_ep e sa g)" "rkeeps i (fill_names2 t t' g')"
proof -
  show names: "rkeeps i (mk_name t)" for t unfolding mk_name_def by (intro rkeeps_intros ckeeps_intros)
  show "rkeeps i (mk_argv ts)"
  proof (rule rkeepsI)
    fix s x s' assume m: "mk_argv ts s = Some (Fine (x, s'))"
    obtain ns s1 where c: "create_all ts s = (ns, s1)" by fastforce
    obtain us where "s1 = s\<lparr>cs_strtab := cs_strtab s @ us\<rparr>" using create_all_strtab [OF c] by blast
    then show "keeps_unless i s s'"
      using m c by (auto simp: mk_argv_def copyargv_def intro!: keeps_unless_done kept_name_strtab)
  qed
  show ep: "rkeeps i (mk_ep e sa)"
    by (auto simp: rkeeps_def mk_ep_def getEp_def intro!: keeps_unless_done kept_name_strtab dest!: create_strtab)
  show "rkeeps i (fill_name0 t f)" "rkeeps i (fill_ep e sa g)" "rkeeps i (fill_names2 t t' g')"
    unfolding fill_name0_def fill_ep_def fill_names2_def by (intro rkeeps_intros names ep)+
qed

lemma rkeeps_shapes [rkeeps_intros]:
  "rkeeps i fill \<Longrightarrow> rkeeps i (complete e h rv fill)" "rkeeps i fill \<Longrightarrow> rkeeps i (entry e h fill)"
proof -
  show "rkeeps i (complete e h rv fill)" if "rkeeps i fill" unfolding complete_def by (intro rkeeps_intros that)
  show "rkeeps i (entry e h fill)" if "rkeeps i fill" unfolding entry_def enq_if_both_def by (intro rkeeps_intros that)
qed

lemma rkeeps_exits [rkeeps_intros]: "rkeeps i (ent_exit e h code)" "rkeeps i (sc_exit e h rv)" "rkeeps i (exec_exit e h r uid gid)"
  unfolding ent_exit_def sc_exit_def exec_exit_def enq_if_both_def by (intro rkeeps_intros ckeeps_intros)+

lemma rkeeps_clone_parts [rkeeps_intros]:
  "rkeeps i (not_orphan tid)" "rkeeps i (clone_parent e h parent_tid rv uid gid)" "rkeeps i (clone_record e h childtid rv uid gid b a)"
proof -
  show "rkeeps i (not_orphan tid)" unfolding not_orphan_def [abs_def] by (intro rkeeps_lookup rkeeps_intros ckeeps_intros)
  have thread: "rkeeps i (new_thread e h prsi)" for prsi
    by (auto simp: rkeeps_def new_thread_def new_subj_def intro!: keeps_unless_fields split: option.splits)
  have cloning: "rkeeps i (cloning_thread e h uid gid)"
  proof -
    have "rkeeps i (\<lambda>s. if b then rbind (\<lambda>s. Some (Fine (getSubj p p ts u g s))) (\<lambda>pa.
         rbind (rlift (get_subj pa)) (new_thread e h)) s else Some (Fine (getSubj t' p' ts u g s)))" for b p ts u g t' p'
      by (cases b) (auto intro!: rkeeps_intros ckeeps_intros thread)
    then show ?thesis unfolding cloning_thread_def [abs_def] by (intro rkeeps_lookup rkeeps_intros)
  qed
  show "rkeeps i (clone_parent e h parent_tid rv uid gid)"
    unfolding clone_parent_def by (intro rkeeps_intros rkeeps_upd cloning) simp
  have finish: "rkeeps i (clone_finish e h a idx childtid rv uid gid b)" for idx
    unfolding clone_finish_def clone_child_def Let_def
    by (intro rkeeps_intros rkeeps_upd ckeeps_intros) (simp add: names_same)
  have event: "rkeeps i (clone_event e h a rv b)"
    unfolding clone_event_def by (intro rkeeps_intros rkeeps_cond rkeeps_upd) simp
  show "rkeeps i (clone_record e h childtid rv uid gid b a)"
    unfolding clone_record_def by (intro rkeeps_intros event finish)
qed

lemma rkeeps_clone_exit [rkeeps_intros]: "rkeeps i (clone_exit e h parent_tid rv uid gid)"
proof -
  have fails: "rkeeps i (rdo (upd (\<lambda>s. s\<lparr>cs_nfailed := cs_nfailed s + 1\<rparr>))
         (case p of None \<Rightarrow> rret () | Some a \<Rightarrow> clone_record e h c rv uid gid d a))" for p c d
    by (intro rkeeps_intros rkeeps_upd) simp
  have fails': "rkeeps i (\<lambda>s. rdo (upd (\<lambda>s. s\<lparr>cs_nfailed := cs_nfailed s + 1\<rparr>))
         (case k s of None \<Rightarrow> rret () | Some a \<Rightarrow> clone_record e h c rv uid gid d a) s)" for k c d
    using fails by (rule rkeeps_fun)
  have "rkeeps i (\<lambda>s0. rdo (not_orphan c) (\<lambda>s. if is_err (scast rv)
      then rdo (upd (\<lambda>s. s\<lparr>cs_nfailed := cs_nfailed s + 1\<rparr>))
             (case cs_procMap s p of None \<Rightarrow> rret () | Some a \<Rightarrow> clone_record e h c rv uid gid (d s0) a) s
      else rbind (clone_parent e h parent_tid rv uid gid) (clone_record e h c rv uid gid (d s0)) s) s0)" for c p d
    by (rule rkeeps_fun) (intro rkeeps_intros rkeeps_cond fails')
  then show ?thesis unfolding clone_exit_def [abs_def] Let_def .
qed

lemma rkeeps_consume [rkeeps_intros]: "rkeeps i (consume e x)"
proof (cases x)
  case (Cur_time ts)
  then show ?thesis by (auto intro: rkeeps_upd)
next
  case (Call h c)
  show ?thesis unfolding Call
    by (cases c; simp only: consume.simps consumer_call.case method_defs; intro rkeeps_intros)
qed

lemma rkeeps_consume_all: "rkeeps i (consume_all e xs)"
  by (induction xs) (auto intro: rkeeps_intros)

end
