(* ===== verification/Consumer_Props.thy ===== *)
theory Consumer_Props
  imports Consumer_Names
begin

text \<open>
  What the clients of the consumer learn: a read is reported for the file that was opened under its
  identifier, the two halves of a system call make one event in whichever order they arrive, and
  the cases the consumer does not report or does not survive.
\<close>

section \<open>Names\<close>

lemma index_of_nth: "index_of x xs = Some i \<Longrightarrow> i < length xs \<and> xs ! i = x"
  by (induction xs arbitrary: i) (auto split: if_splits)

lemma create_str:
  assumes "create t s = (n, s')" "length (cs_strtab s) < 2 ^ 32 - 1"
  shows "str n s' = t \<and> n \<noteq> nullstr"
proof -
  obtain i where i: "n = of_nat i" "i < length (cs_strtab s')" "cs_strtab s' ! i = t" "i < 2 ^ 32 - 1"
    using assms index_of_nth [of t "cs_strtab s"] by (auto simp: create_def split: option.splits)
  have u: "unat n = i" using i(1,4) by (simp add: unsigned_of_nat take_bit_nat_eq_self)
  have "unat nullstr = 2 ^ 32 - 1" by (simp add: nullstr_def unsigned_minus_1_eq_mask mask_eq_exp_minus_1)
  then have "n \<noteq> nullstr" using u i(4) by auto
  then show ?thesis using u i by (simp add: str_def)
qed

section \<open>Files\<close>

text \<open>The path a name of a system call stands for, if it is not relative to a descriptor.\<close>

definition called_path :: "subj \<Rightarrow> cstate \<Rightarrow> u32 \<Rightarrow> cstr" where
  "called_path si s fn =
     (let nm = str fn s in
      if nm \<noteq> [] \<and> hd nm = slash then nm
      else let dir = (case sj_cwd si of None \<Rightarrow> [] | Some cwd \<Rightarrow> str (ob_nm cwd) s) in
           if dir \<noteq> [] \<and> last dir = slash then dir @ nm else dir @ [slash] @ nm)"

lemma join_dir_append: "join_dir dir nm = (if dir \<noteq> [] \<and> last dir = slash then dir @ nm else dir @ [slash] @ nm)"
proof (cases "dir \<noteq> [] \<and> last dir = slash")
  case True
  then have "dir = butlast dir @ [slash]" by (metis append_butlast_last_id)
  then have "butlast dir @ slash # nm = dir @ nm" by (metis append_Cons append_Nil append_assoc)
  then show ?thesis using True by (simp add: join_dir_def)
qed (auto simp: join_dir_def)

definition absolute :: "cstate \<Rightarrow> u32 \<Rightarrow> bool" where
  "absolute s fn \<longleftrightarrow> str fn s \<noteq> [] \<and> hd (str fn s) = slash"

lemma nullstr_large: "unat n < length ts \<Longrightarrow> length ts < 2 ^ 32 - 1 \<Longrightarrow> n \<noteq> nullstr"
  by (auto simp: nullstr_def unsigned_minus_1_eq_mask mask_eq_exp_minus_1)

lemma fullpath_path:
  assumes "cs_subj s a = Some si" "has_dirs si" "unat fn < length (cs_strtab s)" "length (cs_strtab s) < 2 ^ 32 - 1"
    and "fd = at_fdcwd \<or> absolute s fn"
  shows "\<exists>n s'. fullpath e a fd i fn ts opt s = Fine (n, s') \<and> str n s' = called_path si s fn \<and> n \<noteq> nullstr
    \<and> unat n < length (cs_strtab s') \<and> (\<exists>us. s' = s\<lparr>cs_strtab := cs_strtab s @ us\<rparr>)"
proof (cases "absolute s fn")
  case True
  then show ?thesis
    using assms(3,4) nullstr_large by (auto simp: fullpath_def called_path_def absolute_def intro: exI [of _ "[]"])
next
  case False
  obtain cwd where cwd: "sj_cwd si = Some cwd" using assms(2) by (auto simp: has_dirs_def)
  let ?p = "join_dir (str (ob_nm cwd) s) (str fn s)"
  obtain n s' where c: "create ?p s = (n, s')" by fastforce
  have "fullpath e a fd i fn ts opt s = Fine (n, s')"
    using False assms(1,5) cwd c
    by (simp add: fullpath_def absolute_def Let_def dir_name_def cbind_def get_subj_def create_name_def) blast
  moreover have "called_path si s fn = ?p"
    unfolding called_path_def Let_def cwd join_dir_append using False by (simp only: absolute_def if_False option.case)
  moreover have "unat n < length (cs_strtab s')"
    using c assms(4) index_of_nth [of ?p "cs_strtab s"]
    by (auto simp: create_def unsigned_of_nat take_bit_nat_eq_self split: option.splits)
  ultimately show ?thesis using create_str [OF c assms(4)] create_strtab [OF c] by simp
qed

text \<open>Looking up a name under an identifier gives an object with both.\<close>

lemma nm2Obj_known:
  assumes "cs_subj s a = Some si" "well_named s" "i \<noteq> 0"
  shows "\<exists>p s'. nm2Obj e a n ts opt i s = Fine (p, s') \<and> ob_nm (cs_objs s' p) = n \<and> ob_id (cs_objs s' p) = i
    \<and> well_named s' \<and> cs_id2nm s' i = Some n \<and> cs_subj s' = cs_subj s \<and> cs_strtab s' = cs_strtab s
    \<and> (\<exists>ks. cs_calls s' = cs_calls s @ ks)"
proof -
  obtain p s1 where new: "new_obj e si n ts opt i s = (p, s1)" by fastforce
  have o': "ob_nm (cs_objs s1 p) = n" "ob_id (cs_objs s1 p) = i" "cs_subj s1 = cs_subj s" "cs_strtab s1 = cs_strtab s"
    "\<exists>ks. cs_calls s1 = cs_calls s @ ks"
    using new by (auto simp: new_obj_def Let_def split: prod.splits if_splits)
  have w: "well_named s1" using new_obj_well_named [OF assms(2), of e si n ts opt i] new by simp
  show ?thesis
  proof (cases "\<exists>rv. cs_nm2oi s n = Some rv \<and> ob_id (cs_objs s rv) = i")
    case True
    then show ?thesis using assms by (auto simp: nm2Obj_def cbind_def get_subj_def Let_def well_named_def)
  next
    case False
    then have "nm2Obj e a n ts opt i s = Fine (p, s1\<lparr>cs_id2nm := (cs_id2nm s1)(i \<mapsto> n)\<rparr>)"
      using assms new by (auto simp: nm2Obj_def cbind_def get_subj_def Let_def split: option.split)
    then show ?thesis using o' w by (simp add: well_named_def)
  qed
qed

lemma str_strtab: "cs_strtab s' = cs_strtab s \<Longrightarrow> str n s' = str n s"
  by (simp only: str_def)

lemma say_obj_known:
  "cs_subj s (ev_si ev) = Some si \<Longrightarrow> say_obj ev p k s = Fine ((), s\<lparr>cs_calls := cs_calls s @ [k si (cs_objs s p)]\<rparr>)"
  by (simp add: say_obj_def say_def cbind_def get_obj_def get_subj_def tell_clients_def)

lemma open_names:
  assumes "cs_subj s a = Some si" "has_dirs si" "well_named s" "length (cs_strtab s) < 2 ^ 32 - 1"
    and "ev_si ev = a" "ev_fd ev = at_fdcwd \<or> absolute s (u32_0 (ev_arg0 ev))" "unat (u32_0 (ev_arg0 ev)) < length (cs_strtab s)"
    and "ev_arg3 ev = i" "i \<noteq> 0"
  shows "\<exists>s1 n. doopen e ev s = Fine ((), s1) \<and> named i n (called_path si s (u32_0 (ev_arg0 ev))) s1"
proof -
  let ?fn = "u32_0 (ev_arg0 ev)"
  obtain n sa us where f: "fullpath e a (ev_fd ev) (ev_id ev) ?fn (ev_ts ev) (old_file e) s = Fine (n, sa)"
    and sa: "str n sa = called_path si s ?fn" "n \<noteq> nullstr" "unat n < length (cs_strtab sa)" "sa = s\<lparr>cs_strtab := cs_strtab s @ us\<rparr>"
    using fullpath_path [OF assms(1,2,7,4,6), of e "ev_id ev" "ev_ts ev" "old_file e"] by blast
  have si: "cs_subj sa a = Some si" and named: "well_named sa" using assms(1,3) sa(4) by (simp_all add: well_named_def)
  define k where "k = (\<lambda>si o'. K_open si o' (u32_1 (ev_arg0 ev)) (u32_0 (ev_arg1 ev)) (u32_1 (ev_arg1 ev)) (ev_ts ev))"
  obtain opt where opt: "doopen e ev s = cbind (nm2ObjAt e a (ev_fd ev) (ev_id ev) ?fn (ev_ts ev) opt i) (\<lambda>p. say_obj ev p k) s"
    using assms(5,8) by (simp add: doopen_def Let_def k_def)
  obtain p sb where nb: "nm2Obj e a n (ev_ts ev) opt i sa = Fine (p, sb)"
    and sb: "well_named sb" "cs_id2nm sb i = Some n" "cs_subj sb = cs_subj sa" "cs_strtab sb = cs_strtab sa"
    using nm2Obj_known [OF si named assms(9), of e n "ev_ts ev" opt] by blast
  define s1 where "s1 = sb\<lparr>cs_calls := cs_calls sb @ [k si (cs_objs sb p)]\<rparr>"
  have "doopen e ev s = Fine ((), s1)"
    unfolding opt s1_def using f nb sb si assms(5) by (simp add: cbind_def nm2ObjAt_def say_obj_known)
  moreover have "named i n (called_path si s ?fn) s1"
    using sa sb by (simp add: named_def well_named_def s1_def str_def)
  ultimately show ?thesis by blast
qed

lemma read_named:
  assumes "named i n t s" "i \<noteq> 0" "ev_id rw = i" "cs_subj s (ev_si rw) = Some si"
  shows "\<exists>s' oo ks. doreadwr e rw rd s = Fine ((), s')
    \<and> cs_calls s' = cs_calls s @ ks @ [if rd then K_read si oo (ev_fd rw) (ev_arg3 rw) (ev_ts rw) else K_write si oo (ev_fd rw) (ev_arg3 rw) (ev_ts rw)]
    \<and> ob_id oo = i \<and> str (ob_nm oo) s' = t"
proof -
  define k where "k = (\<lambda>si oo. if rd then K_read si oo (ev_fd rw) (ev_arg3 rw) (ev_ts rw) else K_write si oo (ev_fd rw) (ev_arg3 rw) (ev_ts rw))"
  have n: "cs_id2nm s i = Some n" "n \<noteq> nullstr" "well_named s" "str n s = t" using assms(1) by (simp_all add: named_def)
  obtain opt where "resolveId e (ev_si rw) (ev_fd rw) i (ev_ts rw) (old_file e) s = nm2Obj e (ev_si rw) n (ev_ts rw) opt i s"
    using n(1,2) assms(2) by (simp add: resolveId_def Let_def id_name_def cbind_def)
  moreover obtain p s1 where p: "nm2Obj e (ev_si rw) n (ev_ts rw) opt i s = Fine (p, s1)" "ob_nm (cs_objs s1 p) = n"
    "ob_id (cs_objs s1 p) = i" "cs_subj s1 = cs_subj s" "cs_strtab s1 = cs_strtab s" "\<exists>ks. cs_calls s1 = cs_calls s @ ks"
    using nm2Obj_known [OF assms(4) n(3) assms(2), of e n "ev_ts rw" opt] by blast
  ultimately have "doreadwr e rw rd s = Fine ((), s1\<lparr>cs_calls := cs_calls s1 @ [k si (cs_objs s1 p)]\<rparr>)"
    using assms(3,4) by (simp add: doreadwr_def ev_obj_def cbind_def say_obj_known k_def)
  moreover have "str (ob_nm (cs_objs s1 p)) (s1\<lparr>cs_calls := cs_calls s1 @ [k si (cs_objs s1 p)]\<rparr>) = t"
    using n(4) str_strtab [of "s1\<lparr>cs_calls := cs_calls s1 @ [k si (cs_objs s1 p)]\<rparr>" s n] p(2,5) by simp
  ultimately show ?thesis using p(3,6) by (auto simp: k_def)
qed

text \<open>
  (C5) A read or a write is reported for the file that was opened. A process opens a file, by an
  absolute path or by one relative to its working directory, and the open returned an identifier that
  is not null. Then whatever calls the parser makes afterwards, as long as the consumer survives them
  and none of the events executed in between is another open that returns the identifier or a socket
  call (accept, connect, getpeername, sendto, recvfrom) with it: a read or write under the identifier
  by any process that is then known is reported to the clients with an object that has the identifier
  and whose name is the full path of the file.
\<close>
theorem read_reports_opened_file:
  assumes "cs_subj s a = Some si" "has_dirs si" "well_named s" "length (cs_strtab s) < 2 ^ 32 - 1"
    and "ev_si ev = a" "ev_fd ev = at_fdcwd \<or> absolute s (u32_0 (ev_arg0 ev))" "unat (u32_0 (ev_arg0 ev)) < length (cs_strtab s)"
    and "ev_arg3 ev = i" "i \<noteq> 0"
  shows "\<exists>s1. doopen e ev s = Fine ((), s1) \<and>
    (\<forall>calls s2 rw si'. consume_all e calls s1 = Some (Fine ((), s2)) \<and> list_all (spares i) (drop (length (cs_done s1)) (cs_done s2))
        \<and> ev_id rw = i \<and> cs_subj s2 (ev_si rw) = Some si' \<longrightarrow>
      (\<exists>s3 oo ks. doreadwr e rw rd s2 = Fine ((), s3)
        \<and> cs_calls s3 = cs_calls s2 @ ks @ [if rd then K_read si' oo (ev_fd rw) (ev_arg3 rw) (ev_ts rw) else K_write si' oo (ev_fd rw) (ev_arg3 rw) (ev_ts rw)]
        \<and> ob_id oo = i \<and> str (ob_nm oo) s3 = called_path si s (u32_0 (ev_arg0 ev))))"
proof -
  obtain s1 n where o': "doopen e ev s = Fine ((), s1)" "named i n (called_path si s (u32_0 (ev_arg0 ev))) s1"
    using open_names [OF assms] by blast
  have "named i n (called_path si s (u32_0 (ev_arg0 ev))) s2"
    if "consume_all e calls s1 = Some (Fine ((), s2))" "list_all (spares i) (drop (length (cs_done s1)) (cs_done s2))" for calls s2
    using rkeepsD [OF rkeeps_consume_all that(1), of i] that(2) o'(2) by (auto simp: keeps_unless_def kept_name_def)
  then have "\<exists>s3 oo ks. doreadwr e rw rd s2 = Fine ((), s3)
        \<and> cs_calls s3 = cs_calls s2 @ ks @ [if rd then K_read si' oo (ev_fd rw) (ev_arg3 rw) (ev_ts rw) else K_write si' oo (ev_fd rw) (ev_arg3 rw) (ev_ts rw)]
        \<and> ob_id oo = i \<and> str (ob_nm oo) s3 = called_path si s (u32_0 (ev_arg0 ev))"
    if "consume_all e calls s1 = Some (Fine ((), s2))" "list_all (spares i) (drop (length (cs_done s1)) (cs_done s2))"
      "ev_id rw = i" "cs_subj s2 (ev_si rw) = Some si'" for calls s2 rw si'
    using read_named [OF _ assms(9) that(3,4)] that(1,2) by blast
  then show ?thesis
    by (intro exI [of "\<lambda>s1. doopen e ev s = Fine ((), s1) \<and> _ s1" s1] conjI [OF o'(1)] allI impI) (elim conjE)
qed

section \<open>Entries and exits\<close>

lemma put_subj_same: "cs_subj s a = Some si \<Longrightarrow> put_subj a si s = s"
  by (simp add: put_subj_def fun_upd_idem)

lemma put_subj_twice: "put_subj a x (put_subj a y s) = put_subj a x s"
  by (simp add: put_subj_def)

lemma run_expired_nil: "run_tasks e [Expired []] s = Some (Fine ((), s))"
proof -
  have "run e [] s = Some (Fine s)" by (subst run.simps) simp
  then have "run e [Expired []] s = Some (Fine s)" by (subst run.simps) simp
  then show ?thesis by (simp add: run_tasks_def)
qed

lemma match_none:
  assumes "cs_subj s a = Some si" "sj_curEv si = []"
  shows "match_event e a sc sn st s = Some (Fine (None, s))"
proof -
  have "put_subj a (si\<lparr>sj_curEv := []\<rparr>) s = s" using put_subj_same [OF assms(1)] assms(2) by (metis subj.surjective subj.update_convs(15))
  then show ?thesis
    using assms
    by (simp add: match_event_def rbind_def rlift_def get_subj_def best_matching_event_def bme_loop.simps rdo_def upd_def
        run_expired_nil rret_def)
qed

lemma match_one:
  assumes "cs_subj s a = Some si" "sj_curEv si = [ev]" "matches ev sc st"
  shows "match_event e a sc sn st s = Some (Fine (Some 0, s))"
proof -
  have "put_subj a (si\<lparr>sj_curEv := [ev]\<rparr>) s = s" using put_subj_same [OF assms(1)] assms(2) by (metis subj.surjective subj.update_convs(15))
  moreover have "dist ev sc sn st < INT_MAX" using assms(3) by (simp add: dist_matches)
  ultimately show ?thesis
    using assms
    by (simp add: match_event_def rbind_def rlift_def get_subj_def best_matching_event_def bme_loop.simps rdo_def upd_def
        run_expired_nil rret_def)
qed

lemma push_first:
  assumes "cs_subj s a = Some si" "sj_curEv si = []"
  shows "push_ev a f s = Some (Fine (0, put_subj a (si\<lparr>sj_curEv := [f (fst (newEvInfo s))]\<rparr>) (snd (newEvInfo s))))"
proof -
  have "cs_subj (snd (newEvInfo s)) = cs_subj s" by (simp add: newEvInfo_def split: list.split)
  then show ?thesis
    using assms by (cases "newEvInfo s") (simp add: push_ev_def rbind_def rlift_def get_subj_def rdo_def upd_def rret_def)
qed

text \<open>The subject has one open event.\<close>

definition waits :: "addr \<Rightarrow> subj \<Rightarrow> evinfo \<Rightarrow> cstate \<Rightarrow> cstate" where
  "waits a si ev s = put_subj a (si\<lparr>sj_curEv := [ev]\<rparr>) s"

lemma waits_simps:
  "cs_subj (waits a si ev s) a = Some (si\<lparr>sj_curEv := [ev]\<rparr>)" "cs_procMap (waits a si ev s) = cs_procMap s"
  "cs_nsucc (waits a si ev s) = cs_nsucc s" "update_nfailed rv (waits a si ev s) = waits a si ev (update_nfailed rv s)"
  by (simp_all add: waits_def put_subj_def update_nfailed_def)

lemma set_ev_waits: "set_ev a 0 f (waits a si ev s) = Some (Fine ((), waits a si (f ev) s))"
  by (simp add: set_ev_def rbind_def cur_ev_def waits_simps upd_def on_subj_def)
    (simp add: waits_def put_subj_twice)

lemma enq_waits: "sj_curEv si = [] \<Longrightarrow> enq_at e a 0 (waits a si ev s) = run_tasks e [Enq a ev] (put_subj a si s)"
proof -
  assume "sj_curEv si = []"
  then have "si\<lparr>sj_curEv := []\<rparr> = si" by simp
  then show ?thesis
    by (simp add: enq_at_def rbind_def cur_ev_def waits_simps rdo_def upd_def on_subj_def swap_remove_def)
      (simp add: waits_def put_subj_twice)
qed

lemma both_waits:
  "sj_curEv si = [] \<Longrightarrow> enq_if_both e a 0 (waits a si ev s) =
     (if ev_status ev = BOTH_SEEN then run_tasks e [Enq a ev] (put_subj a si s) else Some (Fine ((), waits a si ev s)))"
  by (simp add: enq_if_both_def rbind_def cur_ev_def waits_simps enq_waits rret_def)

text \<open>An entry and an exit that arrive with nothing open, and with their other half open.\<close>

lemma entry_first:
  assumes "cs_procMap s (eh_tid h) = Some a" "cs_subj s a = Some si" "sj_curEv si = []" "\<And>ev. ev_status (f ev) = ev_status ev"
  shows "entry e h (rret f) s = Some (Fine ((), waits a si (f (ev_start h a ENTRY_SEEN 0 (fst (newEvInfo s)))) (snd (newEvInfo s))))"
  using assms
  by (simp add: entry_def preOp_def rbind_def get_subject_def getSubj_def match_none push_first waits_def [symmetric] rret_def
      rdo_def set_ev_waits both_waits ev_start_def)

lemma exit_second:
  assumes "cs_procMap s (eh_tid h) = Some a" "sj_curEv si = []" "matches ev (eh_sc h) EXIT_SEEN"
  shows "sc_exit e h rv (waits a si ev s) =
    run_tasks e [Enq a (ev\<lparr>ev_status := BOTH_SEEN, ev_arg3 := rv\<rparr>)] (put_subj a si (update_nfailed rv s))"
proof -
  have p: "cs_procMap (update_nfailed rv s) = cs_procMap s" by (simp add: update_nfailed_def)
  show ?thesis
    using assms
    by (simp add: sc_exit_def postOp_def rbind_def rdo_def upd_def waits_simps p get_subject_def getSubj_def rret_def
        match_one [OF waits_simps(1)] set_ev_waits both_waits)
qed

lemma exit_first:
  assumes "cs_procMap s (eh_tid h) = Some a" "cs_subj s a = Some si" "sj_curEv si = []" "\<not> inStartUp (update_nfailed rv s)"
  shows "sc_exit e h rv s = Some (Fine ((), waits a si (ev_start h a EXIT_SEEN rv ev_zero) (snd (newEvInfo (update_nfailed rv s)))))"
proof -
  have p: "cs_procMap (update_nfailed rv s) = cs_procMap s" "cs_subj (update_nfailed rv s) = cs_subj s"
    by (simp_all add: update_nfailed_def)
  show ?thesis
    using assms
    by (simp add: sc_exit_def postOp_def rbind_def rdo_def upd_def p get_subject_def getSubj_def rret_def
        match_none push_first waits_def [symmetric] both_waits) (simp add: ev_start_def)
qed

lemma entry_second:
  assumes "cs_procMap s (eh_tid h) = Some a" "sj_curEv si = []" "matches ev (eh_sc h) ENTRY_SEEN" "\<And>ev. ev_status (f ev) = ev_status ev"
  shows "entry e h (rret f) (waits a si ev s) = run_tasks e [Enq a (f (ev\<lparr>ev_status := BOTH_SEEN\<rparr>))] (put_subj a si s)"
  using assms
  by (simp add: entry_def preOp_def rbind_def rdo_def waits_simps get_subject_def getSubj_def rret_def
      match_one [OF waits_simps(1)] set_ev_waits both_waits)

text \<open>A complete event of a signal.\<close>

definition whole_kill :: "addr \<Rightarrow> event_hdr \<Rightarrow> event_hdr \<Rightarrow> s32 \<Rightarrow> s32 \<Rightarrow> s32 \<Rightarrow> s64 \<Rightarrow> evinfo \<Rightarrow> bool" where
  "whole_kill a h first pid tid sig rv ev \<longleftrightarrow> ev_status ev = BOTH_SEEN \<and> ev_code ev = eh_sc h \<and> ev_si ev = a
     \<and> ev_arg0 ev = scast pid \<and> ev_arg1 ev = scast tid \<and> ev_arg2 ev = scast sig \<and> ev_arg3 ev = rv
     \<and> ev_ts ev = eh_ts first \<and> ev_seqnum ev = eh_sn first"

text \<open>
  (C6) The two halves of a system call become one event, in whichever order they arrive: the entry of
  a \<open>kill\<close> and its exit, when nothing else is open for the thread, lead to exactly one event for the
  queue, which has the arguments of the entry and the result of the exit, and time and sequence number
  of the half that came first; the thread is left with nothing open. An exit that comes first is kept
  only after the start-up phase of the consumer.
\<close>
theorem halves_make_one_event:
  assumes "cs_procMap s (eh_tid h1) = Some a" "cs_subj s a = Some si" "sj_curEv si = []"
    and "eh_sc h2 = eh_sc h1" "eh_tid h2 = eh_tid h1"
    and "calls = [Call h1 (C_ent_kill pid tid sig), Call h2 (C_sc_exit rv)] \<and> first = h1
      \<or> calls = [Call h2 (C_sc_exit rv), Call h1 (C_ent_kill pid tid sig)] \<and> first = h2 \<and> \<not> inStartUp (update_nfailed rv s)"
  shows "\<exists>ev. consume_all e calls s = run_tasks e [Enq a ev] (put_subj a si (update_nfailed rv (snd (newEvInfo s))))
    \<and> whole_kill a h1 first pid tid sig rv ev"
proof -
  let ?f = "args3 (scast pid) (scast tid) (scast sig)"
  have f: "ev_status (?f ev) = ev_status ev" for ev by (simp add: args3_def)
  have rret: "rdo g (rret ()) s' = g s'" for g s' by (auto simp: rdo_def rbind_def rret_def split: option.split outcome.split)
  have two: "consume_all e [x, y] s = rdo (consume e x) (consume e y) s" for x y
    by (simp add: rdo_def rbind_def rret_def split: option.split outcome.split prod.split)
  from assms(6) show ?thesis
  proof (elim disjE conjE)
    assume c: "calls = [Call h1 (C_ent_kill pid tid sig), Call h2 (C_sc_exit rv)]" and first: "first = h1"
    let ?ev = "?f (ev_start h1 a ENTRY_SEEN 0 (fst (newEvInfo s)))"
    have "matches ?ev (eh_sc h2) EXIT_SEEN" using assms(4) by (simp add: matches_def args3_def ev_start_def)
    moreover have "cs_procMap (snd (newEvInfo s)) (eh_tid h2) = Some a"
      using assms(1,5) by (simp add: newEvInfo_def split: list.split)
    ultimately have "consume_all e calls s = run_tasks e [Enq a (?ev\<lparr>ev_status := BOTH_SEEN, ev_arg3 := rv\<rparr>)]
        (put_subj a si (update_nfailed rv (snd (newEvInfo s))))"
      unfolding c two using entry_first [OF assms(1-3) f] exit_second assms(3)
      by (simp add: rdo_def rbind_def ent_kill_def)
    moreover have "whole_kill a h1 first pid tid sig rv (?ev\<lparr>ev_status := BOTH_SEEN, ev_arg3 := rv\<rparr>)"
      by (simp add: whole_kill_def first args3_def ev_start_def)
    ultimately show ?thesis by blast
  next
    assume c: "calls = [Call h2 (C_sc_exit rv), Call h1 (C_ent_kill pid tid sig)]" and first: "first = h2"
      and up: "\<not> inStartUp (update_nfailed rv s)"
    let ?ev = "ev_start h2 a EXIT_SEEN rv ev_zero"
    have h2: "cs_procMap s (eh_tid h2) = Some a" using assms(1,5) by simp
    have new: "snd (newEvInfo (update_nfailed rv s)) = update_nfailed rv (snd (newEvInfo s))"
      by (simp add: newEvInfo_def update_nfailed_def split: list.split)
    have "matches ?ev (eh_sc h1) ENTRY_SEEN" using assms(4) by (simp add: matches_def ev_start_def)
    moreover have "cs_procMap (update_nfailed rv (snd (newEvInfo s))) (eh_tid h1) = Some a"
      using assms(1) by (simp add: newEvInfo_def update_nfailed_def split: list.split)
    ultimately have "consume_all e calls s = run_tasks e [Enq a (?f (?ev\<lparr>ev_status := BOTH_SEEN\<rparr>))]
        (put_subj a si (update_nfailed rv (snd (newEvInfo s))))"
      unfolding c two using exit_first [OF h2 assms(2,3) up] entry_second [OF _ assms(3) _ f]
      by (simp add: rdo_def rbind_def ent_kill_def new)
    moreover have "whole_kill a h1 first pid tid sig rv (?f (?ev\<lparr>ev_status := BOTH_SEEN\<rparr>))"
      using assms(4) by (simp add: whole_kill_def first args3_def ev_start_def)
    ultimately show ?thesis by blast
  qed
qed

definition sample_files :: cstate where
  "sample_files = sample_start\<lparr>cs_strtab := [ascii ''/home'', ascii ''notes'']\<rparr>"

definition sample_open :: evinfo where
  "sample_open = ev_zero\<lparr>ev_code := OPEN_EX, ev_status := BOTH_SEEN, ev_fd := at_fdcwd, ev_arg0 := 1, ev_arg3 := 5\<rparr>"

definition sample_rd :: evinfo where
  "sample_rd = ev_zero\<lparr>ev_code := READ_EX, ev_status := BOTH_SEEN, ev_fd := 3, ev_id := 5, ev_arg3 := 10\<rparr>"

lemma sample_path: "called_path sample_subj sample_files 1 = ascii ''/home/notes''"
  by (simp add: called_path_def Let_def sample_files_def str_def nullstr_def sample_start_defs sample_dir_def ascii_def slash_def join_dir_def)

theorem read_reports_opened_file_witness:
  "\<forall>e. \<exists>s1 s2 s3 oo si ks. doopen e sample_open sample_files = Fine ((), s1) \<and> consume_all e [Cur_time 77] s1 = Some (Fine ((), s2))
    \<and> doreadwr e sample_rd True s2 = Fine ((), s3) \<and> cs_calls s3 = cs_calls s2 @ ks @ [K_read si oo 3 10 0]
    \<and> ob_id oo = 5 \<and> str (ob_nm oo) s3 = ascii ''/home/notes''"
proof
  fix e
  have fn: "u32_0 (ev_arg0 sample_open) = 1" by (simp add: sample_open_def ev_zero_def u32_0_def)
  have rd: "ev_id sample_rd = 5" "ev_si sample_rd = 0" "ev_fd sample_rd = 3" "ev_arg3 sample_rd = 10" "ev_ts sample_rd = 0"
    by (simp_all add: sample_rd_def ev_zero_def)
  have si: "cs_subj sample_files 0 = Some sample_subj" by (simp add: sample_files_def sample_start_defs)
  have "\<exists>s1. doopen e sample_open sample_files = Fine ((), s1) \<and>
    (\<forall>calls s2 rw si'. consume_all e calls s1 = Some (Fine ((), s2)) \<and> list_all (spares 5) (drop (length (cs_done s1)) (cs_done s2))
        \<and> ev_id rw = 5 \<and> cs_subj s2 (ev_si rw) = Some si' \<longrightarrow>
      (\<exists>s3 oo ks. doreadwr e rw True s2 = Fine ((), s3)
        \<and> cs_calls s3 = cs_calls s2 @ ks @ [if True then K_read si' oo (ev_fd rw) (ev_arg3 rw) (ev_ts rw) else K_write si' oo (ev_fd rw) (ev_arg3 rw) (ev_ts rw)]
        \<and> ob_id oo = 5 \<and> str (ob_nm oo) s3 = called_path sample_subj sample_files (u32_0 (ev_arg0 sample_open))))"
  proof (rule read_reports_opened_file [where a = 0])
    show "well_named sample_files" by (simp add: well_named_def sample_files_def sample_start_defs)
    show "unat (u32_0 (ev_arg0 sample_open)) < length (cs_strtab sample_files)" by (simp add: fn sample_files_def)
    show "has_dirs sample_subj" by (simp add: has_dirs_def sample_subj_def)
    show "cs_subj sample_files 0 = Some sample_subj" by (rule si)
  qed (simp_all add: sample_files_def sample_open_def ev_zero_def)
  then obtain s1 where o': "doopen e sample_open sample_files = Fine ((), s1)" and all: "\<And>calls s2 rw si'.
      consume_all e calls s1 = Some (Fine ((), s2)) \<Longrightarrow> list_all (spares 5) (drop (length (cs_done s1)) (cs_done s2)) \<Longrightarrow> ev_id rw = 5
      \<Longrightarrow> cs_subj s2 (ev_si rw) = Some si' \<Longrightarrow> \<exists>s3 oo ks. doreadwr e rw True s2 = Fine ((), s3)
        \<and> cs_calls s3 = cs_calls s2 @ ks @ [K_read si' oo (ev_fd rw) (ev_arg3 rw) (ev_ts rw)]
        \<and> ob_id oo = 5 \<and> str (ob_nm oo) s3 = ascii ''/home/notes''"
    unfolding fn sample_path if_True by blast
  let ?s2 = "s1\<lparr>cs_curtime := 77\<rparr>"
  have c: "consume_all e [Cur_time 77] s1 = Some (Fine ((), ?s2))" by (simp add: rdo_def rbind_def upd_def rret_def)
  have "subj_inv sample_files" using sample_start_invs(2) subj_inv_cong [of sample_files sample_start] by (simp add: sample_files_def)
  then have "settled (ev_si sample_open) sample_files"
    using si by (simp add: settled_def sample_open_def ev_zero_def has_dirs_def sample_subj_def)
  then have "subj_ok 0 sample_files s1" using totalE [OF total_files(19)] o' by (metis outcome.inject prod.inject)
  then obtain si1 where "cs_subj ?s2 (ev_si sample_rd) = Some si1" using subj_ok_subj [OF _ si] by (fastforce simp: rd)
  from all [OF c _ rd(1) this] show "\<exists>s1 s2 s3 oo si ks. doopen e sample_open sample_files = Fine ((), s1)
    \<and> consume_all e [Cur_time 77] s1 = Some (Fine ((), s2))
    \<and> doreadwr e sample_rd True s2 = Fine ((), s3) \<and> cs_calls s3 = cs_calls s2 @ ks @ [K_read si oo 3 10 0]
    \<and> ob_id oo = 5 \<and> str (ob_nm oo) s3 = ascii ''/home/notes''"
    using o' c unfolding rd(3-5) by auto
qed

theorem halves_make_one_event_witness:
  "\<forall>e. \<exists>ev si. consume_all e [Call (sample_hdr KILL_EX 3) (C_ent_kill 1 2 9), Call (sample_hdr KILL_EX 4) (C_sc_exit 0)] sample_start
      = run_tasks e [Enq 0 ev] (put_subj 0 si (update_nfailed 0 (snd (newEvInfo sample_start))))
    \<and> whole_kill 0 (sample_hdr KILL_EX 3) (sample_hdr KILL_EX 3) 1 2 9 0 ev"
proof
  fix e
  let ?si = sample_subj
  have "\<exists>ev. consume_all e [Call (sample_hdr KILL_EX 3) (C_ent_kill 1 2 9), Call (sample_hdr KILL_EX 4) (C_sc_exit 0)] sample_start
      = run_tasks e [Enq 0 ev] (put_subj 0 ?si (update_nfailed 0 (snd (newEvInfo sample_start))))
    \<and> whole_kill 0 (sample_hdr KILL_EX 3) (sample_hdr KILL_EX 3) 1 2 9 0 ev"
    by (rule halves_make_one_event [where ?h2.0 = "sample_hdr KILL_EX 4"])
      (simp_all add: sample_hdr_def sample_start_defs)
  then show "\<exists>ev si. consume_all e [Call (sample_hdr KILL_EX 3) (C_ent_kill 1 2 9), Call (sample_hdr KILL_EX 4) (C_sc_exit 0)] sample_start
      = run_tasks e [Enq 0 ev] (put_subj 0 si (update_nfailed 0 (snd (newEvInfo sample_start))))
    \<and> whole_kill 0 (sample_hdr KILL_EX 3) (sample_hdr KILL_EX 3) 1 2 9 0 ev" by blast
qed

section \<open>What the consumer does not handle\<close>

text \<open>
  (C8) A thread that clones before anything is known of its process stops the consumer: the exit of
  a successful clone of a thread that is not the first of its process, when neither the thread nor
  the process is listed, makes a bare record of the process and then copies the working
  directory of that record, which is a null pointer.
\<close>
theorem clone_of_unknown_thread_crashes:
  assumes "cs_procMap s (eh_tid h) = None" "cs_procMap s (eh_pid h) = None" "eh_pid h \<noteq> eh_tid h"
    and "rv \<noteq> 0" "\<not> is_err (scast rv)"
  shows "clone_exit e h parent_tid rv uid gid s = Some Crash"
proof -
  let ?si = "subj_skeleton nullsiid (eh_pid h) (eh_pid h) 1 uid gid (eh_ts h) True"
  have no_dirs: "subj_thread j t ?si u = None" for j t u by (simp add: subj_thread_def has_dirs_def subj_skeleton_def)
  have "clone_parent e h parent_tid rv uid gid s1 = Some Crash" if "cs_procMap s1 = cs_procMap s" for s1
    using assms(1-4) no_dirs that
    by (simp add: clone_parent_def rdo_def rbind_def upd_def cloning_thread_def getSubj_def new_subj_def rlift_def get_subj_def new_thread_def)
  moreover have "not_orphan rv s = Some Crash \<or> (\<exists>s1. not_orphan rv s = Some (Fine ((), s1)) \<and> cs_procMap s1 = cs_procMap s)"
    by (auto simp: not_orphan_def rret_def rlift_def set_subj_def cbind_def get_subj_def put_subj_def split: option.split)
  ultimately show ?thesis using assms(4,5) by (auto simp: clone_exit_def Let_def rdo_def rbind_def)
qed

theorem clone_of_unknown_thread_crashes_witness:
  "\<forall>e. clone_exit e \<lparr>eh_sc = CLONE_EX, eh_sn = 1, eh_ts = 5, eh_tid = 12, eh_pid = 10\<rparr> 1 13 0 0 sample_start = Some Crash"
  by (intro allI clone_of_unknown_thread_crashes) (simp_all add: sample_start_defs is_err_def word_sle_eq)

text \<open>Duplicating a descriptor to a given number, and a pair of sockets, are executed without a word to the clients.\<close>

lemma silent_codes:
  assumes "ev_code ev = DUP2_EX \<or> ev_code ev = SOCKPAIR_EX"
  shows "do_syscall e ev s = Fine ((), s)"
  using assms by (auto simp: do_syscall_def cret_def code_values)

end
