(* ===== verification/Recorder.thy ===== *)
theory Recorder
  imports Consumer_Objects
begin

text \<open>
  The recorder, the client of the consumer that writes a record file: the writer \<^verbatim>\<open>src/lib/Record.C\<close>, the
  tables of strings and principals and the numbering of objects and subjects of \<^verbatim>\<open>src/lib/RecOnlyHost.C\<close>,
  and the methods of \<^verbatim>\<open>src/eRecorder.C\<close>. The file is a list of lines, each the values that are printed.
  The file names neither a new object nor a new subject: a reader counts the lines that make one. An
  object of the consumer carries the number it was given (\<open>Obj::oid\<close>); the model keeps it by the serial
  number of the object.
\<close>

section \<open>Principals\<close>

definition AUTH_NONE :: u8 where "AUTH_NONE = 1"
definition AUTH_OS :: u8 where "AUTH_OS = 2"
definition PASSWORD :: u8 where "PASSWORD = 3"
definition MAX_USER_AUTH :: u8 where "MAX_USER_AUTH = 5"
definition CERTIFICATE :: u8 where "CERTIFICATE = 6"
definition ENTERPRISE_ENDPOINT :: u8 where "ENTERPRISE_ENDPOINT = 8"
definition TCP :: u8 where "TCP = 11"
definition IPADDR :: u8 where "IPADDR = 12"
definition MAX_REMOTE_AUTH :: u8 where "MAX_REMOTE_AUTH = 12"

text \<open>Two principals are equal if all their bytes are; the constructors clear them first.\<close>

datatype principal =
    Enterprise_user u8 u16 u16 u16
  | Remote_ip u8 u16 u32
  | Remote_cert u8 u16 u32
  | Remote_url u8 u16 u32

definition atype :: "u8 \<Rightarrow> u8 \<Rightarrow> u8" where
  "atype a1 a2 = push_bit 4 a1 OR a2"

definition nullhid :: u16 where
  "nullhid = - 1"

section \<open>The record file\<close>

datatype node_type =
    NT_FILE | NT_MEM | NT_PIPE | NT_INTRAHOST_CONN | NT_INET_SRC | NT_INET_SINK | NT_INET
  | NT_ENTERP_SRC | NT_ENTERP_SINK | NT_ENTERP

fun node_num :: "node_type \<Rightarrow> u64" where
  "node_num NT_FILE = 0" | "node_num NT_MEM = 1" | "node_num NT_PIPE = 2" | "node_num NT_INTRAHOST_CONN = 3"
| "node_num NT_INET_SRC = 4" | "node_num NT_INET_SINK = 5" | "node_num NT_INET = 6"
| "node_num NT_ENTERP_SRC = 7" | "node_num NT_ENTERP_SINK = 8" | "node_num NT_ENTERP = 9"

datatype rline =
    L_start u64
  | L_user cstr u16
  | L_group cstr u16 "u16 list"
  | L_str cstr
  | L_LP u16 u16 u8 u8
  | L_RI u32 u16 u8 u8
  | L_RC u32 u16 u8
  | L_op string "u64 list" "u64 list" "u64 list" u64
  | L_end

record rhost =
  rh_lines :: "rline list"
  rh_oop :: u64
  rh_sop :: u64
  rh_strs :: "cstr list"
  rh_princs :: "principal list"
  rh_oid :: "nat \<Rightarrow> 49 word"

type_synonym 'a recorder = "rhost \<Rightarrow> ('a \<times> rhost) outcome"

definition hret :: "'a \<Rightarrow> 'a recorder" where
  "hret x h = Fine (x, h)"

definition hbind :: "'a recorder \<Rightarrow> ('a \<Rightarrow> 'b recorder) \<Rightarrow> 'b recorder" where
  "hbind f g h = obind (f h) (\<lambda>(x, h). g x h)"

definition put_line :: "rline \<Rightarrow> unit recorder" where
  "put_line l h = Fine ((), h\<lparr>rh_lines := rh_lines h @ [l]\<rparr>)"

definition nulliid :: u64 where
  "nulliid = 2 ^ 48"

definition iid :: "u64 \<Rightarrow> u64 list" where
  "iid i = (if i \<noteq> nulliid then [i] else [])"

text \<open>A line of an operation: its name, numbers, the subjects and the object it is about, and the time.\<close>

definition doRec :: "string \<Rightarrow> u64 list \<Rightarrow> u64 \<Rightarrow> u64 \<Rightarrow> u64 \<Rightarrow> u64 \<Rightarrow> unit recorder" where
  "doRec opnm args ts inSubj inObj inSubj2 = put_line (L_op opnm args (iid inSubj @ iid inSubj2) (iid inObj) ts)"

definition startRecording :: "u64 \<Rightarrow> unit recorder" where
  "startRecording rounding = put_line (L_start rounding)"

definition finishRecording :: "unit recorder" where
  "finishRecording = put_line L_end"

section \<open>Strings, users and principals\<close>

definition h_str :: "u32 \<Rightarrow> rhost \<Rightarrow> cstr" where
  "h_str i h = (if i = nullstr then [] else if unat i < length (rh_strs h) then rh_strs h ! unat i else rh_strs h ! 0)"

definition h_create :: "cstr \<Rightarrow> u32 recorder" where
  "h_create t h =
     (case index_of t (rh_strs h) of
        Some i \<Rightarrow> Fine (of_nat i, h)
      | None \<Rightarrow> Fine (of_nat (length (rh_strs h)), h\<lparr>rh_strs := rh_strs h @ [t], rh_lines := rh_lines h @ [L_str t]\<rparr>))"

definition addUser :: "u16 \<Rightarrow> cstr \<Rightarrow> unit recorder" where
  "addUser uid name = put_line (L_user name uid)"

definition addGroup :: "u16 \<Rightarrow> cstr \<Rightarrow> u16 list \<Rightarrow> unit recorder" where
  "addGroup gid name mems = put_line (L_group name gid mems)"

definition add_principal :: "principal \<Rightarrow> rline \<Rightarrow> u32 recorder" where
  "add_principal p l h =
     (case index_of p (rh_princs h) of
        Some i \<Rightarrow> Fine (of_nat i, h)
      | None \<Rightarrow> Fine (of_nat (length (rh_princs h)), h\<lparr>rh_princs := rh_princs h @ [p], rh_lines := rh_lines h @ [l]\<rparr>))"

text \<open>User and group ids are cut to 16 bits by the type of the parameters.\<close>

definition addLocalPrincipal :: "s32 \<Rightarrow> s32 \<Rightarrow> u8 \<Rightarrow> u32 recorder" where
  "addLocalPrincipal uid gid a1 h =
     (if a1 \<le> MAX_USER_AUTH
      then add_principal (Enterprise_user (atype a1 AUTH_NONE) (ucast uid) (ucast gid) nullhid)
             (L_LP (ucast uid) (ucast gid) a1 AUTH_NONE) h
      else Crash)"

definition addRemotePrincipal :: "u32 \<Rightarrow> u16 \<Rightarrow> u8 \<Rightarrow> u32 recorder" where
  "addRemotePrincipal ipaddr port a1 h =
     (if a1 > MAX_USER_AUTH \<and> a1 \<le> MAX_REMOTE_AUTH
      then add_principal (Remote_ip (atype a1 AUTH_NONE) port ipaddr) (L_RI ipaddr port a1 AUTH_NONE) h
      else Crash)"

definition addRemoteCert :: "u32 \<Rightarrow> u16 \<Rightarrow> u8 \<Rightarrow> u32 recorder" where
  "addRemoteCert cert port a1 h =
     (if a1 > MAX_USER_AUTH \<and> a1 \<le> MAX_REMOTE_AUTH
      then add_principal ((if a1 = CERTIFICATE then Remote_cert else Remote_url) (atype a1 AUTH_NONE) port cert) (L_RC cert port a1) h
      else Crash)"

section \<open>Operations of the host\<close>

definition next_obj :: "u64 recorder" where
  "next_obj h = Fine (rh_oop h, h\<lparr>rh_oop := rh_oop h + 1\<rparr>)"

definition next_subj :: "u64 recorder" where
  "next_subj h = Fine (rh_sop h, h\<lparr>rh_sop := rh_sop h + 1\<rparr>)"

definition hdo :: "unit recorder \<Rightarrow> 'a recorder \<Rightarrow> 'a recorder" where
  "hdo f g = hbind f (\<lambda>_. g)"

definition h_createObj :: "u32 \<Rightarrow> u32 \<Rightarrow> u64 \<Rightarrow> bool \<Rightarrow> u16 \<Rightarrow> node_type \<Rightarrow> u64 recorder" where
  "h_createObj nm owner ts force perm nt =
     hbind next_obj (\<lambda>oi.
     hdo (doRec ''CrLO'' ([ucast nm, node_num nt, ucast owner, ucast perm] @ (if force then [1] else [])) ts nulliid nulliid nulliid)
         (hret oi))"

definition preExistingSubj :: "s32 \<Rightarrow> u32 \<Rightarrow> u32 \<Rightarrow> s32 \<Rightarrow> u64 \<Rightarrow> u64 recorder" where
  "preExistingSubj mypid owner cmd parent_pid ts =
     hbind next_subj (\<lambda>child.
     hdo (doRec ''prS'' [scast mypid, ucast owner, ucast cmd, scast parent_pid, 0] ts nulliid nulliid nulliid) (hret child))"

definition h_clone :: "u64 \<Rightarrow> s32 \<Rightarrow> u32 \<Rightarrow> u64 \<Rightarrow> u64 recorder" where
  "h_clone parent childpid flags ts =
     hbind next_subj (\<lambda>child.
     hdo (doRec ''cln'' [scast childpid, ucast flags, 0] ts parent nulliid nulliid) (hret child))"

definition h_creat :: "u64 \<Rightarrow> node_type \<Rightarrow> u32 \<Rightarrow> u16 \<Rightarrow> u64 \<Rightarrow> u64 recorder" where
  "h_creat s nt nm perm ts =
     hbind next_obj (\<lambda>no.
     hdo (doRec ''creat'' [node_num nt, ucast nm, ucast perm, 0] ts s nulliid nulliid) (hret no))"

definition h_execve :: "u64 \<Rightarrow> u32 \<Rightarrow> u64 \<Rightarrow> u64 \<Rightarrow> unit recorder" where
  "h_execve s cmdln bin ts = doRec ''exve'' [ucast cmdln] ts s bin nulliid"

definition h_exit :: "u64 \<Rightarrow> u64 \<Rightarrow> unit recorder" where
  "h_exit s ts = doRec ''exit'' [] ts s nulliid nulliid"

definition h_setuid :: "u64 \<Rightarrow> u32 \<Rightarrow> u64 \<Rightarrow> unit recorder" where
  "h_setuid s nprinc ts = doRec ''suid'' [ucast nprinc] ts s nulliid nulliid"

definition h_open :: "u64 \<Rightarrow> u64 \<Rightarrow> u32 \<Rightarrow> u64 \<Rightarrow> unit recorder" where
  "h_open s oo flags ts = doRec ''open'' [ucast flags] ts s oo nulliid"

definition h_chown :: "u64 \<Rightarrow> u64 \<Rightarrow> u32 \<Rightarrow> u64 \<Rightarrow> unit recorder" where
  "h_chown s oo nowner ts = doRec ''chwn'' [ucast nowner] ts s oo nulliid"

definition h_chmod :: "u64 \<Rightarrow> u64 \<Rightarrow> u16 \<Rightarrow> u64 \<Rightarrow> unit recorder" where
  "h_chmod s oo p ts = doRec ''chmd'' [ucast p] ts s oo nulliid"

definition h_mprotect :: "u64 \<Rightarrow> u64 \<Rightarrow> u16 \<Rightarrow> u64 \<Rightarrow> unit recorder" where
  "h_mprotect s oo p ts = doRec ''mprot'' [ucast p] ts s oo nulliid"

definition h_mmap :: "u64 \<Rightarrow> u64 \<Rightarrow> u16 \<Rightarrow> u64 \<Rightarrow> unit recorder" where
  "h_mmap s oo p ts = doRec ''mmap'' [ucast p] ts s oo nulliid"

definition h_remove :: "u64 \<Rightarrow> u64 \<Rightarrow> u64 \<Rightarrow> unit recorder" where
  "h_remove s oo ts = doRec ''rm'' [] ts s oo nulliid"

definition h_rename :: "u64 \<Rightarrow> u64 \<Rightarrow> u32 \<Rightarrow> u64 \<Rightarrow> u32 \<Rightarrow> unit recorder" where
  "h_rename s oo newnm ts oldnm = doRec ''renm'' [ucast newnm, ucast oldnm] ts s oo nulliid"

definition h_read :: "u64 \<Rightarrow> u64 \<Rightarrow> u32 \<Rightarrow> u64 \<Rightarrow> unit recorder" where
  "h_read s oo buflen ts = doRec ''read'' [ucast buflen] ts s oo nulliid"

definition h_subjRead :: "u64 \<Rightarrow> u64 \<Rightarrow> u64 \<Rightarrow> unit recorder" where
  "h_subjRead s ss ts = doRec ''rdsub'' [] ts s nulliid ss"

definition h_loadlib :: "u64 \<Rightarrow> u64 \<Rightarrow> u64 \<Rightarrow> unit recorder" where
  "h_loadlib s oo ts = doRec ''load'' [] ts s oo nulliid"

definition h_inject :: "u64 \<Rightarrow> u64 \<Rightarrow> u64 \<Rightarrow> unit recorder" where
  "h_inject s ss ts = doRec ''inj'' [] ts s nulliid ss"

definition h_write :: "u64 \<Rightarrow> u64 \<Rightarrow> u32 \<Rightarrow> u64 \<Rightarrow> unit recorder" where
  "h_write s oo buflen ts = doRec ''wrt'' [ucast buflen] ts s oo nulliid"

definition h_close :: "u64 \<Rightarrow> u64 \<Rightarrow> u64 \<Rightarrow> unit recorder" where
  "h_close s oo ts = doRec ''clos'' [] ts s oo nulliid"

subsection \<open>Connections\<close>

definition ep_pair :: "string \<Rightarrow> u32 \<Rightarrow> u16 \<Rightarrow> u32 \<Rightarrow> u16 \<Rightarrow> cstr" where
  "ep_pair proto ip1 port1 ip2 port2 =
     ascii proto @ ascii '':'' @ hex_digits (unat ip1) @ ascii '':'' @ dec_digits (unat port1) @ ascii '':''
       @ hex_digits (unat ip2) @ ascii '':'' @ dec_digits (unat port2)"

text \<open>A name that is the same at both ends.\<close>

definition ordered_pair :: "string \<Rightarrow> u32 \<Rightarrow> u16 \<Rightarrow> u32 \<Rightarrow> u16 \<Rightarrow> cstr" where
  "ordered_pair proto localIP localPort remIP remPort =
     (if localIP < remIP \<or> localIP = remIP \<and> localPort < remPort
      then ep_pair proto localIP localPort remIP remPort else ep_pair proto remIP remPort localIP localPort)"

definition createRemObjPair :: "u32 list \<Rightarrow> (u32 \<times> u32) list \<Rightarrow> u32 \<Rightarrow> u32 \<Rightarrow> u16 \<Rightarrow> u32 \<Rightarrow> u16 \<Rightarrow> u64 \<Rightarrow> bool \<Rightarrow> (u64 \<times> u64) recorder" where
  "createRemObjPair myAddr nets defaultUser localIP localPort remIP remPort ts created =
     (if remIP \<in> set myAddr
      then hbind (h_create (ordered_pair ''LOCAL'' localIP localPort remIP remPort)) (\<lambda>n.
           hbind (h_createObj n defaultUser ts created 0 NT_INTRAHOST_CONN) (\<lambda>oi. hret (oi, oi)))
      else
        let enterp = (\<exists>(mask, net)\<in>set nets. remIP AND mask = net);
            nm = (if enterp then ordered_pair ''IP'' localIP localPort remIP remPort
                  else ascii ''IP:'' @ hex_digits (unat remIP) @ ascii '':'' @ dec_digits (unat remPort) @ ascii ''.''
                    @ dec_int (ucast (ts div 600000000)) @ ascii ''H'') in
        hbind (h_create nm) (\<lambda>n.
        hbind (addRemotePrincipal remIP 0 (if enterp then ENTERPRISE_ENDPOINT else TCP)) (\<lambda>remPrinc.
        hbind (h_createObj n remPrinc ts created 0 (if enterp then NT_ENTERP_SRC else NT_INET_SRC)) (\<lambda>src.
        hbind (h_createObj n remPrinc ts created 0 (if enterp then NT_ENTERP_SINK else NT_INET_SINK)) (\<lambda>sink.
          hret (src, sink))))))"

section \<open>The client\<close>

text \<open>
  The strings \<open>argv\<close> and \<open>envp\<close> of a subject (the subject keeps them after the first call, even across
  \<open>execve\<close>) and the ten-minute epoch of a time, which is computed with doubles, are parameters.
\<close>

record rconf =
  rf_argv :: "subj \<Rightarrow> rhost \<Rightarrow> cstr list"
  rf_envp :: "subj \<Rightarrow> rhost \<Rightarrow> cstr list"
  rf_epoch :: "u64 \<Rightarrow> s32"

fun join_strs :: "cstr \<Rightarrow> cstr list \<Rightarrow> cstr" where
  "join_strs sep [] = []"
| "join_strs sep [t] = t"
| "join_strs sep (t # ts) = t @ sep @ join_strs sep ts"

definition mkcmdln :: "cstr list \<Rightarrow> cstr list \<Rightarrow> u32 recorder" where
  "mkcmdln argv envp =
     h_create (join_strs (ascii '' '') argv @ (if envp \<noteq> [] then ascii '' ; envp='' @ join_strs (ascii '';;'') envp else []))"

definition us :: "u64 \<Rightarrow> u64" where
  "us ts = ts div 1000"

definition oid_of :: "obj \<Rightarrow> rhost \<Rightarrow> u64" where
  "oid_of oo h = ucast (rh_oid h (ob_addr oo))"

definition set_oid :: "obj \<Rightarrow> u64 \<Rightarrow> unit recorder" where
  "set_oid oo i h = Fine ((), h\<lparr>rh_oid := (rh_oid h)(ob_addr oo := ucast i)\<rparr>)"

text \<open>The array of the arguments has room for \<open>max_args\<close> pointers, the last of them null.\<close>

definition rec_existingSubj :: "rconf \<Rightarrow> subj \<Rightarrow> u64 \<Rightarrow> u64 recorder" where
  "rec_existingSubj f s ts =
     hbind (addLocalPrincipal (sj_uid s) (sj_gid s) PASSWORD) (\<lambda>prid h.
       case sj_exe s of
         None \<Rightarrow> Crash
       | Some exe \<Rightarrow>
           if length (rf_argv f s h) \<ge> max_args then Crash
           else hbind (mkcmdln (h_str (ob_nm exe) h # drop 1 (rf_argv f s h)) (rf_envp f s h))
                  (\<lambda>cmdln. preExistingSubj (sj_tid s) prid cmdln (sj_ptid s) (us ts)) h)"

definition rec_existingObj :: "obj \<Rightarrow> u64 \<Rightarrow> unit recorder" where
  "rec_existingObj oo ts h =
     (if ob_type oo \<noteq> FILET then Crash
      else hbind (addLocalPrincipal (ob_uid oo) (ob_gid oo) PASSWORD) (\<lambda>prid.
           hbind (h_createObj (ob_nm oo) prid (us ts) False (ucast (ob_mode oo)) NT_FILE) (set_oid oo)) h)"

definition rec_clone :: "subj \<Rightarrow> subj option \<Rightarrow> s32 \<Rightarrow> u64 \<Rightarrow> u64 recorder" where
  "rec_clone parent child flg ts h =
     (case child of None \<Rightarrow> Crash | Some c \<Rightarrow> h_clone (sj_id parent) (sj_tid c) flg (us ts) h)"

definition rec_createObj :: "rconf \<Rightarrow> u32 \<Rightarrow> obj \<Rightarrow> s32 \<Rightarrow> s32 \<Rightarrow> u64 \<Rightarrow> unit recorder" where
  "rec_createObj f remPrinc oo uid gid ts h =
     (let nm = h_str (ob_nm oo) h; suffix = ascii '';'' @ dec_digits (unat (ob_id oo)) in
      if ob_type oo = SOCKETT
      then hbind (h_create (nm @ ascii ''@'' @ dec_int (rf_epoch f ts) @ suffix)) (\<lambda>name.
           hbind (h_createObj name remPrinc (us ts) False 0 NT_INET) (set_oid oo)) h
      else hbind (h_create (nm @ suffix)) (\<lambda>name.
           hbind (addLocalPrincipal uid gid PASSWORD) (\<lambda>princ.
           hbind (h_createObj name princ (us ts) False (ucast (ob_mode oo)) (if ob_type oo = PIPET then NT_PIPE else NT_FILE))
             (set_oid oo))) h)"

text \<open>An object that has no number yet gets one.\<close>

definition known_obj :: "rconf \<Rightarrow> u32 \<Rightarrow> obj \<Rightarrow> u64 \<Rightarrow> (u64 \<Rightarrow> unit recorder) \<Rightarrow> unit recorder" where
  "known_obj f rp oo ts k h =
     hdo (if oid_of oo h = nulliid then rec_createObj f rp oo (ob_uid oo) (ob_gid oo) ts else hret ()) (\<lambda>h. k (oid_of oo h) h) h"

definition rec_execve :: "rconf \<Rightarrow> u32 \<Rightarrow> subj \<Rightarrow> obj \<Rightarrow> u64 \<Rightarrow> unit recorder" where
  "rec_execve f rp s oo ts h =
     hbind (mkcmdln (rf_argv f s h) (rf_envp f s h)) (\<lambda>cmdln.
       known_obj f rp oo ts (\<lambda>i. h_execve (sj_id s) cmdln i (us ts))) h"

definition rec_setuid :: "subj \<Rightarrow> s64 \<Rightarrow> u64 \<Rightarrow> unit recorder" where
  "rec_setuid s euid ts = hbind (addLocalPrincipal (ucast euid) (sj_gid s) PASSWORD) (\<lambda>prid. h_setuid (sj_id s) prid (us ts))"

definition rec_setgid :: "subj \<Rightarrow> s64 \<Rightarrow> u64 \<Rightarrow> unit recorder" where
  "rec_setgid s egid ts = hbind (addLocalPrincipal (sj_uid s) (ucast egid) PASSWORD) (\<lambda>prid. h_setuid (sj_id s) prid (us ts))"

definition rec_open :: "subj \<Rightarrow> obj \<Rightarrow> s32 \<Rightarrow> u64 \<Rightarrow> unit recorder" where
  "rec_open s oo mode ts h =
     (if oid_of oo h = nulliid then hbind (h_creat (sj_id s) NT_FILE (ob_nm oo) (ucast mode) (us ts)) (set_oid oo) h
      else hret () h)"

text \<open>
  The calls the recorder is told; the result is the number of a new subject. The method \<open>chown\<close> of the
  recorder has no parameter for the descriptor, so it does not override the one that is called.
\<close>

fun recorder :: "rconf \<Rightarrow> u32 \<Rightarrow> client_call \<Rightarrow> u64 option recorder" where
  "recorder f rp (K_existingSubj s ts) = hbind (rec_existingSubj f s ts) (\<lambda>i. hret (Some i))"
| "recorder f rp (K_existingObj s oo ts) = hdo (rec_existingObj oo ts) (hret None)"
| "recorder f rp (K_clone s c flg ts) = hbind (rec_clone s c flg ts) (\<lambda>i. hret (Some i))"
| "recorder f rp (K_execve s oo flg ts) = hdo (rec_execve f rp s oo ts) (hret None)"
| "recorder f rp (K_exit s st ts) = hdo (h_exit (sj_id s) (us ts)) (hret None)"
| "recorder f rp (K_ptrace s t req rv ts) = hdo (h_inject (sj_id s) (sj_id t) (us ts)) (hret None)"
| "recorder f rp (K_setuid s euid ruid suid rv ts) = hdo (rec_setuid s euid ts) (hret None)"
| "recorder f rp (K_setgid s egid rgid sgid rv ts) = hdo (rec_setgid s egid ts) (hret None)"
| "recorder f rp (K_accept s oo fd rv ts) = hdo (rec_createObj f rp oo 0 0 ts) (hret None)"
| "recorder f rp (K_connect s oo fd rv ts) = hdo (rec_createObj f rp oo 0 0 ts) (hret None)"
| "recorder f rp (K_open s oo flg mode rv ts) = hdo (rec_open s oo mode ts) (hret None)"
| "recorder f rp (K_mkdir s nm mode rv ts) =
     hbind (h_creat (sj_id s) NT_FILE nm (ucast mode) (us ts)) (\<lambda>_. hret None)"
| "recorder f rp (K_read s oo fd rv ts) = hdo (known_obj f rp oo ts (\<lambda>i. h_read (sj_id s) i (ucast rv) (us ts))) (hret None)"
| "recorder f rp (K_write s oo fd rv ts) = hdo (known_obj f rp oo ts (\<lambda>i. h_write (sj_id s) i (ucast rv) (us ts))) (hret None)"
| "recorder f rp (K_mmap s oo adr len prot flg rv ts) =
     hdo (known_obj f rp oo ts (\<lambda>i. h_mmap (sj_id s) i (ucast prot) (us ts))) (hret None)"
| "recorder f rp (K_rename s oo nm flg rv ts) =
     hdo (known_obj f rp oo ts (\<lambda>i. h_rename (sj_id s) i nm (us ts) nullstr)) (hret None)"
| "recorder f rp (K_unlink s oo rv ts) = hdo (known_obj f rp oo ts (\<lambda>i. h_remove (sj_id s) i (us ts))) (hret None)"
| "recorder f rp (K_chmod s oo mode rv ts fd) =
     hdo (known_obj f rp oo ts (\<lambda>i. h_chmod (sj_id s) i (ucast mode) (us ts))) (hret None)"
| "recorder f rp _ = hret None"

definition empty_host :: rhost where
  "empty_host = \<lparr>rh_lines = [], rh_oop = 0, rh_sop = 0, rh_strs = [], rh_princs = [], rh_oid = \<lambda>_. nulloiid\<rparr>"

text \<open>The start of the recorder returns the principal of remote objects; subject 0 is the init process.\<close>

definition recorder_start :: "u32 recorder" where
  "recorder_start =
     hdo (startRecording 1000) (hbind (h_create (ascii ''_init'')) (\<lambda>_.
     hbind next_subj (\<lambda>_.
     hdo (addUser 0 (ascii ''root'')) (hdo (addGroup 0 (ascii ''root'') [0]) (
     hbind (addLocalPrincipal 0 0 AUTH_OS) (\<lambda>_.
     hdo (addUser (- 2) (ascii ''defaultUser'')) (hdo (addGroup (- 2) (ascii ''defaultGrp'') [- 2]) (
     hbind (addLocalPrincipal (- 2) (- 2) PASSWORD) (\<lambda>_. addRemotePrincipal 0 0 IPADDR)))))))))"

fun record_session :: "rconf \<Rightarrow> u32 \<Rightarrow> client_call list \<Rightarrow> unit recorder" where
  "record_session f rp [] = finishRecording"
| "record_session f rp (k # ks) = hbind (recorder f rp k) (\<lambda>_. record_session f rp ks)"

end
