(* ===== verification/Recorder_Props.thy ===== *)
theory Recorder_Props
  imports Recorder
begin

text \<open>
  The record file can be replayed: every number of an object or a subject in it refers to one that an
  earlier line made, and no two objects of the consumer share a number.
\<close>

section \<open>Reading the file\<close>

text \<open>What a reader counts: the lines that make an object or a subject.\<close>

definition obj_ops :: "string set" where
  "obj_ops = {''CrLO'', ''creat''}"

definition subj_ops :: "string set" where
  "subj_ops = {''prS'', ''cln''}"

text \<open>Operations on an object.\<close>

definition uses_obj :: "string set" where
  "uses_obj = {''exve'', ''read'', ''wrt'', ''mmap'', ''renm'', ''rm'', ''chmd''}"

fun resolved :: "nat \<Rightarrow> nat \<Rightarrow> rline list \<Rightarrow> bool" where
  "resolved no ns [] \<longleftrightarrow> True"
| "resolved no ns (L_op nm args ss os ts # ls) \<longleftrightarrow>
     (\<forall>i\<in>set ss. unat i < ns) \<and> (\<forall>i\<in>set os. unat i < no) \<and> (nm \<in> uses_obj \<longrightarrow> os \<noteq> [])
     \<and> resolved (no + of_bool (nm \<in> obj_ops)) (ns + of_bool (nm \<in> subj_ops)) ls"
| "resolved no ns (_ # ls) \<longleftrightarrow> resolved no ns ls"

fun makes :: "string set \<Rightarrow> rline \<Rightarrow> bool" where
  "makes ops (L_op nm args ss os ts) \<longleftrightarrow> nm \<in> ops"
| "makes ops _ \<longleftrightarrow> False"

definition made :: "string set \<Rightarrow> rline list \<Rightarrow> nat" where
  "made ops ls = length (filter (makes ops) ls)"

lemma made_append [simp]: "made ops (xs @ ys) = made ops xs + made ops ys"
  by (simp add: made_def)

lemma made_Cons: "made ops (l # ls) = of_bool (makes ops l) + made ops ls"
  by (simp add: made_def)

lemma made_Nil [simp]: "made ops [] = 0"
  by (simp add: made_def)

lemma resolved_append:
  "resolved no ns (xs @ ys) \<longleftrightarrow> resolved no ns xs \<and> resolved (no + made obj_ops xs) (ns + made subj_ops xs) ys"
proof (induction no ns xs rule: resolved.induct)
  case (2 no ns nm args ss os ts ls)
  then show ?case by (simp add: made_Cons add.assoc)
qed (simp_all add: made_Cons)

section \<open>The invariant of the recorder\<close>

definition rec_inv :: "rhost \<Rightarrow> bool" where
  "rec_inv h \<longleftrightarrow> resolved 0 1 (rh_lines h) \<and> unat (rh_oop h) = made obj_ops (rh_lines h)
     \<and> unat (rh_sop h) = 1 + made subj_ops (rh_lines h)
     \<and> (\<forall>k. rh_oid h k \<noteq> nulloiid \<longrightarrow> unat (rh_oid h k) < unat (rh_oop h))
     \<and> (\<forall>j k. rh_oid h j \<noteq> nulloiid \<longrightarrow> rh_oid h j = rh_oid h k \<longrightarrow> j = k)"

text \<open>Operations that write no line of an operation.\<close>

definition silent :: "rhost \<Rightarrow> rhost \<Rightarrow> bool" where
  "silent h h' \<longleftrightarrow> (\<exists>ls. rh_lines h' = rh_lines h @ ls \<and> (\<forall>l\<in>set ls. \<forall>nm args ss os ts. l \<noteq> L_op nm args ss os ts))
     \<and> rh_oop h' = rh_oop h \<and> rh_sop h' = rh_sop h \<and> rh_oid h' = rh_oid h"

lemma silent_refl: "silent h h"
  by (simp add: silent_def)

lemma silent_trans: "silent h h' \<Longrightarrow> silent h' h'' \<Longrightarrow> silent h h''"
  unfolding silent_def by force

lemma resolved_no_ops:
  "\<forall>l\<in>set ls. \<forall>nm args ss os ts. l \<noteq> L_op nm args ss os ts \<Longrightarrow> resolved no ns ls \<and> made ops ls = 0"
proof (induction ls)
  case (Cons l ls)
  then show ?case by (cases l) (simp_all add: made_Cons)
qed simp

lemma rec_inv_silent: "rec_inv h \<Longrightarrow> silent h h' \<Longrightarrow> rec_inv h'"
  using resolved_no_ops by (fastforce simp: rec_inv_def silent_def resolved_append)

lemma hbind_Fine: "f h = Fine (x, h') \<Longrightarrow> hbind f g h = g x h'"
  by (simp add: hbind_def)

lemma hdo_Fine: "f h = Fine ((), h') \<Longrightarrow> hdo f g h = g h'"
  by (simp add: hdo_def hbind_Fine)

lemma h_create_silent: "\<exists>i h'. h_create t h = Fine (i, h') \<and> silent h h'"
  by (auto simp: h_create_def silent_def split: option.split)

lemma add_principal_silent:
  "\<forall>nm args ss os ts. l \<noteq> L_op nm args ss os ts \<Longrightarrow> \<exists>i h'. add_principal p l h = Fine (i, h') \<and> silent h h'"
  by (auto simp: add_principal_def silent_def split: option.split)

lemma addLocal_silent: "\<exists>i h'. addLocalPrincipal uid gid PASSWORD h = Fine (i, h') \<and> silent h h'"
  using add_principal_silent by (simp add: addLocalPrincipal_def PASSWORD_def MAX_USER_AUTH_def)

lemma mkcmdln_silent: "\<exists>i h'. mkcmdln as es h = Fine (i, h') \<and> silent h h'"
  unfolding mkcmdln_def by (rule h_create_silent)

text \<open>A line of an operation that makes nothing.\<close>

definition line :: "rline \<Rightarrow> rhost \<Rightarrow> rhost" where
  "line l h = h\<lparr>rh_lines := rh_lines h @ [l]\<rparr>"

lemma doRec_line: "doRec nm args ts s oo s2 h = Fine ((), line (L_op nm args (iid s @ iid s2) (iid oo) ts) h)"
  by (simp add: doRec_def put_line_def line_def)

lemma rec_inv_line:
  assumes "rec_inv h" "nm \<notin> obj_ops" "nm \<notin> subj_ops" "\<forall>i\<in>set ss. unat i < unat (rh_sop h)" "\<forall>i\<in>set os. unat i < unat (rh_oop h)"
    and "nm \<in> uses_obj \<longrightarrow> os \<noteq> []"
  shows "rec_inv (line (L_op nm args ss os ts) h)"
  using assms by (auto simp: rec_inv_def line_def resolved_append made_Cons)

definition knows :: "rhost \<Rightarrow> u64 \<Rightarrow> bool" where
  "knows h i \<longleftrightarrow> unat i < unat (rh_sop h)"

lemma knows_silent: "silent h h' \<Longrightarrow> knows h' i = knows h i"
  by (simp add: knows_def silent_def)

lemma set_iid: "(\<forall>i\<in>set (iid j). P i) \<longleftrightarrow> (j \<noteq> nulliid \<longrightarrow> P j)"
  by (simp add: iid_def)

subsection \<open>New objects and subjects\<close>

text \<open>What a call may do to the state: keep the invariant and make at most one object and one subject.\<close>

definition counted :: "rhost \<Rightarrow> rhost \<Rightarrow> bool" where
  "counted h h' \<longleftrightarrow> rec_inv h' \<and> unat (rh_oop h') \<le> unat (rh_oop h) + 1 \<and> unat (rh_sop h') \<le> unat (rh_sop h) + 1
     \<and> unat (rh_sop h) \<le> unat (rh_sop h')"

lemma counted_silent: "rec_inv h \<Longrightarrow> silent h h' \<Longrightarrow> counted h h'"
  using rec_inv_silent by (auto simp: counted_def silent_def)

lemma counted_after_silent: "silent h h' \<Longrightarrow> counted h' h'' \<Longrightarrow> counted h h''"
  by (simp add: counted_def silent_def)

lemma unat_Suc48: "unat (i :: u64) < 2 ^ 48 \<Longrightarrow> unat (i + 1) = unat i + 1"
  by (simp add: unat_word_ariths(1))

lemma oid_roundtrip: "unat (i :: u64) < 2 ^ 48 \<Longrightarrow> unat (ucast i :: 49 word) = unat i"
  by (simp add: unsigned_ucast_eq take_bit_nat_eq_self)

lemma oid_wide: "unat (ucast (w :: 49 word) :: u64) = unat w"
proof -
  have "unat w < 2 ^ 49" using unsigned_less [where ?'a = nat, of w] by simp
  then show ?thesis by (simp add: unsigned_ucast_eq take_bit_nat_eq_self)
qed

lemma oid_not_null: "unat (i :: u64) < 2 ^ 48 \<Longrightarrow> (ucast i :: 49 word) \<noteq> nulloiid"
proof
  assume "unat i < 2 ^ 48" "(ucast i :: 49 word) = nulloiid"
  then have "unat (nulloiid) < 2 ^ 48" using oid_roundtrip by metis
  then show False by (simp add: nulloiid_def)
qed

definition new_number :: "rline \<Rightarrow> rhost \<Rightarrow> rhost" where
  "new_number l h = h\<lparr>rh_oop := rh_oop h + 1, rh_lines := rh_lines h @ [l]\<rparr>"

definition give_number :: "nat \<Rightarrow> rline \<Rightarrow> rhost \<Rightarrow> rhost" where
  "give_number k l h = (new_number l h)\<lparr>rh_oid := (rh_oid h)(k := ucast (rh_oop h))\<rparr>"

lemma new_number_counted:
  assumes "rec_inv h" "unat (rh_oop h) < 2 ^ 48" "nm \<in> obj_ops" "\<forall>i\<in>set ss. knows h i"
  shows "counted h (new_number (L_op nm args ss [] ts) h)"
proof -
  have "nm \<notin> subj_ops" "nm \<notin> uses_obj" using assms(3) by (auto simp: obj_ops_def subj_ops_def uses_obj_def)
  then show ?thesis
    using assms unat_Suc48 [OF assms(2)]
    by (auto simp: counted_def rec_inv_def new_number_def resolved_append made_Cons knows_def less_Suc_eq)
qed

lemma give_number_counted:
  assumes "rec_inv h" "unat (rh_oop h) < 2 ^ 48" "nm \<in> obj_ops" "\<forall>i\<in>set ss. knows h i"
  shows "counted h (give_number k (L_op nm args ss [] ts) h)"
proof -
  let ?h = "new_number (L_op nm args ss [] ts) h"
  have old: "counted h ?h" by (rule new_number_counted [OF assms])
  have oop: "unat (rh_oop ?h) = unat (rh_oop h) + 1" using unat_Suc48 [OF assms(2)] by (simp add: new_number_def)
  have new: "unat (ucast (rh_oop h) :: 49 word) = unat (rh_oop h)" by (rule oid_roundtrip [OF assms(2)])
  have less: "unat (rh_oid h j) < unat (rh_oop h)" if "rh_oid h j \<noteq> nulloiid" for j
    using assms(1) that unfolding rec_inv_def by blast
  have "rec_inv ((?h)\<lparr>rh_oid := (rh_oid h)(k := ucast (rh_oop h))\<rparr>)"
    using old less oop new by (fastforce simp: counted_def rec_inv_def new_number_def)
  then show ?thesis using old by (simp add: counted_def give_number_def)
qed

lemma createObj_gives:
  "hbind (h_createObj nm owner ts force perm nt) (set_oid oo) h =
     Fine ((), give_number (ob_addr oo) (L_op ''CrLO'' ([ucast nm, node_num nt, ucast owner, ucast perm] @ (if force then [1] else [])) [] [] ts) h)"
  by (simp add: h_createObj_def hbind_def hdo_def next_obj_def doRec_line set_oid_def hret_def give_number_def new_number_def
      line_def iid_def)

lemma creat_gives:
  "hbind (h_creat s nt nm perm ts) (set_oid oo) h =
     Fine ((), give_number (ob_addr oo) (L_op ''creat'' [node_num nt, ucast nm, ucast perm, 0] (iid s) [] ts) h)"
  by (simp add: h_creat_def hbind_def hdo_def next_obj_def doRec_line set_oid_def hret_def give_number_def new_number_def
      line_def iid_def)

lemma creat_numbers:
  "h_creat s nt nm perm ts h = Fine (rh_oop h, new_number (L_op ''creat'' [node_num nt, ucast nm, ucast perm, 0] (iid s) [] ts) h)"
  by (simp add: h_creat_def hbind_def hdo_def next_obj_def doRec_line hret_def new_number_def line_def iid_def)

lemma given_number:
  "unat (rh_oop h) < 2 ^ 48 \<Longrightarrow> unat (oid_of oo (give_number (ob_addr oo) l h)) < unat (rh_oop (give_number (ob_addr oo) l h))"
proof -
  assume b: "unat (rh_oop h) < 2 ^ 48"
  have "unat (oid_of oo (give_number (ob_addr oo) l h)) = unat (rh_oop h)"
    unfolding oid_of_def oid_wide using oid_roundtrip [OF b] by (simp add: give_number_def new_number_def)
  then show ?thesis using unat_Suc48 [OF b] by (simp add: give_number_def new_number_def)
qed

definition new_subject :: "rline \<Rightarrow> rhost \<Rightarrow> rhost" where
  "new_subject l h = h\<lparr>rh_sop := rh_sop h + 1, rh_lines := rh_lines h @ [l]\<rparr>"

lemma new_subject_counted:
  assumes "rec_inv h" "unat (rh_sop h) < 2 ^ 48" "nm \<in> subj_ops" "\<forall>i\<in>set ss. knows h i"
  shows "counted h (new_subject (L_op nm args ss [] ts) h)"
proof -
  have "nm \<notin> obj_ops" "nm \<notin> uses_obj" using assms(3) by (auto simp: obj_ops_def subj_ops_def uses_obj_def)
  then show ?thesis
    using assms unat_Suc48 [OF assms(2)]
    by (auto simp: counted_def rec_inv_def new_subject_def resolved_append made_Cons knows_def)
qed

lemma subject_lines:
  "preExistingSubj pid owner cmd ppid ts h =
     Fine (rh_sop h, new_subject (L_op ''prS'' [scast pid, ucast owner, ucast cmd, scast ppid, 0] [] [] ts) h)"
  "h_clone parent pid flags ts h = Fine (rh_sop h, new_subject (L_op ''cln'' [scast pid, ucast flags, 0] (iid parent) [] ts) h)"
  by (simp_all add: preExistingSubj_def h_clone_def hbind_def hdo_def next_subj_def doRec_line hret_def new_subject_def line_def iid_def)

section \<open>The methods\<close>

lemma ops: "''CrLO'' \<in> obj_ops" "''creat'' \<in> obj_ops" "''prS'' \<in> subj_ops" "''cln'' \<in> subj_ops"
  by (simp_all add: obj_ops_def subj_ops_def)

lemma createObj_counted:
  assumes "rec_inv h" "unat (rh_oop h) < 2 ^ 48"
  shows "\<exists>h'. rec_createObj f rp oo uid gid ts h = Fine ((), h') \<and> counted h h' \<and> unat (oid_of oo h') < unat (rh_oop h') \<and> rh_sop h' = rh_sop h"
proof -
  obtain nm where nm: "rec_createObj f rp oo uid gid ts h = hbind (h_create nm) (\<lambda>name.
      if ob_type oo = SOCKETT then hbind (h_createObj name rp (us ts) False 0 NT_INET) (set_oid oo)
      else hbind (addLocalPrincipal uid gid PASSWORD) (\<lambda>princ.
           hbind (h_createObj name princ (us ts) False (ucast (ob_mode oo)) (if ob_type oo = PIPET then NT_PIPE else NT_FILE))
             (set_oid oo))) h"
    by (cases "ob_type oo = SOCKETT") (auto simp: rec_createObj_def Let_def)
  obtain n h1 where c: "h_create nm h = Fine (n, h1)" "silent h h1" using h_create_silent by blast
  obtain p h2 where a: "addLocalPrincipal uid gid PASSWORD h1 = Fine (p, h2)" "silent h1 h2" using addLocal_silent by blast
  have q2: "silent h h2" by (rule silent_trans [OF c(2) a(2)])
  have give: "counted h (give_number (ob_addr oo) (L_op ''CrLO'' args [] [] t) hx)
      \<and> unat (oid_of oo (give_number (ob_addr oo) (L_op ''CrLO'' args [] [] t) hx)) < unat (rh_oop (give_number (ob_addr oo) (L_op ''CrLO'' args [] [] t) hx))
      \<and> rh_sop (give_number (ob_addr oo) (L_op ''CrLO'' args [] [] t) hx) = rh_sop h"
    if q: "silent h hx" for hx args t
  proof -
    have b: "unat (rh_oop hx) < 2 ^ 48" using assms(2) q by (simp add: silent_def)
    have "counted hx (give_number (ob_addr oo) (L_op ''CrLO'' args [] [] t) hx)"
      by (rule give_number_counted [OF rec_inv_silent [OF assms(1) q] b ops(1)]) simp
    then show ?thesis
      using counted_after_silent [OF q] given_number [OF b] q by (simp add: give_number_def new_number_def silent_def)
  qed
  show ?thesis
    unfolding nm hbind_Fine [where f = "h_create nm", OF c(1)]
    using give [OF c(2)] give [OF q2] by (simp add: createObj_gives hbind_Fine [where f = "addLocalPrincipal uid gid PASSWORD", OF a(1)])
qed

text \<open>An operation on an object, which is numbered first if need be.\<close>

lemma oid_known: "rec_inv h \<Longrightarrow> oid_of oo h \<noteq> nulliid \<Longrightarrow> unat (oid_of oo h) < unat (rh_oop h)"
proof -
  assume inv: "rec_inv h" and "oid_of oo h \<noteq> nulliid"
  then have "rh_oid h (ob_addr oo) \<noteq> nulloiid" by (auto simp: oid_of_def nulliid_def nulloiid_def)
  then show ?thesis using inv oid_wide unfolding rec_inv_def oid_of_def by metis
qed

lemma known_obj_counted:
  assumes "rec_inv h" "unat (rh_oop h) < 2 ^ 48" "knows h s" "nm \<notin> obj_ops" "nm \<notin> subj_ops"
  shows "\<exists>h'. known_obj f rp oo ts (\<lambda>i. doRec nm args t s i nulliid) h = Fine ((), h') \<and> counted h h'"
proof -
  obtain h1 where h1: "(if oid_of oo h = nulliid then rec_createObj f rp oo (ob_uid oo) (ob_gid oo) ts else hret ()) h = Fine ((), h1)"
    "counted h h1" "unat (oid_of oo h1) < unat (rh_oop h1)" "rh_sop h1 = rh_sop h"
  proof (cases "oid_of oo h = nulliid")
    case True
    then show ?thesis using createObj_counted [OF assms(1,2), of f rp oo "ob_uid oo" "ob_gid oo" ts] that by auto
  next
    case False
    then show ?thesis using that [of h] counted_silent [OF assms(1) silent_refl] oid_known [OF assms(1) False] by (simp add: hret_def)
  qed
  let ?l = "L_op nm args (iid s @ iid nulliid) (iid (oid_of oo h1)) t"
  have "rec_inv (line ?l h1)"
  proof (rule rec_inv_line [OF _ assms(4,5)])
    show "rec_inv h1" using h1(2) by (simp add: counted_def)
    show "\<forall>i\<in>set (iid s @ iid nulliid). unat i < unat (rh_sop h1)" using assms(3) h1(4) by (simp add: iid_def knows_def)
    show "\<forall>i\<in>set (iid (oid_of oo h1)). unat i < unat (rh_oop h1)" using h1(3) by (simp add: iid_def)
    have "unat (oid_of oo h1) < 2 ^ 48" using h1(2,3) assms(2) by (simp add: counted_def)
    then have "oid_of oo h1 \<noteq> nulliid" by (auto simp: nulliid_def)
    then show "nm \<in> uses_obj \<longrightarrow> iid (oid_of oo h1) \<noteq> []" by (simp add: iid_def)
  qed
  then have "counted h (line ?l h1)" using h1(2) by (simp add: counted_def line_def)
  then show ?thesis using h1(1) by (simp only: known_obj_def hdo_def hbind_def obind.simps prod.case doRec_line) blast
qed

lemma line_counted:
  assumes "rec_inv h" "nm \<notin> obj_ops" "nm \<notin> subj_ops" "\<forall>i\<in>set ss. knows h i" "nm \<notin> uses_obj"
  shows "counted h (line (L_op nm args ss [] t) h)"
  using rec_inv_line [OF assms(1-3), of ss "[]" args t] assms(4,5) by (simp add: counted_def knows_def line_def)

text \<open>The subjects of a call have numbers, and what it passes is not a null pointer.\<close>

fun call_ok :: "rconf \<Rightarrow> client_call \<Rightarrow> rhost \<Rightarrow> bool" where
  "call_ok f (K_existingSubj s ts) h \<longleftrightarrow> sj_exe s \<noteq> None \<and> (\<forall>h'. length (rf_argv f s h') < max_args)"
| "call_ok f (K_existingObj s oo ts) h \<longleftrightarrow> ob_type oo = FILET"
| "call_ok f (K_clone s c flg ts) h \<longleftrightarrow> c \<noteq> None \<and> knows h (sj_id s)"
| "call_ok f (K_execve s oo flg ts) h \<longleftrightarrow> knows h (sj_id s)"
| "call_ok f (K_exit s st ts) h \<longleftrightarrow> knows h (sj_id s)"
| "call_ok f (K_ptrace s t req rv ts) h \<longleftrightarrow> knows h (sj_id s) \<and> knows h (sj_id t)"
| "call_ok f (K_setuid s euid ruid suid rv ts) h \<longleftrightarrow> knows h (sj_id s)"
| "call_ok f (K_setgid s egid rgid sgid rv ts) h \<longleftrightarrow> knows h (sj_id s)"
| "call_ok f (K_open s oo flg mode rv ts) h \<longleftrightarrow> knows h (sj_id s)"
| "call_ok f (K_mkdir s nm mode rv ts) h \<longleftrightarrow> knows h (sj_id s)"
| "call_ok f (K_read s oo fd rv ts) h \<longleftrightarrow> knows h (sj_id s)"
| "call_ok f (K_write s oo fd rv ts) h \<longleftrightarrow> knows h (sj_id s)"
| "call_ok f (K_mmap s oo adr len prot flg rv ts) h \<longleftrightarrow> knows h (sj_id s)"
| "call_ok f (K_rename s oo nm flg rv ts) h \<longleftrightarrow> knows h (sj_id s)"
| "call_ok f (K_unlink s oo rv ts) h \<longleftrightarrow> knows h (sj_id s)"
| "call_ok f (K_chmod s oo mode rv ts fd) h \<longleftrightarrow> knows h (sj_id s)"
| "call_ok f _ h \<longleftrightarrow> True"

lemma hdo_None: "f h = Fine ((), h') \<Longrightarrow> hdo f (hret None) h = Fine (None, h')"
  by (simp add: hdo_Fine hret_def)

lemma not_ops:
  "''exve'' \<notin> obj_ops" "''exit'' \<notin> obj_ops" "''suid'' \<notin> obj_ops" "''chmd'' \<notin> obj_ops" "''mmap'' \<notin> obj_ops" "''rm'' \<notin> obj_ops"
  "''renm'' \<notin> obj_ops" "''read'' \<notin> obj_ops" "''wrt'' \<notin> obj_ops" "''inj'' \<notin> obj_ops"
  "''exve'' \<notin> subj_ops" "''exit'' \<notin> subj_ops" "''suid'' \<notin> subj_ops" "''chmd'' \<notin> subj_ops" "''mmap'' \<notin> subj_ops" "''rm'' \<notin> subj_ops"
  "''renm'' \<notin> subj_ops" "''read'' \<notin> subj_ops" "''wrt'' \<notin> subj_ops" "''inj'' \<notin> subj_ops"
  "''exit'' \<notin> uses_obj" "''suid'' \<notin> uses_obj" "''inj'' \<notin> uses_obj"
  by (simp_all add: obj_ops_def subj_ops_def uses_obj_def)

lemma on_object_counted:
  assumes "rec_inv h" "unat (rh_oop h) < 2 ^ 48" "knows h s" "nm \<notin> obj_ops" "nm \<notin> subj_ops"
  shows "\<exists>x h'. hdo (known_obj f rp oo ts (\<lambda>i. doRec nm args t s i nulliid)) (hret None) h = Fine (x, h') \<and> counted h h'"
proof -
  obtain h' where k: "known_obj f rp oo ts (\<lambda>i. doRec nm args t s i nulliid) h = Fine ((), h')" "counted h h'"
    using known_obj_counted [OF assms] by blast
  have "hdo (known_obj f rp oo ts (\<lambda>i. doRec nm args t s i nulliid)) (hret None) h = Fine (None, h')"
    by (rule hdo_None) (rule k(1))
  then show ?thesis using k(2) by blast
qed

lemma setid_counted:
  assumes "rec_inv h" "knows h s"
  shows "\<exists>x h'. hdo (hbind (addLocalPrincipal u g PASSWORD) (\<lambda>p. h_setuid s p t)) (hret None) h = Fine (x, h') \<and> counted h h'"
proof -
  obtain p h1 where a: "addLocalPrincipal u g PASSWORD h = Fine (p, h1)" "silent h h1" using addLocal_silent by blast
  have "counted h1 (line (L_op ''suid'' [ucast p] (iid s @ iid nulliid) [] t) h1)"
    using assms(2) knows_silent [OF a(2)] by (intro line_counted rec_inv_silent [OF assms(1) a(2)] not_ops) (simp add: iid_def)
  then show ?thesis
    using counted_after_silent [OF a(2)] by (simp add: hdo_def hbind_def a(1) h_setuid_def doRec_line iid_def hret_def)
qed

lemma execve_counted:
  assumes "rec_inv h" "unat (rh_oop h) < 2 ^ 48" "knows h (sj_id s)"
  shows "\<exists>x h'. hdo (rec_execve f rp s oo ts) (hret None) h = Fine (x, h') \<and> counted h h'"
proof -
  obtain c h1 where m: "mkcmdln (rf_argv f s h) (rf_envp f s h) h = Fine (c, h1)" "silent h h1" using mkcmdln_silent by blast
  have "unat (rh_oop h1) < 2 ^ 48" "knows h1 (sj_id s)" using assms m(2) by (simp_all add: silent_def knows_def)
  then obtain h2 where k: "known_obj f rp oo ts (\<lambda>i. h_execve (sj_id s) c i (us ts)) h1 = Fine ((), h2)" "counted h1 h2"
    unfolding h_execve_def using known_obj_counted [OF rec_inv_silent [OF assms(1) m(2)]] not_ops by blast
  have "rec_execve f rp s oo ts h = Fine ((), h2)" by (simp add: rec_execve_def hbind_def m(1) k(1))
  then show ?thesis using counted_after_silent [OF m(2) k(2)] hdo_None by blast
qed

lemma existingSubj_counted:
  assumes "rec_inv h" "unat (rh_sop h) < 2 ^ 48" "sj_exe s \<noteq> None" "\<forall>h'. length (rf_argv f s h') < max_args"
  shows "\<exists>x h'. hbind (rec_existingSubj f s ts) (\<lambda>i. hret (Some i)) h = Fine (x, h') \<and> counted h h'"
proof -
  obtain exe where exe: "sj_exe s = Some exe" using assms(3) by blast
  obtain p h1 where a: "addLocalPrincipal (sj_uid s) (sj_gid s) PASSWORD h = Fine (p, h1)" "silent h h1" using addLocal_silent by blast
  obtain c h2 where m: "mkcmdln (h_str (ob_nm exe) h1 # drop 1 (rf_argv f s h1)) (rf_envp f s h1) h1 = Fine (c, h2)" "silent h1 h2"
    using mkcmdln_silent by blast
  let ?l = "L_op ''prS'' [scast (sj_tid s), ucast p, ucast c, scast (sj_ptid s), 0] [] [] (us ts)"
  have q: "silent h h2" by (rule silent_trans [OF a(2) m(2)])
  have "counted h2 (new_subject ?l h2)"
    using assms(2) q by (intro new_subject_counted rec_inv_silent [OF assms(1) q] ops) (simp_all add: silent_def)
  moreover have "rec_existingSubj f s ts h = Fine (rh_sop h2, new_subject ?l h2)"
    using assms(4) m(1) by (simp add: rec_existingSubj_def hbind_def a(1) exe subject_lines linorder_not_le)
  ultimately show ?thesis using counted_after_silent [OF q] by (simp add: hbind_def hret_def)
qed

lemma existingObj_counted:
  assumes "rec_inv h" "unat (rh_oop h) < 2 ^ 48" "ob_type oo = FILET"
  shows "\<exists>x h'. hdo (rec_existingObj oo ts) (hret None) h = Fine (x, h') \<and> counted h h'"
proof -
  obtain p h1 where a: "addLocalPrincipal (ob_uid oo) (ob_gid oo) PASSWORD h = Fine (p, h1)" "silent h h1" using addLocal_silent by blast
  let ?h = "give_number (ob_addr oo) (L_op ''CrLO'' [ucast (ob_nm oo), node_num NT_FILE, ucast p, ucast (ucast (ob_mode oo) :: u16)] [] [] (us ts)) h1"
  have "counted h1 ?h"
    using assms(2) a(2) by (intro give_number_counted rec_inv_silent [OF assms(1) a(2)] ops) (simp_all add: silent_def)
  moreover have "rec_existingObj oo ts h = Fine ((), ?h)"
    using assms(3) createObj_gives [of "ob_nm oo" p "us ts" False "ucast (ob_mode oo)" NT_FILE oo h1]
    by (simp add: rec_existingObj_def hbind_Fine [where f = "addLocalPrincipal (ob_uid oo) (ob_gid oo) PASSWORD", OF a(1)])
  ultimately show ?thesis using counted_after_silent [OF a(2)] hdo_None by blast
qed

lemma open_counted:
  assumes "rec_inv h" "unat (rh_oop h) < 2 ^ 48" "knows h (sj_id s)"
  shows "\<exists>x h'. hdo (rec_open s oo mode ts) (hret None) h = Fine (x, h') \<and> counted h h'"
proof (cases "oid_of oo h = nulliid")
  case True
  let ?h = "give_number (ob_addr oo) (L_op ''creat'' [node_num NT_FILE, ucast (ob_nm oo), ucast (ucast mode :: u16), 0] (iid (sj_id s)) [] (us ts)) h"
  have "counted h ?h" using assms by (intro give_number_counted ops) (simp_all add: iid_def)
  moreover have "rec_open s oo mode ts h = Fine ((), ?h)" using True by (simp add: rec_open_def creat_gives)
  ultimately show ?thesis using hdo_None by blast
next
  case False
  then have "rec_open s oo mode ts h = Fine ((), h)" by (simp add: rec_open_def hret_def)
  then show ?thesis using counted_silent [OF assms(1) silent_refl] hdo_None by blast
qed

lemmas host_ops = h_read_def h_write_def h_mmap_def h_rename_def h_remove_def h_chmod_def

lemma recorder_counted:
  assumes "rec_inv h" "unat (rh_oop h) < 2 ^ 48" "unat (rh_sop h) < 2 ^ 48" "call_ok f k h"
  shows "\<exists>x h'. recorder f rp k h = Fine (x, h') \<and> counted h h'"
proof -
  have obj: "knows h s \<Longrightarrow> nm \<notin> obj_ops \<Longrightarrow> nm \<notin> subj_ops \<Longrightarrow>
      \<exists>x h'. hdo (known_obj f rp oo ts (\<lambda>i. doRec nm args t s i nulliid)) (hret None) h = Fine (x, h') \<and> counted h h'" for s nm oo ts args t
    by (rule on_object_counted [OF assms(1,2)])
  have none: "\<exists>x h'. hret None h = Fine (x, h') \<and> counted h h'"
    using counted_silent [OF assms(1) silent_refl] by (simp add: hret_def)
  have conn: "\<exists>x h'. hdo (rec_createObj f rp oo 0 0 ts) (hret None) h = Fine (x, h') \<and> counted h h'" for oo ts
    using createObj_counted [OF assms(1,2), of f rp oo 0 0 ts] hdo_None by blast
  show ?thesis
  proof (cases k)
    case (K_existingSubj s ts)
    then show ?thesis using existingSubj_counted [OF assms(1,3)] assms(4) by simp
  next
    case (K_existingObj s oo ts)
    then show ?thesis using existingObj_counted [OF assms(1,2)] assms(4) by simp
  next
    case (K_clone s c flg ts)
    then obtain ch where "c = Some ch" using assms(4) by auto
    then show ?thesis
      using K_clone assms(4) new_subject_counted [OF assms(1,3) ops(4), of "iid (sj_id s)"]
      by (simp add: hbind_def rec_clone_def subject_lines hret_def iid_def)
  next
    case (K_execve s oo flg ts)
    then show ?thesis using execve_counted [OF assms(1,2)] assms(4) by simp
  next
    case (K_exit s st ts)
    then show ?thesis
      using assms(4) line_counted [OF assms(1) not_ops(2,12) _ not_ops(21), of "iid (sj_id s)"]
      by (simp add: h_exit_def hdo_def hbind_def doRec_line hret_def iid_def)
  next
    case (K_ptrace s t req rv ts)
    then show ?thesis
      using assms(4) line_counted [OF assms(1) not_ops(10,20) _ not_ops(23), of "iid (sj_id s) @ iid (sj_id t)"]
      by (auto simp: h_inject_def hdo_def hbind_def doRec_line hret_def iid_def)
  next
    case (K_setuid s)
    then show ?thesis using setid_counted [OF assms(1)] assms(4) by (simp add: rec_setuid_def)
  next
    case (K_setgid s)
    then show ?thesis using setid_counted [OF assms(1)] assms(4) by (simp add: rec_setgid_def)
  next
    case (K_mkdir s nm mode rv ts)
    then show ?thesis
      using assms(4) new_number_counted [OF assms(1,2) ops(2), of "iid (sj_id s)"]
      by (simp add: hbind_def creat_numbers hret_def iid_def)
  next
    case (K_open s oo flg mode rv ts)
    then show ?thesis using open_counted [OF assms(1,2)] assms(4) by simp
  qed (use none conn assms(4) in \<open>simp_all add: host_ops obj not_ops\<close>)
qed

section \<open>Properties\<close>

text \<open>All calls of a session are as \<open>call_ok\<close> says when they are made.\<close>

fun calls_ok :: "rconf \<Rightarrow> u32 \<Rightarrow> client_call list \<Rightarrow> rhost \<Rightarrow> bool" where
  "calls_ok f rp [] h \<longleftrightarrow> True"
| "calls_ok f rp (k # ks) h \<longleftrightarrow>
     call_ok f k h \<and> (case recorder f rp k h of Crash \<Rightarrow> True | Fine (_, h') \<Rightarrow> calls_ok f rp ks h')"

lemma record_calls_counted:
  assumes "rec_inv h" "unat (rh_oop h) + length ks < 2 ^ 48" "unat (rh_sop h) + length ks < 2 ^ 48" "calls_ok f rp ks h"
  shows "\<exists>h'. record_session f rp ks h = Fine ((), h') \<and> rec_inv h'"
  using assms
proof (induction ks arbitrary: h)
  case Nil
  have "silent h (h\<lparr>rh_lines := rh_lines h @ [L_end]\<rparr>)" by (simp add: silent_def)
  then show ?case using rec_inv_silent Nil(1) by (simp add: finishRecording_def put_line_def)
next
  case (Cons k ks)
  have "unat (rh_oop h) < 2 ^ 48" "unat (rh_sop h) < 2 ^ 48" "call_ok f k h" using Cons.prems by simp_all
  then obtain x h1 where r: "recorder f rp k h = Fine (x, h1)" "counted h h1" using recorder_counted [OF Cons.prems(1)] by blast
  have "rec_inv h1" "unat (rh_oop h1) + length ks < 2 ^ 48" "unat (rh_sop h1) + length ks < 2 ^ 48" "calls_ok f rp ks h1"
    using r Cons.prems by (simp_all add: counted_def)
  then show ?case using Cons.IH r(1) by (simp add: hbind_def)
qed

lemma start_value:
  "recorder_start empty_host = Fine (2, \<lparr>rh_lines = [L_start 1000, L_str (ascii ''_init''), L_user (ascii ''root'') 0,
      L_group (ascii ''root'') 0 [0], L_LP 0 0 2 1, L_user (ascii ''defaultUser'') (- 2), L_group (ascii ''defaultGrp'') (- 2) [- 2],
      L_LP (- 2) (- 2) 3 1, L_RI 0 0 12 1],
    rh_oop = 0, rh_sop = 1, rh_strs = [ascii ''_init''],
    rh_princs = [Enterprise_user 33 0 0 nullhid, Enterprise_user 49 (- 2) (- 2) nullhid, Remote_ip 193 0 0], rh_oid = \<lambda>_. nulloiid\<rparr>)"
  by (simp add: recorder_start_def empty_host_def hdo_def hbind_def startRecording_def put_line_def h_create_def next_subj_def
      addUser_def addGroup_def addLocalPrincipal_def addRemotePrincipal_def add_principal_def AUTH_OS_def PASSWORD_def IPADDR_def
      MAX_USER_AUTH_def MAX_REMOTE_AUTH_def AUTH_NONE_def atype_def)

lemma rec_inv_start:
  assumes "recorder_start empty_host = Fine (rp, h)"
  shows "rec_inv h \<and> rh_oop h = 0 \<and> rh_sop h = 1"
  using assms by (auto simp: start_value rec_inv_def made_def)

text \<open>
  (C7) The record file can be replayed: whatever the consumer tells the recorder, as long as it names
  subjects by numbers the recorder returned, passes no null pointer and an existing subject has fewer
  than 512 arguments, the recorder writes a file in which every
  number of a subject or an object is that of one made by an earlier line (subject 0 is the init
  process), counting the lines that make one as a reader does; every operation on an object
  names one, and no two objects of the consumer have the same number.
\<close>
theorem record_file_resolves:
  assumes "recorder_start empty_host = Fine (rp, h)" "length ks < 2 ^ 48 - 1" "calls_ok f rp ks h"
  shows "\<exists>h'. record_session f rp ks h = Fine ((), h') \<and> resolved 0 1 (rh_lines h')
    \<and> (\<forall>j k. rh_oid h' j = rh_oid h' k \<and> rh_oid h' j \<noteq> nulloiid \<longrightarrow> j = k)"
proof -
  have "rec_inv h" "rh_oop h = 0" "rh_sop h = 1" using rec_inv_start [OF assms(1)] by simp_all
  then obtain h' where "record_session f rp ks h = Fine ((), h')" "rec_inv h'"
    using record_calls_counted [of h ks f rp] assms(2,3) by auto
  then show ?thesis by (auto simp: rec_inv_def)
qed

definition sample_file :: obj where
  "sample_file = \<lparr>ob_nm = 0, ob_uid = 0, ob_gid = 0, ob_mtime = 0, ob_id = 7, ob_type = FILET, ob_mode = 0, ob_oid = nulloiid, ob_addr = 3\<rparr>"

definition sample_init :: subj where
  "sample_init = (subj_skeleton 0 1 1 1 0 0 0 True)\<lparr>sj_exe := Some sample_file\<rparr>"

definition sample_rconf :: rconf where
  "sample_rconf = \<lparr>rf_argv = \<lambda>_ _. [], rf_envp = \<lambda>_ _. [], rf_epoch = \<lambda>_. 0\<rparr>"

theorem record_file_resolves_witness:
  "\<exists>rp h h'. recorder_start empty_host = Fine (rp, h)
    \<and> record_session sample_rconf rp [K_existingSubj sample_init 1000, K_read sample_init sample_file 3 10 5000] h = Fine ((), h')
    \<and> resolved 0 1 (rh_lines h')"
proof -
  let ?ks = "[K_existingSubj sample_init 1000, K_read sample_init sample_file 3 10 5000]"
  obtain rp h where s: "recorder_start empty_host = Fine (rp, h)" using start_value by blast
  then have inv: "rec_inv h" "rh_oop h = 0" "rh_sop h = 1" using rec_inv_start by simp_all
  have ok: "call_ok sample_rconf (K_existingSubj sample_init 1000) h"
    by (simp add: sample_init_def sample_rconf_def max_args_def)
  obtain x h1 where r: "recorder sample_rconf rp (K_existingSubj sample_init 1000) h = Fine (x, h1)" "counted h h1"
    using recorder_counted [OF inv(1) _ _ ok] inv by auto
  have "0 < unat (rh_sop h1)" using r(2) inv(3) by (auto simp: counted_def)
  then have "knows h1 (sj_id sample_init)" by (simp add: knows_def sample_init_def subj_skeleton_def)
  then have "calls_ok sample_rconf rp ?ks h" using ok r(1) by (simp split: outcome.split del: recorder.simps)
  then show ?thesis using record_file_resolves [OF s, of ?ks sample_rconf] s by auto
qed

lemma ucast_16: "(ucast (w + 65536 :: s32) :: u16) = ucast w"
  by transfer (simp add: take_bit_eq_mod mod_mod_cancel)

text \<open>
  User and group numbers are cut to 16 bits: the recorder gives numbers that differ by 65536 the
  same principal, so what user 65536 owns is recorded as owned by root.
\<close>
theorem large_uid_is_root:
  "addLocalPrincipal (uid + 65536) (gid + 65536) a = addLocalPrincipal uid gid a \<and>
   addLocalPrincipal (uid + 65536) gid a = addLocalPrincipal uid gid a"
  unfolding addLocalPrincipal_def [abs_def] ucast_16 by simp

text \<open>A change of owner leaves no line.\<close>

lemma chown_unrecorded: "recorder f rp (K_chown s oo u g flg rv ts fd) h = Fine (None, h)"
  by (simp add: hret_def)

end
