(* ===== verification/Spec2Isabelle.thy ===== *)
theory Spec2Isabelle
  imports
    Prelude
    Kdarshan_Types Io_Probe Io_Probe_Props Fd_Table Kdarshan_Probe
    Path_Table Kdarshan_User Kdarshan_Session
    Bytes Event_Codes Wire_Format Cache_Props Cache_Bounds Obj_Id Audit_Handlers Audit_Execve
    Audit_Trace Audit_Props Audit_Calls
    Wire_Parser Wire_Roundtrip Umac3 Record_Parser Record_Loop Record_Events Stream_Events
    Stream_Items Stream_Read Capture_Writer Dlogger_Daemon Dlogger_Session
    Mfu_Select Mfu_Table Mfu_Props Mfu_Dict
    Consumer_State Consumer_Objects Consumer_Exec Consumer_Queue Consumer_Live Consumer_Order Consumer_Burst
    Consumer_Calls Consumer_Serve Consumer_Names Consumer_Props
    Recorder Recorder_Props
begin

text \<open>
  \<^bold>\<open>A verification of dlogger.\<close>

  \<^bold>\<open>The program.\<close> The repository records what processes do with files and with each other. Two
  families of BPF programs run in the kernel and two user-space programs drain them.

  \<^item> The \<^emph>\<open>I/O probe\<close> (\<^verbatim>\<open>src/dlogger.bpf.c\<close>) hooks the entry and exit of 24 file system calls. At
    entry it stashes the arguments of the thread, at exit it resolves the descriptor, updates the
    statistics of the file and logs an event. \<^verbatim>\<open>src/kdarshan.bpf.c\<close> is the same probe for one process.
  \<^item> \<^emph>\<open>kdarshan\<close> (\<^verbatim>\<open>src/kdarshan.c\<close>) drains the two ring buffers of the I/O probe, keeps the paths of
    files in a hash table, buffers the transfers, and prints a report in the format of Darshan.
  \<^item> The \<^emph>\<open>audit probe\<close> (\<^verbatim>\<open>src/eauditk.c\<close>) writes one compact binary record per system call into a
    per-CPU cache, sends the cache through a ring buffer, and can sign each record with a one-time
    polynomial authenticator computed in a chain of tail calls. The arguments a system call needs at
    its exit are kept in three maps with one entry per thread.
  \<^item> The \<^emph>\<open>daemon\<close> (\<^verbatim>\<open>src/dlogger.C\<close>, \<^verbatim>\<open>src/eauditd.C\<close>) drains the ring buffers of both probes, announces the
    paths of control groups, writes the messages of the audit probe with clock records in between to
    the capture file, and the transfers of the I/O probe to a table.
  \<^item> The \<^emph>\<open>parser\<close> (\<^verbatim>\<open>src/eParser.C\<close>, \<^verbatim>\<open>src/computehash.C\<close>) finds the records in the captured bytes,
    decodes them, checks the tags and calls a method of the consumer for each.
  \<^item> The \<^emph>\<open>consumer\<close> (\<^verbatim>\<open>src/eConsumer.C\<close>) joins the entry of a system call with its exit, puts the calls into
    the order of their sequence numbers, keeps track of processes, working directories, files and
    identifiers, and tells its clients (\<^verbatim>\<open>src/eClient.h\<close>) what happened to which object. One of them, the
    \<^emph>\<open>recorder\<close> (\<^verbatim>\<open>src/eRecorder.C\<close>), writes it to a file for a later analysis.
  \<^item> The \<^emph>\<open>tables\<close> of \<^verbatim>\<open>src/lib/BaseMFUTab.h\<close> are hash tables of bounded size that forget what is used least.

  \<^bold>\<open>Theories.\<close>
  \<^item> \<open>Prelude\<close>: words, BPF maps (an update that can fail for lack of room), and the locale \<open>append_log\<close>
    of components whose operations append to a byte stream.
  \<^item> \<open>Kdarshan_Types\<close>: \<^verbatim>\<open>src/kdarshan.h\<close> and \<^verbatim>\<open>src/dlogger.h\<close>; counters as functions of an enumeration.
  \<^item> \<open>Io_Probe\<close>: all handlers of \<^verbatim>\<open>src/dlogger.bpf.c\<close>, as functions of the environment of one
    invocation (what helpers and the tracepoint context return) and of the maps.
    \<open>Io_Probe_Props\<close>: reachable states as an inductive predicate, the locale \<open>probe_invariant\<close>, and its
    interpretation: the counters of a file are the summary of its logged transfers. \<open>Fd_Table\<close>: the
    descriptor map refines a table from (process, descriptor) to files.
  \<^item> \<open>Kdarshan_Probe\<close>: the helpers and all handlers of \<^verbatim>\<open>src/kdarshan.bpf.c\<close>, translated from that file on the
    state of \<open>Io_Probe\<close>, and the proof that the two programs agree.
  \<^item> \<open>Path_Table\<close>: the open-addressing table of \<^verbatim>\<open>src/kdarshan.c\<close>, its probing invariant, and the locale
    \<open>path_store\<close> it implements up to 1024 files. \<open>Kdarshan_User\<close>: configuration, exclusion, mounts,
    ring buffer handlers and report. \<open>Kdarshan_Session\<close>: probe, ring buffers and report together.
  \<^item> \<open>Bytes\<close>: memories and little-endian integers. \<open>Wire_Format\<close>: marshalling, record header, caches,
    locks and the \<^verbatim>\<open>log_sc_*\<close> functions of \<^verbatim>\<open>src/eauditk.c\<close>. \<open>Cache_Props\<close>: the bytes of a record as a
    function of its arguments (a specification), and the interpretation of \<open>append_log\<close> by a CPU's cache
    and messages. \<open>Cache_Bounds\<close>: how far the positions in a cache can get, also when messages are lost.
  \<^item> \<open>Event_Codes\<close>: record codes and weights of \<^verbatim>\<open>src/eauditk.h\<close>. \<open>Obj_Id\<close>: the identifiers of files, pipes
    and sockets. \<open>Audit_Handlers\<close>: all entry and exit handlers of \<^verbatim>\<open>src/eauditk.c\<close> as functions of the
    tracepoint and of the maps. \<open>Audit_Execve\<close>: the chain of programs that logs the strings of execve.
    \<open>Audit_Trace\<close>: which handler runs at which tracepoint, the locale \<open>arg_table\<close> of the three maps of
    pending arguments with its interpretations, and what each handler touches. \<open>Audit_Props\<close>: under any
    interleaving the probe simulates a machine that remembers the entry of each thread. \<open>Audit_Calls\<close>:
    one table that says for every system call but execve which records it leaves, and that the handlers
    log exactly those.
  \<^item> \<open>Wire_Parser\<close>: the field readers of \<^verbatim>\<open>src/eParser.C\<close>, as functions of the input and the global state
    with failure and abort as results. \<open>Wire_Roundtrip\<close>: they invert the probe.
  \<^item> \<open>Umac3\<close>: signing in the probe and tag computation in the parser.
  \<^item> \<open>Record_Parser\<close>: the record handlers of \<^verbatim>\<open>src/eParser.C\<close>, seeds and tags behind a record, and the
    \<open>switch\<close> over the record codes. \<open>Record_Loop\<close>: \<open>parse_buffer\<close> with its termination.
    \<open>Record_Events\<close>: the calls of the consumer for one record. \<open>Stream_Events\<close>: the whole way from the calls
    of the probe through cache, messages and capture file to the consumer, and the search for the next
    message after an error. \<open>Stream_Items\<close>: the pieces of a capture file and what the parser learns from
    each. \<open>Stream_Read\<close>: \<open>parse_stream\<close>, which reads the file in chunks.
  \<^item> \<open>Capture_Writer\<close>: \<^verbatim>\<open>src/eauditd.C\<close>, a second interpretation of \<open>append_log\<close> by the writer's buffer and file.
    \<open>Dlogger_Daemon\<close>: \<^verbatim>\<open>src/dlogger.C\<close>. \<open>Dlogger_Session\<close>: from the system calls through probe, daemon and file
    to the consumer.
  \<^item> \<open>Mfu_Select\<close>, \<open>Mfu_Table\<close>, \<open>Mfu_Props\<close>: \<^verbatim>\<open>src/lib/BaseMFUTab.h\<close>, the selection of a purge, the operations
    on the slots and their invariant; a selection that never ends and one that reads outside its array
    are different results. \<open>Mfu_Dict\<close>: the locale \<open>forgetful_dict\<close> of dictionaries that may lose
    entries that are not pinned, with the table as its interpretation.
  \<^item> \<open>Consumer_State\<close>: events, subjects, objects, calls of the clients, strings, endpoints and the search for
    the other half of a system call. \<open>Consumer_Objects\<close>: the tables of objects, identifiers and paths, and
    processes that were there before the log began. \<open>Consumer_Exec\<close>: one function per executed system call.
    \<open>Consumer_Queue\<close>: the queue; its functions call each other, so the pending calls are a list of
    tasks. \<open>Consumer_Live\<close>: the queue is consistent and its functions return. \<open>Consumer_Order\<close>: when an
    execution cannot touch a deleted subject, with the locales \<open>lasting\<close> and \<open>lasting_subject\<close> of
    conditions that executions preserve. \<open>Consumer_Burst\<close>: calls are executed in the order of
    their sequence numbers. \<open>Consumer_Calls\<close>: the methods the parser calls. \<open>Consumer_Serve\<close>: every method
    returns and the queue is empty at the end. \<open>Consumer_Names\<close>: the name of an identifier is kept until an
    event gives it another. \<open>Consumer_Props\<close>: what the clients learn.
  \<^item> \<open>Recorder\<close>: \<^verbatim>\<open>src/eRecorder.C\<close>, \<^verbatim>\<open>src/RecOnlyHost.C\<close> and \<^verbatim>\<open>src/lib/Record.C\<close>, the client that writes a record file.
    \<open>Recorder_Props\<close>: the file can be replayed.

  \<^bold>\<open>Bounds.\<close> Loops of the code with a constant bound keep it (five ancestors, 1024 slots, ten words per
  tail call). The kernel allows a chain of 33 tail calls; the chain is modelled with the number
  of calls left, and 18 are enough for the longest payload that is signed (712 bytes). Cache
  positions are natural numbers: they stay below \<^verbatim>\<open>BUFSIZE\<close> = 16256, so the 16-bit index cannot wrap. The
  loop of \<open>parse_stream\<close>, the search for a control group, the scan of all of them and \<open>run\<close>, the loop over the
  pending calls of the consumer's queue, are partial functions whose value \<open>None\<close> means that they do not
  return; all are proved to return, the two on directories because a path of \<^verbatim>\<open>PATH_MAX\<close> bytes or more
  cannot be opened. The selection of a purge is a partial function too; it is proved to end if the
  room for unpinned entries is at least eight and not nine and \<open>random()\<close> does not give multiples of one
  number for ever.

  \<^bold>\<open>Abstractions.\<close> An invocation of a handler is atomic, so races between CPUs on one map element are
  not modelled. Kernel and user memory, the file system, the clocks and the results of \<open>read\<close> and \<open>write\<close>
  are functions of the environment. Doubles of the report stay
  integers (nanoseconds). Printing is kept as tuples of the printed values. Subjects of the consumer have
  addresses in a store, so an access to a deleted one is a crash of the model (the exit of a thread deletes
  its subject and unlists it, except that the pinned entry of process 1 stays listed). Objects have
  addresses in a store too; an object that another one replaces in its table stays where it is, since only
  a purge deletes objects. The tables of the consumer (\<open>procMap\<close>, \<open>nm2oi_map\<close>, \<open>id2nm_map\<close>) are
  maps that forget nothing, which holds of the tables of \<open>Mfu_Dict\<close> as long as they are not full. The one byte
  that \<open>fullpath\<close> writes behind its buffer on the stack is not a crash of the model. Calls of
  the clients are kept in a list; the consumer is modelled without the recorder, which would choose the
  numbers of its subjects, and the recorder as a function of such a list.

  \<^bold>\<open>Not modelled.\<close> Key generation (\<^verbatim>\<open>src/keygen.c\<close>; a parameter of the verifier) and the key ring of
  the probe, the loading of the BPF programs and the polling of the ring buffers (calls of libraries),
  the printing client of the consumer (\<^verbatim>\<open>src/ePrinter.C\<close>, \<^verbatim>\<open>src/prthelper.C\<close>), the statistics and messages the consumer itself prints, the second version of its
  queue that is not compiled, generated headers, scripts and benchmarks.
\<close>

end
